(* ===== verification/Prelude.thy ===== *)
theory Prelude
  imports Main "HOL-Library.Word"
begin

text \<open>
  What the component theories share: the machine integer types, the first-match
  search that every fixed-size kernel table is scanned with, C strings, and the word
  facts used to move between machine arithmetic and \<open>nat\<close>.

  A C++ table \<open>T g_X[N]\<close> is a list of length \<open>N\<close>; a pointer into it, as the
  \<open>Find...\<close> functions return it, is an optional index (\<open>None\<close> for \<open>nullptr\<close>).
  A \<open>const char*\<close> is a \<open>string option\<close>: \<open>None\<close> is the null pointer and
  \<open>Some cs\<close> a NUL-terminated text with the characters \<open>cs\<close>.
\<close>

unbundle bit_operations_syntax

type_synonym u8 = "8 word"
type_synonym u16 = "16 word"
type_synonym u32 = "32 word"
type_synonym u64 = "64 word"
type_synonym cstring = "string option"

named_theorems table_simps \<open>facts about scans of and updates to kernel tables\<close>
named_theorems addr_simps \<open>facts about page addresses and alignment masks\<close>

subsection \<open>Scanning a table for the first match\<close>

fun find_index :: "('a \<Rightarrow> bool) \<Rightarrow> 'a list \<Rightarrow> nat option" where
  "find_index P [] = None"
| "find_index P (x # xs) = (if P x then Some 0 else map_option Suc (find_index P xs))"

lemma find_index_None [table_simps]: "find_index P xs = None \<longleftrightarrow> (\<forall>x \<in> set xs. \<not> P x)"
  by (induction xs) auto

lemma find_index_Some [table_simps]:
  "find_index P xs = Some i \<longleftrightarrow> i < length xs \<and> P (xs ! i) \<and> (\<forall>j < i. \<not> P (xs ! j))"
proof (induction xs arbitrary: i)
  case (Cons x xs)
  then show ?case
    by (cases i) (auto simp: less_Suc_eq_0_disj)
qed simp

lemma find_indexD:
  assumes "find_index P xs = Some i"
  shows "i < length xs" and "P (xs ! i)" and "\<And>j. j < i \<Longrightarrow> \<not> P (xs ! j)"
  using assms by (auto simp: find_index_Some)

lemma find_index_NoneD: "find_index P xs = None \<Longrightarrow> i < length xs \<Longrightarrow> \<not> P (xs ! i)"
  by (auto simp: find_index_None)

lemma find_index_append:
  "find_index P (xs @ ys) =
     (case find_index P xs of Some i \<Rightarrow> Some i | None \<Rightarrow> map_option (\<lambda>i. length xs + i) (find_index P ys))"
  by (cases "find_index P ys"; induction xs) (auto split: option.splits)

text \<open>Entry \<open>n\<close> of a table with a fill count is the next one to be used.\<close>

lemma take_next_entry: "n < length xs \<Longrightarrow> take (Suc n) (xs[n := v]) = take n xs @ [v]"
  by (simp add: take_Suc_conv_app_nth)

lemma find_index_nth_append:
  "find_index P xs = Some i \<Longrightarrow> (xs @ ys) ! i = xs ! i"
  using find_index_Some by (auto simp: nth_append)

lemma find_index_cong:
  "length xs = length ys \<Longrightarrow> (\<And>i. i < length xs \<Longrightarrow> P (xs ! i) = Q (ys ! i)) \<Longrightarrow>
    find_index P xs = find_index Q ys"
proof (induction xs ys rule: list_induct2)
  case (Cons x xs y ys)
  have "P x = Q y" using Cons.prems[of 0] by simp
  moreover have "find_index P xs = find_index Q ys"
    using Cons.prems[of "Suc i" for i] by (intro Cons.IH) auto
  ultimately show ?case by simp
qed simp

lemma find_index_update_same:
  assumes "find_index P xs = Some i" and "P y"
  shows "find_index P (xs[i := y]) = Some i"
  using assms by (auto simp: find_index_Some nth_list_update)

text \<open>When at most one entry can match, the first match is the match.\<close>

lemma find_index_unique:
  assumes "i < length xs" "P (xs ! i)" "\<And>j. j < length xs \<Longrightarrow> P (xs ! j) \<Longrightarrow> j = i"
  shows "find_index P xs = Some i"
proof -
  have "\<not> P (xs ! j)" if "j < i" for j
    using assms(1) assms(3)[of j] that by auto
  with assms(1,2) show ?thesis by (simp add: find_index_Some)
qed

text \<open>An update of one entry to one that does not match leaves the other matches alone.\<close>

lemma find_index_update_new:
  assumes "i < length xs" "\<not> P (xs ! i)" "P y" "\<forall>x \<in> set xs. \<not> P x"
  shows "find_index P (xs[i := y]) = Some i"
  using assms by (auto simp: find_index_Some nth_list_update)

lemma find_index_update_other:
  assumes "\<not> P (xs ! i)" "\<not> P y"
  shows "find_index P (xs[i := y]) = find_index P xs"
proof (cases "i < length xs")
  case True
  with assms show ?thesis by (intro find_index_cong) (auto simp: nth_list_update)
qed (simp add: list_update_beyond)

subsection \<open>Counting matches\<close>

definition count_if :: "('a \<Rightarrow> bool) \<Rightarrow> 'a list \<Rightarrow> nat" where
  "count_if P xs = length (filter P xs)"

lemma count_if_simps [simp, table_simps]:
  "count_if P [] = 0"
  "count_if P (x # xs) = (if P x then Suc (count_if P xs) else count_if P xs)"
  by (simp_all add: count_if_def)

lemma count_if_le_length: "count_if P xs \<le> length xs"
  by (simp add: count_if_def)

lemma count_if_update:
  "i < length xs \<Longrightarrow> count_if P (xs[i := y]) + of_bool (P (xs ! i)) = count_if P xs + of_bool (P y)"
proof (induction xs arbitrary: i)
  case (Cons x xs)
  then show ?case by (cases i) auto
qed simp

lemma count_if_pos: "i < length xs \<Longrightarrow> P (xs ! i) \<Longrightarrow> 0 < count_if P xs"
  by (auto simp: count_if_def filter_empty_conv dest: nth_mem)

subsection \<open>Tables whose live entries carry distinct ids\<close>

definition ids_ok :: "('a \<Rightarrow> bool) \<Rightarrow> ('a \<Rightarrow> u64) \<Rightarrow> 'a list \<Rightarrow> u64 \<Rightarrow> bool" where
  "ids_ok live ident xs bound \<longleftrightarrow>
     (\<forall>i < length xs. live (xs ! i) \<longrightarrow> 0 < ident (xs ! i) \<and> ident (xs ! i) < bound) \<and>
     (\<forall>i < length xs. \<forall>j < length xs. live (xs ! i) \<longrightarrow> live (xs ! j) \<longrightarrow>
        ident (xs ! i) = ident (xs ! j) \<longrightarrow> i = j)"

lemma ids_okD:
  assumes "ids_ok live ident xs bound" "i < length xs" "live (xs ! i)"
  shows "0 < ident (xs ! i)" "ident (xs ! i) < bound"
    and "j < length xs \<Longrightarrow> live (xs ! j) \<Longrightarrow> ident (xs ! j) = ident (xs ! i) \<Longrightarrow> j = i"
  using assms by (auto simp: ids_ok_def)

lemma ids_ok_pointwise:
  assumes "ids_ok live ident xs bound" "length ys = length xs"
    and "\<And>i. i < length xs \<Longrightarrow> live (ys ! i) \<Longrightarrow> live (xs ! i) \<and> ident (ys ! i) = ident (xs ! i)"
  shows "ids_ok live ident ys bound"
  unfolding ids_ok_def
proof (intro conjI allI impI)
  show "0 < ident (ys ! i)" "ident (ys ! i) < bound" if "i < length ys" "live (ys ! i)" for i
    using assms(2) assms(3)[of i] ids_okD(1,2)[OF assms(1), of i] that by simp_all
  show "i = j" if "i < length ys" "j < length ys" "live (ys ! i)" "live (ys ! j)"
      "ident (ys ! i) = ident (ys ! j)" for i j
    by (rule ids_okD(3)[OF assms(1), of j i]) (use assms(2) assms(3)[of i] assms(3)[of j] that in simp_all)
qed

lemma ids_ok_update:
  assumes "ids_ok live ident xs bound" "live y \<Longrightarrow> live (xs ! i) \<and> ident y = ident (xs ! i)"
  shows "ids_ok live ident (xs[i := y]) bound"
proof (rule ids_ok_pointwise[OF assms(1)])
  show "live (xs ! j) \<and> ident (xs[i := y] ! j) = ident (xs ! j)"
    if "j < length xs" "live (xs[i := y] ! j)" for j
    using that assms(2) by (cases "i = j") auto
qed simp

lemma ids_ok_map:
  assumes "ids_ok live ident xs bound" "\<And>x. live (f x) \<Longrightarrow> live x \<and> ident (f x) = ident x"
  shows "ids_ok live ident (map f xs) bound"
  using assms(2) by (intro ids_ok_pointwise[OF assms(1)]) auto

text \<open>A new entry takes the id counter, which moves up by one.\<close>

lemma ids_ok_new:
  assumes "ids_ok live ident xs bound" "ident y = bound" "0 < bound" "unat bound < 18446744073709551615"
  shows "ids_ok live ident (xs[i := y]) (bound + 1)"
proof -
  have "unat (bound + 1) = Suc (unat bound)" using assms(4) by (simp add: unat_word_ariths)
  then have lt: "x < bound \<Longrightarrow> x < bound + 1" "bound < bound + 1" for x
    by (simp_all add: word_less_nat_alt)
  have old: "ident (xs[i := y] ! l) \<noteq> bound" "xs[i := y] ! l = xs ! l"
    if "l \<noteq> i" "l < length xs" "live (xs[i := y] ! l)" for l
    using ids_okD(2)[OF assms(1), of l] that by auto
  have new: "i < length xs \<Longrightarrow> xs[i := y] ! i = y" by simp
  show ?thesis
    unfolding ids_ok_def
  proof (intro conjI allI impI)
    show "0 < ident (xs[i := y] ! j)" "ident (xs[i := y] ! j) < bound + 1"
      if "j < length (xs[i := y])" "live (xs[i := y] ! j)" for j
      using that ids_okD(1,2)[OF assms(1), of j] assms(2,3) lt by (cases "j = i"; simp)+
    show "j = k" if a: "j < length (xs[i := y])" "k < length (xs[i := y])" "live (xs[i := y] ! j)"
        "live (xs[i := y] ! k)" "ident (xs[i := y] ! j) = ident (xs[i := y] ! k)" for j k
    proof (cases "j = i \<or> k = i")
      case True
      show ?thesis
      proof (rule ccontr)
        assume "j \<noteq> k"
        then show False using True old(1)[of j] old(1)[of k] new assms(2) a by (metis length_list_update)
      qed
    next
      case False
      then show ?thesis using a by (intro ids_okD(3)[OF assms(1), of k j]) simp_all
    qed
  qed
qed

lemma ids_ok_bound:
  "ids_ok live ident xs b \<Longrightarrow> b \<le> c \<Longrightarrow> ids_ok live ident xs c"
  by (auto simp: ids_ok_def)

lemma ids_ok_find:
  assumes "ids_ok live ident xs bound" "i < length xs" "live (xs ! i)"
  shows "find_index (\<lambda>x. live x \<and> ident x = ident (xs ! i)) xs = Some i"
  using assms(2,3) ids_okD(3)[OF assms] by (intro find_index_unique) auto

subsection \<open>C strings\<close>

fun string_equals_loop :: "string \<Rightarrow> string \<Rightarrow> bool" where
  "string_equals_loop (a # as) (b # bs) = (if a \<noteq> b then False else string_equals_loop as bs)"
| "string_equals_loop as bs = (as = [] \<and> bs = [])"

definition StringEquals :: "cstring \<Rightarrow> cstring \<Rightarrow> bool" where
  "StringEquals a b =
     (case a of None \<Rightarrow> False
      | Some x \<Rightarrow> (case b of None \<Rightarrow> False | Some y \<Rightarrow> string_equals_loop x y))"

definition StringLength :: "cstring \<Rightarrow> nat" where
  "StringLength t = (case t of None \<Rightarrow> 0 | Some x \<Rightarrow> length x)"

lemma string_equals_loop_eq [simp]: "string_equals_loop a b \<longleftrightarrow> a = b"
  by (induction a b rule: string_equals_loop.induct) auto

lemma StringEquals_iff: "StringEquals a b \<longleftrightarrow> (\<exists>x. a = Some x \<and> b = Some x)"
  by (auto simp: StringEquals_def split: option.splits)

lemma StringEquals_simps [simp]:
  "\<not> StringEquals None b" "\<not> StringEquals a None"
  "StringEquals (Some x) (Some y) \<longleftrightarrow> x = y"
  by (auto simp: StringEquals_def split: option.splits)

lemma StringLength_simps [simp]: "StringLength None = 0" "StringLength (Some x) = length x"
  by (simp_all add: StringLength_def)

subsection \<open>Words\<close>

lemma unat_add_no_wrap:
  "unat (a :: 'l::len word) + unat b < 2 ^ LENGTH('l) \<Longrightarrow> unat (a + b) = unat a + unat b"
  by (simp add: unat_word_ariths)

lemma unat_sub_no_wrap: "b \<le> a \<Longrightarrow> unat (a - b) = unat a - unat (b :: 'l::len word)"
  by (simp add: unat_sub)

lemma u64_lt: "unat (x :: u64) < 18446744073709551616"
  using unsigned_less[of x] by simp

lemma u32_lt: "unat (x :: u32) < 4294967296"
  using unsigned_less[of x] by simp

lemma unat_Suc_u32: "unat (n :: u32) < 4294967295 \<Longrightarrow> unat (n + 1) = Suc (unat n)"
  by (simp add: unat_word_ariths)

lemma unat_of_nat_u64: "n < 18446744073709551616 \<Longrightarrow> unat (of_nat n :: u64) = n"
  by (simp add: unat_of_nat take_bit_nat_eq_self)

lemma word_and_le_right: "(a AND b) \<le> (b :: 'l::len word)"
  by (simp add: word_and_le1)

text \<open>The code's alignment idiom: \<open>value & ~(alignment - 1)\<close> and its rounding-up twin.\<close>

definition AlignDown :: "u64 \<Rightarrow> u64 \<Rightarrow> u64" where
  "AlignDown value alignment = value AND NOT (alignment - 1)"

definition AlignUp :: "u64 \<Rightarrow> u64 \<Rightarrow> u64" where
  "AlignUp value alignment = (value + alignment - 1) AND NOT (alignment - 1)"

lemma and_not_mask: "(x :: 'l::len word) AND NOT (mask k) = push_bit k (drop_bit k x)"
  by (rule bit_word_eqI) (auto simp: bit_simps)

lemma unat_and_not_mask:
  "unat ((x :: 'l::len word) AND NOT (mask k)) = unat x div 2 ^ k * 2 ^ k"
proof -
  have "unat x div 2 ^ k * 2 ^ k \<le> unat x" by (rule div_times_less_eq_dividend)
  then have "unat x div 2 ^ k * 2 ^ k < 2 ^ LENGTH('l)"
    using unsigned_less[of x] by (rule le_less_trans)
  then show ?thesis
    by (simp add: and_not_mask unsigned_push_bit_eq unsigned_drop_bit_eq
        push_bit_nat_def drop_bit_nat_def take_bit_nat_eq_self)
qed

lemma power_two_minus_one: "(2 ^ k :: 'l::len word) - 1 = mask k"
  by (simp add: mask_eq_exp_minus_1)

lemma unat_AlignDown: "unat (AlignDown x (2 ^ k)) = unat x div 2 ^ k * 2 ^ k"
  by (simp add: AlignDown_def power_two_minus_one unat_and_not_mask)

lemma AlignDown_4096: "unat (AlignDown x 4096) = unat x div 4096 * 4096"
  using unat_AlignDown[of x 12] by simp

lemma AlignUp_eq_AlignDown: "AlignUp x a = AlignDown (x + a - 1) a"
  by (simp add: AlignUp_def AlignDown_def)

end
