(* ===== verification/Interfaces.thy ===== *)
theory Interfaces
  imports Prelude "HOL-Library.Multiset"
begin

text \<open>
  The contracts between components, as locales.

  \<^item> \<open>page_provider\<close>: what the page managers (copy-on-write, shared memory, slab, swap,
    page cache, mappings) rely on when they ask for physical pages. Provided by
    \<open>PhysicalMemoryManager::AllocatePage\<close> and \<open>FreePage\<close> (theory PhysMem).
  \<^item> \<open>bounded_queue\<close>: a bounded first-in first-out queue. Provided by the per-process IPC
    ring of the scheduler (theory Scheduler) and the GUI event ring (theory GuiEvents).
  \<^item> \<open>registry\<close>: a table of named entries with replace-or-insert registration and lookup.
    Provided by the environment and loader cache of userspace and by the performance
    counters (theories Userspace and Performance).
\<close>

subsection \<open>Page providers\<close>

locale page_provider =
  fixes ok :: "'s \<Rightarrow> bool"
    and valid :: "u64 \<Rightarrow> bool"
    and used :: "'s \<Rightarrow> u64 \<Rightarrow> bool"
    and alloc :: "'s \<Rightarrow> u64 \<times> 's"
    and release :: "'s \<Rightarrow> u64 \<Rightarrow> 's"
  assumes alloc_page: "ok s \<Longrightarrow> alloc s = (a, s') \<Longrightarrow> a \<noteq> 0 \<Longrightarrow>
      valid a \<and> \<not> used s a \<and> ok s' \<and> used s' a \<and> (\<forall>b. valid b \<longrightarrow> b \<noteq> a \<longrightarrow> used s' b = used s b)"
    and alloc_fails: "ok s \<Longrightarrow> alloc s = (0, s') \<Longrightarrow> s' = s"
    and alloc_progress: "ok s \<Longrightarrow> valid a \<Longrightarrow> \<not> used s a \<Longrightarrow> fst (alloc s) \<noteq> 0"
    and release_page: "ok s \<Longrightarrow> valid a \<Longrightarrow>
      ok (release s a) \<and> \<not> used (release s a) a \<and>
      (\<forall>b. valid b \<longrightarrow> b \<noteq> a \<longrightarrow> used (release s a) b = used s b)"
    and valid_nonzero: "valid a \<Longrightarrow> a \<noteq> 0"
begin

lemma alloc_ok: "ok s \<Longrightarrow> ok (snd (alloc s))"
  by (cases "alloc s"; cases "fst (alloc s) = 0") (auto dest: alloc_page alloc_fails)

lemma alloc_keeps_used: "ok s \<Longrightarrow> valid b \<Longrightarrow> used s b \<Longrightarrow> used (snd (alloc s)) b"
  by (cases "alloc s"; cases "fst (alloc s) = 0") (auto dest: alloc_page alloc_fails)

lemma alloc_new: "ok s \<Longrightarrow> alloc s = (a, s') \<Longrightarrow> a \<noteq> 0 \<Longrightarrow> used s b \<Longrightarrow> a \<noteq> b"
  by (auto dest: alloc_page)

lemma alloc_used: "ok s \<Longrightarrow> alloc s = (a, s') \<Longrightarrow> a \<noteq> 0 \<Longrightarrow> valid b \<Longrightarrow>
    used s' b \<longleftrightarrow> b = a \<or> used s b"
  by (metis alloc_page)

lemma release_used: "ok s \<Longrightarrow> valid a \<Longrightarrow> valid b \<Longrightarrow> used (release s a) b \<longleftrightarrow> b \<noteq> a \<and> used s b"
  by (metis release_page)

lemma release_makes_room: "ok s \<Longrightarrow> valid a \<Longrightarrow> fst (alloc (release s a)) \<noteq> 0"
  using release_page alloc_progress by blast

text \<open>Two successive allocations never return the same page.\<close>

lemma alloc_twice_distinct:
  "ok s \<Longrightarrow> alloc s = (a, s') \<Longrightarrow> a \<noteq> 0 \<Longrightarrow> alloc s' = (b, s'') \<Longrightarrow> b \<noteq> 0 \<Longrightarrow> a \<noteq> b"
  by (metis alloc_page)

text \<open>Releasing a list of pages frees exactly these pages.\<close>

lemma release_many:
  "ok s \<Longrightarrow> \<forall>a \<in> set xs. valid a \<Longrightarrow>
    ok (foldl release s xs) \<and>
    (\<forall>b. valid b \<longrightarrow> used (foldl release s xs) b = (b \<notin> set xs \<and> used s b))"
proof (induction xs arbitrary: s)
  case (Cons x xs)
  from Cons.prems have x: "ok (release s x)" "valid x"
    by (auto dest: release_page)
  with Cons.prems Cons.IH[of "release s x"] show ?case
    by (auto simp: release_used)
qed simp

text \<open>
  Ownership: a client holds the pages \<open>M\<close> if they are valid, in use, and each of them is
  held once. A client's operation is correct if it turns \<open>owns s (M + R)\<close> into
  \<open>owns s' (M' + R)\<close> for the pages \<open>R\<close> of all other clients.
\<close>

definition owns :: "'s \<Rightarrow> u64 multiset \<Rightarrow> bool" where
  "owns s M \<longleftrightarrow> ok s \<and> (\<forall>a \<in># M. valid a \<and> used s a) \<and> (\<forall>a. count M a \<le> 1)"

lemma owns_ok: "owns s M \<Longrightarrow> ok s"
  by (simp add: owns_def)

lemma owns_alloc:
  assumes "owns s M" "alloc s = (a, s')" "a \<noteq> 0"
  shows "owns s' (add_mset a M)" "a \<notin># M" "valid a"
proof -
  have a: "valid a" "\<not> used s a" "ok s'" "used s' a" "\<And>b. valid b \<Longrightarrow> b \<noteq> a \<Longrightarrow> used s' b = used s b"
    using alloc_page[OF owns_ok[OF assms(1)] assms(2,3)] by auto
  then show "a \<notin># M" "valid a" using assms(1) by (auto simp: owns_def)
  then show "owns s' (add_mset a M)"
    using assms(1) a by (auto simp: owns_def not_in_iff)
qed

lemma owns_alloc_fails: "owns s M \<Longrightarrow> alloc s = (0, s') \<Longrightarrow> s' = s"
  using alloc_fails owns_ok by blast

lemma owns_release:
  assumes "owns s (add_mset a M)"
  shows "owns (release s a) M"
proof -
  have v: "valid a" and ok: "ok s" using assms by (auto simp: owns_def)
  have "a \<notin># M"
  proof
    assume "a \<in># M"
    then have "count (add_mset a M) a \<ge> 2" by simp
    then show False using assms by (metis Suc_1 not_less_eq_eq owns_def)
  qed
  moreover have "count M b \<le> 1" for b
    using assms by (metis (no_types) count_add_mset le_SucI owns_def Suc_le_mono order.refl order.trans)
  ultimately show ?thesis
    using assms release_page[OF ok v] by (auto simp: owns_def)
qed

lemma owns_distinct:
  assumes "owns s (A + B)" "a \<in># A"
  shows "a \<notin># B"
proof -
  have "count A a + count B a \<le> 1" using assms(1) by (auto simp: owns_def)
  moreover have "0 < count A a" using assms(2) by (simp only: count_greater_zero_iff)
  ultimately have "count B a = 0" by linarith
  then show ?thesis by (simp add: not_in_iff)
qed

lemma owns_mono: "owns s (A + B) \<Longrightarrow> owns s A"
  by (auto simp: owns_def) (meson add_leE)

end

subsection \<open>Pages held by the entries of a table\<close>

definition table_frames :: "('e \<Rightarrow> u64 multiset) \<Rightarrow> 'e list \<Rightarrow> u64 multiset" where
  "table_frames f xs = sum_list (map f xs)"

lemma table_frames_update:
  "i < length xs \<Longrightarrow> table_frames f (xs[i := y]) + f (xs ! i) = table_frames f xs + f y"
proof (induction xs arbitrary: i)
  case (Cons x xs)
  then show ?case by (cases i) (auto simp: table_frames_def ac_simps)
qed simp

lemma table_frames_add:
  "i < length xs \<Longrightarrow> f (xs ! i) = {#} \<Longrightarrow> table_frames f (xs[i := y]) = f y + table_frames f xs"
  using table_frames_update[of i xs f y] by (simp add: ac_simps)

lemma table_frames_remove:
  "i < length xs \<Longrightarrow> f y = {#} \<Longrightarrow> table_frames f xs = f (xs ! i) + table_frames f (xs[i := y])"
  using table_frames_update[of i xs f y] by (simp add: ac_simps)

lemma table_frames_same:
  "i < length xs \<Longrightarrow> f y = f (xs ! i) \<Longrightarrow> table_frames f (xs[i := y]) = table_frames f xs"
  using table_frames_update[of i xs f y] by simp

lemma table_frames_mem: "i < length xs \<Longrightarrow> a \<in># f (xs ! i) \<Longrightarrow> a \<in># table_frames f xs"
  by (induction xs arbitrary: i) (auto simp: table_frames_def nth_Cons split: nat.splits)

lemma table_frames_empty: "\<forall>x \<in> set xs. f x = {#} \<Longrightarrow> table_frames f xs = {#}"
  by (induction xs) (auto simp: table_frames_def)

text \<open>Two entries of one table never hold the same page.\<close>

lemma table_frames_disjoint:
  assumes "i < length xs" "j < length xs" "i \<noteq> j" "a \<in># f (xs ! i)" "a \<in># f (xs ! j)"
  shows "2 \<le> count (table_frames f xs) a"
  using assms
proof (induction xs arbitrary: i j)
  case (Cons x xs)
  have pos: "0 < count (table_frames f xs) a" if "k < length xs" "a \<in># f (xs ! k)" for k
    using table_frames_mem[where f = f, OF that] by simp
  show ?case
  proof (cases i; cases j)
    fix k assume "i = 0" "j = Suc k"
    then show ?thesis using Cons.prems pos[of k] by (auto simp: table_frames_def simp flip: count_greater_zero_iff)
  next
    fix k assume "i = Suc k" "j = 0"
    then show ?thesis using Cons.prems pos[of k] by (auto simp: table_frames_def simp flip: count_greater_zero_iff)
  next
    fix k l assume "i = Suc k" "j = Suc l"
    then have "2 \<le> count (table_frames f xs) a" using Cons.prems by (intro Cons.IH[of k l]) auto
    then show ?thesis by (simp add: table_frames_def)
  qed (use Cons.prems in auto)
qed simp

subsection \<open>Bounded queues\<close>

locale bounded_queue =
  fixes cap :: nat
    and inv :: "'q \<Rightarrow> bool"
    and items :: "'q \<Rightarrow> 'a list"
    and push :: "'q \<Rightarrow> 'a \<Rightarrow> 'q option"
    and pop :: "'q \<Rightarrow> ('a \<times> 'q) option"
  assumes items_le: "inv q \<Longrightarrow> length (items q) \<le> cap"
    and push_room: "inv q \<Longrightarrow> length (items q) < cap \<Longrightarrow>
      \<exists>q'. push q x = Some q' \<and> inv q' \<and> items q' = items q @ [x]"
    and push_full: "inv q \<Longrightarrow> length (items q) = cap \<Longrightarrow> push q x = None"
    and pop_empty: "inv q \<Longrightarrow> items q = [] \<Longrightarrow> pop q = None"
    and pop_first: "inv q \<Longrightarrow> items q = x # xs \<Longrightarrow>
      \<exists>q'. pop q = Some (x, q') \<and> inv q' \<and> items q' = xs"
begin

fun push_all :: "'q \<Rightarrow> 'a list \<Rightarrow> 'q option" where
  "push_all q [] = Some q"
| "push_all q (x # xs) = (case push q x of None \<Rightarrow> None | Some q' \<Rightarrow> push_all q' xs)"

fun pop_n :: "nat \<Rightarrow> 'q \<Rightarrow> ('a list \<times> 'q) option" where
  "pop_n 0 q = Some ([], q)"
| "pop_n (Suc n) q = (case pop q of None \<Rightarrow> None
     | Some (x, q') \<Rightarrow> (case pop_n n q' of None \<Rightarrow> None | Some (xs, q'') \<Rightarrow> Some (x # xs, q'')))"

lemma push_Some_iff: "inv q \<Longrightarrow> (\<exists>q'. push q x = Some q') \<longleftrightarrow> length (items q) < cap"
  using push_room[of q x] push_full[of q x] items_le[of q] by fastforce

lemma push_items: "inv q \<Longrightarrow> push q x = Some q' \<Longrightarrow> inv q' \<and> items q' = items q @ [x]"
  using push_room[of q x] push_full[of q x] items_le[of q] by fastforce

lemma pop_items: "inv q \<Longrightarrow> pop q = Some (x, q') \<Longrightarrow> inv q' \<and> items q = x # items q'"
  using pop_empty[of q] pop_first[of q] by (cases "items q") fastforce+

lemma push_all_room:
  "inv q \<Longrightarrow> length (items q) + length xs \<le> cap \<Longrightarrow>
    \<exists>q'. push_all q xs = Some q' \<and> inv q' \<and> items q' = items q @ xs"
proof (induction xs arbitrary: q)
  case (Cons x xs)
  then obtain q' where "push q x = Some q'" "inv q'" "items q' = items q @ [x]"
    using push_room[of q x] by auto
  with Cons.IH[of q'] Cons.prems show ?case by simp
qed simp

lemma pop_n_items:
  "inv q \<Longrightarrow> n \<le> length (items q) \<Longrightarrow>
    \<exists>q'. pop_n n q = Some (take n (items q), q') \<and> inv q' \<and> items q' = drop n (items q)"
proof (induction n arbitrary: q)
  case (Suc n)
  then obtain x xs where xs: "items q = x # xs" by (cases "items q") auto
  with Suc.prems obtain q' where "pop q = Some (x, q')" "inv q'" "items q' = xs"
    using pop_first[of q x xs] by auto
  with Suc.IH[of q'] Suc.prems xs show ?case by auto
qed simp

text \<open>First in, first out: what is pushed onto an empty queue is popped in order.\<close>

lemma fifo:
  assumes "inv q" "items q = []" "length xs \<le> cap" "push_all q xs = Some q'"
  shows "\<exists>q''. pop_n (length xs) q' = Some (xs, q'') \<and> items q'' = []"
  using assms push_all_room[of q xs] pop_n_items[of q' "length xs"] by auto

end

subsection \<open>Registries\<close>

locale registry =
  fixes inv :: "'t \<Rightarrow> bool"
    and lookup :: "'t \<Rightarrow> 'k \<Rightarrow> 'v option"
    and register :: "'t \<Rightarrow> 'k \<Rightarrow> 'v \<Rightarrow> 't option"
  assumes register_inv: "inv t \<Longrightarrow> register t k v = Some t' \<Longrightarrow> inv t'"
    and register_lookup: "inv t \<Longrightarrow> register t k v = Some t' \<Longrightarrow> lookup t' = (lookup t)(k \<mapsto> v)"
    and register_known: "inv t \<Longrightarrow> lookup t k \<noteq> None \<Longrightarrow> register t k v \<noteq> None"
begin

lemma register_replaces:
  assumes "inv t" "register t k v = Some t'" "register t' k w = Some t''"
  shows "lookup t'' = (lookup t)(k \<mapsto> w)"
  using assms register_lookup register_inv by (metis fun_upd_upd)

lemma register_again:
  assumes "inv t" "register t k v = Some t'"
  shows "\<exists>t''. register t' k w = Some t''"
proof -
  have "lookup t' k \<noteq> None" using register_lookup[OF assms] by simp
  then show ?thesis using register_known[OF register_inv[OF assms]] by auto
qed

lemma register_commute:
  assumes "inv t" "k \<noteq> l"
    and "register t k v = Some t1" "register t1 l w = Some t12"
    and "register t l w = Some t2" "register t2 k v = Some t21"
  shows "lookup t12 = lookup t21"
  using assms register_lookup register_inv by (metis fun_upd_twist)

fun register_all :: "'t \<Rightarrow> ('k \<times> 'v) list \<Rightarrow> 't option" where
  "register_all t [] = Some t"
| "register_all t ((k, v) # kvs) = (case register t k v of None \<Rightarrow> None | Some t' \<Rightarrow> register_all t' kvs)"

text \<open>After a run of registrations every key has its last value.\<close>

lemma register_all_lookup:
  "inv t \<Longrightarrow> register_all t kvs = Some t' \<Longrightarrow> inv t' \<and> lookup t' = lookup t ++ map_of (rev kvs)"
proof (induction t kvs rule: register_all.induct)
  case (2 t k v kvs)
  then obtain t1 where t1: "register t k v = Some t1" "register_all t1 kvs = Some t'" by (auto split: option.splits)
  have i: "inv t1" by (rule register_inv[OF 2(2) t1(1)])
  have "inv t' \<and> lookup t' = lookup t1 ++ map_of (rev kvs)" by (rule 2(1)[OF t1(1) i t1(2)])
  moreover have "lookup t1 ++ map_of (rev kvs) = lookup t ++ map_of (rev ((k, v) # kvs))"
    by (rule ext) (auto simp: register_lookup[OF 2(2) t1(1)] map_add_def map_of_append split: option.split)
  ultimately show ?case by simp
qed simp

text \<open>Keys already known can always be registered again.\<close>

lemma register_all_known:
  "inv t \<Longrightarrow> \<forall>k \<in> fst ` set kvs. lookup t k \<noteq> None \<Longrightarrow> \<exists>t'. register_all t kvs = Some t'"
proof (induction t kvs rule: register_all.induct)
  case (2 t k v kvs)
  then obtain t1 where t1: "register t k v = Some t1" using register_known[of t k v] by fastforce
  have "\<forall>l \<in> fst ` set kvs. lookup t1 l \<noteq> None"
    using 2(3) register_lookup[OF 2(2) t1] by auto
  then show ?case using 2(1)[OF t1 register_inv[OF 2(2) t1]] t1 by simp
qed simp

end

subsection \<open>Append-only tables\<close>

text \<open>
  A fixed-size table entries are only added to; a search returns the first entry of a key,
  so that an entry once added is never changed or hidden by later ones.
\<close>

locale append_table =
  fixes inv :: "'t \<Rightarrow> bool"
    and room :: "'t \<Rightarrow> nat"
    and valid :: "'k \<Rightarrow> bool"
    and lookup :: "'t \<Rightarrow> 'k \<Rightarrow> 'v option"
    and add :: "'t \<Rightarrow> 'k \<Rightarrow> 'v \<Rightarrow> 't option"
  assumes add_full: "inv t \<Longrightarrow> room t = 0 \<or> \<not> valid k \<Longrightarrow> add t k v = None"
    and add_room: "inv t \<Longrightarrow> 0 < room t \<Longrightarrow> valid k \<Longrightarrow>
      \<exists>t'. add t k v = Some t' \<and> inv t' \<and> room t' = room t - 1 \<and>
        (\<forall>l. lookup t' l = (if l = k \<and> lookup t k = None then Some v else lookup t l))"
begin

fun add_all :: "'t \<Rightarrow> ('k \<times> 'v) list \<Rightarrow> 't option" where
  "add_all t [] = Some t"
| "add_all t ((k, v) # kvs) = (case add t k v of None \<Rightarrow> None | Some t' \<Rightarrow> add_all t' kvs)"

lemma addE:
  assumes "inv t" "add t k v = Some t'"
  obtains "0 < room t" "valid k" "inv t'" "room t' = room t - 1"
    "\<And>l. lookup t' l = (if l = k \<and> lookup t k = None then Some v else lookup t l)"
  using assms add_full[of t k v] add_room[of t k v] by (cases "room t = 0 \<or> \<not> valid k") auto

text \<open>A run of additions succeeds exactly when the table has room for all of them.\<close>

lemma add_all_room:
  "inv t \<Longrightarrow> (\<exists>t'. add_all t kvs = Some t') \<longleftrightarrow> length kvs \<le> room t \<and> (\<forall>k \<in> fst ` set kvs. valid k)"
proof (induction t kvs rule: add_all.induct)
  case (2 t k v kvs)
  show ?case
  proof (cases "add t k v")
    case None
    then have "room t = 0 \<or> \<not> valid k" using add_room[OF 2(2), of k v] by (cases "room t") auto
    then show ?thesis using None by auto
  next
    case (Some t')
    from 2(2) Some show ?thesis
    proof (rule addE)
      assume "0 < room t" "valid k" "inv t'" "room t' = room t - 1"
      then show ?thesis using 2(1)[OF Some] Some by auto
    qed
  qed
qed simp

text \<open>What is found after a run of additions: the old entry, else the first one added.\<close>

lemma add_all_lookup:
  "inv t \<Longrightarrow> add_all t kvs = Some t' \<Longrightarrow>
    inv t' \<and> lookup t' l = (case lookup t l of Some v \<Rightarrow> Some v | None \<Rightarrow> map_of kvs l)"
proof (induction t kvs rule: add_all.induct)
  case (2 t k v kvs)
  then obtain t1 where t1: "add t k v = Some t1" "add_all t1 kvs = Some t'" by (auto split: option.splits)
  from 2(2) t1(1) show ?case
  proof (rule addE)
    assume a: "inv t1" "\<And>l. lookup t1 l = (if l = k \<and> lookup t k = None then Some v else lookup t l)"
    show ?thesis using 2(1)[OF t1(1) a(1) t1(2)] a(2) by (auto split: option.splits)
  qed
qed (simp split: option.split)

end

end
