(* ===== verification/PhysMem.thy ===== *)
theory PhysMem
  imports Interfaces
begin

text \<open>
  \<^verbatim>\<open>kernel/src/kernel.cpp\<close>: the physical page bitmap and its manager
  (\<open>PhysicalMemoryManager\<close>), the bump heap behind \<open>KernelAllocate\<close>, the 2 MiB page
  manager, the NUMA front end and the 4 GiB identity map.

  The bitmap bytes are kept as bytes: a set bit is a page in use. Page numbers are
  \<open>nat\<close> where the code bounds them by \<open>kManagedPageCount\<close>; addresses, counts and the
  manager's counters are 64-bit words and wrap.
\<close>

subsection \<open>The boot information handed over by the loader (common/boot\_info.hpp)\<close>

record FramebufferInfo =
  fb_base_address :: u64
  fb_width :: u32
  fb_height :: u32
  fb_pixels_per_scanline :: u32
  fb_format :: u32

record MemoryMapInfo =
  mm_buffer :: u64
  mm_map_size :: u64
  mm_map_key :: u64
  mm_descriptor_size :: u64
  mm_descriptor_version :: u32

record CPUInfo =
  ci_vendor :: string
  ci_family :: u32
  ci_model :: u32
  ci_stepping :: u32

record BootInfo =
  bi_framebuffer :: FramebufferInfo
  bi_memory :: MemoryMapInfo
  bi_system_table :: u64
  bi_runtime_services :: u64
  bi_rsdp :: u64
  bi_kernel_base :: u64
  bi_kernel_size :: u64
  bi_boot_time :: u64
  bi_cpu :: CPUInfo

record KernelMemoryDescriptor =
  kd_type :: u32
  kd_physical_start :: u64
  kd_virtual_start :: u64
  kd_number_of_pages :: u64
  kd_attribute :: u64

definition kEfiConventionalMemory :: u32 where "kEfiConventionalMemory = 7"
definition kPageSize :: u64 where "kPageSize = 4096"
definition kManagedMemoryLimit :: u64 where "kManagedMemoryLimit = 0x100000000"
definition kManagedPageCount :: nat where "kManagedPageCount = 1048576"
definition kHeapInitialPages :: u64 where "kHeapInitialPages = 128"
definition kHugePageSize :: u64 where "kHugePageSize = 2097152"
definition kHugePagePages :: u64 where "kHugePagePages = 512"
definition kDescriptorStructSize :: u64 where "kDescriptorStructSize = 40"

subsection \<open>The page bitmap\<close>

record PhysicalMemoryManager =
  g_PhysicalPageBitmap :: "nat \<Rightarrow> u8"
  m_TotalPages :: u64
  m_FreePages :: u64
  m_UsedPages :: u64

definition IsPageFree :: "PhysicalMemoryManager \<Rightarrow> nat \<Rightarrow> bool" where
  "IsPageFree s page \<longleftrightarrow> (g_PhysicalPageBitmap s (page div 8) AND push_bit (page mod 8) 1) = 0"

definition SetPage :: "PhysicalMemoryManager \<Rightarrow> nat \<Rightarrow> bool \<Rightarrow> PhysicalMemoryManager" where
  "SetPage s page free =
     (let mask = push_bit (page mod 8) (1 :: u8);
          was_free = IsPageFree s page;
          byte = g_PhysicalPageBitmap s (page div 8);
          s1 = s\<lparr>g_PhysicalPageBitmap := (g_PhysicalPageBitmap s)
                   (page div 8 := if free then byte AND NOT mask else byte OR mask)\<rparr>
      in if free \<and> \<not> was_free then
           s1\<lparr>m_FreePages := m_FreePages s1 + 1,
              m_UsedPages := if m_UsedPages s1 > 0 then m_UsedPages s1 - 1 else m_UsedPages s1\<rparr>
         else if \<not> free \<and> was_free then
           s1\<lparr>m_FreePages := if m_FreePages s1 > 0 then m_FreePages s1 - 1 else m_FreePages s1,
              m_UsedPages := m_UsedPages s1 + 1\<rparr>
         else s1)"

text \<open>The loop \<open>for (page = start; page < start + count && page < kManagedPageCount; page++)\<close>.\<close>

definition MarkPages :: "PhysicalMemoryManager \<Rightarrow> u64 \<Rightarrow> u64 \<Rightarrow> bool \<Rightarrow> PhysicalMemoryManager" where
  "MarkPages s start_page page_count free =
     foldl (\<lambda>s page. SetPage s page free) s
       [unat start_page ..< min (unat (start_page + page_count)) kManagedPageCount]"

definition MarkRange :: "PhysicalMemoryManager \<Rightarrow> u64 \<Rightarrow> u64 \<Rightarrow> bool \<Rightarrow> PhysicalMemoryManager" where
  "MarkRange s address page_count free = MarkPages s (address div kPageSize) page_count free"

definition ReserveRange :: "PhysicalMemoryManager \<Rightarrow> u64 \<Rightarrow> u64 \<Rightarrow> PhysicalMemoryManager" where
  "ReserveRange s address byte_count =
     (if byte_count = 0 \<or> address \<ge> kManagedMemoryLimit then s
      else let start = AlignDown address kPageSize;
               end = AlignUp (address + byte_count) kPageSize
           in MarkRange s start ((end - start) div kPageSize) False)"

function alloc_scan :: "(nat \<Rightarrow> bool) \<Rightarrow> u64 \<Rightarrow> u64 \<Rightarrow> nat \<Rightarrow> nat \<Rightarrow> nat \<Rightarrow> nat option" where
  "alloc_scan is_free page_count alignment_pages page run_start run_length =
     (if page < kManagedPageCount then
        if is_free page then
          if run_length = 0 \<and> (of_nat page AND (alignment_pages - 1)) \<noteq> 0 then
            alloc_scan is_free page_count alignment_pages (Suc page) run_start run_length
          else
            let run_start' = (if run_length = 0 then page else run_start)
            in if of_nat (Suc run_length) = page_count then Some run_start'
               else alloc_scan is_free page_count alignment_pages (Suc page) run_start' (Suc run_length)
        else alloc_scan is_free page_count alignment_pages (Suc page) run_start 0
      else None)"
  by pat_completeness auto
termination
  by (relation "measure (\<lambda>(_, _, _, page, _, _). kManagedPageCount - page)") auto

declare alloc_scan.simps [simp del]

definition AllocateAligned ::
    "PhysicalMemoryManager \<Rightarrow> u64 \<Rightarrow> u64 \<Rightarrow> u64 \<times> PhysicalMemoryManager" where
  "AllocateAligned s page_count alignment_pages =
     (if page_count = 0 \<or> page_count > m_FreePages s then (0, s)
      else if alignment_pages = 0 \<or> (alignment_pages AND (alignment_pages - 1)) \<noteq> 0 then (0, s)
      else case alloc_scan (IsPageFree s) page_count alignment_pages 0 0 0 of
             None \<Rightarrow> (0, s)
           | Some run_start \<Rightarrow>
               (of_nat run_start * kPageSize, MarkPages s (of_nat run_start) page_count False))"

definition AllocateContiguous :: "PhysicalMemoryManager \<Rightarrow> u64 \<Rightarrow> u64 \<times> PhysicalMemoryManager" where
  "AllocateContiguous s page_count = AllocateAligned s page_count 1"

definition AllocatePage :: "PhysicalMemoryManager \<Rightarrow> u64 \<times> PhysicalMemoryManager" where
  "AllocatePage s = AllocateContiguous s 1"

definition FreePage :: "PhysicalMemoryManager \<Rightarrow> u64 \<Rightarrow> PhysicalMemoryManager" where
  "FreePage s address = MarkRange s address 1 True"

definition FreeContiguous :: "PhysicalMemoryManager \<Rightarrow> u64 \<Rightarrow> u64 \<Rightarrow> PhysicalMemoryManager" where
  "FreeContiguous s address page_count =
     (if (address AND (kPageSize - 1)) = 0 \<and> page_count \<noteq> 0
      then MarkRange s address page_count True else s)"

subsection \<open>Initialisation from the UEFI memory map\<close>

text \<open>
  The descriptors are read from memory at \<open>buffer + i * descriptor_size\<close>: \<open>read_desc\<close> is
  the memory the loader filled, a parameter. The link-time addresses of the bitmap and the
  page tables are parameters too.
\<close>

record KernelLayout =
  addr_PhysicalPageBitmap :: u64
  addr_Pml4 :: u64
  addr_Pdpt :: u64
  addr_PageDirectories :: u64

definition init_descriptor ::
    "PhysicalMemoryManager \<Rightarrow> KernelMemoryDescriptor \<Rightarrow> PhysicalMemoryManager" where
  "init_descriptor s desc =
     (let start = AlignUp (kd_physical_start desc) kPageSize;
          end = AlignDown (kd_physical_start desc + kd_number_of_pages desc * kPageSize) kPageSize
      in if end \<le> start \<or> start \<ge> kManagedMemoryLimit then s
         else
           let clamped_end = (if end > kManagedMemoryLimit then kManagedMemoryLimit else end);
               page_count = (clamped_end - start) div kPageSize;
               s1 = s\<lparr>m_TotalPages := m_TotalPages s + page_count\<rparr>
           in if kd_type desc = kEfiConventionalMemory then MarkRange s1 start page_count True else s1)"

definition init_reserve :: "KernelLayout \<Rightarrow> BootInfo \<Rightarrow> PhysicalMemoryManager \<Rightarrow> PhysicalMemoryManager" where
  "init_reserve lay boot_info s =
     (let s1 = ReserveRange s 0 0x100000;
          s2 = ReserveRange s1 (bi_kernel_base boot_info) (bi_kernel_size boot_info);
          fb = bi_framebuffer boot_info;
          s3 = ReserveRange s2 (fb_base_address fb)
                 (ucast (fb_height fb) * ucast (fb_pixels_per_scanline fb) * 4);
          s4 = ReserveRange s3 (addr_PhysicalPageBitmap lay) 131072;
          s5 = ReserveRange s4 (addr_Pml4 lay) 4096;
          s6 = ReserveRange s5 (addr_Pdpt lay) 4096
      in ReserveRange s6 (addr_PageDirectories lay) 16384)"

definition Init ::
    "KernelLayout \<Rightarrow> (u64 \<Rightarrow> KernelMemoryDescriptor) \<Rightarrow> BootInfo \<Rightarrow> PhysicalMemoryManager
      \<Rightarrow> bool \<times> PhysicalMemoryManager" where
  "Init lay read_desc boot_info s =
     (let mm = bi_memory boot_info in
      if mm_buffer mm = 0 \<or> mm_descriptor_size mm < kDescriptorStructSize then (False, s)
      else
        let s0 = s\<lparr>g_PhysicalPageBitmap := (\<lambda>_. 0xFF), m_TotalPages := 0, m_FreePages := 0,
                   m_UsedPages := of_nat kManagedPageCount\<rparr>;
            entry_count = mm_map_size mm div mm_descriptor_size mm;
            s1 = foldl (\<lambda>s i. init_descriptor s
                   (read_desc (mm_buffer mm + of_nat i * mm_descriptor_size mm)))
                   s0 [0 ..< unat entry_count];
            s2 = init_reserve lay boot_info s1
        in (m_FreePages s2 > 0, s2))"

subsection \<open>The bitmap as a set of free pages\<close>

lemma IsPageFree_bit: "IsPageFree s p \<longleftrightarrow> \<not> bit (g_PhysicalPageBitmap s (p div 8)) (p mod 8)"
  by (simp add: IsPageFree_def and_exp_eq_0_iff_not_bit)

lemma IsPageFree_SetPage [simp]: "IsPageFree (SetPage s p f) q = (if q = p then f else IsPageFree s q)"
proof -
  have same: "q div 8 = p div 8 \<Longrightarrow> q mod 8 = p mod 8 \<Longrightarrow> q = p"
    by (metis div_mult_mod_eq)
  show ?thesis
    by (auto simp: IsPageFree_bit SetPage_def Let_def bit_simps dest: same)
qed

definition free_set :: "PhysicalMemoryManager \<Rightarrow> nat set" where
  "free_set s = {p. p < kManagedPageCount \<and> IsPageFree s p}"

lemma finite_free_set [simp]: "finite (free_set s)"
  by (simp add: free_set_def)

lemma card_free_set: "card (free_set s) \<le> kManagedPageCount"
proof -
  have "free_set s \<subseteq> {..< kManagedPageCount}" by (auto simp: free_set_def)
  then show ?thesis using card_mono[of "{..< kManagedPageCount}" "free_set s"] by simp
qed

lemma free_set_SetPage:
  "p < kManagedPageCount \<Longrightarrow>
    free_set (SetPage s p f) = (if f then insert p (free_set s) else free_set s - {p})"
  by (auto simp: free_set_def)

text \<open>The accounting invariant: the two counters are the sizes of the free set and its complement.\<close>

definition pmm_accounts :: "PhysicalMemoryManager \<Rightarrow> bool" where
  "pmm_accounts s \<longleftrightarrow> unat (m_FreePages s) = card (free_set s) \<and>
     unat (m_UsedPages s) = kManagedPageCount - card (free_set s)"

lemma pmm_accounts_SetPage:
  assumes "pmm_accounts s" "p < kManagedPageCount"
  shows "pmm_accounts (SetPage s p f)"
proof -
  let ?F = "free_set s"
  have le: "card ?F \<le> kManagedPageCount" by (rule card_free_set)
  have mem: "IsPageFree s p \<longleftrightarrow> p \<in> ?F" using assms(2) by (simp add: free_set_def)
  have lt: "p \<notin> ?F \<Longrightarrow> card ?F < kManagedPageCount"
  proof -
    assume "p \<notin> ?F"
    then have "?F \<subset> {..< kManagedPageCount}" using assms(2) by (auto simp: free_set_def)
    then show ?thesis using psubset_card_mono[of "{..< kManagedPageCount}" ?F] by simp
  qed
  have pos: "p \<in> ?F \<Longrightarrow> 0 < card ?F" by (auto simp: card_gt_0_iff)
  have M: "kManagedPageCount = 1048576" by (simp add: kManagedPageCount_def)
  have fp: "unat (m_FreePages s) = card ?F" and up: "unat (m_UsedPages s) = 1048576 - card ?F"
    using assms(1) by (simp_all add: pmm_accounts_def M)
  have inc: "\<And>x :: u64. unat x < 1048577 \<Longrightarrow> unat (x + 1) = Suc (unat x)"
    by (simp add: unat_word_ariths)
  have dec: "\<And>x :: u64. 0 < unat x \<Longrightarrow> unat (x - 1) = unat x - 1"
    by (simp add: unat_sub word_le_nat_alt Suc_leI)
  have card': "card (free_set (SetPage s p f)) =
      (if f then (if p \<in> ?F then card ?F else Suc (card ?F)) else card ?F - (if p \<in> ?F then 1 else 0))"
    using assms(2) by (simp add: free_set_SetPage card_insert_if card_Diff_singleton_if)
  show ?thesis
  proof (cases f; cases "p \<in> ?F")
    assume "f" "p \<notin> ?F"
    then show ?thesis
      using le lt fp up M mem card' inc[of "m_FreePages s"] dec[of "m_UsedPages s"]
      by (auto simp: pmm_accounts_def SetPage_def Let_def word_less_nat_alt)
  next
    assume "\<not> f" "p \<in> ?F"
    then show ?thesis
      using le pos fp up M mem card' inc[of "m_UsedPages s"] dec[of "m_FreePages s"]
      by (auto simp: pmm_accounts_def SetPage_def Let_def word_less_nat_alt)
  qed (use fp up M mem card' in \<open>auto simp: pmm_accounts_def SetPage_def Let_def\<close>)
qed

lemma foldl_SetPage:
  "IsPageFree (foldl (\<lambda>s p. SetPage s p f) s ps) q = (if q \<in> set ps then f else IsPageFree s q)"
  by (induction ps arbitrary: s) auto

lemma IsPageFree_MarkPages:
  "IsPageFree (MarkPages s st n f) q =
    (if unat st \<le> q \<and> q < unat (st + n) \<and> q < kManagedPageCount then f else IsPageFree s q)"
  by (auto simp: MarkPages_def foldl_SetPage)

lemma pmm_accounts_foldl:
  "pmm_accounts s \<Longrightarrow> \<forall>p \<in> set ps. p < kManagedPageCount \<Longrightarrow>
    pmm_accounts (foldl (\<lambda>s p. SetPage s p f) s ps)"
  by (induction ps arbitrary: s) (auto intro: pmm_accounts_SetPage)

lemma pmm_accounts_MarkPages: "pmm_accounts s \<Longrightarrow> pmm_accounts (MarkPages s st n f)"
  unfolding MarkPages_def by (rule pmm_accounts_foldl) auto

lemma pmm_accounts_MarkRange: "pmm_accounts s \<Longrightarrow> pmm_accounts (MarkRange s a n f)"
  by (simp add: MarkRange_def pmm_accounts_MarkPages)

lemma pmm_accounts_ReserveRange: "pmm_accounts s \<Longrightarrow> pmm_accounts (ReserveRange s a n)"
  by (simp add: ReserveRange_def Let_def pmm_accounts_MarkRange)

lemma ReserveRange_keeps_used: "\<not> IsPageFree s q \<Longrightarrow> \<not> IsPageFree (ReserveRange s a n) q"
  by (simp add: ReserveRange_def Let_def MarkRange_def IsPageFree_MarkPages)

subsection \<open>First fit: the scan finds the lowest aligned run of free pages\<close>

definition page_run :: "(nat \<Rightarrow> bool) \<Rightarrow> nat \<Rightarrow> u64 \<Rightarrow> nat \<Rightarrow> bool" where
  "page_run is_free n alignment r \<longleftrightarrow>
     (of_nat r AND (alignment - 1)) = (0 :: u64) \<and> r + n \<le> kManagedPageCount \<and>
     (\<forall>p. r \<le> p \<longrightarrow> p < r + n \<longrightarrow> is_free p)"

definition scan_inv :: "(nat \<Rightarrow> bool) \<Rightarrow> nat \<Rightarrow> u64 \<Rightarrow> nat \<Rightarrow> nat \<Rightarrow> nat \<Rightarrow> bool" where
  "scan_inv is_free n al page start len \<longleftrightarrow> len < n \<and> page \<le> kManagedPageCount \<and>
     (if len = 0 then \<forall>r < page. \<not> page_run is_free n al r
      else start + len = page \<and> (of_nat start AND (al - 1)) = (0 :: u64) \<and>
        (\<forall>p. start \<le> p \<longrightarrow> p < page \<longrightarrow> is_free p) \<and> (\<forall>r < start. \<not> page_run is_free n al r))"

lemma page_run_blocked: "\<not> is_free q \<Longrightarrow> r \<le> q \<Longrightarrow> q < r + n \<Longrightarrow> \<not> page_run is_free n al r"
  by (auto simp: page_run_def)

lemma alloc_scan_correct:
  assumes "scan_inv is_free (unat n) al page start len"
  shows "case alloc_scan is_free n al page start len of
           None \<Rightarrow> \<forall>r. \<not> page_run is_free (unat n) al r
         | Some r \<Rightarrow> page_run is_free (unat n) al r \<and> (\<forall>r' < r. \<not> page_run is_free (unat n) al r')"
  using assms
proof (induction is_free n al page start len rule: alloc_scan.induct)
  case (1 is_free n al page start len)
  note inv = "1.prems"
  show ?case
  proof (cases "page < kManagedPageCount")
    case False
    then have end_: "page = kManagedPageCount" using inv by (auto simp: scan_inv_def)
    have "\<not> page_run is_free (unat n) al r" for r
      using inv end_ by (cases "len = 0"; cases "r < start")
        (auto simp: scan_inv_def page_run_def not_less)
    with False show ?thesis by (subst alloc_scan.simps) simp
  next
    case True
    consider (used) "\<not> is_free page"
      | (skip) "is_free page" "len = 0" "(of_nat page AND (al - 1)) \<noteq> 0"
      | (take) "is_free page" "\<not> (len = 0 \<and> (of_nat page AND (al - 1)) \<noteq> 0)"
      by blast
    then show ?thesis
    proof cases
      case used
      have "\<not> page_run is_free (unat n) al r" if "r < Suc page" for r
        using inv used that page_run_blocked[of is_free page r "unat n" al]
        by (cases "len = 0"; cases "r < start"; cases "r = page") (auto simp: scan_inv_def)
      then have "scan_inv is_free (unat n) al (Suc page) start 0"
        using inv True by (auto simp: scan_inv_def)
      from "1.IH"(3)[OF True used this] show ?thesis
        using True used by (subst alloc_scan.simps) simp
    next
      case skip
      have "scan_inv is_free (unat n) al (Suc page) start len"
        using inv True skip by (auto simp: scan_inv_def less_Suc_eq page_run_def)
      from "1.IH"(1)[OF True skip(1) _ this] show ?thesis
        using True skip by (subst alloc_scan.simps) simp
    next
      case take
      define start' where "start' = (if len = 0 then page else start)"
      have len_lt: "Suc len \<le> unat n" "len \<le> page"
        using inv by (auto simp: scan_inv_def split: if_splits)
      have eq_iff: "of_nat (Suc len) = n \<longleftrightarrow> Suc len = unat n"
        using len_lt True by (auto simp: kManagedPageCount_def word_unat_eq_iff unat_of_nat_u64
            simp del: of_nat_Suc)
      have run: "start' + Suc len = Suc page" "(of_nat start' AND (al - 1)) = (0 :: u64)"
        "\<And>p. start' \<le> p \<Longrightarrow> p < Suc page \<Longrightarrow> is_free p"
        "\<And>r. r < start' \<Longrightarrow> \<not> page_run is_free (unat n) al r"
        using inv take by (auto simp: scan_inv_def start'_def less_Suc_eq split: if_splits)
      show ?thesis
      proof (cases "Suc len = unat n")
        case True': True
        have "page_run is_free (unat n) al start'"
          using run True' True by (auto simp: page_run_def)
        with run(4) show ?thesis
          using True take True' eq_iff
          by (subst alloc_scan.simps) (auto simp: start'_def[symmetric])
      next
        case False
        then have "scan_inv is_free (unat n) al (Suc page) start' (Suc len)"
          using run True len_lt by (auto simp: scan_inv_def)
        from "1.IH"(2)[OF True take(1) take(2) start'_def _ this] show ?thesis
          using True take False eq_iff
          by (subst alloc_scan.simps) (auto simp: start'_def[symmetric])
      qed
    qed
  qed
qed

subsection \<open>Allocation, release and reservation\<close>

lemma managed_unat: "r < kManagedPageCount \<Longrightarrow> unat (of_nat r :: u64) = r"
  by (simp add: unat_of_nat_u64 kManagedPageCount_def)

lemma page_address:
  assumes "r < kManagedPageCount"
  shows "unat (of_nat r * kPageSize :: u64) = r * 4096"
    and "(of_nat r * kPageSize = (0 :: u64)) \<longleftrightarrow> r = 0"
proof -
  show *: "unat (of_nat r * kPageSize :: u64) = r * 4096"
    using assms by (simp add: kPageSize_def kManagedPageCount_def unat_word_ariths
        take_bit_nat_eq_self unat_of_nat_u64)
  show "(of_nat r * kPageSize = (0 :: u64)) \<longleftrightarrow> r = 0"
    using * by (metis mult_is_0 unat_0 unat_eq_zero zero_neq_numeral)
qed

lemma page_run_bound: "page_run f n al r \<Longrightarrow> 0 < n \<Longrightarrow> r < kManagedPageCount"
  by (auto simp: page_run_def)

lemma page_run_free_set: "page_run (IsPageFree s) n al r \<Longrightarrow> n \<le> card (free_set s)"
proof -
  assume "page_run (IsPageFree s) n al r"
  then have "{r ..< r + n} \<subseteq> free_set s" by (auto simp: page_run_def free_set_def)
  from card_mono[OF _ this] show ?thesis by simp
qed

lemma alloc_scan_Some_iff:
  assumes "n \<noteq> 0"
  shows "alloc_scan f n al 0 0 0 = Some r \<longleftrightarrow>
    page_run f (unat n) al r \<and> (\<forall>r' < r. \<not> page_run f (unat n) al r')"
proof -
  have "scan_inv f (unat n) al 0 0 0"
    using assms by (simp add: scan_inv_def unat_gt_0)
  from alloc_scan_correct[OF this] show ?thesis
    by (cases "alloc_scan f n al 0 0 0") (auto dest: linorder_neqE_nat)
qed

lemma alloc_scan_None_iff:
  assumes "n \<noteq> 0"
  shows "alloc_scan f n al 0 0 0 = None \<longleftrightarrow> (\<forall>r. \<not> page_run f (unat n) al r)"
proof -
  have "scan_inv f (unat n) al 0 0 0"
    using assms by (simp add: scan_inv_def unat_gt_0)
  from alloc_scan_correct[OF this] show ?thesis
    by (cases "alloc_scan f n al 0 0 0") auto
qed

definition pow2_check :: "u64 \<Rightarrow> bool" where
  "pow2_check a \<longleftrightarrow> a \<noteq> 0 \<and> (a AND (a - 1)) = 0"

lemma pow2_check_1 [simp]: "pow2_check 1" and pow2_check_512 [simp]: "pow2_check 512"
  by (simp_all add: pow2_check_def)

lemma AllocateAligned_cases:
  assumes "pmm_accounts s" "n \<noteq> 0" "pow2_check al"
  obtains (fit) r where "page_run (IsPageFree s) (unat n) al r"
      "\<forall>r' < r. \<not> page_run (IsPageFree s) (unat n) al r'"
      "AllocateAligned s n al = (of_nat r * kPageSize, MarkPages s (of_nat r) n False)"
    | (none) "\<forall>r. \<not> page_run (IsPageFree s) (unat n) al r" "AllocateAligned s n al = (0, s)"
proof (cases "alloc_scan (IsPageFree s) n al 0 0 0")
  case None
  then show ?thesis
    using assms None by (intro none) (auto simp: alloc_scan_None_iff[symmetric] AllocateAligned_def pow2_check_def)
next
  case (Some r)
  then have run: "page_run (IsPageFree s) (unat n) al r"
    "\<forall>r' < r. \<not> page_run (IsPageFree s) (unat n) al r'"
    using assms(2) by (simp_all add: alloc_scan_Some_iff)
  have "n \<le> m_FreePages s"
    using page_run_free_set[OF run(1)] assms(1) by (simp add: word_le_nat_alt pmm_accounts_def)
  with Some run assms show ?thesis
    by (intro fit[of r]) (auto simp: AllocateAligned_def pow2_check_def)
qed

lemma run_marked:
  assumes "page_run f (unat n) al r" "n \<noteq> 0"
  shows "IsPageFree (MarkPages s (of_nat r) n b) q =
    (if r \<le> q \<and> q < r + unat n then b else IsPageFree s q)"
proof -
  have r: "r + unat n \<le> kManagedPageCount" "0 < unat n"
    using assms by (auto simp: page_run_def unat_gt_0)
  then have "unat (of_nat r + n :: u64) = r + unat n" "unat (of_nat r :: u64) = r"
    by (auto simp: unat_word_ariths managed_unat kManagedPageCount_def)
  with r show ?thesis by (auto simp: IsPageFree_MarkPages)
qed

lemma IsPageFree_FreePage:
  "IsPageFree (FreePage s a) q =
    (if q = unat a div 4096 \<and> q < kManagedPageCount then True else IsPageFree s q)"
proof -
  have "unat (a div kPageSize) = unat a div 4096"
    by (simp add: unat_div kPageSize_def)
  moreover have "unat (a div kPageSize + 1) = Suc (unat a div 4096)"
    using u64_lt[of a] by (simp add: unat_div kPageSize_def unat_word_ariths)
  ultimately show ?thesis
    by (auto simp: FreePage_def MarkRange_def IsPageFree_MarkPages)
qed

lemma pmm_accounts_FreePage: "pmm_accounts s \<Longrightarrow> pmm_accounts (FreePage s a)"
  by (simp add: FreePage_def pmm_accounts_MarkRange)

lemma pmm_accounts_FreeContiguous: "pmm_accounts s \<Longrightarrow> pmm_accounts (FreeContiguous s a n)"
  by (simp add: FreeContiguous_def pmm_accounts_MarkRange)

lemma pmm_accounts_AllocateAligned:
  "pmm_accounts s \<Longrightarrow> pmm_accounts (snd (AllocateAligned s n al))"
  by (auto simp: AllocateAligned_def pmm_accounts_MarkPages split: option.split)

text \<open>What the page managers see of the physical memory: whole pages of the managed range.\<close>

definition pmm_ok :: "PhysicalMemoryManager \<Rightarrow> bool" where
  "pmm_ok s \<longleftrightarrow> pmm_accounts s \<and> \<not> IsPageFree s 0"

definition page_frame :: "u64 \<Rightarrow> bool" where
  "page_frame a \<longleftrightarrow> a \<noteq> 0 \<and> 4096 dvd unat a \<and> unat a < 4294967296"

definition frame_used :: "PhysicalMemoryManager \<Rightarrow> u64 \<Rightarrow> bool" where
  "frame_used s a \<longleftrightarrow> \<not> IsPageFree s (unat a div 4096)"

lemma page_frame_bound: "page_frame a \<Longrightarrow> unat a div 4096 < kManagedPageCount"
  by (auto simp: page_frame_def kManagedPageCount_def)

lemma page_frame_eq_iff: "page_frame a \<Longrightarrow> page_frame b \<Longrightarrow> unat a div 4096 = unat b div 4096 \<longleftrightarrow> a = b"
  by (auto simp: page_frame_def dvd_def word_unat_eq_iff)

lemma page_frame_nonzero_page: "page_frame a \<Longrightarrow> unat a div 4096 \<noteq> 0"
  by (metis page_frame_def dvd_div_eq_0_iff unat_eq_zero)

lemma page_frame_of_nat:
  assumes "r < kManagedPageCount" "r \<noteq> 0"
  shows "page_frame (of_nat r * kPageSize)" "unat (of_nat r * kPageSize :: u64) div 4096 = r"
  using page_address[OF assms(1)] assms by (auto simp: page_frame_def kManagedPageCount_def)

lemma AllocatePage_cases:
  assumes "pmm_ok s"
  obtains (fit) r where "IsPageFree s r" "r < kManagedPageCount" "r \<noteq> 0" "\<forall>r' < r. \<not> IsPageFree s r'"
      "AllocatePage s = (of_nat r * kPageSize, MarkPages s (of_nat r) 1 False)"
      "\<And>q. IsPageFree (MarkPages s (of_nat r) 1 False) q = (if q = r then False else IsPageFree s q)"
    | (none) "\<forall>r < kManagedPageCount. \<not> IsPageFree s r" "AllocatePage s = (0, s)"
proof -
  have acc: "pmm_accounts s" and z: "\<not> IsPageFree s 0" using assms by (auto simp: pmm_ok_def)
  have run1: "page_run f (Suc 0) 1 r \<longleftrightarrow> r < kManagedPageCount \<and> f r" for f r
    by (auto simp: page_run_def less_Suc_eq_le)
  show ?thesis
  proof (cases rule: AllocateAligned_cases[OF acc, of 1 1, case_names a b fit none])
    case (fit r)
    have "IsPageFree (MarkPages s (of_nat r) 1 False) q = (if q = r then False else IsPageFree s q)" for q
      using run_marked[OF fit(1)] by auto
    with fit z show ?thesis
      by (intro that(1)[of r])
        (auto simp: run1 AllocatePage_def AllocateContiguous_def intro: ccontr)
  next
    case none
    then show ?thesis
      by (intro that(2)) (auto simp: run1 AllocatePage_def AllocateContiguous_def)
  qed simp_all
qed

interpretation pages: page_provider pmm_ok page_frame frame_used AllocatePage FreePage
proof (unfold_locales, goal_cases)
  case (1 s a s')
  from 1(1) show ?case
  proof (cases rule: AllocatePage_cases)
    case (fit r)
    then have a: "a = of_nat r * kPageSize" and s': "s' = MarkPages s (of_nat r) 1 False"
      using 1 by auto
    have fr: "page_frame a" "unat a div 4096 = r"
      using page_frame_of_nat[OF fit(2,3)] a by auto
    have "pmm_ok s'"
      using 1(1) fit s' by (auto simp: pmm_ok_def pmm_accounts_MarkPages)
    with fr fit(1) fit(6) s' show ?thesis
      by (auto simp: frame_used_def page_frame_eq_iff)
  qed (use 1 in auto)
next
  case (2 s s')
  from 2(1) show ?case
  proof (cases rule: AllocatePage_cases)
    case (fit r)
    then show ?thesis using 2 page_address(2)[of r] by simp
  next
    case none
    then show ?thesis using 2 by simp
  qed
next
  case (3 s a)
  from 3(1) show ?case
  proof (cases rule: AllocatePage_cases)
    case (fit r)
    then show ?thesis using page_address(2)[of r] by simp
  next
    case none
    with 3 show ?thesis using page_frame_bound by (auto simp: frame_used_def)
  qed
next
  case (4 s a)
  then show ?case
    by (auto simp: pmm_ok_def pmm_accounts_FreePage IsPageFree_FreePage frame_used_def
        page_frame_eq_iff page_frame_bound dest: page_frame_nonzero_page)
next
  case (5 a)
  then show ?case by (simp add: page_frame_def)
qed

subsection \<open>Initialisation: accounting and reserved ranges\<close>

lemma pmm_accounts_init_descriptor: "pmm_accounts s \<Longrightarrow> pmm_accounts (init_descriptor s d)"
proof -
  assume "pmm_accounts s"
  then have "pmm_accounts (s\<lparr>m_TotalPages := t\<rparr>)" for t
    by (simp add: pmm_accounts_def free_set_def IsPageFree_def)
  then show ?thesis
    using \<open>pmm_accounts s\<close> by (simp add: init_descriptor_def Let_def pmm_accounts_MarkRange)
qed

lemma pmm_accounts_foldl_init:
  "pmm_accounts s \<Longrightarrow> pmm_accounts (foldl (\<lambda>s i. init_descriptor s (f i)) s is)"
  by (induction "is" arbitrary: s) (auto intro: pmm_accounts_init_descriptor)

lemma pmm_accounts_all_used:
  "pmm_accounts (s\<lparr>g_PhysicalPageBitmap := (\<lambda>_. 0xFF), m_TotalPages := 0, m_FreePages := 0,
     m_UsedPages := of_nat kManagedPageCount\<rparr>)"
proof -
  have "bit (0xFF :: u8) k" if "k < 8" for k
  proof -
    have "(0xFF :: u8) = mask 8" by (simp add: mask_eq_exp_minus_1)
    then show ?thesis unfolding bit_mask_iff using that by (simp only: bit_mask_iff) simp
  qed
  then have "free_set (s\<lparr>g_PhysicalPageBitmap := (\<lambda>_. 0xFF), m_TotalPages := 0, m_FreePages := 0,
     m_UsedPages := of_nat kManagedPageCount\<rparr>) = {}"
    by (auto simp: free_set_def IsPageFree_bit)
  then show ?thesis by (simp add: pmm_accounts_def unat_of_nat_u64 kManagedPageCount_def)
qed

lemma pmm_accounts_init_reserve: "pmm_accounts s \<Longrightarrow> pmm_accounts (init_reserve lay b s)"
  by (simp add: init_reserve_def Let_def pmm_accounts_ReserveRange)

lemma pmm_accounts_Init:
  assumes "mm_buffer (bi_memory b) \<noteq> 0" "mm_descriptor_size (bi_memory b) \<ge> kDescriptorStructSize"
  shows "pmm_accounts (snd (Init lay rd b s))"
  using assms
  by (auto simp: Init_def Let_def not_less
      intro!: pmm_accounts_init_reserve pmm_accounts_foldl_init pmm_accounts_all_used)

text \<open>A reserved byte range that does not wrap covers every managed page it touches.\<close>

lemma ReserveRange_covers:
  assumes "unat address + unat n + 4095 < 18446744073709551616" "unat address < 4294967296"
    and "q < kManagedPageCount" "q * 4096 < unat address + unat n" "unat address < Suc q * 4096"
    and "n \<noteq> 0"
  shows "\<not> IsPageFree (ReserveRange s address n) q"
proof -
  let ?A = "unat address" and ?N = "unat n"
  have lim: "\<not> address \<ge> kManagedMemoryLimit"
    using assms(2) by (simp add: kManagedMemoryLimit_def word_le_nat_alt)
  have st: "unat (AlignDown address kPageSize) = ?A div 4096 * 4096"
    by (simp add: kPageSize_def AlignDown_4096)
  have e: "unat (AlignUp (address + n) kPageSize) = (?A + ?N + 4095) div 4096 * 4096"
  proof -
    have "unat (address + n + 4096 - 1) = ?A + ?N + 4095"
    proof -
      have "address + n + 4096 - 1 = address + n + 4095" by simp
      moreover have "unat (address + n) = ?A + ?N"
        using assms(1) by (intro unat_add_no_wrap) simp
      moreover have "unat (address + n + 4095) = unat (address + n) + 4095"
        using assms(1) \<open>unat (address + n) = ?A + ?N\<close> by (subst unat_add_no_wrap) simp_all
      ultimately show ?thesis by (simp add: ac_simps)
    qed
    then show ?thesis by (simp add: AlignUp_eq_AlignDown kPageSize_def AlignDown_4096)
  qed
  let ?a = "?A div 4096" and ?b = "(?A + ?N + 4095) div 4096"
  have ab: "?a \<le> ?b" by (intro div_le_mono) simp
  have diff: "unat ((AlignUp (address + n) kPageSize - AlignDown address kPageSize) div kPageSize) = ?b - ?a"
  proof -
    have "AlignDown address kPageSize \<le> AlignUp (address + n) kPageSize"
      using ab by (simp add: word_le_nat_alt st e)
    then have "unat (AlignUp (address + n) kPageSize - AlignDown address kPageSize) = (?b - ?a) * 4096"
      by (simp add: unat_sub st e diff_mult_distrib)
    then show ?thesis by (simp add: unat_div kPageSize_def)
  qed
  have start: "unat (AlignDown address kPageSize div kPageSize) = ?a"
    by (simp add: unat_div st) (simp add: kPageSize_def)
  have b_lt: "?b < 18446744073709551616" using assms(1) by (simp add: less_mult_imp_div_less)
  have sum: "unat (AlignDown address kPageSize div kPageSize +
      (AlignUp (address + n) kPageSize - AlignDown address kPageSize) div kPageSize) = ?b"
    using ab b_lt by (subst unat_add_no_wrap) (simp_all add: start diff)
  have "?a \<le> q" using less_mult_imp_div_less[OF assms(5)] by simp
  moreover have "Suc q \<le> ?b" using assms(4) by (simp add: less_eq_div_iff_mult_less_eq)
  ultimately show ?thesis using lim assms(3,6)
    by (simp add: ReserveRange_def Let_def MarkRange_def IsPageFree_MarkPages start sum)
qed

lemma Init_reserves:
  assumes "Init lay rd b s = (True, s')"
  shows "q < 256 \<Longrightarrow> \<not> IsPageFree s' q"
    and "unat (bi_kernel_base b) + unat (bi_kernel_size b) + 4095 < 18446744073709551616 \<Longrightarrow>
      unat (bi_kernel_base b) < 4294967296 \<Longrightarrow> q < kManagedPageCount \<Longrightarrow>
      q * 4096 < unat (bi_kernel_base b) + unat (bi_kernel_size b) \<Longrightarrow>
      unat (bi_kernel_base b) < Suc q * 4096 \<Longrightarrow> bi_kernel_size b \<noteq> 0 \<Longrightarrow> \<not> IsPageFree s' q"
proof -
  from assms obtain s0 where s': "s' = init_reserve lay b s0"
    by (auto simp: Init_def Let_def split: if_splits)
  show "q < 256 \<Longrightarrow> \<not> IsPageFree s' q"
    unfolding s' init_reserve_def Let_def
    by (intro ReserveRange_keeps_used ReserveRange_covers) (auto simp: kManagedPageCount_def)
  show "unat (bi_kernel_base b) + unat (bi_kernel_size b) + 4095 < 18446744073709551616 \<Longrightarrow>
      unat (bi_kernel_base b) < 4294967296 \<Longrightarrow> q < kManagedPageCount \<Longrightarrow>
      q * 4096 < unat (bi_kernel_base b) + unat (bi_kernel_size b) \<Longrightarrow>
      unat (bi_kernel_base b) < Suc q * 4096 \<Longrightarrow> bi_kernel_size b \<noteq> 0 \<Longrightarrow> \<not> IsPageFree s' q"
    unfolding s' init_reserve_def Let_def
    by (intro ReserveRange_keeps_used ReserveRange_covers)
qed

lemma Init_ok: 
  assumes "Init lay rd b s = (True, s')"
  shows "pmm_ok s'"
proof -
  have "mm_buffer (bi_memory b) \<noteq> 0" "mm_descriptor_size (bi_memory b) \<ge> kDescriptorStructSize"
    using assms by (auto simp: Init_def Let_def not_less split: if_splits)
  from pmm_accounts_Init[OF this, of lay rd s] show ?thesis
    using assms Init_reserves(1)[OF assms, of 0] by (simp add: pmm_ok_def)
qed

subsection \<open>The kernel heap (KernelHeap, KernelAllocate)\<close>

record KernelHeap =
  h_Start :: u64
  h_Current :: u64
  h_End :: u64

definition Heap_Init :: "PhysicalMemoryManager \<Rightarrow> KernelHeap \<Rightarrow> bool \<times> KernelHeap \<times> PhysicalMemoryManager" where
  "Heap_Init pmm h =
     (let (heap_base, pmm') = AllocateContiguous pmm kHeapInitialPages in
      if heap_base = 0 then (False, h, pmm')
      else (True, \<lparr>h_Start = heap_base, h_Current = heap_base,
                   h_End = heap_base + kHeapInitialPages * kPageSize\<rparr>, pmm'))"

definition Heap_Allocate :: "KernelHeap \<Rightarrow> u64 \<Rightarrow> u64 \<Rightarrow> u64 \<times> KernelHeap" where
  "Heap_Allocate h bytes alignment =
     (if bytes = 0 \<or> alignment = 0 then (0, h)
      else let aligned = (h_Current h + alignment - 1) AND NOT (alignment - 1) in
           if aligned + bytes > h_End h then (0, h)
           else (aligned, h\<lparr>h_Current := aligned + bytes\<rparr>))"

definition KernelAllocate :: "KernelHeap \<Rightarrow> u64 \<Rightarrow> u64 \<Rightarrow> u64 \<times> KernelHeap" where
  "KernelAllocate h bytes alignment = Heap_Allocate h bytes alignment"

definition Heap_Capacity :: "KernelHeap \<Rightarrow> u64" where "Heap_Capacity h = h_End h - h_Start h"
definition Heap_Used :: "KernelHeap \<Rightarrow> u64" where "Heap_Used h = h_Current h - h_Start h"

definition heap_ok :: "KernelHeap \<Rightarrow> bool" where
  "heap_ok h \<longleftrightarrow> 0 < h_Start h \<and> h_Start h \<le> h_Current h \<and> h_Current h \<le> h_End h \<and>
     unat (h_End h) \<le> 4294967296"

text \<open>Requests whose size and alignment are below 4 GiB cannot wrap the 64-bit sums.\<close>

definition small_request :: "u64 \<Rightarrow> u64 \<Rightarrow> bool" where
  "small_request bytes alignment \<longleftrightarrow> unat bytes < 4294967296 \<and> (\<exists>k \<le> 32. alignment = 2 ^ k)"

lemma unat_pow2: "k \<le> 32 \<Longrightarrow> unat ((2 :: u64) ^ k) = 2 ^ k"
proof -
  assume "k \<le> 32"
  then have "(2 :: nat) ^ k \<le> 2 ^ 32" by (intro power_increasing) auto
  then have "(2 :: nat) ^ k < 18446744073709551616" by simp
  moreover have "(2 :: u64) ^ k = of_nat (2 ^ k)" by simp
  ultimately show ?thesis by (metis unat_of_nat_u64)
qed

lemma Heap_Allocate_bounds:
  assumes "heap_ok h" "small_request bytes al" "Heap_Allocate h bytes al = (p, h')" "p \<noteq> 0"
  shows "heap_ok h'" "h_Start h' = h_Start h" "h_End h' = h_End h"
    "h_Current h \<le> p" "unat p + unat bytes = unat (h_Current h')" "unat p mod unat al = 0" "0 < bytes"
proof -
  from assms(2) obtain k where k: "k \<le> 32" "al = 2 ^ k" and sz: "unat bytes < 4294967296"
    by (auto simp: small_request_def)
  have pk: "(2 :: nat) ^ k \<le> 4294967296"
    using power_increasing[of k 32 "2 :: nat"] k by simp
  have al: "unat al = 2 ^ k" using k by (simp add: unat_pow2)
  have cur: "unat (h_Current h) \<le> 4294967296"
    using assms(1) by (auto simp: heap_ok_def word_le_nat_alt)
  have nz: "bytes \<noteq> 0" "al \<noteq> 0" using assms(3,4) by (auto simp: Heap_Allocate_def split: if_splits)
  have p: "p = AlignDown (h_Current h + al - 1) (2 ^ k)" and le: "p + bytes \<le> h_End h"
    and h': "h' = h\<lparr>h_Current := p + bytes\<rparr>"
    using assms(3,4) nz k by (auto simp: Heap_Allocate_def AlignDown_def Let_def not_less split: if_splits)
  have sum: "unat (h_Current h + al - 1) = unat (h_Current h) + 2 ^ k - 1"
  proof -
    have "unat (h_Current h + al) = unat (h_Current h) + 2 ^ k"
      using cur pk al by (subst unat_add_no_wrap) simp_all
    moreover from this have "h_Current h + al \<noteq> 0"
      by (metis add_is_0 power_not_zero unat_0 zero_neq_numeral)
    ultimately show ?thesis by (simp add: unat_minus_one)
  qed
  have up: "unat p = (unat (h_Current h) + 2 ^ k - 1) div 2 ^ k * 2 ^ k"
    using sum by (simp add: p unat_AlignDown)
  have ge: "unat (h_Current h) \<le> unat p"
  proof -
    have "(unat (h_Current h) + 2 ^ k - 1) mod 2 ^ k < 2 ^ k" by simp
    moreover have "unat p + (unat (h_Current h) + 2 ^ k - 1) mod 2 ^ k = unat (h_Current h) + 2 ^ k - 1"
      using up div_mult_mod_eq[of "unat (h_Current h) + 2 ^ k - 1" "2 ^ k"] by simp
    ultimately show ?thesis by linarith
  qed
  have p_le: "unat p \<le> 8589934592"
    using up cur pk div_times_less_eq_dividend[of "unat (h_Current h) + 2 ^ k - 1" "2 ^ k"] by linarith
  have ps: "unat (p + bytes) = unat p + unat bytes"
    using p_le sz by (intro unat_add_no_wrap) simp
  show "h_Start h' = h_Start h" "h_End h' = h_End h" "h_Current h \<le> p"
    "unat p + unat bytes = unat (h_Current h')" "unat p mod unat al = 0" "0 < bytes"
    using h' ge ps up al nz by (simp_all add: word_le_nat_alt word_gt_0)
  show "heap_ok h'"
    using assms(1) h' ge ps le by (auto simp: heap_ok_def word_le_nat_alt)
qed

text \<open>Successive requests: the blocks handed out, with their sizes.\<close>

fun heap_run :: "KernelHeap \<Rightarrow> (u64 \<times> u64) list \<Rightarrow> (u64 \<times> u64) list \<times> KernelHeap" where
  "heap_run h [] = ([], h)"
| "heap_run h ((bytes, al) # reqs) =
     (let (p, h') = KernelAllocate h bytes al; (blocks, h'') = heap_run h' reqs
      in (if p = 0 then blocks else (p, bytes) # blocks, h''))"

lemma KernelAllocate_null: "KernelAllocate h n al = (0, h') \<Longrightarrow> heap_ok h \<Longrightarrow> small_request n al \<Longrightarrow> h' = h"
proof -
  assume a: "KernelAllocate h n al = (0, h')" "heap_ok h" "small_request n al"
  show "h' = h"
  proof (rule ccontr)
    assume "h' \<noteq> h"
    then have nz: "n \<noteq> 0" "al \<noteq> 0"
      and z: "(h_Current h + al - 1) AND NOT (al - 1) = 0"
      using a(1) by (auto simp: KernelAllocate_def Heap_Allocate_def Let_def split: if_splits)
    from a(3) obtain k where k: "k \<le> 32" "al = 2 ^ k" by (auto simp: small_request_def)
    have pk: "(2 :: nat) ^ k \<le> 4294967296"
      using power_increasing[of k 32 "2 :: nat"] k by simp
    have al: "unat al = 2 ^ k" using k by (simp add: unat_pow2)
    have cur: "unat (h_Current h) \<le> 4294967296" "0 < unat (h_Current h)"
      using a(2) by (auto simp: heap_ok_def word_le_nat_alt word_less_nat_alt)
    have s: "unat (h_Current h + al) = unat (h_Current h) + 2 ^ k"
      using cur pk al by (subst unat_add_no_wrap) simp_all
    moreover from this have "h_Current h + al \<noteq> 0" using cur by (metis add_is_0 less_irrefl unat_0)
    ultimately have "unat (h_Current h + al - 1) = unat (h_Current h) + 2 ^ k - 1"
      by (simp add: unat_minus_one)
    moreover have "unat ((h_Current h + al - 1) AND NOT (al - 1)) = unat (h_Current h + al - 1) div 2 ^ k * 2 ^ k"
      using k by (simp add: power_two_minus_one unat_and_not_mask)
    ultimately have "(unat (h_Current h) + 2 ^ k - 1) div 2 ^ k = 0" using z by simp
    then show False using cur by (simp add: div_eq_0_iff)
  qed
qed

lemma heap_run_blocks:
  assumes "heap_ok h" "\<forall>(n, al) \<in> set reqs. small_request n al" "heap_run h reqs = (blocks, h')"
  shows "heap_ok h' \<and> h_Start h' = h_Start h \<and> h_End h' = h_End h \<and> h_Current h \<le> h_Current h' \<and>
    (\<forall>b \<in> set blocks. h_Current h \<le> fst b \<and> unat (fst b) + unat (snd b) \<le> unat (h_Current h')) \<and>
    sorted_wrt (\<lambda>b c. unat (fst b) + unat (snd b) \<le> unat (fst c)) blocks"
  using assms
proof (induction h reqs arbitrary: blocks rule: heap_run.induct)
  case (2 h n al reqs)
  obtain p h1 where a: "KernelAllocate h n al = (p, h1)" by fastforce
  obtain bs h2 where r: "heap_run h1 reqs = (bs, h2)" by fastforce
  from "2.prems"(2) have sm: "small_request n al" by auto
  show ?case
  proof (cases "p = 0")
    case True
    then have "h1 = h" using a "2.prems"(1) sm by (auto dest: KernelAllocate_null)
    then show ?thesis using "2.IH"[OF a[symmetric] refl, of bs] "2.prems" a r True by auto
  next
    case False
    note b = Heap_Allocate_bounds[OF "2.prems"(1) sm a[unfolded KernelAllocate_def] False]
    have "h_Current h \<le> h_Current h1" using b(4,5) by (simp add: word_le_nat_alt)
    then show ?thesis
      using "2.IH"[OF a[symmetric] refl b(1), of bs] "2.prems" a r False b
      by (fastforce simp: word_le_nat_alt)
  qed
qed auto

subsection \<open>2 MiB pages (HugePageManager)\<close>

text \<open>\<open>attached\<close> says that \<open>m_PhysicalMemory\<close> is not null.\<close>

definition HugePage_Allocate :: "bool \<Rightarrow> PhysicalMemoryManager \<Rightarrow> u64 \<times> PhysicalMemoryManager" where
  "HugePage_Allocate attached pmm =
     (if attached then AllocateAligned pmm kHugePagePages kHugePagePages else (0, pmm))"

definition HugePage_Free :: "bool \<Rightarrow> PhysicalMemoryManager \<Rightarrow> u64 \<Rightarrow> PhysicalMemoryManager" where
  "HugePage_Free attached pmm physical =
     (if attached \<and> physical \<noteq> 0 \<and> (physical AND (kHugePageSize - 1)) = 0
      then FreeContiguous pmm physical kHugePagePages else pmm)"

lemma and_mask_mod: "unat ((x :: 'l::len word) AND mask k) = unat x mod 2 ^ k"
  by (simp add: take_bit_eq_mask [symmetric] unsigned_take_bit_eq take_bit_nat_def)

lemma and_511: "unat ((x :: u64) AND 511) = unat x mod 512"
  using and_mask_mod[of x 9] by (simp add: mask_eq_exp_minus_1)

lemma and_4095: "unat ((x :: u64) AND 4095) = unat x mod 4096"
  using and_mask_mod[of x 12] by (simp add: mask_eq_exp_minus_1)

lemma and_2M: "unat ((x :: u64) AND 2097151) = unat x mod 2097152"
  using and_mask_mod[of x 21] by (simp add: mask_eq_exp_minus_1)

lemma HugePage_Allocate_run:
  assumes "pmm_ok s" "HugePage_Allocate True s = (a, s')" "a \<noteq> 0"
  obtains r where "a = of_nat r * kPageSize" "r mod 512 = 0" "r + 512 \<le> kManagedPageCount"
    "\<And>p. r \<le> p \<Longrightarrow> p < r + 512 \<Longrightarrow> IsPageFree s p"
    "\<And>q. IsPageFree s' q = (if r \<le> q \<and> q < r + 512 then False else IsPageFree s q)"
proof -
  have acc: "pmm_accounts s" using assms(1) by (simp add: pmm_ok_def)
  have u: "unat (512 :: u64) = 512" by simp
  show ?thesis
  proof (cases rule: AllocateAligned_cases[OF acc, of 512 512, case_names a b fit none])
    case (fit r)
    have a: "a = of_nat r * kPageSize" "s' = MarkPages s (of_nat r) 512 False"
      using fit(3) assms(2) by (simp_all add: HugePage_Allocate_def kHugePagePages_def)
    have b: "r + 512 \<le> kManagedPageCount" "(of_nat r AND 511) = (0 :: u64)"
      "\<forall>p. r \<le> p \<longrightarrow> p < r + 512 \<longrightarrow> IsPageFree s p"
      using fit(1) by (simp_all add: page_run_def)
    have "unat (of_nat r AND 511 :: u64) = 0" using b(2) by simp
    then have "r mod 512 = 0" using b(1) by (simp add: and_511 managed_unat)
    moreover have "IsPageFree s' q = (if r \<le> q \<and> q < r + 512 then False else IsPageFree s q)" for q
      using run_marked[OF fit(1), of s False q] a by simp
    ultimately show ?thesis using a(1) b(1,3) by (intro that) auto
  next
    case none
    then show ?thesis using assms(2,3) by (simp add: HugePage_Allocate_def kHugePagePages_def)
  qed simp_all
qed

subsection \<open>NUMA-aware allocation (NumaManager)\<close>

record NumaNode =
  nn_id :: u32
  nn_total_pages :: u64
  nn_free_pages :: u64
  nn_online :: bool

record NumaManager =
  nm_attached :: bool
  nm_Nodes :: "NumaNode list"
  nm_NodeCount :: u32

definition Numa_Init :: "PhysicalMemoryManager \<Rightarrow> NumaManager \<Rightarrow> NumaManager" where
  "Numa_Init pmm nm =
     (let zero = \<lparr>nn_id = 0, nn_total_pages = 0, nn_free_pages = 0, nn_online = False\<rparr>
      in nm\<lparr>nm_Nodes := (replicate 4 zero)
              [0 := \<lparr>nn_id = 0, nn_total_pages = m_TotalPages pmm, nn_free_pages = m_FreePages pmm,
                     nn_online = True\<rparr>],
            nm_NodeCount := 1, nm_attached := True\<rparr>)"

definition Numa_AllocatePage ::
    "NumaManager \<Rightarrow> PhysicalMemoryManager \<Rightarrow> u32 \<Rightarrow> u64 \<times> NumaManager \<times> PhysicalMemoryManager" where
  "Numa_AllocatePage nm pmm preferred_node =
     (let i = unat preferred_node in
      if \<not> nm_attached nm \<or> preferred_node \<ge> nm_NodeCount nm \<or> \<not> nn_online (nm_Nodes nm ! i)
      then (0, nm, pmm)
      else let (page, pmm') = AllocatePage pmm; node = nm_Nodes nm ! i in
           if page \<noteq> 0 \<and> nn_free_pages node \<noteq> 0
           then (page, nm\<lparr>nm_Nodes := (nm_Nodes nm)
                   [i := node\<lparr>nn_free_pages := nn_free_pages node - 1\<rparr>]\<rparr>, pmm')
           else (page, nm, pmm'))"

definition Numa_FreePage ::
    "NumaManager \<Rightarrow> PhysicalMemoryManager \<Rightarrow> u32 \<Rightarrow> u64 \<Rightarrow> NumaManager \<times> PhysicalMemoryManager" where
  "Numa_FreePage nm pmm node physical =
     (if \<not> nm_attached nm \<or> physical = 0 \<or> node \<ge> nm_NodeCount nm then (nm, pmm)
      else let i = unat node; n = nm_Nodes nm ! i in
           (nm\<lparr>nm_Nodes := (nm_Nodes nm)[i := n\<lparr>nn_free_pages := nn_free_pages n + 1\<rparr>]\<rparr>,
            FreePage pmm physical))"

definition Numa_NodeCount :: "NumaManager \<Rightarrow> u32" where
  "Numa_NodeCount nm = nm_NodeCount nm"

subsection \<open>The 4 GiB identity map (VirtualMemoryManager)\<close>

definition kPresentWritable :: u64 where "kPresentWritable = 0x003"
definition kPageSize2MiB :: u64 where "kPageSize2MiB = 0x080"
definition kLargePageSize :: u64 where "kLargePageSize = 2 * 1024 * 1024"

record PageTables =
  g_Pml4 :: "u64 list"
  g_Pdpt :: "u64 list"
  g_PageDirectories :: "u64 list list"
  cr3 :: u64

definition InitIdentityMap4GiB :: "KernelLayout \<Rightarrow> PageTables" where
  "InitIdentityMap4GiB lay =
     \<lparr>g_Pml4 = (replicate 512 0)[0 := addr_Pdpt lay OR kPresentWritable],
      g_Pdpt = map (\<lambda>pd. if pd < 4 then (addr_PageDirectories lay + of_nat pd * 4096) OR kPresentWritable
                          else 0) [0 ..< 512],
      g_PageDirectories = map (\<lambda>pd. map (\<lambda>entry.
          of_nat (pd * 512 + entry) * kLargePageSize OR kPresentWritable OR kPageSize2MiB) [0 ..< 512])
          [0 ..< 4],
      cr3 = addr_Pml4 lay\<rparr>"

text \<open>
  The processor's translation of an address through these tables (four-level paging, a
  2 MiB leaf at the third level): what the tables are for. A table is reached only if the
  entry above points at its address.
\<close>

definition table_frame :: "u64 \<Rightarrow> u64" where
  "table_frame e = e AND 0x000FFFFFFFFFF000"

definition translate :: "KernelLayout \<Rightarrow> PageTables \<Rightarrow> u64 \<Rightarrow> u64 option" where
  "translate lay pt va =
     (let e4 = g_Pml4 pt ! unat (drop_bit 39 va AND 511) in
      if cr3 pt \<noteq> addr_Pml4 lay \<or> \<not> bit e4 0 \<or> table_frame e4 \<noteq> addr_Pdpt lay then None
      else
        let e3 = g_Pdpt pt ! unat (drop_bit 30 va AND 511);
            k = unat ((table_frame e3 - addr_PageDirectories lay) div 4096) in
        if \<not> bit e3 0 \<or> k \<ge> 4 \<or> table_frame e3 \<noteq> addr_PageDirectories lay + of_nat k * 4096 then None
        else
          let e2 = g_PageDirectories pt ! k ! unat (drop_bit 21 va AND 511) in
          if bit e2 0 \<and> bit e2 7 then Some ((e2 AND 0x000FFFFFFFE00000) OR (va AND 0x1FFFFF)) else None)"

lemma bit_frame_mask: "bit (0x000FFFFFFFFFF000 :: u64) n \<longleftrightarrow> 12 \<le> n \<and> n < 52"
proof -
  have e: "(0x000FFFFFFFFFF000 :: u64) = push_bit 12 (mask 40)" by (simp add: mask_eq_exp_minus_1)
  show ?thesis unfolding e by (auto simp only: bit_push_bit_iff bit_mask_iff) auto
qed

lemma bit_leaf_mask: "bit (0x000FFFFFFFE00000 :: u64) n \<longleftrightarrow> 21 \<le> n \<and> n < 52"
proof -
  have e: "(0x000FFFFFFFE00000 :: u64) = push_bit 21 (mask 31)" by (simp add: mask_eq_exp_minus_1)
  show ?thesis unfolding e by (auto simp only: bit_push_bit_iff bit_mask_iff) auto
qed

lemma bit_offset_mask: "bit (0x1FFFFF :: u64) n \<longleftrightarrow> n < 21"
proof -
  have e: "(0x1FFFFF :: u64) = mask 21" by (simp add: mask_eq_exp_minus_1)
  show ?thesis unfolding e by (auto simp only: bit_mask_iff) auto
qed

lemma bit_3_83: "bit (3 :: u64) n \<longleftrightarrow> n < 2" "bit (0x83 :: u64) n \<longleftrightarrow> n < 2 \<or> n = 7"
proof -
  have e: "(3 :: u64) = mask 2" by (simp add: mask_eq_exp_minus_1)
  show *: "bit (3 :: u64) n \<longleftrightarrow> n < 2" unfolding e by (auto simp only: bit_mask_iff) auto
  have f: "(0x83 :: u64) = 3 OR push_bit 7 1" by simp
  show "bit (0x83 :: u64) n \<longleftrightarrow> n < 2 \<or> n = 7"
    unfolding f by (auto simp only: bit_or_iff bit_push_bit_iff bit_1_iff *) auto
qed

lemma unat_drop_bit: "unat (drop_bit k (x :: 'l::len word)) = unat x div 2 ^ k"
  by (simp add: unsigned_drop_bit_eq drop_bit_nat_def take_bit_nat_eq_self unsigned_less)

lemma bit_high_0: "unat (x :: u64) < 2 ^ k \<Longrightarrow> k \<le> n \<Longrightarrow> \<not> bit x n"
proof -
  assume a: "unat x < 2 ^ k" "k \<le> n"
  have "take_bit k x = x"
    using a(1) by (simp add: take_bit_eq_self_iff_drop_bit_eq_0 word_unat_eq_iff unsigned_take_bit_eq
        unsigned_drop_bit_eq drop_bit_nat_def)
  then show ?thesis using a(2) by (metis bit_take_bit_iff not_less)
qed

lemma bit_low_0: "unat (x :: u64) mod 2 ^ k = 0 \<Longrightarrow> n < k \<Longrightarrow> \<not> bit x n"
proof -
  assume a: "unat x mod 2 ^ k = 0" "n < k"
  have "take_bit k x = 0"
    using a(1) by (simp add: word_unat_eq_iff unsigned_take_bit_eq take_bit_nat_def)
  then show ?thesis using a(2) by (metis bit_0_eq bit_take_bit_iff bot_apply bot_bool_def)
qed

lemma table_frame_entry:
  "unat a mod 4096 = 0 \<Longrightarrow> unat a < 2 ^ 52 \<Longrightarrow> table_frame (a OR kPresentWritable) = a"
proof -
  assume "unat a mod 4096 = 0" "unat a < 2 ^ 52"
  then have "12 \<le> n" "n < 52" if "bit a n" for n
    using that bit_high_0[of a 52 n] bit_low_0[of a 12 n] by (auto simp: not_less[symmetric])
  then show ?thesis
    unfolding table_frame_def kPresentWritable_def
    by (intro bit_word_eqI) (auto simp: bit_simps bit_frame_mask bit_3_83 simp del: bit_numeral_word_iff)
qed


lemma identity_leaf:
  assumes "unat va < 4294967296"
  shows "(let e2 = of_nat (unat va div 2097152) * kLargePageSize OR kPresentWritable OR kPageSize2MiB in
      bit e2 0 \<and> bit e2 7 \<and> (e2 AND 0x000FFFFFFFE00000) OR (va AND 0x1FFFFF) = va)"
proof -
  have "of_nat (unat va div 2097152) = drop_bit 21 va"
    by (simp add: word_unat_eq_iff unat_drop_bit unat_of_nat_u64 order_le_less_trans[OF div_le_dividend u64_lt])
  then have e: "of_nat (unat va div 2097152) * kLargePageSize = push_bit 21 (drop_bit 21 va)"
    by (simp add: kLargePageSize_def push_bit_eq_mult)
  have f: "of_nat (unat va div 2097152) * kLargePageSize OR kPresentWritable OR kPageSize2MiB =
      push_bit 21 (drop_bit 21 va) OR 0x83"
    unfolding e kPresentWritable_def kPageSize2MiB_def by (simp add: or.assoc)
  have "bit va n \<Longrightarrow> n < 32" for n
    using bit_high_0[of va 32 n] assms by (cases "32 \<le> n") auto
  then show ?thesis
    unfolding f Let_def
    by (auto simp: bit_simps bit_leaf_mask bit_offset_mask bit_3_83 simp del: bit_numeral_word_iff
        intro!: bit_word_eqI) force+
qed

lemma identity_map_translates:
  assumes lay: "unat (addr_Pdpt lay) mod 4096 = 0" "unat (addr_Pdpt lay) < 2 ^ 52"
      "unat (addr_PageDirectories lay) mod 4096 = 0" "unat (addr_PageDirectories lay) + 16384 \<le> 2 ^ 52"
    and va: "unat va < 4294967296"
  shows "translate lay (InitIdentityMap4GiB lay) va = Some va"
proof -
  let ?pt = "InitIdentityMap4GiB lay" and ?D = "addr_PageDirectories lay"
  define k where "k = unat va div 1073741824"
  define e where "e = unat va div 2097152 mod 512"
  have k: "k < 4" using va by (simp add: k_def less_mult_imp_div_less)
  have e: "e < 512" by (simp add: e_def)
  have ke: "k * 512 + e = unat va div 2097152"
  proof -
    have "k = unat va div 2097152 div 512" by (simp add: k_def div_mult2_eq)
    then show ?thesis by (simp add: e_def)
  qed
  have i4: "unat (drop_bit 39 va AND 511) = 0"
    using va by (simp add: and_511 unat_drop_bit)
  have i3: "unat (drop_bit 30 va AND 511) = k"
    using k by (simp add: and_511 unat_drop_bit k_def)
  have i2: "unat (drop_bit 21 va AND 511) = e"
    by (simp add: and_511 unat_drop_bit e_def)
  have D: "unat (?D + of_nat k * 4096) = unat ?D + k * 4096"
  proof -
    have "unat (of_nat k * 4096 :: u64) = k * 4096"
      using k by (simp add: unat_word_ariths unat_of_nat_u64)
    then show ?thesis using lay(4) k by (subst unat_add_no_wrap) simp_all
  qed
  have frame3: "table_frame ((?D + of_nat k * 4096) OR kPresentWritable) = ?D + of_nat k * 4096"
    using D lay k by (intro table_frame_entry) (simp_all add: mod_add_eq[symmetric])
  have kk: "unat ((?D + of_nat k * 4096 - ?D) div 4096) = k"
    using k by (simp add: unat_div unat_word_ariths unat_of_nat_u64)
  have pres: "bit (x OR kPresentWritable) 0" for x :: u64
    by (simp add: kPresentWritable_def bit_or_iff)
  have e4: "g_Pml4 ?pt ! 0 = addr_Pdpt lay OR kPresentWritable"
    and e3: "g_Pdpt ?pt ! k = (?D + of_nat k * 4096) OR kPresentWritable"
    and e2: "g_PageDirectories ?pt ! k ! e =
        of_nat (unat va div 2097152) * kLargePageSize OR kPresentWritable OR kPageSize2MiB"
    and cr: "cr3 ?pt = addr_Pml4 lay"
    using k e by (simp_all add: InitIdentityMap4GiB_def flip: ke)
  show ?thesis
    using identity_leaf[OF va] k lay
    unfolding translate_def i4 i3 i2 e4 e3 cr Let_def frame3 kk e2
    by (simp add: pres table_frame_entry)
qed

subsection \<open>Properties\<close>

text \<open>
  C1. AllocateAligned is an exact first-fit allocator: for a non-zero count and a
  power-of-two alignment it returns the address of the lowest aligned run of free pages,
  and 0 if and only if there is no such run; it takes exactly the pages of that run.
\<close>

theorem AllocateAligned_first_fit:
  assumes "pmm_ok s" "n \<noteq> 0" "al \<noteq> 0" "(al AND (al - 1)) = 0"
  shows "let run = page_run (IsPageFree s) (unat n) al; (a, s') = AllocateAligned s n al in
    if (\<exists>r. run r) then a = of_nat (LEAST r. run r) * kPageSize \<and> a \<noteq> 0 \<and>
      (\<forall>q. IsPageFree s' q \<longleftrightarrow>
        IsPageFree s q \<and> \<not> ((LEAST r. run r) \<le> q \<and> q < (LEAST r. run r) + unat n))
    else a = 0 \<and> s' = s"
proof -
  have acc: "pmm_accounts s" and z: "\<not> IsPageFree s 0" and n: "0 < unat n"
    using assms(1,2) by (auto simp: pmm_ok_def unat_gt_0)
  have p2: "pow2_check al" using assms(3,4) by (simp add: pow2_check_def)
  show ?thesis
  proof (cases rule: AllocateAligned_cases[OF acc assms(2) p2])
    case (1 r)
    have least: "(LEAST r. page_run (IsPageFree s) (unat n) al r) = r"
      using 1(1,2) by (intro Least_equality) (auto simp: not_less[symmetric])
    have free: "IsPageFree s r" using 1(1) n by (simp add: page_run_def)
    have "r < kManagedPageCount" using page_run_bound[OF 1(1) n] .
    moreover have "r \<noteq> 0" using free z by (metis)
    ultimately have "of_nat r * kPageSize \<noteq> (0 :: u64)" by (simp add: page_address)
    then show ?thesis
      using 1 least run_marked[OF 1(1) assms(2), of s False] by (auto simp: Let_def)
  next
    case 2
    then show ?thesis by (simp add: Let_def)
  qed
qed

definition demo_pmm :: PhysicalMemoryManager where
  "demo_pmm = SetPage \<lparr>g_PhysicalPageBitmap = (\<lambda>_. 0xFF), m_TotalPages = 0, m_FreePages = 0,
     m_UsedPages = of_nat kManagedPageCount\<rparr> 5 True"

lemma bit_0xFF: "k < 8 \<Longrightarrow> bit (0xFF :: u8) k"
proof -
  assume k: "k < 8"
  have e: "(0xFF :: u8) = mask 8" by (simp add: mask_eq_exp_minus_1)
  show ?thesis unfolding e using k by (simp only: bit_mask_iff) simp
qed

lemma all_used_bitmap: "g_PhysicalPageBitmap s = (\<lambda>_. 0xFF) \<Longrightarrow> \<not> IsPageFree s q"
  unfolding IsPageFree_bit by (simp add: bit_0xFF del: bit_numeral_word_iff)

lemma demo_pmm_free: "IsPageFree demo_pmm q \<longleftrightarrow> q = 5"
  unfolding demo_pmm_def IsPageFree_SetPage by (simp add: all_used_bitmap)

lemma demo_pmm_ok: "pmm_ok demo_pmm"
proof -
  have "pmm_accounts demo_pmm"
    using pmm_accounts_SetPage[OF pmm_accounts_all_used, of 5 
      "\<lparr>g_PhysicalPageBitmap = (\<lambda>_. 0xFF), m_TotalPages = 0, m_FreePages = 0, m_UsedPages = 0\<rparr>" True]
    by (simp add: demo_pmm_def kManagedPageCount_def)
  then show ?thesis by (simp add: pmm_ok_def demo_pmm_free)
qed

lemma AllocateAligned_first_fit_witness:
  "fst (AllocateAligned demo_pmm 1 1) = 5 * kPageSize"
proof -
  have run: "page_run (IsPageFree demo_pmm) 1 1 = (\<lambda>r. r = 5)"
    by (auto simp: page_run_def demo_pmm_free kManagedPageCount_def fun_eq_iff)
  have "(LEAST r. r = (5 :: nat)) = 5" by (rule Least_equality) auto
  then show ?thesis
    using AllocateAligned_first_fit[OF demo_pmm_ok, of 1 1] run
    by (auto simp: Let_def split: prod.splits)
qed

text \<open>The operations other components perform on the manager after boot.\<close>

datatype pmm_op =
    PmmAllocate u64 u64
  | PmmFreePage u64
  | PmmFreeContiguous u64 u64

fun pmm_step :: "PhysicalMemoryManager \<Rightarrow> pmm_op \<Rightarrow> PhysicalMemoryManager" where
  "pmm_step s (PmmAllocate n al) = snd (AllocateAligned s n al)"
| "pmm_step s (PmmFreePage a) = FreePage s a"
| "pmm_step s (PmmFreeContiguous a n) = FreeContiguous s a n"

lemma pmm_accounts_step: "pmm_accounts s \<Longrightarrow> pmm_accounts (pmm_step s x)"
  by (cases x) (simp_all add: pmm_accounts_AllocateAligned pmm_accounts_FreePage pmm_accounts_FreeContiguous)

lemma pmm_accounts_run: "pmm_accounts s \<Longrightarrow> pmm_accounts (foldl pmm_step s xs)"
  by (induction xs arbitrary: s) (auto intro: pmm_accounts_step)

text \<open>
  C12. The free and used counters are exact: after Init, whatever sequence of allocations
  and releases follows, m\_FreePages is the number of clear bits of the bitmap and
  m\_FreePages + m\_UsedPages is the number of managed pages.
\<close>

theorem pmm_counters_exact:
  assumes "mm_buffer (bi_memory b) \<noteq> 0" "mm_descriptor_size (bi_memory b) \<ge> kDescriptorStructSize"
  shows "let s = foldl pmm_step (snd (Init lay rd b s0)) xs in
    unat (m_FreePages s) = card {p. p < kManagedPageCount \<and> IsPageFree s p} \<and>
    unat (m_FreePages s) + unat (m_UsedPages s) = kManagedPageCount"
proof -
  let ?s = "foldl pmm_step (snd (Init lay rd b s0)) xs"
  have "pmm_accounts ?s" using assms by (intro pmm_accounts_run pmm_accounts_Init)
  then show ?thesis
    using card_free_set[of ?s] by (simp add: pmm_accounts_def Let_def free_set_def)
qed

definition demo_boot_info :: BootInfo where
  "demo_boot_info = \<lparr>
     bi_framebuffer = \<lparr>fb_base_address = 0x80000000, fb_width = 1024, fb_height = 768,
       fb_pixels_per_scanline = 1024, fb_format = 1\<rparr>,
     bi_memory = \<lparr>mm_buffer = 0x5000, mm_map_size = 48, mm_map_key = 7, mm_descriptor_size = 48,
       mm_descriptor_version = 1\<rparr>,
     bi_system_table = 1, bi_runtime_services = 1, bi_rsdp = 0,
     bi_kernel_base = 0x200000, bi_kernel_size = 0x80000, bi_boot_time = 0,
     bi_cpu = \<lparr>ci_vendor = ''AuthenticAMD'', ci_family = 23, ci_model = 1, ci_stepping = 0\<rparr>\<rparr>"

definition demo_layout :: KernelLayout where
  "demo_layout = \<lparr>addr_PhysicalPageBitmap = 0x210000, addr_Pml4 = 0x230000, addr_Pdpt = 0x231000,
     addr_PageDirectories = 0x232000\<rparr>"

definition demo_memory :: "u64 \<Rightarrow> KernelMemoryDescriptor" where
  "demo_memory _ = \<lparr>kd_type = 7, kd_physical_start = 0x100000, kd_virtual_start = 0,
     kd_number_of_pages = 1024, kd_attribute = 0\<rparr>"

lemma demo_boot_info_map:
  "mm_buffer (bi_memory demo_boot_info) \<noteq> 0"
  "mm_descriptor_size (bi_memory demo_boot_info) \<ge> kDescriptorStructSize"
  by (simp_all add: demo_boot_info_def kDescriptorStructSize_def)

lemma pmm_counters_exact_witness:
  "let s = foldl pmm_step (snd (Init demo_layout demo_memory demo_boot_info demo_pmm))
       [PmmAllocate 4 1, PmmFreePage 0x300000] in
   unat (m_FreePages s) = card {p. p < kManagedPageCount \<and> IsPageFree s p} \<and>
   unat (m_FreePages s) + unat (m_UsedPages s) = kManagedPageCount"
  by (rule pmm_counters_exact[OF demo_boot_info_map])


lemma IsPageFree_ReserveRange:
  "IsPageFree (ReserveRange s a n) q \<longleftrightarrow> IsPageFree s q \<and>
    (n = 0 \<or> a \<ge> kManagedMemoryLimit \<or>
     \<not> (let start = AlignDown a kPageSize div kPageSize;
           end = start + (AlignUp (a + n) kPageSize - AlignDown a kPageSize) div kPageSize
       in unat start \<le> q \<and> q < unat end \<and> q < kManagedPageCount))"
  by (auto simp: ReserveRange_def MarkRange_def IsPageFree_MarkPages Let_def)

lemma demo_Init_page: "IsPageFree (snd (Init demo_layout demo_memory demo_boot_info s)) 0x300"
  by (simp add: Init_def Let_def demo_boot_info_map[simplified not_less[symmetric]] init_reserve_def
      IsPageFree_ReserveRange demo_boot_info_def demo_layout_def demo_memory_def init_descriptor_def
      MarkRange_def IsPageFree_MarkPages AlignDown_def AlignUp_def kPageSize_def
      kManagedMemoryLimit_def kManagedPageCount_def kEfiConventionalMemory_def kDescriptorStructSize_def)

lemma demo_Init: "Init demo_layout demo_memory demo_boot_info s =
    (True, snd (Init demo_layout demo_memory demo_boot_info s))"
proof -
  let ?s = "snd (Init demo_layout demo_memory demo_boot_info s)"
  have "0x300 \<in> free_set ?s" using demo_Init_page by (simp add: free_set_def kManagedPageCount_def)
  then have "card (free_set ?s) \<noteq> 0" by auto
  then have "0 < m_FreePages ?s"
    using pmm_accounts_Init[OF demo_boot_info_map, of demo_layout demo_memory s]
    by (auto simp: pmm_accounts_def word_gt_0)
  then show ?thesis using demo_boot_info_map by (auto simp: Init_def Let_def)
qed




text \<open>
  Without the size bound the heap is unsafe: KernelAllocate checks
  \<open>aligned + size > m_End\<close> in wrapping 64-bit arithmetic, so a request of nearly
  2^64 bytes is granted and moves m\_Current backwards over blocks already handed out.
\<close>

lemma heap_allocate_size_wraps:
  "KernelAllocate \<lparr>h_Start = 0x100000, h_Current = 0x100040, h_End = 0x180000\<rparr> 0xFFFFFFFFFFFFFFF0 16 =
     (0x100040, \<lparr>h_Start = 0x100000, h_Current = 0x100030, h_End = 0x180000\<rparr>)"
  by (simp add: KernelAllocate_def Heap_Allocate_def)

text \<open>
  A 2 MiB page is 2 MiB aligned, and returning it to HugePageManager::Free restores
  exactly the set of free pages that was there before it was allocated.
\<close>

lemma huge_page_round_trip:
  assumes "pmm_ok s" "HugePage_Allocate True s = (a, s')" "a \<noteq> 0"
  shows "unat a mod 2097152 = 0 \<and> unat a + 2097152 \<le> 4294967296 \<and>
    (\<forall>p. (unat a \<le> p * 4096 \<and> p * 4096 < unat a + 2097152) \<longrightarrow> IsPageFree s p \<and> \<not> IsPageFree s' p) \<and>
    (\<forall>q. IsPageFree (HugePage_Free True s' a) q = IsPageFree s q)"
proof (rule HugePage_Allocate_run[OF assms])
  fix r
  assume r: "a = of_nat r * kPageSize" "r mod 512 = 0" "r + 512 \<le> kManagedPageCount"
    "\<And>p. r \<le> p \<Longrightarrow> p < r + 512 \<Longrightarrow> IsPageFree s p"
    "\<And>q. IsPageFree s' q = (if r \<le> q \<and> q < r + 512 then False else IsPageFree s q)"
  have rb: "r < kManagedPageCount" and M: "kManagedPageCount = 1048576"
    using r(3) by (simp_all add: kManagedPageCount_def)
  have ua: "unat a = r * 4096" using page_address(1)[OF rb] r(1) by simp
  obtain k where k: "r = 512 * k" using r(2) by auto
  have al: "unat a mod 2097152 = 0" by (simp add: ua k)
  have align: "(a AND 2097151) = 0" "(a AND 4095) = 0"
    using and_2M[of a] and_4095[of a] al by (simp_all add: ua unat_eq_0)
  have page: "a div kPageSize = of_nat r"
    using ua rb by (simp add: word_unat_eq_iff unat_div kPageSize_def managed_unat)
  have "HugePage_Free True s' a = MarkPages s' (of_nat r) 512 True"
    using align assms(3)
    by (simp add: HugePage_Free_def FreeContiguous_def MarkRange_def page
        kHugePageSize_def kHugePagePages_def kPageSize_def[symmetric])
       (simp add: kPageSize_def)
  moreover have "unat (of_nat r + 512 :: u64) = r + 512" "unat (of_nat r :: u64) = r"
    using r(3) rb M by (simp_all add: unat_word_ariths unat_of_nat_u64)
  ultimately have fr: "\<And>q. IsPageFree (HugePage_Free True s' a) q =
      (if r \<le> q \<and> q < r + 512 then True else IsPageFree s' q)"
    using r(3) by (auto simp: IsPageFree_MarkPages)
  have "IsPageFree (HugePage_Free True s' a) q = IsPageFree s q" for q
    unfolding fr r(5) using r(4) by simp
  moreover have "unat a + 2097152 \<le> 4294967296" using r(3) M ua by simp
  ultimately show ?thesis using al r(4,5) by (auto simp: ua)
qed

definition all_free_pmm :: PhysicalMemoryManager where
  "all_free_pmm = MarkPages \<lparr>g_PhysicalPageBitmap = (\<lambda>_. 0xFF), m_TotalPages = 0, m_FreePages = 0,
     m_UsedPages = of_nat kManagedPageCount\<rparr> 1 1048575 True"

lemma all_free_pmm_page: "IsPageFree all_free_pmm q \<longleftrightarrow> 1 \<le> q \<and> q < kManagedPageCount"
  by (auto simp: all_free_pmm_def IsPageFree_MarkPages all_used_bitmap kManagedPageCount_def)

lemma all_free_pmm_ok: "pmm_ok all_free_pmm"
proof -
  have "pmm_accounts all_free_pmm"
    using pmm_accounts_MarkPages[OF pmm_accounts_all_used, of
      "\<lparr>g_PhysicalPageBitmap = (\<lambda>_. 0xFF), m_TotalPages = 0, m_FreePages = 0, m_UsedPages = 0\<rparr>" 1 1048575 True]
    by (simp add: all_free_pmm_def)
  then show ?thesis by (simp add: pmm_ok_def all_free_pmm_page)
qed

lemma huge_page_round_trip_witness:
  "fst (HugePage_Allocate True all_free_pmm) \<noteq> 0 \<and>
   unat (fst (HugePage_Allocate True all_free_pmm)) mod 2097152 = 0"
proof -
  obtain a s' where a: "HugePage_Allocate True all_free_pmm = (a, s')" by fastforce
  have run: "page_run (IsPageFree all_free_pmm) (unat (512 :: u64)) 512 512"
    by (simp add: page_run_def all_free_pmm_page kManagedPageCount_def)
  have acc: "pmm_accounts all_free_pmm" using all_free_pmm_ok by (simp add: pmm_ok_def)
  have "a \<noteq> 0"
  proof (cases rule: AllocateAligned_cases[OF acc, of 512 512, case_names p q fit none])
    case (fit r)
    have "r \<noteq> 0" using fit(1) by (auto simp: page_run_def all_free_pmm_page)
    moreover have "r < kManagedPageCount" using page_run_bound[OF fit(1)] by simp
    ultimately show ?thesis
      using fit(3) a by (auto simp: page_address HugePage_Allocate_def kHugePagePages_def)
  next
    case none
    then show ?thesis using run by blast
  qed simp_all
  with huge_page_round_trip[OF all_free_pmm_ok a] a show ?thesis by simp
qed

text \<open>
  C32. The tables InitIdentityMap4GiB builds map every address below 4 GiB to itself, for
  page tables at any page-aligned addresses within the 52-bit physical range.
\<close>

theorem identity_map_is_identity:
  assumes "unat (addr_Pdpt lay) mod 4096 = 0" "unat (addr_Pdpt lay) < 2 ^ 52"
    and "unat (addr_PageDirectories lay) mod 4096 = 0" "unat (addr_PageDirectories lay) + 16384 \<le> 2 ^ 52"
    and "unat va < 4294967296"
  shows "translate lay (InitIdentityMap4GiB lay) va = Some va"
  using assms by (rule identity_map_translates)

lemma identity_map_is_identity_witness:
  "translate demo_layout (InitIdentityMap4GiB demo_layout) 0x12345678 = Some 0x12345678"
  by (rule identity_map_is_identity) (simp_all add: demo_layout_def)

end
