(* ===== verification/Console.thy ===== *)
theory Console
  imports PhysMem
begin

text \<open>
  \<^verbatim>\<open>kernel/src/kernel.cpp\<close>, \<open>KernelConsole\<close>: the framebuffer console every component
  logs to, with \<open>KernelLog\<close> and \<open>KernelPanic\<close>. The framebuffer is a map from pixel
  indices to pixels, indexed with the code's 32-bit arithmetic.

  \<open>Scroll\<close> writes a message, which calls \<open>PutChar\<close>, which may scroll again: the
  recursion is bounded by a fuel, the number of nested scrolls, and running out of it is
  \<open>None\<close>. One level is enough on any display of at least 548 by 72 pixels.
\<close>

datatype LogLevel = Info | Warn | Error | Panic

definition kColorBackground :: u32 where "kColorBackground = 0xFF050505"
definition kColorText :: u32 where "kColorText = 0xFFE8E8E8"
definition kColorInfo :: u32 where "kColorInfo = 0xFF4CC9F0"
definition kColorWarn :: u32 where "kColorWarn = 0xFFFFC857"
definition kColorError :: u32 where "kColorError = 0xFFFF4D4D"
definition kMarginX :: u32 where "kMarginX = 32"
definition kMarginY :: u32 where "kMarginY = 28"
definition kGlyphWidth :: u32 where "kGlyphWidth = 16"
definition kGlyphHeight :: u32 where "kGlyphHeight = 16"
definition kAdvanceX :: u32 where "kAdvanceX = 18"
definition kAdvanceY :: u32 where "kAdvanceY = 22"

lemmas console_metrics = kMarginX_def kMarginY_def kGlyphWidth_def kGlyphHeight_def
  kAdvanceX_def kAdvanceY_def

definition font8x8_kernel :: "u8 list list" where
  "font8x8_kernel = [
    [0, 0, 0, 0, 0, 0, 0, 0],
    [0, 0, 0, 0, 0, 0, 0, 0],
    [0, 0, 0, 0, 0, 0, 0, 0],
    [0, 0, 0, 0, 0, 0, 0, 0],
    [0, 0, 0, 0, 0, 0, 0, 0],
    [0, 0, 0, 0, 0, 0, 0, 0],
    [0, 0, 0, 0, 0, 0, 0, 0],
    [0, 0, 0, 0, 0, 0, 0, 0],
    [0, 0, 0, 0, 0, 0, 0, 0],
    [0, 0, 0, 0, 0, 0, 0, 0],
    [0, 0, 0, 0, 0, 0, 0, 0],
    [0, 0, 0, 0, 0, 0, 0, 0],
    [0, 0, 0, 0, 0, 0, 0, 0],
    [0, 0, 0, 0, 0, 0, 0, 0],
    [0, 0, 0, 0, 0, 0, 0, 0],
    [0, 0, 0, 0, 0, 0, 0, 0],
    [0, 0, 0, 0, 0, 0, 0, 0],
    [0, 0, 0, 0, 0, 0, 0, 0],
    [0, 0, 0, 0, 0, 0, 0, 0],
    [0, 0, 0, 0, 0, 0, 0, 0],
    [0, 0, 0, 0, 0, 0, 0, 0],
    [0, 0, 0, 0, 0, 0, 0, 0],
    [0, 0, 0, 0, 0, 0, 0, 0],
    [0, 0, 0, 0, 0, 0, 0, 0],
    [0, 0, 0, 0, 0, 0, 0, 0],
    [0, 0, 0, 0, 0, 0, 0, 0],
    [0, 0, 0, 0, 0, 0, 0, 0],
    [0, 0, 0, 0, 0, 0, 0, 0],
    [0, 0, 0, 0, 0, 0, 0, 0],
    [0, 0, 0, 0, 0, 0, 0, 0],
    [0, 0, 0, 0, 0, 0, 0, 0],
    [0, 0, 0, 0, 0, 0, 0, 0],
    [0, 0, 0, 0, 0, 0, 0, 0],
    [0x18, 0x18, 0x18, 0x18, 0, 0, 0x18, 0],
    [0x36, 0x36, 0, 0, 0, 0, 0, 0],
    [0x36, 0x7f, 0x36, 0x36, 0x7f, 0x36, 0x36, 0],
    [0x18, 0x3e, 0x60, 0x3c, 0x06, 0x7c, 0x18, 0],
    [0, 0x66, 0x30, 0x18, 0x0c, 0x66, 0, 0],
    [0x38, 0x6c, 0x38, 0x76, 0xdc, 0xcc, 0x76, 0],
    [0x18, 0x18, 0x18, 0, 0, 0, 0, 0],
    [0x0c, 0x18, 0x30, 0x30, 0x30, 0x18, 0x0c, 0],
    [0x30, 0x18, 0x0c, 0x0c, 0x0c, 0x18, 0x30, 0],
    [0, 0x66, 0x3c, 0xff, 0x3c, 0x66, 0, 0],
    [0, 0x18, 0x18, 0x7e, 0x18, 0x18, 0, 0],
    [0, 0, 0, 0, 0x18, 0x18, 0x08, 0x10],
    [0, 0, 0, 0x7e, 0, 0, 0, 0],
    [0, 0, 0, 0, 0, 0x18, 0x18, 0],
    [0, 0x03, 0x06, 0x0c, 0x18, 0x30, 0x60, 0],
    [0x3c, 0x66, 0x6e, 0x76, 0x66, 0x66, 0x3c, 0],
    [0x18, 0x1c, 0x18, 0x18, 0x18, 0x18, 0x7e, 0],
    [0x3e, 0x66, 0x06, 0x1c, 0x30, 0x62, 0x7e, 0],
    [0x3e, 0x66, 0x06, 0x1e, 0x06, 0x66, 0x3e, 0],
    [0x06, 0x0e, 0x1e, 0x36, 0x7e, 0x06, 0x06, 0],
    [0x7e, 0x60, 0x7c, 0x06, 0x06, 0x66, 0x3c, 0],
    [0x1c, 0x30, 0x60, 0x7c, 0x66, 0x66, 0x3c, 0],
    [0x7e, 0x66, 0x06, 0x0c, 0x18, 0x18, 0x18, 0],
    [0x3c, 0x66, 0x66, 0x3c, 0x66, 0x66, 0x3c, 0],
    [0x3c, 0x66, 0x66, 0x3e, 0x06, 0x0c, 0x38, 0],
    [0, 0x18, 0x18, 0, 0, 0x18, 0x18, 0],
    [0, 0x18, 0x18, 0, 0x18, 0x18, 0x08, 0x10],
    [0x0c, 0x18, 0x30, 0x60, 0x30, 0x18, 0x0c, 0],
    [0, 0x7e, 0, 0x7e, 0, 0, 0, 0],
    [0x30, 0x18, 0x0c, 0x06, 0x0c, 0x18, 0x30, 0],
    [0x3c, 0x66, 0x06, 0x0c, 0x18, 0, 0x18, 0],
    [0x3c, 0x66, 0x6e, 0x6e, 0x60, 0x62, 0x3c, 0],
    [0x18, 0x3c, 0x66, 0x66, 0x7e, 0x66, 0x66, 0],
    [0x7c, 0x66, 0x66, 0x7c, 0x66, 0x66, 0x7c, 0],
    [0x3e, 0x66, 0x60, 0x60, 0x60, 0x66, 0x3e, 0],
    [0x78, 0x6c, 0x66, 0x66, 0x66, 0x6c, 0x78, 0],
    [0x7e, 0x60, 0x60, 0x78, 0x60, 0x60, 0x7e, 0],
    [0x7e, 0x60, 0x60, 0x78, 0x60, 0x60, 0x60, 0],
    [0x3c, 0x66, 0x60, 0x6e, 0x66, 0x66, 0x3e, 0],
    [0x66, 0x66, 0x66, 0x7e, 0x66, 0x66, 0x66, 0],
    [0x7e, 0x18, 0x18, 0x18, 0x18, 0x18, 0x7e, 0],
    [0x06, 0x06, 0x06, 0x06, 0x66, 0x66, 0x3c, 0],
    [0x66, 0x6c, 0x78, 0x70, 0x78, 0x6c, 0x66, 0],
    [0x60, 0x60, 0x60, 0x60, 0x60, 0x60, 0x7e, 0],
    [0x63, 0x77, 0x7f, 0x6b, 0x63, 0x63, 0x63, 0],
    [0x66, 0x66, 0x76, 0x7e, 0x6e, 0x66, 0x66, 0],
    [0x3c, 0x66, 0x66, 0x66, 0x66, 0x66, 0x3c, 0],
    [0x7c, 0x66, 0x66, 0x7c, 0x60, 0x60, 0x60, 0],
    [0x3c, 0x66, 0x66, 0x66, 0x66, 0x3c, 0x0e, 0],
    [0x7c, 0x66, 0x66, 0x7c, 0x78, 0x6c, 0x66, 0],
    [0x3e, 0x66, 0x60, 0x3c, 0x06, 0x66, 0x3c, 0],
    [0x7e, 0x18, 0x18, 0x18, 0x18, 0x18, 0x18, 0],
    [0x66, 0x66, 0x66, 0x66, 0x66, 0x66, 0x3c, 0],
    [0x66, 0x66, 0x66, 0x66, 0x66, 0x3c, 0x18, 0],
    [0x63, 0x63, 0x63, 0x6b, 0x7f, 0x77, 0x63, 0],
    [0x66, 0x66, 0x3c, 0x18, 0x3c, 0x66, 0x66, 0],
    [0x66, 0x66, 0x66, 0x3c, 0x18, 0x18, 0x18, 0],
    [0x7e, 0x06, 0x0c, 0x18, 0x30, 0x60, 0x7e, 0],
    [0x3c, 0x30, 0x30, 0x30, 0x30, 0x30, 0x3c, 0],
    [0, 0x60, 0x30, 0x18, 0x0c, 0x06, 0x03, 0],
    [0x3c, 0x0c, 0x0c, 0x0c, 0x0c, 0x0c, 0x3c, 0],
    [0x08, 0x1c, 0x36, 0x63, 0, 0, 0, 0],
    [0, 0, 0, 0, 0, 0, 0xff, 0],
    [0x18, 0x18, 0x0c, 0, 0, 0, 0, 0],
    [0, 0, 0x3c, 0x06, 0x3e, 0x66, 0x3b, 0],
    [0x60, 0x60, 0x7c, 0x66, 0x66, 0x66, 0x7c, 0],
    [0, 0, 0x3c, 0x66, 0x60, 0x66, 0x3c, 0],
    [0x06, 0x06, 0x3e, 0x66, 0x66, 0x66, 0x3e, 0],
    [0, 0, 0x3c, 0x66, 0x7e, 0x60, 0x3c, 0],
    [0x1c, 0x30, 0x7c, 0x30, 0x30, 0x30, 0x30, 0],
    [0, 0, 0x3e, 0x66, 0x66, 0x3e, 0x06, 0x3c],
    [0x60, 0x60, 0x7c, 0x66, 0x66, 0x66, 0x66, 0],
    [0x18, 0, 0x38, 0x18, 0x18, 0x18, 0x3c, 0],
    [0x06, 0, 0x0e, 0x06, 0x06, 0x06, 0x06, 0x3c],
    [0x60, 0x60, 0x66, 0x6c, 0x78, 0x6c, 0x66, 0],
    [0x38, 0x18, 0x18, 0x18, 0x18, 0x18, 0x3c, 0],
    [0, 0, 0x6e, 0x7f, 0x6b, 0x63, 0x63, 0],
    [0, 0, 0x7c, 0x66, 0x66, 0x66, 0x66, 0],
    [0, 0, 0x3c, 0x66, 0x66, 0x66, 0x3c, 0],
    [0, 0, 0x7c, 0x66, 0x66, 0x7c, 0x60, 0x60],
    [0, 0, 0x3e, 0x66, 0x66, 0x3e, 0x06, 0x06],
    [0, 0, 0x7c, 0x66, 0x60, 0x60, 0x60, 0],
    [0, 0, 0x3e, 0x60, 0x3c, 0x06, 0x7c, 0],
    [0x18, 0x18, 0x7e, 0x18, 0x18, 0x18, 0x0d, 0x06],
    [0, 0, 0x66, 0x66, 0x66, 0x66, 0x3b, 0],
    [0, 0, 0x66, 0x66, 0x66, 0x3c, 0x18, 0],
    [0, 0, 0x63, 0x6b, 0x7f, 0x36, 0x22, 0],
    [0, 0, 0x66, 0x3c, 0x18, 0x3c, 0x66, 0],
    [0, 0, 0x66, 0x66, 0x66, 0x3e, 0x06, 0x3c],
    [0, 0, 0x7e, 0x0c, 0x18, 0x30, 0x7e, 0],
    [0x0e, 0x18, 0x18, 0x70, 0x18, 0x18, 0x0e, 0],
    [0x18, 0x18, 0x18, 0, 0x18, 0x18, 0x18, 0],
    [0x70, 0x18, 0x18, 0x0e, 0x18, 0x18, 0x70, 0],
    [0x76, 0xdc, 0, 0, 0, 0, 0, 0],
    [0, 0, 0, 0, 0, 0, 0, 0]]"

record KernelConsole =
  m_Framebuffer :: "FramebufferInfo option"
  m_CursorX :: u32
  m_CursorY :: u32
  pixels :: "u32 \<Rightarrow> u32"

definition ConvertColor :: "FramebufferInfo \<Rightarrow> u32 \<Rightarrow> u32" where
  "ConvertColor fb color =
     (let red = drop_bit 16 color AND 0xFF; green = drop_bit 8 color AND 0xFF; blue = color AND 0xFF
      in if fb_format fb = 0 then red OR push_bit 8 green OR push_bit 16 blue
         else blue OR push_bit 8 green OR push_bit 16 red)"

definition DrawPixel :: "FramebufferInfo \<Rightarrow> (u32 \<Rightarrow> u32) \<Rightarrow> u32 \<Rightarrow> u32 \<Rightarrow> u32 \<Rightarrow> (u32 \<Rightarrow> u32)" where
  "DrawPixel fb px x y color =
     (if x \<ge> fb_width fb \<or> y \<ge> fb_height fb then px
      else px(y * fb_pixels_per_scanline fb + x := ConvertColor fb color))"

text \<open>\<open>for (c = lo; c < lo + n && c < limit; c++)\<close> on 32-bit counters.\<close>

definition u32_range :: "u32 \<Rightarrow> u32 \<Rightarrow> u32 \<Rightarrow> u32 list" where
  "u32_range lo n limit = map of_nat [unat lo ..< min (unat (lo + n)) (unat limit)]"

definition FillRect :: "KernelConsole \<Rightarrow> u32 \<Rightarrow> u32 \<Rightarrow> u32 \<Rightarrow> u32 \<Rightarrow> u32 \<Rightarrow> KernelConsole" where
  "FillRect con x y w h color =
     (case m_Framebuffer con of None \<Rightarrow> con
      | Some fb \<Rightarrow> con\<lparr>pixels :=
          foldl (\<lambda>px cy. foldl (\<lambda>px cx. DrawPixel fb px cx cy color) px (u32_range x w (fb_width fb)))
            (pixels con) (u32_range y h (fb_height fb))\<rparr>)"

definition ConsoleClear :: "KernelConsole \<Rightarrow> u32 \<Rightarrow> KernelConsole" where
  "ConsoleClear con color =
     (case m_Framebuffer con of None \<Rightarrow> con
      | Some fb \<Rightarrow> (FillRect con 0 0 (fb_width fb) (fb_height fb) color)
          \<lparr>m_CursorX := kMarginX, m_CursorY := kMarginY\<rparr>)"

definition Console_Init :: "KernelConsole \<Rightarrow> FramebufferInfo option \<Rightarrow> bool \<times> KernelConsole" where
  "Console_Init con framebuffer =
     (case framebuffer of None \<Rightarrow> (False, con)
      | Some fb \<Rightarrow>
          if fb_base_address fb = 0 \<or> fb_width fb = 0 \<or> fb_height fb = 0 then (False, con)
          else (True, ConsoleClear (con\<lparr>m_Framebuffer := Some fb, m_CursorX := kMarginX,
                                        m_CursorY := kMarginY\<rparr>) kColorBackground))"

definition IsReady :: "KernelConsole \<Rightarrow> bool" where
  "IsReady con \<longleftrightarrow> m_Framebuffer con \<noteq> None"

definition DrawChar :: "FramebufferInfo \<Rightarrow> (u32 \<Rightarrow> u32) \<Rightarrow> u32 \<Rightarrow> u32 \<Rightarrow> char \<Rightarrow> u32 \<Rightarrow> (u32 \<Rightarrow> u32)" where
  "DrawChar fb px x y c color =
     (let code = (if of_char c \<ge> (128 :: nat) then of_char (CHR ''?'') else of_char c);
          glyph = font8x8_kernel ! code
      in foldl (\<lambda>px gy. foldl (\<lambda>px gx.
           if bit (glyph ! gy) (7 - gx) then
             DrawPixel fb (DrawPixel fb (DrawPixel fb (DrawPixel fb px
               (x + of_nat gx * 2) (y + of_nat gy * 2) color)
               (x + of_nat gx * 2 + 1) (y + of_nat gy * 2) color)
               (x + of_nat gx * 2) (y + of_nat gy * 2 + 1) color)
               (x + of_nat gx * 2 + 1) (y + of_nat gy * 2 + 1) color
           else px) px [0 ..< 8]) px [0 ..< 8])"

definition NewLine :: "KernelConsole \<Rightarrow> KernelConsole" where
  "NewLine con = con\<lparr>m_CursorX := kMarginX, m_CursorY := m_CursorY con + kAdvanceY\<rparr>"

text \<open>\<open>PutChar\<close> and \<open>Write\<close> over the scroll they call.\<close>

definition put_char ::
    "(KernelConsole \<Rightarrow> KernelConsole option) \<Rightarrow> char \<Rightarrow> u32 \<Rightarrow> KernelConsole \<Rightarrow> KernelConsole option" where
  "put_char scroll c color con =
     (case m_Framebuffer con of None \<Rightarrow> Some con
      | Some fb \<Rightarrow>
          if c = CHR 0x0A then Some (NewLine con)
          else
            let con1 = (if m_CursorX con + kGlyphWidth > fb_width fb - kMarginX then NewLine con else con)
            in case (if m_CursorY con1 + kGlyphHeight > fb_height fb - kMarginY then scroll con1
                     else Some con1) of
                 None \<Rightarrow> None
               | Some con2 \<Rightarrow> Some (con2\<lparr>
                   pixels := DrawChar fb (pixels con2) (m_CursorX con2) (m_CursorY con2) c color,
                   m_CursorX := m_CursorX con2 + kAdvanceX\<rparr>))"

fun write_chars ::
    "(KernelConsole \<Rightarrow> KernelConsole option) \<Rightarrow> string \<Rightarrow> u32 \<Rightarrow> KernelConsole \<Rightarrow> KernelConsole option" where
  "write_chars scroll [] color con = Some con"
| "write_chars scroll (c # cs) color con =
     (case put_char scroll c color con of None \<Rightarrow> None | Some con' \<Rightarrow> write_chars scroll cs color con')"

definition scroll_message :: string where
  "scroll_message = ''[INFO] Console scroll reset'' @ [CHR 0x0A]"

primrec Scroll :: "nat \<Rightarrow> KernelConsole \<Rightarrow> KernelConsole option" where
  "Scroll 0 con = None"
| "Scroll (Suc n) con = write_chars (Scroll n) scroll_message kColorInfo (ConsoleClear con kColorBackground)"

definition PutChar :: "nat \<Rightarrow> char \<Rightarrow> u32 \<Rightarrow> KernelConsole \<Rightarrow> KernelConsole option" where
  "PutChar fuel = put_char (Scroll fuel)"

definition Write :: "nat \<Rightarrow> cstring \<Rightarrow> u32 \<Rightarrow> KernelConsole \<Rightarrow> KernelConsole option" where
  "Write fuel txt color con =
     (case txt of None \<Rightarrow> Some con | Some cs \<Rightarrow> write_chars (Scroll fuel) cs color con)"

subsection \<open>Numbers\<close>

definition digit_char :: "nat \<Rightarrow> char" where
  "digit_char d = char_of (48 + d)"

fun unsigned_digits :: "nat \<Rightarrow> u64 \<Rightarrow> string" where
  "unsigned_digits 0 value = []"
| "unsigned_digits (Suc room) value =
     (if value > 0 then digit_char (unat (value mod 10)) # unsigned_digits room (value div 10) else [])"

definition unsigned_text :: "u64 \<Rightarrow> string" where
  "unsigned_text value = (if value = 0 then ''0'' else rev (unsigned_digits 31 value))"

definition WriteUnsigned :: "nat \<Rightarrow> u64 \<Rightarrow> u32 \<Rightarrow> KernelConsole \<Rightarrow> KernelConsole option" where
  "WriteUnsigned fuel value color con = write_chars (Scroll fuel) (unsigned_text value) color con"

definition hex_char :: "nat \<Rightarrow> char" where
  "hex_char nibble = char_of (if nibble < 10 then 48 + nibble else 65 + (nibble - 10))"

fun hex_digits :: "u64 \<Rightarrow> bool \<Rightarrow> nat list \<Rightarrow> string" where
  "hex_digits value started [] = []"
| "hex_digits value started (shift # shifts) =
     (let nibble = unat (drop_bit shift value AND 0xF) in
      if nibble \<noteq> 0 \<or> started \<or> shift = 0 then hex_char nibble # hex_digits value True shifts
      else hex_digits value started shifts)"

definition hex_text :: "u64 \<Rightarrow> string" where
  "hex_text value = ''0x'' @ hex_digits value False (rev (map (\<lambda>k. 4 * k) [0 ..< 16]))"

definition WriteHex :: "nat \<Rightarrow> u64 \<Rightarrow> u32 \<Rightarrow> KernelConsole \<Rightarrow> KernelConsole option" where
  "WriteHex fuel value color con = write_chars (Scroll fuel) (hex_text value) color con"

subsection \<open>Log and panic\<close>

fun LogColor :: "LogLevel \<Rightarrow> u32" where
  "LogColor Info = kColorInfo"
| "LogColor Warn = kColorWarn"
| "LogColor Error = kColorError"
| "LogColor Panic = kColorError"

fun LogPrefix :: "LogLevel \<Rightarrow> string" where
  "LogPrefix Info = ''[INFO] ''"
| "LogPrefix Warn = ''[WARN] ''"
| "LogPrefix Error = ''[ERROR] ''"
| "LogPrefix Panic = ''[PANIC] ''"

definition KernelLog :: "nat \<Rightarrow> LogLevel \<Rightarrow> cstring \<Rightarrow> KernelConsole \<Rightarrow> KernelConsole option" where
  "KernelLog fuel level message con =
     (case Write fuel (Some (LogPrefix level)) (LogColor level) con of None \<Rightarrow> None
      | Some con1 \<Rightarrow>
          (case Write fuel message kColorText con1 of None \<Rightarrow> None
           | Some con2 \<Rightarrow> PutChar fuel (CHR 0x0A) kColorText con2))"

text \<open>What \<open>KernelPanic\<close> leaves on the screen before it halts.\<close>

definition KernelPanic :: "nat \<Rightarrow> cstring \<Rightarrow> KernelConsole \<Rightarrow> KernelConsole option" where
  "KernelPanic fuel reason con =
     (if IsReady con then
        (case KernelLog fuel Panic reason (FillRect con 0 0 800 120 0xFF330000) of None \<Rightarrow> None
         | Some con1 \<Rightarrow> Write fuel (Some (''System halted.'' @ [CHR 0x0A])) kColorError con1)
      else Some con)"

text \<open>The log as the other components see it: the calls of \<open>KernelLog\<close>, in order.\<close>

type_synonym klog = "(LogLevel \<times> string) list"

fun show_log :: "nat \<Rightarrow> klog \<Rightarrow> KernelConsole \<Rightarrow> KernelConsole option" where
  "show_log fuel [] con = Some con"
| "show_log fuel ((level, message) # log) con =
     (case KernelLog fuel level (Some message) con of None \<Rightarrow> None | Some con' \<Rightarrow> show_log fuel log con')"

subsection \<open>What the console draws on\<close>

definition visible :: "FramebufferInfo \<Rightarrow> u32 set" where
  "visible fb = {y * fb_pixels_per_scanline fb + x | x y. x < fb_width fb \<and> y < fb_height fb}"

definition draws_inside :: "FramebufferInfo \<Rightarrow> (u32 \<Rightarrow> u32) \<Rightarrow> (u32 \<Rightarrow> u32) \<Rightarrow> bool" where
  "draws_inside fb px px' \<longleftrightarrow> (\<forall>i. i \<notin> visible fb \<longrightarrow> px' i = px i)"

lemma draws_inside_refl [simp]: "draws_inside fb px px"
  by (simp add: draws_inside_def)

lemma draws_inside_trans [trans]:
  "draws_inside fb a b \<Longrightarrow> draws_inside fb b c \<Longrightarrow> draws_inside fb a c"
  by (simp add: draws_inside_def)

lemma draws_inside_DrawPixel: "draws_inside fb px (DrawPixel fb px x y c)"
  by (auto simp: draws_inside_def DrawPixel_def visible_def not_le)

lemma draws_inside_foldl:
  "(\<And>px a. a \<in> set as \<Longrightarrow> draws_inside fb px (f px a)) \<Longrightarrow> draws_inside fb px (foldl f px as)"
proof (induction "as" arbitrary: px)
  case (Cons a "as")
  then show ?case using draws_inside_trans by simp blast
qed simp

lemma draws_inside_DrawChar: "draws_inside fb px (DrawChar fb px x y ch c)"
  unfolding DrawChar_def Let_def
  by (intro draws_inside_foldl)
     (auto intro!: draws_inside_trans[OF draws_inside_trans[OF draws_inside_trans[OF draws_inside_DrawPixel
        draws_inside_DrawPixel] draws_inside_DrawPixel] draws_inside_DrawPixel])

text \<open>A console step keeps the framebuffer and draws only inside it.\<close>

definition console_step :: "KernelConsole \<Rightarrow> KernelConsole \<Rightarrow> bool" where
  "console_step a b \<longleftrightarrow> m_Framebuffer b = m_Framebuffer a \<and>
     (\<forall>fb. m_Framebuffer a = Some fb \<longrightarrow> draws_inside fb (pixels a) (pixels b))"

lemma console_step_refl [simp]: "console_step a a"
  by (simp add: console_step_def)

lemma console_step_trans: "console_step a b \<Longrightarrow> console_step b c \<Longrightarrow> console_step a c"
  by (auto simp: console_step_def intro: draws_inside_trans)

lemma console_step_FillRect: "console_step con (FillRect con x y w h c)"
  by (auto simp: console_step_def FillRect_def draws_inside_DrawPixel
      intro!: draws_inside_foldl split: option.split)

lemma console_step_Clear: "console_step con (ConsoleClear con c)"
  using console_step_FillRect[of con 0 0 _ _ c]
  by (auto simp: console_step_def ConsoleClear_def split: option.split)

lemma console_step_NewLine: "console_step con (NewLine con)"
  by (simp add: console_step_def NewLine_def)

definition steps_to :: "(KernelConsole \<Rightarrow> KernelConsole option) \<Rightarrow> bool" where
  "steps_to f \<longleftrightarrow> (\<forall>a b. f a = Some b \<longrightarrow> console_step a b)"

lemma put_char_step:
  assumes "steps_to scroll" "put_char scroll ch c con = Some con'"
  shows "console_step con con'"
proof (cases "m_Framebuffer con")
  case (Some fb)
  show ?thesis
  proof (cases "ch = CHR 0x0A")
    case True
    with Some assms(2) show ?thesis by (auto simp: put_char_def console_step_NewLine)
  next
    case False
    define con1 where
      "con1 = (if m_CursorX con + kGlyphWidth > fb_width fb - kMarginX then NewLine con else con)"
    have c1: "console_step con con1" by (simp add: con1_def console_step_NewLine)
    obtain con2 where c2: "console_step con1 con2"
      and con': "con' = con2\<lparr>pixels := DrawChar fb (pixels con2) (m_CursorX con2) (m_CursorY con2) ch c,
        m_CursorX := m_CursorX con2 + kAdvanceX\<rparr>"
    proof (cases "m_CursorY con1 + kGlyphHeight > fb_height fb - kMarginY")
      case True
      then show ?thesis
        using that assms Some False by (auto simp: put_char_def con1_def Let_def steps_to_def split: option.splits)
    next
      case nscroll: False
      then show ?thesis
        using that[of con1] assms Some False by (auto simp: put_char_def con1_def Let_def split: option.splits)
    qed
    have "m_Framebuffer con2 = Some fb" using c1 c2 Some by (simp add: console_step_def)
    then have "console_step con2 con'" by (simp add: console_step_def con' draws_inside_DrawChar)
    then show ?thesis using c1 c2 console_step_trans by blast
  qed
qed (use assms(2) in \<open>simp add: put_char_def\<close>)

lemma write_chars_step:
  "steps_to scroll \<Longrightarrow> write_chars scroll cs c con = Some con' \<Longrightarrow> console_step con con'"
proof (induction cs arbitrary: con)
  case (Cons ch cs)
  then obtain con1 where "put_char scroll ch c con = Some con1" "write_chars scroll cs c con1 = Some con'"
    by (auto split: option.splits)
  with Cons show ?case using put_char_step console_step_trans by blast
qed simp

lemma Scroll_steps: "steps_to (Scroll n)"
proof (induction n)
  case (Suc n)
  then show ?case
    unfolding steps_to_def
    using write_chars_step[OF Suc] console_step_Clear console_step_trans by (fastforce simp: steps_to_def)
qed (simp add: steps_to_def)

lemma Write_step: "Write n t c con = Some con' \<Longrightarrow> console_step con con'"
  by (auto simp: Write_def write_chars_step[OF Scroll_steps] split: option.splits)

lemma KernelLog_step: "KernelLog n l m con = Some con' \<Longrightarrow> console_step con con'"
  unfolding KernelLog_def PutChar_def
  using Write_step put_char_step[OF Scroll_steps] console_step_trans
  by (auto split: option.splits) metis

lemma show_log_step: "show_log n log con = Some con' \<Longrightarrow> console_step con con'"
proof (induction n log con rule: show_log.induct)
  case (2 n l m log con)
  then show ?case using KernelLog_step console_step_trans by (fastforce split: option.splits)
qed simp

subsection \<open>Termination of the scroll\<close>

text \<open>A text that fits on the lines left never scrolls.\<close>

definition roomy :: "FramebufferInfo \<Rightarrow> bool" where
  "roomy fb \<longleftrightarrow> 548 \<le> fb_width fb \<and> fb_width fb < 0x80000000 \<and> 72 \<le> fb_height fb \<and> fb_height fb < 0x80000000"

lemma put_char_fits:
  assumes "m_Framebuffer con = Some fb" "roomy fb" "m_CursorY con = kMarginY"
    and "unat (m_CursorX con) + 16 \<le> 516" "ch \<noteq> CHR 0x0A"
  shows "\<exists>con'. put_char scroll ch c con = Some con' \<and> m_Framebuffer con' = Some fb \<and>
    m_CursorY con' = kMarginY \<and> unat (m_CursorX con') = unat (m_CursorX con) + 18"
proof -
  have x: "unat (m_CursorX con + 16) = unat (m_CursorX con) + 16"
    "unat (m_CursorX con + 18) = unat (m_CursorX con) + 18"
    using assms(4) by (simp_all add: unat_word_ariths)
  have "unat (fb_width fb - 32) = unat (fb_width fb) - 32" "unat (fb_height fb - 28) = unat (fb_height fb) - 28"
    using assms(2) by (simp_all add: roomy_def word_le_nat_alt unat_sub)
  then have "\<not> m_CursorX con + 16 > fb_width fb - 32" "\<not> (28 + 16 :: u32) > fb_height fb - 28"
    using assms(2,4) x by (simp_all add: roomy_def word_less_nat_alt word_le_nat_alt; arith)+
  then show ?thesis
    using assms x by (simp add: put_char_def console_metrics Let_def)
qed

lemma write_chars_fits:
  assumes "m_Framebuffer con = Some fb" "roomy fb" "m_CursorY con = kMarginY"
    and "unat (m_CursorX con) + 18 * length cs \<le> 518" "CHR 0x0A \<notin> set cs"
  shows "\<exists>con'. write_chars scroll cs c con = Some con' \<and> m_Framebuffer con' = Some fb"
  using assms
proof (induction cs arbitrary: con)
  case (Cons ch cs)
  from put_char_fits[OF Cons.prems(1,2,3), of ch scroll c] Cons.prems(4,5)
  obtain con' where c: "put_char scroll ch c con = Some con'" "m_Framebuffer con' = Some fb"
    "m_CursorY con' = kMarginY" "unat (m_CursorX con') = unat (m_CursorX con) + 18" by auto
  from Cons.IH[OF c(2) Cons.prems(2) c(3)] Cons.prems(4,5) c show ?case by auto
qed simp

lemma write_chars_append:
  "write_chars scroll (xs @ ys) c con =
    (case write_chars scroll xs c con of None \<Rightarrow> None | Some con' \<Rightarrow> write_chars scroll ys c con')"
  by (induction xs arbitrary: con) (auto split: option.splits)

lemma Scroll_total:
  assumes "m_Framebuffer con = Some fb" "roomy fb"
  shows "\<exists>con'. Scroll (Suc n) con = Some con' \<and> m_Framebuffer con' = Some fb"
proof -
  let ?con = "ConsoleClear con kColorBackground"
  have fb: "m_Framebuffer ?con = Some fb" "m_CursorY ?con = kMarginY" "m_CursorX ?con = kMarginX"
    using assms(1) by (simp_all add: ConsoleClear_def FillRect_def)
  have "\<exists>con'. write_chars (Scroll n) ''[INFO] Console scroll reset'' kColorInfo ?con = Some con' \<and>
      m_Framebuffer con' = Some fb"
    by (rule write_chars_fits[OF fb(1) assms(2) fb(2)]) (simp_all add: fb(3) kMarginX_def)
  then show ?thesis
    by (auto simp: scroll_message_def write_chars_append put_char_def NewLine_def simp del: append.simps)
qed

definition scrolls_on :: "FramebufferInfo \<Rightarrow> (KernelConsole \<Rightarrow> KernelConsole option) \<Rightarrow> bool" where
  "scrolls_on fb scroll \<longleftrightarrow> (\<forall>con. m_Framebuffer con = Some fb \<longrightarrow>
     (\<exists>con'. scroll con = Some con' \<and> m_Framebuffer con' = Some fb))"

lemma scrolls_on_Scroll: "roomy fb \<Longrightarrow> scrolls_on fb (Scroll (Suc n))"
  unfolding scrolls_on_def using Scroll_total by blast

lemma put_char_total:
  assumes "m_Framebuffer con = Some fb" "scrolls_on fb scroll"
  shows "\<exists>con'. put_char scroll ch c con = Some con' \<and> m_Framebuffer con' = Some fb"
proof -
  define con1 where
    "con1 = (if m_CursorX con + kGlyphWidth > fb_width fb - kMarginX then NewLine con else con)"
  have "m_Framebuffer con1 = Some fb" using assms(1) by (simp add: con1_def NewLine_def)
  then obtain con2 where "scroll con1 = Some con2" "m_Framebuffer con2 = Some fb"
    using assms(2) by (auto simp: scrolls_on_def)
  then show ?thesis
    using assms(1) \<open>m_Framebuffer con1 = Some fb\<close>
    by (simp add: put_char_def con1_def[symmetric] NewLine_def)
qed

lemma write_chars_total:
  assumes "m_Framebuffer con = Some fb" "scrolls_on fb scroll"
  shows "\<exists>con'. write_chars scroll cs c con = Some con' \<and> m_Framebuffer con' = Some fb"
  using assms(1)
proof (induction cs arbitrary: con)
  case (Cons ch cs)
  from put_char_total[OF Cons.prems assms(2)] obtain con1
    where "put_char scroll ch c con = Some con1" "m_Framebuffer con1 = Some fb" by blast
  with Cons.IH[of con1] show ?case by simp
qed simp

lemma Write_total:
  assumes "m_Framebuffer con = Some fb" "roomy fb"
  shows "\<exists>con'. Write (Suc n) t c con = Some con' \<and> m_Framebuffer con' = Some fb"
  using write_chars_total[OF assms(1), of "Scroll (Suc n)"] scrolls_on_Scroll[OF assms(2)] assms(1)
  by (auto simp: Write_def simp del: Scroll.simps split: option.split)

lemma KernelLog_total:
  assumes "m_Framebuffer con = Some fb" "roomy fb"
  shows "\<exists>con'. KernelLog (Suc n) l m con = Some con' \<and> m_Framebuffer con' = Some fb"
proof -
  obtain con1 where 1: "Write (Suc n) (Some (LogPrefix l)) (LogColor l) con = Some con1" "m_Framebuffer con1 = Some fb"
    using Write_total[OF assms] by blast
  obtain con2 where 2: "Write (Suc n) m kColorText con1 = Some con2" "m_Framebuffer con2 = Some fb"
    using Write_total[OF 1(2) assms(2)] by blast
  show ?thesis
    using put_char_total[OF 2(2), of "Scroll (Suc n)"] scrolls_on_Scroll[OF assms(2)] 1 2
    by (auto simp: KernelLog_def PutChar_def simp del: Scroll.simps)
qed

subsection \<open>Numbers as text\<close>

definition digits_value :: "nat \<Rightarrow> (char \<Rightarrow> nat) \<Rightarrow> nat \<Rightarrow> string \<Rightarrow> nat" where
  "digits_value base digit start cs = foldl (\<lambda>a c. base * a + digit c) start cs"

definition dec_digit :: "char \<Rightarrow> nat" where
  "dec_digit c = of_char c - 48"

definition hex_digit :: "char \<Rightarrow> nat" where
  "hex_digit c = (let k = of_char c in if k < 58 then k - 48 else k - 65 + 10)"

lemma dec_digit_char: "d < 10 \<Longrightarrow> dec_digit (digit_char d) = d"
  by (simp add: dec_digit_def digit_char_def of_char_of)

lemma hex_digit_char: "d < 16 \<Longrightarrow> hex_digit (hex_char d) = d"
  by (simp add: hex_digit_def hex_char_def of_char_of Let_def)

lemma digits_value_append:
  "digits_value b d s (xs @ ys) = digits_value b d (digits_value b d s xs) ys"
  by (simp add: digits_value_def)

lemma unsigned_digits_value:
  "unat v < 10 ^ room \<Longrightarrow> digits_value 10 dec_digit 0 (rev (unsigned_digits room v)) = unat v"
proof (induction room v rule: unsigned_digits.induct)
  case (2 room v)
  show ?case
  proof (cases "v > 0")
    case True
    have "unat (v div 10) < 10 ^ room"
      using "2.prems" by (simp add: unat_div less_mult_imp_div_less mult.commute)
    then have "digits_value 10 dec_digit 0 (rev (unsigned_digits room (v div 10))) = unat v div 10"
      using "2.IH"[OF True] by (simp add: unat_div)
    moreover have "unat (v mod 10) = unat v mod 10" by (simp add: unat_mod)
    ultimately show ?thesis
      using True by (simp add: digits_value_append) (simp add: digits_value_def dec_digit_char)
  qed (simp add: digits_value_def word_gt_0)
qed (simp add: digits_value_def)

lemma hex_digits_value:
  "digits_value 16 hex_digit a (hex_digits v started (rev (map (\<lambda>k. 4 * k) [0 ..< n]))) =
    a * (if started then 16 ^ n else 1) + unat v mod 16 ^ n" if "started \<or> a = 0"
  using that
proof (induction n arbitrary: a started)
  case (Suc n)
  define d where "d = unat (drop_bit (4 * n) v AND 0xF)"
  have "d = unat v div 2 ^ (4 * n) mod 16"
    using and_mask_mod[of "drop_bit (4 * n) v" 4] by (simp add: d_def mask_eq_exp_minus_1 unat_drop_bit)
  then have d: "d = unat v div 16 ^ n mod 16" by (simp add: power_mult)
  then have d16: "d < 16" by simp
  have split: "unat v mod 16 ^ Suc n = d * 16 ^ n + unat v mod 16 ^ n"
    by (simp add: d mod_mult2_eq mult.commute[of 16 "16 ^ n"])
  show ?case
  proof (cases "d \<noteq> 0 \<or> started \<or> n = 0")
    case True
    have "digits_value 16 hex_digit a (hex_digits v started (rev (map (\<lambda>k. 4 * k) [0 ..< Suc n]))) =
        digits_value 16 hex_digit (16 * a + d) (hex_digits v True (rev (map (\<lambda>k. 4 * k) [0 ..< n])))"
      using True by (simp add: Let_def d_def[symmetric] digits_value_def hex_digit_char[OF d16])
    also have "\<dots> = (16 * a + d) * 16 ^ n + unat v mod 16 ^ n" using Suc.IH[of True "16 * a + d"] by simp
    finally show ?thesis using split Suc.prems by (auto simp: algebra_simps)
  next
    case False
    have "digits_value 16 hex_digit a (hex_digits v started (rev (map (\<lambda>k. 4 * k) [0 ..< Suc n]))) =
        digits_value 16 hex_digit a (hex_digits v False (rev (map (\<lambda>k. 4 * k) [0 ..< n])))"
      using False by (simp add: Let_def d_def[symmetric])
    also have "\<dots> = unat v mod 16 ^ n" using False Suc.prems Suc.IH[of False a] by simp
    also have "\<dots> = a * (if started then 16 ^ Suc n else 1) + unat v mod 16 ^ Suc n"
      using False Suc.prems split by simp
    finally show ?thesis .
  qed
qed (simp_all add: digits_value_def)

subsection \<open>Properties\<close>

text \<open>
  Log output stays on the screen: whatever is logged, every framebuffer word outside
  the visible width times height pixels keeps its value.
\<close>

lemma log_draws_on_screen:
  assumes "m_Framebuffer con = Some fb" "show_log fuel log con = Some con'"
    and "\<And>x y. x < fb_width fb \<Longrightarrow> y < fb_height fb \<Longrightarrow> i \<noteq> y * fb_pixels_per_scanline fb + x"
  shows "pixels con' i = pixels con i"
proof -
  have "i \<notin> visible fb" using assms(3) by (auto simp: visible_def)
  then show ?thesis using show_log_step[OF assms(2)] assms(1) by (simp add: console_step_def draws_inside_def)
qed

definition demo_console :: KernelConsole where
  "demo_console = \<lparr>m_Framebuffer = Some \<lparr>fb_base_address = 0x80000000, fb_width = 640, fb_height = 480,
      fb_pixels_per_scanline = 640, fb_format = 1\<rparr>, m_CursorX = 32, m_CursorY = 28, pixels = (\<lambda>_. 0)\<rparr>"

text \<open>
  Logging terminates on every display of at least 548 by 72 pixels: one level of
  scrolling is enough for any log, however long.
\<close>

lemma log_terminates:
  assumes "m_Framebuffer con = Some fb"
    and "548 \<le> fb_width fb" "fb_width fb < 0x80000000" "72 \<le> fb_height fb" "fb_height fb < 0x80000000"
  shows "\<exists>con'. show_log 1 log con = Some con'"
  using assms(1)
proof (induction log arbitrary: con)
  case (Cons e log)
  obtain l m where e: "e = (l, m)" by (cases e)
  have "roomy fb" using assms(2-) by (simp add: roomy_def)
  then obtain con1 where "KernelLog 1 l (Some m) con = Some con1" "m_Framebuffer con1 = Some fb"
    using KernelLog_total[OF Cons.prems, of 0] by auto
  with Cons.IH[of con1] show ?case by (simp add: e)
qed simp

lemma log_terminates_witness: "\<exists>con'. show_log 1 [(Info, ''Booting''), (Warn, ''No mouse'')] demo_console = Some con'"
  by (rule log_terminates[of _ "\<lparr>fb_base_address = 0x80000000, fb_width = 640, fb_height = 480,
      fb_pixels_per_scanline = 640, fb_format = 1\<rparr>"]) (simp_all add: demo_console_def)

lemma log_draws_on_screen_witness:
  "\<exists>con'. show_log 1 [(Info, ''ok'')] demo_console = Some con' \<and> pixels con' 307200 = 0"
proof -
  let ?fb = "\<lparr>fb_base_address = 0x80000000, fb_width = 640, fb_height = 480,
      fb_pixels_per_scanline = 640, fb_format = 1\<rparr>"
  have fb: "m_Framebuffer demo_console = Some ?fb" by (simp add: demo_console_def)
  have r: "roomy ?fb" by (simp add: roomy_def)
  obtain con' where c: "show_log 1 [(Info, ''ok'')] demo_console = Some con'"
    using KernelLog_total[OF fb r, of 0 Info "Some ''ok''"] by auto
  have i: "307200 \<noteq> y * 640 + x" if "x < 640" "y < 480" for x y :: u32
  proof
    assume e: "307200 = y * 640 + x"
    have b: "unat x < 640" "unat y < 480" using that by (simp_all add: word_less_nat_alt)
    then have "unat (y * 640 + x) = unat y * 640 + unat x" by (simp add: unat_word_ariths)
    moreover have "unat (307200 :: u32) = 307200" by simp
    ultimately have "307200 = unat y * 640 + unat x" using e by metis
    then show False using b by linarith
  qed
  have "pixels con' 307200 = pixels demo_console 307200"
    using i by (intro log_draws_on_screen[OF fb c]) simp_all
  then show ?thesis using c by (auto simp: demo_console_def)
qed

text \<open>
  On a display less than 72 pixels high the console never returns: \<open>Scroll\<close> writes a
  message, whose first character scrolls again, whatever the nesting allowed.
\<close>

lemma console_scroll_diverges:
  assumes "m_Framebuffer con = Some fb" "28 \<le> fb_height fb" "fb_height fb < 72"
    and "28 \<le> m_CursorY con" "m_CursorY con < 0x80000000" "ch \<noteq> CHR 0x0A"
  shows "PutChar fuel ch color con = None"
proof -
  have scrolls: "put_char scroll ch color con = None"
    if "m_Framebuffer con = Some fb" "28 \<le> m_CursorY con" "m_CursorY con < 0x80000000" "ch \<noteq> CHR 0x0A"
      "\<And>con. m_Framebuffer con = Some fb \<Longrightarrow> scroll con = None" for scroll con ch color
  proof -
    have h: "unat (fb_height fb - 28) < 44"
      using assms(2,3) by (simp add: unat_sub word_le_nat_alt word_less_nat_alt; arith)
    have y: "44 \<le> unat (m_CursorY con + 16)" "44 \<le> unat (m_CursorY con + 22 + 16)"
      using that(2,3) by (simp_all add: NewLine_def kAdvanceY_def word_le_nat_alt word_less_nat_alt unat_word_ariths)
    then show ?thesis
      using that h by (simp add: put_char_def console_metrics Let_def word_less_nat_alt NewLine_def)
  qed
  have "Scroll fuel con' = None" if "m_Framebuffer con' = Some fb" for con'
    using that
  proof (induction fuel arbitrary: con')
    case (Suc n)
    have "put_char (Scroll n) (CHR ''['') kColorInfo (ConsoleClear con' kColorBackground) = None"
      using Suc by (intro scrolls) (simp_all add: ConsoleClear_def FillRect_def kMarginY_def)
    then show ?case by (simp add: scroll_message_def)
  qed simp
  then show ?thesis unfolding PutChar_def using assms by (intro scrolls) auto
qed

lemma console_scroll_diverges_witness:
  "PutChar 1000 (CHR ''A'') kColorText (demo_console\<lparr>m_Framebuffer := Some \<lparr>fb_base_address = 0x80000000,
     fb_width = 640, fb_height = 64, fb_pixels_per_scanline = 640, fb_format = 1\<rparr>\<rparr>) = None"
  by (rule console_scroll_diverges[where fb = "\<lparr>fb_base_address = 0x80000000, fb_width = 640,
      fb_height = 64, fb_pixels_per_scanline = 640, fb_format = 1\<rparr>"]) (simp_all add: demo_console_def)

text \<open>
  Numbers are printed exactly: the text WriteUnsigned and WriteHex put out, read back in
  base 10 and in base 16 after the 0x, is the value.
\<close>

lemma printed_numbers_read_back:
  "digits_value 10 dec_digit 0 (unsigned_text v) = unat v \<and>
   take 2 (hex_text v) = ''0x'' \<and> digits_value 16 hex_digit 0 (drop 2 (hex_text v)) = unat v"
proof -
  have "unat v < 10 ^ 31" using u64_lt[of v] by (rule less_le_trans) simp
  then have "digits_value 10 dec_digit 0 (unsigned_text v) = unat v"
    using unsigned_digits_value[of v 31]
    by (auto simp: unsigned_text_def digits_value_def dec_digit_def)
  moreover have "unat v mod 16 ^ 16 = unat v" using u64_lt[of v] by simp
  ultimately show ?thesis
    using hex_digits_value[of False 0 v 16] by (simp add: hex_text_def del: hex_digits.simps upt_rec_numeral)
qed

end
