(* ===== verification/Scheduler.thy ===== *)
theory Scheduler
  imports Console "HOL-Library.Sublist"
begin

text \<open>
  \<^verbatim>\<open>kernel/src/scheduler.cpp\<close> with \<^verbatim>\<open>kernel/src/context_switch.S\<close>: processes, threads,
  the cooperative priority scheduler, mutexes, futexes, IPC queues, signals, and the event
  objects behind epoll, eventfd and timerfd.

  The tables are lists of their fixed sizes and pointers into them are indices. The state
  holds the registers of the processor: \<open>SchedulerContextSwitch\<close> saves them into one
  thread and loads them from another. A call that switches away has not returned yet; it
  is \<open>Suspended\<close>, and what it does when its thread runs again is a definition of its own
  (\<open>KernelMutexLock_resume\<close>, \<open>KernelPthreadJoin_check\<close>).
\<close>

definition kMaxProcesses :: nat where "kMaxProcesses = 64"
definition kMaxThreads :: nat where "kMaxThreads = 128"
definition kThreadStackSize :: u64 where "kThreadStackSize = 8192"
definition kKernelProcessId :: u64 where "kKernelProcessId = 1"
definition kIpcQueueSize :: u64 where "kIpcQueueSize = 8"
definition kMaxMutexes :: nat where "kMaxMutexes = 8"
definition kMaxFutexes :: nat where "kMaxFutexes = 8"
definition kMaxEventObjects :: nat where "kMaxEventObjects = 16"
definition kMaxEpollWatches :: u32 where "kMaxEpollWatches = 8"
definition kDefaultThreadPriority :: u8 where "kDefaultThreadPriority = 8"
definition kMaxThreadPriority :: u8 where "kMaxThreadPriority = 31"

lemmas table_sizes = kMaxProcesses_def kMaxThreads_def kMaxMutexes_def kMaxFutexes_def
  kMaxEventObjects_def

datatype ThreadState = Empty | Ready | Running | Sleeping | Blocked | Finished

record ThreadContext =
  r15 :: u64
  r14 :: u64
  r13 :: u64
  r12 :: u64
  rbx :: u64
  rbp :: u64
  rsp :: u64
  reserved :: u64
  extended_state :: "u8 list"

record Process =
  p_id :: u64
  p_name :: cstring
  p_active :: bool
  p_ipc_queue :: "u64 list"
  p_ipc_head :: u64
  p_ipc_tail :: u64
  p_ipc_count :: u64

record Thread =
  t_id :: u64
  t_process_id :: u64
  t_name :: cstring
  t_state :: ThreadState
  t_context :: ThreadContext
  t_stack_base :: u64
  t_stack_size :: u64
  t_entry :: u64
  t_argument :: u64
  t_run_count :: u64
  t_wake_tick :: u64
  t_pending_signals :: u32
  t_handled_signals :: u32
  t_priority :: u8
  t_waiting_mutex_id :: u64

record KernelMutex =
  m_id :: u64
  m_active :: bool
  m_locked :: bool
  m_owner_thread_id :: u64

record FutexWaitQueue =
  f_address :: u64
  f_waiting_threads :: "u64 list"
  f_waiter_count :: u32
  f_active :: bool

datatype EventObjectType = EmptyObject | Epoll | Event | Timer

record EventObject =
  e_fd :: u32
  e_type :: EventObjectType
  e_value :: u64
  e_deadline :: u64
  e_interval :: u64
  e_watches :: "u32 list"
  e_watch_count :: u32

text \<open>
  \<open>cpu\<close> are the callee-saved registers, the stack pointer and the vector state;
  \<open>user_words\<close> the 32-bit words futexes live in; \<open>stack_words\<close> the 64-bit words of
  the thread stacks.
\<close>

record Sched =
  g_Processes :: "Process list"
  g_Threads :: "Thread list"
  g_Mutexes :: "KernelMutex list"
  g_Futexes :: "FutexWaitQueue list"
  g_EventObjects :: "EventObject list"
  g_CurrentThread :: "nat option"
  g_NextProcessId :: u64
  g_NextThreadId :: u64
  g_NextMutexId :: u64
  g_SchedulerTick :: u64
  g_SignalsDelivered :: u64
  g_NextEventFd :: u32
  heap :: KernelHeap
  klog_of :: klog
  cpu :: ThreadContext
  user_words :: "u64 \<Rightarrow> u32"
  stack_words :: "u64 \<Rightarrow> u64"

datatype call = Returned bool | Suspended

definition upd_process :: "nat \<Rightarrow> (Process \<Rightarrow> Process) \<Rightarrow> Sched \<Rightarrow> Sched" where
  "upd_process i f s = s\<lparr>g_Processes := (g_Processes s)[i := f (g_Processes s ! i)]\<rparr>"

definition upd_thread :: "nat \<Rightarrow> (Thread \<Rightarrow> Thread) \<Rightarrow> Sched \<Rightarrow> Sched" where
  "upd_thread i f s = s\<lparr>g_Threads := (g_Threads s)[i := f (g_Threads s ! i)]\<rparr>"

definition upd_mutex :: "nat \<Rightarrow> (KernelMutex \<Rightarrow> KernelMutex) \<Rightarrow> Sched \<Rightarrow> Sched" where
  "upd_mutex i f s = s\<lparr>g_Mutexes := (g_Mutexes s)[i := f (g_Mutexes s ! i)]\<rparr>"

definition upd_futex :: "nat \<Rightarrow> (FutexWaitQueue \<Rightarrow> FutexWaitQueue) \<Rightarrow> Sched \<Rightarrow> Sched" where
  "upd_futex i f s = s\<lparr>g_Futexes := (g_Futexes s)[i := f (g_Futexes s ! i)]\<rparr>"

definition upd_event :: "nat \<Rightarrow> (EventObject \<Rightarrow> EventObject) \<Rightarrow> Sched \<Rightarrow> Sched" where
  "upd_event i f s = s\<lparr>g_EventObjects := (g_EventObjects s)[i := f (g_EventObjects s ! i)]\<rparr>"

definition sched_log :: "LogLevel \<Rightarrow> string \<Rightarrow> Sched \<Rightarrow> Sched" where
  "sched_log l m s = s\<lparr>klog_of := klog_of s @ [(l, m)]\<rparr>"

subsection \<open>Lookups\<close>

definition FindProcess :: "Sched \<Rightarrow> u64 \<Rightarrow> nat option" where
  "FindProcess s pid = find_index (\<lambda>p. p_active p \<and> p_id p = pid) (g_Processes s)"

definition FindThreadSlot :: "Sched \<Rightarrow> nat option" where
  "FindThreadSlot s = find_index (\<lambda>t. t_state t = Empty) (g_Threads s)"

definition FindThread :: "Sched \<Rightarrow> u64 \<Rightarrow> nat option" where
  "FindThread s tid = find_index (\<lambda>t. t_state t \<noteq> Empty \<and> t_id t = tid) (g_Threads s)"

definition FindMutex :: "Sched \<Rightarrow> u64 \<Rightarrow> nat option" where
  "FindMutex s mid = find_index (\<lambda>m. m_active m \<and> m_id m = mid) (g_Mutexes s)"

definition FindEventObject :: "Sched \<Rightarrow> u32 \<Rightarrow> nat option" where
  "FindEventObject s fd = find_index (\<lambda>e. e_type e \<noteq> EmptyObject \<and> e_fd e = fd) (g_EventObjects s)"

definition zero_event :: EventObject where
  "zero_event = \<lparr>e_fd = 0, e_type = EmptyObject, e_value = 0, e_deadline = 0, e_interval = 0,
     e_watches = replicate 8 0, e_watch_count = 0\<rparr>"

definition AllocateEventObject :: "Sched \<Rightarrow> EventObjectType \<Rightarrow> nat option \<times> Sched" where
  "AllocateEventObject s ty =
     (case find_index (\<lambda>e. e_type e = EmptyObject) (g_EventObjects s) of
        None \<Rightarrow> (None, s)
      | Some i \<Rightarrow> (Some i, upd_event i (\<lambda>_. zero_event\<lparr>e_fd := g_NextEventFd s, e_type := ty\<rparr>)
                            (s\<lparr>g_NextEventFd := g_NextEventFd s + 1\<rparr>)))"

definition EventReady :: "Sched \<Rightarrow> nat \<Rightarrow> bool \<times> Sched" where
  "EventReady s i =
     (let e = g_EventObjects s ! i in
      if e_type e = Event then (e_value e \<noteq> 0, s)
      else if e_type e = Timer \<and> e_deadline e \<noteq> 0 \<and> g_SchedulerTick s \<ge> e_deadline e then
        let elapsed = g_SchedulerTick s - e_deadline e in
        (True, upd_event i (\<lambda>e. e\<lparr>e_value := 1 + (if e_interval e \<noteq> 0 then elapsed div e_interval e else 0)\<rparr>) s)
      else (False, s))"

subsection \<open>Choosing the next thread\<close>

text \<open>
  The selection loop of the scheduler and of the mutex hand-over: the first candidate in
  the order of \<open>is\<close> whose priority is highest.
\<close>

definition pick_step :: "(nat \<Rightarrow> bool) \<Rightarrow> (nat \<Rightarrow> u8) \<Rightarrow> nat option \<Rightarrow> nat \<Rightarrow> nat option" where
  "pick_step ok prio selected i =
     (if ok i then (case selected of None \<Rightarrow> Some i
                    | Some j \<Rightarrow> if prio i > prio j then Some i else selected)
      else selected)"

definition pick :: "(nat \<Rightarrow> bool) \<Rightarrow> (nat \<Rightarrow> u8) \<Rightarrow> nat list \<Rightarrow> nat option" where
  "pick ok prio is = foldl (pick_step ok prio) None is"

definition wake_thread :: "u64 \<Rightarrow> Thread \<Rightarrow> Thread" where
  "wake_thread tick t =
     (if t_state t = Sleeping \<and> t_wake_tick t \<le> tick then t\<lparr>t_state := Ready, t_wake_tick := 0\<rparr> else t)"

definition FindNextRunnable :: "Sched \<Rightarrow> nat option \<times> Sched" where
  "FindNextRunnable s =
     (case g_CurrentThread s of None \<Rightarrow> (None, s)
      | Some start \<Rightarrow>
          let s1 = s\<lparr>g_Threads := map (wake_thread (g_SchedulerTick s)) (g_Threads s)\<rparr>
          in (pick (\<lambda>i. t_state (g_Threads s1 ! i) = Ready) (\<lambda>i. t_priority (g_Threads s1 ! i))
                (map (\<lambda>offset. (start + offset) mod kMaxThreads) [1 ..< Suc kMaxThreads]), s1))"

definition RunnableWorkerCount :: "Sched \<Rightarrow> nat" where
  "RunnableWorkerCount s = count_if (\<lambda>i. Some i \<noteq> g_CurrentThread s \<and>
      t_state (g_Threads s ! i) \<noteq> Empty \<and> t_state (g_Threads s ! i) \<noteq> Finished \<and>
      t_state (g_Threads s ! i) \<noteq> Blocked) [0 ..< kMaxThreads]"

definition DeliverSignals :: "nat \<Rightarrow> Sched \<Rightarrow> Sched" where
  "DeliverSignals i s =
     (let t = g_Threads s ! i in
      if t_pending_signals t = 0 then s
      else (upd_thread i (\<lambda>t. t\<lparr>t_handled_signals := t_handled_signals t OR t_pending_signals t,
                               t_pending_signals := 0\<rparr>) s)
             \<lparr>g_SignalsDelivered := g_SignalsDelivered s + 1\<rparr>)"

text \<open>Saves everything but the \<open>reserved\<close> word, which the assembly does not touch.\<close>

definition SchedulerContextSwitch :: "nat \<Rightarrow> nat \<Rightarrow> Sched \<Rightarrow> Sched" where
  "SchedulerContextSwitch previous next s =
     (let s1 = upd_thread previous (\<lambda>t. t\<lparr>t_context := (cpu s)\<lparr>reserved := reserved (t_context t)\<rparr>\<rparr>) s
      in s1\<lparr>cpu := (t_context (g_Threads s1 ! next))\<lparr>reserved := reserved (cpu s)\<rparr>\<rparr>)"

text \<open>The first component says whether the call switched to another thread.\<close>

definition KernelSchedulerYield :: "Sched \<Rightarrow> bool \<times> Sched" where
  "KernelSchedulerYield s =
     (let s1 = s\<lparr>g_SchedulerTick := g_SchedulerTick s + 1\<rparr>;
          s2 = (case g_CurrentThread s1 of None \<Rightarrow> s1 | Some c \<Rightarrow> DeliverSignals c s1);
          (next, s3) = FindNextRunnable s2
      in case (next, g_CurrentThread s3) of
           (Some n, Some c) \<Rightarrow>
             if n = c then
               (False, if t_state (g_Threads s3 ! c) = Sleeping
                       then upd_thread c (\<lambda>t. t\<lparr>t_state := Ready, t_wake_tick := 0\<rparr>) s3 else s3)
             else
               let s4 = (if t_state (g_Threads s3 ! c) = Running
                         then upd_thread c (\<lambda>t. t\<lparr>t_state := Ready\<rparr>) s3 else s3);
                   s5 = upd_thread n (\<lambda>t. t\<lparr>t_state := Running, t_run_count := t_run_count t + 1\<rparr>) s4;
                   s6 = DeliverSignals n (s5\<lparr>g_CurrentThread := Some n\<rparr>)
               in (True, SchedulerContextSwitch c n s6)
         | (None, Some c) \<Rightarrow>
             (False, if t_state (g_Threads s3 ! c) = Sleeping
                     then upd_thread c (\<lambda>t. t\<lparr>t_state := Ready, t_wake_tick := 0\<rparr>) s3 else s3)
         | (_, None) \<Rightarrow> (False, s3))"

definition KernelSchedulerTimerTick :: "Sched \<Rightarrow> Sched" where
  "KernelSchedulerTimerTick s =
     (let s1 = s\<lparr>g_SchedulerTick := g_SchedulerTick s + 1\<rparr>
      in s1\<lparr>g_Threads := map (wake_thread (g_SchedulerTick s1)) (g_Threads s1)\<rparr>)"

subsection \<open>Initialisation, processes and threads\<close>

definition zero_context :: ThreadContext where
  "zero_context = \<lparr>r15 = 0, r14 = 0, r13 = 0, r12 = 0, rbx = 0, rbp = 0, rsp = 0, reserved = 0,
     extended_state = replicate 1024 0\<rparr>"

definition zero_process :: Process where
  "zero_process = \<lparr>p_id = 0, p_name = None, p_active = False, p_ipc_queue = replicate 8 0,
     p_ipc_head = 0, p_ipc_tail = 0, p_ipc_count = 0\<rparr>"

definition zero_thread :: Thread where
  "zero_thread = \<lparr>t_id = 0, t_process_id = 0, t_name = None, t_state = Empty, t_context = zero_context,
     t_stack_base = 0, t_stack_size = 0, t_entry = 0, t_argument = 0, t_run_count = 0, t_wake_tick = 0,
     t_pending_signals = 0, t_handled_signals = 0, t_priority = 0, t_waiting_mutex_id = 0\<rparr>"

definition zero_mutex :: KernelMutex where
  "zero_mutex = \<lparr>m_id = 0, m_active = False, m_locked = False, m_owner_thread_id = 0\<rparr>"

definition zero_futex :: FutexWaitQueue where
  "zero_futex = \<lparr>f_address = 0, f_waiting_threads = replicate 128 0, f_waiter_count = 0, f_active = False\<rparr>"

definition KernelSchedulerInit :: "Sched \<Rightarrow> bool \<times> Sched" where
  "KernelSchedulerInit s =
     (True, sched_log Info ''Scheduler bootstrap thread registered''
        (s\<lparr>g_Processes := (replicate kMaxProcesses zero_process)
              [0 := zero_process\<lparr>p_id := g_NextProcessId s, p_name := Some ''kernel'', p_active := True\<rparr>],
           g_Threads := (replicate kMaxThreads zero_thread)
              [0 := zero_thread\<lparr>t_id := g_NextThreadId s, t_process_id := kKernelProcessId,
                     t_name := Some ''bootstrap'', t_state := Running, t_priority := kDefaultThreadPriority\<rparr>],
           g_NextProcessId := g_NextProcessId s + 1,
           g_NextThreadId := g_NextThreadId s + 1,
           g_CurrentThread := Some 0,
           g_Mutexes := replicate kMaxMutexes zero_mutex,
           g_Futexes := replicate kMaxFutexes zero_futex,
           g_EventObjects := replicate kMaxEventObjects zero_event,
           g_NextMutexId := 1, g_NextEventFd := 32, g_SchedulerTick := 0, g_SignalsDelivered := 0\<rparr>))"

definition KernelCreateProcess :: "Sched \<Rightarrow> cstring \<Rightarrow> u64 \<times> Sched" where
  "KernelCreateProcess s name =
     (case find_index (\<lambda>p. \<not> p_active p) (g_Processes s) of
        None \<Rightarrow> (0, s)
      | Some i \<Rightarrow> (g_NextProcessId s,
          upd_process i (\<lambda>p. p\<lparr>p_id := g_NextProcessId s, p_name := name, p_active := True, p_ipc_head := 0,
                           p_ipc_tail := 0, p_ipc_count := 0, p_ipc_queue := replicate 8 0\<rparr>)
            (s\<lparr>g_NextProcessId := g_NextProcessId s + 1\<rparr>)))"

text \<open>
  The machine facts thread creation uses: the address of \<open>ThreadTrampoline\<close> and the vector
  state \<open>xsave64\<close> (\<open>fxsave64\<close> when \<open>CpuXsaveMask\<close> is 0) stores, the processor's own.
\<close>

definition PrepareInitialContext :: "u64 \<Rightarrow> nat \<Rightarrow> Sched \<Rightarrow> Sched" where
  "PrepareInitialContext trampoline i s =
     (let t = g_Threads s ! i;
          raw_top = t_stack_base t + t_stack_size t;
          stack = AlignDown raw_top 16 - 16
      in upd_thread i (\<lambda>t. t\<lparr>t_context := zero_context\<lparr>rsp := stack, extended_state := extended_state (cpu s)\<rparr>\<rparr>)
           (s\<lparr>stack_words := (stack_words s)(stack := trampoline)\<rparr>))"

definition KernelCreateThread ::
    "u64 \<Rightarrow> Sched \<Rightarrow> u64 \<Rightarrow> cstring \<Rightarrow> u64 \<Rightarrow> u64 \<Rightarrow> u64 \<times> Sched" where
  "KernelCreateThread trampoline s process_id name entry argument =
     (if FindProcess s process_id = None \<or> entry = 0 then (0, s)
      else case FindThreadSlot s of None \<Rightarrow> (0, s)
      | Some i \<Rightarrow>
          let (stack, h) = KernelAllocate (heap s) kThreadStackSize 16; s1 = s\<lparr>heap := h\<rparr> in
          if stack = 0 then (0, sched_log Warn ''[PROC] thread stack allocation failed'' s1)
          else
            let s2 = upd_thread i (\<lambda>t. t\<lparr>t_id := g_NextThreadId s, t_process_id := process_id, t_name := name,
                       t_state := Ready, t_stack_base := stack, t_stack_size := kThreadStackSize,
                       t_entry := entry, t_argument := argument, t_run_count := 0, t_wake_tick := 0,
                       t_pending_signals := 0, t_handled_signals := 0,
                       t_priority := kDefaultThreadPriority, t_waiting_mutex_id := 0\<rparr>)
                     (s1\<lparr>g_NextThreadId := g_NextThreadId s + 1\<rparr>);
                s3 = sched_log Info ''[PROC] thread created'' (PrepareInitialContext trampoline i s2)
            in (t_id (g_Threads s3 ! i), s3))"

definition kill_thread :: "u64 \<Rightarrow> Thread \<Rightarrow> Thread" where
  "kill_thread process_id t =
     (if t_state t \<noteq> Empty \<and> t_process_id t = process_id
      then t\<lparr>t_state := Empty, t_process_id := 0, t_entry := 0, t_argument := 0, t_stack_base := 0,
             t_stack_size := 0\<rparr>
      else t)"

definition KernelTerminateProcess :: "Sched \<Rightarrow> u64 \<Rightarrow> bool \<times> Sched" where
  "KernelTerminateProcess s process_id =
     (case FindProcess s process_id of None \<Rightarrow> (False, s)
      | Some i \<Rightarrow>
          if process_id = kKernelProcessId then (False, s)
          else
            let s1 = upd_process i (\<lambda>p. p\<lparr>p_active := False, p_ipc_head := 0, p_ipc_tail := 0,
                       p_ipc_count := 0, p_ipc_queue := replicate 8 0\<rparr>) s
            in (True, s1\<lparr>g_Threads := map (kill_thread process_id) (g_Threads s1)\<rparr>))"

definition KernelForkProcess :: "Sched \<Rightarrow> u64 \<Rightarrow> u64 \<times> Sched" where
  "KernelForkProcess s parent_process_id =
     (case FindProcess s parent_process_id of None \<Rightarrow> (0, s)
      | Some parent \<Rightarrow>
          let (child_id, s1) = KernelCreateProcess s (p_name (g_Processes s ! parent)) in
          case FindProcess s1 child_id of None \<Rightarrow> (0, s1)
          | Some child \<Rightarrow>
              let p = g_Processes s1 ! parent in
              (child_id, upd_process child (\<lambda>c. c\<lparr>p_ipc_head := p_ipc_head p, p_ipc_tail := p_ipc_tail p,
                 p_ipc_count := p_ipc_count p, p_ipc_queue := p_ipc_queue p\<rparr>) s1))"

definition KernelExecProcess ::
    "u64 \<Rightarrow> Sched \<Rightarrow> u64 \<Rightarrow> cstring \<Rightarrow> u64 \<Rightarrow> u64 \<Rightarrow> bool \<times> Sched" where
  "KernelExecProcess trampoline s process_id image_name entry argument =
     (case FindProcess s process_id of None \<Rightarrow> (False, s)
      | Some i \<Rightarrow>
          if image_name = None \<or> entry = 0 then (False, s)
          else
            let s1 = upd_process i (\<lambda>p. p\<lparr>p_name := image_name, p_ipc_head := 0, p_ipc_tail := 0,
                       p_ipc_count := 0, p_ipc_queue := replicate 8 0\<rparr>) s;
                (tid, s2) = KernelCreateThread trampoline s1 process_id image_name entry argument
            in (tid \<noteq> 0, s2))"

definition KernelCloneThread :: "u64 \<Rightarrow> Sched \<Rightarrow> u64 \<Rightarrow> u64 \<Rightarrow> u64 \<Rightarrow> u64 \<times> Sched" where
  "KernelCloneThread trampoline s process_id entry argument =
     KernelCreateThread trampoline s process_id (Some ''clone'') entry argument"

definition KernelPthreadCreate :: "u64 \<Rightarrow> Sched \<Rightarrow> u64 \<Rightarrow> u64 \<Rightarrow> u64 \<Rightarrow> u64 \<times> Sched" where
  "KernelPthreadCreate trampoline s process_id entry argument =
     KernelCreateThread trampoline s process_id (Some ''pthread'') entry argument"

text \<open>One turn of the join loop: done if the thread has finished, else yield and check again.\<close>

definition KernelPthreadJoin_check :: "Sched \<Rightarrow> nat \<Rightarrow> call \<times> Sched" where
  "KernelPthreadJoin_check s i =
     (if t_state (g_Threads s ! i) = Finished
      then (Returned True, upd_thread i (\<lambda>t. t\<lparr>t_state := Empty\<rparr>) s)
      else (Suspended, snd (KernelSchedulerYield s)))"

definition KernelPthreadJoin :: "Sched \<Rightarrow> u64 \<Rightarrow> call \<times> Sched" where
  "KernelPthreadJoin s thread_id =
     (case FindThread s thread_id of None \<Rightarrow> (Returned False, s)
      | Some i \<Rightarrow> if g_CurrentThread s = Some i then (Returned False, s) else KernelPthreadJoin_check s i)"

text \<open>What the trampoline does when a thread's entry function has returned.\<close>

definition ThreadFinish :: "Sched \<Rightarrow> bool \<times> Sched" where
  "ThreadFinish s =
     (case g_CurrentThread s of None \<Rightarrow> (False, s)
      | Some c \<Rightarrow> KernelSchedulerYield (upd_thread c (\<lambda>t. t\<lparr>t_state := Finished\<rparr>) s))"

definition KernelSetThreadPriority :: "Sched \<Rightarrow> u64 \<Rightarrow> u8 \<Rightarrow> bool \<times> Sched" where
  "KernelSetThreadPriority s thread_id priority =
     (case FindThread s thread_id of None \<Rightarrow> (False, s)
      | Some i \<Rightarrow> if priority > kMaxThreadPriority then (False, s)
                  else (True, upd_thread i (\<lambda>t. t\<lparr>t_priority := priority\<rparr>) s))"

definition KernelThreadSleep :: "Sched \<Rightarrow> u64 \<Rightarrow> bool \<times> Sched" where
  "KernelThreadSleep s ticks =
     (case g_CurrentThread s of None \<Rightarrow> (False, s)
      | Some c \<Rightarrow> if ticks = 0 then (False, s)
          else KernelSchedulerYield (upd_thread c
                 (\<lambda>t. t\<lparr>t_wake_tick := g_SchedulerTick s + ticks, t_state := Sleeping\<rparr>) s))"

definition KernelSendSignal :: "Sched \<Rightarrow> u64 \<Rightarrow> u32 \<Rightarrow> bool \<times> Sched" where
  "KernelSendSignal s thread_id signal =
     (if signal \<ge> 32 then (False, s)
      else case FindThread s thread_id of None \<Rightarrow> (False, s)
      | Some i \<Rightarrow>
          (True, upd_thread i (\<lambda>t.
             let t1 = t\<lparr>t_pending_signals := t_pending_signals t OR push_bit (unat signal) 1\<rparr> in
             if t_state t1 = Sleeping \<or> t_state t1 = Blocked
             then t1\<lparr>t_state := Ready, t_wake_tick := 0, t_waiting_mutex_id := 0\<rparr> else t1) s))"

subsection \<open>IPC\<close>

definition KernelIpcSend :: "Sched \<Rightarrow> u64 \<Rightarrow> u64 \<Rightarrow> bool \<times> Sched" where
  "KernelIpcSend s process_id value =
     (case FindProcess s process_id of None \<Rightarrow> (False, s)
      | Some i \<Rightarrow>
          if p_ipc_count (g_Processes s ! i) \<ge> kIpcQueueSize then (False, s)
          else (True, upd_process i (\<lambda>p. p\<lparr>p_ipc_queue := (p_ipc_queue p)[unat (p_ipc_tail p) := value],
                  p_ipc_tail := (p_ipc_tail p + 1) mod kIpcQueueSize,
                  p_ipc_count := p_ipc_count p + 1\<rparr>) s))"

definition KernelIpcReceive :: "Sched \<Rightarrow> u64 \<Rightarrow> u64 option \<times> Sched" where
  "KernelIpcReceive s process_id =
     (case FindProcess s process_id of None \<Rightarrow> (None, s)
      | Some i \<Rightarrow>
          let p = g_Processes s ! i in
          if p_ipc_count p = 0 then (None, s)
          else (Some (p_ipc_queue p ! unat (p_ipc_head p)),
                upd_process i (\<lambda>p. p\<lparr>p_ipc_head := (p_ipc_head p + 1) mod kIpcQueueSize,
                  p_ipc_count := p_ipc_count p - 1\<rparr>) s))"

subsection \<open>Mutexes\<close>

definition KernelMutexCreate :: "Sched \<Rightarrow> u64 \<times> Sched" where
  "KernelMutexCreate s =
     (case find_index (\<lambda>m. \<not> m_active m) (g_Mutexes s) of None \<Rightarrow> (0, s)
      | Some i \<Rightarrow> (g_NextMutexId s,
          upd_mutex i (\<lambda>_. \<lparr>m_id = g_NextMutexId s, m_active = True, m_locked = False, m_owner_thread_id = 0\<rparr>)
            (s\<lparr>g_NextMutexId := g_NextMutexId s + 1\<rparr>)))"

definition current_id :: "Sched \<Rightarrow> u64" where
  "current_id s = (case g_CurrentThread s of None \<Rightarrow> 0 | Some c \<Rightarrow> t_id (g_Threads s ! c))"

text \<open>What a blocked \<open>KernelMutexLock\<close> returns when its thread runs again.\<close>

definition KernelMutexLock_resume :: "Sched \<Rightarrow> nat \<Rightarrow> bool" where
  "KernelMutexLock_resume s mutex \<longleftrightarrow> m_owner_thread_id (g_Mutexes s ! mutex) = current_id s"

definition KernelMutexLock :: "Sched \<Rightarrow> u64 \<Rightarrow> call \<times> Sched" where
  "KernelMutexLock s mutex_id =
     (case (FindMutex s mutex_id, g_CurrentThread s) of
        (Some i, Some c) \<Rightarrow>
          let m = g_Mutexes s ! i in
          if \<not> m_locked m then
            (Returned True, upd_mutex i (\<lambda>m. m\<lparr>m_locked := True, m_owner_thread_id := current_id s\<rparr>) s)
          else if m_owner_thread_id m = current_id s then (Returned True, s)
          else
            let (switched, s1) = KernelSchedulerYield
                  (upd_thread c (\<lambda>t. t\<lparr>t_state := Blocked, t_waiting_mutex_id := mutex_id\<rparr>) s)
            in (if switched then Suspended else Returned (KernelMutexLock_resume s1 i), s1)
      | _ \<Rightarrow> (Returned False, s))"

definition mutex_waiter :: "Sched \<Rightarrow> u64 \<Rightarrow> nat \<Rightarrow> bool" where
  "mutex_waiter s mutex_id i \<longleftrightarrow>
     t_state (g_Threads s ! i) = Blocked \<and> t_waiting_mutex_id (g_Threads s ! i) = mutex_id"

definition KernelMutexUnlock :: "Sched \<Rightarrow> u64 \<Rightarrow> bool \<times> Sched" where
  "KernelMutexUnlock s mutex_id =
     (case (FindMutex s mutex_id, g_CurrentThread s) of
        (Some i, Some c) \<Rightarrow>
          if m_owner_thread_id (g_Mutexes s ! i) \<noteq> current_id s then (False, s)
          else (case pick (mutex_waiter s mutex_id) (\<lambda>i. t_priority (g_Threads s ! i)) [0 ..< kMaxThreads] of
                  Some n \<Rightarrow>
                    let s1 = upd_thread n (\<lambda>t. t\<lparr>t_state := Ready, t_waiting_mutex_id := 0\<rparr>) s
                    in (True, upd_mutex i (\<lambda>m. m\<lparr>m_owner_thread_id := t_id (g_Threads s1 ! n)\<rparr>) s1)
                | None \<Rightarrow> (True, upd_mutex i (\<lambda>m. m\<lparr>m_locked := False, m_owner_thread_id := 0\<rparr>) s))
      | _ \<Rightarrow> (False, s))"

subsection \<open>Futexes\<close>

definition futex_find_step :: "FutexWaitQueue list \<Rightarrow> u64 \<Rightarrow> nat option \<Rightarrow> nat \<Rightarrow> nat option" where
  "futex_find_step qs address queue i =
     (let queue1 = (if f_active (qs ! i) \<and> f_address (qs ! i) = address then Some i else queue)
      in if queue1 = None \<and> \<not> f_active (qs ! i) then Some i else queue1)"

definition futex_find :: "Sched \<Rightarrow> u64 \<Rightarrow> nat option" where
  "futex_find s address = foldl (futex_find_step (g_Futexes s) address) None [0 ..< kMaxFutexes]"

text \<open>\<open>KernelFutexWait\<close> returns true whenever it gets past its checks, however it was resumed.\<close>

definition KernelFutexWait :: "Sched \<Rightarrow> u64 \<Rightarrow> u32 \<Rightarrow> call \<times> Sched" where
  "KernelFutexWait s address expected =
     (case g_CurrentThread s of None \<Rightarrow> (Returned False, s)
      | Some c \<Rightarrow>
          if address = 0 \<or> user_words s address \<noteq> expected then (Returned False, s)
          else (case futex_find s address of None \<Rightarrow> (Returned False, s)
          | Some i \<Rightarrow>
              if unat (f_waiter_count (g_Futexes s ! i)) \<ge> kMaxThreads then (Returned False, s)
              else
                let s1 = upd_futex i (\<lambda>q. if f_active q then q
                           else q\<lparr>f_address := address, f_waiter_count := 0, f_active := True\<rparr>) s;
                    s2 = upd_futex i (\<lambda>q. q\<lparr>f_waiting_threads :=
                             (f_waiting_threads q)[unat (f_waiter_count q) := current_id s1],
                             f_waiter_count := f_waiter_count q + 1\<rparr>) s1;
                    (switched, s3) = KernelSchedulerYield (upd_thread c (\<lambda>t. t\<lparr>t_state := Blocked\<rparr>) s2)
                in (if switched then Suspended else Returned True, s3)))"

definition shift_down :: "'a list \<Rightarrow> nat \<Rightarrow> 'a list" where
  "shift_down xs n = map (\<lambda>j. if Suc j < n then xs ! Suc j else xs ! j) [0 ..< length xs]"

fun futex_wake_loop :: "nat \<Rightarrow> nat \<Rightarrow> u32 \<Rightarrow> u32 \<Rightarrow> Sched \<Rightarrow> u32 \<times> Sched" where
  "futex_wake_loop 0 i limit woken s = (woken, s)"
| "futex_wake_loop (Suc waiters) i limit woken s =
     (if woken < limit then
        let q = g_Futexes s ! i;
            thread = FindThread s (f_waiting_threads q ! 0);
            s1 = upd_futex i (\<lambda>q. q\<lparr>f_waiting_threads := shift_down (f_waiting_threads q) (Suc waiters),
                   f_waiter_count := f_waiter_count q - 1\<rparr>) s
        in case thread of
             None \<Rightarrow> futex_wake_loop waiters i limit woken s1
           | Some t \<Rightarrow>
               if t_state (g_Threads s1 ! t) = Blocked
               then futex_wake_loop waiters i limit (woken + 1) (upd_thread t (\<lambda>t. t\<lparr>t_state := Ready\<rparr>) s1)
               else futex_wake_loop waiters i limit woken s1
      else (woken, s))"

definition KernelFutexWake :: "Sched \<Rightarrow> u64 \<Rightarrow> u32 \<Rightarrow> u32 \<times> Sched" where
  "KernelFutexWake s address limit =
     (if address = 0 \<or> limit = 0 then (0, s)
      else case find_index (\<lambda>q. f_active q \<and> f_address q = address) (g_Futexes s) of
        None \<Rightarrow> (0, s)
      | Some i \<Rightarrow>
          let (woken, s1) = futex_wake_loop (unat (f_waiter_count (g_Futexes s ! i))) i limit 0 s
          in (woken, if f_waiter_count (g_Futexes s1 ! i) = 0
                     then upd_futex i (\<lambda>q. q\<lparr>f_active := False\<rparr>) s1 else s1))"

subsection \<open>Event objects\<close>

definition fd_of :: "nat option \<times> Sched \<Rightarrow> u32 \<times> Sched" where
  "fd_of r = (case r of (None, s) \<Rightarrow> (- 1, s) | (Some i, s) \<Rightarrow> (e_fd (g_EventObjects s ! i), s))"

definition KernelEpollCreate :: "Sched \<Rightarrow> u32 \<times> Sched" where
  "KernelEpollCreate s = fd_of (AllocateEventObject s Epoll)"

definition KernelEpollAdd :: "Sched \<Rightarrow> u32 \<Rightarrow> u32 \<Rightarrow> bool \<times> Sched" where
  "KernelEpollAdd s epoll_fd watched_fd =
     (case FindEventObject s epoll_fd of None \<Rightarrow> (False, s)
      | Some i \<Rightarrow>
          if e_type (g_EventObjects s ! i) \<noteq> Epoll \<or> FindEventObject s watched_fd = None \<or>
             e_watch_count (g_EventObjects s ! i) \<ge> kMaxEpollWatches then (False, s)
          else (True, upd_event i (\<lambda>e. e\<lparr>e_watches := (e_watches e)[unat (e_watch_count e) := watched_fd],
                        e_watch_count := e_watch_count e + 1\<rparr>) s))"

text \<open>The ready list is the prefix of the caller's array that was written.\<close>

definition epoll_step :: "u32 \<Rightarrow> u32 list \<times> Sched \<Rightarrow> u32 \<Rightarrow> u32 list \<times> Sched" where
  "epoll_step capacity st fd =
     (let (ready, s) = st in
      if of_nat (length ready) < capacity then
        (case FindEventObject s fd of None \<Rightarrow> (ready, s)
         | Some j \<Rightarrow> let (is_ready, s1) = EventReady s j
                     in (if is_ready then ready @ [e_fd (g_EventObjects s1 ! j)] else ready, s1))
      else (ready, s))"

definition KernelEpollWait :: "Sched \<Rightarrow> u32 \<Rightarrow> bool \<Rightarrow> u32 \<Rightarrow> u32 list \<times> Sched" where
  "KernelEpollWait s epoll_fd has_buffer capacity =
     (case FindEventObject s epoll_fd of None \<Rightarrow> ([], s)
      | Some i \<Rightarrow>
          let e = g_EventObjects s ! i in
          if e_type e \<noteq> Epoll \<or> \<not> has_buffer then ([], s)
          else foldl (epoll_step capacity) ([], s) (take (unat (e_watch_count e)) (e_watches e)))"

definition KernelEventFd :: "Sched \<Rightarrow> u64 \<Rightarrow> u32 \<times> Sched" where
  "KernelEventFd s initial_value =
     (case AllocateEventObject s Event of
        (None, s1) \<Rightarrow> (- 1, s1)
      | (Some i, s1) \<Rightarrow> let s2 = upd_event i (\<lambda>e. e\<lparr>e_value := initial_value\<rparr>) s1
                        in (e_fd (g_EventObjects s2 ! i), s2))"

definition KernelEventFdWrite :: "Sched \<Rightarrow> u32 \<Rightarrow> u64 \<Rightarrow> bool \<times> Sched" where
  "KernelEventFdWrite s fd value =
     (case FindEventObject s fd of None \<Rightarrow> (False, s)
      | Some i \<Rightarrow>
          let e = g_EventObjects s ! i in
          if e_type e \<noteq> Event \<or> value = - 1 \<or> - 1 - e_value e < value then (False, s)
          else (True, upd_event i (\<lambda>e. e\<lparr>e_value := e_value e + value\<rparr>) s))"

definition KernelEventFdRead :: "Sched \<Rightarrow> u32 \<Rightarrow> u64 option \<times> Sched" where
  "KernelEventFdRead s fd =
     (case FindEventObject s fd of None \<Rightarrow> (None, s)
      | Some i \<Rightarrow>
          let e = g_EventObjects s ! i in
          if e_type e \<noteq> Event \<or> e_value e = 0 then (None, s)
          else (Some (e_value e), upd_event i (\<lambda>e. e\<lparr>e_value := 0\<rparr>) s))"

definition KernelTimerFd :: "Sched \<Rightarrow> u64 \<Rightarrow> u64 \<Rightarrow> u32 \<times> Sched" where
  "KernelTimerFd s initial_ticks interval_ticks =
     (if initial_ticks = 0 then (- 1, s)
      else case AllocateEventObject s Timer of
        (None, s1) \<Rightarrow> (- 1, s1)
      | (Some i, s1) \<Rightarrow>
          let s2 = upd_event i (\<lambda>e. e\<lparr>e_deadline := g_SchedulerTick s1 + initial_ticks,
                     e_interval := interval_ticks\<rparr>) s1
          in (e_fd (g_EventObjects s2 ! i), s2))"

definition KernelTimerFdRead :: "Sched \<Rightarrow> u32 \<Rightarrow> u64 option \<times> Sched" where
  "KernelTimerFdRead s fd =
     (case FindEventObject s fd of None \<Rightarrow> (None, s)
      | Some i \<Rightarrow>
          if e_type (g_EventObjects s ! i) \<noteq> Timer then (None, s)
          else let (is_ready, s1) = EventReady s i in
               if \<not> is_ready then (None, s1)
               else let expirations = e_value (g_EventObjects s1 ! i) in
                 (Some expirations,
                  upd_event i (\<lambda>e. if e_interval e \<noteq> 0
                     then e\<lparr>e_value := 0, e_deadline := e_deadline e + expirations * e_interval e\<rparr>
                     else e\<lparr>e_value := 0, e_deadline := 0\<rparr>) s1))"

subsection \<open>The selection loop\<close>

definition best :: "(nat \<Rightarrow> bool) \<Rightarrow> (nat \<Rightarrow> u8) \<Rightarrow> nat list \<Rightarrow> nat \<Rightarrow> bool" where
  "best ok prio xs i \<longleftrightarrow> (\<exists>k < length xs. xs ! k = i \<and> ok i \<and>
     (\<forall>j \<in> set xs. ok j \<longrightarrow> prio j \<le> prio i) \<and> (\<forall>k' < k. ok (xs ! k') \<longrightarrow> prio (xs ! k') < prio i))"

lemma pick_snoc: "pick ok prio (xs @ [x]) = pick_step ok prio (pick ok prio xs) x"
  by (simp add: pick_def)

lemma pick_None: "pick ok prio xs = None \<longleftrightarrow> (\<forall>j \<in> set xs. \<not> ok j)"
proof (induction xs rule: rev_induct)
  case (snoc x xs)
  then show ?case by (auto simp: pick_snoc pick_step_def split: option.split)
qed (simp add: pick_def)

lemma pick_Some: "pick ok prio xs = Some i \<Longrightarrow> best ok prio xs i"
proof (induction xs arbitrary: i rule: rev_induct)
  case (snoc x xs)
  show ?case
  proof (cases "pick ok prio xs")
    case None
    then have "ok x" "i = x" "\<forall>j \<in> set xs. \<not> ok j"
      using snoc.prems pick_None[of ok prio xs] by (auto simp: pick_snoc pick_step_def split: if_splits)
    then show ?thesis
      by (auto simp: best_def nth_append intro!: exI[of _ "length xs"])
  next
    case (Some j)
    then obtain k where k: "k < length xs" "xs ! k = j" "ok j" "\<forall>l \<in> set xs. ok l \<longrightarrow> prio l \<le> prio j"
      "\<forall>k' < k. ok (xs ! k') \<longrightarrow> prio (xs ! k') < prio j"
      using snoc.IH by (auto simp: best_def)
    show ?thesis
    proof (cases "ok x \<and> prio x > prio j")
      case True
      then have "i = x" using snoc.prems Some by (simp add: pick_snoc pick_step_def)
      moreover have "prio l < prio x" if "l \<in> set xs" "ok l" for l
        using k(4) that True by (meson le_less_trans)
      ultimately show ?thesis using True
        by (auto simp: best_def nth_append less_imp_le intro!: exI[of _ "length xs"])
    next
      case False
      then have "i = j" using snoc.prems Some by (auto simp: pick_snoc pick_step_def split: if_splits)
      then show ?thesis using k False
        by (auto simp: best_def nth_append not_less intro!: exI[of _ k])
    qed
  qed
qed (simp add: pick_def)

lemma bestD:
  assumes "best ok prio xs i"
  shows "i \<in> set xs" "ok i" "j \<in> set xs \<Longrightarrow> ok j \<Longrightarrow> prio j \<le> prio i"
  using assms by (auto simp: best_def)

subsection \<open>The thread table\<close>

text \<open>
  Every slot that has ever held a thread keeps its id, which is not 0 and not shared. At most
  the current thread is running; it may also be in another state, or its slot empty after
  it has killed its own process.
\<close>

definition one_running :: "nat option \<Rightarrow> Thread list \<Rightarrow> bool" where
  "one_running cur ths \<longleftrightarrow> length ths = kMaxThreads \<and>
     (\<exists>c < kMaxThreads. cur = Some c \<and> t_id (ths ! c) \<noteq> 0 \<and>
        (\<forall>i < kMaxThreads. t_state (ths ! i) = Running \<longrightarrow> i = c)) \<and>
     (\<forall>i < kMaxThreads. t_state (ths ! i) \<noteq> Empty \<longrightarrow> t_id (ths ! i) \<noteq> 0)"

lemma one_runningE:
  assumes "one_running cur ths"
  obtains c where "cur = Some c" "c < kMaxThreads" "length ths = kMaxThreads" "t_id (ths ! c) \<noteq> 0"
    "\<And>i. i < kMaxThreads \<Longrightarrow> t_state (ths ! i) = Running \<Longrightarrow> i = c"
    "\<And>i. i < kMaxThreads \<Longrightarrow> t_state (ths ! i) \<noteq> Empty \<Longrightarrow> t_id (ths ! i) \<noteq> 0"
  using assms by (auto simp: one_running_def)

text \<open>A change of a thread that keeps its id and does not make it run.\<close>

definition quiet :: "Thread \<Rightarrow> Thread \<Rightarrow> bool" where
  "quiet t t' \<longleftrightarrow> t_id t' = t_id t \<and> (t_state t' \<noteq> Empty \<longrightarrow> t_state t \<noteq> Empty \<or> t_id t \<noteq> 0) \<and>
     (t_state t' = Running \<longrightarrow> t_state t = Running)"

lemma one_running_update:
  assumes "one_running cur ths" "i < kMaxThreads" "t_id t \<noteq> 0 \<or> t_state t = Empty \<and> t_id (ths ! i) = 0"
    and "t_state t = Running \<Longrightarrow> t_state (ths ! i) = Running"
  shows "one_running cur (ths[i := t])"
  using assms by (auto simp: one_running_def nth_list_update)

lemma one_running_quiet:
  assumes "one_running cur ths" "i < kMaxThreads" "quiet (ths ! i) t"
  shows "one_running cur (ths[i := t])"
  using assms by (intro one_running_update) (auto simp: quiet_def one_running_def)

lemma one_running_map:
  assumes "one_running cur ths" "\<And>t. quiet t (f t)"
  shows "one_running cur (map f ths)"
proof -
  have q: "t_id (f t) = t_id t" "t_state (f t) \<noteq> Empty \<Longrightarrow> t_state t \<noteq> Empty \<or> t_id t \<noteq> 0"
    "t_state (f t) = Running \<Longrightarrow> t_state t = Running" for t
    using assms(2)[of t] by (auto simp: quiet_def)
  from assms(1) show ?thesis
  proof (rule one_runningE)
    fix c
    assume c: "cur = Some c" "c < kMaxThreads" "length ths = kMaxThreads" "t_id (ths ! c) \<noteq> 0"
      "\<And>i. i < kMaxThreads \<Longrightarrow> t_state (ths ! i) = Running \<Longrightarrow> i = c"
      "\<And>i. i < kMaxThreads \<Longrightarrow> t_state (ths ! i) \<noteq> Empty \<Longrightarrow> t_id (ths ! i) \<noteq> 0"
    have "i = c" if "i < kMaxThreads" "t_state (f (ths ! i)) = Running" for i
      using c(5) q(3) that by blast
    moreover have "t_id (ths ! i) \<noteq> 0" if "i < kMaxThreads" "t_state (f (ths ! i)) \<noteq> Empty" for i
      using c(6) q(2) that by blast
    ultimately show ?thesis using c(1-4) q(1) by (auto simp: one_running_def)
  qed
qed

text \<open>The switch: the thread that ran is no longer running, and the next one is.\<close>

lemma one_running_switch:
  assumes "one_running (Some c) ths" "i < kMaxThreads" "t_state (ths ! c) \<noteq> Running" "t_state t = Running"
    and "t_id t \<noteq> 0"
  shows "one_running (Some i) (ths[i := t])"
proof -
  have "t_state (ths ! j) \<noteq> Running" if "j < kMaxThreads" for j
    using assms(1,3) that by (auto simp: one_running_def)
  then show ?thesis using assms(1,2,4,5) by (auto simp: one_running_def nth_list_update)
qed

abbreviation live_thread :: "Thread \<Rightarrow> bool" where
  "live_thread t \<equiv> t_state t \<noteq> Empty"

abbreviation used_slot :: "Thread \<Rightarrow> bool" where
  "used_slot t \<equiv> t_id t \<noteq> 0"

lemma quiet_wake_thread: "quiet t (wake_thread tick t)"
  by (simp add: quiet_def wake_thread_def)

lemma quiet_kill_thread: "quiet t (kill_thread pid t)"
  by (simp add: quiet_def kill_thread_def)

subsection \<open>The invariant of the scheduler\<close>

definition ring_ok :: "Process \<Rightarrow> bool" where
  "ring_ok p \<longleftrightarrow> length (p_ipc_queue p) = 8 \<and> unat (p_ipc_head p) < 8 \<and> unat (p_ipc_count p) \<le> 8 \<and>
     unat (p_ipc_tail p) = (unat (p_ipc_head p) + unat (p_ipc_count p)) mod 8"

definition futex_ok :: "FutexWaitQueue \<Rightarrow> bool" where
  "futex_ok q \<longleftrightarrow> length (f_waiting_threads q) = kMaxThreads \<and> unat (f_waiter_count q) \<le> kMaxThreads"

definition event_ok :: "EventObject \<Rightarrow> bool" where
  "event_ok e \<longleftrightarrow> length (e_watches e) = 8 \<and> unat (e_watch_count e) \<le> 8"

text \<open>The ids go up: after \<open>n\<close> operations each counter is at most \<open>n + 2\<close>.\<close>

definition sched_ok :: "nat \<Rightarrow> Sched \<Rightarrow> bool" where
  "sched_ok n s \<longleftrightarrow>
     one_running (g_CurrentThread s) (g_Threads s) \<and>
     ids_ok used_slot t_id (g_Threads s) (g_NextThreadId s) \<and>
     length (g_Processes s) = kMaxProcesses \<and>
     ids_ok p_active p_id (g_Processes s) (g_NextProcessId s) \<and> list_all ring_ok (g_Processes s) \<and>
     length (g_Mutexes s) = kMaxMutexes \<and> ids_ok m_active m_id (g_Mutexes s) (g_NextMutexId s) \<and>
     length (g_Futexes s) = kMaxFutexes \<and> list_all futex_ok (g_Futexes s) \<and>
     length (g_EventObjects s) = kMaxEventObjects \<and> list_all event_ok (g_EventObjects s) \<and>
     0 < g_NextThreadId s \<and> unat (g_NextThreadId s) \<le> n + 2 \<and>
     0 < g_NextProcessId s \<and> unat (g_NextProcessId s) \<le> n + 2 \<and>
     0 < g_NextMutexId s \<and> unat (g_NextMutexId s) \<le> n + 2"

named_theorems sched_keeps \<open>preservation of the scheduler invariant\<close>

lemma list_all_update: "list_all P xs \<Longrightarrow> (i < length xs \<Longrightarrow> P y) \<Longrightarrow> list_all P (xs[i := y])"
  by (cases "i < length xs") (auto simp: list_all_length nth_list_update list_update_beyond)

lemma sched_ok_lengths:
  assumes "sched_ok n s"
  shows "length (g_Threads s) = kMaxThreads" "length (g_Processes s) = kMaxProcesses"
    "length (g_Mutexes s) = kMaxMutexes" "length (g_Futexes s) = kMaxFutexes"
    "length (g_EventObjects s) = kMaxEventObjects"
  using assms by (auto simp: sched_ok_def one_running_def)

lemma sched_ok_Suc: "sched_ok n s \<Longrightarrow> sched_ok (Suc n) s"
  by (simp add: sched_ok_def)

lemma sched_ok_plain [simp]:
  "sched_ok n (s\<lparr>g_SchedulerTick := a\<rparr>) = sched_ok n s"
  "sched_ok n (s\<lparr>g_SignalsDelivered := a\<rparr>) = sched_ok n s"
  "sched_ok n (s\<lparr>g_NextEventFd := b\<rparr>) = sched_ok n s"
  "sched_ok n (s\<lparr>heap := c\<rparr>) = sched_ok n s"
  "sched_ok n (s\<lparr>klog_of := d\<rparr>) = sched_ok n s"
  "sched_ok n (s\<lparr>cpu := e\<rparr>) = sched_ok n s"
  "sched_ok n (s\<lparr>user_words := f\<rparr>) = sched_ok n s"
  "sched_ok n (s\<lparr>stack_words := g\<rparr>) = sched_ok n s"
  by (simp_all add: sched_ok_def)

lemma sched_ok_log [simp]: "sched_ok n (sched_log l m s) = sched_ok n s"
  by (simp add: sched_log_def)

lemma sched_ok_thread:
  "sched_ok n s \<Longrightarrow> i < kMaxThreads \<Longrightarrow> quiet (g_Threads s ! i) (f (g_Threads s ! i)) \<Longrightarrow>
    sched_ok n (upd_thread i f s)"
  unfolding sched_ok_def upd_thread_def
  by (simp add: one_running_quiet) (auto simp: quiet_def intro: ids_ok_update)

lemma sched_ok_process:
  "sched_ok n s \<Longrightarrow> i < kMaxProcesses \<Longrightarrow> ring_ok (f (g_Processes s ! i)) \<Longrightarrow>
    (p_active (f (g_Processes s ! i)) \<Longrightarrow>
      p_active (g_Processes s ! i) \<and> p_id (f (g_Processes s ! i)) = p_id (g_Processes s ! i)) \<Longrightarrow>
    sched_ok n (upd_process i f s)"
  by (auto simp: sched_ok_def upd_process_def intro: ids_ok_update list_all_update)

lemma sched_ok_mutex:
  "sched_ok n s \<Longrightarrow> i < kMaxMutexes \<Longrightarrow>
    (m_active (f (g_Mutexes s ! i)) \<Longrightarrow>
      m_active (g_Mutexes s ! i) \<and> m_id (f (g_Mutexes s ! i)) = m_id (g_Mutexes s ! i)) \<Longrightarrow>
    sched_ok n (upd_mutex i f s)"
  by (auto simp: sched_ok_def upd_mutex_def intro: ids_ok_update)

lemma sched_ok_futex:
  "sched_ok n s \<Longrightarrow> futex_ok (f (g_Futexes s ! i)) \<Longrightarrow> sched_ok n (upd_futex i f s)"
  by (auto simp: sched_ok_def upd_futex_def intro: list_all_update)

lemma sched_ok_event:
  "sched_ok n s \<Longrightarrow> event_ok (f (g_EventObjects s ! i)) \<Longrightarrow> sched_ok n (upd_event i f s)"
  by (auto simp: sched_ok_def upd_event_def intro: list_all_update)

lemma sched_ok_threads_map:
  "sched_ok n s \<Longrightarrow> (\<And>t. quiet t (f t)) \<Longrightarrow> sched_ok n (s\<lparr>g_Threads := map f (g_Threads s)\<rparr>)"
  unfolding sched_ok_def
  by (simp add: one_running_map) (auto simp: quiet_def intro: ids_ok_map)

lemma sched_ok_entries:
  assumes "sched_ok n s"
  shows "i < kMaxProcesses \<Longrightarrow> ring_ok (g_Processes s ! i)"
    and "i < kMaxFutexes \<Longrightarrow> futex_ok (g_Futexes s ! i)"
    and "i < kMaxEventObjects \<Longrightarrow> event_ok (g_EventObjects s ! i)"
  using assms by (auto simp: sched_ok_def list_all_length)

text \<open>What the lookups return is an index into the table.\<close>

lemma found_indices:
  assumes "sched_ok n s"
  shows "FindProcess s x = Some i \<Longrightarrow> i < kMaxProcesses \<and> p_active (g_Processes s ! i) \<and> p_id (g_Processes s ! i) = x"
    and "FindThread s x = Some i \<Longrightarrow> i < kMaxThreads \<and> live_thread (g_Threads s ! i) \<and> t_id (g_Threads s ! i) = x"
    and "FindThreadSlot s = Some i \<Longrightarrow> i < kMaxThreads \<and> t_state (g_Threads s ! i) = Empty"
    and "FindMutex s x = Some i \<Longrightarrow> i < kMaxMutexes \<and> m_active (g_Mutexes s ! i) \<and> m_id (g_Mutexes s ! i) = x"
    and "FindEventObject s fd = Some i \<Longrightarrow> i < kMaxEventObjects \<and> e_fd (g_EventObjects s ! i) = fd"
  using sched_ok_lengths[OF assms]
  by (auto simp: FindProcess_def FindThread_def FindThreadSlot_def FindMutex_def FindEventObject_def
      dest: find_indexD)

lemma current_index:
  assumes "sched_ok n s"
  obtains c where "g_CurrentThread s = Some c" "c < kMaxThreads"
  using assms by (auto simp: sched_ok_def elim: one_runningE)

lemma upd_selectors [simp]:
  "g_CurrentThread (upd_thread i f s) = g_CurrentThread s"
  "g_SchedulerTick (upd_thread i f s) = g_SchedulerTick s"
  "g_Mutexes (upd_thread i f s) = g_Mutexes s" "g_Processes (upd_thread i f s) = g_Processes s"
  "g_Futexes (upd_thread i f s) = g_Futexes s" "g_EventObjects (upd_thread i f s) = g_EventObjects s"
  "cpu (upd_thread i f s) = cpu s"
  "g_Threads (upd_mutex i h s) = g_Threads s" "g_CurrentThread (upd_mutex i h s) = g_CurrentThread s"
  "g_Threads (upd_futex i k s) = g_Threads s" "g_CurrentThread (upd_futex i k s) = g_CurrentThread s"
  "g_Threads (upd_process i l s) = g_Threads s" "g_CurrentThread (upd_process i l s) = g_CurrentThread s"
  by (simp_all add: upd_thread_def upd_mutex_def upd_futex_def upd_process_def)

lemma g_Threads_upd_thread: "g_Threads (upd_thread i f s) = (g_Threads s)[i := f (g_Threads s ! i)]"
  by (simp add: upd_thread_def)

subsection \<open>Yield\<close>

lemma DeliverSignals_ok: "sched_ok n s \<Longrightarrow> i < kMaxThreads \<Longrightarrow> sched_ok n (DeliverSignals i s)"
  by (auto simp: DeliverSignals_def Let_def quiet_def intro!: sched_ok_thread)

lemma DeliverSignals_keeps [simp]:
  "g_CurrentThread (DeliverSignals i s) = g_CurrentThread s"
  "g_SchedulerTick (DeliverSignals i s) = g_SchedulerTick s"
  "length (g_Threads (DeliverSignals i s)) = length (g_Threads s)"
  "t_state (g_Threads (DeliverSignals i s) ! j) = t_state (g_Threads s ! j)"
  "t_priority (g_Threads (DeliverSignals i s) ! j) = t_priority (g_Threads s ! j)"
  "t_wake_tick (g_Threads (DeliverSignals i s) ! j) = t_wake_tick (g_Threads s ! j)"
  "t_id (g_Threads (DeliverSignals i s) ! j) = t_id (g_Threads s ! j)"
  "t_context (g_Threads (DeliverSignals i s) ! j) = t_context (g_Threads s ! j)"
  "cpu (DeliverSignals i s) = cpu s"
  by (cases "i < length (g_Threads s)"; cases "i = j";
      simp add: DeliverSignals_def Let_def g_Threads_upd_thread list_update_beyond)+

text \<open>The thread table as \<open>FindNextRunnable\<close> sees it: due sleepers are ready.\<close>

definition yield_start :: "Sched \<Rightarrow> nat \<Rightarrow> Sched" where
  "yield_start s c =
     (let s2 = DeliverSignals c (s\<lparr>g_SchedulerTick := g_SchedulerTick s + 1\<rparr>)
      in s2\<lparr>g_Threads := map (wake_thread (g_SchedulerTick s2)) (g_Threads s2)\<rparr>)"

definition round_robin :: "nat \<Rightarrow> nat list" where
  "round_robin c = map (\<lambda>offset. (c + offset) mod kMaxThreads) [1 ..< Suc kMaxThreads]"

definition next_thread :: "Sched \<Rightarrow> nat \<Rightarrow> nat option" where
  "next_thread s c = pick (\<lambda>i. t_state (g_Threads s ! i) = Ready) (\<lambda>i. t_priority (g_Threads s ! i)) (round_robin c)"

definition stay :: "nat \<Rightarrow> Sched \<Rightarrow> Sched" where
  "stay c s = (if t_state (g_Threads s ! c) = Sleeping
     then upd_thread c (\<lambda>t. t\<lparr>t_state := Ready, t_wake_tick := 0\<rparr>) s else s)"

definition switch_to :: "nat \<Rightarrow> nat \<Rightarrow> Sched \<Rightarrow> Sched" where
  "switch_to c n s =
     (let s4 = (if t_state (g_Threads s ! c) = Running then upd_thread c (\<lambda>t. t\<lparr>t_state := Ready\<rparr>) s else s);
          s5 = upd_thread n (\<lambda>t. t\<lparr>t_state := Running, t_run_count := t_run_count t + 1\<rparr>) s4
      in SchedulerContextSwitch c n (DeliverSignals n (s5\<lparr>g_CurrentThread := Some n\<rparr>)))"

lemma Yield_eq:
  assumes "g_CurrentThread s = Some c"
  shows "KernelSchedulerYield s =
    (let s3 = yield_start s c in
     case next_thread s3 c of None \<Rightarrow> (False, stay c s3)
     | Some i \<Rightarrow> if i = c then (False, stay c s3) else (True, switch_to c i s3))"
  using assms
  by (simp add: KernelSchedulerYield_def FindNextRunnable_def yield_start_def next_thread_def
      round_robin_def stay_def switch_to_def Let_def split: option.split)

lemma round_robin_bound: "i \<in> set (round_robin c) \<Longrightarrow> i < kMaxThreads"
  by (auto simp: round_robin_def kMaxThreads_def)

lemma round_robin_all: "c < kMaxThreads \<Longrightarrow> set (round_robin c) = {..< kMaxThreads}"
proof
  assume c: "c < kMaxThreads"
  show "{..< kMaxThreads} \<subseteq> set (round_robin c)"
  proof
    fix i assume "i \<in> {..< kMaxThreads}"
    then have i: "i < kMaxThreads" by simp
    define d where "d = (if c < i then i - c else i + kMaxThreads - c)"
    have "1 \<le> d" "d \<le> kMaxThreads" "(c + d) mod kMaxThreads = i"
      using c i by (auto simp: d_def)
    then show "i \<in> set (round_robin c)"
      unfolding round_robin_def set_map set_upt by (intro image_eqI[of _ _ d]) simp_all
  qed
qed (auto dest: round_robin_bound)

lemma next_threadD:
  assumes "next_thread s c = Some i"
  shows "i < kMaxThreads" "t_state (g_Threads s ! i) = Ready"
  using bestD(1,2)[OF pick_Some[OF assms[unfolded next_thread_def]]] round_robin_bound by auto

lemma yield_start_keeps [simp]: "g_CurrentThread (yield_start s c) = g_CurrentThread s"
  by (simp add: yield_start_def Let_def)

lemma yield_start_ok:
  assumes "sched_ok n s" "c < kMaxThreads"
  shows "sched_ok n (yield_start s c)"
proof -
  have "sched_ok n (DeliverSignals c (s\<lparr>g_SchedulerTick := g_SchedulerTick s + 1\<rparr>))"
    using assms by (intro DeliverSignals_ok) simp_all
  then show ?thesis unfolding yield_start_def Let_def by (intro sched_ok_threads_map quiet_wake_thread)
qed

lemma stay_ok: "sched_ok n s \<Longrightarrow> c < kMaxThreads \<Longrightarrow> sched_ok n (stay c s)"
  by (auto simp: stay_def quiet_def intro!: sched_ok_thread)

lemma SchedulerContextSwitch_ok: "sched_ok n s \<Longrightarrow> c < kMaxThreads \<Longrightarrow> sched_ok n (SchedulerContextSwitch c i s)"
  by (auto simp: SchedulerContextSwitch_def Let_def quiet_def intro!: sched_ok_thread)

lemma switch_to_ok:
  assumes "sched_ok n s" "g_CurrentThread s = Some c" "c < kMaxThreads" "i < kMaxThreads" "i \<noteq> c"
    and "t_state (g_Threads s ! i) = Ready"
  shows "sched_ok n (switch_to c i s)"
proof -
  define s4 where
    "s4 = (if t_state (g_Threads s ! c) = Running then upd_thread c (\<lambda>t. t\<lparr>t_state := Ready\<rparr>) s else s)"
  have len: "length (g_Threads s) = kMaxThreads" by (rule sched_ok_lengths(1)[OF assms(1)])
  have ok4: "sched_ok n s4"
    using assms(1,3) by (auto simp: s4_def quiet_def intro!: sched_ok_thread)
  have s4: "g_CurrentThread s4 = Some c" "t_state (g_Threads s4 ! c) \<noteq> Running" "t_state (g_Threads s4 ! i) = Ready"
    using assms(2,3,5,6) len by (auto simp: s4_def g_Threads_upd_thread)
  let ?t = "(g_Threads s4 ! i)\<lparr>t_state := Running, t_run_count := t_run_count (g_Threads s4 ! i) + 1\<rparr>"
  have "one_running (Some i) ((g_Threads s4)[i := ?t])"
    using ok4 s4 assms(4) by (intro one_running_switch[of c]) (auto simp: sched_ok_def one_running_def)
  moreover have "ids_ok used_slot t_id ((g_Threads s4)[i := ?t]) (g_NextThreadId s4)"
    using ok4 s4 by (intro ids_ok_update) (auto simp: sched_ok_def)
  ultimately have "sched_ok n ((upd_thread i (\<lambda>t. t\<lparr>t_state := Running, t_run_count := t_run_count t + 1\<rparr>) s4)
      \<lparr>g_CurrentThread := Some i\<rparr>)"
    using ok4 by (simp add: sched_ok_def upd_thread_def)
  then show ?thesis
    using assms(3,4) unfolding switch_to_def Let_def s4_def[symmetric]
    by (intro SchedulerContextSwitch_ok DeliverSignals_ok)
qed

lemma Yield_ok [sched_keeps]:
  assumes "sched_ok n s"
  shows "sched_ok n (snd (KernelSchedulerYield s))"
proof -
  obtain c where c: "g_CurrentThread s = Some c" "c < kMaxThreads" by (rule current_index[OF assms])
  have ok: "sched_ok n (yield_start s c)" by (rule yield_start_ok[OF assms c(2)])
  show ?thesis
  proof (cases "next_thread (yield_start s c) c")
    case None
    then show ?thesis using c ok stay_ok by (simp add: Yield_eq Let_def)
  next
    case (Some i)
    note i = next_threadD[OF Some]
    show ?thesis
    proof (cases "i = c")
      case True
      then show ?thesis using Some c ok stay_ok by (simp add: Yield_eq Let_def)
    next
      case False
      then show ?thesis
        using Some c ok i switch_to_ok[OF ok, of c i] by (simp add: Yield_eq Let_def)
    qed
  qed
qed

subsection \<open>Every operation keeps the invariant\<close>

lemma TimerTick_ok [sched_keeps]: "sched_ok n s \<Longrightarrow> sched_ok n (KernelSchedulerTimerTick s)"
  unfolding KernelSchedulerTimerTick_def Let_def
  by (rule sched_ok_threads_map) (simp_all add: quiet_wake_thread)

lemma ring_ok_empty [simp]:
  "ring_ok (p\<lparr>p_ipc_head := 0, p_ipc_tail := 0, p_ipc_count := 0, p_ipc_queue := replicate 8 0\<rparr>)"
  by (simp add: ring_ok_def)

lemma CreateProcess_ok [sched_keeps]:
  assumes "sched_ok n s" "n < 2 ^ 63"
  shows "sched_ok (Suc n) (snd (KernelCreateProcess s name))"
proof (cases "find_index (\<lambda>p. \<not> p_active p) (g_Processes s)")
  case None
  then show ?thesis using assms by (simp add: KernelCreateProcess_def sched_ok_Suc)
next
  case (Some i)
  have b: "unat (g_NextProcessId s) < 18446744073709551615" "unat (g_NextProcessId s + 1) \<le> Suc n + 2"
    "0 < g_NextProcessId s + 1"
    using assms by (auto simp: sched_ok_def unat_word_ariths word_less_nat_alt)
  show ?thesis
    using Some assms(1) b
    by (auto simp: KernelCreateProcess_def sched_ok_def upd_process_def ring_ok_def
        intro!: ids_ok_new list_all_update)
qed

lemma PrepareInitialContext_ok:
  "sched_ok n s \<Longrightarrow> i < kMaxThreads \<Longrightarrow> sched_ok n (PrepareInitialContext tr i s)"
  by (auto simp: PrepareInitialContext_def Let_def quiet_def intro!: sched_ok_thread)

lemma CreateThread_ok [sched_keeps]:
  assumes "sched_ok n s" "n < 2 ^ 63"
  shows "sched_ok (Suc n) (snd (KernelCreateThread tr s pid name entry arg))"
proof (cases "FindProcess s pid = None \<or> entry = 0 \<or> FindThreadSlot s = None")
  case True
  then show ?thesis using assms by (auto simp: KernelCreateThread_def sched_ok_Suc)
next
  case False
  then obtain i where i: "FindThreadSlot s = Some i" "i < kMaxThreads" "t_state (g_Threads s ! i) = Empty"
    using found_indices(3)[OF assms(1)] by auto
  obtain stack h where a: "KernelAllocate (heap s) kThreadStackSize 16 = (stack, h)" by fastforce
  have b: "unat (g_NextThreadId s) < 18446744073709551615" "unat (g_NextThreadId s + 1) \<le> Suc n + 2"
    "0 < g_NextThreadId s + 1"
    using assms by (auto simp: sched_ok_def unat_word_ariths word_less_nat_alt)
  have new: "sched_ok (Suc n) (upd_thread i f (s\<lparr>heap := h, g_NextThreadId := g_NextThreadId s + 1\<rparr>))"
    if "t_id (f (g_Threads s ! i)) = g_NextThreadId s" "t_state (f (g_Threads s ! i)) = Ready" for f
    using that assms(1) b i(2)
    by (auto simp: sched_ok_def upd_thread_def intro!: ids_ok_new one_running_update)
  show ?thesis
    using False i a assms
    by (auto simp: KernelCreateThread_def Let_def sched_ok_Suc intro!: PrepareInitialContext_ok new)
qed

lemma TerminateProcess_ok [sched_keeps]:
  assumes "sched_ok n s"
  shows "sched_ok n (snd (KernelTerminateProcess s pid))"
proof (cases "FindProcess s pid")
  case (Some i)
  then have i: "i < kMaxProcesses" using found_indices(1)[OF assms] by blast
  let ?s = "upd_process i (\<lambda>p. p\<lparr>p_active := False, p_ipc_head := 0, p_ipc_tail := 0,
      p_ipc_count := 0, p_ipc_queue := replicate 8 0\<rparr>) s"
  have "sched_ok n ?s"
    by (rule sched_ok_process[OF assms i]) (simp_all add: ring_ok_def)
  then have "sched_ok n (?s\<lparr>g_Threads := map (kill_thread pid) (g_Threads ?s)\<rparr>)"
    by (rule sched_ok_threads_map) (rule quiet_kill_thread)
  then show ?thesis using Some assms by (simp add: KernelTerminateProcess_def Let_def)
qed (use assms in \<open>simp add: KernelTerminateProcess_def\<close>)

lemma ForkProcess_ok [sched_keeps]:
  assumes "sched_ok n s" "n < 2 ^ 63"
  shows "sched_ok (Suc n) (snd (KernelForkProcess s pid))"
proof (cases "FindProcess s pid")
  case (Some parent)
  obtain child_id s1 where c: "KernelCreateProcess s (p_name (g_Processes s ! parent)) = (child_id, s1)" by fastforce
  have ok: "sched_ok (Suc n) s1" using CreateProcess_ok[OF assms, of "p_name (g_Processes s ! parent)"] c by simp
  have "ring_ok (g_Processes s1 ! parent)"
    using found_indices(1)[OF assms(1) Some] sched_ok_entries(1)[OF ok] by blast
  then show ?thesis
    using Some c ok found_indices(1)[OF ok]
    by (auto simp: KernelForkProcess_def Let_def ring_ok_def intro!: sched_ok_process split: option.split)
qed (use assms in \<open>simp add: KernelForkProcess_def sched_ok_Suc\<close>)

lemma ExecProcess_ok [sched_keeps]:
  assumes "sched_ok n s" "n < 2 ^ 63"
  shows "sched_ok (Suc n) (snd (KernelExecProcess tr s pid name entry arg))"
proof (cases "FindProcess s pid")
  case (Some i)
  then have i: "i < kMaxProcesses" using found_indices(1)[OF assms(1)] by blast
  have "sched_ok n (upd_process i (\<lambda>p. p\<lparr>p_name := name, p_ipc_head := 0, p_ipc_tail := 0,
      p_ipc_count := 0, p_ipc_queue := replicate 8 0\<rparr>) s)"
    by (rule sched_ok_process[OF assms(1) i]) (simp_all add: ring_ok_def)
  from CreateThread_ok[OF this assms(2), of tr pid name entry arg] show ?thesis
    using Some assms(1) by (simp add: KernelExecProcess_def Let_def sched_ok_Suc case_prod_beta)
qed (use assms in \<open>simp add: KernelExecProcess_def sched_ok_Suc\<close>)

lemma JoinCheck_ok [sched_keeps]:
  "sched_ok n s \<Longrightarrow> i < kMaxThreads \<Longrightarrow> sched_ok n (snd (KernelPthreadJoin_check s i))"
  by (auto simp: KernelPthreadJoin_check_def quiet_def intro!: sched_ok_thread Yield_ok)

lemma Join_ok [sched_keeps]: "sched_ok n s \<Longrightarrow> sched_ok n (snd (KernelPthreadJoin s tid))"
  using found_indices(2) JoinCheck_ok by (auto simp: KernelPthreadJoin_def split: option.split)

lemma current_used:
  assumes "sched_ok n s" "g_CurrentThread s = Some c"
  shows "c < kMaxThreads" "t_id (g_Threads s ! c) \<noteq> 0"
  using assms by (auto simp: sched_ok_def one_running_def)

lemma ThreadFinish_ok [sched_keeps]: "sched_ok n s \<Longrightarrow> sched_ok n (snd (ThreadFinish s))"
  using current_used
  by (auto simp: ThreadFinish_def quiet_def intro!: Yield_ok sched_ok_thread split: option.split)

lemma SetThreadPriority_ok [sched_keeps]: "sched_ok n s \<Longrightarrow> sched_ok n (snd (KernelSetThreadPriority s tid p))"
  using found_indices(2)
  by (auto simp: KernelSetThreadPriority_def quiet_def intro!: sched_ok_thread split: option.split)

lemma ThreadSleep_ok [sched_keeps]: "sched_ok n s \<Longrightarrow> sched_ok n (snd (KernelThreadSleep s ticks))"
  using current_used
  by (auto simp: KernelThreadSleep_def quiet_def intro!: Yield_ok sched_ok_thread split: option.split)

lemma SendSignal_ok [sched_keeps]: "sched_ok n s \<Longrightarrow> sched_ok n (snd (KernelSendSignal s tid sig))"
  using found_indices(2)
  by (auto simp: KernelSendSignal_def Let_def quiet_def intro!: sched_ok_thread split: option.split)

lemma ring_send:
  assumes "ring_ok p" "p_ipc_count p < kIpcQueueSize"
  shows "ring_ok (p\<lparr>p_ipc_queue := (p_ipc_queue p)[unat (p_ipc_tail p) := v],
     p_ipc_tail := (p_ipc_tail p + 1) mod kIpcQueueSize, p_ipc_count := p_ipc_count p + 1\<rparr>)"
proof -
  have t: "unat (p_ipc_tail p) < 8" using assms(1) by (simp add: ring_ok_def)
  have c: "unat (p_ipc_count p) < 8" using assms(2) by (simp add: kIpcQueueSize_def word_less_nat_alt)
  have "unat ((p_ipc_tail p + 1) mod 8) = Suc (unat (p_ipc_tail p)) mod 8"
    "unat (p_ipc_count p + 1) = Suc (unat (p_ipc_count p))"
    using t c by (simp_all add: unat_mod unat_word_ariths)
  then show ?thesis
    using assms(1) t c by (simp add: ring_ok_def kIpcQueueSize_def mod_Suc_eq)
qed

lemma ring_receive:
  assumes "ring_ok p" "p_ipc_count p \<noteq> 0"
  shows "ring_ok (p\<lparr>p_ipc_head := (p_ipc_head p + 1) mod kIpcQueueSize, p_ipc_count := p_ipc_count p - 1\<rparr>)"
proof -
  have h: "unat (p_ipc_head p) < 8" using assms(1) by (simp add: ring_ok_def)
  have "unat ((p_ipc_head p + 1) mod 8) = Suc (unat (p_ipc_head p)) mod 8"
    using h by (simp add: unat_mod unat_word_ariths)
  moreover have c: "0 < unat (p_ipc_count p)" using assms(2) by (simp add: unat_gt_0)
  then have "unat (p_ipc_count p - 1) = unat (p_ipc_count p) - 1"
    using assms(2) unat_minus_one by blast
  moreover have "(Suc h mod 8 + (k - 1)) mod 8 = (h + k) mod 8" if "0 < k" for h k :: nat
    using that by (cases k) (simp_all add: mod_simps)
  note this[OF c, of "unat (p_ipc_head p)"]
  ultimately show ?thesis
    using assms(1) by (simp add: ring_ok_def kIpcQueueSize_def; linarith)
qed

lemma IpcSend_ok [sched_keeps]:
  assumes "sched_ok n s"
  shows "sched_ok n (snd (KernelIpcSend s pid v))"
proof (cases "FindProcess s pid")
  case (Some i)
  then have i: "i < kMaxProcesses" using found_indices(1)[OF assms] by blast
  show ?thesis
    using Some assms sched_ok_entries(1)[OF assms i]
    by (auto simp: KernelIpcSend_def not_le intro!: sched_ok_process i ring_send)
qed (use assms in \<open>simp add: KernelIpcSend_def\<close>)

lemma IpcReceive_ok [sched_keeps]:
  assumes "sched_ok n s"
  shows "sched_ok n (snd (KernelIpcReceive s pid))"
proof (cases "FindProcess s pid")
  case (Some i)
  then have i: "i < kMaxProcesses" using found_indices(1)[OF assms] by blast
  show ?thesis
    using Some assms sched_ok_entries(1)[OF assms i]
    by (auto simp: KernelIpcReceive_def Let_def intro!: sched_ok_process i ring_receive)
qed (use assms in \<open>simp add: KernelIpcReceive_def\<close>)

lemma MutexCreate_ok [sched_keeps]:
  assumes "sched_ok n s" "n < 2 ^ 63"
  shows "sched_ok (Suc n) (snd (KernelMutexCreate s))"
proof (cases "find_index (\<lambda>m. \<not> m_active m) (g_Mutexes s)")
  case None
  then show ?thesis using assms by (simp add: KernelMutexCreate_def sched_ok_Suc)
next
  case (Some i)
  have b: "unat (g_NextMutexId s) < 18446744073709551615" "unat (g_NextMutexId s + 1) \<le> Suc n + 2"
    "0 < g_NextMutexId s + 1"
    using assms by (auto simp: sched_ok_def unat_word_ariths word_less_nat_alt)
  show ?thesis
    using Some assms(1) b
    by (auto simp: KernelMutexCreate_def sched_ok_def upd_mutex_def intro!: ids_ok_new)
qed

lemma MutexLock_ok [sched_keeps]:
  assumes "sched_ok n s"
  shows "sched_ok n (snd (KernelMutexLock s mid))"
proof -
  obtain c where c: "g_CurrentThread s = Some c" "c < kMaxThreads" by (rule current_index[OF assms])
  have "sched_ok n (snd (KernelSchedulerYield
      (upd_thread c (\<lambda>t. t\<lparr>t_state := Blocked, t_waiting_mutex_id := mid\<rparr>) s)))"
    using current_used[OF assms c(1)] assms by (intro Yield_ok sched_ok_thread) (auto simp: quiet_def)
  moreover have "i < kMaxMutexes \<and> m_active (g_Mutexes s ! i)" if "FindMutex s mid = Some i" for i
    using found_indices(4)[OF assms that] by simp
  ultimately show ?thesis
    using c assms
    by (auto simp: KernelMutexLock_def Let_def case_prod_beta intro!: sched_ok_mutex split: option.split)
qed

lemma MutexUnlock_ok [sched_keeps]:
  assumes "sched_ok n s"
  shows "sched_ok n (snd (KernelMutexUnlock s mid))"
proof -
  obtain c where c: "g_CurrentThread s = Some c" by (rule current_index[OF assms])
  show ?thesis
  proof (cases "FindMutex s mid")
    case (Some i)
    have i: "i < kMaxMutexes" "m_active (g_Mutexes s ! i)"
      using found_indices(4)[OF assms Some] by simp_all
    show ?thesis
    proof (cases "pick (mutex_waiter s mid) (\<lambda>i. t_priority (g_Threads s ! i)) [0 ..< kMaxThreads]")
      case None
      have "sched_ok n (upd_mutex i (\<lambda>m. m\<lparr>m_locked := False, m_owner_thread_id := 0\<rparr>) s)"
        using i by (intro sched_ok_mutex[OF assms]) simp_all
      then show ?thesis using Some None c assms by (simp add: KernelMutexUnlock_def)
    next
      case (Some k)
      note k = bestD(1,2)[OF pick_Some[OF Some]]
      have "sched_ok n (upd_thread k (\<lambda>t. t\<lparr>t_state := Ready, t_waiting_mutex_id := 0\<rparr>) s)"
        using k by (intro sched_ok_thread[OF assms]) (simp_all add: quiet_def mutex_waiter_def)
      then have "sched_ok n (upd_mutex i (\<lambda>m. m\<lparr>m_owner_thread_id := x\<rparr>)
          (upd_thread k (\<lambda>t. t\<lparr>t_state := Ready, t_waiting_mutex_id := 0\<rparr>) s))" for x
        using i by (intro sched_ok_mutex) simp_all
      then show ?thesis using Some \<open>FindMutex s mid = Some i\<close> c assms by (simp add: KernelMutexUnlock_def Let_def)
    qed
  qed (use assms c in \<open>simp add: KernelMutexUnlock_def\<close>)
qed

lemma futex_find_bound: "futex_find s a = Some i \<Longrightarrow> i < kMaxFutexes"
proof -
  have step: "futex_find_step qs a q j = q \<or> futex_find_step qs a q j = Some j" for qs q j
    by (simp add: futex_find_step_def Let_def)
  have "foldl (futex_find_step qs a) q xs = Some i \<Longrightarrow> q = Some i \<or> i \<in> set xs" for qs q xs
  proof (induction xs arbitrary: q)
    case (Cons j xs)
    then have "futex_find_step qs a q j = Some i \<or> i \<in> set xs"
      by (intro Cons.IH) simp
    then show ?case using step[of qs q j] by auto
  qed simp
  then show "futex_find s a = Some i \<Longrightarrow> i < kMaxFutexes" by (fastforce simp: futex_find_def)
qed

lemma FutexWait_ok [sched_keeps]:
  assumes "sched_ok n s"
  shows "sched_ok n (snd (KernelFutexWait s a e))"
proof (cases "a = 0 \<or> user_words s a \<noteq> e")
  case False
  obtain c where c: "g_CurrentThread s = Some c" "c < kMaxThreads" by (rule current_index[OF assms])
  show ?thesis
  proof (cases "futex_find s a")
    case (Some i)
    have q: "futex_ok (g_Futexes s ! i)"
      by (rule sched_ok_entries(2)[OF assms futex_find_bound[OF Some]])
    let ?f1 = "\<lambda>q. if f_active q then q else q\<lparr>f_address := a, f_waiter_count := 0, f_active := True\<rparr>"
    let ?f2 = "\<lambda>id q. q\<lparr>f_waiting_threads := (f_waiting_threads q)[unat (f_waiter_count q) := id],
                   f_waiter_count := f_waiter_count q + 1\<rparr>"
    let ?s1 = "upd_futex i ?f1 s" let ?s2 = "upd_futex i (?f2 (current_id ?s1)) ?s1"
    have ok1: "sched_ok n ?s1" using q by (intro sched_ok_futex[OF assms]) (simp add: futex_ok_def)
    have ok2: "sched_ok n ?s2" if "unat (f_waiter_count (g_Futexes s ! i)) < kMaxThreads"
    proof (intro sched_ok_futex[OF ok1])
      have "i < length (g_Futexes s)" using futex_find_bound[OF Some] sched_ok_lengths(4)[OF assms] by simp
      then have "g_Futexes ?s1 ! i = ?f1 (g_Futexes s ! i)" by (simp add: upd_futex_def)
      then show "futex_ok (?f2 (current_id ?s1) (g_Futexes ?s1 ! i))"
        using q that by (simp add: futex_ok_def kMaxThreads_def unat_word_ariths)
    qed
    have "sched_ok n (snd (KernelSchedulerYield (upd_thread c (\<lambda>t. t\<lparr>t_state := Blocked\<rparr>) ?s2)))"
      if "unat (f_waiter_count (g_Futexes s ! i)) < kMaxThreads"
      using current_used[OF assms c(1)]
      by (intro Yield_ok sched_ok_thread[OF ok2[OF that]]) (auto simp: quiet_def)
    then show ?thesis
      using c Some assms False by (simp add: KernelFutexWait_def Let_def case_prod_beta not_le)
  qed (use assms c False in \<open>simp add: KernelFutexWait_def\<close>)
qed (use assms in \<open>auto simp: KernelFutexWait_def split: option.split\<close>)

lemma futex_wake_loop_ok:
  assumes "sched_ok n s" "i < kMaxFutexes" "w \<le> unat (f_waiter_count (g_Futexes s ! i))"
  shows "sched_ok n (snd (futex_wake_loop w i limit woken s))"
  using assms
proof (induction w i limit woken s rule: futex_wake_loop.induct)
  case (2 w i limit woken s)
  define q where "q = g_Futexes s ! i"
  define s1 where "s1 = upd_futex i (\<lambda>q. q\<lparr>f_waiting_threads := shift_down (f_waiting_threads q) (Suc w),
      f_waiter_count := f_waiter_count q - 1\<rparr>) s"
  have q: "futex_ok q" using sched_ok_entries(2)[OF "2.prems"(1,2)] by (simp add: q_def)
  have len: "i < length (g_Futexes s)" using sched_ok_lengths(4)[OF "2.prems"(1)] "2.prems"(2) by simp
  have "f_waiter_count q \<noteq> 0" using "2.prems"(3) by (auto simp: q_def)
  then have cnt: "unat (f_waiter_count q - 1) = unat (f_waiter_count q) - 1" by (rule unat_minus_one)
  have ok1: "sched_ok n s1"
    unfolding s1_def using q cnt
    by (intro sched_ok_futex[OF "2.prems"(1)]) (simp add: futex_ok_def shift_down_def q_def; linarith)
  have w1: "w \<le> unat (f_waiter_count (g_Futexes s1 ! i))"
    using "2.prems"(3) cnt len by (simp add: s1_def upd_futex_def q_def)
  have IH1: "sched_ok n (snd (futex_wake_loop w i limit woken s1))" if "woken < limit"
      "FindThread s (f_waiting_threads q ! 0) = None \<or>
       (\<exists>t. FindThread s (f_waiting_threads q ! 0) = Some t \<and> t_state (g_Threads s1 ! t) \<noteq> Blocked)"
    using "2.IH"(1)[OF that(1) q_def refl s1_def _ ok1 "2.prems"(2) w1]
      "2.IH"(3)[OF that(1) q_def refl s1_def _ _ ok1 "2.prems"(2) w1] that(2) by (auto simp: q_def)
  have IH2: "sched_ok n (snd (futex_wake_loop w i limit (woken + 1)
      (upd_thread t (\<lambda>t. t\<lparr>t_state := Ready\<rparr>) s1)))" if "woken < limit"
      "FindThread s (f_waiting_threads q ! 0) = Some t" "t_state (g_Threads s1 ! t) = Blocked" for t
  proof -
    have t: "t < kMaxThreads" using found_indices(2)[OF "2.prems"(1) that(2)] by simp
    have "sched_ok n (upd_thread t (\<lambda>t. t\<lparr>t_state := Ready\<rparr>) s1)"
      using that(3) by (intro sched_ok_thread[OF ok1 t]) (simp add: quiet_def)
    then show ?thesis
      using "2.IH"(2)[OF that(1) q_def refl s1_def _ that(3) _ "2.prems"(2)] that(2) w1 by (simp add: q_def)
  qed
  show ?case
    using "2.prems"(1) IH1 IH2
    by (auto simp: Let_def q_def[symmetric] s1_def[symmetric] split: option.split)
qed simp

lemma FutexWake_ok [sched_keeps]:
  assumes "sched_ok n s"
  shows "sched_ok n (snd (KernelFutexWake s a limit))"
proof (cases "find_index (\<lambda>q. f_active q \<and> f_address q = a) (g_Futexes s)")
  case (Some i)
  then have i: "i < kMaxFutexes" using find_indexD(1) sched_ok_lengths(4)[OF assms] by metis
  obtain w s1 where w: "futex_wake_loop (unat (f_waiter_count (g_Futexes s ! i))) i limit 0 s = (w, s1)" by fastforce
  have ok: "sched_ok n s1" using futex_wake_loop_ok[OF assms i order_refl, of limit 0] w by simp
  have "sched_ok n (upd_futex i (\<lambda>q. q\<lparr>f_active := False\<rparr>) s1)"
    using sched_ok_entries(2)[OF ok i] by (intro sched_ok_futex[OF ok]) (simp add: futex_ok_def)
  then show ?thesis using Some w ok assms by (simp add: KernelFutexWake_def)
qed (use assms in \<open>simp add: KernelFutexWake_def\<close>)

lemma AllocateEventObject_ok:
  "sched_ok n s \<Longrightarrow> sched_ok n (snd (AllocateEventObject s ty))"
  by (auto simp: AllocateEventObject_def event_ok_def zero_event_def intro!: sched_ok_event split: option.split)

lemma AllocateEventObject_bound:
  "sched_ok n s \<Longrightarrow> AllocateEventObject s ty = (Some i, s') \<Longrightarrow> i < kMaxEventObjects"
  using find_indexD(1) sched_ok_lengths(5)
  by (fastforce simp: AllocateEventObject_def split: option.splits)

lemma EventReady_ok: "sched_ok n s \<Longrightarrow> i < kMaxEventObjects \<Longrightarrow> sched_ok n (snd (EventReady s i))"
  using sched_ok_entries(3)[of n s i]
  by (auto simp: EventReady_def Let_def event_ok_def intro!: sched_ok_event)

lemma EpollCreate_ok [sched_keeps]: "sched_ok n s \<Longrightarrow> sched_ok n (snd (KernelEpollCreate s))"
  using AllocateEventObject_ok[of n s Epoll] by (auto simp: KernelEpollCreate_def fd_of_def split: prod.split option.split)

lemma alloc_update_ok:
  assumes "sched_ok n s" "AllocateEventObject s ty = (Some i, s1)"
    and "\<And>e. event_ok e \<Longrightarrow> event_ok (f e)"
  shows "sched_ok n (upd_event i f s1)"
proof -
  have ok: "sched_ok n s1" using AllocateEventObject_ok[OF assms(1), of ty] assms(2) by simp
  show ?thesis
    using sched_ok_entries(3)[OF ok AllocateEventObject_bound[OF assms(1,2)]] assms(3)
    by (intro sched_ok_event[OF ok])
qed

lemma EventFd_ok [sched_keeps]: "sched_ok n s \<Longrightarrow> sched_ok n (snd (KernelEventFd s v))"
  using AllocateEventObject_ok[of n s Event] alloc_update_ok[of n s Event]
  by (auto simp: KernelEventFd_def Let_def event_ok_def split: prod.split option.split)

lemma TimerFd_ok [sched_keeps]: "sched_ok n s \<Longrightarrow> sched_ok n (snd (KernelTimerFd s a b))"
  using AllocateEventObject_ok[of n s Timer] alloc_update_ok[of n s Timer]
  by (auto simp: KernelTimerFd_def Let_def event_ok_def split: prod.split option.split)

lemma found_event:
  assumes "sched_ok n s" "FindEventObject s fd = Some i"
  shows "i < kMaxEventObjects" "event_ok (g_EventObjects s ! i)"
  using found_indices(5)[OF assms] sched_ok_entries(3)[OF assms(1)] by auto

lemma EpollAdd_ok [sched_keeps]: "sched_ok n s \<Longrightarrow> sched_ok n (snd (KernelEpollAdd s a b))"
  using found_event
  by (auto simp: KernelEpollAdd_def event_ok_def kMaxEpollWatches_def word_le_nat_alt unat_word_ariths
      intro!: sched_ok_event split: option.split)

lemma EventFdWrite_ok [sched_keeps]: "sched_ok n s \<Longrightarrow> sched_ok n (snd (KernelEventFdWrite s fd v))"
  using found_event
  by (auto simp: KernelEventFdWrite_def Let_def event_ok_def intro!: sched_ok_event split: option.split)

lemma EventFdRead_ok [sched_keeps]: "sched_ok n s \<Longrightarrow> sched_ok n (snd (KernelEventFdRead s fd))"
  using found_event
  by (auto simp: KernelEventFdRead_def Let_def event_ok_def intro!: sched_ok_event split: option.split)

lemma epoll_step_ok: "sched_ok n (snd st) \<Longrightarrow> sched_ok n (snd (epoll_step cap st fd))"
  using found_event(1) EventReady_ok
  by (auto simp: epoll_step_def Let_def case_prod_beta split: option.split)

lemma EpollWait_ok [sched_keeps]: "sched_ok n s \<Longrightarrow> sched_ok n (snd (KernelEpollWait s fd b cap))"
proof -
  have "sched_ok n (snd st) \<Longrightarrow> sched_ok n (snd (foldl (epoll_step cap) st fds))" for st fds
    by (induction fds arbitrary: st) (simp_all add: epoll_step_ok del: split_paired_All)
  then show "sched_ok n s \<Longrightarrow> ?thesis" by (simp add: KernelEpollWait_def Let_def split: option.split)
qed

lemma TimerFdRead_ok [sched_keeps]:
  assumes "sched_ok n s"
  shows "sched_ok n (snd (KernelTimerFdRead s fd))"
proof (cases "FindEventObject s fd")
  case (Some i)
  note i = found_event(1)[OF assms Some]
  have ok: "sched_ok n (snd (EventReady s i))" by (rule EventReady_ok[OF assms i])
  show ?thesis
    using Some assms ok sched_ok_entries(3)[OF ok i]
    by (auto simp: KernelTimerFdRead_def Let_def case_prod_beta event_ok_def intro!: sched_ok_event)
qed (use assms in \<open>simp add: KernelTimerFdRead_def\<close>)

subsection \<open>Runs of the scheduler\<close>

text \<open>
  Everything a running thread can do: a scheduler call, the check of a join that was
  suspended, its own computation (which changes the registers and the words futexes live
  in), and the timer interrupt.
\<close>

datatype sched_op =
    OpCreateProcess cstring
  | OpCreateThread u64 cstring u64 u64
  | OpTerminate u64
  | OpFork u64
  | OpExec u64 cstring u64 u64
  | OpJoin u64
  | OpJoinCheck nat
  | OpFinish
  | OpPriority u64 u8
  | OpSleep u64
  | OpSignal u64 u32
  | OpSend u64 u64
  | OpReceive u64
  | OpMutexCreate
  | OpLock u64
  | OpUnlock u64
  | OpFutexWait u64 u32
  | OpFutexWake u64 u32
  | OpEpollCreate
  | OpEpollAdd u32 u32
  | OpEpollWait u32 bool u32
  | OpEventFd u64
  | OpEventFdWrite u32 u64
  | OpEventFdRead u32
  | OpTimerFd u64 u64
  | OpTimerFdRead u32
  | OpYield
  | OpTimerTick
  | OpCompute ThreadContext "u64 \<Rightarrow> u32" "u64 \<Rightarrow> u64" KernelHeap

fun sched_exec :: "u64 \<Rightarrow> Sched \<Rightarrow> sched_op \<Rightarrow> Sched" where
  "sched_exec tr s (OpCreateProcess name) = snd (KernelCreateProcess s name)"
| "sched_exec tr s (OpCreateThread pid name entry arg) = snd (KernelCreateThread tr s pid name entry arg)"
| "sched_exec tr s (OpTerminate pid) = snd (KernelTerminateProcess s pid)"
| "sched_exec tr s (OpFork pid) = snd (KernelForkProcess s pid)"
| "sched_exec tr s (OpExec pid name entry arg) = snd (KernelExecProcess tr s pid name entry arg)"
| "sched_exec tr s (OpJoin tid) = snd (KernelPthreadJoin s tid)"
| "sched_exec tr s (OpJoinCheck i) = (if i < kMaxThreads then snd (KernelPthreadJoin_check s i) else s)"
| "sched_exec tr s OpFinish = snd (ThreadFinish s)"
| "sched_exec tr s (OpPriority tid p) = snd (KernelSetThreadPriority s tid p)"
| "sched_exec tr s (OpSleep ticks) = snd (KernelThreadSleep s ticks)"
| "sched_exec tr s (OpSignal tid sig) = snd (KernelSendSignal s tid sig)"
| "sched_exec tr s (OpSend pid v) = snd (KernelIpcSend s pid v)"
| "sched_exec tr s (OpReceive pid) = snd (KernelIpcReceive s pid)"
| "sched_exec tr s OpMutexCreate = snd (KernelMutexCreate s)"
| "sched_exec tr s (OpLock mid) = snd (KernelMutexLock s mid)"
| "sched_exec tr s (OpUnlock mid) = snd (KernelMutexUnlock s mid)"
| "sched_exec tr s (OpFutexWait a e) = snd (KernelFutexWait s a e)"
| "sched_exec tr s (OpFutexWake a c) = snd (KernelFutexWake s a c)"
| "sched_exec tr s OpEpollCreate = snd (KernelEpollCreate s)"
| "sched_exec tr s (OpEpollAdd a b) = snd (KernelEpollAdd s a b)"
| "sched_exec tr s (OpEpollWait a b c) = snd (KernelEpollWait s a b c)"
| "sched_exec tr s (OpEventFd v) = snd (KernelEventFd s v)"
| "sched_exec tr s (OpEventFdWrite fd v) = snd (KernelEventFdWrite s fd v)"
| "sched_exec tr s (OpEventFdRead fd) = snd (KernelEventFdRead s fd)"
| "sched_exec tr s (OpTimerFd a b) = snd (KernelTimerFd s a b)"
| "sched_exec tr s (OpTimerFdRead fd) = snd (KernelTimerFdRead s fd)"
| "sched_exec tr s OpYield = snd (KernelSchedulerYield s)"
| "sched_exec tr s OpTimerTick = KernelSchedulerTimerTick s"
| "sched_exec tr s (OpCompute regs words stacks h) =
     s\<lparr>cpu := regs, user_words := words, stack_words := stacks, heap := h\<rparr>"

lemma sched_exec_ok: "sched_ok n s \<Longrightarrow> n < 2 ^ 63 \<Longrightarrow> sched_ok (Suc n) (sched_exec tr s x)"
  by (cases x) (simp_all add: sched_keeps sched_ok_Suc)

lemma sched_run_ok:
  "sched_ok n s \<Longrightarrow> n + length xs \<le> 2 ^ 63 \<Longrightarrow> sched_ok (n + length xs) (foldl (sched_exec tr) s xs)"
proof (induction xs arbitrary: n s)
  case (Cons x xs)
  then show ?case using Cons.IH[of "Suc n"] sched_exec_ok[of n s tr x] by simp
qed simp

lemma SchedulerInit_ok:
  assumes "g_NextProcessId s = 1" "g_NextThreadId s = 1"
  shows "sched_ok 0 (snd (KernelSchedulerInit s))"
  using assms
  by (auto simp: KernelSchedulerInit_def sched_ok_def sched_log_def one_running_def ids_ok_def table_sizes
      nth_list_update nth_Cons' zero_thread_def zero_process_def zero_mutex_def zero_futex_def zero_event_def
      list_all_length ring_ok_def futex_ok_def event_ok_def)

subsection \<open>Properties\<close>

text \<open>
  C6. Whatever sequence of up to 2^62 scheduler calls, interrupts and computations follows
  KernelSchedulerInit, at most the current thread is Running, no two live threads and no
  two active processes share an id, and every IPC ring is well formed.
\<close>

theorem scheduler_invariant:
  assumes "g_NextProcessId s0 = 1" "g_NextThreadId s0 = 1" "length xs \<le> 2 ^ 62"
  shows "let s = foldl (sched_exec tr) (snd (KernelSchedulerInit s0)) xs in
    (\<exists>c < kMaxThreads. g_CurrentThread s = Some c \<and>
       (\<forall>i < kMaxThreads. t_state (g_Threads s ! i) = Running \<longrightarrow> i = c)) \<and>
    (\<forall>i < kMaxThreads. \<forall>j < kMaxThreads. t_state (g_Threads s ! i) \<noteq> Empty \<longrightarrow>
       t_state (g_Threads s ! j) \<noteq> Empty \<longrightarrow> t_id (g_Threads s ! i) = t_id (g_Threads s ! j) \<longrightarrow> i = j) \<and>
    (\<forall>i < kMaxProcesses. \<forall>j < kMaxProcesses. p_active (g_Processes s ! i) \<longrightarrow>
       p_active (g_Processes s ! j) \<longrightarrow> p_id (g_Processes s ! i) = p_id (g_Processes s ! j) \<longrightarrow> i = j) \<and>
    (\<forall>p \<in> set (g_Processes s). length (p_ipc_queue p) = 8 \<and> p_ipc_head p < 8 \<and> p_ipc_tail p < 8 \<and>
       p_ipc_count p \<le> 8)"
proof -
  define s where "s = foldl (sched_exec tr) (snd (KernelSchedulerInit s0)) xs"
  have ok: "sched_ok (0 + length xs) s"
    unfolding s_def using assms by (intro sched_run_ok SchedulerInit_ok) simp_all
  then have run: "one_running (g_CurrentThread s) (g_Threads s)"
    and ids: "ids_ok used_slot t_id (g_Threads s) (g_NextThreadId s)"
    and pids: "ids_ok p_active p_id (g_Processes s) (g_NextProcessId s)"
    and rings: "list_all ring_ok (g_Processes s)" and len: "length (g_Processes s) = kMaxProcesses"
    by (simp_all add: sched_ok_def)
  have "i = j" if "i < kMaxThreads" "j < kMaxThreads" "live_thread (g_Threads s ! i)"
    "live_thread (g_Threads s ! j)" "t_id (g_Threads s ! i) = t_id (g_Threads s ! j)" for i j
    using ids run that by (simp add: ids_ok_def one_running_def)
  moreover have "\<exists>c < kMaxThreads. g_CurrentThread s = Some c \<and>
      (\<forall>i < kMaxThreads. t_state (g_Threads s ! i) = Running \<longrightarrow> i = c)"
    using run by (auto simp: one_running_def)
  moreover have "length (p_ipc_queue p) = 8 \<and> p_ipc_head p < 8 \<and> p_ipc_tail p < 8 \<and> p_ipc_count p \<le> 8"
    if "p \<in> set (g_Processes s)" for p
    using rings that by (auto simp: list_all_iff ring_ok_def word_less_nat_alt word_le_nat_alt)
  ultimately show ?thesis
    using pids len by (simp add: s_def[symmetric] Let_def ids_ok_def)
qed

definition demo_sched :: Sched where
  "demo_sched = \<lparr>g_Processes = [], g_Threads = [], g_Mutexes = [], g_Futexes = [], g_EventObjects = [],
     g_CurrentThread = None, g_NextProcessId = 1, g_NextThreadId = 1, g_NextMutexId = 1, g_SchedulerTick = 0,
     g_SignalsDelivered = 0, g_NextEventFd = 32,
     heap = \<lparr>h_Start = 0x100000, h_Current = 0x100000, h_End = 0x180000\<rparr>, klog_of = [],
     cpu = zero_context, user_words = (\<lambda>_. 1), stack_words = (\<lambda>_. 0)\<rparr>"

definition demo_booted :: Sched where
  "demo_booted = snd (KernelSchedulerInit demo_sched)"

lemma demo_booted_ok: "sched_ok 0 demo_booted"
  unfolding demo_booted_def by (rule SchedulerInit_ok) (simp_all add: demo_sched_def)

lemma scheduler_invariant_witness:
  "let s = foldl (sched_exec 0x201000) demo_booted
       [OpCreateProcess (Some ''init''), OpCreateThread 2 (Some ''t'') 0x202000 0, OpYield, OpSend 2 7] in
    \<exists>c < kMaxThreads. g_CurrentThread s = Some c"
  using scheduler_invariant[of demo_sched "[OpCreateProcess (Some ''init''), OpCreateThread 2 (Some ''t'') 0x202000 0,
      OpYield, OpSend 2 7]" "0x201000"]
  unfolding Let_def demo_booted_def[symmetric]
  by (simp del: foldl_Cons sched_exec.simps add: demo_sched_def) blast

text \<open>The threads that may be chosen when the current one yields.\<close>

definition runnable :: "Sched \<Rightarrow> nat \<Rightarrow> bool" where
  "runnable s i \<longleftrightarrow> t_state (g_Threads s ! i) = Ready \<or>
     t_state (g_Threads s ! i) = Sleeping \<and> t_wake_tick (g_Threads s ! i) \<le> g_SchedulerTick s + 1"

lemma yield_start_thread:
  assumes "i < length (g_Threads s)"
  shows "t_state (g_Threads (yield_start s c) ! i) = Ready \<longleftrightarrow> runnable s i"
    and "t_priority (g_Threads (yield_start s c) ! i) = t_priority (g_Threads s ! i)"
  using assms by (auto simp: yield_start_def Let_def wake_thread_def runnable_def)

lemma best_mono:
  assumes "\<And>i. i \<in> set xs \<Longrightarrow> ok i = ok' i \<and> prio i = prio' i" "best ok prio xs i"
  shows "best ok' prio' xs i"
proof -
  obtain k where k: "k < length xs" "xs ! k = i" "ok i" "\<And>j. j \<in> set xs \<Longrightarrow> ok j \<Longrightarrow> prio j \<le> prio i"
    "\<And>k'. k' < k \<Longrightarrow> ok (xs ! k') \<Longrightarrow> prio (xs ! k') < prio i"
    using assms(2) by (auto simp: best_def)
  have i: "i \<in> set xs" using k(1,2) by auto
  have mem: "xs ! k' \<in> set xs" if "k' < k" for k' using that k(1) by simp
  have "\<forall>j \<in> set xs. ok' j \<longrightarrow> prio' j \<le> prio' i" using k(4) assms(1) i by auto
  moreover have "\<forall>k' < k. ok' (xs ! k') \<longrightarrow> prio' (xs ! k') < prio' i" using k(5) assms(1) i mem by auto
  ultimately show ?thesis using k(1,2,3) assms(1)[OF i] unfolding best_def by blast
qed

lemma best_cong:
  assumes "\<And>i. i \<in> set xs \<Longrightarrow> ok i = ok' i \<and> prio i = prio' i"
  shows "best ok prio xs = best ok' prio' xs"
proof (rule ext, rule iffI)
  fix i
  show "best ok' prio' xs i" if "best ok prio xs i" by (rule best_mono[OF assms that])
  show "best ok prio xs i" if "best ok' prio' xs i"
    by (rule best_mono[OF _ that]) (use assms in auto)
qed

lemma next_thread_start:
  assumes "sched_ok n s"
  shows "next_thread (yield_start s c) c = Some i \<Longrightarrow>
      best (runnable s) (\<lambda>i. t_priority (g_Threads s ! i)) (round_robin c) i"
    and "next_thread (yield_start s c) c = None \<Longrightarrow> c < kMaxThreads \<Longrightarrow> i < kMaxThreads \<Longrightarrow> \<not> runnable s i"
proof -
  have len: "length (g_Threads s) = kMaxThreads" by (rule sched_ok_lengths(1)[OF assms])
  have eq: "best (\<lambda>i. t_state (g_Threads (yield_start s c) ! i) = Ready)
      (\<lambda>i. t_priority (g_Threads (yield_start s c) ! i)) (round_robin c) =
      best (runnable s) (\<lambda>i. t_priority (g_Threads s ! i)) (round_robin c)"
    using len round_robin_bound by (intro best_cong) (auto simp: yield_start_thread)
  show "next_thread (yield_start s c) c = Some i \<Longrightarrow>
      best (runnable s) (\<lambda>i. t_priority (g_Threads s ! i)) (round_robin c) i"
    using pick_Some eq unfolding next_thread_def by metis
  show "next_thread (yield_start s c) c = None \<Longrightarrow> c < kMaxThreads \<Longrightarrow> i < kMaxThreads \<Longrightarrow> \<not> runnable s i"
    using len by (auto simp: next_thread_def pick_None round_robin_all yield_start_thread)
qed

lemma switch_to_current:
  assumes "i < length (g_Threads s)" "i \<noteq> c"
  shows "g_CurrentThread (switch_to c i s) = Some i" "t_state (g_Threads (switch_to c i s) ! i) = Running"
  using assms
  by (simp_all add: switch_to_def SchedulerContextSwitch_def Let_def g_Threads_upd_thread)

text \<open>
  C9. KernelSchedulerYield gives the processor to the runnable thread (ready, or asleep
  with its wake-up tick reached) of highest priority, and among equals to the first one
  after the current thread in round-robin order; it returns without a switch exactly when
  no thread is runnable or the best one is the current thread itself.
\<close>

theorem yield_picks_highest_priority:
  assumes "sched_ok n s" "g_CurrentThread s = Some c" "KernelSchedulerYield s = (switched, s')"
  shows "\<exists>i < kMaxThreads. g_CurrentThread s' = Some i \<and> (switched \<longleftrightarrow> i \<noteq> c) \<and>
    (if switched then best (runnable s) (\<lambda>i. t_priority (g_Threads s ! i)) (round_robin c) i \<and>
                      t_state (g_Threads s' ! i) = Running
     else (\<forall>j < kMaxThreads. \<not> runnable s j) \<or>
          best (runnable s) (\<lambda>i. t_priority (g_Threads s ! i)) (round_robin c) c)"
proof -
  have c: "c < kMaxThreads" using current_used[OF assms(1,2)] by simp
  let ?s = "yield_start s c"
  have stay: "g_CurrentThread (stay c ?s) = Some c" using assms(2) by (simp add: stay_def)
  have len: "length (g_Threads ?s) = kMaxThreads"
    using sched_ok_lengths(1)[OF yield_start_ok[OF assms(1) c]] .
  note N = next_thread_start[OF assms(1), of c]
  show ?thesis
  proof (cases "next_thread ?s c")
    case None
    then have "\<not> switched \<and> s' = stay c ?s" using assms(2,3) by (simp add: Yield_eq Let_def)
    then show ?thesis using stay c N(2)[OF None c] by auto
  next
    case (Some i)
    show ?thesis
    proof (cases "i = c")
      case True
      then have "\<not> switched \<and> s' = stay c ?s" using Some assms(2,3) by (simp add: Yield_eq Let_def)
      then show ?thesis using stay c N(1)[OF Some] True by auto
    next
      case False
      then have "switched \<and> s' = switch_to c i ?s" using Some assms(2,3) by (simp add: Yield_eq Let_def)
      then show ?thesis
        using switch_to_current[of i ?s c] next_threadD(1)[OF Some] len False N(1)[OF Some] by auto
    qed
  qed
qed

lemma yield_picks_highest_priority_witness:
  "\<exists>i < kMaxThreads. g_CurrentThread (snd (KernelSchedulerYield demo_booted)) = Some i"
proof -
  have c: "g_CurrentThread demo_booted = Some 0"
    by (simp add: demo_booted_def KernelSchedulerInit_def sched_log_def)
  show ?thesis
    using yield_picks_highest_priority[OF demo_booted_ok c surjective_pairing]
    by blast
qed

subsection \<open>The IPC ring as a bounded queue\<close>

definition ring_items :: "Process \<Rightarrow> u64 list" where
  "ring_items p = map (\<lambda>k. p_ipc_queue p ! ((unat (p_ipc_head p) + k) mod 8)) [0 ..< unat (p_ipc_count p)]"

lemma length_ring_items [simp]: "length (ring_items p) = unat (p_ipc_count p)"
  by (simp add: ring_items_def)

lemma mod8_ne: "h < 8 \<Longrightarrow> k < n \<Longrightarrow> n < 8 \<Longrightarrow> (h + k) mod 8 \<noteq> (h + n) mod (8 :: nat)"
proof
  assume a: "k < n" "n < 8" "(h + k) mod 8 = (h + n) mod 8"
  then have "8 dvd (h + n) - (h + k)" by (metis add_left_mono less_imp_le mod_eq_dvd_iff_nat)
  then show False using a(1,2) by (auto dest: dvd_imp_le)
qed

lemma ring_items_send:
  assumes "ring_ok p" "p_ipc_count p < kIpcQueueSize"
  shows "ring_items (p\<lparr>p_ipc_queue := (p_ipc_queue p)[unat (p_ipc_tail p) := v],
     p_ipc_tail := t, p_ipc_count := p_ipc_count p + 1\<rparr>) = ring_items p @ [v]"
proof -
  let ?n = "unat (p_ipc_count p)" and ?h = "unat (p_ipc_head p)"
  have n: "?n < 8" using assms(2) by (simp add: kIpcQueueSize_def word_less_nat_alt)
  have tail: "unat (p_ipc_tail p) = (?h + ?n) mod 8" "?h < 8" "length (p_ipc_queue p) = 8"
    using assms(1) by (simp_all add: ring_ok_def)
  have "unat (p_ipc_count p + 1) = Suc ?n" using n by (simp add: unat_word_ariths)
  moreover have "(p_ipc_queue p)[(?h + ?n) mod 8 := v] ! ((?h + k) mod 8) = p_ipc_queue p ! ((?h + k) mod 8)"
    if "k < ?n" for k
    using mod8_ne[OF tail(2) that n] by simp
  ultimately show ?thesis using tail by (simp add: ring_items_def)
qed

lemma ring_items_receive:
  assumes "ring_ok p" "p_ipc_count p \<noteq> 0"
  shows "ring_items p = p_ipc_queue p ! unat (p_ipc_head p) #
    ring_items (p\<lparr>p_ipc_head := (p_ipc_head p + 1) mod kIpcQueueSize, p_ipc_count := p_ipc_count p - 1\<rparr>)"
proof -
  let ?n = "unat (p_ipc_count p)" and ?h = "unat (p_ipc_head p)"
  have h: "?h < 8" using assms(1) by (simp add: ring_ok_def)
  have "?n \<noteq> 0" using assms(2) by (simp add: unat_eq_0)
  then obtain m where m: "?n = Suc m" by (cases ?n) auto
  have c: "unat (p_ipc_count p - 1) = m" using m unat_minus_one[OF assms(2)] by simp
  have "unat ((p_ipc_head p + 1) mod 8) = Suc ?h mod 8" using h by (simp add: unat_mod unat_word_ariths)
  moreover have "(Suc ?h mod 8 + k) mod 8 = (?h + Suc k) mod 8" for k by (simp add: mod_simps)
  ultimately show ?thesis
    using h by (simp add: ring_items_def kIpcQueueSize_def m c upt_conv_Cons map_Suc_upt[symmetric]
        del: upt_Suc)
qed

text \<open>The queue of the process \<open>pid\<close>, with the calls as the process sees them.\<close>

definition ipc_inv :: "u64 \<Rightarrow> Sched \<Rightarrow> bool" where
  "ipc_inv pid s \<longleftrightarrow> (\<exists>i < length (g_Processes s). FindProcess s pid = Some i \<and> ring_ok (g_Processes s ! i))"

definition ipc_items :: "u64 \<Rightarrow> Sched \<Rightarrow> u64 list" where
  "ipc_items pid s = (case FindProcess s pid of None \<Rightarrow> [] | Some i \<Rightarrow> ring_items (g_Processes s ! i))"

definition ipc_push :: "u64 \<Rightarrow> Sched \<Rightarrow> u64 \<Rightarrow> Sched option" where
  "ipc_push pid s v = (let (sent, s') = KernelIpcSend s pid v in if sent then Some s' else None)"

definition ipc_pop :: "u64 \<Rightarrow> Sched \<Rightarrow> (u64 \<times> Sched) option" where
  "ipc_pop pid s = (let (value, s') = KernelIpcReceive s pid in map_option (\<lambda>v. (v, s')) value)"

lemma FindProcess_upd:
  assumes "FindProcess s pid = Some i" "p_active (f (g_Processes s ! i))"
    "p_id (f (g_Processes s ! i)) = p_id (g_Processes s ! i)"
  shows "FindProcess (upd_process i f s) pid = Some i"
proof -
  have "p_id (g_Processes s ! i) = pid" using assms(1) by (auto simp: FindProcess_def dest: find_indexD)
  then show ?thesis
    using assms unfolding FindProcess_def upd_process_def by (simp add: find_index_update_same)
qed

lemma ipc_step:
  assumes "ipc_inv pid s" "FindProcess s pid = Some i" "ring_ok (f (g_Processes s ! i))"
    "p_active (f (g_Processes s ! i)) = p_active (g_Processes s ! i)"
    "p_id (f (g_Processes s ! i)) = p_id (g_Processes s ! i)"
  shows "ipc_inv pid (upd_process i f s)" "ipc_items pid (upd_process i f s) = ring_items (f (g_Processes s ! i))"
proof -
  have i: "i < length (g_Processes s)" "p_active (g_Processes s ! i)"
    using assms(2) by (auto simp: FindProcess_def dest: find_indexD)
  have "FindProcess (upd_process i f s) pid = Some i"
    by (rule FindProcess_upd) (use assms i in auto)
  then show "ipc_inv pid (upd_process i f s)"
    "ipc_items pid (upd_process i f s) = ring_items (f (g_Processes s ! i))"
    using i assms(3) by (auto simp: ipc_inv_def ipc_items_def upd_process_def)
qed

interpretation ipc: bounded_queue 8 "ipc_inv pid" "ipc_items pid" "ipc_push pid" "ipc_pop pid" for pid :: u64
proof (unfold_locales, goal_cases)
  case (1 s)
  then show ?case by (auto simp: ipc_inv_def ipc_items_def ring_ok_def)
next
  case (2 s x)
  then obtain i where i: "FindProcess s pid = Some i" "ring_ok (g_Processes s ! i)" by (auto simp: ipc_inv_def)
  have n: "p_ipc_count (g_Processes s ! i) < kIpcQueueSize"
    using 2(2) i by (simp add: ipc_items_def kIpcQueueSize_def word_less_nat_alt)
  show ?case
    using i n ring_send[OF i(2) n, of x] ring_items_send[OF i(2) n]
      ipc_step[OF 2(1) i(1), of "\<lambda>p. p\<lparr>p_ipc_queue := (p_ipc_queue p)[unat (p_ipc_tail p) := x],
         p_ipc_tail := (p_ipc_tail p + 1) mod kIpcQueueSize, p_ipc_count := p_ipc_count p + 1\<rparr>"]
    by (auto simp: ipc_push_def KernelIpcSend_def ipc_items_def not_le)
next
  case (3 s x)
  then show ?case
    by (auto simp: ipc_inv_def ipc_items_def ipc_push_def KernelIpcSend_def kIpcQueueSize_def word_le_nat_alt)
next
  case (4 s)
  then show ?case
    by (auto simp: ipc_inv_def ipc_items_def ipc_pop_def KernelIpcReceive_def ring_items_def Let_def unat_eq_0)
next
  case (5 s x xs)
  then obtain i where i: "FindProcess s pid = Some i" "ring_ok (g_Processes s ! i)" by (auto simp: ipc_inv_def)
  have n: "p_ipc_count (g_Processes s ! i) \<noteq> 0"
    using 5(2) i by (auto simp: ipc_items_def ring_items_def)
  show ?case
    using i n 5(2) ring_receive[OF i(2) n] ring_items_receive[OF i(2) n]
      ipc_step[OF 5(1) i(1), of "\<lambda>p. p\<lparr>p_ipc_head := (p_ipc_head p + 1) mod kIpcQueueSize,
         p_ipc_count := p_ipc_count p - 1\<rparr>"]
    by (auto simp: ipc_pop_def KernelIpcReceive_def ipc_items_def Let_def)
qed

fun ipc_send_all :: "Sched \<Rightarrow> u64 \<Rightarrow> u64 list \<Rightarrow> bool \<times> Sched" where
  "ipc_send_all s pid [] = (True, s)"
| "ipc_send_all s pid (v # vs) =
     (let (sent, s') = KernelIpcSend s pid v in if sent then ipc_send_all s' pid vs else (False, s'))"

fun ipc_receive_n :: "nat \<Rightarrow> Sched \<Rightarrow> u64 \<Rightarrow> u64 list \<times> Sched" where
  "ipc_receive_n 0 s pid = ([], s)"
| "ipc_receive_n (Suc n) s pid =
     (case KernelIpcReceive s pid of (None, s') \<Rightarrow> ([], s')
      | (Some v, s') \<Rightarrow> let (vs, s'') = ipc_receive_n n s' pid in (v # vs, s''))"

lemma ipc_push_step: "ipc_push pid s v = (if fst (KernelIpcSend s pid v) then Some (snd (KernelIpcSend s pid v)) else None)"
  and ipc_pop_step: "ipc_pop pid s = map_option (\<lambda>v. (v, snd (KernelIpcReceive s pid))) (fst (KernelIpcReceive s pid))"
  by (simp_all add: ipc_push_def ipc_pop_def case_prod_beta)

lemma ipc_send_all_push: "ipc.push_all pid s vs = Some s' \<Longrightarrow> ipc_send_all s pid vs = (True, s')"
proof (induction vs arbitrary: s)
  case (Cons v vs)
  obtain sent s1 where k: "KernelIpcSend s pid v = (sent, s1)" by fastforce
  with Cons.prems have "sent" "ipc.push_all pid s1 vs = Some s'"
    by (auto simp: ipc_push_step[of pid s v] split: if_splits)
  then show ?case using Cons.IH k by simp
qed simp

lemma ipc_receive_n_pop: "ipc.pop_n pid n s = Some (vs, s') \<Longrightarrow> ipc_receive_n n s pid = (vs, s')"
proof (induction n arbitrary: s vs)
  case (Suc n)
  obtain r s1 where k: "KernelIpcReceive s pid = (r, s1)" by fastforce
  with Suc.prems obtain v ws where "r = Some v" "ipc.pop_n pid n s1 = Some (ws, s')" "vs = v # ws"
    by (auto simp: ipc_pop_step[of pid s] split: option.splits)
  then show ?case using Suc.IH k by simp
qed simp

text \<open>
  C18. IPC queues are first-in first-out and hold 8 messages: up to 8 values sent to a
  process with an empty queue are all accepted and received in the order they were sent,
  leaving the queue empty, and one more send to a full queue is refused.
\<close>

theorem ipc_is_fifo:
  assumes "sched_ok n s" "FindProcess s pid = Some i" "p_ipc_count (g_Processes s ! i) = 0" "length vs \<le> 8"
  shows "\<exists>s1 s2. ipc_send_all s pid vs = (True, s1) \<and> ipc_receive_n (length vs) s1 pid = (vs, s2) \<and>
    fst (KernelIpcReceive s2 pid) = None \<and>
    (length vs = 8 \<longrightarrow> (\<forall>v. fst (KernelIpcSend s1 pid v) = False))"
proof -
  have inv: "ipc_inv pid s" and empty: "ipc_items pid s = []"
    using assms(1-3) found_indices(1)[OF assms(1,2)] sched_ok_entries(1)[OF assms(1), of i] sched_ok_lengths(2)[OF assms(1)]
    by (auto simp: ipc_inv_def ipc_items_def ring_items_def)
  obtain s1 where s1: "ipc.push_all pid s vs = Some s1" "ipc_inv pid s1" "ipc_items pid s1 = vs"
    using ipc.push_all_room[OF inv, of vs] assms(4) empty by auto
  obtain s2 where s2: "ipc.pop_n pid (length vs) s1 = Some (vs, s2)" "ipc_inv pid s2" "ipc_items pid s2 = []"
    using ipc.pop_n_items[OF s1(2), of "length vs"] s1(3) by auto
  have "fst (KernelIpcReceive s2 pid) = None"
    using ipc.pop_empty[OF s2(2,3)] by (simp add: ipc_pop_step)
  moreover have "fst (KernelIpcSend s1 pid v) = False" if "length vs = 8" for v
    using ipc.push_full[OF s1(2), of v] s1(3) that by (simp add: ipc_push_step split: if_splits)
  ultimately show ?thesis
    using s1(1) s2(1) ipc_send_all_push[OF s1(1)] ipc_receive_n_pop[OF s2(1)] by blast
qed

lemma demo_booted_kernel: "FindProcess demo_booted 1 = Some 0" "p_ipc_count (g_Processes demo_booted ! 0) = 0"
  by (simp_all add: demo_booted_def demo_sched_def KernelSchedulerInit_def sched_log_def FindProcess_def
      find_index_Some zero_process_def table_sizes)

lemma ipc_is_fifo_witness:
  "\<exists>s1 s2. ipc_send_all demo_booted 1 [7, 8, 9] = (True, s1) \<and>
    ipc_receive_n (length [7, 8, 9 :: u64]) s1 1 = ([7, 8, 9], s2)"
proof -
  have "length [7, 8, 9 :: u64] \<le> 8" by simp
  from ipc_is_fifo[OF demo_booted_ok demo_booted_kernel this] show ?thesis by blast
qed

subsection \<open>Mutual exclusion\<close>

lemma yield_keeps_mutexes [simp]: "g_Mutexes (snd (KernelSchedulerYield s)) = g_Mutexes s"
  by (auto simp: KernelSchedulerYield_def FindNextRunnable_def DeliverSignals_def SchedulerContextSwitch_def
      Let_def split: option.split)

lemma upd_event_mutexes [simp]:
  "g_Mutexes (upd_event i f s) = g_Mutexes s" "g_Mutexes (upd_futex i g s) = g_Mutexes s"
  "g_Mutexes (upd_process i h s) = g_Mutexes s" "g_Mutexes (sched_log l m s) = g_Mutexes s"
  by (simp_all add: upd_event_def upd_futex_def upd_process_def sched_log_def)

lemma create_keeps_mutexes [simp]:
  "g_Mutexes (snd (KernelCreateThread tr s pid name entry arg)) = g_Mutexes s"
  "g_Mutexes (snd (KernelCreateProcess s name)) = g_Mutexes s"
  "g_Mutexes (snd (AllocateEventObject s ty)) = g_Mutexes s"
  "g_Mutexes (snd (EventReady s i)) = g_Mutexes s"
  by (auto simp: KernelCreateThread_def KernelCreateProcess_def PrepareInitialContext_def AllocateEventObject_def
      EventReady_def Let_def split: option.split prod.split)

lemma wake_loop_keeps_mutexes [simp]: "g_Mutexes (snd (futex_wake_loop w i c k s)) = g_Mutexes s"
  by (induction w i c k s rule: futex_wake_loop.induct) (auto simp: Let_def split: option.split)

lemma epoll_keeps_mutexes [simp]: "g_Mutexes (snd (foldl (epoll_step cap) st fds)) = g_Mutexes (snd st)"
proof (induction fds arbitrary: st)
  case (Cons fd fds)
  have "g_Mutexes (snd (epoll_step cap st fd)) = g_Mutexes (snd st)"
    by (auto simp: epoll_step_def Let_def case_prod_beta split: option.split)
  then show ?case using Cons.IH by simp
qed simp

text \<open>Only the mutex calls themselves change the mutexes.\<close>

fun mutex_op :: "sched_op \<Rightarrow> bool" where
  "mutex_op OpMutexCreate = True"
| "mutex_op (OpLock mid) = True"
| "mutex_op (OpUnlock mid) = True"
| "mutex_op x = False"

lemma alloc_keeps_mutexes: "AllocateEventObject s ty = (r, s1) \<Longrightarrow> g_Mutexes s1 = g_Mutexes s"
  "EventReady s i = (b, s1) \<Longrightarrow> g_Mutexes s1 = g_Mutexes s"
  "KernelCreateThread tr s pid name entry arg = (x, s1) \<Longrightarrow> g_Mutexes s1 = g_Mutexes s"
  "KernelCreateProcess s name = (x, s1) \<Longrightarrow> g_Mutexes s1 = g_Mutexes s"
  "KernelSchedulerYield s = (b, s1) \<Longrightarrow> g_Mutexes s1 = g_Mutexes s"
  "futex_wake_loop w j c k s = (y, s1) \<Longrightarrow> g_Mutexes s1 = g_Mutexes s"
  by (metis create_keeps_mutexes yield_keeps_mutexes wake_loop_keeps_mutexes snd_conv)+

lemma other_ops_keep_mutexes: "\<not> mutex_op x \<Longrightarrow> g_Mutexes (sched_exec tr s x) = g_Mutexes s"
  by (cases x)
     (auto simp: Let_def KernelTerminateProcess_def KernelForkProcess_def KernelExecProcess_def
       KernelPthreadJoin_def KernelPthreadJoin_check_def ThreadFinish_def KernelSetThreadPriority_def
       KernelThreadSleep_def KernelSendSignal_def KernelIpcSend_def KernelIpcReceive_def KernelFutexWait_def
       KernelFutexWake_def KernelEpollCreate_def KernelEpollAdd_def KernelEpollWait_def fd_of_def
       KernelEventFd_def KernelEventFdWrite_def KernelEventFdRead_def KernelTimerFd_def KernelTimerFdRead_def
       KernelSchedulerTimerTick_def
       dest!: alloc_keeps_mutexes split: option.split prod.split)

definition holds :: "Sched \<Rightarrow> u64 \<Rightarrow> nat \<Rightarrow> u64 \<Rightarrow> bool" where
  "holds s mid i owner \<longleftrightarrow> i < length (g_Mutexes s) \<and> m_active (g_Mutexes s ! i) \<and> m_id (g_Mutexes s ! i) = mid \<and>
     m_locked (g_Mutexes s ! i) \<and> m_owner_thread_id (g_Mutexes s ! i) = owner"

lemma holds_keep: "g_Mutexes s' = g_Mutexes s \<Longrightarrow> holds s mid i a \<Longrightarrow> holds s' mid i a"
  by (simp add: holds_def)

lemma holds_other: "holds s mid i a \<Longrightarrow> j \<noteq> i \<Longrightarrow> g_Mutexes s' = (g_Mutexes s)[j := m] \<Longrightarrow> holds s' mid i a"
  by (simp add: holds_def)

lemma holds_MutexCreate: "holds s mid i a \<Longrightarrow> holds (snd (KernelMutexCreate s)) mid i a"
proof (cases "find_index (\<lambda>m. \<not> m_active m) (g_Mutexes s)")
  case (Some j)
  assume h: "holds s mid i a"
  have "j \<noteq> i" using h find_indexD(2)[OF Some] by (auto simp: holds_def)
  from holds_other[OF h this] show ?thesis using Some by (simp add: KernelMutexCreate_def upd_mutex_def)
qed (simp add: KernelMutexCreate_def)

lemma holds_MutexLock:
  assumes "holds s mid i a"
  shows "holds (snd (KernelMutexLock s mid')) mid i a"
proof -
  have "g_Mutexes (snd (KernelMutexLock s mid')) = g_Mutexes s \<or>
      (\<exists>j m. \<not> m_locked (g_Mutexes s ! j) \<and> g_Mutexes (snd (KernelMutexLock s mid')) = (g_Mutexes s)[j := m])"
    by (auto simp: KernelMutexLock_def Let_def case_prod_beta upd_mutex_def split: option.split)
  then show ?thesis
    using assms holds_keep[OF _ assms] holds_other[OF assms] by (metis holds_def)
qed

lemma holds_MutexUnlock:
  assumes "holds s mid i a" "mid' = mid \<Longrightarrow> current_id s \<noteq> a"
  shows "holds (snd (KernelMutexUnlock s mid')) mid i a"
proof (cases "FindMutex s mid'")
  case (Some j)
  have "m_id (g_Mutexes s ! j) = mid'" using Some by (auto simp: FindMutex_def dest: find_indexD)
  then have "j = i \<Longrightarrow> m_owner_thread_id (g_Mutexes s ! j) \<noteq> current_id s"
    using assms by (auto simp: holds_def)
  moreover have "g_Mutexes (snd (KernelMutexUnlock s mid')) = g_Mutexes s \<or>
      m_owner_thread_id (g_Mutexes s ! j) = current_id s \<and>
      (\<exists>m. g_Mutexes (snd (KernelMutexUnlock s mid')) = (g_Mutexes s)[j := m])"
    using Some by (auto simp: KernelMutexUnlock_def Let_def upd_mutex_def split: option.split)
  ultimately show ?thesis using holds_keep[OF _ assms(1)] holds_other[OF assms(1)] by metis
qed (use assms(1) in \<open>simp add: KernelMutexUnlock_def\<close>)

lemma holds_step:
  assumes "holds s mid i a" "x = OpUnlock mid \<Longrightarrow> current_id s \<noteq> a"
  shows "holds (sched_exec tr s x) mid i a"
proof (cases "mutex_op x")
  case True
  then show ?thesis
    using assms by (cases x) (auto intro: holds_MutexCreate holds_MutexLock holds_MutexUnlock)
qed (use assms other_ops_keep_mutexes holds_keep in blast)

text \<open>The run \<open>xs\<close> from \<open>s\<close> contains no unlock of \<open>mid\<close> by the thread \<open>a\<close>.\<close>

fun keeps_lock :: "u64 \<Rightarrow> u64 \<Rightarrow> u64 \<Rightarrow> Sched \<Rightarrow> sched_op list \<Rightarrow> bool" where
  "keeps_lock tr mid a s [] = True"
| "keeps_lock tr mid a s (x # xs) =
     ((x = OpUnlock mid \<longrightarrow> current_id s \<noteq> a) \<and> keeps_lock tr mid a (sched_exec tr s x) xs)"

lemma holds_run: "holds s mid i a \<Longrightarrow> keeps_lock tr mid a s xs \<Longrightarrow> holds (foldl (sched_exec tr) s xs) mid i a"
  by (induction xs arbitrary: s) (auto intro: holds_step)

lemma yield_stays:
  assumes "KernelSchedulerYield s = (False, s')"
  shows "g_CurrentThread s' = g_CurrentThread s" "g_Mutexes s' = g_Mutexes s"
    and "\<And>i. i < length (g_Threads s) \<Longrightarrow> t_id (g_Threads s' ! i) = t_id (g_Threads s ! i)"
proof -
  show "g_Mutexes s' = g_Mutexes s" using assms by (rule alloc_keeps_mutexes)
  have len: "length (g_Threads (yield_start s c)) = length (g_Threads s)" for c
    by (simp add: yield_start_def Let_def)
  have wake: "t_id (wake_thread k t) = t_id t" for k t by (simp add: wake_thread_def)
  have ids: "t_id (g_Threads (stay c (yield_start s c)) ! i) = t_id (g_Threads s ! i)"
    if "i < length (g_Threads s)" for c i
  proof -
    have "t_id (g_Threads (yield_start s c) ! i) = t_id (g_Threads s ! i)"
      using that by (simp add: yield_start_def Let_def wake)
    then show ?thesis
      using that len by (cases "i = c") (auto simp: stay_def g_Threads_upd_thread)
  qed
  show "g_CurrentThread s' = g_CurrentThread s"
  proof (cases "g_CurrentThread s")
    case (Some c)
    with assms show ?thesis by (auto simp: Yield_eq Let_def stay_def split: option.splits if_splits)
  qed (use assms in \<open>auto simp: KernelSchedulerYield_def FindNextRunnable_def Let_def\<close>)
  show "t_id (g_Threads s' ! i) = t_id (g_Threads s ! i)" if "i < length (g_Threads s)" for i
  proof (cases "g_CurrentThread s")
    case (Some c)
    with assms have "s' = stay c (yield_start s c)"
      by (auto simp: Yield_eq Let_def split: option.splits if_splits)
    then show ?thesis using ids[OF that] by simp
  qed (use assms in \<open>auto simp: KernelSchedulerYield_def FindNextRunnable_def Let_def\<close>)
qed

lemma lock_of_held_mutex:
  assumes "sched_ok n s" "holds s mid i a" "FindMutex s mid = Some i" "fst (KernelMutexLock s mid) = Returned True"
  shows "current_id s = a"
proof (rule ccontr)
  assume ne: "current_id s \<noteq> a"
  obtain c where c: "g_CurrentThread s = Some c" "c < kMaxThreads" by (rule current_index[OF assms(1)])
  let ?s = "upd_thread c (\<lambda>t. t\<lparr>t_state := Blocked, t_waiting_mutex_id := mid\<rparr>) s"
  obtain sw s1 where y: "KernelSchedulerYield ?s = (sw, s1)" by fastforce
  have "\<not> sw" "KernelMutexLock_resume s1 i"
    using assms(2-4) ne c y by (auto simp: KernelMutexLock_def holds_def split: if_splits)
  then have y': "KernelSchedulerYield ?s = (False, s1)" using y by simp
  have "current_id s1 = current_id s"
    using yield_stays(1)[OF y'] yield_stays(3)[OF y', of c] c sched_ok_lengths(1)[OF assms(1)]
    by (simp add: current_id_def g_Threads_upd_thread)
  then show False
    using \<open>KernelMutexLock_resume s1 i\<close> yield_stays(2)[OF y'] assms(2) ne
    by (simp add: KernelMutexLock_resume_def holds_def)
qed

lemma holds_find:
  assumes "sched_ok n s" "holds s mid i a"
  shows "FindMutex s mid = Some i"
  using assms ids_ok_find[of m_active m_id "g_Mutexes s" _ i]
  by (auto simp: sched_ok_def holds_def FindMutex_def)

text \<open>
  C4. Mutual exclusion: once the thread \<open>a\<close> owns the locked mutex \<open>mid\<close>, then along any
  run in which \<open>a\<close> does not unlock it, whatever the other threads do, \<open>a\<close> remains the
  owner, and a KernelMutexLock that returns true has been called by \<open>a\<close> itself.
\<close>

theorem mutex_excludes:
  assumes "sched_ok n s" "n + length xs \<le> 2 ^ 63"
    and "FindMutex s mid = Some i" "m_locked (g_Mutexes s ! i)" "m_owner_thread_id (g_Mutexes s ! i) = a"
    and "keeps_lock tr mid a s xs"
  shows "let s' = foldl (sched_exec tr) s xs in
    FindMutex s' mid = Some i \<and> m_locked (g_Mutexes s' ! i) \<and> m_owner_thread_id (g_Mutexes s' ! i) = a \<and>
    (fst (KernelMutexLock s' mid) = Returned True \<longrightarrow> current_id s' = a)"
proof -
  let ?s = "foldl (sched_exec tr) s xs"
  have "holds s mid i a"
    using found_indices(4)[OF assms(1,3)] sched_ok_lengths(3)[OF assms(1)] assms(4,5) by (simp add: holds_def)
  then have h: "holds ?s mid i a" using assms(6) by (rule holds_run)
  have ok: "sched_ok (n + length xs) ?s" by (rule sched_run_ok[OF assms(1,2)])
  have f: "FindMutex ?s mid = Some i" by (rule holds_find[OF ok h])
  then show ?thesis
    using h lock_of_held_mutex[OF ok h f] by (simp add: holds_def Let_def)
qed

text \<open>
  C26. Hand-over: when its owner unlocks a mutex, the blocked waiter of highest priority (the
  first in the table among equals) becomes ready and owns the still locked mutex, so its
  suspended KernelMutexLock returns true when it runs; without waiters the mutex is free.
  Nobody else can unlock it.
\<close>

theorem mutex_unlock_hands_over:
  assumes "sched_ok n s" "FindMutex s mid = Some i" "KernelMutexUnlock s mid = (r, s')"
  shows "(r \<longleftrightarrow> m_owner_thread_id (g_Mutexes s ! i) = current_id s) \<and> (\<not> r \<longrightarrow> s' = s) \<and>
    (r \<longrightarrow> (if \<exists>k < kMaxThreads. mutex_waiter s mid k then
       \<exists>k. best (mutex_waiter s mid) (\<lambda>k. t_priority (g_Threads s ! k)) [0 ..< kMaxThreads] k \<and>
           t_state (g_Threads s' ! k) = Ready \<and> m_locked (g_Mutexes s' ! i) = m_locked (g_Mutexes s ! i) \<and>
           m_owner_thread_id (g_Mutexes s' ! i) = t_id (g_Threads s' ! k)
     else \<not> m_locked (g_Mutexes s' ! i) \<and> g_Threads s' = g_Threads s))"
proof -
  obtain c where c: "g_CurrentThread s = Some c" by (rule current_index[OF assms(1)])
  have i: "i < length (g_Mutexes s)"
    using found_indices(4)[OF assms(1,2)] sched_ok_lengths(3)[OF assms(1)] by simp
  have len: "length (g_Threads s) = kMaxThreads" by (rule sched_ok_lengths(1)[OF assms(1)])
  show ?thesis
  proof (cases "pick (mutex_waiter s mid) (\<lambda>i. t_priority (g_Threads s ! i)) [0 ..< kMaxThreads]")
    case None
    then have "\<not> (\<exists>k < kMaxThreads. mutex_waiter s mid k)" by (auto simp: pick_None)
    then show ?thesis
      using None assms(2,3) c i by (auto simp: KernelMutexUnlock_def upd_mutex_def split: if_splits)
  next
    case (Some k)
    note k = pick_Some[OF Some]
    have "k < kMaxThreads" "mutex_waiter s mid k" using bestD(1,2)[OF k] by simp_all
    then show ?thesis
      using Some k assms(2,3) c i len
      by (auto simp: KernelMutexUnlock_def upd_mutex_def Let_def g_Threads_upd_thread split: if_splits
          intro!: exI[of _ k])
  qed
qed

definition demo_locked :: Sched where
  "demo_locked = snd (KernelMutexLock (snd (KernelMutexCreate demo_booted)) 1)"

lemma demo_locked_ok: "sched_ok 1 demo_locked"
  unfolding demo_locked_def
  using MutexCreate_ok[OF demo_booted_ok] by (intro MutexLock_ok) simp

lemma demo_locked_state:
  "g_Mutexes demo_locked ! 0 = \<lparr>m_id = 1, m_active = True, m_locked = True, m_owner_thread_id = 1\<rparr>"
  "FindMutex demo_locked 1 = Some 0" "current_id demo_locked = 1"
  by (simp_all add: demo_locked_def demo_booted_def demo_sched_def KernelSchedulerInit_def sched_log_def
      KernelMutexCreate_def KernelMutexLock_def FindMutex_def upd_mutex_def table_sizes zero_mutex_def
      current_id_def zero_thread_def eval_nat_numeral)

lemma mutex_excludes_witness:
  "let s' = foldl (sched_exec 0) demo_locked [OpYield, OpTimerTick] in
    FindMutex s' 1 = Some 0 \<and> m_locked (g_Mutexes s' ! 0)"
  using mutex_excludes[OF demo_locked_ok, of "[OpYield, OpTimerTick]" 1 0 1 0] demo_locked_state
  by (simp add: Let_def)

lemma mutex_unlock_hands_over_witness:
  "fst (KernelMutexUnlock demo_locked 1)"
  using mutex_unlock_hands_over[OF demo_locked_ok demo_locked_state(2) surjective_pairing] demo_locked_state
  by simp

subsection \<open>Futexes\<close>

text \<open>
  The contract of a wake: go through the waiters in the order they came, drop those that are
  no longer blocked, and stop when \<open>k\<close> of them have been woken. The result is the woken
  waiters and the ones still queued.
\<close>

fun wake_first :: "nat \<Rightarrow> (u64 \<Rightarrow> bool) \<Rightarrow> u64 list \<Rightarrow> u64 list \<times> u64 list" where
  "wake_first k blocked [] = ([], [])"
| "wake_first 0 blocked ws = ([], ws)"
| "wake_first (Suc k) blocked (w # ws) =
     (if blocked w then let (woken, rest) = wake_first k (blocked(w := False)) ws in (w # woken, rest)
      else wake_first (Suc k) blocked ws)"

lemma wake_first_0 [simp]: "wake_first 0 blocked ws = ([], ws)"
  by (cases ws) simp_all

lemma wake_first_sound:
  "wake_first k blocked ws = (woken, rest) \<Longrightarrow>
    length woken \<le> k \<and> distinct woken \<and> set woken \<subseteq> set ws \<inter> {w. blocked w} \<and> suffix rest ws"
proof (induction k blocked ws arbitrary: woken rule: wake_first.induct)
  case (3 k blocked w ws)
  then show ?case
    by (fastforce split: if_splits prod.splits simp: suffix_def)
qed (auto simp: suffix_def)

definition blocked_id :: "Sched \<Rightarrow> u64 \<Rightarrow> bool" where
  "blocked_id s tid \<longleftrightarrow> (\<exists>t. FindThread s tid = Some t \<and> t_state (g_Threads s ! t) = Blocked)"

definition waiters :: "FutexWaitQueue \<Rightarrow> u64 list" where
  "waiters q = take (unat (f_waiter_count q)) (f_waiting_threads q)"

definition make_ready :: "u64 list \<Rightarrow> Thread \<Rightarrow> Thread" where
  "make_ready ids t = (if t_state t = Blocked \<and> t_id t \<in> set ids then t\<lparr>t_state := Ready\<rparr> else t)"

lemma take_shift_down: "Suc w \<le> length xs \<Longrightarrow> take w (shift_down xs (Suc w)) = tl (take (Suc w) xs)"
  by (rule nth_equalityI) (auto simp: shift_down_def nth_tl)

lemma FindThread_live:
  assumes "sched_ok n s" "t < kMaxThreads" "live_thread (g_Threads s ! t)"
  shows "FindThread s (t_id (g_Threads s ! t)) = Some t"
proof -
  have "j = t" if "j < length (g_Threads s)" "live_thread (g_Threads s ! j)"
    "t_id (g_Threads s ! j) = t_id (g_Threads s ! t)" for j
    using assms that by (simp add: sched_ok_def ids_ok_def one_running_def)
  then show ?thesis
    using assms sched_ok_lengths(1)[OF assms(1)] unfolding FindThread_def by (intro find_index_unique) auto
qed

lemma blocked_id_iff:
  assumes "sched_ok n s" "t < kMaxThreads" "live_thread (g_Threads s ! t)"
  shows "blocked_id s (t_id (g_Threads s ! t)) \<longleftrightarrow> t_state (g_Threads s ! t) = Blocked"
  using FindThread_live[OF assms] by (simp add: blocked_id_def)

lemma blocked_id_ready:
  assumes "sched_ok n s" "t < kMaxThreads" "t_state (g_Threads s ! t) = Blocked"
  shows "blocked_id (upd_thread t (\<lambda>t. t\<lparr>t_state := Ready\<rparr>) s) = (blocked_id s)(t_id (g_Threads s ! t) := False)"
proof (rule ext)
  fix x
  let ?s = "upd_thread t (\<lambda>t. t\<lparr>t_state := Ready\<rparr>) s"
  have len: "length (g_Threads s) = kMaxThreads" by (rule sched_ok_lengths(1)[OF assms(1)])
  have same: "FindThread ?s x = FindThread s x"
    unfolding FindThread_def g_Threads_upd_thread using assms(2,3) len
    by (intro find_index_cong) (auto simp: nth_list_update)
  show "blocked_id ?s x = ((blocked_id s)(t_id (g_Threads s ! t) := False)) x"
  proof (cases "FindThread s x")
    case (Some j)
    have j: "j < kMaxThreads" "live_thread (g_Threads s ! j)" "t_id (g_Threads s ! j) = x"
      using found_indices(2)[OF assms(1) Some] by auto
    have "x = t_id (g_Threads s ! t) \<longleftrightarrow> j = t"
    proof
      assume "x = t_id (g_Threads s ! t)"
      then have "FindThread s x = Some t" using FindThread_live[OF assms(1,2)] assms(3) by simp
      then show "j = t" using Some by simp
    qed (use j(3) in simp)
    then show ?thesis
      using Some same len assms(2) by (auto simp: blocked_id_def g_Threads_upd_thread)
  qed (auto simp: blocked_id_def same)
qed

lemma make_ready_update:
  assumes "sched_ok n s" "t < kMaxThreads" "t_state (g_Threads s ! t) = Blocked"
  shows "map (make_ready ids) ((g_Threads s)[t := (g_Threads s ! t)\<lparr>t_state := Ready\<rparr>]) =
    map (make_ready (t_id (g_Threads s ! t) # ids)) (g_Threads s)"
proof (rule nth_equalityI)
  fix j
  assume "j < length (map (make_ready ids) ((g_Threads s)[t := (g_Threads s ! t)\<lparr>t_state := Ready\<rparr>]))"
  then have j: "j < kMaxThreads" "j < length (g_Threads s)" using sched_ok_lengths(1)[OF assms(1)] by simp_all
  have "j \<noteq> t \<Longrightarrow> t_state (g_Threads s ! j) = Blocked \<Longrightarrow> t_id (g_Threads s ! j) \<noteq> t_id (g_Threads s ! t)"
    using FindThread_live[OF assms(1) j(1)] FindThread_live[OF assms(1,2)] assms(3) by auto
  then show "map (make_ready ids) ((g_Threads s)[t := (g_Threads s ! t)\<lparr>t_state := Ready\<rparr>]) ! j =
      map (make_ready (t_id (g_Threads s ! t) # ids)) (g_Threads s) ! j"
    using j assms(3) by (cases "j = t") (auto simp: make_ready_def)
qed simp

lemma futex_wake_loop_refines:
  assumes "sched_ok n s" "i < kMaxFutexes" "w = unat (f_waiter_count (g_Futexes s ! i))" "woken \<le> limit"
    and "futex_wake_loop w i limit woken s = (woken', s')"
    and "wake_first (unat limit - unat woken) (blocked_id s) (waiters (g_Futexes s ! i)) = (ids, rest)"
  shows "unat woken' = unat woken + length ids \<and> waiters (g_Futexes s' ! i) = rest \<and>
    unat (f_waiter_count (g_Futexes s' ! i)) = length rest \<and> g_Threads s' = map (make_ready ids) (g_Threads s)"
  using assms
proof (induction w arbitrary: s woken ids)
  case 0
  have "map (make_ready []) ths = ths" for ths by (rule map_idI) (simp add: make_ready_def)
  then show ?case using "0.prems"(3,5,6) by (simp add: waiters_def)
next
  case (Suc w)
  have none: "map (make_ready []) ths = ths" for ths by (rule map_idI) (simp add: make_ready_def)
  define q where "q = g_Futexes s ! i"
  have q: "futex_ok q" using sched_ok_entries(2)[OF Suc.prems(1,2)] by (simp add: q_def)
  have len: "i < length (g_Futexes s)" using sched_ok_lengths(4)[OF Suc.prems(1)] Suc.prems(2) by simp
  have cnt: "unat (f_waiter_count q) = Suc w" "Suc w \<le> kMaxThreads" "length (f_waiting_threads q) = kMaxThreads"
    using Suc.prems(3) q by (auto simp: q_def futex_ok_def)
  have ws: "waiters q = f_waiting_threads q ! 0 # tl (take (Suc w) (f_waiting_threads q))"
    using cnt by (cases "f_waiting_threads q") (auto simp: waiters_def kMaxThreads_def)
  show ?case
  proof (cases "woken < limit")
    case False
    then have "woken = limit" using Suc.prems(4) by simp
    then show ?thesis
      using Suc.prems(5,6) False cnt[unfolded q_def] none by (auto simp: waiters_def)
  next
    case True
    define s1 where "s1 = upd_futex i (\<lambda>q. q\<lparr>f_waiting_threads := shift_down (f_waiting_threads q) (Suc w),
      f_waiter_count := f_waiter_count q - 1\<rparr>) s"
    define x where "x = f_waiting_threads q ! 0"
    have "f_waiter_count q \<noteq> 0" using cnt(1) by auto
    then have u: "unat (f_waiter_count q - 1) = w" using cnt(1) by (simp add: unat_minus_one)
    have q1: "g_Futexes s1 ! i = q\<lparr>f_waiting_threads := shift_down (f_waiting_threads q) (Suc w),
        f_waiter_count := f_waiter_count q - 1\<rparr>"
      using len by (simp add: s1_def upd_futex_def q_def)
    have ws1: "waiters (g_Futexes s1 ! i) = tl (take (Suc w) (f_waiting_threads q))"
      using cnt by (simp add: waiters_def q1 u take_shift_down)
    have ok1: "sched_ok n s1"
      unfolding s1_def using q u cnt
      by (intro sched_ok_futex[OF Suc.prems(1)]) (simp add: futex_ok_def shift_down_def q_def[symmetric])
    have ths1: "g_Threads s1 = g_Threads s" by (simp add: s1_def)
    have blk1: "blocked_id s1 = blocked_id s" by (auto simp: blocked_id_def FindThread_def ths1)
    have kS: "unat limit - unat woken = Suc (unat limit - unat (woken + 1))" "unat (woken + 1) = Suc (unat woken)"
      "woken + 1 \<le> limit"
      using True u32_lt[of limit] by (auto simp: word_less_nat_alt word_le_nat_alt unat_word_ariths)
    show ?thesis
    proof (cases "blocked_id s x")
      case False
      have "futex_wake_loop w i limit woken s1 = (woken', s')"
        using Suc.prems(5) True False
        by (auto simp: q_def[symmetric] x_def[symmetric] s1_def[symmetric] ths1 Let_def blocked_id_def
            split: option.splits if_splits)
      moreover have "wake_first (unat limit - unat woken) (blocked_id s1) (waiters (g_Futexes s1 ! i)) = (ids, rest)"
        using Suc.prems(6) False by (simp add: kS(1) blk1 ws1 ws q_def[symmetric] x_def[symmetric])
      ultimately show ?thesis
        using Suc.IH[OF ok1 Suc.prems(2) _ Suc.prems(4), of ids] u ths1 by (simp add: q1)
    next
      case blocked: True
      then obtain t where t: "FindThread s x = Some t" "t_state (g_Threads s ! t) = Blocked"
        by (auto simp: blocked_id_def)
      have tb: "t < kMaxThreads" "t_id (g_Threads s ! t) = x"
        using found_indices(2)[OF Suc.prems(1) t(1)] by auto
      define s2 where "s2 = upd_thread t (\<lambda>t. t\<lparr>t_state := Ready\<rparr>) s1"
      have ok2: "sched_ok n s2"
        unfolding s2_def using t(2) ths1 by (intro sched_ok_thread[OF ok1 tb(1)]) (simp add: quiet_def)
      have "blocked_id s2 = (blocked_id s)(x := False)"
        using blocked_id_ready[OF ok1 tb(1)] t(2) tb(2) ths1 blk1 by (simp add: s2_def)
      moreover have "futex_wake_loop w i limit (woken + 1) s2 = (woken', s')"
        using Suc.prems(5) True t ths1
        by (simp add: q_def[symmetric] x_def[symmetric] s1_def[symmetric] s2_def Let_def)
      moreover obtain ids1 where ids1: "ids = x # ids1"
        "wake_first (unat limit - unat (woken + 1)) ((blocked_id s)(x := False)) (waiters (g_Futexes s1 ! i)) = (ids1, rest)"
        using Suc.prems(6) blocked
        by (auto simp: kS(1) ws1 ws q_def[symmetric] x_def[symmetric] split: prod.splits)
      moreover have "g_Futexes s2 = g_Futexes s1" by (simp add: s2_def)
      ultimately have "unat woken' = unat (woken + 1) + length ids1 \<and> waiters (g_Futexes s' ! i) = rest \<and>
          unat (f_waiter_count (g_Futexes s' ! i)) = length rest \<and> g_Threads s' = map (make_ready ids1) (g_Threads s2)"
        using Suc.IH[OF ok2 Suc.prems(2) _ kS(3), of ids1] u by (simp add: q1 fun_upd_def)
      then show ?thesis
        using make_ready_update[OF Suc.prems(1) tb(1) t(2), of ids1] ids1(1) kS(2) tb(2)
        by (simp add: s2_def g_Threads_upd_thread ths1)
    qed
  qed
qed

text \<open>
  C6. KernelFutexWake wakes in arrival order: of the waiters queued on the address it makes
  ready the first \<open>limit\<close> that are still blocked, returns how many, changes no other
  thread, and leaves exactly the waiters after the last one examined in the queue.
\<close>

theorem futex_wake_in_order:
  assumes "sched_ok n s" "a \<noteq> 0" "limit \<noteq> 0"
    and "find_index (\<lambda>q. f_active q \<and> f_address q = a) (g_Futexes s) = Some i"
    and "KernelFutexWake s a limit = (woken, s')"
  shows "let (ids, rest) = wake_first (unat limit) (blocked_id s) (waiters (g_Futexes s ! i)) in
    unat woken = length ids \<and> length ids \<le> unat limit \<and>
    g_Threads s' = map (make_ready ids) (g_Threads s) \<and>
    waiters (g_Futexes s' ! i) = rest \<and> f_active (g_Futexes s' ! i) = (rest \<noteq> [])"
proof -
  have i: "i < kMaxFutexes" "i < length (g_Futexes s)" "f_active (g_Futexes s ! i)"
    using find_indexD[OF assms(4)] sched_ok_lengths(4)[OF assms(1)] by auto
  obtain ids rest where w: "wake_first (unat limit) (blocked_id s) (waiters (g_Futexes s ! i)) = (ids, rest)"
    by fastforce
  obtain k s1 where l: "futex_wake_loop (unat (f_waiter_count (g_Futexes s ! i))) i limit 0 s = (k, s1)" by fastforce
  have R: "unat k = length ids" "waiters (g_Futexes s1 ! i) = rest"
    "unat (f_waiter_count (g_Futexes s1 ! i)) = length rest" "g_Threads s1 = map (make_ready ids) (g_Threads s)"
    using futex_wake_loop_refines[OF assms(1) i(1) refl _ l, of ids rest] w by simp_all
  have len: "i < length (g_Futexes s1)"
    using futex_wake_loop_ok[OF assms(1) i(1) order_refl, of limit 0] l i(1) sched_ok_lengths(4)[of n s1] by simp
  have act: "f_active (g_Futexes s1 ! i) = f_active (g_Futexes s ! i)"
  proof -
    have "f_active (g_Futexes (snd (futex_wake_loop w i c k s)) ! i) = f_active (g_Futexes s ! i)" for w c k s
    proof (induction w i c k s rule: futex_wake_loop.induct)
      case (2 w i c k s)
      have "f_active (g_Futexes (upd_futex i (\<lambda>q. q\<lparr>f_waiting_threads := f q, f_waiter_count := g q\<rparr>) s) ! i) =
          f_active (g_Futexes s ! i)" for f g
        by (cases "i < length (g_Futexes s)") (simp_all add: upd_futex_def list_update_beyond)
      then show ?case using 2 by (auto simp: Let_def split: option.split)
    qed simp
    from this[of _ limit 0 s] l show ?thesis by (metis snd_conv)
  qed
  have "rest = [] \<longleftrightarrow> f_waiter_count (g_Futexes s1 ! i) = 0" using R(3) by (metis length_0_conv unat_eq_0)
  moreover have "woken = k" "s' = (if f_waiter_count (g_Futexes s1 ! i) = 0
      then upd_futex i (\<lambda>q. q\<lparr>f_active := False\<rparr>) s1 else s1)"
    using assms(2-5) l by (auto simp: KernelFutexWake_def)
  ultimately show ?thesis
    using R w act len i(3) wake_first_sound[OF w] by (auto simp: upd_futex_def waiters_def Let_def)
qed


lemma demo_booted_threads:
  "g_CurrentThread demo_booted = Some 0" "t_state (g_Threads demo_booted ! 0) = Running"
  "j < kMaxThreads \<Longrightarrow> \<not> runnable demo_booted j"
  by (auto simp: demo_booted_def demo_sched_def KernelSchedulerInit_def sched_log_def runnable_def
      zero_thread_def nth_list_update table_sizes nth_Cons')

lemma demo_booted_futex:
  "user_words demo_booted 0x9000 = 1" "futex_find demo_booted 0x9000 = Some 0"
  "g_Futexes demo_booted = replicate 8 zero_futex"
  by (simp_all add: demo_booted_def demo_sched_def KernelSchedulerInit_def sched_log_def futex_find_def
      futex_find_step_def zero_futex_def table_sizes Let_def eval_nat_numeral)


definition demo_queued :: Sched where
  "demo_queued = demo_booted\<lparr>g_Futexes := (g_Futexes demo_booted)
     [0 := \<lparr>f_address = 0x9000, f_waiting_threads = 1 # replicate 127 0, f_waiter_count = 1, f_active = True\<rparr>],
     g_Threads := (g_Threads demo_booted)[0 := (g_Threads demo_booted ! 0)\<lparr>t_state := Blocked\<rparr>]\<rparr>"

lemma demo_queued_ok: "sched_ok 0 demo_queued"
proof -
  have "sched_ok 0 (upd_futex 0 (\<lambda>_. \<lparr>f_address = 0x9000, f_waiting_threads = 1 # replicate 127 0,
      f_waiter_count = 1, f_active = True\<rparr>) demo_booted)"
    by (rule sched_ok_futex[OF demo_booted_ok]) (simp add: futex_ok_def table_sizes)
  then have "sched_ok 0 (upd_thread 0 (\<lambda>t. t\<lparr>t_state := Blocked\<rparr>) (upd_futex 0
      (\<lambda>_. \<lparr>f_address = 0x9000, f_waiting_threads = 1 # replicate 127 0,
        f_waiter_count = 1, f_active = True\<rparr>) demo_booted))"
    using demo_booted_threads(2) by (intro sched_ok_thread) (simp_all add: quiet_def table_sizes)
  then show ?thesis by (simp add: demo_queued_def upd_thread_def upd_futex_def)
qed

lemma futex_wake_in_order_witness:
  "unat (fst (KernelFutexWake demo_queued 0x9000 5)) = 1"
proof -
  have q: "find_index (\<lambda>q. f_active q \<and> f_address q = 0x9000) (g_Futexes demo_queued) = Some 0"
    "waiters (g_Futexes demo_queued ! 0) = [1]"
    by (simp_all add: demo_queued_def demo_booted_futex waiters_def eval_nat_numeral)
  have t: "g_Threads demo_queued ! 0 = (g_Threads demo_booted ! 0)\<lparr>t_state := Blocked\<rparr>"
    "t_id (g_Threads demo_booted ! 0) = 1"
    by (simp_all add: demo_queued_def demo_booted_def demo_sched_def KernelSchedulerInit_def sched_log_def table_sizes)
  have "blocked_id demo_queued 1"
    using blocked_id_iff[OF demo_queued_ok, of 0] t by (simp add: table_sizes)
  moreover have "unat (5 :: u32) = Suc 4" by simp
  ultimately have "wake_first (unat (5 :: u32)) (blocked_id demo_queued) [1] = ([1], [])"
    by (simp only: wake_first.simps if_True wake_first_0 Let_def prod.case)
  then show ?thesis
    using futex_wake_in_order[OF demo_queued_ok _ _ q(1) surjective_pairing, of 5] q(2) by simp
qed

subsection \<open>Event counters\<close>

lemma FindEventObject_upd:
  assumes "FindEventObject s fd = Some i" "e_type (f (g_EventObjects s ! i)) = e_type (g_EventObjects s ! i)"
    "e_fd (f (g_EventObjects s ! i)) = e_fd (g_EventObjects s ! i)"
  shows "FindEventObject (upd_event i f s) fd = Some i"
    and "g_EventObjects (upd_event i f s) ! i = f (g_EventObjects s ! i)"
proof -
  have "e_type (g_EventObjects s ! i) \<noteq> EmptyObject \<and> e_fd (g_EventObjects s ! i) = fd" "i < length (g_EventObjects s)"
    using assms(1) by (auto simp: FindEventObject_def dest: find_indexD)
  then show "FindEventObject (upd_event i f s) fd = Some i"
    "g_EventObjects (upd_event i f s) ! i = f (g_EventObjects s ! i)"
    using assms unfolding FindEventObject_def upd_event_def by (simp_all add: find_index_update_same)
qed

text \<open>The counter \<open>fd\<close> of the state, if it is an eventfd.\<close>

definition counter :: "Sched \<Rightarrow> u32 \<Rightarrow> nat option" where
  "counter s fd = (case FindEventObject s fd of None \<Rightarrow> None
     | Some i \<Rightarrow> if e_type (g_EventObjects s ! i) = Event then Some (unat (e_value (g_EventObjects s ! i))) else None)"

lemma counter_write:
  assumes "counter s fd = Some k"
  shows "KernelEventFdWrite s fd v = (r, s') \<Longrightarrow>
    (r \<longleftrightarrow> v \<noteq> - 1 \<and> k + unat v < 2 ^ 64) \<and> counter s' fd = Some (if r then k + unat v else k)"
proof -
  assume w: "KernelEventFdWrite s fd v = (r, s')"
  obtain i where i: "FindEventObject s fd = Some i" "e_type (g_EventObjects s ! i) = Event"
    "k = unat (e_value (g_EventObjects s ! i))"
    using assms by (auto simp: counter_def split: option.splits if_splits)
  let ?e = "g_EventObjects s ! i"
  have m: "unat (- 1 - e_value ?e) = 18446744073709551615 - k"
  proof -
    have "unat (- 1 :: u64) = 18446744073709551615" by (simp add: unsigned_minus_1_eq_mask mask_eq_exp_minus_1)
    then show ?thesis using i(3) by (simp add: unat_sub)
  qed
  have "- 1 - e_value ?e < v \<longleftrightarrow> \<not> k + unat v < 18446744073709551616"
    using m u64_lt[of "e_value ?e"] i(3) by (auto simp: word_less_nat_alt)
  moreover have "unat (e_value ?e + v) = k + unat v" if "k + unat v < 18446744073709551616"
    using that i(3) by (simp add: unat_word_ariths)
  ultimately show ?thesis
    using w i assms FindEventObject_upd[OF i(1), of "\<lambda>e. e\<lparr>e_value := e_value e + v\<rparr>"]
    by (auto simp: KernelEventFdWrite_def counter_def Let_def split: if_splits)
qed

lemma counter_writes:
  "counter s fd = Some k \<Longrightarrow> \<forall>v \<in> set vs. v \<noteq> - 1 \<Longrightarrow> k + sum_list (map unat vs) < 2 ^ 64 \<Longrightarrow>
    counter (foldl (\<lambda>s v. snd (KernelEventFdWrite s fd v)) s vs) fd = Some (k + sum_list (map unat vs))"
proof (induction vs arbitrary: s k)
  case (Cons v vs)
  obtain r s' where w: "KernelEventFdWrite s fd v = (r, s')" by fastforce
  have "r" "counter s' fd = Some (k + unat v)"
    using counter_write[OF Cons.prems(1) w] Cons.prems(2,3) by auto
  then show ?case using Cons.IH[of s' "k + unat v"] Cons.prems(2,3) w by (simp add: add.assoc)
qed simp

text \<open>
  An eventfd counts exactly: after any writes whose total stays below 2^64 (and none of
  which is 2^64 - 1), one read returns the counter plus the sum of the values written and
  the next read finds nothing; a write that would overflow is refused and changes nothing.
\<close>

lemma eventfd_sums_writes:
  assumes "FindEventObject s fd = Some i" "e_type (g_EventObjects s ! i) = Event"
    and "\<forall>v \<in> set vs. v \<noteq> - 1"
    and "0 < unat (e_value (g_EventObjects s ! i)) + sum_list (map unat vs)"
    and "unat (e_value (g_EventObjects s ! i)) + sum_list (map unat vs) < 2 ^ 64"
  shows "let s1 = foldl (\<lambda>s v. snd (KernelEventFdWrite s fd v)) s vs; (r, s2) = KernelEventFdRead s1 fd in
    map_option unat r = Some (unat (e_value (g_EventObjects s ! i)) + sum_list (map unat vs)) \<and>
    fst (KernelEventFdRead s2 fd) = None \<and>
    (\<forall>v. unat (e_value (g_EventObjects s ! i)) + sum_list (map unat vs) + unat v \<ge> 2 ^ 64 \<longrightarrow>
       KernelEventFdWrite s1 fd v = (False, s1))"
proof -
  let ?k = "unat (e_value (g_EventObjects s ! i)) + sum_list (map unat vs)"
  let ?s1 = "foldl (\<lambda>s v. snd (KernelEventFdWrite s fd v)) s vs"
  have "counter s fd = Some (unat (e_value (g_EventObjects s ! i)))" using assms(1,2) by (simp add: counter_def)
  from counter_writes[OF this assms(3,5)] have c: "counter ?s1 fd = Some ?k" .
  then obtain j where j: "FindEventObject ?s1 fd = Some j" "e_type (g_EventObjects ?s1 ! j) = Event"
    "unat (e_value (g_EventObjects ?s1 ! j)) = ?k"
    by (auto simp: counter_def split: option.splits if_splits)
  have nz: "e_value (g_EventObjects ?s1 ! j) \<noteq> 0" using j(3) assms(4) by (metis less_irrefl unat_0)
  let ?s2 = "upd_event j (\<lambda>e. e\<lparr>e_value := 0\<rparr>) ?s1"
  have r: "KernelEventFdRead ?s1 fd = (Some (e_value (g_EventObjects ?s1 ! j)), ?s2)"
    using j nz by (simp add: KernelEventFdRead_def Let_def)
  have "fst (KernelEventFdRead ?s2 fd) = None"
    using FindEventObject_upd[OF j(1), of "\<lambda>e. e\<lparr>e_value := 0\<rparr>"] by (simp add: KernelEventFdRead_def Let_def)
  moreover have "KernelEventFdWrite ?s1 fd v = (False, ?s1)" if "?k + unat v \<ge> 2 ^ 64" for v
  proof -
    obtain q s' where w: "KernelEventFdWrite ?s1 fd v = (q, s')" by fastforce
    have "\<not> q" using counter_write[OF c w] that by simp
    then show ?thesis using w by (auto simp: KernelEventFdWrite_def Let_def split: option.splits if_splits)
  qed
  ultimately show ?thesis using r j(3) by (simp add: Let_def)
qed

lemma eventfd_sums_writes_witness:
  "let s = snd (KernelEventFd demo_booted 2); s1 = foldl (\<lambda>s v. snd (KernelEventFdWrite s 32 v)) s [3, 4] in
   map_option unat (fst (KernelEventFdRead s1 32)) = Some 9"
proof -
  let ?s = "snd (KernelEventFd demo_booted 2)"
  have s: "FindEventObject ?s 32 = Some 0" "e_type (g_EventObjects ?s ! 0) = Event" "e_value (g_EventObjects ?s ! 0) = 2"
    by (simp_all add: demo_booted_def demo_sched_def KernelSchedulerInit_def sched_log_def KernelEventFd_def
        AllocateEventObject_def upd_event_def zero_event_def FindEventObject_def table_sizes eval_nat_numeral)
  show ?thesis
    using eventfd_sums_writes[OF s(1,2), of "[3, 4]"] s(3) by (simp add: Let_def case_prod_beta)
qed

end
