(* ===== verification/PageManagers.thy ===== *)
theory PageManagers
  imports PhysMem
begin

text \<open>
  \<^verbatim>\<open>kernel/src/kernel.cpp\<close>: the managers that hold physical pages: copy-on-write pages,
  shared memory segments and swap slots. (Slabs are in theory Slab, the page cache and the
  memory mappings in theory Mappings.)

  \<open>RAM\<close> is the physical memory: the page allocator and the bytes. Each manager is a
  table; \<open>cow_frames\<close> and so on are the pages its entries hold. What every operation keeps
  is ownership: the pages of the manager and of all the others (\<open>R\<close>) are held once each.
\<close>

subsection \<open>Memory\<close>

record RAM =
  pmm :: PhysicalMemoryManager
  bytes :: "u64 \<Rightarrow> u8"

definition ClearPage :: "u64 \<Rightarrow> (u64 \<Rightarrow> u8) \<Rightarrow> (u64 \<Rightarrow> u8)" where
  "ClearPage physical m = foldl (\<lambda>m i. m(physical + of_nat i := 0)) m [0 ..< 4096]"

definition CopyPage :: "u64 \<Rightarrow> u64 \<Rightarrow> (u64 \<Rightarrow> u8) \<Rightarrow> (u64 \<Rightarrow> u8)" where
  "CopyPage destination source m =
     foldl (\<lambda>m i. m(destination + of_nat i := m (source + of_nat i))) m [0 ..< 4096]"

definition alloc_page :: "RAM \<Rightarrow> u64 \<times> RAM" where
  "alloc_page r = (let (a, p) = AllocatePage (pmm r) in (a, r\<lparr>pmm := p\<rparr>))"

definition free_page :: "RAM \<Rightarrow> u64 \<Rightarrow> RAM" where
  "free_page r a = r\<lparr>pmm := FreePage (pmm r) a\<rparr>"

subsection \<open>Copy-on-write pages (CopyOnWriteManager)\<close>

definition kCowTrackedPages :: nat where "kCowTrackedPages = 128"

record CowPage =
  cp_physical :: u64
  cp_references :: u16
  cp_active :: bool

record CopyOnWriteManager =
  cow_attached :: bool
  cow_Pages :: "CowPage list"

definition Cow_Init :: "CopyOnWriteManager \<Rightarrow> CopyOnWriteManager" where
  "Cow_Init c = \<lparr>cow_attached = True,
     cow_Pages = replicate kCowTrackedPages \<lparr>cp_physical = 0, cp_references = 0, cp_active = False\<rparr>\<rparr>"

definition Cow_FindFreeSlot :: "CopyOnWriteManager \<Rightarrow> nat option" where
  "Cow_FindFreeSlot c = find_index (\<lambda>p. \<not> cp_active p) (cow_Pages c)"

definition Cow_FindPage :: "CopyOnWriteManager \<Rightarrow> u64 \<Rightarrow> nat option" where
  "Cow_FindPage c physical = find_index (\<lambda>p. cp_active p \<and> cp_physical p = physical) (cow_Pages c)"

definition upd_cow :: "nat \<Rightarrow> (CowPage \<Rightarrow> CowPage) \<Rightarrow> CopyOnWriteManager \<Rightarrow> CopyOnWriteManager" where
  "upd_cow i f c = c\<lparr>cow_Pages := (cow_Pages c)[i := f (cow_Pages c ! i)]\<rparr>"

definition Cow_AllocatePage :: "CopyOnWriteManager \<Rightarrow> RAM \<Rightarrow> u64 \<times> CopyOnWriteManager \<times> RAM" where
  "Cow_AllocatePage c r =
     (case Cow_FindFreeSlot c of None \<Rightarrow> (0, c, r)
      | Some slot \<Rightarrow>
          if \<not> cow_attached c then (0, c, r)
          else let (physical, r1) = alloc_page r in
            if physical = 0 then (0, c, r1)
            else (physical,
                  upd_cow slot (\<lambda>_. \<lparr>cp_physical = physical, cp_references = 1, cp_active = True\<rparr>) c,
                  r1\<lparr>bytes := ClearPage physical (bytes r1)\<rparr>))"

definition Cow_ClonePage :: "CopyOnWriteManager \<Rightarrow> u64 \<Rightarrow> bool \<times> CopyOnWriteManager" where
  "Cow_ClonePage c physical =
     (case Cow_FindPage c physical of None \<Rightarrow> (False, c)
      | Some i \<Rightarrow>
          if cp_references (cow_Pages c ! i) = - 1 then (False, c)
          else (True, upd_cow i (\<lambda>p. p\<lparr>cp_references := cp_references p + 1\<rparr>) c))"

definition Cow_ResolveWrite :: "CopyOnWriteManager \<Rightarrow> RAM \<Rightarrow> u64 \<Rightarrow> u64 \<times> CopyOnWriteManager \<times> RAM" where
  "Cow_ResolveWrite c r physical =
     (case Cow_FindPage c physical of None \<Rightarrow> (0, c, r)
      | Some i \<Rightarrow>
          if cp_references (cow_Pages c ! i) \<le> 1 then (physical, c, r)
          else (case Cow_FindFreeSlot c of None \<Rightarrow> (0, c, r)
          | Some k \<Rightarrow>
              if \<not> cow_attached c then (0, c, r)
              else let (new_physical, r1) = alloc_page r in
                if new_physical = 0 then (0, c, r1)
                else (new_physical,
                      upd_cow k (\<lambda>_. \<lparr>cp_physical = new_physical, cp_references = 1, cp_active = True\<rparr>)
                        (upd_cow i (\<lambda>p. p\<lparr>cp_references := cp_references p - 1\<rparr>) c),
                      r1\<lparr>bytes := CopyPage new_physical physical (bytes r1)\<rparr>)))"

definition Cow_ReleasePage :: "CopyOnWriteManager \<Rightarrow> RAM \<Rightarrow> u64 \<Rightarrow> CopyOnWriteManager \<times> RAM" where
  "Cow_ReleasePage c r physical =
     (case Cow_FindPage c physical of None \<Rightarrow> (c, r)
      | Some i \<Rightarrow>
          if cp_references (cow_Pages c ! i) = 0 then (c, r)
          else
            let c1 = upd_cow i (\<lambda>p. p\<lparr>cp_references := cp_references p - 1\<rparr>) c in
            if cp_references (cow_Pages c1 ! i) = 0
            then (upd_cow i (\<lambda>p. p\<lparr>cp_physical := 0, cp_active := False\<rparr>) c1,
                  free_page r (cp_physical (cow_Pages c1 ! i)))
            else (c1, r))"

definition Cow_ReferenceCount :: "CopyOnWriteManager \<Rightarrow> u64 \<Rightarrow> u16" where
  "Cow_ReferenceCount c physical =
     (case Cow_FindPage c physical of None \<Rightarrow> 0 | Some i \<Rightarrow> cp_references (cow_Pages c ! i))"

definition Cow_ActivePages :: "CopyOnWriteManager \<Rightarrow> nat" where
  "Cow_ActivePages c = count_if cp_active (cow_Pages c)"

subsection \<open>Shared memory segments (SharedMemoryManager)\<close>

definition kSharedSegmentCount :: nat where "kSharedSegmentCount = 8"
definition kSharedSegmentMaxPages :: nat where "kSharedSegmentMaxPages = 4"

record SharedSegment =
  ss_id :: u64
  ss_page_count :: u64
  ss_pages :: "u64 list"
  ss_references :: u16
  ss_active :: bool

record SharedMemoryManager =
  shm_attached :: bool
  shm_NextId :: u64
  shm_Segments :: "SharedSegment list"

definition no_segment :: SharedSegment where
  "no_segment = \<lparr>ss_id = 0, ss_page_count = 0, ss_pages = replicate kSharedSegmentMaxPages 0,
     ss_references = 0, ss_active = False\<rparr>"

definition Shared_Init :: "SharedMemoryManager \<Rightarrow> SharedMemoryManager" where
  "Shared_Init m = \<lparr>shm_attached = True, shm_NextId = 1,
     shm_Segments = replicate kSharedSegmentCount no_segment\<rparr>"

definition upd_segment :: "nat \<Rightarrow> (SharedSegment \<Rightarrow> SharedSegment) \<Rightarrow> SharedMemoryManager \<Rightarrow> SharedMemoryManager" where
  "upd_segment i f m = m\<lparr>shm_Segments := (shm_Segments m)[i := f (shm_Segments m ! i)]\<rparr>"

definition FindFreeSegment :: "SharedMemoryManager \<Rightarrow> nat option" where
  "FindFreeSegment m = find_index (\<lambda>g. \<not> ss_active g) (shm_Segments m)"

definition FindSegment :: "SharedMemoryManager \<Rightarrow> u64 \<Rightarrow> nat option" where
  "FindSegment m sid = find_index (\<lambda>g. ss_active g \<and> ss_id g = sid) (shm_Segments m)"

text \<open>Frees the pages the segment has so far, in order, and clears the entry.\<close>

definition DestroyPartial :: "SharedSegment \<Rightarrow> RAM \<Rightarrow> SharedSegment \<times> RAM" where
  "DestroyPartial g r =
     (let (pages, r1) = foldl (\<lambda>(pages, r) i.
            if pages ! i \<noteq> 0 then (pages[i := 0], free_page r (pages ! i)) else (pages, r))
          (ss_pages g, r) [0 ..< unat (ss_page_count g)]
      in (\<lparr>ss_id = 0, ss_page_count = 0, ss_pages = pages, ss_references = 0, ss_active = False\<rparr>, r1))"

text \<open>The loop of \<open>Create\<close>: the pages from \<open>i\<close> on; false when one cannot be allocated.\<close>

fun create_pages :: "nat list \<Rightarrow> SharedSegment \<Rightarrow> RAM \<Rightarrow> bool \<times> SharedSegment \<times> RAM" where
  "create_pages [] g r = (True, g, r)"
| "create_pages (i # is) g r =
     (let (a, r1) = alloc_page r; g1 = g\<lparr>ss_pages := (ss_pages g)[i := a]\<rparr> in
      if a = 0 then (let (g2, r2) = DestroyPartial g1 r1 in (False, g2, r2))
      else create_pages is g1 (r1\<lparr>bytes := ClearPage a (bytes r1)\<rparr>))"

definition Shared_Create :: "SharedMemoryManager \<Rightarrow> RAM \<Rightarrow> u64 \<Rightarrow> u64 \<times> SharedMemoryManager \<times> RAM" where
  "Shared_Create m r page_count =
     (if \<not> shm_attached m \<or> page_count = 0 \<or> page_count > of_nat kSharedSegmentMaxPages then (0, m, r)
      else case FindFreeSegment m of None \<Rightarrow> (0, m, r)
      | Some i \<Rightarrow>
          let g = (shm_Segments m ! i)\<lparr>ss_id := shm_NextId m, ss_page_count := page_count,
                    ss_references := 1, ss_active := True\<rparr>;
              (ok, g1, r1) = create_pages [0 ..< unat page_count] g r
          in (if ok then ss_id g1 else 0,
              upd_segment i (\<lambda>_. g1) (m\<lparr>shm_NextId := shm_NextId m + 1\<rparr>), r1))"

definition Shared_Attach :: "SharedMemoryManager \<Rightarrow> u64 \<Rightarrow> bool \<times> SharedMemoryManager" where
  "Shared_Attach m sid =
     (case FindSegment m sid of None \<Rightarrow> (False, m)
      | Some i \<Rightarrow>
          if ss_references (shm_Segments m ! i) = - 1 then (False, m)
          else (True, upd_segment i (\<lambda>g. g\<lparr>ss_references := ss_references g + 1\<rparr>) m))"

definition Shared_Release :: "SharedMemoryManager \<Rightarrow> RAM \<Rightarrow> u64 \<Rightarrow> SharedMemoryManager \<times> RAM" where
  "Shared_Release m r sid =
     (case FindSegment m sid of None \<Rightarrow> (m, r)
      | Some i \<Rightarrow>
          let g = shm_Segments m ! i in
          if ss_references g = 0 then (m, r)
          else
            let g1 = g\<lparr>ss_references := ss_references g - 1\<rparr> in
            if ss_references g1 = 0
            then let (g2, r1) = DestroyPartial g1 r in (upd_segment i (\<lambda>_. g2) m, r1)
            else (upd_segment i (\<lambda>_. g1) m, r))"

definition Shared_Page :: "SharedMemoryManager \<Rightarrow> u64 \<Rightarrow> u64 \<Rightarrow> u64" where
  "Shared_Page m sid index =
     (case FindSegment m sid of None \<Rightarrow> 0
      | Some i \<Rightarrow> if index \<ge> ss_page_count (shm_Segments m ! i) then 0
                  else ss_pages (shm_Segments m ! i) ! unat index)"

definition Shared_ReferenceCount :: "SharedMemoryManager \<Rightarrow> u64 \<Rightarrow> u16" where
  "Shared_ReferenceCount m sid =
     (case FindSegment m sid of None \<Rightarrow> 0 | Some i \<Rightarrow> ss_references (shm_Segments m ! i))"

definition Shared_ActiveSegments :: "SharedMemoryManager \<Rightarrow> nat" where
  "Shared_ActiveSegments m = count_if ss_active (shm_Segments m)"

subsection \<open>Swap (SwapManager)\<close>

definition kSwapSlotCount :: nat where "kSwapSlotCount = 16"

record SwapSlot =
  sl_backing :: u64
  sl_used :: bool

record SwapManager =
  swap_attached :: bool
  swap_Slots :: "SwapSlot list"

definition Swap_Init :: "SwapManager \<Rightarrow> SwapManager" where
  "Swap_Init w = \<lparr>swap_attached = True,
     swap_Slots = replicate kSwapSlotCount \<lparr>sl_backing = 0, sl_used = False\<rparr>\<rparr>"

text \<open>The slot number; \<open>None\<close> is the -1 of the code.\<close>

definition SwapOut :: "SwapManager \<Rightarrow> RAM \<Rightarrow> u64 \<Rightarrow> nat option \<times> SwapManager \<times> RAM" where
  "SwapOut w r physical =
     (if \<not> swap_attached w \<or> physical = 0 then (None, w, r)
      else case find_index (\<lambda>s. \<not> sl_used s) (swap_Slots w) of None \<Rightarrow> (None, w, r)
      | Some i \<Rightarrow>
          let (backing, r1) = alloc_page r in
          if backing = 0 then (None, w, r1)
          else (Some i, w\<lparr>swap_Slots := (swap_Slots w)[i := \<lparr>sl_backing = backing, sl_used = True\<rparr>]\<rparr>,
                r1\<lparr>bytes := CopyPage backing physical (bytes r1)\<rparr>))"

definition SwapIn :: "SwapManager \<Rightarrow> RAM \<Rightarrow> u32 \<Rightarrow> u64 \<Rightarrow> bool \<times> SwapManager \<times> RAM" where
  "SwapIn w r slot destination =
     (let i = unat slot in
      if \<not> swap_attached w \<or> i \<ge> kSwapSlotCount \<or> \<not> sl_used (swap_Slots w ! i) \<or> destination = 0
      then (False, w, r)
      else
        let backing = sl_backing (swap_Slots w ! i) in
        (True, w\<lparr>swap_Slots := (swap_Slots w)[i := \<lparr>sl_backing = 0, sl_used = False\<rparr>]\<rparr>,
         free_page (r\<lparr>bytes := CopyPage destination backing (bytes r)\<rparr>) backing))"

subsection \<open>Holding pages\<close>

definition holds_pages :: "RAM \<Rightarrow> u64 multiset \<Rightarrow> bool" where
  "holds_pages r M \<longleftrightarrow> pmm_ok (pmm r) \<and> (\<forall>a \<in># M. page_frame a \<and> frame_used (pmm r) a) \<and> (\<forall>a. count M a \<le> 1)"

lemma holds_pages_owns: "holds_pages r M \<longleftrightarrow> pages.owns (pmm r) M"
  by (simp add: holds_pages_def pages.owns_def)

lemma holds_bytes [simp]: "holds_pages (r\<lparr>bytes := m\<rparr>) M = holds_pages r M"
  by (simp add: holds_pages_def)

lemma alloc_page_bytes [simp]: "alloc_page r = (a, r1) \<Longrightarrow> bytes r1 = bytes r"
  by (auto simp: alloc_page_def split: prod.splits)

lemma free_page_bytes [simp]: "bytes (free_page r a) = bytes r"
  by (simp add: free_page_def)

lemma holds_alloc:
  assumes "holds_pages r M" "alloc_page r = (a, r1)" "a \<noteq> 0"
  shows "holds_pages r1 (add_mset a M)" "a \<notin># M" "page_frame a"
  using assms pages.owns_alloc[of "pmm r" M a "pmm r1"]
  by (auto simp: holds_pages_owns alloc_page_def split: prod.splits)

lemma holds_alloc_fails: "holds_pages r M \<Longrightarrow> alloc_page r = (0, r1) \<Longrightarrow> r1 = r"
  using pages.owns_alloc_fails[of "pmm r" M "pmm r1"]
  by (auto simp: holds_pages_owns alloc_page_def split: prod.splits)

lemma holds_free: "holds_pages r (add_mset a M) \<Longrightarrow> holds_pages (free_page r a) M"
  using pages.owns_release[of "pmm r" a M] by (simp add: holds_pages_owns free_page_def)

lemma holds_distinct: "holds_pages r (A + B) \<Longrightarrow> a \<in># A \<Longrightarrow> a \<notin># B"
  using pages.owns_distinct by (auto simp: holds_pages_owns)

lemma holds_frame: "holds_pages r M \<Longrightarrow> a \<in># M \<Longrightarrow> page_frame a"
  by (simp add: holds_pages_def)

lemma holds_once: "holds_pages r M \<Longrightarrow> \<not> 2 \<le> count M a"
  by (metis Suc_1 holds_pages_def not_less_eq_eq)

subsection \<open>Page contents\<close>

definition in_page :: "u64 \<Rightarrow> u64 \<Rightarrow> bool" where
  "in_page p a \<longleftrightarrow> (\<exists>i < 4096. a = p + of_nat i)"

lemma unat_in_page:
  assumes "page_frame p" "i < 4096"
  shows "unat (p + of_nat i) = unat p + i"
  using assms by (simp add: page_frame_def unat_word_ariths unat_of_nat_u64)

lemma in_page_unique:
  assumes "page_frame p" "page_frame q" "i < 4096" "j < 4096" "p + of_nat i = q + of_nat j"
  shows "p = q \<and> i = j"
proof -
  have e: "unat p + i = unat q + j"
    using assms(5) unat_in_page[OF assms(1,3)] unat_in_page[OF assms(2,4)] by metis
  obtain k l where k: "unat p = 4096 * k" "unat q = 4096 * l"
    using assms(1,2) by (auto simp: page_frame_def dvd_def)
  have "(4096 * k + i) div 4096 = (4096 * l + j) div 4096" using e k by simp
  then have "k = l" using assms(3,4) by simp
  then show ?thesis using e k by (auto simp: word_unat_eq_iff)
qed

lemma in_page_disjoint: "page_frame p \<Longrightarrow> page_frame q \<Longrightarrow> in_page p a \<Longrightarrow> in_page q a \<Longrightarrow> p = q"
  unfolding in_page_def using in_page_unique by blast

lemma ClearPage_at: "ClearPage p m a = (if in_page p a then 0 else m a)"
proof -
  have "foldl (\<lambda>m i. m(p + of_nat i := 0)) m [0 ..< n] a = (if \<exists>i < n. a = p + of_nat i then 0 else m a)" for n
    by (induction n) (auto simp: less_Suc_eq)
  then show ?thesis by (simp add: ClearPage_def in_page_def)
qed

lemma CopyPage_at:
  assumes "page_frame d" "page_frame s" "d \<noteq> s"
  shows "CopyPage d s m a = (if in_page d a then m (s + (a - d)) else m a)"
proof -
  have src: "d + of_nat i \<noteq> s + of_nat j" if "i < 4096" "j < 4096" for i j
    using in_page_unique[OF assms(1,2) that] assms(3) by blast
  have "n \<le> 4096 \<Longrightarrow> foldl (\<lambda>m i. m(d + of_nat i := m (s + of_nat i))) m [0 ..< n] a =
      (if \<exists>i < n. a = d + of_nat i then m (s + (a - d)) else m a)" for n
  proof (induction n arbitrary: a)
    case (Suc n)
    have "\<not> (\<exists>i < n. s + of_nat n = d + of_nat i)" using src[of _ n] Suc.prems by (metis Suc_le_lessD less_trans)
    then show ?case using Suc by (auto simp: less_Suc_eq)
  qed simp
  then show ?thesis by (simp add: CopyPage_def in_page_def)
qed

lemma in_page_offset [simp]: "i < 4096 \<Longrightarrow> in_page p (p + of_nat i)"
  by (auto simp: in_page_def)

subsection \<open>Copy-on-write\<close>

definition cow_entry :: "CowPage \<Rightarrow> u64 multiset" where
  "cow_entry p = (if cp_active p then {#cp_physical p#} else {#})"

definition cow_frames :: "CopyOnWriteManager \<Rightarrow> u64 multiset" where
  "cow_frames c = table_frames cow_entry (cow_Pages c)"

definition cow_ok :: "CopyOnWriteManager \<Rightarrow> bool" where
  "cow_ok c \<longleftrightarrow> length (cow_Pages c) = kCowTrackedPages \<and>
     (\<forall>p \<in> set (cow_Pages c). cp_active p \<longrightarrow> cp_references p \<noteq> 0)"

lemma Cow_Init_ok: "cow_ok (Cow_Init c)" "cow_frames (Cow_Init c) = {#}"
  by (auto simp: cow_ok_def Cow_Init_def cow_frames_def cow_entry_def intro!: table_frames_empty)

lemma Cow_FindPageD:
  assumes "Cow_FindPage c p = Some i"
  shows "i < length (cow_Pages c)" "cp_active (cow_Pages c ! i)" "cp_physical (cow_Pages c ! i) = p"
  using assms by (auto simp: Cow_FindPage_def dest: find_indexD)

lemma Cow_FindFreeSlotD:
  assumes "Cow_FindFreeSlot c = Some i"
  shows "i < length (cow_Pages c)" "\<not> cp_active (cow_Pages c ! i)"
  using assms by (auto simp: Cow_FindFreeSlot_def dest: find_indexD)

lemma cow_ok_upd:
  "cow_ok c \<Longrightarrow> (cp_active (f (cow_Pages c ! i)) \<Longrightarrow> cp_references (f (cow_Pages c ! i)) \<noteq> 0) \<Longrightarrow> cow_ok (upd_cow i f c)"
  by (auto simp: cow_ok_def upd_cow_def dest!: set_update_subset_insert[THEN subsetD])

lemma upd_cow_nth:
  "i < length (cow_Pages c) \<Longrightarrow> cow_Pages (upd_cow i f c) ! j = (if j = i then f (cow_Pages c ! i) else cow_Pages c ! j)"
  "length (cow_Pages (upd_cow i f c)) = length (cow_Pages c)"
  "cow_attached (upd_cow i f c) = cow_attached c"
  by (auto simp: upd_cow_def)

text \<open>A held table never has a page in two entries, so the lookup by page is exact.\<close>

lemma Cow_FindPage_unique:
  assumes "holds_pages r (cow_frames c + R)" "i < length (cow_Pages c)" "cp_active (cow_Pages c ! i)"
  shows "Cow_FindPage c (cp_physical (cow_Pages c ! i)) = Some i"
  unfolding Cow_FindPage_def
proof (rule find_index_unique)
  fix j
  assume j: "j < length (cow_Pages c)" "cp_active (cow_Pages c ! j) \<and> cp_physical (cow_Pages c ! j) = cp_physical (cow_Pages c ! i)"
  show "j = i"
  proof (rule ccontr)
    assume "j \<noteq> i"
    then have "2 \<le> count (cow_frames c) (cp_physical (cow_Pages c ! i))"
      unfolding cow_frames_def using j assms(2,3)
      by (intro table_frames_disjoint[of j _ i]) (auto simp: cow_entry_def)
    then show False using holds_once[OF assms(1), of "cp_physical (cow_Pages c ! i)"] by simp
  qed
qed (use assms in auto)

lemma Cow_FindPage_mem: "Cow_FindPage c p = Some i \<Longrightarrow> p \<in># cow_frames c"
  using Cow_FindPageD[of c p i] unfolding cow_frames_def
  by (intro table_frames_mem[of i]) (auto simp: cow_entry_def)

lemma Cow_AllocatePage_holds:
  assumes "holds_pages r (cow_frames c + R)" "cow_ok c" "Cow_AllocatePage c r = (a, c', r')"
  shows "holds_pages r' (cow_frames c' + R) \<and> cow_ok c'"
proof (cases "Cow_FindFreeSlot c = None \<or> \<not> cow_attached c \<or> fst (alloc_page r) = 0")
  case True
  then show ?thesis
    using assms holds_alloc_fails[OF assms(1)]
    by (auto simp: Cow_AllocatePage_def split: option.splits prod.splits if_splits)
next
  case False
  then obtain k r1 where k: "Cow_FindFreeSlot c = Some k" and al: "alloc_page r = (a, r1)" "a \<noteq> 0"
    and res: "c' = upd_cow k (\<lambda>_. \<lparr>cp_physical = a, cp_references = 1, cp_active = True\<rparr>) c"
      "r' = r1\<lparr>bytes := ClearPage a (bytes r1)\<rparr>"
    using assms(3) by (auto simp: Cow_AllocatePage_def split: option.splits prod.splits if_splits)
  note slot = Cow_FindFreeSlotD[OF k]
  have "cow_frames c' = add_mset a (cow_frames c)"
    unfolding cow_frames_def res upd_cow_def using slot
    by (simp add: table_frames_add cow_entry_def)
  moreover have "cow_ok c'" unfolding res by (rule cow_ok_upd[OF assms(2)]) simp
  ultimately show ?thesis using holds_alloc(1)[OF assms(1) al] res(2) by simp
qed

lemma Cow_ClonePage_frames:
  assumes "Cow_ClonePage c p = (b, c')" "cow_ok c"
  shows "cow_frames c' = cow_frames c \<and> cow_ok c'"
proof (cases b)
  case True
  then obtain i where i: "Cow_FindPage c p = Some i" "cp_references (cow_Pages c ! i) \<noteq> - 1"
    "c' = upd_cow i (\<lambda>p. p\<lparr>cp_references := cp_references p + 1\<rparr>) c"
    using assms(1) by (auto simp: Cow_ClonePage_def split: option.splits if_splits)
  have "cp_references (cow_Pages c ! i) + 1 \<noteq> 0"
    using i(2) by (metis add.commute add_eq_0_iff)
  then show ?thesis
    using Cow_FindPageD[OF i(1)] assms(2) unfolding i(3)
    by (auto simp: cow_frames_def upd_cow_def cow_entry_def table_frames_same intro: cow_ok_upd[unfolded upd_cow_def])
qed (use assms in \<open>auto simp: Cow_ClonePage_def split: option.splits if_splits\<close>)

lemma Cow_ReleasePage_holds:
  assumes "holds_pages r (cow_frames c + R)" "cow_ok c" "Cow_ReleasePage c r p = (c', r')"
  shows "holds_pages r' (cow_frames c' + R) \<and> cow_ok c'"
proof (cases "Cow_FindPage c p")
  case (Some i)
  note i = Cow_FindPageD[OF Some]
  have nz: "cp_references (cow_Pages c ! i) \<noteq> 0" using assms(2) i by (auto simp: cow_ok_def)
  let ?c1 = "upd_cow i (\<lambda>p. p\<lparr>cp_references := cp_references p - 1\<rparr>) c"
  show ?thesis
  proof (cases "cp_references (cow_Pages c ! i) = 1")
    case True
    then have res: "c' = upd_cow i (\<lambda>p. p\<lparr>cp_physical := 0, cp_active := False\<rparr>) ?c1" "r' = free_page r p"
      using assms(3) Some nz i by (auto simp: Cow_ReleasePage_def Let_def upd_cow_nth)
    have "cow_frames c = add_mset p (cow_frames c')"
      using table_frames_remove[of i "cow_Pages c" cow_entry "cow_Pages c' ! i"] i
      by (simp add: cow_frames_def res upd_cow_def cow_entry_def)
    then have "holds_pages r' (cow_frames c' + R)" using assms(1) holds_free res(2) by simp
    moreover have "cow_ok c'"
      using assms(2) unfolding res upd_cow_def
      by (auto simp: cow_ok_def dest!: set_update_subset_insert[THEN subsetD])
    ultimately show ?thesis by simp
  next
    case False
    then have "cp_references (cow_Pages c ! i) - 1 \<noteq> 0" by simp
    then have res: "c' = ?c1" "r' = r"
      using assms(3) Some nz i by (auto simp: Cow_ReleasePage_def Let_def upd_cow_nth)
    have "cow_frames c' = cow_frames c"
      using i by (simp add: res cow_frames_def upd_cow_def table_frames_same cow_entry_def)
    then show ?thesis
      using assms(1,2) res False by (auto intro!: cow_ok_upd)
  qed
qed (use assms in \<open>simp add: Cow_ReleasePage_def\<close>)

lemma Cow_ResolveWrite_cases:
  assumes "Cow_ResolveWrite c r p = (q, c', r')" "holds_pages r M"
  obtains (same) "c' = c" "r' = r" "q = 0 \<or> q = p \<and> Cow_ReferenceCount c p \<le> 1"
    | (copy) i k r1 where "Cow_FindPage c p = Some i" "1 < cp_references (cow_Pages c ! i)"
        "Cow_FindFreeSlot c = Some k" "alloc_page r = (q, r1)" "q \<noteq> 0"
        "c' = upd_cow k (\<lambda>_. \<lparr>cp_physical = q, cp_references = 1, cp_active = True\<rparr>)
                (upd_cow i (\<lambda>p. p\<lparr>cp_references := cp_references p - 1\<rparr>) c)"
        "r' = r1\<lparr>bytes := CopyPage q p (bytes r)\<rparr>"
proof (cases "Cow_FindPage c p")
  case None
  then show ?thesis using assms(1) by (intro same) (simp_all add: Cow_ResolveWrite_def)
next
  case (Some i)
  obtain a r1 where al: "alloc_page r = (a, r1)" by fastforce
  have r1: "a = 0 \<Longrightarrow> r1 = r" using holds_alloc_fails[OF assms(2)] al by simp
  show ?thesis
  proof (cases "cp_references (cow_Pages c ! i) \<le> 1 \<or> Cow_FindFreeSlot c = None \<or> \<not> cow_attached c \<or> a = 0")
    case True
    then have "c' = c \<and> r' = r \<and> (q = 0 \<or> q = p \<and> Cow_ReferenceCount c p \<le> 1)"
      using assms(1) Some al r1
      by (auto simp: Cow_ResolveWrite_def Cow_ReferenceCount_def split: if_splits option.splits)
    then show ?thesis using same by blast
  next
    case False
    then obtain k where k: "Cow_FindFreeSlot c = Some k" by auto
    then have "q = a" "c' = upd_cow k (\<lambda>_. \<lparr>cp_physical = a, cp_references = 1, cp_active = True\<rparr>)
                (upd_cow i (\<lambda>p. p\<lparr>cp_references := cp_references p - 1\<rparr>) c)"
        "r' = r1\<lparr>bytes := CopyPage a p (bytes r)\<rparr>"
      using False assms(1) Some al alloc_page_bytes[OF al] by (auto simp: Cow_ResolveWrite_def Let_def)
    then show ?thesis using False Some k al by (intro copy[of i k r1]) auto
  qed
qed

lemma cow_copy_frames:
  assumes "Cow_FindPage c p = Some i" "Cow_FindFreeSlot c = Some k"
  shows "cow_frames (upd_cow k (\<lambda>_. \<lparr>cp_physical = q, cp_references = 1, cp_active = True\<rparr>)
      (upd_cow i (\<lambda>p. p\<lparr>cp_references := cp_references p - 1\<rparr>) c)) = add_mset q (cow_frames c)"
proof -
  note i = Cow_FindPageD[OF assms(1)] and k = Cow_FindFreeSlotD[OF assms(2)]
  have ik: "i \<noteq> k" using i(2) k(2) by auto
  have "cow_frames (upd_cow i (\<lambda>p. p\<lparr>cp_references := cp_references p - 1\<rparr>) c) = cow_frames c"
    unfolding cow_frames_def upd_cow_def using i by (simp add: table_frames_same cow_entry_def)
  then show ?thesis
    using k ik unfolding cow_frames_def upd_cow_def
    by (simp add: table_frames_add[where f = cow_entry] cow_entry_def)
qed

lemma Cow_ResolveWrite_holds:
  assumes "holds_pages r (cow_frames c + R)" "cow_ok c" "Cow_ResolveWrite c r p = (q, c', r')"
  shows "holds_pages r' (cow_frames c' + R) \<and> cow_ok c'"
proof (cases rule: Cow_ResolveWrite_cases[OF assms(3,1), case_names same copy])
  case same
  then show ?thesis using assms by simp
next
  case (copy i k r1)
  note i = Cow_FindPageD[OF copy(1)]
  have "cow_frames c' = add_mset q (cow_frames c)" unfolding copy(6) by (rule cow_copy_frames[OF copy(1,3)])
  moreover have "cp_references (cow_Pages c ! i) - 1 \<noteq> 0" using copy(2) by auto
  then have "cow_ok c'" unfolding copy(6) using assms(2) by (intro cow_ok_upd) simp_all
  ultimately show ?thesis
    using holds_alloc(1)[OF assms(1) copy(4,5)] copy(7) by simp
qed

text \<open>
  C5. Copy on write: writing to a page with several references yields a fresh private page
  with the same contents, which nobody else holds; the original keeps its contents and all
  other memory is untouched, its count drops by one and the new page has count one, and all
  pages are still held once.
\<close>

theorem cow_write_gets_private_copy:
  assumes "holds_pages r (cow_frames c + R)" "cow_ok c"
    and "1 < Cow_ReferenceCount c p" "Cow_ResolveWrite c r p = (q, c', r')" "q \<noteq> 0"
  shows "q \<noteq> p \<and> q \<notin># cow_frames c + R \<and>
    (\<forall>k < 4096. bytes r' (q + of_nat k) = bytes r (p + of_nat k)) \<and>
    (\<forall>a. \<not> in_page q a \<longrightarrow> bytes r' a = bytes r a) \<and>
    Cow_ReferenceCount c' q = 1 \<and> Cow_ReferenceCount c' p = Cow_ReferenceCount c p - 1 \<and>
    cow_frames c' = add_mset q (cow_frames c) \<and> holds_pages r' (cow_frames c' + R)"
proof (cases rule: Cow_ResolveWrite_cases[OF assms(4,1), case_names same copy])
  case same
  then have "Cow_ReferenceCount c p \<le> 1" using assms(5) by blast
  then show ?thesis using assms(3) leD by blast
next
  case (copy i k r1)
  note i = Cow_FindPageD[OF copy(1)] and k = Cow_FindFreeSlotD[OF copy(3)]
  have ik: "i \<noteq> k" using i(2) k(2) by auto
  have fr: "cow_frames c' = add_mset q (cow_frames c)" unfolding copy(6) by (rule cow_copy_frames[OF copy(1,3)])
  have new: "q \<notin># cow_frames c + R" "page_frame q" using holds_alloc(2,3)[OF assms(1) copy(4,5)] by simp_all
  have p: "p \<in># cow_frames c" by (rule Cow_FindPage_mem[OF copy(1)])
  have pf: "page_frame p" using holds_frame[OF assms(1)] p by simp
  have pq: "p \<noteq> q" using new p by auto
  have hold: "holds_pages r' (cow_frames c' + R)"
    using Cow_ResolveWrite_holds[OF assms(1,2,4)] by simp
  have at: "bytes r' a = (if in_page q a then bytes r (p + (a - q)) else bytes r a)" for a
    using CopyPage_at[OF new(2) pf pq[symmetric]] copy(7) by simp
  have ent: "cow_Pages c' ! k = \<lparr>cp_physical = q, cp_references = 1, cp_active = True\<rparr>"
    "cow_Pages c' ! i = (cow_Pages c ! i)\<lparr>cp_references := cp_references (cow_Pages c ! i) - 1\<rparr>"
    "length (cow_Pages c') = length (cow_Pages c)"
    using i k ik by (simp_all add: copy(6) upd_cow_nth)
  have "Cow_FindPage c' q = Some k" "Cow_FindPage c' p = Some i"
    using Cow_FindPage_unique[OF hold, of k] Cow_FindPage_unique[OF hold, of i] ent i k by simp_all
  then have "Cow_ReferenceCount c' q = 1" "Cow_ReferenceCount c' p = Cow_ReferenceCount c p - 1"
    using ent copy(1) by (simp_all add: Cow_ReferenceCount_def)
  then show ?thesis using new pq at fr hold by simp
qed

definition demo_ram :: RAM where
  "demo_ram = \<lparr>pmm = all_free_pmm, bytes = (\<lambda>_. 7)\<rparr>"

definition demo_cow :: CopyOnWriteManager where
  "demo_cow = Cow_Init \<lparr>cow_attached = False, cow_Pages = []\<rparr>"

lemma demo_ram_holds: "holds_pages demo_ram {#}"
  by (simp add: holds_pages_def demo_ram_def all_free_pmm_ok)

lemma alloc_page_succeeds:
  "pmm_ok (pmm r) \<Longrightarrow> page_frame p \<Longrightarrow> \<not> frame_used (pmm r) p \<Longrightarrow> fst (alloc_page r) \<noteq> 0"
  using pages.alloc_progress[of "pmm r" p] by (simp add: alloc_page_def case_prod_beta)

lemma demo_ram_alloc: "fst (alloc_page demo_ram) \<noteq> 0"
proof -
  have "page_frame 0x2000" by (simp add: page_frame_def)
  moreover have "\<not> frame_used (pmm demo_ram) 0x2000"
    by (simp add: frame_used_def demo_ram_def all_free_pmm_page kManagedPageCount_def)
  ultimately show ?thesis
    using alloc_page_succeeds[of demo_ram "0x2000"] all_free_pmm_ok by (simp add: demo_ram_def)
qed

lemma demo_ram_alloc_twice:
  assumes "alloc_page demo_ram = (a, r1)"
  shows "fst (alloc_page (r1\<lparr>bytes := m\<rparr>)) \<noteq> 0"
proof -
  have a0: "a \<noteq> 0" using demo_ram_alloc assms by simp
  have h: "holds_pages r1 {#a#}" using holds_alloc(1)[OF demo_ram_holds assms a0] by simp
  define b :: u64 where "b = (if a = 0x2000 then 0x3000 else 0x2000)"
  have b: "page_frame b" "b \<noteq> a" by (auto simp: b_def page_frame_def)
  have "\<not> frame_used (pmm demo_ram) b"
    by (simp add: b_def frame_used_def demo_ram_def all_free_pmm_page kManagedPageCount_def)
  moreover have "AllocatePage (pmm demo_ram) = (a, pmm r1)"
    using assms by (auto simp: alloc_page_def split: prod.splits)
  ultimately have "\<not> frame_used (pmm r1) b"
    using pages.alloc_used[of "pmm demo_ram" a "pmm r1" b] demo_ram_holds a0 b by (simp add: holds_pages_def)
  then show ?thesis using alloc_page_succeeds[of "r1\<lparr>bytes := m\<rparr>" b] h b by (simp add: holds_pages_def)
qed

lemma cow_write_gets_private_copy_witness:
  "\<exists>p c2 r1 q c3 r3. Cow_ReferenceCount c2 p = 2 \<and> Cow_ResolveWrite c2 r1 p = (q, c3, r3) \<and> q \<noteq> 0 \<and> q \<noteq> p \<and>
    bytes r3 q = bytes r1 p \<and> Cow_ReferenceCount c3 q = 1"
proof -
  obtain p r1 where al: "alloc_page demo_ram = (p, r1)" by fastforce
  have p0: "p \<noteq> 0" using demo_ram_alloc al by simp
  let ?r1 = "r1\<lparr>bytes := ClearPage p (bytes r1)\<rparr>"
  let ?c2 = "demo_cow\<lparr>cow_Pages := (cow_Pages demo_cow)[0 := \<lparr>cp_physical = p, cp_references = 2, cp_active = True\<rparr>]\<rparr>"
  have c0: "cow_Pages demo_cow = replicate 128 \<lparr>cp_physical = 0, cp_references = 0, cp_active = False\<rparr>" "cow_attached demo_cow"
    by (simp_all add: demo_cow_def Cow_Init_def kCowTrackedPages_def)
  have fr: "cow_frames ?c2 = {#p#}"
    using table_frames_add[of 0 "cow_Pages demo_cow" cow_entry] table_frames_empty[of "cow_Pages demo_cow" cow_entry]
    by (simp add: cow_frames_def cow_entry_def c0)
  have ok: "cow_ok ?c2" using c0 by (auto simp: cow_ok_def kCowTrackedPages_def dest!: set_update_subset_insert[THEN subsetD])
  have h: "holds_pages ?r1 (cow_frames ?c2 + {#})"
    using holds_alloc(1)[OF demo_ram_holds al p0] fr by simp
  have find: "Cow_FindPage ?c2 p = Some 0" "Cow_FindFreeSlot ?c2 = Some 1"
    by (simp_all add: Cow_FindPage_def Cow_FindFreeSlot_def c0 eval_nat_numeral)
  have refs: "Cow_ReferenceCount ?c2 p = 2" using find c0 by (simp add: Cow_ReferenceCount_def)
  obtain q c3 r3 where w: "Cow_ResolveWrite ?c2 ?r1 p = (q, c3, r3)" by (metis surj_pair)
  obtain b r2 where al2: "alloc_page ?r1 = (b, r2)" by fastforce
  then have b0: "b \<noteq> 0" using demo_ram_alloc_twice[OF al, of "ClearPage p (bytes r1)"] by simp
  have "\<not> cp_references (cow_Pages ?c2 ! 0) \<le> 1" using c0 by (simp add: word_le_nat_alt)
  then have "fst (Cow_ResolveWrite ?c2 ?r1 p) = b"
    unfolding Cow_ResolveWrite_def find option.case al2 using c0 b0 by simp
  then have "q \<noteq> 0" using w b0 by simp
  then have P: "q \<noteq> p" "\<forall>k < 4096. bytes r3 (q + of_nat k) = bytes ?r1 (p + of_nat k)" "Cow_ReferenceCount c3 q = 1"
    using cow_write_gets_private_copy[OF h ok _ w] refs by simp_all
  from P(2) have "bytes r3 q = bytes ?r1 p" by (auto dest: spec[of _ 0])
  then show ?thesis using w refs P(1,3) \<open>q \<noteq> 0\<close> by blast
qed

subsection \<open>Shared memory\<close>

definition one_page :: "u64 \<Rightarrow> u64 multiset" where
  "one_page a = (if a = 0 then {#} else {#a#})"

definition segment_frames :: "SharedSegment \<Rightarrow> u64 multiset" where
  "segment_frames g = table_frames one_page (ss_pages g)"

definition shared_frames :: "SharedMemoryManager \<Rightarrow> u64 multiset" where
  "shared_frames m = table_frames segment_frames (shm_Segments m)"

text \<open>A live segment has exactly its \<open>page_count\<close> pages, a dead entry has none.\<close>

definition segment_ok :: "SharedSegment \<Rightarrow> bool" where
  "segment_ok g \<longleftrightarrow> length (ss_pages g) = 4 \<and> unat (ss_page_count g) \<le> 4 \<and>
     (\<forall>i < 4. unat (ss_page_count g) \<le> i \<longrightarrow> ss_pages g ! i = 0) \<and>
     (if ss_active g then ss_references g \<noteq> 0 \<and> (\<forall>i < unat (ss_page_count g). ss_pages g ! i \<noteq> 0)
      else ss_page_count g = 0)"

definition shared_ok :: "SharedMemoryManager \<Rightarrow> bool" where
  "shared_ok m \<longleftrightarrow> length (shm_Segments m) = kSharedSegmentCount \<and> list_all segment_ok (shm_Segments m)"

lemma one_page_simps [simp]: "one_page 0 = {#}" "a \<noteq> 0 \<Longrightarrow> one_page a = {#a#}"
  by (simp_all add: one_page_def)

lemma zero_pages_frames: "\<forall>i < length ps. ps ! i = 0 \<Longrightarrow> table_frames one_page ps = {#}"
  by (intro table_frames_empty) (auto simp: in_set_conv_nth)

lemma destroy_loop:
  assumes "holds_pages r (table_frames one_page ps + R)" "\<forall>i \<in> set is. i < length ps"
    and "foldl (\<lambda>(pages, r) i. if pages ! i \<noteq> 0 then (pages[i := 0], free_page r (pages ! i)) else (pages, r))
           (ps, r) is = (ps', r')"
  shows "holds_pages r' (table_frames one_page ps' + R) \<and> length ps' = length ps \<and> bytes r' = bytes r \<and>
    (\<forall>j < length ps. ps' ! j = (if j \<in> set is then 0 else ps ! j))"
  using assms
proof (induction "is" arbitrary: ps r)
  case (Cons i "is")
  show ?case
  proof (cases "ps ! i = 0")
    case True
    then show ?thesis using Cons.IH[OF Cons.prems(1)] Cons.prems(2,3) by auto
  next
    case False
    have i: "i < length ps" using Cons.prems(2) by simp
    have "table_frames one_page ps = add_mset (ps ! i) (table_frames one_page (ps[i := 0]))"
      using table_frames_remove[OF i, of one_page 0] False by simp
    then have "holds_pages (free_page r (ps ! i)) (table_frames one_page (ps[i := 0]) + R)"
      using Cons.prems(1) holds_free by simp
    from Cons.IH[OF this] show ?thesis using Cons.prems(2,3) False i by (auto simp: nth_list_update)
  qed
qed simp

lemma DestroyPartial_holds:
  assumes "holds_pages r (segment_frames g + R)" "length (ss_pages g) = 4" "unat (ss_page_count g) \<le> 4"
    and "\<forall>i < 4. unat (ss_page_count g) \<le> i \<longrightarrow> ss_pages g ! i = 0"
    and "DestroyPartial g r = (g', r')"
  shows "holds_pages r' R \<and> segment_frames g' = {#} \<and> segment_ok g' \<and> \<not> ss_active g' \<and> bytes r' = bytes r"
proof -
  obtain ps r1 where f: "foldl (\<lambda>(pages, r) i. if pages ! i \<noteq> 0 then (pages[i := 0], free_page r (pages ! i))
      else (pages, r)) (ss_pages g, r) [0 ..< unat (ss_page_count g)] = (ps, r1)" by fastforce
  have D: "holds_pages r1 (table_frames one_page ps + R)" "length ps = 4" "bytes r1 = bytes r"
      "\<forall>j < 4. ps ! j = (if j \<in> set [0 ..< unat (ss_page_count g)] then 0 else ss_pages g ! j)"
    using destroy_loop[OF assms(1)[unfolded segment_frames_def] _ f] assms(2,3) by auto
  have zero: "\<forall>j < 4. ps ! j = 0" using D(4) assms(4) by auto
  then have "table_frames one_page ps = {#}" using D(2) by (intro zero_pages_frames) simp
  then show ?thesis
    using assms(5) f D zero by (auto simp: DestroyPartial_def segment_frames_def segment_ok_def)
qed

lemma create_pages_holds:
  assumes "holds_pages r (segment_frames g + R)" "length (ss_pages g) = 4" "unat (ss_page_count g) \<le> 4"
    and "distinct is" "\<forall>i \<in> set is. i < unat (ss_page_count g)"
    and "\<forall>i < 4. i \<in> set is \<or> unat (ss_page_count g) \<le> i \<longrightarrow> ss_pages g ! i = 0"
    and "\<forall>i < unat (ss_page_count g). i \<notin> set is \<longrightarrow> ss_pages g ! i \<noteq> 0"
    and "ss_active g" "ss_references g \<noteq> 0"
    and "create_pages is g r = (b, g', r')"
  shows "holds_pages r' (segment_frames g' + R) \<and> segment_ok g' \<and> ss_active g' = b \<and>
    (b \<longrightarrow> ss_id g' = ss_id g \<and> ss_page_count g' = ss_page_count g \<and> ss_references g' = ss_references g)"
  using assms
proof (induction "is" g r rule: create_pages.induct)
  case (1 g r)
  then show ?case by (auto simp: segment_ok_def)
next
  case (2 i "is" g r)
  obtain a r1 where al: "alloc_page r = (a, r1)" by fastforce
  define g1 where "g1 = g\<lparr>ss_pages := (ss_pages g)[i := a]\<rparr>"
  have "i < unat (ss_page_count g)" using "2.prems"(5) by simp
  moreover from this have "i < 4" using "2.prems"(3) by simp
  ultimately have i: "i < unat (ss_page_count g)" "i < 4" "ss_pages g ! i = 0" "i \<notin> set is"
    using "2.prems"(4,6) by auto
  have fields: "length (ss_pages g1) = 4" "ss_page_count g1 = ss_page_count g" "ss_active g1" "ss_id g1 = ss_id g"
    "ss_references g1 = ss_references g"
    using "2.prems"(2,8,9) by (simp_all add: g1_def)
  show ?case
  proof (cases "a = 0")
    case True
    then have r1: "r1 = r" using holds_alloc_fails[OF "2.prems"(1)] al by simp
    have "segment_frames g1 = segment_frames g"
      using True i "2.prems"(2) by (simp add: g1_def segment_frames_def table_frames_same)
    then have h: "holds_pages r (segment_frames g1 + R)" using "2.prems"(1) by simp
    obtain g2 r2 where d: "DestroyPartial g1 r = (g2, r2)" by fastforce
    have D: "holds_pages r2 R \<and> segment_frames g2 = {#} \<and> segment_ok g2 \<and> \<not> ss_active g2"
      using DestroyPartial_holds[OF h fields(1) _ _ d] "2.prems"(2,3,6) True i fields(2)
      by (auto simp: g1_def nth_list_update)
    then show ?thesis using "2.prems"(10) al True r1 d by (auto simp: g1_def)
  next
    case False
    have "segment_frames g1 = add_mset a (segment_frames g)"
      using False i "2.prems"(2) by (simp add: g1_def segment_frames_def table_frames_add)
    then have h: "holds_pages (r1\<lparr>bytes := ClearPage a (bytes r1)\<rparr>) (segment_frames g1 + R)"
      using holds_alloc(1)[OF "2.prems"(1) al False] by simp
    have "create_pages is g1 (r1\<lparr>bytes := ClearPage a (bytes r1)\<rparr>) = (b, g', r')"
      using "2.prems"(10) al False by (simp add: g1_def Let_def)
    moreover have "\<forall>j < 4. j \<in> set is \<or> unat (ss_page_count g1) \<le> j \<longrightarrow> ss_pages g1 ! j = 0"
      using "2.prems"(2,6) i by (auto simp: g1_def nth_list_update)
    moreover have "\<forall>j < unat (ss_page_count g1). j \<notin> set is \<longrightarrow> ss_pages g1 ! j \<noteq> 0"
      using "2.prems"(2,7) i False by (auto simp: g1_def nth_list_update)
    ultimately show ?thesis
      using "2.IH"[OF refl al[symmetric] g1_def False h fields(1)] "2.prems"(3,4,5,9) fields by simp
  qed
qed

lemma upd_segment_frames:
  "i < length (shm_Segments m) \<Longrightarrow>
    shared_frames (upd_segment i f m) + segment_frames (shm_Segments m ! i) =
    shared_frames m + segment_frames (f (shm_Segments m ! i))"
  unfolding shared_frames_def upd_segment_def using table_frames_update by simp

lemma shared_ok_upd:
  "shared_ok m \<Longrightarrow> segment_ok (f (shm_Segments m ! i)) \<Longrightarrow> shared_ok (upd_segment i f m)"
  by (auto simp: shared_ok_def upd_segment_def list_all_iff dest!: set_update_subset_insert[THEN subsetD])

lemma shared_entry: "shared_ok m \<Longrightarrow> i < length (shm_Segments m) \<Longrightarrow> segment_ok (shm_Segments m ! i)"
  by (simp add: shared_ok_def list_all_length)

lemma Shared_Create_holds:
  assumes "holds_pages r (shared_frames m + R)" "shared_ok m" "Shared_Create m r n = (sid, m', r')"
  shows "holds_pages r' (shared_frames m' + R) \<and> shared_ok m'"
proof (cases "\<not> shm_attached m \<or> n = 0 \<or> n > of_nat kSharedSegmentMaxPages \<or> FindFreeSegment m = None")
  case True
  then show ?thesis using assms by (auto simp: Shared_Create_def split: if_splits)
next
  case False
  then obtain i where i: "FindFreeSegment m = Some i" by auto
  let ?g0 = "shm_Segments m ! i"
  have il: "i < length (shm_Segments m)" "\<not> ss_active ?g0" using i by (auto simp: FindFreeSegment_def dest: find_indexD)
  have g0: "segment_ok ?g0" by (rule shared_entry[OF assms(2) il(1)])
  then have zero: "length (ss_pages ?g0) = 4" "\<forall>j < 4. ss_pages ?g0 ! j = 0" using il(2) by (auto simp: segment_ok_def)
  then have e0: "segment_frames ?g0 = {#}" unfolding segment_frames_def by (intro zero_pages_frames) simp
  define g where "g = ?g0\<lparr>ss_id := shm_NextId m, ss_page_count := n, ss_references := 1, ss_active := True\<rparr>"
  have n: "unat n \<le> 4" using False by (auto simp: kSharedSegmentMaxPages_def not_less word_le_nat_alt)
  obtain b g1 r1 where cp: "create_pages [0 ..< unat n] g r = (b, g1, r1)" by (metis surj_pair)
  have eg: "segment_frames g = {#}" using e0 by (simp add: g_def segment_frames_def)
  have "holds_pages r (segment_frames g + (shared_frames m + R))" using assms(1) eg by simp
  note C = create_pages_holds[OF this _ _ _ _ _ _ _ _ cp]
  have C: "holds_pages r1 (segment_frames g1 + (shared_frames m + R))" "segment_ok g1"
    using C n zero by (auto simp: g_def)
  have m': "m' = upd_segment i (\<lambda>_. g1) (m\<lparr>shm_NextId := shm_NextId m + 1\<rparr>)" "r' = r1"
    using assms(3) False i cp by (auto simp: Shared_Create_def g_def[symmetric] Let_def)
  have "shared_frames m' = segment_frames g1 + shared_frames m"
    using upd_segment_frames[of i "m\<lparr>shm_NextId := shm_NextId m + 1\<rparr>" "\<lambda>_. g1"] il(1) e0
    by (simp add: m' shared_frames_def ac_simps)
  moreover have "shared_ok m'"
    unfolding m' using assms(2) C(2) by (intro shared_ok_upd) (simp_all add: shared_ok_def)
  ultimately show ?thesis using C(1) m'(2) by (simp add: ac_simps)
qed

lemma Shared_Attach_frames:
  assumes "Shared_Attach m sid = (b, m')" "shared_ok m"
  shows "shared_frames m' = shared_frames m \<and> shared_ok m'"
proof (cases b)
  case True
  then obtain i where i: "FindSegment m sid = Some i" "ss_references (shm_Segments m ! i) \<noteq> - 1"
    "m' = upd_segment i (\<lambda>g. g\<lparr>ss_references := ss_references g + 1\<rparr>) m"
    using assms(1) by (auto simp: Shared_Attach_def split: option.splits if_splits)
  have il: "i < length (shm_Segments m)" "ss_active (shm_Segments m ! i)"
    using i(1) by (auto simp: FindSegment_def dest: find_indexD)
  have nz: "ss_references (shm_Segments m ! i) + 1 \<noteq> 0" using i(2) by (metis add.commute add_eq_0_iff)
  have "shared_ok m'"
    unfolding i(3) using shared_entry[OF assms(2) il(1)] il(2) nz
    by (intro shared_ok_upd[OF assms(2)]) (auto simp: segment_ok_def)
  moreover have "shared_frames m' = shared_frames m"
    unfolding i(3) using upd_segment_frames[OF il(1), of "\<lambda>g. g\<lparr>ss_references := ss_references g + 1\<rparr>"]
    by (simp add: segment_frames_def)
  ultimately show ?thesis by simp
qed (use assms in \<open>auto simp: Shared_Attach_def split: option.splits if_splits\<close>)

lemma Shared_Release_holds:
  assumes "holds_pages r (shared_frames m + R)" "shared_ok m" "Shared_Release m r sid = (m', r')"
  shows "holds_pages r' (shared_frames m' + R) \<and> shared_ok m' \<and> bytes r' = bytes r"
proof (cases "FindSegment m sid")
  case (Some i)
  let ?g = "shm_Segments m ! i"
  have il: "i < length (shm_Segments m)" "ss_active ?g" using Some by (auto simp: FindSegment_def dest: find_indexD)
  have g: "segment_ok ?g" by (rule shared_entry[OF assms(2) il(1)])
  then have nz: "ss_references ?g \<noteq> 0" using il(2) by (simp add: segment_ok_def)
  let ?g1 = "?g\<lparr>ss_references := ss_references ?g - 1\<rparr>"
  have same: "segment_frames ?g1 = segment_frames ?g" by (simp add: segment_frames_def)
  show ?thesis
  proof (cases "ss_references ?g = 1")
    case False
    then have m': "m' = upd_segment i (\<lambda>_. ?g1) m" "r' = r"
      using assms(3) Some nz by (auto simp: Shared_Release_def Let_def)
    have "shared_ok m'" unfolding m' using g il(2) False by (intro shared_ok_upd[OF assms(2)]) (auto simp: segment_ok_def)
    moreover have "shared_frames m' = shared_frames m"
      unfolding m' using upd_segment_frames[OF il(1), of "\<lambda>_. ?g1"] same by simp
    ultimately show ?thesis using assms(1) m'(2) by simp
  next
    case True
    obtain g2 r2 where d: "DestroyPartial ?g1 r = (g2, r2)" by fastforce
    have m': "m' = upd_segment i (\<lambda>_. g2) m" "r' = r2"
      using assms(3) Some nz True d by (auto simp: Shared_Release_def Let_def)
    have frames: "shared_frames m = segment_frames ?g + shared_frames (upd_segment i (\<lambda>_. g2) m)"
      if "segment_frames g2 = {#}"
      using upd_segment_frames[OF il(1), of "\<lambda>_. g2"] that by (simp add: ac_simps)
    have z: "shared_frames m - segment_frames ?g + segment_frames ?g = shared_frames m"
      using table_frames_remove[of i "shm_Segments m" segment_frames no_segment] il(1)
      by (auto simp: shared_frames_def segment_frames_def no_segment_def table_frames_empty)
    have "holds_pages r (segment_frames ?g1 + (shared_frames m - segment_frames ?g + R))"
      using assms(1) z same by (simp add: ac_simps)
    from DestroyPartial_holds[OF this _ _ _ d] g
    have D: "holds_pages r2 (shared_frames m - segment_frames ?g + R)" "segment_frames g2 = {#}" "segment_ok g2"
      "bytes r2 = bytes r"
      by (auto simp: segment_ok_def)
    have "shared_frames m' = shared_frames m - segment_frames ?g"
      unfolding m' using frames[OF D(2)] by simp
    moreover have "shared_ok m'" unfolding m' using D(3) by (intro shared_ok_upd[OF assms(2)]) simp
    ultimately show ?thesis using D(1,4) m'(2) by simp
  qed
qed (use assms in \<open>simp add: Shared_Release_def\<close>)

subsection \<open>Swap\<close>

definition slot_frames :: "SwapSlot \<Rightarrow> u64 multiset" where
  "slot_frames s = (if sl_used s then {#sl_backing s#} else {#})"

definition swap_frames :: "SwapManager \<Rightarrow> u64 multiset" where
  "swap_frames w = table_frames slot_frames (swap_Slots w)"

definition swap_ok :: "SwapManager \<Rightarrow> bool" where
  "swap_ok w \<longleftrightarrow> length (swap_Slots w) = kSwapSlotCount"

lemma SwapOut_holds:
  assumes "holds_pages r (swap_frames w + R)" "swap_ok w" "SwapOut w r p = (k, w', r')"
  shows "holds_pages r' (swap_frames w' + R) \<and> swap_ok w'"
proof (cases k)
  case None
  then show ?thesis
    using assms holds_alloc_fails[OF assms(1)] by (auto simp: SwapOut_def split: option.splits prod.splits if_splits)
next
  case (Some i)
  then obtain a r1 where a: "find_index (\<lambda>s. \<not> sl_used s) (swap_Slots w) = Some i" "alloc_page r = (a, r1)" "a \<noteq> 0"
    "w' = w\<lparr>swap_Slots := (swap_Slots w)[i := \<lparr>sl_backing = a, sl_used = True\<rparr>]\<rparr>"
    "r' = r1\<lparr>bytes := CopyPage a p (bytes r1)\<rparr>"
    using assms(3) by (auto simp: SwapOut_def split: option.splits prod.splits if_splits)
  have "swap_frames w' = add_mset a (swap_frames w)"
    using find_indexD[OF a(1)] by (simp add: a(4) swap_frames_def table_frames_add slot_frames_def)
  then show ?thesis using holds_alloc(1)[OF assms(1) a(2,3)] assms(2) a(4,5) by (simp add: swap_ok_def)
qed

lemma SwapIn_holds:
  assumes "holds_pages r (swap_frames w + R)" "swap_ok w" "SwapIn w r k d = (b, w', r')"
  shows "holds_pages r' (swap_frames w' + R) \<and> swap_ok w'"
proof (cases b)
  case True
  let ?i = "unat k"
  have i: "?i < length (swap_Slots w)" "sl_used (swap_Slots w ! ?i)"
    and w': "w' = w\<lparr>swap_Slots := (swap_Slots w)[?i := \<lparr>sl_backing = 0, sl_used = False\<rparr>]\<rparr>"
    "r' = free_page (r\<lparr>bytes := CopyPage d (sl_backing (swap_Slots w ! ?i)) (bytes r)\<rparr>) (sl_backing (swap_Slots w ! ?i))"
    using True assms(2,3) by (auto simp: SwapIn_def Let_def swap_ok_def split: if_splits)
  have "swap_frames w = add_mset (sl_backing (swap_Slots w ! ?i)) (swap_frames w')"
    using table_frames_remove[of ?i "swap_Slots w" slot_frames "\<lparr>sl_backing = 0, sl_used = False\<rparr>"] i
    by (simp add: w' swap_frames_def slot_frames_def)
  then show ?thesis using assms(1,2) w' by (auto simp: swap_ok_def intro!: holds_free)
qed (use assms in \<open>auto simp: SwapIn_def Let_def split: if_splits\<close>)

text \<open>
  Swapping is lossless: a page swapped out and later swapped into any held page has its
  old contents there, even if the original page and all memory other than the backing page
  have been overwritten in between; the slot is free again and all pages are held once.
\<close>

lemma swap_round_trip:
  assumes "holds_pages r (swap_frames w + R)" "swap_ok w" "p \<in># R"
    and "SwapOut w r p = (Some k, w1, r1)"
    and "holds_pages r2 (swap_frames w1 + R2)"
    and "\<And>a. in_page (sl_backing (swap_Slots w1 ! k)) a \<Longrightarrow> bytes r2 a = bytes r1 a"
    and "d \<in># R2"
  shows "\<exists>w3 r3. SwapIn w1 r2 (of_nat k) d = (True, w3, r3) \<and>
    (\<forall>j < 4096. bytes r3 (d + of_nat j) = bytes r (p + of_nat j)) \<and>
    \<not> sl_used (swap_Slots w3 ! k) \<and> holds_pages r3 (swap_frames w3 + R2)"
proof -
  obtain b rb where a: "find_index (\<lambda>s. \<not> sl_used s) (swap_Slots w) = Some k" "alloc_page r = (b, rb)" "b \<noteq> 0"
    "swap_attached w" "w1 = w\<lparr>swap_Slots := (swap_Slots w)[k := \<lparr>sl_backing = b, sl_used = True\<rparr>]\<rparr>"
    "r1 = rb\<lparr>bytes := CopyPage b p (bytes rb)\<rparr>"
    using assms(4) by (auto simp: SwapOut_def split: option.splits prod.splits if_splits)
  have k: "k < length (swap_Slots w)" "k < 16" using find_indexD(1)[OF a(1)] assms(2)
    by (simp_all add: swap_ok_def kSwapSlotCount_def)
  have b: "b \<notin># swap_frames w + R" "page_frame b" using holds_alloc(2,3)[OF assms(1) a(2,3)] by simp_all
  have pf: "page_frame p" using holds_frame[OF assms(1), of p] assms(3) by simp
  have pb: "p \<noteq> b" using b(1) assms(3) by auto
  have slot: "swap_Slots w1 ! k = \<lparr>sl_backing = b, sl_used = True\<rparr>" using k by (simp add: a(5))
  have bf: "b \<in># swap_frames w1"
    using table_frames_mem[of k "swap_Slots w1" b slot_frames] slot k by (simp add: swap_frames_def slot_frames_def a(5))
  have db: "d \<noteq> b" "page_frame d"
    using holds_distinct[OF assms(5) bf] assms(7) holds_frame[OF assms(5), of d] by auto
  have uk: "unat (of_nat k :: u32) = k" using k(2) by (simp add: unat_of_nat take_bit_nat_eq_self)
  have d0: "d \<noteq> 0" using db(2) by (simp add: page_frame_def)
  obtain w3 r3 where s: "SwapIn w1 r2 (of_nat k) d = (True, w3, r3)"
    "w3 = w1\<lparr>swap_Slots := (swap_Slots w1)[k := \<lparr>sl_backing = 0, sl_used = False\<rparr>]\<rparr>"
    "r3 = free_page (r2\<lparr>bytes := CopyPage d b (bytes r2)\<rparr>) b"
    using slot k(2) a(4,5) d0 uk by (simp add: SwapIn_def Let_def kSwapSlotCount_def)
  have ok1: "swap_ok w1" using assms(2) by (simp add: a(5) swap_ok_def)
  have "bytes r3 (d + of_nat j) = bytes r (p + of_nat j)" if "j < 4096" for j
  proof -
    have "bytes r3 (d + of_nat j) = bytes r2 (b + of_nat j)"
      using CopyPage_at[OF db(2) b(2) db(1)] that by (simp add: s(3))
    also have "\<dots> = bytes r1 (b + of_nat j)" using assms(6) slot that by simp
    also have "\<dots> = bytes r (p + of_nat j)"
      using CopyPage_at[OF b(2) pf pb[symmetric]] that alloc_page_bytes[OF a(2)] by (simp add: a(6))
    finally show ?thesis .
  qed
  moreover have "\<not> sl_used (swap_Slots w3 ! k)" using k by (simp add: s(2) a(5))
  ultimately show ?thesis using s(1) SwapIn_holds[OF assms(5) ok1 s(1)] by blast
qed

definition demo_swap :: SwapManager where
  "demo_swap = Swap_Init \<lparr>swap_attached = False, swap_Slots = []\<rparr>"

lemma swap_round_trip_witness:
  "\<exists>p r w1 r1 w3 r3. SwapOut demo_swap r p = (Some 0, w1, r1) \<and> SwapIn w1 r1 0 p = (True, w3, r3) \<and>
    bytes r3 p = bytes r p"
proof -
  obtain p r0 where al: "alloc_page demo_ram = (p, r0)" by fastforce
  have p0: "p \<noteq> 0" using demo_ram_alloc al by simp
  have s0: "swap_Slots demo_swap = replicate 16 \<lparr>sl_backing = 0, sl_used = False\<rparr>" "swap_attached demo_swap"
    by (simp_all add: demo_swap_def Swap_Init_def kSwapSlotCount_def)
  have fr: "swap_frames demo_swap = {#}"
    by (auto simp: swap_frames_def s0 slot_frames_def intro!: table_frames_empty)
  have ok: "swap_ok demo_swap" by (simp add: swap_ok_def s0 kSwapSlotCount_def)
  have h: "holds_pages r0 (swap_frames demo_swap + {#p#})"
    using holds_alloc(1)[OF demo_ram_holds al p0] fr by simp
  obtain b rb where al2: "alloc_page r0 = (b, rb)" by fastforce
  then have b0: "b \<noteq> 0" using demo_ram_alloc_twice[OF al, of "bytes r0"] by simp
  define w1 where "w1 = demo_swap\<lparr>swap_Slots := (swap_Slots demo_swap)[0 := \<lparr>sl_backing = b, sl_used = True\<rparr>]\<rparr>"
  define r1 where "r1 = rb\<lparr>bytes := CopyPage b p (bytes rb)\<rparr>"
  have free: "find_index (\<lambda>s. \<not> sl_used s) (swap_Slots demo_swap) = Some 0" by (simp add: s0 eval_nat_numeral)
  have out: "SwapOut demo_swap r0 p = (Some 0, w1, r1)"
    using p0 b0 s0(2) by (simp add: SwapOut_def free al2 w1_def r1_def)
  have h1: "holds_pages r1 (swap_frames w1 + {#p#})" using SwapOut_holds[OF h ok out] by simp
  obtain w3 r3 where "SwapIn w1 r1 0 p = (True, w3, r3)"
    "\<forall>j < 4096. bytes r3 (p + of_nat j) = bytes r0 (p + of_nat j)"
    using swap_round_trip[OF h ok _ out h1, of p] by auto
  moreover from this(2) have "bytes r3 p = bytes r0 p" by (auto dest: spec[of _ 0])
  ultimately show ?thesis using out by blast
qed

end
