(* ===== verification/Slab.thy ===== *)
theory Slab
  imports PageManagers
begin

text \<open>
  \<^verbatim>\<open>kernel/src/kernel.cpp\<close>, class \<open>SlabAllocator\<close>: four caches of equal-sized objects, one page
  each. The free list of a cache runs through its free objects: the first eight bytes of a
  free object are the address of the next one. They live in \<open>bytes\<close>, the physical memory,
  which the code reaches through \<open>FreeNode*\<close>; a null pointer is the address 0.
\<close>

subsection \<open>Eight-byte values in memory\<close>

definition store64 :: "u64 \<Rightarrow> u64 \<Rightarrow> (u64 \<Rightarrow> u8) \<Rightarrow> (u64 \<Rightarrow> u8)" where
  "store64 a v m = foldl (\<lambda>m i. m(a + of_nat i := ucast (drop_bit (8 * i) v))) m [0 ..< 8]"

definition load64 :: "(u64 \<Rightarrow> u8) \<Rightarrow> u64 \<Rightarrow> u64" where
  "load64 m a = foldl (\<lambda>v i. v OR push_bit (8 * i) (ucast (m (a + of_nat i)))) 0 [0 ..< 8]"

subsection \<open>Data\<close>

definition kSlabCacheCount :: nat where "kSlabCacheCount = 4"

record SlabCache =
  sl_object_size :: u64
  sl_page :: u64
  sl_free_list :: u64
  sl_total_objects :: u64
  sl_free_objects :: u64

record SlabAllocator =
  slab_attached :: bool
  slab_Caches :: "SlabCache list"

definition slab_sizes :: "u64 list" where
  "slab_sizes = [32, 64, 128, 256]"

subsection \<open>Operations\<close>

definition Slab_Init :: "SlabAllocator \<Rightarrow> SlabAllocator" where
  "Slab_Init s = \<lparr>slab_attached = True, slab_Caches =
     map (\<lambda>n. \<lparr>sl_object_size = n, sl_page = 0, sl_free_list = 0, sl_total_objects = 0, sl_free_objects = 0\<rparr>)
       slab_sizes\<rparr>"

definition FindCache :: "SlabAllocator \<Rightarrow> u64 \<Rightarrow> nat option" where
  "FindCache s n = find_index (\<lambda>c. n \<le> sl_object_size c) (slab_Caches s)"

definition upd_slab :: "nat \<Rightarrow> (SlabCache \<Rightarrow> SlabCache) \<Rightarrow> SlabAllocator \<Rightarrow> SlabAllocator" where
  "upd_slab k f s = s\<lparr>slab_Caches := (slab_Caches s)[k := f (slab_Caches s ! k)]\<rparr>"

text \<open>\<open>node->next = cache.free_list; cache.free_list = node;\<close>\<close>

definition push_node :: "u64 \<Rightarrow> u64 \<times> (u64 \<Rightarrow> u8) \<Rightarrow> u64 \<times> (u64 \<Rightarrow> u8)" where
  "push_node node = (\<lambda>(free_list, m). (node, store64 node free_list m))"

definition GrowCache :: "SlabAllocator \<Rightarrow> RAM \<Rightarrow> nat \<Rightarrow> bool \<times> SlabAllocator \<times> RAM" where
  "GrowCache s r k =
     (if \<not> slab_attached s \<or> sl_page (slab_Caches s ! k) \<noteq> 0 then (False, s, r)
      else
        let (page, r1) = alloc_page r;
            s1 = upd_slab k (\<lambda>c. c\<lparr>sl_page := page\<rparr>) s
        in if page = 0 then (False, s1, r1)
        else
          let object_size = sl_object_size (slab_Caches s1 ! k);
              total = kPageSize div object_size;
              (free_list, m) = foldl (\<lambda>st i. push_node (page + of_nat i * object_size) st) (0, bytes r1) [0 ..< unat total]
          in (True,
              upd_slab k (\<lambda>c. c\<lparr>sl_total_objects := total, sl_free_objects := total, sl_free_list := free_list\<rparr>) s1,
              r1\<lparr>bytes := m\<rparr>))"

fun prime_caches :: "SlabAllocator \<Rightarrow> RAM \<Rightarrow> nat list \<Rightarrow> bool \<times> SlabAllocator \<times> RAM" where
  "prime_caches s r [] = (True, s, r)"
| "prime_caches s r (k # ks) =
     (let (ok, s1, r1) = GrowCache s r k in if \<not> ok then (False, s1, r1) else prime_caches s1 r1 ks)"

definition Prime :: "SlabAllocator \<Rightarrow> RAM \<Rightarrow> bool \<times> SlabAllocator \<times> RAM" where
  "Prime s r = prime_caches s r [0 ..< kSlabCacheCount]"

definition Slab_Allocate :: "SlabAllocator \<Rightarrow> RAM \<Rightarrow> u64 \<Rightarrow> u64 \<times> SlabAllocator \<times> RAM" where
  "Slab_Allocate s r n =
     (case FindCache s n of None \<Rightarrow> (0, s, r)
      | Some k \<Rightarrow>
          let (ok, s1, r1) = (if sl_free_list (slab_Caches s ! k) = 0 then GrowCache s r k else (True, s, r)) in
          if \<not> ok then (0, s1, r1)
          else let node = sl_free_list (slab_Caches s1 ! k) in
            (node,
             upd_slab k (\<lambda>c. c\<lparr>sl_free_list := load64 (bytes r1) node, sl_free_objects := sl_free_objects c - 1\<rparr>) s1,
             r1))"

definition Contains :: "SlabCache \<Rightarrow> u64 \<Rightarrow> bool" where
  "Contains c address \<longleftrightarrow> sl_page c \<noteq> 0 \<and> address \<ge> sl_page c \<and> address < sl_page c + kPageSize"

definition Slab_Free :: "SlabAllocator \<Rightarrow> RAM \<Rightarrow> u64 \<Rightarrow> u64 \<Rightarrow> bool \<times> SlabAllocator \<times> RAM" where
  "Slab_Free s r object n =
     (if object = 0 then (False, s, r)
      else case FindCache s n of None \<Rightarrow> (False, s, r)
      | Some k \<Rightarrow>
          let c = slab_Caches s ! k in
          if \<not> Contains c object then (False, s, r)
          else let (free_list, m) = push_node object (sl_free_list c, bytes r) in
            (True, upd_slab k (\<lambda>c. c\<lparr>sl_free_list := free_list, sl_free_objects := sl_free_objects c + 1\<rparr>) s,
             r\<lparr>bytes := m\<rparr>))"

definition CacheCount :: "SlabAllocator \<Rightarrow> nat" where
  "CacheCount s = kSlabCacheCount"

definition TotalObjects :: "SlabAllocator \<Rightarrow> u64" where
  "TotalObjects s = foldl (\<lambda>total c. total + sl_total_objects c) 0 (slab_Caches s)"

subsection \<open>Memory facts\<close>

definition span_of :: "u64 \<Rightarrow> nat \<Rightarrow> u64 set" where
  "span_of a n = (\<lambda>i. a + of_nat i) ` {..< n}"

lemma upt_8: "[0 ..< 8] = [0, 1, 2, 3, 4, 5, 6, 7 :: nat]"
  by code_simp

lemma store64_other:
  assumes "b \<notin> span_of a 8"
  shows "store64 a v m b = m b"
proof -
  have upd: "foldl (\<lambda>m i. m(a + of_nat i := ucast (drop_bit (8 * i) v))) m is b = m b"
    if "\<forall>i \<in> set is. b \<noteq> a + of_nat i" for "is"
    using that by (induction "is" arbitrary: m) auto
  have "\<forall>i \<in> set [0 ..< 8]. b \<noteq> a + of_nat i" using assms by (force simp: span_of_def)
  then show ?thesis unfolding store64_def by (rule upd)
qed

lemma load64_cong: "(\<And>b. b \<in> span_of a 8 \<Longrightarrow> m b = m' b) \<Longrightarrow> load64 m a = load64 m' a"
  unfolding load64_def by (intro foldl_cong) (auto simp: span_of_def)

lemma store64_at: "i < 8 \<Longrightarrow> store64 a v m (a + of_nat i) = ucast (drop_bit (8 * i) v)"
proof -
  have apart: "(of_nat i :: u64) = of_nat j \<longleftrightarrow> i = j" if "i < 8" "j < 8" for i j :: nat
  proof -
    have "unat (of_nat i :: u64) = i" "unat (of_nat j :: u64) = j" using that by (simp_all add: unat_of_nat_u64)
    then show ?thesis by metis
  qed
  have "n \<le> 8 \<Longrightarrow> i < n \<Longrightarrow> foldl (\<lambda>m i. m(a + of_nat i := ucast (drop_bit (8 * i) v))) m [0 ..< n] (a + of_nat i)
      = ucast (drop_bit (8 * i) v)" for n
    by (induction n) (auto simp: less_Suc_eq apart)
  then show "i < 8 \<Longrightarrow> ?thesis" by (simp add: store64_def)
qed

lemma bytes_join:
  "foldl (\<lambda>w i. w OR push_bit (8 * i) (ucast (ucast (drop_bit (8 * i) v) :: u8))) 0 [0 ..< n] = v AND mask (8 * n)"
    (is "?f n = _") for v :: u64
proof (induction n)
  case (Suc n)
  have "(v AND mask (8 * n)) OR push_bit (8 * n) (ucast (ucast (drop_bit (8 * n) v) :: u8)) = v AND mask (8 * Suc n)"
    by (rule bit_word_eqI) (auto simp: bit_simps)
  then show ?case using Suc by simp
qed simp

lemma load_store64: "load64 (store64 a v m) a = v"
proof -
  have "load64 (store64 a v m) a = foldl (\<lambda>w i. w OR push_bit (8 * i) (ucast (ucast (drop_bit (8 * i) v) :: u8))) 0 [0 ..< 8]"
    unfolding load64_def by (intro foldl_cong) (auto simp: store64_at)
  also have "\<dots> = v AND mask 64" by (simp add: bytes_join)
  also have "\<dots> = v" by (rule bit_word_eqI) (auto simp: bit_simps)
  finally show ?thesis .
qed

subsection \<open>The cells of a cache\<close>

text \<open>The list of the free objects, read through the next pointers.\<close>

fun chain :: "(u64 \<Rightarrow> u8) \<Rightarrow> u64 \<Rightarrow> u64 list \<Rightarrow> bool" where
  "chain m h [] = (h = 0)"
| "chain m h (x # xs) = (h = x \<and> x \<noteq> 0 \<and> chain m (load64 m x) xs)"

definition slab_size :: "SlabCache \<Rightarrow> nat" where
  "slab_size c = unat (sl_object_size c)"

definition cell :: "SlabCache \<Rightarrow> nat \<Rightarrow> u64" where
  "cell c i = sl_page c + of_nat (i * slab_size c)"

definition cell_count :: "SlabCache \<Rightarrow> nat" where
  "cell_count c = 4096 div slab_size c"

definition cells :: "SlabCache \<Rightarrow> u64 set" where
  "cells c = (if sl_page c = 0 then {} else cell c ` {..< cell_count c})"

text \<open>A well-formed cache, \<open>L\<close> being its objects in use.\<close>

definition cache_wf :: "(u64 \<Rightarrow> u8) \<Rightarrow> SlabCache \<Rightarrow> u64 set \<Rightarrow> bool" where
  "cache_wf m c L \<longleftrightarrow> slab_size c \<in> {32, 64, 128, 256} \<and>
     (sl_page c \<noteq> 0 \<longrightarrow> page_frame (sl_page c)) \<and>
     unat (sl_total_objects c) = card (cells c) \<and>
     (\<exists>xs. chain m (sl_free_list c) xs \<and> distinct xs \<and> set xs \<inter> L = {} \<and> set xs \<union> L = cells c \<and>
        unat (sl_free_objects c) = length xs)"

lemma chain_cong:
  "chain m h xs \<Longrightarrow> (\<And>x b. x \<in> set xs \<Longrightarrow> b \<in> span_of x 8 \<Longrightarrow> m' b = m b) \<Longrightarrow> chain m' h xs"
proof (induction xs arbitrary: h)
  case (Cons x xs)
  have "load64 m' x = load64 m x" by (rule load64_cong) (use Cons.prems in auto)
  moreover have "chain m' (load64 m x) xs" by (rule Cons.IH) (use Cons.prems in auto)
  ultimately show ?case using Cons.prems(1) by simp
qed simp

lemma cell_offset:
  assumes "slab_size c \<in> {32, 64, 128, 256}" "i < cell_count c" "k < slab_size c"
  shows "i * slab_size c + k < 4096"
proof -
  have "Suc i * slab_size c \<le> cell_count c * slab_size c" using assms(2) by (intro mult_le_mono1) simp
  also have "\<dots> \<le> 4096" by (simp add: cell_count_def)
  finally show ?thesis using assms(3) by simp
qed

lemma cell_byte: "cell c i + of_nat k = sl_page c + of_nat (i * slab_size c + k)"
  by (simp add: cell_def)

lemma size_pos: "slab_size c \<in> {32, 64, 128, 256} \<Longrightarrow> 8 \<le> slab_size c"
  by auto

text \<open>Bytes of two objects are only equal when the objects are the same.\<close>

lemma cell_bytes_unique:
  assumes "page_frame (sl_page c)" "page_frame (sl_page d)"
    "slab_size c \<in> {32, 64, 128, 256}" "slab_size d \<in> {32, 64, 128, 256}"
    "i < cell_count c" "j < cell_count d" "k < slab_size c" "l < slab_size d"
    "cell c i + of_nat k = cell d j + of_nat l"
  shows "sl_page c = sl_page d \<and> i * slab_size c + k = j * slab_size d + l"
  using in_page_unique[OF assms(1,2) cell_offset[OF assms(3,5,7)] cell_offset[OF assms(4,6,8)]] assms(9)
  by (simp only: cell_byte)

lemma cell_bytes_same:
  assumes "page_frame (sl_page c)" "slab_size c \<in> {32, 64, 128, 256}"
    "i < cell_count c" "j < cell_count c" "k < slab_size c" "l < slab_size c"
    "cell c i + of_nat k = cell c j + of_nat l"
  shows "i = j"
proof -
  have "i * slab_size c + k = j * slab_size c + l"
    using cell_bytes_unique[OF assms(1,1,2,2,3,4,5,6,7)] by simp
  then have "(i * slab_size c + k) div slab_size c = (j * slab_size c + l) div slab_size c" by simp
  then show ?thesis using assms(5,6) by simp
qed

lemma cells_disjoint:
  assumes "page_frame (sl_page c)" "slab_size c \<in> {32, 64, 128, 256}"
    "x \<in> cells c" "y \<in> cells c" "x \<noteq> y"
  shows "span_of x (slab_size c) \<inter> span_of y (slab_size c) = {}"
proof (rule ccontr)
  obtain i j where ij: "x = cell c i" "y = cell c j" "i < cell_count c" "j < cell_count c"
    using assms(3,4) by (auto simp: cells_def split: if_splits)
  assume "span_of x (slab_size c) \<inter> span_of y (slab_size c) \<noteq> {}"
  then obtain k l where "k < slab_size c" "l < slab_size c" "cell c i + of_nat k = cell c j + of_nat l"
    by (auto simp: span_of_def ij)
  then have "i = j" using cell_bytes_same[OF assms(1,2) ij(3,4)] by simp
  then show False using ij assms(5) by simp
qed

lemma cells_other_page:
  assumes "page_frame (sl_page c)" "page_frame (sl_page d)" "sl_page c \<noteq> sl_page d"
    "slab_size c \<in> {32, 64, 128, 256}" "slab_size d \<in> {32, 64, 128, 256}"
    "x \<in> cells c" "y \<in> cells d"
  shows "span_of x (slab_size c) \<inter> span_of y (slab_size d) = {}"
proof (rule ccontr)
  obtain i j where ij: "x = cell c i" "y = cell d j" "i < cell_count c" "j < cell_count d"
    using assms(6,7) by (auto simp: cells_def split: if_splits)
  assume "span_of x (slab_size c) \<inter> span_of y (slab_size d) \<noteq> {}"
  then obtain k l where "k < slab_size c" "l < slab_size d" "cell c i + of_nat k = cell d j + of_nat l"
    by (auto simp: span_of_def ij)
  then show False using cell_bytes_unique[OF assms(1,2,4,5) ij(3,4)] assms(3) by blast
qed

lemma span_mono: "m \<le> n \<Longrightarrow> span_of x m \<subseteq> span_of x n"
  by (auto simp: span_of_def)

lemma cells_in_page:
  assumes "page_frame (sl_page c)" "slab_size c \<in> {32, 64, 128, 256}" "x \<in> cells c"
  shows "span_of x (slab_size c) \<subseteq> {b. in_page (sl_page c) b}"
proof
  obtain i where i: "x = cell c i" "i < cell_count c" using assms(3) by (auto simp: cells_def split: if_splits)
  fix b assume "b \<in> span_of x (slab_size c)"
  then obtain k where k: "k < slab_size c" "b = cell c i + of_nat k" by (auto simp: span_of_def i(1))
  then show "b \<in> {b. in_page (sl_page c) b}"
    using cell_offset[OF assms(2) i(2) k(1)] unfolding cell_byte in_page_def by blast
qed

lemma inj_cell:
  assumes "page_frame (sl_page c)" "slab_size c \<in> {32, 64, 128, 256}"
  shows "inj_on (cell c) {..< cell_count c}"
proof (rule inj_onI)
  fix i j assume ij: "i \<in> {..< cell_count c}" "j \<in> {..< cell_count c}" "cell c i = cell c j"
  have "0 < slab_size c" using size_pos[OF assms(2)] by simp
  then show "i = j" using ij cell_bytes_same[OF assms, of i j 0 0] by simp
qed

lemma card_cells:
  "page_frame (sl_page c) \<Longrightarrow> slab_size c \<in> {32, 64, 128, 256} \<Longrightarrow> sl_page c \<noteq> 0 \<Longrightarrow> card (cells c) = cell_count c"
  by (simp add: cells_def card_image inj_cell)

lemma cells_nonzero:
  assumes "page_frame (sl_page c)" "slab_size c \<in> {32, 64, 128, 256}" "x \<in> cells c"
  shows "x \<noteq> 0"
proof -
  obtain i where i: "x = cell c i" "i < cell_count c" using assms(3) by (auto simp: cells_def split: if_splits)
  have "i * slab_size c < 4096" using cell_offset[OF assms(2) i(2), of 0] size_pos[OF assms(2)] by simp
  then have "unat x = unat (sl_page c) + i * slab_size c"
    using unat_in_page[OF assms(1)] by (simp only: i(1) cell_def)
  moreover have "0 < unat (sl_page c)" using assms(1) by (simp add: page_frame_def unat_gt_0)
  ultimately show ?thesis by auto
qed

text \<open>Building the free list of a fresh page.\<close>

lemma push_cells:
  assumes "page_frame (sl_page c)" "slab_size c \<in> {32, 64, 128, 256}" "sl_page c \<noteq> 0" "n \<le> cell_count c"
    "foldl (\<lambda>st i. push_node (cell c i) st) (0, m) [0 ..< n] = (h, m')"
  shows "chain m' h (rev (map (cell c) [0 ..< n])) \<and> (\<forall>b. \<not> in_page (sl_page c) b \<longrightarrow> m' b = m b)"
  using assms(4,5)
proof (induction n arbitrary: h m')
  case (Suc n)
  obtain h1 m1 where st: "foldl (\<lambda>st i. push_node (cell c i) st) (0, m) [0 ..< n] = (h1, m1)" by fastforce
  then have IH: "chain m1 h1 (rev (map (cell c) [0 ..< n]))" "\<forall>b. \<not> in_page (sl_page c) b \<longrightarrow> m1 b = m b"
    using Suc by auto
  have h: "h = cell c n" "m' = store64 (cell c n) h1 m1" using Suc.prems(2) st by (auto simp: push_node_def)
  have n: "n < cell_count c" "cell c n \<in> cells c" using Suc.prems(1) assms(3) by (auto simp: cells_def)
  have "chain m' h1 (rev (map (cell c) [0 ..< n]))"
  proof (rule chain_cong[OF IH(1)])
    fix x b assume x: "x \<in> set (rev (map (cell c) [0 ..< n]))" and b: "b \<in> span_of x 8"
    obtain i where i: "x = cell c i" "i < n" using x by auto
    then have "x \<in> cells c" "x \<noteq> cell c n"
      using n Suc.prems(1) assms(3) inj_onD[OF inj_cell[OF assms(1,2)], of i n] by (auto simp: cells_def)
    then have "b \<notin> span_of (cell c n) 8"
      using cells_disjoint[OF assms(1,2) _ n(2)] span_mono[OF size_pos[OF assms(2)]] b by blast
    then show "m' b = m1 b" by (simp add: h store64_other)
  qed
  moreover have "m' b = m b" if "\<not> in_page (sl_page c) b" for b
  proof -
    have "b \<notin> span_of (cell c n) 8"
      using cells_in_page[OF assms(1,2) n(2)] span_mono[OF size_pos[OF assms(2)]] that by blast
    then show ?thesis using IH(2) that by (simp add: h store64_other)
  qed
  ultimately show ?case using cells_nonzero[OF assms(1,2) n(2)] by (simp add: h load_store64)
qed simp

subsection \<open>The invariant\<close>

definition slab_frames :: "SlabAllocator \<Rightarrow> u64 multiset" where
  "slab_frames s = table_frames (\<lambda>c. one_page (sl_page c)) (slab_Caches s)"

text \<open>\<open>U k\<close> are the objects of cache \<open>k\<close> in use, \<open>R\<close> the pages of everybody else.\<close>

definition slab_inv :: "SlabAllocator \<Rightarrow> RAM \<Rightarrow> (nat \<Rightarrow> u64 set) \<Rightarrow> u64 multiset \<Rightarrow> bool" where
  "slab_inv s r U R \<longleftrightarrow> slab_attached s \<and> length (slab_Caches s) = kSlabCacheCount \<and>
     holds_pages r (slab_frames s + R) \<and>
     (\<forall>k < kSlabCacheCount. cache_wf (bytes r) (slab_Caches s ! k) (U k))"

lemma upd_slab_simps [simp]:
  "slab_attached (upd_slab k f s) = slab_attached s"
  "length (slab_Caches (upd_slab k f s)) = length (slab_Caches s)"
  "slab_Caches (upd_slab k f s) = (slab_Caches s)[k := f (slab_Caches s ! k)]"
  by (simp_all add: upd_slab_def)

lemma slab_frames_upd:
  "sl_page (f (slab_Caches s ! k)) = sl_page (slab_Caches s ! k) \<Longrightarrow> k < length (slab_Caches s) \<Longrightarrow>
    slab_frames (upd_slab k f s) = slab_frames s"
  by (simp add: slab_frames_def table_frames_same)

lemma slab_invD:
  assumes "slab_inv s r U R" "k < kSlabCacheCount"
  shows "cache_wf (bytes r) (slab_Caches s ! k) (U k)" "k < length (slab_Caches s)"
  using assms by (simp_all add: slab_inv_def)

lemma cache_wf_page:
  assumes "cache_wf m c L"
  shows "slab_size c \<in> {32, 64, 128, 256}" "sl_page c \<noteq> 0 \<Longrightarrow> page_frame (sl_page c)"
    "L \<subseteq> cells c" "x \<in> cells c \<Longrightarrow> sl_page c \<noteq> 0"
  using assms by (auto simp: cache_wf_def cells_def)

lemma slab_pages_differ:
  assumes "holds_pages r (slab_frames s + R)" "k < length (slab_Caches s)" "l < length (slab_Caches s)" "k \<noteq> l"
    "sl_page (slab_Caches s ! k) \<noteq> 0"
  shows "sl_page (slab_Caches s ! k) \<noteq> sl_page (slab_Caches s ! l)"
proof
  assume e: "sl_page (slab_Caches s ! k) = sl_page (slab_Caches s ! l)"
  have "2 \<le> count (slab_frames s) (sl_page (slab_Caches s ! k))"
    unfolding slab_frames_def
    by (rule table_frames_disjoint[OF assms(2-4)]) (use assms(5) e in simp_all)
  then have "2 \<le> count (slab_frames s + R) (sl_page (slab_Caches s ! k))" by simp
  then show False using holds_once[OF assms(1)] by blast
qed

text \<open>Memory outside the free objects may change at will.\<close>

lemma cache_wf_cong:
  assumes "cache_wf m c L" "\<And>x b. x \<in> cells c - L \<Longrightarrow> b \<in> span_of x (slab_size c) \<Longrightarrow> m' b = m b"
  shows "cache_wf m' c L"
proof -
  obtain xs where xs: "chain m (sl_free_list c) xs" "distinct xs" "set xs \<inter> L = {}" "set xs \<union> L = cells c"
      "unat (sl_free_objects c) = length xs"
    using assms(1) by (auto simp: cache_wf_def)
  have "chain m' (sl_free_list c) xs"
  proof (rule chain_cong[OF xs(1)])
    fix x b assume "x \<in> set xs" "b \<in> span_of x 8"
    then show "m' b = m b"
      using assms(2)[of x b] xs(3,4) span_mono[OF size_pos[OF cache_wf_page(1)[OF assms(1)]]] by blast
  qed
  then show ?thesis using assms(1) xs unfolding cache_wf_def by blast
qed

text \<open>What happens inside the objects of one cache leaves the other caches well-formed.\<close>

lemma slab_inv_upd:
  assumes "slab_inv s r U R" "k < kSlabCacheCount"
    and h: "holds_pages r' (slab_frames (upd_slab k (\<lambda>_. c) s) + R)"
    and wf: "cache_wf (bytes r') c L"
    and out: "\<And>b. \<not> in_page (sl_page c) b \<Longrightarrow> bytes r' b = bytes r b"
    and none: "sl_page c = 0 \<Longrightarrow> bytes r' = bytes r"
  shows "slab_inv (upd_slab k (\<lambda>_. c) s) r' (U(k := L)) R"
proof -
  note I = slab_invD[OF assms(1)]
  have "cache_wf (bytes r') (slab_Caches s ! l) (U l)" if l: "l < kSlabCacheCount" "l \<noteq> k" for l
  proof (rule cache_wf_cong[OF I(1)[OF l(1)]])
    fix x b
    let ?d = "slab_Caches s ! l"
    assume x: "x \<in> cells ?d - U l" and b: "b \<in> span_of x (slab_size ?d)"
    note D = cache_wf_page[OF I(1)[OF l(1)]]
    have p: "sl_page ?d \<noteq> 0" "page_frame (sl_page ?d)" using x D(2,4) by auto
    have b': "in_page (sl_page ?d) b" using cells_in_page[OF p(2) D(1)] x b by blast
    show "bytes r' b = bytes r b"
    proof (cases "sl_page c = 0")
      case False
      then have "page_frame (sl_page c)" using cache_wf_page(2)[OF wf] by simp
      moreover have "sl_page c \<noteq> sl_page ?d"
        using slab_pages_differ[OF h, of k l] l False I(2)[OF assms(2)] I(2)[OF l(1)] by simp
      ultimately have "\<not> in_page (sl_page c) b" using in_page_disjoint[OF _ p(2) _ b'] by blast
      then show ?thesis by (rule out)
    qed (simp add: none)
  qed
  then show ?thesis using assms(1,2) h wf by (auto simp: slab_inv_def nth_list_update)
qed

lemma sizes_word: "slab_size c \<in> {32, 64, 128, 256} \<Longrightarrow> sl_object_size c \<noteq> 0 \<and> unat (kPageSize div sl_object_size c) = cell_count c"
  by (auto simp: slab_size_def cell_count_def kPageSize_def unat_div)

lemma cell_word: "page + of_nat i * sl_object_size c = cell (c\<lparr>sl_page := page\<rparr>) i"
  by (simp add: cell_def slab_size_def)

lemma slab_upd_fields [simp]:
  "slab_size (c\<lparr>sl_page := p\<rparr>) = slab_size c" "slab_size (c\<lparr>sl_total_objects := t\<rparr>) = slab_size c"
  "slab_size (c\<lparr>sl_free_objects := t\<rparr>) = slab_size c" "slab_size (c\<lparr>sl_free_list := t\<rparr>) = slab_size c"
  "cells (c\<lparr>sl_total_objects := t\<rparr>) = cells c" "cells (c\<lparr>sl_free_objects := t\<rparr>) = cells c"
  "cells (c\<lparr>sl_free_list := t\<rparr>) = cells c"
  by (simp_all add: slab_size_def cells_def cell_count_def cell_def cong: image_cong)

lemma GrowCache_inv:
  assumes "slab_inv s r U R" "k < kSlabCacheCount" "GrowCache s r k = (ok, s', r')"
  shows "slab_inv s' r' U R"
    and "ok \<Longrightarrow> sl_free_list (slab_Caches s' ! k) \<noteq> 0 \<and> sl_page (slab_Caches s ! k) = 0"
proof -
  let ?c = "slab_Caches s ! k"
  note I = slab_invD[OF assms(1,2)] and W = cache_wf_page[OF slab_invD(1)[OF assms(1,2)]]
  have goal: "slab_inv s' r' U R \<and> (ok \<longrightarrow> sl_free_list (slab_Caches s' ! k) \<noteq> 0 \<and> sl_page ?c = 0)"
  proof (cases "sl_page ?c = 0")
    case True
    obtain p r1 where al: "alloc_page r = (p, r1)" by fastforce
    have h: "holds_pages r (slab_frames s + R)" "slab_attached s" using assms(1) by (simp_all add: slab_inv_def)
    show ?thesis
    proof (cases "p = 0")
      case True
      have "?c\<lparr>sl_page := 0\<rparr> = ?c" using \<open>sl_page ?c = 0\<close> by (cases ?c) simp
      then have "upd_slab k (\<lambda>c. c\<lparr>sl_page := 0\<rparr>) s = s" by (simp add: upd_slab_def)
      then show ?thesis
        using True assms(1,3) al h \<open>sl_page ?c = 0\<close> holds_alloc_fails[OF h(1)] by (simp add: GrowCache_def)
    next
      case False
      define c1 where "c1 = ?c\<lparr>sl_page := p\<rparr>"
      have pf: "page_frame (sl_page c1)" "slab_size c1 \<in> {32, 64, 128, 256}" "sl_page c1 \<noteq> 0"
        using holds_alloc(3)[OF h(1) al False] W(1) False by (simp_all add: c1_def)
      obtain f m where fm: "foldl (\<lambda>st i. push_node (cell c1 i) st) (0, bytes r1) [0 ..< cell_count c1] = (f, m)"
        by fastforce
      define c2 where "c2 = c1\<lparr>sl_total_objects := kPageSize div sl_object_size ?c,
        sl_free_objects := kPageSize div sl_object_size ?c, sl_free_list := f\<rparr>"
      have cc: "unat (kPageSize div sl_object_size ?c) = cell_count c1"
        using sizes_word[OF W(1)] by (simp add: c1_def cell_count_def)
      have c1u: "c1\<lparr>sl_page := p\<rparr> = c1" "sl_object_size c1 = sl_object_size ?c" by (simp_all add: c1_def)
      have s': "ok" "s' = upd_slab k (\<lambda>_. c2) s" "r' = r1\<lparr>bytes := m\<rparr>"
        using assms(3) \<open>sl_page ?c = 0\<close> h(2) al False fm cc I(2) c1u
        by (auto simp: GrowCache_def Let_def cell_word c1_def[symmetric] c2_def upd_slab_def split: prod.splits)
      let ?xs = "rev (map (cell c1) [0 ..< cell_count c1])"
      note P = push_cells[OF pf order_refl fm]
      have c2: "slab_size c2 = slab_size c1" "cells c2 = cells c1" "sl_page c2 = p" "cell_count c2 = cell_count c1"
        by (simp_all add: c2_def c1_def cell_count_def)
      have "cells c1 = set ?xs" using pf(3) by (auto simp: cells_def)
      moreover have "distinct ?xs" using inj_cell[OF pf(1,2)] by (simp add: distinct_map atLeast0LessThan)
      moreover have "U k = {}" using W(3) \<open>sl_page ?c = 0\<close> by (simp add: cells_def)
      moreover have "unat (sl_free_objects c2) = cell_count c1" "unat (sl_total_objects c2) = cell_count c1"
        "sl_free_list c2 = f"
        using cc by (simp_all add: c2_def)
      ultimately have wf: "cache_wf m c2 (U k)"
        using P pf card_cells[OF pf] by (auto simp: cache_wf_def c2 c1_def intro!: exI[of _ ?xs])
      have "0 < cell_count c1" using pf(2) by (auto simp: cell_count_def)
      then have f: "f \<noteq> 0" using P by (cases ?xs) auto
      have fr: "slab_frames s' = add_mset p (slab_frames s)"
        using table_frames_add[OF I(2), of "\<lambda>c. one_page (sl_page c)" c2] \<open>sl_page ?c = 0\<close> False
        by (simp add: s'(2) slab_frames_def c2(3))
      have "slab_inv s' r' (U(k := U k)) R"
        unfolding s'(2)
      proof (rule slab_inv_upd[OF assms(1,2)])
        show "holds_pages r' (slab_frames (upd_slab k (\<lambda>_. c2) s) + R)"
          using holds_alloc(1)[OF h(1) al False] fr by (simp add: s')
        show "cache_wf (bytes r') c2 (U k)" using wf by (simp add: s'(3))
        show "bytes r' b = bytes r b" if "\<not> in_page (sl_page c2) b" for b
          using P that alloc_page_bytes[OF al] by (simp add: s'(3) c2(3) c1_def)
        show "bytes r' = bytes r" if "sl_page c2 = 0" using that False by (simp add: c2(3))
      qed
      then show ?thesis using f I(2) \<open>sl_page ?c = 0\<close> by (simp add: s'(2) c2_def)
    qed
  qed (use assms in \<open>simp add: GrowCache_def\<close>)
  show "slab_inv s' r' U R" "ok \<Longrightarrow> sl_free_list (slab_Caches s' ! k) \<noteq> 0 \<and> sl_page ?c = 0" using goal by simp_all
qed

lemma FindCache_bound: "slab_inv s r U R \<Longrightarrow> FindCache s n = Some k \<Longrightarrow> k < kSlabCacheCount"
  by (auto simp: FindCache_def slab_inv_def dest: find_indexD(1))

text \<open>Taking the head of the free list.\<close>

lemma take_head:
  assumes "cache_wf m c L" "sl_free_list c \<noteq> 0"
  shows "sl_free_list c \<notin> L \<and>
    cache_wf m (c\<lparr>sl_free_list := load64 m (sl_free_list c), sl_free_objects := sl_free_objects c - 1\<rparr>)
      (insert (sl_free_list c) L)"
proof -
  obtain xs where xs: "chain m (sl_free_list c) xs" "distinct xs" "set xs \<inter> L = {}" "set xs \<union> L = cells c"
      "unat (sl_free_objects c) = length xs"
    using assms(1) by (auto simp: cache_wf_def)
  then obtain ys where ys: "xs = sl_free_list c # ys" using assms(2) by (cases xs) auto
  have "unat (sl_free_objects c - 1) = length ys"
    using xs(5) unat_sub_no_wrap[of 1 "sl_free_objects c"] by (simp add: ys word_le_nat_alt)
  then show ?thesis using assms(1) xs ys unfolding cache_wf_def by (auto intro!: exI[of _ ys])
qed

lemma Slab_Allocate_inv:
  assumes "slab_inv s r U R" "Slab_Allocate s r n = (a, s', r')"
  shows "if a = 0 then slab_inv s' r' U R
    else \<exists>k. FindCache s n = Some k \<and> k < kSlabCacheCount \<and> a \<notin> U k \<and> slab_inv s' r' (U(k := insert a (U k))) R"
proof (cases "FindCache s n")
  case None
  then show ?thesis using assms by (simp add: Slab_Allocate_def)
next
  case (Some k)
  have k: "k < kSlabCacheCount" using FindCache_bound[OF assms(1) Some] .
  obtain ok s1 r1 where g: "(if sl_free_list (slab_Caches s ! k) = 0 then GrowCache s r k else (True, s, r)) = (ok, s1, r1)"
    by (metis surj_pair)
  have inv: "slab_inv s1 r1 U R" "ok \<Longrightarrow> sl_free_list (slab_Caches s1 ! k) \<noteq> 0"
    using g assms(1) GrowCache_inv[OF assms(1) k, of ok s1 r1] by (auto split: if_splits)
  show ?thesis
  proof (cases ok)
    case False
    then show ?thesis using assms(2) Some g inv(1) by (auto simp: Slab_Allocate_def)
  next
    case True
    let ?c = "slab_Caches s1 ! k"
    let ?c' = "?c\<lparr>sl_free_list := load64 (bytes r1) (sl_free_list ?c), sl_free_objects := sl_free_objects ?c - 1\<rparr>"
    have a: "a = sl_free_list ?c" "s' = upd_slab k (\<lambda>_. ?c') s1" "r' = r1"
      using assms(2) Some g True by (auto simp: Slab_Allocate_def upd_slab_def Let_def)
    note H = take_head[OF slab_invD(1)[OF inv(1) k] inv(2)[OF True]]
    have "slab_inv (upd_slab k (\<lambda>_. ?c') s1) r1 (U(k := insert a (U k))) R"
    proof (rule slab_inv_upd[OF inv(1) k])
      show "holds_pages r1 (slab_frames (upd_slab k (\<lambda>_. ?c') s1) + R)"
        using inv(1) slab_frames_upd[of "\<lambda>_. ?c'" s1 k] slab_invD(2)[OF inv(1) k] by (simp add: slab_inv_def)
    qed (use H a in simp_all)
    then show ?thesis using H a Some k inv(2)[OF True] by simp
  qed
qed

lemma used_in_page:
  assumes "cache_wf m c L" "a \<in> L"
  shows "Contains c a" "a \<noteq> 0" "span_of a 8 \<subseteq> {b. in_page (sl_page c) b}"
proof -
  have c: "a \<in> cells c" using cache_wf_page(3)[OF assms(1)] assms(2) by auto
  note p = cache_wf_page(1)[OF assms(1)] cache_wf_page(4)[OF assms(1) c]
  note pf = cache_wf_page(2)[OF assms(1) p(2)]
  show "a \<noteq> 0" by (rule cells_nonzero[OF pf p(1) c])
  have sub: "span_of a (slab_size c) \<subseteq> {b. in_page (sl_page c) b}" by (rule cells_in_page[OF pf p(1) c])
  then show "span_of a 8 \<subseteq> {b. in_page (sl_page c) b}" using span_mono[OF size_pos[OF p(1)]] by blast
  have "a + of_nat 0 \<in> span_of a (slab_size c)" unfolding span_of_def using size_pos[OF p(1)] by (intro imageI) auto
  then obtain i where i: "i < 4096" "a = sl_page c + of_nat i" using sub by (auto simp: in_page_def)
  then have "unat a = unat (sl_page c) + i" using unat_in_page[OF pf i(1)] by simp
  moreover have "unat (sl_page c + 4096) = unat (sl_page c) + 4096" using pf by (simp add: page_frame_def unat_word_ariths)
  ultimately show "Contains c a" using p(2) i(1) by (simp add: Contains_def kPageSize_def word_le_nat_alt word_less_nat_alt)
qed

text \<open>Putting an object in use back at the head.\<close>

lemma put_head:
  assumes "cache_wf m c L" "a \<in> L"
  shows "cache_wf (store64 a (sl_free_list c) m) (c\<lparr>sl_free_list := a, sl_free_objects := sl_free_objects c + 1\<rparr>) (L - {a})"
proof -
  obtain xs where xs: "chain m (sl_free_list c) xs" "distinct xs" "set xs \<inter> L = {}" "set xs \<union> L = cells c"
      "unat (sl_free_objects c) = length xs"
    using assms(1) by (auto simp: cache_wf_def)
  have c: "a \<in> cells c" using cache_wf_page(3)[OF assms(1)] assms(2) by auto
  note p = cache_wf_page(1)[OF assms(1)] cache_wf_page(2)[OF assms(1) cache_wf_page(4)[OF assms(1) c]]
  have "chain (store64 a (sl_free_list c) m) (sl_free_list c) xs"
  proof (rule chain_cong[OF xs(1)])
    fix x b assume x: "x \<in> set xs" and b: "b \<in> span_of x 8"
    have "x \<in> cells c" "x \<noteq> a" using x xs(3,4) assms(2) by auto
    then have "b \<notin> span_of a 8" using cells_disjoint[OF p(2,1) _ c] span_mono[OF size_pos[OF p(1)]] b by blast
    then show "store64 a (sl_free_list c) m b = m b" by (rule store64_other)
  qed
  moreover have "length (a # xs) \<le> 128"
  proof -
    have d: "distinct (a # xs)" "set (a # xs) \<subseteq> cells c" using xs assms(2) c by auto
    have "length (a # xs) = card (set (a # xs))" using distinct_card[OF d(1)] by simp
    also have "\<dots> \<le> card (cells c)" using d(2) by (intro card_mono) (simp_all add: cells_def)
    also have "\<dots> = cell_count c" by (rule card_cells[OF p(2,1) cache_wf_page(4)[OF assms(1) c]])
    also have "\<dots> \<le> 128" using p(1) by (auto simp: cell_count_def)
    finally show ?thesis .
  qed
  then have "unat (sl_free_objects c + 1) = length (a # xs)" using xs(5) by (simp add: unat_word_ariths)
  ultimately show ?thesis
    using assms xs used_in_page(2)[OF assms] unfolding cache_wf_def
    by (auto intro!: exI[of _ "a # xs"] simp: load_store64)
qed

lemma Slab_Free_inv:
  assumes "slab_inv s r U R" "FindCache s n = Some k" "a \<in> U k" "Slab_Free s r a n = (ok, s', r')"
  shows "ok \<and> slab_inv s' r' (U(k := U k - {a})) R"
proof -
  have k: "k < kSlabCacheCount" using FindCache_bound[OF assms(1,2)] .
  let ?c = "slab_Caches s ! k"
  let ?c' = "?c\<lparr>sl_free_list := a, sl_free_objects := sl_free_objects ?c + 1\<rparr>"
  note wf = slab_invD(1)[OF assms(1) k] and U = used_in_page[OF slab_invD(1)[OF assms(1) k] assms(3)]
  have r: "ok" "s' = upd_slab k (\<lambda>_. ?c') s" "r' = r\<lparr>bytes := store64 a (sl_free_list ?c) (bytes r)\<rparr>"
    using assms(2,4) U(1,2) by (auto simp: Slab_Free_def push_node_def upd_slab_def Let_def)
  have "slab_inv (upd_slab k (\<lambda>_. ?c') s) r' (U(k := U k - {a})) R"
  proof (rule slab_inv_upd[OF assms(1) k])
    show "holds_pages r' (slab_frames (upd_slab k (\<lambda>_. ?c') s) + R)"
      using assms(1) slab_frames_upd[of "\<lambda>_. ?c'" s k] slab_invD(2)[OF assms(1) k] by (simp add: slab_inv_def r(3))
    show "cache_wf (bytes r') ?c' (U k - {a})" using put_head[OF wf assms(3)] by (simp add: r(3))
    show "bytes r' b = bytes r b" if "\<not> in_page (sl_page ?c') b" for b
      using that U(3) store64_other[of b a] by (auto simp: r(3))
    show "bytes r' = bytes r" if "sl_page ?c' = 0" using that U(1) by (simp add: Contains_def)
  qed
  then show ?thesis using r by simp
qed

lemma Slab_Init_inv: "holds_pages r R \<Longrightarrow> slab_inv (Slab_Init s) r (\<lambda>_. {}) R"
proof -
  assume h: "holds_pages r R"
  have "slab_frames (Slab_Init s) = {#}" by (auto simp: slab_frames_def Slab_Init_def intro!: table_frames_empty)
  moreover have "cache_wf (bytes r) (slab_Caches (Slab_Init s) ! k) {}" if "k < kSlabCacheCount" for k
  proof -
    have "k = 0 \<or> k = 1 \<or> k = 2 \<or> k = 3" using that by (auto simp: kSlabCacheCount_def)
    then show ?thesis
      by (auto simp: cache_wf_def Slab_Init_def slab_sizes_def slab_size_def cells_def intro!: exI[of _ "[]"])
  qed
  ultimately show ?thesis using h by (simp add: slab_inv_def Slab_Init_def slab_sizes_def kSlabCacheCount_def)
qed

lemma prime_caches_inv:
  "slab_inv s r U R \<Longrightarrow> \<forall>k \<in> set ks. k < kSlabCacheCount \<Longrightarrow> prime_caches s r ks = (ok, s', r') \<Longrightarrow> slab_inv s' r' U R"
proof (induction s r ks arbitrary: ok rule: prime_caches.induct)
  case (2 s r k ks)
  obtain o1 s1 r1 where g: "GrowCache s r k = (o1, s1, r1)" by (metis surj_pair)
  have "slab_inv s1 r1 U R" using GrowCache_inv(1)[OF 2(2) _ g] 2(3) by simp
  then show ?case using 2 g by (cases o1) auto
qed simp

subsection \<open>Runs\<close>

text \<open>
  The allocator, the memory and the objects in use, each with the number of its cache. The
  users of the allocator write into their objects and free each one with a size of its class;
  the rest of the kernel keeps its hands off the pages of the slabs.
\<close>

record SlabWorld =
  sw_slab :: SlabAllocator
  sw_ram :: RAM
  sw_used :: "(u64 \<times> nat) set"

definition used_of :: "SlabWorld \<Rightarrow> nat \<Rightarrow> u64 set" where
  "used_of w k = {x. (x, k) \<in> sw_used w}"

inductive slab_step :: "SlabWorld \<Rightarrow> SlabWorld \<Rightarrow> bool" where
  prime: "Prime (sw_slab w) (sw_ram w) = (ok, s', r') \<Longrightarrow> slab_step w (w\<lparr>sw_slab := s', sw_ram := r'\<rparr>)"
| failed: "Slab_Allocate (sw_slab w) (sw_ram w) n = (0, s', r') \<Longrightarrow> slab_step w (w\<lparr>sw_slab := s', sw_ram := r'\<rparr>)"
| allocate: "Slab_Allocate (sw_slab w) (sw_ram w) n = (a, s', r') \<Longrightarrow> a \<noteq> 0 \<Longrightarrow> FindCache (sw_slab w) n = Some k \<Longrightarrow>
    slab_step w (w\<lparr>sw_slab := s', sw_ram := r', sw_used := insert (a, k) (sw_used w)\<rparr>)"
| release: "(a, k) \<in> sw_used w \<Longrightarrow> FindCache (sw_slab w) n = Some k \<Longrightarrow> Slab_Free (sw_slab w) (sw_ram w) a n = (ok, s', r') \<Longrightarrow>
    slab_step w (w\<lparr>sw_slab := s', sw_ram := r', sw_used := sw_used w - {(a, k)}\<rparr>)"
| store: "(a, k) \<in> sw_used w \<Longrightarrow> b \<in> span_of a (slab_size (slab_Caches (sw_slab w) ! k)) \<Longrightarrow>
    slab_step w (w\<lparr>sw_ram := (sw_ram w)\<lparr>bytes := (bytes (sw_ram w))(b := v)\<rparr>\<rparr>)"
| other: "holds_pages r' (slab_frames (sw_slab w)) \<Longrightarrow>
    (\<And>c b. c \<in> set (slab_Caches (sw_slab w)) \<Longrightarrow> sl_page c \<noteq> 0 \<Longrightarrow> in_page (sl_page c) b \<Longrightarrow> bytes r' b = bytes (sw_ram w) b) \<Longrightarrow>
    slab_step w (w\<lparr>sw_ram := r'\<rparr>)"

definition world_ok :: "SlabWorld \<Rightarrow> bool" where
  "world_ok w \<longleftrightarrow> slab_inv (sw_slab w) (sw_ram w) (used_of w) {#} \<and> (\<forall>(a, k) \<in> sw_used w. k < kSlabCacheCount)"

lemma used_of_simps [simp]:
  "used_of (w\<lparr>sw_slab := s\<rparr>) = used_of w" "used_of (w\<lparr>sw_ram := r\<rparr>) = used_of w"
  "used_of (w\<lparr>sw_used := insert (a, k) U\<rparr>) = (used_of (w\<lparr>sw_used := U\<rparr>))(k := insert a (used_of (w\<lparr>sw_used := U\<rparr>) k))"
  "used_of (w\<lparr>sw_used := U - {(a, k)}\<rparr>) = (used_of (w\<lparr>sw_used := U\<rparr>))(k := used_of (w\<lparr>sw_used := U\<rparr>) k - {a})"
  "used_of (w\<lparr>sw_used := sw_used w\<rparr>) = used_of w"
  by (auto simp: used_of_def fun_eq_iff)

lemma slab_inv_bytes:
  assumes "slab_inv s r U R" "holds_pages r' (slab_frames s + R')"
    and "\<And>k x b. k < kSlabCacheCount \<Longrightarrow> x \<in> cells (slab_Caches s ! k) - U k \<Longrightarrow>
      b \<in> span_of x (slab_size (slab_Caches s ! k)) \<Longrightarrow> bytes r' b = bytes r b"
  shows "slab_inv s r' U R'"
  using assms cache_wf_cong[of "bytes r" _ _ "bytes r'"] unfolding slab_inv_def by blast

lemma world_ok_write:
  assumes "world_ok w" "(a, k) \<in> sw_used w" "b \<in> span_of a (slab_size (slab_Caches (sw_slab w) ! k))"
  shows "world_ok (w\<lparr>sw_ram := (sw_ram w)\<lparr>bytes := (bytes (sw_ram w))(b := v)\<rparr>\<rparr>)"
proof -
  let ?s = "sw_slab w" and ?r = "sw_ram w"
  have inv: "slab_inv ?s ?r (used_of w) {#}" and k: "k < kSlabCacheCount" and a: "a \<in> used_of w k"
    using assms(1,2) by (auto simp: world_ok_def used_of_def)
  have h: "holds_pages ?r (slab_frames ?s + {#})" using inv by (simp add: slab_inv_def)
  note K = slab_invD[OF inv k]
  have aK: "a \<in> cells (slab_Caches ?s ! k)" using cache_wf_page(3)[OF K(1)] a by auto
  note PK = cache_wf_page(1)[OF K(1)] cache_wf_page(2)[OF K(1) cache_wf_page(4)[OF K(1) aK]]
  have "slab_inv ?s (?r\<lparr>bytes := (bytes ?r)(b := v)\<rparr>) (used_of w) {#}"
  proof (rule slab_inv_bytes[OF inv])
    fix l x c
    assume l: "l < kSlabCacheCount" and x: "x \<in> cells (slab_Caches ?s ! l) - used_of w l"
      and c: "c \<in> span_of x (slab_size (slab_Caches ?s ! l))"
    note L = slab_invD[OF inv l]
    have xL: "x \<in> cells (slab_Caches ?s ! l)" using x by simp
    note PL = cache_wf_page(1)[OF L(1)] cache_wf_page(2)[OF L(1) cache_wf_page(4)[OF L(1) xL]]
    have "span_of x (slab_size (slab_Caches ?s ! l)) \<inter> span_of a (slab_size (slab_Caches ?s ! k)) = {}"
    proof (cases "l = k")
      case True
      then show ?thesis using cells_disjoint[OF PK(2,1) _ aK, of x] x a by auto
    next
      case False
      show ?thesis
        using cells_other_page[OF PL(2) PK(2) slab_pages_differ[OF h L(2) K(2) False cache_wf_page(4)[OF L(1) xL]] PL(1) PK(1) xL aK] .
    qed
    then have "c \<noteq> b" using c assms(3) by blast
    then show "bytes (?r\<lparr>bytes := (bytes ?r)(b := v)\<rparr>) c = bytes ?r c" by simp
  qed (use h in simp)
  then show ?thesis using assms(1) by (simp add: world_ok_def)
qed

lemma world_ok_other:
  assumes "world_ok w" "holds_pages r' (slab_frames (sw_slab w))"
    "\<And>c b. c \<in> set (slab_Caches (sw_slab w)) \<Longrightarrow> sl_page c \<noteq> 0 \<Longrightarrow> in_page (sl_page c) b \<Longrightarrow> bytes r' b = bytes (sw_ram w) b"
  shows "world_ok (w\<lparr>sw_ram := r'\<rparr>)"
proof -
  let ?s = "sw_slab w"
  have inv: "slab_inv ?s (sw_ram w) (used_of w) {#}" using assms(1) by (simp add: world_ok_def)
  have "slab_inv ?s r' (used_of w) {#}"
  proof (rule slab_inv_bytes[OF inv])
    fix k x b
    assume k: "k < kSlabCacheCount" and x: "x \<in> cells (slab_Caches ?s ! k) - used_of w k"
      and b: "b \<in> span_of x (slab_size (slab_Caches ?s ! k))"
    note K = slab_invD[OF inv k]
    have xK: "x \<in> cells (slab_Caches ?s ! k)" using x by simp
    note P = cache_wf_page(4)[OF K(1) xK]
    have "in_page (sl_page (slab_Caches ?s ! k)) b"
      using cells_in_page[OF cache_wf_page(2)[OF K(1) P] cache_wf_page(1)[OF K(1)] xK] b by blast
    then show "bytes r' b = bytes (sw_ram w) b" using assms(3)[OF nth_mem[OF K(2)] P] by blast
  qed (use assms(2) in simp)
  then show ?thesis using assms(1) by (simp add: world_ok_def)
qed

lemma world_ok_step: "slab_step w w' \<Longrightarrow> world_ok w \<Longrightarrow> world_ok w'"
proof (induction rule: slab_step.induct)
  case (prime w ok s' r')
  then show ?case using prime_caches_inv[of "sw_slab w" "sw_ram w" "used_of w" "{#}" "[0 ..< kSlabCacheCount]" ok s' r']
    by (simp add: world_ok_def Prime_def)
next
  case (failed w n s' r')
  then show ?case using Slab_Allocate_inv[of "sw_slab w" "sw_ram w" "used_of w" "{#}" n 0 s' r'] by (simp add: world_ok_def)
next
  case (allocate w n a s' r' k)
  then show ?case using Slab_Allocate_inv[of "sw_slab w" "sw_ram w" "used_of w" "{#}" n a s' r'] by (auto simp: world_ok_def)
next
  case (release a k w n ok s' r')
  have "a \<in> used_of w k" using release(1) by (simp add: used_of_def)
  then show ?case using release Slab_Free_inv[of "sw_slab w" "sw_ram w" "used_of w" "{#}" n k a ok s' r'] by (auto simp: world_ok_def)
next
  case (store a k w b v)
  then show ?case using world_ok_write by blast
next
  case (other r' w)
  then show ?case using world_ok_other[of w r'] by blast
qed

lemma world_ok_run: "slab_step\<^sup>*\<^sup>* w w' \<Longrightarrow> world_ok w \<Longrightarrow> world_ok w'"
  by (induction rule: rtranclp_induct) (auto dest: world_ok_step)

definition slab_start :: "SlabAllocator \<Rightarrow> RAM \<Rightarrow> SlabWorld" where
  "slab_start s r = \<lparr>sw_slab = Slab_Init s, sw_ram = r, sw_used = {}\<rparr>"

lemma slab_start_ok: "holds_pages r {#} \<Longrightarrow> world_ok (slab_start s r)"
  using Slab_Init_inv[of r "{#}" s] by (simp add: world_ok_def slab_start_def used_of_def[abs_def])

lemma world_objects:
  assumes "world_ok w" "(a, k) \<in> sw_used w"
  shows "k < kSlabCacheCount" "a \<in> cells (slab_Caches (sw_slab w) ! k)" "a \<noteq> 0"
    "slab_size (slab_Caches (sw_slab w) ! k) \<in> {32, 64, 128, 256}"
    "page_frame (sl_page (slab_Caches (sw_slab w) ! k))" "sl_page (slab_Caches (sw_slab w) ! k) \<noteq> 0"
proof -
  have inv: "slab_inv (sw_slab w) (sw_ram w) (used_of w) {#}" and k: "k < kSlabCacheCount" and a: "a \<in> used_of w k"
    using assms by (auto simp: world_ok_def used_of_def)
  note W = slab_invD(1)[OF inv k]
  show "k < kSlabCacheCount" by (rule k)
  show c: "a \<in> cells (slab_Caches (sw_slab w) ! k)" using cache_wf_page(3)[OF W] a by auto
  show "slab_size (slab_Caches (sw_slab w) ! k) \<in> {32, 64, 128, 256}" by (rule cache_wf_page(1)[OF W])
  show "sl_page (slab_Caches (sw_slab w) ! k) \<noteq> 0" by (rule cache_wf_page(4)[OF W c])
  then show "page_frame (sl_page (slab_Caches (sw_slab w) ! k))" by (rule cache_wf_page(2)[OF W])
  show "a \<noteq> 0" by (rule used_in_page(2)[OF W a])
qed

lemma world_disjoint:
  assumes "world_ok w" "(a, k) \<in> sw_used w" "(b, l) \<in> sw_used w" "(a, k) \<noteq> (b, l)"
  shows "span_of a (slab_size (slab_Caches (sw_slab w) ! k)) \<inter> span_of b (slab_size (slab_Caches (sw_slab w) ! l)) = {}"
proof (cases "k = l")
  case True
  then show ?thesis
    using cells_disjoint[OF world_objects(5,4,2)[OF assms(1,2)] world_objects(2)[OF assms(1,3), folded True]] assms(4) by auto
next
  case False
  have inv: "slab_inv (sw_slab w) (sw_ram w) (used_of w) {#}" using assms(1) by (simp add: world_ok_def)
  have h: "holds_pages (sw_ram w) (slab_frames (sw_slab w) + {#})" using inv by (simp add: slab_inv_def)
  note A = world_objects[OF assms(1,2)] and B = world_objects[OF assms(1,3)]
  note d = slab_pages_differ[OF h slab_invD(2)[OF inv A(1)] slab_invD(2)[OF inv B(1)] False A(6)]
  show ?thesis by (rule cells_other_page[OF A(5) B(5) d A(4) B(4) A(2) B(2)])
qed

lemma world_count:
  assumes "world_ok w" "k < kSlabCacheCount"
  shows "unat (sl_free_objects (slab_Caches (sw_slab w) ! k)) + card (used_of w k) =
    unat (sl_total_objects (slab_Caches (sw_slab w) ! k))"
proof -
  let ?c = "slab_Caches (sw_slab w) ! k"
  have "slab_inv (sw_slab w) (sw_ram w) (used_of w) {#}" using assms(1) by (simp add: world_ok_def)
  then have "cache_wf (bytes (sw_ram w)) ?c (used_of w k)" using assms(2) by (rule slab_invD(1))
  then obtain xs where xs: "distinct xs" "set xs \<inter> used_of w k = {}" "set xs \<union> used_of w k = cells ?c"
      "unat (sl_free_objects ?c) = length xs" "unat (sl_total_objects ?c) = card (cells ?c)"
    by (auto simp: cache_wf_def)
  have "finite (used_of w k)" using xs(3) by (metis cells_def finite.emptyI finite_Un finite_imageI finite_lessThan)
  then have "card (cells ?c) = card (set xs) + card (used_of w k)" using xs(2,3) card_Un_disjoint[of "set xs" "used_of w k"] by simp
  then show ?thesis using xs(1,4,5) by (simp add: distinct_card)
qed

text \<open>An allocation fails only without a size class, without a page, or with the class in use.\<close>

lemma Allocate_null_iff:
  assumes "world_ok w"
  shows "fst (Slab_Allocate (sw_slab w) (sw_ram w) n) = 0 \<longleftrightarrow>
    (case FindCache (sw_slab w) n of None \<Rightarrow> True
     | Some k \<Rightarrow> if sl_page (slab_Caches (sw_slab w) ! k) = 0 then fst (alloc_page (sw_ram w)) = 0
         else card (used_of w k) = unat (sl_total_objects (slab_Caches (sw_slab w) ! k)))"
proof (cases "FindCache (sw_slab w) n")
  case None
  then show ?thesis by (simp add: Slab_Allocate_def)
next
  case (Some k)
  let ?s = "sw_slab w" and ?r = "sw_ram w" and ?c = "slab_Caches (sw_slab w) ! k"
  have inv: "slab_inv ?s ?r (used_of w) {#}" using assms by (simp add: world_ok_def)
  have k: "k < kSlabCacheCount" using FindCache_bound[OF inv Some] .
  note W = slab_invD(1)[OF inv k]
  obtain xs where xs: "chain (bytes ?r) (sl_free_list ?c) xs" "set xs \<union> used_of w k = cells ?c" "unat (sl_free_objects ?c) = length xs"
    using W by (auto simp: cache_wf_def)
  have head: "sl_free_list ?c = 0 \<longleftrightarrow> xs = []" using xs(1) by (cases xs) auto
  obtain ok s1 r1 where g: "GrowCache ?s ?r k = (ok, s1, r1)" by (metis surj_pair)
  have ok: "ok \<longleftrightarrow> sl_page ?c = 0 \<and> fst (alloc_page ?r) \<noteq> 0"
    using g inv by (auto simp: GrowCache_def slab_inv_def Let_def split: prod.splits if_splits)
  note G = GrowCache_inv(2)[OF inv k g]
  show ?thesis
  proof (cases "sl_page ?c = 0")
    case True
    then have "xs = []" using xs(2) by (simp add: cells_def)
    then show ?thesis using Some g ok G True head by (cases ok) (simp_all add: Slab_Allocate_def Let_def)
  next
    case False
    have "card (used_of w k) = unat (sl_total_objects ?c) \<longleftrightarrow> xs = []" using world_count[OF assms k] xs(3) by auto
    then show ?thesis using Some g ok False head by (auto simp: Slab_Allocate_def Let_def)
  qed
qed

text \<open>
  C13. The slab allocator never hands out memory twice and never loses an object. In every
  state reached from its initialisation by priming, allocations, frees of objects in use and
  arbitrary writes of the users into their objects: two objects in use never share a byte,
  each lies in the page of its size class, which is a page the allocator owns; free and used
  objects add up to the objects of the class, although the free list is kept inside the free
  objects; and an allocation fails exactly when there is no class for the size, no page
  left for an empty class, or no object left in a class that has its page.
\<close>

theorem slab_objects_disjoint:
  assumes "slab_step\<^sup>*\<^sup>* (slab_start s r) w" "holds_pages r {#}"
  shows "(\<forall>(a, k) \<in> sw_used w. \<forall>(b, l) \<in> sw_used w. (a, k) \<noteq> (b, l) \<longrightarrow>
       span_of a (slab_size (slab_Caches (sw_slab w) ! k)) \<inter> span_of b (slab_size (slab_Caches (sw_slab w) ! l)) = {}) \<and>
    (\<forall>(a, k) \<in> sw_used w. k < kSlabCacheCount \<and>
       span_of a (slab_size (slab_Caches (sw_slab w) ! k)) \<subseteq> {b. in_page (sl_page (slab_Caches (sw_slab w) ! k)) b} \<and>
       frame_used (pmm (sw_ram w)) (sl_page (slab_Caches (sw_slab w) ! k))) \<and>
    (\<forall>k < kSlabCacheCount. unat (sl_free_objects (slab_Caches (sw_slab w) ! k)) + card (used_of w k) =
       unat (sl_total_objects (slab_Caches (sw_slab w) ! k))) \<and>
    (fst (Slab_Allocate (sw_slab w) (sw_ram w) n) = 0 \<longleftrightarrow>
       (case FindCache (sw_slab w) n of None \<Rightarrow> True
        | Some k \<Rightarrow> if sl_page (slab_Caches (sw_slab w) ! k) = 0 then fst (alloc_page (sw_ram w)) = 0
            else card (used_of w k) = unat (sl_total_objects (slab_Caches (sw_slab w) ! k))))"
proof -
  have ok: "world_ok w" using world_ok_run[OF assms(1) slab_start_ok[OF assms(2)]] .
  have own: "k < kSlabCacheCount \<and>
       span_of a (slab_size (slab_Caches (sw_slab w) ! k)) \<subseteq> {b. in_page (sl_page (slab_Caches (sw_slab w) ! k)) b} \<and>
       frame_used (pmm (sw_ram w)) (sl_page (slab_Caches (sw_slab w) ! k))" if u: "(a, k) \<in> sw_used w" for a k
  proof -
    note A = world_objects[OF ok u]
    have inv: "slab_inv (sw_slab w) (sw_ram w) (used_of w) {#}" using ok by (simp add: world_ok_def)
    have "sl_page (slab_Caches (sw_slab w) ! k) \<in># slab_frames (sw_slab w)"
      unfolding slab_frames_def by (rule table_frames_mem[OF slab_invD(2)[OF inv A(1)]]) (simp add: A(6))
    then have "frame_used (pmm (sw_ram w)) (sl_page (slab_Caches (sw_slab w) ! k))"
      using inv by (simp add: slab_inv_def holds_pages_def)
    then show ?thesis using A(1) cells_in_page[OF A(5,4,2)] by simp
  qed
  show ?thesis
    using world_disjoint[OF ok] own world_count[OF ok] Allocate_null_iff[OF ok, of n] by (intro conjI) blast+
qed


definition blank_slab :: SlabAllocator where
  "blank_slab = \<lparr>slab_attached = False, slab_Caches = []\<rparr>"

theorem slab_objects_disjoint_witness:
  "\<exists>w a. slab_step\<^sup>*\<^sup>* (slab_start blank_slab demo_ram) w \<and> sw_used w = {(a, 0)} \<and> a \<noteq> 0 \<and>
     span_of a (slab_size (slab_Caches (sw_slab w) ! 0)) \<subseteq> {b. in_page (sl_page (slab_Caches (sw_slab w) ! 0)) b} \<and>
     unat (sl_free_objects (slab_Caches (sw_slab w) ! 0)) + card (used_of w 0) = unat (sl_total_objects (slab_Caches (sw_slab w) ! 0))"
proof -
  let ?w = "slab_start blank_slab demo_ram"
  obtain a s' r' where al: "Slab_Allocate (sw_slab ?w) (sw_ram ?w) 24 = (a, s', r')" by (metis surj_pair)
  have k: "FindCache (sw_slab ?w) 24 = Some 0" by (simp add: FindCache_def slab_start_def Slab_Init_def slab_sizes_def)
  have "sl_page (slab_Caches (sw_slab ?w) ! 0) = 0" "sw_ram ?w = demo_ram"
    by (simp_all add: slab_start_def Slab_Init_def slab_sizes_def)
  then have a: "a \<noteq> 0"
    using slab_objects_disjoint[OF rtranclp.rtrancl_refl demo_ram_holds, of blank_slab 24] k al demo_ram_alloc by simp
  define w where "w = ?w\<lparr>sw_slab := s', sw_ram := r', sw_used := insert (a, 0) (sw_used ?w)\<rparr>"
  have run: "slab_step\<^sup>*\<^sup>* ?w w" using slab_step.allocate[OF al a k] unfolding w_def by blast
  have used: "sw_used w = {(a, 0)}" by (simp add: w_def slab_start_def)
  then show ?thesis
    using slab_objects_disjoint[OF run demo_ram_holds, of 24] run a by (intro exI[of _ w] exI[of _ a]) (simp add: kSlabCacheCount_def)
qed

text \<open>
  Freeing twice is not detected: the second free succeeds, the object is then its own
  successor in the free list, and every later allocation of the class returns it.
\<close>

lemma slab_double_free_hands_out_twice:
  assumes "FindCache s n = Some k" "k < length (slab_Caches s)" "Contains (slab_Caches s ! k) a" "a \<noteq> 0"
  shows "\<exists>s1 r1 s2 r2 s3 s4. Slab_Free s r a n = (True, s1, r1) \<and> Slab_Free s1 r1 a n = (True, s2, r2) \<and>
    Slab_Allocate s2 r2 n = (a, s3, r2) \<and> Slab_Allocate s3 r2 n = (a, s4, r2)"
proof -
  have find: "FindCache (upd_slab k f t) n = Some k"
    if "FindCache t n = Some k" "sl_object_size (f (slab_Caches t ! k)) = sl_object_size (slab_Caches t ! k)" for f t
  proof -
    have "find_index (\<lambda>c. n \<le> sl_object_size c) (slab_Caches t) = Some k" using that(1) by (simp add: FindCache_def)
    then show ?thesis using that(2) find_indexD(2) unfolding FindCache_def upd_slab_simps by (intro find_index_update_same) fastforce+
  qed
  obtain s1 r1 where f1: "Slab_Free s r a n = (True, s1, r1)" and s1: "FindCache s1 n = Some k" "k < length (slab_Caches s1)"
      "Contains (slab_Caches s1 ! k) a" "sl_free_list (slab_Caches s1 ! k) = a"
    using assms by (simp add: Slab_Free_def push_node_def find Contains_def)
  obtain s2 r2 where f2: "Slab_Free s1 r1 a n = (True, s2, r2)" and s2: "FindCache s2 n = Some k" "k < length (slab_Caches s2)"
      "sl_free_list (slab_Caches s2 ! k) = a" "load64 (bytes r2) a = a"
    using s1 assms(4) by (simp add: Slab_Free_def push_node_def find load_store64)
  obtain s3 where f3: "Slab_Allocate s2 r2 n = (a, s3, r2)" and s3: "FindCache s3 n = Some k"
      "sl_free_list (slab_Caches s3 ! k) = a"
    using s2 assms(4) by (simp add: Slab_Allocate_def find)
  have "fst (Slab_Allocate s3 r2 n) = a" "snd (snd (Slab_Allocate s3 r2 n)) = r2"
    using s3 assms(4) by (simp_all add: Slab_Allocate_def)
  then have "\<exists>s4. Slab_Allocate s3 r2 n = (a, s4, r2)" by (metis prod.collapse)
  then show ?thesis using f1 f2 f3 by blast
qed

end
