(* ===== verification/Mappings.thy ===== *)
theory Mappings
  imports PageManagers
begin

text \<open>
  \<^verbatim>\<open>kernel/src/kernel.cpp\<close>, \<open>PageCache\<close> and \<open>MemoryMappingManager\<close>: the page cache for
  file pages and the memory mappings with demand paging. A mapping of file 0 is anonymous
  and holds its pages itself; the pages of a file mapping belong to the cache, which the
  mapping references.
\<close>

subsection \<open>The page cache\<close>

definition kPageCacheEntryCount :: nat where "kPageCacheEntryCount = 16"

record CacheEntry =
  ce_file_id :: u64
  ce_page_offset :: u64
  ce_physical :: u64
  ce_references :: u16
  ce_dirty :: bool
  ce_active :: bool

record PageCache =
  pc_attached :: bool
  pc_Entries :: "CacheEntry list"

definition no_cache_entry :: CacheEntry where
  "no_cache_entry = \<lparr>ce_file_id = 0, ce_page_offset = 0, ce_physical = 0, ce_references = 0,
     ce_dirty = False, ce_active = False\<rparr>"

definition Cache_Init :: "PageCache \<Rightarrow> PageCache" where
  "Cache_Init pc = \<lparr>pc_attached = True, pc_Entries = replicate kPageCacheEntryCount no_cache_entry\<rparr>"

definition Cache_Acquire :: "PageCache \<Rightarrow> RAM \<Rightarrow> u64 \<Rightarrow> u64 \<Rightarrow> u64 \<times> PageCache \<times> RAM" where
  "Cache_Acquire pc r file_id page_offset =
     (case find_index (\<lambda>e. ce_active e \<and> ce_file_id e = file_id \<and> ce_page_offset e = page_offset) (pc_Entries pc) of
        Some i \<Rightarrow>
          (ce_physical (pc_Entries pc ! i),
           pc\<lparr>pc_Entries := (pc_Entries pc)[i := (pc_Entries pc ! i)
                \<lparr>ce_references := ce_references (pc_Entries pc ! i) + 1\<rparr>]\<rparr>, r)
      | None \<Rightarrow>
          (case find_index (\<lambda>e. \<not> ce_active e) (pc_Entries pc) of
             None \<Rightarrow> (0, pc, r)
           | Some i \<Rightarrow>
               let (physical, r1) = (if pc_attached pc then alloc_page r else (0, r)) in
               if physical = 0 then (0, pc, r1)
               else (physical,
                     pc\<lparr>pc_Entries := (pc_Entries pc)[i := \<lparr>ce_file_id = file_id, ce_page_offset = page_offset,
                          ce_physical = physical, ce_references = 1, ce_dirty = False, ce_active = True\<rparr>]\<rparr>,
                     r1\<lparr>bytes := ClearPage physical (bytes r1)\<rparr>)))"

definition Cache_MarkDirty :: "PageCache \<Rightarrow> u64 \<Rightarrow> PageCache" where
  "Cache_MarkDirty pc physical =
     pc\<lparr>pc_Entries := map (\<lambda>e. if ce_active e \<and> ce_physical e = physical then e\<lparr>ce_dirty := True\<rparr> else e)
          (pc_Entries pc)\<rparr>"

definition Cache_Release :: "PageCache \<Rightarrow> u64 \<Rightarrow> bool \<times> PageCache" where
  "Cache_Release pc physical =
     (case find_index (\<lambda>e. ce_active e \<and> ce_physical e = physical \<and> ce_references e \<noteq> 0) (pc_Entries pc) of
        None \<Rightarrow> (False, pc)
      | Some i \<Rightarrow> (True, pc\<lparr>pc_Entries := (pc_Entries pc)[i := (pc_Entries pc ! i)
                \<lparr>ce_references := ce_references (pc_Entries pc ! i) - 1\<rparr>]\<rparr>))"

definition Cache_Evict :: "PageCache \<Rightarrow> RAM \<Rightarrow> u64 \<Rightarrow> u64 \<Rightarrow> bool \<times> PageCache \<times> RAM" where
  "Cache_Evict pc r file_id page_offset =
     (case find_index (\<lambda>e. ce_active e \<and> ce_file_id e = file_id \<and> ce_page_offset e = page_offset \<and>
             ce_references e = 0) (pc_Entries pc) of
        None \<Rightarrow> (False, pc, r)
      | Some i \<Rightarrow> (True, pc\<lparr>pc_Entries := (pc_Entries pc)[i := no_cache_entry]\<rparr>,
                  free_page r (ce_physical (pc_Entries pc ! i))))"

subsection \<open>Memory mappings\<close>

definition kMemoryMappingCount :: nat where "kMemoryMappingCount = 16"
definition kMappingMaxPages :: u64 where "kMappingMaxPages = 16"

record Mapping =
  mp_address :: u64
  mp_page_count :: u64
  mp_file_id :: u64
  mp_writable :: bool
  mp_demand_paged :: bool
  mp_active :: bool
  mp_pages :: "u64 list"

record MemoryMappingManager =
  mmm_NextAddress :: u64
  mmm_Mappings :: "Mapping list"

text \<open>The mapping manager together with the two managers it is attached to.\<close>

record MapState =
  maps :: MemoryMappingManager
  cache :: PageCache
  ram :: RAM

definition Mappings_Init :: "MapState \<Rightarrow> MapState" where
  "Mappings_Init s = s\<lparr>maps := \<lparr>mmm_NextAddress = 0x40000000,
     mmm_Mappings = map (\<lambda>m. m\<lparr>mp_active := False\<rparr>) (mmm_Mappings (maps s))\<rparr>\<rparr>"

definition upd_mapping :: "nat \<Rightarrow> (Mapping \<Rightarrow> Mapping) \<Rightarrow> MapState \<Rightarrow> MapState" where
  "upd_mapping i f s =
     s\<lparr>maps := (maps s)\<lparr>mmm_Mappings := (mmm_Mappings (maps s))[i := f (mmm_Mappings (maps s) ! i)]\<rparr>\<rparr>"

definition Find :: "MapState \<Rightarrow> u64 \<Rightarrow> nat option" where
  "Find s address = find_index (\<lambda>m. mp_active m \<and> address \<ge> mp_address m \<and>
     address < mp_address m + mp_page_count m * kPageSize) (mmm_Mappings (maps s))"

definition Materialize :: "MapState \<Rightarrow> u64 \<Rightarrow> u64 \<Rightarrow> u64 \<times> MapState" where
  "Materialize s file_id page =
     (if file_id \<noteq> 0 then
        let (a, c, r) = Cache_Acquire (cache s) (ram s) file_id page in (a, s\<lparr>cache := c, ram := r\<rparr>)
      else
        let (physical, r) = alloc_page (ram s) in
        (physical, s\<lparr>ram := (if physical \<noteq> 0 then r\<lparr>bytes := ClearPage physical (bytes r)\<rparr> else r)\<rparr>))"

text \<open>Releases the pages of the mapping, to the cache or to the page allocator.\<close>

definition release_mapped :: "u64 \<Rightarrow> MapState \<Rightarrow> u64 \<Rightarrow> MapState" where
  "release_mapped file_id s page =
     (if page = 0 then s
      else if file_id \<noteq> 0 then s\<lparr>cache := snd (Cache_Release (cache s) page)\<rparr>
      else s\<lparr>ram := free_page (ram s) page\<rparr>)"

definition Unmap :: "MapState \<Rightarrow> u64 \<Rightarrow> bool \<times> MapState" where
  "Unmap s address =
     (case Find s address of None \<Rightarrow> (False, s)
      | Some i \<Rightarrow>
          let m = mmm_Mappings (maps s) ! i in
          if mp_address m \<noteq> address then (False, s)
          else (True, upd_mapping i (\<lambda>m. m\<lparr>mp_active := False\<rparr>)
                  (foldl (release_mapped (mp_file_id m)) s (take (unat (mp_page_count m)) (mp_pages m)))))"

text \<open>The eager loop of \<open>Map\<close>; false when a page could not be materialised.\<close>

fun map_pages :: "nat \<Rightarrow> nat list \<Rightarrow> MapState \<Rightarrow> bool \<times> MapState" where
  "map_pages i [] s = (True, s)"
| "map_pages i (page # pages) s =
     (let (a, s1) = Materialize s (mp_file_id (mmm_Mappings (maps s) ! i)) (of_nat page);
          s2 = upd_mapping i (\<lambda>m. m\<lparr>mp_pages := (mp_pages m)[page := a]\<rparr>) s1
      in if a = 0 then (False, snd (Unmap s2 (mp_address (mmm_Mappings (maps s2) ! i))))
         else map_pages i pages s2)"

definition Map :: "MapState \<Rightarrow> u64 \<Rightarrow> u64 \<Rightarrow> bool \<Rightarrow> bool \<Rightarrow> u64 \<times> MapState" where
  "Map s file_id len writable demand_paged =
     (let pages = (len + kPageSize - 1) div kPageSize in
      if pages = 0 \<or> pages > kMappingMaxPages then (0, s)
      else case find_index (\<lambda>m. \<not> mp_active m) (mmm_Mappings (maps s)) of None \<Rightarrow> (0, s)
      | Some i \<Rightarrow>
          let address = mmm_NextAddress (maps s);
              s1 = upd_mapping i (\<lambda>_. \<lparr>mp_address = address, mp_page_count = pages, mp_file_id = file_id,
                     mp_writable = writable, mp_demand_paged = demand_paged, mp_active = True,
                     mp_pages = replicate 16 0\<rparr>)
                   (s\<lparr>maps := (maps s)\<lparr>mmm_NextAddress := address + pages * kPageSize\<rparr>\<rparr>)
          in if demand_paged then (address, s1)
             else let (ok, s2) = map_pages i [0 ..< unat pages] s1
                  in (if ok then mp_address (mmm_Mappings (maps s2) ! i) else 0, s2))"

definition HandlePageFault :: "MapState \<Rightarrow> u64 \<Rightarrow> bool \<Rightarrow> u64 \<times> MapState" where
  "HandlePageFault s address write =
     (case Find s address of None \<Rightarrow> (0, s)
      | Some i \<Rightarrow>
          let m = mmm_Mappings (maps s) ! i in
          if write \<and> \<not> mp_writable m then (0, s)
          else
            let page = unat ((address - mp_address m) div kPageSize);
                s1 = (if mp_pages m ! page = 0 then
                        let (a, s') = Materialize s (mp_file_id m) (of_nat page)
                        in upd_mapping i (\<lambda>m. m\<lparr>mp_pages := (mp_pages m)[page := a]\<rparr>) s'
                      else s);
                physical = mp_pages (mmm_Mappings (maps s1) ! i) ! page
            in (physical, if write \<and> mp_file_id m \<noteq> 0
                          then s1\<lparr>cache := Cache_MarkDirty (cache s1) physical\<rparr> else s1))"

subsection \<open>The pages of the cache\<close>

definition cache_entry :: "CacheEntry \<Rightarrow> u64 multiset" where
  "cache_entry e = (if ce_active e then {#ce_physical e#} else {#})"

definition cache_frames :: "PageCache \<Rightarrow> u64 multiset" where
  "cache_frames pc = table_frames cache_entry (pc_Entries pc)"

text \<open>The entry of a key, and that no key is cached twice.\<close>

definition cached :: "PageCache \<Rightarrow> u64 \<Rightarrow> u64 \<Rightarrow> nat option" where
  "cached pc file off =
     find_index (\<lambda>e. ce_active e \<and> ce_file_id e = file \<and> ce_page_offset e = off) (pc_Entries pc)"

definition cache_ok :: "PageCache \<Rightarrow> bool" where
  "cache_ok pc \<longleftrightarrow> length (pc_Entries pc) = kPageCacheEntryCount \<and>
     (\<forall>i < kPageCacheEntryCount. ce_active (pc_Entries pc ! i) \<longrightarrow>
        cached pc (ce_file_id (pc_Entries pc ! i)) (ce_page_offset (pc_Entries pc ! i)) = Some i)"

lemma cachedD:
  assumes "cached pc f k = Some i"
  shows "i < length (pc_Entries pc)" "ce_active (pc_Entries pc ! i)" "ce_file_id (pc_Entries pc ! i) = f"
    "ce_page_offset (pc_Entries pc ! i) = k"
  using assms by (auto simp: cached_def dest: find_indexD)

lemma Cache_Acquire_cases:
  assumes "Cache_Acquire pc r f k = (a, pc', r')" "holds_pages r M"
  obtains (hit) i where "cached pc f k = Some i" "a = ce_physical (pc_Entries pc ! i)" "r' = r"
      "pc' = pc\<lparr>pc_Entries := (pc_Entries pc)[i := (pc_Entries pc ! i)
                \<lparr>ce_references := ce_references (pc_Entries pc ! i) + 1\<rparr>]\<rparr>"
    | (miss) i r1 where "cached pc f k = None" "i < length (pc_Entries pc)" "\<not> ce_active (pc_Entries pc ! i)"
      "alloc_page r = (a, r1)" "a \<noteq> 0" "r' = r1\<lparr>bytes := ClearPage a (bytes r)\<rparr>"
      "pc' = pc\<lparr>pc_Entries := (pc_Entries pc)[i := \<lparr>ce_file_id = f, ce_page_offset = k,
                          ce_physical = a, ce_references = 1, ce_dirty = False, ce_active = True\<rparr>]\<rparr>"
    | (full) "a = 0" "pc' = pc" "r' = r"
proof (cases "cached pc f k")
  case (Some i)
  then show ?thesis using assms(1) by (intro hit[of i]) (auto simp: Cache_Acquire_def cached_def)
next
  case None
  obtain b r1 where al: "alloc_page r = (b, r1)" by fastforce
  show ?thesis
  proof (cases "find_index (\<lambda>e. \<not> ce_active e) (pc_Entries pc) = None \<or> \<not> pc_attached pc \<or> b = 0")
    case True
    then have "a = 0 \<and> pc' = pc \<and> r' = r"
      using assms(1) None al holds_alloc_fails[OF assms(2)]
      by (auto simp: Cache_Acquire_def cached_def split: option.splits if_splits)
    then show ?thesis using full by blast
  next
    case False
    then obtain i where i: "find_index (\<lambda>e. \<not> ce_active e) (pc_Entries pc) = Some i" by auto
    have "a = b" "r' = r1\<lparr>bytes := ClearPage b (bytes r)\<rparr>"
      "pc' = pc\<lparr>pc_Entries := (pc_Entries pc)[i := \<lparr>ce_file_id = f, ce_page_offset = k,
                          ce_physical = b, ce_references = 1, ce_dirty = False, ce_active = True\<rparr>]\<rparr>"
      using assms(1) None False i al alloc_page_bytes[OF al] by (auto simp: Cache_Acquire_def cached_def)
    then show ?thesis using None False al find_indexD[OF i] by (intro miss[of i r1]) auto
  qed
qed

lemma Cache_Acquire_holds:
  assumes "holds_pages r (cache_frames pc + R)" "Cache_Acquire pc r f k = (a, pc', r')"
  shows "holds_pages r' (cache_frames pc' + R)"
proof (cases rule: Cache_Acquire_cases[OF assms(2,1), case_names hit miss full])
  case (hit i)
  then have "cache_frames pc' = cache_frames pc"
    using cachedD[OF hit(1)] by (simp add: cache_frames_def table_frames_same cache_entry_def)
  then show ?thesis using assms(1) hit(3) by simp
next
  case (miss i r1)
  then have "cache_frames pc' = add_mset a (cache_frames pc)"
    by (simp add: cache_frames_def table_frames_add cache_entry_def)
  then show ?thesis using holds_alloc(1)[OF assms(1) miss(4,5)] miss(6) by simp
next
  case full
  then show ?thesis using assms(1) by simp
qed

lemma cached_keys_cong:
  "length es = length (pc_Entries pc) \<Longrightarrow>
   (\<And>i. i < length es \<Longrightarrow> ce_active (es ! i) = ce_active (pc_Entries pc ! i) \<and>
      ce_file_id (es ! i) = ce_file_id (pc_Entries pc ! i) \<and>
      ce_page_offset (es ! i) = ce_page_offset (pc_Entries pc ! i)) \<Longrightarrow>
   cached (pc\<lparr>pc_Entries := es\<rparr>) f k = cached pc f k"
  by (auto simp: cached_def intro!: find_index_cong)

lemma cache_ok_cong:
  assumes "cache_ok pc" "length es = length (pc_Entries pc)"
    "\<And>i. i < length es \<Longrightarrow> ce_active (es ! i) = ce_active (pc_Entries pc ! i) \<and>
      ce_file_id (es ! i) = ce_file_id (pc_Entries pc ! i) \<and>
      ce_page_offset (es ! i) = ce_page_offset (pc_Entries pc ! i)"
  shows "cache_ok (pc\<lparr>pc_Entries := es\<rparr>)"
  using assms cached_keys_cong[OF assms(2,3)] by (auto simp: cache_ok_def)

lemma cache_ok_refs:
  "cache_ok pc \<Longrightarrow> i < length (pc_Entries pc) \<Longrightarrow>
    cache_ok (pc\<lparr>pc_Entries := (pc_Entries pc)[i := (pc_Entries pc ! i)\<lparr>ce_references := x\<rparr>]\<rparr>)"
  by (rule cache_ok_cong) (auto simp: nth_list_update)

lemma cached_unique:
  assumes "cache_ok pc" "i < length (pc_Entries pc)" "ce_active (pc_Entries pc ! i)" "j < length (pc_Entries pc)"
    "ce_active (pc_Entries pc ! j)" "ce_file_id (pc_Entries pc ! j) = ce_file_id (pc_Entries pc ! i)"
    "ce_page_offset (pc_Entries pc ! j) = ce_page_offset (pc_Entries pc ! i)"
  shows "i = j"
proof -
  have "cached pc (ce_file_id (pc_Entries pc ! i)) (ce_page_offset (pc_Entries pc ! i)) = Some i"
    "cached pc (ce_file_id (pc_Entries pc ! j)) (ce_page_offset (pc_Entries pc ! j)) = Some j"
    using assms(1-5) by (auto simp: cache_ok_def)
  then show ?thesis using assms(6,7) by simp
qed

lemma cache_okI:
  assumes "length (pc_Entries pc) = kPageCacheEntryCount"
    "\<And>i j. i < length (pc_Entries pc) \<Longrightarrow> ce_active (pc_Entries pc ! i) \<Longrightarrow> j < length (pc_Entries pc) \<Longrightarrow>
      ce_active (pc_Entries pc ! j) \<Longrightarrow> ce_file_id (pc_Entries pc ! j) = ce_file_id (pc_Entries pc ! i) \<Longrightarrow>
      ce_page_offset (pc_Entries pc ! j) = ce_page_offset (pc_Entries pc ! i) \<Longrightarrow> j = i"
  shows "cache_ok pc"
  unfolding cache_ok_def cached_def
proof (intro conjI allI impI)
  fix i
  assume "i < kPageCacheEntryCount" "ce_active (pc_Entries pc ! i)"
  then show "find_index (\<lambda>e. ce_active e \<and> ce_file_id e = ce_file_id (pc_Entries pc ! i) \<and>
      ce_page_offset e = ce_page_offset (pc_Entries pc ! i)) (pc_Entries pc) = Some i"
    using assms by (intro find_index_unique) auto
qed (rule assms(1))

lemma Cache_Acquire_ok:
  assumes "holds_pages r M" "cache_ok pc" "Cache_Acquire pc r f k = (a, pc', r')"
  shows "cache_ok pc'"
proof (cases rule: Cache_Acquire_cases[OF assms(3,1), case_names hit miss full])
  case (hit i)
  then show ?thesis using cache_ok_refs[OF assms(2)] cachedD by metis
next
  case (miss i r1)
  have none: "\<not> (ce_active (pc_Entries pc ! j) \<and> ce_file_id (pc_Entries pc ! j) = f \<and> ce_page_offset (pc_Entries pc ! j) = k)"
    if "j < length (pc_Entries pc)" for j
    using miss(1) that by (auto simp: cached_def dest: find_index_NoneD)
  show ?thesis
  proof (rule cache_okI)
    show "length (pc_Entries pc') = kPageCacheEntryCount" using assms(2) miss(7) by (simp add: cache_ok_def)
    fix j l
    assume a: "j < length (pc_Entries pc')" "ce_active (pc_Entries pc' ! j)" "l < length (pc_Entries pc')"
      "ce_active (pc_Entries pc' ! l)" "ce_file_id (pc_Entries pc' ! l) = ce_file_id (pc_Entries pc' ! j)"
      "ce_page_offset (pc_Entries pc' ! l) = ce_page_offset (pc_Entries pc' ! j)"
    show "l = j"
    proof (cases "l = i \<or> j = i")
      case True
      then show ?thesis using a none[of l] none[of j] miss(2,7) by (auto simp: nth_list_update split: if_splits)
    next
      case False
      then show ?thesis using a miss(7) cached_unique[OF assms(2), of l j] by simp
    qed
  qed
next
  case full
  then show ?thesis using assms(2) by simp
qed

lemma Cache_Release_frames:
  assumes "Cache_Release pc p = (b, pc')"
  shows "cache_frames pc' = cache_frames pc" "cache_ok pc \<Longrightarrow> cache_ok pc'"
proof -
  have "cache_frames pc' = cache_frames pc \<and> (cache_ok pc \<longrightarrow> cache_ok pc')"
  proof (cases "find_index (\<lambda>e. ce_active e \<and> ce_physical e = p \<and> ce_references e \<noteq> 0) (pc_Entries pc)")
    case (Some i)
    then show ?thesis
      using assms find_indexD(1)[OF Some] cache_ok_refs[of pc i]
      by (auto simp: Cache_Release_def cache_frames_def table_frames_same cache_entry_def)
  qed (use assms in \<open>simp add: Cache_Release_def\<close>)
  then show "cache_frames pc' = cache_frames pc" "cache_ok pc \<Longrightarrow> cache_ok pc'" by auto
qed

lemma Cache_MarkDirty_frames [simp]: "cache_frames (Cache_MarkDirty pc p) = cache_frames pc"
proof -
  have "cache_entry (if ce_active e \<and> ce_physical e = p then e\<lparr>ce_dirty := True\<rparr> else e) = cache_entry e" for e
    by (simp add: cache_entry_def)
  then show ?thesis by (simp add: cache_frames_def Cache_MarkDirty_def table_frames_def comp_def)
qed

lemma Cache_MarkDirty_ok: "cache_ok pc \<Longrightarrow> cache_ok (Cache_MarkDirty pc p)"
  unfolding Cache_MarkDirty_def by (rule cache_ok_cong) auto

lemma Cache_Evict_holds:
  assumes "holds_pages r (cache_frames pc + R)" "cache_ok pc" "Cache_Evict pc r f k = (b, pc', r')"
  shows "holds_pages r' (cache_frames pc' + R) \<and> cache_ok pc'"
proof (cases b)
  case True
  then obtain i where i: "find_index (\<lambda>e. ce_active e \<and> ce_file_id e = f \<and> ce_page_offset e = k \<and>
             ce_references e = 0) (pc_Entries pc) = Some i"
    "pc' = pc\<lparr>pc_Entries := (pc_Entries pc)[i := no_cache_entry]\<rparr>" "r' = free_page r (ce_physical (pc_Entries pc ! i))"
    using assms(3) by (auto simp: Cache_Evict_def split: option.splits)
  note il = find_indexD(1,2)[OF i(1)]
  have "cache_frames pc = add_mset (ce_physical (pc_Entries pc ! i)) (cache_frames pc')"
    using table_frames_remove[of i "pc_Entries pc" cache_entry no_cache_entry] il
    by (simp add: i(2) cache_frames_def cache_entry_def no_cache_entry_def)
  then have "holds_pages r' (cache_frames pc' + R)" using assms(1) i(3) holds_free by simp
  moreover have "cache_ok pc'"
  proof (rule cache_okI)
    show "length (pc_Entries pc') = kPageCacheEntryCount" using assms(2) i(2) by (simp add: cache_ok_def)
    fix j l
    assume a: "j < length (pc_Entries pc')" "ce_active (pc_Entries pc' ! j)" "l < length (pc_Entries pc')"
      "ce_active (pc_Entries pc' ! l)" "ce_file_id (pc_Entries pc' ! l) = ce_file_id (pc_Entries pc' ! j)"
      "ce_page_offset (pc_Entries pc' ! l) = ce_page_offset (pc_Entries pc' ! j)"
    have "j \<noteq> i" "l \<noteq> i" using a(2,4) il(1) by (auto simp: i(2) no_cache_entry_def)
    then show "l = j" using a cached_unique[OF assms(2), of l j] by (simp add: i(2))
  qed
  ultimately show ?thesis by simp
qed (use assms in \<open>auto simp: Cache_Evict_def split: option.splits\<close>)

subsection \<open>The pages of the mappings\<close>

definition map_entry :: "Mapping \<Rightarrow> u64 multiset" where
  "map_entry m = (if mp_active m \<and> mp_file_id m = 0 then table_frames one_page (mp_pages m) else {#})"

definition map_frames :: "MapState \<Rightarrow> u64 multiset" where
  "map_frames s = table_frames map_entry (mmm_Mappings (maps s))"

definition mapping_ok :: "Mapping \<Rightarrow> bool" where
  "mapping_ok m \<longleftrightarrow> (mp_active m \<longrightarrow> length (mp_pages m) = 16 \<and> unat (mp_page_count m) \<le> 16 \<and>
     (\<forall>i < 16. unat (mp_page_count m) \<le> i \<longrightarrow> mp_pages m ! i = 0))"

definition maps_hold :: "MapState \<Rightarrow> u64 multiset \<Rightarrow> bool" where
  "maps_hold s R \<longleftrightarrow> holds_pages (ram s) (map_frames s + (cache_frames (cache s) + R)) \<and>
     cache_ok (cache s) \<and> length (mmm_Mappings (maps s)) = kMemoryMappingCount \<and>
     list_all mapping_ok (mmm_Mappings (maps s))"

lemma upd_mapping_keeps [simp]:
  "cache (upd_mapping i f s) = cache s" "ram (upd_mapping i f s) = ram s"
  "length (mmm_Mappings (maps (upd_mapping i f s))) = length (mmm_Mappings (maps s))"
  "mmm_Mappings (maps (upd_mapping i f s)) = (mmm_Mappings (maps s))[i := f (mmm_Mappings (maps s) ! i)]"
  by (simp_all add: upd_mapping_def)

lemma FindD:
  assumes "Find s a = Some i"
  shows "i < length (mmm_Mappings (maps s))" "mp_active (mmm_Mappings (maps s) ! i)"
    "mp_address (mmm_Mappings (maps s) ! i) \<le> a"
    "a < mp_address (mmm_Mappings (maps s) ! i) + mp_page_count (mmm_Mappings (maps s) ! i) * kPageSize"
  using assms by (auto simp: Find_def dest: find_indexD)

lemma mapping_of:
  "maps_hold s R \<Longrightarrow> i < length (mmm_Mappings (maps s)) \<Longrightarrow> mapping_ok (mmm_Mappings (maps s) ! i)"
  by (simp add: maps_hold_def list_all_length)

text \<open>The page number of an address inside a mapping is one of the mapping's pages.\<close>

lemma page_index_bound:
  assumes "maps_hold s R" "Find s a = Some i"
  shows "unat ((a - mp_address (mmm_Mappings (maps s) ! i)) div kPageSize) < unat (mp_page_count (mmm_Mappings (maps s) ! i))"
proof -
  let ?m = "mmm_Mappings (maps s) ! i"
  note F = FindD[OF assms(2)]
  have "unat (mp_page_count ?m) \<le> 16" using mapping_of[OF assms(1) F(1)] F(2) by (simp add: mapping_ok_def)
  then have n: "unat (mp_page_count ?m * 4096) = unat (mp_page_count ?m) * 4096" by (simp add: unat_word_ariths)
  have "unat a < unat (mp_address ?m) + unat (mp_page_count ?m * 4096)"
  proof -
    have "unat (mp_address ?m + mp_page_count ?m * 4096) \<le> unat (mp_address ?m) + unat (mp_page_count ?m * 4096)"
      by (simp add: unat_word_ariths)
    then show ?thesis using F(4) by (simp add: kPageSize_def word_less_nat_alt)
  qed
  then have "unat a - unat (mp_address ?m) < unat (mp_page_count ?m) * 4096" using n F(3) by (simp add: word_le_nat_alt)
  then show ?thesis
    using F(3) by (simp add: unat_div unat_sub kPageSize_def less_mult_imp_div_less)
qed

lemma Materialize_cases:
  assumes "Materialize s f p = (a, s')"
  shows "maps s' = maps s"
    and "holds_pages (ram s) (cache_frames (cache s) + R) \<Longrightarrow> cache_ok (cache s) \<Longrightarrow>
      holds_pages (ram s') (cache_frames (cache s') + ((if f = 0 then one_page a else {#}) + R)) \<and> cache_ok (cache s')"
proof -
  show "maps s' = maps s" using assms by (auto simp: Materialize_def split: prod.splits if_splits)
  assume h: "holds_pages (ram s) (cache_frames (cache s) + R)" "cache_ok (cache s)"
  show "holds_pages (ram s') (cache_frames (cache s') + ((if f = 0 then one_page a else {#}) + R)) \<and> cache_ok (cache s')"
  proof (cases "f = 0")
    case True
    obtain b r where al: "alloc_page (ram s) = (b, r)" by fastforce
    have s': "a = b" "s' = s\<lparr>ram := (if b \<noteq> 0 then r\<lparr>bytes := ClearPage b (bytes r)\<rparr> else r)\<rparr>"
      using assms True al by (auto simp: Materialize_def)
    show ?thesis
    proof (cases "b = 0")
      case False
      then show ?thesis using True s' h holds_alloc(1)[OF h(1) al False] by (simp add: ac_simps)
    qed (use True s' h al holds_alloc_fails[OF h(1)] in \<open>simp add: ac_simps\<close>)
  next
    case False
    obtain b c r where ac: "Cache_Acquire (cache s) (ram s) f p = (b, c, r)" by (metis surj_pair)
    have "s' = s\<lparr>cache := c, ram := r\<rparr>" using assms False ac by (auto simp: Materialize_def)
    then show ?thesis
      using False Cache_Acquire_holds[OF h(1) ac] Cache_Acquire_ok[OF h(1,2) ac] by simp
  qed
qed

lemma maps_hold_set_page:
  assumes "maps_hold s R" "i < length (mmm_Mappings (maps s))" "mp_active (mmm_Mappings (maps s) ! i)"
    "p < unat (mp_page_count (mmm_Mappings (maps s) ! i))" "mp_pages (mmm_Mappings (maps s) ! i) ! p = 0"
    "Materialize s (mp_file_id (mmm_Mappings (maps s) ! i)) k = (a, s1)"
  shows "maps_hold (upd_mapping i (\<lambda>m. m\<lparr>mp_pages := (mp_pages m)[p := a]\<rparr>) s1) R"
proof -
  let ?m = "mmm_Mappings (maps s) ! i" and ?m' = "(mmm_Mappings (maps s) ! i)\<lparr>mp_pages := (mp_pages (mmm_Mappings (maps s) ! i))[p := a]\<rparr>"
  have same: "maps s1 = maps s" by (rule Materialize_cases(1)[OF assms(6)])
  have mo: "length (mp_pages ?m) = 16" "unat (mp_page_count ?m) \<le> 16" "mapping_ok ?m"
    using mapping_of[OF assms(1,2)] assms(3) by (auto simp: mapping_ok_def)
  have "map_entry ?m' = (if mp_file_id ?m = 0 then one_page a else {#}) + map_entry ?m"
    using assms(3-5) mo by (auto simp: map_entry_def table_frames_add)
  then have fr: "map_frames (upd_mapping i (\<lambda>m. m\<lparr>mp_pages := (mp_pages m)[p := a]\<rparr>) s1) =
      (if mp_file_id ?m = 0 then one_page a else {#}) + map_frames s"
    using table_frames_update[OF assms(2), of map_entry ?m'] same by (simp add: map_frames_def ac_simps)
  have h: "holds_pages (ram s) (cache_frames (cache s) + (map_frames s + R))" "cache_ok (cache s)"
    using assms(1) by (simp_all add: maps_hold_def ac_simps)
  have "mapping_ok ?m'" using mo assms(3,4) by (auto simp: mapping_ok_def nth_list_update)
  then have "list_all mapping_ok ((mmm_Mappings (maps s))[i := ?m'])"
    using assms(1) by (auto simp: maps_hold_def list_all_iff dest!: set_update_subset_insert[THEN subsetD])
  then show ?thesis
    using Materialize_cases(2)[OF assms(6) h] fr same assms(1) by (simp add: maps_hold_def ac_simps)
qed

lemma HandlePageFault_holds:
  assumes "maps_hold s R" "HandlePageFault s a w = (p, s')"
  shows "maps_hold s' R"
proof (cases "Find s a = None \<or> w \<and> \<not> mp_writable (mmm_Mappings (maps s) ! the (Find s a))")
  case True
  then show ?thesis using assms by (auto simp: HandlePageFault_def split: option.splits)
next
  case False
  then obtain i where i: "Find s a = Some i" by auto
  let ?m = "mmm_Mappings (maps s) ! i" let ?p = "unat ((a - mp_address (mmm_Mappings (maps s) ! i)) div kPageSize)"
  define s1 where "s1 = (if mp_pages ?m ! ?p = 0 then
                        let (a, s') = Materialize s (mp_file_id ?m) (of_nat ?p)
                        in upd_mapping i (\<lambda>m. m\<lparr>mp_pages := (mp_pages m)[?p := a]\<rparr>) s'
                      else s)"
  have "maps_hold s1 R"
    using maps_hold_set_page[OF assms(1) FindD(1,2)[OF i] page_index_bound[OF assms(1) i]] assms(1)
    by (auto simp: s1_def split: prod.split)
  moreover have "s' = (if w \<and> mp_file_id ?m \<noteq> 0
      then s1\<lparr>cache := Cache_MarkDirty (cache s1) (mp_pages (mmm_Mappings (maps s1) ! i) ! ?p)\<rparr> else s1)"
    using assms(2) False i by (auto simp: HandlePageFault_def Let_def s1_def)
  ultimately show ?thesis
    by (auto simp: maps_hold_def map_frames_def Cache_MarkDirty_ok)
qed

lemma release_mapped_maps [simp]: "maps (release_mapped f s a) = maps s"
  by (simp add: release_mapped_def split: prod.split)

lemma release_mapped_holds:
  assumes "holds_pages (ram s) ((if f = 0 then one_page a else {#}) + (cache_frames (cache s) + R))" "cache_ok (cache s)"
  shows "holds_pages (ram (release_mapped f s a)) (cache_frames (cache (release_mapped f s a)) + R) \<and>
    cache_ok (cache (release_mapped f s a))"
proof (cases "a = 0 \<or> f \<noteq> 0")
  case True
  obtain b pc where r: "Cache_Release (cache s) a = (b, pc)" by fastforce
  show ?thesis
    using True assms Cache_Release_frames[OF r] by (auto simp: release_mapped_def r)
next
  case False
  then have "holds_pages (ram s) (add_mset a (cache_frames (cache s) + R))" using assms(1) by simp
  from holds_free[OF this] show ?thesis using False assms(2) by (simp add: release_mapped_def)
qed

lemma release_loop:
  assumes "foldl (release_mapped f) s ps = s'"
  shows "maps s' = maps s"
    and "holds_pages (ram s) ((if f = 0 then table_frames one_page ps else {#}) + (cache_frames (cache s) + R)) \<Longrightarrow>
      cache_ok (cache s) \<Longrightarrow> holds_pages (ram s') (cache_frames (cache s') + R) \<and> cache_ok (cache s')"
proof -
  show "maps s' = maps s"
    unfolding assms[symmetric] by (induction ps arbitrary: s) simp_all
  show "holds_pages (ram s) ((if f = 0 then table_frames one_page ps else {#}) + (cache_frames (cache s) + R)) \<Longrightarrow>
      cache_ok (cache s) \<Longrightarrow> holds_pages (ram s') (cache_frames (cache s') + R) \<and> cache_ok (cache s')"
    unfolding assms[symmetric]
  proof (induction ps arbitrary: s)
    case (Cons a ps)
    let ?r = "if f = 0 then table_frames one_page ps else {#}"
    have "(if f = 0 then table_frames one_page (a # ps) else {#}) + (cache_frames (cache s) + R) =
        (if f = 0 then one_page a else {#}) + (cache_frames (cache s) + (?r + R))"
      by (simp add: table_frames_def ac_simps)
    with Cons.prems have "holds_pages (ram s) ((if f = 0 then one_page a else {#}) + (cache_frames (cache s) + (?r + R)))"
      by simp
    from release_mapped_holds[OF this Cons.prems(2)]
    have "holds_pages (ram (release_mapped f s a)) (?r + (cache_frames (cache (release_mapped f s a)) + R)) \<and>
        cache_ok (cache (release_mapped f s a))"
      by (simp add: ac_simps)
    then show ?case using Cons.IH[of "release_mapped f s a"] by simp
  next
    case Nil
    then show ?case by (cases "f = 0") (simp_all add: table_frames_def)
  qed
qed

lemma take_pages_frames:
  assumes "length ps = 16" "n \<le> 16" "\<forall>i < 16. n \<le> i \<longrightarrow> ps ! i = 0"
  shows "table_frames one_page (take n ps) = table_frames one_page ps"
proof -
  have "table_frames one_page ps = table_frames one_page (take n ps) + table_frames one_page (drop n ps)"
    by (simp add: table_frames_def flip: map_append sum_list_append)
  moreover have "table_frames one_page (drop n ps) = {#}"
    using assms by (intro zero_pages_frames) auto
  ultimately show ?thesis by simp
qed

lemma Unmap_holds:
  assumes "maps_hold s R" "Unmap s a = (b, s')"
  shows "maps_hold s' R"
proof (cases b)
  case True
  then obtain i where i: "Find s a = Some i"
    and s': "s' = upd_mapping i (\<lambda>m. m\<lparr>mp_active := False\<rparr>)
       (foldl (release_mapped (mp_file_id (mmm_Mappings (maps s) ! i))) s
          (take (unat (mp_page_count (mmm_Mappings (maps s) ! i))) (mp_pages (mmm_Mappings (maps s) ! i))))"
    using assms(2) by (auto simp: Unmap_def Let_def split: option.splits if_splits)
  let ?m = "mmm_Mappings (maps s) ! i"
  define s1 where "s1 = foldl (release_mapped (mp_file_id ?m)) s (take (unat (mp_page_count ?m)) (mp_pages ?m))"
  note F = FindD[OF i]
  have mo: "length (mp_pages ?m) = 16" "unat (mp_page_count ?m) \<le> 16"
    "\<forall>j < 16. unat (mp_page_count ?m) \<le> j \<longrightarrow> mp_pages ?m ! j = 0"
    using mapping_of[OF assms(1) F(1)] F(2) by (auto simp: mapping_ok_def)
  let ?ms = "(mmm_Mappings (maps s))[i := ?m\<lparr>mp_active := False\<rparr>]"
  have split: "map_frames s = map_entry ?m + table_frames map_entry ?ms"
    unfolding map_frames_def by (rule table_frames_remove[OF F(1)]) (simp add: map_entry_def)
  have entry: "map_entry ?m = (if mp_file_id ?m = 0 then table_frames one_page (take (unat (mp_page_count ?m)) (mp_pages ?m)) else {#})"
    using F(2) take_pages_frames[OF mo] by (simp add: map_entry_def)
  have h: "holds_pages (ram s) ((if mp_file_id ?m = 0 then table_frames one_page (take (unat (mp_page_count ?m)) (mp_pages ?m)) else {#}) +
      (cache_frames (cache s) + (table_frames map_entry ?ms + R)))" "cache_ok (cache s)"
    using assms(1) split entry by (simp_all add: maps_hold_def ac_simps)
  note L = release_loop[OF s1_def[symmetric]]
  have "list_all mapping_ok ?ms"
    using assms(1) by (auto simp: maps_hold_def list_all_iff mapping_ok_def dest!: set_update_subset_insert[THEN subsetD])
  then show ?thesis
    using L(1) L(2)[OF h] assms(1) s'
    by (simp add: maps_hold_def map_frames_def s1_def[symmetric] ac_simps)
qed (use assms in \<open>auto simp: Unmap_def Let_def split: option.splits if_splits\<close>)

lemma map_pages_holds:
  assumes "maps_hold s R" "map_pages i ks s = (b, s')" "i < length (mmm_Mappings (maps s))"
    "mp_active (mmm_Mappings (maps s) ! i)" "distinct ks"
    "\<forall>k \<in> set ks. k < unat (mp_page_count (mmm_Mappings (maps s) ! i)) \<and> mp_pages (mmm_Mappings (maps s) ! i) ! k = 0"
  shows "maps_hold s' R"
  using assms
proof (induction ks arbitrary: s)
  case (Cons k ks)
  let ?m = "mmm_Mappings (maps s) ! i"
  obtain a s1 where mt: "Materialize s (mp_file_id ?m) (of_nat k) = (a, s1)" by fastforce
  define s2 where "s2 = upd_mapping i (\<lambda>m. m\<lparr>mp_pages := (mp_pages m)[k := a]\<rparr>) s1"
  have same: "maps s1 = maps s" by (rule Materialize_cases(1)[OF mt])
  have k: "k < unat (mp_page_count ?m)" "mp_pages ?m ! k = 0" using Cons.prems(6) by auto
  have h2: "maps_hold s2 R"
    unfolding s2_def by (rule maps_hold_set_page[OF Cons.prems(1,3,4) k mt])
  have step: "map_pages i (k # ks) s = (if a = 0 then (False, snd (Unmap s2 (mp_address (mmm_Mappings (maps s2) ! i))))
       else map_pages i ks s2)"
    by (simp add: mt s2_def)
  show ?case
  proof (cases "a = 0")
    case True
    obtain b1 s3 where u: "Unmap s2 (mp_address (mmm_Mappings (maps s2) ! i)) = (b1, s3)" by fastforce
    then have "s' = s3" using Cons.prems(2) step True by simp
    with Unmap_holds[OF h2 u] show ?thesis by simp
  next
    case False
    have "mmm_Mappings (maps s2) ! i = ?m\<lparr>mp_pages := (mp_pages ?m)[k := a]\<rparr>"
      using Cons.prems(3) same by (simp add: s2_def)
    moreover have "mp_pages ?m ! j = 0 \<and> k \<noteq> j" if "j \<in> set ks" for j
      using Cons.prems(5,6) that by auto
    ultimately show ?thesis
      using Cons.IH[OF h2] Cons.prems step False same by (simp add: s2_def)
  qed
qed simp

lemma Map_holds:
  assumes "maps_hold s R" "Map s f len w d = (a, s')"
  shows "maps_hold s' R"
proof -
  let ?n = "(len + kPageSize - 1) div kPageSize"
  show ?thesis
  proof (cases "?n = 0 \<or> ?n > kMappingMaxPages \<or> find_index (\<lambda>m. \<not> mp_active m) (mmm_Mappings (maps s)) = None")
    case True
    then show ?thesis using assms by (auto simp: Map_def Let_def split: option.splits)
  next
    case False
    then obtain i where i: "find_index (\<lambda>m. \<not> mp_active m) (mmm_Mappings (maps s)) = Some i" by auto
    note I = find_indexD(1,2)[OF i]
    define m where "m = \<lparr>mp_address = mmm_NextAddress (maps s), mp_page_count = ?n, mp_file_id = f,
                     mp_writable = w, mp_demand_paged = d, mp_active = True, mp_pages = replicate 16 0\<rparr>"
    define s1 where "s1 = upd_mapping i (\<lambda>_. m)
                   (s\<lparr>maps := (maps s)\<lparr>mmm_NextAddress := mmm_NextAddress (maps s) + ?n * kPageSize\<rparr>\<rparr>)"
    have n: "unat ?n \<le> 16" using False by (simp add: kMappingMaxPages_def word_le_nat_alt not_less)
    have empty: "map_entry (mmm_Mappings (maps s) ! i) = {#}" "map_entry m = {#}"
      using I by (simp_all add: map_entry_def m_def zero_pages_frames)
    have "map_frames s1 = map_frames s"
      using table_frames_same[OF I(1), of map_entry m] empty by (simp add: s1_def map_frames_def)
    moreover have "mapping_ok m" using n by (simp add: mapping_ok_def m_def)
    then have "list_all mapping_ok ((mmm_Mappings (maps s))[i := m])"
      using assms(1) by (auto simp: maps_hold_def list_all_iff dest!: set_update_subset_insert[THEN subsetD])
    ultimately have h1: "maps_hold s1 R" using assms(1) by (simp add: maps_hold_def s1_def)
    have mi: "mmm_Mappings (maps s1) ! i = m" "i < length (mmm_Mappings (maps s1))" using I(1) by (simp_all add: s1_def)
    obtain b s2 where mp: "map_pages i [0 ..< unat ?n] s1 = (b, s2)" by fastforce
    have "maps_hold s2 R"
      by (rule map_pages_holds[OF h1 mp mi(2)]) (use mi n in \<open>auto simp: m_def\<close>)
    moreover have "s' = (if d then s1 else s2)"
      using assms(2) False i mp by (auto simp: Map_def Let_def s1_def m_def)
    ultimately show ?thesis using h1 by simp
  qed
qed

lemma Mappings_Init_holds:
  assumes "holds_pages (ram s) (cache_frames (cache s) + R)" "cache_ok (cache s)"
    "length (mmm_Mappings (maps s)) = kMemoryMappingCount"
  shows "maps_hold (Mappings_Init s) R"
proof -
  have "table_frames map_entry (map (\<lambda>m. m\<lparr>mp_active := False\<rparr>) ms) = {#}" for ms
    by (induction ms) (simp_all add: table_frames_def map_entry_def)
  then show ?thesis
    using assms by (simp add: maps_hold_def Mappings_Init_def map_frames_def list_all_iff mapping_ok_def)
qed

subsection \<open>What a page fault does\<close>

abbreviation mapping_at :: "MapState \<Rightarrow> nat \<Rightarrow> Mapping" where
  "mapping_at s i \<equiv> mmm_Mappings (maps s) ! i"

definition page_no :: "MapState \<Rightarrow> nat \<Rightarrow> u64 \<Rightarrow> nat" where
  "page_no s i a = unat ((a - mp_address (mapping_at s i)) div kPageSize)"

lemma page_no_bound: "maps_hold s R \<Longrightarrow> Find s a = Some i \<Longrightarrow> page_no s i a < unat (mp_page_count (mapping_at s i))"
  unfolding page_no_def by (rule page_index_bound)

lemma page_no_length: "maps_hold s R \<Longrightarrow> Find s a = Some i \<Longrightarrow> page_no s i a < length (mp_pages (mapping_at s i))"
  using page_no_bound[of s R a i] mapping_of[of s R i] FindD(1,2)[of s a i] by (auto simp: mapping_ok_def)

lemma Find_upd_pages:
  assumes "maps s1 = maps s"
  shows "Find (upd_mapping i (\<lambda>m. m\<lparr>mp_pages := f m\<rparr>) s1) b = Find s b"
  using assms
  by (cases "i < length (mmm_Mappings (maps s))") (auto simp: Find_def nth_list_update intro!: find_index_cong split: if_splits)

lemma HandlePageFault_present:
  assumes "Find s a = Some i" "w \<longrightarrow> mp_writable (mapping_at s i)" "mp_pages (mapping_at s i) ! page_no s i a \<noteq> 0"
  shows "HandlePageFault s a w = (mp_pages (mapping_at s i) ! page_no s i a,
    if w \<and> mp_file_id (mapping_at s i) \<noteq> 0
    then s\<lparr>cache := Cache_MarkDirty (cache s) (mp_pages (mapping_at s i) ! page_no s i a)\<rparr> else s)"
  using assms by (simp add: HandlePageFault_def page_no_def Let_def)

lemma HandlePageFault_missing:
  assumes "Find s a = Some i" "w \<longrightarrow> mp_writable (mapping_at s i)" "mp_pages (mapping_at s i) ! page_no s i a = 0"
    and "Materialize s (mp_file_id (mapping_at s i)) (of_nat (page_no s i a)) = (p, s1)"
    and "page_no s i a < length (mp_pages (mapping_at s i))"
  defines "s2 \<equiv> upd_mapping i (\<lambda>m. m\<lparr>mp_pages := (mp_pages m)[page_no s i a := p]\<rparr>) s1"
  shows "HandlePageFault s a w = (p, if w \<and> mp_file_id (mapping_at s i) \<noteq> 0
    then s2\<lparr>cache := Cache_MarkDirty (cache s2) p\<rparr> else s2)"
proof -
  have "maps s1 = maps s" by (rule Materialize_cases(1)[OF assms(4)])
  moreover have "i < length (mmm_Mappings (maps s))" by (rule FindD(1)[OF assms(1)])
  ultimately have "mp_pages (mapping_at s2 i) ! page_no s i a = p"
    using assms(5) by (simp add: s2_def)
  moreover have "(w \<and> \<not> mp_writable (mapping_at s i)) = False" using assms(2) by simp
  ultimately show ?thesis
    using assms(1,3,4) by (simp add: HandlePageFault_def page_no_def Let_def s2_def del: de_Morgan_conj)
qed

lemma HandlePageFault_writable:
  "HandlePageFault s a w = (p, s') \<Longrightarrow> p \<noteq> 0 \<Longrightarrow> Find s a = Some i \<Longrightarrow> w \<longrightarrow> mp_writable (mapping_at s i)"
  by (auto simp: HandlePageFault_def Let_def split: if_splits)

text \<open>
  C8. Demand paging of an anonymous mapping: the first access to a page takes a page nobody
  holds, fills it with zeros and changes no other byte; every later permitted access to the
  same page of the mapping finds that page and changes nothing.
\<close>

theorem demand_page_fault:
  assumes "maps_hold s R" "Find s a = Some i"
    and "mp_file_id (mapping_at s i) = 0" "mp_pages (mapping_at s i) ! page_no s i a = 0"
    and "HandlePageFault s a w = (p, s')" "p \<noteq> 0"
  shows "p \<notin># map_frames s + (cache_frames (cache s) + R) \<and> map_frames s' = add_mset p (map_frames s) \<and>
    (\<forall>x. bytes (ram s') x = (if in_page p x then 0 else bytes (ram s) x)) \<and>
    (\<forall>b v. Find s b = Some i \<and> page_no s i b = page_no s i a \<and> (v \<longrightarrow> mp_writable (mapping_at s i)) \<longrightarrow>
      HandlePageFault s' b v = (p, s'))"
proof -
  let ?m = "mapping_at s i" and ?k = "page_no s i a"
  note w = HandlePageFault_writable[OF assms(5,6,2)]
  obtain r1 where al: "alloc_page (ram s) = (fst (alloc_page (ram s)), r1)" by (metis prod.collapse)
  define q where "q = fst (alloc_page (ram s))"
  define s1 where "s1 = s\<lparr>ram := (if q \<noteq> 0 then r1\<lparr>bytes := ClearPage q (bytes r1)\<rparr> else r1)\<rparr>"
  have mt: "Materialize s (mp_file_id ?m) (of_nat ?k) = (q, s1)"
    unfolding Materialize_def assms(3) by (subst al) (simp add: s1_def q_def)
  define s2 where "s2 = upd_mapping i (\<lambda>m. m\<lparr>mp_pages := (mp_pages m)[?k := q]\<rparr>) s1"
  note I = FindD(1,2)[OF assms(2)] and kl = page_no_length[OF assms(1,2)]
  have res: "p = q" "s' = s2"
    using HandlePageFault_missing[OF assms(2) w assms(4) mt kl] assms(3,5) by (simp_all add: s2_def)
  have same: "maps s1 = maps s" by (simp add: s1_def)
  have h: "holds_pages (ram s) (map_frames s + (cache_frames (cache s) + R))" using assms(1) by (simp add: maps_hold_def)
  have new: "p \<notin># map_frames s + (cache_frames (cache s) + R)"
    using holds_alloc(2)[OF h al] res assms(6) by (simp add: q_def)
  have m2: "mapping_at s2 i = ?m\<lparr>mp_pages := (mp_pages ?m)[?k := q]\<rparr>" using I same by (simp add: s2_def)
  have "map_entry (mapping_at s2 i) = add_mset q (map_entry ?m)"
    using I(2) assms(3,4,6) res kl by (simp add: m2 map_entry_def table_frames_add)
  then have fr: "map_frames s' = add_mset p (map_frames s)"
    using table_frames_update[OF I(1), of map_entry "mapping_at s2 i"] same m2 res
    by (simp add: map_frames_def s2_def)
  have bts: "bytes (ram s') x = (if in_page p x then 0 else bytes (ram s) x)" for x
    using res assms(6) alloc_page_bytes[OF al] by (simp add: s2_def s1_def ClearPage_at)
  have again: "HandlePageFault s' b v = (p, s')"
    if "Find s b = Some i" "page_no s i b = ?k" "v \<longrightarrow> mp_writable ?m" for b v
  proof -
    have "Find s2 b = Some i" using Find_upd_pages[OF same] that(1) by (simp add: s2_def)
    moreover have "page_no s2 i b = ?k" using that(2) m2 by (simp add: page_no_def)
    moreover have "mp_pages (mapping_at s2 i) ! ?k = q" using kl by (simp add: m2)
    ultimately show ?thesis
      using HandlePageFault_present[of s2 b i v] that(3) assms(3,6) m2 res by simp
  qed
  show ?thesis using new fr bts again by simp
qed

text \<open>The mappings of a machine with all memory free.\<close>

definition demo_maps :: MapState where
  "demo_maps = Mappings_Init \<lparr>maps = \<lparr>mmm_NextAddress = 0, mmm_Mappings =
       replicate 16 \<lparr>mp_address = 0, mp_page_count = 0, mp_file_id = 0, mp_writable = False,
         mp_demand_paged = False, mp_active = False, mp_pages = []\<rparr>\<rparr>,
     cache = Cache_Init \<lparr>pc_attached = False, pc_Entries = []\<rparr>, ram = demo_ram\<rparr>"

lemma Cache_Init_ok: "cache_ok (Cache_Init pc)" "cache_frames (Cache_Init pc) = {#}"
  by (auto simp: cache_ok_def Cache_Init_def no_cache_entry_def cache_frames_def cache_entry_def
      intro: table_frames_empty)

lemma demo_maps_hold: "maps_hold demo_maps {#}"
  unfolding demo_maps_def
  by (rule Mappings_Init_holds) (simp_all add: Cache_Init_ok demo_ram_holds kMemoryMappingCount_def)

lemma demand_page_fault_witness:
  "\<exists>s p s'. fst (Map demo_maps 0 5000 True True) = 0x40000000 \<and> s = snd (Map demo_maps 0 5000 True True) \<and>
     HandlePageFault s 0x40001010 True = (p, s') \<and> p \<noteq> 0 \<and> bytes (ram s') p = 0 \<and>
     HandlePageFault s' 0x40001FFF False = (p, s')"
proof -
  obtain a s where m: "Map demo_maps 0 5000 True True = (a, s)" by fastforce
  have h: "maps_hold s {#}" by (rule Map_holds[OF demo_maps_hold m])
  define m0 where "m0 = \<lparr>mp_address = 0, mp_page_count = 0, mp_file_id = 0, mp_writable = False,
         mp_demand_paged = False, mp_active = False, mp_pages = []\<rparr>"
  define m1 where "m1 = \<lparr>mp_address = 0x40000000, mp_page_count = 2, mp_file_id = 0, mp_writable = True,
         mp_demand_paged = True, mp_active = True, mp_pages = replicate 16 0\<rparr>"
  have "replicate 16 m0 = m0 # replicate 15 m0" by (simp add: numeral_eq_Suc)
  then have d: "mmm_Mappings (maps demo_maps) = m0 # replicate 15 m0" "mmm_NextAddress (maps demo_maps) = 0x40000000"
    by (simp_all add: demo_maps_def Mappings_Init_def m0_def)
  have n0: "\<not> mp_active m0" by (simp add: m0_def)
  have s: "a = 0x40000000" "mmm_Mappings (maps s) = m1 # replicate 15 m0" "ram s = ram demo_maps"
    using m n0 by (auto simp: Map_def Let_def d kMappingMaxPages_def kPageSize_def upd_mapping_def m1_def)
  have F: "Find s 0x40001010 = Some 0" "Find s 0x40001FFF = Some 0"
    by (simp_all add: Find_def s m1_def kPageSize_def)
  have k: "page_no s 0 0x40001010 = 1" "page_no s 0 0x40001FFF = 1"
    by (simp_all add: page_no_def s m1_def kPageSize_def)
  obtain p s' where f: "HandlePageFault s 0x40001010 True = (p, s')" by fastforce
  obtain q r1 where al: "alloc_page demo_ram = (q, r1)" by fastforce
  have q0: "q \<noteq> 0" using demo_ram_alloc al by simp
  have "ram s = demo_ram" by (simp add: s demo_maps_def Mappings_Init_def)
  then have "fst (Materialize s 0 (of_nat 1)) = q" using al by (simp add: Materialize_def)
  then obtain s1 where "Materialize s 0 (of_nat 1) = (q, s1)" by (metis prod.collapse)
  then have p0: "p \<noteq> 0"
    using HandlePageFault_missing[OF F(1), of True q s1] f k q0 by (simp add: s m1_def)
  have "in_page p p" using in_page_offset[of 0 p] by simp
  then show ?thesis
    using demand_page_fault[OF h F(1) _ _ f p0] m f p0 k F(2) s(1)
    by (intro exI[of _ s] exI[of _ p] exI[of _ s']) (simp add: s m1_def)
qed


subsection \<open>Sharing through the cache\<close>

definition cache_references :: "PageCache \<Rightarrow> u64 \<Rightarrow> u64 \<Rightarrow> u16 option" where
  "cache_references pc f k = map_option (\<lambda>i. ce_references (pc_Entries pc ! i)) (cached pc f k)"

lemma Cache_Acquire_hit:
  assumes "cached pc f k = Some i"
  defines "pc' \<equiv> pc\<lparr>pc_Entries := (pc_Entries pc)[i := (pc_Entries pc ! i)
             \<lparr>ce_references := ce_references (pc_Entries pc ! i) + 1\<rparr>]\<rparr>"
  shows "Cache_Acquire pc r f k = (ce_physical (pc_Entries pc ! i), pc', r)" "cached pc' f k = Some i"
    "pc_Entries pc' ! i = (pc_Entries pc ! i)\<lparr>ce_references := ce_references (pc_Entries pc ! i) + 1\<rparr>"
    "cache_frames pc' = cache_frames pc"
proof -
  note C = cachedD[OF assms(1)]
  show "Cache_Acquire pc r f k = (ce_physical (pc_Entries pc ! i), pc', r)"
    using assms(1) by (simp add: Cache_Acquire_def cached_def pc'_def)
  show "pc_Entries pc' ! i = (pc_Entries pc ! i)\<lparr>ce_references := ce_references (pc_Entries pc ! i) + 1\<rparr>"
    using C(1) by (simp add: pc'_def)
  show "cached pc' f k = Some i"
    using cached_keys_cong[of "(pc_Entries pc)[i := (pc_Entries pc ! i)\<lparr>ce_references := ce_references (pc_Entries pc ! i) + 1\<rparr>]" pc f k]
      C assms(1) by (auto simp: pc'_def nth_list_update)
  show "cache_frames pc' = cache_frames pc"
    using C(1) by (simp add: pc'_def cache_frames_def table_frames_same cache_entry_def)
qed

lemma Cache_Acquire_new:
  assumes "cached pc f k = None" "Cache_Acquire pc r f k = (p, pc', r')" "p \<noteq> 0" "holds_pages r M"
  shows "\<exists>i. cached pc' f k = Some i \<and> ce_physical (pc_Entries pc' ! i) = p \<and> ce_references (pc_Entries pc' ! i) = 1"
proof (cases rule: Cache_Acquire_cases[OF assms(2,4), case_names hit miss full])
  case (miss i r1)
  have "cached pc' f k = Some i"
    unfolding cached_def miss(7)
    by (rule find_index_unique)
      (use miss(2) find_index_NoneD[OF miss(1)[unfolded cached_def]] in
        \<open>auto simp: nth_list_update split: if_splits\<close>)
  then show ?thesis using miss(2,7) by simp
qed (use assms in auto)

lemma MarkDirty_cached [simp]: "cached (Cache_MarkDirty pc p) f k = cached pc f k"
  unfolding cached_def by (rule find_index_cong) (simp_all add: Cache_MarkDirty_def)

lemma MarkDirty_entry:
  assumes "i < length (pc_Entries pc)"
  shows "ce_physical (pc_Entries (Cache_MarkDirty pc p) ! i) = ce_physical (pc_Entries pc ! i)"
    "ce_references (pc_Entries (Cache_MarkDirty pc p) ! i) = ce_references (pc_Entries pc ! i)"
  using assms by (simp_all add: Cache_MarkDirty_def)

lemma cache_references_MarkDirty [simp]: "cache_references (Cache_MarkDirty pc p) f k = cache_references pc f k"
  using MarkDirty_entry(2) cachedD(1) by (cases "cached pc f k") (auto simp: cache_references_def)

lemma Cache_Acquire_physical:
  assumes "Cache_Acquire pc r f k = (p, pc', r')" "p \<noteq> 0" "holds_pages r M"
  shows "\<exists>i. cached pc' f k = Some i \<and> ce_physical (pc_Entries pc' ! i) = p"
proof (cases "cached pc f k")
  case None
  then show ?thesis using Cache_Acquire_new[OF None assms] by blast
next
  case (Some i)
  then show ?thesis using Cache_Acquire_hit[OF Some] assms(1) by auto
qed

text \<open>A fault on a missing page of a file mapping, in terms of the cache.\<close>

lemma file_fault:
  assumes "maps_hold s R" "Find s a = Some i" "mp_file_id (mapping_at s i) \<noteq> 0" "w \<longrightarrow> mp_writable (mapping_at s i)"
    and "mp_pages (mapping_at s i) ! page_no s i a = 0"
    and "Cache_Acquire (cache s) (ram s) (mp_file_id (mapping_at s i)) (of_nat (page_no s i a)) = (p, c, r)"
    and "HandlePageFault s a w = (q, s')"
  shows "q = p \<and> ram s' = r \<and> cache s' = (if w then Cache_MarkDirty c p else c) \<and>
    maps s' = maps (upd_mapping i (\<lambda>m. m\<lparr>mp_pages := (mp_pages m)[page_no s i a := p]\<rparr>) s)"
proof -
  have "Materialize s (mp_file_id (mapping_at s i)) (of_nat (page_no s i a)) = (p, s\<lparr>cache := c, ram := r\<rparr>)"
    using assms(3,6) by (simp add: Materialize_def)
  from HandlePageFault_missing[OF assms(2,4,5) this page_no_length[OF assms(1,2)]]
  show ?thesis using assms(3,7) by (auto simp: upd_mapping_def)
qed

text \<open>
  Two file mappings that fault on the same page of the same file get the same physical
  page, whatever the addresses they map it at: the second fault allocates nothing, leaves
  the contents alone and adds one reference to the cached page.
\<close>

lemma file_mappings_share_pages:
  assumes "maps_hold s R" "Find s a = Some i" "Find s b = Some j" "i \<noteq> j"
    and "mp_file_id (mapping_at s i) = f" "mp_file_id (mapping_at s j) = f" "f \<noteq> 0"
    and "page_no s i a = k" "page_no s j b = k"
    and "mp_pages (mapping_at s i) ! k = 0" "mp_pages (mapping_at s j) ! k = 0"
    and "HandlePageFault s a w = (p, s1)" "p \<noteq> 0"
    and "HandlePageFault s1 b v = (q, s2)" "v \<longrightarrow> mp_writable (mapping_at s j)"
  shows "q = p \<and> ram s2 = ram s1 \<and>
    cache_references (cache s2) f (of_nat k) = map_option (\<lambda>n. n + 1) (cache_references (cache s1) f (of_nat k))"
proof -
  have w: "w \<longrightarrow> mp_writable (mapping_at s i)" by (rule HandlePageFault_writable[OF assms(12,13,2)])
  obtain p' c r where ac: "Cache_Acquire (cache s) (ram s) f (of_nat k) = (p', c, r)" by (metis surj_pair)
  have f1: "p = p'" "ram s1 = r" "cache s1 = (if w then Cache_MarkDirty c p' else c)"
    "maps s1 = maps (upd_mapping i (\<lambda>m. m\<lparr>mp_pages := (mp_pages m)[k := p']\<rparr>) s)"
    using file_fault[OF assms(1,2) _ w _ _ assms(12)] assms(5,7,8,10) ac by simp_all
  have h: "holds_pages (ram s) (cache_frames (cache s) + (map_frames s + R))"
    using assms(1) by (simp add: maps_hold_def ac_simps)
  obtain e where "cached c f (of_nat k) = Some e" "ce_physical (pc_Entries c ! e) = p'"
    using Cache_Acquire_physical[OF ac _ h] assms(13) f1(1) by auto
  then have e: "cached (cache s1) f (of_nat k) = Some e" "ce_physical (pc_Entries (cache s1) ! e) = p"
    using f1 cachedD(1)[of c] MarkDirty_entry(1)[of e c] by auto
  note H = Cache_Acquire_hit[OF e(1)]
  have "i < length (mmm_Mappings (maps s))" by (rule FindD(1)[OF assms(2)])
  then have m1: "mapping_at s1 j = mapping_at s j" using assms(4) f1(4) by simp
  have F1: "Find s1 b = Some j"
    using Find_upd_pages[of s s i _ b] assms(3) f1(4) by (simp add: Find_def)
  have h1: "maps_hold s1 R" by (rule HandlePageFault_holds[OF assms(1,12)])
  have k1: "page_no s1 j b = k" using assms(9) m1 by (simp add: page_no_def)
  have f2: "q = p" "ram s2 = ram s1"
    "cache s2 = (if v then Cache_MarkDirty (fst (snd (Cache_Acquire (cache s1) (ram s1) f (of_nat k)))) p
                 else fst (snd (Cache_Acquire (cache s1) (ram s1) f (of_nat k))))"
    using file_fault[OF h1 F1 _ _ _ _ assms(14)] assms(6,7,11,15) m1 k1 H(1) e(2) by simp_all
  have "cache_references (cache s2) f (of_nat k) = map_option (\<lambda>n. n + 1) (cache_references (cache s1) f (of_nat k))"
    unfolding f2(3) using H e by (auto simp: cache_references_def[of "cache s1"]) (auto simp: cache_references_def)
  then show ?thesis using f2 by simp
qed

lemma demo_maps_facts:
  "ram demo_maps = demo_ram" "cached (cache demo_maps) f k = None"
  by (simp_all add: demo_maps_def Mappings_Init_def cached_def Cache_Init_def no_cache_entry_def find_index_None)

lemma Cache_Acquire_demo: "fst (Cache_Acquire (cache demo_maps) (ram demo_maps) f k) \<noteq> 0"
proof -
  have "pc_attached (cache demo_maps)" "pc_Entries (cache demo_maps) = replicate 16 no_cache_entry"
    by (simp_all add: demo_maps_def Mappings_Init_def Cache_Init_def kPageCacheEntryCount_def)
  moreover have "find_index (\<lambda>e. \<not> ce_active e) (replicate 16 no_cache_entry) = Some 0"
    "find_index (\<lambda>e. ce_active e \<and> ce_file_id e = f \<and> ce_page_offset e = k) (replicate 16 no_cache_entry) = None"
    by (simp_all add: find_index_Some find_index_None no_cache_entry_def)
  ultimately show ?thesis
    using demo_ram_alloc by (simp add: Cache_Acquire_def demo_maps_facts(1) case_prod_beta)
qed

lemma file_mappings_share_pages_witness:
  "\<exists>s p s1 s2. HandlePageFault s 0x40000000 False = (p, s1) \<and> p \<noteq> 0 \<and> HandlePageFault s1 0x40001000 False = (p, s2) \<and>
     cache_references (cache s2) 7 0 = map_option (\<lambda>n. n + 1) (cache_references (cache s1) 7 0)"
proof -
  define m0 where "m0 = \<lparr>mp_address = 0, mp_page_count = 0, mp_file_id = 0, mp_writable = False,
         mp_demand_paged = False, mp_active = False, mp_pages = []\<rparr>"
  define m where "m a = \<lparr>mp_address = a, mp_page_count = 1, mp_file_id = 7, mp_writable = True,
         mp_demand_paged = True, mp_active = True, mp_pages = replicate 16 0\<rparr>" for a
  have "replicate 16 m0 = m0 # m0 # replicate 14 m0" by (simp add: numeral_eq_Suc)
  then have d: "mmm_Mappings (maps demo_maps) = m0 # m0 # replicate 14 m0" "mmm_NextAddress (maps demo_maps) = 0x40000000"
    by (simp_all add: demo_maps_def Mappings_Init_def m0_def)
  have n0: "\<not> mp_active m0" and na: "mp_active (m a)" for a by (simp_all add: m0_def m_def)
  obtain a sa where ma: "Map demo_maps 7 4096 True True = (a, sa)" by fastforce
  then have sa: "mmm_Mappings (maps sa) = m 0x40000000 # m0 # replicate 14 m0" "mmm_NextAddress (maps sa) = 0x40001000"
    "cache sa = cache demo_maps" "ram sa = ram demo_maps"
    using n0 by (auto simp: Map_def Let_def d kMappingMaxPages_def kPageSize_def upd_mapping_def m_def)
  obtain b s where mb: "Map sa 7 4096 True True = (b, s)" by fastforce
  then have s: "mmm_Mappings (maps s) = m 0x40000000 # m 0x40001000 # replicate 14 m0"
    "cache s = cache demo_maps" "ram s = ram demo_maps"
    using n0 na by (auto simp: Map_def Let_def sa kMappingMaxPages_def kPageSize_def upd_mapping_def m_def)
  have h: "maps_hold s {#}" by (rule Map_holds[OF Map_holds[OF demo_maps_hold ma] mb])
  have F: "Find s 0x40000000 = Some 0" "Find s 0x40001000 = Some 1"
    by (simp_all add: Find_def s m_def kPageSize_def)
  have k: "page_no s 0 0x40000000 = 0" "page_no s 1 0x40001000 = 0"
    by (simp_all add: page_no_def s m_def kPageSize_def)
  obtain c0 c r where ac: "Cache_Acquire (cache s) (ram s) 7 0 = (c0, c, r)" by (metis surj_pair)
  have c0: "c0 \<noteq> 0" using Cache_Acquire_demo[of 7 0] ac by (simp add: s)
  obtain p s1 where f: "HandlePageFault s 0x40000000 False = (p, s1)" by fastforce
  have p0: "p \<noteq> 0" using file_fault[OF h F(1) _ _ _ _ f] ac c0 k by (simp add: s m_def)
  obtain q s2 where g: "HandlePageFault s1 0x40001000 False = (q, s2)" by fastforce
  show ?thesis
    using file_mappings_share_pages[OF h F(1,2) _ _ _ _ k(1,2) _ _ f p0 g, of 7] f g p0
    by (intro exI[of _ s] exI[of _ p] exI[of _ s1] exI[of _ s2]) (simp add: s m_def)
qed

text \<open>\<open>n\<close> further references to a cached page.\<close>

fun acquire_n :: "nat \<Rightarrow> PageCache \<Rightarrow> RAM \<Rightarrow> u64 \<Rightarrow> u64 \<Rightarrow> PageCache \<times> RAM" where
  "acquire_n 0 pc r f k = (pc, r)"
| "acquire_n (Suc n) pc r f k = (let (_, pc', r') = Cache_Acquire pc r f k in acquire_n n pc' r' f k)"

lemma acquire_n_refs:
  assumes "acquire_n n pc r f k = (pc', r')" "cached pc f k = Some i"
  shows "cached pc' f k = Some i \<and> r' = r \<and> cache_frames pc' = cache_frames pc \<and>
    pc_Entries pc' ! i = (pc_Entries pc ! i)\<lparr>ce_references := ce_references (pc_Entries pc ! i) + of_nat n\<rparr>"
  using assms
proof (induction n arbitrary: pc)
  case (Suc n)
  note H = Cache_Acquire_hit[OF Suc.prems(2)]
  show ?case using Suc.IH[OF _ H(2)] Suc.prems(1) H by (simp add: ac_simps)
qed simp

lemma cache_ok_acquire_n:
  "acquire_n n pc r f k = (pc', r') \<Longrightarrow> holds_pages r (cache_frames pc + R) \<Longrightarrow> cache_ok pc \<Longrightarrow> cache_ok pc'"
proof (induction n arbitrary: pc r)
  case (Suc n)
  obtain p pc1 r1 where ac: "Cache_Acquire pc r f k = (p, pc1, r1)" by (metis surj_pair)
  show ?case
    using Suc.IH[of pc1 r1] Suc.prems Cache_Acquire_holds[OF Suc.prems(2) ac] Cache_Acquire_ok[OF Suc.prems(2,3) ac] ac
    by simp
qed simp

text \<open>
  The 16-bit reference count of a cached page has no overflow check (the copy-on-write
  pages and the shared segments have one). After a page was brought in and acquired \<open>n\<close> more
  times with no release, eviction succeeds exactly when \<open>n + 1\<close> is a multiple of 65536:
  then the page goes back to the physical allocator while all its references are out.
\<close>

lemma cache_reference_count_wraps:
  assumes "holds_pages r (cache_frames pc + R)" "cache_ok pc" "cached pc f k = None"
    and "Cache_Acquire pc r f k = (p, pc1, r1)" "p \<noteq> 0"
    and "acquire_n n pc1 r1 f k = (pc2, r2)" "Cache_Evict pc2 r2 f k = (evicted, pc3, r3)"
  shows "(evicted \<longleftrightarrow> 65536 dvd Suc n) \<and> (evicted \<longrightarrow> \<not> frame_used (pmm r3) p) \<and> (\<not> evicted \<longrightarrow> frame_used (pmm r3) p)"
proof -
  obtain i where i: "cached pc1 f k = Some i" "ce_physical (pc_Entries pc1 ! i) = p" "ce_references (pc_Entries pc1 ! i) = 1"
    using Cache_Acquire_new[OF assms(3,4,5,1)] by blast
  have h1: "holds_pages r1 (cache_frames pc1 + R)" by (rule Cache_Acquire_holds[OF assms(1,4)])
  have "cache_ok pc1" by (rule Cache_Acquire_ok[OF assms(1,2,4)])
  then have ok2: "cache_ok pc2" by (rule cache_ok_acquire_n[OF assms(6) h1])
  have A: "cached pc2 f k = Some i" "r2 = r1" "cache_frames pc2 = cache_frames pc1"
    "pc_Entries pc2 ! i = (pc_Entries pc1 ! i)\<lparr>ce_references := 1 + of_nat n\<rparr>"
    using acquire_n_refs[OF assms(6) i(1)] i(3) by simp_all
  note C = cachedD[OF A(1)]
  have refs: "ce_references (pc_Entries pc2 ! i) = 0 \<longleftrightarrow> 65536 dvd Suc n"
  proof -
    have "ce_references (pc_Entries pc2 ! i) = of_nat (Suc n)" using A(4) by simp
    then show ?thesis by (simp add: word_of_nat_eq_0_iff del: of_nat_Suc)
  qed
  have p_in: "p \<in># cache_frames pc2"
    using table_frames_mem[of i "pc_Entries pc2" p cache_entry] C(1,2) A(4) i(2)
    by (simp add: cache_frames_def cache_entry_def)
  have h2: "holds_pages r2 (cache_frames pc2 + R)" using h1 A by simp
  have uses: "frame_used (pmm r2) p" "page_frame p" using h2 p_in by (auto simp: holds_pages_def)
  let ?P = "\<lambda>e. ce_active e \<and> ce_file_id e = f \<and> ce_page_offset e = k \<and> ce_references e = 0"
  show ?thesis
  proof (cases "65536 dvd Suc n")
    case True
    have "find_index ?P (pc_Entries pc2) = Some i"
      using C refs True A(1) by (auto simp: find_index_Some cached_def)
    then have "evicted" "r3 = free_page r2 p" using assms(7) A(4) i(2) by (auto simp: Cache_Evict_def)
    then show ?thesis
      using True uses h2 pages.release_page[of "pmm r2" p] by (simp add: free_page_def holds_pages_def)
  next
    case False
    have "\<not> ?P e" if "e \<in> set (pc_Entries pc2)" for e
    proof
      assume e: "?P e"
      obtain j where j: "j < length (pc_Entries pc2)" "e = pc_Entries pc2 ! j"
        using \<open>e \<in> set (pc_Entries pc2)\<close> by (auto simp: in_set_conv_nth)
      have E: "ce_active (pc_Entries pc2 ! j)" "ce_file_id (pc_Entries pc2 ! j) = f" "ce_page_offset (pc_Entries pc2 ! j) = k"
        "ce_references (pc_Entries pc2 ! j) = 0" using e unfolding j(2) by blast+
      have "j < kPageCacheEntryCount" using ok2 j(1) by (simp add: cache_ok_def)
      then have "cached pc2 f k = Some j" using ok2 E(1-3) unfolding cache_ok_def by metis
      then show False using A(1) E(4) refs False by simp
    qed
    then have "find_index ?P (pc_Entries pc2) = None" by (simp add: find_index_None)
    then show ?thesis using assms(7) False uses by (simp add: Cache_Evict_def)
  qed
qed

lemma cache_reference_count_wraps_witness:
  "\<exists>p pc1 r1 pc2 r2 pc3 r3. Cache_Acquire (cache demo_maps) demo_ram 7 0 = (p, pc1, r1) \<and> p \<noteq> 0 \<and>
     acquire_n 65535 pc1 r1 7 0 = (pc2, r2) \<and> Cache_Evict pc2 r2 7 0 = (True, pc3, r3) \<and> \<not> frame_used (pmm r3) p"
proof -
  have h: "holds_pages demo_ram (cache_frames (cache demo_maps) + {#})" "cache_ok (cache demo_maps)"
    using demo_maps_hold demo_ram_holds by (simp_all add: demo_maps_def Mappings_Init_def Cache_Init_ok)
  obtain p pc1 r1 where ac: "Cache_Acquire (cache demo_maps) demo_ram 7 0 = (p, pc1, r1)" by (metis surj_pair)
  obtain pc2 r2 where an: "acquire_n 65535 pc1 r1 7 0 = (pc2, r2)" by fastforce
  obtain e pc3 r3 where ev: "Cache_Evict pc2 r2 7 0 = (e, pc3, r3)" by (metis surj_pair)
  have p0: "p \<noteq> 0" using Cache_Acquire_demo[of 7 0] ac by (simp add: demo_maps_facts)
  have "e" "\<not> frame_used (pmm r3) p"
    using cache_reference_count_wraps[OF h demo_maps_facts(2) ac p0 an ev] by simp_all
  then show ?thesis using ac an ev p0 by auto
qed

end
