(* ===== verification/MemorySystem.thy ===== *)
theory MemorySystem
  imports Slab Mappings
begin

text \<open>
  \<^verbatim>\<open>kernel/src/kernel.cpp\<close>, \<open>KernelMemoryInit\<close> and \<open>KernelMemorySelfTest\<close>: the memory
  managers put together on one physical memory. \<open>KernelMemory\<close> is the group of globals
  \<open>g_PhysicalMemory\<close> ... \<open>g_MemoryMappings\<close>; the page allocator, the bytes of the memory, the
  page cache and the mappings are in its \<open>MapState\<close>.
\<close>

subsection \<open>State\<close>

record KernelMemory =
  g_Memory :: MapState
  g_VirtualMemory :: PageTables
  g_KernelHeap :: KernelHeap
  g_CopyOnWrite :: CopyOnWriteManager
  g_SharedMemory :: SharedMemoryManager
  g_SlabAllocator :: SlabAllocator
  g_HugePages :: bool
  g_Numa :: NumaManager
  g_Swap :: SwapManager

definition km_ram :: "KernelMemory \<Rightarrow> RAM" where
  "km_ram s = ram (g_Memory s)"

definition put_ram :: "RAM \<Rightarrow> KernelMemory \<Rightarrow> KernelMemory" where
  "put_ram r s = s\<lparr>g_Memory := (g_Memory s)\<lparr>ram := r\<rparr>\<rparr>"

definition put_pmm :: "PhysicalMemoryManager \<Rightarrow> KernelMemory \<Rightarrow> KernelMemory" where
  "put_pmm p s = put_ram ((km_ram s)\<lparr>pmm := p\<rparr>) s"

definition put_byte :: "u64 \<Rightarrow> u8 \<Rightarrow> KernelMemory \<Rightarrow> KernelMemory" where
  "put_byte a v s = put_ram ((km_ram s)\<lparr>bytes := (bytes (km_ram s))(a := v)\<rparr>) s"

subsection \<open>The managers on the shared state\<close>

definition km_huge_allocate :: "KernelMemory \<Rightarrow> u64 \<times> KernelMemory" where
  "km_huge_allocate s = (let (a, p) = HugePage_Allocate (g_HugePages s) (pmm (km_ram s)) in (a, put_pmm p s))"

definition km_huge_free :: "u64 \<Rightarrow> KernelMemory \<Rightarrow> KernelMemory" where
  "km_huge_free a s = put_pmm (HugePage_Free (g_HugePages s) (pmm (km_ram s)) a) s"

definition km_numa_allocate :: "u32 \<Rightarrow> KernelMemory \<Rightarrow> u64 \<times> KernelMemory" where
  "km_numa_allocate node s =
     (let (a, nm, p) = Numa_AllocatePage (g_Numa s) (pmm (km_ram s)) node in (a, put_pmm p (s\<lparr>g_Numa := nm\<rparr>)))"

definition km_numa_free :: "u32 \<Rightarrow> u64 \<Rightarrow> KernelMemory \<Rightarrow> KernelMemory" where
  "km_numa_free node a s =
     (let (nm, p) = Numa_FreePage (g_Numa s) (pmm (km_ram s)) node a in put_pmm p (s\<lparr>g_Numa := nm\<rparr>))"

definition km_map :: "u64 \<Rightarrow> u64 \<Rightarrow> bool \<Rightarrow> bool \<Rightarrow> KernelMemory \<Rightarrow> u64 \<times> KernelMemory" where
  "km_map file_id len writable demand s = (let (a, m) = Map (g_Memory s) file_id len writable demand in (a, s\<lparr>g_Memory := m\<rparr>))"

definition km_fault :: "u64 \<Rightarrow> bool \<Rightarrow> KernelMemory \<Rightarrow> u64 \<times> KernelMemory" where
  "km_fault a w s = (let (p, m) = HandlePageFault (g_Memory s) a w in (p, s\<lparr>g_Memory := m\<rparr>))"

definition km_unmap :: "u64 \<Rightarrow> KernelMemory \<Rightarrow> bool \<times> KernelMemory" where
  "km_unmap a s = (let (b, m) = Unmap (g_Memory s) a in (b, s\<lparr>g_Memory := m\<rparr>))"

definition km_evict :: "u64 \<Rightarrow> u64 \<Rightarrow> KernelMemory \<Rightarrow> bool \<times> KernelMemory" where
  "km_evict f k s =
     (let (b, c, r) = Cache_Evict (cache (g_Memory s)) (km_ram s) f k
      in (b, s\<lparr>g_Memory := (g_Memory s)\<lparr>cache := c, ram := r\<rparr>\<rparr>))"

definition km_alloc :: "KernelMemory \<Rightarrow> u64 \<times> KernelMemory" where
  "km_alloc s = (let (a, r) = alloc_page (km_ram s) in (a, put_ram r s))"

definition km_free :: "u64 \<Rightarrow> KernelMemory \<Rightarrow> KernelMemory" where
  "km_free a s = put_ram (free_page (km_ram s) a) s"

definition km_swap_out :: "u64 \<Rightarrow> KernelMemory \<Rightarrow> nat option \<times> KernelMemory" where
  "km_swap_out a s = (let (k, w, r) = SwapOut (g_Swap s) (km_ram s) a in (k, put_ram r (s\<lparr>g_Swap := w\<rparr>)))"

definition km_swap_in :: "u32 \<Rightarrow> u64 \<Rightarrow> KernelMemory \<Rightarrow> bool \<times> KernelMemory" where
  "km_swap_in k a s = (let (b, w, r) = SwapIn (g_Swap s) (km_ram s) k a in (b, put_ram r (s\<lparr>g_Swap := w\<rparr>)))"

definition km_cow_allocate :: "KernelMemory \<Rightarrow> u64 \<times> KernelMemory" where
  "km_cow_allocate s = (let (a, c, r) = Cow_AllocatePage (g_CopyOnWrite s) (km_ram s) in (a, put_ram r (s\<lparr>g_CopyOnWrite := c\<rparr>)))"

definition km_cow_clone :: "u64 \<Rightarrow> KernelMemory \<Rightarrow> bool \<times> KernelMemory" where
  "km_cow_clone a s = (let (b, c) = Cow_ClonePage (g_CopyOnWrite s) a in (b, s\<lparr>g_CopyOnWrite := c\<rparr>))"

definition km_cow_resolve :: "u64 \<Rightarrow> KernelMemory \<Rightarrow> u64 \<times> KernelMemory" where
  "km_cow_resolve a s = (let (b, c, r) = Cow_ResolveWrite (g_CopyOnWrite s) (km_ram s) a in (b, put_ram r (s\<lparr>g_CopyOnWrite := c\<rparr>)))"

definition km_cow_release :: "u64 \<Rightarrow> KernelMemory \<Rightarrow> KernelMemory" where
  "km_cow_release a s = (let (c, r) = Cow_ReleasePage (g_CopyOnWrite s) (km_ram s) a in put_ram r (s\<lparr>g_CopyOnWrite := c\<rparr>))"

definition km_shared_create :: "u64 \<Rightarrow> KernelMemory \<Rightarrow> u64 \<times> KernelMemory" where
  "km_shared_create n s = (let (i, m, r) = Shared_Create (g_SharedMemory s) (km_ram s) n in (i, put_ram r (s\<lparr>g_SharedMemory := m\<rparr>)))"

definition km_shared_attach :: "u64 \<Rightarrow> KernelMemory \<Rightarrow> bool \<times> KernelMemory" where
  "km_shared_attach i s = (let (b, m) = Shared_Attach (g_SharedMemory s) i in (b, s\<lparr>g_SharedMemory := m\<rparr>))"

definition km_shared_release :: "u64 \<Rightarrow> KernelMemory \<Rightarrow> KernelMemory" where
  "km_shared_release i s = (let (m, r) = Shared_Release (g_SharedMemory s) (km_ram s) i in put_ram r (s\<lparr>g_SharedMemory := m\<rparr>))"

definition km_slab_allocate :: "u64 \<Rightarrow> KernelMemory \<Rightarrow> u64 \<times> KernelMemory" where
  "km_slab_allocate n s = (let (a, m, r) = Slab_Allocate (g_SlabAllocator s) (km_ram s) n in (a, put_ram r (s\<lparr>g_SlabAllocator := m\<rparr>)))"

definition km_slab_free :: "u64 \<Rightarrow> u64 \<Rightarrow> KernelMemory \<Rightarrow> bool \<times> KernelMemory" where
  "km_slab_free a n s = (let (b, m, r) = Slab_Free (g_SlabAllocator s) (km_ram s) a n in (b, put_ram r (s\<lparr>g_SlabAllocator := m\<rparr>)))"

subsection \<open>The boot self-test\<close>

text \<open>The code returns at the first check that fails; each part is one of its blocks.\<close>

definition selftest_huge :: "KernelMemory \<Rightarrow> bool \<times> KernelMemory" where
  "selftest_huge s =
     (let (huge_page, s1) = km_huge_allocate s in
      if huge_page = 0 \<or> huge_page AND (kHugePageSize - 1) \<noteq> 0 then (False, s1)
      else (True, km_huge_free huge_page s1))"

definition selftest_numa :: "KernelMemory \<Rightarrow> bool \<times> KernelMemory" where
  "selftest_numa s =
     (let (local_page, s1) = km_numa_allocate 0 s in
      if local_page = 0 \<or> Numa_NodeCount (g_Numa s1) = 0 then (False, s1)
      else (True, km_numa_free 0 local_page s1))"

definition selftest_anonymous :: "KernelMemory \<Rightarrow> bool \<times> KernelMemory" where
  "selftest_anonymous s =
     (let (anonymous_map, s1) = km_map 0 (kPageSize * 2) True True s in
      if anonymous_map = 0 then (False, s1)
      else let (p, s2) = km_fault anonymous_map True s1 in
      if p = 0 then (False, s2) else km_unmap anonymous_map s2)"

definition selftest_file :: "KernelMemory \<Rightarrow> bool \<times> KernelMemory" where
  "selftest_file s =
     (let (file_map, s1) = km_map 7 kPageSize True True s;
          (cached_page, s2) = km_fault file_map True s1
      in if file_map = 0 \<or> cached_page = 0 then (False, s2)
         else let (b, s3) = km_unmap file_map s2 in if \<not> b then (False, s3) else km_evict 7 0 s3)"

definition selftest_swap :: "KernelMemory \<Rightarrow> bool \<times> KernelMemory" where
  "selftest_swap s =
     (let (swap_source, s1) = km_alloc s; (swap_destination, s2) = km_alloc s1 in
      if swap_source = 0 \<or> swap_destination = 0 then (False, s2)
      else let (swap_slot, s3) = km_swap_out swap_source (put_byte swap_source 0x6D s2)
      in (case swap_slot of None \<Rightarrow> (False, s3)
          | Some slot \<Rightarrow>
              let (b, s4) = km_swap_in (of_nat slot) swap_destination s3 in
              if \<not> b \<or> bytes (km_ram s4) swap_destination \<noteq> 0x6D then (False, s4)
              else (True, km_free swap_destination (km_free swap_source s4))))"

definition selftest_cow :: "KernelMemory \<Rightarrow> bool \<times> KernelMemory" where
  "selftest_cow s =
     (let (cow_original, s1) = km_cow_allocate s in
      if cow_original = 0 then (False, s1)
      else let (b, s2) = km_cow_clone cow_original (put_byte cow_original 0x5A s1) in
      if \<not> b \<or> Cow_ReferenceCount (g_CopyOnWrite s2) cow_original \<noteq> 2 then (False, s2)
      else let (cow_private, s3) = km_cow_resolve cow_original s2 in
      if cow_private = 0 \<or> cow_private = cow_original then (False, s3)
      else let s4 = put_byte cow_private 0xA5 s3 in
      if bytes (km_ram s4) cow_original \<noteq> 0x5A \<or> bytes (km_ram s4) cow_private \<noteq> 0xA5 \<or>
         Cow_ReferenceCount (g_CopyOnWrite s4) cow_original \<noteq> 1 \<or> Cow_ReferenceCount (g_CopyOnWrite s4) cow_private \<noteq> 1
      then (False, s4)
      else (True, km_cow_release cow_private (km_cow_release cow_original s4)))"

definition selftest_shared :: "KernelMemory \<Rightarrow> bool \<times> KernelMemory" where
  "selftest_shared s =
     (let (shared_segment, s1) = km_shared_create 2 s in
      if shared_segment = 0 then (False, s1)
      else let (b, s2) = km_shared_attach shared_segment s1 in
      if \<not> b \<or> Shared_ReferenceCount (g_SharedMemory s2) shared_segment \<noteq> 2 then (False, s2)
      else let shared_page = Shared_Page (g_SharedMemory s2) shared_segment 0 in
      if shared_page = 0 then (False, s2)
      else let s3 = put_byte shared_page 0xC3 s2 in
      if bytes (km_ram s3) (Shared_Page (g_SharedMemory s3) shared_segment 0) \<noteq> 0xC3 then (False, s3)
      else (True, km_shared_release shared_segment (km_shared_release shared_segment s3)))"

definition selftest_slab :: "KernelMemory \<Rightarrow> bool \<times> KernelMemory" where
  "selftest_slab s =
     (let (slab_a, s1) = km_slab_allocate 24 s; (slab_b, s2) = km_slab_allocate 128 s1 in
      if slab_a = 0 \<or> slab_b = 0 then (False, s2)
      else let (b, s3) = km_slab_free slab_a 24 s2 in if \<not> b then (False, s3) else km_slab_free slab_b 128 s3)"

fun run_checks :: "(KernelMemory \<Rightarrow> bool \<times> KernelMemory) list \<Rightarrow> KernelMemory \<Rightarrow> bool \<times> KernelMemory" where
  "run_checks [] s = (True, s)"
| "run_checks (t # ts) s = (let (ok, s1) = t s in if \<not> ok then (False, s1) else run_checks ts s1)"

definition KernelMemorySelfTest :: "KernelMemory \<Rightarrow> bool \<times> KernelMemory" where
  "KernelMemorySelfTest s =
     (let (ok, s1) = run_checks [selftest_huge, selftest_numa, selftest_anonymous, selftest_file, selftest_swap,
            selftest_cow, selftest_shared, selftest_slab] s
      in if \<not> ok then (False, s1)
         else (Cow_ActivePages (g_CopyOnWrite s1) = 0 \<and> Shared_ActiveSegments (g_SharedMemory s1) = 0, s1))"

text \<open>The block of \<open>Init\<close> calls of \<open>KernelMemoryInit\<close>.\<close>

definition init_managers :: "KernelMemory \<Rightarrow> KernelMemory" where
  "init_managers s = s\<lparr>g_CopyOnWrite := Cow_Init (g_CopyOnWrite s), g_SharedMemory := Shared_Init (g_SharedMemory s),
     g_SlabAllocator := Slab_Init (g_SlabAllocator s), g_HugePages := True,
     g_Numa := Numa_Init (pmm (km_ram s)) (g_Numa s), g_Swap := Swap_Init (g_Swap s),
     g_Memory := Mappings_Init ((g_Memory s)\<lparr>cache := Cache_Init (cache (g_Memory s))\<rparr>)\<rparr>"

definition KernelMemoryInit ::
    "KernelLayout \<Rightarrow> (u64 \<Rightarrow> KernelMemoryDescriptor) \<Rightarrow> BootInfo \<Rightarrow> KernelMemory \<Rightarrow> bool \<times> KernelMemory" where
  "KernelMemoryInit lay read_desc boot_info s =
     (let (ok, p) = Init lay read_desc boot_info (pmm (km_ram s)); s = put_pmm p s in
      if \<not> ok then (False, s)
      else
        let s = s\<lparr>g_VirtualMemory := InitIdentityMap4GiB lay\<rparr>;
            (ok, h, p) = Heap_Init (pmm (km_ram s)) (g_KernelHeap s);
            s = put_pmm p (s\<lparr>g_KernelHeap := h\<rparr>)
        in if \<not> ok then (False, s)
        else
          let s = init_managers s;
              (ok, m, r) = Prime (g_SlabAllocator s) (km_ram s);
              s = put_ram r (s\<lparr>g_SlabAllocator := m\<rparr>)
          in if \<not> ok then (False, s)
          else
            let (probe, h) = Heap_Allocate (g_KernelHeap s) 64 16; s = s\<lparr>g_KernelHeap := h\<rparr>
            in if probe = 0 then (False, s) else KernelMemorySelfTest s)"

subsection \<open>Runs of pages\<close>

definition run_frames :: "u64 \<Rightarrow> nat \<Rightarrow> u64 multiset" where
  "run_frames a n = mset (map (\<lambda>i. a + of_nat i * 4096) [0 ..< n])"

lemma run_page:
  assumes "r \<noteq> 0" "r + n \<le> kManagedPageCount" "i < n"
  shows "page_frame (of_nat r * kPageSize + of_nat i * 4096)"
    "unat (of_nat r * kPageSize + of_nat i * 4096 :: u64) div 4096 = r + i"
proof -
  have e: "of_nat r * kPageSize + of_nat i * 4096 = (of_nat (r + i) * kPageSize :: u64)"
    by (simp add: kPageSize_def algebra_simps)
  show "page_frame (of_nat r * kPageSize + of_nat i * 4096)"
    "unat (of_nat r * kPageSize + of_nat i * 4096 :: u64) div 4096 = r + i"
    unfolding e using assms page_frame_of_nat[of "r + i"] by simp_all
qed

lemma run_frames_count:
  assumes "r \<noteq> 0" "r + n \<le> kManagedPageCount"
  shows "count (run_frames (of_nat r * kPageSize) n) b = of_bool (\<exists>i < n. b = of_nat r * kPageSize + of_nat i * 4096)"
proof -
  have "distinct (map (\<lambda>i. of_nat r * kPageSize + of_nat i * 4096 :: u64) [0 ..< n])"
  proof (simp only: distinct_map distinct_upt simp_thms, rule inj_onI)
    fix i j assume ij: "i \<in> set [0 ..< n]" "j \<in> set [0 ..< n]"
      "of_nat r * kPageSize + of_nat i * 4096 = (of_nat r * kPageSize + of_nat j * 4096 :: u64)"
    have "unat (of_nat r * kPageSize + of_nat i * 4096 :: u64) div 4096 = r + i"
      "unat (of_nat r * kPageSize + of_nat j * 4096 :: u64) div 4096 = r + j"
      using ij(1,2) by (simp_all only: set_upt atLeastLessThan_iff run_page(2)[OF assms])
    then have "r + i = r + j" unfolding ij(3) by (rule trans[OF sym])
    then show "i = j" by simp
  qed
  then have "count (run_frames (of_nat r * kPageSize) n) b =
      (if b \<in> set (map (\<lambda>i. of_nat r * kPageSize + of_nat i * 4096) [0 ..< n]) then 1 else 0)"
    unfolding run_frames_def distinct_count_atmost_1 by blast
  also have "\<dots> = of_bool (\<exists>i < n. b = of_nat r * kPageSize + of_nat i * 4096)" by auto
  finally show ?thesis .
qed

lemma holds_run_alloc:
  assumes "holds_pages r M" "AllocateAligned (pmm r) n al = (a, p)" "a \<noteq> 0" "n \<noteq> 0" "pow2_check al"
  shows "holds_pages (r\<lparr>pmm := p\<rparr>) (run_frames a (unat n) + M) \<and> page_frame a \<and> unat a div 4096 + unat n \<le> kManagedPageCount"
proof -
  have acc: "pmm_accounts (pmm r)" "\<not> IsPageFree (pmm r) 0" using assms(1) by (simp_all add: holds_pages_def pmm_ok_def)
  show ?thesis
  proof (cases rule: AllocateAligned_cases[OF acc(1) assms(4,5), case_names fit none])
    case (fit k)
    have a: "a = of_nat k * kPageSize" "p = MarkPages (pmm r) (of_nat k) n False" using fit(3) assms(2) by simp_all
    have run: "k + unat n \<le> kManagedPageCount" "0 < unat n" "\<And>q. k \<le> q \<Longrightarrow> q < k + unat n \<Longrightarrow> IsPageFree (pmm r) q"
      using fit(1) assms(4) by (auto simp: page_run_def unat_gt_0)
    have k: "k \<noteq> 0" using a(1) assms(3) by (intro notI) simp
    have free: "IsPageFree p q = (if k \<le> q \<and> q < k + unat n then False else IsPageFree (pmm r) q)" for q
      using run_marked[OF fit(1) assms(4)] by (simp add: a(2))
    have new: "b \<in># run_frames a (unat n) \<Longrightarrow> page_frame b \<and> k \<le> unat b div 4096 \<and> unat b div 4096 < k + unat n" for b
      using run_page[OF k run(1)] by (auto simp: run_frames_def a(1))
    have old: "b \<in># M \<Longrightarrow> page_frame b \<and> \<not> IsPageFree (pmm r) (unat b div 4096)" for b
      using assms(1) by (simp add: holds_pages_def frame_used_def)
    have "count (run_frames a (unat n) + M) b \<le> 1" for b
    proof (cases "b \<in># run_frames a (unat n)")
      case True
      then have "b \<notin># M" using new[OF True] old[of b] run(3) by blast
      then show ?thesis using run_frames_count[OF k run(1), of b] by (simp add: a(1) not_in_iff)
    next
      case False
      then show ?thesis using assms(1) by (simp add: holds_pages_def not_in_iff)
    qed
    moreover have "page_frame b \<and> frame_used p b" if "b \<in># run_frames a (unat n) + M" for b
      using that new[of b] old[of b] by (auto simp: frame_used_def free)
    moreover have "pmm_ok p"
      using acc pmm_accounts_AllocateAligned[OF acc(1), of n al] assms(2) by (simp add: pmm_ok_def free)
    ultimately have "holds_pages (r\<lparr>pmm := p\<rparr>) (run_frames a (unat n) + M)" by (simp add: holds_pages_def)
    moreover have "page_frame a" "unat a div 4096 = k"
      using page_frame_of_nat[of k] k run(1,2) by (simp_all add: a(1))
    ultimately show ?thesis using run(1) by simp
  next
    case none
    then show ?thesis using assms(2,3) by simp
  qed
qed

lemma holds_run_free:
  assumes "holds_pages r (run_frames a (unat n) + M)" "page_frame a" "unat a div 4096 + unat n \<le> kManagedPageCount" "n \<noteq> 0"
  shows "holds_pages (r\<lparr>pmm := FreeContiguous (pmm r) a n\<rparr>) M"
proof -
  define k where "k = unat a div 4096"
  have k: "k \<noteq> 0" "k + unat n \<le> kManagedPageCount" "k < kManagedPageCount"
    using assms(2-4) page_frame_nonzero_page page_frame_bound by (auto simp: k_def)
  have a: "a = of_nat k * kPageSize" "a div kPageSize = of_nat k"
    using assms(2) page_frame_eq_iff[OF assms(2) page_frame_of_nat(1)[OF k(3,1)]] page_frame_of_nat(2)[OF k(3,1)] k(3)
    by (simp_all add: k_def word_unat_eq_iff unat_div kPageSize_def managed_unat)
  have "(a AND 4095) = 0" using assms(2) and_4095[of a] by (simp add: page_frame_def unat_eq_zero dvd_eq_mod_eq_0)
  then have fc: "FreeContiguous (pmm r) a n = MarkPages (pmm r) (of_nat k) n True"
    using assms(4) a(2) by (simp add: FreeContiguous_def MarkRange_def) (simp add: kPageSize_def)
  have "unat (of_nat k + n :: u64) = k + unat n"
    using k by (simp add: unat_word_ariths managed_unat kManagedPageCount_def)
  then have free: "IsPageFree (FreeContiguous (pmm r) a n) q = (if k \<le> q \<and> q < k + unat n then True else IsPageFree (pmm r) q)" for q
    using k by (auto simp: fc IsPageFree_MarkPages managed_unat)
  have M: "page_frame b \<and> frame_used (FreeContiguous (pmm r) a n) b" if b: "b \<in># M" for b
  proof -
    have h: "page_frame b" "\<not> IsPageFree (pmm r) (unat b div 4096)" "b \<notin># run_frames a (unat n)"
      using assms(1) b holds_distinct[OF assms(1)] by (auto simp: holds_pages_def frame_used_def)
    have "\<not> (k \<le> unat b div 4096 \<and> unat b div 4096 < k + unat n)"
    proof
      assume c: "k \<le> unat b div 4096 \<and> unat b div 4096 < k + unat n"
      define i where "i = unat b div 4096 - k"
      have i: "i < unat n" "unat b div 4096 = k + i" using c by (auto simp: i_def)
      have "b = of_nat k * kPageSize + of_nat i * 4096"
        using page_frame_eq_iff[OF h(1) run_page(1)[OF k(1,2) i(1)]] run_page(2)[OF k(1,2) i(1)] i(2) by simp
      then have "0 < count (run_frames a (unat n)) b" using run_frames_count[OF k(1,2), of b] i(1) by (auto simp: a(1))
      then show False using h(3) by simp
    qed
    then show ?thesis using h by (auto simp: frame_used_def free)
  qed
  have "pmm_ok (FreeContiguous (pmm r) a n)"
    using assms(1) pmm_accounts_FreeContiguous k(1) by (auto simp: holds_pages_def pmm_ok_def free)
  moreover have "count M b \<le> 1" for b
  proof -
    have "count (run_frames a (unat n) + M) b \<le> 1" using assms(1) unfolding holds_pages_def by blast
    then show ?thesis by simp
  qed
  ultimately show ?thesis using M by (simp add: holds_pages_def)
qed

subsection \<open>One owner per page\<close>

text \<open>
  The pages the managers hold together; \<open>H\<close> are the pages handed out to others: those of
  the kernel heap, huge pages, NUMA pages and single pages.
\<close>

definition km_frames :: "KernelMemory \<Rightarrow> u64 multiset" where
  "km_frames s = map_frames (g_Memory s) + (cache_frames (cache (g_Memory s)) + (cow_frames (g_CopyOnWrite s) +
     (shared_frames (g_SharedMemory s) + (swap_frames (g_Swap s) + slab_frames (g_SlabAllocator s)))))"

definition km_rest :: "KernelMemory \<Rightarrow> u64 multiset \<Rightarrow> u64 multiset" where
  "km_rest s H = cow_frames (g_CopyOnWrite s) + (shared_frames (g_SharedMemory s) +
     (swap_frames (g_Swap s) + (slab_frames (g_SlabAllocator s) + H)))"

definition km_owned :: "KernelMemory \<Rightarrow> u64 multiset \<Rightarrow> bool" where
  "km_owned s H \<longleftrightarrow> maps_hold (g_Memory s) (km_rest s H) \<and> cow_ok (g_CopyOnWrite s) \<and>
     shared_ok (g_SharedMemory s) \<and> swap_ok (g_Swap s) \<and> g_HugePages s"

lemma km_owned_holds: "km_owned s H \<Longrightarrow> holds_pages (km_ram s) (km_frames s + H)"
  by (simp add: km_owned_def maps_hold_def km_frames_def km_rest_def km_ram_def ac_simps)

lemma maps_hold_ram:
  "maps_hold m R \<Longrightarrow> holds_pages r (map_frames m + (cache_frames (cache m) + R')) \<Longrightarrow> maps_hold (m\<lparr>ram := r\<rparr>) R'"
  by (simp add: maps_hold_def map_frames_def)

lemma km_simps [simp]:
  "km_ram (put_ram r s) = r" "g_CopyOnWrite (put_ram r s) = g_CopyOnWrite s"
  "g_SharedMemory (put_ram r s) = g_SharedMemory s" "g_Swap (put_ram r s) = g_Swap s"
  "g_SlabAllocator (put_ram r s) = g_SlabAllocator s" "g_HugePages (put_ram r s) = g_HugePages s"
  "g_Numa (put_ram r s) = g_Numa s" "g_KernelHeap (put_ram r s) = g_KernelHeap s"
  "g_Memory (put_ram r s) = (g_Memory s)\<lparr>ram := r\<rparr>"
  "km_ram (s\<lparr>g_CopyOnWrite := c\<rparr>) = km_ram s" "km_ram (s\<lparr>g_SharedMemory := sm\<rparr>) = km_ram s"
  "km_ram (s\<lparr>g_Swap := w\<rparr>) = km_ram s" "km_ram (s\<lparr>g_SlabAllocator := sl\<rparr>) = km_ram s" "km_ram (s\<lparr>g_Numa := nm\<rparr>) = km_ram s"
  by (simp_all add: put_ram_def km_ram_def)

lemma km_ok: "km_owned s H \<Longrightarrow> cow_ok (g_CopyOnWrite s) \<and> shared_ok (g_SharedMemory s) \<and> swap_ok (g_Swap s) \<and> g_HugePages s"
  by (simp add: km_owned_def)

text \<open>
  What an operation does to the pages of one manager, or to the pages handed out, it does
  with all other pages \<open>R\<close> of the system held by their owners.
\<close>

lemma km_owned_cow:
  assumes o: "km_owned s H"
    and op: "\<And>R. holds_pages (km_ram s) (cow_frames (g_CopyOnWrite s) + R) \<Longrightarrow> holds_pages r (cow_frames x + R) \<and> cow_ok x"
  shows "km_owned (put_ram r (s\<lparr>g_CopyOnWrite := x\<rparr>)) H"
proof -
  have m: "maps_hold (g_Memory s) (km_rest s H)" using o by (simp add: km_owned_def)
  have "holds_pages (km_ram s) (cow_frames (g_CopyOnWrite s) + (map_frames (g_Memory s) + (cache_frames (cache (g_Memory s)) + (shared_frames (g_SharedMemory s) + (swap_frames (g_Swap s) + (slab_frames (g_SlabAllocator s) + (H)))))))"
    using km_owned_holds[OF o] by (simp add: km_frames_def ac_simps)
  note h = op[OF this]
  have "maps_hold ((g_Memory s)\<lparr>ram := r\<rparr>) (km_rest (s\<lparr>g_CopyOnWrite := x\<rparr>) H)"
    by (rule maps_hold_ram[OF m]) (use h in \<open>simp add: km_rest_def ac_simps\<close>)
  then show ?thesis using km_ok[OF o] h by (simp add: km_owned_def km_rest_def)
qed

lemma km_owned_shared:
  assumes o: "km_owned s H"
    and op: "\<And>R. holds_pages (km_ram s) (shared_frames (g_SharedMemory s) + R) \<Longrightarrow> holds_pages r (shared_frames x + R) \<and> shared_ok x"
  shows "km_owned (put_ram r (s\<lparr>g_SharedMemory := x\<rparr>)) H"
proof -
  have m: "maps_hold (g_Memory s) (km_rest s H)" using o by (simp add: km_owned_def)
  have "holds_pages (km_ram s) (shared_frames (g_SharedMemory s) + (map_frames (g_Memory s) + (cache_frames (cache (g_Memory s)) + (cow_frames (g_CopyOnWrite s) + (swap_frames (g_Swap s) + (slab_frames (g_SlabAllocator s) + (H)))))))"
    using km_owned_holds[OF o] by (simp add: km_frames_def ac_simps)
  note h = op[OF this]
  have "maps_hold ((g_Memory s)\<lparr>ram := r\<rparr>) (km_rest (s\<lparr>g_SharedMemory := x\<rparr>) H)"
    by (rule maps_hold_ram[OF m]) (use h in \<open>simp add: km_rest_def ac_simps\<close>)
  then show ?thesis using km_ok[OF o] h by (simp add: km_owned_def km_rest_def)
qed

lemma km_owned_swap:
  assumes o: "km_owned s H"
    and op: "\<And>R. holds_pages (km_ram s) (swap_frames (g_Swap s) + R) \<Longrightarrow> holds_pages r (swap_frames x + R) \<and> swap_ok x"
  shows "km_owned (put_ram r (s\<lparr>g_Swap := x\<rparr>)) H"
proof -
  have m: "maps_hold (g_Memory s) (km_rest s H)" using o by (simp add: km_owned_def)
  have "holds_pages (km_ram s) (swap_frames (g_Swap s) + (map_frames (g_Memory s) + (cache_frames (cache (g_Memory s)) + (cow_frames (g_CopyOnWrite s) + (shared_frames (g_SharedMemory s) + (slab_frames (g_SlabAllocator s) + (H)))))))"
    using km_owned_holds[OF o] by (simp add: km_frames_def ac_simps)
  note h = op[OF this]
  have "maps_hold ((g_Memory s)\<lparr>ram := r\<rparr>) (km_rest (s\<lparr>g_Swap := x\<rparr>) H)"
    by (rule maps_hold_ram[OF m]) (use h in \<open>simp add: km_rest_def ac_simps\<close>)
  then show ?thesis using km_ok[OF o] h by (simp add: km_owned_def km_rest_def)
qed

lemma km_owned_slab:
  assumes o: "km_owned s H"
    and op: "\<And>R. holds_pages (km_ram s) (slab_frames (g_SlabAllocator s) + R) \<Longrightarrow> holds_pages r (slab_frames x + R)"
  shows "km_owned (put_ram r (s\<lparr>g_SlabAllocator := x\<rparr>)) H"
proof -
  have m: "maps_hold (g_Memory s) (km_rest s H)" using o by (simp add: km_owned_def)
  have "holds_pages (km_ram s) (slab_frames (g_SlabAllocator s) + (map_frames (g_Memory s) + (cache_frames (cache (g_Memory s)) + (cow_frames (g_CopyOnWrite s) + (shared_frames (g_SharedMemory s) + (swap_frames (g_Swap s) + (H)))))))"
    using km_owned_holds[OF o] by (simp add: km_frames_def ac_simps)
  note h = op[OF this]
  have "maps_hold ((g_Memory s)\<lparr>ram := r\<rparr>) (km_rest (s\<lparr>g_SlabAllocator := x\<rparr>) H)"
    by (rule maps_hold_ram[OF m]) (use h in \<open>simp add: km_rest_def ac_simps\<close>)
  then show ?thesis using km_ok[OF o] h by (simp add: km_owned_def km_rest_def)
qed

lemma km_owned_held:
  assumes o: "km_owned s H" and op: "\<And>R. holds_pages (km_ram s) (H + R) \<Longrightarrow> holds_pages r (H' + R)"
  shows "km_owned (put_ram r s) H'"
proof -
  have m: "maps_hold (g_Memory s) (km_rest s H)" using o by (simp add: km_owned_def)
  have "holds_pages (km_ram s) (H + km_frames s)" using km_owned_holds[OF o] by (simp add: ac_simps)
  note h = op[OF this]
  have "maps_hold ((g_Memory s)\<lparr>ram := r\<rparr>) (km_rest s H')"
    by (rule maps_hold_ram[OF m]) (use h in \<open>simp add: km_rest_def km_frames_def ac_simps\<close>)
  then show ?thesis using km_ok[OF o] by (simp add: km_owned_def km_rest_def)
qed

lemma km_owned_maps:
  assumes o: "km_owned s H" and op: "\<And>R. maps_hold (g_Memory s) R \<Longrightarrow> maps_hold m R"
  shows "km_owned (s\<lparr>g_Memory := m\<rparr>) H"
  using o op by (simp add: km_owned_def km_rest_def)

subsection \<open>Every operation keeps ownership\<close>

lemma km_alloc_owned:
  assumes "km_owned s H" "km_alloc s = (a, t)"
  shows "km_owned t (one_page a + H)"
proof -
  obtain r where r: "alloc_page (km_ram s) = (a, r)" "t = put_ram r s" using assms(2) by (auto simp: km_alloc_def split: prod.splits)
  have "holds_pages r (one_page a + H + R)" if h: "holds_pages (km_ram s) (H + R)" for R
    using h r(1) holds_alloc(1)[OF h r(1)] holds_alloc_fails[OF h, of r] by (cases "a = 0") auto
  then show ?thesis unfolding r(2) by (rule km_owned_held[OF assms(1)])
qed

lemma km_free_owned: "km_owned s (add_mset a H) \<Longrightarrow> km_owned (km_free a s) H"
  unfolding km_free_def by (rule km_owned_held) (auto intro: holds_free)

lemma put_ram_same: "put_ram (km_ram s) s = s"
  by (simp add: put_ram_def km_ram_def)

lemma km_cow_allocate_owned:
  assumes "km_owned s H" "km_cow_allocate s = (a, t)"
  shows "km_owned t H"
proof -
  obtain x r where r: "Cow_AllocatePage (g_CopyOnWrite s) (km_ram s) = (a, x, r)" "t = put_ram r (s\<lparr>g_CopyOnWrite := x\<rparr>)"
    using assms(2) by (auto simp: km_cow_allocate_def split: prod.splits)
  show ?thesis
    unfolding r(2) by (rule km_owned_cow[OF assms(1)]) (use Cow_AllocatePage_holds[OF _ _ r(1)] km_ok[OF assms(1)] in blast)
qed

lemma km_cow_resolve_owned:
  assumes "km_owned s H" "km_cow_resolve p s = (a, t)"
  shows "km_owned t H"
proof -
  obtain x r where r: "Cow_ResolveWrite (g_CopyOnWrite s) (km_ram s) p = (a, x, r)" "t = put_ram r (s\<lparr>g_CopyOnWrite := x\<rparr>)"
    using assms(2) by (auto simp: km_cow_resolve_def split: prod.splits)
  show ?thesis
    unfolding r(2) by (rule km_owned_cow[OF assms(1)]) (use Cow_ResolveWrite_holds[OF _ _ r(1)] km_ok[OF assms(1)] in blast)
qed

lemma km_cow_release_owned:
  assumes "km_owned s H" "km_cow_release p s = t"
  shows "km_owned t H"
proof -
  obtain x r where r: "Cow_ReleasePage (g_CopyOnWrite s) (km_ram s) p = (x, r)" "t = put_ram r (s\<lparr>g_CopyOnWrite := x\<rparr>)"
    using assms(2) by (auto simp: km_cow_release_def split: prod.splits)
  show ?thesis
    unfolding r(2) by (rule km_owned_cow[OF assms(1)]) (use Cow_ReleasePage_holds[OF _ _ r(1)] km_ok[OF assms(1)] in blast)
qed

lemma km_shared_create_owned:
  assumes "km_owned s H" "km_shared_create n s = (a, t)"
  shows "km_owned t H"
proof -
  obtain x r where r: "Shared_Create (g_SharedMemory s) (km_ram s) n = (a, x, r)" "t = put_ram r (s\<lparr>g_SharedMemory := x\<rparr>)"
    using assms(2) by (auto simp: km_shared_create_def split: prod.splits)
  show ?thesis
    unfolding r(2) by (rule km_owned_shared[OF assms(1)]) (use Shared_Create_holds[OF _ _ r(1)] km_ok[OF assms(1)] in blast)
qed

lemma km_shared_release_owned:
  assumes "km_owned s H" "km_shared_release i s = t"
  shows "km_owned t H"
proof -
  obtain x r where r: "Shared_Release (g_SharedMemory s) (km_ram s) i = (x, r)" "t = put_ram r (s\<lparr>g_SharedMemory := x\<rparr>)"
    using assms(2) by (auto simp: km_shared_release_def split: prod.splits)
  show ?thesis
    unfolding r(2) by (rule km_owned_shared[OF assms(1)]) (use Shared_Release_holds[OF _ _ r(1)] km_ok[OF assms(1)] in blast)
qed

lemma km_swap_out_owned:
  assumes "km_owned s H" "km_swap_out p s = (k, t)"
  shows "km_owned t H"
proof -
  obtain x r where r: "SwapOut (g_Swap s) (km_ram s) p = (k, x, r)" "t = put_ram r (s\<lparr>g_Swap := x\<rparr>)"
    using assms(2) by (auto simp: km_swap_out_def split: prod.splits)
  show ?thesis
    unfolding r(2) by (rule km_owned_swap[OF assms(1)]) (use SwapOut_holds[OF _ _ r(1)] km_ok[OF assms(1)] in blast)
qed

lemma km_swap_in_owned:
  assumes "km_owned s H" "km_swap_in k p s = (b, t)"
  shows "km_owned t H"
proof -
  obtain x r where r: "SwapIn (g_Swap s) (km_ram s) k p = (b, x, r)" "t = put_ram r (s\<lparr>g_Swap := x\<rparr>)"
    using assms(2) by (auto simp: km_swap_in_def split: prod.splits)
  show ?thesis
    unfolding r(2) by (rule km_owned_swap[OF assms(1)]) (use SwapIn_holds[OF _ _ r(1)] km_ok[OF assms(1)] in blast)
qed

lemma km_cow_clone_owned:
  assumes "km_owned s H" "km_cow_clone p s = (b, t)"
  shows "km_owned t H"
proof -
  obtain x where r: "Cow_ClonePage (g_CopyOnWrite s) p = (b, x)" "t = s\<lparr>g_CopyOnWrite := x\<rparr>"
    using assms(2) by (auto simp: km_cow_clone_def split: prod.splits)
  have "km_owned (put_ram (km_ram s) (s\<lparr>g_CopyOnWrite := x\<rparr>)) H"
    by (rule km_owned_cow[OF assms(1)]) (use Cow_ClonePage_frames[OF r(1)] km_ok[OF assms(1)] in simp)
  then show ?thesis using put_ram_same[of t] by (simp add: r(2))
qed

lemma km_shared_attach_owned:
  assumes "km_owned s H" "km_shared_attach i s = (b, t)"
  shows "km_owned t H"
proof -
  obtain x where r: "Shared_Attach (g_SharedMemory s) i = (b, x)" "t = s\<lparr>g_SharedMemory := x\<rparr>"
    using assms(2) by (auto simp: km_shared_attach_def split: prod.splits)
  have "km_owned (put_ram (km_ram s) (s\<lparr>g_SharedMemory := x\<rparr>)) H"
    by (rule km_owned_shared[OF assms(1)]) (use Shared_Attach_frames[OF r(1)] km_ok[OF assms(1)] in simp)
  then show ?thesis using put_ram_same[of t] by (simp add: r(2))
qed

lemma put_byte_owned: "km_owned s H \<Longrightarrow> km_owned (put_byte a v s) H"
  unfolding put_byte_def by (rule km_owned_held) simp_all

subsection \<open>Slabs, mappings, NUMA and huge pages\<close>

lemma GrowCache_holds:
  assumes "holds_pages r (slab_frames m + R)" "k < length (slab_Caches m)" "GrowCache m r k = (ok, m', r')"
  shows "holds_pages r' (slab_frames m' + R) \<and> length (slab_Caches m') = length (slab_Caches m)"
proof (cases "\<not> slab_attached m \<or> sl_page (slab_Caches m ! k) \<noteq> 0")
  case True
  then show ?thesis using assms by (auto simp: GrowCache_def)
next
  case False
  obtain p r1 where al: "alloc_page r = (p, r1)" by fastforce
  show ?thesis
  proof (cases "p = 0")
    case True
    have r1: "r1 = r" using holds_alloc_fails[OF assms(1)] al True by simp
    have m': "m' = upd_slab k (\<lambda>c. c\<lparr>sl_page := 0\<rparr>) m" "r' = r"
      using assms(3) False al True r1 by (simp_all add: GrowCache_def)
    have "slab_frames m' = slab_frames m" unfolding m'(1)
      by (rule slab_frames_upd) (use False assms(2) in simp_all)
    then show ?thesis using m' assms(1) by simp
  next
    case p: False
    obtain f v where m': "slab_Caches m' = (slab_Caches m)[k := f]" "sl_page f = p" "r' = r1\<lparr>bytes := v\<rparr>"
      using assms(2,3) False al p by (auto simp: GrowCache_def Let_def split: prod.splits)
    have "slab_frames m' = add_mset p (slab_frames m)"
      using table_frames_add[OF assms(2), of "\<lambda>c. one_page (sl_page c)" f] False p by (simp add: slab_frames_def m'(1,2))
    then show ?thesis using holds_alloc(1)[OF assms(1) al p] by (simp add: m')
  qed
qed

lemma prime_caches_holds:
  "holds_pages r (slab_frames m + R) \<Longrightarrow> \<forall>k \<in> set ks. k < length (slab_Caches m) \<Longrightarrow> prime_caches m r ks = (ok, m', r') \<Longrightarrow>
    holds_pages r' (slab_frames m' + R)"
proof (induction m r ks arbitrary: ok rule: prime_caches.induct)
  case (2 s r k ks)
  obtain o1 s1 r1 where g: "GrowCache s r k = (o1, s1, r1)" by (metis surj_pair)
  have "holds_pages r1 (slab_frames s1 + R) \<and> length (slab_Caches s1) = length (slab_Caches s)"
    using GrowCache_holds[OF 2(2) _ g] 2(3) by simp
  then show ?case using 2 g by (cases o1) auto
qed simp

lemma FindCache_length: "FindCache m n = Some k \<Longrightarrow> k < length (slab_Caches m)"
  by (auto simp: FindCache_def dest: find_indexD(1))

lemma Slab_Allocate_holds:
  assumes "holds_pages r (slab_frames m + R)" "Slab_Allocate m r n = (a, m', r')"
  shows "holds_pages r' (slab_frames m' + R)"
proof (cases "FindCache m n")
  case (Some k)
  note k = FindCache_length[OF Some]
  obtain ok s1 r1 where g: "(if sl_free_list (slab_Caches m ! k) = 0 then GrowCache m r k else (True, m, r)) = (ok, s1, r1)"
    by (metis surj_pair)
  have h: "holds_pages r1 (slab_frames s1 + R)" "k < length (slab_Caches s1)"
    using g assms(1) k GrowCache_holds[OF assms(1) k, of ok s1 r1] by (auto split: if_splits)
  show ?thesis
  proof (cases ok)
    case True
    then obtain f where m': "m' = upd_slab k f s1" "r' = r1" "\<And>c. sl_page (f c) = sl_page c"
      using assms(2) Some g by (auto simp: Slab_Allocate_def Let_def)
    then show ?thesis using h slab_frames_upd[of f s1 k] by simp
  qed (use assms(2) Some g h in \<open>auto simp: Slab_Allocate_def\<close>)
qed (use assms in \<open>auto simp: Slab_Allocate_def\<close>)

lemma Slab_Free_holds:
  assumes "holds_pages r (slab_frames m + R)" "Slab_Free m r a n = (b, m', r')"
  shows "holds_pages r' (slab_frames m' + R)"
proof (cases "a = 0 \<or> FindCache m n = None \<or> \<not> Contains (slab_Caches m ! the (FindCache m n)) a")
  case True
  then show ?thesis using assms by (auto simp: Slab_Free_def Let_def split: option.splits if_splits)
next
  case False
  then obtain k where k: "FindCache m n = Some k" "Contains (slab_Caches m ! k) a" by auto
  define f where "f = (\<lambda>c :: SlabCache. c\<lparr>sl_free_list := a, sl_free_objects := sl_free_objects c + 1\<rparr>)"
  have m': "m' = upd_slab k f m" "r' = r\<lparr>bytes := store64 a (sl_free_list (slab_Caches m ! k)) (bytes r)\<rparr>"
    using assms(2) False k by (auto simp: Slab_Free_def push_node_def f_def)
  have "slab_frames m' = slab_frames m"
    unfolding m'(1) by (rule slab_frames_upd) (use FindCache_length[OF k(1)] in \<open>simp_all add: f_def\<close>)
  then show ?thesis using assms(1) by (simp add: m'(2))
qed

lemma km_slab_allocate_owned:
  assumes "km_owned s H" "km_slab_allocate n s = (a, t)"
  shows "km_owned t H"
proof -
  obtain x r where r: "Slab_Allocate (g_SlabAllocator s) (km_ram s) n = (a, x, r)" "t = put_ram r (s\<lparr>g_SlabAllocator := x\<rparr>)"
    using assms(2) by (auto simp: km_slab_allocate_def split: prod.splits)
  show ?thesis unfolding r(2) by (rule km_owned_slab[OF assms(1)]) (rule Slab_Allocate_holds[OF _ r(1)])
qed

lemma km_slab_free_owned:
  assumes "km_owned s H" "km_slab_free a n s = (b, t)"
  shows "km_owned t H"
proof -
  obtain x r where r: "Slab_Free (g_SlabAllocator s) (km_ram s) a n = (b, x, r)" "t = put_ram r (s\<lparr>g_SlabAllocator := x\<rparr>)"
    using assms(2) by (auto simp: km_slab_free_def split: prod.splits)
  show ?thesis unfolding r(2) by (rule km_owned_slab[OF assms(1)]) (rule Slab_Free_holds[OF _ r(1)])
qed

lemma km_map_owned: "km_owned s H \<Longrightarrow> km_map f len w d s = (a, t) \<Longrightarrow> km_owned t H"
  using km_owned_maps[of s H] Map_holds by (auto simp: km_map_def split: prod.splits)

lemma km_fault_owned: "km_owned s H \<Longrightarrow> km_fault p w s = (a, t) \<Longrightarrow> km_owned t H"
  using km_owned_maps[of s H] HandlePageFault_holds by (auto simp: km_fault_def split: prod.splits)

lemma km_unmap_owned: "km_owned s H \<Longrightarrow> km_unmap p s = (b, t) \<Longrightarrow> km_owned t H"
  using km_owned_maps[of s H] Unmap_holds by (auto simp: km_unmap_def split: prod.splits)

lemma km_evict_owned:
  assumes "km_owned s H" "km_evict f k s = (b, t)"
  shows "km_owned t H"
proof -
  obtain c r where r: "Cache_Evict (cache (g_Memory s)) (ram (g_Memory s)) f k = (b, c, r)"
      "t = s\<lparr>g_Memory := (g_Memory s)\<lparr>cache := c, ram := r\<rparr>\<rparr>"
    using assms(2) by (auto simp: km_evict_def km_ram_def split: prod.splits)
  show ?thesis unfolding r(2)
  proof (rule km_owned_maps[OF assms(1)])
    fix R assume m: "maps_hold (g_Memory s) R"
    then have "holds_pages (ram (g_Memory s)) (cache_frames (cache (g_Memory s)) + (map_frames (g_Memory s) + R))"
      by (simp add: maps_hold_def ac_simps)
    from Cache_Evict_holds[OF this _ r(1)] m
    show "maps_hold ((g_Memory s)\<lparr>cache := c, ram := r\<rparr>) R" by (simp add: maps_hold_def map_frames_def ac_simps)
  qed
qed

text \<open>The NUMA manager hands out pages of the page allocator and only counts them.\<close>

lemma Numa_AllocatePage_page:
  "Numa_AllocatePage nm p n = (a, nm', p') \<Longrightarrow> a = 0 \<and> p' = p \<or> AllocatePage p = (a, p')"
  by (auto simp: Numa_AllocatePage_def Let_def split: prod.splits if_splits)

lemma Numa_FreePage_page:
  "nm_attached nm \<Longrightarrow> a \<noteq> 0 \<Longrightarrow> n < nm_NodeCount nm \<Longrightarrow> \<exists>nm'. Numa_FreePage nm p n a = (nm', FreePage p a)"
  by (simp add: Numa_FreePage_def Let_def not_le)

lemma km_owned_numa [simp]: "km_owned (s\<lparr>g_Numa := nm\<rparr>) H = km_owned s H"
  by (simp add: km_owned_def km_rest_def)

lemma put_pmm_numa: "put_pmm p (s\<lparr>g_Numa := nm\<rparr>) = (put_pmm p s)\<lparr>g_Numa := nm\<rparr>"
  by (simp add: put_pmm_def put_ram_def km_ram_def)

lemma put_pmm_same: "put_pmm (pmm (km_ram s)) s = s"
  by (simp add: put_pmm_def put_ram_def km_ram_def)

lemma km_numa_allocate_owned:
  assumes "km_owned s H" "km_numa_allocate n s = (a, t)"
  shows "km_owned t (one_page a + H)"
proof -
  obtain nm p where p: "Numa_AllocatePage (g_Numa s) (pmm (km_ram s)) n = (a, nm, p)" "t = (put_pmm p s)\<lparr>g_Numa := nm\<rparr>"
    using assms(2) by (auto simp: km_numa_allocate_def put_pmm_numa split: prod.splits)
  have "km_owned (put_pmm p s) (one_page a + H)"
    using Numa_AllocatePage_page[OF p(1)]
  proof
    assume "a = 0 \<and> p = pmm (km_ram s)"
    then show ?thesis using assms(1) by (simp add: put_pmm_same)
  next
    assume "AllocatePage (pmm (km_ram s)) = (a, p)"
    then have "km_alloc s = (a, put_pmm p s)" by (simp add: km_alloc_def alloc_page_def put_pmm_def)
    then show ?thesis by (rule km_alloc_owned[OF assms(1)])
  qed
  then show ?thesis by (simp add: p(2))
qed

lemma km_numa_free_owned:
  assumes "km_owned s (add_mset a H)" "nm_attached (g_Numa s)" "n < nm_NodeCount (g_Numa s)"
  shows "km_owned (km_numa_free n a s) H"
proof -
  have "page_frame a" using km_owned_holds[OF assms(1)] by (simp add: holds_pages_def)
  then have "a \<noteq> 0" by (simp add: page_frame_def)
  then obtain nm where "Numa_FreePage (g_Numa s) (pmm (km_ram s)) n a = (nm, FreePage (pmm (km_ram s)) a)"
    using Numa_FreePage_page[OF assms(2) _ assms(3)] by blast
  then have "km_numa_free n a s = (km_free a s)\<lparr>g_Numa := nm\<rparr>"
    by (simp add: km_numa_free_def put_pmm_numa) (simp add: km_free_def free_page_def put_pmm_def)
  then show ?thesis using km_free_owned[OF assms(1)] by simp
qed

lemma km_huge_allocate_owned:
  assumes "km_owned s H" "km_huge_allocate s = (a, t)"
  shows "km_owned t ((if a = 0 then {#} else run_frames a 512) + H)"
    and "a \<noteq> 0 \<Longrightarrow> page_frame a \<and> unat a div 4096 + 512 \<le> kManagedPageCount"
proof -
  have hp: "g_HugePages s" using km_ok[OF assms(1)] by simp
  obtain p where p: "AllocateAligned (pmm (km_ram s)) 512 512 = (a, p)" "t = put_ram ((km_ram s)\<lparr>pmm := p\<rparr>) s"
    using assms(2) hp by (auto simp: km_huge_allocate_def HugePage_Allocate_def kHugePagePages_def put_pmm_def split: prod.splits)
  have run: "holds_pages ((km_ram s)\<lparr>pmm := p\<rparr>) (run_frames a 512 + M) \<and> page_frame a \<and> unat a div 4096 + 512 \<le> kManagedPageCount"
    if "holds_pages (km_ram s) M" "a \<noteq> 0" for M
    using holds_run_alloc[OF that(1) p(1) that(2)] by simp
  have none: "p = pmm (km_ram s)" if "a = 0"
  proof -
    have acc: "pmm_accounts (pmm (km_ram s))" "\<not> IsPageFree (pmm (km_ram s)) 0"
      using km_owned_holds[OF assms(1)] by (simp_all add: holds_pages_def pmm_ok_def)
    have c: "(512 :: u64) \<noteq> 0" by simp
    show ?thesis
    proof (cases rule: AllocateAligned_cases[OF acc(1) c pow2_check_512, case_names fit none])
      case (fit k)
      have k: "k < kManagedPageCount" "IsPageFree (pmm (km_ram s)) k"
        using fit(1) page_run_bound[OF fit(1)] by (auto simp: page_run_def)
      have "k = 0" using fit(3) p(1) that page_address(2)[OF k(1)] by simp
      then show ?thesis using k(2) acc(2) by simp
    next
      case none
      then show ?thesis using p(1) by simp
    qed
  qed
  show "a \<noteq> 0 \<Longrightarrow> page_frame a \<and> unat a div 4096 + 512 \<le> kManagedPageCount" using run[OF km_owned_holds[OF assms(1)]] by simp
  show "km_owned t ((if a = 0 then {#} else run_frames a 512) + H)"
    unfolding p(2)
  proof (rule km_owned_held[OF assms(1)])
    fix R assume h: "holds_pages (km_ram s) (H + R)"
    show "holds_pages ((km_ram s)\<lparr>pmm := p\<rparr>) ((if a = 0 then {#} else run_frames a 512) + H + R)"
    proof (cases "a = 0")
      case True
      then show ?thesis using h none by simp
    next
      case False
      then show ?thesis using run[OF h] by (simp add: ac_simps)
    qed
  qed
qed

lemma km_huge_free_owned:
  assumes "km_owned s (run_frames a 512 + H)" "page_frame a" "unat a div 4096 + 512 \<le> kManagedPageCount" "unat a mod 2097152 = 0"
  shows "km_owned (km_huge_free a s) H"
proof -
  have hp: "g_HugePages s" using km_ok[OF assms(1)] by simp
  have "(a AND 2097151) = 0" using and_2M[of a] assms(4) by (simp add: unat_eq_zero)
  then have e: "km_huge_free a s = put_ram ((km_ram s)\<lparr>pmm := FreeContiguous (pmm (km_ram s)) a 512\<rparr>) s"
    using hp assms(2) by (simp add: km_huge_free_def HugePage_Free_def kHugePageSize_def kHugePagePages_def put_pmm_def page_frame_def)
  show ?thesis unfolding e
  proof (rule km_owned_held[OF assms(1)])
    fix R assume h: "holds_pages (km_ram s) (run_frames a 512 + H + R)"
    have u: "unat (512 :: u64) = 512" by simp
    show "holds_pages ((km_ram s)\<lparr>pmm := FreeContiguous (pmm (km_ram s)) a 512\<rparr>) (H + R)"
      by (rule holds_run_free[where n = 512, unfolded u, OF _ assms(2,3)]) (use h in \<open>simp_all only: add.assoc, simp\<close>)
  qed
qed

subsection \<open>Runs\<close>

text \<open>
  Any sequence of calls. Pages handed out directly are freed by whoever holds them; all other
  calls are unrestricted, also with arguments that name no page, mapping, slot or segment.
\<close>

inductive mem_step :: "KernelMemory \<times> u64 multiset \<Rightarrow> KernelMemory \<times> u64 multiset \<Rightarrow> bool" where
  ms_alloc: "km_alloc s = (a, t) \<Longrightarrow> mem_step (s, H) (t, one_page a + H)"
| ms_free: "mem_step (s, add_mset a H) (km_free a s, H)"
| ms_huge: "km_huge_allocate s = (a, t) \<Longrightarrow> mem_step (s, H) (t, (if a = 0 then {#} else run_frames a 512) + H)"
| ms_huge_free: "a AND (kHugePageSize - 1) = 0 \<Longrightarrow> mem_step (s, run_frames a 512 + H) (km_huge_free a s, H)"
| ms_numa: "km_numa_allocate n s = (a, t) \<Longrightarrow> mem_step (s, H) (t, one_page a + H)"
| ms_numa_free: "nm_attached (g_Numa s) \<Longrightarrow> n < nm_NodeCount (g_Numa s) \<Longrightarrow>
    mem_step (s, add_mset a H) (km_numa_free n a s, H)"
| ms_map: "km_map f len w d s = (a, t) \<Longrightarrow> mem_step (s, H) (t, H)"
| ms_fault: "km_fault p w s = (a, t) \<Longrightarrow> mem_step (s, H) (t, H)"
| ms_unmap: "km_unmap p s = (b, t) \<Longrightarrow> mem_step (s, H) (t, H)"
| ms_evict: "km_evict f k s = (b, t) \<Longrightarrow> mem_step (s, H) (t, H)"
| ms_swap_out: "km_swap_out p s = (slot, t) \<Longrightarrow> mem_step (s, H) (t, H)"
| ms_swap_in: "km_swap_in slot32 p s = (b, t) \<Longrightarrow> mem_step (s, H) (t, H)"
| ms_cow_allocate: "km_cow_allocate s = (a, t) \<Longrightarrow> mem_step (s, H) (t, H)"
| ms_cow_clone: "km_cow_clone p s = (b, t) \<Longrightarrow> mem_step (s, H) (t, H)"
| ms_cow_resolve: "km_cow_resolve p s = (a, t) \<Longrightarrow> mem_step (s, H) (t, H)"
| ms_cow_release: "mem_step (s, H) (km_cow_release p s, H)"
| ms_shared_create: "km_shared_create len s = (a, t) \<Longrightarrow> mem_step (s, H) (t, H)"
| ms_shared_attach: "km_shared_attach i s = (b, t) \<Longrightarrow> mem_step (s, H) (t, H)"
| ms_shared_release: "mem_step (s, H) (km_shared_release i s, H)"
| ms_slab: "km_slab_allocate len s = (a, t) \<Longrightarrow> mem_step (s, H) (t, H)"
| ms_slab_free: "km_slab_free p len s = (b, t) \<Longrightarrow> mem_step (s, H) (t, H)"
| ms_store: "mem_step (s, H) (put_byte p v s, H)"

lemma run_frames_bound:
  assumes "holds_pages r (run_frames a 512 + M)"
  shows "page_frame a \<and> unat a div 4096 + 512 \<le> kManagedPageCount"
proof -
  have el: "page_frame (a + of_nat i * 4096)" if "i < 512" for i
    using assms that by (auto simp: holds_pages_def run_frames_def)
  have a: "page_frame a" using el[of 0] by simp
  have l: "page_frame (a + 2093056)" using el[of 511] by simp
  have "unat (a + 2093056) = unat a + 2093056" using a by (simp add: unat_word_ariths page_frame_def)
  then show ?thesis using a l by (auto simp: page_frame_def kManagedPageCount_def)
qed

lemma km_huge_free_held:
  assumes "km_owned s (run_frames a 512 + H)" "a AND (kHugePageSize - 1) = 0"
  shows "km_owned (km_huge_free a s) H"
proof -
  have "holds_pages (km_ram s) (run_frames a 512 + (km_frames s + H))"
    using km_owned_holds[OF assms(1)] by (simp add: ac_simps)
  note b = run_frames_bound[OF this]
  have "(a AND 2097151) = 0" using assms(2) by (simp add: kHugePageSize_def)
  then have "unat a mod 2097152 = 0" using and_2M[of a] by simp
  then show ?thesis using km_huge_free_owned[OF assms(1)] b by simp
qed

lemma mem_step_owned: "mem_step p q \<Longrightarrow> km_owned (fst p) (snd p) \<Longrightarrow> km_owned (fst q) (snd q)"
proof (induction rule: mem_step.induct)
  case ms_alloc
  then show ?case by (simp only: fst_conv snd_conv) (rule km_alloc_owned)
next
  case ms_free
  then show ?case by (simp only: fst_conv snd_conv) (rule km_free_owned)
next
  case ms_huge
  then show ?case by (simp only: fst_conv snd_conv) (rule km_huge_allocate_owned(1))
next
  case ms_huge_free
  then show ?case by (simp only: fst_conv snd_conv) (rule km_huge_free_held)
next
  case ms_numa
  then show ?case by (simp only: fst_conv snd_conv) (rule km_numa_allocate_owned)
next
  case ms_numa_free
  then show ?case by (simp only: fst_conv snd_conv) (rule km_numa_free_owned)
next
  case ms_map
  then show ?case by (simp only: fst_conv snd_conv) (rule km_map_owned)
next
  case ms_fault
  then show ?case by (simp only: fst_conv snd_conv) (rule km_fault_owned)
next
  case ms_unmap
  then show ?case by (simp only: fst_conv snd_conv) (rule km_unmap_owned)
next
  case ms_evict
  then show ?case by (simp only: fst_conv snd_conv) (rule km_evict_owned)
next
  case ms_swap_out
  then show ?case by (simp only: fst_conv snd_conv) (rule km_swap_out_owned)
next
  case ms_swap_in
  then show ?case by (simp only: fst_conv snd_conv) (rule km_swap_in_owned)
next
  case ms_cow_allocate
  then show ?case by (simp only: fst_conv snd_conv) (rule km_cow_allocate_owned)
next
  case ms_cow_clone
  then show ?case by (simp only: fst_conv snd_conv) (rule km_cow_clone_owned)
next
  case ms_cow_resolve
  then show ?case by (simp only: fst_conv snd_conv) (rule km_cow_resolve_owned)
next
  case ms_cow_release
  then show ?case by (simp only: fst_conv snd_conv) (rule km_cow_release_owned[OF _ refl])
next
  case ms_shared_create
  then show ?case by (simp only: fst_conv snd_conv) (rule km_shared_create_owned)
next
  case ms_shared_attach
  then show ?case by (simp only: fst_conv snd_conv) (rule km_shared_attach_owned)
next
  case ms_shared_release
  then show ?case by (simp only: fst_conv snd_conv) (rule km_shared_release_owned[OF _ refl])
next
  case ms_slab
  then show ?case by (simp only: fst_conv snd_conv) (rule km_slab_allocate_owned)
next
  case ms_slab_free
  then show ?case by (simp only: fst_conv snd_conv) (rule km_slab_free_owned)
next
  case ms_store
  then show ?case by (simp only: fst_conv snd_conv) (rule put_byte_owned)
qed

lemma mem_run_owned: "mem_step\<^sup>*\<^sup>* p q \<Longrightarrow> km_owned (fst p) (snd p) \<Longrightarrow> km_owned (fst q) (snd q)"
proof (induction rule: rtranclp_induct)
  case (step y z)
  then show ?case using mem_step_owned by blast
qed simp

subsection \<open>After boot\<close>

lemma selftest_huge_owned: "km_owned s H \<Longrightarrow> selftest_huge s = (True, t) \<Longrightarrow> km_owned t H"
proof -
  assume o: "km_owned s H" and t: "selftest_huge s = (True, t)"
  obtain a u where a: "km_huge_allocate s = (a, u)" by fastforce
  have u: "a \<noteq> 0" "a AND (kHugePageSize - 1) = 0" "t = km_huge_free a u"
    using t a by (auto simp: selftest_huge_def split: if_splits)
  have "km_owned u (run_frames a 512 + H)" using km_huge_allocate_owned(1)[OF o a] u(1) by simp
  then show ?thesis unfolding u(3) using u(2) by (rule km_huge_free_held)
qed

lemma selftest_numa_owned: "km_owned s H \<Longrightarrow> selftest_numa s = (True, t) \<Longrightarrow> km_owned t H"
proof -
  assume o: "km_owned s H" and t: "selftest_numa s = (True, t)"
  obtain a u where a: "km_numa_allocate 0 s = (a, u)" by fastforce
  have u: "a \<noteq> 0" "t = km_numa_free 0 a u" using t a by (auto simp: selftest_numa_def split: if_splits)
  have "nm_attached (g_Numa u)" "0 < nm_NodeCount (g_Numa u)"
    using a u(1) by (auto simp: km_numa_allocate_def Numa_AllocatePage_def put_pmm_def Let_def not_le word_neq_0_conv split: prod.splits if_splits)
  moreover have "km_owned u (add_mset a H)" using km_numa_allocate_owned[OF o a] u(1) by simp
  ultimately show ?thesis unfolding u(2) by (intro km_numa_free_owned)
qed

lemma selftest_anonymous_owned: "km_owned s H \<Longrightarrow> selftest_anonymous s = (True, t) \<Longrightarrow> km_owned t H"
  by (auto simp: selftest_anonymous_def split: prod.splits if_splits)
    (metis km_map_owned km_fault_owned km_unmap_owned km_evict_owned)

lemma selftest_file_owned: "km_owned s H \<Longrightarrow> selftest_file s = (True, t) \<Longrightarrow> km_owned t H"
  by (auto simp: selftest_file_def Let_def split: prod.splits if_splits)
    (metis km_map_owned km_fault_owned km_unmap_owned km_evict_owned)

lemma selftest_swap_owned: "km_owned s H \<Longrightarrow> selftest_swap s = (True, t) \<Longrightarrow> km_owned t H"
proof -
  assume o: "km_owned s H" and t: "selftest_swap s = (True, t)"
  obtain a s1 where a: "km_alloc s = (a, s1)" by fastforce
  obtain b s2 where b: "km_alloc s1 = (b, s2)" by fastforce
  obtain k s3 where k: "km_swap_out a (put_byte a 0x6D s2) = (k, s3)" by fastforce
  have nz: "a \<noteq> 0" "b \<noteq> 0" using t a b by (auto simp: selftest_swap_def split: if_splits)
  obtain slot ok s4 where s4: "km_swap_in (of_nat slot) b s3 = (ok, s4)" "t = km_free b (km_free a s4)"
    using t a b k nz by (auto simp: selftest_swap_def split: if_splits option.splits prod.splits)
  have "km_owned s2 (add_mset b (add_mset a H))" using km_alloc_owned[OF km_alloc_owned[OF o a] b] nz by (simp add: add_mset_commute)
  then have "km_owned s4 (add_mset b (add_mset a H))"
    by (rule km_swap_in_owned[OF km_swap_out_owned[OF put_byte_owned k] s4(1)])
  then have "km_owned s4 (add_mset a (add_mset b H))" by (simp only: add_mset_commute)
  then show ?thesis unfolding s4(2) by (intro km_free_owned)
qed

lemma selftest_cow_owned: "km_owned s H \<Longrightarrow> selftest_cow s = (True, t) \<Longrightarrow> km_owned t H"
proof -
  assume o: "km_owned s H" and t: "selftest_cow s = (True, t)"
  obtain a s1 where a: "km_cow_allocate s = (a, s1)" by fastforce
  obtain b s2 where b: "km_cow_clone a (put_byte a 0x5A s1) = (b, s2)" by fastforce
  obtain p s3 where p: "km_cow_resolve a s2 = (p, s3)" by fastforce
  have "t = km_cow_release p (km_cow_release a (put_byte p 0xA5 s3))"
    using t a b p by (simp add: selftest_cow_def Let_def split: if_splits)
  moreover have "km_owned s3 H"
    by (rule km_cow_resolve_owned[OF km_cow_clone_owned[OF put_byte_owned[OF km_cow_allocate_owned[OF o a]] b] p])
  ultimately show ?thesis by (simp add: km_cow_release_owned[OF _ refl] put_byte_owned)
qed

lemma selftest_shared_owned: "km_owned s H \<Longrightarrow> selftest_shared s = (True, t) \<Longrightarrow> km_owned t H"
proof -
  assume o: "km_owned s H" and t: "selftest_shared s = (True, t)"
  obtain i s1 where i: "km_shared_create 2 s = (i, s1)" by fastforce
  obtain b s2 where b: "km_shared_attach i s1 = (b, s2)" by fastforce
  have "t = km_shared_release i (km_shared_release i (put_byte (Shared_Page (g_SharedMemory s2) i 0) 0xC3 s2))"
    using t i b by (simp add: selftest_shared_def Let_def split: if_splits)
  moreover have "km_owned s2 H" by (rule km_shared_attach_owned[OF km_shared_create_owned[OF o i] b])
  ultimately show ?thesis by (simp add: km_shared_release_owned[OF _ refl] put_byte_owned)
qed

lemma selftest_slab_owned: "km_owned s H \<Longrightarrow> selftest_slab s = (True, t) \<Longrightarrow> km_owned t H"
  by (auto simp: selftest_slab_def Let_def split: prod.splits if_splits)
    (metis km_slab_allocate_owned km_slab_free_owned)

lemma run_checks_owned:
  assumes "\<And>t s u. t \<in> set ts \<Longrightarrow> km_owned s H \<Longrightarrow> t s = (True, u) \<Longrightarrow> km_owned u H"
  shows "km_owned s H \<Longrightarrow> run_checks ts s = (True, u) \<Longrightarrow> km_owned u H"
  using assms
proof (induction ts arbitrary: s)
  case (Cons t ts)
  obtain ok s1 where t: "t s = (ok, s1)" by fastforce
  then have ok: "ok" "run_checks ts s1 = (True, u)" using Cons.prems(2) by (auto split: if_splits)
  have "km_owned s1 H" using Cons.prems(3)[of t s s1] Cons.prems(1) t ok by simp
  then show ?case using ok(2) Cons.prems(3) by (intro Cons.IH[of s1]) auto
qed simp

lemma KernelMemorySelfTest_owned: "km_owned s H \<Longrightarrow> KernelMemorySelfTest s = (True, t) \<Longrightarrow> km_owned t H"
  using run_checks_owned[of "[selftest_huge, selftest_numa, selftest_anonymous, selftest_file, selftest_swap,
            selftest_cow, selftest_shared, selftest_slab]" H s t]
  by (auto simp: KernelMemorySelfTest_def Let_def split: prod.splits if_splits
      dest: selftest_huge_owned selftest_numa_owned selftest_anonymous_owned selftest_file_owned selftest_swap_owned
        selftest_cow_owned selftest_shared_owned selftest_slab_owned)


definition heap_frames :: "KernelMemory \<Rightarrow> u64 multiset" where
  "heap_frames s = run_frames (h_Start (g_KernelHeap s)) 128"

lemma Cow_Shared_Swap_Init:
  "cow_ok (Cow_Init c)" "cow_frames (Cow_Init c) = {#}" "shared_ok (Shared_Init m)" "shared_frames (Shared_Init m) = {#}"
  "swap_ok (Swap_Init w)" "swap_frames (Swap_Init w) = {#}" "slab_frames (Slab_Init l) = {#}"
proof -
  show "cow_ok (Cow_Init c)" "cow_frames (Cow_Init c) = {#}" by (rule Cow_Init_ok)+
  show "shared_ok (Shared_Init m)" "shared_frames (Shared_Init m) = {#}"
  proof -
    have "segment_frames no_segment = {#}"
      by (auto simp: segment_frames_def no_segment_def intro!: table_frames_empty)
    then show "shared_frames (Shared_Init m) = {#}"
      unfolding shared_frames_def by (intro table_frames_empty) (auto simp: Shared_Init_def)
    show "shared_ok (Shared_Init m)"
      by (auto simp: shared_ok_def Shared_Init_def segment_ok_def no_segment_def list_all_iff kSharedSegmentMaxPages_def)
  qed
  show "swap_ok (Swap_Init w)" "swap_frames (Swap_Init w) = {#}"
    by (auto simp: swap_ok_def Swap_Init_def swap_frames_def slot_frames_def intro!: table_frames_empty)
  show "slab_frames (Slab_Init l) = {#}" by (auto simp: slab_frames_def Slab_Init_def intro!: table_frames_empty)
qed


lemma Cache_Init_maps:
  assumes "holds_pages (ram m) R" "length (mmm_Mappings (maps m)) = kMemoryMappingCount"
  shows "maps_hold (Mappings_Init (m\<lparr>cache := Cache_Init (cache m)\<rparr>)) R"
  by (rule Mappings_Init_holds) (use assms in \<open>simp_all add: Cache_Init_ok\<close>)

lemma Heap_Init_run:
  assumes "holds_pages r M" "Heap_Init (pmm r) h = (True, h', p)"
  shows "holds_pages (r\<lparr>pmm := p\<rparr>) (run_frames (h_Start h') 128 + M)"
proof -
  obtain a where a: "AllocateAligned (pmm r) 128 1 = (a, p)" "a \<noteq> 0" "h_Start h' = a"
    using assms(2) by (auto simp: Heap_Init_def AllocateContiguous_def kHeapInitialPages_def split: prod.splits if_splits)
  have c: "(128 :: u64) \<noteq> 0" and u: "unat (128 :: u64) = 128" by simp_all
  show ?thesis using holds_run_alloc[OF assms(1) a(1,2) c pow2_check_1] by (simp only: u a(3))
qed

lemma km_free_heap [simp]:
  "g_KernelHeap (km_huge_free a s) = g_KernelHeap s" "g_KernelHeap (km_numa_free n a s) = g_KernelHeap s"
  "g_KernelHeap (km_free a s) = g_KernelHeap s" "g_KernelHeap (km_cow_release a s) = g_KernelHeap s"
  "g_KernelHeap (km_shared_release i s) = g_KernelHeap s" "g_KernelHeap (put_byte a v s) = g_KernelHeap s"
  "g_KernelHeap (put_pmm p s) = g_KernelHeap s"
  by (simp_all add: km_huge_free_def km_numa_free_def km_free_def km_cow_release_def km_shared_release_def
      put_byte_def put_pmm_def split: prod.split)

text \<open>No memory manager touches the heap.\<close>

lemma km_heap:
  "km_huge_allocate s = (x, t) \<Longrightarrow> g_KernelHeap t = g_KernelHeap s"
  "km_numa_allocate n32 s = (x, t) \<Longrightarrow> g_KernelHeap t = g_KernelHeap s"
  "km_map f l w d s = (x, t) \<Longrightarrow> g_KernelHeap t = g_KernelHeap s"
  "km_fault p w s = (x, t) \<Longrightarrow> g_KernelHeap t = g_KernelHeap s"
  "km_unmap p s = (b, t) \<Longrightarrow> g_KernelHeap t = g_KernelHeap s"
  "km_evict f k s = (b, t) \<Longrightarrow> g_KernelHeap t = g_KernelHeap s"
  "km_alloc s = (x, t) \<Longrightarrow> g_KernelHeap t = g_KernelHeap s"
  "km_swap_out p s = (y, t) \<Longrightarrow> g_KernelHeap t = g_KernelHeap s"
  "km_swap_in k32 p s = (b, t) \<Longrightarrow> g_KernelHeap t = g_KernelHeap s"
  "km_cow_allocate s = (x, t) \<Longrightarrow> g_KernelHeap t = g_KernelHeap s"
  "km_cow_clone p s = (b, t) \<Longrightarrow> g_KernelHeap t = g_KernelHeap s"
  "km_cow_resolve p s = (x, t) \<Longrightarrow> g_KernelHeap t = g_KernelHeap s"
  "km_shared_create n s = (x, t) \<Longrightarrow> g_KernelHeap t = g_KernelHeap s"
  "km_shared_attach i s = (b, t) \<Longrightarrow> g_KernelHeap t = g_KernelHeap s"
  "km_slab_allocate n s = (x, t) \<Longrightarrow> g_KernelHeap t = g_KernelHeap s"
  "km_slab_free p n s = (b, t) \<Longrightarrow> g_KernelHeap t = g_KernelHeap s"
  by (auto simp: km_huge_allocate_def km_numa_allocate_def km_map_def km_fault_def km_unmap_def km_evict_def km_alloc_def km_swap_out_def km_swap_in_def km_cow_allocate_def km_cow_clone_def km_cow_resolve_def km_shared_create_def km_shared_attach_def km_slab_allocate_def km_slab_free_def split: prod.splits)

lemma selftest_huge_heap: "selftest_huge s = (b, t) \<Longrightarrow> g_KernelHeap t = g_KernelHeap s"
  by (auto simp: selftest_huge_def Let_def split: prod.splits if_splits option.splits dest!: km_heap)

lemma selftest_numa_heap: "selftest_numa s = (b, t) \<Longrightarrow> g_KernelHeap t = g_KernelHeap s"
  by (auto simp: selftest_numa_def Let_def split: prod.splits if_splits option.splits dest!: km_heap)

lemma selftest_anonymous_heap: "selftest_anonymous s = (b, t) \<Longrightarrow> g_KernelHeap t = g_KernelHeap s"
  by (auto simp: selftest_anonymous_def Let_def split: prod.splits if_splits option.splits dest!: km_heap)

lemma selftest_file_heap: "selftest_file s = (b, t) \<Longrightarrow> g_KernelHeap t = g_KernelHeap s"
  by (auto simp: selftest_file_def Let_def split: prod.splits if_splits option.splits dest!: km_heap)

lemma selftest_swap_heap: "selftest_swap s = (b, t) \<Longrightarrow> g_KernelHeap t = g_KernelHeap s"
  by (auto simp: selftest_swap_def Let_def split: prod.splits if_splits option.splits dest!: km_heap)

lemma selftest_cow_heap: "selftest_cow s = (b, t) \<Longrightarrow> g_KernelHeap t = g_KernelHeap s"
  by (auto simp: selftest_cow_def Let_def split: prod.splits if_splits option.splits dest!: km_heap)

lemma selftest_shared_heap: "selftest_shared s = (b, t) \<Longrightarrow> g_KernelHeap t = g_KernelHeap s"
  by (auto simp: selftest_shared_def Let_def split: prod.splits if_splits option.splits dest!: km_heap)

lemma selftest_slab_heap: "selftest_slab s = (b, t) \<Longrightarrow> g_KernelHeap t = g_KernelHeap s"
  by (auto simp: selftest_slab_def Let_def split: prod.splits if_splits option.splits dest!: km_heap)

lemma run_checks_heap:
  "run_checks ts s = (b, u) \<Longrightarrow> (\<And>t s b u. t \<in> set ts \<Longrightarrow> t s = (b, u) \<Longrightarrow> g_KernelHeap u = g_KernelHeap s) \<Longrightarrow>
    g_KernelHeap u = g_KernelHeap s"
proof (induction ts arbitrary: s)
  case (Cons t ts)
  obtain ok s1 where t: "t s = (ok, s1)" by fastforce
  have "g_KernelHeap s1 = g_KernelHeap s" using Cons.prems(2)[of t s ok s1] t by simp
  moreover have "g_KernelHeap u = g_KernelHeap s1" if ok
    by (rule Cons.IH) (use Cons.prems t that in auto)
  ultimately show ?case using Cons.prems(1) t by (cases ok) auto
qed simp

lemma KernelMemorySelfTest_heap: "KernelMemorySelfTest s = (b, t) \<Longrightarrow> g_KernelHeap t = g_KernelHeap s"
  using run_checks_heap[of "[selftest_huge, selftest_numa, selftest_anonymous, selftest_file, selftest_swap,
            selftest_cow, selftest_shared, selftest_slab]" s]
  by (auto simp: KernelMemorySelfTest_def Let_def split: prod.splits if_splits
      dest: selftest_huge_heap selftest_numa_heap selftest_anonymous_heap selftest_file_heap selftest_swap_heap
        selftest_cow_heap selftest_shared_heap selftest_slab_heap)

text \<open>A successful boot owns exactly what the managers hold, plus the 128 pages of the heap.\<close>

lemma KernelMemoryInit_owned:
  assumes "KernelMemoryInit lay rd b s = (True, t)" "length (mmm_Mappings (maps (g_Memory s))) = kMemoryMappingCount"
  shows "km_owned t (heap_frames t)"
proof -
  obtain p1 where p1: "Init lay rd b (pmm (km_ram s)) = (True, p1)"
    using assms(1) by (auto simp: KernelMemoryInit_def Let_def split: prod.splits if_splits)
  define s0 where "s0 = (put_pmm p1 s)\<lparr>g_VirtualMemory := InitIdentityMap4GiB lay\<rparr>"
  have s0: "pmm (km_ram s0) = p1" "g_KernelHeap s0 = g_KernelHeap s" "maps (g_Memory s0) = maps (g_Memory s)"
      "km_ram s0 = (km_ram s)\<lparr>pmm := p1\<rparr>" "cache (g_Memory s0) = cache (g_Memory s)"
    by (simp_all add: s0_def put_pmm_def put_ram_def km_ram_def)
  obtain ok1 h p2 where hi: "Heap_Init p1 (g_KernelHeap s) = (ok1, h, p2)" by (metis surj_pair)
  define s1 where "s1 = put_pmm p2 (s0\<lparr>g_KernelHeap := h\<rparr>)"
  define s2 where "s2 = init_managers s1"
  have e: "KernelMemoryInit lay rd b s = (if \<not> ok1 then (False, s1) else
      (let (ok, m, r) = Prime (g_SlabAllocator s2) (km_ram s2); u = put_ram r (s2\<lparr>g_SlabAllocator := m\<rparr>)
       in if \<not> ok then (False, u)
          else let (probe, h') = Heap_Allocate (g_KernelHeap u) 64 16; v = u\<lparr>g_KernelHeap := h'\<rparr>
            in if probe = 0 then (False, v) else KernelMemorySelfTest v))"
    by (simp add: KernelMemoryInit_def p1 Let_def hi s0 s1_def s2_def flip: s0_def)
  have ok1: ok1 using assms(1) unfolding e by (cases ok1) auto
  note p2 = hi[unfolded eqTrueI[OF ok1]]
  note e = e[unfolded eqTrueI[OF ok1] not_True_eq_False if_False]
  define r0 where "r0 = (km_ram s)\<lparr>pmm := p2\<rparr>"
  have "holds_pages ((km_ram s)\<lparr>pmm := p1\<rparr>) {#}" using Init_ok[OF p1] by (simp add: holds_pages_def)
  from Heap_Init_run[OF this, of "g_KernelHeap s" h p2] p2
  have r0: "holds_pages r0 (run_frames (h_Start h) 128)" by (simp add: r0_def)
  have m1: "g_Memory s1 = (g_Memory s)\<lparr>ram := r0\<rparr>" by (simp add: s1_def s0_def put_pmm_def put_ram_def km_ram_def r0_def)
  have "maps_hold (g_Memory s2) (run_frames (h_Start h) 128)"
    using Cache_Init_maps[of "g_Memory s1"] r0 assms(2) by (simp add: s2_def m1 init_managers_def)
  then have s2: "km_owned s2 (run_frames (h_Start h) 128)"
    by (simp add: km_owned_def km_rest_def s2_def Cow_Shared_Swap_Init init_managers_def)
  obtain m r where m: "Prime (g_SlabAllocator s2) (km_ram s2) = (True, m, r)"
    using assms(1) unfolding e by (auto simp: Let_def split: prod.splits if_splits)
  define u where "u = put_ram r (s2\<lparr>g_SlabAllocator := m\<rparr>)"
  obtain a h' where h': "Heap_Allocate (g_KernelHeap u) 64 16 = (a, h')" by fastforce
  have t: "KernelMemorySelfTest (u\<lparr>g_KernelHeap := h'\<rparr>) = (True, t)"
    using assms(1) h' unfolding e by (auto simp: Let_def m u_def split: if_splits)
  have "\<forall>k \<in> set [0 ..< kSlabCacheCount]. k < length (slab_Caches (g_SlabAllocator s2))"
    by (simp add: s2_def Slab_Init_def slab_sizes_def kSlabCacheCount_def init_managers_def)
  then have "km_owned u (run_frames (h_Start h) 128)"
    unfolding u_def by (intro km_owned_slab[OF s2]) (rule prime_caches_holds[OF _ _ m[unfolded Prime_def]])
  then have "km_owned (u\<lparr>g_KernelHeap := h'\<rparr>) (run_frames (h_Start h) 128)" by (simp add: km_owned_def km_rest_def)
  from KernelMemorySelfTest_owned[OF this t] have o: "km_owned t (run_frames (h_Start h) 128)" .
  have "g_KernelHeap t = h'" using KernelMemorySelfTest_heap[OF t] by simp
  moreover have "g_KernelHeap u = h" by (simp add: u_def s2_def s1_def init_managers_def)
  then have "h_Start h' = h_Start h" using h' by (auto simp: Heap_Allocate_def Let_def split: if_splits)
  ultimately show ?thesis using o by (simp add: heap_frames_def)
qed

text \<open>
  C1. No physical page ever has two owners. Take the memory managers in a state they share
  properly (a successful \<open>KernelMemoryInit\<close> reaches one, see \<open>KernelMemoryInit_owned\<close>, with
  the heap's 128 pages handed out), and any sequence of page, huge page and NUMA
  allocations and releases, mappings, page faults, evictions, swaps, copy-on-write
  operations, shared segments, slab operations and stores: every page held by the mappings,
  the page cache, the copy-on-write pages, the shared segments, the swap slots, the slabs or
  handed out is held exactly once in all of them, is a page of the managed range, and is
  marked used in the allocator's bitmap.
\<close>

theorem pages_have_one_owner:
  assumes "km_owned s H" "mem_step\<^sup>*\<^sup>* (s, H) (t, K)"
  shows "(\<forall>a. count (km_frames t + K) a \<le> 1) \<and>
    (\<forall>a. a \<in># km_frames t + K \<longrightarrow> page_frame a \<and> \<not> IsPageFree (pmm (km_ram t)) (unat a div 4096))"
  using km_owned_holds[of t K] mem_run_owned[OF assms(2)] assms(1) by (simp add: holds_pages_def frame_used_def)

definition demo_kernel_memory :: KernelMemory where
  "demo_kernel_memory = \<lparr>g_Memory = demo_maps,
     g_VirtualMemory = \<lparr>g_Pml4 = [], g_Pdpt = [], g_PageDirectories = [], cr3 = 0\<rparr>,
     g_KernelHeap = \<lparr>h_Start = 0, h_Current = 0, h_End = 0\<rparr>,
     g_CopyOnWrite = demo_cow, g_SharedMemory = Shared_Init \<lparr>shm_attached = True, shm_NextId = 1, shm_Segments = []\<rparr>,
     g_SlabAllocator = Slab_Init blank_slab, g_HugePages = True,
     g_Numa = \<lparr>nm_attached = False, nm_Nodes = [], nm_NodeCount = 0\<rparr>, g_Swap = demo_swap\<rparr>"

lemma demo_swap_owned: "swap_ok demo_swap" "swap_frames demo_swap = {#}"
  by (simp_all add: demo_swap_def Cow_Shared_Swap_Init)

lemma demo_kernel_memory_owned: "km_owned demo_kernel_memory {#}"
  by (simp add: km_owned_def km_rest_def demo_kernel_memory_def demo_cow_def demo_swap_owned Cow_Shared_Swap_Init demo_maps_hold)

theorem pages_have_one_owner_witness:
  "\<exists>a t b u. km_alloc demo_kernel_memory = (a, t) \<and> a \<noteq> 0 \<and> km_cow_allocate t = (b, u) \<and>
     a \<notin># km_frames u \<and> \<not> IsPageFree (pmm (km_ram u)) (unat a div 4096)"
proof -
  let ?s = demo_kernel_memory
  obtain a t where a: "km_alloc ?s = (a, t)" by fastforce
  obtain b u where b: "km_cow_allocate t = (b, u)" by fastforce
  have "km_ram ?s = demo_ram" by (simp add: demo_kernel_memory_def km_ram_def demo_maps_def Mappings_Init_def)
  then have nz: "a \<noteq> 0" using a demo_ram_alloc by (auto simp: km_alloc_def split: prod.splits)
  have run: "mem_step\<^sup>*\<^sup>* (?s, {#}) (u, one_page a + {#})"
    by (rule rtranclp.rtrancl_into_rtrancl[OF r_into_rtranclp]) (rule mem_step.ms_alloc[OF a], rule mem_step.ms_cow_allocate[OF b])
  note P = pages_have_one_owner[OF demo_kernel_memory_owned run]
  have "count (km_frames u + {#a#}) a \<le> 1" using conjunct1[OF P, rule_format, of a] nz by simp
  then have "a \<notin># km_frames u" by (simp add: not_in_iff)
  moreover have "\<not> IsPageFree (pmm (km_ram u)) (unat a div 4096)" using conjunct2[OF P] nz by simp
  ultimately show ?thesis using a b nz by blast
qed

end
