(* ===== verification/FileSystem.thy ===== *)
theory FileSystem
  imports Console
begin

text \<open>
  \<^verbatim>\<open>kernel/src/filesystem.cpp\<close>: the FAT32, EXT2 and initramfs recognizers, the driver registry,
  the mount table with its longest-prefix lookup, the RAM file system and the pseudo file
  systems (tmpfs, procfs, devfs, sysfs, initramfs), the boot self-tests and
  \<open>KernelFileSystemInit\<close>. The four tables and \<open>g_Status\<close> are the record \<open>FsState\<close>; a table of
  \<open>N\<close> entries is a list of length \<open>N\<close>. The lines the component logs are kept in \<open>fs_log\<close>.
\<close>

subsection \<open>Data\<close>

datatype FileSystemType = UnknownFs | Fat32 | Ext2 | RamFs | TmpFs | ProcFs | DevFs | SysFs | InitRamFs

datatype FileMode = OwnerRead | OwnerWrite | OwnerExecute | GroupRead | GroupWrite | GroupExecute
  | OtherRead | OtherWrite | OtherExecute | Directory | Symlink | Regular

fun mode_value :: "FileMode \<Rightarrow> u16" where
  "mode_value OwnerRead = 0x100"
| "mode_value OwnerWrite = 0x80"
| "mode_value OwnerExecute = 0x40"
| "mode_value GroupRead = 0x20"
| "mode_value GroupWrite = 0x10"
| "mode_value GroupExecute = 0x8"
| "mode_value OtherRead = 0x4"
| "mode_value OtherWrite = 0x2"
| "mode_value OtherExecute = 0x1"
| "mode_value Directory = 0x4000"
| "mode_value Symlink = 0xA000"
| "mode_value Regular = 0x8000"

text \<open>\<open>mode_of [a, b, ...]\<close> is \<open>static_cast<uint16_t>(a | b | ...)\<close>.\<close>

definition mode_of :: "FileMode list \<Rightarrow> u16" where
  "mode_of ms = foldr (\<lambda>m w. mode_value m OR w) ms 0"

record VfsMount =
  mnt_path :: cstring
  mnt_type :: FileSystemType
  mnt_active :: bool

record VfsNode =
  vn_path :: cstring
  vn_symlink_target :: cstring
  vn_type :: FileSystemType
  vn_mode :: u16
  vn_directory :: bool
  vn_symlink :: bool
  vn_active :: bool

text \<open>A \<open>const uint8_t*\<close> is \<open>None\<close> for \<open>nullptr\<close>, else the bytes from there on.\<close>

type_synonym probe = "u8 list option \<Rightarrow> u64 \<Rightarrow> bool"

record FsDriver =
  drv_name :: cstring
  drv_type :: FileSystemType
  drv_Probe :: "probe option"

record PseudoFsNode =
  pn_path :: cstring
  pn_type :: FileSystemType
  pn_mode :: u16
  pn_size :: u64
  pn_major :: u32
  pn_minor :: u32
  pn_directory :: bool
  pn_active :: bool

record InitRamFsHeader =
  ih_magic :: u32
  ih_file_count :: u32

record InitRamFsEntry =
  ie_path :: cstring
  ie_size :: u64
  ie_mode :: u16

definition kMaxFsDrivers :: u32 where "kMaxFsDrivers = 9"
definition kMaxMounts :: u32 where "kMaxMounts = 12"
definition kMaxRamFsNodes :: u32 where "kMaxRamFsNodes = 16"
definition kMaxPseudoFsNodes :: u32 where "kMaxPseudoFsNodes = 24"
definition kInitRamFsMagic :: u32 where "kInitRamFsMagic = 0x49524653"
definition kFatBootSignature :: u16 where "kFatBootSignature = 0xAA55"
definition kExt2Magic :: u16 where "kExt2Magic = 0xEF53"

record FileSystemStatus =
  vfs_ready :: bool
  fat32_supported :: bool
  ext2_supported :: bool
  file_permissions_ready :: bool
  symbolic_links_ready :: bool
  mount_manager_ready :: bool
  ramfs_ready :: bool
  tmpfs_ready :: bool
  procfs_ready :: bool
  devfs_ready :: bool
  sysfs_ready :: bool
  initramfs_ready :: bool
  registered_driver_count :: u32
  mounted_filesystem_count :: u32
  ramfs_node_count :: u32
  pseudo_node_count :: u32
  initramfs_file_count :: u32

record FsState =
  fs_Drivers :: "FsDriver list"
  fs_Mounts :: "VfsMount list"
  fs_RamFsNodes :: "VfsNode list"
  fs_PseudoFsNodes :: "PseudoFsNode list"
  fs_Status :: FileSystemStatus
  fs_log :: klog

subsection \<open>Little-endian fields\<close>

definition ReadLe16 :: "u8 list \<Rightarrow> nat \<Rightarrow> u16" where
  "ReadLe16 data offset = ucast (data ! offset) OR push_bit 8 (ucast (data ! (offset + 1)))"

definition ReadLe32 :: "u8 list \<Rightarrow> nat \<Rightarrow> u32" where
  "ReadLe32 data offset = ucast (data ! offset) OR push_bit 8 (ucast (data ! (offset + 1))) OR
     push_bit 16 (ucast (data ! (offset + 2))) OR push_bit 24 (ucast (data ! (offset + 3)))"

definition WriteLe16 :: "u8 list \<Rightarrow> nat \<Rightarrow> u16 \<Rightarrow> u8 list" where
  "WriteLe16 data offset v = data[offset := ucast (v AND 0xFF), offset + 1 := ucast (drop_bit 8 v AND 0xFF)]"

definition WriteLe32 :: "u8 list \<Rightarrow> nat \<Rightarrow> u32 \<Rightarrow> u8 list" where
  "WriteLe32 data offset v = data[offset := ucast (v AND 0xFF), offset + 1 := ucast (drop_bit 8 v AND 0xFF),
     offset + 2 := ucast (drop_bit 16 v AND 0xFF), offset + 3 := ucast (drop_bit 24 v AND 0xFF)]"

subsection \<open>Recognizers\<close>

definition Fat32Probe :: probe where
  "Fat32Probe data n =
     (case data of None \<Rightarrow> False
      | Some d \<Rightarrow>
          if n < 512 then False
          else
            let signature = ReadLe16 d 510; bytes_per_sector = ReadLe16 d 11; sectors_per_cluster = d ! 13;
                reserved_sectors = ReadLe16 d 14; fat_count = d ! 16; root_entry_count = ReadLe16 d 17;
                fat16_size = ReadLe16 d 22; fat32_size = ReadLe32 d 36; root_cluster = ReadLe32 d 44
            in signature = kFatBootSignature \<and> bytes_per_sector \<ge> 512 \<and> sectors_per_cluster \<noteq> 0 \<and>
               reserved_sectors \<noteq> 0 \<and> fat_count \<noteq> 0 \<and> root_entry_count = 0 \<and> fat16_size = 0 \<and>
               fat32_size \<noteq> 0 \<and> root_cluster \<ge> 2)"

definition Ext2Probe :: probe where
  "Ext2Probe data n =
     (case data of None \<Rightarrow> False
      | Some d \<Rightarrow>
          if n < 2048 then False
          else
            let superblock = 1024; inode_count = ReadLe32 d (superblock + 0);
                block_count = ReadLe32 d (superblock + 4); magic = ReadLe16 d (superblock + 56)
            in magic = kExt2Magic \<and> inode_count \<noteq> 0 \<and> block_count \<noteq> 0)"

definition RamFsProbe :: probe where "RamFsProbe data n = True"
definition TmpFsProbe :: probe where "TmpFsProbe data n = True"
definition ProcFsProbe :: probe where "ProcFsProbe data n = True"
definition DevFsProbe :: probe where "DevFsProbe data n = True"
definition SysFsProbe :: probe where "SysFsProbe data n = True"

text \<open>The structure the bytes of an initramfs image start with (x86 is little endian).\<close>

definition initramfs_header :: "u8 list \<Rightarrow> InitRamFsHeader" where
  "initramfs_header d = \<lparr>ih_magic = ReadLe32 d 0, ih_file_count = ReadLe32 d 4\<rparr>"

definition InitRamFsProbe :: probe where
  "InitRamFsProbe data n =
     (case data of None \<Rightarrow> False
      | Some d \<Rightarrow>
          if n < 8 then False
          else ih_magic (initramfs_header d) = kInitRamFsMagic \<and> ih_file_count (initramfs_header d) \<noteq> 0)"

subsection \<open>Paths and permissions\<close>

text \<open>\<open>text[i]\<close> of a NUL-terminated text, for an index up to its length.\<close>

definition char_at :: "string \<Rightarrow> nat \<Rightarrow> char" where
  "char_at t i = (if i < length t then t ! i else CHR 0x00)"

text \<open>The comparison loop: true when the first \<open>n\<close> characters agree.\<close>

fun same_chars :: "nat list \<Rightarrow> string \<Rightarrow> string \<Rightarrow> bool" where
  "same_chars [] p q = True"
| "same_chars (i # is) p q = (if char_at p i \<noteq> char_at q i then False else same_chars is p q)"

definition PathHasPrefix :: "cstring \<Rightarrow> cstring \<Rightarrow> bool" where
  "PathHasPrefix path prefix =
     (case path of None \<Rightarrow> False
      | Some p \<Rightarrow> (case prefix of None \<Rightarrow> False
      | Some q \<Rightarrow>
          let prefix_length = StringLength prefix in
          if prefix_length = 0 then False
          else if StringEquals prefix (Some ''/'') then char_at p 0 = CHR ''/''
          else if \<not> same_chars [0 ..< prefix_length] p q then False
          else char_at p prefix_length = CHR 0x00 \<or> char_at p prefix_length = CHR ''/''))"

definition HasPermission :: "VfsNode \<Rightarrow> u16 \<Rightarrow> bool" where
  "HasPermission node permission \<longleftrightarrow> vn_mode node AND permission = permission"

definition HasMode :: "u16 \<Rightarrow> u16 \<Rightarrow> bool" where
  "HasMode mode permission \<longleftrightarrow> mode AND permission = permission"

subsection \<open>The tables\<close>

definition no_fs_status :: FileSystemStatus where
  "no_fs_status = \<lparr>vfs_ready = False, fat32_supported = False, ext2_supported = False, file_permissions_ready = False,
     symbolic_links_ready = False, mount_manager_ready = False, ramfs_ready = False, tmpfs_ready = False,
     procfs_ready = False, devfs_ready = False, sysfs_ready = False, initramfs_ready = False,
     registered_driver_count = 0, mounted_filesystem_count = 0, ramfs_node_count = 0, pseudo_node_count = 0,
     initramfs_file_count = 0\<rparr>"

definition ResetFileSystemStatus :: "FsState \<Rightarrow> FsState" where
  "ResetFileSystemStatus s = s\<lparr>fs_Status := no_fs_status,
     fs_Drivers := replicate (unat kMaxFsDrivers) \<lparr>drv_name = None, drv_type = UnknownFs, drv_Probe = None\<rparr>,
     fs_Mounts := replicate (unat kMaxMounts) \<lparr>mnt_path = None, mnt_type = UnknownFs, mnt_active = False\<rparr>,
     fs_RamFsNodes := replicate (unat kMaxRamFsNodes)
       \<lparr>vn_path = None, vn_symlink_target = None, vn_type = UnknownFs, vn_mode = 0, vn_directory = False,
        vn_symlink = False, vn_active = False\<rparr>,
     fs_PseudoFsNodes := replicate (unat kMaxPseudoFsNodes)
       \<lparr>pn_path = None, pn_type = UnknownFs, pn_mode = 0, pn_size = 0, pn_major = 0, pn_minor = 0,
        pn_directory = False, pn_active = False\<rparr>\<rparr>"

definition upd_fs_status :: "(FileSystemStatus \<Rightarrow> FileSystemStatus) \<Rightarrow> FsState \<Rightarrow> FsState" where
  "upd_fs_status f s = s\<lparr>fs_Status := f (fs_Status s)\<rparr>"

definition VfsRegisterDriver :: "cstring \<Rightarrow> FileSystemType \<Rightarrow> probe option \<Rightarrow> FsState \<Rightarrow> bool \<times> FsState" where
  "VfsRegisterDriver name type probe s =
     (let n = registered_driver_count (fs_Status s) in
      if name = None \<or> probe = None \<or> n \<ge> kMaxFsDrivers then (False, s)
      else (True, upd_fs_status (\<lambda>st. st\<lparr>registered_driver_count := n + 1\<rparr>)
        (s\<lparr>fs_Drivers := (fs_Drivers s)[unat n := \<lparr>drv_name = name, drv_type = type, drv_Probe = probe\<rparr>]\<rparr>)))"

definition VfsMountPath :: "cstring \<Rightarrow> FileSystemType \<Rightarrow> FsState \<Rightarrow> bool \<times> FsState" where
  "VfsMountPath path type s =
     (let n = mounted_filesystem_count (fs_Status s) in
      if path = None \<or> type = UnknownFs \<or> n \<ge> kMaxMounts then (False, s)
      else (True, upd_fs_status (\<lambda>st. st\<lparr>mounted_filesystem_count := n + 1\<rparr>)
        (s\<lparr>fs_Mounts := (fs_Mounts s)[unat n := \<lparr>mnt_path = path, mnt_type = type, mnt_active = True\<rparr>]\<rparr>)))"

text \<open>The search keeps the best mount so far and the length of its path.\<close>

definition mount_step :: "FsState \<Rightarrow> cstring \<Rightarrow> nat option \<times> nat \<Rightarrow> nat \<Rightarrow> nat option \<times> nat" where
  "mount_step s path = (\<lambda>(best, best_length) i.
     let mount = fs_Mounts s ! i in
     if \<not> mnt_active mount \<or> \<not> PathHasPrefix path (mnt_path mount) then (best, best_length)
     else let len = StringLength (mnt_path mount) in
       if best = None \<or> len > best_length then (Some i, len) else (best, best_length))"

definition VfsFindMount :: "FsState \<Rightarrow> cstring \<Rightarrow> nat option" where
  "VfsFindMount s path =
     fst (foldl (mount_step s path) (None, 0) [0 ..< unat (mounted_filesystem_count (fs_Status s))])"

definition RamFsAddNode :: "cstring \<Rightarrow> u16 \<Rightarrow> bool \<Rightarrow> cstring \<Rightarrow> FsState \<Rightarrow> bool \<times> FsState" where
  "RamFsAddNode path mode directory symlink_target s =
     (let n = ramfs_node_count (fs_Status s) in
      if path = None \<or> n \<ge> kMaxRamFsNodes then (False, s)
      else (True, upd_fs_status (\<lambda>st. st\<lparr>ramfs_node_count := n + 1\<rparr>)
        (s\<lparr>fs_RamFsNodes := (fs_RamFsNodes s)[unat n :=
             \<lparr>vn_path = path, vn_symlink_target = symlink_target, vn_type = RamFs, vn_mode = mode,
              vn_directory = directory, vn_symlink = (symlink_target \<noteq> None), vn_active = True\<rparr>]\<rparr>)))"

definition RamFsFindNode :: "FsState \<Rightarrow> cstring \<Rightarrow> nat option" where
  "RamFsFindNode s path =
     find_index (\<lambda>node. vn_active node \<and> StringEquals (vn_path node) path)
       (take (unat (ramfs_node_count (fs_Status s))) (fs_RamFsNodes s))"

definition PseudoFsAddNode :: "cstring \<Rightarrow> FileSystemType \<Rightarrow> u16 \<Rightarrow> bool \<Rightarrow> u64 \<Rightarrow> u32 \<Rightarrow> u32 \<Rightarrow> FsState \<Rightarrow> bool \<times> FsState" where
  "PseudoFsAddNode path type mode directory sz major minor s =
     (let n = pseudo_node_count (fs_Status s) in
      if path = None \<or> type = UnknownFs \<or> n \<ge> kMaxPseudoFsNodes then (False, s)
      else (True, upd_fs_status (\<lambda>st. st\<lparr>pseudo_node_count := n + 1\<rparr>)
        (s\<lparr>fs_PseudoFsNodes := (fs_PseudoFsNodes s)[unat n :=
             \<lparr>pn_path = path, pn_type = type, pn_mode = mode, pn_size = sz, pn_major = major, pn_minor = minor,
              pn_directory = directory, pn_active = True\<rparr>]\<rparr>)))"

definition PseudoFsFindNode :: "FsState \<Rightarrow> cstring \<Rightarrow> FileSystemType \<Rightarrow> nat option" where
  "PseudoFsFindNode s path type =
     find_index (\<lambda>node. pn_active node \<and> pn_type node = type \<and> StringEquals (pn_path node) path)
       (take (unat (pseudo_node_count (fs_Status s))) (fs_PseudoFsNodes s))"

subsection \<open>Self-tests\<close>

definition RunFat32ProbeSelfTest :: bool where
  "RunFat32ProbeSelfTest =
     (let s0 = replicate 512 0; s1 = WriteLe16 s0 11 512; s2 = s1[13 := 8]; s3 = WriteLe16 s2 14 32;
          s4 = s3[16 := 2]; s5 = WriteLe16 s4 17 0; s6 = WriteLe16 s5 22 0; s7 = WriteLe32 s6 36 128;
          s8 = WriteLe32 s7 44 2; sector = WriteLe16 s8 510 kFatBootSignature
      in Fat32Probe (Some sector) 512)"

definition RunExt2ProbeSelfTest :: bool where
  "RunExt2ProbeSelfTest =
     (let superblock = 1024; i0 = replicate 2048 0; i1 = WriteLe32 i0 (superblock + 0) 128;
          i2 = WriteLe32 i1 (superblock + 4) 1024; image = WriteLe16 i2 (superblock + 56) kExt2Magic
      in Ext2Probe (Some image) 2048)"

definition RunPermissionSelfTest :: bool where
  "RunPermissionSelfTest =
     (let node = \<lparr>vn_path = Some ''/tmp/config'', vn_symlink_target = None, vn_type = RamFs,
            vn_mode = mode_of [Regular, OwnerRead, OwnerWrite, GroupRead, OtherRead],
            vn_directory = False, vn_symlink = False, vn_active = True\<rparr>
      in HasPermission node (mode_value OwnerRead) \<and> HasPermission node (mode_value OwnerWrite) \<and>
         HasPermission node (mode_value GroupRead) \<and> \<not> HasPermission node (mode_value GroupWrite) \<and>
         \<not> HasPermission node (mode_value OtherWrite))"

text \<open>A pointer to a table entry that is tested before it is used.\<close>

definition found :: "'a list \<Rightarrow> nat option \<Rightarrow> ('a \<Rightarrow> bool) \<Rightarrow> bool" where
  "found xs p P = (case p of None \<Rightarrow> False | Some i \<Rightarrow> P (xs ! i))"

definition RunRamFsSelfTest :: "FsState \<Rightarrow> bool \<times> FsState" where
  "RunRamFsSelfTest s =
     (let start_count = ramfs_node_count (fs_Status s);
          (ok1, s1) = RamFsAddNode (Some ''/ram'') (mode_of [Directory, OwnerRead, OwnerWrite, OwnerExecute]) True None s
      in if \<not> ok1 then (False, s1)
      else let (ok2, s2) = RamFsAddNode (Some ''/ram/readme'')
                 (mode_of [Regular, OwnerRead, OwnerWrite, GroupRead, OtherRead]) False None s1
      in if \<not> ok2 then (False, s2)
      else let root = RamFsFindNode s2 (Some ''/ram''); readme = RamFsFindNode s2 (Some ''/ram/readme'')
      in (ramfs_node_count (fs_Status s2) = start_count + 2 \<and>
          found (fs_RamFsNodes s2) root vn_directory \<and>
          found (fs_RamFsNodes s2) readme (\<lambda>n. \<not> vn_directory n \<and> HasPermission n (mode_value OwnerRead)), s2))"

definition RunSymlinkSelfTest :: "FsState \<Rightarrow> bool \<times> FsState" where
  "RunSymlinkSelfTest s =
     (let (ok, s1) = RamFsAddNode (Some ''/ram/latest'') (mode_of [Symlink, OwnerRead, GroupRead, OtherRead])
            False (Some ''/ram/readme'') s
      in if \<not> ok then (False, s1)
      else (found (fs_RamFsNodes s1) (RamFsFindNode s1 (Some ''/ram/latest''))
              (\<lambda>link. vn_symlink link \<and> StringEquals (vn_symlink_target link) (Some ''/ram/readme'') \<and>
                 RamFsFindNode s1 (vn_symlink_target link) \<noteq> None), s1))"

definition RunMountManagerSelfTest :: "FsState \<Rightarrow> bool" where
  "RunMountManagerSelfTest s =
     (let is_mount = (\<lambda>path t. found (fs_Mounts s) (VfsFindMount s (Some path)) (\<lambda>m. mnt_type m = t))
      in is_mount ''/'' Ext2 \<and> is_mount ''/boot/kernel.elf'' Fat32 \<and> is_mount ''/ram/readme'' RamFs \<and>
         is_mount ''/tmp/session.sock'' TmpFs \<and> is_mount ''/proc/cpuinfo'' ProcFs \<and>
         is_mount ''/dev/console'' DevFs \<and> is_mount ''/sys/kernel'' SysFs \<and> is_mount ''/initrd/init'' InitRamFs)"

definition RunTmpFsSelfTest :: "FsState \<Rightarrow> bool \<times> FsState" where
  "RunTmpFsSelfTest s =
     (let start_count = pseudo_node_count (fs_Status s);
          (ok1, s1) = PseudoFsAddNode (Some ''/tmp'') TmpFs (mode_of [Directory, OwnerRead, OwnerWrite, OwnerExecute]) True 0 0 0 s
      in if \<not> ok1 then (False, s1)
      else let (ok2, s2) = PseudoFsAddNode (Some ''/tmp/session.sock'') TmpFs (mode_of [Regular, OwnerRead, OwnerWrite]) False 0 0 0 s1
      in if \<not> ok2 then (False, s2)
      else (pseudo_node_count (fs_Status s2) = start_count + 2 \<and>
            found (fs_PseudoFsNodes s2) (PseudoFsFindNode s2 (Some ''/tmp'') TmpFs) pn_directory \<and>
            found (fs_PseudoFsNodes s2) (PseudoFsFindNode s2 (Some ''/tmp/session.sock'') TmpFs)
              (\<lambda>n. \<not> pn_directory n \<and> HasMode (pn_mode n) (mode_value OwnerWrite)), s2))"

definition RunProcFsSelfTest :: "FsState \<Rightarrow> bool \<times> FsState" where
  "RunProcFsSelfTest s =
     (let (ok1, s1) = PseudoFsAddNode (Some ''/proc'') ProcFs
            (mode_of [Directory, OwnerRead, OwnerExecute, GroupRead, GroupExecute, OtherRead, OtherExecute]) True 0 0 0 s
      in if \<not> ok1 then (False, s1)
      else let (ok2, s2) = PseudoFsAddNode (Some ''/proc/cpuinfo'') ProcFs
                 (mode_of [Regular, OwnerRead, GroupRead, OtherRead]) False 128 0 0 s1
      in if \<not> ok2 then (False, s2)
      else let (ok3, s3) = PseudoFsAddNode (Some ''/proc/meminfo'') ProcFs
                 (mode_of [Regular, OwnerRead, GroupRead, OtherRead]) False 96 0 0 s2
      in if \<not> ok3 then (False, s3)
      else (found (fs_PseudoFsNodes s3) (PseudoFsFindNode s3 (Some ''/proc/cpuinfo'') ProcFs)
              (\<lambda>n. pn_size n \<noteq> 0 \<and> \<not> pn_directory n) \<and>
            found (fs_PseudoFsNodes s3) (PseudoFsFindNode s3 (Some ''/proc/meminfo'') ProcFs) (\<lambda>n. pn_size n \<noteq> 0), s3))"

definition RunDevFsSelfTest :: "FsState \<Rightarrow> bool \<times> FsState" where
  "RunDevFsSelfTest s =
     (let (ok1, s1) = PseudoFsAddNode (Some ''/dev'') DevFs
            (mode_of [Directory, OwnerRead, OwnerWrite, OwnerExecute, GroupRead, GroupExecute, OtherRead, OtherExecute]) True 0 0 0 s
      in if \<not> ok1 then (False, s1)
      else let (ok2, s2) = PseudoFsAddNode (Some ''/dev/console'') DevFs
                 (mode_of [Regular, OwnerRead, OwnerWrite, GroupWrite]) False 0 5 1 s1
      in if \<not> ok2 then (False, s2)
      else let (ok3, s3) = PseudoFsAddNode (Some ''/dev/null'') DevFs
                 (mode_of [Regular, OwnerRead, OwnerWrite, GroupRead, GroupWrite, OtherRead, OtherWrite]) False 0 1 3 s2
      in if \<not> ok3 then (False, s3)
      else (found (fs_PseudoFsNodes s3) (PseudoFsFindNode s3 (Some ''/dev/console'') DevFs)
              (\<lambda>n. pn_major n = 5 \<and> pn_minor n = 1) \<and>
            found (fs_PseudoFsNodes s3) (PseudoFsFindNode s3 (Some ''/dev/null'') DevFs)
              (\<lambda>n. pn_major n = 1 \<and> pn_minor n = 3), s3))"

definition RunSysFsSelfTest :: "FsState \<Rightarrow> bool \<times> FsState" where
  "RunSysFsSelfTest s =
     (let dir = mode_of [Directory, OwnerRead, OwnerExecute, GroupRead, GroupExecute, OtherRead, OtherExecute];
          (ok1, s1) = PseudoFsAddNode (Some ''/sys'') SysFs dir True 0 0 0 s
      in if \<not> ok1 then (False, s1)
      else let (ok2, s2) = PseudoFsAddNode (Some ''/sys/kernel'') SysFs dir True 0 0 0 s1
      in if \<not> ok2 then (False, s2)
      else let (ok3, s3) = PseudoFsAddNode (Some ''/sys/kernel/version'') SysFs
                 (mode_of [Regular, OwnerRead, GroupRead, OtherRead]) False 32 0 0 s2
      in if \<not> ok3 then (False, s3)
      else (found (fs_PseudoFsNodes s3) (PseudoFsFindNode s3 (Some ''/sys/kernel'') SysFs) pn_directory \<and>
            found (fs_PseudoFsNodes s3) (PseudoFsFindNode s3 (Some ''/sys/kernel/version'') SysFs) (\<lambda>n. pn_size n \<noteq> 0), s3))"

text \<open>The loop that adds the files of the image; false when one does not fit.\<close>

fun add_initramfs_files :: "InitRamFsEntry list \<Rightarrow> FsState \<Rightarrow> bool \<times> FsState" where
  "add_initramfs_files [] s = (True, s)"
| "add_initramfs_files (f # files) s =
     (let (ok, s1) = PseudoFsAddNode (ie_path f) InitRamFs (ie_mode f) False (ie_size f) 0 0 s in
      if \<not> ok then (False, s1)
      else add_initramfs_files files
        (upd_fs_status (\<lambda>st. st\<lparr>initramfs_file_count := initramfs_file_count st + 1\<rparr>) s1))"

definition RunInitRamFsSelfTest :: "FsState \<Rightarrow> bool \<times> FsState" where
  "RunInitRamFsSelfTest s =
     (let files = [\<lparr>ie_path = Some ''/initrd/init'', ie_size = 4096, ie_mode = mode_of [Regular, OwnerRead, OwnerExecute]\<rparr>,
                   \<lparr>ie_path = Some ''/initrd/etc/profile'', ie_size = 256,
                    ie_mode = mode_of [Regular, OwnerRead, GroupRead, OtherRead]\<rparr>];
          file_count = of_nat (length files);
          image = WriteLe32 (WriteLe32 (replicate 8 0) 0 kInitRamFsMagic) 4 file_count
      in if \<not> InitRamFsProbe (Some image) 8 then (False, s)
      else let (ok1, s1) = PseudoFsAddNode (Some ''/initrd'') InitRamFs (mode_of [Directory, OwnerRead, OwnerExecute]) True 0 0 0 s
      in if \<not> ok1 then (False, s1)
      else let (ok2, s2) = add_initramfs_files files s1
      in if \<not> ok2 then (False, s2)
      else (initramfs_file_count (fs_Status s2) = file_count \<and>
            found (fs_PseudoFsNodes s2) (PseudoFsFindNode s2 (Some ''/initrd/init'') InitRamFs) (\<lambda>n. pn_size n = 4096) \<and>
            found (fs_PseudoFsNodes s2) (PseudoFsFindNode s2 (Some ''/initrd/etc/profile'') InitRamFs) (\<lambda>n. pn_size n = 256), s2))"

fun TypeName :: "FileSystemType \<Rightarrow> string" where
  "TypeName Fat32 = ''FAT32''"
| "TypeName Ext2 = ''EXT2''"
| "TypeName RamFs = ''RamFS''"
| "TypeName TmpFs = ''tmpfs''"
| "TypeName ProcFs = ''procfs''"
| "TypeName DevFs = ''devfs''"
| "TypeName SysFs = ''sysfs''"
| "TypeName InitRamFs = ''initramfs''"
| "TypeName UnknownFs = ''unknown''"

subsection \<open>Initialisation and report\<close>

definition log_fs :: "LogLevel \<Rightarrow> string \<Rightarrow> FsState \<Rightarrow> FsState" where
  "log_fs level message s = s\<lparr>fs_log := fs_log s @ [(level, message)]\<rparr>"

text \<open>The short-circuit conjunction of driver registrations.\<close>

fun register_drivers :: "(string \<times> FileSystemType \<times> probe) list \<Rightarrow> FsState \<Rightarrow> bool \<times> FsState" where
  "register_drivers [] s = (True, s)"
| "register_drivers ((name, type, probe) # ds) s =
     (let (ok, s1) = VfsRegisterDriver (Some name) type (Some probe) s in
      if ok then register_drivers ds s1 else (False, s1))"

definition KernelFileSystemInit :: "FsState \<Rightarrow> bool \<times> FsState" where
  "KernelFileSystemInit s =
     (let s = ResetFileSystemStatus s;
          (ready, s) = register_drivers [(''fat32'', Fat32, Fat32Probe), (''ext2'', Ext2, Ext2Probe),
             (''ramfs'', RamFs, RamFsProbe), (''tmpfs'', TmpFs, TmpFsProbe), (''procfs'', ProcFs, ProcFsProbe),
             (''devfs'', DevFs, DevFsProbe), (''sysfs'', SysFs, SysFsProbe), (''initramfs'', InitRamFs, InitRamFsProbe)] s;
          s = upd_fs_status (\<lambda>st. st\<lparr>vfs_ready := ready, fat32_supported := RunFat32ProbeSelfTest,
                ext2_supported := RunExt2ProbeSelfTest, file_permissions_ready := RunPermissionSelfTest\<rparr>) s;
          s = (if fat32_supported (fs_Status s) then snd (VfsMountPath (Some ''/boot'') Fat32 s) else s);
          s = (if ext2_supported (fs_Status s) then snd (VfsMountPath (Some ''/'') Ext2 s) else s);
          s = snd (VfsMountPath (Some ''/ram'') RamFs s);
          s = snd (VfsMountPath (Some ''/tmp'') TmpFs s);
          s = snd (VfsMountPath (Some ''/proc'') ProcFs s);
          s = snd (VfsMountPath (Some ''/dev'') DevFs s);
          s = snd (VfsMountPath (Some ''/sys'') SysFs s);
          s = snd (VfsMountPath (Some ''/initrd'') InitRamFs s);
          (ok, s) = RunRamFsSelfTest s; s = upd_fs_status (\<lambda>st. st\<lparr>ramfs_ready := ok\<rparr>) s;
          (ok, s) = (if ramfs_ready (fs_Status s) then RunSymlinkSelfTest s else (False, s));
          s = upd_fs_status (\<lambda>st. st\<lparr>symbolic_links_ready := ok\<rparr>) s;
          (ok, s) = RunTmpFsSelfTest s; s = upd_fs_status (\<lambda>st. st\<lparr>tmpfs_ready := ok\<rparr>) s;
          (ok, s) = RunProcFsSelfTest s; s = upd_fs_status (\<lambda>st. st\<lparr>procfs_ready := ok\<rparr>) s;
          (ok, s) = RunDevFsSelfTest s; s = upd_fs_status (\<lambda>st. st\<lparr>devfs_ready := ok\<rparr>) s;
          (ok, s) = RunSysFsSelfTest s; s = upd_fs_status (\<lambda>st. st\<lparr>sysfs_ready := ok\<rparr>) s;
          (ok, s) = RunInitRamFsSelfTest s; s = upd_fs_status (\<lambda>st. st\<lparr>initramfs_ready := ok\<rparr>) s;
          s = upd_fs_status (\<lambda>st. st\<lparr>mount_manager_ready := RunMountManagerSelfTest s\<rparr>) s;
          s = log_fs Info ''Phase 10 filesystem initialized'' s;
          st = fs_Status s
      in (vfs_ready st \<and> fat32_supported st \<and> ext2_supported st \<and> file_permissions_ready st \<and>
          symbolic_links_ready st \<and> mount_manager_ready st \<and> ramfs_ready st \<and> tmpfs_ready st \<and>
          procfs_ready st \<and> devfs_ready st \<and> sysfs_ready st \<and> initramfs_ready st, s))"

definition KernelFileSystemStatus :: "FsState \<Rightarrow> FileSystemStatus" where
  "KernelFileSystemStatus s = fs_Status s"

definition log_ready :: "bool \<Rightarrow> string \<Rightarrow> string \<Rightarrow> FsState \<Rightarrow> FsState" where
  "log_ready ready yes no s = log_fs (if ready then Info else Warn) (if ready then yes else no) s"

definition PrintFileSystemInfo :: "FsState \<Rightarrow> FsState" where
  "PrintFileSystemInfo s =
     (let st = fs_Status s;
          s = log_ready (vfs_ready st) ''VFS registry ready'' ''VFS registry unavailable'' s;
          s = log_ready (fat32_supported st) ''FAT32 recognizer ready'' ''FAT32 recognizer failed'' s;
          s = log_ready (ext2_supported st) ''EXT2 recognizer ready'' ''EXT2 recognizer failed'' s;
          s = log_ready (file_permissions_ready st) ''VFS file permissions ready'' ''VFS file permissions unavailable'' s;
          s = log_ready (symbolic_links_ready st) ''VFS symbolic links ready'' ''VFS symbolic links unavailable'' s;
          s = log_ready (mount_manager_ready st) ''VFS mount manager ready'' ''VFS mount manager unavailable'' s;
          s = log_ready (ramfs_ready st) ''RamFS ready'' ''RamFS unavailable'' s;
          s = log_ready (tmpfs_ready st) ''tmpfs ready'' ''tmpfs unavailable'' s;
          s = log_ready (procfs_ready st) ''procfs ready'' ''procfs unavailable'' s;
          s = log_ready (devfs_ready st) ''devfs ready'' ''devfs unavailable'' s;
          s = log_ready (sysfs_ready st) ''sysfs ready'' ''sysfs unavailable'' s;
          s = log_ready (initramfs_ready st) ''initramfs ready'' ''initramfs unavailable'' s
      in foldl (\<lambda>s i. if \<not> mnt_active (fs_Mounts s ! i) then s
                      else log_fs Info (TypeName (mnt_type (fs_Mounts s ! i))) s)
           s [0 ..< unat (mounted_filesystem_count st)])"

subsection \<open>Little-endian fields\<close>

lemma WriteLe_length [simp]: "length (WriteLe16 d i v) = length d" "length (WriteLe32 d i w) = length d"
  by (simp_all add: WriteLe16_def WriteLe32_def)

lemma WriteLe16_other [simp]: "j \<noteq> i \<Longrightarrow> j \<noteq> i + 1 \<Longrightarrow> WriteLe16 d i v ! j = d ! j"
  by (simp add: WriteLe16_def)

lemma WriteLe32_other [simp]:
  "j \<noteq> i \<Longrightarrow> j \<noteq> i + 1 \<Longrightarrow> j \<noteq> i + 2 \<Longrightarrow> j \<noteq> i + 3 \<Longrightarrow> WriteLe32 d i v ! j = d ! j"
  by (simp add: WriteLe32_def)

lemma low_byte: "(ucast (w AND 0xFF :: 'a::len word) :: u8) = ucast w"
proof -
  have e: "(0xFF :: 'a word) = mask 8" by (simp add: mask_eq_exp_minus_1)
  show ?thesis unfolding e
    by (intro bit_word_eqI) (simp add: bit_unsigned_iff bit_and_iff bit_mask_iff bit_imp_le_length, blast dest: bit_imp_le_length)
qed

lemma join_bytes16: "ucast (ucast v :: u8) OR push_bit 8 (ucast (ucast (drop_bit 8 v) :: u8)) = (v :: u16)"
  by (rule bit_word_eqI) (auto simp: bit_or_iff bit_push_bit_iff bit_drop_bit_eq bit_unsigned_iff)

lemma join_bytes32:
  "ucast (ucast v :: u8) OR push_bit 8 (ucast (ucast (drop_bit 8 v) :: u8)) OR
   push_bit 16 (ucast (ucast (drop_bit 16 v) :: u8)) OR push_bit 24 (ucast (ucast (drop_bit 24 v) :: u8)) = (v :: u32)"
proof (rule bit_word_eqI)
  fix n :: nat
  assume "n < LENGTH(32)"
  then consider "n < 8" | "8 \<le> n" "n < 16" | "16 \<le> n" "n < 24" | "24 \<le> n" "n < 32" by fastforce
  then show "bit ((ucast (ucast v :: u8) :: u32) OR push_bit 8 (ucast (ucast (drop_bit 8 v) :: u8)) OR
      push_bit 16 (ucast (ucast (drop_bit 16 v) :: u8)) OR push_bit 24 (ucast (ucast (drop_bit 24 v) :: u8))) n = bit v n"
    by cases (auto simp: bit_or_iff bit_push_bit_iff bit_drop_bit_eq bit_unsigned_iff)
qed

lemma ReadLe16_WriteLe16: "i + 1 < length d \<Longrightarrow> ReadLe16 (WriteLe16 d i v) i = v"
  using join_bytes16[of v] by (simp add: ReadLe16_def WriteLe16_def low_byte)

lemma ReadLe32_WriteLe32: "i + 3 < length d \<Longrightarrow> ReadLe32 (WriteLe32 d i v) i = v"
  using join_bytes32[of v] by (simp add: ReadLe32_def WriteLe32_def low_byte)

lemma ReadLe16_cong: "d ! i = e ! i \<Longrightarrow> d ! (i + 1) = e ! (i + 1) \<Longrightarrow> ReadLe16 d i = ReadLe16 e i"
  by (simp add: ReadLe16_def)

subsection \<open>The longest mounted prefix\<close>

lemma same_chars_iff: "same_chars is p q \<longleftrightarrow> (\<forall>i \<in> set is. char_at p i = char_at q i)"
  by (induction "is") auto

text \<open>A C string has no NUL inside.\<close>

definition c_text :: "string \<Rightarrow> bool" where
  "c_text t \<longleftrightarrow> CHR 0x00 \<notin> set t"

definition path_under :: "string \<Rightarrow> string \<Rightarrow> bool" where
  "path_under m p \<longleftrightarrow> (if m = ''/'' then \<exists>r. p = CHR ''/'' # r else m \<noteq> [] \<and> (p = m \<or> (\<exists>r. p = m @ CHR ''/'' # r)))"

lemma same_prefix:
  assumes "c_text q"
  shows "same_chars [0 ..< length q] p q \<longleftrightarrow> (\<exists>r. p = q @ r)"
proof
  assume s: "same_chars [0 ..< length q] p q"
  have eq: "i < length p \<and> p ! i = q ! i" if "i < length q" for i
  proof -
    have "char_at p i = q ! i" using s that by (auto simp: same_chars_iff char_at_def)
    moreover have "q ! i \<noteq> CHR 0x00" using assms that by (metis c_text_def nth_mem)
    ultimately show ?thesis by (auto simp: char_at_def split: if_splits)
  qed
  then have "length q \<le> length p" by (metis not_le order_refl)
  with eq have "take (length q) p = q" by (intro nth_equalityI) auto
  then show "\<exists>r. p = q @ r" by (metis append_take_drop_id)
qed (auto simp: same_chars_iff char_at_def nth_append)

lemma PathHasPrefix_iff:
  assumes "c_text p" "c_text m"
  shows "PathHasPrefix (Some p) (Some m) \<longleftrightarrow> path_under m p"
proof (cases "m = [] \<or> m = ''/''")
  case True
  then show ?thesis
    by (cases p) (auto simp: PathHasPrefix_def path_under_def char_at_def Let_def)
next
  case False
  have "char_at m (length m) = CHR 0x00" by (simp add: char_at_def)
  moreover have "char_at (m @ r) (length m) = CHR 0x00 \<longleftrightarrow> r = []" if "c_text r" for r
    using that by (cases r) (auto simp: char_at_def c_text_def nth_append)
  moreover have "char_at (m @ r) (length m) = CHR ''/'' \<longleftrightarrow> (\<exists>t. r = CHR ''/'' # t)" for r
    by (cases r) (auto simp: char_at_def nth_append)
  ultimately show ?thesis
    using False assms same_prefix[OF assms(2), of p]
    by (auto simp: PathHasPrefix_def path_under_def Let_def c_text_def)
qed


lemma mount_step_cases:
  "mount_step s path (b, l) i =
     (if mnt_active (fs_Mounts s ! i) \<and> PathHasPrefix path (mnt_path (fs_Mounts s ! i)) \<and>
         (b = None \<or> l < StringLength (mnt_path (fs_Mounts s ! i)))
      then (Some i, StringLength (mnt_path (fs_Mounts s ! i))) else (b, l))"
  by (simp add: mount_step_def Let_def)

text \<open>The first of the longest matching mounts.\<close>

lemma find_mount_loop:
  fixes s path
  defines "cov \<equiv> \<lambda>i. mnt_active (fs_Mounts s ! i) \<and> PathHasPrefix path (mnt_path (fs_Mounts s ! i))"
    and "len \<equiv> \<lambda>i. StringLength (mnt_path (fs_Mounts s ! i))"
  shows "case foldl (mount_step s path) (None, 0) [0 ..< n] of
      (None, l) \<Rightarrow> l = 0 \<and> (\<forall>i < n. \<not> cov i)
    | (Some b, l) \<Rightarrow> b < n \<and> cov b \<and> l = len b \<and> (\<forall>i < n. cov i \<longrightarrow> len i \<le> len b) \<and> (\<forall>i < b. cov i \<longrightarrow> len i < len b)"
proof (induction n)
  case (Suc n)
  obtain b l where r: "foldl (mount_step s path) (None, 0) [0 ..< n] = (b, l)" by fastforce
  have step: "foldl (mount_step s path) (None, 0) [0 ..< Suc n] = (if cov n \<and> (b = None \<or> l < len n) then (Some n, len n) else (b, l))"
    using r by (cases b) (simp_all add: mount_step_cases cov_def len_def)
  show ?case
  proof (cases b)
    case None
    then show ?thesis using Suc r unfolding step by (auto simp: less_Suc_eq)
  next
    case (Some a)
    with Suc r have a: "a < n" "cov a" "l = len a" "\<forall>i < n. cov i \<longrightarrow> len i \<le> len a" "\<forall>i < a. cov i \<longrightarrow> len i < len a"
      by simp_all
    show ?thesis
    proof (cases "cov n \<and> len a < len n")
      case True
      then show ?thesis unfolding step using a Some by (auto simp: less_Suc_eq intro: le_less_trans)
    next
      case False
      then show ?thesis unfolding step using a Some by (auto simp: less_Suc_eq)
    qed
  qed
qed simp

text \<open>A mount table whose entries are C strings.\<close>

definition mounts_text :: "FsState \<Rightarrow> bool" where
  "mounts_text s \<longleftrightarrow> (\<forall>i < unat (mounted_filesystem_count (fs_Status s)).
     mnt_active (fs_Mounts s ! i) \<and> (\<exists>m. mnt_path (fs_Mounts s ! i) = Some m \<and> c_text m))"

definition mount_name :: "FsState \<Rightarrow> nat \<Rightarrow> string" where
  "mount_name s i = the (mnt_path (fs_Mounts s ! i))"

text \<open>
  C1. A path is served by the mount with the longest path above it, in terms of whole path
  components (\<open>/tmp\<close> serves \<open>/tmp\<close> and \<open>/tmp/x\<close> but not \<open>/tmpfile\<close>); of two mounts of the same
  path the older one wins, and no mount is found exactly when none is above the path.
\<close>

theorem find_mount_longest_prefix:
  assumes "mounts_text s" "c_text p"
  shows "case VfsFindMount s (Some p) of
      None \<Rightarrow> \<forall>i < unat (mounted_filesystem_count (fs_Status s)). \<not> path_under (mount_name s i) p
    | Some b \<Rightarrow> b < unat (mounted_filesystem_count (fs_Status s)) \<and> path_under (mount_name s b) p \<and>
        (\<forall>i < unat (mounted_filesystem_count (fs_Status s)). path_under (mount_name s i) p \<longrightarrow>
           length (mount_name s i) \<le> length (mount_name s b)) \<and>
        (\<forall>i < b. path_under (mount_name s i) p \<longrightarrow> length (mount_name s i) < length (mount_name s b))"
proof -
  let ?n = "unat (mounted_filesystem_count (fs_Status s))"
  have m: "mnt_active (fs_Mounts s ! i)" "mnt_path (fs_Mounts s ! i) = Some (mount_name s i)" "c_text (mount_name s i)"
    if "i < ?n" for i using assms(1) that by (auto simp: mounts_text_def mount_name_def)
  have c: "PathHasPrefix (Some p) (mnt_path (fs_Mounts s ! i)) \<longleftrightarrow> path_under (mount_name s i) p" if "i < ?n" for i
    using PathHasPrefix_iff[OF assms(2) m(3)[OF that]] m(2)[OF that] by simp
  have len: "StringLength (mnt_path (fs_Mounts s ! i)) = length (mount_name s i)" if "i < ?n" for i
    using m(2)[OF that] by simp
  obtain b l where r: "foldl (mount_step s (Some p)) (None, 0) [0 ..< ?n] = (b, l)" by fastforce
  note L = find_mount_loop[where s = s and path = "Some p" and n = ?n, unfolded r]
  show ?thesis
  proof (cases b)
    case None
    then show ?thesis using L r m(1) c by (simp add: VfsFindMount_def)
  next
    case (Some a)
    with L have a: "a < ?n" "PathHasPrefix (Some p) (mnt_path (fs_Mounts s ! a))"
      "\<And>i. i < ?n \<Longrightarrow> mnt_active (fs_Mounts s ! i) \<and> PathHasPrefix (Some p) (mnt_path (fs_Mounts s ! i)) \<Longrightarrow>
         StringLength (mnt_path (fs_Mounts s ! i)) \<le> StringLength (mnt_path (fs_Mounts s ! a))"
      "\<And>i. i < a \<Longrightarrow> mnt_active (fs_Mounts s ! i) \<and> PathHasPrefix (Some p) (mnt_path (fs_Mounts s ! i)) \<Longrightarrow>
         StringLength (mnt_path (fs_Mounts s ! i)) < StringLength (mnt_path (fs_Mounts s ! a))"
      by simp_all
    have "length (mount_name s i) \<le> length (mount_name s a)" if "i < ?n" "path_under (mount_name s i) p" for i
      using a(3)[OF that(1)] c[OF that(1)] m(1)[OF that(1)] len[OF that(1)] len[OF a(1)] that(2) by simp
    moreover have "length (mount_name s i) < length (mount_name s a)" if "i < a" "path_under (mount_name s i) p" for i
    proof -
      have i: "i < ?n" using that(1) a(1) by simp
      show ?thesis using a(4)[OF that(1)] c[OF i] m(1)[OF i] len[OF i] len[OF a(1)] that(2) by simp
    qed
    moreover have "path_under (mount_name s a) p" using a(2) c[OF a(1)] by simp
    moreover have "VfsFindMount s (Some p) = Some a" using r Some by (simp add: VfsFindMount_def)
    ultimately show ?thesis using a(1) by simp
  qed
qed

subsection \<open>The well-formed tables\<close>

definition fs_ok :: "FsState \<Rightarrow> bool" where
  "fs_ok s \<longleftrightarrow>
     length (fs_Drivers s) = 9 \<and> unat (registered_driver_count (fs_Status s)) \<le> 9 \<and>
     length (fs_Mounts s) = 12 \<and> unat (mounted_filesystem_count (fs_Status s)) \<le> 12 \<and>
     length (fs_RamFsNodes s) = 16 \<and> unat (ramfs_node_count (fs_Status s)) \<le> 16 \<and>
     length (fs_PseudoFsNodes s) = 24 \<and> unat (pseudo_node_count (fs_Status s)) \<le> 24 \<and>
     list_all (\<lambda>d. drv_name d \<noteq> None \<and> drv_Probe d \<noteq> None) (take (unat (registered_driver_count (fs_Status s))) (fs_Drivers s)) \<and>
     list_all (\<lambda>m. mnt_active m \<and> mnt_path m \<noteq> None \<and> mnt_type m \<noteq> UnknownFs)
       (take (unat (mounted_filesystem_count (fs_Status s))) (fs_Mounts s)) \<and>
     list_all (\<lambda>n. vn_active n \<and> vn_path n \<noteq> None \<and> vn_type n = RamFs \<and> vn_symlink n = (vn_symlink_target n \<noteq> None))
       (take (unat (ramfs_node_count (fs_Status s))) (fs_RamFsNodes s)) \<and>
     list_all (\<lambda>n. pn_active n \<and> pn_path n \<noteq> None \<and> pn_type n \<noteq> UnknownFs)
       (take (unat (pseudo_node_count (fs_Status s))) (fs_PseudoFsNodes s))"

lemmas fs_limits = kMaxFsDrivers_def kMaxMounts_def kMaxRamFsNodes_def kMaxPseudoFsNodes_def

lemma Reset_ok: "fs_ok (ResetFileSystemStatus s)"
  by (simp add: fs_ok_def ResetFileSystemStatus_def no_fs_status_def fs_limits)

lemma Register_ok:
  assumes "fs_ok s" "VfsRegisterDriver name t pr s = (b, s')"
  shows "fs_ok s'"
proof (cases "name = None \<or> pr = None \<or> registered_driver_count (fs_Status s) \<ge> kMaxFsDrivers")
  case True
  then show ?thesis using assms by (simp add: VfsRegisterDriver_def Let_def)
next
  case False
  then have n: "unat (registered_driver_count (fs_Status s)) < 9"
    by (simp add: kMaxFsDrivers_def word_le_nat_alt)
  then have "unat (registered_driver_count (fs_Status s) + 1) = Suc (unat (registered_driver_count (fs_Status s)))"
    by (simp add: unat_Suc_u32)
  then show ?thesis
    using assms False n by (auto simp: VfsRegisterDriver_def Let_def upd_fs_status_def fs_ok_def take_next_entry)
qed

lemma MountPath_ok:
  assumes "fs_ok s" "VfsMountPath path t s = (b, s')"
  shows "fs_ok s'"
proof (cases "path = None \<or> t = UnknownFs \<or> mounted_filesystem_count (fs_Status s) \<ge> kMaxMounts")
  case True
  then show ?thesis using assms by (simp add: VfsMountPath_def Let_def)
next
  case False
  then have n: "unat (mounted_filesystem_count (fs_Status s)) < 12"
    by (simp add: kMaxMounts_def word_le_nat_alt)
  then have "unat (mounted_filesystem_count (fs_Status s) + 1) = Suc (unat (mounted_filesystem_count (fs_Status s)))"
    by (simp add: unat_Suc_u32)
  then show ?thesis
    using assms False n by (auto simp: VfsMountPath_def Let_def upd_fs_status_def fs_ok_def take_next_entry)
qed

lemma RamFsAddNode_ok:
  assumes "fs_ok s" "RamFsAddNode path m d t s = (b, s')"
  shows "fs_ok s'"
proof (cases "path = None \<or> ramfs_node_count (fs_Status s) \<ge> kMaxRamFsNodes")
  case True
  then show ?thesis using assms by (simp add: RamFsAddNode_def Let_def)
next
  case False
  then have n: "unat (ramfs_node_count (fs_Status s)) < 16"
    by (simp add: kMaxRamFsNodes_def word_le_nat_alt)
  then have "unat (ramfs_node_count (fs_Status s) + 1) = Suc (unat (ramfs_node_count (fs_Status s)))"
    by (simp add: unat_Suc_u32)
  then show ?thesis
    using assms False n by (auto simp: RamFsAddNode_def Let_def upd_fs_status_def fs_ok_def take_next_entry)
qed

lemma PseudoFsAddNode_ok:
  assumes "fs_ok s" "PseudoFsAddNode path t m d sz ma mi s = (b, s')"
  shows "fs_ok s'"
proof (cases "path = None \<or> t = UnknownFs \<or> pseudo_node_count (fs_Status s) \<ge> kMaxPseudoFsNodes")
  case True
  then show ?thesis using assms by (simp add: PseudoFsAddNode_def Let_def)
next
  case False
  then have n: "unat (pseudo_node_count (fs_Status s)) < 24"
    by (simp add: kMaxPseudoFsNodes_def word_le_nat_alt)
  then have "unat (pseudo_node_count (fs_Status s) + 1) = Suc (unat (pseudo_node_count (fs_Status s)))"
    by (simp add: unat_Suc_u32)
  then show ?thesis
    using assms False n by (auto simp: PseudoFsAddNode_def Let_def upd_fs_status_def fs_ok_def take_next_entry)
qed

subsection \<open>The node tables as append-only maps\<close>

definition ram_lookup :: "FsState \<Rightarrow> string \<Rightarrow> (u16 \<times> bool \<times> cstring) option" where
  "ram_lookup s path = map_option (\<lambda>i. let n = fs_RamFsNodes s ! i in (vn_mode n, vn_directory n, vn_symlink_target n))
     (RamFsFindNode s (Some path))"

definition ram_add :: "FsState \<Rightarrow> string \<Rightarrow> u16 \<times> bool \<times> cstring \<Rightarrow> FsState option" where
  "ram_add s path v = (case v of (mode, dir, target) \<Rightarrow>
     (case RamFsAddNode (Some path) mode dir target s of (True, s') \<Rightarrow> Some s' | (False, _) \<Rightarrow> None))"

definition pseudo_lookup :: "FsState \<Rightarrow> string \<times> FileSystemType \<Rightarrow> (u16 \<times> bool \<times> u64 \<times> u32 \<times> u32) option" where
  "pseudo_lookup s k = map_option (\<lambda>i. let n = fs_PseudoFsNodes s ! i in
       (pn_mode n, pn_directory n, pn_size n, pn_major n, pn_minor n)) (PseudoFsFindNode s (Some (fst k)) (snd k))"

definition pseudo_add :: "FsState \<Rightarrow> string \<times> FileSystemType \<Rightarrow> u16 \<times> bool \<times> u64 \<times> u32 \<times> u32 \<Rightarrow> FsState option" where
  "pseudo_add s k v = (case v of (mode, dir, sz, major, minor) \<Rightarrow>
     (case PseudoFsAddNode (Some (fst k)) (snd k) mode dir sz major minor s of (True, s') \<Rightarrow> Some s' | (False, _) \<Rightarrow> None))"

definition ram_room :: "FsState \<Rightarrow> nat" where
  "ram_room s = 16 - unat (ramfs_node_count (fs_Status s))"

definition pseudo_room :: "FsState \<Rightarrow> nat" where
  "pseudo_room s = 24 - unat (pseudo_node_count (fs_Status s))"

lemma RamFsAddNode_step:
  fixes s path m d target
  assumes "fs_ok s" "0 < ram_room s"
  defines "n \<equiv> unat (ramfs_node_count (fs_Status s))"
  defines "node \<equiv> \<lparr>vn_path = Some path, vn_symlink_target = target, vn_type = RamFs, vn_mode = m,
              vn_directory = d, vn_symlink = (target \<noteq> None), vn_active = True\<rparr>"
  obtains s' where "RamFsAddNode (Some path) m d target s = (True, s')" "fs_ok s'" "ram_room s' = ram_room s - 1"
    "take (unat (ramfs_node_count (fs_Status s'))) (fs_RamFsNodes s') = take n (fs_RamFsNodes s) @ [node]"
    "s' = s\<lparr>fs_RamFsNodes := fs_RamFsNodes s', fs_Status := (fs_Status s)\<lparr>ramfs_node_count := ramfs_node_count (fs_Status s) + 1\<rparr>\<rparr>"
proof -
  have n: "n < 16" "\<not> ramfs_node_count (fs_Status s) \<ge> kMaxRamFsNodes"
    using assms(2) by (simp_all add: ram_room_def n_def kMaxRamFsNodes_def word_le_nat_alt)
  then have c: "unat (ramfs_node_count (fs_Status s) + 1) = Suc n" by (simp add: unat_Suc_u32 n_def)
  obtain b s' where r: "RamFsAddNode (Some path) m d target s = (b, s')" by fastforce
  then have s': "b" "s' = s\<lparr>fs_RamFsNodes := (fs_RamFsNodes s)[n := node],
      fs_Status := (fs_Status s)\<lparr>ramfs_node_count := ramfs_node_count (fs_Status s) + 1\<rparr>\<rparr>"
    using n by (simp_all add: RamFsAddNode_def Let_def upd_fs_status_def n_def node_def)
  have "length (fs_RamFsNodes s) = 16" using assms(1) by (simp add: fs_ok_def)
  then show ?thesis
    using that[of s'] r s' c n RamFsAddNode_ok[OF assms(1) r]
    by (simp add: ram_room_def n_def take_next_entry)
qed

lemma PseudoFsAddNode_step:
  fixes s path t m d sz ma mi
  assumes "fs_ok s" "0 < pseudo_room s" "t \<noteq> UnknownFs"
  defines "n \<equiv> unat (pseudo_node_count (fs_Status s))"
  defines "node \<equiv> \<lparr>pn_path = Some path, pn_type = t, pn_mode = m, pn_size = sz, pn_major = ma, pn_minor = mi,
              pn_directory = d, pn_active = True\<rparr>"
  obtains s' where "PseudoFsAddNode (Some path) t m d sz ma mi s = (True, s')" "fs_ok s'" "pseudo_room s' = pseudo_room s - 1"
    "take (unat (pseudo_node_count (fs_Status s'))) (fs_PseudoFsNodes s') = take n (fs_PseudoFsNodes s) @ [node]"
    "s' = s\<lparr>fs_PseudoFsNodes := fs_PseudoFsNodes s', fs_Status := (fs_Status s)\<lparr>pseudo_node_count := pseudo_node_count (fs_Status s) + 1\<rparr>\<rparr>"
proof -
  have n: "n < 24" "\<not> pseudo_node_count (fs_Status s) \<ge> kMaxPseudoFsNodes"
    using assms(2) by (simp_all add: pseudo_room_def n_def kMaxPseudoFsNodes_def word_le_nat_alt)
  then have c: "unat (pseudo_node_count (fs_Status s) + 1) = Suc n" by (simp add: unat_Suc_u32 n_def)
  obtain b s' where r: "PseudoFsAddNode (Some path) t m d sz ma mi s = (b, s')" by fastforce
  then have s': "b" "s' = s\<lparr>fs_PseudoFsNodes := (fs_PseudoFsNodes s)[n := node],
      fs_Status := (fs_Status s)\<lparr>pseudo_node_count := pseudo_node_count (fs_Status s) + 1\<rparr>\<rparr>"
    using n assms(3) by (simp_all add: PseudoFsAddNode_def Let_def upd_fs_status_def n_def node_def)
  have "length (fs_PseudoFsNodes s) = 24" using assms(1) by (simp add: fs_ok_def)
  then show ?thesis
    using that[of s'] r s' c n PseudoFsAddNode_ok[OF assms(1) r]
    by (simp add: pseudo_room_def n_def take_next_entry)
qed

lemma find_in_fill:
  "find_index P (take k ys) = Some i \<Longrightarrow> ys ! i = take k ys ! i"
  using find_indexD(1) by fastforce

lemma ram_lookup_take:
  "ram_lookup s path = map_option (\<lambda>i. let n = take (unat (ramfs_node_count (fs_Status s))) (fs_RamFsNodes s) ! i in
       (vn_mode n, vn_directory n, vn_symlink_target n))
     (find_index (\<lambda>node. vn_active node \<and> StringEquals (vn_path node) (Some path))
       (take (unat (ramfs_node_count (fs_Status s))) (fs_RamFsNodes s)))"
  by (auto simp: ram_lookup_def RamFsFindNode_def dest: find_in_fill intro!: map_option_cong)

lemma pseudo_lookup_take:
  "pseudo_lookup s k = map_option (\<lambda>i. let n = take (unat (pseudo_node_count (fs_Status s))) (fs_PseudoFsNodes s) ! i in
       (pn_mode n, pn_directory n, pn_size n, pn_major n, pn_minor n))
     (find_index (\<lambda>node. pn_active node \<and> pn_type node = snd k \<and> StringEquals (pn_path node) (Some (fst k)))
       (take (unat (pseudo_node_count (fs_Status s))) (fs_PseudoFsNodes s)))"
  by (auto simp: pseudo_lookup_def PseudoFsFindNode_def dest: find_in_fill intro!: map_option_cong)

lemma lookup_snoc:
  "map_option (\<lambda>i. f ((xs @ [v]) ! i)) (find_index P (xs @ [v])) =
     (case map_option (\<lambda>i. f (xs ! i)) (find_index P xs) of Some y \<Rightarrow> Some y | None \<Rightarrow> if P v then Some (f v) else None)"
  by (auto simp: find_index_append find_index_nth_append nth_append dest: find_indexD split: option.split)

lemma ram_add_full: "ram_room s = 0 \<Longrightarrow> ram_add s path v = None"
proof -
  assume "ram_room s = 0"
  then have "ramfs_node_count (fs_Status s) \<ge> kMaxRamFsNodes"
    by (simp add: ram_room_def kMaxRamFsNodes_def word_le_nat_alt)
  then show "ram_add s path v = None" by (simp add: ram_add_def RamFsAddNode_def Let_def split: prod.split)
qed

lemma ram_add_room:
  assumes "fs_ok s" "0 < ram_room s"
  shows "\<exists>s'. ram_add s path v = Some s' \<and> fs_ok s' \<and> ram_room s' = ram_room s - 1 \<and>
        (\<forall>l. ram_lookup s' l = (if l = path \<and> ram_lookup s path = None then Some v else ram_lookup s l))"
proof -
  obtain m d t where v: "v = (m, d, t)" by (metis surj_pair)
  from RamFsAddNode_step[OF assms, of path m d t] obtain s' where s':
      "RamFsAddNode (Some path) m d t s = (True, s')" "fs_ok s'" "ram_room s' = ram_room s - 1"
      "take (unat (ramfs_node_count (fs_Status s'))) (fs_RamFsNodes s') =
        take (unat (ramfs_node_count (fs_Status s))) (fs_RamFsNodes s) @
        [\<lparr>vn_path = Some path, vn_symlink_target = t, vn_type = RamFs, vn_mode = m,
              vn_directory = d, vn_symlink = (t \<noteq> None), vn_active = True\<rparr>]" by metis
  have "ram_lookup s' l = (if l = path \<and> ram_lookup s path = None then Some v else ram_lookup s l)" for l
    unfolding ram_lookup_take s'(4) Let_def lookup_snoc[where f = "\<lambda>n. (vn_mode n, vn_directory n, vn_symlink_target n)"]
    by (auto simp: v split: option.split)
  then show ?thesis using s'(1-3) by (simp add: ram_add_def v)
qed

interpretation ram_nodes: append_table fs_ok ram_room "\<lambda>_. True" ram_lookup ram_add
  by unfold_locales (simp add: ram_add_full, rule ram_add_room)

lemma pseudo_add_full: "pseudo_room s = 0 \<or> snd k = UnknownFs \<Longrightarrow> pseudo_add s k v = None"
proof -
  assume "pseudo_room s = 0 \<or> snd k = UnknownFs"
  then have "pseudo_node_count (fs_Status s) \<ge> kMaxPseudoFsNodes \<or> snd k = UnknownFs"
    by (auto simp: pseudo_room_def kMaxPseudoFsNodes_def word_le_nat_alt)
  then show "pseudo_add s k v = None" by (auto simp: pseudo_add_def PseudoFsAddNode_def Let_def split: prod.split)
qed

lemma pseudo_add_room:
  assumes "fs_ok s" "0 < pseudo_room s" "snd k \<noteq> UnknownFs"
  shows "\<exists>s'. pseudo_add s k v = Some s' \<and> fs_ok s' \<and> pseudo_room s' = pseudo_room s - 1 \<and>
        (\<forall>l. pseudo_lookup s' l = (if l = k \<and> pseudo_lookup s k = None then Some v else pseudo_lookup s l))"
proof -
  obtain m d sz ma mi where v: "v = (m, d, sz, ma, mi)" by (metis surj_pair)
  obtain path t where k: "k = (path, t)" by (metis surj_pair)
  from assms(3) have t: "t \<noteq> UnknownFs" by (simp add: k)
  from PseudoFsAddNode_step[OF assms(1,2) t, of path m d sz ma mi] obtain s' where s':
      "PseudoFsAddNode (Some path) t m d sz ma mi s = (True, s')" "fs_ok s'" "pseudo_room s' = pseudo_room s - 1"
      "take (unat (pseudo_node_count (fs_Status s'))) (fs_PseudoFsNodes s') =
        take (unat (pseudo_node_count (fs_Status s))) (fs_PseudoFsNodes s) @
        [\<lparr>pn_path = Some path, pn_type = t, pn_mode = m, pn_size = sz, pn_major = ma, pn_minor = mi,
              pn_directory = d, pn_active = True\<rparr>]" by metis
  have "pseudo_lookup s' l = (if l = k \<and> pseudo_lookup s k = None then Some v else pseudo_lookup s l)" for l
    unfolding pseudo_lookup_take s'(4) Let_def
      lookup_snoc[where f = "\<lambda>n. (pn_mode n, pn_directory n, pn_size n, pn_major n, pn_minor n)"]
    by (cases l) (auto simp: v k split: option.split)
  then show ?thesis using s'(1-3) by (simp add: pseudo_add_def v k)
qed

interpretation pseudo_nodes: append_table fs_ok pseudo_room "\<lambda>k. snd k \<noteq> UnknownFs" pseudo_lookup pseudo_add
  by unfold_locales (rule pseudo_add_full, simp, rule pseudo_add_room)

subsection \<open>The self-tests succeed\<close>

text \<open>What adding pseudo nodes leaves alone.\<close>

definition pseudo_only :: "FsState \<Rightarrow> FsState \<Rightarrow> bool" where
  "pseudo_only s s' \<longleftrightarrow> (\<exists>xs n k. s' = s\<lparr>fs_PseudoFsNodes := xs,
     fs_Status := (fs_Status s)\<lparr>pseudo_node_count := n, initramfs_file_count := k\<rparr>\<rparr>)"

lemma pseudo_only_refl: "pseudo_only s s"
  unfolding pseudo_only_def by (rule exI[of _ "fs_PseudoFsNodes s"], rule exI[of _ "pseudo_node_count (fs_Status s)"],
    rule exI[of _ "initramfs_file_count (fs_Status s)"]) simp

lemma pseudo_only_trans: "pseudo_only s t \<Longrightarrow> pseudo_only t u \<Longrightarrow> pseudo_only s u"
  unfolding pseudo_only_def by force

text \<open>\<open>s'\<close> is \<open>s\<close> with one more node, which nothing older hides.\<close>

definition node_added :: "FsState \<Rightarrow> string \<Rightarrow> FileSystemType \<Rightarrow> u16 \<times> bool \<times> u64 \<times> u32 \<times> u32 \<Rightarrow> FsState \<Rightarrow> bool" where
  "node_added s p t v s' \<longleftrightarrow> fs_ok s' \<and> pseudo_room s' = pseudo_room s - 1 \<and>
     pseudo_lookup s' = (pseudo_lookup s)((p, t) \<mapsto> v) \<and> pseudo_only s s' \<and>
     pseudo_node_count (fs_Status s') = pseudo_node_count (fs_Status s) + 1 \<and>
     initramfs_file_count (fs_Status s') = initramfs_file_count (fs_Status s)"

lemma add_node:
  assumes "fs_ok s" "0 < pseudo_room s" "t \<noteq> UnknownFs" "pseudo_lookup s (p, t) = None"
  shows "\<exists>s'. PseudoFsAddNode (Some p) t m d sz ma mi s = (True, s') \<and> node_added s p t (m, d, sz, ma, mi) s'"
proof -
  from PseudoFsAddNode_step[OF assms(1-3), of p m d sz ma mi] obtain s' where s':
    "PseudoFsAddNode (Some p) t m d sz ma mi s = (True, s')" "fs_ok s'" "pseudo_room s' = pseudo_room s - 1"
    "s' = s\<lparr>fs_PseudoFsNodes := fs_PseudoFsNodes s', fs_Status := (fs_Status s)\<lparr>pseudo_node_count := pseudo_node_count (fs_Status s) + 1\<rparr>\<rparr>"
    by metis
  have "pseudo_add s (p, t) (m, d, sz, ma, mi) = Some s'" using s'(1) by (simp add: pseudo_add_def)
  then have "pseudo_lookup s' = (pseudo_lookup s)((p, t) \<mapsto> (m, d, sz, ma, mi))"
    using pseudo_add_room[OF assms(1,2), of "(p, t)" "(m, d, sz, ma, mi)"] assms(3,4) by auto
  moreover have "pseudo_only s s'"
    unfolding pseudo_only_def
    by (rule exI[of _ "fs_PseudoFsNodes s'"], rule exI[of _ "pseudo_node_count (fs_Status s) + 1"],
      rule exI[of _ "initramfs_file_count (fs_Status s)"]) (subst s'(4), simp)
  moreover have "pseudo_node_count (fs_Status s') = pseudo_node_count (fs_Status s) + 1"
    "initramfs_file_count (fs_Status s') = initramfs_file_count (fs_Status s)" by (subst s'(4), simp)+
  ultimately show ?thesis using s'(1-3) by (simp add: node_added_def)
qed

lemma found_pseudo:
  assumes "pseudo_lookup s (p, t) = Some (m, d, sz, ma, mi)"
    and "\<And>n. pn_mode n = m \<Longrightarrow> pn_directory n = d \<Longrightarrow> pn_size n = sz \<Longrightarrow> pn_major n = ma \<Longrightarrow> pn_minor n = mi \<Longrightarrow> P n"
  shows "found (fs_PseudoFsNodes s) (PseudoFsFindNode s (Some p) t) P"
  using assms by (auto simp: pseudo_lookup_def found_def Let_def)

definition fs_type_free :: "FsState \<Rightarrow> FileSystemType \<Rightarrow> bool" where
  "fs_type_free s t \<longleftrightarrow> (\<forall>p. pseudo_lookup s (p, t) = None)"

definition added_only :: "nat \<Rightarrow> FileSystemType \<Rightarrow> FsState \<Rightarrow> FsState \<Rightarrow> bool" where
  "added_only k t s s' \<longleftrightarrow> fs_ok s' \<and> pseudo_only s s' \<and> pseudo_room s' = pseudo_room s - k \<and>
     (\<forall>u. u \<noteq> t \<longrightarrow> fs_type_free s u \<longrightarrow> fs_type_free s' u) \<and>
     (t \<noteq> InitRamFs \<longrightarrow> initramfs_file_count (fs_Status s') = initramfs_file_count (fs_Status s))"

lemma added_by: "node_added s p t v s' \<Longrightarrow> added_only 1 t s s'"
  by (auto simp: node_added_def added_only_def fs_type_free_def)

lemma added_trans: "added_only j t s s' \<Longrightarrow> added_only k t s' s'' \<Longrightarrow> added_only (j + k) t s s''"
  by (auto simp: added_only_def intro: pseudo_only_trans)

lemma added2: "node_added s p t v s1 \<Longrightarrow> node_added s1 q t w s2 \<Longrightarrow> added_only 2 t s s2"
  using added_trans[OF added_by added_by] by (simp add: numeral_2_eq_2)

lemma added3: "node_added s p t v s1 \<Longrightarrow> node_added s1 q t w s2 \<Longrightarrow> node_added s2 r t x s3 \<Longrightarrow> added_only 3 t s s3"
  using added_trans[OF added2 added_by] by fastforce

lemmas node_test = found_pseudo HasMode_def mode_of_def

lemma RunTmpFsSelfTest_passes:
  assumes "fs_ok s" "2 \<le> pseudo_room s" "fs_type_free s TmpFs"
  shows "\<exists>s'. RunTmpFsSelfTest s = (True, s') \<and> added_only 2 TmpFs s s'"
proof -
  let ?m1 = "mode_of [Directory, OwnerRead, OwnerWrite, OwnerExecute]" and ?m2 = "mode_of [Regular, OwnerRead, OwnerWrite]"
  obtain s1 where 1: "PseudoFsAddNode (Some ''/tmp'') TmpFs ?m1 True 0 0 0 s = (True, s1)"
    "node_added s ''/tmp'' TmpFs (?m1, True, 0, 0, 0) s1"
    using add_node[of s TmpFs "''/tmp''"] assms by (fastforce simp: fs_type_free_def)
  obtain s2 where 2: "PseudoFsAddNode (Some ''/tmp/session.sock'') TmpFs ?m2 False 0 0 0 s1 = (True, s2)"
    "node_added s1 ''/tmp/session.sock'' TmpFs (?m2, False, 0, 0, 0) s2"
    using add_node[of s1 TmpFs "''/tmp/session.sock''"] assms 1(2) by (fastforce simp: fs_type_free_def node_added_def)
  have "found (fs_PseudoFsNodes s2) (PseudoFsFindNode s2 (Some ''/tmp'') TmpFs) pn_directory"
    by (rule found_pseudo[of _ _ _ ?m1 True 0 0 0]) (use 1 2 in \<open>simp_all add: node_added_def\<close>)
  moreover have "found (fs_PseudoFsNodes s2) (PseudoFsFindNode s2 (Some ''/tmp/session.sock'') TmpFs)
      (\<lambda>n. \<not> pn_directory n \<and> HasMode (pn_mode n) (mode_value OwnerWrite))"
    by (rule found_pseudo[of _ _ _ ?m2 False 0 0 0]) (use 2 in \<open>simp_all add: node_added_def HasMode_def mode_of_def\<close>)
  ultimately have "RunTmpFsSelfTest s = (True, s2)"
    using 1 2 by (simp add: RunTmpFsSelfTest_def node_added_def)
  then show ?thesis using added2[OF 1(2) 2(2)] by blast
qed

lemma RunProcFsSelfTest_passes:
  assumes "fs_ok s" "3 \<le> pseudo_room s" "fs_type_free s ProcFs"
  shows "\<exists>s'. RunProcFsSelfTest s = (True, s') \<and> added_only 3 ProcFs s s'"
proof -
  let ?m1 = "mode_of [Directory, OwnerRead, OwnerExecute, GroupRead, GroupExecute, OtherRead, OtherExecute]" and ?m2 = "mode_of [Regular, OwnerRead, GroupRead, OtherRead]" and ?m3 = "mode_of [Regular, OwnerRead, GroupRead, OtherRead]"
  obtain s1 where 1: "PseudoFsAddNode (Some ''/proc'') ProcFs ?m1 True 0 0 0 s = (True, s1)"
    "node_added s ''/proc'' ProcFs (?m1, True, 0, 0, 0) s1"
    using add_node[of s ProcFs "''/proc''"] assms  by (fastforce simp: fs_type_free_def node_added_def)
  obtain s2 where 2: "PseudoFsAddNode (Some ''/proc/cpuinfo'') ProcFs ?m2 False 128 0 0 s1 = (True, s2)"
    "node_added s1 ''/proc/cpuinfo'' ProcFs (?m2, False, 128, 0, 0) s2"
    using add_node[of s1 ProcFs "''/proc/cpuinfo''"] assms 1(2) by (fastforce simp: fs_type_free_def node_added_def)
  obtain s3 where 3: "PseudoFsAddNode (Some ''/proc/meminfo'') ProcFs ?m3 False 96 0 0 s2 = (True, s3)"
    "node_added s2 ''/proc/meminfo'' ProcFs (?m3, False, 96, 0, 0) s3"
    using add_node[of s2 ProcFs "''/proc/meminfo''"] assms 1(2) 2(2) by (fastforce simp: fs_type_free_def node_added_def)
  have "found (fs_PseudoFsNodes s3) (PseudoFsFindNode s3 (Some ''/proc/cpuinfo'') ProcFs) (\<lambda>n. pn_size n \<noteq> 0 \<and> \<not> pn_directory n)"
    by (rule found_pseudo[of _ _ _ ?m2 False 128 0 0]) (use 1(2) 2(2) 3(2) in \<open>simp_all add: node_added_def\<close>)
  moreover have "found (fs_PseudoFsNodes s3) (PseudoFsFindNode s3 (Some ''/proc/meminfo'') ProcFs) (\<lambda>n. pn_size n \<noteq> 0)"
    by (rule found_pseudo[of _ _ _ ?m3 False 96 0 0]) (use 1(2) 2(2) 3(2) in \<open>simp_all add: node_added_def\<close>)
  ultimately have "RunProcFsSelfTest s = (True, s3)"
    using 1(1) 2(1) 3(1) by (simp add: RunProcFsSelfTest_def Let_def)
  then show ?thesis using added3[OF 1(2) 2(2) 3(2)] by blast
qed

lemma RunDevFsSelfTest_passes:
  assumes "fs_ok s" "3 \<le> pseudo_room s" "fs_type_free s DevFs"
  shows "\<exists>s'. RunDevFsSelfTest s = (True, s') \<and> added_only 3 DevFs s s'"
proof -
  let ?m1 = "mode_of [Directory, OwnerRead, OwnerWrite, OwnerExecute, GroupRead, GroupExecute, OtherRead, OtherExecute]" and ?m2 = "mode_of [Regular, OwnerRead, OwnerWrite, GroupWrite]" and ?m3 = "mode_of [Regular, OwnerRead, OwnerWrite, GroupRead, GroupWrite, OtherRead, OtherWrite]"
  obtain s1 where 1: "PseudoFsAddNode (Some ''/dev'') DevFs ?m1 True 0 0 0 s = (True, s1)"
    "node_added s ''/dev'' DevFs (?m1, True, 0, 0, 0) s1"
    using add_node[of s DevFs "''/dev''"] assms  by (fastforce simp: fs_type_free_def node_added_def)
  obtain s2 where 2: "PseudoFsAddNode (Some ''/dev/console'') DevFs ?m2 False 0 5 1 s1 = (True, s2)"
    "node_added s1 ''/dev/console'' DevFs (?m2, False, 0, 5, 1) s2"
    using add_node[of s1 DevFs "''/dev/console''"] assms 1(2) by (fastforce simp: fs_type_free_def node_added_def)
  obtain s3 where 3: "PseudoFsAddNode (Some ''/dev/null'') DevFs ?m3 False 0 1 3 s2 = (True, s3)"
    "node_added s2 ''/dev/null'' DevFs (?m3, False, 0, 1, 3) s3"
    using add_node[of s2 DevFs "''/dev/null''"] assms 1(2) 2(2) by (fastforce simp: fs_type_free_def node_added_def)
  have "found (fs_PseudoFsNodes s3) (PseudoFsFindNode s3 (Some ''/dev/console'') DevFs) (\<lambda>n. pn_major n = 5 \<and> pn_minor n = 1)"
    by (rule found_pseudo[of _ _ _ ?m2 False 0 5 1]) (use 1(2) 2(2) 3(2) in \<open>simp_all add: node_added_def\<close>)
  moreover have "found (fs_PseudoFsNodes s3) (PseudoFsFindNode s3 (Some ''/dev/null'') DevFs) (\<lambda>n. pn_major n = 1 \<and> pn_minor n = 3)"
    by (rule found_pseudo[of _ _ _ ?m3 False 0 1 3]) (use 1(2) 2(2) 3(2) in \<open>simp_all add: node_added_def\<close>)
  ultimately have "RunDevFsSelfTest s = (True, s3)"
    using 1(1) 2(1) 3(1) by (simp add: RunDevFsSelfTest_def Let_def)
  then show ?thesis using added3[OF 1(2) 2(2) 3(2)] by blast
qed

lemma RunSysFsSelfTest_passes:
  assumes "fs_ok s" "3 \<le> pseudo_room s" "fs_type_free s SysFs"
  shows "\<exists>s'. RunSysFsSelfTest s = (True, s') \<and> added_only 3 SysFs s s'"
proof -
  let ?m1 = "mode_of [Directory, OwnerRead, OwnerExecute, GroupRead, GroupExecute, OtherRead, OtherExecute]" and ?m2 = "mode_of [Directory, OwnerRead, OwnerExecute, GroupRead, GroupExecute, OtherRead, OtherExecute]" and ?m3 = "mode_of [Regular, OwnerRead, GroupRead, OtherRead]"
  obtain s1 where 1: "PseudoFsAddNode (Some ''/sys'') SysFs ?m1 True 0 0 0 s = (True, s1)"
    "node_added s ''/sys'' SysFs (?m1, True, 0, 0, 0) s1"
    using add_node[of s SysFs "''/sys''"] assms  by (fastforce simp: fs_type_free_def node_added_def)
  obtain s2 where 2: "PseudoFsAddNode (Some ''/sys/kernel'') SysFs ?m2 True 0 0 0 s1 = (True, s2)"
    "node_added s1 ''/sys/kernel'' SysFs (?m2, True, 0, 0, 0) s2"
    using add_node[of s1 SysFs "''/sys/kernel''"] assms 1(2) by (fastforce simp: fs_type_free_def node_added_def)
  obtain s3 where 3: "PseudoFsAddNode (Some ''/sys/kernel/version'') SysFs ?m3 False 32 0 0 s2 = (True, s3)"
    "node_added s2 ''/sys/kernel/version'' SysFs (?m3, False, 32, 0, 0) s3"
    using add_node[of s2 SysFs "''/sys/kernel/version''"] assms 1(2) 2(2) by (fastforce simp: fs_type_free_def node_added_def)
  have "found (fs_PseudoFsNodes s3) (PseudoFsFindNode s3 (Some ''/sys/kernel'') SysFs) pn_directory"
    by (rule found_pseudo[of _ _ _ ?m2 True 0 0 0]) (use 1(2) 2(2) 3(2) in \<open>simp_all add: node_added_def\<close>)
  moreover have "found (fs_PseudoFsNodes s3) (PseudoFsFindNode s3 (Some ''/sys/kernel/version'') SysFs) (\<lambda>n. pn_size n \<noteq> 0)"
    by (rule found_pseudo[of _ _ _ ?m3 False 32 0 0]) (use 1(2) 2(2) 3(2) in \<open>simp_all add: node_added_def\<close>)
  ultimately have "RunSysFsSelfTest s = (True, s3)"
    using 1(1) 2(1) 3(1) by (simp add: RunSysFsSelfTest_def Let_def)
  then show ?thesis using added3[OF 1(2) 2(2) 3(2)] by blast
qed

definition count_file :: "FsState \<Rightarrow> FsState" where
  "count_file = upd_fs_status (\<lambda>st. st\<lparr>initramfs_file_count := initramfs_file_count st + 1\<rparr>)"

lemma count_file [simp]:
  "fs_ok (count_file s) = fs_ok s" "pseudo_room (count_file s) = pseudo_room s"
  "pseudo_lookup (count_file s) = pseudo_lookup s"
  "initramfs_file_count (fs_Status (count_file s)) = initramfs_file_count (fs_Status s) + 1"
  by (auto simp: count_file_def upd_fs_status_def fs_ok_def pseudo_room_def pseudo_lookup_def PseudoFsFindNode_def fun_eq_iff)

lemma pseudo_only_count_file: "pseudo_only s (count_file s)"
  unfolding pseudo_only_def
  by (rule exI[of _ "fs_PseudoFsNodes s"], rule exI[of _ "pseudo_node_count (fs_Status s)"],
    rule exI[of _ "initramfs_file_count (fs_Status s) + 1"]) (simp add: count_file_def upd_fs_status_def)

lemma added_count_file: "added_only k InitRamFs s s' \<Longrightarrow> added_only k InitRamFs s (count_file s')"
  by (auto simp: added_only_def fs_type_free_def intro: pseudo_only_trans[OF _ pseudo_only_count_file])

lemma initramfs_probe_passes:
  "InitRamFsProbe (Some (WriteLe32 (WriteLe32 (replicate 8 0) 0 kInitRamFsMagic) 4 (of_nat (length [a, b])))) 8"
proof -
  let ?d = "WriteLe32 (WriteLe32 (replicate 8 0) 0 kInitRamFsMagic) 4 2"
  have "ReadLe32 ?d 4 = 2" by (rule ReadLe32_WriteLe32) simp
  moreover have "ReadLe32 ?d 0 = ReadLe32 (WriteLe32 (replicate 8 0) 0 kInitRamFsMagic) 0"
    by (simp add: ReadLe32_def)
  moreover have "ReadLe32 (WriteLe32 (replicate 8 0) 0 kInitRamFsMagic) 0 = kInitRamFsMagic"
    by (rule ReadLe32_WriteLe32) simp
  ultimately show ?thesis by (simp add: InitRamFsProbe_def initramfs_header_def)
qed

lemma RunInitRamFsSelfTest_passes:
  assumes "fs_ok s" "3 \<le> pseudo_room s" "fs_type_free s InitRamFs" "initramfs_file_count (fs_Status s) = 0"
  shows "\<exists>s'. RunInitRamFsSelfTest s = (True, s') \<and> added_only 3 InitRamFs s s'"
proof -
  let ?m1 = "mode_of [Directory, OwnerRead, OwnerExecute]" and ?m2 = "mode_of [Regular, OwnerRead, OwnerExecute]"
    and ?m3 = "mode_of [Regular, OwnerRead, GroupRead, OtherRead]"
  obtain s1 where 1: "PseudoFsAddNode (Some ''/initrd'') InitRamFs ?m1 True 0 0 0 s = (True, s1)"
    "node_added s ''/initrd'' InitRamFs (?m1, True, 0, 0, 0) s1"
    using add_node[of s InitRamFs "''/initrd''"] assms by (fastforce simp: fs_type_free_def)
  obtain s2 where 2: "PseudoFsAddNode (Some ''/initrd/init'') InitRamFs ?m2 False 4096 0 0 s1 = (True, s2)"
    "node_added s1 ''/initrd/init'' InitRamFs (?m2, False, 4096, 0, 0) s2"
    using add_node[of s1 InitRamFs "''/initrd/init''"] assms 1(2) by (fastforce simp: fs_type_free_def node_added_def)
  obtain s3 where 3: "PseudoFsAddNode (Some ''/initrd/etc/profile'') InitRamFs ?m3 False 256 0 0 (count_file s2) = (True, s3)"
    "node_added (count_file s2) ''/initrd/etc/profile'' InitRamFs (?m3, False, 256, 0, 0) s3"
    using add_node[of "count_file s2" InitRamFs "''/initrd/etc/profile''"] assms 1(2) 2(2)
    by (fastforce simp: fs_type_free_def node_added_def)
  have "found (fs_PseudoFsNodes (count_file s3)) (PseudoFsFindNode (count_file s3) (Some ''/initrd/init'') InitRamFs) (\<lambda>n. pn_size n = 4096)"
    by (rule found_pseudo[of _ _ _ ?m2 False 4096 0 0]) (use 2(2) 3(2) in \<open>simp_all add: node_added_def\<close>)
  moreover have "found (fs_PseudoFsNodes (count_file s3)) (PseudoFsFindNode (count_file s3) (Some ''/initrd/etc/profile'') InitRamFs) (\<lambda>n. pn_size n = 256)"
    by (rule found_pseudo[of _ _ _ ?m3 False 256 0 0]) (use 3(2) in \<open>simp_all add: node_added_def\<close>)
  moreover have "initramfs_file_count (fs_Status (count_file s3)) = 2"
    using assms(4) 1(2) 2(2) 3(2) by (simp add: node_added_def)
  ultimately have "RunInitRamFsSelfTest s = (True, count_file s3)"
    using 1(1) 2(1) 3(1) initramfs_probe_passes by (simp add: RunInitRamFsSelfTest_def Let_def flip: count_file_def)
  moreover have "added_only 3 InitRamFs s (count_file s3)"
    using added_count_file[OF added_trans[OF added_count_file[OF added2[OF 1(2) 2(2)]] added_by[OF 3(2)]]] by simp
  ultimately show ?thesis by blast
qed

lemma RunFat32ProbeSelfTest_passes: "RunFat32ProbeSelfTest"
proof -
  define s where "s = WriteLe16 (WriteLe32 (WriteLe32 (WriteLe16 (WriteLe16 ((WriteLe16 ((WriteLe16 (replicate 512 0) 11 512)[13 := 8]) 14 32)
     [16 := 2]) 17 0) 22 0) 36 128) 44 2) 510 kFatBootSignature"
  have "ReadLe16 s 510 = kFatBootSignature" unfolding s_def by (rule ReadLe16_WriteLe16) simp
  moreover have "ReadLe16 s 11 = ReadLe16 (WriteLe16 (replicate 512 0) 11 512) 11"
    "ReadLe16 s 14 = ReadLe16 (WriteLe16 ((WriteLe16 (replicate 512 0) 11 512)[13 := 8]) 14 32) 14"
    "ReadLe16 s 17 = ReadLe16 (WriteLe16 (replicate 512 0) 17 0) 17"
    "ReadLe16 s 22 = ReadLe16 (WriteLe16 (replicate 512 0) 22 0) 22"
    "ReadLe32 s 36 = ReadLe32 (WriteLe32 (replicate 512 0) 36 128) 36"
    "ReadLe32 s 44 = ReadLe32 (WriteLe32 (replicate 512 0) 44 2) 44"
    by (simp_all add: s_def ReadLe16_def ReadLe32_def WriteLe16_def WriteLe32_def)
  moreover have "s ! 13 = 8" "s ! 16 = 2" by (simp_all add: s_def)
  moreover have "ReadLe16 (WriteLe16 ((WriteLe16 (replicate 512 0) 11 512)[13 := 8]) 14 32) 14 = 32"
    by (rule ReadLe16_WriteLe16) simp
  ultimately have "Fat32Probe (Some s) 512"
    by (simp add: Fat32Probe_def Let_def ReadLe16_WriteLe16 ReadLe32_WriteLe32 word_le_nat_alt)
  then show ?thesis by (simp add: RunFat32ProbeSelfTest_def s_def)
qed

lemma RunExt2ProbeSelfTest_passes: "RunExt2ProbeSelfTest"
proof -
  define s where "s = WriteLe16 (WriteLe32 (WriteLe32 (replicate 2048 0) 1024 128) 1028 1024) 1080 kExt2Magic"
  have "ReadLe16 s 1080 = kExt2Magic" unfolding s_def by (rule ReadLe16_WriteLe16) simp
  moreover have "ReadLe32 s 1024 = ReadLe32 (WriteLe32 (replicate 2048 0) 1024 128) 1024"
    "ReadLe32 s 1028 = ReadLe32 (WriteLe32 (replicate 2048 0) 1028 1024) 1028"
    by (simp_all add: s_def ReadLe32_def WriteLe16_def WriteLe32_def)
  ultimately have "Ext2Probe (Some s) 2048"
    by (simp add: Ext2Probe_def Let_def ReadLe32_WriteLe32)
  then show ?thesis by (simp add: RunExt2ProbeSelfTest_def s_def)
qed

lemma RunPermissionSelfTest_passes: "RunPermissionSelfTest"
  by (simp add: RunPermissionSelfTest_def HasPermission_def mode_of_def)

lemma found_ram:
  assumes "ram_lookup s p = Some (m, d, t)" "fs_ok s"
    and "\<And>n. vn_mode n = m \<Longrightarrow> vn_directory n = d \<Longrightarrow> vn_symlink_target n = t \<Longrightarrow> vn_symlink n = (t \<noteq> None) \<Longrightarrow> P n"
  shows "found (fs_RamFsNodes s) (RamFsFindNode s (Some p)) P"
proof -
  obtain i where i: "RamFsFindNode s (Some p) = Some i" "vn_mode (fs_RamFsNodes s ! i) = m"
    "vn_directory (fs_RamFsNodes s ! i) = d" "vn_symlink_target (fs_RamFsNodes s ! i) = t"
    using assms(1) by (auto simp: ram_lookup_def Let_def)
  then have "i < length (take (unat (ramfs_node_count (fs_Status s))) (fs_RamFsNodes s))"
    unfolding RamFsFindNode_def by (blast dest: find_indexD)
  then have "vn_symlink (fs_RamFsNodes s ! i) = (t \<noteq> None)"
    using assms(2) i(4) by (auto simp: fs_ok_def list_all_length)
  then show ?thesis using i assms(3) by (simp add: found_def)
qed

definition ram_only :: "FsState \<Rightarrow> FsState \<Rightarrow> bool" where
  "ram_only s s' \<longleftrightarrow> (\<exists>xs n. s' = s\<lparr>fs_RamFsNodes := xs, fs_Status := (fs_Status s)\<lparr>ramfs_node_count := n\<rparr>\<rparr>)"

definition ram_added :: "FsState \<Rightarrow> string \<Rightarrow> u16 \<times> bool \<times> cstring \<Rightarrow> FsState \<Rightarrow> bool" where
  "ram_added s p v s' \<longleftrightarrow> fs_ok s' \<and> ram_room s' = ram_room s - 1 \<and> ram_lookup s' = (ram_lookup s)(p \<mapsto> v) \<and>
     ram_only s s' \<and> ramfs_node_count (fs_Status s') = ramfs_node_count (fs_Status s) + 1"

lemma add_ram_node:
  assumes "fs_ok s" "0 < ram_room s" "ram_lookup s p = None"
  shows "\<exists>s'. RamFsAddNode (Some p) m d t s = (True, s') \<and> ram_added s p (m, d, t) s'"
proof -
  from RamFsAddNode_step[OF assms(1,2), of p m d t] obtain s' where s':
    "RamFsAddNode (Some p) m d t s = (True, s')" "fs_ok s'" "ram_room s' = ram_room s - 1"
    "s' = s\<lparr>fs_RamFsNodes := fs_RamFsNodes s', fs_Status := (fs_Status s)\<lparr>ramfs_node_count := ramfs_node_count (fs_Status s) + 1\<rparr>\<rparr>"
    by metis
  have "ram_add s p (m, d, t) = Some s'" using s'(1) by (simp add: ram_add_def)
  then have "ram_lookup s' = (ram_lookup s)(p \<mapsto> (m, d, t))"
    using ram_add_room[OF assms(1,2), of p "(m, d, t)"] assms(3) by auto
  moreover have "ram_only s s'"
    unfolding ram_only_def
    by (rule exI[of _ "fs_RamFsNodes s'"], rule exI[of _ "ramfs_node_count (fs_Status s) + 1"]) (subst s'(4), simp)
  moreover have "ramfs_node_count (fs_Status s') = ramfs_node_count (fs_Status s) + 1" by (subst s'(4), simp)
  ultimately show ?thesis using s'(1-3) by (simp add: ram_added_def)
qed

lemma ram_only_trans: "ram_only s t \<Longrightarrow> ram_only t u \<Longrightarrow> ram_only s u"
  unfolding ram_only_def by force

lemma RunRamFsSelfTest_passes:
  assumes "fs_ok s" "3 \<le> ram_room s" "ram_lookup s = Map.empty"
  shows "\<exists>s' m n. RunRamFsSelfTest s = (True, s') \<and> fs_ok s' \<and> ram_only s s' \<and> 1 \<le> ram_room s' \<and>
    ram_lookup s' = [''/ram'' \<mapsto> m, ''/ram/readme'' \<mapsto> n]"
proof -
  let ?m1 = "mode_of [Directory, OwnerRead, OwnerWrite, OwnerExecute]"
    and ?m2 = "mode_of [Regular, OwnerRead, OwnerWrite, GroupRead, OtherRead]"
  obtain s1 where 1: "RamFsAddNode (Some ''/ram'') ?m1 True None s = (True, s1)" "ram_added s ''/ram'' (?m1, True, None) s1"
    using add_ram_node[of s "''/ram''"] assms by fastforce
  obtain s2 where 2: "RamFsAddNode (Some ''/ram/readme'') ?m2 False None s1 = (True, s2)" "ram_added s1 ''/ram/readme'' (?m2, False, None) s2"
    using add_ram_node[of s1 "''/ram/readme''"] assms 1(2) by (fastforce simp: ram_added_def)
  have "found (fs_RamFsNodes s2) (RamFsFindNode s2 (Some ''/ram'')) vn_directory"
    by (rule found_ram[of _ _ ?m1 True None]) (use 1(2) 2(2) in \<open>simp_all add: ram_added_def\<close>)
  moreover have "found (fs_RamFsNodes s2) (RamFsFindNode s2 (Some ''/ram/readme''))
      (\<lambda>n. \<not> vn_directory n \<and> HasPermission n (mode_value OwnerRead))"
    by (rule found_ram[of _ _ ?m2 False None]) (use 1(2) 2(2) in \<open>simp_all add: ram_added_def HasPermission_def mode_of_def\<close>)
  ultimately have "RunRamFsSelfTest s = (True, s2)"
    using 1 2 by (simp add: RunRamFsSelfTest_def ram_added_def)
  moreover have "fs_ok s2" "ram_only s s2" "1 \<le> ram_room s2" "ram_lookup s2 = [''/ram'' \<mapsto> (?m1, True, None), ''/ram/readme'' \<mapsto> (?m2, False, None)]"
    using 1(2) 2(2) assms(2,3) ram_only_trans by (auto simp: ram_added_def)
  ultimately show ?thesis by blast
qed

lemma RunSymlinkSelfTest_passes:
  assumes "fs_ok s" "1 \<le> ram_room s" "ram_lookup s ''/ram/latest'' = None" "ram_lookup s ''/ram/readme'' \<noteq> None"
  shows "\<exists>s'. RunSymlinkSelfTest s = (True, s') \<and> fs_ok s' \<and> ram_only s s'"
proof -
  let ?m = "mode_of [Symlink, OwnerRead, GroupRead, OtherRead]"
  obtain s1 where 1: "RamFsAddNode (Some ''/ram/latest'') ?m False (Some ''/ram/readme'') s = (True, s1)"
    "ram_added s ''/ram/latest'' (?m, False, Some ''/ram/readme'') s1"
    using add_ram_node[of s "''/ram/latest''"] assms by fastforce
  have "RamFsFindNode s1 (Some ''/ram/readme'') \<noteq> None"
    using 1(2) assms(4) by (auto simp: ram_added_def ram_lookup_def[of s1] dest!: fun_cong[of _ _ "''/ram/readme''"])
  then have "found (fs_RamFsNodes s1) (RamFsFindNode s1 (Some ''/ram/latest''))
      (\<lambda>link. vn_symlink link \<and> StringEquals (vn_symlink_target link) (Some ''/ram/readme'') \<and>
         RamFsFindNode s1 (vn_symlink_target link) \<noteq> None)"
    by (intro found_ram[of _ _ ?m False "Some ''/ram/readme''"]) (use 1(2) in \<open>simp_all add: ram_added_def\<close>)
  then have "RunSymlinkSelfTest s = (True, s1)" using 1(1) by (simp add: RunSymlinkSelfTest_def)
  then show ?thesis using 1(2) by (auto simp: ram_added_def)
qed

subsection \<open>Boot\<close>

text \<open>The drivers and mounts of a boot, from \<open>g_Status.vfs_ready = ...\<close> to the last mount.\<close>

definition fs_boot_tables :: "FsState \<Rightarrow> FsState" where
  "fs_boot_tables s =
     (let s = ResetFileSystemStatus s;
          (ready, s) = register_drivers [(''fat32'', Fat32, Fat32Probe), (''ext2'', Ext2, Ext2Probe),
             (''ramfs'', RamFs, RamFsProbe), (''tmpfs'', TmpFs, TmpFsProbe), (''procfs'', ProcFs, ProcFsProbe),
             (''devfs'', DevFs, DevFsProbe), (''sysfs'', SysFs, SysFsProbe), (''initramfs'', InitRamFs, InitRamFsProbe)] s;
          s = upd_fs_status (\<lambda>st. st\<lparr>vfs_ready := ready, fat32_supported := RunFat32ProbeSelfTest,
                ext2_supported := RunExt2ProbeSelfTest, file_permissions_ready := RunPermissionSelfTest\<rparr>) s;
          s = (if fat32_supported (fs_Status s) then snd (VfsMountPath (Some ''/boot'') Fat32 s) else s);
          s = (if ext2_supported (fs_Status s) then snd (VfsMountPath (Some ''/'') Ext2 s) else s);
          s = snd (VfsMountPath (Some ''/ram'') RamFs s);
          s = snd (VfsMountPath (Some ''/tmp'') TmpFs s);
          s = snd (VfsMountPath (Some ''/proc'') ProcFs s);
          s = snd (VfsMountPath (Some ''/dev'') DevFs s);
          s = snd (VfsMountPath (Some ''/sys'') SysFs s)
      in snd (VfsMountPath (Some ''/initrd'') InitRamFs s))"

definition boot_mount :: "string \<Rightarrow> FileSystemType \<Rightarrow> VfsMount" where
  "boot_mount p t = \<lparr>mnt_path = Some p, mnt_type = t, mnt_active = True\<rparr>"

lemma register_drivers_ok: "fs_ok s \<Longrightarrow> fs_ok (snd (register_drivers ds s))"
  by (induction ds s rule: register_drivers.induct) (auto split: prod.split dest: Register_ok)

lemma register_drivers_all:
  assumes "fs_ok s" "unat (registered_driver_count (fs_Status s)) + length ds \<le> 9"
  shows "\<exists>D. register_drivers ds s = (True, s\<lparr>fs_Drivers := D,
    fs_Status := (fs_Status s)\<lparr>registered_driver_count := registered_driver_count (fs_Status s) + of_nat (length ds)\<rparr>\<rparr>)"
  using assms
proof (induction ds s rule: register_drivers.induct)
  case (1 s)
  show ?case by (rule exI[of _ "fs_Drivers s"]) simp
next
  case (2 name t pr ds s)
  let ?n = "registered_driver_count (fs_Status s)"
  obtain b s1 where r: "VfsRegisterDriver (Some name) t (Some pr) s = (b, s1)" by fastforce
  have n: "unat ?n < 9" "\<not> ?n \<ge> kMaxFsDrivers" using 2(3) by (simp_all add: kMaxFsDrivers_def word_le_nat_alt)
  then have b: "b" "s1 = s\<lparr>fs_Drivers := (fs_Drivers s)[unat ?n := \<lparr>drv_name = Some name, drv_type = t, drv_Probe = Some pr\<rparr>],
      fs_Status := (fs_Status s)\<lparr>registered_driver_count := ?n + 1\<rparr>\<rparr>"
    using r by (simp_all add: VfsRegisterDriver_def Let_def upd_fs_status_def)
  have "unat (?n + 1) = Suc (unat ?n)" using n(1) by (simp add: unat_Suc_u32)
  then have "unat (registered_driver_count (fs_Status s1)) + length ds \<le> 9" using 2(3) b by simp
  from 2(1)[OF refl r[symmetric] b(1) Register_ok[OF 2(2) r] this] obtain D where
    "register_drivers ds s1 = (True, s1\<lparr>fs_Drivers := D,
      fs_Status := (fs_Status s1)\<lparr>registered_driver_count := registered_driver_count (fs_Status s1) + of_nat (length ds)\<rparr>\<rparr>)"
    by blast
  then show ?case using b r by (intro exI[of _ D]) (simp add: ac_simps)
qed

definition mount_all :: "(string \<times> FileSystemType) list \<Rightarrow> FsState \<Rightarrow> FsState" where
  "mount_all ms s = foldl (\<lambda>s (p, t). snd (VfsMountPath (Some p) t s)) s ms"

lemma mount_all_take:
  assumes "fs_ok s" "unat (mounted_filesystem_count (fs_Status s)) + length ms \<le> 12" "\<forall>(p, t) \<in> set ms. t \<noteq> UnknownFs"
  shows "\<exists>M. mount_all ms s = s\<lparr>fs_Mounts := M, fs_Status := (fs_Status s)
        \<lparr>mounted_filesystem_count := mounted_filesystem_count (fs_Status s) + of_nat (length ms)\<rparr>\<rparr> \<and>
      take (unat (mounted_filesystem_count (fs_Status s)) + length ms) M =
        take (unat (mounted_filesystem_count (fs_Status s))) (fs_Mounts s) @ map (\<lambda>(p, t). boot_mount p t) ms \<and>
      fs_ok (mount_all ms s)"
  using assms
proof (induction ms arbitrary: s)
  case Nil
  then show ?case by (intro exI[of _ "fs_Mounts s"]) (simp add: mount_all_def)
next
  case (Cons m ms)
  obtain p t where m: "m = (p, t)" by fastforce
  let ?n = "mounted_filesystem_count (fs_Status s)"
  obtain b s1 where r: "VfsMountPath (Some p) t s = (b, s1)" by fastforce
  have n: "unat ?n < 12" "\<not> ?n \<ge> kMaxMounts" using Cons.prems(2) by (simp_all add: kMaxMounts_def word_le_nat_alt)
  then have s1: "s1 = s\<lparr>fs_Mounts := (fs_Mounts s)[unat ?n := boot_mount p t],
      fs_Status := (fs_Status s)\<lparr>mounted_filesystem_count := ?n + 1\<rparr>\<rparr>"
    using r Cons.prems(3) m by (simp add: VfsMountPath_def Let_def upd_fs_status_def boot_mount_def)
  have u: "unat (?n + 1) = Suc (unat ?n)" using n(1) by (simp add: unat_Suc_u32)
  then have room: "unat (mounted_filesystem_count (fs_Status s1)) + length ms \<le> 12" using Cons.prems(2) s1 by simp
  obtain M where M: "mount_all ms s1 = s1\<lparr>fs_Mounts := M, fs_Status := (fs_Status s1)
        \<lparr>mounted_filesystem_count := mounted_filesystem_count (fs_Status s1) + of_nat (length ms)\<rparr>\<rparr>"
      "take (unat (mounted_filesystem_count (fs_Status s1)) + length ms) M =
        take (unat (mounted_filesystem_count (fs_Status s1))) (fs_Mounts s1) @ map (\<lambda>(p, t). boot_mount p t) ms"
      "fs_ok (mount_all ms s1)"
    using Cons.IH[OF MountPath_ok[OF Cons.prems(1) r] room] Cons.prems(3) by auto
  have all: "mount_all (m # ms) s = mount_all ms s1" by (simp add: mount_all_def m r)
  have "length (fs_Mounts s) = 12" using Cons.prems(1) by (simp add: fs_ok_def)
  then have "take (unat (mounted_filesystem_count (fs_Status s1))) (fs_Mounts s1) = take (unat ?n) (fs_Mounts s) @ [boot_mount p t]"
    using n(1) u by (simp add: s1 take_next_entry)
  then show ?case using M s1 u all by (intro exI[of _ M]) (simp add: m ac_simps)
qed

definition boot_mounts :: "(string \<times> FileSystemType) list" where
  "boot_mounts = [(''/boot'', Fat32), (''/'', Ext2), (''/ram'', RamFs), (''/tmp'', TmpFs), (''/proc'', ProcFs),
     (''/dev'', DevFs), (''/sys'', SysFs), (''/initrd'', InitRamFs)]"

lemma length_boot_mounts [simp]: "length boot_mounts = 8"
  by (simp add: boot_mounts_def)

lemma mount_flags [simp]:
  "ext2_supported (fs_Status (snd (VfsMountPath p t s))) = ext2_supported (fs_Status s)"
  by (simp add: VfsMountPath_def Let_def upd_fs_status_def)

lemma fs_boot_tables:
  "\<exists>D M. fs_boot_tables s = (ResetFileSystemStatus s)\<lparr>fs_Drivers := D, fs_Mounts := M,
     fs_Status := no_fs_status\<lparr>vfs_ready := True, fat32_supported := True, ext2_supported := True,
       file_permissions_ready := True, registered_driver_count := 8, mounted_filesystem_count := 8\<rparr>\<rparr> \<and>
   take 8 M = map (\<lambda>(p, t). boot_mount p t) boot_mounts \<and> fs_ok (fs_boot_tables s)"
proof -
  let ?r = "ResetFileSystemStatus s"
  have c: "fs_Status ?r = no_fs_status" by (simp add: ResetFileSystemStatus_def)
  define ds where "ds = [(''fat32'', Fat32, Fat32Probe), (''ext2'', Ext2, Ext2Probe),
             (''ramfs'', RamFs, RamFsProbe), (''tmpfs'', TmpFs, TmpFsProbe), (''procfs'', ProcFs, ProcFsProbe),
             (''devfs'', DevFs, DevFsProbe), (''sysfs'', SysFs, SysFsProbe), (''initramfs'', InitRamFs, InitRamFsProbe)]"
  have len: "length ds = 8" by (simp add: ds_def)
  obtain D where D: "register_drivers ds ?r = (True, ?r\<lparr>fs_Drivers := D, fs_Status := no_fs_status\<lparr>registered_driver_count := 8\<rparr>\<rparr>)"
    using register_drivers_all[OF Reset_ok, of s ds] by (auto simp: no_fs_status_def c len)
  define s1 where "s1 = ?r\<lparr>fs_Drivers := D, fs_Status := no_fs_status\<lparr>vfs_ready := True, fat32_supported := True,
    ext2_supported := True, file_permissions_ready := True, registered_driver_count := 8\<rparr>\<rparr>"
  have "fs_ok (?r\<lparr>fs_Drivers := D, fs_Status := no_fs_status\<lparr>registered_driver_count := 8\<rparr>\<rparr>)"
    using register_drivers_ok[OF Reset_ok, of ds s] by (simp only: D snd_conv)
  then have "fs_ok s1" by (simp add: s1_def fs_ok_def no_fs_status_def)
  moreover have n1: "mounted_filesystem_count (fs_Status s1) = 0" by (simp add: s1_def no_fs_status_def)
  ultimately obtain M where M: "mount_all boot_mounts s1 = s1\<lparr>fs_Mounts := M, fs_Status := (fs_Status s1)\<lparr>mounted_filesystem_count := 8\<rparr>\<rparr>"
    "take 8 M = map (\<lambda>(p, t). boot_mount p t) boot_mounts" "fs_ok (mount_all boot_mounts s1)"
    using mount_all_take[of s1 boot_mounts] n1 by (auto simp: boot_mounts_def[THEN arg_cong[of _ _ set]])
  have s1: "upd_fs_status (\<lambda>st. st\<lparr>vfs_ready := True, fat32_supported := True, ext2_supported := True, file_permissions_ready := True\<rparr>)
      (?r\<lparr>fs_Drivers := D, fs_Status := no_fs_status\<lparr>registered_driver_count := 8\<rparr>\<rparr>) = s1"
    "fat32_supported (fs_Status s1)" "ext2_supported (fs_Status s1)"
    by (simp_all add: upd_fs_status_def s1_def)
  have "fs_boot_tables s = mount_all boot_mounts s1"
    unfolding fs_boot_tables_def ds_def[symmetric]
    by (simp add: D s1 RunFat32ProbeSelfTest_passes RunExt2ProbeSelfTest_passes RunPermissionSelfTest_passes
        mount_all_def boot_mounts_def)
  then show ?thesis using M s1_def by auto
qed

text \<open>The mounts of a boot and the paths they serve.\<close>

definition booted_mounts :: "FsState \<Rightarrow> bool" where
  "booted_mounts s \<longleftrightarrow> mounted_filesystem_count (fs_Status s) = 8 \<and> take 8 (fs_Mounts s) = map (\<lambda>(p, t). boot_mount p t) boot_mounts"

lemma booted_mount_at:
  assumes "booted_mounts s" "i < 8"
  shows "fs_Mounts s ! i = (case boot_mounts ! i of (p, t) \<Rightarrow> boot_mount p t)"
proof -
  have "fs_Mounts s ! i = take 8 (fs_Mounts s) ! i" using assms(2) by simp
  also have "\<dots> = map (\<lambda>(p, t). boot_mount p t) boot_mounts ! i" using assms(1) by (simp add: booted_mounts_def)
  also have "\<dots> = (case boot_mounts ! i of (p, t) \<Rightarrow> boot_mount p t)" using assms(2) by simp
  finally show ?thesis .
qed

lemma booted_find_mount:
  assumes "booted_mounts s"
  shows "VfsFindMount s path = fst (foldl (mount_step \<lparr>fs_Drivers = [], fs_Mounts = map (\<lambda>(p, t). boot_mount p t) boot_mounts,
     fs_RamFsNodes = [], fs_PseudoFsNodes = [], fs_Status = no_fs_status, fs_log = []\<rparr> path) (None, 0) [0 ..< 8])"
proof -
  have e: "mount_step s path b i = mount_step \<lparr>fs_Drivers = [], fs_Mounts = map (\<lambda>(p, t). boot_mount p t) boot_mounts,
     fs_RamFsNodes = [], fs_PseudoFsNodes = [], fs_Status = no_fs_status, fs_log = []\<rparr> path b i" if "i < 8" for b i
    using booted_mount_at[OF assms that] that by (cases b) (simp add: mount_step_def)
  show ?thesis
    using assms by (simp add: VfsFindMount_def booted_mounts_def) (intro arg_cong[of _ _ fst] foldl_cong refl e, simp)
qed

lemma RunMountManagerSelfTest_passes:
  assumes "booted_mounts s"
  shows "RunMountManagerSelfTest s"
proof -
  have "VfsFindMount s (Some ''/'') = Some 1" "VfsFindMount s (Some ''/boot/kernel.elf'') = Some 0"
    "VfsFindMount s (Some ''/ram/readme'') = Some 2" "VfsFindMount s (Some ''/tmp/session.sock'') = Some 3"
    "VfsFindMount s (Some ''/proc/cpuinfo'') = Some 4" "VfsFindMount s (Some ''/dev/console'') = Some 5"
    "VfsFindMount s (Some ''/sys/kernel'') = Some 6" "VfsFindMount s (Some ''/initrd/init'') = Some 7"
    unfolding booted_find_mount[OF assms] by code_simp+
  then show ?thesis
    by (simp add: RunMountManagerSelfTest_def found_def booted_mount_at[OF assms] boot_mounts_def boot_mount_def)
qed

lemma pseudo_only_keeps:
  assumes "pseudo_only s s'"
  shows "booted_mounts s' = booted_mounts s" "ram_lookup s' = ram_lookup s" "ram_room s' = ram_room s"
    "fs_log s' = fs_log s"
  using assms by (auto simp: pseudo_only_def booted_mounts_def ram_lookup_def RamFsFindNode_def ram_room_def fun_eq_iff)

lemma ram_only_keeps:
  assumes "ram_only s s'"
  shows "booted_mounts s' = booted_mounts s" "pseudo_lookup s' = pseudo_lookup s" "pseudo_room s' = pseudo_room s"
    "fs_log s' = fs_log s" "initramfs_file_count (fs_Status s') = initramfs_file_count (fs_Status s)"
  using assms by (auto simp: ram_only_def booted_mounts_def pseudo_lookup_def PseudoFsFindNode_def pseudo_room_def fun_eq_iff)

text \<open>The readiness flags are not read by the tables' operations.\<close>

definition set_flags :: "(FileSystemStatus \<Rightarrow> FileSystemStatus) \<Rightarrow> bool" where
  "set_flags f \<longleftrightarrow> (\<forall>st. registered_driver_count (f st) = registered_driver_count st \<and>
     mounted_filesystem_count (f st) = mounted_filesystem_count st \<and> ramfs_node_count (f st) = ramfs_node_count st \<and>
     pseudo_node_count (f st) = pseudo_node_count st \<and> initramfs_file_count (f st) = initramfs_file_count st)"

lemma set_flags_keeps:
  assumes "set_flags f"
  shows "fs_ok (upd_fs_status f s) = fs_ok s" "booted_mounts (upd_fs_status f s) = booted_mounts s"
    "pseudo_lookup (upd_fs_status f s) = pseudo_lookup s" "pseudo_room (upd_fs_status f s) = pseudo_room s"
    "ram_lookup (upd_fs_status f s) = ram_lookup s" "ram_room (upd_fs_status f s) = ram_room s"
    "fs_log (upd_fs_status f s) = fs_log s"
    "initramfs_file_count (fs_Status (upd_fs_status f s)) = initramfs_file_count (fs_Status s)"
    "fs_Status (upd_fs_status f s) = f (fs_Status s)"
  using assms by (simp_all add: upd_fs_status_def set_flags_def fs_ok_def booted_mounts_def pseudo_lookup_def
      PseudoFsFindNode_def pseudo_room_def ram_lookup_def RamFsFindNode_def ram_room_def fun_eq_iff)

definition fs_flags :: "FileSystemStatus \<Rightarrow> bool list" where
  "fs_flags st = [vfs_ready st, fat32_supported st, ext2_supported st, file_permissions_ready st,
     symbolic_links_ready st, mount_manager_ready st, ramfs_ready st, tmpfs_ready st, procfs_ready st,
     devfs_ready st, sysfs_ready st, initramfs_ready st]"

text \<open>What holds between two self-tests: room for \<open>k\<close> more nodes, none yet of the types \<open>ts\<close>.\<close>

definition boot_inv :: "FsState \<Rightarrow> nat \<Rightarrow> FileSystemType set \<Rightarrow> klog \<Rightarrow> bool" where
  "boot_inv s k ts l \<longleftrightarrow> fs_ok s \<and> booted_mounts s \<and> k \<le> pseudo_room s \<and> (\<forall>t \<in> ts. fs_type_free s t) \<and>
     (InitRamFs \<in> ts \<longrightarrow> initramfs_file_count (fs_Status s) = 0) \<and> fs_log s = l"

lemma boot_inv_flags [simp]: "set_flags f \<Longrightarrow> boot_inv (upd_fs_status f s) k ts l = boot_inv s k ts l"
  by (simp add: boot_inv_def set_flags_keeps(1-7) fs_type_free_def) (simp add: upd_fs_status_def set_flags_def)

lemma log_fs_ok: "fs_ok (log_fs v m s) = fs_ok s" "booted_mounts (log_fs v m s) = booted_mounts s"
  by (simp_all add: log_fs_def fs_ok_def booted_mounts_def)

lemma boot_inv_log: "boot_inv s k ts l \<Longrightarrow> boot_inv (log_fs v m s) k ts (l @ [(v, m)])"
  by (simp add: boot_inv_def log_fs_ok fs_type_free_def)
    (simp add: log_fs_def pseudo_room_def pseudo_lookup_def PseudoFsFindNode_def)

lemma fs_flags_cong: "pseudo_only s s' \<Longrightarrow> fs_flags (fs_Status s') = fs_flags (fs_Status s)"
  "ram_only s s' \<Longrightarrow> fs_flags (fs_Status s') = fs_flags (fs_Status s)"
  by (auto simp: pseudo_only_def ram_only_def fs_flags_def)

lemma pseudo_stage:
  assumes "boot_inv s (j + k) (insert t ts) l" "t \<notin> ts" "InitRamFs \<in> ts \<longrightarrow> t \<noteq> InitRamFs" "added_only j t s s'"
  shows "boot_inv s' k ts l" "fs_flags (fs_Status s') = fs_flags (fs_Status s)"
proof -
  have p: "pseudo_only s s'" using assms(4) by (simp add: added_only_def)
  then show "fs_flags (fs_Status s') = fs_flags (fs_Status s)" by (rule fs_flags_cong)
  have "fs_type_free s' u" if "u \<in> ts" for u
  proof -
    have "u \<noteq> t" "fs_type_free s u" using that assms(1,2) by (auto simp: boot_inv_def)
    then show ?thesis using assms(4) by (simp add: added_only_def)
  qed
  moreover have "InitRamFs \<in> ts \<longrightarrow> initramfs_file_count (fs_Status s') = 0"
    using assms by (simp add: boot_inv_def added_only_def)
  moreover have "j + k \<le> pseudo_room s" "pseudo_room s' = pseudo_room s - j"
    using assms(1,4) by (simp_all add: boot_inv_def added_only_def)
  then have "k \<le> pseudo_room s'" by linarith
  ultimately show "boot_inv s' k ts l"
    using assms(1,4) pseudo_only_keeps[OF p] by (simp add: boot_inv_def added_only_def)
qed

lemma ram_stage:
  assumes "boot_inv s k ts l" "ram_only s s'" "fs_ok s'"
  shows "boot_inv s' k ts l" "fs_flags (fs_Status s') = fs_flags (fs_Status s)"
  using assms ram_only_keeps[OF assms(2)] fs_flags_cong(2)[OF assms(2)] by (simp_all add: boot_inv_def fs_type_free_def)

lemma set_flags_each [simp]:
  "set_flags (\<lambda>st. st\<lparr>ramfs_ready := b\<rparr>)" "set_flags (\<lambda>st. st\<lparr>symbolic_links_ready := b\<rparr>)"
  "set_flags (\<lambda>st. st\<lparr>tmpfs_ready := b\<rparr>)" "set_flags (\<lambda>st. st\<lparr>procfs_ready := b\<rparr>)"
  "set_flags (\<lambda>st. st\<lparr>devfs_ready := b\<rparr>)" "set_flags (\<lambda>st. st\<lparr>sysfs_ready := b\<rparr>)"
  "set_flags (\<lambda>st. st\<lparr>initramfs_ready := b\<rparr>)" "set_flags (\<lambda>st. st\<lparr>mount_manager_ready := b\<rparr>)"
  by (simp_all add: set_flags_def)

lemma empty_lookups:
  "ramfs_node_count (fs_Status s) = 0 \<Longrightarrow> ram_lookup s = Map.empty"
  "pseudo_node_count (fs_Status s) = 0 \<Longrightarrow> fs_type_free s t"
  by (auto simp: ram_lookup_take pseudo_lookup_take fs_type_free_def fun_eq_iff)

text \<open>The rest of \<open>KernelFileSystemInit\<close>, the self-tests and the final answer.\<close>

definition fs_self_tests :: "FsState \<Rightarrow> bool \<times> FsState" where
  "fs_self_tests s =
     (let (ok, s) = RunRamFsSelfTest s; s = upd_fs_status (\<lambda>st. st\<lparr>ramfs_ready := ok\<rparr>) s;
          (ok, s) = (if ramfs_ready (fs_Status s) then RunSymlinkSelfTest s else (False, s));
          s = upd_fs_status (\<lambda>st. st\<lparr>symbolic_links_ready := ok\<rparr>) s;
          (ok, s) = RunTmpFsSelfTest s; s = upd_fs_status (\<lambda>st. st\<lparr>tmpfs_ready := ok\<rparr>) s;
          (ok, s) = RunProcFsSelfTest s; s = upd_fs_status (\<lambda>st. st\<lparr>procfs_ready := ok\<rparr>) s;
          (ok, s) = RunDevFsSelfTest s; s = upd_fs_status (\<lambda>st. st\<lparr>devfs_ready := ok\<rparr>) s;
          (ok, s) = RunSysFsSelfTest s; s = upd_fs_status (\<lambda>st. st\<lparr>sysfs_ready := ok\<rparr>) s;
          (ok, s) = RunInitRamFsSelfTest s; s = upd_fs_status (\<lambda>st. st\<lparr>initramfs_ready := ok\<rparr>) s;
          s = upd_fs_status (\<lambda>st. st\<lparr>mount_manager_ready := RunMountManagerSelfTest s\<rparr>) s;
          s = log_fs Info ''Phase 10 filesystem initialized'' s;
          st = fs_Status s
      in (vfs_ready st \<and> fat32_supported st \<and> ext2_supported st \<and> file_permissions_ready st \<and>
          symbolic_links_ready st \<and> mount_manager_ready st \<and> ramfs_ready st \<and> tmpfs_ready st \<and>
          procfs_ready st \<and> devfs_ready st \<and> sysfs_ready st \<and> initramfs_ready st, s))"

lemma KernelFileSystemInit_split: "KernelFileSystemInit s = fs_self_tests (fs_boot_tables s)"
  unfolding KernelFileSystemInit_def fs_boot_tables_def fs_self_tests_def Let_def
  by (simp split: prod.split)

lemma fs_self_tests_pass:
  assumes "boot_inv s 14 {TmpFs, ProcFs, DevFs, SysFs, InitRamFs} l" "ramfs_node_count (fs_Status s) = 0"
    and "take 4 (fs_flags (fs_Status s)) = [True, True, True, True]"
  shows "\<exists>s'. fs_self_tests s = (True, s') \<and> boot_inv s' 0 {} (l @ [(Info, ''Phase 10 filesystem initialized'')]) \<and>
    fs_flags (fs_Status s') = replicate 12 True"
proof -
  have "ram_room s = 16" using assms(2) by (simp add: ram_room_def)
  then obtain a1 m n where a1: "RunRamFsSelfTest s = (True, a1)" "fs_ok a1" "ram_only s a1" "1 \<le> ram_room a1"
    "ram_lookup a1 = [''/ram'' \<mapsto> m, ''/ram/readme'' \<mapsto> n]"
    using RunRamFsSelfTest_passes[of s] assms(1) empty_lookups(1)[OF assms(2)] by (auto simp: boot_inv_def)
  define b1 where "b1 = upd_fs_status (\<lambda>st. st\<lparr>ramfs_ready := True\<rparr>) a1"
  have b1: "boot_inv b1 14 {TmpFs, ProcFs, DevFs, SysFs, InitRamFs} l" "fs_flags (fs_Status a1) = fs_flags (fs_Status s)"
    using ram_stage[OF assms(1) a1(3,2)] by (simp_all add: b1_def)
  have "fs_ok b1" "1 \<le> ram_room b1" "ram_lookup b1 ''/ram/latest'' = None" "ram_lookup b1 ''/ram/readme'' \<noteq> None"
    using b1 a1 by (simp_all add: boot_inv_def b1_def set_flags_keeps)
  from RunSymlinkSelfTest_passes[OF this] obtain a2 where a2: "RunSymlinkSelfTest b1 = (True, a2)" "fs_ok a2" "ram_only b1 a2"
    by blast
  define b2 where "b2 = upd_fs_status (\<lambda>st. st\<lparr>symbolic_links_ready := True\<rparr>) a2"
  have b2: "boot_inv b2 (2 + 12) (insert TmpFs {ProcFs, DevFs, SysFs, InitRamFs}) l" "fs_flags (fs_Status a2) = fs_flags (fs_Status b1)"
    using ram_stage[OF b1(1) a2(3,2)] by (simp_all add: b2_def)
  obtain a3 where a3: "RunTmpFsSelfTest b2 = (True, a3)" "added_only 2 TmpFs b2 a3"
    using RunTmpFsSelfTest_passes[of b2] b2(1) by (auto simp: boot_inv_def)
  define b3 where "b3 = upd_fs_status (\<lambda>st. st\<lparr>tmpfs_ready := True\<rparr>) a3"
  have b3: "boot_inv b3 (3 + 9) (insert ProcFs {DevFs, SysFs, InitRamFs}) l" "fs_flags (fs_Status a3) = fs_flags (fs_Status b2)"
    using pseudo_stage[OF b2(1) _ _ a3(2)] by (simp_all add: b3_def)
  obtain a4 where a4: "RunProcFsSelfTest b3 = (True, a4)" "added_only 3 ProcFs b3 a4"
    using RunProcFsSelfTest_passes[of b3] b3(1) by (auto simp: boot_inv_def)
  define b4 where "b4 = upd_fs_status (\<lambda>st. st\<lparr>procfs_ready := True\<rparr>) a4"
  have b4: "boot_inv b4 (3 + 6) (insert DevFs {SysFs, InitRamFs}) l" "fs_flags (fs_Status a4) = fs_flags (fs_Status b3)"
    using pseudo_stage[OF b3(1) _ _ a4(2)] by (simp_all add: b4_def)
  obtain a5 where a5: "RunDevFsSelfTest b4 = (True, a5)" "added_only 3 DevFs b4 a5"
    using RunDevFsSelfTest_passes[of b4] b4(1) by (auto simp: boot_inv_def)
  define b5 where "b5 = upd_fs_status (\<lambda>st. st\<lparr>devfs_ready := True\<rparr>) a5"
  have b5: "boot_inv b5 (3 + 3) (insert SysFs {InitRamFs}) l" "fs_flags (fs_Status a5) = fs_flags (fs_Status b4)"
    using pseudo_stage[OF b4(1) _ _ a5(2)] by (simp_all add: b5_def)
  obtain a6 where a6: "RunSysFsSelfTest b5 = (True, a6)" "added_only 3 SysFs b5 a6"
    using RunSysFsSelfTest_passes[of b5] b5(1) by (auto simp: boot_inv_def)
  define b6 where "b6 = upd_fs_status (\<lambda>st. st\<lparr>sysfs_ready := True\<rparr>) a6"
  have b6: "boot_inv b6 (3 + 0) (insert InitRamFs {}) l" "fs_flags (fs_Status a6) = fs_flags (fs_Status b5)"
    using pseudo_stage[OF b5(1) _ _ a6(2)] by (simp_all add: b6_def)
  obtain a7 where a7: "RunInitRamFsSelfTest b6 = (True, a7)" "added_only 3 InitRamFs b6 a7"
    using RunInitRamFsSelfTest_passes[of b6] b6(1) by (auto simp: boot_inv_def)
  define b7 where "b7 = upd_fs_status (\<lambda>st. st\<lparr>initramfs_ready := True\<rparr>) a7"
  have b7: "boot_inv b7 0 {} l" "fs_flags (fs_Status a7) = fs_flags (fs_Status b6)"
    using pseudo_stage[OF b6(1) _ _ a7(2)] by (simp_all add: b7_def)
  define b8 where "b8 = upd_fs_status (\<lambda>st. st\<lparr>mount_manager_ready := RunMountManagerSelfTest b7\<rparr>) b7"
  have mm: "RunMountManagerSelfTest b7" using b7(1) RunMountManagerSelfTest_passes by (simp add: boot_inv_def)
  note F = b1(2) b2(2) b3(2) b4(2) b5(2) b6(2) b7(2)
  have fl: "fs_flags (fs_Status b8) = replicate 12 True"
    using F assms(3) mm unfolding b8_def b7_def b6_def b5_def b4_def b3_def b2_def b1_def
    by (simp add: upd_fs_status_def fs_flags_def numeral_eq_Suc)
  have r: "ramfs_ready (fs_Status b1)" by (simp add: b1_def upd_fs_status_def)
  have "fs_self_tests s = (True, log_fs Info ''Phase 10 filesystem initialized'' b8)"
    unfolding fs_self_tests_def
    using fl r by (simp add: a1(1) b1_def[symmetric] a2(1) b2_def[symmetric] a3(1) b3_def[symmetric] a4(1) b4_def[symmetric]
        a5(1) b5_def[symmetric] a6(1) b6_def[symmetric] a7(1) b7_def[symmetric] b8_def[symmetric] log_fs_def Let_def
        fs_flags_def numeral_eq_Suc)
  moreover have "boot_inv (log_fs Info ''Phase 10 filesystem initialized'' b8) 0 {} (l @ [(Info, ''Phase 10 filesystem initialized'')])"
    using b7(1) by (simp add: b8_def boot_inv_log)
  ultimately show ?thesis using fl by (simp add: log_fs_def)
qed

subsection \<open>Properties\<close>

lemma KernelFileSystemInit_boots:
  "\<exists>s'. KernelFileSystemInit s = (True, s') \<and> fs_ok s' \<and> fs_flags (fs_Status s') = replicate 12 True \<and>
     mounted_filesystem_count (fs_Status s') = 8 \<and>
     take 8 (fs_Mounts s') = map (\<lambda>(p, t). \<lparr>mnt_path = Some p, mnt_type = t, mnt_active = True\<rparr>) boot_mounts \<and>
     fs_log s' = fs_log s @ [(Info, ''Phase 10 filesystem initialized'')]"
proof -
  let ?t = "fs_boot_tables s"
  obtain D M where t: "?t = (ResetFileSystemStatus s)\<lparr>fs_Drivers := D, fs_Mounts := M,
     fs_Status := no_fs_status\<lparr>vfs_ready := True, fat32_supported := True, ext2_supported := True,
       file_permissions_ready := True, registered_driver_count := 8, mounted_filesystem_count := 8\<rparr>\<rparr>"
    "take 8 M = map (\<lambda>(p, t). boot_mount p t) boot_mounts" "fs_ok ?t"
    using fs_boot_tables by blast
  have st: "mounted_filesystem_count (fs_Status ?t) = 8" "take 8 (fs_Mounts ?t) = map (\<lambda>(p, t). boot_mount p t) boot_mounts"
    "pseudo_node_count (fs_Status ?t) = 0" "ramfs_node_count (fs_Status ?t) = 0" "initramfs_file_count (fs_Status ?t) = 0"
    "fs_log ?t = fs_log s" "take 4 (fs_flags (fs_Status ?t)) = [True, True, True, True]"
    unfolding t(1) using t(2) by (simp_all add: no_fs_status_def ResetFileSystemStatus_def fs_flags_def)
  have "boot_inv ?t 14 {TmpFs, ProcFs, DevFs, SysFs, InitRamFs} (fs_log s)"
    using t(3) st empty_lookups(2)[OF st(3)] by (simp add: boot_inv_def booted_mounts_def pseudo_room_def)
  from fs_self_tests_pass[OF this st(4,7)] show ?thesis
    by (auto simp: KernelFileSystemInit_split boot_inv_def booted_mounts_def boot_mount_def case_prod_beta)
qed

text \<open>
  Booting the file system always succeeds, whatever the tables held before: every driver
  registers, every recognizer and self-test passes, the eight mounts are in place, the tables
  are well formed and one line is logged.
\<close>

lemma filesystem_boot_succeeds:
  "\<exists>s'. KernelFileSystemInit s = (True, s') \<and> fs_ok s' \<and> fs_flags (fs_Status s') = replicate 12 True \<and>
     mounted_filesystem_count (fs_Status s') = 8 \<and>
     take 8 (fs_Mounts s') = map (\<lambda>(p, t). \<lparr>mnt_path = Some p, mnt_type = t, mnt_active = True\<rparr>) boot_mounts \<and>
     fs_log s' = fs_log s @ [(Info, ''Phase 10 filesystem initialized'')]"
  by (rule KernelFileSystemInit_boots)

text \<open>The operations on the tables, in any order.\<close>

datatype fs_op = Register_op cstring FileSystemType "probe option" | Mount_op cstring FileSystemType
  | RamAdd_op cstring u16 bool cstring | PseudoAdd_op cstring FileSystemType u16 bool u64 u32 u32
  | Print_op | Boot_op

fun fs_exec :: "fs_op \<Rightarrow> FsState \<Rightarrow> FsState" where
  "fs_exec (Register_op name t pr) s = snd (VfsRegisterDriver name t pr s)"
| "fs_exec (Mount_op path t) s = snd (VfsMountPath path t s)"
| "fs_exec (RamAdd_op path m d target) s = snd (RamFsAddNode path m d target s)"
| "fs_exec (PseudoAdd_op path t m d sz ma mi) s = snd (PseudoFsAddNode path t m d sz ma mi s)"
| "fs_exec Print_op s = PrintFileSystemInfo s"
| "fs_exec Boot_op s = snd (KernelFileSystemInit s)"

lemma Print_ok: "fs_ok s \<Longrightarrow> fs_ok (PrintFileSystemInfo s)"
proof -
  have "fs_ok (foldl (\<lambda>s i. if \<not> mnt_active (fs_Mounts s ! i) then s
                      else log_fs Info (TypeName (mnt_type (fs_Mounts s ! i))) s) s is) = fs_ok s" for s "is"
    by (induction "is" arbitrary: s) (simp_all add: log_fs_ok)
  then show "fs_ok s \<Longrightarrow> fs_ok (PrintFileSystemInfo s)"
    by (simp add: PrintFileSystemInfo_def Let_def log_ready_def log_fs_ok)
qed

lemma snd_ok:
  "fs_ok s \<Longrightarrow> fs_ok (snd (VfsMountPath p t s))"
  "fs_ok s \<Longrightarrow> fs_ok (snd (VfsRegisterDriver name t pr s))"
  "fs_ok s \<Longrightarrow> fs_ok (snd (RamFsAddNode p m d target s))"
  "fs_ok s \<Longrightarrow> fs_ok (snd (PseudoFsAddNode p t m d sz ma mi s))"
  by (metis MountPath_ok prod.collapse, metis Register_ok prod.collapse, metis RamFsAddNode_ok prod.collapse, metis PseudoFsAddNode_ok prod.collapse)

lemma fs_exec_ok: "fs_ok s \<Longrightarrow> fs_ok (fs_exec op s)"
proof (cases op)
  case Boot_op
  then show ?thesis using KernelFileSystemInit_boots[of s] by auto
qed (simp_all add: snd_ok Print_ok)

text \<open>
  C36. The tables keep their type: after a boot and any sequence of registrations, mounts,
  additions, reports and further boots, no table has more entries than its array, every entry
  below a count is active with a name and a type, and every RAM node is a symbolic link exactly
  when it has a target.
\<close>

theorem filesystem_tables_typed:
  "fs_ok (foldl (\<lambda>s op. fs_exec op s) (snd (KernelFileSystemInit s)) ops)"
proof -
  have "fs_ok t \<Longrightarrow> fs_ok (foldl (\<lambda>s op. fs_exec op s) t ops)" for t
    by (induction ops arbitrary: t) (simp_all add: fs_exec_ok)
  then show ?thesis using KernelFileSystemInit_boots[of s] by auto
qed

text \<open>
  The RAM file system finds what was added: a run of additions succeeds exactly when the
  table has room for all of it, and afterwards a path leads to the node it led to before,
  else to the first node added for it; nothing ever replaces or hides a node.
\<close>

lemma ramfs_finds_first_added:
  assumes "fs_ok s"
  shows "((\<exists>s'. ram_nodes.add_all s kvs = Some s') \<longleftrightarrow> length kvs \<le> 16 - unat (ramfs_node_count (fs_Status s))) \<and>
    (\<forall>s' p. ram_nodes.add_all s kvs = Some s' \<longrightarrow>
      ram_lookup s' p = (case ram_lookup s p of Some v \<Rightarrow> Some v | None \<Rightarrow> map_of kvs p))"
  using ram_nodes.add_all_room[OF assms, of kvs] ram_nodes.add_all_lookup[OF assms]
  by (simp add: ram_room_def)

definition blank_fs :: FsState where
  "blank_fs = ResetFileSystemStatus \<lparr>fs_Drivers = [], fs_Mounts = [], fs_RamFsNodes = [], fs_PseudoFsNodes = [],
     fs_Status = no_fs_status, fs_log = []\<rparr>"

lemma blank_fs: "fs_ok blank_fs" "ram_lookup blank_fs = Map.empty"
  by (simp add: blank_fs_def Reset_ok)
    (simp add: blank_fs_def empty_lookups(1) ResetFileSystemStatus_def no_fs_status_def)

lemma ramfs_finds_first_added_witness:
  "\<exists>s'. ram_nodes.add_all blank_fs [(''/a'', 1, True, None), (''/b'', 2, False, None), (''/a'', 3, False, None)] = Some s' \<and>
     ram_lookup s' ''/a'' = Some (1, True, None) \<and> ram_lookup s' ''/b'' = Some (2, False, None) \<and> ram_lookup s' ''/c'' = None"
proof -
  let ?k = "[(''/a'', 1, True, None), (''/b'', 2, False, None), (''/a'', 3, False, None)]"
  have "ramfs_node_count (fs_Status blank_fs) = 0" by (simp add: blank_fs_def ResetFileSystemStatus_def no_fs_status_def)
  then obtain s' where s': "ram_nodes.add_all blank_fs ?k = Some s'"
    using ramfs_finds_first_added[OF blank_fs(1), of ?k] by auto
  then have "ram_lookup s' p = map_of ?k p" for p
    using ramfs_finds_first_added[OF blank_fs(1), of ?k] by (simp add: blank_fs(2) del: ram_nodes.add_all.simps)
  then show ?thesis using s' by (intro exI[of _ s'] conjI) simp_all
qed

lemma find_mount_longest_prefix_witness:
  "\<exists>s. (case VfsFindMount s (Some ''/tmpfile'') of None \<Rightarrow> False | Some b \<Rightarrow> mount_name s b = ''/'') \<and>
     (case VfsFindMount s (Some ''/tmp/x'') of None \<Rightarrow> False | Some b \<Rightarrow> mount_name s b = ''/tmp'')"
proof -
  obtain s where "fs_ok s" and b: "booted_mounts s"
    using KernelFileSystemInit_boots[of blank_fs] by (auto simp: booted_mounts_def boot_mount_def case_prod_beta)
  have n: "unat (mounted_filesystem_count (fs_Status s)) = 8" using b by (simp add: booted_mounts_def)
  have names: "mount_name s i = fst (boot_mounts ! i)" if "i < 8" for i
    using booted_mount_at[OF b that] by (simp add: mount_name_def boot_mount_def case_prod_beta)
  have all: "(\<forall>i < 8. P i) \<longleftrightarrow> P 0 \<and> P 1 \<and> P 2 \<and> P 3 \<and> P 4 \<and> P 5 \<and> P 6 \<and> P 7" for P :: "nat \<Rightarrow> bool"
    by (simp add: eval_nat_numeral All_less_Suc) blast
  have "mounts_text s"
    unfolding mounts_text_def n all using booted_mount_at[OF b]
    by (simp add: boot_mounts_def boot_mount_def c_text_def)
  note L = find_mount_longest_prefix[OF this, unfolded n]
  have "\<forall>i < 8. (path_under (fst (boot_mounts ! i)) ''/tmpfile'' \<longrightarrow> fst (boot_mounts ! i) = ''/'') \<and>
      (path_under (fst (boot_mounts ! i)) ''/tmp/x'' \<and> 4 \<le> length (fst (boot_mounts ! i)) \<longrightarrow> fst (boot_mounts ! i) = ''/tmp'')"
    unfolding all by (simp add: boot_mounts_def path_under_def)
  then have only: "path_under (mount_name s i) ''/tmpfile'' \<Longrightarrow> mount_name s i = ''/''"
      "path_under (mount_name s i) ''/tmp/x'' \<Longrightarrow> 4 \<le> length (mount_name s i) \<Longrightarrow> mount_name s i = ''/tmp''" if "i < 8" for i
    using that names by simp_all
  have have1: "path_under (mount_name s 1) ''/tmpfile''" "path_under (mount_name s 3) ''/tmp/x''" "mount_name s 3 = ''/tmp''"
    using names[of 1] names[of 3] by (simp_all add: boot_mounts_def path_under_def)
  have ct: "c_text ''/tmpfile''" "c_text ''/tmp/x''" by (simp_all add: c_text_def)
  from L[OF ct(1)] have "case VfsFindMount s (Some ''/tmpfile'') of None \<Rightarrow> False | Some b \<Rightarrow> mount_name s b = ''/''"
    using have1(1) only(1) by (auto split: option.splits)
  moreover from L[OF ct(2)] have "case VfsFindMount s (Some ''/tmp/x'') of None \<Rightarrow> False | Some b \<Rightarrow> mount_name s b = ''/tmp''"
    using have1(2,3) only(2) by (auto split: option.splits dest!: spec[of _ 3])
  ultimately show ?thesis by blast
qed

end
