(* ===== verification/Network.thy ===== *)
theory Network
  imports Console
begin

text \<open>
  \<^verbatim>\<open>kernel/src/network.cpp\<close>: packet builders for the protocols of the stack, the Internet
  checksum, the socket table, the boot self-tests and \<open>KernelNetworkInit\<close>. A builder that fills
  an object it is passed a reference to and returns true is \<open>Some\<close> of the object; all of them
  write every field, and one that returns false leaves the object alone (\<open>None\<close>).
  A pointer to bytes is \<open>None\<close> for \<open>nullptr\<close>, else the bytes from there on. A reference to a
  socket is its index in \<open>g_Sockets\<close>.
\<close>

subsection \<open>Data\<close>

datatype EtherType = EtherArp | EtherIpv4 | EtherIpv6

fun ether_value :: "EtherType \<Rightarrow> u16" where
  "ether_value EtherArp = 0x0806"
| "ether_value EtherIpv4 = 0x0800"
| "ether_value EtherIpv6 = 0x86DD"

datatype IpProtocol = IpIcmp | IpTcp | IpUdp | IpIcmpv6

fun protocol_value :: "IpProtocol \<Rightarrow> u8" where
  "protocol_value IpIcmp = 1"
| "protocol_value IpTcp = 6"
| "protocol_value IpUdp = 17"
| "protocol_value IpIcmpv6 = 58"

datatype SocketType = NoSocket | UdpSocket | TcpSocket

record MacAddress = mac_bytes :: "u8 list"
record Ipv4Address = ip4_bytes :: "u8 list"
record Ipv6Address = ip6_bytes :: "u8 list"

record EthernetFrame =
  ef_destination :: MacAddress
  ef_source :: MacAddress
  ef_type :: EtherType
  ef_payload :: "u8 list"
  ef_payload_size :: u16

record ArpPacket =
  arp_sender_mac :: MacAddress
  arp_sender_ip :: Ipv4Address
  arp_target_mac :: MacAddress
  arp_target_ip :: Ipv4Address
  arp_operation :: u16

record Ipv4Packet =
  p4_source :: Ipv4Address
  p4_destination :: Ipv4Address
  p4_protocol :: IpProtocol
  p4_payload :: "u8 list"
  p4_payload_size :: u16
  p4_ttl :: u8

record Ipv6Packet =
  p6_source :: Ipv6Address
  p6_destination :: Ipv6Address
  p6_next_header :: IpProtocol
  p6_payload :: "u8 list"
  p6_payload_size :: u16
  p6_hop_limit :: u8

record UdpDatagram =
  ud_source_port :: u16
  ud_destination_port :: u16
  ud_payload :: "u8 list"
  ud_payload_size :: u16

record TcpSegment =
  ts_source_port :: u16
  ts_destination_port :: u16
  ts_sequence :: u32
  ts_acknowledgement :: u32
  ts_flags :: u8

record TlsClientHello =
  tls_version :: u16
  tls_content_type :: u8
  tls_cipher_suite :: u16
  tls_random :: "u8 list"

record WebSocketHandshake =
  ws_method :: string
  ws_path :: string
  ws_upgrade :: string
  ws_connection :: string
  ws_key :: string

record Socket =
  so_id :: u32
  so_type :: SocketType
  so_local_port :: u16
  so_remote_port :: u16
  so_open :: bool

definition kMaxSockets :: nat where "kMaxSockets = 16"
definition kDhcpClientPort :: u16 where "kDhcpClientPort = 68"
definition kDhcpServerPort :: u16 where "kDhcpServerPort = 67"
definition kDnsPort :: u16 where "kDnsPort = 53"
definition kHttpPort :: u16 where "kHttpPort = 80"
definition kHttpsPort :: u16 where "kHttpsPort = 443"
definition kMdnsPort :: u16 where "kMdnsPort = 5353"
definition kNtpPort :: u16 where "kNtpPort = 123"
definition kTcpSyn :: u8 where "kTcpSyn = 0x02"
definition kTcpAck :: u8 where "kTcpAck = 0x10"
definition kTlsVersion12 :: u16 where "kTlsVersion12 = 0x0303"
definition kTlsHandshakeRecord :: u8 where "kTlsHandshakeRecord = 0x16"
definition kTlsCipherTlsAes128GcmSha256 :: u16 where "kTlsCipherTlsAes128GcmSha256 = 0x1301"

lemmas net_constants = kDhcpClientPort_def kDhcpServerPort_def kDnsPort_def kHttpPort_def kHttpsPort_def
  kMdnsPort_def kNtpPort_def kTcpSyn_def kTcpAck_def kTlsVersion12_def kTlsHandshakeRecord_def
  kTlsCipherTlsAes128GcmSha256_def

record NetworkStatus =
  ethernet_ready :: bool
  arp_ready :: bool
  ipv4_ready :: bool
  icmp_ready :: bool
  udp_ready :: bool
  tcp_ready :: bool
  dhcp_ready :: bool
  dns_ready :: bool
  http_ready :: bool
  https_ready :: bool
  socket_api_ready :: bool
  ipv6_ready :: bool
  tls_ready :: bool
  websocket_ready :: bool
  mdns_ready :: bool
  ntp_ready :: bool
  socket_count :: u32

record NetState =
  net_Status :: NetworkStatus
  net_Sockets :: "Socket list"
  g_NextSocketId :: u32
  net_log :: klog

definition no_net_status :: NetworkStatus where
  "no_net_status = \<lparr>ethernet_ready = False, arp_ready = False, ipv4_ready = False, icmp_ready = False, udp_ready = False, tcp_ready = False, dhcp_ready = False, dns_ready = False, http_ready = False, https_ready = False, socket_api_ready = False, ipv6_ready = False, tls_ready = False, websocket_ready = False, mdns_ready = False, ntp_ready = False, socket_count = 0\<rparr>"

definition ResetNetworkStatus :: "NetState \<Rightarrow> NetState" where
  "ResetNetworkStatus s = s\<lparr>net_Status := no_net_status, g_NextSocketId := 1,
     net_Sockets := replicate kMaxSockets
       \<lparr>so_id = 0, so_type = NoSocket, so_local_port = 0, so_remote_port = 0, so_open = False\<rparr>\<rparr>"

definition upd_net_status :: "(NetworkStatus \<Rightarrow> NetworkStatus) \<Rightarrow> NetState \<Rightarrow> NetState" where
  "upd_net_status f s = s\<lparr>net_Status := f (net_Status s)\<rparr>"

subsection \<open>Addresses and the checksum\<close>

text \<open>The comparison loop over the first bytes of two arrays.\<close>

fun bytes_equal :: "nat list \<Rightarrow> u8 list \<Rightarrow> u8 list \<Rightarrow> bool" where
  "bytes_equal [] a b = True"
| "bytes_equal (i # is) a b = (if a ! i \<noteq> b ! i then False else bytes_equal is a b)"

definition MacEquals :: "MacAddress \<Rightarrow> MacAddress \<Rightarrow> bool" where
  "MacEquals lhs rhs = bytes_equal [0 ..< 6] (mac_bytes lhs) (mac_bytes rhs)"

definition Ipv4Equals :: "Ipv4Address \<Rightarrow> Ipv4Address \<Rightarrow> bool" where
  "Ipv4Equals lhs rhs = bytes_equal [0 ..< 4] (ip4_bytes lhs) (ip4_bytes rhs)"

definition Ipv6Equals :: "Ipv6Address \<Rightarrow> Ipv6Address \<Rightarrow> bool" where
  "Ipv6Equals lhs rhs = bytes_equal [0 ..< 16] (ip6_bytes lhs) (ip6_bytes rhs)"

text \<open>
  The loop over the 16-bit words, from byte \<open>i\<close>; \<open>i + 1 < size\<close> is an \<open>int\<close> comparison, and
  the counter is 16 bits wide.
\<close>

function checksum_words :: "u8 list \<Rightarrow> u16 \<Rightarrow> u16 \<Rightarrow> u32 \<Rightarrow> u32" where
  "checksum_words d n i acc =
     (if unat i + 1 < unat n
      then checksum_words d n (i + 2) (acc + ucast (push_bit 8 (ucast (d ! unat i)) OR ucast (d ! (unat i + 1)) :: u16))
      else acc)"
  by pat_completeness auto

lemma u16_lt: "unat (x :: u16) < 65536"
  using unsigned_less[of x] by simp

lemma unat_next_word: "unat (i :: u16) + 1 < unat (n :: u16) \<Longrightarrow> unat (i + 2) = unat i + 2"
  using u16_lt[of n] by (simp add: unat_word_ariths)

termination checksum_words
  by (relation "measure (\<lambda>(d, n, i, acc). unat n - unat i)") (auto simp: unat_next_word)

text \<open>The folding loop of the carries.\<close>

function checksum_fold :: "u32 \<Rightarrow> u32" where
  "checksum_fold acc = (if drop_bit 16 acc \<noteq> 0 then checksum_fold ((acc AND 0xFFFF) + drop_bit 16 acc) else acc)"
  by pat_completeness auto

lemma fold_word:
  "unat ((w AND 0xFFFF) + drop_bit 16 (w :: u32)) = unat w mod 65536 + unat w div 65536"
proof -
  have l: "unat (w AND 0xFFFF) = unat w mod 65536"
    using and_mask_mod[of w 16] by (simp add: mask_eq_exp_minus_1)
  have h: "unat (drop_bit 16 w) = unat w div 65536" by (simp add: unat_drop_bit)
  have "unat w < 4294967296" by (rule u32_lt)
  then have "unat w mod 65536 + unat w div 65536 < 4294967296" by linarith
  then show ?thesis by (simp add: unat_word_ariths l h)
qed

termination checksum_fold
proof (relation "measure unat")
  fix acc :: u32
  assume "drop_bit 16 acc \<noteq> 0"
  then have "unat acc div 65536 \<noteq> 0" using unat_drop_bit[of 16 acc] by (auto simp: word_unat_eq_iff)
  then have "unat acc mod 65536 + unat acc div 65536 < unat acc"
    using div_mult_mod_eq[of "unat acc" 65536] by linarith
  then show "((acc AND 0xFFFF) + drop_bit 16 acc, acc) \<in> measure unat" using fold_word[of acc] by simp
qed simp

declare checksum_words.simps [simp del] checksum_fold.simps [simp del]

definition Ipv4Checksum :: "u8 list \<Rightarrow> u16 \<Rightarrow> u16" where
  "Ipv4Checksum d n =
     (let s1 = checksum_words d n 0 0;
          s2 = (if n AND 1 \<noteq> 0 then s1 + ucast (push_bit 8 (ucast (d ! (unat n - 1))) :: u16) else s1)
      in ucast (NOT (checksum_fold s2)))"

subsection \<open>Builders\<close>

definition BuildEthernetFrame :: "MacAddress \<Rightarrow> MacAddress \<Rightarrow> EtherType \<Rightarrow> u8 list option \<Rightarrow> u16 \<Rightarrow> EthernetFrame option" where
  "BuildEthernetFrame source destination type payload payload_size =
     (case payload of None \<Rightarrow> None
      | Some p \<Rightarrow> if payload_size = 0 then None
         else Some \<lparr>ef_destination = destination, ef_source = source, ef_type = type, ef_payload = p,
                ef_payload_size = payload_size\<rparr>)"

definition BuildArpRequest :: "MacAddress \<Rightarrow> Ipv4Address \<Rightarrow> Ipv4Address \<Rightarrow> ArpPacket option" where
  "BuildArpRequest local_mac local_ip target_ip =
     Some \<lparr>arp_sender_mac = local_mac, arp_sender_ip = local_ip, arp_target_mac = \<lparr>mac_bytes = replicate 6 0\<rparr>,
        arp_target_ip = target_ip, arp_operation = 1\<rparr>"

definition BuildIpv4Packet :: "Ipv4Address \<Rightarrow> Ipv4Address \<Rightarrow> IpProtocol \<Rightarrow> u8 list option \<Rightarrow> u16 \<Rightarrow> Ipv4Packet option" where
  "BuildIpv4Packet source destination protocol payload payload_size =
     (case payload of None \<Rightarrow> None
      | Some p \<Rightarrow> if payload_size = 0 then None
         else Some \<lparr>p4_source = source, p4_destination = destination, p4_protocol = protocol, p4_payload = p,
                p4_payload_size = payload_size, p4_ttl = 64\<rparr>)"

definition BuildIpv6Packet :: "Ipv6Address \<Rightarrow> Ipv6Address \<Rightarrow> IpProtocol \<Rightarrow> u8 list option \<Rightarrow> u16 \<Rightarrow> Ipv6Packet option" where
  "BuildIpv6Packet source destination next_header payload payload_size =
     (case payload of None \<Rightarrow> None
      | Some p \<Rightarrow> if payload_size = 0 then None
         else Some \<lparr>p6_source = source, p6_destination = destination, p6_next_header = next_header, p6_payload = p,
                p6_payload_size = payload_size, p6_hop_limit = 64\<rparr>)"

definition BuildUdpDatagram :: "u16 \<Rightarrow> u16 \<Rightarrow> u8 list option \<Rightarrow> u16 \<Rightarrow> UdpDatagram option" where
  "BuildUdpDatagram source_port destination_port payload payload_size =
     (case payload of None \<Rightarrow> None
      | Some p \<Rightarrow> if source_port = 0 \<or> destination_port = 0 then None
         else Some \<lparr>ud_source_port = source_port, ud_destination_port = destination_port, ud_payload = p,
                ud_payload_size = payload_size\<rparr>)"

definition BuildTcpSyn :: "u16 \<Rightarrow> u16 \<Rightarrow> TcpSegment option" where
  "BuildTcpSyn source_port destination_port =
     (if source_port = 0 \<or> destination_port = 0 then None
      else Some \<lparr>ts_source_port = source_port, ts_destination_port = destination_port, ts_sequence = 1,
             ts_acknowledgement = 0, ts_flags = kTcpSyn\<rparr>)"

definition BuildIcmpEcho :: "u8 list option \<Rightarrow> u16 \<Rightarrow> bool" where
  "BuildIcmpEcho payload payload_size \<longleftrightarrow> payload \<noteq> None \<and> payload_size > 0"

definition BuildDhcpDiscover :: "UdpDatagram option" where
  "BuildDhcpDiscover = BuildUdpDatagram kDhcpClientPort kDhcpServerPort (Some [0x35, 0x01, 0x01, 0xFF]) 4"

definition BuildDnsQuery :: "UdpDatagram option" where
  "BuildDnsQuery = BuildUdpDatagram 49152 kDnsPort
     (Some [0x12, 0x34, 0x01, 0x00, 0x00, 0x01, 0x00, 0x00, 0x00, 0x00, 0x00, 0x00]) 12"

text \<open>The bytes of a C string literal, with its NUL.\<close>

definition literal :: "string \<Rightarrow> u8 list" where
  "literal t = map of_char t @ [0]"

definition BuildHttpRequest :: "UdpDatagram option" where
  "BuildHttpRequest =
     (let request = literal ''GET / HTTP/1.1''
      in BuildUdpDatagram 49153 kHttpPort (Some request) (of_nat (length request) - 1))"

definition BuildHttpsClientHello :: "TcpSegment option" where
  "BuildHttpsClientHello = BuildTcpSyn 49154 kHttpsPort"

definition BuildTlsClientHello :: "TlsClientHello option" where
  "BuildTlsClientHello = Some \<lparr>tls_version = kTlsVersion12, tls_content_type = kTlsHandshakeRecord,
     tls_cipher_suite = kTlsCipherTlsAes128GcmSha256, tls_random = map (\<lambda>i. 0xA0 + of_nat i) [0 ..< 32]\<rparr>"

definition BuildWebSocketHandshake :: "cstring \<Rightarrow> WebSocketHandshake option" where
  "BuildWebSocketHandshake path =
     (case path of None \<Rightarrow> None
      | Some p \<Rightarrow> (case p of [] \<Rightarrow> None
         | c # _ \<Rightarrow> if c \<noteq> CHR ''/'' then None
             else Some \<lparr>ws_method = ''GET'', ws_path = p, ws_upgrade = ''websocket'', ws_connection = ''Upgrade'',
                    ws_key = ''dGhlIHNhbXBsZSBub25jZQ==''\<rparr>))"

definition BuildMdnsQuery :: "UdpDatagram option" where
  "BuildMdnsQuery =
     (let query = [0x00, 0x00, 0x00, 0x00, 0x00, 0x01, 0x00, 0x00, 0x00, 0x00, 0x00, 0x00,
                   0x05, of_char (CHR ''l''), of_char (CHR ''o''), of_char (CHR ''c''), of_char (CHR ''a''), of_char (CHR ''l''),
                   0x00, 0x00, 0x0C, 0x00, 0x01]
      in BuildUdpDatagram kMdnsPort kMdnsPort (Some query) (of_nat (length query)))"

definition BuildNtpClientRequest :: "UdpDatagram option" where
  "BuildNtpClientRequest = BuildUdpDatagram 49155 kNtpPort (Some (0x23 # replicate 47 0)) 48"

subsection \<open>Sockets\<close>

definition upd_socket :: "nat \<Rightarrow> (Socket \<Rightarrow> Socket) \<Rightarrow> NetState \<Rightarrow> NetState" where
  "upd_socket i f s = s\<lparr>net_Sockets := (net_Sockets s)[i := f (net_Sockets s ! i)]\<rparr>"

definition SocketOpen :: "SocketType \<Rightarrow> u16 \<Rightarrow> NetState \<Rightarrow> nat option \<times> NetState" where
  "SocketOpen type local_port s =
     (if type = NoSocket \<or> local_port = 0 then (None, s)
      else case find_index (\<lambda>k. \<not> so_open k) (net_Sockets s) of None \<Rightarrow> (None, s)
      | Some i \<Rightarrow> (Some i,
          upd_net_status (\<lambda>st. st\<lparr>socket_count := socket_count st + 1\<rparr>)
            (upd_socket i (\<lambda>k. \<lparr>so_id = g_NextSocketId s, so_type = type, so_local_port = local_port,
                so_remote_port = 0, so_open = True\<rparr>)
              (s\<lparr>g_NextSocketId := g_NextSocketId s + 1\<rparr>))))"

definition SocketConnect :: "nat \<Rightarrow> u16 \<Rightarrow> NetState \<Rightarrow> bool \<times> NetState" where
  "SocketConnect i remote_port s =
     (if \<not> so_open (net_Sockets s ! i) \<or> remote_port = 0 then (False, s)
      else (True, upd_socket i (\<lambda>k. k\<lparr>so_remote_port := remote_port\<rparr>) s))"

definition SocketClose :: "nat \<Rightarrow> NetState \<Rightarrow> bool \<times> NetState" where
  "SocketClose i s =
     (if \<not> so_open (net_Sockets s ! i) then (False, s)
      else (True, upd_net_status (\<lambda>st. if socket_count st > 0 then st\<lparr>socket_count := socket_count st - 1\<rparr> else st)
                    (upd_socket i (\<lambda>k. k\<lparr>so_open := False, so_type := NoSocket\<rparr>) s)))"

subsection \<open>Self-tests\<close>

definition RunEthernetSelfTest :: bool where
  "RunEthernetSelfTest =
     (let local_mac = \<lparr>mac_bytes = [0x52, 0x54, 0x00, 0x12, 0x34, 0x56]\<rparr>; broadcast = \<lparr>mac_bytes = replicate 6 0xFF\<rparr>
      in case BuildEthernetFrame local_mac broadcast EtherIpv4 (Some [1, 2, 3, 4]) 4 of None \<Rightarrow> False
         | Some frame \<Rightarrow> MacEquals (ef_source frame) local_mac \<and> MacEquals (ef_destination frame) broadcast \<and>
             ef_type frame = EtherIpv4)"

definition RunArpSelfTest :: bool where
  "RunArpSelfTest =
     (let local_mac = \<lparr>mac_bytes = [0x52, 0x54, 0x00, 0x12, 0x34, 0x56]\<rparr>; local_ip = \<lparr>ip4_bytes = [10, 0, 2, 15]\<rparr>;
          target_ip = \<lparr>ip4_bytes = [10, 0, 2, 2]\<rparr>
      in case BuildArpRequest local_mac local_ip target_ip of None \<Rightarrow> False
         | Some packet \<Rightarrow> arp_operation packet = 1 \<and> MacEquals (arp_sender_mac packet) local_mac \<and>
             Ipv4Equals (arp_target_ip packet) target_ip)"

definition RunIpv4SelfTest :: bool where
  "RunIpv4SelfTest =
     (let source = \<lparr>ip4_bytes = [10, 0, 2, 15]\<rparr>; destination = \<lparr>ip4_bytes = [1, 1, 1, 1]\<rparr>;
          header = [0x45, 0x00, 0x00, 0x18, 0x00, 0x01, 0x00, 0x00, 0x40, 0x01, 0x00, 0x00, 10, 0, 2, 15, 1, 1, 1, 1]
      in case BuildIpv4Packet source destination IpIcmp (Some [0x08, 0x00, 0, 0]) 4 of None \<Rightarrow> False
         | Some packet \<Rightarrow> p4_ttl packet = 64 \<and> Ipv4Checksum header 20 \<noteq> 0 \<and>
             Ipv4Equals (p4_destination packet) destination)"

definition RunIcmpSelfTest :: bool where
  "RunIcmpSelfTest = BuildIcmpEcho (Some [8, 0, 0, 0, 0x12, 0x34, 0, 1]) 8"

definition RunUdpSelfTest :: bool where
  "RunUdpSelfTest =
     (case BuildUdpDatagram 49152 kDnsPort (Some [of_char (CHR ''d''), of_char (CHR ''n''), of_char (CHR ''s'')]) 3 of
        None \<Rightarrow> False
      | Some datagram \<Rightarrow> ud_destination_port datagram = kDnsPort \<and> ud_payload_size datagram = 3)"

definition RunTcpSelfTest :: bool where
  "RunTcpSelfTest =
     (case BuildTcpSyn 49152 kHttpPort of None \<Rightarrow> False
      | Some segment \<Rightarrow> ts_flags segment = kTcpSyn \<and> ts_flags segment AND kTcpAck = 0)"

definition RunDhcpSelfTest :: bool where
  "RunDhcpSelfTest =
     (case BuildDhcpDiscover of None \<Rightarrow> False
      | Some datagram \<Rightarrow> ud_source_port datagram = kDhcpClientPort \<and> ud_destination_port datagram = kDhcpServerPort)"

definition RunDnsSelfTest :: bool where
  "RunDnsSelfTest =
     (case BuildDnsQuery of None \<Rightarrow> False
      | Some datagram \<Rightarrow> ud_destination_port datagram = kDnsPort \<and> ud_payload_size datagram = 12)"

definition RunHttpSelfTest :: bool where
  "RunHttpSelfTest =
     (case BuildHttpRequest of None \<Rightarrow> False
      | Some placeholder \<Rightarrow> ud_destination_port placeholder = kHttpPort \<and> ud_payload_size placeholder > 0)"

definition RunHttpsSelfTest :: bool where
  "RunHttpsSelfTest =
     (case BuildHttpsClientHello of None \<Rightarrow> False
      | Some segment \<Rightarrow> ts_destination_port segment = kHttpsPort \<and> ts_flags segment = kTcpSyn)"

definition RunSocketApiSelfTest :: "NetState \<Rightarrow> bool \<times> NetState" where
  "RunSocketApiSelfTest s =
     (let (udp, s1) = SocketOpen UdpSocket 49152 s; (tcp, s2) = SocketOpen TcpSocket 49153 s1
      in case udp of None \<Rightarrow> (False, s2)
         | Some u \<Rightarrow> (case tcp of None \<Rightarrow> (False, s2)
         | Some t \<Rightarrow>
             let (connected, s3) = SocketConnect t kHttpPort s2; (closed_udp, s4) = SocketClose u s3;
                 (closed_tcp, s5) = SocketClose t s4
             in (connected \<and> closed_udp \<and> closed_tcp \<and> socket_count (net_Status s5) = 0, s5)))"

definition RunIpv6SelfTest :: bool where
  "RunIpv6SelfTest =
     (let source = \<lparr>ip6_bytes = [0x20, 0x01, 0x0D, 0xB8, 0, 0, 0, 0, 0, 0, 0, 0, 0, 0, 0, 1]\<rparr>;
          destination = \<lparr>ip6_bytes = [0x20, 0x01, 0x0D, 0xB8, 0, 0, 0, 0, 0, 0, 0, 0, 0, 0, 0, 2]\<rparr>;
          payload = Some [128, 0, 0, 0, 0x12, 0x34, 0, 1];
          local_mac = \<lparr>mac_bytes = [0x52, 0x54, 0x00, 0x12, 0x34, 0x56]\<rparr>;
          router = \<lparr>mac_bytes = [0x52, 0x54, 0x00, 0x65, 0x43, 0x21]\<rparr>
      in case BuildIpv6Packet source destination IpIcmpv6 payload 8 of None \<Rightarrow> False
         | Some packet \<Rightarrow> (case BuildEthernetFrame local_mac router EtherIpv6 payload 8 of None \<Rightarrow> False
         | Some frame \<Rightarrow> p6_hop_limit packet = 64 \<and> p6_next_header packet = IpIcmpv6 \<and> ef_type frame = EtherIpv6 \<and>
             Ipv6Equals (p6_destination packet) destination))"

definition RunTlsSelfTest :: bool where
  "RunTlsSelfTest =
     (case BuildTlsClientHello of None \<Rightarrow> False
      | Some hello \<Rightarrow> tls_version hello = kTlsVersion12 \<and> tls_content_type hello = kTlsHandshakeRecord \<and>
          tls_cipher_suite hello = kTlsCipherTlsAes128GcmSha256 \<and> tls_random hello ! 0 = 0xA0 \<and> tls_random hello ! 31 = 0xBF)"

definition RunWebSocketSelfTest :: bool where
  "RunWebSocketSelfTest =
     (case BuildWebSocketHandshake (Some ''/ws'') of None \<Rightarrow> False
      | Some handshake \<Rightarrow> ws_method handshake ! 0 = CHR ''G'' \<and> ws_path handshake ! 0 = CHR ''/'' \<and>
          ws_upgrade handshake ! 0 = CHR ''w'' \<and> ws_connection handshake ! 0 = CHR ''U'' \<and> ws_key handshake ! 0 = CHR ''d'')"

definition RunMdnsSelfTest :: bool where
  "RunMdnsSelfTest =
     (case BuildMdnsQuery of None \<Rightarrow> False
      | Some datagram \<Rightarrow> ud_source_port datagram = kMdnsPort \<and> ud_destination_port datagram = kMdnsPort \<and>
          ud_payload_size datagram > 12)"

definition RunNtpSelfTest :: bool where
  "RunNtpSelfTest =
     (case BuildNtpClientRequest of None \<Rightarrow> False
      | Some datagram \<Rightarrow> ud_destination_port datagram = kNtpPort \<and> ud_payload_size datagram = 48 \<and>
          ud_payload datagram ! 0 = 0x23)"

subsection \<open>Initialisation and report\<close>

definition log_net :: "LogLevel \<Rightarrow> string \<Rightarrow> NetState \<Rightarrow> NetState" where
  "log_net level message s = s\<lparr>net_log := net_log s @ [(level, message)]\<rparr>"

definition KernelNetworkInit :: "NetState \<Rightarrow> bool \<times> NetState" where
  "KernelNetworkInit s =
     (let s = ResetNetworkStatus s;
          s = upd_net_status (\<lambda>st. st\<lparr>ethernet_ready := RunEthernetSelfTest, arp_ready := RunArpSelfTest,
                ipv4_ready := RunIpv4SelfTest, icmp_ready := RunIcmpSelfTest, udp_ready := RunUdpSelfTest,
                tcp_ready := RunTcpSelfTest, dhcp_ready := RunDhcpSelfTest, dns_ready := RunDnsSelfTest,
                http_ready := RunHttpSelfTest, https_ready := RunHttpsSelfTest\<rparr>) s;
          (ok, s) = RunSocketApiSelfTest s;
          s = upd_net_status (\<lambda>st. st\<lparr>socket_api_ready := ok, ipv6_ready := RunIpv6SelfTest, tls_ready := RunTlsSelfTest,
                websocket_ready := RunWebSocketSelfTest, mdns_ready := RunMdnsSelfTest, ntp_ready := RunNtpSelfTest\<rparr>) s;
          s = log_net Info ''Phase 14 networking initialized'' s;
          st = net_Status s
      in (ethernet_ready st \<and> arp_ready st \<and> ipv4_ready st \<and> icmp_ready st \<and> udp_ready st \<and> tcp_ready st \<and> dhcp_ready st \<and> dns_ready st \<and>
          http_ready st \<and> https_ready st \<and> socket_api_ready st \<and> ipv6_ready st \<and> tls_ready st \<and> websocket_ready st \<and> mdns_ready st \<and> ntp_ready st, s))"

definition KernelNetworkStatus :: "NetState \<Rightarrow> NetworkStatus" where
  "KernelNetworkStatus s = net_Status s"

definition net_report :: "bool \<Rightarrow> string \<Rightarrow> string \<Rightarrow> NetState \<Rightarrow> NetState" where
  "net_report ready yes no s = log_net (if ready then Info else Warn) (if ready then yes else no) s"

definition PrintNetworkInfo :: "NetState \<Rightarrow> NetState" where
  "PrintNetworkInfo s =
     (let st = net_Status s;
          s = net_report (ethernet_ready st) ''Ethernet framing ready'' ''Ethernet framing unavailable'' s;
          s = net_report (arp_ready st) ''ARP ready'' ''ARP unavailable'' s;
          s = net_report (ipv4_ready st) ''IPv4 ready'' ''IPv4 unavailable'' s;
          s = net_report (icmp_ready st) ''ICMP ready'' ''ICMP unavailable'' s;
          s = net_report (udp_ready st) ''UDP ready'' ''UDP unavailable'' s;
          s = net_report (tcp_ready st) ''TCP ready'' ''TCP unavailable'' s;
          s = net_report (dhcp_ready st) ''DHCP client scaffold ready'' ''DHCP client scaffold unavailable'' s;
          s = net_report (dns_ready st) ''DNS query scaffold ready'' ''DNS query scaffold unavailable'' s;
          s = net_report (http_ready st) ''HTTP request scaffold ready'' ''HTTP request scaffold unavailable'' s;
          s = net_report (https_ready st) ''HTTPS handshake scaffold ready'' ''HTTPS handshake scaffold unavailable'' s;
          s = net_report (socket_api_ready st) ''Socket API ready'' ''Socket API unavailable'' s;
          s = net_report (ipv6_ready st) ''IPv6 packet scaffold ready'' ''IPv6 packet scaffold unavailable'' s;
          s = net_report (tls_ready st) ''TLS ClientHello scaffold ready'' ''TLS ClientHello scaffold unavailable'' s;
          s = net_report (websocket_ready st) ''WebSocket upgrade scaffold ready'' ''WebSocket upgrade scaffold unavailable'' s;
          s = net_report (mdns_ready st) ''mDNS query scaffold ready'' ''mDNS query scaffold unavailable'' s;
          s = net_report (ntp_ready st) ''NTP request scaffold ready'' ''NTP request scaffold unavailable'' s
      in s)"

subsection \<open>The Internet checksum\<close>

text \<open>The sum of the big-endian 16-bit words of the first \<open>n\<close> bytes from \<open>i\<close>, an odd last byte padded with zero.\<close>

fun word_sum :: "u8 list \<Rightarrow> nat" where
  "word_sum [] = 0"
| "word_sum [a] = unat a * 256"
| "word_sum (a # b # bs) = unat a * 256 + unat b + word_sum bs"

text \<open>The one's complement sum of 16-bit words: 0 only if all words are.\<close>

definition ones_sum :: "nat \<Rightarrow> nat" where
  "ones_sum s = (if s = 0 then 0 else (s - 1) mod 65535 + 1)"

lemma join_word: "unat (ucast (push_bit 8 (ucast a) OR ucast b :: u16) :: u32) = unat (a :: u8) * 256 + unat (b :: u8)"
proof -
  have a: "unat a < 256" and b: "unat b < 256" using unsigned_less[of a] unsigned_less[of b] by simp_all
  have dj: "push_bit 8 (ucast a) AND ucast b = (0 :: u16)"
    by (rule bit_word_eqI) (auto simp: bit_and_iff bit_push_bit_iff bit_unsigned_iff dest: bit_imp_le_length)
  then have "push_bit 8 (ucast a) OR ucast b = push_bit 8 (ucast a) + (ucast b :: u16)"
    by (simp add: disjunctive_add_eq_or)
  moreover have "unat (push_bit 8 (ucast a) :: u16) = unat a * 256"
    using a by (simp add: push_bit_eq_mult unat_word_ariths unsigned_ucast_eq take_bit_nat_eq_self)
  ultimately show ?thesis
    using a b by (simp add: unat_word_ariths unsigned_ucast_eq take_bit_nat_eq_self)
qed

lemma word_sum_append: "even (length a) \<Longrightarrow> word_sum (a @ b) = word_sum a + word_sum b"
  by (induction a rule: word_sum.induct) auto

lemma word_sum_bound: "word_sum xs \<le> 65535 * ((length xs + 1) div 2)"
proof (induction xs rule: word_sum.induct)
  case (2 a)
  then show ?case using unsigned_less[of a, where 'a = nat] by simp
next
  case (3 a b bs)
  then show ?case using unsigned_less[of a, where 'a = nat] unsigned_less[of b, where 'a = nat] by simp
qed simp

lemma drop_two_take:
  assumes "Suc i < n" "n \<le> length d"
  shows "drop i (take n d) = d ! i # d ! Suc i # drop (Suc (Suc i)) (take n d)"
proof -
  have l: "i < length (take n d)" "Suc i < length (take n d)" using assms by simp_all
  have "drop i (take n d) = take n d ! i # take n d ! Suc i # drop (Suc (Suc i)) (take n d)"
    using Cons_nth_drop_Suc[OF l(1)] Cons_nth_drop_Suc[OF l(2)] by metis
  then show ?thesis using assms by simp
qed

lemma checksum_words_eq:
  assumes "unat n \<le> length d" "even (unat i)" "unat i \<le> unat n" "unat acc + word_sum (drop (unat i) (take (unat n) d)) < 2 ^ 32"
  shows "unat (checksum_words d n i acc) + (if odd (unat n) then unat (d ! (unat n - 1)) * 256 else 0) =
     unat acc + word_sum (drop (unat i) (take (unat n) d))"
  using assms
proof (induction d n i acc rule: checksum_words.induct)
  case (1 d n i acc)
  show ?case
  proof (cases "unat i + 1 < unat n")
    case True
    let ?w = "ucast (push_bit 8 (ucast (d ! unat i)) OR ucast (d ! (unat i + 1)) :: u16) :: u32"
    have split: "drop (unat i) (take (unat n) d) = d ! unat i # d ! Suc (unat i) # drop (unat (i + 2)) (take (unat n) d)"
      using drop_two_take[of "unat i" "unat n" d] True 1(2) unat_next_word[OF True] by simp
    have w: "unat ?w = unat (d ! unat i) * 256 + unat (d ! Suc (unat i))" using join_word by simp
    have sum: "unat acc + unat ?w + word_sum (drop (unat (i + 2)) (take (unat n) d)) < 2 ^ 32"
      using 1(5) split w by simp
    then have acc: "unat (acc + ?w) = unat acc + unat ?w" by (intro unat_add_no_wrap) simp
    have "unat (checksum_words d n (i + 2) (acc + ?w)) + (if odd (unat n) then unat (d ! (unat n - 1)) * 256 else 0) =
        unat (acc + ?w) + word_sum (drop (unat (i + 2)) (take (unat n) d))"
      by (rule 1(1)[OF True 1(2)]) (use 1(3,4) True unat_next_word[OF True] sum acc in simp_all)
    moreover have "checksum_words d n i acc = checksum_words d n (i + 2) (acc + ?w)"
      using True by (subst checksum_words.simps) simp
    ultimately show ?thesis using acc w split by simp
  next
    case False
    then have c: "checksum_words d n i acc = acc" by (subst checksum_words.simps) simp
    have "unat n = unat i \<or> unat n = Suc (unat i)" using False 1(4) by linarith
    then show ?thesis
    proof
      assume n: "unat n = Suc (unat i)"
      then have "drop (unat i) (take (unat n) d) = [d ! unat i]"
        using 1(2) by (simp add: take_Suc_conv_app_nth)
      then show ?thesis using n 1(3) c by simp
    qed (use 1(3) c in simp)
  qed
qed

lemma ones_sum_carry:
  assumes "65536 \<le> w"
  shows "ones_sum (w mod 65536 + w div 65536) = ones_sum w"
proof -
  define h l where "h = w div 65536" "l = w mod 65536"
  have w: "w = 65536 * h + l" and h: "1 \<le> h" using assms by (auto simp: h_l_def div_le_mono[of 65536 w 65536, simplified])
  have "w - 1 = 65535 * h + (h + l - 1)" using w h by simp
  then have "(w - 1) mod 65535 = (h + l - 1) mod 65535" by (metis mod_mult_self4)
  then show ?thesis using assms h by (simp add: ones_sum_def h_l_def add.commute)
qed

lemma ones_sum_small: "w < 65536 \<Longrightarrow> ones_sum w = w"
  by (simp add: ones_sum_def)

lemma checksum_fold_eq: "unat (checksum_fold w) = ones_sum (unat w)"
proof (induction w rule: checksum_fold.induct)
  case (1 w)
  have d: "drop_bit 16 w = 0 \<longleftrightarrow> unat w < 65536"
    using unat_drop_bit[of 16 w] by (auto simp: word_unat_eq_iff div_eq_0_iff)
  show ?case
  proof (cases "drop_bit 16 w = 0")
    case True
    then show ?thesis using d by (subst checksum_fold.simps) (simp add: ones_sum_small)
  next
    case False
    then have "checksum_fold w = checksum_fold ((w AND 0xFFFF) + drop_bit 16 w)" by (subst checksum_fold.simps) simp
    then show ?thesis using 1[OF False] False d by (simp add: fold_word ones_sum_carry)
  qed
qed

lemma ones_sum_le: "ones_sum s \<le> 65535"
  by (simp add: ones_sum_def Suc_le_eq)

lemma unat_not_low: "unat x \<le> 65535 \<Longrightarrow> unat (ucast (NOT (x :: u32)) :: u16) = 65535 - unat x"
proof -
  assume x: "unat x \<le> 65535"
  have "ucast (NOT x) = NOT (ucast x :: u16)" by (rule bit_word_eqI) (auto simp: bit_unsigned_iff bit_not_iff)
  moreover have "unat (ucast x :: u16) = unat x" using x by (simp add: unsigned_ucast_eq take_bit_nat_eq_self)
  moreover have "unat (NOT y) = 65535 - unat y" for y :: u16
  proof -
    have e: "NOT y = 0xFFFF - y" by (simp add: not_eq_complement)
    have "y \<le> 0xFFFF" using u16_lt[of y] by (simp add: word_le_nat_alt)
    then show ?thesis unfolding e by (simp add: unat_sub)
  qed
  ultimately show ?thesis by simp
qed


lemma Ipv4Checksum_value:
  assumes "unat n \<le> length d"
  shows "unat (Ipv4Checksum d n) = 65535 - ones_sum (word_sum (take (unat n) d))"
proof -
  let ?s = "word_sum (take (unat n) d)"
  let ?last = "if odd (unat n) then unat (d ! (unat n - 1)) * 256 else 0"
  have "?s \<le> 65535 * ((unat n + 1) div 2)" using word_sum_bound[of "take (unat n) d"] assms by simp
  also have "\<dots> < 2 ^ 32" using u16_lt[of n] by simp
  finally have b: "?s < 2 ^ 32" .
  define s1 where "s1 = checksum_words d n 0 0"
  have e: "unat s1 + ?last = ?s" using checksum_words_eq[OF assms, of 0 0] b by (simp add: s1_def)
  have odd: "n AND 1 \<noteq> 0 \<longleftrightarrow> odd (unat n)"
    using and_mask_mod[of n 1] by (simp add: mask_eq_exp_minus_1 odd_iff_mod_2_eq_one word_unat_eq_iff)
  define s2 where "s2 = (if n AND 1 \<noteq> 0 then s1 + ucast (push_bit 8 (ucast (d ! (unat n - 1))) :: u16) else s1)"
  have "unat s2 = ?s"
  proof (cases "odd (unat n)")
    case True
    have w: "unat (ucast (push_bit 8 (ucast (d ! (unat n - 1))) :: u16) :: u32) = unat (d ! (unat n - 1)) * 256"
      using join_word[of "d ! (unat n - 1)" 0] by simp
    have "unat (s1 + ucast (push_bit 8 (ucast (d ! (unat n - 1))) :: u16)) = unat s1 + unat (d ! (unat n - 1)) * 256"
      using e True w b unat_add_no_wrap[of s1 "ucast (push_bit 8 (ucast (d ! (unat n - 1))) :: u16)"] by simp
    then show ?thesis using True e odd by (simp add: s2_def)
  qed (use e odd in \<open>simp add: s2_def\<close>)
  then have "unat (checksum_fold s2) = ones_sum ?s" by (simp add: checksum_fold_eq)
  moreover have "Ipv4Checksum d n = ucast (NOT (checksum_fold s2))"
    by (simp add: Ipv4Checksum_def s2_def s1_def Let_def)
  ultimately show ?thesis using unat_not_low[of "checksum_fold s2"] ones_sum_le by simp
qed

text \<open>
  C19. The checksum of a block of up to 65535 bytes is the one's complement of the one's
  complement sum of its big-endian 16-bit words, an odd last byte padded with a zero byte:
  the 32-bit accumulation and the folding of the carries lose nothing, whatever the bytes.
\<close>

theorem ip_checksum_is_ones_complement_sum:
  assumes "unat n \<le> length d"
  shows "unat (Ipv4Checksum d n) = 65535 - ones_sum (word_sum (take (unat n) d))"
  by (rule Ipv4Checksum_value[OF assms])

lemma ip_checksum_is_ones_complement_sum_witness:
  "unat (Ipv4Checksum [0x45, 0x00, 0xFF] 3) = 65535 - (0x4500 + 0xFF00 - 65535)"
  using ip_checksum_is_ones_complement_sum[of 3 "[0x45, 0x00, 0xFF]"] by (simp add: ones_sum_def)

lemma word_sum_field: "unat (ucast (drop_bit 8 c) :: u8) * 256 + unat (ucast c :: u8) = unat (c :: u16)"
proof -
  have "unat (ucast (drop_bit 8 c) :: u8) = unat c div 256" using u16_lt[of c]
    by (simp add: unsigned_ucast_eq unat_drop_bit take_bit_nat_def)
  moreover have "unat (ucast c :: u8) = unat c mod 256" by (simp add: unsigned_ucast_eq take_bit_nat_def)
  ultimately show ?thesis by simp
qed

lemma unat_of_nat_u16: "k < 65536 \<Longrightarrow> unat (of_nat k :: u16) = k"
  by (simp add: unat_of_nat take_bit_nat_eq_self)

lemma ones_sum_complement: "ones_sum (s + (65535 - ones_sum s)) = 65535"
proof (cases "s = 0")
  case False
  define r where "r = (s - 1) mod 65535"
  have r: "r < 65535" by (simp add: r_def)
  obtain q where q: "s - 1 = 65535 * q + r" by (metis r_def mult_div_mod_eq)
  then have "s + (65535 - ones_sum s) = 65535 * q + 65535" using False r by (simp add: ones_sum_def r_def[symmetric])
  moreover have "(65535 * q + 65534) mod 65535 = (65534 :: nat)" by simp
  ultimately show ?thesis by (simp add: ones_sum_def)
qed (simp add: ones_sum_def)

text \<open>
  A receiver's check succeeds: storing the checksum of a block, computed with the
  checksum field zero, into that field (at an even offset, big endian) gives a block whose
  checksum is zero.
\<close>

lemma ip_checksum_verifies:
  assumes "even (length a)" "length a + 2 + length b < 65536"
  defines "n \<equiv> of_nat (length a + 2 + length b)"
  defines "c \<equiv> Ipv4Checksum (a @ [0, 0] @ b) n"
  shows "Ipv4Checksum (a @ [ucast (drop_bit 8 c), ucast c] @ b) n = 0"
proof -
  have n: "unat n = length a + 2 + length b" unfolding n_def by (rule unat_of_nat_u16[OF assms(2)])
  let ?s = "word_sum a + word_sum b"
  have "unat c = 65535 - ones_sum ?s"
    unfolding c_def using Ipv4Checksum_value[of n "a @ [0, 0] @ b"] n assms(1) by (simp add: word_sum_append)
  moreover have "word_sum (a @ [ucast (drop_bit 8 c), ucast c] @ b) = ?s + unat c"
    using assms(1) word_sum_field[of c] by (simp add: word_sum_append)
  ultimately have "ones_sum (word_sum (a @ [ucast (drop_bit 8 c), ucast c] @ b)) = 65535"
    using ones_sum_complement[of ?s] by simp
  then show ?thesis
    using Ipv4Checksum_value[of n "a @ [ucast (drop_bit 8 c), ucast c] @ b"] n by (simp add: word_unat_eq_iff)
qed

lemma ip_checksum_verifies_witness:
  "Ipv4Checksum ([0x45, 0x00, 0x00, 0x18, 0x00, 0x01, 0x00, 0x00, 0x40, 0x01] @ [0x6C, 0xD4] @ [10, 0, 2, 15, 1, 1, 1, 1]) 20 = 0"
proof -
  let ?a = "[0x45, 0x00, 0x00, 0x18, 0x00, 0x01, 0x00, 0x00, 0x40, 0x01] :: u8 list" and ?b = "[10, 0, 2, 15, 1, 1, 1, 1] :: u8 list"
  have "unat (Ipv4Checksum (?a @ [0, 0] @ ?b) 20) = unat (0x6CD4 :: u16)"
    using Ipv4Checksum_value[of 20 "?a @ [0, 0] @ ?b"] by (simp add: ones_sum_def)
  then have c: "Ipv4Checksum (?a @ [0, 0] @ ?b) 20 = 0x6CD4" by (simp only: word_unat_eq_iff)
  have n: "(of_nat (length ?a + 2 + length ?b) :: u16) = 20" by simp
  have bytes: "(ucast (drop_bit 8 (0x6CD4 :: u16)) :: u8) = 0x6C" "(ucast (0x6CD4 :: u16) :: u8) = 0xD4" by simp_all
  show ?thesis using ip_checksum_verifies[of ?a ?b, unfolded n c bytes] by simp
qed

subsection \<open>The socket table\<close>

definition net_ok :: "NetState \<Rightarrow> bool" where
  "net_ok s \<longleftrightarrow> length (net_Sockets s) = 16 \<and> unat (socket_count (net_Status s)) = count_if so_open (net_Sockets s)"

lemma SocketOpen_ok:
  assumes "net_ok s" "SocketOpen t p s = (r, s')"
  shows "net_ok s'" "r \<noteq> None \<longleftrightarrow> t \<noteq> NoSocket \<and> p \<noteq> 0 \<and> unat (socket_count (net_Status s)) < 16"
proof -
  have room: "find_index (\<lambda>k. \<not> so_open k) (net_Sockets s) \<noteq> None \<longleftrightarrow> unat (socket_count (net_Status s)) < 16"
  proof -
    have "filter so_open xs = xs" if "\<forall>x \<in> set xs. so_open x" for xs using that by simp
    then have "count_if so_open xs < length xs \<longleftrightarrow> (\<exists>x \<in> set xs. \<not> so_open x)" for xs
      unfolding count_if_def by (metis length_filter_less order_less_irrefl)
    from this[of "net_Sockets s"] show ?thesis using assms(1) by (simp add: find_index_None net_ok_def)
  qed
  have "r \<noteq> None \<longleftrightarrow> t \<noteq> NoSocket \<and> p \<noteq> 0 \<and> find_index (\<lambda>k. \<not> so_open k) (net_Sockets s) \<noteq> None"
  proof (cases "find_index (\<lambda>k. \<not> so_open k) (net_Sockets s)")
    case None
    then show ?thesis using assms(2) by (auto simp: SocketOpen_def split: if_splits)
  next
    case (Some i)
    show ?thesis using assms(2) by (cases "t = NoSocket \<or> p = 0") (auto simp: SocketOpen_def Some)
  qed
  then show "r \<noteq> None \<longleftrightarrow> t \<noteq> NoSocket \<and> p \<noteq> 0 \<and> unat (socket_count (net_Status s)) < 16"
    using room by simp
  show "net_ok s'"
  proof (cases "t = NoSocket \<or> p = 0 \<or> find_index (\<lambda>k. \<not> so_open k) (net_Sockets s) = None")
    case True
    then show ?thesis using assms by (auto simp: SocketOpen_def split: option.splits)
  next
    case False
    then obtain i where i: "find_index (\<lambda>k. \<not> so_open k) (net_Sockets s) = Some i" by auto
    note I = find_indexD[OF i]
    have "unat (socket_count (net_Status s) + 1) = Suc (unat (socket_count (net_Status s)))"
      using room i by (simp add: unat_word_ariths)
    then show ?thesis
      using assms False i I count_if_update[OF I(1), of so_open]
      by (auto simp: SocketOpen_def net_ok_def upd_net_status_def upd_socket_def)
  qed
qed

lemma SocketConnect_ok:
  assumes "net_ok s" "i < 16"
  shows "net_ok (snd (SocketConnect i p s))"
  using assms count_if_update[of i "net_Sockets s" so_open "(net_Sockets s ! i)\<lparr>so_remote_port := p\<rparr>"]
  by (auto simp: SocketConnect_def net_ok_def upd_socket_def)

lemma SocketClose_ok:
  assumes "net_ok s" "i < 16"
  shows "net_ok (snd (SocketClose i s))"
proof (cases "so_open (net_Sockets s ! i)")
  case True
  have l: "i < length (net_Sockets s)" using assms by (simp add: net_ok_def)
  have "0 < count_if so_open (net_Sockets s)" using count_if_pos[OF l, of so_open] True by simp
  then have "socket_count (net_Status s) > 0" "unat (socket_count (net_Status s) - 1) = unat (socket_count (net_Status s)) - 1"
    using assms(1) by (simp_all add: net_ok_def word_less_nat_alt unat_sub_no_wrap word_le_nat_alt)
  then show ?thesis
    using assms True count_if_update[OF l, of so_open "(net_Sockets s ! i)\<lparr>so_open := False, so_type := NoSocket\<rparr>"]
    by (auto simp: SocketClose_def net_ok_def upd_net_status_def upd_socket_def)
qed (use assms in \<open>simp add: SocketClose_def\<close>)


datatype net_op = Open_op SocketType u16 | Connect_op nat u16 | Close_op nat | NetBoot_op

fun net_exec :: "net_op \<Rightarrow> NetState \<Rightarrow> NetState" where
  "net_exec (Open_op t p) s = snd (SocketOpen t p s)"
| "net_exec (Connect_op i p) s = snd (SocketConnect i p s)"
| "net_exec (Close_op i) s = snd (SocketClose i s)"
| "net_exec NetBoot_op s = snd (KernelNetworkInit s)"

text \<open>References point into the table.\<close>

fun socket_ref_ok :: "net_op \<Rightarrow> bool" where
  "socket_ref_ok (Connect_op i p) \<longleftrightarrow> i < 16"
| "socket_ref_ok (Close_op i) \<longleftrightarrow> i < 16"
| "socket_ref_ok op \<longleftrightarrow> True"

lemma Reset_net_ok: "net_ok (ResetNetworkStatus s)"
  by (simp add: net_ok_def ResetNetworkStatus_def no_net_status_def count_if_def kMaxSockets_def)

lemma RunSocketApiSelfTest_passes:
  assumes "net_Sockets s = replicate 16 \<lparr>so_id = 0, so_type = NoSocket, so_local_port = 0, so_remote_port = 0, so_open = False\<rparr>"
    "socket_count (net_Status s) = 0"
  shows "\<exists>xs n. RunSocketApiSelfTest s = (True, s\<lparr>net_Sockets := xs, g_NextSocketId := n\<rparr>) \<and> length xs = 16 \<and> count_if so_open xs = 0"
proof -
  let ?e = "\<lparr>so_id = 0, so_type = NoSocket, so_local_port = 0, so_remote_port = 0, so_open = False\<rparr>"
  have r: "replicate 16 ?e = ?e # ?e # replicate 14 ?e" by (simp add: numeral_eq_Suc)
  show ?thesis
    by (rule exI[of _ "\<lparr>so_id = g_NextSocketId s, so_type = NoSocket, so_local_port = 49152, so_remote_port = 0, so_open = False\<rparr> #
        \<lparr>so_id = g_NextSocketId s + 1, so_type = NoSocket, so_local_port = 49153, so_remote_port = 80, so_open = False\<rparr> #
        replicate 14 ?e"], rule exI[of _ "g_NextSocketId s + 2"])
      (simp add: RunSocketApiSelfTest_def SocketOpen_def SocketConnect_def SocketClose_def upd_socket_def upd_net_status_def
        assms r kHttpPort_def count_if_def)
qed

lemma network_self_tests:
  "RunEthernetSelfTest" "RunArpSelfTest" "RunIcmpSelfTest" "RunUdpSelfTest" "RunTcpSelfTest"
  "RunDhcpSelfTest" "RunDnsSelfTest" "RunHttpSelfTest" "RunHttpsSelfTest" "RunIpv6SelfTest" "RunTlsSelfTest"
  "RunWebSocketSelfTest" "RunMdnsSelfTest" "RunNtpSelfTest"
  by code_simp+

lemma bytes_equal_refl: "bytes_equal is a a"
  by (induction "is") auto

lemma RunIpv4SelfTest_passes: "RunIpv4SelfTest"
proof -
  let ?h = "[0x45, 0x00, 0x00, 0x18, 0x00, 0x01, 0x00, 0x00, 0x40, 0x01, 0x00, 0x00, 10, 0, 2, 15, 1, 1, 1, 1] :: u8 list"
  have "unat (Ipv4Checksum ?h 20) = 0x6CD4" using Ipv4Checksum_value[of 20 ?h] by (simp add: ones_sum_def)
  then have "Ipv4Checksum ?h 20 \<noteq> 0" by auto
  then show ?thesis by (simp add: RunIpv4SelfTest_def BuildIpv4Packet_def Ipv4Equals_def bytes_equal_refl)
qed

definition net_flags :: "NetworkStatus \<Rightarrow> bool list" where
  "net_flags st = [ethernet_ready st, arp_ready st, ipv4_ready st, icmp_ready st, udp_ready st, tcp_ready st,
     dhcp_ready st, dns_ready st, http_ready st, https_ready st, socket_api_ready st, ipv6_ready st, tls_ready st,
     websocket_ready st, mdns_ready st, ntp_ready st]"

lemma KernelNetworkInit_boots:
  "\<exists>s'. KernelNetworkInit s = (True, s') \<and> net_ok s' \<and> count_if so_open (net_Sockets s') = 0 \<and>
     net_flags (net_Status s') = replicate 16 True \<and> net_log s' = net_log s @ [(Info, ''Phase 14 networking initialized'')]"
proof -
  define s1 where "s1 = upd_net_status (\<lambda>st. st\<lparr>ethernet_ready := True, arp_ready := True,
                ipv4_ready := True, icmp_ready := True, udp_ready := True,
                tcp_ready := True, dhcp_ready := True, dns_ready := True,
                http_ready := True, https_ready := True\<rparr>) (ResetNetworkStatus s)"
  have "net_Sockets s1 = replicate 16 \<lparr>so_id = 0, so_type = NoSocket, so_local_port = 0, so_remote_port = 0, so_open = False\<rparr>"
    "socket_count (net_Status s1) = 0"
    by (simp_all add: s1_def upd_net_status_def ResetNetworkStatus_def no_net_status_def kMaxSockets_def)
  from RunSocketApiSelfTest_passes[OF this] obtain xs n where
    r: "RunSocketApiSelfTest s1 = (True, s1\<lparr>net_Sockets := xs, g_NextSocketId := n\<rparr>)" "length xs = 16" "count_if so_open xs = 0"
    by blast
  show ?thesis
    unfolding KernelNetworkInit_def Let_def
    by (simp add: network_self_tests RunIpv4SelfTest_passes s1_def[symmetric] r(1))
      (simp add: upd_net_status_def log_net_def net_ok_def net_flags_def r(2,3) s1_def ResetNetworkStatus_def no_net_status_def
        numeral_eq_Suc)
qed

text \<open>
  Booting the network stack always succeeds, whatever its state was: every self-test
  passes, no socket stays open and one line is logged.
\<close>

lemma network_boot_succeeds:
  "\<exists>s'. KernelNetworkInit s = (True, s') \<and> count_if so_open (net_Sockets s') = 0 \<and> socket_count (net_Status s') = 0 \<and>
     net_flags (net_Status s') = replicate 16 True \<and> net_log s' = net_log s @ [(Info, ''Phase 14 networking initialized'')]"
  using KernelNetworkInit_boots[of s] by (auto simp: net_ok_def unat_eq_0)

lemma net_exec_ok:
  assumes "net_ok s" "socket_ref_ok op"
  shows "net_ok (net_exec op s)"
proof (cases op)
  case (Open_op t p)
  then show ?thesis using SocketOpen_ok(1)[OF assms(1)] by (metis net_exec.simps(1) prod.collapse)
next
  case NetBoot_op
  then show ?thesis using KernelNetworkInit_boots[of s] by auto
qed (use assms SocketConnect_ok SocketClose_ok in auto)

text \<open>
  After a boot and any sequence of opens, connects, closes and further boots, the socket
  count is exactly the number of open sockets and at most 16, and a socket can be opened
  exactly when its type and port are given and fewer than 16 are open.
\<close>

lemma socket_table_exact:
  fixes s0 :: NetState
  assumes "\<forall>op \<in> set ops. socket_ref_ok op"
  defines "s \<equiv> foldl (\<lambda>s op. net_exec op s) (snd (KernelNetworkInit s0)) ops"
  shows "unat (socket_count (net_Status s)) = count_if so_open (net_Sockets s) \<and> count_if so_open (net_Sockets s) \<le> 16 \<and>
    (fst (SocketOpen t p s) \<noteq> None \<longleftrightarrow> t \<noteq> NoSocket \<and> p \<noteq> 0 \<and> count_if so_open (net_Sockets s) < 16)"
proof -
  have "net_ok t \<Longrightarrow> \<forall>op \<in> set ops. socket_ref_ok op \<Longrightarrow> net_ok (foldl (\<lambda>s op. net_exec op s) t ops)" for t
    by (induction ops arbitrary: t) (simp_all add: net_exec_ok)
  then have ok: "net_ok s" using KernelNetworkInit_boots[of s0] assms by auto
  then show ?thesis
    using SocketOpen_ok(2)[OF ok, of t p "fst (SocketOpen t p s)" "snd (SocketOpen t p s)"]
      count_if_le_length[of so_open "net_Sockets s"] by (simp add: net_ok_def)
qed

definition blank_net :: NetState where
  "blank_net = \<lparr>net_Status = no_net_status, net_Sockets = [], g_NextSocketId = 0, net_log = []\<rparr>"

lemma socket_table_exact_witness:
  "\<exists>s. s = foldl (\<lambda>s op. net_exec op s) (snd (KernelNetworkInit blank_net)) [Open_op UdpSocket 53, Connect_op 0 99, Close_op 0, Close_op 0] \<and>
     unat (socket_count (net_Status s)) = count_if so_open (net_Sockets s) \<and>
     (fst (SocketOpen TcpSocket 0 s) = None) \<and> (fst (SocketOpen TcpSocket 80 s) = None \<longrightarrow> count_if so_open (net_Sockets s) = 16)"
proof -
  let ?ops = "[Open_op UdpSocket 53, Connect_op 0 99, Close_op 0, Close_op 0]"
  define s where "s = foldl (\<lambda>s op. net_exec op s) (snd (KernelNetworkInit blank_net)) ?ops"
  have r: "\<forall>op \<in> set ?ops. socket_ref_ok op" by simp
  note T = socket_table_exact[OF r, of blank_net TcpSocket, folded s_def]
  show ?thesis using T[of 0] T[of 80] s_def by (intro exI[of _ s]) auto
qed

end
