(* ===== verification/Security.thy ===== *)
theory Security
  imports Console
begin

text \<open>
  \<^verbatim>\<open>kernel/src/security.cpp\<close>: users and permissions, access policies, process isolation
  domains, memory region protection, address space randomisation, the random generator and
  stack canaries, the boot self-tests and \<open>KernelSecurityInit\<close>. The tables and \<open>g_Status\<close>,
  \<open>g_Random\<close> and \<open>g_StackCanary\<close> are the record \<open>SecState\<close>; a pointer to a table entry is its
  index.
\<close>

subsection \<open>Data\<close>

datatype SecurityRole = GuestRole | UserRole | AdminRole

datatype Permission = PermRead | PermWrite | PermExecute | PermNetwork | PermAdmin

fun perm_value :: "Permission \<Rightarrow> u16" where
  "perm_value PermRead = 0x01"
| "perm_value PermWrite = 0x02"
| "perm_value PermExecute = 0x04"
| "perm_value PermNetwork = 0x08"
| "perm_value PermAdmin = 0x10"

definition perms :: "Permission list \<Rightarrow> u16" where
  "perms ps = foldr (\<lambda>p w. perm_value p OR w) ps 0"

datatype VmProtection = UserReadable | UserWritable | UserExecutable | KernelOnly | NoExecute

fun vm_value :: "VmProtection \<Rightarrow> u8" where
  "vm_value UserReadable = 0x01"
| "vm_value UserWritable = 0x02"
| "vm_value UserExecutable = 0x04"
| "vm_value KernelOnly = 0x08"
| "vm_value NoExecute = 0x10"

definition vm_bits :: "VmProtection list \<Rightarrow> u8" where
  "vm_bits ps = foldr (\<lambda>p w. vm_value p OR w) ps 0"

record SecurityUser =
  su_uid :: u32
  su_name :: cstring
  su_role :: SecurityRole
  su_permissions :: u16
  su_active :: bool

record AccessPolicy =
  ap_resource :: cstring
  ap_owner_uid :: u32
  ap_owner_permissions :: u16
  ap_other_permissions :: u16
  ap_active :: bool

record ProcessIsolationDomain =
  pd_process_id :: u64
  pd_uid :: u32
  pd_address_space_id :: u64
  pd_ipc_restricted :: bool
  pd_active :: bool

record VmRegionPolicy =
  vr_base :: u64
  vr_size :: u64
  vr_protection :: u8
  vr_active :: bool

record RandomGenerator =
  rg_state :: u64
  rg_seeded :: bool

record StackCanary =
  sc_value :: u64
  sc_active :: bool

definition kMaxUsers :: u32 where "kMaxUsers = 8"
definition kMaxPolicies :: u32 where "kMaxPolicies = 8"
definition kMaxDomains :: nat where "kMaxDomains = 8"
definition kMaxVmRegions :: nat where "kMaxVmRegions = 8"
definition kUserAslrBase :: u64 where "kUserAslrBase = 0x400000"
definition kKernelAslrBase :: u64 where "kKernelAslrBase = 0xFFFFFFFF80000000"
definition kAslrPageMask :: u64 where "kAslrPageMask = 0xFFFFF"
definition kKernelAslrPageMask :: u64 where "kKernelAslrPageMask = 0x7FFFF"
definition kStackCanaryTerminator :: u64 where "kStackCanaryTerminator = 0x00FF0A0000000000"

record SecurityStatus =
  users_ready :: bool
  permissions_ready :: bool
  access_control_ready :: bool
  process_isolation_ready :: bool
  virtual_memory_protection_ready :: bool
  aslr_ready :: bool
  stack_canaries_ready :: bool
  nx_pages_ready :: bool
  secure_random_ready :: bool
  kaslr_ready :: bool
  user_count :: u32
  policy_count :: u32

record SecState =
  sec_Status :: SecurityStatus
  g_Users :: "SecurityUser list"
  g_Policies :: "AccessPolicy list"
  g_Domains :: "ProcessIsolationDomain list"
  g_VmRegions :: "VmRegionPolicy list"
  g_Random :: RandomGenerator
  g_StackCanary :: StackCanary
  sec_log :: klog

definition no_sec_status :: SecurityStatus where
  "no_sec_status = \<lparr>users_ready = False, permissions_ready = False, access_control_ready = False, process_isolation_ready = False, virtual_memory_protection_ready = False, aslr_ready = False, stack_canaries_ready = False, nx_pages_ready = False, secure_random_ready = False, kaslr_ready = False, user_count = 0, policy_count = 0\<rparr>"

definition ResetSecurityStatus :: "SecState \<Rightarrow> SecState" where
  "ResetSecurityStatus s = s\<lparr>sec_Status := no_sec_status,
     g_Users := replicate (unat kMaxUsers)
       \<lparr>su_uid = 0, su_name = None, su_role = GuestRole, su_permissions = 0, su_active = False\<rparr>,
     g_Policies := replicate (unat kMaxPolicies)
       \<lparr>ap_resource = None, ap_owner_uid = 0, ap_owner_permissions = 0, ap_other_permissions = 0, ap_active = False\<rparr>,
     g_Domains := replicate kMaxDomains
       \<lparr>pd_process_id = 0, pd_uid = 0, pd_address_space_id = 0, pd_ipc_restricted = False, pd_active = False\<rparr>,
     g_VmRegions := replicate kMaxVmRegions \<lparr>vr_base = 0, vr_size = 0, vr_protection = 0, vr_active = False\<rparr>,
     g_Random := \<lparr>rg_state = 0, rg_seeded = False\<rparr>, g_StackCanary := \<lparr>sc_value = 0, sc_active = False\<rparr>\<rparr>"

definition upd_sec_status :: "(SecurityStatus \<Rightarrow> SecurityStatus) \<Rightarrow> SecState \<Rightarrow> SecState" where
  "upd_sec_status f s = s\<lparr>sec_Status := f (sec_Status s)\<rparr>"

subsection \<open>Users and access\<close>

definition CreateUser :: "u32 \<Rightarrow> cstring \<Rightarrow> SecurityRole \<Rightarrow> u16 \<Rightarrow> SecState \<Rightarrow> nat option \<times> SecState" where
  "CreateUser uid name role permissions s =
     (let n = user_count (sec_Status s) in
      if uid = 0 \<or> name = None \<or> n \<ge> kMaxUsers then (None, s)
      else (Some (unat n), upd_sec_status (\<lambda>st. st\<lparr>user_count := n + 1\<rparr>)
        (s\<lparr>g_Users := (g_Users s)[unat n :=
             \<lparr>su_uid = uid, su_name = name, su_role = role, su_permissions = permissions, su_active = True\<rparr>]\<rparr>)))"

definition FindUser :: "SecState \<Rightarrow> u32 \<Rightarrow> nat option" where
  "FindUser s uid = find_index (\<lambda>u. su_active u \<and> su_uid u = uid) (take (unat (user_count (sec_Status s))) (g_Users s))"

definition HasUserPermission :: "SecurityUser \<Rightarrow> u16 \<Rightarrow> bool" where
  "HasUserPermission user permission \<longleftrightarrow> su_permissions user AND permission = permission"

definition AddAccessPolicy :: "cstring \<Rightarrow> u32 \<Rightarrow> u16 \<Rightarrow> u16 \<Rightarrow> SecState \<Rightarrow> nat option \<times> SecState" where
  "AddAccessPolicy resource owner_uid owner_permissions other_permissions s =
     (let n = policy_count (sec_Status s) in
      if resource = None \<or> FindUser s owner_uid = None \<or> n \<ge> kMaxPolicies then (None, s)
      else (Some (unat n), upd_sec_status (\<lambda>st. st\<lparr>policy_count := n + 1\<rparr>)
        (s\<lparr>g_Policies := (g_Policies s)[unat n :=
             \<lparr>ap_resource = resource, ap_owner_uid = owner_uid, ap_owner_permissions = owner_permissions,
              ap_other_permissions = other_permissions, ap_active = True\<rparr>]\<rparr>)))"

definition FindPolicy :: "SecState \<Rightarrow> cstring \<Rightarrow> nat option" where
  "FindPolicy s resource = find_index (\<lambda>p. ap_active p \<and> StringEquals (ap_resource p) resource)
     (take (unat (policy_count (sec_Status s))) (g_Policies s))"

definition CheckAccess :: "SecState \<Rightarrow> u32 \<Rightarrow> cstring \<Rightarrow> u16 \<Rightarrow> bool" where
  "CheckAccess s uid resource permission =
     (case FindUser s uid of None \<Rightarrow> False
      | Some u \<Rightarrow> (case FindPolicy s resource of None \<Rightarrow> False
      | Some p \<Rightarrow>
          if HasUserPermission (g_Users s ! u) (perm_value PermAdmin) then True
          else let policy = g_Policies s ! p;
                   allowed = (if ap_owner_uid policy = uid then ap_owner_permissions policy else ap_other_permissions policy)
               in allowed AND permission = permission))"

subsection \<open>Process isolation and memory regions\<close>

definition AddProcessIsolationDomain :: "u64 \<Rightarrow> u32 \<Rightarrow> u64 \<Rightarrow> bool \<Rightarrow> SecState \<Rightarrow> nat option \<times> SecState" where
  "AddProcessIsolationDomain process_id uid address_space_id ipc_restricted s =
     (if process_id = 0 \<or> address_space_id = 0 \<or> FindUser s uid = None then (None, s)
      else case find_index (\<lambda>d. \<not> pd_active d) (g_Domains s) of None \<Rightarrow> (None, s)
      | Some i \<Rightarrow> (Some i, s\<lparr>g_Domains := (g_Domains s)[i :=
             \<lparr>pd_process_id = process_id, pd_uid = uid, pd_address_space_id = address_space_id,
              pd_ipc_restricted = ipc_restricted, pd_active = True\<rparr>]\<rparr>))"

text \<open>The domain loop keeps the last entry that matches.\<close>

definition last_domain :: "SecState \<Rightarrow> u64 \<Rightarrow> nat option" where
  "last_domain s process_id = foldl (\<lambda>d i. if pd_active (g_Domains s ! i) \<and> pd_process_id (g_Domains s ! i) = process_id
     then Some i else d) None [0 ..< kMaxDomains]"

definition ProcessesAreIsolated :: "SecState \<Rightarrow> u64 \<Rightarrow> u64 \<Rightarrow> bool" where
  "ProcessesAreIsolated s lhs_process_id rhs_process_id =
     (case last_domain s lhs_process_id of None \<Rightarrow> False
      | Some l \<Rightarrow> (case last_domain s rhs_process_id of None \<Rightarrow> False
      | Some r \<Rightarrow> pd_address_space_id (g_Domains s ! l) \<noteq> pd_address_space_id (g_Domains s ! r) \<and>
          pd_ipc_restricted (g_Domains s ! l) \<and> pd_ipc_restricted (g_Domains s ! r)))"

definition AddVmRegion :: "u64 \<Rightarrow> u64 \<Rightarrow> u8 \<Rightarrow> SecState \<Rightarrow> nat option \<times> SecState" where
  "AddVmRegion base sz protection s =
     (if base = 0 \<or> sz = 0 then (None, s)
      else case find_index (\<lambda>r. \<not> vr_active r) (g_VmRegions s) of None \<Rightarrow> (None, s)
      | Some i \<Rightarrow> (Some i, s\<lparr>g_VmRegions := (g_VmRegions s)[i :=
             \<lparr>vr_base = base, vr_size = sz, vr_protection = protection, vr_active = True\<rparr>]\<rparr>))"

definition VmAccessAllowed :: "VmRegionPolicy \<Rightarrow> bool \<Rightarrow> bool \<Rightarrow> bool \<Rightarrow> bool" where
  "VmAccessAllowed region write execute kernel_mode =
     (if vr_protection region AND vm_value KernelOnly \<noteq> 0 \<and> \<not> kernel_mode then False
      else if write \<and> vr_protection region AND vm_value UserWritable = 0 then False
      else if execute \<and> (vr_protection region AND vm_value UserExecutable = 0 \<or> vr_protection region AND vm_value NoExecute \<noteq> 0)
      then False else True)"

definition VmRegionHasNx :: "VmRegionPolicy \<Rightarrow> bool" where
  "VmRegionHasNx region \<longleftrightarrow> vr_protection region AND vm_value NoExecute \<noteq> 0"

subsection \<open>Randomness\<close>

definition MixSecurityEntropy :: "u64 \<Rightarrow> u64" where
  "MixSecurityEntropy v0 =
     (let v1 = v0 XOR drop_bit 33 v0; v2 = v1 * 0xFF51AFD7ED558CCD; v3 = v2 XOR drop_bit 33 v2;
          v4 = v3 * 0xC4CEB9FE1A85EC53
      in v4 XOR drop_bit 33 v4)"

definition SeedSecureRandom :: "u64 \<Rightarrow> SecState \<Rightarrow> bool \<times> SecState" where
  "SeedSecureRandom seed s =
     (if seed = 0 then (False, s)
      else let state = MixSecurityEntropy seed
           in (state \<noteq> 0, s\<lparr>g_Random := \<lparr>rg_state = state, rg_seeded = (state \<noteq> 0)\<rparr>\<rparr>))"

definition SecureRandom64 :: "SecState \<Rightarrow> u64 \<times> SecState" where
  "SecureRandom64 s =
     (if \<not> rg_seeded (g_Random s) then (0, s)
      else let x0 = rg_state (g_Random s); x1 = x0 XOR push_bit 13 x0; x2 = x1 XOR drop_bit 7 x1; x3 = x2 XOR push_bit 17 x2
           in (x3, s\<lparr>g_Random := (g_Random s)\<lparr>rg_state := x3\<rparr>\<rparr>))"

definition GenerateAslrOffset :: "u64 \<Rightarrow> u64 \<Rightarrow> u64" where
  "GenerateAslrOffset image_id salt = push_bit 12 (MixSecurityEntropy (image_id XOR salt) AND kAslrPageMask)"

definition GenerateKernelAslrOffset :: "u64 \<Rightarrow> u64 \<Rightarrow> u64" where
  "GenerateKernelAslrOffset image_id salt = push_bit 12 (MixSecurityEntropy (image_id XOR salt) AND kKernelAslrPageMask)"

definition ApplyUserAslr :: "u64 \<Rightarrow> u64 \<Rightarrow> u64" where
  "ApplyUserAslr image_id salt = kUserAslrBase + GenerateAslrOffset image_id salt"

definition ApplyKernelAslr :: "u64 \<Rightarrow> u64" where
  "ApplyKernelAslr boot_seed = kKernelAslrBase + GenerateKernelAslrOffset 0xC0DEF00D boot_seed"

definition GenerateStackCanary :: "u64 \<Rightarrow> SecState \<Rightarrow> u64 \<times> SecState" where
  "GenerateStackCanary thread_id s =
     (let (random, s1) = SecureRandom64 s in
      if random = 0 \<or> thread_id = 0 then (0, s1)
      else let canary = (random XOR thread_id) OR kStackCanaryTerminator
           in (canary, s1\<lparr>g_StackCanary := \<lparr>sc_value = canary, sc_active = True\<rparr>\<rparr>))"

definition CheckStackCanary :: "SecState \<Rightarrow> u64 \<Rightarrow> u64 \<Rightarrow> bool" where
  "CheckStackCanary s expected observed \<longleftrightarrow>
     sc_active (g_StackCanary s) \<and> expected = observed \<and> observed = sc_value (g_StackCanary s)"

subsection \<open>Self-tests\<close>

definition RunUsersSelfTest :: "SecState \<Rightarrow> bool \<times> SecState" where
  "RunUsersSelfTest s =
     (let (a, s1) = CreateUser 1 (Some ''root'') AdminRole (perms [PermRead, PermWrite, PermExecute, PermNetwork, PermAdmin]) s
      in if a = None then (False, s1)
      else let (b, s2) = CreateUser 1000 (Some ''shell'') UserRole (perms [PermRead, PermWrite, PermExecute, PermNetwork]) s1
      in if b = None then (False, s2)
      else let (c, s3) = CreateUser 65534 (Some ''guest'') GuestRole (perms [PermRead]) s2
      in if c = None then (False, s3)
      else (user_count (sec_Status s3) = 3 \<and> FindUser s3 1000 \<noteq> None, s3))"

definition RunPermissionsSelfTest :: "SecState \<Rightarrow> bool" where
  "RunPermissionsSelfTest s =
     (case FindUser s 1000 of None \<Rightarrow> False
      | Some shell \<Rightarrow> (case FindUser s 65534 of None \<Rightarrow> False
      | Some guest \<Rightarrow>
          HasUserPermission (g_Users s ! shell) (perm_value PermExecute) \<and>
          HasUserPermission (g_Users s ! shell) (perm_value PermNetwork) \<and>
          HasUserPermission (g_Users s ! guest) (perm_value PermRead) \<and>
          \<not> HasUserPermission (g_Users s ! guest) (perm_value PermWrite)))"

definition RunAccessControlSelfTest :: "SecState \<Rightarrow> bool \<times> SecState" where
  "RunAccessControlSelfTest s =
     (let (a, s1) = AddAccessPolicy (Some ''/tmp/readme'') 1000 (perms [PermRead, PermWrite]) (perms [PermRead]) s
      in if a = None then (False, s1)
      else let (b, s2) = AddAccessPolicy (Some ''/boot/kernel.elf'') 1 (perms [PermRead, PermExecute]) 0 s1
      in if b = None then (False, s2)
      else (CheckAccess s2 1000 (Some ''/tmp/readme'') (perm_value PermWrite) \<and>
            CheckAccess s2 65534 (Some ''/tmp/readme'') (perm_value PermRead) \<and>
            \<not> CheckAccess s2 65534 (Some ''/tmp/readme'') (perm_value PermWrite) \<and>
            CheckAccess s2 1 (Some ''/boot/kernel.elf'') (perm_value PermWrite), s2))"

definition RunProcessIsolationSelfTest :: "SecState \<Rightarrow> bool \<times> SecState" where
  "RunProcessIsolationSelfTest s =
     (let (a, s1) = AddProcessIsolationDomain 10 1000 0x1000 True s
      in if a = None then (False, s1)
      else let (b, s2) = AddProcessIsolationDomain 11 65534 0x2000 True s1
      in if b = None then (False, s2) else (ProcessesAreIsolated s2 10 11, s2))"

definition RunVirtualMemoryProtectionSelfTest :: "SecState \<Rightarrow> bool \<times> SecState" where
  "RunVirtualMemoryProtectionSelfTest s =
     (let (user_text, s1) = AddVmRegion 0x400000 0x2000 (vm_bits [UserReadable, UserExecutable]) s;
          (user_data, s2) = AddVmRegion 0x600000 0x2000 (vm_bits [UserReadable, UserWritable, NoExecute]) s1;
          (kern, s3) = AddVmRegion 0xFFFFFFFF80000000 0x200000 (vm_bits [KernelOnly, NoExecute]) s2
      in (case user_text of None \<Rightarrow> False
          | Some t \<Rightarrow> (case user_data of None \<Rightarrow> False
          | Some d \<Rightarrow> (case kern of None \<Rightarrow> False
          | Some k \<Rightarrow>
              VmAccessAllowed (g_VmRegions s3 ! t) False True False \<and>
              \<not> VmAccessAllowed (g_VmRegions s3 ! t) True False False \<and>
              VmAccessAllowed (g_VmRegions s3 ! d) True False False \<and>
              \<not> VmAccessAllowed (g_VmRegions s3 ! d) False True False \<and>
              \<not> VmAccessAllowed (g_VmRegions s3 ! k) False False False \<and>
              VmAccessAllowed (g_VmRegions s3 ! k) False False True)), s3))"

definition RunAslrSelfTest :: bool where
  "RunAslrSelfTest =
     (let first = ApplyUserAslr 0x1000 0xABCD; second = ApplyUserAslr 0x1000 0xBCDE
      in first \<ge> kUserAslrBase \<and> second \<ge> kUserAslrBase \<and> first \<noteq> second \<and> first AND 0xFFF = 0 \<and> second AND 0xFFF = 0)"

definition RunStackCanarySelfTest :: "SecState \<Rightarrow> bool \<times> SecState" where
  "RunStackCanarySelfTest s =
     (let (ok, s1) = SeedSecureRandom 0x5152535455565758 s
      in if \<not> ok then (False, s1)
      else let (canary, s2) = GenerateStackCanary 42 s1
      in (canary \<noteq> 0 \<and> CheckStackCanary s2 canary canary \<and> \<not> CheckStackCanary s2 canary (canary XOR 1), s2))"

definition RunNxPagesSelfTest :: "SecState \<Rightarrow> bool \<times> SecState" where
  "RunNxPagesSelfTest s =
     (let (stack, s1) = AddVmRegion 0x700000 0x4000 (vm_bits [UserReadable, UserWritable, NoExecute]) s;
          (code, s2) = AddVmRegion 0x800000 0x4000 (vm_bits [UserReadable, UserExecutable]) s1
      in (case stack of None \<Rightarrow> False
          | Some k \<Rightarrow> (case code of None \<Rightarrow> False
          | Some c \<Rightarrow>
              VmRegionHasNx (g_VmRegions s2 ! k) \<and> \<not> VmAccessAllowed (g_VmRegions s2 ! k) False True False \<and>
              \<not> VmRegionHasNx (g_VmRegions s2 ! c) \<and> VmAccessAllowed (g_VmRegions s2 ! c) False True False), s2))"

definition RunSecureRandomSelfTest :: "SecState \<Rightarrow> bool \<times> SecState" where
  "RunSecureRandomSelfTest s =
     (let (ok, s1) = SeedSecureRandom 0xA5A55A5ADEADBEEF s
      in if \<not> ok then (False, s1)
      else let (first, s2) = SecureRandom64 s1; (second, s3) = SecureRandom64 s2
      in (first \<noteq> 0 \<and> second \<noteq> 0 \<and> first \<noteq> second, s3))"

definition RunKaslrSelfTest :: bool where
  "RunKaslrSelfTest =
     (let first = ApplyKernelAslr 0x12345678; second = ApplyKernelAslr 0x87654321
      in first \<ge> kKernelAslrBase \<and> second \<ge> kKernelAslrBase \<and> first \<noteq> second \<and> first AND 0xFFF = 0 \<and> second AND 0xFFF = 0)"

subsection \<open>Initialisation and report\<close>

definition log_sec :: "LogLevel \<Rightarrow> string \<Rightarrow> SecState \<Rightarrow> SecState" where
  "log_sec level message s = s\<lparr>sec_log := sec_log s @ [(level, message)]\<rparr>"

text \<open>\<open>g_Status.b = g_Status.a && Test()\<close>: the test only runs when the earlier flag is set.\<close>

definition after_flag :: "bool \<Rightarrow> (SecState \<Rightarrow> bool \<times> SecState) \<Rightarrow> (bool \<Rightarrow> SecurityStatus \<Rightarrow> SecurityStatus) \<Rightarrow> SecState \<Rightarrow> SecState" where
  "after_flag ready test put s =
     (let (ok, s1) = (if ready then test s else (False, s)) in upd_sec_status (put ok) s1)"

definition KernelSecurityInit :: "SecState \<Rightarrow> bool \<times> SecState" where
  "KernelSecurityInit s =
     (let s = ResetSecurityStatus s;
          s = after_flag True RunUsersSelfTest (\<lambda>b st. st\<lparr>users_ready := b\<rparr>) s;
          s = after_flag (users_ready (sec_Status s)) (\<lambda>s. (RunPermissionsSelfTest s, s)) (\<lambda>b st. st\<lparr>permissions_ready := b\<rparr>) s;
          s = after_flag (permissions_ready (sec_Status s)) RunAccessControlSelfTest (\<lambda>b st. st\<lparr>access_control_ready := b\<rparr>) s;
          s = after_flag (access_control_ready (sec_Status s)) RunProcessIsolationSelfTest
                (\<lambda>b st. st\<lparr>process_isolation_ready := b\<rparr>) s;
          s = after_flag (process_isolation_ready (sec_Status s)) RunVirtualMemoryProtectionSelfTest
                (\<lambda>b st. st\<lparr>virtual_memory_protection_ready := b\<rparr>) s;
          s = after_flag (virtual_memory_protection_ready (sec_Status s)) (\<lambda>s. (RunAslrSelfTest, s)) (\<lambda>b st. st\<lparr>aslr_ready := b\<rparr>) s;
          s = after_flag (aslr_ready (sec_Status s)) RunStackCanarySelfTest (\<lambda>b st. st\<lparr>stack_canaries_ready := b\<rparr>) s;
          s = after_flag (stack_canaries_ready (sec_Status s)) RunNxPagesSelfTest (\<lambda>b st. st\<lparr>nx_pages_ready := b\<rparr>) s;
          s = after_flag (nx_pages_ready (sec_Status s)) RunSecureRandomSelfTest (\<lambda>b st. st\<lparr>secure_random_ready := b\<rparr>) s;
          s = after_flag (secure_random_ready (sec_Status s)) (\<lambda>s. (RunKaslrSelfTest, s)) (\<lambda>b st. st\<lparr>kaslr_ready := b\<rparr>) s;
          s = log_sec Info ''Phase 15 security initialized'' s;
          st = sec_Status s
      in (users_ready st \<and> permissions_ready st \<and> access_control_ready st \<and> process_isolation_ready st \<and> virtual_memory_protection_ready st \<and>
          aslr_ready st \<and> stack_canaries_ready st \<and> nx_pages_ready st \<and> secure_random_ready st \<and> kaslr_ready st, s))"

definition KernelSecurityStatus :: "SecState \<Rightarrow> SecurityStatus" where
  "KernelSecurityStatus s = sec_Status s"

definition sec_report :: "bool \<Rightarrow> string \<Rightarrow> string \<Rightarrow> SecState \<Rightarrow> SecState" where
  "sec_report ready yes no s = log_sec (if ready then Info else Warn) (if ready then yes else no) s"

definition PrintSecurityInfo :: "SecState \<Rightarrow> SecState" where
  "PrintSecurityInfo s =
     (let st = sec_Status s;
          s = sec_report (users_ready st) ''Security users ready'' ''Security users unavailable'' s;
          s = sec_report (permissions_ready st) ''Security permissions ready'' ''Security permissions unavailable'' s;
          s = sec_report (access_control_ready st) ''Access control ready'' ''Access control unavailable'' s;
          s = sec_report (process_isolation_ready st) ''Process isolation policy ready'' ''Process isolation unavailable'' s;
          s = sec_report (virtual_memory_protection_ready st) ''Virtual memory protection policy ready'' ''Virtual memory protection unavailable'' s;
          s = sec_report (aslr_ready st) ''ASLR offsets ready'' ''ASLR offsets unavailable'' s;
          s = sec_report (stack_canaries_ready st) ''Stack canaries ready'' ''Stack canaries unavailable'' s;
          s = sec_report (nx_pages_ready st) ''NX page policy ready'' ''NX page policy unavailable'' s;
          s = sec_report (secure_random_ready st) ''Secure random generator ready'' ''Secure random generator unavailable'' s;
          s = sec_report (kaslr_ready st) ''Kernel ASLR offsets ready'' ''Kernel ASLR offsets unavailable'' s
      in s)"

subsection \<open>The mixing function and the generator are permutations\<close>

lemma xorshift_right_involution:
  assumes "32 \<le> k"
  shows "(let w = v XOR drop_bit k v in w XOR drop_bit k w) = (v :: u64)"
  by (rule bit_word_eqI) (use assms in \<open>auto simp: Let_def bit_simps\<close>)

lemma xorshift_right_inj: "32 \<le> k \<Longrightarrow> v XOR drop_bit k v = w XOR drop_bit k w \<Longrightarrow> v = (w :: u64)"
  using xorshift_right_involution[of k v] xorshift_right_involution[of k w] by (simp add: Let_def)

lemma odd_mult_inj:
  assumes "c * d = (1 :: u64)" "v * c = w * c"
  shows "v = w"
proof -
  have "v * c * d = w * c * d" using assms(2) by simp
  then show ?thesis using assms(1) by (simp add: mult.assoc)
qed

lemma MixSecurityEntropy_inj: "MixSecurityEntropy v = MixSecurityEntropy w \<Longrightarrow> v = w"
  unfolding MixSecurityEntropy_def Let_def
  apply (drule xorshift_right_inj[rotated], simp)
  apply (drule odd_mult_inj[rotated, where d = "0x9CB4B2F8129337DB"], simp)
  apply (drule xorshift_right_inj[rotated], simp)
  apply (drule odd_mult_inj[rotated, where d = "0x4F74430C22A54005"], simp)
  apply (drule xorshift_right_inj[rotated], simp)
  apply assumption
  done

lemma MixSecurityEntropy_zero: "MixSecurityEntropy v = 0 \<longleftrightarrow> v = 0"
proof -
  have "MixSecurityEntropy 0 = 0" by (simp add: MixSecurityEntropy_def Let_def)
  then show ?thesis using MixSecurityEntropy_inj[of v 0] by auto
qed

lemma push_bit_fixpoint_zero:
  assumes "0 < k" "x = push_bit k (x :: u64)"
  shows "x = 0"
proof -
  have iter: "x = push_bit (k * n) x" for n
  proof (induction n)
    case (Suc n)
    have "push_bit (k * Suc n) x = push_bit (k * n) (push_bit k x)" by (simp add: push_bit_push_bit algebra_simps)
    then show ?case using Suc assms(2) by simp
  qed simp
  have "64 \<le> k * 64" using assms(1) by simp
  then have "push_bit (k * 64) x = 0" by (intro bit_word_eqI) (auto simp: bit_simps)
  then show ?thesis using iter[of 64] by simp
qed

lemma drop_bit_fixpoint_zero:
  assumes "0 < k" "x = drop_bit k (x :: u64)"
  shows "x = 0"
proof -
  have iter: "x = drop_bit (k * n) x" for n
  proof (induction n)
    case (Suc n)
    have "drop_bit (k * Suc n) x = drop_bit (k * n) (drop_bit k x)" by (simp add: drop_bit_drop_bit algebra_simps)
    then show ?case using Suc assms(2) by simp
  qed simp
  have "64 \<le> k * 64" using assms(1) by simp
  then have "drop_bit (k * 64) x = 0" by (intro bit_word_eqI) (auto simp: bit_simps dest: bit_imp_le_length)
  then show ?thesis using iter[of 64] by simp
qed

lemma xor_zero_word: "(a :: u64) XOR b = 0 \<longleftrightarrow> a = b"
  by (metis bit.xor_self xor.assoc xor.right_neutral)

definition random_step :: "u64 \<Rightarrow> u64" where
  "random_step x0 = (let x1 = x0 XOR push_bit 13 x0; x2 = x1 XOR drop_bit 7 x1 in x2 XOR push_bit 17 x2)"

lemma random_step_xor: "random_step (x XOR y) = random_step x XOR random_step y"
  by (simp only: random_step_def Let_def push_bit_xor drop_bit_xor xor.assoc xor.commute xor.left_commute)

lemma random_step_zero: "random_step x = 0 \<longleftrightarrow> x = 0"
proof
  assume a: "random_step x = 0"
  define y where "y = x XOR push_bit 13 x"
  define z where "z = y XOR drop_bit 7 y"
  have "z = push_bit 17 z"
    using a by (simp only: random_step_def Let_def xor_zero_word flip: y_def z_def)
  then have "z = 0" by (rule push_bit_fixpoint_zero[rotated]) simp
  then have "y = drop_bit 7 y" by (simp only: z_def xor_zero_word)
  then have "y = 0" by (rule drop_bit_fixpoint_zero[rotated]) simp
  then have "x = push_bit 13 x" by (simp only: y_def xor_zero_word)
  then show "x = 0" by (rule push_bit_fixpoint_zero[rotated]) simp
qed (simp add: random_step_def)

lemma random_step_inj: "random_step x = random_step y \<Longrightarrow> x = y"
  using random_step_zero[of "x XOR y"] by (simp add: random_step_xor xor_zero_word)

lemma SecureRandom64_step:
  "rg_seeded (g_Random s) \<Longrightarrow>
    SecureRandom64 s = (random_step (rg_state (g_Random s)),
      s\<lparr>g_Random := (g_Random s)\<lparr>rg_state := random_step (rg_state (g_Random s))\<rparr>\<rparr>)"
  by (simp add: SecureRandom64_def random_step_def Let_def)


text \<open>The first \<open>n\<close> numbers drawn from the generator.\<close>

fun random_outputs :: "nat \<Rightarrow> SecState \<Rightarrow> u64 list" where
  "random_outputs 0 s = []"
| "random_outputs (Suc n) s = (let (x, s1) = SecureRandom64 s in x # random_outputs n s1)"

lemma random_outputs_iterate:
  "rg_seeded (g_Random s) \<Longrightarrow>
    random_outputs n s = map (\<lambda>i. (random_step ^^ Suc i) (rg_state (g_Random s))) [0 ..< n]"
proof (induction n arbitrary: s)
  case (Suc n)
  define f where "f i = (random_step ^^ Suc i) (rg_state (g_Random s))" for i
  have "[0 ..< Suc n] = 0 # map Suc [0 ..< n]" by (simp only: map_Suc_upt upt_conv_Cons zero_less_Suc)
  then have split: "map f [0 ..< Suc n] = f 0 # map (\<lambda>i. f (Suc i)) [0 ..< n]" by (simp only: list.map map_map comp_def)
  have "random_outputs (Suc n) s = f 0 # map (\<lambda>i. f (Suc i)) [0 ..< n]"
    using Suc.IH[of "snd (SecureRandom64 s)"] Suc.prems
    by (simp add: SecureRandom64_step funpow_swap1 f_def)
  then show ?case unfolding f_def[symmetric] by (simp only: split)
qed simp

lemma random_step_funpow_inj: "(random_step ^^ n) x = (random_step ^^ n) y \<Longrightarrow> x = y"
  by (induction n) (auto dest: random_step_inj)

lemma random_step_funpow_zero: "(random_step ^^ n) x = 0 \<longleftrightarrow> x = 0"
  by (induction n) (simp_all add: random_step_zero)

lemma SeedSecureRandom_iff:
  "fst (SeedSecureRandom seed s) \<longleftrightarrow> seed \<noteq> 0"
  "seed \<noteq> 0 \<Longrightarrow> g_Random (snd (SeedSecureRandom seed s)) = \<lparr>rg_state = MixSecurityEntropy seed, rg_seeded = True\<rparr>"
  by (simp_all add: SeedSecureRandom_def Let_def MixSecurityEntropy_zero)

lemma seeded_outputs:
  "seed \<noteq> 0 \<Longrightarrow> random_outputs n (snd (SeedSecureRandom seed s)) =
     map (\<lambda>i. (random_step ^^ Suc i) (MixSecurityEntropy seed)) [0 ..< n]"
  by (simp add: random_outputs_iterate SeedSecureRandom_iff)

text \<open>
  Seeding the random generator succeeds exactly for a non-zero seed. From then on no
  number it returns is zero, so zero is only ever the answer of an unseeded generator, and
  two different seeds never agree on the number at any position of their streams: mixing
  and every step of the generator are permutations of the 64-bit words.
\<close>

lemma secure_random_never_zero:
  "fst (SeedSecureRandom seed s) = (seed \<noteq> 0) \<and>
   (seed \<noteq> 0 \<longrightarrow>
     0 \<notin> set (random_outputs n (snd (SeedSecureRandom seed s))) \<and>
     (\<forall>other t i. other \<noteq> 0 \<longrightarrow> other \<noteq> seed \<longrightarrow> i < n \<longrightarrow>
        random_outputs n (snd (SeedSecureRandom seed s)) ! i \<noteq> random_outputs n (snd (SeedSecureRandom other t)) ! i))"
proof -
  have zero: "(random_step ^^ i) (MixSecurityEntropy seed) \<noteq> 0" if "seed \<noteq> 0" for i
    using that by (simp add: random_step_funpow_zero MixSecurityEntropy_zero)
  have inj: "(random_step ^^ i) (MixSecurityEntropy seed) \<noteq> (random_step ^^ i) (MixSecurityEntropy other)"
    if "other \<noteq> seed" for other i
    using that random_step_funpow_inj MixSecurityEntropy_inj by metis
  have neq: "random_outputs n (snd (SeedSecureRandom seed s)) ! i \<noteq> random_outputs n (snd (SeedSecureRandom other t)) ! i"
    if "seed \<noteq> 0" "other \<noteq> 0" "other \<noteq> seed" "i < n" for other t i
    using that inj[of other "Suc i"] by (simp add: seeded_outputs del: funpow.simps)
  have nz: "0 \<notin> set (random_outputs n (snd (SeedSecureRandom seed s)))" if "seed \<noteq> 0"
    using zero[OF that, of "Suc i" for i] by (auto simp: seeded_outputs[OF that] simp del: funpow.simps)
  show ?thesis
    using neq nz by (simp add: SeedSecureRandom_iff)
qed

lemma secure_random_never_zero_witness:
  "\<forall>s. 0 \<notin> set (random_outputs 3 (snd (SeedSecureRandom 0xA5A55A5ADEADBEEF (ResetSecurityStatus s)))) \<and>
   random_outputs 3 (snd (SeedSecureRandom 0xA5A55A5ADEADBEEF s)) ! 2 \<noteq>
     random_outputs 3 (snd (SeedSecureRandom 0x5152535455565758 s)) ! 2"
proof
  fix s
  show "0 \<notin> set (random_outputs 3 (snd (SeedSecureRandom 0xA5A55A5ADEADBEEF (ResetSecurityStatus s)))) \<and>
   random_outputs 3 (snd (SeedSecureRandom 0xA5A55A5ADEADBEEF s)) ! 2 \<noteq>
     random_outputs 3 (snd (SeedSecureRandom 0x5152535455565758 s)) ! 2"
    using secure_random_never_zero[of "0xA5A55A5ADEADBEEF" "ResetSecurityStatus s" 3]
      secure_random_never_zero[of "0xA5A55A5ADEADBEEF" s 3]
    by simp
qed

subsection \<open>Address space randomisation\<close>

lemma MixSecurityEntropy_surj: "\<exists>v. MixSecurityEntropy v = w"
proof -
  have "inj MixSecurityEntropy" by (rule injI) (rule MixSecurityEntropy_inj)
  then have "surj MixSecurityEntropy" by (intro finite_UNIV_inj_surj) simp_all
  then show ?thesis by (metis surjD)
qed

lemma page_offset:
  assumes "k < 32"
  shows "unat (push_bit 12 (m AND mask k :: u64)) = 4096 * (unat m mod 2 ^ k)"
proof -
  have le: "(2 :: nat) ^ k \<le> 2 ^ 31" using assms by (intro power_increasing) auto
  have "unat m mod 2 ^ k < 2 ^ k" by simp
  with le have "unat m mod 2 ^ k < 2 ^ 31" by (rule order_less_le_trans[rotated])
  then have "4096 * (unat m mod 2 ^ k) < 18446744073709551616" by simp
  then show ?thesis
    by (simp add: unsigned_push_bit_eq push_bit_nat_def take_bit_nat_eq_self and_mask_mod mult.commute del: push_bit_and)
qed


lemma aslr_pages:
  assumes "surj g" "k < 32"
    and "\<And>x. f x = b + push_bit 12 (g x AND mask k :: u64)"
    and "unat b + 4096 * 2 ^ k \<le> 18446744073709551616"
  shows "range (\<lambda>x. unat (f x)) = (\<lambda>n. unat b + 4096 * n) ` {..< 2 ^ k}"
proof -
  have off: "unat (f x) = unat b + 4096 * (unat (g x) mod 2 ^ k)" for x
  proof -
    have "unat (g x) mod 2 ^ k < 2 ^ k" by simp
    then have "unat b + 4096 * (unat (g x) mod 2 ^ k) < 18446744073709551616" using assms(4) by linarith
    then show ?thesis
      using unat_add_no_wrap[of b "push_bit 12 (g x AND mask k)"] by (simp add: assms(3) page_offset[OF assms(2)] del: push_bit_and)
  qed
  show ?thesis
  proof (intro equalityI subsetI)
    fix a assume "a \<in> range (\<lambda>x. unat (f x))"
    then show "a \<in> (\<lambda>n. unat b + 4096 * n) ` {..< 2 ^ k}" by (auto simp: off intro!: imageI)
  next
    fix a assume "a \<in> (\<lambda>n. unat b + 4096 * n) ` {..< 2 ^ k}"
    then obtain n where n: "n < 2 ^ k" "a = unat b + 4096 * n" by auto
    obtain x where x: "g x = of_nat n" using assms(1) by (metis surjD)
    have "(2 :: nat) ^ k \<le> 2 ^ 31" using assms(2) by (intro power_increasing) auto
    then have "unat (g x) = n" using n(1) by (simp add: x unat_of_nat_u64)
    then have "a = unat (f x)" using off[of x] n by simp
    then show "a \<in> range (\<lambda>x. unat (f x))" by blast
  qed
qed

lemma aslr_mix_surj: "surj (\<lambda>salt. MixSecurityEntropy (image_id XOR salt))"
proof -
  have "\<exists>x. w = MixSecurityEntropy (image_id XOR x)" for w
  proof -
    obtain v where "MixSecurityEntropy v = w" using MixSecurityEntropy_surj by blast
    then have "MixSecurityEntropy (image_id XOR (image_id XOR v)) = w" by (simp flip: xor.assoc)
    then show ?thesis by metis
  qed
  then show ?thesis by (simp add: surj_def)
qed

text \<open>
  Address space randomisation places an image on exactly the intended pages: over all
  boot seeds the kernel bases are the \<open>2^19\<close> page addresses from \<open>0xFFFFFFFF80000000\<close> to the
  last page of the address space, and over all salts the user bases of any image are the
  \<open>2^20\<close> page addresses from \<open>0x400000\<close>; no addition wraps and every such page is reached.
\<close>

lemma aslr_ranges:
  "range (\<lambda>boot_seed. unat (ApplyKernelAslr boot_seed)) = (\<lambda>n. 0xFFFFFFFF80000000 + 4096 * n) ` {..< 2 ^ 19} \<and>
   range (\<lambda>salt. unat (ApplyUserAslr image_id salt)) = (\<lambda>n. 0x400000 + 4096 * n) ` {..< 2 ^ 20}"
proof
  have "range (\<lambda>boot_seed. unat (ApplyKernelAslr boot_seed)) = (\<lambda>n. unat kKernelAslrBase + 4096 * n) ` {..< 2 ^ 19}"
    by (rule aslr_pages[OF aslr_mix_surj[of "0xC0DEF00D"]])
      (simp_all add: ApplyKernelAslr_def GenerateKernelAslrOffset_def kKernelAslrPageMask_def kKernelAslrBase_def
        mask_eq_exp_minus_1)
  then show "range (\<lambda>boot_seed. unat (ApplyKernelAslr boot_seed)) = (\<lambda>n. 0xFFFFFFFF80000000 + 4096 * n) ` {..< 2 ^ 19}"
    by (simp add: kKernelAslrBase_def)
  have "range (\<lambda>salt. unat (ApplyUserAslr image_id salt)) = (\<lambda>n. unat kUserAslrBase + 4096 * n) ` {..< 2 ^ 20}"
    by (rule aslr_pages[OF aslr_mix_surj[of image_id]])
      (simp_all add: ApplyUserAslr_def GenerateAslrOffset_def kAslrPageMask_def kUserAslrBase_def mask_eq_exp_minus_1)
  then show "range (\<lambda>salt. unat (ApplyUserAslr image_id salt)) = (\<lambda>n. 0x400000 + 4096 * n) ` {..< 2 ^ 20}"
    by (simp add: kUserAslrBase_def)
qed


subsection \<open>Access decisions\<close>

text \<open>The live users and policies, in the order they were added.\<close>

definition sec_users :: "SecState \<Rightarrow> SecurityUser list" where
  "sec_users s = take (unat (user_count (sec_Status s))) (g_Users s)"

definition sec_policies :: "SecState \<Rightarrow> AccessPolicy list" where
  "sec_policies s = take (unat (policy_count (sec_Status s))) (g_Policies s)"

definition sec_ok :: "SecState \<Rightarrow> bool" where
  "sec_ok s \<longleftrightarrow> length (g_Users s) = 8 \<and> user_count (sec_Status s) \<le> 8 \<and>
     length (g_Policies s) = 8 \<and> policy_count (sec_Status s) \<le> 8"

text \<open>What the kernel can do to the security state after the reset.\<close>

inductive sec_step :: "SecState \<Rightarrow> SecState \<Rightarrow> bool" where
  "sec_step s (snd (CreateUser uid name role permissions s))"
| "sec_step s (snd (AddAccessPolicy resource owner op tp s))"
| "sec_step s (snd (AddProcessIsolationDomain pid uid as restricted s))"
| "sec_step s (snd (AddVmRegion base sz protection s))"
| "sec_step s (snd (SeedSecureRandom seed s))"
| "sec_step s (snd (SecureRandom64 s))"
| "sec_step s (snd (GenerateStackCanary thread_id s))"

text \<open>A step only ever adds to the two tables the access decision reads.\<close>

definition sec_grows :: "SecState \<Rightarrow> SecState \<Rightarrow> bool" where
  "sec_grows s t \<longleftrightarrow> (\<exists>us ps. sec_users t = sec_users s @ us \<and> sec_policies t = sec_policies s @ ps)"

lemma sec_grows_refl: "sec_grows s s"
  by (simp add: sec_grows_def)

lemma sec_grows_trans: "sec_grows s t \<Longrightarrow> sec_grows t u \<Longrightarrow> sec_grows s u"
  by (auto simp: sec_grows_def)

lemma sec_ok_reset: "sec_ok (ResetSecurityStatus s)"
  by (simp add: sec_ok_def ResetSecurityStatus_def no_sec_status_def kMaxUsers_def kMaxPolicies_def)

text \<open>A step that leaves both tables and their counts alone.\<close>

lemma sec_same:
  assumes "sec_ok s" "g_Users t = g_Users s" "g_Policies t = g_Policies s"
    "user_count (sec_Status t) = user_count (sec_Status s)" "policy_count (sec_Status t) = policy_count (sec_Status s)"
  shows "sec_ok t \<and> sec_grows s t"
  using assms by (auto simp: sec_ok_def sec_grows_def sec_users_def sec_policies_def)

lemma table_room: "\<not> 8 \<le> (n :: u32) \<Longrightarrow> unat n < 8 \<and> unat (n + 1) = Suc (unat n) \<and> n + 1 \<le> 8"
proof -
  assume "\<not> 8 \<le> n"
  then have u: "unat n < 8" by (simp add: word_le_nat_alt)
  then have "unat (n + 1) = Suc (unat n)" by (simp add: unat_Suc_u32)
  then show ?thesis using u by (simp add: word_le_nat_alt)
qed

lemma CreateUser_grows:
  assumes "sec_ok s"
  shows "sec_ok (snd (CreateUser uid name role permissions s)) \<and> sec_grows s (snd (CreateUser uid name role permissions s))"
proof (cases "uid = 0 \<or> name = None \<or> user_count (sec_Status s) \<ge> 8")
  case True
  then show ?thesis using assms by (simp add: CreateUser_def Let_def kMaxUsers_def sec_grows_refl)
next
  case False
  then show ?thesis using assms table_room[of "user_count (sec_Status s)"]
    by (auto simp: CreateUser_def Let_def kMaxUsers_def sec_ok_def sec_grows_def sec_users_def sec_policies_def
        upd_sec_status_def take_next_entry)
qed

lemma AddAccessPolicy_grows:
  assumes "sec_ok s"
  shows "sec_ok (snd (AddAccessPolicy resource owner op tp s)) \<and> sec_grows s (snd (AddAccessPolicy resource owner op tp s))"
proof (cases "resource = None \<or> FindUser s owner = None \<or> policy_count (sec_Status s) \<ge> 8")
  case True
  then show ?thesis using assms by (simp add: AddAccessPolicy_def Let_def kMaxPolicies_def sec_grows_refl)
next
  case False
  then show ?thesis using assms table_room[of "policy_count (sec_Status s)"]
    by (auto simp: AddAccessPolicy_def Let_def kMaxPolicies_def sec_ok_def sec_grows_def sec_users_def sec_policies_def
        upd_sec_status_def take_next_entry)
qed

lemma SecureRandom64_grows: "sec_ok s \<Longrightarrow> sec_ok (snd (SecureRandom64 s)) \<and> sec_grows s (snd (SecureRandom64 s))"
  by (rule sec_same) (simp_all add: SecureRandom64_def Let_def)

lemma sec_step_grows: "sec_step s t \<Longrightarrow> sec_ok s \<Longrightarrow> sec_ok t \<and> sec_grows s t"
proof (induction rule: sec_step.induct)
  case (1 s uid name role permissions)
  then show ?case by (rule CreateUser_grows)
next
  case (2 s resource owner op tp)
  then show ?case by (rule AddAccessPolicy_grows)
next
  case (3 s pid uid as restricted)
  then show ?case by (rule sec_same) (simp_all add: AddProcessIsolationDomain_def split: option.split)
next
  case (4 s base sz protection)
  then show ?case by (rule sec_same) (simp_all add: AddVmRegion_def split: option.split)
next
  case (5 s seed)
  then show ?case by (rule sec_same) (simp_all add: SeedSecureRandom_def Let_def)
next
  case (6 s)
  then show ?case by (rule SecureRandom64_grows)
next
  case (7 s thread_id)
  then show ?case by (rule sec_same) (simp_all add: GenerateStackCanary_def SecureRandom64_def Let_def)
qed

lemma sec_run_grows: "sec_step\<^sup>*\<^sup>* s t \<Longrightarrow> sec_ok s \<Longrightarrow> sec_ok t \<and> sec_grows s t"
  by (induction rule: rtranclp_induct) (auto simp: sec_grows_refl dest: sec_step_grows intro: sec_grows_trans)

lemma FindUser_live: "FindUser s uid = Some i \<Longrightarrow> g_Users s ! i = sec_users s ! i"
  by (auto simp: FindUser_def sec_users_def dest: find_indexD(1))

lemma FindPolicy_live: "FindPolicy s r = Some i \<Longrightarrow> g_Policies s ! i = sec_policies s ! i"
  by (auto simp: FindPolicy_def sec_policies_def dest: find_indexD(1))

lemma FindUser_grows:
  assumes "sec_grows s t" "FindUser s uid = Some i"
  shows "FindUser t uid = Some i \<and> g_Users t ! i = g_Users s ! i"
proof -
  obtain us where us: "sec_users t = sec_users s @ us" using assms(1) by (auto simp: sec_grows_def)
  have s: "find_index (\<lambda>u. su_active u \<and> su_uid u = uid) (sec_users s) = Some i"
    using assms(2) by (simp add: FindUser_def sec_users_def)
  then have t: "FindUser t uid = Some i" using us by (simp add: FindUser_def find_index_append flip: sec_users_def)
  then show ?thesis using FindUser_live[OF t] FindUser_live[OF assms(2)] us find_indexD(1)[OF s] by (simp add: nth_append)
qed

lemma FindPolicy_grows:
  assumes "sec_grows s t" "FindPolicy s r = Some i"
  shows "FindPolicy t r = Some i \<and> g_Policies t ! i = g_Policies s ! i"
proof -
  obtain ps where ps: "sec_policies t = sec_policies s @ ps" using assms(1) by (auto simp: sec_grows_def)
  have s: "find_index (\<lambda>p. ap_active p \<and> StringEquals (ap_resource p) r) (sec_policies s) = Some i"
    using assms(2) by (simp add: FindPolicy_def sec_policies_def)
  then have t: "FindPolicy t r = Some i" using ps by (simp add: FindPolicy_def find_index_append flip: sec_policies_def)
  then show ?thesis using FindPolicy_live[OF t] FindPolicy_live[OF assms(2)] ps find_indexD(1)[OF s] by (simp add: nth_append)
qed

text \<open>
  C21. No security operation can change an access decision once it has been set up: if the
  user and a policy of the resource exist, then after any sequence of further user
  creations (also with the same uid), policies (also for the same resource), isolation
  domains, memory regions, seeds, random numbers and canaries, every permission is granted
  or denied exactly as before.
\<close>

theorem access_decisions_are_stable:
  assumes "sec_ok s" "FindUser s uid \<noteq> None" "FindPolicy s resource \<noteq> None" "sec_step\<^sup>*\<^sup>* s t"
  shows "CheckAccess t uid resource permission = CheckAccess s uid resource permission"
proof -
  have g: "sec_grows s t" using sec_run_grows[OF assms(4,1)] by simp
  obtain i j where "FindUser s uid = Some i" "FindPolicy s resource = Some j" using assms(2,3) by auto
  with FindUser_grows[OF g] FindPolicy_grows[OF g] show ?thesis by (simp add: CheckAccess_def)
qed

text \<open>The guest of the boot self-test stays locked out when it is created again as an administrator.\<close>

definition sec_example :: SecState where
  "sec_example = snd (RunAccessControlSelfTest (snd (RunUsersSelfTest (ResetSecurityStatus
     \<lparr>sec_Status = no_sec_status, g_Users = [], g_Policies = [], g_Domains = [], g_VmRegions = [],
      g_Random = \<lparr>rg_state = 0, rg_seeded = False\<rparr>, g_StackCanary = \<lparr>sc_value = 0, sc_active = False\<rparr>,
      sec_log = []\<rparr>))))"

lemma sec_example_facts: "sec_ok sec_example" "FindUser sec_example 65534 = Some 2"
    "FindPolicy sec_example (Some ''/tmp/readme'') = Some 0"
    "\<not> CheckAccess sec_example 65534 (Some ''/tmp/readme'') (perm_value PermWrite)"
  by code_simp+

theorem access_decisions_are_stable_witness:
  "\<not> CheckAccess (snd (CreateUser 65534 (Some ''intruder'') AdminRole 0x1F sec_example))
       65534 (Some ''/tmp/readme'') (perm_value PermWrite)"
  using access_decisions_are_stable[of sec_example 65534 "Some ''/tmp/readme''"
      "snd (CreateUser 65534 (Some ''intruder'') AdminRole 0x1F sec_example)" "perm_value PermWrite"]
  by (simp add: sec_example_facts sec_step.intros r_into_rtranclp del: perm_value.simps)

text \<open>The boot sequence, from a blank state.\<close>

lemma security_boot: "fst (KernelSecurityInit sec_example)"
  by code_simp

end
