(* ===== verification/UserTables.thy ===== *)
theory UserTables
  imports Scheduler
begin

text \<open>
  \<^verbatim>\<open>kernel/src/userspace.cpp\<close>: the tables of the user space layer: processes, POSIX file
  descriptors, the loader cache, the environment, shared libraries, signals, pipes, pseudo
  terminals, dynamic symbols, SDK components and compatibility targets. The tables, the
  counters of \<open>g_Status\<close> and \<open>g_NextSyntheticFd\<close> are the record \<open>UserTables\<close>; file
  descriptors are 32-bit words compared as signed numbers.
\<close>

subsection \<open>Data\<close>

type_synonym i32 = "32 word"

datatype UserProcessState = UEmpty | UReady | URunning | UExited

record UserProcess =
  up_process_id :: u64
  up_name :: cstring
  up_state :: UserProcessState
  up_ring3_intent :: bool

record DynamicSymbol =
  ds_name :: cstring
  ds_address :: u64
  ds_resolved :: bool

record PosixFileDescriptor =
  pf_fd :: i32
  pf_path :: cstring
  pf_open :: bool

record LoaderCacheEntry =
  lc_path :: cstring
  lc_base_address :: u64
  lc_entry_address :: u64
  lc_image_size :: u64
  lc_valid :: bool

record EnvironmentVariable =
  ev_name :: cstring
  ev_value :: cstring
  ev_active :: bool

record SharedLibrary =
  lib_soname :: cstring
  lib_base_address :: u64
  lib_reference_count :: u32
  lib_loaded :: bool

record UserSignalHandler =
  sh_process_id :: u64
  sh_signal :: u32
  sh_pending :: bool
  sh_delivered :: bool

record UserPipe =
  pp_read_fd :: i32
  pp_write_fd :: i32
  pp_buffer :: string
  pp_read_offset :: u32
  pp_write_offset :: u32
  pp_open :: bool

record PseudoTerminal =
  pt_master_fd :: i32
  pt_slave_fd :: i32
  pt_name :: cstring
  pt_open :: bool

datatype SdkComponentKind =
    FullLibc | Libm | Libpthread | Libdl | CppStl | GccSupport | ClangSupport | BuildSdk
  | CrossCompiler | PackageToolchain | Documentation | ExampleApplications | DeveloperTools

record SdkComponent =
  sdk_kind :: SdkComponentKind
  sdk_name :: cstring
  sdk_path :: cstring
  sdk_available :: bool

datatype CompatibilityTargetKind =
    PosixTarget | ElfExecutable | Glibc | Musl | Sdl2 | Sdl3 | OpenGl | Vulkan | OpenAl | Wayland | X11 | SteamRuntime

record CompatibilityTarget =
  ct_kind :: CompatibilityTargetKind
  ct_name :: cstring
  ct_version_major :: u32
  ct_version_minor :: u32
  ct_available :: bool

definition kMaxUserProcesses :: nat where "kMaxUserProcesses = 64"
definition kMaxDynamicSymbols :: nat where "kMaxDynamicSymbols = 24"
definition kMaxPosixFileDescriptors :: nat where "kMaxPosixFileDescriptors = 8"
definition kMaxLoaderCacheEntries :: nat where "kMaxLoaderCacheEntries = 64"
definition kMaxEnvironmentVariables :: nat where "kMaxEnvironmentVariables = 12"
definition kMaxSharedLibraries :: nat where "kMaxSharedLibraries = 16"
definition kMaxSignalHandlers :: nat where "kMaxSignalHandlers = 8"
definition kMaxPipes :: nat where "kMaxPipes = 4"
definition kMaxPtys :: nat where "kMaxPtys = 4"
definition kMaxSdkComponents :: nat where "kMaxSdkComponents = 16"
definition kMaxCompatibilityTargets :: nat where "kMaxCompatibilityTargets = 16"
definition kFirstSyntheticFd :: i32 where "kFirstSyntheticFd = 64"

record UserTables =
  g_UserProcesses :: "UserProcess list"
  g_DynamicSymbols :: "DynamicSymbol list"
  g_PosixFileDescriptors :: "PosixFileDescriptor list"
  g_LoaderCache :: "LoaderCacheEntry list"
  g_Environment :: "EnvironmentVariable list"
  g_SharedLibraries :: "SharedLibrary list"
  g_SignalHandlers :: "UserSignalHandler list"
  g_Pipes :: "UserPipe list"
  g_Ptys :: "PseudoTerminal list"
  g_SdkComponents :: "SdkComponent list"
  g_CompatibilityTargets :: "CompatibilityTarget list"
  g_NextSyntheticFd :: i32
  cached_loader_entry_count :: u32
  environment_variable_count :: u32
  shared_library_count :: u32
  delivered_signal_count :: u32
  pipe_count :: u32
  pty_count :: u32
  sdk_component_count :: u32
  compatibility_target_count :: u32
  user_log :: klog

text \<open>The tables and counters as \<open>ResetUserspaceStatus\<close> leaves them.\<close>

definition reset_tables :: "UserTables \<Rightarrow> UserTables" where
  "reset_tables s = \<lparr>
     g_UserProcesses = replicate kMaxUserProcesses \<lparr>up_process_id = 0, up_name = None, up_state = UEmpty, up_ring3_intent = False\<rparr>,
     g_DynamicSymbols = replicate kMaxDynamicSymbols \<lparr>ds_name = None, ds_address = 0, ds_resolved = False\<rparr>,
     g_PosixFileDescriptors = replicate kMaxPosixFileDescriptors \<lparr>pf_fd = - 1, pf_path = None, pf_open = False\<rparr>,
     g_LoaderCache = replicate kMaxLoaderCacheEntries
       \<lparr>lc_path = None, lc_base_address = 0, lc_entry_address = 0, lc_image_size = 0, lc_valid = False\<rparr>,
     g_Environment = replicate kMaxEnvironmentVariables \<lparr>ev_name = None, ev_value = None, ev_active = False\<rparr>,
     g_SharedLibraries = replicate kMaxSharedLibraries
       \<lparr>lib_soname = None, lib_base_address = 0, lib_reference_count = 0, lib_loaded = False\<rparr>,
     g_SignalHandlers = replicate kMaxSignalHandlers \<lparr>sh_process_id = 0, sh_signal = 0, sh_pending = False, sh_delivered = False\<rparr>,
     g_Pipes = replicate kMaxPipes \<lparr>pp_read_fd = - 1, pp_write_fd = - 1, pp_buffer = replicate 64 (CHR 0x00),
       pp_read_offset = 0, pp_write_offset = 0, pp_open = False\<rparr>,
     g_Ptys = replicate kMaxPtys \<lparr>pt_master_fd = - 1, pt_slave_fd = - 1, pt_name = None, pt_open = False\<rparr>,
     g_SdkComponents = replicate kMaxSdkComponents \<lparr>sdk_kind = FullLibc, sdk_name = None, sdk_path = None, sdk_available = False\<rparr>,
     g_CompatibilityTargets = replicate kMaxCompatibilityTargets
       \<lparr>ct_kind = PosixTarget, ct_name = None, ct_version_major = 0, ct_version_minor = 0, ct_available = False\<rparr>,
     g_NextSyntheticFd = kFirstSyntheticFd, cached_loader_entry_count = 0, environment_variable_count = 0,
     shared_library_count = 0, delivered_signal_count = 0, pipe_count = 0, pty_count = 0, sdk_component_count = 0,
     compatibility_target_count = 0, user_log = user_log s\<rparr>"

subsection \<open>Strings\<close>

fun starts_with :: "string \<Rightarrow> string \<Rightarrow> bool" where
  "starts_with cs [] = True"
| "starts_with [] (p # ps) = False"
| "starts_with (c # cs) (p # ps) = (if c \<noteq> p then False else starts_with cs ps)"

definition StringStartsWith :: "cstring \<Rightarrow> cstring \<Rightarrow> bool" where
  "StringStartsWith txt pre =
     (case txt of None \<Rightarrow> False | Some t \<Rightarrow> (case pre of None \<Rightarrow> False | Some p \<Rightarrow> starts_with t p))"

definition StringEndsWith :: "cstring \<Rightarrow> cstring \<Rightarrow> bool" where
  "StringEndsWith txt suf =
     (case txt of None \<Rightarrow> False | Some t \<Rightarrow> (case suf of None \<Rightarrow> False
      | Some x \<Rightarrow> if length x > length t then False
          else StringEquals (Some (drop (length t - length x) t)) (Some x)))"

subsection \<open>Processes, file descriptors and the log\<close>

definition RegisterUserProcess :: "u64 \<Rightarrow> cstring \<Rightarrow> UserTables \<Rightarrow> nat option \<times> UserTables" where
  "RegisterUserProcess process_id name s =
     (if process_id = 0 \<or> name = None then (None, s)
      else case find_index (\<lambda>p. up_state p = UEmpty) (g_UserProcesses s) of None \<Rightarrow> (None, s)
      | Some i \<Rightarrow> (Some i, s\<lparr>g_UserProcesses := (g_UserProcesses s)[i :=
          \<lparr>up_process_id = process_id, up_name = name, up_state = UReady, up_ring3_intent = True\<rparr>]\<rparr>))"

definition FindUserProcess :: "UserTables \<Rightarrow> u64 \<Rightarrow> nat option" where
  "FindUserProcess s process_id = find_index (\<lambda>p. up_process_id p = process_id \<and> up_state p \<noteq> UEmpty) (g_UserProcesses s)"

definition log_user :: "LogLevel \<Rightarrow> string \<Rightarrow> UserTables \<Rightarrow> UserTables" where
  "log_user level message s = s\<lparr>user_log := user_log s @ [(level, message)]\<rparr>"

text \<open>One log line for each character, up to the length or the end of the text.\<close>

fun write_lines :: "string \<Rightarrow> nat \<Rightarrow> u64 \<Rightarrow> UserTables \<Rightarrow> u64 \<times> UserTables" where
  "write_lines [] n written s = (written, s)"
| "write_lines (c # cs) n written s =
     (if n = 0 then (written, s) else write_lines cs (n - 1) (written + 1) (log_user Info [c] s))"

definition SysWrite :: "cstring \<Rightarrow> u64 \<Rightarrow> UserTables \<Rightarrow> u64 \<times> UserTables" where
  "SysWrite txt len s = (case txt of None \<Rightarrow> (0, s) | Some cs \<Rightarrow> write_lines cs (unat len) 0 s)"

definition SysExit :: "u64 \<Rightarrow> u64 \<Rightarrow> UserTables \<Rightarrow> u64 \<times> UserTables" where
  "SysExit process_id code s =
     (case FindUserProcess s process_id of None \<Rightarrow> (0, s)
      | Some i \<Rightarrow> (1, s\<lparr>g_UserProcesses := (g_UserProcesses s)[i := (g_UserProcesses s ! i)\<lparr>up_state := UExited\<rparr>]\<rparr>))"

definition PosixOpen :: "cstring \<Rightarrow> i32 \<Rightarrow> UserTables \<Rightarrow> i32 \<times> UserTables" where
  "PosixOpen path flags s =
     (if path = None then (- 1, s)
      else case find_index (\<lambda>f. \<not> pf_open f) (g_PosixFileDescriptors s) of None \<Rightarrow> (- 1, s)
      | Some i \<Rightarrow> (of_nat (i + 3), s\<lparr>g_PosixFileDescriptors := (g_PosixFileDescriptors s)[i :=
          \<lparr>pf_fd = of_nat (i + 3), pf_path = path, pf_open = True\<rparr>]\<rparr>))"

text \<open>The number of bytes read, and what the call stores in the buffer (\<open>None\<close>: nothing).\<close>

definition PosixRead :: "UserTables \<Rightarrow> i32 \<Rightarrow> bool \<Rightarrow> u64 \<Rightarrow> u64 \<times> char option" where
  "PosixRead s fd has_buffer len =
     (if sint fd < 3 \<or> \<not> has_buffer \<or> len = 0 then (0, None)
      else case find_index (\<lambda>f. pf_open f \<and> pf_fd f = fd) (g_PosixFileDescriptors s) of
        None \<Rightarrow> (0, None) | Some i \<Rightarrow> (0, Some (CHR 0x00)))"

definition PosixClose :: "i32 \<Rightarrow> UserTables \<Rightarrow> i32 \<times> UserTables" where
  "PosixClose fd s =
     (case find_index (\<lambda>f. pf_open f \<and> pf_fd f = fd) (g_PosixFileDescriptors s) of None \<Rightarrow> (- 1, s)
      | Some i \<Rightarrow> (0, s\<lparr>g_PosixFileDescriptors := (g_PosixFileDescriptors s)[i := \<lparr>pf_fd = - 1, pf_path = None, pf_open = False\<rparr>]\<rparr>))"

subsection \<open>Tables with one entry per key\<close>

text \<open>
  The two loops these tables share: change the entry that matches; failing that, fill the
  first free one. The flag says whether an entry was filled.
\<close>

definition put_entry :: "('e \<Rightarrow> bool) \<Rightarrow> ('e \<Rightarrow> 'e) \<Rightarrow> ('e \<Rightarrow> bool) \<Rightarrow> 'e \<Rightarrow> 'e list \<Rightarrow> ('e list \<times> bool) option" where
  "put_entry match change free entry xs =
     (case find_index match xs of Some i \<Rightarrow> Some (xs[i := change (xs ! i)], False)
      | None \<Rightarrow> (case find_index free xs of Some i \<Rightarrow> Some (xs[i := entry], True) | None \<Rightarrow> None))"

definition RegisterLoaderCacheEntry :: "cstring \<Rightarrow> u64 \<Rightarrow> u64 \<Rightarrow> u64 \<Rightarrow> UserTables \<Rightarrow> bool \<times> UserTables" where
  "RegisterLoaderCacheEntry path base_address entry_address image_size s =
     (if path = None \<or> base_address = 0 \<or> entry_address = 0 \<or> image_size = 0 then (False, s)
      else case put_entry (\<lambda>e. lc_valid e \<and> StringEquals (lc_path e) path)
             (\<lambda>e. e\<lparr>lc_base_address := base_address, lc_entry_address := entry_address, lc_image_size := image_size\<rparr>)
             (\<lambda>e. \<not> lc_valid e)
             \<lparr>lc_path = path, lc_base_address = base_address, lc_entry_address = entry_address,
              lc_image_size = image_size, lc_valid = True\<rparr> (g_LoaderCache s) of
        None \<Rightarrow> (False, s)
      | Some (t, added) \<Rightarrow> (True, s\<lparr>g_LoaderCache := t,
          cached_loader_entry_count := cached_loader_entry_count s + (if added then 1 else 0)\<rparr>))"

definition FindLoaderCacheEntry :: "UserTables \<Rightarrow> cstring \<Rightarrow> nat option" where
  "FindLoaderCacheEntry s path = find_index (\<lambda>e. lc_valid e \<and> StringEquals (lc_path e) path) (g_LoaderCache s)"

definition SetEnvironmentVariable :: "cstring \<Rightarrow> cstring \<Rightarrow> UserTables \<Rightarrow> bool \<times> UserTables" where
  "SetEnvironmentVariable name value s =
     (if name = None \<or> value = None \<or> StringLength name = 0 then (False, s)
      else case put_entry (\<lambda>e. ev_active e \<and> StringEquals (ev_name e) name) (\<lambda>e. e\<lparr>ev_value := value\<rparr>)
             (\<lambda>e. \<not> ev_active e) \<lparr>ev_name = name, ev_value = value, ev_active = True\<rparr> (g_Environment s) of
        None \<Rightarrow> (False, s)
      | Some (t, added) \<Rightarrow> (True, s\<lparr>g_Environment := t,
          environment_variable_count := environment_variable_count s + (if added then 1 else 0)\<rparr>))"

definition GetEnvironmentVariable :: "UserTables \<Rightarrow> cstring \<Rightarrow> cstring" where
  "GetEnvironmentVariable s name =
     (case find_index (\<lambda>e. ev_active e \<and> StringEquals (ev_name e) name) (g_Environment s) of
        None \<Rightarrow> None | Some i \<Rightarrow> ev_value (g_Environment s ! i))"

definition LoadSharedLibrary :: "cstring \<Rightarrow> u64 \<Rightarrow> UserTables \<Rightarrow> bool \<times> UserTables" where
  "LoadSharedLibrary soname base_address s =
     (if soname = None \<or> base_address = 0 then (False, s)
      else case put_entry (\<lambda>l. lib_loaded l \<and> StringEquals (lib_soname l) soname)
             (\<lambda>l. l\<lparr>lib_reference_count := lib_reference_count l + 1\<rparr>) (\<lambda>l. \<not> lib_loaded l)
             \<lparr>lib_soname = soname, lib_base_address = base_address, lib_reference_count = 1, lib_loaded = True\<rparr>
             (g_SharedLibraries s) of
        None \<Rightarrow> (False, s)
      | Some (t, added) \<Rightarrow> (True, s\<lparr>g_SharedLibraries := t,
          shared_library_count := shared_library_count s + (if added then 1 else 0)\<rparr>))"

definition FindSharedLibrary :: "UserTables \<Rightarrow> cstring \<Rightarrow> nat option" where
  "FindSharedLibrary s soname = find_index (\<lambda>l. lib_loaded l \<and> StringEquals (lib_soname l) soname) (g_SharedLibraries s)"

definition SdkRegisterComponent :: "SdkComponentKind \<Rightarrow> cstring \<Rightarrow> cstring \<Rightarrow> UserTables \<Rightarrow> bool \<times> UserTables" where
  "SdkRegisterComponent kind name path s =
     (if name = None \<or> path = None then (False, s)
      else case put_entry (\<lambda>c. sdk_available c \<and> sdk_kind c = kind) (\<lambda>c. c\<lparr>sdk_name := name, sdk_path := path\<rparr>)
             (\<lambda>c. \<not> sdk_available c)
             \<lparr>sdk_kind = kind, sdk_name = name, sdk_path = path, sdk_available = True\<rparr> (g_SdkComponents s) of
        None \<Rightarrow> (False, s)
      | Some (t, added) \<Rightarrow> (True, s\<lparr>g_SdkComponents := t,
          sdk_component_count := sdk_component_count s + (if added then 1 else 0)\<rparr>))"

definition FindSdkComponent :: "UserTables \<Rightarrow> SdkComponentKind \<Rightarrow> nat option" where
  "FindSdkComponent s kind = find_index (\<lambda>c. sdk_available c \<and> sdk_kind c = kind) (g_SdkComponents s)"

definition RegisterCompatibilityTarget ::
    "CompatibilityTargetKind \<Rightarrow> cstring \<Rightarrow> u32 \<Rightarrow> u32 \<Rightarrow> UserTables \<Rightarrow> bool \<times> UserTables" where
  "RegisterCompatibilityTarget kind name version_major version_minor s =
     (if name = None \<or> version_major = 0 then (False, s)
      else case put_entry (\<lambda>c. ct_available c \<and> ct_kind c = kind)
             (\<lambda>c. c\<lparr>ct_name := name, ct_version_major := version_major, ct_version_minor := version_minor\<rparr>)
             (\<lambda>c. \<not> ct_available c)
             \<lparr>ct_kind = kind, ct_name = name, ct_version_major = version_major, ct_version_minor = version_minor,
              ct_available = True\<rparr> (g_CompatibilityTargets s) of
        None \<Rightarrow> (False, s)
      | Some (t, added) \<Rightarrow> (True, s\<lparr>g_CompatibilityTargets := t,
          compatibility_target_count := compatibility_target_count s + (if added then 1 else 0)\<rparr>))"

definition FindCompatibilityTarget :: "UserTables \<Rightarrow> CompatibilityTargetKind \<Rightarrow> nat option" where
  "FindCompatibilityTarget s kind = find_index (\<lambda>c. ct_available c \<and> ct_kind c = kind) (g_CompatibilityTargets s)"

definition RegisterDynamicSymbol :: "cstring \<Rightarrow> u64 \<Rightarrow> UserTables \<Rightarrow> bool \<times> UserTables" where
  "RegisterDynamicSymbol name address s =
     (if name = None \<or> address = 0 then (False, s)
      else case find_index (\<lambda>d. \<not> ds_resolved d) (g_DynamicSymbols s) of None \<Rightarrow> (False, s)
      | Some i \<Rightarrow> (True, s\<lparr>g_DynamicSymbols := (g_DynamicSymbols s)[i :=
          \<lparr>ds_name = name, ds_address = address, ds_resolved = True\<rparr>]\<rparr>))"

definition ResolveDynamicSymbol :: "UserTables \<Rightarrow> cstring \<Rightarrow> u64" where
  "ResolveDynamicSymbol s name =
     (case find_index (\<lambda>d. ds_resolved d \<and> StringEquals (ds_name d) name) (g_DynamicSymbols s) of
        None \<Rightarrow> 0 | Some i \<Rightarrow> ds_address (g_DynamicSymbols s ! i))"

definition CompatSymbolAvailable :: "UserTables \<Rightarrow> cstring \<Rightarrow> cstring \<Rightarrow> bool" where
  "CompatSymbolAvailable s soname symbol \<longleftrightarrow> FindSharedLibrary s soname \<noteq> None \<and> ResolveDynamicSymbol s symbol \<noteq> 0"

subsection \<open>Signals\<close>

definition RegisterSignalHandler :: "u64 \<Rightarrow> u32 \<Rightarrow> UserTables \<Rightarrow> bool \<times> UserTables" where
  "RegisterSignalHandler process_id signal s =
     (if process_id = 0 \<or> signal \<ge> 32 then (False, s)
      else case find_index (\<lambda>h. \<not> sh_pending h \<and> \<not> sh_delivered h) (g_SignalHandlers s) of None \<Rightarrow> (False, s)
      | Some i \<Rightarrow> (True, s\<lparr>g_SignalHandlers := (g_SignalHandlers s)[i :=
          (g_SignalHandlers s ! i)\<lparr>sh_process_id := process_id, sh_signal := signal\<rparr>]\<rparr>))"

definition DeliverUserSignal :: "u64 \<Rightarrow> u64 \<Rightarrow> u32 \<Rightarrow> UserTables \<Rightarrow> Sched \<Rightarrow> bool \<times> UserTables \<times> Sched" where
  "DeliverUserSignal process_id thread_id signal s sched =
     (case find_index (\<lambda>h. sh_process_id h = process_id \<and> sh_signal h = signal) (g_SignalHandlers s) of
        None \<Rightarrow> (False, s, sched)
      | Some i \<Rightarrow>
          let (sent, sched1) = KernelSendSignal sched thread_id signal in
          if \<not> sent then (False, s, sched1)
          else (True, s\<lparr>g_SignalHandlers := (g_SignalHandlers s)[i := (g_SignalHandlers s ! i)\<lparr>sh_pending := False, sh_delivered := True\<rparr>],
                 delivered_signal_count := delivered_signal_count s + 1\<rparr>, sched1))"

subsection \<open>Pipes and pseudo terminals\<close>

text \<open>The descriptors of the new pipe; \<open>None\<close> when there is no room. \<open>reader\<close> and \<open>writer\<close> say
  that the out-parameters are not null.\<close>

definition CreatePipe :: "bool \<Rightarrow> bool \<Rightarrow> UserTables \<Rightarrow> (i32 \<times> i32) option \<times> UserTables" where
  "CreatePipe reader writer s =
     (if \<not> reader \<or> \<not> writer then (None, s)
      else case find_index (\<lambda>p. \<not> pp_open p) (g_Pipes s) of None \<Rightarrow> (None, s)
      | Some i \<Rightarrow>
          let read_fd = g_NextSyntheticFd s; write_fd = read_fd + 1 in
          (Some (read_fd, write_fd), s\<lparr>g_Pipes := (g_Pipes s)[i :=
             \<lparr>pp_read_fd = read_fd, pp_write_fd = write_fd, pp_buffer = replicate 64 (CHR 0x00),
              pp_read_offset = 0, pp_write_offset = 0, pp_open = True\<rparr>],
             g_NextSyntheticFd := write_fd + 1, pipe_count := pipe_count s + 1\<rparr>))"

text \<open>\<open>pipe.buffer[pipe.write_offset++] = data[written++]\<close>\<close>

fun pipe_store :: "string \<Rightarrow> nat \<Rightarrow> UserPipe \<Rightarrow> nat \<times> UserPipe" where
  "pipe_store [] written p = (written, p)"
| "pipe_store (c # cs) written p =
     (if pp_write_offset p < 64 then
        pipe_store cs (written + 1) (p\<lparr>pp_buffer := (pp_buffer p)[unat (pp_write_offset p) := c],
          pp_write_offset := pp_write_offset p + 1\<rparr>)
      else (written, p))"

definition PipeWrite :: "i32 \<Rightarrow> string \<Rightarrow> UserTables \<Rightarrow> nat \<times> UserTables" where
  "PipeWrite fd data s =
     (if data = [] then (0, s)
      else case find_index (\<lambda>p. pp_open p \<and> pp_write_fd p = fd) (g_Pipes s) of None \<Rightarrow> (0, s)
      | Some i \<Rightarrow> let (written, p) = pipe_store data 0 (g_Pipes s ! i)
                  in (written, s\<lparr>g_Pipes := (g_Pipes s)[i := p]\<rparr>))"

fun pipe_fetch :: "nat \<Rightarrow> UserPipe \<Rightarrow> string \<times> UserPipe" where
  "pipe_fetch 0 p = ([], p)"
| "pipe_fetch (Suc len) p =
     (if pp_read_offset p < pp_write_offset p then
        let (cs, q) = pipe_fetch len (p\<lparr>pp_read_offset := pp_read_offset p + 1\<rparr>)
        in (pp_buffer p ! unat (pp_read_offset p) # cs, q)
      else ([], p))"

definition PipeRead :: "i32 \<Rightarrow> u32 \<Rightarrow> UserTables \<Rightarrow> string \<times> UserTables" where
  "PipeRead fd len s =
     (if len = 0 then ([], s)
      else case find_index (\<lambda>p. pp_open p \<and> pp_read_fd p = fd) (g_Pipes s) of None \<Rightarrow> ([], s)
      | Some i \<Rightarrow> let (data, p) = pipe_fetch (unat len) (g_Pipes s ! i)
                  in (data, s\<lparr>g_Pipes := (g_Pipes s)[i := p]\<rparr>))"

definition OpenPseudoTerminal :: "cstring \<Rightarrow> bool \<Rightarrow> bool \<Rightarrow> UserTables \<Rightarrow> (nat \<times> i32 \<times> i32) option \<times> UserTables" where
  "OpenPseudoTerminal name master slave s =
     (if name = None \<or> \<not> master \<or> \<not> slave then (None, s)
      else case find_index (\<lambda>t. \<not> pt_open t) (g_Ptys s) of None \<Rightarrow> (None, s)
      | Some i \<Rightarrow>
          let master_fd = g_NextSyntheticFd s; slave_fd = master_fd + 1 in
          (Some (i, master_fd, slave_fd), s\<lparr>g_Ptys := (g_Ptys s)[i :=
             \<lparr>pt_master_fd = master_fd, pt_slave_fd = slave_fd, pt_name = name, pt_open = True\<rparr>],
             g_NextSyntheticFd := slave_fd + 1, pty_count := pty_count s + 1\<rparr>))"

subsection \<open>SDK helpers\<close>

text \<open>Characters are compared as \<open>signed char\<close>.\<close>

definition char_value :: "char \<Rightarrow> int" where
  "char_value c = (let n = of_char c in if n \<ge> 128 then n - 256 else n)"

fun strcmp_loop :: "string \<Rightarrow> string \<Rightarrow> int" where
  "strcmp_loop (a # as) (b # bs) = (if a = b then strcmp_loop as bs else char_value a - char_value b)"
| "strcmp_loop as bs =
     (case as of [] \<Rightarrow> 0 | a # _ \<Rightarrow> char_value a) - (case bs of [] \<Rightarrow> 0 | b # _ \<Rightarrow> char_value b)"

definition SdkLibcStrcmp :: "cstring \<Rightarrow> cstring \<Rightarrow> int" where
  "SdkLibcStrcmp left right =
     (case left of None \<Rightarrow> (case right of None \<Rightarrow> 0 | Some r \<Rightarrow> - 1)
      | Some l \<Rightarrow> (case right of None \<Rightarrow> 1 | Some r \<Rightarrow> strcmp_loop l r))"

definition SdkLibmAbs :: "64 word \<Rightarrow> 64 word" where
  "SdkLibmAbs value = (if sint value < 0 then - value else value)"

text \<open>The loop need not end: \<open>None\<close> is a call that does not return.\<close>

partial_function (option) sqrt_loop :: "u64 \<Rightarrow> u64 \<Rightarrow> u64 option" where
  "sqrt_loop value result =
     (if (result + 1) * (result + 1) \<le> value then sqrt_loop value (result + 1) else Some result)"

declare sqrt_loop.simps [code]

definition SdkLibmSqrt :: "u64 \<Rightarrow> u64 option" where
  "SdkLibmSqrt value = sqrt_loop value 0"

definition SdkCompileCommandValid :: "cstring \<Rightarrow> cstring \<Rightarrow> cstring \<Rightarrow> bool" where
  "SdkCompileCommandValid compiler source output \<longleftrightarrow> compiler \<noteq> None \<and> source \<noteq> None \<and> output \<noteq> None \<and>
     StringLength compiler > 0 \<and> StringLength source > 2 \<and> StringLength output > 0"

definition SdkPackageManifestValid :: "cstring \<Rightarrow> cstring \<Rightarrow> cstring \<Rightarrow> bool" where
  "SdkPackageManifestValid name version target \<longleftrightarrow> name \<noteq> None \<and> version \<noteq> None \<and> target \<noteq> None \<and>
     StringLength name > 0 \<and> StringLength version \<ge> 3 \<and> StringLength target > 0"

definition GraphicsApiSurfaceValid :: "cstring \<Rightarrow> u32 \<Rightarrow> u32 \<Rightarrow> bool" where
  "GraphicsApiSurfaceValid api_name width height \<longleftrightarrow> api_name \<noteq> None \<and> width \<ge> 64 \<and> height \<ge> 64"

definition AudioApiDeviceValid :: "u32 \<Rightarrow> u32 \<Rightarrow> bool" where
  "AudioApiDeviceValid channels sample_rate \<longleftrightarrow> channels > 0 \<and> channels \<le> 8 \<and> sample_rate \<ge> 8000 \<and> sample_rate \<le> 192000"

definition WindowProtocolHandshakeValid :: "cstring \<Rightarrow> cstring \<Rightarrow> bool" where
  "WindowProtocolHandshakeValid protocol display \<longleftrightarrow> protocol \<noteq> None \<and> display \<noteq> None \<and>
     StringLength protocol > 0 \<and> StringLength display > 0"

definition AppExecutablePathValid :: "cstring \<Rightarrow> bool" where
  "AppExecutablePathValid path \<longleftrightarrow> path \<noteq> None \<and>
     (StringStartsWith path (Some ''/system/apps/'') \<or> StringStartsWith path (Some ''/bin/'')) \<and>
     (StringEndsWith path (Some ''.app'') \<or> StringStartsWith path (Some ''/bin/''))"

subsection \<open>The keyed tables are registries\<close>

lemma put_entry_lookup:
  fixes xs :: "'e list" and k :: 'k
  assumes put: "put_entry (\<lambda>x. live x \<and> key x = k) change (\<lambda>x. \<not> live x) entry xs = Some (ys, b)"
    and change: "\<And>x. live x \<Longrightarrow> key x = k \<Longrightarrow> live (change x) \<and> key (change x) = k \<and> val (change x) = v"
    and entry: "live entry \<and> key entry = k \<and> val entry = v"
  shows "(\<lambda>l. map_option (\<lambda>i. val (ys ! i)) (find_index (\<lambda>x. live x \<and> key x = l) ys)) =
    (\<lambda>l. map_option (\<lambda>i. val (xs ! i)) (find_index (\<lambda>x. live x \<and> key x = l) xs))(k \<mapsto> v)"
proof -
  have upd: ?thesis if i: "ys = xs[i := y]" "i < length xs" "live y" "key y = k" "val y = v"
      "find_index (\<lambda>x. live x \<and> key x = k) ys = Some i" "live (xs ! i) \<Longrightarrow> key (xs ! i) = k" for i y
  proof
    fix l
    show "map_option (\<lambda>i. val (ys ! i)) (find_index (\<lambda>x. live x \<and> key x = l) ys) =
      ((\<lambda>l. map_option (\<lambda>i. val (xs ! i)) (find_index (\<lambda>x. live x \<and> key x = l) xs))(k \<mapsto> v)) l"
    proof (cases "l = k")
      case True
      then show ?thesis using i by simp
    next
      case False
      then have no: "\<not> (live (xs ! i) \<and> key (xs ! i) = l)" "\<not> (live y \<and> key y = l)" using i(4,7) by auto
      have "find_index (\<lambda>x. live x \<and> key x = l) ys = find_index (\<lambda>x. live x \<and> key x = l) xs"
        unfolding i(1) by (rule find_index_update_other[OF no])
      moreover have "val (ys ! j) = val (xs ! j)" if "find_index (\<lambda>x. live x \<and> key x = l) xs = Some j" for j
        using find_indexD(2)[OF that] no(1) i(1) by (cases "i = j") auto
      ultimately show ?thesis using False by (auto intro!: map_option_cong)
    qed
  qed
  show ?thesis
  proof (cases "find_index (\<lambda>x. live x \<and> key x = k) xs")
    case (Some i)
    then have y: "ys = xs[i := change (xs ! i)]" using put by (simp add: put_entry_def)
    note x = find_indexD(1,2)[OF Some]
    have c: "live (change (xs ! i)) \<and> key (change (xs ! i)) = k \<and> val (change (xs ! i)) = v" using change x(2) by blast
    show ?thesis
      by (rule upd[OF y x(1)]) (use c x(2) find_index_update_same[OF Some] in \<open>simp_all add: y\<close>)
  next
    case None
    then obtain i where i: "find_index (\<lambda>x. \<not> live x) xs = Some i" "ys = xs[i := entry]"
      using put by (auto simp: put_entry_def split: option.splits)
    note x = find_indexD(1,2)[OF i(1)]
    have "find_index (\<lambda>x. live x \<and> key x = k) ys = Some i"
      unfolding i(2) by (rule find_index_update_new) (use x entry None in \<open>auto simp: find_index_None\<close>)
    then show ?thesis by (intro upd[OF i(2) x(1)]) (use entry x(2) in auto)
  qed
qed

lemma put_entry_known: "find_index match xs \<noteq> None \<Longrightarrow> put_entry match change free entry xs \<noteq> None"
  by (auto simp: put_entry_def)

lemma put_entry_all:
  assumes "put_entry match change free entry xs = Some (ys, b)" "\<forall>x \<in> set xs. P x" "\<And>x. P x \<Longrightarrow> P (change x)" "P entry"
  shows "\<forall>x \<in> set ys. P x"
proof -
  obtain i y where "ys = xs[i := y]" "P y"
    using assms by (auto simp: put_entry_def dest: find_indexD(1) split: option.splits)
  then show ?thesis using assms(2) by (auto dest!: set_update_subset_insert[THEN subsetD])
qed

lemma match_string: "(\<lambda>e. live e \<and> StringEquals (nm e) (Some k)) = (\<lambda>e. live e \<and> nm e = Some k)"
  by (auto simp: StringEquals_iff)

text \<open>The environment.\<close>

definition env_ok :: "UserTables \<Rightarrow> bool" where
  "env_ok s \<longleftrightarrow> (\<forall>e \<in> set (g_Environment s). ev_active e \<longrightarrow> ev_value e \<noteq> None \<and> ev_name e \<noteq> Some [])"

definition env_lookup :: "UserTables \<Rightarrow> string \<Rightarrow> string option" where
  "env_lookup s name = GetEnvironmentVariable s (Some name)"

definition env_set :: "UserTables \<Rightarrow> string \<Rightarrow> string \<Rightarrow> UserTables option" where
  "env_set s name value = (let (ok, t) = SetEnvironmentVariable (Some name) (Some value) s in if ok then Some t else None)"

lemma env_set_step:
  assumes "env_set s k v = Some t"
  obtains ys b where "k \<noteq> []" "t = s\<lparr>g_Environment := ys, environment_variable_count := environment_variable_count s + (if b then 1 else 0)\<rparr>"
    "put_entry (\<lambda>e. ev_active e \<and> ev_name e = Some k) (\<lambda>e. e\<lparr>ev_value := Some v\<rparr>)
             (\<lambda>e. \<not> ev_active e) \<lparr>ev_name = Some k, ev_value = Some v, ev_active = True\<rparr> (g_Environment s) = Some (ys, b)"
  using assms by (auto simp: env_set_def SetEnvironmentVariable_def match_string split: option.splits if_splits prod.splits)

lemma env_lookup_map:
  "env_ok s \<Longrightarrow> (\<lambda>l. map_option (\<lambda>i. the (ev_value (g_Environment s ! i)))
     (find_index (\<lambda>e. ev_active e \<and> ev_name e = Some l) (g_Environment s))) = env_lookup s"
proof (rule ext)
  fix l
  assume o: "env_ok s"
  have "ev_value (g_Environment s ! i) \<noteq> None" if "find_index (\<lambda>e. ev_active e \<and> ev_name e = Some l) (g_Environment s) = Some i" for i
    using o find_indexD(1,2)[OF that] nth_mem unfolding env_ok_def by blast
  then show "map_option (\<lambda>i. the (ev_value (g_Environment s ! i)))
     (find_index (\<lambda>e. ev_active e \<and> ev_name e = Some l) (g_Environment s)) = env_lookup s l"
    by (auto simp: env_lookup_def GetEnvironmentVariable_def match_string split: option.split)
qed

lemma env_set_ok: "env_ok s \<Longrightarrow> env_set s k v = Some t \<Longrightarrow> env_ok t"
proof (erule env_set_step)
  fix ys b
  assume o: "env_ok s" and k: "k \<noteq> []" and t: "t = s\<lparr>g_Environment := ys, environment_variable_count := environment_variable_count s + (if b then 1 else 0)\<rparr>"
    and put: "put_entry (\<lambda>e. ev_active e \<and> ev_name e = Some k) (\<lambda>e. e\<lparr>ev_value := Some v\<rparr>)
             (\<lambda>e. \<not> ev_active e) \<lparr>ev_name = Some k, ev_value = Some v, ev_active = True\<rparr> (g_Environment s) = Some (ys, b)"
  show "env_ok t" unfolding env_ok_def t
    using put_entry_all[OF put, of "\<lambda>e. ev_active e \<longrightarrow> ev_value e \<noteq> None \<and> ev_name e \<noteq> Some []"] o k by (simp add: env_ok_def)
qed

lemma env_set_lookup: "env_ok s \<Longrightarrow> env_set s k v = Some t \<Longrightarrow> env_lookup t = (env_lookup s)(k \<mapsto> v)"
proof -
  assume o: "env_ok s" and e: "env_set s k v = Some t"
  show ?thesis
  proof (rule env_set_step[OF e])
    fix ys b
    assume t: "t = s\<lparr>g_Environment := ys, environment_variable_count := environment_variable_count s + (if b then 1 else 0)\<rparr>"
      and put: "put_entry (\<lambda>e. ev_active e \<and> ev_name e = Some k) (\<lambda>e. e\<lparr>ev_value := Some v\<rparr>)
             (\<lambda>e. \<not> ev_active e) \<lparr>ev_name = Some k, ev_value = Some v, ev_active = True\<rparr> (g_Environment s) = Some (ys, b)"
    have "(\<lambda>l. map_option (\<lambda>i. the (ev_value (ys ! i))) (find_index (\<lambda>e. ev_active e \<and> ev_name e = l) ys)) =
      (\<lambda>l. map_option (\<lambda>i. the (ev_value (g_Environment s ! i))) (find_index (\<lambda>e. ev_active e \<and> ev_name e = l) (g_Environment s)))(Some k \<mapsto> v)"
      by (rule put_entry_lookup[OF put, where val = "\<lambda>e. the (ev_value e)"]) simp_all
    then have "(\<lambda>l. map_option (\<lambda>i. the (ev_value (ys ! i))) (find_index (\<lambda>e. ev_active e \<and> ev_name e = Some l) ys)) =
      (\<lambda>l. map_option (\<lambda>i. the (ev_value (g_Environment s ! i))) (find_index (\<lambda>e. ev_active e \<and> ev_name e = Some l) (g_Environment s)))(k \<mapsto> v)"
      by (auto simp: fun_eq_iff dest: spec[of _ "Some l" for l])
    then show ?thesis using env_lookup_map[OF o] env_lookup_map[OF env_set_ok[OF o e]] by (simp add: t)
  qed
qed

lemma env_set_known: "env_ok s \<Longrightarrow> env_lookup s k \<noteq> None \<Longrightarrow> env_set s k v \<noteq> None"
proof -
  assume o: "env_ok s" and l: "env_lookup s k \<noteq> None"
  obtain i where i: "find_index (\<lambda>e. ev_active e \<and> ev_name e = Some k) (g_Environment s) = Some i"
    using l by (auto simp: env_lookup_def GetEnvironmentVariable_def match_string split: option.splits)
  then have "k \<noteq> []" using o find_indexD(1,2)[OF i] by (auto simp: env_ok_def dest: nth_mem)
  then show ?thesis using i by (simp add: env_set_def SetEnvironmentVariable_def match_string put_entry_def)
qed

interpretation environment: registry env_ok env_lookup env_set
  by unfold_locales (erule (1) env_set_ok, erule (1) env_set_lookup, erule (1) env_set_known)

text \<open>The SDK components.\<close>

definition sdk_lookup :: "UserTables \<Rightarrow> SdkComponentKind \<Rightarrow> (cstring \<times> cstring) option" where
  "sdk_lookup s kind = map_option (\<lambda>i. (sdk_name (g_SdkComponents s ! i), sdk_path (g_SdkComponents s ! i))) (FindSdkComponent s kind)"

definition sdk_register :: "UserTables \<Rightarrow> SdkComponentKind \<Rightarrow> string \<times> string \<Rightarrow> UserTables option" where
  "sdk_register s kind v =
     (let (ok, t) = SdkRegisterComponent kind (Some (fst v)) (Some (snd v)) s in if ok then Some t else None)"

lemma sdk_register_lookup:
  assumes "sdk_register s k v = Some t"
  shows "sdk_lookup t = (sdk_lookup s)(k \<mapsto> (Some (fst v), Some (snd v)))"
proof -
  obtain ys b where t: "t = s\<lparr>g_SdkComponents := ys, sdk_component_count := sdk_component_count s + (if b then 1 else 0)\<rparr>"
    and put: "put_entry (\<lambda>c. sdk_available c \<and> sdk_kind c = k) (\<lambda>c. c\<lparr>sdk_name := Some (fst v), sdk_path := Some (snd v)\<rparr>)
             (\<lambda>c. \<not> sdk_available c)
             \<lparr>sdk_kind = k, sdk_name = Some (fst v), sdk_path = Some (snd v), sdk_available = True\<rparr> (g_SdkComponents s) = Some (ys, b)"
    using assms by (auto simp: sdk_register_def SdkRegisterComponent_def split: option.splits if_splits prod.splits)
  have "(\<lambda>l. map_option (\<lambda>i. (sdk_name (ys ! i), sdk_path (ys ! i))) (find_index (\<lambda>c. sdk_available c \<and> sdk_kind c = l) ys)) =
    (\<lambda>l. map_option (\<lambda>i. (sdk_name (g_SdkComponents s ! i), sdk_path (g_SdkComponents s ! i)))
      (find_index (\<lambda>c. sdk_available c \<and> sdk_kind c = l) (g_SdkComponents s)))(k \<mapsto> (Some (fst v), Some (snd v)))"
    by (rule put_entry_lookup[OF put, where val = "\<lambda>c. (sdk_name c, sdk_path c)"]) simp_all
  then show ?thesis by (simp add: sdk_lookup_def[abs_def] FindSdkComponent_def t)
qed

lemma sdk_register_known: "sdk_lookup s k \<noteq> None \<Longrightarrow> sdk_register s k v \<noteq> None"
  by (auto simp: sdk_lookup_def FindSdkComponent_def sdk_register_def SdkRegisterComponent_def put_entry_def)

interpretation sdk: registry "\<lambda>_. True"
  "\<lambda>s k. map_option (\<lambda>(n, p). (the n, the p)) (sdk_lookup s k)" sdk_register
proof
  show "map_option (\<lambda>(n, p). (the n, the p)) (sdk_lookup s k) \<noteq> None \<Longrightarrow> sdk_register s k v \<noteq> None" for s k v
    by (rule sdk_register_known) simp
qed (auto simp: sdk_register_lookup fun_eq_iff)

text \<open>A list of assignments, all of which must succeed.\<close>

fun set_environment :: "UserTables \<Rightarrow> (string \<times> string) list \<Rightarrow> UserTables option" where
  "set_environment s [] = Some s"
| "set_environment s ((name, value) # kvs) =
     (let (ok, t) = SetEnvironmentVariable (Some name) (Some value) s in if ok then set_environment t kvs else None)"

lemma set_environment_all: "set_environment s kvs = environment.register_all s kvs"
proof (induction s kvs rule: set_environment.induct)
  case (2 s name v kvs)
  obtain ok t where t: "SetEnvironmentVariable (Some name) (Some v) s = (ok, t)" by fastforce
  then have "env_set s name v = (if ok then Some t else None)" by (simp add: env_set_def)
  then show ?case using 2 t by (cases ok) simp_all
qed simp

text \<open>
  The environment is a map that the last assignment wins: after any list of successful
  \<open>SetEnvironmentVariable\<close> calls, also with repeated names, \<open>GetEnvironmentVariable\<close> returns
  for each name the value set last, and for a name that was not set the value it had before.
  Setting names again that are already there never fails for want of room.
\<close>

lemma environment_last_set_wins:
  assumes "env_ok s"
  shows "(set_environment s kvs = Some t \<longrightarrow>
      GetEnvironmentVariable t (Some name) =
        (case map_of (rev kvs) name of Some value \<Rightarrow> Some value | None \<Rightarrow> GetEnvironmentVariable s (Some name))) \<and>
    ((\<forall>(n, v) \<in> set kvs. GetEnvironmentVariable s (Some n) \<noteq> None) \<longrightarrow> set_environment s kvs \<noteq> None)"
proof (intro conjI impI)
  assume "set_environment s kvs = Some t"
  then have "env_lookup t = env_lookup s ++ map_of (rev kvs)"
    using environment.register_all_lookup[OF assms] by (simp add: set_environment_all)
  then show "GetEnvironmentVariable t (Some name) =
        (case map_of (rev kvs) name of Some value \<Rightarrow> Some value | None \<Rightarrow> GetEnvironmentVariable s (Some name))"
    by (simp add: fun_eq_iff env_lookup_def map_add_def split: option.split)
next
  assume "\<forall>(n, v) \<in> set kvs. GetEnvironmentVariable s (Some n) \<noteq> None"
  then have "\<forall>k \<in> fst ` set kvs. env_lookup s k \<noteq> None" by (auto simp: env_lookup_def)
  then show "set_environment s kvs \<noteq> None"
    using environment.register_all_known[OF assms] by (auto simp: set_environment_all)
qed

definition demo_tables :: UserTables where
  "demo_tables = reset_tables \<lparr>g_UserProcesses = [], g_DynamicSymbols = [], g_PosixFileDescriptors = [], g_LoaderCache = [],
     g_Environment = [], g_SharedLibraries = [], g_SignalHandlers = [], g_Pipes = [], g_Ptys = [], g_SdkComponents = [],
     g_CompatibilityTargets = [], g_NextSyntheticFd = 0, cached_loader_entry_count = 0, environment_variable_count = 0,
     shared_library_count = 0, delivered_signal_count = 0, pipe_count = 0, pty_count = 0, sdk_component_count = 0,
     compatibility_target_count = 0, user_log = []\<rparr>"

lemma demo_tables_env_ok: "env_ok demo_tables"
  by (simp add: env_ok_def demo_tables_def reset_tables_def)

lemma demo_set_environment:
  "set_environment demo_tables [(''PATH'', ''/bin''), (''HOME'', ''/''), (''PATH'', ''/usr/bin'')] \<noteq> None"
  by code_simp

lemma environment_last_set_wins_witness:
  "\<exists>t. set_environment demo_tables [(''PATH'', ''/bin''), (''HOME'', ''/''), (''PATH'', ''/usr/bin'')] = Some t \<and>
     GetEnvironmentVariable t (Some ''PATH'') = Some ''/usr/bin'' \<and> GetEnvironmentVariable t (Some ''HOME'') = Some ''/''"
proof -
  obtain t where t: "set_environment demo_tables [(''PATH'', ''/bin''), (''HOME'', ''/''), (''PATH'', ''/usr/bin'')] = Some t"
    using demo_set_environment by blast
  then show ?thesis
    using environment_last_set_wins[OF demo_tables_env_ok, of "[(''PATH'', ''/bin''), (''HOME'', ''/''), (''PATH'', ''/usr/bin'')]" t "''PATH''"]
      environment_last_set_wins[OF demo_tables_env_ok, of "[(''PATH'', ''/bin''), (''HOME'', ''/''), (''PATH'', ''/usr/bin'')]" t "''HOME''"]
    by simp
qed

subsection \<open>Pipes\<close>

definition pipe_ok :: "UserPipe \<Rightarrow> bool" where
  "pipe_ok p \<longleftrightarrow> length (pp_buffer p) = 64 \<and> unat (pp_read_offset p) \<le> unat (pp_write_offset p) \<and> unat (pp_write_offset p) \<le> 64"

text \<open>The bytes a pipe took so far, and those not read yet.\<close>

definition pipe_bytes :: "UserPipe \<Rightarrow> string" where
  "pipe_bytes p = take (unat (pp_write_offset p)) (pp_buffer p)"

definition pipe_unread :: "UserPipe \<Rightarrow> string" where
  "pipe_unread p = drop (unat (pp_read_offset p)) (pipe_bytes p)"

lemma unat_Suc_small: "unat (x :: u32) < 64 \<Longrightarrow> unat (x + 1) = Suc (unat x)"
  by (simp add: unat_Suc_u32)

lemma pipe_store_bytes:
  "pipe_ok p \<Longrightarrow> pipe_store cs n p = (m, q) \<Longrightarrow>
    pipe_ok q \<and> pipe_bytes q = take 64 (pipe_bytes p @ cs) \<and> m = n + length (pipe_bytes q) - length (pipe_bytes p) \<and>
    pp_read_offset q = pp_read_offset p \<and> pp_read_fd q = pp_read_fd p \<and> pp_write_fd q = pp_write_fd p \<and> pp_open q = pp_open p"
proof (induction cs n p rule: pipe_store.induct)
  case (1 n p)
  then have "length (pipe_bytes p) \<le> 64" by (simp add: pipe_ok_def pipe_bytes_def)
  then show ?case using 1 by simp
next
  case (2 c cs n p)
  let ?w = "unat (pp_write_offset p)"
  show ?case
  proof (cases "pp_write_offset p < 64")
    case True
    define p' where "p' = p\<lparr>pp_buffer := (pp_buffer p)[?w := c], pp_write_offset := pp_write_offset p + 1\<rparr>"
    have w: "?w < 64" using True by (simp add: word_less_nat_alt)
    have u: "unat (pp_write_offset p + 1) = Suc ?w" by (rule unat_Suc_small[OF w])
    have ok: "pipe_ok p'" using 2(2) w u by (auto simp: pipe_ok_def p'_def)
    have b: "pipe_bytes p' = pipe_bytes p @ [c]"
      using 2(2) w by (simp add: pipe_bytes_def p'_def u take_next_entry pipe_ok_def)
    have r: "pipe_store cs (n + 1) p' = (m, q)" using 2(3) True by (simp add: p'_def)
    have "pipe_ok q \<and> pipe_bytes q = take 64 (pipe_bytes p' @ cs) \<and> m = n + 1 + length (pipe_bytes q) - length (pipe_bytes p') \<and>
      pp_read_offset q = pp_read_offset p' \<and> pp_read_fd q = pp_read_fd p' \<and> pp_write_fd q = pp_write_fd p' \<and> pp_open q = pp_open p'"
      by (rule 2(1)[OF True ok[unfolded p'_def] r[unfolded p'_def], folded p'_def])
    moreover have "length (pipe_bytes p') = Suc (length (pipe_bytes p))" by (simp add: b)
    ultimately show ?thesis by (simp add: b) (simp add: p'_def)
  next
    case False
    then have "?w = 64" using 2(2) by (simp add: pipe_ok_def word_less_nat_alt)
    then have "length (pipe_bytes p) = 64" using 2(2) by (simp add: pipe_bytes_def pipe_ok_def)
    then show ?thesis using 2(2,3) False by simp
  qed
qed

lemma pipe_fetch_bytes:
  "pipe_ok p \<Longrightarrow> pipe_fetch n p = (cs, q) \<Longrightarrow>
    pipe_ok q \<and> cs = take n (pipe_unread p) \<and> pipe_unread q = drop n (pipe_unread p) \<and> pipe_bytes q = pipe_bytes p \<and>
    pp_read_fd q = pp_read_fd p \<and> pp_write_fd q = pp_write_fd p \<and> pp_open q = pp_open p"
proof (induction n p arbitrary: cs q rule: pipe_fetch.induct)
  case (2 n p)
  let ?r = "unat (pp_read_offset p)"
  show ?case
  proof (cases "pp_read_offset p < pp_write_offset p")
    case True
    define p' where "p' = p\<lparr>pp_read_offset := pp_read_offset p + 1\<rparr>"
    have r: "?r < unat (pp_write_offset p)" "?r < 64" using True 2(2) by (auto simp: word_less_nat_alt pipe_ok_def)
    have u: "unat (pp_read_offset p + 1) = Suc ?r" by (rule unat_Suc_small[OF r(2)])
    have ok: "pipe_ok p'" and b: "pipe_bytes p' = pipe_bytes p" using 2(2) r by (auto simp: pipe_ok_def p'_def u pipe_bytes_def)
    have len: "?r < length (pipe_bytes p)" using 2(2) r by (simp add: pipe_ok_def pipe_bytes_def)
    have un: "pipe_unread p = pp_buffer p ! ?r # pipe_unread p'"
      using Cons_nth_drop_Suc[OF len] r(1) by (simp add: pipe_unread_def b) (simp add: p'_def u pipe_bytes_def)
    obtain ds q' where f: "pipe_fetch n p' = (ds, q')" by fastforce
    have cs: "cs = pp_buffer p ! ?r # ds" "q = q'" using 2(3) True f by (auto simp: p'_def)
    have "pipe_ok q' \<and> ds = take n (pipe_unread p') \<and> pipe_unread q' = drop n (pipe_unread p') \<and> pipe_bytes q' = pipe_bytes p' \<and>
      pp_read_fd q' = pp_read_fd p' \<and> pp_write_fd q' = pp_write_fd p' \<and> pp_open q' = pp_open p'"
      by (rule 2(1)[OF True ok[unfolded p'_def] f[unfolded p'_def], folded p'_def])
    then show ?thesis by (simp add: cs un b) (simp add: p'_def)
  next
    case False
    then have "pipe_unread p = []" using 2(2) by (simp add: pipe_unread_def pipe_bytes_def word_less_nat_alt)
    then show ?thesis using 2(2,3) False by simp
  qed
qed simp

datatype pipe_op = PWrite i32 string | PRead i32 u32

fun pipe_exec :: "UserTables \<Rightarrow> pipe_op \<Rightarrow> UserTables" where
  "pipe_exec s (PWrite fd data) = snd (PipeWrite fd data s)"
| "pipe_exec s (PRead fd len) = snd (PipeRead fd len s)"

text \<open>What was offered to the write end, and what came out of the read end.\<close>

fun offered :: "i32 \<Rightarrow> pipe_op list \<Rightarrow> string" where
  "offered w [] = []"
| "offered w (PWrite fd data # ops) = (if fd = w then data else []) @ offered w ops"
| "offered w (PRead fd len # ops) = offered w ops"

fun received :: "i32 \<Rightarrow> UserTables \<Rightarrow> pipe_op list \<Rightarrow> string" where
  "received r s [] = []"
| "received r s (PRead fd len # ops) = (if fd = r then fst (PipeRead fd len s) else []) @ received r (pipe_exec s (PRead fd len)) ops"
| "received r s (PWrite fd data # ops) = received r (pipe_exec s (PWrite fd data)) ops"

text \<open>The descriptors \<open>r\<close> and \<open>w\<close> are the ends of pipe \<open>i\<close>, and of no other.\<close>

definition pipe_ends :: "UserTables \<Rightarrow> nat \<Rightarrow> i32 \<Rightarrow> i32 \<Rightarrow> bool" where
  "pipe_ends s i r w \<longleftrightarrow> i < length (g_Pipes s) \<and> pp_open (g_Pipes s ! i) \<and>
     pp_read_fd (g_Pipes s ! i) = r \<and> pp_write_fd (g_Pipes s ! i) = w \<and>
     (\<forall>j < length (g_Pipes s). pp_open (g_Pipes s ! j) \<longrightarrow>
        (pp_read_fd (g_Pipes s ! j) = r \<longrightarrow> j = i) \<and> (pp_write_fd (g_Pipes s ! j) = w \<longrightarrow> j = i))"

lemma pipe_ends_same:
  assumes "pipe_ends s i r w" "g_Pipes t = (g_Pipes s)[k := q]" "k < length (g_Pipes s)"
    "pp_open q = pp_open (g_Pipes s ! k)" "pp_read_fd q = pp_read_fd (g_Pipes s ! k)" "pp_write_fd q = pp_write_fd (g_Pipes s ! k)"
  shows "pipe_ends t i r w"
proof -
  have "pp_open (g_Pipes t ! j) = pp_open (g_Pipes s ! j) \<and> pp_read_fd (g_Pipes t ! j) = pp_read_fd (g_Pipes s ! j) \<and>
      pp_write_fd (g_Pipes t ! j) = pp_write_fd (g_Pipes s ! j)" for j
    using assms(2-6) by (cases "j = k") simp_all
  then show ?thesis using assms(1,2) by (simp add: pipe_ends_def)
qed

lemma PipeWrite_pipe:
  assumes "pipe_ends s i r w" "\<forall>p \<in> set (g_Pipes s). pp_open p \<longrightarrow> pipe_ok p" "PipeWrite fd data s = (n, t)"
  shows "pipe_ends t i r w \<and> (\<forall>p \<in> set (g_Pipes t). pp_open p \<longrightarrow> pipe_ok p) \<and>
    pipe_bytes (g_Pipes t ! i) = (if fd = w then take 64 (pipe_bytes (g_Pipes s ! i) @ data) else pipe_bytes (g_Pipes s ! i)) \<and>
    pp_read_offset (g_Pipes t ! i) = pp_read_offset (g_Pipes s ! i)"
proof (cases "data = [] \<or> find_index (\<lambda>p. pp_open p \<and> pp_write_fd p = fd) (g_Pipes s) = None")
  case True
  have i: "i < length (g_Pipes s)" "pp_open (g_Pipes s ! i)" "pp_write_fd (g_Pipes s ! i) = w" using assms(1) by (simp_all add: pipe_ends_def)
  then have "pipe_ok (g_Pipes s ! i)" using assms(2) by simp
  then have "length (pipe_bytes (g_Pipes s ! i)) \<le> 64" by (simp add: pipe_ok_def pipe_bytes_def)
  moreover have "data = [] \<or> fd \<noteq> w" using True i find_index_NoneD[of "\<lambda>p. pp_open p \<and> pp_write_fd p = fd" "g_Pipes s" i] by auto
  moreover have "t = s" using True assms(3) by (auto simp: PipeWrite_def split: option.splits)
  ultimately show ?thesis using assms(1,2) by auto
next
  case False
  then obtain k where k: "find_index (\<lambda>p. pp_open p \<and> pp_write_fd p = fd) (g_Pipes s) = Some k" by auto
  note K = find_indexD(1,2)[OF k]
  obtain m q where q: "pipe_store data 0 (g_Pipes s ! k) = (m, q)" by fastforce
  have t: "g_Pipes t = (g_Pipes s)[k := q]" using assms(3) False k q by auto (auto simp: PipeWrite_def)
  have ok: "pipe_ok (g_Pipes s ! k)" using assms(2) K by simp
  note Q = pipe_store_bytes[OF ok q]
  have ends: "pipe_ends t i r w" by (rule pipe_ends_same[OF assms(1) t K(1)]) (use Q in simp_all)
  have all: "\<forall>p \<in> set (g_Pipes t). pp_open p \<longrightarrow> pipe_ok p"
    using assms(2) Q unfolding t by (auto dest!: set_update_subset_insert[THEN subsetD])
  have ki: "fd = w \<longleftrightarrow> k = i" using assms(1) K by (auto simp: pipe_ends_def)
  show ?thesis
  proof (cases "k = i")
    case True
    then show ?thesis using ends all Q K(1) ki t by simp
  next
    case False
    then show ?thesis using ends all ki t by simp
  qed
qed

lemma PipeRead_pipe:
  assumes "pipe_ends s i r w" "\<forall>p \<in> set (g_Pipes s). pp_open p \<longrightarrow> pipe_ok p" "PipeRead fd len s = (cs, t)"
  shows "pipe_ends t i r w \<and> (\<forall>p \<in> set (g_Pipes t). pp_open p \<longrightarrow> pipe_ok p) \<and>
    pipe_bytes (g_Pipes t ! i) = pipe_bytes (g_Pipes s ! i) \<and>
    (if fd = r then cs = take (unat len) (pipe_unread (g_Pipes s ! i)) \<and> pipe_unread (g_Pipes t ! i) = drop (unat len) (pipe_unread (g_Pipes s ! i))
     else pipe_unread (g_Pipes t ! i) = pipe_unread (g_Pipes s ! i))"
proof (cases "len = 0 \<or> find_index (\<lambda>p. pp_open p \<and> pp_read_fd p = fd) (g_Pipes s) = None")
  case True
  have i: "i < length (g_Pipes s)" "pp_open (g_Pipes s ! i)" "pp_read_fd (g_Pipes s ! i) = r" using assms(1) by (simp_all add: pipe_ends_def)
  then have "len = 0 \<or> fd \<noteq> r" using True find_index_NoneD[of "\<lambda>p. pp_open p \<and> pp_read_fd p = fd" "g_Pipes s" i] by auto
  moreover have "t = s" "cs = []" using True assms(3) by (auto simp: PipeRead_def split: option.splits)
  ultimately show ?thesis using assms(1,2) by auto
next
  case False
  then obtain k where k: "find_index (\<lambda>p. pp_open p \<and> pp_read_fd p = fd) (g_Pipes s) = Some k" by auto
  note K = find_indexD(1,2)[OF k]
  obtain ds q where q: "pipe_fetch (unat len) (g_Pipes s ! k) = (ds, q)" by fastforce
  have t: "g_Pipes t = (g_Pipes s)[k := q]" "cs = ds" using assms(3) False k q by (auto simp: PipeRead_def)
  have ok: "pipe_ok (g_Pipes s ! k)" using assms(2) K by simp
  note Q = pipe_fetch_bytes[OF ok q]
  have ends: "pipe_ends t i r w" by (rule pipe_ends_same[OF assms(1) t(1) K(1)]) (use Q in simp_all)
  have all: "\<forall>p \<in> set (g_Pipes t). pp_open p \<longrightarrow> pipe_ok p"
    using assms(2) Q unfolding t(1) by (auto dest!: set_update_subset_insert[THEN subsetD])
  have ki: "fd = r \<longleftrightarrow> k = i" using assms(1) K by (auto simp: pipe_ends_def)
  show ?thesis
  proof (cases "k = i")
    case True
    then show ?thesis using ends all Q K(1) ki t by simp
  next
    case False
    then show ?thesis using ends all ki t by simp
  qed
qed

lemma unread_grows:
  assumes "pipe_ok p" "pp_read_offset q = pp_read_offset p" "pipe_bytes q = pipe_bytes p @ x"
  shows "pipe_unread q = pipe_unread p @ x"
proof -
  have "unat (pp_read_offset p) \<le> length (pipe_bytes p)" using assms(1) by (simp add: pipe_ok_def pipe_bytes_def)
  then show ?thesis using assms(2,3) by (simp add: pipe_unread_def)
qed

lemma take_grows: "length b \<le> n \<Longrightarrow> take n (b @ d) = b @ take (n - length b) d"
  by simp

lemma take_take_append: "take n (take n b @ c) = take n (b @ c)"
  by (cases "length b \<le> n") simp_all

text \<open>Nothing is lost, duplicated or reordered on the way through the pipe.\<close>

lemma pipe_run:
  assumes "pipe_ends s i r w" "\<forall>p \<in> set (g_Pipes s). pp_open p \<longrightarrow> pipe_ok p"
  shows "\<exists>x p. pipe_bytes p = pipe_bytes (g_Pipes s ! i) @ x \<and>
    pipe_bytes p = take 64 (pipe_bytes (g_Pipes s ! i) @ offered w ops) \<and>
    received r s ops @ pipe_unread p = pipe_unread (g_Pipes s ! i) @ x \<and>
    p = g_Pipes (foldl pipe_exec s ops) ! i \<and> pipe_ends (foldl pipe_exec s ops) i r w \<and>
    (\<forall>p \<in> set (g_Pipes (foldl pipe_exec s ops)). pp_open p \<longrightarrow> pipe_ok p)"
  using assms
proof (induction ops arbitrary: s)
  case Nil
  then have "pipe_ok (g_Pipes s ! i)" by (simp add: pipe_ends_def)
  then have "length (pipe_bytes (g_Pipes s ! i)) \<le> 64" by (simp add: pipe_ok_def pipe_bytes_def)
  then show ?case using Nil by simp
next
  case (Cons op ops)
  let ?p = "g_Pipes s ! i"
  have ok: "pipe_ok ?p" using Cons.prems by (simp add: pipe_ends_def)
  have len: "length (pipe_bytes ?p) \<le> 64" using ok by (simp add: pipe_ok_def pipe_bytes_def)
  show ?case
  proof (cases op)
    case (PWrite fd data)
    obtain n t where t: "PipeWrite fd data s = (n, t)" by fastforce
    note P = PipeWrite_pipe[OF Cons.prems t]
    let ?d = "if fd = w then data else []"
    have bt: "pipe_bytes (g_Pipes t ! i) = take 64 (pipe_bytes ?p @ ?d)" using P len by simp
    define y where "y = take (64 - length (pipe_bytes ?p)) ?d"
    have y: "pipe_bytes (g_Pipes t ! i) = pipe_bytes ?p @ y" unfolding bt y_def by (rule take_grows[OF len])
    have un: "pipe_unread (g_Pipes t ! i) = pipe_unread ?p @ y" by (rule unread_grows[OF ok _ y]) (use P in simp)
    obtain x p where x: "pipe_bytes p = pipe_bytes (g_Pipes t ! i) @ x"
        "pipe_bytes p = take 64 (pipe_bytes (g_Pipes t ! i) @ offered w ops)"
        "received r t ops @ pipe_unread p = pipe_unread (g_Pipes t ! i) @ x"
        "p = g_Pipes (foldl pipe_exec t ops) ! i \<and> pipe_ends (foldl pipe_exec t ops) i r w \<and>
          (\<forall>p \<in> set (g_Pipes (foldl pipe_exec t ops)). pp_open p \<longrightarrow> pipe_ok p)"
      using Cons.IH[of t] P by blast
    have "take 64 (pipe_bytes (g_Pipes t ! i) @ offered w ops) = take 64 (pipe_bytes ?p @ ?d @ offered w ops)"
      unfolding bt take_take_append by simp
    moreover have "offered w (op # ops) = ?d @ offered w ops" by (simp add: PWrite)
    ultimately have "pipe_bytes p = take 64 (pipe_bytes ?p @ offered w (op # ops))" using x(2) by simp
    moreover have "pipe_bytes p = pipe_bytes ?p @ (y @ x)" using x(1) y by simp
    moreover have "received r s (op # ops) @ pipe_unread p = pipe_unread ?p @ (y @ x)" using x(3) t un by (simp add: PWrite)
    moreover have "foldl pipe_exec s (op # ops) = foldl pipe_exec t ops" by (simp add: PWrite t)
    ultimately show ?thesis using x(4) by metis
  next
    case (PRead fd n)
    obtain cs t where t: "PipeRead fd n s = (cs, t)" by fastforce
    note P = PipeRead_pipe[OF Cons.prems t]
    obtain x p where x: "pipe_bytes p = pipe_bytes (g_Pipes t ! i) @ x"
        "pipe_bytes p = take 64 (pipe_bytes (g_Pipes t ! i) @ offered w ops)"
        "received r t ops @ pipe_unread p = pipe_unread (g_Pipes t ! i) @ x"
        "p = g_Pipes (foldl pipe_exec t ops) ! i \<and> pipe_ends (foldl pipe_exec t ops) i r w \<and>
          (\<forall>p \<in> set (g_Pipes (foldl pipe_exec t ops)). pp_open p \<longrightarrow> pipe_ok p)"
      using Cons.IH[of t] P by blast
    have "received r s (op # ops) @ pipe_unread p = pipe_unread ?p @ x"
      using P x(3) t by (auto simp: PRead)
    moreover have "foldl pipe_exec s (op # ops) = foldl pipe_exec t ops" by (simp add: PRead t)
    moreover have "pipe_bytes p = pipe_bytes ?p @ x" "pipe_bytes p = take 64 (pipe_bytes ?p @ offered w (op # ops))"
      using x(1,2) P by (simp_all add: PRead)
    ultimately show ?thesis using x(4) by metis
  qed
qed

text \<open>Open pipes are well-formed and their descriptors have been handed out.\<close>

definition pipes_ok :: "UserTables \<Rightarrow> bool" where
  "pipes_ok s \<longleftrightarrow> (\<forall>p \<in> set (g_Pipes s). pp_open p \<longrightarrow>
     pipe_ok p \<and> pp_read_fd p < g_NextSyntheticFd s \<and> pp_write_fd p < g_NextSyntheticFd s)"

lemma CreatePipe_ends:
  assumes "pipes_ok s" "CreatePipe True True s = (Some (r, w), t)" "unat (g_NextSyntheticFd s) < 4294967294"
  shows "\<exists>i. pipe_ends t i r w \<and> (\<forall>p \<in> set (g_Pipes t). pp_open p \<longrightarrow> pipe_ok p) \<and>
    pipe_bytes (g_Pipes t ! i) = [] \<and> pipe_unread (g_Pipes t ! i) = [] \<and> pipes_ok t"
proof -
  let ?n = "g_NextSyntheticFd s"
  obtain i where i: "find_index (\<lambda>p. \<not> pp_open p) (g_Pipes s) = Some i"
    using assms(2) by (auto simp: CreatePipe_def split: option.splits)
  define q where "q = \<lparr>pp_read_fd = ?n, pp_write_fd = ?n + 1, pp_buffer = replicate 64 (CHR 0x00),
              pp_read_offset = 0, pp_write_offset = 0, pp_open = True\<rparr>"
  have t: "r = ?n" "w = ?n + 1" "g_Pipes t = (g_Pipes s)[i := q]" "g_NextSyntheticFd t = ?n + 1 + 1"
    using assms(2) i by (auto simp: CreatePipe_def Let_def q_def)
  note I = find_indexD(1,2)[OF i]
  have u: "unat (?n + 1) = Suc (unat ?n)" using assms(3) by (simp add: unat_Suc_u32)
  have "unat (?n + 1 + 1) = Suc (unat (?n + 1))" using assms(3) u by (intro unat_Suc_u32) simp
  then have lt: "?n < ?n + 1" "?n < ?n + 1 + 1" "?n + 1 < ?n + 1 + 1" using u by (simp_all add: word_less_nat_alt)
  have old: "pp_read_fd p < ?n" "pp_write_fd p < ?n" "pipe_ok p" if "p \<in> set (g_Pipes s)" "pp_open p" for p
    using assms(1) that by (auto simp: pipes_ok_def)
  have oldj: "pp_read_fd (g_Pipes s ! j) \<noteq> ?n" "pp_write_fd (g_Pipes s ! j) \<noteq> ?n + 1"
    if "j < length (g_Pipes s)" "pp_open (g_Pipes s ! j)" for j
    using old(1,2)[of "g_Pipes s ! j"] that lt(1) by (auto dest: less_trans)
  have ends: "pipe_ends t i r w"
    unfolding pipe_ends_def t
  proof (intro conjI allI impI)
    fix j assume j: "j < length ((g_Pipes s)[i := q])" "pp_open ((g_Pipes s)[i := q] ! j)"
    show "pp_read_fd ((g_Pipes s)[i := q] ! j) = ?n \<Longrightarrow> j = i"
      using j oldj(1)[of j] by (cases "j = i") auto
    show "pp_write_fd ((g_Pipes s)[i := q] ! j) = ?n + 1 \<Longrightarrow> j = i"
      using j oldj(2)[of j] by (cases "j = i") auto
  qed (use I in \<open>simp_all add: q_def\<close>)
  have q: "pipe_ok q" "pipe_bytes q = []" "pipe_unread q = []" by (simp_all add: q_def pipe_ok_def pipe_bytes_def pipe_unread_def)
  have all: "p = q \<or> p \<in> set (g_Pipes s)" if "p \<in> set (g_Pipes t)" for p
    using that unfolding t(3) by (auto dest!: set_update_subset_insert[THEN subsetD])
  have "pipe_ok p \<and> pp_read_fd p < g_NextSyntheticFd t \<and> pp_write_fd p < g_NextSyntheticFd t"
    if "p \<in> set (g_Pipes t)" "pp_open p" for p
  proof (cases "p = q")
    case True
    then show ?thesis using q lt by (simp add: t(4)) (simp add: q_def)
  next
    case False
    then show ?thesis using all[OF that(1)] old[of p] that(2) lt(2) by (auto simp: t(4) dest: less_trans)
  qed
  then have "pipes_ok t" "\<forall>p \<in> set (g_Pipes t). pp_open p \<longrightarrow> pipe_ok p" by (auto simp: pipes_ok_def)
  then show ?thesis using ends q I by (intro exI[of _ i]) (simp add: t(3))
qed

lemma received_append: "received r s (ops @ [PRead r n]) = received r s ops @ fst (PipeRead r n (foldl pipe_exec s ops))"
  by (induction r s ops rule: received.induct) simp_all

text \<open>
  C24. A pipe delivers what was written, in order. Whatever reads and writes on any
  descriptors follow the creation of a pipe, what was read from its read end is a prefix of
  the first 64 bytes written to its write end, and one more read of 64 bytes delivers the
  rest of them. (Reading does not make room: a pipe carries 64 bytes in all.)
\<close>

theorem pipe_delivers_in_order:
  assumes "pipes_ok s" "unat (g_NextSyntheticFd s) < 4294967294" "CreatePipe True True s = (Some (r, w), s0)"
  shows "(\<exists>rest. received r s0 ops @ rest = take 64 (offered w ops)) \<and>
    received r s0 (ops @ [PRead r 64]) = take 64 (offered w ops)"
proof -
  obtain i where i: "pipe_ends s0 i r w" "\<forall>p \<in> set (g_Pipes s0). pp_open p \<longrightarrow> pipe_ok p"
      "pipe_bytes (g_Pipes s0 ! i) = []" "pipe_unread (g_Pipes s0 ! i) = []"
    using CreatePipe_ends[OF assms(1,3,2)] by blast
  let ?t = "foldl pipe_exec s0 ops"
  obtain x p where x: "pipe_bytes p = x" "pipe_bytes p = take 64 (offered w ops)" "received r s0 ops @ pipe_unread p = x"
      "p = g_Pipes ?t ! i" "pipe_ends ?t i r w" "\<forall>p \<in> set (g_Pipes ?t). pp_open p \<longrightarrow> pipe_ok p"
    using pipe_run[OF i(1,2), of ops] i(3,4) by auto
  obtain cs t where t: "PipeRead r 64 ?t = (cs, t)" by fastforce
  have "cs = take 64 (pipe_unread p)" using PipeRead_pipe[OF x(5,6) t] x(4) by simp
  moreover have "length (pipe_unread p) \<le> 64" using x(2) by (simp add: pipe_unread_def)
  ultimately have "cs = pipe_unread p" by simp
  then have "received r s0 (ops @ [PRead r 64]) = x" using x(3) by (simp add: received_append t)
  then show ?thesis using x(1-3) by auto
qed

lemma demo_tables_pipes_ok: "pipes_ok demo_tables" "unat (g_NextSyntheticFd demo_tables) < 4294967294"
  by (auto simp: pipes_ok_def demo_tables_def reset_tables_def kFirstSyntheticFd_def)

lemma demo_CreatePipe: "CreatePipe True True demo_tables = (Some (64, 65), snd (CreatePipe True True demo_tables))"
  by (simp add: CreatePipe_def demo_tables_def reset_tables_def kMaxPipes_def kFirstSyntheticFd_def find_index_Some Let_def numeral_eq_Suc)

theorem pipe_delivers_in_order_witness:
  "received 64 (snd (CreatePipe True True demo_tables)) [PWrite 65 ''hel'', PRead 64 2, PWrite 65 ''lo'', PRead 64 64] = ''hello''"
  using pipe_delivers_in_order[OF demo_tables_pipes_ok demo_CreatePipe, of "[PWrite 65 ''hel'', PRead 64 2, PWrite 65 ''lo'']"]
  by simp

end
