(* ===== verification/Bytes.thy ===== *)
theory Bytes
  imports Prelude
begin

text \<open>
  Memory as a function from the address to the byte, as the ELF loaders of the kernel and of the
  boot loader read and write it: little-endian fields of packed structs, blocks of bytes.
  Addresses wrap at 64 bits, as the pointers do.
\<close>

subsection \<open>Little-endian fields\<close>

definition get_le :: "nat \<Rightarrow> (u64 \<Rightarrow> u8) \<Rightarrow> u64 \<Rightarrow> u64" where
  "get_le n m a = foldl (\<lambda>v i. v OR push_bit (8 * i) (ucast (m (a + of_nat i)))) 0 [0 ..< n]"

definition put_le :: "nat \<Rightarrow> u64 \<Rightarrow> u64 \<Rightarrow> (u64 \<Rightarrow> u8) \<Rightarrow> (u64 \<Rightarrow> u8)" where
  "put_le n a v m = foldl (\<lambda>m i. m(a + of_nat i := ucast (drop_bit (8 * i) v))) m [0 ..< n]"

lemma put_le_at:
  "n \<le> 8 \<Longrightarrow> put_le n a v m x = (if unat (x - a) < n then ucast (drop_bit (8 * unat (x - a)) v) else m x)"
proof (induction n)
  case (Suc n)
  have "x = a + of_nat n \<longleftrightarrow> unat (x - a) = n"
  proof
    assume "x = a + of_nat n"
    then show "unat (x - a) = n" using Suc.prems by (simp add: unat_of_nat_u64)
  next
    assume "unat (x - a) = n"
    then have "of_nat n = x - a" by auto
    then show "x = a + of_nat n" by simp
  qed
  then show ?case using Suc by (auto simp: put_le_def)
qed (simp add: put_le_def)

lemma get_le_bit:
  "n \<le> 8 \<Longrightarrow> bit (get_le n m a) k \<longleftrightarrow> k < 8 * n \<and> bit (m (a + of_nat (k div 8))) (k mod 8)"
proof (induction n)
  case (Suc n)
  have "k < 8 * Suc n \<and> \<not> k < 8 * n \<longleftrightarrow> k div 8 = n" by auto
  moreover have "k div 8 = n \<Longrightarrow> k - 8 * n = k mod 8" using minus_mult_div_eq_mod[of k 8] by simp
  moreover have "bit (m (a + of_nat n)) (k - 8 * n) \<Longrightarrow> k - 8 * n < 8"
    using bit_imp_le_length[of "m (a + of_nat n)" "k - 8 * n"] by simp
  ultimately show ?case using Suc by (auto simp: get_le_def bit_or_iff bit_push_bit_iff bit_ucast_iff)
qed (simp add: get_le_def)

lemma get_le_cong: "(\<And>i. i < n \<Longrightarrow> m (a + of_nat i) = m' (b + of_nat i)) \<Longrightarrow> get_le n m a = get_le n m' b"
  unfolding get_le_def by (rule foldl_cong) auto

lemma get_put_same: "n \<le> 8 \<Longrightarrow> get_le n (put_le n a v m) a = take_bit (8 * n) v"
  by (rule bit_word_eqI) (auto simp: get_le_bit put_le_at bit_take_bit_iff bit_ucast_iff bit_drop_bit_eq unat_of_nat_u64)

lemma unat_uminus_u64: "unat (- x :: u64) = (18446744073709551616 - unat x) mod 18446744073709551616"
  using u64_lt[of x] unat_sub_if_size[of 0 x] by (cases "unat x = 0") (simp_all add: word_size)

lemma get_put_other:
  "n \<le> 8 \<Longrightarrow> k \<le> 8 \<Longrightarrow> n \<le> unat (b - a) \<Longrightarrow> k \<le> unat (a - b) \<Longrightarrow> get_le n (put_le k b v m) a = get_le n m a"
proof (rule bit_word_eqI)
  fix i assume nk: "n \<le> 8" "k \<le> 8" "n \<le> unat (b - a)" "k \<le> unat (a - b)"
  let ?c = "a - b"
  have "k \<le> unat (a + of_nat (i div 8) - b)" if "i < 8 * n"
  proof -
    have d: "i div 8 < n" using that by auto
    have eq: "a + of_nat (i div 8) - b = ?c + of_nat (i div 8)" by (simp add: algebra_simps)
    have u: "unat (?c + of_nat (i div 8)) = (unat ?c + i div 8) mod 18446744073709551616"
      using d nk(1) by (simp add: unat_word_ariths unat_of_nat_u64)
    have "unat ?c + i div 8 < 18446744073709551616"
    proof (rule ccontr)
      assume w: "\<not> ?thesis"
      have "unat (b - a) = unat (- ?c)" by simp
      also have "\<dots> = (18446744073709551616 - unat ?c) mod 18446744073709551616" by (rule unat_uminus_u64)
      finally have "unat (b - a) = (18446744073709551616 - unat ?c) mod 18446744073709551616" .
      then show False using w d nk u64_lt[of ?c] by (cases "unat ?c = 0") auto
    qed
    then show ?thesis using nk(4) by (simp add: eq u)
  qed
  then show "bit (get_le n (put_le k b v m) a) i = bit (get_le n m a) i"
    using nk by (auto simp: get_le_bit put_le_at)
qed


lemma get_le_zero: "n \<le> 8 \<Longrightarrow> unat a + n \<le> unat sz \<Longrightarrow> get_le n (\<lambda>x. if x < sz then 0 else m x) a = 0"
proof (rule bit_word_eqI)
  fix i assume h: "n \<le> 8" "unat a + n \<le> unat (sz :: u64)"
  have "a + of_nat (i div 8) < sz" if "i < 8 * n"
  proof -
    have "i div 8 < n" using that by auto
    then show ?thesis using h u64_lt[of sz] by (simp add: word_less_nat_alt unat_word_ariths unat_of_nat_u64)
  qed
  then show "bit (get_le n (\<lambda>x. if x < sz then 0 else m x) a) i = bit (0 :: u64) i" using h by (auto simp: get_le_bit)
qed

lemma byte_get: "m a = (ucast (get_le 1 m a) :: u8)"
  by (rule bit_word_eqI) (simp add: get_le_bit bit_ucast_iff)

lemma ucast_byte: "ucast (ucast (v :: u8) :: u64) = v"
  by (rule bit_word_eqI) (simp add: bit_ucast_iff)

lemma minus_one_u64: "unat (- 1 :: u64) = 18446744073709551615"
  using unat_uminus_u64[of 1] by simp

subsection \<open>Blocks of bytes\<close>

definition store_bytes :: "u64 \<Rightarrow> u8 list \<Rightarrow> (u64 \<Rightarrow> u8) \<Rightarrow> (u64 \<Rightarrow> u8)" where
  "store_bytes a bs m = (\<lambda>x. if unat (x - a) < length bs then bs ! unat (x - a) else m x)"

definition zero_bytes :: "u64 \<Rightarrow> u64 \<Rightarrow> (u64 \<Rightarrow> u8) \<Rightarrow> (u64 \<Rightarrow> u8)" where
  "zero_bytes a n m = (\<lambda>x. if unat (x - a) < unat n then 0 else m x)"

lemma store_bytes_at:
  "k < length bs \<Longrightarrow> length bs < 18446744073709551616 \<Longrightarrow> store_bytes a bs m (a + of_nat k) = bs ! k"
  by (simp add: store_bytes_def unat_of_nat_u64)

end
