(* ===== verification/UserElf.thy ===== *)
theory UserElf
  imports UserTables Bytes
begin

text \<open>
  \<^verbatim>\<open>kernel/src/userspace.cpp\<close>: the ELF loader of the user space layer. An image is the memory
  behind a \<open>const uint8_t*\<close>, a function from the offset to the byte (offsets wrap at 64
  bits, as the pointer does), with its size; the packed structs are read from and written to
  it field by field, little endian.
\<close>

subsection \<open>Data\<close>

record Elf64Header =
  eh_ident :: "u8 list"
  eh_type :: u16
  eh_machine :: u16
  eh_version :: u32
  eh_entry :: u64
  eh_program_header_offset :: u64
  eh_section_header_offset :: u64
  eh_flags :: u32
  eh_header_size :: u16
  eh_program_header_entry_size :: u16
  eh_program_header_count :: u16
  eh_section_header_entry_size :: u16
  eh_section_header_count :: u16
  eh_section_name_index :: u16

record Elf64ProgramHeader =
  ph_type :: u32
  ph_flags :: u32
  ph_offset :: u64
  ph_virtual_address :: u64
  ph_physical_address :: u64
  ph_file_size :: u64
  ph_memory_size :: u64
  ph_align :: u64

record UserElfImage =
  ue_entry :: u64
  ue_lowest_address :: u64
  ue_highest_address :: u64
  ue_segment_count :: u16
  ue_valid :: bool

definition kElfLoadSegment :: u32 where "kElfLoadSegment = 1"
definition kElfTypeExecutable :: u16 where "kElfTypeExecutable = 2"
definition kElfMachineX86_64 :: u16 where "kElfMachineX86_64 = 0x3E"
definition kElfVersionCurrent :: u32 where "kElfVersionCurrent = 1"
definition kElfClass64 :: u8 where "kElfClass64 = 2"
definition kElfDataLittleEndian :: u8 where "kElfDataLittleEndian = 1"

text \<open>\<open>sizeof\<close> of the two packed structs.\<close>

definition sizeof_header :: u64 where "sizeof_header = 64"
definition sizeof_program_header :: u64 where "sizeof_program_header = 56"

subsection \<open>Reading the headers\<close>

definition read_header :: "(u64 \<Rightarrow> u8) \<Rightarrow> Elf64Header" where
  "read_header mem =
     \<lparr>eh_ident = map (\<lambda>i. mem (of_nat i)) [0 ..< 16], eh_type = ucast (get_le 2 mem 16), eh_machine = ucast (get_le 2 mem 18),
      eh_version = ucast (get_le 4 mem 20), eh_entry = get_le 8 mem 24, eh_program_header_offset = get_le 8 mem 32,
      eh_section_header_offset = get_le 8 mem 40, eh_flags = ucast (get_le 4 mem 48), eh_header_size = ucast (get_le 2 mem 52),
      eh_program_header_entry_size = ucast (get_le 2 mem 54), eh_program_header_count = ucast (get_le 2 mem 56),
      eh_section_header_entry_size = ucast (get_le 2 mem 58), eh_section_header_count = ucast (get_le 2 mem 60),
      eh_section_name_index = ucast (get_le 2 mem 62)\<rparr>"

definition read_program :: "(u64 \<Rightarrow> u8) \<Rightarrow> u64 \<Rightarrow> Elf64ProgramHeader" where
  "read_program mem a =
     \<lparr>ph_type = ucast (get_le 4 mem a), ph_flags = ucast (get_le 4 mem (a + 4)), ph_offset = get_le 8 mem (a + 8),
      ph_virtual_address = get_le 8 mem (a + 16), ph_physical_address = get_le 8 mem (a + 24),
      ph_file_size = get_le 8 mem (a + 32), ph_memory_size = get_le 8 mem (a + 40), ph_align = get_le 8 mem (a + 48)\<rparr>"

subsection \<open>The loader\<close>

definition ValidateElf64Header :: "Elf64Header \<Rightarrow> u64 \<Rightarrow> bool" where
  "ValidateElf64Header header image_size \<longleftrightarrow> image_size \<ge> sizeof_header \<and>
     eh_ident header ! 0 = 0x7F \<and> eh_ident header ! 1 = 0x45 \<and> eh_ident header ! 2 = 0x4C \<and> eh_ident header ! 3 = 0x46 \<and>
     eh_ident header ! 4 = kElfClass64 \<and> eh_ident header ! 5 = kElfDataLittleEndian \<and>
     eh_type header = kElfTypeExecutable \<and> eh_machine header = kElfMachineX86_64 \<and> eh_version header = kElfVersionCurrent \<and>
     ucast (eh_header_size header) = sizeof_header \<and> ucast (eh_program_header_entry_size header) = sizeof_program_header \<and>
     eh_program_header_count header > 0 \<and>
     eh_program_header_offset header + ucast (eh_program_header_count header) * sizeof_program_header \<le> image_size"

text \<open>One iteration of the loop over the program headers; the flag is false when it returns.\<close>

definition load_segment :: "u64 \<Rightarrow> Elf64ProgramHeader \<Rightarrow> UserElfImage \<Rightarrow> bool \<times> UserElfImage" where
  "load_segment image_size p loaded =
     (if ph_type p \<noteq> kElfLoadSegment then (True, loaded)
      else if ph_file_size p > ph_memory_size p \<or> ph_offset p + ph_file_size p > image_size then (False, loaded)
      else
        let start = ph_virtual_address p; stop = ph_virtual_address p + ph_memory_size p in
        if stop \<le> start then (False, loaded)
        else (True, loaded\<lparr>
          ue_lowest_address := (if ue_segment_count loaded = 0 \<or> start < ue_lowest_address loaded then start else ue_lowest_address loaded),
          ue_highest_address := (if stop > ue_highest_address loaded then stop else ue_highest_address loaded),
          ue_segment_count := ue_segment_count loaded + 1\<rparr>))"

fun load_segments :: "u64 \<Rightarrow> Elf64ProgramHeader list \<Rightarrow> UserElfImage \<Rightarrow> bool \<times> UserElfImage" where
  "load_segments image_size [] loaded = (True, loaded)"
| "load_segments image_size (p # ps) loaded =
     (let (ok, l) = load_segment image_size p loaded in if \<not> ok then (False, l) else load_segments image_size ps l)"

definition elf_programs :: "(u64 \<Rightarrow> u8) \<Rightarrow> Elf64Header \<Rightarrow> Elf64ProgramHeader list" where
  "elf_programs mem header = map (\<lambda>i. read_program mem (eh_program_header_offset header + of_nat i * sizeof_program_header))
     [0 ..< unat (eh_program_header_count header)]"

text \<open>The result, the loaded image, and \<open>g_Status.loaded_elf_count\<close>.\<close>

definition LoadUserElfImage :: "(u64 \<Rightarrow> u8) option \<Rightarrow> u64 \<Rightarrow> u64 \<Rightarrow> bool \<times> UserElfImage \<times> u64" where
  "LoadUserElfImage image_memory image_size loaded_elf_count =
     (let loaded = \<lparr>ue_entry = 0, ue_lowest_address = 0, ue_highest_address = 0, ue_segment_count = 0, ue_valid = False\<rparr> in
      case image_memory of None \<Rightarrow> (False, loaded, loaded_elf_count)
      | Some mem \<Rightarrow>
          if image_size < sizeof_header then (False, loaded, loaded_elf_count)
          else
            let header = read_header mem in
            if \<not> ValidateElf64Header header image_size then (False, loaded, loaded_elf_count)
            else
              let (ok, l) = load_segments image_size (elf_programs mem header) (loaded\<lparr>ue_entry := eh_entry header\<rparr>) in
              if \<not> ok then (False, l, loaded_elf_count)
              else
                let v = (ue_segment_count l > 0 \<and> ue_entry l \<ge> ue_lowest_address l \<and> ue_entry l < ue_highest_address l)
                in (v, l\<lparr>ue_valid := v\<rparr>, if v then loaded_elf_count + 1 else loaded_elf_count))"

text \<open>The fields \<open>BuildSyntheticAppElf\<close> sets, after clearing the image; the others stay 0.\<close>

definition elf_fields :: "u64 \<Rightarrow> u64 \<Rightarrow> (nat \<times> u64 \<times> u64) list" where
  "elf_fields base_address segment_bytes =
     [(1, 0, 0x7F), (1, 1, 0x45), (1, 2, 0x4C), (1, 3, 0x46), (1, 4, ucast kElfClass64), (1, 5, ucast kElfDataLittleEndian),
      (2, 16, ucast kElfTypeExecutable), (2, 18, ucast kElfMachineX86_64), (4, 20, ucast kElfVersionCurrent),
      (8, 24, base_address), (8, 32, sizeof_header), (2, 52, sizeof_header), (2, 54, sizeof_program_header), (2, 56, 1),
      (4, 64, ucast kElfLoadSegment), (8, 72, sizeof_header + sizeof_program_header), (8, 80, base_address),
      (8, 88, base_address), (8, 96, segment_bytes), (8, 104, segment_bytes), (8, 112, 0x1000)]"

definition put_fields :: "(nat \<times> u64 \<times> u64) list \<Rightarrow> (u64 \<Rightarrow> u8) \<Rightarrow> (u64 \<Rightarrow> u8)" where
  "put_fields fs mem = foldl (\<lambda>m (n, a, v). put_le n a v m) mem fs"

definition BuildSyntheticAppElf :: "(u64 \<Rightarrow> u8) \<Rightarrow> u64 \<Rightarrow> u64 \<Rightarrow> (u64 \<Rightarrow> u8)" where
  "BuildSyntheticAppElf mem image_size base_address =
     (if image_size < sizeof_header + sizeof_program_header + 16 then mem
      else put_fields (elf_fields base_address 16) (\<lambda>a. if a < image_size then 0 else mem a))"

text \<open>
  The two self-tests write the same fields into a zeroed array of their own; the second one
  with a segment of 8 bytes. Each returns its verdict and the counter of loaded images.
\<close>

definition RunElfLoaderSelfTest :: "u64 \<Rightarrow> bool \<times> u64" where
  "RunElfLoaderSelfTest loaded_elf_count =
     (let (ok, loaded, n) = LoadUserElfImage (Some (put_fields (elf_fields 0x400000 16) (\<lambda>a. 0))) 136 loaded_elf_count
      in (ok \<and> ue_valid loaded \<and> ue_entry loaded = 0x400000 \<and> ue_segment_count loaded = 1, n))"

definition elf_compat_loads :: "u64 \<Rightarrow> bool \<times> u64" where
  "elf_compat_loads loaded_elf_count =
     (let (ok, loaded, n) = LoadUserElfImage (Some (put_fields (elf_fields 0x410000 8) (\<lambda>a. 0))) 128 loaded_elf_count
      in (ok \<and> ue_valid loaded, n))"

subsection \<open>What an accepted image is\<close>

text \<open>
  The rule the loader implements, over natural numbers where the code compares words: a
  loadable segment is acceptable when its file part is not larger than its memory part, its
  (wrapping) end in the file is inside the image, and its address range is non-empty and does
  not wrap.
\<close>

definition loadable :: "Elf64ProgramHeader \<Rightarrow> bool" where
  "loadable p \<longleftrightarrow> ph_type p = kElfLoadSegment"

definition segment_fits :: "u64 \<Rightarrow> Elf64ProgramHeader \<Rightarrow> bool" where
  "segment_fits n p \<longleftrightarrow> ph_file_size p \<le> ph_memory_size p \<and> ph_offset p + ph_file_size p \<le> n \<and>
     0 < unat (ph_memory_size p) \<and> unat (ph_virtual_address p) + unat (ph_memory_size p) < 18446744073709551616"

abbreviation seg_start :: "Elf64ProgramHeader \<Rightarrow> u64" where "seg_start \<equiv> ph_virtual_address"
abbreviation seg_end :: "Elf64ProgramHeader \<Rightarrow> u64" where "seg_end p \<equiv> ph_virtual_address p + ph_memory_size p"

definition elf_spec :: "(u64 \<Rightarrow> u8) \<Rightarrow> u64 \<Rightarrow> UserElfImage option" where
  "elf_spec m n =
     (let h = read_header m; ls = filter loadable (elf_programs m h);
          lo = Min (set (map seg_start ls)); hi = Max (set (map seg_end ls)) in
      if ValidateElf64Header h n \<and> ls \<noteq> [] \<and> list_all (segment_fits n) ls \<and> lo \<le> eh_entry h \<and> eh_entry h < hi
      then Some \<lparr>ue_entry = eh_entry h, ue_lowest_address = lo, ue_highest_address = hi,
                 ue_segment_count = of_nat (length ls), ue_valid = True\<rparr>
      else None)"

lemma u64_range_nonempty:
  "(s :: u64) < s + n \<longleftrightarrow> 0 < unat n \<and> unat s + unat n < 18446744073709551616"
proof (cases "unat s + unat n < 18446744073709551616")
  case True
  then show ?thesis by (simp add: word_less_nat_alt unat_word_ariths)
next
  case False
  then have "unat (s + n) = unat s + unat n - 18446744073709551616"
    using u64_lt[of s] u64_lt[of n] by (simp add: unat_word_ariths mod_if)
  then show ?thesis using False u64_lt[of n] by (simp add: word_less_nat_alt)
qed

lemma load_segment_not_loadable: "\<not> loadable p \<Longrightarrow> load_segment n p l = (True, l)"
  by (simp add: load_segment_def loadable_def)

lemma load_segment_bad: "loadable p \<Longrightarrow> \<not> segment_fits n p \<Longrightarrow> load_segment n p l = (False, l)"
  by (auto simp: load_segment_def loadable_def segment_fits_def Let_def not_le
      u64_range_nonempty[of "ph_virtual_address p" "ph_memory_size p", symmetric])

lemma load_segment_good:
  "loadable p \<Longrightarrow> segment_fits n p \<Longrightarrow> load_segment n p l = (True, l\<lparr>
     ue_lowest_address := (if ue_segment_count l = 0 \<or> seg_start p < ue_lowest_address l then seg_start p else ue_lowest_address l),
     ue_highest_address := max (ue_highest_address l) (seg_end p),
     ue_segment_count := ue_segment_count l + 1\<rparr>)"
  using u64_range_nonempty[of "ph_virtual_address p" "ph_memory_size p"]
  by (auto simp: load_segment_def loadable_def segment_fits_def Let_def not_le max_def)

lemma load_segments_filter: "load_segments n ps l = load_segments n (filter loadable ps) l"
  by (induction ps arbitrary: l) (auto simp: load_segment_not_loadable split: prod.splits)

lemma load_segments_bad:
  "\<not> list_all (segment_fits n) ps \<Longrightarrow> list_all loadable ps \<Longrightarrow> \<not> fst (load_segments n ps l)"
proof (induction ps arbitrary: l)
  case (Cons p ps)
  then show ?case
    by (cases "segment_fits n p") (auto simp: load_segment_good load_segment_bad)
qed simp

lemma load_segments_more:
  assumes "list_all (segment_fits n) ps" "list_all loadable ps" "ue_segment_count l \<noteq> 0"
    "unat (ue_segment_count l) + length ps < 65536"
  shows "load_segments n ps l = (True, l\<lparr>ue_lowest_address := fold min (map seg_start ps) (ue_lowest_address l),
      ue_highest_address := fold max (map seg_end ps) (ue_highest_address l),
      ue_segment_count := ue_segment_count l + of_nat (length ps)\<rparr>)"
  using assms
proof (induction ps arbitrary: l)
  case (Cons p ps)
  let ?l = "l\<lparr>ue_lowest_address := min (seg_start p) (ue_lowest_address l),
     ue_highest_address := max (seg_end p) (ue_highest_address l), ue_segment_count := ue_segment_count l + 1\<rparr>"
  have cnt: "unat (ue_segment_count l + 1) = Suc (unat (ue_segment_count l))"
    using Cons.prems(4) by (simp add: unat_word_ariths)
  then have nz: "ue_segment_count ?l \<noteq> 0" by auto
  have "load_segment n p l = (True, ?l)"
    using Cons.prems by (auto simp: load_segment_good min_def max.commute not_less)
  moreover have "load_segments n ps ?l = (True, ?l\<lparr>ue_lowest_address := fold min (map seg_start ps) (ue_lowest_address ?l),
      ue_highest_address := fold max (map seg_end ps) (ue_highest_address ?l),
      ue_segment_count := ue_segment_count ?l + of_nat (length ps)\<rparr>)"
    by (rule Cons.IH) (use Cons.prems nz cnt in simp_all)
  ultimately show ?case by (simp add: add.assoc)
qed simp

lemma load_segments_first:
  assumes "list_all (segment_fits n) ps" "list_all loadable ps" "ps \<noteq> []" "ue_segment_count l = 0" "ue_highest_address l = 0"
    "length ps < 65536"
  shows "load_segments n ps l = (True, l\<lparr>ue_lowest_address := Min (set (map seg_start ps)),
      ue_highest_address := Max (set (map seg_end ps)), ue_segment_count := of_nat (length ps)\<rparr>)"
proof (cases ps)
  case (Cons p qs)
  let ?l = "l\<lparr>ue_lowest_address := seg_start p, ue_highest_address := seg_end p, ue_segment_count := 1\<rparr>"
  have "load_segment n p l = (True, ?l)"
    using assms Cons by (simp add: load_segment_good max_def)
  moreover have "load_segments n qs ?l = (True, ?l\<lparr>ue_lowest_address := fold min (map seg_start qs) (ue_lowest_address ?l),
      ue_highest_address := fold max (map seg_end qs) (ue_highest_address ?l),
      ue_segment_count := ue_segment_count ?l + of_nat (length qs)\<rparr>)"
    by (rule load_segments_more) (use assms Cons in simp_all)
  ultimately show ?thesis
    using Min.set_eq_fold[of "seg_start p" "map seg_start qs"] Max.set_eq_fold[of "seg_end p" "map seg_end qs"]
    by (simp add: Cons)
qed (use assms in simp)

lemma elf_programs_length: "length (elf_programs m h) < 65536"
  using unsigned_less[of "eh_program_header_count h", where ?'a = nat] by (simp add: elf_programs_def)

lemma load_spec:
  "(case LoadUserElfImage (Some m) n c of (ok, r, c') \<Rightarrow> (if ok then Some r else None, c')) =
     (elf_spec m n, if elf_spec m n = None then c else c + 1)"
proof -
  let ?h = "read_header m" and ?l = "\<lparr>ue_entry = 0, ue_lowest_address = 0, ue_highest_address = 0, ue_segment_count = 0, ue_valid = False\<rparr>"
  let ?i = "?l\<lparr>ue_entry := eh_entry ?h\<rparr>" and ?ls = "filter loadable (elf_programs m ?h)"
  have lall: "list_all loadable ?ls" by (simp add: list_all_iff)
  have len: "length ?ls < 65536" using elf_programs_length[of m ?h] length_filter_le[of loadable "elf_programs m ?h"] by linarith
  show ?thesis
  proof (cases "ValidateElf64Header ?h n")
    case False
    then show ?thesis by (simp add: LoadUserElfImage_def elf_spec_def Let_def)
  next
    case valid: True
    then have big: "\<not> n < sizeof_header" by (simp add: ValidateElf64Header_def not_less)
    show ?thesis
    proof (cases "list_all (segment_fits n) ?ls \<and> ?ls \<noteq> []")
      case True
      have "load_segments n (elf_programs m ?h) ?i = (True, ?i\<lparr>ue_lowest_address := Min (set (map seg_start ?ls)),
          ue_highest_address := Max (set (map seg_end ?ls)), ue_segment_count := of_nat (length ?ls)\<rparr>)"
        unfolding load_segments_filter[of n "elf_programs m ?h"]
        by (rule load_segments_first) (use True lall len in simp_all)
      moreover have "(of_nat (length ?ls) :: u16) > 0"
        using True len by (simp add: word_less_nat_alt unat_of_nat take_bit_nat_def)
      ultimately show ?thesis
        using valid big True by (simp add: LoadUserElfImage_def elf_spec_def Let_def del: set_map)
    next
      case False
      then have "\<not> fst (load_segments n (elf_programs m ?h) ?i) \<or> load_segments n (elf_programs m ?h) ?i = (True, ?i)"
        unfolding load_segments_filter[of n "elf_programs m ?h"] using load_segments_bad[OF _ lall, of n] by fastforce
      then show ?thesis
        using valid big False by (auto simp: LoadUserElfImage_def elf_spec_def Let_def split: prod.splits)
    qed
  qed
qed

text \<open>
  C1. The loader implements its rule: for every image and size, its answer is exactly the
  description \<open>elf_spec\<close> gives - entry, hull of the loadable segments and their number -
  and it rejects every other image; the counter of loaded images grows exactly with the
  accepted ones.
\<close>

theorem elf_loader_refines:
  "(case LoadUserElfImage (Some m) n c of (ok, r, c') \<Rightarrow> (if ok then Some r else None, c')) =
     (elf_spec m n, if elf_spec m n = None then c else c + 1)"
  by (rule load_spec)

subsection \<open>Building and loading\<close>

lemma put_fields_append: "put_fields (fs @ [(n, a, v)]) m = put_le n a v (put_fields fs m)"
  by (simp add: put_fields_def)

text \<open>The last field written at a place is what is read there.\<close>

fun field_at :: "nat \<Rightarrow> u64 \<Rightarrow> (nat \<times> u64 \<times> u64) list \<Rightarrow> u64 option" where
  "field_at n a [] = Some 0"
| "field_at n a ((k, b, v) # fs) =
     (if a = b \<and> k = n then Some (take_bit (8 * n) v)
      else if n \<le> unat (b - a) \<and> k \<le> unat (a - b) then field_at n a fs else None)"

lemma put_fields_read:
  assumes "list_all (\<lambda>(k, _, _). k \<le> 8) fs" "n \<le> 8" "field_at n a (rev fs) = Some v" "get_le n m a = 0"
  shows "get_le n (put_fields fs m) a = v"
  using assms
proof (induction fs rule: rev_induct)
  case (snoc f fs)
  then show ?case
    by (cases f) (auto simp: put_fields_append get_put_same get_put_other split: if_splits)
qed (simp add: put_fields_def)

definition blank :: "(u64 \<Rightarrow> u8) \<Rightarrow> bool" where
  "blank m \<longleftrightarrow> (\<forall>a < 120. m a = 0)"

lemma blank_get: "blank m \<Longrightarrow> n \<le> 8 \<Longrightarrow> unat a + n \<le> 120 \<Longrightarrow> get_le n m a = 0"
proof -
  assume "blank m" and h: "n \<le> 8" "unat a + n \<le> 120"
  then have "m = (\<lambda>x. if x < 120 then 0 else m x)" by (auto simp: blank_def)
  then show ?thesis using get_le_zero[of n a 120 m] h by simp
qed

lemma elf_fields_small: "list_all (\<lambda>(k, _, _). k \<le> 8) (elf_fields base sz)"
  by (simp add: elf_fields_def)

lemma built_read:
  "blank m \<Longrightarrow> n \<le> 8 \<Longrightarrow> unat a + n \<le> 120 \<Longrightarrow> field_at n a (rev (elf_fields base sz)) = Some v \<Longrightarrow>
   get_le n (put_fields (elf_fields base sz) m) a = v"
  by (rule put_fields_read[OF elf_fields_small]) (simp_all add: blank_get)

text \<open>What the loader reads of a built image, field by field.\<close>

lemma built_byte:
  "blank m \<Longrightarrow> unat a < 120 \<Longrightarrow> field_at 1 a (rev (elf_fields base sz)) = Some (ucast (v :: u8)) \<Longrightarrow>
   put_fields (elf_fields base sz) m a = v"
  using built_read[of m 1 a base sz "ucast v"] byte_get[of "put_fields (elf_fields base sz) m" a]
  by (simp add: ucast_byte)

lemma built_ident:
  assumes "blank m"
  shows "put_fields (elf_fields base sz) m 0 = 0x7F" "put_fields (elf_fields base sz) m 1 = 0x45"
    "put_fields (elf_fields base sz) m 2 = 0x4C" "put_fields (elf_fields base sz) m 3 = 0x46"
    "put_fields (elf_fields base sz) m 4 = kElfClass64" "put_fields (elf_fields base sz) m 5 = kElfDataLittleEndian"
  by (rule built_byte[OF assms]; simp add: elf_fields_def kElfClass64_def kElfDataLittleEndian_def minus_one_u64)+

lemma built_header:
  assumes "blank m"
  shows "get_le 2 (put_fields (elf_fields base sz) m) 16 = 2" "get_le 2 (put_fields (elf_fields base sz) m) 18 = 0x3E"
    "get_le 4 (put_fields (elf_fields base sz) m) 20 = 1" "get_le 8 (put_fields (elf_fields base sz) m) 24 = base"
    "get_le 8 (put_fields (elf_fields base sz) m) 32 = 64" "get_le 2 (put_fields (elf_fields base sz) m) 52 = 64"
    "get_le 2 (put_fields (elf_fields base sz) m) 54 = 56" "get_le 2 (put_fields (elf_fields base sz) m) 56 = 1"
    "get_le 4 (put_fields (elf_fields base sz) m) 64 = 1" "get_le 8 (put_fields (elf_fields base sz) m) 72 = 120"
    "get_le 8 (put_fields (elf_fields base sz) m) 80 = base" "get_le 8 (put_fields (elf_fields base sz) m) 96 = sz"
    "get_le 8 (put_fields (elf_fields base sz) m) 104 = sz"
  by (rule built_read[OF assms];
      simp add: elf_fields_def kElfTypeExecutable_def kElfMachineX86_64_def kElfVersionCurrent_def kElfLoadSegment_def
        sizeof_header_def sizeof_program_header_def take_bit_word_eq_self)+

lemma built_loads:
  assumes "blank m" "120 + unat sz \<le> unat n" "0 < unat sz" "unat base + unat sz < 18446744073709551616"
  shows "LoadUserElfImage (Some (put_fields (elf_fields base sz) m)) n c =
    (True, \<lparr>ue_entry = base, ue_lowest_address = base, ue_highest_address = base + sz, ue_segment_count = 1, ue_valid = True\<rparr>, c + 1)"
proof -
  let ?m = "put_fields (elf_fields base sz) m"
  note r = built_header[OF assms(1), of base sz] built_ident[OF assms(1), of base sz]
  have n: "120 \<le> n" "64 \<le> n" using assms(2) by (simp_all add: word_le_nat_alt)
  have up: "[0 ..< 16] = [0, 1, 2, 3, 4, 5, 6, 7, 8, 9, 10, 11, 12, 13, 14, 15 :: nat]" by (simp add: upt_conv_Cons)
  have valid: "ValidateElf64Header (read_header ?m) n"
    using n by (simp add: ValidateElf64Header_def read_header_def r up sizeof_header_def sizeof_program_header_def
        kElfTypeExecutable_def kElfMachineX86_64_def kElfVersionCurrent_def)
  have progs: "elf_programs ?m (read_header ?m) = [read_program ?m 64]"
    by (simp add: elf_programs_def read_header_def r)
  have seg: "loadable (read_program ?m 64)" "segment_fits n (read_program ?m 64)"
      "seg_start (read_program ?m 64) = base" "seg_end (read_program ?m 64) = base + sz"
    using assms(2-4) u64_lt[of n] by (auto simp: loadable_def segment_fits_def read_program_def r kElfLoadSegment_def
        word_le_nat_alt unat_word_ariths)
  have "base < base + sz" using assms(3,4) by (simp add: u64_range_nonempty)
  then have spec: "elf_spec ?m n = Some \<lparr>ue_entry = base, ue_lowest_address = base, ue_highest_address = base + sz,
      ue_segment_count = 1, ue_valid = True\<rparr>"
    using valid seg by (simp add: elf_spec_def Let_def progs) (simp add: read_header_def r)
  show ?thesis using load_spec[of ?m n c] spec by (auto split: prod.splits if_splits)
qed

lemma built_image_loads_always:
  assumes "136 \<le> unat n" "unat base + 16 < 18446744073709551616"
  shows "LoadUserElfImage (Some (BuildSyntheticAppElf m n base)) n c =
    (True, \<lparr>ue_entry = base, ue_lowest_address = base, ue_highest_address = base + 16, ue_segment_count = 1, ue_valid = True\<rparr>, c + 1)"
proof -
  have "\<not> n < sizeof_header + sizeof_program_header + 16"
    using assms(1) by (simp add: sizeof_header_def sizeof_program_header_def word_less_nat_alt)
  moreover have "blank (\<lambda>a. if a < n then 0 else m a)"
    using assms(1) by (auto simp: blank_def word_less_nat_alt)
  ultimately show ?thesis using assms by (simp add: BuildSyntheticAppElf_def built_loads)
qed

text \<open>
  C1. What \<open>BuildSyntheticAppElf\<close> writes, \<open>LoadUserElfImage\<close> reads back: for every base
  whose 16 bytes do not wrap and every buffer with room for the image, whatever it held
  before, loading succeeds with the entry and the range the builder was given.
\<close>

theorem built_image_loads:
  assumes "136 \<le> unat n" "unat base + 16 < 18446744073709551616"
  shows "LoadUserElfImage (Some (BuildSyntheticAppElf m n base)) n c =
    (True, \<lparr>ue_entry = base, ue_lowest_address = base, ue_highest_address = base + 16, ue_segment_count = 1, ue_valid = True\<rparr>, c + 1)"
  using assms by (rule built_image_loads_always)

theorem built_image_loads_witness:
  "LoadUserElfImage (Some (BuildSyntheticAppElf (\<lambda>a. 0xFF) 136 0x900000)) 136 6 =
    (True, \<lparr>ue_entry = 0x900000, ue_lowest_address = 0x900000, ue_highest_address = 0x900010, ue_segment_count = 1, ue_valid = True\<rparr>, 7)"
  using built_image_loads[of 136 "0x900000" "\<lambda>a. 0xFF" 6] by simp

lemma RunElfLoaderSelfTest_passes: "RunElfLoaderSelfTest c = (True, c + 1)"
  using built_loads[of "\<lambda>a. 0" 16 136 "0x400000" c] by (simp add: RunElfLoaderSelfTest_def blank_def)

lemma elf_compat_loads_passes: "elf_compat_loads c = (True, c + 1)"
  using built_loads[of "\<lambda>a. 0" 8 128 "0x410000" c] by (simp add: elf_compat_loads_def blank_def)

end
