(* ===== verification/UserSpace.thy ===== *)
theory UserSpace
  imports UserElf
begin

text \<open>
  \<^verbatim>\<open>kernel/src/userspace.cpp\<close> and \<^verbatim>\<open>kernel/include/userspace.hpp\<close>: the system call dispatcher,
  the boot self-tests, the init and shell processes, launching and ending applications, the
  boot report. The state joins the tables of \<open>UserTables\<close>, the flags and counters of
  \<open>g_Status\<close> and the scheduler the calls run on.

  Addresses of this layer come from the linker and the callers: \<open>text_at\<close> is the
  NUL-terminated text at an address (\<open>None\<close> for the null pointer), \<open>literal_at\<close> the address of
  a string literal, \<open>code_at\<close> the address of a function, \<open>trampoline\<close> the one the scheduler
  starts threads at.
\<close>

subsection \<open>Data\<close>

datatype Service =
    SvcSyscalls | SvcShell | SvcUserProcess | SvcElfLoader | SvcDynamicLinker | SvcLibc | SvcPosix | SvcInit
  | SvcLoaderCache | SvcEnvironment | SvcSharedLibraries | SvcSignals | SvcPipes | SvcPty | SvcFullLibc | SvcLibm
  | SvcLibpthread | SvcLibdl | SvcCppStl | SvcGcc | SvcClang | SvcBuildSdk | SvcCrossCompiler | SvcPackageToolchain
  | SvcSdkDocumentation | SvcExampleApplications | SvcDeveloperTools | SvcPosixCompat | SvcElfCompat | SvcGlibc
  | SvcMusl | SvcSdl2 | SvcSdl3 | SvcOpenGl | SvcVulkan | SvcOpenAl | SvcWayland | SvcX11 | SvcSteamRuntime

record UserSpace =
  tables :: UserTables
  service_ready :: "Service \<Rightarrow> bool"
  shell_process_id :: u64
  shell_thread_id :: u64
  init_process_id :: u64
  init_thread_id :: u64
  syscall_count :: u64
  loaded_elf_count :: u64
  us_sched :: Sched
  next_app_base :: u64

record UserProgram =
  text_at :: "u64 \<Rightarrow> cstring"
  literal_at :: "string \<Rightarrow> u64"
  code_at :: "string \<Rightarrow> u64"
  trampoline :: u64

definition ResetUserspaceStatus :: "UserSpace \<Rightarrow> UserSpace" where
  "ResetUserspaceStatus s = s\<lparr>tables := reset_tables (tables s), service_ready := (\<lambda>_. False),
     shell_process_id := 0, shell_thread_id := 0, init_process_id := 0, init_thread_id := 0,
     syscall_count := 0, loaded_elf_count := 0\<rparr>"

definition set_ready :: "Service \<Rightarrow> bool \<Rightarrow> UserSpace \<Rightarrow> UserSpace" where
  "set_ready svc ok s = s\<lparr>service_ready := (service_ready s)(svc := ok)\<rparr>"

definition log_us :: "LogLevel \<Rightarrow> string \<Rightarrow> UserSpace \<Rightarrow> UserSpace" where
  "log_us level message s = s\<lparr>tables := log_user level message (tables s)\<rparr>"

definition on_tables :: "(UserTables \<Rightarrow> 'a \<times> UserTables) \<Rightarrow> UserSpace \<Rightarrow> 'a \<times> UserSpace" where
  "on_tables f s = (let (r, t) = f (tables s) in (r, s\<lparr>tables := t\<rparr>))"

definition on_sched :: "(Sched \<Rightarrow> 'a \<times> Sched) \<Rightarrow> UserSpace \<Rightarrow> 'a \<times> UserSpace" where
  "on_sched f s = (let (r, t) = f (us_sched s) in (r, s\<lparr>us_sched := t\<rparr>))"

subsection \<open>System calls\<close>

datatype SyscallNumber =
    CallWrite | CallExit | CallYield | CallGetPid | CallOpen | CallRead | CallClose | CallPipe | CallSignal | CallGetEnv

definition syscall_value :: "SyscallNumber \<Rightarrow> u64" where
  "syscall_value n = (case n of CallWrite \<Rightarrow> 1 | CallExit \<Rightarrow> 2 | CallYield \<Rightarrow> 3 | CallGetPid \<Rightarrow> 4 | CallOpen \<Rightarrow> 5
     | CallRead \<Rightarrow> 6 | CallClose \<Rightarrow> 7 | CallPipe \<Rightarrow> 8 | CallSignal \<Rightarrow> 9 | CallGetEnv \<Rightarrow> 10)"

text \<open>
  A call returns a number or, for \<open>GetEnv\<close>, the address of a text of the environment; \<open>Read\<close>
  and \<open>Pipe\<close> also store in the caller's memory.
\<close>

datatype sysret = Number u64 | Text cstring

datatype memory_store = StoreByte u64 char | StoreInt u64 i32

definition KernelSyscall ::
    "UserProgram \<Rightarrow> u64 \<Rightarrow> u64 \<Rightarrow> u64 \<Rightarrow> u64 \<Rightarrow> UserSpace \<Rightarrow> sysret \<times> memory_store list \<times> UserSpace" where
  "KernelSyscall prog number arg0 arg1 arg2 s0 =
     (let s = s0\<lparr>syscall_count := syscall_count s0 + 1\<rparr> in
      if number = syscall_value CallWrite then
        let (n, s1) = on_tables (SysWrite (text_at prog arg0) arg1) s in (Number n, [], s1)
      else if number = syscall_value CallExit then
        let (n, s1) = on_tables (SysExit arg0 arg1) s in (Number n, [], s1)
      else if number = syscall_value CallYield then
        let (_, s1) = on_sched KernelSchedulerYield s in (Number 0, [], s1)
      else if number = syscall_value CallGetPid then (Number (shell_process_id s), [], s)
      else if number = syscall_value CallOpen then
        let (fd, s1) = on_tables (PosixOpen (text_at prog arg0) (ucast arg1)) s in (Number (scast fd), [], s1)
      else if number = syscall_value CallRead then
        let (n, stored) = PosixRead (tables s) (ucast arg0) (arg1 \<noteq> 0) arg2
        in (Number n, (case stored of None \<Rightarrow> [] | Some c \<Rightarrow> [StoreByte arg1 c]), s)
      else if number = syscall_value CallClose then
        let (r, s1) = on_tables (PosixClose (ucast arg0)) s in (Number (scast r), [], s1)
      else if number = syscall_value CallPipe then
        let (fds, s1) = on_tables (CreatePipe (arg0 \<noteq> 0) (arg1 \<noteq> 0)) s
        in (case fds of None \<Rightarrow> (Number 1, [], s1)
            | Some (r, w) \<Rightarrow> (Number 0, [StoreInt arg0 r, StoreInt arg1 w], s1))
      else if number = syscall_value CallSignal then
        let (ok, t, sched) = DeliverUserSignal arg0 arg1 (ucast arg2) (tables s) (us_sched s)
        in (Number (if ok then 0 else 1), [], s\<lparr>tables := t, us_sched := sched\<rparr>)
      else if number = syscall_value CallGetEnv then
        (Text (GetEnvironmentVariable (tables s) (text_at prog arg0)), [], s)
      else (Number 0, [], s))"

definition syscall_number :: "UserProgram \<Rightarrow> u64 \<Rightarrow> u64 \<Rightarrow> u64 \<Rightarrow> u64 \<Rightarrow> UserSpace \<Rightarrow> u64 \<times> UserSpace" where
  "syscall_number prog number arg0 arg1 arg2 s =
     (let (r, _, s1) = KernelSyscall prog number arg0 arg1 arg2 s in (case r of Number n \<Rightarrow> n | Text t \<Rightarrow> 0, s1))"

definition LibcWrite :: "UserProgram \<Rightarrow> i32 \<Rightarrow> u64 \<Rightarrow> UserSpace \<Rightarrow> u64 \<times> UserSpace" where
  "LibcWrite prog fd txt s =
     (if fd \<noteq> 1 \<and> fd \<noteq> 2 then (0, s)
      else case text_at prog txt of None \<Rightarrow> (0, s)
      | Some cs \<Rightarrow> syscall_number prog (syscall_value CallWrite) txt (of_nat (length cs)) 0 s)"

definition SdkLibcMemcpy :: "u64 \<Rightarrow> u64 \<Rightarrow> u64 \<Rightarrow> (u64 \<Rightarrow> u8) \<Rightarrow> u64 \<times> (u64 \<Rightarrow> u8)" where
  "SdkLibcMemcpy destination source len m =
     (if destination = 0 \<or> source = 0 then (0, m)
      else (destination, foldl (\<lambda>m i. m(destination + of_nat i := m (source + of_nat i))) m [0 ..< unat len]))"

subsection \<open>The self-tests\<close>

text \<open>\<open>a && b && \<dots>\<close> over calls that change the state.\<close>

fun all_of :: "(UserSpace \<Rightarrow> bool \<times> UserSpace) list \<Rightarrow> UserSpace \<Rightarrow> bool \<times> UserSpace" where
  "all_of [] s = (True, s)"
| "all_of (t # ts) s = (let (ok, s1) = t s in if ok then all_of ts s1 else (False, s1))"

definition check :: "(UserTables \<Rightarrow> bool) \<Rightarrow> UserSpace \<Rightarrow> bool \<times> UserSpace" where
  "check P s = (P (tables s), s)"

abbreviation symbol :: "string \<Rightarrow> u64 \<Rightarrow> UserSpace \<Rightarrow> bool \<times> UserSpace" where
  "symbol nm a \<equiv> on_tables (RegisterDynamicSymbol (Some nm) a)"
abbreviation resolves :: "string \<Rightarrow> u64 \<Rightarrow> UserSpace \<Rightarrow> bool \<times> UserSpace" where
  "resolves nm a \<equiv> check (\<lambda>t. ResolveDynamicSymbol t (Some nm) = a)"
abbreviation shared :: "string \<Rightarrow> u64 \<Rightarrow> UserSpace \<Rightarrow> bool \<times> UserSpace" where
  "shared nm a \<equiv> on_tables (LoadSharedLibrary (Some nm) a)"
abbreviation component :: "SdkComponentKind \<Rightarrow> string \<Rightarrow> string \<Rightarrow> UserSpace \<Rightarrow> bool \<times> UserSpace" where
  "component k nm path \<equiv> on_tables (SdkRegisterComponent k (Some nm) (Some path))"
abbreviation has_component :: "SdkComponentKind \<Rightarrow> UserSpace \<Rightarrow> bool \<times> UserSpace" where
  "has_component k \<equiv> check (\<lambda>t. FindSdkComponent t k \<noteq> None)"
abbreviation target :: "CompatibilityTargetKind \<Rightarrow> string \<Rightarrow> u32 \<Rightarrow> u32 \<Rightarrow> UserSpace \<Rightarrow> bool \<times> UserSpace" where
  "target k nm major minor \<equiv> on_tables (RegisterCompatibilityTarget k (Some nm) major minor)"
abbreviation has_symbol :: "string \<Rightarrow> string \<Rightarrow> UserSpace \<Rightarrow> bool \<times> UserSpace" where
  "has_symbol so sy \<equiv> check (\<lambda>t. CompatSymbolAvailable t (Some so) (Some sy))"
abbreviation that_holds :: "bool \<Rightarrow> UserSpace \<Rightarrow> bool \<times> UserSpace" where
  "that_holds b \<equiv> check (\<lambda>t. b)"

definition counting_elf :: "(u64 \<Rightarrow> bool \<times> u64) \<Rightarrow> UserSpace \<Rightarrow> bool \<times> UserSpace" where
  "counting_elf f s = (let (ok, n) = f (loaded_elf_count s) in (ok, s\<lparr>loaded_elf_count := n\<rparr>))"

definition RunDynamicLinkerSelfTest :: "UserProgram \<Rightarrow> UserSpace \<Rightarrow> bool \<times> UserSpace" where
  "RunDynamicLinkerSelfTest prog = all_of
     [symbol ''write'' (code_at prog ''LibcWrite''), resolves ''write'' (code_at prog ''LibcWrite''), resolves ''missing'' 0]"

definition RunLibcSelfTest :: "UserProgram \<Rightarrow> UserSpace \<Rightarrow> bool \<times> UserSpace" where
  "RunLibcSelfTest prog s =
     (let old_count = syscall_count s; (written, s1) = LibcWrite prog 1 (literal_at prog ''libc: ok'') s
      in (written = 8 \<and> syscall_count s1 = old_count + 1, s1))"

definition RunPosixSelfTest :: "UserSpace \<Rightarrow> bool \<times> UserSpace" where
  "RunPosixSelfTest s =
     (let (fd, s1) = on_tables (PosixOpen (Some ''/tmp/readme'') 0) s in
      if sint fd < 3 then (False, s1)
      else
        let read_ok = (fst (PosixRead (tables s1) fd True 1) = 0); (r, s2) = on_tables (PosixClose fd) s1 in
        if read_ok \<and> r = 0 then let (r2, s3) = on_tables (PosixClose fd) s2 in (r2 = - 1, s3) else (False, s2))"

definition RunDynamicLoaderCacheSelfTest :: "UserSpace \<Rightarrow> bool \<times> UserSpace" where
  "RunDynamicLoaderCacheSelfTest = all_of
     [on_tables (RegisterLoaderCacheEntry (Some ''/bin/init'') 0x400000 0x401000 0x3000),
      on_tables (RegisterLoaderCacheEntry (Some ''/bin/sh'') 0x500000 0x501000 0x2000),
      check (\<lambda>t. FindLoaderCacheEntry t (Some ''/bin/init'') \<noteq> None),
      check (\<lambda>t. FindLoaderCacheEntry t (Some ''/bin/missing'') = None)]"

definition RunEnvironmentSelfTest :: "UserSpace \<Rightarrow> bool \<times> UserSpace" where
  "RunEnvironmentSelfTest = all_of
     [on_tables (SetEnvironmentVariable (Some ''PATH'') (Some ''/bin:/usr/bin'')),
      on_tables (SetEnvironmentVariable (Some ''HOME'') (Some ''/'')),
      on_tables (SetEnvironmentVariable (Some ''TERM'') (Some ''kernel'')),
      check (\<lambda>t. StringEquals (GetEnvironmentVariable t (Some ''PATH'')) (Some ''/bin:/usr/bin'')),
      check (\<lambda>t. StringEquals (GetEnvironmentVariable t (Some ''TERM'')) (Some ''kernel'')),
      check (\<lambda>t. GetEnvironmentVariable t (Some ''MISSING'') = None)]"

definition RunSharedLibrarySelfTest :: "UserSpace \<Rightarrow> bool \<times> UserSpace" where
  "RunSharedLibrarySelfTest = all_of
     [shared ''libc.so'' 0x700000, shared ''libposix.so'' 0x720000, shared ''libc.so'' 0x700000,
      check (\<lambda>t. case FindSharedLibrary t (Some ''libc.so'') of None \<Rightarrow> False
        | Some i \<Rightarrow> (case FindSharedLibrary t (Some ''libposix.so'') of None \<Rightarrow> False
        | Some j \<Rightarrow> lib_reference_count (g_SharedLibraries t ! i) = 2 \<and> lib_reference_count (g_SharedLibraries t ! j) = 1 \<and>
            FindSharedLibrary t (Some ''libmissing.so'') = None))]"

definition RunPipeSelfTest :: "UserSpace \<Rightarrow> bool \<times> UserSpace" where
  "RunPipeSelfTest s =
     (case on_tables (CreatePipe True True) s of
        (None, s1) \<Rightarrow> (False, s1)
      | (Some (read_fd, write_fd), s1) \<Rightarrow>
          if sint read_fd < 0 \<or> sint write_fd < 0 \<or> read_fd = write_fd then (False, s1)
          else
            let (n, s2) = on_tables (PipeWrite write_fd ''hello'') s1 in
            if n \<noteq> 5 then (False, s2)
            else let (data, s3) = on_tables (PipeRead read_fd 5) s2
                 in (length data = 5 \<and> data ! 0 = CHR ''h'' \<and> data ! 4 = CHR ''o'', s3))"

definition RunPtySelfTest :: "UserSpace \<Rightarrow> bool \<times> UserSpace" where
  "RunPtySelfTest s =
     (case on_tables (OpenPseudoTerminal (Some ''/dev/pts/0'') True True) s of
        (None, s1) \<Rightarrow> (False, s1)
      | (Some (i, master_fd, slave_fd), s1) \<Rightarrow>
          (pt_open (g_Ptys (tables s1) ! i) \<and> sint master_fd \<ge> sint kFirstSyntheticFd \<and> sint slave_fd \<ge> sint kFirstSyntheticFd \<and>
           master_fd \<noteq> slave_fd \<and> StringEquals (pt_name (g_Ptys (tables s1) ! i)) (Some ''/dev/pts/0''), s1))"

text \<open>The local buffer at address 16, the constant \<open>"sdk"\<close> (with its NUL) at 8.\<close>

definition libc_copy_test :: bool where
  "libc_copy_test =
     (let m = (\<lambda>_. 0)(8 := 0x73, 9 := 0x64, 10 := 0x6B); (p, m1) = SdkLibcMemcpy 16 8 4 m
      in p = 16 \<and> SdkLibcStrcmp (Some (map (\<lambda>i. char_of (unat (m1 (16 + of_nat i)))) [0 ..< 3])) (Some ''sdk'') = 0 \<and> m1 19 = 0)"

definition RunFullLibcSelfTest :: "UserSpace \<Rightarrow> bool \<times> UserSpace" where
  "RunFullLibcSelfTest = all_of
     [component FullLibc ''Full libc'' ''/sdk/lib/libc.a'', that_holds libc_copy_test, has_component FullLibc]"

definition RunLibmSelfTest :: "UserSpace \<Rightarrow> bool \<times> UserSpace" where
  "RunLibmSelfTest = all_of
     [component Libm ''libm'' ''/sdk/lib/libm.a'', that_holds (SdkLibmAbs (- 42) = 42), that_holds (SdkLibmSqrt 144 = Some 12),
      has_component Libm]"

definition RunLibpthreadSelfTest :: "UserSpace \<Rightarrow> bool \<times> UserSpace" where
  "RunLibpthreadSelfTest = all_of
     [component Libpthread ''libpthread'' ''/sdk/lib/libpthread.a'', symbol ''pthread_create'' 0x810000,
      symbol ''pthread_join'' 0x810080, resolves ''pthread_create'' 0x810000, resolves ''pthread_join'' 0x810080]"

definition RunLibdlSelfTest :: "UserSpace \<Rightarrow> bool \<times> UserSpace" where
  "RunLibdlSelfTest = all_of
     [component Libdl ''libdl'' ''/sdk/lib/libdl.a'', shared ''libdl.so'' 0x740000, symbol ''dlopen'' 0x820000,
      symbol ''dlsym'' 0x820100, check (\<lambda>t. FindSharedLibrary t (Some ''libdl.so'') \<noteq> None), resolves ''dlsym'' 0x820100]"

text \<open>The exchange sort of the STL test.\<close>

definition exchange :: "u32 list \<Rightarrow> nat \<times> nat \<Rightarrow> u32 list" where
  "exchange xs ij = (let (i, j) = ij in if xs ! j < xs ! i then xs[i := xs ! j, j := xs ! i] else xs)"

definition exchange_sort :: "u32 list \<Rightarrow> u32 list" where
  "exchange_sort xs = foldl exchange xs (concat (map (\<lambda>i. map (Pair i) [i + 1 ..< length xs]) [0 ..< length xs]))"

definition RunCppStlSelfTest :: "UserSpace \<Rightarrow> bool \<times> UserSpace" where
  "RunCppStlSelfTest =
     (let values = exchange_sort [3, 1, 4, 2] in all_of
       [component CppStl ''C++ STL'' ''/sdk/include/c++'', that_holds (values ! 0 = 1), that_holds (values ! 3 = 4),
        has_component CppStl])"

definition RunGccSupportSelfTest :: "UserSpace \<Rightarrow> bool \<times> UserSpace" where
  "RunGccSupportSelfTest = all_of
     [component GccSupport ''GCC support'' ''/sdk/bin/x86_64-antigravity-gcc'',
      that_holds (SdkCompileCommandValid (Some ''x86_64-antigravity-gcc'') (Some ''main.c'') (Some ''main.o''))]"

definition RunClangSupportSelfTest :: "UserSpace \<Rightarrow> bool \<times> UserSpace" where
  "RunClangSupportSelfTest = all_of
     [component ClangSupport ''Clang support'' ''/sdk/bin/clang'',
      that_holds (SdkCompileCommandValid (Some ''clang --target=x86_64-antigravity'') (Some ''main.c'') (Some ''main.o''))]"

definition RunBuildSdkSelfTest :: "UserSpace \<Rightarrow> bool \<times> UserSpace" where
  "RunBuildSdkSelfTest = all_of
     [component BuildSdk ''Build SDK'' ''/sdk/share/cmake/AntigravityOS.cmake'',
      that_holds (SdkCompileCommandValid (Some ''ag-build'') (Some ''app.cpp'') (Some ''app.elf''))]"

definition RunCrossCompilerSelfTest :: "UserSpace \<Rightarrow> bool \<times> UserSpace" where
  "RunCrossCompilerSelfTest = all_of
     [component CrossCompiler ''Cross Compiler'' ''/sdk/bin/x86_64-antigravity-ld'',
      that_holds (SdkCompileCommandValid (Some ''x86_64-antigravity-g++'') (Some ''kernel.cpp'') (Some ''kernel.o''))]"

definition RunPackageToolchainSelfTest :: "UserSpace \<Rightarrow> bool \<times> UserSpace" where
  "RunPackageToolchainSelfTest = all_of
     [component PackageToolchain ''Package Toolchain'' ''/sdk/bin/ag-pkg'',
      that_holds (SdkPackageManifestValid (Some ''hello'') (Some ''1.0'') (Some ''x86_64-antigravity''))]"

definition RunSdkDocumentationSelfTest :: "UserSpace \<Rightarrow> bool \<times> UserSpace" where
  "RunSdkDocumentationSelfTest = all_of
     [component Documentation ''Documentation'' ''/sdk/docs/index.md'', has_component Documentation]"

definition RunExampleApplicationsSelfTest :: "UserSpace \<Rightarrow> bool \<times> UserSpace" where
  "RunExampleApplicationsSelfTest = all_of
     [component ExampleApplications ''Example applications'' ''/sdk/examples/hello'',
      that_holds (SdkCompileCommandValid (Some ''ag-build'') (Some ''examples/hello/main.c'') (Some ''hello.elf''))]"

definition RunDeveloperToolsSelfTest :: "UserSpace \<Rightarrow> bool \<times> UserSpace" where
  "RunDeveloperToolsSelfTest = all_of
     [component DeveloperTools ''Developer tools'' ''/sdk/bin/ag-debug'',
      that_holds (SdkCompileCommandValid (Some ''ag-debug'') (Some ''hello.elf'') (Some ''trace.log''))]"

definition RunPosixCompatibilitySelfTest :: "UserSpace \<Rightarrow> bool \<times> UserSpace" where
  "RunPosixCompatibilitySelfTest s =
     (let (fd, s1) = on_tables (PosixOpen (Some ''/compat/posix'') 0) s in
      if sint fd < 3 \<or> fst (PosixRead (tables s1) fd True 1) \<noteq> 0 then (False, s1)
      else
        let (r, s2) = on_tables (PosixClose fd) s1 in
        if r \<noteq> 0 then (False, s2)
        else all_of [target PosixTarget ''POSIX compatibility'' 1 0, check (\<lambda>t. FindCompatibilityTarget t PosixTarget \<noteq> None)] s2)"

definition RunElfExecutableCompatibilitySelfTest :: "UserSpace \<Rightarrow> bool \<times> UserSpace" where
  "RunElfExecutableCompatibilitySelfTest = all_of
     [counting_elf elf_compat_loads, target ElfExecutable ''ELF executable compatibility'' 1 0]"

definition RunGlibcCompatibilitySelfTest :: "UserSpace \<Rightarrow> bool \<times> UserSpace" where
  "RunGlibcCompatibilitySelfTest = all_of
     [shared ''glibc.so'' 0x760000, symbol ''__libc_start_main'' 0x830000, symbol ''gnu_get_libc_version'' 0x830100,
      target Glibc ''glibc compatibility'' 2 39, has_symbol ''glibc.so'' ''__libc_start_main'']"

definition RunMuslCompatibilitySelfTest :: "UserSpace \<Rightarrow> bool \<times> UserSpace" where
  "RunMuslCompatibilitySelfTest = all_of
     [shared ''musl.so'' 0x780000, symbol ''__libc_start_init'' 0x840000, target Musl ''musl compatibility'' 1 2,
      has_symbol ''musl.so'' ''__libc_start_init'']"

definition RunSdl2SupportSelfTest :: "UserSpace \<Rightarrow> bool \<times> UserSpace" where
  "RunSdl2SupportSelfTest = all_of
     [shared ''libSDL2.so'' 0x7A0000, symbol ''SDL_Init'' 0x850000, target Sdl2 ''SDL2 support'' 2 30,
      has_symbol ''libSDL2.so'' ''SDL_Init'', that_holds (GraphicsApiSurfaceValid (Some ''SDL2'') 640 480)]"

definition RunSdl3SupportSelfTest :: "UserSpace \<Rightarrow> bool \<times> UserSpace" where
  "RunSdl3SupportSelfTest = all_of
     [shared ''libSDL3.so'' 0x7C0000, symbol ''SDL_CreateWindow'' 0x860000, target Sdl3 ''SDL3 support'' 3 2,
      has_symbol ''libSDL3.so'' ''SDL_CreateWindow'', that_holds (GraphicsApiSurfaceValid (Some ''SDL3'') 800 600)]"

definition RunOpenGlAbstractionSelfTest :: "UserSpace \<Rightarrow> bool \<times> UserSpace" where
  "RunOpenGlAbstractionSelfTest = all_of
     [shared ''libGL.so'' 0x7E0000, symbol ''glDrawArrays'' 0x870000, target OpenGl ''OpenGL abstraction'' 4 6,
      has_symbol ''libGL.so'' ''glDrawArrays'', that_holds (GraphicsApiSurfaceValid (Some ''OpenGL'') 1024 768)]"

definition RunVulkanAbstractionSelfTest :: "UserSpace \<Rightarrow> bool \<times> UserSpace" where
  "RunVulkanAbstractionSelfTest = all_of
     [shared ''libvulkan.so'' 0x800000, symbol ''vkCreateInstance'' 0x880000, target Vulkan ''Vulkan abstraction'' 1 3,
      has_symbol ''libvulkan.so'' ''vkCreateInstance'', that_holds (GraphicsApiSurfaceValid (Some ''Vulkan'') 1280 720)]"

definition RunOpenAlSelfTest :: "UserSpace \<Rightarrow> bool \<times> UserSpace" where
  "RunOpenAlSelfTest = all_of
     [shared ''libopenal.so'' 0x820000, symbol ''alcOpenDevice'' 0x890000, target OpenAl ''OpenAL'' 1 1,
      has_symbol ''libopenal.so'' ''alcOpenDevice'', that_holds (AudioApiDeviceValid 2 48000)]"

definition RunWaylandCompatibilitySelfTest :: "UserSpace \<Rightarrow> bool \<times> UserSpace" where
  "RunWaylandCompatibilitySelfTest = all_of
     [shared ''libwayland-client.so'' 0x840000, symbol ''wl_display_connect'' 0x8A0000,
      target Wayland ''Wayland compatibility'' 1 22, has_symbol ''libwayland-client.so'' ''wl_display_connect'',
      that_holds (WindowProtocolHandshakeValid (Some ''wayland'') (Some ''wayland-0''))]"

definition RunX11CompatibilitySelfTest :: "UserSpace \<Rightarrow> bool \<times> UserSpace" where
  "RunX11CompatibilitySelfTest = all_of
     [shared ''libX11.so'' 0x860000, symbol ''XOpenDisplay'' 0x8B0000, target X11 ''X11 compatibility layer'' 11 7,
      has_symbol ''libX11.so'' ''XOpenDisplay'', that_holds (WindowProtocolHandshakeValid (Some ''x11'') (Some '':0''))]"

definition RunSteamRuntimeCompatibilitySelfTest :: "UserSpace \<Rightarrow> bool \<times> UserSpace" where
  "RunSteamRuntimeCompatibilitySelfTest = all_of
     [shared ''steam-runtime.so'' 0x880000, symbol ''SteamAPI_Init'' 0x8C0000,
      target SteamRuntime ''Steam Runtime compatibility'' 3 0, has_symbol ''steam-runtime.so'' ''SteamAPI_Init'',
      check (\<lambda>t. FindCompatibilityTarget t Glibc \<noteq> None), check (\<lambda>t. FindCompatibilityTarget t Sdl2 \<noteq> None)]"

subsection \<open>The init and shell processes\<close>

text \<open>What the two threads do when the scheduler runs them.\<close>

definition InitMain :: "UserProgram \<Rightarrow> UserSpace \<Rightarrow> UserSpace" where
  "InitMain prog s = snd (syscall_number prog (syscall_value CallYield) 0 0 0 (log_us Info ''init: userspace services ready'' s))"

definition set_process_state :: "u64 \<Rightarrow> UserProcessState \<Rightarrow> UserSpace \<Rightarrow> UserSpace" where
  "set_process_state pid st s =
     (case FindUserProcess (tables s) pid of None \<Rightarrow> s
      | Some i \<Rightarrow> s\<lparr>tables := (tables s)\<lparr>g_UserProcesses :=
          (g_UserProcesses (tables s))[i := (g_UserProcesses (tables s) ! i)\<lparr>up_state := st\<rparr>]\<rparr>\<rparr>)"

definition ShellMain :: "UserProgram \<Rightarrow> UserSpace \<Rightarrow> UserSpace" where
  "ShellMain prog s0 =
     (let s1 = set_process_state (shell_process_id s0) URunning s0;
          (_, s2) = syscall_number prog (syscall_value CallWrite) (literal_at prog ''shell: ready'') 12 0 s1;
          (_, s3) = syscall_number prog (syscall_value CallWrite) (literal_at prog ''shell: exit'') 11 0 s2;
          (_, s4) = syscall_number prog (syscall_value CallExit) (shell_process_id s3) 0 0 s3
      in s4)"

definition AppProcessMain :: "u64 \<Rightarrow> UserSpace \<Rightarrow> UserSpace" where
  "AppProcessMain argument s = set_process_state argument URunning s"

text \<open>The common part of the two starters: a process, its user entry, its thread.\<close>

definition start_process :: "UserProgram \<Rightarrow> string \<Rightarrow> string \<Rightarrow> string \<Rightarrow> UserSpace \<Rightarrow> (u64 \<times> u64) option \<times> UserSpace" where
  "start_process prog name thread_name entry s =
     (let (pid, s1) = on_sched (\<lambda>sch. KernelCreateProcess sch (Some name)) s in
      if pid = 0 then (None, s1)
      else
        let (slot, s2) = on_tables (RegisterUserProcess pid (Some name)) s1 in
        if slot = None then (None, s2)
        else
          let (tid, s3) = on_sched (\<lambda>sch. KernelCreateThread (trampoline prog) sch pid (Some thread_name) (code_at prog entry) 0) s2
          in if tid = 0 then (None, s3) else (Some (pid, tid), s3))"

definition StartInitProcess :: "UserProgram \<Rightarrow> UserSpace \<Rightarrow> bool \<times> UserSpace" where
  "StartInitProcess prog s =
     (case start_process prog ''init'' ''init-main'' ''InitMain'' s of (None, s1) \<Rightarrow> (False, s1)
      | (Some (pid, tid), s1) \<Rightarrow> (True, set_ready SvcInit True (s1\<lparr>init_process_id := pid, init_thread_id := tid\<rparr>)))"

definition StartShellProcess :: "UserProgram \<Rightarrow> UserSpace \<Rightarrow> bool \<times> UserSpace" where
  "StartShellProcess prog s =
     (case start_process prog ''user-shell'' ''shell-main'' ''ShellMain'' s of (None, s1) \<Rightarrow> (False, s1)
      | (Some (pid, tid), s1) \<Rightarrow>
          (True, set_ready SvcUserProcess True (set_ready SvcShell True (s1\<lparr>shell_process_id := pid, shell_thread_id := tid\<rparr>))))"

definition RunSignalsSelfTest :: "UserSpace \<Rightarrow> bool \<times> UserSpace" where
  "RunSignalsSelfTest s =
     (if init_process_id s = 0 \<or> init_thread_id s = 0 then (False, s)
      else
        let (ok, s1) = on_tables (RegisterSignalHandler (init_process_id s) 2) s in
        if \<not> ok then (False, s1)
        else let (sent, t, sched) = DeliverUserSignal (init_process_id s1) (init_thread_id s1) 2 (tables s1) (us_sched s1)
             in (sent, s1\<lparr>tables := t, us_sched := sched\<rparr>))"

subsection \<open>Boot\<close>

definition boot_tests :: "UserProgram \<Rightarrow> (Service \<times> (UserSpace \<Rightarrow> bool \<times> UserSpace)) list" where
  "boot_tests prog =
     [(SvcElfLoader, counting_elf RunElfLoaderSelfTest), (SvcDynamicLinker, RunDynamicLinkerSelfTest prog),
      (SvcLibc, RunLibcSelfTest prog), (SvcPosix, RunPosixSelfTest), (SvcLoaderCache, RunDynamicLoaderCacheSelfTest),
      (SvcEnvironment, RunEnvironmentSelfTest), (SvcSharedLibraries, RunSharedLibrarySelfTest), (SvcPipes, RunPipeSelfTest),
      (SvcPty, RunPtySelfTest), (SvcFullLibc, RunFullLibcSelfTest), (SvcLibm, RunLibmSelfTest),
      (SvcLibpthread, RunLibpthreadSelfTest), (SvcLibdl, RunLibdlSelfTest), (SvcCppStl, RunCppStlSelfTest),
      (SvcGcc, RunGccSupportSelfTest), (SvcClang, RunClangSupportSelfTest), (SvcBuildSdk, RunBuildSdkSelfTest),
      (SvcCrossCompiler, RunCrossCompilerSelfTest), (SvcPackageToolchain, RunPackageToolchainSelfTest),
      (SvcSdkDocumentation, RunSdkDocumentationSelfTest), (SvcExampleApplications, RunExampleApplicationsSelfTest),
      (SvcDeveloperTools, RunDeveloperToolsSelfTest), (SvcPosixCompat, RunPosixCompatibilitySelfTest),
      (SvcElfCompat, RunElfExecutableCompatibilitySelfTest), (SvcGlibc, RunGlibcCompatibilitySelfTest),
      (SvcMusl, RunMuslCompatibilitySelfTest), (SvcSdl2, RunSdl2SupportSelfTest), (SvcSdl3, RunSdl3SupportSelfTest),
      (SvcOpenGl, RunOpenGlAbstractionSelfTest), (SvcVulkan, RunVulkanAbstractionSelfTest), (SvcOpenAl, RunOpenAlSelfTest),
      (SvcWayland, RunWaylandCompatibilitySelfTest), (SvcX11, RunX11CompatibilitySelfTest),
      (SvcSteamRuntime, RunSteamRuntimeCompatibilitySelfTest)]"

definition run_test :: "UserSpace \<Rightarrow> Service \<times> (UserSpace \<Rightarrow> bool \<times> UserSpace) \<Rightarrow> UserSpace" where
  "run_test s st = (let (svc, test) = st; (ok, s1) = test s in set_ready svc ok s1)"

text \<open>All the flags the result of \<open>KernelUserspaceInit\<close> is the conjunction of.\<close>

definition all_services :: "Service list" where
  "all_services =
     [SvcSyscalls, SvcShell, SvcUserProcess, SvcElfLoader, SvcDynamicLinker, SvcLibc, SvcPosix, SvcInit, SvcLoaderCache,
      SvcEnvironment, SvcSharedLibraries, SvcSignals, SvcPipes, SvcPty, SvcFullLibc, SvcLibm, SvcLibpthread, SvcLibdl,
      SvcCppStl, SvcGcc, SvcClang, SvcBuildSdk, SvcCrossCompiler, SvcPackageToolchain, SvcSdkDocumentation,
      SvcExampleApplications, SvcDeveloperTools, SvcPosixCompat, SvcElfCompat, SvcGlibc, SvcMusl, SvcSdl2, SvcSdl3,
      SvcOpenGl, SvcVulkan, SvcOpenAl, SvcWayland, SvcX11, SvcSteamRuntime]"

text \<open>
  The state is the one at the switch of the last \<open>Yield\<close>; the result is read from flags no
  thread changes.
\<close>

definition KernelUserspaceInit :: "UserProgram \<Rightarrow> UserSpace \<Rightarrow> bool \<times> UserSpace" where
  "KernelUserspaceInit prog s =
     (let s1 = foldl run_test (set_ready SvcSyscalls True (ResetUserspaceStatus s)) (boot_tests prog);
          (ok1, s2) = StartInitProcess prog s1 in
      if \<not> ok1 then (False, s2)
      else
        let (sig, s3) = RunSignalsSelfTest s2; s4 = set_ready SvcSignals sig s3; (ok2, s5) = StartShellProcess prog s4 in
        if \<not> ok2 then (False, s5)
        else
          let (_, s6) = on_sched KernelSchedulerYield (log_us Info ''Phase 11 userspace initialized'' s5)
          in (list_all (service_ready s6) all_services, s6))"

subsection \<open>Applications\<close>

definition app_image_size :: u64 where "app_image_size = 136"

text \<open>
  The result with the process and thread id the out-parameters receive. \<open>garbage\<close> is what the
  stack held where the image is built.
\<close>

definition KernelLaunchUserApplication ::
    "(u64 \<Rightarrow> u8) \<Rightarrow> cstring \<Rightarrow> cstring \<Rightarrow> UserSpace \<Rightarrow> bool \<times> u64 \<times> u64 \<times> UserSpace" where
  "KernelLaunchUserApplication garbage app_id executable_path s0 =
     (let s = log_us Info ''[APP] launch requested'' s0;
          failed = (\<lambda>s. (False, 0, 0, log_us Warn ''[APP] launch failed'' s)) in
      if app_id = None \<or> \<not> AppExecutablePathValid executable_path \<or> \<not> service_ready s SvcElfLoader then failed s
      else
        let elf = BuildSyntheticAppElf garbage app_image_size (next_app_base s);
            (ok, loaded, n) = LoadUserElfImage (Some elf) app_image_size (loaded_elf_count s);
            s1 = (log_us Info ''[ELF] loading'' s)\<lparr>loaded_elf_count := n\<rparr> in
        if \<not> ok then failed s1
        else
          let (cached, s2) = on_tables (RegisterLoaderCacheEntry executable_path (ue_lowest_address loaded) (ue_entry loaded)
                (ue_highest_address loaded - ue_lowest_address loaded)) s1 in
          if \<not> cached then failed s2
          else
            let (pid, s3) = on_sched (\<lambda>sch. KernelCreateProcess sch executable_path) s2 in
            if pid = 0 then failed s3
            else
              let (slot, s4) = on_tables (RegisterUserProcess pid app_id) s3 in
              if slot = None then failed s4
              else
                let s5 = log_us Info ''[PROC] process created'' s4
                in (True, pid, 0, log_us Info ''[APP] launch started'' (s5\<lparr>next_app_base := next_app_base s5 + 0x20000\<rparr>)))"

definition KernelStartUserApplicationEventLoop :: "UserProgram \<Rightarrow> u64 \<Rightarrow> cstring \<Rightarrow> UserSpace \<Rightarrow> bool \<times> u64 \<times> UserSpace" where
  "KernelStartUserApplicationEventLoop prog process_id app_id s =
     (if process_id = 0 \<or> app_id = None \<or> FindUserProcess (tables s) process_id = None then (False, 0, s)
      else
        let (tid, s1) = on_sched (\<lambda>sch. KernelCreateThread (trampoline prog) sch process_id app_id
              (code_at prog ''AppProcessMain'') process_id) s in
        if tid = 0 then (False, 0, log_us Warn ''[APP] event loop thread creation failed'' s1)
        else (True, tid, log_us Info ''[APP] event loop started'' s1))"

definition KernelExitUserApplication :: "u64 \<Rightarrow> i32 \<Rightarrow> UserSpace \<Rightarrow> bool \<times> UserSpace" where
  "KernelExitUserApplication process_id exit_code s =
     (if FindUserProcess (tables s) process_id = None then (False, s)
      else
        let (ok, s1) = on_sched (\<lambda>sch. KernelTerminateProcess sch process_id) s in
        if \<not> ok then (False, s1)
        else (True, log_us Info (if exit_code = 0 then ''[APP] exit code 0'' else ''[APP] exit code nonzero'')
               (set_process_state process_id UExited s1)))"

subsection \<open>The boot report\<close>

definition report_lines :: "(Service \<times> string \<times> string) list" where
  "report_lines =
     [(SvcSyscalls, ''Syscall dispatcher ready'', ''Syscall dispatcher unavailable''),
      (SvcShell, ''Shell process created'', ''Shell process unavailable''),
      (SvcUserProcess, ''User process model ready'', ''User process model unavailable''),
      (SvcElfLoader, ''ELF userspace loader ready'', ''ELF userspace loader unavailable''),
      (SvcDynamicLinker, ''Dynamic linker scaffold ready'', ''Dynamic linker scaffold unavailable''),
      (SvcLibc, ''libc syscall wrappers ready'', ''libc syscall wrappers unavailable''),
      (SvcPosix, ''POSIX compatibility layer ready'', ''POSIX compatibility layer unavailable''),
      (SvcInit, ''init process created'', ''init process unavailable''),
      (SvcLoaderCache, ''Dynamic loader cache ready'', ''Dynamic loader cache unavailable''),
      (SvcEnvironment, ''Environment variables ready'', ''Environment variables unavailable''),
      (SvcSharedLibraries, ''Shared library registry ready'', ''Shared library registry unavailable''),
      (SvcSignals, ''Userspace signals ready'', ''Userspace signals unavailable''),
      (SvcPipes, ''Pipes ready'', ''Pipes unavailable''),
      (SvcPty, ''Pseudo terminals ready'', ''Pseudo terminals unavailable''),
      (SvcFullLibc, ''Full libc SDK ready'', ''Full libc SDK unavailable''),
      (SvcLibm, ''libm SDK ready'', ''libm SDK unavailable''),
      (SvcLibpthread, ''libpthread SDK ready'', ''libpthread SDK unavailable''),
      (SvcLibdl, ''libdl SDK ready'', ''libdl SDK unavailable''),
      (SvcCppStl, ''C++ STL SDK ready'', ''C++ STL SDK unavailable''),
      (SvcGcc, ''GCC SDK support ready'', ''GCC SDK support unavailable''),
      (SvcClang, ''Clang SDK support ready'', ''Clang SDK support unavailable''),
      (SvcBuildSdk, ''Build SDK ready'', ''Build SDK unavailable''),
      (SvcCrossCompiler, ''Cross compiler SDK ready'', ''Cross compiler SDK unavailable''),
      (SvcPackageToolchain, ''Package toolchain ready'', ''Package toolchain unavailable''),
      (SvcSdkDocumentation, ''SDK documentation ready'', ''SDK documentation unavailable''),
      (SvcExampleApplications, ''Example applications ready'', ''Example applications unavailable''),
      (SvcDeveloperTools, ''Developer tools ready'', ''Developer tools unavailable''),
      (SvcPosixCompat, ''POSIX compatibility ready'', ''POSIX compatibility unavailable''),
      (SvcElfCompat, ''ELF executable compatibility ready'', ''ELF executable compatibility unavailable''),
      (SvcGlibc, ''glibc compatibility ready'', ''glibc compatibility unavailable''),
      (SvcMusl, ''musl compatibility ready'', ''musl compatibility unavailable''),
      (SvcSdl2, ''SDL2 support ready'', ''SDL2 support unavailable''),
      (SvcSdl3, ''SDL3 support ready'', ''SDL3 support unavailable''),
      (SvcOpenGl, ''OpenGL abstraction ready'', ''OpenGL abstraction unavailable''),
      (SvcVulkan, ''Vulkan abstraction ready'', ''Vulkan abstraction unavailable''),
      (SvcOpenAl, ''OpenAL ready'', ''OpenAL unavailable''),
      (SvcWayland, ''Wayland compatibility ready'', ''Wayland compatibility unavailable''),
      (SvcX11, ''X11 compatibility layer ready'', ''X11 compatibility layer unavailable''),
      (SvcSteamRuntime, ''Steam Runtime compatibility ready'', ''Steam Runtime compatibility unavailable'')]"

definition PrintUserspaceInfo :: "UserSpace \<Rightarrow> UserSpace" where
  "PrintUserspaceInfo s =
     foldl (\<lambda>s (svc, yes, no). if service_ready s svc then log_us Info yes s else log_us Warn no s) s report_lines"

end
