(* ===== verification/UserApps.thy ===== *)
theory UserApps
  imports UserSpace
begin

text \<open>
  \<^verbatim>\<open>kernel/src/userspace.cpp\<close>: what launching, running and ending applications does over time.
\<close>

subsection \<open>Sequences of application calls\<close>

datatype app_op =
    AppLaunch "u64 \<Rightarrow> u8" cstring cstring
  | AppStart u64 cstring
  | AppRun u64
  | AppExit u64 i32
  | AppCall u64 u64 u64 u64

fun app_exec :: "UserProgram \<Rightarrow> UserSpace \<Rightarrow> app_op \<Rightarrow> UserSpace" where
  "app_exec prog s (AppLaunch garbage app path) = (case KernelLaunchUserApplication garbage app path s of (_, _, _, t) \<Rightarrow> t)"
| "app_exec prog s (AppStart pid app) = (case KernelStartUserApplicationEventLoop prog pid app s of (_, _, t) \<Rightarrow> t)"
| "app_exec prog s (AppRun pid) = AppProcessMain pid s"
| "app_exec prog s (AppExit pid code) = snd (KernelExitUserApplication pid code s)"
| "app_exec prog s (AppCall n a b c) = (case KernelSyscall prog n a b c s of (_, _, t) \<Rightarrow> t)"

text \<open>Base and size the loader cache has for a path.\<close>

definition app_image :: "UserTables \<Rightarrow> cstring \<Rightarrow> (u64 \<times> u64) option" where
  "app_image t path = map_option (\<lambda>i. (lc_base_address (g_LoaderCache t ! i), lc_image_size (g_LoaderCache t ! i)))
     (FindLoaderCacheEntry t path)"

text \<open>The images of the launches that succeed, in order.\<close>

fun launched :: "UserProgram \<Rightarrow> app_op list \<Rightarrow> UserSpace \<Rightarrow> (u64 \<times> u64) list" where
  "launched prog [] s = []"
| "launched prog (op # ops) s =
     (case op of
        AppLaunch garbage app path \<Rightarrow>
          (case KernelLaunchUserApplication garbage app path s of (ok, _, _, t) \<Rightarrow>
             (if ok then [the (app_image (tables t) path)] else []) @ launched prog ops t)
      | _ \<Rightarrow> launched prog ops (app_exec prog s op))"

definition free_slots :: "UserSpace \<Rightarrow> nat" where
  "free_slots s = count_if (\<lambda>p. up_state p = UEmpty) (g_UserProcesses (tables s))"

subsection \<open>What each call does to the process table and the bases\<close>

lemma RegisterLoaderCacheEntry_image:
  assumes "RegisterLoaderCacheEntry path b e n t = (True, u)"
  shows "app_image u path = Some (b, n)" "g_UserProcesses u = g_UserProcesses t"
proof -
  obtain p where p: "path = Some p" using assms by (cases path) (auto simp: RegisterLoaderCacheEntry_def)
  obtain ys added where put: "put_entry (\<lambda>e. lc_valid e \<and> lc_path e = Some p)
        (\<lambda>x. x\<lparr>lc_base_address := b, lc_entry_address := e, lc_image_size := n\<rparr>) (\<lambda>e. \<not> lc_valid e)
        \<lparr>lc_path = path, lc_base_address = b, lc_entry_address = e, lc_image_size = n, lc_valid = True\<rparr> (g_LoaderCache t)
        = Some (ys, added)" and u: "g_LoaderCache u = ys" "g_UserProcesses u = g_UserProcesses t"
    using assms by (auto simp: RegisterLoaderCacheEntry_def p match_string split: if_splits option.splits)
  have "map_option (\<lambda>i. (lc_base_address (ys ! i), lc_image_size (ys ! i))) (find_index (\<lambda>x. lc_valid x \<and> lc_path x = Some p) ys)
      = Some (b, n)"
    using fun_cong[OF put_entry_lookup[OF put, of "\<lambda>x. (lc_base_address x, lc_image_size x)" "(b, n)"], of "Some p"] p by simp
  then show "app_image u path = Some (b, n)"
    by (simp add: app_image_def FindLoaderCacheEntry_def p match_string u)
  show "g_UserProcesses u = g_UserProcesses t" by (rule u)
qed

lemma RegisterLoaderCacheEntry_processes: "g_UserProcesses (snd (RegisterLoaderCacheEntry path b e n t)) = g_UserProcesses t"
  by (auto simp: RegisterLoaderCacheEntry_def split: option.splits)

lemma RegisterUserProcess_slots:
  assumes "RegisterUserProcess pid app t = (slot, u)"
  shows "g_LoaderCache u = g_LoaderCache t"
    and "count_if (\<lambda>p. up_state p = UEmpty) (g_UserProcesses u) + (if slot = None then 0 else 1) =
      count_if (\<lambda>p. up_state p = UEmpty) (g_UserProcesses t)"
proof -
  have "count_if (\<lambda>p. up_state p = UEmpty) ((g_UserProcesses t)[i := q]) + 1 = count_if (\<lambda>p. up_state p = UEmpty) (g_UserProcesses t)"
    if "find_index (\<lambda>p. up_state p = UEmpty) (g_UserProcesses t) = Some i" "up_state q = UReady" for i q
    using count_if_update[OF find_indexD(1)[OF that(1)], of "\<lambda>p. up_state p = UEmpty" q] find_indexD(2)[OF that(1)] that(2) by simp
  then show "count_if (\<lambda>p. up_state p = UEmpty) (g_UserProcesses u) + (if slot = None then 0 else 1) =
      count_if (\<lambda>p. up_state p = UEmpty) (g_UserProcesses t)"
    using assms by (auto simp: RegisterUserProcess_def split: if_splits option.splits)
  show "g_LoaderCache u = g_LoaderCache t" using assms by (auto simp: RegisterUserProcess_def split: if_splits option.splits)
qed

lemma app_image_cache: "g_LoaderCache u = g_LoaderCache t \<Longrightarrow> app_image u path = app_image t path"
  by (simp add: app_image_def FindLoaderCacheEntry_def)

lemma log_us_keeps [simp]:
  "next_app_base (log_us l m s) = next_app_base s" "g_UserProcesses (tables (log_us l m s)) = g_UserProcesses (tables s)"
  "g_LoaderCache (tables (log_us l m s)) = g_LoaderCache (tables s)" "us_sched (log_us l m s) = us_sched s"
  "service_ready (log_us l m s) = service_ready s" "loaded_elf_count (log_us l m s) = loaded_elf_count s"
  by (simp_all add: log_us_def log_user_def)

lemma launch_effect:
  assumes "KernelLaunchUserApplication garbage app path s = (ok, pid, tid, t)" "unat (next_app_base s) + 16 < 18446744073709551616"
  shows "(ok \<longrightarrow> app_image (tables t) path = Some (next_app_base s, 16)) \<and>
    next_app_base t = (if ok then next_app_base s + 0x20000 else next_app_base s) \<and> free_slots t + of_bool ok = free_slots s"
proof -
  let ?base = "next_app_base s" and ?u0 = "log_user Info ''[ELF] loading'' (log_user Info ''[APP] launch requested'' (tables s))"
  have load: "LoadUserElfImage (Some (BuildSyntheticAppElf garbage app_image_size ?base)) app_image_size n =
      (True, \<lparr>ue_entry = ?base, ue_lowest_address = ?base, ue_highest_address = ?base + 16, ue_segment_count = 1, ue_valid = True\<rparr>, n + 1)"
    for n by (rule built_image_loads_always) (use assms(2) in \<open>simp_all add: app_image_size_def\<close>)
  obtain cached u1 where reg: "RegisterLoaderCacheEntry path ?base ?base 16 ?u0 = (cached, u1)" by fastforce
  obtain p sch where cp: "KernelCreateProcess (us_sched s) path = (p, sch)" by fastforce
  obtain slot u2 where ru: "RegisterUserProcess p app u1 = (slot, u2)" by fastforce
  have u1: "g_UserProcesses u1 = g_UserProcesses (tables s)"
    using RegisterLoaderCacheEntry_processes[of path ?base ?base 16 ?u0] unfolding reg by (simp add: log_user_def)
  note u2 = RegisterUserProcess_slots[OF ru]
  note d = KernelLaunchUserApplication_def load Let_def log_us_def on_tables_def on_sched_def reg cp ru free_slots_def log_user_def
  show ?thesis
  proof (cases "app = None \<or> \<not> AppExecutablePathValid path \<or> \<not> service_ready s SvcElfLoader")
    case True
    then show ?thesis using assms(1) by (auto simp: d)
  next
    case go: False
    note r = reg[unfolded log_user_def, simplified]
    show ?thesis
    proof (cases "cached \<and> p \<noteq> 0 \<and> slot \<noteq> None")
      case True
      then show ?thesis
        using assms(1) go u1 u2 RegisterLoaderCacheEntry_image(1)[of path ?base ?base 16 ?u0 u1] reg
        by (clarsimp simp: d r app_image_def FindLoaderCacheEntry_def simp del: not_None_eq)
    next
      case False
      then show ?thesis using assms(1) go u1 u2 by (cases cached; cases "p = 0"; clarsimp simp: d r simp del: not_None_eq)
    qed
  qed
qed

text \<open>The other calls leave the number of free slots and the next base alone.\<close>

definition same_slots :: "UserSpace \<Rightarrow> UserSpace \<Rightarrow> bool" where
  "same_slots s t \<longleftrightarrow> next_app_base t = next_app_base s \<and> free_slots t = free_slots s"

lemma same_slots_simps [simp]:
  "same_slots s s" "same_slots s (log_us l m t) \<longleftrightarrow> same_slots s t" "same_slots s (t\<lparr>us_sched := sch\<rparr>) \<longleftrightarrow> same_slots s t"
  "same_slots s (t\<lparr>syscall_count := n\<rparr>) \<longleftrightarrow> same_slots s t"
  "same_slots (s\<lparr>syscall_count := n\<rparr>) t \<longleftrightarrow> same_slots s t" "same_slots (s\<lparr>us_sched := sch\<rparr>) t \<longleftrightarrow> same_slots s t"
  by (simp_all add: same_slots_def free_slots_def)

lemma same_slots_tables:
  "g_UserProcesses u = g_UserProcesses (tables s) \<Longrightarrow> same_slots s (s\<lparr>tables := u\<rparr>)"
  by (simp add: same_slots_def free_slots_def)

lemma set_state_slots:
  assumes "FindUserProcess (tables s) pid = Some i" "st \<noteq> UEmpty"
  shows "same_slots s (s\<lparr>tables := (tables s)\<lparr>g_UserProcesses :=
    (g_UserProcesses (tables s))[i := (g_UserProcesses (tables s) ! i)\<lparr>up_state := st\<rparr>]\<rparr>\<rparr>)"
proof -
  have "i < length (g_UserProcesses (tables s))" "up_state (g_UserProcesses (tables s) ! i) \<noteq> UEmpty"
    using assms(1) by (auto simp: FindUserProcess_def dest: find_indexD)
  then show ?thesis
    using count_if_update[of i "g_UserProcesses (tables s)" "\<lambda>p. up_state p = UEmpty" "(g_UserProcesses (tables s) ! i)\<lparr>up_state := st\<rparr>"]
      assms(2) by (simp add: same_slots_def free_slots_def)
qed

lemma set_process_state_slots: "st \<noteq> UEmpty \<Longrightarrow> same_slots s (set_process_state pid st s)"
  by (auto simp: set_process_state_def set_state_slots split: option.split)

lemma write_lines_processes: "g_UserProcesses (snd (write_lines cs n w t)) = g_UserProcesses t"
  by (induction cs n w t rule: write_lines.induct) (simp_all add: log_user_def)

lemma SysExit_slots: "same_slots s (snd (on_tables (SysExit pid code) s))"
  by (auto simp: SysExit_def on_tables_def set_state_slots split: option.split)

lemma table_calls_processes:
  "g_UserProcesses (snd (SysWrite txt len t)) = g_UserProcesses t" "g_UserProcesses (snd (PosixOpen path flags t)) = g_UserProcesses t"
  "g_UserProcesses (snd (PosixClose fd t)) = g_UserProcesses t" "g_UserProcesses (snd (CreatePipe r w t)) = g_UserProcesses t"
  "g_UserProcesses (fst (snd (DeliverUserSignal pid tid sig t sch))) = g_UserProcesses t"
  by (auto simp: SysWrite_def write_lines_processes PosixOpen_def PosixClose_def CreatePipe_def DeliverUserSignal_def Let_def
      split: option.split prod.split)

lemma on_tables_slots:
  "g_UserProcesses (snd (f (tables s))) = g_UserProcesses (tables s) \<Longrightarrow> same_slots s (snd (on_tables f s))"
  by (auto simp: on_tables_def same_slots_tables split: prod.split)

lemma on_sched_slots: "same_slots s (snd (on_sched f s))"
  by (simp add: on_sched_def split: prod.split)

lemma KernelSyscall_slots: "same_slots s (snd (snd (KernelSyscall prog n a b c s)))"
proof -
  let ?s = "s\<lparr>syscall_count := syscall_count s + 1\<rparr>"
  have "same_slots ?s (snd (snd (KernelSyscall prog n a b c s)))"
    unfolding KernelSyscall_def Let_def case_prod_unfold
    using on_tables_slots[of "SysWrite (text_at prog a) b" ?s] on_tables_slots[of "PosixOpen (text_at prog a) (ucast b)" ?s]
      on_tables_slots[of "PosixClose (ucast a)" ?s] on_tables_slots[of "CreatePipe (a \<noteq> 0) (b \<noteq> 0)" ?s]
      SysExit_slots[of ?s a b] on_sched_slots[of ?s KernelSchedulerYield]
      same_slots_tables[of "fst (snd (DeliverUserSignal a b (ucast c) (tables s) (us_sched s)))" ?s]
    by (simp add: table_calls_processes case_prod_unfold split: option.split del: same_slots_simps(4,5,6))
  then show ?thesis by simp
qed

lemma app_exec_slots:
  assumes "\<nexists>g a p. op = AppLaunch g a p"
  shows "same_slots s (app_exec prog s op)"
proof (cases op)
  case (AppStart pid app)
  then show ?thesis
    using on_sched_slots[of s] by (auto simp: KernelStartUserApplicationEventLoop_def Let_def case_prod_unfold)
next
  case (AppExit pid code)
  have "same_slots s (set_process_state pid UExited (snd (on_sched f s)))"
      for f :: "Sched \<Rightarrow> bool \<times> Sched"
    using set_process_state_slots[of UExited "snd (on_sched f s)" pid] on_sched_slots[of s f] by (simp add: same_slots_def)
  then show ?thesis using AppExit on_sched_slots[of s "\<lambda>sch. KernelTerminateProcess sch pid"] by (simp add: KernelExitUserApplication_def Let_def case_prod_unfold)
qed (use assms set_process_state_slots KernelSyscall_slots in \<open>auto simp: AppProcessMain_def case_prod_unfold\<close>)

subsection \<open>Properties\<close>

lemma launched_images:
  "unat (next_app_base s) + 0x20000 * Suc (free_slots s) < 18446744073709551616 \<Longrightarrow>
   launched prog ops s = map (\<lambda>k. (next_app_base s + of_nat k * 0x20000, 16)) [0 ..< length (launched prog ops s)] \<and>
   length (launched prog ops s) \<le> free_slots s"
proof (induction ops arbitrary: s)
  case (Cons op ops)
  show ?case
  proof (cases "\<exists>g a p. op = AppLaunch g a p")
    case False
    then have "same_slots s (app_exec prog s op)" by (intro app_exec_slots) auto
    moreover have "launched prog (op # ops) s = launched prog ops (app_exec prog s op)" using False by (cases op) auto
    ultimately show ?thesis using Cons.IH[of "app_exec prog s op"] Cons.prems by (simp add: same_slots_def)
  next
    case True
    then obtain g a p where op: "op = AppLaunch g a p" by auto
    obtain ok pid tid t where L: "KernelLaunchUserApplication g a p s = (ok, pid, tid, t)"
      by (cases "KernelLaunchUserApplication g a p s") auto
    have E: "(ok \<longrightarrow> app_image (tables t) p = Some (next_app_base s, 16)) \<and>
        next_app_base t = (if ok then next_app_base s + 0x20000 else next_app_base s) \<and> free_slots t + of_bool ok = free_slots s"
      by (rule launch_effect[OF L]) (use Cons.prems in simp)
    show ?thesis
    proof (cases ok)
      case False
      then show ?thesis using E Cons.IH[of t] Cons.prems by (simp add: op L)
    next
      case True
      let ?l = "launched prog ops t"
      have "unat (next_app_base t) = unat (next_app_base s) + 0x20000"
        using E True Cons.prems by (simp add: unat_word_ariths)
      then have IH: "?l = map (\<lambda>k. (next_app_base t + of_nat k * 0x20000, 16)) [0 ..< length ?l]" "length ?l \<le> free_slots t"
        using Cons.IH[of t] Cons.prems E True by auto
      have split: "[0 ..< Suc n] = 0 # map Suc [0 ..< n]" for n by (simp add: map_Suc_upt upt_conv_Cons)
      have "launched prog (op # ops) s = (next_app_base s, 16) # ?l" using E True by (simp add: op L)
      moreover have "map (\<lambda>k. (next_app_base s + of_nat k * 0x20000, 16 :: u64)) [0 ..< length ((next_app_base s, 16 :: u64) # ?l)] =
          (next_app_base s, 16) # map (\<lambda>k. (next_app_base t + of_nat k * 0x20000, 16)) [0 ..< length ?l]"
        using E True by (simp add: split o_def algebra_simps del: upt_Suc)
      ultimately show ?thesis using IH E True by (simp del: upt_Suc)
    qed
  qed
qed simp

text \<open>
  C14. However launches, thread starts, system calls and exits are interleaved, and whatever
  of them fails, the images of the applications launched successfully lie one after the
  other without overlap, and there are never more of them than process slots were free.
\<close>

theorem launched_apps_disjoint:
  assumes "unat (next_app_base s) + 0x20000 * Suc (free_slots s) < 18446744073709551616"
  shows "length (launched prog ops s) \<le> free_slots s \<and>
    sorted_wrt (\<lambda>(b1, n1) (b2, n2). unat b1 + unat n1 \<le> unat b2 \<and> unat b2 + unat n2 < 18446744073709551616) (launched prog ops s)"
proof -
  let ?ls = "launched prog ops s" and ?b = "next_app_base s"
  note L = launched_images[OF assms, of prog ops]
  have at: "unat (?b + of_nat k * 0x20000) = unat ?b + k * 0x20000" if "k < length ?ls" for k
  proof -
    have "k * 0x20000 \<le> 0x20000 * free_slots s" using that conjunct2[OF L] by simp
    then have "unat ?b + k * 0x20000 < 18446744073709551616" "k < 18446744073709551616"
      using assms by (simp_all)
    then show ?thesis by (simp add: unat_word_ariths unat_of_nat_u64)
  qed
  have "sorted_wrt (\<lambda>(b1, n1) (b2, n2). unat b1 + unat n1 \<le> unat b2 \<and> unat b2 + unat n2 < 18446744073709551616)
      (map (\<lambda>k. (?b + of_nat k * 0x20000, 16 :: u64)) [0 ..< length ?ls])"
    unfolding sorted_wrt_map
  proof (rule sorted_wrt_mono_rel[OF _ sorted_wrt_upt])
    fix i j assume ij: "i \<in> set [0 ..< length ?ls]" "j \<in> set [0 ..< length ?ls]" "i < j"
    then have "unat ?b + j * 0x20000 + 16 < 18446744073709551616" using L assms by auto
    then show "(case (?b + of_nat i * 0x20000, 16 :: u64) of (b1, n1) \<Rightarrow> \<lambda>(b2, n2).
        unat b1 + unat n1 \<le> unat b2 \<and> unat b2 + unat n2 < 18446744073709551616) (?b + of_nat j * 0x20000, 16 :: u64)"
      using ij by (simp add: at)
  qed
  then show ?thesis using L by metis
qed

definition demo_space :: UserSpace where
  "demo_space = \<lparr>tables = demo_tables, service_ready = (\<lambda>_. True), shell_process_id = 0, shell_thread_id = 0,
     init_process_id = 0, init_thread_id = 0, syscall_count = 0, loaded_elf_count = 0, us_sched = demo_booted,
     next_app_base = 0x900000\<rparr>"

lemma demo_space_slots: "free_slots demo_space = 64"
  by (simp add: demo_space_def free_slots_def demo_tables_def reset_tables_def kMaxUserProcesses_def count_if_def)

theorem launched_apps_disjoint_witness:
  "let ops = [AppLaunch (\<lambda>_. 0xCC) (Some ''shell'') (Some ''/bin/sh''), AppExit 2 0, AppCall 3 0 0 0,
       AppLaunch (\<lambda>_. 0) (Some ''clock'') (Some ''/system/apps/clock.app'')] in
     \<forall>prog. length (launched prog ops demo_space) \<le> 64"
  using launched_apps_disjoint[of demo_space] demo_space_slots by (simp add: demo_space_def Let_def)

end
