(* ===== verification/SchedulerProgress.thy ===== *)
theory SchedulerProgress
  imports Scheduler
begin

text \<open>
  \<^verbatim>\<open>kernel/src/scheduler.cpp\<close>: progress. A thread that is ready and that no runnable or sleeping
  thread outranks gets the processor after at most as many yields as there are slots between
  the current thread and it: every yield moves the current thread forward in the round-robin
  order and cannot step over the waiting one.
\<close>

text \<open>The threads a yield may start, now or later.\<close>

definition contender :: "Thread \<Rightarrow> bool" where
  "contender t \<longleftrightarrow> t_state t = Ready \<or> t_state t = Running \<or> t_state t = Sleeping"

definition top_ready :: "Sched \<Rightarrow> nat \<Rightarrow> bool" where
  "top_ready s i \<longleftrightarrow> i < kMaxThreads \<and> t_state (g_Threads s ! i) = Ready \<and>
     (\<forall>j < kMaxThreads. contender (g_Threads s ! j) \<longrightarrow> t_priority (g_Threads s ! j) \<le> t_priority (g_Threads s ! i))"

text \<open>How far slot \<open>i\<close> lies after slot \<open>c\<close>, from 1 to \<open>kMaxThreads\<close>.\<close>

definition ahead :: "nat \<Rightarrow> nat \<Rightarrow> nat" where
  "ahead c i = (if c < i then i - c else i + kMaxThreads - c)"

text \<open>What a yield may do to a thread that it does not start.\<close>

definition yields_to :: "Thread \<Rightarrow> Thread \<Rightarrow> bool" where
  "yields_to t u \<longleftrightarrow> t_priority u = t_priority t \<and> (contender u \<longrightarrow> contender t) \<and> (t_state t = Ready \<longrightarrow> t_state u = Ready)"

lemma yields_to_refl [simp]: "yields_to t t"
  by (simp add: yields_to_def)

lemma yields_to_trans: "yields_to t u \<Longrightarrow> yields_to u v \<Longrightarrow> yields_to t v"
  by (simp add: yields_to_def)

lemma yield_start_yields: "j < length (g_Threads s) \<Longrightarrow> yields_to (g_Threads s ! j) (g_Threads (yield_start s c) ! j)"
  by (cases "j = c") (auto simp: yield_start_def Let_def wake_thread_def yields_to_def contender_def DeliverSignals_def
      upd_thread_def)

lemma stay_yields: "j < length (g_Threads s) \<Longrightarrow> yields_to (g_Threads s ! j) (g_Threads (stay c s) ! j)"
  by (cases "j = c") (auto simp: stay_def yields_to_def contender_def upd_thread_def)

lemma switch_to_yields:
  assumes "j < length (g_Threads s)" "j \<noteq> i" "i \<noteq> c"
  shows "yields_to (g_Threads s ! j) (g_Threads (switch_to c i s) ! j)"
  using assms
  by (cases "j = c") (auto simp: switch_to_def SchedulerContextSwitch_def Let_def yields_to_def contender_def
      upd_thread_def DeliverSignals_def)

lemma switch_to_started:
  assumes "i < length (g_Threads s)" "i \<noteq> c" "contender (g_Threads s ! i)"
  shows "t_priority (g_Threads (switch_to c i s) ! i) = t_priority (g_Threads s ! i)"
  using assms
  by (auto simp: switch_to_def SchedulerContextSwitch_def Let_def upd_thread_def DeliverSignals_def)

lemma yield_keeps_top:
  assumes "sched_ok n s" "g_CurrentThread s = Some c" "c < kMaxThreads" "top_ready s i" "i \<noteq> c"
    and s': "s' = snd (KernelSchedulerYield s)" and "g_CurrentThread s' \<noteq> Some i"
  obtains c' where "g_CurrentThread s' = Some c'" "c' < kMaxThreads" "top_ready s' i" "ahead c' i < ahead c i"
proof -
  let ?s = "yield_start s c"
  have len: "length (g_Threads s) = kMaxThreads" "length (g_Threads ?s) = kMaxThreads"
    using sched_ok_lengths(1)[OF assms(1)] sched_ok_lengths(1)[OF yield_start_ok[OF assms(1,3)]] by simp_all
  have i: "i < kMaxThreads" "t_state (g_Threads s ! i) = Ready" using assms(4) by (auto simp: top_ready_def)
  then have run: "runnable s i" by (simp add: runnable_def)
  then obtain m where m: "next_thread ?s c = Some m"
    using next_thread_start(2)[OF assms(1) _ assms(3) i(1)] by (cases "next_thread ?s c") auto
  note b = next_thread_start(1)[OF assms(1) m]
  obtain k where k: "k < kMaxThreads" "m = (c + Suc k) mod kMaxThreads" "runnable s m"
      "\<And>k'. k' < k \<Longrightarrow> runnable s ((c + Suc k') mod kMaxThreads) \<Longrightarrow>
         t_priority (g_Threads s ! ((c + Suc k') mod kMaxThreads)) < t_priority (g_Threads s ! m)"
    using b by (auto simp: best_def round_robin_def simp del: upt_Suc)
  have m128: "m < kMaxThreads" using next_threadD(1)[OF m] .
  have top: "t_priority (g_Threads s ! m) \<le> t_priority (g_Threads s ! i)"
    using assms(4) k(3) m128 by (auto simp: top_ready_def runnable_def contender_def)
  have at: "(c + Suc (ahead c i - 1)) mod kMaxThreads = i" "1 \<le> ahead c i" "ahead c i < kMaxThreads"
    using i(1) assms(3,5) by (auto simp: ahead_def)
  have "\<not> ahead c i - 1 < k" using k(4)[of "ahead c i - 1"] run top at by auto
  then have k_le: "Suc k \<le> ahead c i" using at(2) by linarith
  have mc: "m \<noteq> c"
  proof
    assume "m = c"
    then have "(c + Suc k) mod kMaxThreads = c" using k(2) by simp
    then show False using k_le at(3) assms(3) by (auto simp: mod_if split: if_splits)
  qed
  have s'_eq: "s' = switch_to c m ?s" using s' m mc by (simp add: Yield_eq[OF assms(2)] Let_def)
  have cur: "g_CurrentThread s' = Some m" using switch_to_current(1)[of m ?s c] m128 len mc by (simp add: s'_eq)
  then have im: "i \<noteq> m" using assms(7) by auto
  have other: "yields_to (g_Threads s ! j) (g_Threads s' ! j)" if "j < kMaxThreads" "j \<noteq> m" for j
    unfolding s'_eq by (rule yields_to_trans[OF yield_start_yields switch_to_yields]) (use that len mc in simp_all)
  have started: "t_priority (g_Threads s' ! m) = t_priority (g_Threads s ! m)"
    using switch_to_started[of m ?s c] m128 len mc yield_start_thread[of m s c] k(3)
    by (simp add: s'_eq contender_def)
  have "top_ready s' i"
    unfolding top_ready_def
  proof (intro conjI allI impI)
    show "i < kMaxThreads" by (rule i(1))
    show "t_state (g_Threads s' ! i) = Ready" using other[OF i(1) im] i(2) by (simp add: yields_to_def)
    fix j assume j: "j < kMaxThreads" "contender (g_Threads s' ! j)"
    have pi: "t_priority (g_Threads s' ! i) = t_priority (g_Threads s ! i)" using other[OF i(1) im] by (simp add: yields_to_def)
    show "t_priority (g_Threads s' ! j) \<le> t_priority (g_Threads s' ! i)"
    proof (cases "j = m")
      case True
      then show ?thesis using started top pi by simp
    next
      case False
      then show ?thesis using other[OF j(1) False] j assms(4) pi by (auto simp: yields_to_def top_ready_def)
    qed
  qed
  moreover have "ahead m i < ahead c i"
    using k(2) k_le at(3) im i(1) assms(3,5) by (auto simp: ahead_def mod_if split: if_splits)
  ultimately show thesis using that cur m128 by blast
qed

lemma yield_progress:
  "sched_ok n s \<Longrightarrow> g_CurrentThread s = Some c \<Longrightarrow> c < kMaxThreads \<Longrightarrow> top_ready s i \<Longrightarrow> i \<noteq> c \<Longrightarrow>
   \<exists>k \<le> ahead c i. g_CurrentThread (((\<lambda>s. snd (KernelSchedulerYield s)) ^^ k) s) = Some i"
proof (induction "ahead c i" arbitrary: s c rule: less_induct)
  case less
  let ?y = "\<lambda>s. snd (KernelSchedulerYield s)" and ?t = "snd (KernelSchedulerYield s)"
  have pos: "1 \<le> ahead c i" using less.prems(3-5) by (auto simp: ahead_def top_ready_def)
  show ?case
  proof (cases "g_CurrentThread ?t = Some i")
    case True
    then show ?thesis using pos by (intro exI[of _ 1]) simp
  next
    case False
    then obtain c' where c': "g_CurrentThread ?t = Some c'" "c' < kMaxThreads" "top_ready ?t i" "ahead c' i < ahead c i"
      using yield_keeps_top[OF less.prems refl] by metis
    moreover have "i \<noteq> c'" using False c'(1) by auto
    ultimately obtain k where "k \<le> ahead c' i" "g_CurrentThread ((?y ^^ k) ?t) = Some i"
      using less.hyps[OF c'(4) Yield_ok[OF less.prems(1)] c'(1,2,3)] by auto
    then show ?thesis using c'(4) by (intro exI[of _ "Suc k"]) (simp add: funpow_Suc_right del: funpow.simps)
  qed
qed

text \<open>
  C1. No ready thread of top priority starves: when thread \<open>i\<close> is ready and no thread that is
  ready, running or asleep outranks it, then after at most as many yields as \<open>i\<close> is slots
  ahead of the current thread (never more than the number of slots less one) \<open>i\<close> is the
  current thread, whatever the other threads' states, wake-up times and signals are.
\<close>

theorem ready_thread_runs:
  assumes "sched_ok n s" "g_CurrentThread s = Some c" "top_ready s i" "i \<noteq> c"
  shows "\<exists>k \<le> ahead c i. g_CurrentThread (((\<lambda>s. snd (KernelSchedulerYield s)) ^^ k) s) = Some i"
  using yield_progress[OF assms(1,2) _ assms(3,4)] current_index[OF assms(1)] assms(2) by auto


definition demo_worker :: Sched where
  "demo_worker = snd (KernelCreateThread 0x201000 demo_booted 1 (Some ''worker'') 0x202000 0)"

lemma demo_worker_threads:
  "g_CurrentThread demo_worker = Some 0"
  "\<exists>t. g_Threads demo_worker = (g_Threads demo_booted)[1 := t] \<and> t_state t = Ready \<and> t_priority t = 8"
proof -
  have f: "FindProcess demo_booted 1 = Some 0" "FindThreadSlot demo_booted = Some 1" "g_CurrentThread demo_booted = Some 0"
      "length (g_Threads demo_booted) = 128"
    by (simp_all add: demo_booted_def demo_sched_def KernelSchedulerInit_def sched_log_def FindProcess_def FindThreadSlot_def
        table_sizes zero_process_def zero_thread_def eval_nat_numeral)
  have h: "fst (KernelAllocate (heap demo_booted) kThreadStackSize 16) \<noteq> 0"
    by (simp add: demo_booted_def demo_sched_def KernelSchedulerInit_def sched_log_def) code_simp
  note d = demo_worker_def KernelCreateThread_def f Let_def sched_log_def PrepareInitialContext_def upd_thread_def
    kDefaultThreadPriority_def
  show "g_CurrentThread demo_worker = Some 0" using h by (simp add: d split: prod.split)
  show "\<exists>t. g_Threads demo_worker = (g_Threads demo_booted)[1 := t] \<and> t_state t = Ready \<and> t_priority t = 8"
    using h by (cases "KernelAllocate (heap demo_booted) kThreadStackSize 16")
      (simp add: d, intro exI conjI, rule refl, simp_all)
qed

lemma demo_worker_ok: "sched_ok 1 demo_worker"
  using sched_exec_ok[OF demo_booted_ok, where tr = "0x201000" and x = "OpCreateThread 1 (Some ''worker'') 0x202000 0"]
  by (simp add: demo_worker_def)

theorem ready_thread_runs_witness:
  "\<exists>k \<le> 1. g_CurrentThread (((\<lambda>s. snd (KernelSchedulerYield s)) ^^ k) demo_worker) = Some 1"
proof -
  obtain t where t: "g_Threads demo_worker = (g_Threads demo_booted)[1 := t]" "t_state t = Ready" "t_priority t = 8"
    using demo_worker_threads(2) by blast
  have "g_Threads demo_booted = (replicate 128 zero_thread)[0 := zero_thread\<lparr>t_id := 1, t_process_id := 1,
      t_name := Some ''bootstrap'', t_state := Running, t_priority := 8\<rparr>]"
    by (simp add: demo_booted_def demo_sched_def KernelSchedulerInit_def sched_log_def kMaxThreads_def
        kKernelProcessId_def kDefaultThreadPriority_def)
  then have "top_ready demo_worker 1"
    using t by (auto simp: top_ready_def kMaxThreads_def nth_list_update zero_thread_def)
  then show ?thesis
    using ready_thread_runs[OF demo_worker_ok demo_worker_threads(1), of 1] by (simp add: ahead_def)
qed

end
