(* ===== verification/BootConsole.thy ===== *)
theory BootConsole
  imports Prelude
begin

text \<open>
  \<^verbatim>\<open>bootloader/src/efi_console.cpp\<close>: text output of the boot loader. A character of the firmware
  is a 16-bit word; a text sent to \<open>OutputString\<close> is a list of them without the final NUL. The
  output of a call is the list of the texts it sends.
\<close>

type_synonym char16 = u16

text \<open>\<open>static_cast<char16_t>(c)\<close>: \<open>char\<close> is signed.\<close>

definition widen :: "char \<Rightarrow> char16" where
  "widen c = scast (of_char c :: u8)"

subsection \<open>Plain texts\<close>

text \<open>
  The loop of \<open>Print(const char*)\<close>. The counter \<open>i\<close> is both the position in the text and in
  the buffer, and starts again at 0 when the buffer of 255 characters has been sent; a call that
  does not return is \<open>None\<close>.
\<close>

partial_function (option) print_loop :: "string \<Rightarrow> nat \<Rightarrow> char16 list \<Rightarrow> char16 list list \<Rightarrow> char16 list list option" where
  "print_loop s i buffer out =
     (if i < length s then
        let b = buffer @ [widen (s ! i)] in
        if i + 1 = 255 then print_loop s 0 [] (out @ [b]) else print_loop s (i + 1) b out
      else Some (if i > 0 then out @ [buffer] else out))"

declare print_loop.simps [code]

definition EFI_Print :: "bool \<Rightarrow> cstring \<Rightarrow> char16 list list option" where
  "EFI_Print has_console txt =
     (case txt of None \<Rightarrow> Some [] | Some s \<Rightarrow> if has_console then print_loop s 0 [] [] else Some [])"

subsection \<open>Numbers\<close>

text \<open>
  The digits of \<open>uval\<close>, least significant first. The code divides by 10 and 16 only; a base below
  2, for which its loop is undefined or endless, has no digits here.
\<close>

function int_digits :: "u64 \<Rightarrow> u64 \<Rightarrow> char16 list" where
  "int_digits base uval =
     (if uval = 0 \<or> base < 2 then []
      else (let rem = uval mod base in (if rem < 10 then 0x30 + ucast rem else 0x61 + ucast (rem - 10))) #
           int_digits base (uval div base))"
  by pat_completeness auto
termination
proof (relation "measure (\<lambda>(base, uval). unat uval)")
  fix base uval :: u64
  assume "\<not> (uval = 0 \<or> base < 2)"
  then have "unat uval > 0" "unat base \<ge> 2" by (auto simp: word_less_nat_alt unat_gt_0)
  then show "((base, uval div base), base, uval) \<in> measure (\<lambda>(base, uval). unat uval)"
    by (simp add: unat_div)
qed simp

declare int_digits.simps [simp del]

definition IntToString :: "u64 \<Rightarrow> u64 \<Rightarrow> bool \<Rightarrow> char16 list" where
  "IntToString val base is_signed =
     (let negative = (is_signed \<and> sint val < 0);
          uval = (if negative then - val else val);
          tmp = (if uval = 0 then [0x30] else int_digits base uval)
      in (if negative then [0x2D] else []) @ rev tmp)"

subsection \<open>Formatted output\<close>

text \<open>
  The variable arguments: a machine word, a text, a wide text. Taking an argument of another
  kind than the one passed, or past the last one, or reading the format past its end is
  undefined in C++: \<open>None\<close>.
\<close>

datatype fmt_arg = ArgWord u64 | ArgText cstring | ArgWide "char16 list option"

text \<open>What one conversion writes: \<open>Put\<close> straight into the buffer, \<open>PutText\<close> with a check for each character.\<close>

datatype fmt_out = Put "char16 list" | PutText "char16 list"

definition word_arg :: "fmt_arg list \<Rightarrow> (u64 \<times> fmt_arg list) option" where
  "word_arg as = (case as of ArgWord w # r \<Rightarrow> Some (w, r) | _ \<Rightarrow> None)"

definition null_text :: "char16 list" where
  "null_text = map widen ''(null)''"

text \<open>The length modifier, from the character after the percent sign.\<close>

definition length_modifier :: "string \<Rightarrow> bool \<times> string" where
  "length_modifier cs =
     (case cs of c # r \<Rightarrow>
        if c = CHR ''l'' then (case r of d # q \<Rightarrow> if d = CHR ''l'' then (True, q) else (False, r) | [] \<Rightarrow> (False, []))
        else (False, cs)
      | [] \<Rightarrow> (False, []))"

datatype conv_spec = SPercent | SChar | SSigned | SUnsigned | SPointer | SHex | SText | SOther

definition spec_of :: "char \<Rightarrow> conv_spec" where
  "spec_of c =
     (if c = CHR ''%'' then SPercent
      else if c = CHR ''c'' then SChar
      else if c = CHR ''d'' \<or> c = CHR ''i'' then SSigned
      else if c = CHR ''u'' then SUnsigned
      else if c = CHR ''p'' then SPointer
      else if c = CHR ''x'' \<or> c = CHR ''X'' then SHex
      else if c = CHR ''s'' then SText
      else SOther)"

definition conversion :: "string \<Rightarrow> fmt_arg list \<Rightarrow> (fmt_out \<times> string \<times> fmt_arg list) option" where
  "conversion cs as =
     (let (long, q) = length_modifier cs in
      case q of [] \<Rightarrow> None
      | spec # rest \<Rightarrow>
          (case spec_of spec of
             SPercent \<Rightarrow> Some (Put [0x25], rest, as)
           | SChar \<Rightarrow> map_option (\<lambda>(w, r). (Put [scast (ucast w :: u8)], rest, r)) (word_arg as)
           | SSigned \<Rightarrow>
               map_option (\<lambda>(w, r). (Put (IntToString (if long then w else scast (ucast w :: u32)) 10 True), rest, r)) (word_arg as)
           | SUnsigned \<Rightarrow>
               map_option (\<lambda>(w, r). (Put (IntToString (if long then w else ucast (ucast w :: u32)) 10 False), rest, r)) (word_arg as)
           | SPointer \<Rightarrow> map_option (\<lambda>(w, r). (Put ([0x30, 0x78] @ IntToString w 16 False), rest, r)) (word_arg as)
           | SHex \<Rightarrow>
               map_option (\<lambda>(w, r). (Put (IntToString (if long then w else ucast (ucast w :: u32)) 16 False), rest, r)) (word_arg as)
           | SText \<Rightarrow>
               (case as of ArgText t # r \<Rightarrow> Some (PutText (case t of None \<Rightarrow> null_text | Some s \<Rightarrow> map widen s), rest, r)
                | _ \<Rightarrow> None)
           | SOther \<Rightarrow>
               if spec = CHR ''l'' \<and> rest \<noteq> [] \<and> hd rest = CHR ''s'' then
                 (case as of ArgWide t # r \<Rightarrow> Some (PutText (case t of None \<Rightarrow> null_text | Some s \<Rightarrow> s), tl rest, r)
                  | _ \<Rightarrow> None)
               else Some (Put [0x25, widen spec], rest, as)))"

text \<open>The output buffer: its contents and the texts sent so far.\<close>

definition flush_full :: "char16 list \<times> char16 list list \<Rightarrow> char16 list \<times> char16 list list" where
  "flush_full st = (if length (fst st) \<ge> 1000 then ([], snd st @ [fst st]) else st)"

definition buffer_char :: "char16 list \<times> char16 list list \<Rightarrow> char16 \<Rightarrow> char16 list \<times> char16 list list" where
  "buffer_char st c = (let st1 = flush_full st in (fst st1 @ [c], snd st1))"

definition write_out :: "char16 list \<times> char16 list list \<Rightarrow> fmt_out \<Rightarrow> char16 list \<times> char16 list list" where
  "write_out st w = (case w of Put cs \<Rightarrow> (fst st @ cs, snd st) | PutText cs \<Rightarrow> foldl buffer_char st cs)"

lemma length_modifier_shorter: "length_modifier cs = (l, q) \<Longrightarrow> length q \<le> length cs"
  by (auto simp: length_modifier_def split: list.splits if_splits)

lemma conversion_shorter: "conversion cs as = Some (w, rest, r) \<Longrightarrow> length rest < length cs"
proof -
  assume c: "conversion cs as = Some (w, rest, r)"
  obtain l q where q: "length_modifier cs = (l, q)" by fastforce
  have "length rest < length q"
    using c by (auto simp: conversion_def q word_arg_def Let_def split: list.splits if_splits fmt_arg.splits conv_spec.splits)
  then show ?thesis using length_modifier_shorter[OF q] by simp
qed

function format_loop :: "string \<Rightarrow> fmt_arg list \<Rightarrow> char16 list \<times> char16 list list \<Rightarrow> (char16 list \<times> char16 list list) option" where
  "format_loop [] as st = Some st"
| "format_loop (c # cs) as st =
     (let st1 = flush_full st in
      if c \<noteq> CHR ''%'' then format_loop cs as (fst st1 @ [widen c], snd st1)
      else if cs = [] then Some st1
      else (case conversion cs as of None \<Rightarrow> None
            | Some (w, rest, r) \<Rightarrow> format_loop rest r (write_out st1 w)))"
  by pat_completeness auto
termination
  by (relation "measure (\<lambda>(cs, _, _). length cs)") (auto dest: conversion_shorter)

definition PrintFormatted :: "string \<Rightarrow> fmt_arg list \<Rightarrow> char16 list list option" where
  "PrintFormatted format as =
     map_option (\<lambda>(buf, out). if buf \<noteq> [] then out @ [buf] else out) (format_loop format as ([], []))"

subsection \<open>When a plain text is printed\<close>

lemma print_loop_short:
  "length s < 255 \<Longrightarrow> i \<le> length s \<Longrightarrow>
   print_loop s i (map widen (take i s)) out = Some (if s = [] then out else out @ [map widen s])"
proof (induction "length s - i" arbitrary: i)
  case 0
  then show ?case by (subst print_loop.simps) auto
next
  case (Suc n)
  then have i: "i < length s" by simp
  then have "map widen (take i s) @ [widen (s ! i)] = map widen (take (i + 1) s)" by (simp add: take_Suc_conv_app_nth)
  then show ?case using Suc i by (subst print_loop.simps) (simp add: Let_def)
qed

lemma print_loop_returns:
  assumes "print_loop s i buffer out = Some r"
  shows "i < 255 \<longrightarrow> length s < 255"
  by (rule print_loop.raw_induct[OF _ assms, where P = "\<lambda>s i buffer out r. i < 255 \<longrightarrow> length s < 255"])
    (auto simp: Let_def split: if_splits)

text \<open>
  C1. \<open>Print(const char*)\<close> returns exactly for texts of fewer than 255 characters, which it then
  sends in one piece; for every longer text it sends the first 255 characters again and again,
  since the position in the text starts over with the buffer.
\<close>

theorem EFI_Print_returns:
  "EFI_Print True (Some s) = (if length s < 255 then Some (if s = [] then [] else [map widen s]) else None)"
proof -
  have "print_loop s 0 [] [] = None" if "\<not> length s < 255"
    using print_loop_returns[of s 0 "[]" "[]"] that by (cases "print_loop s 0 [] []") auto
  then show ?thesis using print_loop_short[of s 0 "[]"] by (auto simp: EFI_Print_def)
qed

subsection \<open>The buffer is transparent and never overflows\<close>

text \<open>What a format and its arguments denote, without buffer.\<close>

definition out_text :: "fmt_out \<Rightarrow> char16 list" where
  "out_text w = (case w of Put cs \<Rightarrow> cs | PutText cs \<Rightarrow> cs)"

function format_text :: "string \<Rightarrow> fmt_arg list \<Rightarrow> char16 list option" where
  "format_text [] as = Some []"
| "format_text (c # cs) as =
     (if c \<noteq> CHR ''%'' then map_option (Cons (widen c)) (format_text cs as)
      else if cs = [] then Some []
      else (case conversion cs as of None \<Rightarrow> None
            | Some (w, rest, r) \<Rightarrow> map_option (append (out_text w)) (format_text rest r)))"
  by pat_completeness auto
termination
  by (relation "measure (\<lambda>(cs, _). length cs)") (auto dest: conversion_shorter)

definition sent :: "char16 list \<times> char16 list list \<Rightarrow> char16 list" where
  "sent st = concat (snd st) @ fst st"

definition fits :: "nat \<Rightarrow> char16 list \<times> char16 list list \<Rightarrow> bool" where
  "fits n st \<longleftrightarrow> length (fst st) \<le> n \<and> list_all (\<lambda>t. t \<noteq> [] \<and> length t \<le> 1023) (snd st)"

lemma flush_full_sent [simp]: "sent (flush_full st) = sent st"
  by (simp add: sent_def flush_full_def)

lemma flush_full_fits: "fits n st \<Longrightarrow> n \<le> 1023 \<Longrightarrow> fits 999 (flush_full st)"
  by (auto simp: fits_def flush_full_def)

lemma buffer_char_sent: "sent (buffer_char st c) = sent st @ [c]"
  using flush_full_sent[of st] by (simp add: buffer_char_def Let_def sent_def)

lemma buffer_char_fits: "fits 1000 st \<Longrightarrow> fits 1000 (buffer_char st c)"
  using flush_full_fits[of 1000 st] by (simp add: buffer_char_def Let_def fits_def)

lemma put_text: "sent (foldl buffer_char st cs) = sent st @ cs \<and> (fits 1000 st \<longrightarrow> fits 1000 (foldl buffer_char st cs))"
  by (induction cs arbitrary: st) (simp_all add: buffer_char_sent buffer_char_fits)

lemma int_digits_length: "base \<ge> 10 \<Longrightarrow> unat uval < 10 ^ n \<Longrightarrow> length (int_digits base uval) \<le> n"
proof (induction n arbitrary: uval)
  case 0
  then show ?case by (simp add: int_digits.simps unat_eq_zero)
next
  case (Suc n)
  have b: "unat base \<ge> 10" using Suc.prems(1) by (simp add: word_le_nat_alt)
  have "unat uval div unat base \<le> unat uval div 10" using b by (simp add: div_le_mono2)
  also have "\<dots> < 10 ^ n" using Suc.prems(2) by (simp add: less_mult_imp_div_less mult.commute)
  finally have "unat (uval div base) < 10 ^ n" by (simp add: unat_div)
  then show ?case using Suc.IH[OF Suc.prems(1)] by (subst int_digits.simps) (simp add: Let_def)
qed

lemma IntToString_length: "base \<ge> 10 \<Longrightarrow> length (IntToString v base neg) \<le> 21"
  using int_digits_length[of base "- v" 20] int_digits_length[of base v 20] u64_lt[of v] u64_lt[of "- v"]
  by (auto simp: IntToString_def Let_def)

lemma conversion_put: "conversion cs as = Some (Put t, rest, r) \<Longrightarrow> length t \<le> 23"
  using IntToString_length[of 10] IntToString_length[of 16]
  by (auto simp: conversion_def Let_def word_arg_def split: prod.splits list.splits if_splits fmt_arg.splits conv_spec.splits
      intro: le_trans[of _ 21])

lemma write_out_fits:
  assumes "conversion cs as = Some (w, rest, r)" "fits 999 st"
  shows "fits 1022 (write_out st w)"
proof (cases w)
  case (Put t)
  then show ?thesis using conversion_put[of cs as t rest r] assms by (simp add: write_out_def fits_def)
next
  case (PutText t)
  then show ?thesis using put_text[of st t] assms(2) by (auto simp: write_out_def fits_def)
qed

lemma write_out_sent: "sent (write_out st w) = sent st @ out_text w"
  using put_text by (cases w) (simp_all add: write_out_def out_text_def sent_def)

lemma format_loop_text:
  "fits 1022 st \<Longrightarrow>
   map_option sent (format_loop cs as st) = map_option (append (sent st)) (format_text cs as) \<and>
   pred_option (fits 1022) (format_loop cs as st)"
proof (induction cs as st rule: format_loop.induct)
  case (2 c cs as st)
  have f: "fits 999 (flush_full st)" using 2(3) by (intro flush_full_fits[of 1022]) simp_all
  show ?case
  proof (cases "c \<noteq> CHR ''%''")
    case True
    then have "fits 1022 (fst (flush_full st) @ [widen c], snd (flush_full st))" using f by (simp add: fits_def)
    moreover have "sent (fst (flush_full st) @ [widen c], snd (flush_full st)) = sent st @ [widen c]"
      using flush_full_sent[of st] by (simp add: sent_def)
    ultimately show ?thesis using 2(1)[OF refl True] True by (simp add: Let_def option.map_comp o_def)
  next
    case False
    show ?thesis
    proof (cases "conversion cs as")
      case None
      then show ?thesis using False f by (auto simp: Let_def fits_def)
    next
      case (Some x)
      obtain w rest r where x: "x = (w, rest, r)" by (cases x) auto
      have "cs \<noteq> []" using Some x conversion_shorter[of cs as w rest r] by auto
      then show ?thesis
        using 2(2)[OF refl False _ Some x[symmetric] refl] write_out_fits[OF Some[unfolded x] f] write_out_sent[of "flush_full st" w] False Some x
        by (simp add: Let_def option.map_comp o_def)
    qed
  qed
qed simp

text \<open>
  The output buffer of \<open>PrintFormatted\<close> is invisible and safe: for every format and argument
  list, the texts sent one after the other are what the format denotes (undefined exactly when
  that is), none of them is empty and each fits the buffer of 1024 characters with its NUL.
\<close>

lemma PrintFormatted_buffered:
  "map_option concat (PrintFormatted format as) = format_text format as \<and>
   pred_option (list_all (\<lambda>t. t \<noteq> [] \<and> length t + 1 \<le> 1024)) (PrintFormatted format as)"
proof -
  have "fits 1022 ([], [])" by (simp add: fits_def)
  note L = format_loop_text[OF this, of format as]
  show ?thesis
  proof (cases "format_loop format as ([], [])")
    case None
    then show ?thesis using L by (auto simp: PrintFormatted_def)
  next
    case (Some st)
    then have "format_text format as = Some (sent st)" "fits 1022 st"
      using L by (cases "format_text format as"; simp add: sent_def)+
    then show ?thesis using Some
      by (cases st) (auto simp: PrintFormatted_def sent_def fits_def list_all_iff)
  qed
qed

end
