(* ===== verification/BootLoader.thy ===== *)
theory BootLoader
  imports BootConsole Bytes
begin

text \<open>
  \<^verbatim>\<open>bootloader/src/file.cpp\<close>, \<^verbatim>\<open>elf_loader.cpp\<close>, \<^verbatim>\<open>memory_map.cpp\<close>, \<^verbatim>\<open>uefi_application.cpp\<close> and their
  headers: files of the boot volume, the loader of the kernel image and the memory map.

  The firmware is not part of the repository: the record \<open>Firmware\<close> holds the services the code
  calls, each a function of the firmware's own state \<open>'w\<close>, with the arguments the code passes and
  the results it uses. A status is a machine word, 0 for success. Bytes a service stores in the
  caller's memory are part of its result; \<open>memory\<close> is the physical memory the loader copies the
  kernel into, in which the program headers live as well, so that a segment loaded over them
  changes what the loader reads next.
\<close>

subsection \<open>The firmware\<close>

record MapAnswer =
  ma_size :: u64
  ma_key :: u64
  ma_descriptor_size :: u64
  ma_descriptor_version :: u32

text \<open>\<open>ReservedMask\<close> and \<open>Version\<close> of a graphics mode are not read.\<close>

record ModeInfo =
  HorizontalResolution :: u32
  VerticalResolution :: u32
  PixelFormat :: u32
  RedMask :: u32
  GreenMask :: u32
  BlueMask :: u32
  PixelsPerScanLine :: u32

record GopMode =
  MaxMode :: u32
  Mode :: u32
  Info :: "ModeInfo option"
  FrameBufferBase :: u64
  FrameBufferSize :: u64

record EfiTime =
  Year :: u16
  Month :: u8
  Day :: u8
  Hour :: u8
  Minute :: u8
  Second :: u8

datatype EfiGuid = EfiGuid u32 u16 u16 "u8 list"

record 'w Firmware =
  has_console :: bool
  OutputString :: "char16 list \<Rightarrow> 'w \<Rightarrow> 'w"
  SetAttribute :: "u32 \<Rightarrow> 'w \<Rightarrow> 'w"
  ClearScreen :: "'w \<Rightarrow> 'w"
  AllocatePages :: "u64 \<Rightarrow> u64 \<Rightarrow> 'w \<Rightarrow> u64 \<times> 'w"
  AllocatePool :: "u64 \<Rightarrow> 'w \<Rightarrow> u64 \<times> u64 \<times> 'w"
  FreePool :: "u64 \<Rightarrow> 'w \<Rightarrow> 'w"
  GetMemoryMap :: "u64 \<Rightarrow> MapAnswer \<Rightarrow> 'w \<Rightarrow> u64 \<times> MapAnswer \<times> u8 list \<times> 'w"
  ExitBootServices :: "u64 \<Rightarrow> 'w \<Rightarrow> u64 \<times> 'w"
  LoadedImage :: "'w \<Rightarrow> u64 \<times> u64 option \<times> 'w"
  FileSystemProtocol :: "u64 \<Rightarrow> 'w \<Rightarrow> u64 \<times> u64 \<times> 'w"
  OpenVolume :: "u64 \<Rightarrow> 'w \<Rightarrow> u64 \<times> u64 \<times> 'w"
  OpenFile :: "u64 \<Rightarrow> char16 list \<Rightarrow> 'w \<Rightarrow> u64 \<times> u64 \<times> 'w"
  CloseFile :: "u64 \<Rightarrow> 'w \<Rightarrow> 'w"
  FileInfo :: "u64 \<Rightarrow> 'w \<Rightarrow> u64 \<times> u64 \<times> 'w"
  ReadFile :: "u64 \<Rightarrow> u64 \<Rightarrow> 'w \<Rightarrow> u64 \<times> u8 list \<times> 'w"
  SetFilePosition :: "u64 \<Rightarrow> u64 \<Rightarrow> 'w \<Rightarrow> u64 \<times> 'w"
  has_stall :: bool
  Stall :: "u64 \<Rightarrow> 'w \<Rightarrow> 'w"
  has_locate_protocol :: bool
  LocateGop :: "'w \<Rightarrow> u64 \<times> u64 \<times> 'w"
  gop_has_mode :: "'w \<Rightarrow> bool"
  gop_mode :: "'w \<Rightarrow> GopMode"
  QueryMode :: "u32 \<Rightarrow> 'w \<Rightarrow> u64 \<times> (u64 \<times> ModeInfo) option \<times> 'w"
  SetMode :: "u32 \<Rightarrow> 'w \<Rightarrow> u64 \<times> 'w"
  cpuid :: "u32 \<Rightarrow> u32 \<times> u32 \<times> u32 \<times> u32"
  GetTime :: "'w \<Rightarrow> u64 \<times> EfiTime \<times> 'w"
  ConfigurationTable :: "(EfiGuid \<times> u64) list"
  system_table :: u64
  runtime_services :: u64

definition EFI_SUCCESS :: u64 where "EFI_SUCCESS = 0"
definition EFI_LOAD_ERROR :: u64 where "EFI_LOAD_ERROR = 0x8000000000000001"
definition EFI_UNSUPPORTED :: u64 where "EFI_UNSUPPORTED = 0x8000000000000003"
definition EFI_BUFFER_TOO_SMALL :: u64 where "EFI_BUFFER_TOO_SMALL = 0x8000000000000005"
definition EFI_DEVICE_ERROR :: u64 where "EFI_DEVICE_ERROR = 0x8000000000000007"
definition EFI_NOT_FOUND :: u64 where "EFI_NOT_FOUND = 0x800000000000000E"

record 'w Boot =
  world :: 'w
  memory :: "u64 \<Rightarrow> u8"
  s_RootVolume :: u64
  s_RootDeviceHandle :: u64

definition on_world :: "('w \<Rightarrow> 'a \<times> 'w) \<Rightarrow> 'w Boot \<Rightarrow> 'a \<times> 'w Boot" where
  "on_world f s = (let (r, w) = f (world s) in (r, s\<lparr>world := w\<rparr>))"

definition do_world :: "('w \<Rightarrow> 'w) \<Rightarrow> 'w Boot \<Rightarrow> 'w Boot" where
  "do_world f s = s\<lparr>world := f (world s)\<rparr>"

subsection \<open>Messages\<close>

definition send_texts :: "'w Firmware \<Rightarrow> char16 list list \<Rightarrow> 'w \<Rightarrow> 'w" where
  "send_texts fw ts w = (if has_console fw then foldl (\<lambda>w t. OutputString fw t w) w ts else w)"

text \<open>
  Every format below gets the arguments it takes and every plain text is shorter than 255
  characters, so both calls are defined and return.
\<close>

definition say :: "'w Firmware \<Rightarrow> string \<Rightarrow> fmt_arg list \<Rightarrow> 'w Boot \<Rightarrow> 'w Boot" where
  "say fw format as = do_world (send_texts fw (case PrintFormatted format as of Some ts \<Rightarrow> ts | None \<Rightarrow> []))"

definition tell :: "'w Firmware \<Rightarrow> string \<Rightarrow> 'w Boot \<Rightarrow> 'w Boot" where
  "tell fw txt = do_world (send_texts fw (case EFI_Print (has_console fw) (Some txt) of Some ts \<Rightarrow> ts | None \<Rightarrow> []))"

subsection \<open>Files\<close>

record BootFile =
  m_Path :: "char16 list"
  m_Handle :: u64
  m_OwnsHandle :: bool

text \<open>The constructor: at most 254 characters, without a leading slash, slashes turned around.\<close>

definition path_chars :: "char16 list \<Rightarrow> char16 list" where
  "path_chars cs = map (\<lambda>c. if c = 0x2F then 0x5C else c)
     (take 254 (if cs \<noteq> [] \<and> hd cs = 0x2F then tl cs else cs))"

definition File_ascii :: "string \<Rightarrow> BootFile" where
  "File_ascii path = \<lparr>m_Path = path_chars (map widen path), m_Handle = 0, m_OwnsHandle = True\<rparr>"

definition File_utf16 :: "char16 list \<Rightarrow> BootFile" where
  "File_utf16 path = \<lparr>m_Path = path_chars path, m_Handle = 0, m_OwnsHandle = True\<rparr>"

definition InitRootVolume :: "'w Firmware \<Rightarrow> 'w Boot \<Rightarrow> bool \<times> 'w Boot" where
  "InitRootVolume fw s =
     (if s_RootVolume s \<noteq> 0 then (True, s)
      else
        let ((status, image_device), s1) = on_world (\<lambda>w. let (a, b, w) = LoadedImage fw w in ((a, b), w)) s in
        case (if status \<noteq> EFI_SUCCESS then None else image_device) of
          None \<Rightarrow> (False, say fw ''Error: Failed to locate Loaded Image Protocol (%x)\<newline>'' [ArgWord status] s1)
        | Some device \<Rightarrow>
            let s2 = s1\<lparr>s_RootDeviceHandle := device\<rparr>;
                ((status, sfs), s3) = on_world (\<lambda>w. let (a, b, w) = FileSystemProtocol fw device w in ((a, b), w)) s2 in
            if status \<noteq> EFI_SUCCESS \<or> sfs = 0 then
              (False, say fw ''Error: Failed to locate Simple File System Protocol (%x)\<newline>'' [ArgWord status] s3)
            else
              let ((status, volume), s4) = on_world (\<lambda>w. let (a, b, w) = OpenVolume fw sfs w in ((a, b), w)) s3;
                  s5 = s4\<lparr>s_RootVolume := volume\<rparr> in
              if status \<noteq> EFI_SUCCESS \<or> volume = 0 then
                (False, say fw ''Error: Failed to open Root Volume (%x)\<newline>'' [ArgWord status] s5)
              else (True, s5))"

definition CloseRootVolume :: "'w Firmware \<Rightarrow> 'w Boot \<Rightarrow> 'w Boot" where
  "CloseRootVolume fw s =
     (let s1 = (if s_RootVolume s \<noteq> 0 then (do_world (CloseFile fw (s_RootVolume s)) s)\<lparr>s_RootVolume := 0\<rparr> else s)
      in s1\<lparr>s_RootDeviceHandle := 0\<rparr>)"

definition File_SetPosition :: "'w Firmware \<Rightarrow> BootFile \<Rightarrow> u64 \<Rightarrow> 'w Boot \<Rightarrow> bool \<times> 'w Boot" where
  "File_SetPosition fw f position s =
     (if m_Handle f = 0 then (False, s)
      else let (status, s1) = on_world (SetFilePosition fw (m_Handle f) position) s in (status = EFI_SUCCESS, s1))"

definition File_Open :: "'w Firmware \<Rightarrow> BootFile \<Rightarrow> 'w Boot \<Rightarrow> bool \<times> BootFile \<times> 'w Boot" where
  "File_Open fw f s =
     (if s_RootVolume s = 0 then (False, f, s)
      else if m_Handle f \<noteq> 0 then (True, f, s)
      else if m_Path f = [] then
        let f1 = f\<lparr>m_Handle := s_RootVolume s, m_OwnsHandle := False\<rparr>
        in (True, f1, snd (on_world (SetFilePosition fw (m_Handle f1) 0) s))
      else
        let ((status, handle), s1) = on_world (\<lambda>w. let (a, b, w) = OpenFile fw (s_RootVolume s) (m_Path f) w in ((a, b), w)) s in
        if status \<noteq> EFI_SUCCESS then (False, f\<lparr>m_Handle := 0\<rparr>, s1) else (True, f\<lparr>m_Handle := handle\<rparr>, s1))"

definition File_Close :: "'w Firmware \<Rightarrow> BootFile \<Rightarrow> 'w Boot \<Rightarrow> BootFile \<times> 'w Boot" where
  "File_Close fw f s =
     (if m_Handle f \<noteq> 0 then
        (f\<lparr>m_Handle := 0, m_OwnsHandle := True\<rparr>,
         if m_OwnsHandle f then do_world (CloseFile fw (m_Handle f)) s else s)
      else (f, s))"

definition File_GetSize :: "'w Firmware \<Rightarrow> BootFile \<Rightarrow> 'w Boot \<Rightarrow> u64 \<times> 'w Boot" where
  "File_GetSize fw f s =
     (if m_Handle f = 0 then (0, s)
      else let ((status, size), s1) = on_world (\<lambda>w. let (a, b, w) = FileInfo fw (m_Handle f) w in ((a, b), w)) s
           in (if status = EFI_SUCCESS then size else 0, s1))"

text \<open>The bytes read; the caller stores them. A failed read may have stored some all the same.\<close>

definition File_Read :: "'w Firmware \<Rightarrow> BootFile \<Rightarrow> u64 \<Rightarrow> 'w Boot \<Rightarrow> u64 \<times> u8 list \<times> 'w Boot" where
  "File_Read fw f sz s =
     (if m_Handle f = 0 then (0, [], s)
      else let ((status, data), s1) = on_world (\<lambda>w. let (a, b, w) = ReadFile fw (m_Handle f) sz w in ((a, b), w)) s
           in (if status = EFI_SUCCESS then of_nat (length data) else 0, data, s1))"

text \<open>
  \<open>ListDirectory\<close>: one directory entry per read into a buffer of 512 bytes, until a read fails or
  returns nothing; the low bytes of the name are printed. A directory that never ends is \<open>None\<close>.
\<close>

definition info_name :: "(u64 \<Rightarrow> u8) \<Rightarrow> string" where
  "info_name b = map (\<lambda>c. char_of (unat (ucast c :: u8)))
     (takeWhile (\<lambda>c. c \<noteq> 0) (map (\<lambda>j. ucast (get_le 2 b (80 + 2 * of_nat j)) :: char16) [0 ..< 127]))"

partial_function (option) list_entries :: "'w Firmware \<Rightarrow> BootFile \<Rightarrow> (u64 \<Rightarrow> u8) \<Rightarrow> 'w Boot \<Rightarrow> 'w Boot option" where
  "list_entries fw dir b s =
     (let ((status, data), s1) = on_world (\<lambda>w. let (a, b, w) = ReadFile fw (m_Handle dir) 512 w in ((a, b), w)) s;
          b1 = store_bytes 0 data b in
      if status \<noteq> EFI_SUCCESS \<or> data = [] then Some s1
      else
        list_entries fw dir b1
          (if get_le 8 b1 72 AND 0x10 \<noteq> 0 then say fw ''  [DIR]  %s\<newline>'' [ArgText (Some (info_name b1))] s1
           else say fw ''  [FILE] %s (%llu bytes)\<newline>'' [ArgText (Some (info_name b1)), ArgWord (get_le 8 b1 8)] s1))"

definition ListDirectory :: "'w Firmware \<Rightarrow> (u64 \<Rightarrow> u8) \<Rightarrow> string \<Rightarrow> 'w Boot \<Rightarrow> 'w Boot option" where
  "ListDirectory fw garbage path s =
     (let (ok, dir, s1) = File_Open fw (File_ascii path) s in
      if \<not> ok then Some (say fw ''Failed to open directory: %s\<newline>'' [ArgText (Some path)] s1)
      else map_option (\<lambda>t. snd (File_Close fw dir t))
        (list_entries fw dir garbage (say fw ''Listing directory: %s\<newline>'' [ArgText (Some path)] s1)))"

subsection \<open>The kernel image\<close>

record Elf64_Ehdr =
  e_ident :: "u8 list"
  e_type :: u16
  e_machine :: u16
  e_version :: u32
  e_entry :: u64
  e_phoff :: u64
  e_shoff :: u64
  e_flags :: u32
  e_ehsize :: u16
  e_phentsize :: u16
  e_phnum :: u16
  e_shentsize :: u16
  e_shnum :: u16
  e_shstrndx :: u16

record Elf64_Phdr =
  p_type :: u32
  p_flags :: u32
  p_offset :: u64
  p_vaddr :: u64
  p_paddr :: u64
  p_filesz :: u64
  p_memsz :: u64
  p_align :: u64

definition PT_LOAD :: u32 where "PT_LOAD = 1"
definition EM_X86_64 :: u16 where "EM_X86_64 = 62"
definition ET_EXEC :: u16 where "ET_EXEC = 2"
definition ET_DYN :: u16 where "ET_DYN = 3"
definition ELF_MAGIC :: "u8 list" where "ELF_MAGIC = [0x7f, 0x45, 0x4C, 0x46]"
definition sizeof_Ehdr :: u64 where "sizeof_Ehdr = 64"
definition sizeof_Phdr :: u64 where "sizeof_Phdr = 56"

definition read_ehdr :: "(u64 \<Rightarrow> u8) \<Rightarrow> Elf64_Ehdr" where
  "read_ehdr m = \<lparr>e_ident = map (\<lambda>i. m (of_nat i)) [0 ..< 16], e_type = ucast (get_le 2 m 16), e_machine = ucast (get_le 2 m 18),
     e_version = ucast (get_le 4 m 20), e_entry = get_le 8 m 24, e_phoff = get_le 8 m 32, e_shoff = get_le 8 m 40,
     e_flags = ucast (get_le 4 m 48), e_ehsize = ucast (get_le 2 m 52), e_phentsize = ucast (get_le 2 m 54),
     e_phnum = ucast (get_le 2 m 56), e_shentsize = ucast (get_le 2 m 58), e_shnum = ucast (get_le 2 m 60),
     e_shstrndx = ucast (get_le 2 m 62)\<rparr>"

definition read_phdr :: "(u64 \<Rightarrow> u8) \<Rightarrow> u64 \<Rightarrow> Elf64_Phdr" where
  "read_phdr m a = \<lparr>p_type = ucast (get_le 4 m a), p_flags = ucast (get_le 4 m (a + 4)), p_offset = get_le 8 m (a + 8),
     p_vaddr = get_le 8 m (a + 16), p_paddr = get_le 8 m (a + 24), p_filesz = get_le 8 m (a + 32),
     p_memsz = get_le 8 m (a + 40), p_align = get_le 8 m (a + 48)\<rparr>"

record ElfLoader =
  m_KernelBase :: u64
  m_KernelSize :: u64
  m_EntryPoint :: u64

text \<open>The checks of the header, with the message of the first that fails.\<close>

definition ehdr_error :: "Elf64_Ehdr \<Rightarrow> (string \<times> fmt_arg list) option" where
  "ehdr_error h =
     (if take 4 (e_ident h) \<noteq> ELF_MAGIC then Some (''Error: Invalid ELF magic signature.\<newline>'', [])
      else if e_ident h ! 4 \<noteq> 2 then Some (''Error: Not a 64-bit ELF class.\<newline>'', [])
      else if e_ident h ! 5 \<noteq> 1 then Some (''Error: ELF file is not little-endian.\<newline>'', [])
      else if e_machine h \<noteq> EM_X86_64 then
        Some (''Error: ELF machine target is not x86-64 (got %d).\<newline>'', [ArgWord (ucast (e_machine h))])
      else if e_type h \<noteq> ET_EXEC \<and> e_type h \<noteq> ET_DYN then
        Some (''Error: ELF file type is not executable/shared (got %d).\<newline>'', [ArgWord (ucast (e_type h))])
      else None)"

definition store_read :: "u64 \<Rightarrow> u64 \<times> u8 list \<times> 'w Boot \<Rightarrow> u64 \<times> 'w Boot" where
  "store_read dest r = (case r of (n, data, s) \<Rightarrow> (n, s\<lparr>memory := store_bytes dest data (memory s)\<rparr>))"

text \<open>
  The body of the loop for the program header at address \<open>a\<close>. \<open>phdr\<close> is a reference into the
  pool buffer, so its fields are read again after every store.
\<close>

definition read_segment :: "'w Firmware \<Rightarrow> BootFile \<Rightarrow> u64 \<Rightarrow> 'w Boot \<Rightarrow> bool \<times> 'w Boot" where
  "read_segment fw f a s =
     (let p = read_phdr (memory s) a in
      if p_filesz p = 0 then (True, s)
      else
        let (_, s1) = File_SetPosition fw f (p_offset p) s;
            (n, s2) = store_read (p_vaddr p) (File_Read fw f (p_filesz p) s1);
            wanted = p_filesz (read_phdr (memory s2) a) in
        if n \<noteq> wanted then
          (False, say fw ''Error: Failed to read segment data (read %d of %d bytes).\<newline>'' [ArgWord n, ArgWord wanted] s2)
        else (True, s2))"

definition clear_bss :: "u64 \<Rightarrow> 'w Boot \<Rightarrow> 'w Boot" where
  "clear_bss a s =
     (let p = read_phdr (memory s) a in
      if p_memsz p > p_filesz p
      then s\<lparr>memory := zero_bytes (p_vaddr p + p_filesz p) (p_memsz p - p_filesz p) (memory s)\<rparr> else s)"

definition load_phdr ::
    "'w Firmware \<Rightarrow> BootFile \<Rightarrow> u64 \<Rightarrow> u64 \<times> u64 \<Rightarrow> 'w Boot \<Rightarrow> bool \<times> (u64 \<times> u64) \<times> 'w Boot" where
  "load_phdr fw f a bounds s =
     (let p = read_phdr (memory s) a in
      if p_type p \<noteq> PT_LOAD then (True, bounds, s)
      else
        let num_pages = (p_memsz p + 4095) div 4096;
            s1 = say fw ''Loading PT_LOAD segment: VAddr=%p, PhysAddr=%p, FileSz=%d, MemSz=%d, Pages=%d\<newline>''
                   [ArgWord (p_vaddr p), ArgWord (p_paddr p), ArgWord (p_filesz p), ArgWord (p_memsz p), ArgWord num_pages] s;
            (status, s2) = on_world (AllocatePages fw (p_vaddr p) num_pages) s1;
            s3 = (if status \<noteq> EFI_SUCCESS
                  then say fw ''Warning: AllocatePages at %p returned %x. Attempting direct load...\<newline>''
                         [ArgWord (p_vaddr p), ArgWord status] s2 else s2);
            (ok, s4) = read_segment fw f a s3 in
        if \<not> ok then (False, bounds, s4)
        else
          let s5 = clear_bss a s4; q = read_phdr (memory s5) a
          in (True, (min (p_vaddr q) (fst bounds), max (p_vaddr q + p_memsz q) (snd bounds)), s5))"

fun load_phdrs :: "'w Firmware \<Rightarrow> BootFile \<Rightarrow> u64 list \<Rightarrow> u64 \<times> u64 \<Rightarrow> 'w Boot \<Rightarrow> bool \<times> (u64 \<times> u64) \<times> 'w Boot" where
  "load_phdrs fw f [] bounds s = (True, bounds, s)"
| "load_phdrs fw f (a # as) bounds s =
     (let (ok, b, t) = load_phdr fw f a bounds s in if ok then load_phdrs fw f as b t else (False, b, t))"

text \<open>\<open>ehdr_garbage\<close> is what the stack holds where the header is read to.\<close>

definition ElfLoader_Load ::
    "'w Firmware \<Rightarrow> (u64 \<Rightarrow> u8) \<Rightarrow> BootFile \<Rightarrow> ElfLoader \<Rightarrow> 'w Boot \<Rightarrow> bool \<times> BootFile \<times> ElfLoader \<times> 'w Boot" where
  "ElfLoader_Load fw ehdr_garbage f0 l s0 =
     (let (opened, f, s1) = (if m_Handle f0 \<noteq> 0 then (True, f0, s0) else File_Open fw f0 s0) in
      if \<not> opened then (False, f, l, say fw ''Error: Failed to open ELF file.\<newline>'' [] s1)
      else
        let (_, s2) = File_SetPosition fw f 0 s1; (n, data, s3) = File_Read fw f sizeof_Ehdr s2 in
        if n \<noteq> sizeof_Ehdr then (False, f, l, say fw ''Error: Failed to read ELF64 header.\<newline>'' [] s3)
        else
          let ehdr = read_ehdr (store_bytes 0 data ehdr_garbage) in
          case ehdr_error ehdr of Some (msg, args) \<Rightarrow> (False, f, l, say fw msg args s3)
          | None \<Rightarrow>
              let l1 = l\<lparr>m_EntryPoint := e_entry ehdr\<rparr>;
                  phdrs_size = ucast (e_phnum ehdr) * sizeof_Phdr;
                  ((status, phdrs), s4) = on_world (\<lambda>w. let (a, b, w) = AllocatePool fw phdrs_size w in ((a, b), w)) s3 in
              if status \<noteq> EFI_SUCCESS \<or> phdrs = 0 then
                (False, f, l1, say fw ''Error: Failed to allocate pool for program headers (%x).\<newline>'' [ArgWord status] s4)
              else
                let (_, s5) = File_SetPosition fw f (e_phoff ehdr) s4;
                    (n, s6) = store_read phdrs (File_Read fw f phdrs_size s5) in
                if n \<noteq> phdrs_size then
                  (False, f, l1, do_world (FreePool fw phdrs) (say fw ''Error: Failed to read program headers.\<newline>'' [] s6))
                else
                  let (ok, (min_addr, max_addr), s7) =
                        load_phdrs fw f (map (\<lambda>i. phdrs + of_nat i * sizeof_Phdr) [0 ..< unat (e_phnum ehdr)])
                          (0xFFFFFFFFFFFFFFFF, 0) s6 in
                  if \<not> ok then (False, f, l1, do_world (FreePool fw phdrs) s7)
                  else (True, f, l1\<lparr>m_KernelBase := min_addr, m_KernelSize := max_addr - min_addr\<rparr>, do_world (FreePool fw phdrs) s7))"

end
