(* ===== verification/BootKernelImage.thy ===== *)
theory BootKernelImage
  imports BootLoader
begin

text \<open>
  \<^verbatim>\<open>bootloader/src/elf_loader.cpp\<close>: what \<open>ElfLoader::Load\<close> makes of a well-formed kernel image.
\<close>

subsection \<open>Files and images\<close>

text \<open>
  Reading a file of the boot volume, as the UEFI specification has it: a read of \<open>n\<close> bytes after
  the position was set to \<open>p\<close>, inside the file, succeeds with the bytes from \<open>p\<close> on, at most \<open>n\<close>.
\<close>

definition reads_file :: "'w Firmware \<Rightarrow> u64 \<Rightarrow> u8 list \<Rightarrow> bool" where
  "reads_file fw handle content \<longleftrightarrow> (\<forall>p n w. unat p \<le> length content \<longrightarrow>
     (case SetFilePosition fw handle p w of (_, w1) \<Rightarrow>
        case ReadFile fw handle n w1 of (status, data, _) \<Rightarrow>
          status = EFI_SUCCESS \<and> data = take (unat n) (drop (unat p) content)))"

definition gives_pool :: "'w Firmware \<Rightarrow> u64 \<Rightarrow> bool" where
  "gives_pool fw pool \<longleftrightarrow> pool \<noteq> 0 \<and>
     (\<forall>n w. case AllocatePool fw n w of (status, p, _) \<Rightarrow> status = EFI_SUCCESS \<and> p = pool)"

definition file_image :: "u8 list \<Rightarrow> (u64 \<Rightarrow> u8)" where
  "file_image content = store_bytes 0 content (\<lambda>_. 0)"

definition image_header :: "u8 list \<Rightarrow> Elf64_Ehdr" where
  "image_header content = read_ehdr (file_image content)"

definition image_programs :: "u8 list \<Rightarrow> Elf64_Phdr list" where
  "image_programs content = (let h = image_header content in
     map (\<lambda>i. read_phdr (file_image content) (e_phoff h + of_nat i * sizeof_Phdr)) [0 ..< unat (e_phnum h)])"

definition loads :: "Elf64_Phdr \<Rightarrow> bool" where
  "loads p \<longleftrightarrow> p_type p = PT_LOAD"

definition apart :: "nat \<Rightarrow> nat \<Rightarrow> nat \<Rightarrow> nat \<Rightarrow> bool" where
  "apart a n b k \<longleftrightarrow> a + n \<le> b \<or> b + k \<le> a"

text \<open>A segment that fits the file, does not wrap and stays clear of the pool buffer.\<close>

definition good_segment :: "nat \<Rightarrow> nat \<Rightarrow> nat \<Rightarrow> Elf64_Phdr \<Rightarrow> bool" where
  "good_segment file_size pool n p \<longleftrightarrow> p_filesz p \<le> p_memsz p \<and> unat (p_offset p) + unat (p_filesz p) \<le> file_size \<and>
     unat (p_vaddr p) + unat (p_memsz p) < 18446744073709551616 \<and> apart (unat (p_vaddr p)) (unat (p_memsz p)) pool n"

definition good_kernel :: "u8 list \<Rightarrow> u64 \<Rightarrow> bool" where
  "good_kernel content pool \<longleftrightarrow>
     (let h = image_header content; n = 56 * unat (e_phnum h); ls = filter loads (image_programs content) in
      64 \<le> length content \<and> length content < 18446744073709551616 \<and> ehdr_error h = None \<and>
      unat (e_phoff h) + n \<le> length content \<and> unat pool + n < 18446744073709551616 \<and> ls \<noteq> [] \<and>
      list_all (good_segment (length content) (unat pool) n) ls \<and>
      sorted_wrt (\<lambda>p q. apart (unat (p_vaddr p)) (unat (p_memsz p)) (unat (p_vaddr q)) (unat (p_memsz q))) ls)"

text \<open>What a segment is in memory: the bytes of the file, then zeros.\<close>

definition loaded :: "u8 list \<Rightarrow> Elf64_Phdr \<Rightarrow> (u64 \<Rightarrow> u8) \<Rightarrow> bool" where
  "loaded content p m \<longleftrightarrow> (\<forall>k < unat (p_memsz p). m (p_vaddr p + of_nat k) =
     (if k < unat (p_filesz p) then content ! (unat (p_offset p) + k) else 0))"

subsection \<open>Reading back what was stored\<close>

lemma read_phdr_cong:
  assumes "\<And>i. i < 56 \<Longrightarrow> m (a + of_nat i) = m' (b + of_nat i)"
  shows "read_phdr m a = read_phdr m' b"
proof -
  have "get_le n m (a + of_nat d) = get_le n m' (b + of_nat d)" if "n + d \<le> 56" for n d
    by (rule get_le_cong) (use that assms[of "d + _"] in \<open>simp add: add.assoc flip: of_nat_add\<close>)
  from this[of 4 0] this[of 4 4] this[of 8 8] this[of 8 16] this[of 8 24] this[of 8 32] this[of 8 40] this[of 8 48]
  show ?thesis by (simp add: read_phdr_def)
qed

lemma read_ehdr_cong:
  assumes "\<And>i. i < 64 \<Longrightarrow> m (of_nat i) = m' (of_nat i)"
  shows "read_ehdr m = read_ehdr m'"
proof -
  have "get_le n m (of_nat d) = get_le n m' (of_nat d)" if "n + d \<le> 64" for n d
    by (rule get_le_cong) (use that assms[of "d + _"] in \<open>simp flip: of_nat_add\<close>)
  from this[of 2 16] this[of 2 18] this[of 4 20] this[of 8 24] this[of 8 32] this[of 8 40] this[of 4 48] this[of 2 52]
    this[of 2 54] this[of 2 56] this[of 2 58] this[of 2 60] this[of 2 62]
  have "read_ehdr m = read_ehdr m'\<lparr>e_ident := map (\<lambda>i. m (of_nat i)) [0 ..< 16]\<rparr>" by (simp add: read_ehdr_def)
  also have "map (\<lambda>i. m (of_nat i)) [0 ..< 16] = map (\<lambda>i. m' (of_nat i)) [0 ..< 16]" using assms by simp
  finally show ?thesis by (simp add: read_ehdr_def)
qed

lemma offset_of_nat: "k < 18446744073709551616 \<Longrightarrow> unat (a + of_nat k - a :: u64) = k"
  by (simp add: unat_of_nat_u64)

lemma file_image_at: "k < length bs \<Longrightarrow> length bs < 18446744073709551616 \<Longrightarrow> file_image bs (of_nat k) = bs ! k"
  using store_bytes_at[of k bs 0] by (simp add: file_image_def)

text \<open>Two ranges that are apart have no address in common.\<close>

lemma apart_address:
  assumes "apart (unat a) n (unat b) k" "unat a + n < 18446744073709551616" "unat b + k < 18446744073709551616" "j < k"
  shows "\<not> unat (b + of_nat j - a :: u64) < n"
proof -
  have "unat (b + of_nat j) = unat b + j" using assms(3,4) by (simp add: unat_word_ariths unat_of_nat_u64)
  then show ?thesis
    using assms(1,2,4) u64_lt[of a] by (auto simp: apart_def unat_sub_if_size word_size split: if_splits)
qed

subsection \<open>Loading one segment\<close>

definition segment_memory :: "u8 list \<Rightarrow> Elf64_Phdr \<Rightarrow> (u64 \<Rightarrow> u8) \<Rightarrow> (u64 \<Rightarrow> u8)" where
  "segment_memory content p m = (\<lambda>x. let k = unat (x - p_vaddr p) in
     if k < unat (p_filesz p) then content ! (unat (p_offset p) + k) else if k < unat (p_memsz p) then 0 else m x)"

lemma segment_memory_inside:
  assumes "k < unat (p_memsz p)"
  shows "segment_memory content p m (p_vaddr p + of_nat k) =
    (if k < unat (p_filesz p) then content ! (unat (p_offset p) + k) else 0)"
proof -
  have "k < 18446744073709551616" using assms u64_lt[of "p_memsz p"] by simp
  then show ?thesis using assms by (simp add: segment_memory_def Let_def unat_of_nat_u64)
qed

lemma segment_memory_outside:
  "p_filesz p \<le> p_memsz p \<Longrightarrow> \<not> unat (x - p_vaddr p) < unat (p_memsz p) \<Longrightarrow> segment_memory content p m x = m x"
  by (simp add: segment_memory_def word_le_nat_alt)

text \<open>The program headers in the pool buffer.\<close>

definition table_at :: "u8 list \<Rightarrow> nat \<Rightarrow> nat \<Rightarrow> u64 \<Rightarrow> (u64 \<Rightarrow> u8) \<Rightarrow> bool" where
  "table_at content off n pool m \<longleftrightarrow> (\<forall>j < n. m (pool + of_nat j) = content ! (off + j))"

lemma table_at_segment:
  assumes "table_at content off n pool m" "good_segment file_size (unat pool) n p" "unat pool + n < 18446744073709551616"
  shows "table_at content off n pool (segment_memory content p m)"
  using assms apart_address[of "p_vaddr p" "unat (p_memsz p)" pool n]
  by (auto simp: table_at_def good_segment_def segment_memory_outside)

lemma table_at_phdr:
  assumes "table_at content off n pool m" "56 * Suc i \<le> n" "n < 18446744073709551616" "off + n \<le> length content"
    "length content < 18446744073709551616"
  shows "read_phdr m (pool + of_nat i * sizeof_Phdr) = read_phdr (file_image content) (of_nat off + of_nat i * sizeof_Phdr)"
proof (rule read_phdr_cong)
  fix k :: nat assume k: "k < 56"
  have e: "pool + of_nat i * sizeof_Phdr + of_nat k = pool + of_nat (i * 56 + k)"
    "of_nat off + of_nat i * sizeof_Phdr + of_nat k = (of_nat (off + (i * 56 + k)) :: u64)"
    by (simp_all add: sizeof_Phdr_def)
  then show "m (pool + of_nat i * sizeof_Phdr + of_nat k) =
      file_image content (of_nat off + of_nat i * sizeof_Phdr + of_nat k)"
    unfolding e using assms k file_image_at[of "off + (i * 56 + k)" content] by (simp add: table_at_def del: of_nat_add of_nat_mult)
qed

lemma say_memory [simp]: "memory (say fw f as s) = memory s"
  by (simp add: say_def do_world_def)

lemma on_world_memory: "on_world f s = (r, t) \<Longrightarrow> memory t = memory s"
  by (auto simp: on_world_def split: prod.splits)

lemma read_after_seek:
  assumes "reads_file fw (m_Handle f) content" "m_Handle f \<noteq> 0" "unat p \<le> length content" "length content < 18446744073709551616"
    "File_SetPosition fw f p s = (ok, s1)" "File_Read fw f n s1 = (k, data, s2)"
  shows "data = take (unat n) (drop (unat p) content)" "unat k = length data" "memory s2 = memory s"
proof -
  obtain st1 w1 where 1: "SetFilePosition fw (m_Handle f) p (world s) = (st1, w1)" by fastforce
  obtain st2 d w2 where 2: "ReadFile fw (m_Handle f) n w1 = (st2, d, w2)" by (cases "ReadFile fw (m_Handle f) n w1") auto
  have d: "st2 = EFI_SUCCESS" "d = take (unat n) (drop (unat p) content)"
    using assms(1)[unfolded reads_file_def, rule_format, OF assms(3), of n "world s"] by (simp_all add: 1 2)
  have s1: "s1 = s\<lparr>world := w1\<rparr>" using assms(2,5) 1 by (auto simp: File_SetPosition_def on_world_def)
  then have "data = d" "s2 = s1\<lparr>world := w2\<rparr>" "k = of_nat (length d)"
    using assms(2,6) 2 d(1) by (auto simp: File_Read_def on_world_def)
  moreover have "length d < 18446744073709551616" using d(2) assms(4) by simp
  ultimately show "data = take (unat n) (drop (unat p) content)" "unat k = length data" "memory s2 = memory s"
    using d(2) s1 by (simp_all add: unat_of_nat_u64)
qed

lemma read_segment_good:
  assumes F: "reads_file fw (m_Handle f) content" "m_Handle f \<noteq> 0" "length content < 18446744073709551616"
    and p: "read_phdr (memory s) a = p" "good_segment (length content) pool n p"
    and kept: "\<And>m'. (\<And>x. \<not> unat (x - p_vaddr p) < unat (p_memsz p) \<Longrightarrow> m' x = memory s x) \<Longrightarrow> read_phdr m' a = p"
  obtains t where "read_segment fw f a s = (True, t)"
    "\<And>x. memory t x = (if unat (x - p_vaddr p) < unat (p_filesz p)
       then content ! (unat (p_offset p) + unat (x - p_vaddr p)) else memory s x)"
proof (cases "p_filesz p = 0")
  case True
  then show ?thesis using that[of s] p(1) by (simp add: read_segment_def)
next
  case False
  obtain ok s1 where 1: "File_SetPosition fw f (p_offset p) s = (ok, s1)" by fastforce
  obtain k data s2 where 2: "File_Read fw f (p_filesz p) s1 = (k, data, s2)" by (cases "File_Read fw f (p_filesz p) s1") auto
  have off: "unat (p_offset p) \<le> length content" using p(2) by (simp add: good_segment_def)
  note r = read_after_seek[OF F(1,2) off F(3) 1 2]
  have len: "length data = unat (p_filesz p)" using r(1) p(2) by (auto simp: good_segment_def min_def)
  let ?t = "s2\<lparr>memory := store_bytes (p_vaddr p) data (memory s2)\<rparr>"
  have mem: "memory ?t x = (if unat (x - p_vaddr p) < unat (p_filesz p)
       then content ! (unat (p_offset p) + unat (x - p_vaddr p)) else memory s x)" for x
    using r(1,3) len off by (simp add: store_bytes_def)
  have "read_phdr (memory ?t) a = p"
  proof (rule kept)
    fix x assume "\<not> unat (x - p_vaddr p) < unat (p_memsz p)"
    then show "memory ?t x = memory s x" using mem[of x] p(2) by (simp add: good_segment_def word_le_nat_alt)
  qed
  moreover have "k = p_filesz p" using r(2) len by (simp add: word_unat_eq_iff)
  ultimately have "read_segment fw f a s = (True, ?t)"
    using False by (simp add: read_segment_def p(1) 1 2 store_read_def)
  then show ?thesis using that[of ?t] mem by blast
qed

lemma above_in_range:
  "f < m \<Longrightarrow> unat (d - f) < unat (m - f) \<longleftrightarrow> \<not> unat d < unat f \<and> unat d < unat (m :: u64)"
  using u64_lt[of d] u64_lt[of m]
  by (auto simp: unat_sub_if_size word_size word_less_nat_alt word_le_nat_alt)

lemma clear_bss_good:
  assumes "read_phdr (memory s) a = p" "p_filesz p \<le> p_memsz p"
  shows "memory (clear_bss a s) x = (if unat (x - p_vaddr p) < unat (p_filesz p) then memory s x
    else if unat (x - p_vaddr p) < unat (p_memsz p) then 0 else memory s x)"
proof -
  have "x - (p_vaddr p + p_filesz p) = x - p_vaddr p - p_filesz p" by simp
  then have "p_filesz p < p_memsz p \<Longrightarrow> unat (x - (p_vaddr p + p_filesz p)) < unat (p_memsz p - p_filesz p) \<longleftrightarrow>
      \<not> unat (x - p_vaddr p) < unat (p_filesz p) \<and> unat (x - p_vaddr p) < unat (p_memsz p)"
    by (simp only: above_in_range)
  then show ?thesis using assms by (auto simp: clear_bss_def Let_def zero_bytes_def word_less_nat_alt word_le_nat_alt)
qed


lemma table_kept:
  assumes "table_at content off n pool m" "good_segment file_size (unat pool) n p" "unat pool + n < 18446744073709551616"
    "\<And>x. \<not> unat (x - p_vaddr p) < unat (p_memsz p) \<Longrightarrow> m' x = m x"
  shows "table_at content off n pool m'"
  using assms apart_address[of "p_vaddr p" "unat (p_memsz p)" pool n] by (auto simp: table_at_def good_segment_def)

lemma load_phdr_good:
  assumes F: "reads_file fw (m_Handle f) content" "m_Handle f \<noteq> 0" "length content < 18446744073709551616"
    and T: "table_at content off n pool (memory s)" "56 * Suc i \<le> n" "off + n \<le> length content"
      "unat pool + n < 18446744073709551616"
    and p: "p = read_phdr (file_image content) (of_nat off + of_nat i * sizeof_Phdr)"
      "loads p" "good_segment (length content) (unat pool) n p"
  obtains t where "load_phdr fw f (pool + of_nat i * sizeof_Phdr) b s =
      (True, (min (p_vaddr p) (fst b), max (p_vaddr p + p_memsz p) (snd b)), t)"
    "memory t = segment_memory content p (memory s)"
proof -
  let ?a = "pool + of_nat i * sizeof_Phdr"
  have table: "read_phdr m ?a = p" if "table_at content off n pool m" for m
    using table_at_phdr[OF that T(2) _ T(3) F(3)] T(4) p(1) by simp
  have kept: "read_phdr m' ?a = p" if "\<And>x. \<not> unat (x - p_vaddr p) < unat (p_memsz p) \<Longrightarrow> m' x = memory s x" for m'
    by (rule table) (use table_kept[OF T(1) p(3) T(4)] that in blast)
  have p0: "read_phdr (memory s) ?a = p" by (rule table[OF T(1)])
  define pages where "pages = (p_memsz p + 4095) div 4096"
  define s1 where "s1 = say fw ''Loading PT_LOAD segment: VAddr=%p, PhysAddr=%p, FileSz=%d, MemSz=%d, Pages=%d\<newline>''
    [ArgWord (p_vaddr p), ArgWord (p_paddr p), ArgWord (p_filesz p), ArgWord (p_memsz p), ArgWord pages] s"
  obtain status s2 where 2: "on_world (AllocatePages fw (p_vaddr p) pages) s1 = (status, s2)" by fastforce
  define s3 where "s3 = (if status \<noteq> EFI_SUCCESS
    then say fw ''Warning: AllocatePages at %p returned %x. Attempting direct load...\<newline>''
      [ArgWord (p_vaddr p), ArgWord status] s2 else s2)"
  have m3: "memory s3 = memory s" using on_world_memory[OF 2] by (simp add: s3_def s1_def)
  obtain t where t: "read_segment fw f ?a s3 = (True, t)"
    "\<And>x. memory t x = (if unat (x - p_vaddr p) < unat (p_filesz p)
       then content ! (unat (p_offset p) + unat (x - p_vaddr p)) else memory s x)"
    using read_segment_good[OF F, of s3 ?a p "unat pool" n] p0 p(3) kept unfolding m3 by blast
  have le: "p_filesz p \<le> p_memsz p" using p(3) by (simp add: good_segment_def)
  have pt: "read_phdr (memory t) ?a = p" by (rule kept) (use le in \<open>simp add: t(2) word_le_nat_alt\<close>)
  have seg: "memory (clear_bss ?a t) = segment_memory content p (memory s)"
    using le by (rule_tac ext) (simp add: clear_bss_good[OF pt le] t(2) segment_memory_def Let_def)
  have "read_phdr (memory (clear_bss ?a t)) ?a = p"
    unfolding seg by (rule kept) (simp add: segment_memory_outside le)
  moreover have "p_type p = PT_LOAD" using p(2) by (simp add: loads_def)
  ultimately have "load_phdr fw f ?a b s =
      (True, (min (p_vaddr p) (fst b), max (p_vaddr p + p_memsz p) (snd b)), clear_bss ?a t)"
    unfolding load_phdr_def Let_def p0 pages_def[symmetric] s1_def[symmetric]
    by (simp add: 2 s3_def[symmetric] t(1) del: split_paired_Ex)
  then show ?thesis using that seg by blast
qed

subsection \<open>The whole image\<close>

definition place_all :: "u8 list \<Rightarrow> Elf64_Phdr list \<Rightarrow> (u64 \<Rightarrow> u8) \<Rightarrow> (u64 \<Rightarrow> u8)" where
  "place_all content ps m = fold (segment_memory content) ps m"

definition bounds_of :: "Elf64_Phdr list \<Rightarrow> u64 \<times> u64 \<Rightarrow> u64 \<times> u64" where
  "bounds_of ps b = fold (\<lambda>p b. (min (p_vaddr p) (fst b), max (p_vaddr p + p_memsz p) (snd b))) ps b"

lemma load_phdr_skip: "\<not> loads (read_phdr (memory s) a) \<Longrightarrow> load_phdr fw f a b s = (True, b, s)"
  by (simp add: load_phdr_def loads_def)

lemma load_phdrs_good:
  assumes F: "reads_file fw (m_Handle f) content" "m_Handle f \<noteq> 0" "length content < 18446744073709551616"
    and n: "off + n \<le> length content" "unat pool + n < 18446744073709551616"
  shows "table_at content off n pool (memory s) \<Longrightarrow> (\<And>i. i \<in> set is \<Longrightarrow> 56 * Suc i \<le> n) \<Longrightarrow>
    ps = filter loads (map (\<lambda>i. read_phdr (file_image content) (of_nat off + of_nat i * sizeof_Phdr)) is) \<Longrightarrow>
    list_all (good_segment (length content) (unat pool) n) ps \<Longrightarrow>
    \<exists>t. load_phdrs fw f (map (\<lambda>i. pool + of_nat i * sizeof_Phdr) is) b s = (True, bounds_of ps b, t) \<and>
        memory t = place_all content ps (memory s)"
proof (induction "is" arbitrary: ps b s)
  case Nil
  then show ?case by (simp add: bounds_of_def place_all_def)
next
  case (Cons i "is")
  let ?p = "read_phdr (file_image content) (of_nat off + of_nat i * sizeof_Phdr)"
  let ?ps = "filter loads (map (\<lambda>i. read_phdr (file_image content) (of_nat off + of_nat i * sizeof_Phdr)) is)"
  have i: "56 * Suc i \<le> n" using Cons.prems(2) by simp
  show ?case
  proof (cases "loads ?p")
    case True
    then have ps: "ps = ?p # ?ps" and good: "good_segment (length content) (unat pool) n ?p"
      using Cons.prems(3,4) by simp_all
    obtain t where t: "load_phdr fw f (pool + of_nat i * sizeof_Phdr) b s =
        (True, (min (p_vaddr ?p) (fst b), max (p_vaddr ?p + p_memsz ?p) (snd b)), t)"
      "memory t = segment_memory content ?p (memory s)"
      using load_phdr_good[OF F Cons.prems(1) i n refl True good] by blast
    have "table_at content off n pool (memory t)"
      unfolding t(2) by (rule table_at_segment[OF Cons.prems(1) good n(2)])
    from Cons.IH[OF this _ refl, of "(min (p_vaddr ?p) (fst b), max (p_vaddr ?p + p_memsz ?p) (snd b))"]
    show ?thesis using Cons.prems(2,4) unfolding ps
      by (fastforce simp: t bounds_of_def place_all_def)
  next
    case False
    have "read_phdr (memory s) (pool + of_nat i * sizeof_Phdr) = ?p"
      using table_at_phdr[OF Cons.prems(1) i _ n(1) F(3)] n(2) by simp
    then have "load_phdr fw f (pool + of_nat i * sizeof_Phdr) b s = (True, b, s)" using load_phdr_skip False by metis
    moreover have "ps = ?ps" using Cons.prems(3) False by simp
    ultimately show ?thesis using Cons.IH[OF Cons.prems(1) _ refl, of b] Cons.prems(2,4) by simp
  qed
qed

lemma place_all_outside:
  "list_all (\<lambda>p. p_filesz p \<le> p_memsz p) ps \<Longrightarrow> list_all (\<lambda>p. \<not> unat (x - p_vaddr p) < unat (p_memsz p)) ps \<Longrightarrow>
    place_all content ps m x = m x"
  by (induction ps arbitrary: m) (simp_all add: place_all_def segment_memory_outside)

lemma place_all_loaded:
  assumes "list_all (good_segment n pool k) ps"
    "sorted_wrt (\<lambda>p q. apart (unat (p_vaddr p)) (unat (p_memsz p)) (unat (p_vaddr q)) (unat (p_memsz q))) ps" "p \<in> set ps"
  shows "loaded content p (place_all content ps m)"
  using assms
proof (induction ps arbitrary: m)
  case (Cons q ps)
  show ?case
  proof (cases "p \<in> set ps")
    case True
    then show ?thesis using Cons by (simp add: place_all_def)
  next
    case False
    then have q: "p = q" using Cons.prems(3) by simp
    have "place_all content ps m' (p_vaddr q + of_nat j) = m' (p_vaddr q + of_nat j)"
      if j: "j < unat (p_memsz q)" for j m'
    proof (rule place_all_outside)
      show "list_all (\<lambda>p. p_filesz p \<le> p_memsz p) ps" using Cons.prems(1) by (auto simp: list_all_iff good_segment_def)
      have "\<not> unat (p_vaddr q + of_nat j - p_vaddr r) < unat (p_memsz r)" if r: "r \<in> set ps" for r
        by (rule apart_address[of _ _ "p_vaddr q" "unat (p_memsz q)"])
          (use Cons.prems r j in \<open>auto simp: list_all_iff good_segment_def apart_def\<close>)
      then show "list_all (\<lambda>p. \<not> unat (p_vaddr q + of_nat j - p_vaddr p) < unat (p_memsz p)) ps"
        by (simp add: list_all_iff)
    qed
    then show ?thesis by (simp add: q loaded_def place_all_def segment_memory_inside)
  qed
qed simp

lemma bounds_of_fold: "bounds_of ps (a, b) = (fold min (map p_vaddr ps) a, fold max (map (\<lambda>p. p_vaddr p + p_memsz p) ps) b)"
  by (induction ps arbitrary: a b) (simp_all add: bounds_of_def)

lemma bounds_of_extremes:
  assumes "ps \<noteq> []"
  shows "bounds_of ps (0xFFFFFFFFFFFFFFFF, 0) =
    (Min (set (map p_vaddr ps)), Max (set (map (\<lambda>p. p_vaddr p + p_memsz p) ps)))"
proof -
  have top: "a \<le> (0xFFFFFFFFFFFFFFFF :: u64)" for a using u64_lt[of a] by (simp add: word_le_nat_alt)
  have "fold min xs (0xFFFFFFFFFFFFFFFF :: u64) = Min (set xs)" "fold max xs (0 :: u64) = Max (set xs)" if "xs \<noteq> []" for xs
    using that Min.set_eq_fold[of "0xFFFFFFFFFFFFFFFF" xs] Max.set_eq_fold[of 0 xs]
    by (simp_all add: Min_insert Max_insert min_absorb2[OF top] max_absorb2)
  then show ?thesis using assms by (simp add: bounds_of_fold)
qed

text \<open>
  The image in memory: every loadable segment is there, and nothing else changed but the pool
  buffer.
\<close>

definition in_memory :: "u8 list \<Rightarrow> u64 \<Rightarrow> (u64 \<Rightarrow> u8) \<Rightarrow> (u64 \<Rightarrow> u8) \<Rightarrow> bool" where
  "in_memory content pool m m' \<longleftrightarrow>
     (let ps = filter loads (image_programs content); n = 56 * unat (e_phnum (image_header content)) in
      list_all (\<lambda>p. loaded content p m') ps \<and>
      (\<forall>x. \<not> unat (x - pool) < n \<longrightarrow> list_all (\<lambda>p. \<not> unat (x - p_vaddr p) < unat (p_memsz p)) ps \<longrightarrow> m' x = m x))"

lemma read_after_seek_result:
  assumes "reads_file fw (m_Handle f) content" "m_Handle f \<noteq> 0" "unat p + unat n \<le> length content"
    "length content < 18446744073709551616"
  obtains ok s1 s2 where "File_SetPosition fw f p s = (ok, s1)"
    "File_Read fw f n s1 = (n, take (unat n) (drop (unat p) content), s2)" "memory s2 = memory s"
proof -
  obtain ok s1 where 1: "File_SetPosition fw f p s = (ok, s1)" by fastforce
  obtain k data s2 where 2: "File_Read fw f n s1 = (k, data, s2)" by (cases "File_Read fw f n s1") auto
  have "unat p \<le> length content" using assms(3) by simp
  note r = read_after_seek[OF assms(1,2) this assms(4) 1 2]
  have "k = n" using r(1,2) assms(3) by (simp add: word_unat_eq_iff)
  then show ?thesis using that 1 2 r(1,3) by simp
qed

lemma phdrs_size_nat: "unat (ucast (k :: u16) * sizeof_Phdr) = 56 * unat k"
proof -
  have "unat k < 65536" using unsigned_less[of k] by simp
  then show ?thesis by (simp add: sizeof_Phdr_def unat_word_ariths unsigned_ucast_eq take_bit_eq_mod)
qed

lemma header_read:
  assumes "64 \<le> length content" "length content < 18446744073709551616"
  shows "read_ehdr (store_bytes 0 (take 64 content) garbage) = image_header content"
  unfolding image_header_def
proof (rule read_ehdr_cong)
  fix i :: nat assume "i < 64"
  then show "store_bytes 0 (take 64 content) garbage (of_nat i) = file_image content (of_nat i)"
    using assms store_bytes_at[of i "take 64 content" 0 garbage] by (simp add: file_image_at)
qed

lemma kernel_image_in_memory:
  assumes F: "reads_file fw (m_Handle f) content" "m_Handle f \<noteq> 0" and P: "gives_pool fw pool" and K: "good_kernel content pool"
  shows "case ElfLoader_Load fw garbage f l s of (ok, f', l', t) \<Rightarrow>
    ok \<and> f' = f \<and> in_memory content pool (memory s) (memory t) \<and>
    (let ps = filter loads (image_programs content); base = Min (set (map p_vaddr ps)) in
     l' = \<lparr>m_KernelBase = base, m_KernelSize = Max (set (map (\<lambda>p. p_vaddr p + p_memsz p) ps)) - base,
           m_EntryPoint = e_entry (image_header content)\<rparr>)"
proof -
  define h where "h = image_header content"
  define n where "n = 56 * unat (e_phnum h)"
  define ps where "ps = filter loads (image_programs content)"
  have k: "64 \<le> length content" "length content < 18446744073709551616" "ehdr_error h = None"
      "unat (e_phoff h) + n \<le> length content" "unat pool + n < 18446744073709551616" "ps \<noteq> []"
      "list_all (good_segment (length content) (unat pool) n) ps"
      "sorted_wrt (\<lambda>p q. apart (unat (p_vaddr p)) (unat (p_memsz p)) (unat (p_vaddr q)) (unat (p_memsz q))) ps"
    using K by (simp_all add: good_kernel_def Let_def h_def n_def ps_def)
  have u: "unat sizeof_Ehdr = 64" by (simp add: sizeof_Ehdr_def)
  obtain ok s2 s3 where 1: "File_SetPosition fw f 0 s = (ok, s2)"
    "File_Read fw f sizeof_Ehdr s2 = (sizeof_Ehdr, take 64 content, s3)" "memory s3 = memory s"
    using read_after_seek_result[OF F, of 0 sizeof_Ehdr s] k(1,2) by (auto simp: u)
  have hd: "read_ehdr (store_bytes 0 (take 64 content) garbage) = h" using header_read[OF k(1,2)] by (simp add: h_def)
  let ?size = "ucast (e_phnum h) * sizeof_Phdr"
  have size: "unat ?size = n" by (simp add: phdrs_size_nat n_def)
  obtain w4 where w4: "AllocatePool fw ?size (world s3) = (EFI_SUCCESS, pool, w4)"
    using P[unfolded gives_pool_def, THEN conjunct2, rule_format, of ?size "world s3"]
    by (cases "AllocatePool fw ?size (world s3)") auto
  define s4 where "s4 = s3\<lparr>world := w4\<rparr>"
  have 2: "on_world (\<lambda>w. let (a, b, w) = AllocatePool fw ?size w in ((a, b), w)) s3 = ((EFI_SUCCESS, pool), s4)"
    by (simp add: on_world_def w4 s4_def)
  obtain ok' s5 s6 where 3: "File_SetPosition fw f (e_phoff h) s4 = (ok', s5)"
    "File_Read fw f ?size s5 = (?size, take n (drop (unat (e_phoff h)) content), s6)" "memory s6 = memory s4"
    using read_after_seek_result[OF F, of "e_phoff h" ?size s4] k(2,4) by (auto simp: size)
  have m6: "memory s6 = memory s" using 3(3) 1(3) on_world_memory[OF 2] by simp
  define bs where "bs = take n (drop (unat (e_phoff h)) content)"
  define s7 where "s7 = s6\<lparr>memory := store_bytes pool bs (memory s6)\<rparr>"
  have bs: "length bs = n" using k(4) by (simp add: bs_def)
  have table: "table_at content (unat (e_phoff h)) n pool (memory s7)"
    using bs k(4,5) store_bytes_at[of _ bs pool] by (auto simp: table_at_def s7_def bs_def)
  have ps: "ps = filter loads (map (\<lambda>i. read_phdr (file_image content) (of_nat (unat (e_phoff h)) + of_nat i * sizeof_Phdr))
      [0 ..< unat (e_phnum h)])"
    by (simp add: ps_def image_programs_def Let_def h_def)
  obtain t where t: "load_phdrs fw f (map (\<lambda>i. pool + of_nat i * sizeof_Phdr) [0 ..< unat (e_phnum h)])
      (0xFFFFFFFFFFFFFFFF, 0) s7 = (True, bounds_of ps (0xFFFFFFFFFFFFFFFF, 0), t)"
    "memory t = place_all content ps (memory s7)"
    using load_phdrs_good[OF F k(2,4,5) table _ ps k(7), of "(0xFFFFFFFFFFFFFFFF, 0)"] by (auto simp: n_def)
  have "in_memory content pool (memory s) (memory t)"
    unfolding in_memory_def Let_def h_def[symmetric] n_def[symmetric] ps_def[symmetric]
  proof (intro conjI allI impI)
    show "list_all (\<lambda>p. loaded content p (memory t)) ps" using place_all_loaded[OF k(7,8)] by (simp add: t(2) list_all_iff)
    fix x assume x: "\<not> unat (x - pool) < n" "list_all (\<lambda>p. \<not> unat (x - p_vaddr p) < unat (p_memsz p)) ps"
    have "list_all (\<lambda>p. p_filesz p \<le> p_memsz p) ps" using k(7) by (auto simp: list_all_iff good_segment_def)
    from place_all_outside[OF this x(2)] x(1) show "memory t x = memory s x"
      by (simp add: t(2) s7_def m6 store_bytes_def bs)
  qed
  moreover have "pool \<noteq> 0" using P by (simp add: gives_pool_def)
  ultimately show ?thesis
    unfolding ElfLoader_Load_def Let_def ps_def[symmetric] h_def[symmetric]
    by (simp add: F(2) 1(1,2) hd k(3) on_world_def w4 s4_def[symmetric] 3(1,2) store_read_def t(1) bs_def[symmetric] s7_def[symmetric]
      bounds_of_extremes[OF k(6)] do_world_def)
qed

text \<open>C1. Given a file that reads back its bytes and memory for the program headers, a well-formed
  kernel image whose segments fit the file and stay clear of each other and of the headers is
  loaded: \<open>ElfLoader::Load\<close> returns true, the entry point is that of the header, every loadable
  segment is in memory with its tail zeroed, no other byte outside the pool buffer changed, and
  base and size span the loadable segments.\<close>
theorem kernel_image_loaded:
  assumes F: "reads_file fw (m_Handle f) content" "m_Handle f \<noteq> 0" and P: "gives_pool fw pool" and K: "good_kernel content pool"
  shows "case ElfLoader_Load fw garbage f l s of (ok, f', l', t) \<Rightarrow>
    ok \<and> f' = f \<and> in_memory content pool (memory s) (memory t) \<and>
    (let ps = filter loads (image_programs content); base = Min (set (map p_vaddr ps)) in
     l' = \<lparr>m_KernelBase = base, m_KernelSize = Max (set (map (\<lambda>p. p_vaddr p + p_memsz p) ps)) - base,
           m_EntryPoint = e_entry (image_header content)\<rparr>)"
  using assms by (rule kernel_image_in_memory)

text \<open>A kernel of three bytes and thirteen zeroed ones behind a header that is not loaded.\<close>

definition tiny_kernel :: "u8 list" where
  "tiny_kernel = [
     127, 69, 76, 70, 2, 1, 1, 0, 0, 0, 0, 0, 0, 0, 0, 0, 2, 0, 62, 0, 1, 0, 0, 0, 0, 0, 32, 0, 0, 0, 0, 0,
     64, 0, 0, 0, 0, 0, 0, 0, 0, 0, 0, 0, 0, 0, 0, 0, 0, 0, 0, 0, 64, 0, 56, 0, 2, 0, 0, 0, 0, 0, 0, 0, 81,
     229, 116, 100, 6, 0, 0, 0, 0, 0, 0, 0, 0, 0, 0, 0, 0, 0, 0, 0, 0, 0, 0, 0, 0, 0, 0, 0, 0, 0, 0, 0, 0, 0,
     0, 0, 0, 0, 0, 0, 0, 0, 0, 0, 0, 0, 0, 0, 16, 0, 0, 0, 0, 0, 0, 0, 1, 0, 0, 0, 7, 0, 0, 0, 176, 0, 0, 0,
     0, 0, 0, 0, 0, 0, 32, 0, 0, 0, 0, 0, 0, 0, 32, 0, 0, 0, 0, 0, 3, 0, 0, 0, 0, 0, 0, 0, 16, 0, 0, 0, 0, 0,
     0, 0, 0, 16, 0, 0, 0, 0, 0, 0, 170, 187, 204]"

definition tiny_screen :: GopMode where
  "tiny_screen = \<lparr>MaxMode = 0, Mode = 0,
     Info = Some \<lparr>HorizontalResolution = 2, VerticalResolution = 2, PixelFormat = 1, RedMask = 0, GreenMask = 0, BlueMask = 0,
       PixelsPerScanLine = 2\<rparr>, FrameBufferBase = 0x300000, FrameBufferSize = 16\<rparr>"

definition disk_firmware :: "u8 list \<Rightarrow> u64 \<Rightarrow> u64 Firmware" where
  "disk_firmware content pool = \<lparr>has_console = False, OutputString = \<lambda>_ w. w, SetAttribute = \<lambda>_ w. w, ClearScreen = \<lambda>w. w,
     AllocatePages = \<lambda>_ _ w. (0, w), AllocatePool = \<lambda>_ w. (0, pool, w), FreePool = \<lambda>_ w. w,
     GetMemoryMap = \<lambda>_ a w. (0, a, [], w), ExitBootServices = \<lambda>_ w. (0, w), LoadedImage = \<lambda>w. (0, Some 1, w),
     FileSystemProtocol = \<lambda>_ w. (0, 2, w), OpenVolume = \<lambda>_ w. (0, 3, w), OpenFile = \<lambda>_ _ w. (0, 4, w), CloseFile = \<lambda>_ w. w,
     FileInfo = \<lambda>_ w. (0, of_nat (length content), w),
     ReadFile = \<lambda>_ n w. (0, take (unat n) (drop (unat w) content), w + n),
     SetFilePosition = \<lambda>_ p w. (0, p), has_stall = False, Stall = \<lambda>_ w. w, has_locate_protocol = True,
     LocateGop = \<lambda>w. (0, 5, w), gop_has_mode = \<lambda>_. True, gop_mode = \<lambda>_. tiny_screen,
     QueryMode = \<lambda>_ w. (EFI_DEVICE_ERROR, None, w), SetMode = \<lambda>_ w. (0, w), cpuid = \<lambda>_. (0, 0, 0, 0),
     GetTime = \<lambda>w. (0, \<lparr>Year = 2026, Month = 1, Day = 2, Hour = 3, Minute = 4, Second = 5\<rparr>, w),
     ConfigurationTable = [], system_table = 0x1000, runtime_services = 0x2000\<rparr>"

lemma disk_firmware_reads: "reads_file (disk_firmware content pool) handle content"
  by (simp add: reads_file_def disk_firmware_def EFI_SUCCESS_def)

lemma disk_firmware_pool: "pool \<noteq> 0 \<Longrightarrow> gives_pool (disk_firmware content pool) pool"
  by (simp add: gives_pool_def disk_firmware_def EFI_SUCCESS_def)

definition le_list :: "u8 list \<Rightarrow> u64" where
  "le_list bs = foldr (\<lambda>b v. ucast b OR push_bit 8 v) bs 0"

lemma le_list_bit: "bit (le_list bs) k \<longleftrightarrow> k < 64 \<and> k div 8 < length bs \<and> bit (bs ! (k div 8)) (k mod 8)"
proof (induction bs arbitrary: k)
  case (Cons b bs)
  have IH: "bit (foldr (\<lambda>b v. ucast b OR push_bit 8 v) bs (0 :: u64)) (k - 8) \<longleftrightarrow>
      k - 8 < 64 \<and> (k - 8) div 8 < length bs \<and> bit (bs ! ((k - 8) div 8)) ((k - 8) mod 8)"
    using Cons[of "k - 8"] by (simp add: le_list_def)
  show ?case
  proof (cases "k < 8")
    case True
    then show ?thesis by (simp add: le_list_def bit_or_iff bit_push_bit_iff bit_ucast_iff)
  next
    case False
    then have "k div 8 = Suc ((k - 8) div 8)" "k mod 8 = (k - 8) mod 8" by (simp_all add: le_div_geq le_mod_geq)
    moreover have "\<not> bit b k" using False bit_imp_le_length[of b k] by auto
    ultimately show ?thesis using False IH by (auto simp: le_list_def bit_or_iff bit_push_bit_iff bit_ucast_iff)
  qed
qed (simp add: le_list_def)

lemma get_le_image:
  assumes "unat a + n \<le> length bs" "n \<le> 8" "length bs < 18446744073709551616"
  shows "get_le n (file_image bs) a = le_list (take n (drop (unat a) bs))"
proof (rule bit_word_eqI)
  fix k
  have "file_image bs (a + of_nat (k div 8)) = bs ! (unat a + k div 8)" if "k div 8 < n"
    using file_image_at[of "unat a + k div 8" bs] assms(1,3) that by simp
  then show "bit (get_le n (file_image bs) a) k \<longleftrightarrow> bit (le_list (take n (drop (unat a) bs))) k"
    using assms by (auto simp: get_le_bit le_list_bit less_mult_imp_div_less div_less_iff_less_mult mult.commute)
qed

lemma tiny_kernel_length: "length tiny_kernel = 179"
  by (simp add: tiny_kernel_def)

lemmas tiny_reads = get_le_image tiny_kernel_length le_list_def

lemma tiny_kernel_header: "image_header tiny_kernel = \<lparr>e_ident = [127, 69, 76, 70, 2, 1, 1, 0, 0, 0, 0, 0, 0, 0, 0, 0],
    e_type = 2, e_machine = 62, e_version = 1, e_entry = 0x200000, e_phoff = 64, e_shoff = 0, e_flags = 0, e_ehsize = 64,
    e_phentsize = 56, e_phnum = 2, e_shentsize = 0, e_shnum = 0, e_shstrndx = 0\<rparr>"
proof -
  have "map (\<lambda>i. file_image tiny_kernel (of_nat i)) [0 ..< 16] = map (\<lambda>i. tiny_kernel ! i) [0 ..< 16]"
    by (simp add: file_image_at tiny_kernel_length del: upt_rec_numeral)
  also have "\<dots> = [127, 69, 76, 70, 2, 1, 1, 0, 0, 0, 0, 0, 0, 0, 0, 0]"
    by (simp add: tiny_kernel_def upt_rec)
  finally show ?thesis
    unfolding image_header_def read_ehdr_def by (simp add: tiny_reads del: upt_rec_numeral) (simp add: tiny_kernel_def)
qed

lemma tiny_kernel_programs: "image_programs tiny_kernel = [
    \<lparr>p_type = 0x6474e551, p_flags = 6, p_offset = 0, p_vaddr = 0, p_paddr = 0, p_filesz = 0, p_memsz = 0, p_align = 16\<rparr>,
    \<lparr>p_type = 1, p_flags = 7, p_offset = 176, p_vaddr = 0x200000, p_paddr = 0x200000, p_filesz = 3, p_memsz = 16, p_align = 4096\<rparr>]"
  unfolding image_programs_def tiny_kernel_header read_phdr_def
  by (simp add: tiny_reads sizeof_Phdr_def upt_rec) (simp add: tiny_kernel_def)

lemma tiny_kernel_good: "good_kernel tiny_kernel 0x100000"
  by (simp add: good_kernel_def tiny_kernel_header tiny_kernel_programs tiny_kernel_length ehdr_error_def ELF_MAGIC_def
      EM_X86_64_def ET_EXEC_def ET_DYN_def loads_def PT_LOAD_def good_segment_def apart_def)

theorem kernel_image_loaded_witness:
  "\<forall>garbage l s. case ElfLoader_Load (disk_firmware tiny_kernel 0x100000) garbage
      \<lparr>m_Path = [], m_Handle = 4, m_OwnsHandle = True\<rparr> l s of (ok, f', l', t) \<Rightarrow>
    ok \<and> in_memory tiny_kernel 0x100000 (memory s) (memory t)"
  using kernel_image_loaded[OF disk_firmware_reads _ disk_firmware_pool tiny_kernel_good,
      of "\<lparr>m_Path = [], m_Handle = 4, m_OwnsHandle = True\<rparr>"]
  by (fastforce split: prod.splits)

end
