(* ===== verification/BootGraphics.thy ===== *)
theory BootGraphics
  imports BootLoader
begin

text \<open>
  \<^verbatim>\<open>bootloader/src/framebuffer.cpp\<close>: choice of the graphics mode and drawing. The pixels are in
  the physical memory, four bytes each; the index of a pixel is computed in 32 bits.
\<close>

subsection \<open>Modes\<close>

definition PixelRedGreenBlueReserved8BitPerColor :: u32 where "PixelRedGreenBlueReserved8BitPerColor = 0"
definition PixelBlueGreenRedReserved8BitPerColor :: u32 where "PixelBlueGreenRedReserved8BitPerColor = 1"
definition PixelBitMask :: u32 where "PixelBitMask = 2"
definition PixelBltOnly :: u32 where "PixelBltOnly = 3"

lemmas pixel_formats = PixelRedGreenBlueReserved8BitPerColor_def PixelBlueGreenRedReserved8BitPerColor_def
  PixelBitMask_def PixelBltOnly_def

definition NormalizePixelFormat :: "ModeInfo \<Rightarrow> u32 option" where
  "NormalizePixelFormat i =
     (if PixelFormat i = PixelBlueGreenRedReserved8BitPerColor \<or> PixelFormat i = PixelRedGreenBlueReserved8BitPerColor
      then Some (PixelFormat i)
      else if PixelFormat i \<noteq> PixelBitMask then None
      else if RedMask i = 0x00FF0000 \<and> GreenMask i = 0x0000FF00 \<and> BlueMask i = 0x000000FF
      then Some PixelBlueGreenRedReserved8BitPerColor
      else if RedMask i = 0x000000FF \<and> GreenMask i = 0x0000FF00 \<and> BlueMask i = 0x00FF0000
      then Some PixelRedGreenBlueReserved8BitPerColor
      else None)"

record Framebuffer =
  m_BaseAddress :: u64
  m_Width :: u32
  m_Height :: u32
  m_PixelsPerScanLine :: u32
  m_PixelFormat :: u32
  m_LastStatus :: u64

definition Framebuffer_new :: Framebuffer where
  "Framebuffer_new = \<lparr>m_BaseAddress = 0, m_Width = 0, m_Height = 0, m_PixelsPerScanLine = 0, m_PixelFormat = 0, m_LastStatus = EFI_SUCCESS\<rparr>"

definition mode_pixels :: "ModeInfo \<Rightarrow> u64" where
  "mode_pixels i = ucast (HorizontalResolution i) * ucast (VerticalResolution i)"

definition usable_mode :: "ModeInfo \<Rightarrow> bool" where
  "usable_mode i \<longleftrightarrow> NormalizePixelFormat i \<noteq> None \<and> PixelsPerScanLine i \<ge> HorizontalResolution i"

text \<open>The search over the modes, from \<open>mode\<close> on; \<open>best\<close> is the mode found so far and its pixels.\<close>

lemma mode_closer: "(mode :: u32) < n \<Longrightarrow> 4294967296 - unat (mode + 1) < 4294967296 - unat mode"
  using u32_lt[of n] by (simp add: word_less_nat_alt unat_word_ariths)

function best_mode :: "'w Firmware \<Rightarrow> u32 \<Rightarrow> u32 \<times> u64 \<Rightarrow> 'w \<Rightarrow> (u32 \<times> u64) \<times> 'w" where
  "best_mode fw mode best w =
     (if mode < MaxMode (gop_mode fw w) then
        let (status, r, w1) = QueryMode fw mode w in
        case (if status \<noteq> EFI_SUCCESS then None else r) of
          None \<Rightarrow> best_mode fw (mode + 1) best w1
        | Some (p, i) \<Rightarrow>
            best_mode fw (mode + 1) (if usable_mode i \<and> mode_pixels i > snd best then (mode, mode_pixels i) else best) (FreePool fw p w1)
      else (best, w))"
  by pat_completeness auto
termination
  by (relation "measure (\<lambda>(_, mode, _, _). 4294967296 - unat mode)") (auto dest: mode_closer)

declare best_mode.simps [simp del]

definition Framebuffer_Init :: "'w Firmware \<Rightarrow> Framebuffer \<Rightarrow> 'w Boot \<Rightarrow> bool \<times> Framebuffer \<times> 'w Boot" where
  "Framebuffer_Init fw fb s =
     (let ((status, gop), s1) = (if has_locate_protocol fw then on_world (\<lambda>w. let (a, b, w) = LocateGop fw w in ((a, b), w)) s
                                 else ((EFI_UNSUPPORTED, 0), s));
          fb1 = fb\<lparr>m_LastStatus := status\<rparr> in
      if status \<noteq> EFI_SUCCESS \<or> gop = 0 \<or> \<not> gop_has_mode fw (world s1) then (False, fb1, s1)
      else
        let ((best, _), s2) = on_world (best_mode fw 0 (Mode (gop_mode fw (world s1)), 0)) s1;
            (status, fb2, s3) =
              (if best \<noteq> Mode (gop_mode fw (world s2)) then
                 let (status, s3) = on_world (SetMode fw best) s2 in (status, fb1\<lparr>m_LastStatus := status\<rparr>, s3)
               else (EFI_SUCCESS, fb1, s2));
            m = gop_mode fw (world s3) in
        if status \<noteq> EFI_SUCCESS then (False, fb2, s3)
        else
          case Info m of None \<Rightarrow> (False, fb2, s3)
          | Some i \<Rightarrow>
              if FrameBufferBase m = 0 \<or> FrameBufferSize m = 0 then (False, fb2, s3)
              else
                case NormalizePixelFormat i of None \<Rightarrow> (False, fb2, s3)
                | Some format \<Rightarrow>
                    if PixelsPerScanLine i < HorizontalResolution i then (False, fb2, s3)
                    else
                      (True, fb2\<lparr>m_BaseAddress := FrameBufferBase m, m_Width := HorizontalResolution i,
                         m_Height := VerticalResolution i, m_PixelsPerScanLine := PixelsPerScanLine i, m_PixelFormat := format\<rparr>, s3))"

subsection \<open>Drawing\<close>

definition Framebuffer_ConvertColor :: "Framebuffer \<Rightarrow> u32 \<Rightarrow> u32" where
  "Framebuffer_ConvertColor fb color =
     (let red = drop_bit 16 color AND 0xFF; green = drop_bit 8 color AND 0xFF; blue = color AND 0xFF in
      if m_PixelFormat fb = PixelRedGreenBlueReserved8BitPerColor
      then red OR push_bit 8 green OR push_bit 16 blue
      else blue OR push_bit 8 green OR push_bit 16 red)"

definition GetPixelFormatName :: "Framebuffer \<Rightarrow> string" where
  "GetPixelFormatName fb =
     (if m_PixelFormat fb = PixelRedGreenBlueReserved8BitPerColor then ''RGBx''
      else if m_PixelFormat fb = PixelBlueGreenRedReserved8BitPerColor then ''BGRx''
      else if m_PixelFormat fb = PixelBitMask then ''BitMask''
      else if m_PixelFormat fb = PixelBltOnly then ''BltOnly'' else ''Unknown'')"

text \<open>\<open>fb[i] = v\<close> for the pointer to the base of the frame buffer.\<close>

definition set_pixel :: "Framebuffer \<Rightarrow> u64 \<Rightarrow> u32 \<Rightarrow> (u64 \<Rightarrow> u8) \<Rightarrow> (u64 \<Rightarrow> u8)" where
  "set_pixel fb i v m = put_le 4 (m_BaseAddress fb + 4 * i) (ucast v) m"

definition pixel_index :: "Framebuffer \<Rightarrow> u32 \<Rightarrow> u32 \<Rightarrow> u64" where
  "pixel_index fb x y = ucast (y * m_PixelsPerScanLine fb + x)"

definition Framebuffer_DrawPixel :: "Framebuffer \<Rightarrow> u32 \<Rightarrow> u32 \<Rightarrow> u32 \<Rightarrow> (u64 \<Rightarrow> u8) \<Rightarrow> (u64 \<Rightarrow> u8)" where
  "Framebuffer_DrawPixel fb x y color m =
     (if x \<ge> m_Width fb \<or> y \<ge> m_Height fb then m else set_pixel fb (pixel_index fb x y) (Framebuffer_ConvertColor fb color) m)"

text \<open>The values a counter takes in \<open>for (c = a; c < b && c < limit; c++)\<close>.\<close>

definition counter_values :: "u32 \<Rightarrow> u32 \<Rightarrow> u32 \<Rightarrow> u32 list" where
  "counter_values a b limit = map of_nat [unat a ..< min (unat b) (unat limit)]"

definition Framebuffer_DrawRectangle :: "Framebuffer \<Rightarrow> u32 \<Rightarrow> u32 \<Rightarrow> u32 \<Rightarrow> u32 \<Rightarrow> u32 \<Rightarrow> (u64 \<Rightarrow> u8) \<Rightarrow> (u64 \<Rightarrow> u8)" where
  "Framebuffer_DrawRectangle fb x y w h color m =
     foldl (\<lambda>m cy. foldl (\<lambda>m cx. set_pixel fb (pixel_index fb cx cy) (Framebuffer_ConvertColor fb color) m) m
                    (counter_values x (x + w) (m_Width fb)))
       m (counter_values y (y + h) (m_Height fb))"

definition Framebuffer_Fill :: "Framebuffer \<Rightarrow> u32 \<Rightarrow> (u64 \<Rightarrow> u8) \<Rightarrow> (u64 \<Rightarrow> u8)" where
  "Framebuffer_Fill fb color m =
     foldl (\<lambda>m i. set_pixel fb (of_nat i) (Framebuffer_ConvertColor fb color) m) m [0 ..< unat (m_Height fb) * unat (m_PixelsPerScanLine fb)]"

definition Framebuffer_Clear :: "Framebuffer \<Rightarrow> (u64 \<Rightarrow> u8) \<Rightarrow> (u64 \<Rightarrow> u8)" where
  "Framebuffer_Clear fb = Framebuffer_Fill fb 0"

definition font8x8_basic :: "u8 list list" where
  "font8x8_basic = [
    [0, 0, 0, 0, 0, 0, 0, 0],
    [0, 0, 0, 0, 0, 0, 0, 0],
    [0, 0, 0, 0, 0, 0, 0, 0],
    [0, 0, 0, 0, 0, 0, 0, 0],
    [0, 0, 0, 0, 0, 0, 0, 0],
    [0, 0, 0, 0, 0, 0, 0, 0],
    [0, 0, 0, 0, 0, 0, 0, 0],
    [0, 0, 0, 0, 0, 0, 0, 0],
    [0, 0, 0, 0, 0, 0, 0, 0],
    [0, 0, 0, 0, 0, 0, 0, 0],
    [0, 0, 0, 0, 0, 0, 0, 0],
    [0, 0, 0, 0, 0, 0, 0, 0],
    [0, 0, 0, 0, 0, 0, 0, 0],
    [0, 0, 0, 0, 0, 0, 0, 0],
    [0, 0, 0, 0, 0, 0, 0, 0],
    [0, 0, 0, 0, 0, 0, 0, 0],
    [0, 0, 0, 0, 0, 0, 0, 0],
    [0, 0, 0, 0, 0, 0, 0, 0],
    [0, 0, 0, 0, 0, 0, 0, 0],
    [0, 0, 0, 0, 0, 0, 0, 0],
    [0, 0, 0, 0, 0, 0, 0, 0],
    [0, 0, 0, 0, 0, 0, 0, 0],
    [0, 0, 0, 0, 0, 0, 0, 0],
    [0, 0, 0, 0, 0, 0, 0, 0],
    [0, 0, 0, 0, 0, 0, 0, 0],
    [0, 0, 0, 0, 0, 0, 0, 0],
    [0, 0, 0, 0, 0, 0, 0, 0],
    [0, 0, 0, 0, 0, 0, 0, 0],
    [0, 0, 0, 0, 0, 0, 0, 0],
    [0, 0, 0, 0, 0, 0, 0, 0],
    [0, 0, 0, 0, 0, 0, 0, 0],
    [0, 0, 0, 0, 0, 0, 0, 0],
    [0, 0, 0, 0, 0, 0, 0, 0],
    [24, 24, 24, 24, 0, 0, 24, 0],
    [54, 54, 0, 0, 0, 0, 0, 0],
    [54, 127, 54, 54, 127, 54, 54, 0],
    [24, 62, 96, 60, 6, 124, 24, 0],
    [0, 102, 48, 24, 12, 102, 0, 0],
    [56, 108, 56, 118, 220, 204, 118, 0],
    [24, 24, 24, 0, 0, 0, 0, 0],
    [12, 24, 48, 48, 48, 24, 12, 0],
    [48, 24, 12, 12, 12, 24, 48, 0],
    [0, 102, 60, 255, 60, 102, 0, 0],
    [0, 24, 24, 126, 24, 24, 0, 0],
    [0, 0, 0, 0, 24, 24, 8, 16],
    [0, 0, 0, 126, 0, 0, 0, 0],
    [0, 0, 0, 0, 0, 24, 24, 0],
    [0, 3, 6, 12, 24, 48, 96, 0],
    [60, 102, 110, 118, 102, 102, 60, 0],
    [24, 28, 24, 24, 24, 24, 126, 0],
    [62, 102, 6, 28, 48, 98, 126, 0],
    [62, 102, 6, 30, 6, 102, 62, 0],
    [6, 14, 30, 54, 126, 6, 6, 0],
    [126, 96, 124, 6, 6, 102, 60, 0],
    [28, 48, 96, 124, 102, 102, 60, 0],
    [126, 102, 6, 12, 24, 24, 24, 0],
    [60, 102, 102, 60, 102, 102, 60, 0],
    [60, 102, 102, 62, 6, 12, 56, 0],
    [0, 24, 24, 0, 0, 24, 24, 0],
    [0, 24, 24, 0, 24, 24, 8, 16],
    [12, 24, 48, 96, 48, 24, 12, 0],
    [0, 126, 0, 126, 0, 0, 0, 0],
    [48, 24, 12, 6, 12, 24, 48, 0],
    [60, 102, 6, 12, 24, 0, 24, 0],
    [60, 102, 110, 110, 96, 98, 60, 0],
    [24, 60, 102, 102, 126, 102, 102, 0],
    [124, 102, 102, 124, 102, 102, 124, 0],
    [62, 102, 96, 96, 96, 102, 62, 0],
    [120, 108, 102, 102, 102, 108, 120, 0],
    [126, 96, 96, 120, 96, 96, 126, 0],
    [126, 96, 96, 120, 96, 96, 96, 0],
    [60, 102, 96, 110, 102, 102, 62, 0],
    [102, 102, 102, 126, 102, 102, 102, 0],
    [126, 24, 24, 24, 24, 24, 126, 0],
    [6, 6, 6, 6, 102, 102, 60, 0],
    [102, 108, 120, 112, 120, 108, 102, 0],
    [96, 96, 96, 96, 96, 96, 126, 0],
    [99, 119, 127, 107, 99, 99, 99, 0],
    [102, 102, 118, 126, 110, 102, 102, 0],
    [60, 102, 102, 102, 102, 102, 60, 0],
    [124, 102, 102, 124, 96, 96, 96, 0],
    [60, 102, 102, 102, 102, 60, 14, 0],
    [124, 102, 102, 124, 120, 108, 102, 0],
    [62, 102, 96, 60, 6, 102, 60, 0],
    [126, 24, 24, 24, 24, 24, 24, 0],
    [102, 102, 102, 102, 102, 102, 60, 0],
    [102, 102, 102, 102, 102, 60, 24, 0],
    [99, 99, 99, 107, 127, 119, 99, 0],
    [102, 102, 60, 24, 60, 102, 102, 0],
    [102, 102, 102, 60, 24, 24, 24, 0],
    [126, 6, 12, 24, 48, 96, 126, 0],
    [60, 48, 48, 48, 48, 48, 60, 0],
    [0, 96, 48, 24, 12, 6, 3, 0],
    [60, 12, 12, 12, 12, 12, 60, 0],
    [8, 28, 54, 99, 0, 0, 0, 0],
    [0, 0, 0, 0, 0, 0, 255, 0],
    [24, 24, 12, 0, 0, 0, 0, 0],
    [0, 0, 60, 6, 62, 102, 59, 0],
    [96, 96, 124, 102, 102, 102, 124, 0],
    [0, 0, 60, 102, 96, 102, 60, 0],
    [6, 6, 62, 102, 102, 102, 62, 0],
    [0, 0, 60, 102, 126, 96, 60, 0],
    [28, 48, 124, 48, 48, 48, 48, 0],
    [0, 0, 62, 102, 102, 62, 6, 60],
    [96, 96, 124, 102, 102, 102, 102, 0],
    [24, 0, 56, 24, 24, 24, 60, 0],
    [6, 0, 14, 6, 6, 6, 6, 60],
    [96, 96, 102, 108, 120, 108, 102, 0],
    [56, 24, 24, 24, 24, 24, 60, 0],
    [0, 0, 110, 127, 107, 99, 99, 0],
    [0, 0, 124, 102, 102, 102, 102, 0],
    [0, 0, 60, 102, 102, 102, 60, 0],
    [0, 0, 124, 102, 102, 124, 96, 96],
    [0, 0, 62, 102, 102, 62, 6, 6],
    [0, 0, 124, 102, 96, 96, 96, 0],
    [0, 0, 62, 96, 60, 6, 124, 0],
    [24, 24, 126, 24, 24, 24, 13, 6],
    [0, 0, 102, 102, 102, 102, 59, 0],
    [0, 0, 102, 102, 102, 60, 24, 0],
    [0, 0, 99, 107, 127, 54, 34, 0],
    [0, 0, 102, 60, 24, 60, 102, 0],
    [0, 0, 102, 102, 102, 62, 6, 60],
    [0, 0, 126, 12, 24, 48, 126, 0],
    [14, 24, 24, 112, 24, 24, 14, 0],
    [24, 24, 24, 0, 24, 24, 24, 0],
    [112, 24, 24, 14, 24, 24, 112, 0],
    [118, 220, 0, 0, 0, 0, 0, 0],
    [0, 0, 0, 0, 0, 0, 0, 0]]"

definition draw_dot :: "Framebuffer \<Rightarrow> u32 \<Rightarrow> u32 \<Rightarrow> u32 \<Rightarrow> nat \<Rightarrow> nat \<Rightarrow> (u64 \<Rightarrow> u8) \<Rightarrow> (u64 \<Rightarrow> u8)" where
  "draw_dot fb x y color gx gy m =
     (let px = x + of_nat gx * 2; py = y + of_nat gy * 2 in
      Framebuffer_DrawPixel fb (px + 1) (py + 1) color (Framebuffer_DrawPixel fb px (py + 1) color
        (Framebuffer_DrawPixel fb (px + 1) py color (Framebuffer_DrawPixel fb px py color m))))"

definition Framebuffer_DrawChar :: "Framebuffer \<Rightarrow> u32 \<Rightarrow> u32 \<Rightarrow> char \<Rightarrow> u32 \<Rightarrow> (u64 \<Rightarrow> u8) \<Rightarrow> (u64 \<Rightarrow> u8)" where
  "Framebuffer_DrawChar fb x y c color m =
     (let code = of_char c :: nat in
      if code \<ge> 128 then m
      else
        foldl (\<lambda>m gy. foldl (\<lambda>m gx. if bit (font8x8_basic ! code ! gy) (7 - gx) then draw_dot fb x y color gx gy m else m) m [0 ..< 8])
          m [0 ..< 8])"

fun draw_chars :: "Framebuffer \<Rightarrow> u32 \<Rightarrow> u32 \<Rightarrow> u32 \<Rightarrow> string \<Rightarrow> u32 \<Rightarrow> (u64 \<Rightarrow> u8) \<Rightarrow> (u64 \<Rightarrow> u8)" where
  "draw_chars fb x cx y [] color m = m"
| "draw_chars fb x cx y (c # cs) color m =
     (if c = CHR 0x0A then draw_chars fb x x (y + 20) cs color m
      else draw_chars fb x (cx + 18) y cs color (Framebuffer_DrawChar fb cx y c color m))"

definition Framebuffer_DrawString :: "Framebuffer \<Rightarrow> u32 \<Rightarrow> u32 \<Rightarrow> string \<Rightarrow> u32 \<Rightarrow> (u64 \<Rightarrow> u8) \<Rightarrow> (u64 \<Rightarrow> u8)" where
  "Framebuffer_DrawString fb x y str color m = draw_chars fb x x y str color m"

subsection \<open>Drawing stays inside the frame buffer\<close>

definition on_screen :: "Framebuffer \<Rightarrow> u64 \<Rightarrow> bool" where
  "on_screen fb a \<longleftrightarrow> unat (a - m_BaseAddress fb) < 4 * (unat (m_Height fb) * unat (m_PixelsPerScanLine fb))"

definition same_off_screen :: "Framebuffer \<Rightarrow> (u64 \<Rightarrow> u8) \<Rightarrow> (u64 \<Rightarrow> u8) \<Rightarrow> bool" where
  "same_off_screen fb m m' \<longleftrightarrow> (\<forall>a. on_screen fb a \<or> m' a = m a)"

lemma same_off_screen_refl [simp, intro]: "same_off_screen fb m m"
  by (simp add: same_off_screen_def)

lemma same_off_screen_trans: "same_off_screen fb m m1 \<Longrightarrow> same_off_screen fb m1 m2 \<Longrightarrow> same_off_screen fb m m2"
  unfolding same_off_screen_def by metis

lemma same_off_screen_foldl:
  "(\<And>m x. x \<in> set xs \<Longrightarrow> same_off_screen fb m (f m x)) \<Longrightarrow> same_off_screen fb m (foldl f m xs)"
proof (induction xs arbitrary: m)
  case (Cons x xs)
  have "same_off_screen fb m (f m x)" by (rule Cons.prems) simp
  moreover have "same_off_screen fb (f m x) (foldl f (f m x) xs)" by (rule Cons.IH) (use Cons.prems in simp)
  ultimately show ?case using same_off_screen_trans by simp
qed simp

lemma set_pixel_contained:
  assumes "unat i < unat (m_Height fb) * unat (m_PixelsPerScanLine fb)"
  shows "same_off_screen fb m (set_pixel fb i v m)"
  unfolding same_off_screen_def
proof
  fix a
  let ?d = "a - (m_BaseAddress fb + 4 * i)"
  have "on_screen fb a" if k: "unat ?d < 4"
  proof -
    have "unat (4 * i + ?d) = (4 * unat i + unat ?d) mod 18446744073709551616"
      by (simp only: unat_word_ariths) (simp add: mod_simps)
    also have "4 * i + ?d = a - m_BaseAddress fb" by simp
    finally have "unat (a - m_BaseAddress fb) \<le> 4 * unat i + unat ?d" by simp
    then show ?thesis using k assms by (simp add: on_screen_def)
  qed
  then show "on_screen fb a \<or> set_pixel fb i v m a = m a" by (auto simp: set_pixel_def put_le_at)
qed

lemma pixel_index_contained:
  assumes "x < m_Width fb" "y < m_Height fb" "m_Width fb \<le> m_PixelsPerScanLine fb"
  shows "unat (pixel_index fb x y) < unat (m_Height fb) * unat (m_PixelsPerScanLine fb)"
proof -
  let ?p = "unat (m_PixelsPerScanLine fb)"
  have "unat (pixel_index fb x y) = (unat y * ?p + unat x) mod 4294967296"
    by (simp add: pixel_index_def unsigned_ucast_eq unat_word_ariths take_bit_eq_mod mod_simps)
  also have "\<dots> \<le> unat y * ?p + unat x" by simp
  also have "\<dots> < (unat y + 1) * ?p" using assms by (simp add: word_less_nat_alt word_le_nat_alt)
  also have "\<dots> \<le> unat (m_Height fb) * ?p" using assms(2) by (intro mult_le_mono1) (simp add: word_less_nat_alt)
  finally show ?thesis .
qed

lemma Framebuffer_DrawPixel_contained:
  "m_Width fb \<le> m_PixelsPerScanLine fb \<Longrightarrow> same_off_screen fb m (Framebuffer_DrawPixel fb x y color m)"
  unfolding Framebuffer_DrawPixel_def using set_pixel_contained[OF pixel_index_contained] by (auto simp: not_le)

lemma draw_dot_contained:
  "m_Width fb \<le> m_PixelsPerScanLine fb \<Longrightarrow> same_off_screen fb m (draw_dot fb x y color gx gy m)"
  unfolding draw_dot_def Let_def by (meson Framebuffer_DrawPixel_contained same_off_screen_trans)

lemma DrawChar_contained:
  "m_Width fb \<le> m_PixelsPerScanLine fb \<Longrightarrow> same_off_screen fb m (Framebuffer_DrawChar fb x y c color m)"
  unfolding Framebuffer_DrawChar_def Let_def
  by (auto intro!: same_off_screen_foldl simp: draw_dot_contained)

lemma DrawString_contained:
  "m_Width fb \<le> m_PixelsPerScanLine fb \<Longrightarrow> same_off_screen fb m (draw_chars fb x cx y str color m)"
proof (induction fb x cx y str color m rule: draw_chars.induct)
  case (2 fb x cx y c cs color m)
  then show ?case using DrawChar_contained same_off_screen_trans by (fastforce)
qed simp

lemma counter_values_below: "c \<in> set (counter_values a b limit) \<Longrightarrow> c < limit"
  by (auto simp: counter_values_def word_less_nat_alt unat_of_nat take_bit_eq_mod intro: le_less_trans[OF mod_less_eq_dividend])

lemma Framebuffer_DrawRectangle_contained:
  "m_Width fb \<le> m_PixelsPerScanLine fb \<Longrightarrow> same_off_screen fb m (Framebuffer_DrawRectangle fb x y w h color m)"
  unfolding Framebuffer_DrawRectangle_def
  by (intro same_off_screen_foldl set_pixel_contained pixel_index_contained) (auto dest: counter_values_below)

lemma Fill_contained: "same_off_screen fb m (Framebuffer_Fill fb color m)"
proof -
  have "unat (m_Height fb) * unat (m_PixelsPerScanLine fb) < 4294967296 * 4294967296"
    using unsigned_less[of "m_Height fb"] unsigned_less[of "m_PixelsPerScanLine fb"] by (intro mult_strict_mono) simp_all
  then show ?thesis unfolding Framebuffer_Fill_def
    by (intro same_off_screen_foldl set_pixel_contained) (auto simp: unat_of_nat_u64)
qed

text \<open>
  C1. Whatever is drawn, with any coordinates, sizes and texts, no byte outside the frame buffer's
  \<open>height * pixels per scan line\<close> pixels changes, once a scan line is as long as a row: the
  32-bit index arithmetic may wrap, but it never leaves the frame buffer.
\<close>

theorem drawing_contained:
  assumes "m_Width fb \<le> m_PixelsPerScanLine fb"
  shows "same_off_screen fb m (Framebuffer_DrawPixel fb x y color m) \<and> same_off_screen fb m (Framebuffer_DrawRectangle fb x y w h color m) \<and>
    same_off_screen fb m (Framebuffer_Fill fb color m) \<and> same_off_screen fb m (Framebuffer_DrawString fb x y str color m)"
  using assms by (simp add: Framebuffer_DrawString_def Framebuffer_DrawPixel_contained Framebuffer_DrawRectangle_contained Fill_contained DrawString_contained)

subsection \<open>The mode chosen\<close>

text \<open>
  A graphics output protocol as the UEFI specification has it: the modes are numbered from 0 and
  can be queried, setting one makes it current, its information is that of the current mode.
\<close>

definition gop_at :: "'w Firmware \<Rightarrow> ModeInfo list \<Rightarrow> 'w \<Rightarrow> bool" where
  "gop_at fw modes w \<longleftrightarrow>
     (case LocateGop fw w of (status, gop, w1) \<Rightarrow> status = EFI_SUCCESS \<and> gop \<noteq> 0) \<and> gop_has_mode fw w \<and>
     unat (MaxMode (gop_mode fw w)) = length modes \<and> unat (Mode (gop_mode fw w)) < length modes \<and>
     Info (gop_mode fw w) = Some (modes ! unat (Mode (gop_mode fw w))) \<and>
     FrameBufferBase (gop_mode fw w) \<noteq> 0 \<and> FrameBufferSize (gop_mode fw w) \<noteq> 0"

definition gop_mode_at :: "'w Firmware \<Rightarrow> ModeInfo list \<Rightarrow> 'w \<Rightarrow> u32 \<Rightarrow> bool" where
  "gop_mode_at fw modes w k \<longleftrightarrow>
     (case QueryMode fw k w of (status, r, w1) \<Rightarrow> status = EFI_SUCCESS \<and> map_option snd r = Some (modes ! unat k)) \<and>
     (case SetMode fw k w of (status, w1) \<Rightarrow> status = EFI_SUCCESS \<and> Mode (gop_mode fw w1) = k)"

definition standard_gop :: "'w Firmware \<Rightarrow> ModeInfo list \<Rightarrow> bool" where
  "standard_gop fw modes \<longleftrightarrow> length modes < 4294967296 \<and> has_locate_protocol fw \<and>
     (\<forall>w. gop_at fw modes w \<and> (\<forall>k. unat k < length modes \<longrightarrow> gop_mode_at fw modes w k))"

definition best_so_far :: "ModeInfo list \<Rightarrow> nat \<Rightarrow> u32 \<times> u64 \<Rightarrow> bool" where
  "best_so_far modes n best \<longleftrightarrow>
     (\<forall>i < n. usable_mode (modes ! i) \<longrightarrow> mode_pixels (modes ! i) \<le> snd best) \<and>
     (snd best \<noteq> 0 \<longrightarrow> unat (fst best) < n \<and> usable_mode (modes ! unat (fst best)) \<and>
        mode_pixels (modes ! unat (fst best)) = snd best)"

lemma standard_gopD:
  assumes "standard_gop fw modes"
  shows "unat (MaxMode (gop_mode fw w)) = length modes" "unat (Mode (gop_mode fw w)) < length modes"
    "Info (gop_mode fw w) = Some (modes ! unat (Mode (gop_mode fw w)))" "FrameBufferBase (gop_mode fw w) \<noteq> 0"
    "FrameBufferSize (gop_mode fw w) \<noteq> 0" "gop_has_mode fw w"
proof -
  have "gop_at fw modes w" using assms by (simp add: standard_gop_def)
  then show "unat (MaxMode (gop_mode fw w)) = length modes" "unat (Mode (gop_mode fw w)) < length modes"
    "Info (gop_mode fw w) = Some (modes ! unat (Mode (gop_mode fw w)))" "FrameBufferBase (gop_mode fw w) \<noteq> 0"
    "FrameBufferSize (gop_mode fw w) \<noteq> 0" "gop_has_mode fw w" by (simp_all add: gop_at_def)
qed

lemma standard_query:
  assumes "standard_gop fw modes" "unat k < length modes"
  obtains p w1 where "QueryMode fw k w = (EFI_SUCCESS, Some (p, modes ! unat k), w1)"
proof -
  have "gop_mode_at fw modes w k" using assms by (simp add: standard_gop_def)
  then show ?thesis using that by (cases "QueryMode fw k w") (auto simp: gop_mode_at_def)
qed

lemma standard_set:
  assumes "standard_gop fw modes" "unat k < length modes"
  obtains w1 where "SetMode fw k w = (EFI_SUCCESS, w1)" "Mode (gop_mode fw w1) = k"
proof -
  have "gop_mode_at fw modes w k" using assms by (simp add: standard_gop_def)
  then show ?thesis using that by (cases "SetMode fw k w") (auto simp: gop_mode_at_def)
qed

lemma standard_locate:
  assumes "standard_gop fw modes"
  obtains g w1 where "LocateGop fw w = (EFI_SUCCESS, g, w1)" "g \<noteq> 0"
proof -
  have "gop_at fw modes w" using assms by (simp add: standard_gop_def)
  then show ?thesis using that by (cases "LocateGop fw w") (auto simp: gop_at_def)
qed

lemma best_so_far_step:
  assumes "best_so_far modes n best" "unat mode = n"
  shows "best_so_far modes (Suc n) (if usable_mode (modes ! n) \<and> mode_pixels (modes ! n) > snd best
    then (mode, mode_pixels (modes ! n)) else best)"
  using assms by (fastforce simp: best_so_far_def less_Suc_eq not_less)

lemma best_mode_best:
  "standard_gop fw modes \<Longrightarrow> unat mode \<le> length modes \<Longrightarrow> best_so_far modes (unat mode) best \<Longrightarrow>
    best_so_far modes (length modes) (fst (best_mode fw mode best w))"
proof (induction fw mode best w rule: best_mode.induct)
  case (1 fw mode best w)
  have max: "mode < MaxMode (gop_mode fw w) \<longleftrightarrow> unat mode < length modes"
    using standard_gopD(1)[OF 1(3)] by (simp add: word_less_nat_alt)
  show ?case
  proof (cases "unat mode < length modes")
    case True
    obtain p w1 where q: "QueryMode fw mode w = (EFI_SUCCESS, Some (p, modes ! unat mode), w1)"
      using standard_query[OF 1(3) True] .
    have n: "unat (mode + 1) = Suc (unat mode)"
      using True 1(3) by (simp add: standard_gop_def unat_word_ariths)
    show ?thesis
      using 1(2) best_so_far_step[OF 1(5) refl] True 1(3)
      by (subst best_mode.simps) (simp add: max q n)
  next
    case False
    then show ?thesis using 1(4,5) by (subst best_mode.simps) (simp add: max)
  qed
qed

lemma Framebuffer_Init_best:
  assumes "standard_gop fw modes" "list_ex (\<lambda>i. usable_mode i \<and> mode_pixels i \<noteq> 0) modes"
  shows "case Framebuffer_Init fw fb s of (ok, fb', t) \<Rightarrow>
    ok \<and> m_Width fb' \<le> m_PixelsPerScanLine fb' \<and> m_BaseAddress fb' = FrameBufferBase (gop_mode fw (world t)) \<and>
    list_ex (\<lambda>i. usable_mode i \<and> m_Width fb' = HorizontalResolution i \<and> m_Height fb' = VerticalResolution i \<and>
      list_all (\<lambda>j. usable_mode j \<longrightarrow> mode_pixels j \<le> mode_pixels i) modes) modes"
proof -
  obtain g w1 where 1: "LocateGop fw (world s) = (EFI_SUCCESS, g, w1)" "g \<noteq> 0" using standard_locate[OF assms(1)] .
  have lp: "has_locate_protocol fw" using assms(1) by (simp add: standard_gop_def)
  let ?start = "(Mode (gop_mode fw w1), 0)"
  obtain best pixels w2 where 2: "best_mode fw 0 ?start w1 = ((best, pixels), w2)" by (metis surj_pair)
  have b: "best_so_far modes (length modes) (best, pixels)"
    using best_mode_best[OF assms(1), of 0 ?start w1] 2 by (simp add: best_so_far_def)
  have "pixels \<noteq> 0" using b assms(2) by (fastforce simp: best_so_far_def list_ex_iff in_set_conv_nth)
  define i where "i = modes ! unat best"
  have i: "unat best < length modes" "usable_mode i" "mode_pixels i = pixels"
    using b \<open>pixels \<noteq> 0\<close> by (simp_all add: best_so_far_def i_def)
  have all: "list_all (\<lambda>j. usable_mode j \<longrightarrow> mode_pixels j \<le> mode_pixels i) modes"
    using b i(3) by (auto simp: best_so_far_def list_all_length)
  obtain w3 where 3: "SetMode fw best w2 = (EFI_SUCCESS, w3)" "Mode (gop_mode fw w3) = best" using standard_set[OF assms(1) i(1)] .
  obtain format where f: "NormalizePixelFormat i = Some format" using i(2) by (auto simp: usable_mode_def)
  have le: "HorizontalResolution i \<le> PixelsPerScanLine i" using i(2) by (simp add: usable_mode_def)
  have info: "Info (gop_mode fw w) = Some i" if "Mode (gop_mode fw w) = best" for w
    using standard_gopD(3)[OF assms(1), of w] that by (simp add: i_def)
  have "i \<in> set modes" using i(1) by (simp add: i_def)
  then have ex: "list_ex (\<lambda>j. usable_mode j \<and> HorizontalResolution i = HorizontalResolution j \<and>
      VerticalResolution i = VerticalResolution j \<and>
      list_all (\<lambda>k. usable_mode k \<longrightarrow> mode_pixels k \<le> mode_pixels j) modes) modes"
    using i(2) all by (auto simp: list_ex_iff)
  show ?thesis
    using le by (cases "best = Mode (gop_mode fw w2)")
     (simp_all add: Framebuffer_Init_def Let_def on_world_def lp 1 2 3 standard_gopD(4-6)[OF assms(1)] info f ex not_less)
qed

text \<open>
  C1. With a graphics protocol as the specification describes and at least one usable mode that
  has pixels, \<open>Framebuffer::Init\<close> succeeds in a usable mode with the most pixels of all usable
  modes, whichever mode was current before.
\<close>

theorem largest_mode_chosen:
  assumes "standard_gop fw modes" "list_ex (\<lambda>i. usable_mode i \<and> mode_pixels i \<noteq> 0) modes"
  shows "case Framebuffer_Init fw fb s of (ok, fb', t) \<Rightarrow>
    ok \<and> m_Width fb' \<le> m_PixelsPerScanLine fb' \<and> m_BaseAddress fb' = FrameBufferBase (gop_mode fw (world t)) \<and>
    list_ex (\<lambda>i. usable_mode i \<and> m_Width fb' = HorizontalResolution i \<and> m_Height fb' = VerticalResolution i \<and>
      list_all (\<lambda>j. usable_mode j \<longrightarrow> mode_pixels j \<le> mode_pixels i) modes) modes"
  using assms by (rule Framebuffer_Init_best)

text \<open>Two modes, a small and a large one; the firmware's state is the current mode.\<close>

definition two_modes :: "ModeInfo list" where
  "two_modes = [
     \<lparr>HorizontalResolution = 4, VerticalResolution = 4, PixelFormat = 1, RedMask = 0, GreenMask = 0, BlueMask = 0, PixelsPerScanLine = 4\<rparr>,
     \<lparr>HorizontalResolution = 8, VerticalResolution = 6, PixelFormat = 0, RedMask = 0, GreenMask = 0, BlueMask = 0, PixelsPerScanLine = 8\<rparr>]"

definition screen_firmware :: "u32 Firmware" where
  "screen_firmware = \<lparr>has_console = False, OutputString = \<lambda>_ w. w, SetAttribute = \<lambda>_ w. w, ClearScreen = \<lambda>w. w,
     AllocatePages = \<lambda>_ _ w. (0, w), AllocatePool = \<lambda>_ w. (0, 1, w), FreePool = \<lambda>_ w. w,
     GetMemoryMap = \<lambda>_ a w. (0, a, [], w), ExitBootServices = \<lambda>_ w. (0, w), LoadedImage = \<lambda>w. (0, Some 1, w),
     FileSystemProtocol = \<lambda>_ w. (0, 2, w), OpenVolume = \<lambda>_ w. (0, 3, w), OpenFile = \<lambda>_ _ w. (0, 4, w), CloseFile = \<lambda>_ w. w,
     FileInfo = \<lambda>_ w. (0, 0, w), ReadFile = \<lambda>_ n w. (0, [], w),
     SetFilePosition = \<lambda>_ p w. (0, w), has_stall = False, Stall = \<lambda>_ w. w, has_locate_protocol = True,
     LocateGop = \<lambda>w. (0, 5, w), gop_has_mode = \<lambda>_. True,
     gop_mode = \<lambda>w. let k = (if w = 1 then 1 else 0) in
       \<lparr>MaxMode = 2, Mode = k, Info = Some (two_modes ! unat k), FrameBufferBase = 0x300000, FrameBufferSize = 192\<rparr>,
     QueryMode = \<lambda>k w. if k < 2 then (0, Some (9, two_modes ! unat k), w) else (EFI_DEVICE_ERROR, None, w),
     SetMode = \<lambda>k w. (0, k), cpuid = \<lambda>_. (0, 0, 0, 0),
     GetTime = \<lambda>w. (EFI_DEVICE_ERROR, \<lparr>Year = 0, Month = 0, Day = 0, Hour = 0, Minute = 0, Second = 0\<rparr>, w),
     ConfigurationTable = [], system_table = 0x1000, runtime_services = 0x2000\<rparr>"

lemma screen_firmware_standard: "standard_gop screen_firmware two_modes"
proof -
  have n: "length two_modes = 2" by (simp add: two_modes_def)
  have "gop_mode_at screen_firmware two_modes w k" if k: "unat k < 2" for w k
  proof -
    have "k < 2" using k by (simp add: word_less_nat_alt)
    moreover have "k = 0 \<or> k = 1" using k by (auto simp: word_unat_eq_iff less_2_cases_iff)
    ultimately show ?thesis by (auto simp: gop_mode_at_def screen_firmware_def EFI_SUCCESS_def Let_def)
  qed
  moreover have "gop_at screen_firmware two_modes w" for w
    by (cases "w = 1") (simp_all add: gop_at_def screen_firmware_def EFI_SUCCESS_def n)
  moreover have "has_locate_protocol screen_firmware" by (simp add: screen_firmware_def)
  ultimately show ?thesis by (simp add: standard_gop_def n)
qed

theorem largest_mode_chosen_witness:
  "\<forall>fb s. case Framebuffer_Init screen_firmware fb s of (ok, fb', t) \<Rightarrow> ok \<and> m_Width fb' = 8"
proof (intro allI)
  fix fb s
  have "list_ex (\<lambda>i. usable_mode i \<and> mode_pixels i \<noteq> 0) two_modes"
    by (simp add: two_modes_def usable_mode_def NormalizePixelFormat_def pixel_formats mode_pixels_def)
  from largest_mode_chosen[OF screen_firmware_standard this, of fb s]
  show "case Framebuffer_Init screen_firmware fb s of (ok, fb', t) \<Rightarrow> ok \<and> m_Width fb' = 8"
    by (auto simp: two_modes_def usable_mode_def NormalizePixelFormat_def pixel_formats mode_pixels_def)
qed

theorem drawing_contained_witness:
  "let fb = Framebuffer_new\<lparr>m_BaseAddress := 0x1000, m_Width := 20, m_Height := 20, m_PixelsPerScanLine := 24\<rparr> in
   Framebuffer_DrawString fb 4 4 ''Boot'' 0xFFFFFFFF (\<lambda>_. 7) 0x1780 = 7"
  using drawing_contained[where fb = "Framebuffer_new\<lparr>m_BaseAddress := 0x1000, m_Width := 20, m_Height := 20, m_PixelsPerScanLine := 24\<rparr>"
      and m = "\<lambda>_. 7" and w = 0 and h = 0 and x = 4 and y = 4 and color = "0xFFFFFFFF" and str = "''Boot''"]
  by (auto simp: same_off_screen_def on_screen_def Framebuffer_new_def Let_def dest: spec[of _ "0x1780"])

end
