(* ===== verification/BootMain.thy ===== *)
theory BootMain
  imports PhysMem BootKernelImage BootGraphics
begin

text \<open>
  \<^verbatim>\<open>bootloader/src/memory_map.cpp\<close>, \<^verbatim>\<open>uefi_application.cpp\<close> and \<^verbatim>\<open>main.cpp\<close>: the memory map, the
  application object and \<open>efi_main\<close>, which loads the kernel, leaves the boot services and jumps.

  \<open>efi_main\<close> is split where the code has its numbered steps. A step that may return early is a sum:
  \<open>Inl\<close> the status returned with the state, after the destructors of the objects declared so far.
  What the stack holds before a variable is written is a parameter.
\<close>

subsection \<open>The memory map\<close>

record MemoryMap =
  m_Buffer :: u64
  m_MapSize :: u64
  m_MapKey :: u64
  m_DescriptorSize :: u64
  m_DescriptorVersion :: u32

definition MemoryMap_new :: MemoryMap where
  "MemoryMap_new = \<lparr>m_Buffer = 0, m_MapSize = 0, m_MapKey = 0, m_DescriptorSize = 0, m_DescriptorVersion = 0\<rparr>"

definition GetMemoryTypeString :: "u32 \<Rightarrow> string" where
  "GetMemoryTypeString type =
     (if type < 15 then
        [''Reserved'', ''LoaderCode'', ''LoaderData'', ''BootServicesCode'', ''BootServicesData'', ''RuntimeServicesCode'',
         ''RuntimeServicesData'', ''Conventional'', ''Unusable'', ''ACPIReclaim'', ''ACPIMemoryNVS'', ''MMIO'', ''MMIOPort'',
         ''PalCode'', ''Persistent''] ! unat type
      else ''Unknown'')"

definition MemoryMap_Free :: "'w Firmware \<Rightarrow> MemoryMap \<Rightarrow> 'w Boot \<Rightarrow> MemoryMap \<times> 'w Boot" where
  "MemoryMap_Free fw mm s =
     (if m_Buffer mm \<noteq> 0 then (mm\<lparr>m_Buffer := 0, m_MapSize := 0\<rparr>, do_world (FreePool fw (m_Buffer mm)) s)
      else (mm\<lparr>m_MapSize := 0\<rparr>, s))"

text \<open>One call of \<open>GetMemoryMap\<close> with the members as in and out parameters.\<close>

definition query_map :: "'w Firmware \<Rightarrow> MemoryMap \<Rightarrow> 'w Boot \<Rightarrow> u64 \<times> MemoryMap \<times> 'w Boot" where
  "query_map fw mm s =
     (let (status, a, data, w) = GetMemoryMap fw (m_Buffer mm)
            \<lparr>ma_size = m_MapSize mm, ma_key = m_MapKey mm, ma_descriptor_size = m_DescriptorSize mm,
             ma_descriptor_version = m_DescriptorVersion mm\<rparr> (world s) in
      (status,
       mm\<lparr>m_MapSize := ma_size a, m_MapKey := ma_key a, m_DescriptorSize := ma_descriptor_size a,
          m_DescriptorVersion := ma_descriptor_version a\<rparr>,
       s\<lparr>world := w, memory := (if m_Buffer mm = 0 then memory s else store_bytes (m_Buffer mm) data (memory s))\<rparr>))"

definition MemoryMap_Get :: "'w Firmware \<Rightarrow> MemoryMap \<Rightarrow> 'w Boot \<Rightarrow> bool \<times> MemoryMap \<times> 'w Boot" where
  "MemoryMap_Get fw mm s =
     (let (mm1, s1) = MemoryMap_Free fw mm s; (status, mm2, s2) = query_map fw mm1 s1 in
      if status \<noteq> EFI_BUFFER_TOO_SMALL then (False, mm2, s2)
      else
        let mm3 = mm2\<lparr>m_MapSize := m_MapSize mm2 + 2048\<rparr>;
            ((status, p), s3) = on_world (\<lambda>w. let (a, b, w) = AllocatePool fw (m_MapSize mm3) w in ((a, b), w)) s2;
            mm4 = mm3\<lparr>m_Buffer := p\<rparr> in
        if status \<noteq> EFI_SUCCESS \<or> p = 0 then (False, mm4, s3)
        else
          let (status, mm5, s4) = query_map fw mm4 s3 in
          if status \<noteq> EFI_SUCCESS then (let (mm6, s5) = MemoryMap_Free fw mm5 s4 in (False, mm6, s5))
          else (True, mm5, s4))"

definition GetEntryCount :: "MemoryMap \<Rightarrow> u64" where
  "GetEntryCount mm = (if m_DescriptorSize mm \<noteq> 0 then m_MapSize mm div m_DescriptorSize mm else 0)"

definition GetEntry :: "MemoryMap \<Rightarrow> u64 \<Rightarrow> u64 option" where
  "GetEntry mm i = (if m_Buffer mm = 0 \<or> i \<ge> GetEntryCount mm then None else Some (m_Buffer mm + i * m_DescriptorSize mm))"

definition EfiConventionalMemory :: u32 where "EfiConventionalMemory = 7"

definition GetTotalConventionalMemory :: "MemoryMap \<Rightarrow> (u64 \<Rightarrow> u8) \<Rightarrow> u64" where
  "GetTotalConventionalMemory mm m =
     foldl (\<lambda>total i. case GetEntry mm (of_nat i) of
         Some a \<Rightarrow> if ucast (get_le 4 m a) = EfiConventionalMemory then total + get_le 8 m (a + 24) * 4096 else total
       | None \<Rightarrow> total) 0 [0 ..< unat (GetEntryCount mm)]"

subsection \<open>The application\<close>

definition EFI_ACPI_20_TABLE_GUID :: EfiGuid where
  "EFI_ACPI_20_TABLE_GUID = EfiGuid 0xeb9d2d31 0x2d88 0x11d3 [0x9a, 0x16, 0x00, 0x90, 0x27, 0x3f, 0xc1, 0x4d]"

definition EFI_ACPI_10_TABLE_GUID :: EfiGuid where
  "EFI_ACPI_10_TABLE_GUID = EfiGuid 0xeb9d2d30 0x2d88 0x11d3 [0x9a, 0x16, 0x00, 0x90, 0x27, 0x3f, 0xc1, 0x4d]"

definition FindConfigurationTable :: "'w Firmware \<Rightarrow> EfiGuid \<Rightarrow> u64" where
  "FindConfigurationTable fw guid = (case filter (\<lambda>t. fst t = guid) (ConfigurationTable fw) of t # _ \<Rightarrow> snd t | [] \<Rightarrow> 0)"

definition app_Stall :: "'w Firmware \<Rightarrow> u64 \<Rightarrow> 'w Boot \<Rightarrow> 'w Boot" where
  "app_Stall fw microseconds s = (if has_stall fw then do_world (Stall fw microseconds) s else s)"

subsection \<open>The steps of efi\_main\<close>

definition EFI_GREEN :: u32 where "EFI_GREEN = 2"
definition EFI_CYAN :: u32 where "EFI_CYAN = 3"
definition EFI_RED :: u32 where "EFI_RED = 4"
definition EFI_LIGHTGRAY :: u32 where "EFI_LIGHTGRAY = 7"
definition EFI_BACKGROUND_BLACK :: u32 where "EFI_BACKGROUND_BLACK = 0"

definition SetColor :: "'w Firmware \<Rightarrow> u32 \<Rightarrow> u32 \<Rightarrow> 'w Boot \<Rightarrow> 'w Boot" where
  "SetColor fw text_color bg_color s = (if has_console fw then do_world (SetAttribute fw (text_color OR bg_color)) s else s)"

definition ClearConsole :: "'w Firmware \<Rightarrow> 'w Boot \<Rightarrow> 'w Boot" where
  "ClearConsole fw s = (if has_console fw then do_world (ClearScreen fw) s else s)"

definition on_black :: "'w Firmware \<Rightarrow> u32 \<Rightarrow> 'w Boot \<Rightarrow> 'w Boot" where
  "on_black fw color = SetColor fw color EFI_BACKGROUND_BLACK"

definition report_success :: "'w Firmware \<Rightarrow> 'w Boot \<Rightarrow> 'w Boot" where
  "report_success fw s = on_black fw EFI_LIGHTGRAY (tell fw ''SUCCESS\<newline>'' (on_black fw EFI_GREEN s))"

definition vendor_bytes :: "u32 \<Rightarrow> u8 list" where
  "vendor_bytes r = map (\<lambda>i. ucast (drop_bit (8 * i) r)) [0 ..< 4]"

definition GetCPUInfo :: "'w Firmware \<Rightarrow> CPUInfo" where
  "GetCPUInfo fw =
     (let (_, ebx, ecx, edx) = cpuid fw 0; (eax, _, _, _) = cpuid fw 1;
          vendor = map (\<lambda>b. char_of (unat b)) (takeWhile (\<lambda>b. b \<noteq> 0) (vendor_bytes ebx @ vendor_bytes edx @ vendor_bytes ecx));
          stepping = eax AND 0xF; model = drop_bit 4 eax AND 0xF; family = drop_bit 8 eax AND 0xF;
          ext_model = drop_bit 16 eax AND 0xF; ext_family = drop_bit 20 eax AND 0xFF;
          family1 = (if family = 15 then family + ext_family else family);
          model1 = (if family1 = 6 \<or> family1 = 15 then model + push_bit 4 ext_model else model)
      in \<lparr>ci_vendor = vendor, ci_family = family1, ci_model = model1, ci_stepping = stepping\<rparr>)"

text \<open>Step 1 and 2: the console and the boot volume.\<close>

definition open_volume :: "'w Firmware \<Rightarrow> (u64 \<Rightarrow> u8) \<Rightarrow> 'w Boot \<Rightarrow> ((u64 \<times> 'w Boot) + 'w Boot) option" where
  "open_volume fw garbage s =
     (let s1 = on_black fw EFI_CYAN (ClearConsole fw s);
          s2 = tell fw ''==================================================\<newline>'' s1;
          s3 = tell fw ''          Antigravity UEFI Bootloader v1.0        \<newline>'' s2;
          s4 = tell fw ''==================================================\<newline>\<newline>'' s3;
          (ok, s5) = InitRootVolume fw (tell fw ''Initializing File System... '' s4) in
      if \<not> ok then Some (Inl (EFI_LOAD_ERROR, app_Stall fw 3000000 (tell fw ''FAILED!\<newline>'' (on_black fw EFI_RED s5))))
      else
        let s6 = report_success fw s5;
            s7 = say fw ''ESP root volume opened from boot device handle: %p\<newline>'' [ArgWord (s_RootDeviceHandle s6)] s6
        in map_option Inr (ListDirectory fw garbage ''/'' s7))"

text \<open>Step 3: graphics.\<close>

definition draw_test_screen :: "Framebuffer \<Rightarrow> (u64 \<Rightarrow> u8) \<Rightarrow> (u64 \<Rightarrow> u8)" where
  "draw_test_screen fb m =
     Framebuffer_DrawString fb 200 200 ''Boot OK - Entering Kernel...'' 0xFF000000
       (Framebuffer_DrawRectangle fb 150 150 400 150 0xFFFFFFFF (Framebuffer_Fill fb 0x00113366 m))"

definition init_screen :: "'w Firmware \<Rightarrow> 'w Boot \<Rightarrow> (u64 \<times> 'w Boot) + (Framebuffer \<times> 'w Boot)" where
  "init_screen fw s =
     (let (ok, fb, s1) = Framebuffer_Init fw Framebuffer_new (tell fw ''Initializing Graphics Output Protocol... '' s) in
      if \<not> ok then
        let s2 = tell fw ''FAILED!\<newline>'' (on_black fw EFI_RED s1)
        in Inl (EFI_UNSUPPORTED, app_Stall fw 3000000 (say fw ''GOP init status = 0x%llx\<newline>'' [ArgWord (m_LastStatus fb)] s2))
      else
        let s2 = report_success fw s1;
            s3 = say fw ''GOP Resolution: %dx%d (%d pixels per scanline)\<newline>''
                   [ArgWord (ucast (m_Width fb)), ArgWord (ucast (m_Height fb)), ArgWord (ucast (m_PixelsPerScanLine fb))] s2;
            s4 = say fw ''GOP Pixel Format: %s (%d), Framebuffer=%p\<newline>''
                   [ArgText (Some (GetPixelFormatName fb)), ArgWord (ucast (m_PixelFormat fb)), ArgWord (m_BaseAddress fb)] s3
        in Inr (fb, s4\<lparr>memory := draw_test_screen fb (memory s4)\<rparr>))"

text \<open>Step 4: the kernel image; the destructor of the file closes it on a failure.\<close>

definition load_kernel :: "'w Firmware \<Rightarrow> (u64 \<Rightarrow> u8) \<Rightarrow> 'w Boot \<Rightarrow> (u64 \<times> 'w Boot) + (BootFile \<times> ElfLoader \<times> 'w Boot)" where
  "load_kernel fw garbage s =
     (let (ok, f, s1) = File_Open fw (File_ascii ''/kernel/kernel.elf'') (tell fw ''Loading /kernel/kernel.elf... '' s) in
      if \<not> ok then
        Inl (EFI_NOT_FOUND, app_Stall fw 5000000 (tell fw ''FAILED (Could not open file)!\<newline>'' (on_black fw EFI_RED s1)))
      else
        let (kernelFileSize, s2) = File_GetSize fw f s1 in
        if kernelFileSize = 0 then
          Inl (EFI_LOAD_ERROR, snd (File_Close fw f
            (app_Stall fw 5000000 (tell fw ''FAILED (empty or unreadable file info)!\<newline>'' (on_black fw EFI_RED s2)))))
        else
          let s3 = on_black fw EFI_LIGHTGRAY
                     (say fw ''OPENED (%llu bytes from ESP)\<newline>'' [ArgWord kernelFileSize] (on_black fw EFI_GREEN s2));
              (ok, f1, l, s4) = ElfLoader_Load fw garbage f \<lparr>m_KernelBase = 0, m_KernelSize = 0, m_EntryPoint = 0\<rparr> s3 in
          if \<not> ok then
            Inl (EFI_LOAD_ERROR, snd (File_Close fw f1
              (app_Stall fw 5000000 (tell fw ''FAILED (Invalid ELF64/Error loading segments)!\<newline>'' (on_black fw EFI_RED s4)))))
          else
            let s5 = say fw ''Kernel ELF Loaded: Base=%p, Size=%lld bytes, Entry=%p\<newline>''
                       [ArgWord (m_KernelBase l), ArgWord (m_KernelSize l), ArgWord (m_EntryPoint l)] (report_success fw s4);
                s6 = tell fw ''/kernel/kernel.elf was read through the ESP root volume opened from the boot image device.\<newline>'' s5
            in Inr (f1, l, s6))"

text \<open>Step 5: the boot information, all but the memory map.\<close>

definition boot_time_of :: "EfiTime \<Rightarrow> u64" where
  "boot_time_of t = ucast (Year t) * 10000000000 + ucast (Month t) * 100000000 + ucast (Day t) * 1000000 +
     ucast (Hour t) * 10000 + ucast (Minute t) * 100 + ucast (Second t)"

definition read_clock :: "'w Firmware \<Rightarrow> 'w Boot \<Rightarrow> u64 \<times> 'w Boot" where
  "read_clock fw s =
     (let ((status, t), s1) = on_world (\<lambda>w. let (a, b, w) = GetTime fw w in ((a, b), w)) s in
      if status = EFI_SUCCESS then
        (boot_time_of t, say fw ''Boot Time: %04d-%02d-%02d %02d:%02d:%02d UTC\<newline>''
           [ArgWord (ucast (Year t)), ArgWord (ucast (Month t)), ArgWord (ucast (Day t)), ArgWord (ucast (Hour t)),
            ArgWord (ucast (Minute t)), ArgWord (ucast (Second t))] s1)
      else (0, s1))"

definition find_rsdp :: "'w Firmware \<Rightarrow> u64" where
  "find_rsdp fw =
     (let r = FindConfigurationTable fw EFI_ACPI_20_TABLE_GUID
      in if r = 0 then FindConfigurationTable fw EFI_ACPI_10_TABLE_GUID else r)"

definition gather_info :: "'w Firmware \<Rightarrow> Framebuffer \<Rightarrow> ElfLoader \<Rightarrow> 'w Boot \<Rightarrow> BootInfo \<times> 'w Boot" where
  "gather_info fw fb l s =
     (let rsdp = find_rsdp fw;
          s1 = (if rsdp \<noteq> 0 then say fw ''ACPI RSDP Table found at: %p\<newline>'' [ArgWord rsdp] s
                else tell fw ''Warning: ACPI RSDP Table not found.\<newline>'' s);
          cpu = GetCPUInfo fw;
          s2 = say fw ''CPU: %s (Fam=%d, Mod=%d, Step=%d)\<newline>''
                 [ArgText (Some (ci_vendor cpu)), ArgWord (ucast (ci_family cpu)), ArgWord (ucast (ci_model cpu)),
                  ArgWord (ucast (ci_stepping cpu))] s1;
          (time, s3) = read_clock fw s2
      in (\<lparr>bi_framebuffer = \<lparr>fb_base_address = m_BaseAddress fb, fb_width = m_Width fb, fb_height = m_Height fb,
             fb_pixels_per_scanline = m_PixelsPerScanLine fb, fb_format = m_PixelFormat fb\<rparr>,
           bi_memory = \<lparr>mm_buffer = 0, mm_map_size = 0, mm_map_key = 0, mm_descriptor_size = 0, mm_descriptor_version = 0\<rparr>,
           bi_system_table = system_table fw, bi_runtime_services = runtime_services fw, bi_rsdp = rsdp,
           bi_kernel_base = m_KernelBase l, bi_kernel_size = m_KernelSize l, bi_boot_time = time, bi_cpu = cpu\<rparr>, s3))"

text \<open>Step 6: up to five attempts to leave the boot services with a fresh map key.\<close>

datatype exit_result = NoMap | Refused u64 | Exited

fun exit_loop :: "'w Firmware \<Rightarrow> nat \<Rightarrow> u64 \<Rightarrow> MemoryMap \<Rightarrow> 'w Boot \<Rightarrow> exit_result \<times> MemoryMap \<times> 'w Boot" where
  "exit_loop fw 0 status mm s = (Refused status, mm, s)"
| "exit_loop fw (Suc n) status mm s =
     (let (ok, mm1, s1) = MemoryMap_Get fw mm s in
      if \<not> ok then (NoMap, mm1, s1)
      else
        let (status, s2) = on_world (ExitBootServices fw (m_MapKey mm1)) s1
        in if status = EFI_SUCCESS then (Exited, mm1, s2) else exit_loop fw n status mm1 s2)"

definition leave_firmware :: "'w Firmware \<Rightarrow> BootFile \<Rightarrow> 'w Boot \<Rightarrow> (u64 \<times> 'w Boot) + (MemoryMap \<times> 'w Boot)" where
  "leave_firmware fw f s =
     (let s1 = CloseRootVolume fw (snd (File_Close fw f s));
          s2 = app_Stall fw 1000000 (tell fw ''Exiting Boot Services...\<newline>'' s1);
          (r, mm, s3) = exit_loop fw 5 EFI_SUCCESS MemoryMap_new s2 in
      case r of
        NoMap \<Rightarrow> Inl (EFI_DEVICE_ERROR, snd (MemoryMap_Free fw mm
          (app_Stall fw 3000000 (tell fw ''Error: Failed to obtain memory map.\<newline>'' s3))))
      | Refused status \<Rightarrow> Inl (EFI_DEVICE_ERROR, snd (MemoryMap_Free fw mm
          (app_Stall fw 5000000 (say fw ''Error: ExitBootServices failed permanently: 0x%llx\<newline>'' [ArgWord status] s3))))
      | Exited \<Rightarrow> Inr (mm, s3))"

text \<open>Step 7: the memory map is added and the loader jumps to the entry point.\<close>

definition map_info :: "MemoryMap \<Rightarrow> MemoryMapInfo" where
  "map_info mm = \<lparr>mm_buffer = m_Buffer mm, mm_map_size = m_MapSize mm, mm_map_key = m_MapKey mm,
     mm_descriptor_size = m_DescriptorSize mm, mm_descriptor_version = m_DescriptorVersion mm\<rparr>"

datatype boot_end = Returned u64 | Jumped u64 BootInfo

definition efi_main :: "'w Firmware \<Rightarrow> (u64 \<Rightarrow> u8) \<Rightarrow> (u64 \<Rightarrow> u8) \<Rightarrow> 'w Boot \<Rightarrow> (boot_end \<times> 'w Boot) option" where
  "efi_main fw garbage ehdr_garbage s =
     (case open_volume fw garbage s of None \<Rightarrow> None
      | Some (Inl (status, s1)) \<Rightarrow> Some (Returned status, s1)
      | Some (Inr s1) \<Rightarrow>
          (case init_screen fw s1 of Inl (status, s2) \<Rightarrow> Some (Returned status, s2)
           | Inr (fb, s2) \<Rightarrow>
               (case load_kernel fw ehdr_garbage s2 of Inl (status, s3) \<Rightarrow> Some (Returned status, s3)
                | Inr (f, l, s3) \<Rightarrow>
                    let (info, s4) = gather_info fw fb l s3 in
                    (case leave_firmware fw f s4 of Inl (status, s5) \<Rightarrow> Some (Returned status, s5)
                     | Inr (mm, s5) \<Rightarrow> Some (Jumped (m_EntryPoint l) (info\<lparr>bi_memory := map_info mm\<rparr>), s5)))))"

subsection \<open>What a step leaves alone\<close>

lemma do_world_keeps [simp]:
  "memory (do_world f s) = memory s" "s_RootVolume (do_world f s) = s_RootVolume s"
  by (simp_all add: do_world_def)

lemma messages_keep [simp]:
  "s_RootVolume (say fw format as s) = s_RootVolume s"
  "memory (tell fw txt s) = memory s" "s_RootVolume (tell fw txt s) = s_RootVolume s"
  "memory (on_black fw c s) = memory s" "s_RootVolume (on_black fw c s) = s_RootVolume s"
  "memory (ClearConsole fw s) = memory s" "s_RootVolume (ClearConsole fw s) = s_RootVolume s"
  "memory (app_Stall fw k s) = memory s" "s_RootVolume (app_Stall fw k s) = s_RootVolume s"
  "memory (report_success fw s) = memory s" "s_RootVolume (report_success fw s) = s_RootVolume s"
  by (simp_all add: say_def tell_def on_black_def SetColor_def ClearConsole_def app_Stall_def report_success_def)

lemma on_world_keeps: "on_world f s = (r, t) \<Longrightarrow> memory t = memory s \<and> s_RootVolume t = s_RootVolume s"
  by (auto simp: on_world_def split: prod.splits)

lemma list_entries_keeps: "list_entries fw dir b s = Some t \<Longrightarrow> s_RootVolume t = s_RootVolume s"
proof (rule list_entries.raw_induct[where P = "\<lambda>fw dir b s t. s_RootVolume t = s_RootVolume s"])
  fix f fw dir b s t
  assume IH: "\<And>fw dir b s t. f fw dir b s = Some t \<Longrightarrow> s_RootVolume t = s_RootVolume s"
    and eq: "(let ((status, data), s1) = on_world (\<lambda>w. let (a, b, w) = ReadFile fw (m_Handle dir) 512 w in ((a, b), w)) s;
          b1 = store_bytes 0 data b in
      if status \<noteq> EFI_SUCCESS \<or> data = [] then Some s1
      else
        f fw dir b1
          (if get_le 8 b1 72 AND 0x10 \<noteq> 0 then say fw ''  [DIR]  %s\<newline>'' [ArgText (Some (info_name b1))] s1
           else say fw ''  [FILE] %s (%llu bytes)\<newline>'' [ArgText (Some (info_name b1)), ArgWord (get_le 8 b1 8)] s1)) = Some t"
  obtain r s1 where 1: "on_world (\<lambda>w. let (a, b, w) = ReadFile fw (m_Handle dir) 512 w in ((a, b), w)) s = (r, s1)" by fastforce
  have k: "s_RootVolume s1 = s_RootVolume s" using on_world_keeps[OF 1] by simp
  obtain status data where r: "r = (status, data)" by fastforce
  show "s_RootVolume t = s_RootVolume s"
  proof (cases "status \<noteq> EFI_SUCCESS \<or> data = []")
    case True
    then show ?thesis using eq k unfolding 1 r by (simp add: Let_def)
  next
    case False
    then show ?thesis using IH eq k unfolding 1 r by (fastforce simp: Let_def split: if_splits)
  qed
qed

lemma ListDirectory_keeps: "ListDirectory fw g path s = Some t \<Longrightarrow> s_RootVolume t = s_RootVolume s"
  unfolding ListDirectory_def Let_def File_Open_def File_Close_def
  by (auto simp: on_world_def split: if_splits prod.splits dest!: list_entries_keeps)

lemma gather_info_keeps: "gather_info fw fb l s = (info, t) \<Longrightarrow> memory t = memory s"
  unfolding gather_info_def read_clock_def Let_def
  by (auto split: prod.splits if_splits dest!: on_world_keeps)

lemma gather_info_range:
  "gather_info fw fb l s = (info, t) \<Longrightarrow> bi_kernel_base info = m_KernelBase l \<and> bi_kernel_size info = m_KernelSize l \<and>
    fb_base_address (bi_framebuffer info) = m_BaseAddress fb"
  by (auto simp: gather_info_def Let_def split: prod.splits)

subsection \<open>The hand-over\<close>

lemma exit_loop_exited:
  "exit_loop fw n status mm s = (Exited, mm', t) \<Longrightarrow>
   \<exists>mm0 s1 s2. MemoryMap_Get fw mm0 s1 = (True, mm', s2) \<and> ExitBootServices fw (m_MapKey mm') (world s2) = (EFI_SUCCESS, world t) \<and>
     memory t = memory s2"
proof (induction fw n status mm s rule: exit_loop.induct)
  case (2 fw n status mm s)
  obtain ok mm1 s1 where g: "MemoryMap_Get fw mm s = (ok, mm1, s1)" by (metis surj_pair)
  obtain st s2 where e: "on_world (ExitBootServices fw (m_MapKey mm1)) s1 = (st, s2)" by fastforce
  show ?case
  proof (cases "ok \<and> st = EFI_SUCCESS")
    case True
    then have "mm' = mm1" "t = s2" using 2(2) by (simp_all add: g e)
    moreover have "ExitBootServices fw (m_MapKey mm1) (world s1) = (st, world s2)" "memory s2 = memory s1"
      using e by (auto simp: on_world_def split: prod.splits)
    ultimately have "MemoryMap_Get fw mm s = (True, mm', s1) \<and>
        ExitBootServices fw (m_MapKey mm') (world s1) = (EFI_SUCCESS, world t) \<and> memory t = memory s1"
      using g True by simp
    then show ?thesis by blast
  next
    case False
    then show ?thesis using 2 by (auto simp: g e split: if_splits)
  qed
qed simp

text \<open>
  C1. Whenever \<open>efi_main\<close> jumps, it jumps to the entry point of an image its loader accepted, with
  the range of that image and the framebuffer of a successful initialisation in the boot
  information; the memory map handed over is the one of the last call of \<open>MemoryMap::Get\<close>, which
  succeeded, and the boot services were left with the key of that very map, on the state of the
  firmware right after it: nothing came in between, and nothing calls the firmware afterwards.
\<close>

theorem hand_over_is_fresh:
  "case efi_main fw g1 g2 s of
     Some (Jumped entry info, t) \<Rightarrow>
       (\<exists>f f' l u v. ElfLoader_Load fw g2 f \<lparr>m_KernelBase = 0, m_KernelSize = 0, m_EntryPoint = 0\<rparr> u = (True, f', l, v) \<and>
         entry = m_EntryPoint l \<and> bi_kernel_base info = m_KernelBase l \<and> bi_kernel_size info = m_KernelSize l) \<and>
       (\<exists>fb u v. Framebuffer_Init fw Framebuffer_new u = (True, fb, v) \<and>
         fb_base_address (bi_framebuffer info) = m_BaseAddress fb) \<and>
       (\<exists>mm0 mm u v. MemoryMap_Get fw mm0 u = (True, mm, v) \<and> bi_memory info = map_info mm \<and>
         ExitBootServices fw (m_MapKey mm) (world v) = (EFI_SUCCESS, world t) \<and> memory t = memory v)
   | _ \<Rightarrow> True"
proof (cases "efi_main fw g1 g2 s")
  case (Some r)
  obtain e t where r: "r = (e, t)" by fastforce
  show ?thesis
  proof (cases e)
    case (Jumped entry info)
    from Some obtain s1 fb s2 f l s3 info0 s4 mm where
      init: "init_screen fw s1 = Inr (fb, s2)" and load: "load_kernel fw g2 s2 = Inr (f, l, s3)"
      and gather: "gather_info fw fb l s3 = (info0, s4)" and leave: "leave_firmware fw f s4 = Inr (mm, t)"
      and info: "entry = m_EntryPoint l" "info = info0\<lparr>bi_memory := map_info mm\<rparr>"
      unfolding r Jumped by (auto simp: efi_main_def split: option.splits sum.splits prod.splits)
    have "\<exists>u v. Framebuffer_Init fw Framebuffer_new u = (True, fb, v)"
      using init by (auto simp: init_screen_def Let_def split: prod.splits if_splits)
    moreover have "\<exists>f0 u v. ElfLoader_Load fw g2 f0 \<lparr>m_KernelBase = 0, m_KernelSize = 0, m_EntryPoint = 0\<rparr> u = (True, f, l, v)"
      using load by (auto simp: load_kernel_def Let_def split: prod.splits if_splits)
    moreover have "\<exists>mm0 u v. MemoryMap_Get fw mm0 u = (True, mm, v) \<and>
        ExitBootServices fw (m_MapKey mm) (world v) = (EFI_SUCCESS, world t) \<and> memory t = memory v"
      using leave by (auto simp: leave_firmware_def Let_def dest!: exit_loop_exited split: prod.splits exit_result.splits)
    ultimately show ?thesis using gather_info_range[OF gather] unfolding Some r Jumped info by simp blast
  qed (simp add: Some r)
qed simp

subsection \<open>A boot from beginning to end\<close>

text \<open>
  A firmware with a boot volume that holds the kernel under the handle \<open>handle\<close>, a root directory
  whose listing ends, a memory map that stays clear of the kernel, and an \<open>ExitBootServices\<close> that
  accepts the key of the last map.
\<close>

definition has_volume :: "'w Firmware \<Rightarrow> u64 \<Rightarrow> u8 list \<Rightarrow> (u64 \<Rightarrow> u8) \<Rightarrow> bool" where
  "has_volume fw handle content garbage \<longleftrightarrow>
     (\<forall>w. case LoadedImage fw w of (status, device, w1) \<Rightarrow> status = EFI_SUCCESS \<and> device \<noteq> None) \<and>
     (\<forall>d w. case FileSystemProtocol fw d w of (status, p, w1) \<Rightarrow> status = EFI_SUCCESS \<and> p \<noteq> 0) \<and>
     (\<forall>p w. case OpenVolume fw p w of (status, v, w1) \<Rightarrow> status = EFI_SUCCESS \<and> v \<noteq> 0 \<and> v \<noteq> handle) \<and>
     (\<forall>v path w. case OpenFile fw v path w of (status, h, w1) \<Rightarrow> status = EFI_SUCCESS \<and> h = handle) \<and>
     (\<forall>w. case FileInfo fw handle w of (status, n, w1) \<Rightarrow> status = EFI_SUCCESS \<and> n \<noteq> 0) \<and>
     (\<forall>s. s_RootVolume s \<noteq> handle \<longrightarrow> ListDirectory fw garbage ''/'' s \<noteq> None) \<and> handle \<noteq> 0 \<and> reads_file fw handle content"

definition clear_of_kernel :: "u8 list \<Rightarrow> u64 \<Rightarrow> nat \<Rightarrow> bool" where
  "clear_of_kernel content a n \<longleftrightarrow> unat a + n < 18446744073709551616 \<and>
     list_all (\<lambda>p. apart (unat a) n (unat (p_vaddr p)) (unat (p_memsz p))) (filter loads (image_programs content))"

definition gives_map :: "'w Firmware \<Rightarrow> u8 list \<Rightarrow> u64 \<Rightarrow> bool" where
  "gives_map fw content pool \<longleftrightarrow>
     (\<forall>a w. case GetMemoryMap fw 0 a w of (status, b, data, w1) \<Rightarrow> status = EFI_BUFFER_TOO_SMALL) \<and>
     (\<forall>a w. case GetMemoryMap fw pool a w of (status, b, data, w1) \<Rightarrow>
        status = EFI_SUCCESS \<and> clear_of_kernel content pool (length data)) \<and>
     (\<forall>k w. case ExitBootServices fw k w of (status, w1) \<Rightarrow> status = EFI_SUCCESS)"

lemma open_volume_good:
  assumes V: "has_volume fw h content g" and zero: "s_RootVolume s = 0"
  obtains t where "open_volume fw g s = Some (Inr t)" "s_RootVolume t \<noteq> 0"
proof -
  define s0 where "s0 = tell fw ''Initializing File System... '' (tell fw ''==================================================\<newline>\<newline>''
    (tell fw ''          Antigravity UEFI Bootloader v1.0        \<newline>'' (tell fw ''==================================================\<newline>''
    (on_black fw EFI_CYAN (ClearConsole fw s)))))"
  have z0: "s_RootVolume s0 = 0" using zero by (simp add: s0_def)
  obtain d w1 where 1: "LoadedImage fw (world s0) = (EFI_SUCCESS, Some d, w1)"
    using V[unfolded has_volume_def, THEN conjunct1, rule_format, of "world s0"] by (cases "LoadedImage fw (world s0)") auto
  obtain p w2 where 2: "FileSystemProtocol fw d w1 = (EFI_SUCCESS, p, w2)" "p \<noteq> 0"
    using V[unfolded has_volume_def, THEN conjunct2, THEN conjunct1, rule_format, of d w1] by (cases "FileSystemProtocol fw d w1") auto
  obtain v w3 where 3: "OpenVolume fw p w2 = (EFI_SUCCESS, v, w3)" "v \<noteq> 0" "v \<noteq> h"
    using V[unfolded has_volume_def, THEN conjunct2, THEN conjunct2, THEN conjunct1, rule_format, of p w2]
    by (cases "OpenVolume fw p w2") auto
  have "\<exists>s1. InitRootVolume fw s0 = (True, s1) \<and> s_RootVolume s1 = v"
    using z0 by (simp add: InitRootVolume_def on_world_def 1 2 3)
  then obtain s1 where 1: "InitRootVolume fw s0 = (True, s1)" "s_RootVolume s1 = v" by blast
  define s2 where "s2 = say fw ''ESP root volume opened from boot device handle: %p\<newline>''
    [ArgWord (s_RootDeviceHandle (report_success fw s1))] (report_success fw s1)"
  have "s_RootVolume s2 \<noteq> h" using 1(2) 3(3) by (simp add: s2_def)
  then have "ListDirectory fw g ''/'' s2 \<noteq> None" using V by (simp add: has_volume_def)
  then obtain t where t: "ListDirectory fw g ''/'' s2 = Some t" by blast
  have "open_volume fw g s = Some (Inr t)"
    unfolding open_volume_def Let_def s0_def[symmetric] by (simp add: 1(1) s2_def[symmetric] t)
  moreover have "s_RootVolume t \<noteq> 0" using ListDirectory_keeps[OF t] 1(2) 3(2) by (simp add: s2_def)
  ultimately show ?thesis using that by blast
qed

lemma Framebuffer_Init_keeps: "Framebuffer_Init fw fb s = (ok, fb', t) \<Longrightarrow> s_RootVolume t = s_RootVolume s"
  unfolding Framebuffer_Init_def Let_def
  by (auto simp: on_world_def split: if_splits prod.splits option.splits)

lemma init_screen_good:
  assumes "standard_gop fw modes" "list_ex (\<lambda>i. usable_mode i \<and> mode_pixels i \<noteq> 0) modes"
  obtains fb t where "init_screen fw s = Inr (fb, t)" "s_RootVolume t = s_RootVolume s"
proof -
  let ?s = "tell fw ''Initializing Graphics Output Protocol... '' s"
  obtain fb s1 where 1: "Framebuffer_Init fw Framebuffer_new ?s = (True, fb, s1)"
    using Framebuffer_Init_best[OF assms, of Framebuffer_new ?s] by (cases "Framebuffer_Init fw Framebuffer_new ?s") auto
  then show ?thesis using that Framebuffer_Init_keeps[OF 1] by (simp add: init_screen_def Let_def)
qed

lemma load_kernel_good:
  assumes V: "has_volume fw h content g" and P: "gives_pool fw pool" and K: "good_kernel content pool" and root: "s_RootVolume s \<noteq> 0"
  obtains f l t where "load_kernel fw g2 s = Inr (f, l, t)" "in_memory content pool (memory s) (memory t)"
    "m_EntryPoint l = e_entry (image_header content)"
    "m_KernelBase l = Min (set (map p_vaddr (filter loads (image_programs content))))"
    "m_KernelSize l = Max (set (map (\<lambda>p. p_vaddr p + p_memsz p) (filter loads (image_programs content)))) - m_KernelBase l"
proof -
  define s0 where "s0 = tell fw ''Loading /kernel/kernel.elf... '' s"
  define path where "path = m_Path (File_ascii ''/kernel/kernel.elf'')"
  have path: "path \<noteq> []" by (simp add: path_def File_ascii_def path_chars_def)
  have hV: "h \<noteq> 0" "reads_file fw h content" using V by (simp_all add: has_volume_def)
  obtain w1 where 1: "OpenFile fw (s_RootVolume s0) path (world s0) = (EFI_SUCCESS, h, w1)"
    using V[unfolded has_volume_def, THEN conjunct2, THEN conjunct2, THEN conjunct2, THEN conjunct1, rule_format, of "s_RootVolume s0" path "world s0"]
    by (cases "OpenFile fw (s_RootVolume s0) path (world s0)") auto
  define f where "f = (File_ascii ''/kernel/kernel.elf'')\<lparr>m_Handle := h\<rparr>"
  have fh: "m_Handle f = h" by (simp add: f_def)
  have open_f: "File_Open fw (File_ascii ''/kernel/kernel.elf'') s0 = (True, f, s0\<lparr>world := w1\<rparr>)"
    using root path 1 by (simp add: File_Open_def on_world_def s0_def path_def f_def) (simp add: File_ascii_def)
  obtain n w2 where 2: "FileInfo fw h w1 = (EFI_SUCCESS, n, w2)" "n \<noteq> 0"
    using V[unfolded has_volume_def, THEN conjunct2, THEN conjunct2, THEN conjunct2, THEN conjunct2, THEN conjunct1, rule_format, of w1]
    by (cases "FileInfo fw h w1") auto
  have sz: "File_GetSize fw f (s0\<lparr>world := w1\<rparr>) = (n, s0\<lparr>world := w2\<rparr>)"
    using hV(1) by (simp add: File_GetSize_def fh on_world_def 2)
  define s3 where "s3 = on_black fw EFI_LIGHTGRAY
     (say fw ''OPENED (%llu bytes from ESP)\<newline>'' [ArgWord n] (on_black fw EFI_GREEN (s0\<lparr>world := w2\<rparr>)))"
  have m3: "memory s3 = memory s" by (simp add: s3_def s0_def)
  let ?l0 = "\<lparr>m_KernelBase = 0, m_KernelSize = 0, m_EntryPoint = 0\<rparr> :: ElfLoader"
  obtain l s4 where 4: "ElfLoader_Load fw g2 f ?l0 s3 = (True, f, l, s4)" "in_memory content pool (memory s3) (memory s4)"
    "l = \<lparr>m_KernelBase = Min (set (map p_vaddr (filter loads (image_programs content)))),
      m_KernelSize = Max (set (map (\<lambda>p. p_vaddr p + p_memsz p) (filter loads (image_programs content)))) -
        Min (set (map p_vaddr (filter loads (image_programs content)))), m_EntryPoint = e_entry (image_header content)\<rparr>"
    using kernel_image_in_memory[where fw = fw and f = f and content = content and pool = pool and garbage = g2 and l = ?l0 and s = s3] hV P K
    by (cases "ElfLoader_Load fw g2 f ?l0 s3") (auto simp: fh Let_def)
  show ?thesis
    by (rule that) (simp_all add: load_kernel_def Let_def s0_def[symmetric] open_f sz 2(2) s3_def[symmetric] 4(1),
      use 4(2) in \<open>simp_all add: m3 4(3)\<close>)
qed

lemma MemoryMap_Get_good:
  assumes "gives_map fw content pool" "gives_pool fw pool"
  obtains mm' data t where "MemoryMap_Get fw mm s = (True, mm', t)" "memory t = store_bytes pool data (memory s)"
    "clear_of_kernel content pool (length data)"
proof -
  obtain mm1 s1 where 1: "MemoryMap_Free fw mm s = (mm1, s1)" by fastforce
  have b: "m_Buffer mm1 = 0" "memory s1 = memory s" using 1 by (auto simp: MemoryMap_Free_def split: if_splits)
  let ?a = "\<lambda>mm. \<lparr>ma_size = m_MapSize mm, ma_key = m_MapKey mm, ma_descriptor_size = m_DescriptorSize mm,
     ma_descriptor_version = m_DescriptorVersion mm\<rparr>"
  obtain a2 d2 w2 where 2: "GetMemoryMap fw 0 (?a mm1) (world s1) = (EFI_BUFFER_TOO_SMALL, a2, d2, w2)"
    using assms(1)[unfolded gives_map_def, THEN conjunct1, rule_format, of "?a mm1" "world s1"]
    by (cases "GetMemoryMap fw 0 (?a mm1) (world s1)") auto
  define mm2 where "mm2 = mm1\<lparr>m_MapSize := ma_size a2 + 2048, m_MapKey := ma_key a2, m_DescriptorSize := ma_descriptor_size a2,
     m_DescriptorVersion := ma_descriptor_version a2\<rparr>"
  obtain w3 where 3: "AllocatePool fw (ma_size a2 + 2048) w2 = (EFI_SUCCESS, pool, w3)" "pool \<noteq> 0"
    using assms(2)[unfolded gives_pool_def, THEN conjunct2, rule_format, of "ma_size a2 + 2048" w2] assms(2)
    by (cases "AllocatePool fw (ma_size a2 + 2048) w2") (auto simp: gives_pool_def)
  obtain a4 d4 w4 where 4: "GetMemoryMap fw pool (?a mm2) w3 = (EFI_SUCCESS, a4, d4, w4)" "clear_of_kernel content pool (length d4)"
    using assms(1)[unfolded gives_map_def, THEN conjunct2, THEN conjunct1, rule_format, of "?a mm2" w3]
    by (cases "GetMemoryMap fw pool (?a mm2) w3") auto
  have "EFI_BUFFER_TOO_SMALL \<noteq> EFI_SUCCESS" by (simp add: EFI_BUFFER_TOO_SMALL_def EFI_SUCCESS_def)
  with 4(1) have "\<exists>mm'. MemoryMap_Get fw mm s = (True, mm', s1\<lparr>world := w4, memory := store_bytes pool d4 (memory s)\<rparr>)"
    by (simp add: MemoryMap_Get_def 1 query_map_def Let_def on_world_def b 2 3 mm2_def)
  then show ?thesis using that 4(2) by fastforce
qed

lemma leave_firmware_good:
  assumes "gives_map fw content pool" "gives_pool fw pool"
  obtains mm data t where "leave_firmware fw f s = Inr (mm, t)" "memory t = store_bytes pool data (memory s)"
    "clear_of_kernel content pool (length data)"
proof -
  define s2 where "s2 = app_Stall fw 1000000 (tell fw ''Exiting Boot Services...\<newline>'' (CloseRootVolume fw (snd (File_Close fw f s))))"
  have m2: "memory s2 = memory s" by (simp add: s2_def CloseRootVolume_def File_Close_def)
  obtain mm data s3 where 3: "MemoryMap_Get fw MemoryMap_new s2 = (True, mm, s3)" "memory s3 = store_bytes pool data (memory s2)"
    "clear_of_kernel content pool (length data)" by (rule MemoryMap_Get_good[OF assms])
  obtain w4 where 4: "ExitBootServices fw (m_MapKey mm) (world s3) = (EFI_SUCCESS, w4)"
    using assms(1)[unfolded gives_map_def, THEN conjunct2, THEN conjunct2, rule_format, of "m_MapKey mm" "world s3"]
    by (cases "ExitBootServices fw (m_MapKey mm) (world s3)") auto
  have "exit_loop fw 5 EFI_SUCCESS MemoryMap_new s2 = (Exited, mm, s3\<lparr>world := w4\<rparr>)"
    by (simp add: numeral_eq_Suc 3(1) on_world_def 4)
  then have "leave_firmware fw f s = Inr (mm, s3\<lparr>world := w4\<rparr>)"
    by (simp add: leave_firmware_def Let_def s2_def[symmetric])
  then show ?thesis using that 3(2,3) m2 by simp
qed

lemma loaded_store_clear:
  assumes "loaded content p m" "unat (p_vaddr p) + unat (p_memsz p) < 18446744073709551616"
    "apart (unat a) (length bs) (unat (p_vaddr p)) (unat (p_memsz p))" "unat a + length bs < 18446744073709551616"
  shows "loaded content p (store_bytes a bs m)"
  using assms apart_address[of a "length bs" "p_vaddr p" "unat (p_memsz p)"] by (simp add: loaded_def store_bytes_def)


definition one_mode :: ModeInfo where
  "one_mode = \<lparr>HorizontalResolution = 2, VerticalResolution = 2, PixelFormat = 1, RedMask = 0, GreenMask = 0, BlueMask = 0,
     PixelsPerScanLine = 2\<rparr>"

definition boot_firmware :: "u64 Firmware" where
  "boot_firmware = (disk_firmware tiny_kernel 0x100000)
     \<lparr>ReadFile := \<lambda>h n w. if h = 4 then (0, take (unat n) (drop (unat w) tiny_kernel), w + n) else (0, [], w),
      GetMemoryMap := \<lambda>p a w. if p = 0 then (EFI_BUFFER_TOO_SMALL, a, [], w)
        else (0, a\<lparr>ma_size := 40, ma_descriptor_size := 40\<rparr>, replicate 40 0, w),
      FileInfo := \<lambda>_ w. (0, 179, w), gop_mode := \<lambda>_. tiny_screen\<lparr>MaxMode := 1, Info := Some one_mode\<rparr>,
      QueryMode := \<lambda>_ w. (0, Some (9, one_mode), w)\<rparr>"

lemma boot_firmware_lists:
  assumes "s_RootVolume s \<noteq> 4"
  shows "ListDirectory boot_firmware g ''/'' s \<noteq> None"
proof -
  have "list_entries boot_firmware dir g t \<noteq> None" if "m_Handle dir \<noteq> 4" for dir t
    using that by (subst list_entries.simps) (simp add: on_world_def boot_firmware_def EFI_SUCCESS_def Let_def)
  then show ?thesis
    using assms by (auto simp: ListDirectory_def Let_def File_Open_def File_ascii_def path_chars_def widen_def split: prod.splits)
qed

lemma boot_firmware_volume: "has_volume boot_firmware 4 tiny_kernel g"
  using boot_firmware_lists
  by (auto simp: has_volume_def reads_file_def) (simp_all add: boot_firmware_def disk_firmware_def EFI_SUCCESS_def)

lemma boot_firmware_gop: "standard_gop boot_firmware [one_mode]"
  by (auto simp: standard_gop_def gop_at_def gop_mode_at_def boot_firmware_def disk_firmware_def tiny_screen_def EFI_SUCCESS_def
      unat_eq_zero)

lemma boot_firmware_pool: "gives_pool boot_firmware 0x100000"
  by (simp add: gives_pool_def boot_firmware_def disk_firmware_def EFI_SUCCESS_def)

lemma boot_firmware_map: "gives_map boot_firmware tiny_kernel 0x100000"
  by (simp add: gives_map_def boot_firmware_def disk_firmware_def EFI_SUCCESS_def clear_of_kernel_def tiny_kernel_programs loads_def
      PT_LOAD_def apart_def)


end
