(* ===== verification/GuiTypes.thy ===== *)
theory GuiTypes
  imports UserSpace
begin

text \<open>
  \<^verbatim>\<open>kernel/src/gui.cpp\<close>: the data of the window system, its theme, the text buffers and rectangles.

  A \<open>char\<close> array is the text up to its first NUL; what is behind it is never looked at. Indices into
  tables are natural numbers where the code keeps them unsigned and integers where it uses -1 for
  none. Screen coordinates are 32-bit words, signed (\<open>i32\<close>) where the code casts them.
\<close>

subsection \<open>Data\<close>

record Rect =
  r_x :: u32
  r_y :: u32
  r_width :: u32
  r_height :: u32

abbreviation rect :: "u32 \<Rightarrow> u32 \<Rightarrow> u32 \<Rightarrow> u32 \<Rightarrow> Rect" where
  "rect x y w h \<equiv> \<lparr>r_x = x, r_y = y, r_width = w, r_height = h\<rparr>"

datatype AppKind = FileManager | TextEditor | ImageViewer | Calculator | Settings | TaskManager | PackageManager
  | SystemMonitor | TerminalEmulator | SoftwareCenter

record Window =
  w_title :: cstring
  w_bounds :: Rect
  w_restore_bounds :: Rect
  w_color :: u32
  w_visible :: bool
  w_minimized :: bool
  w_maximized :: bool
  w_focused :: bool
  w_app :: AppKind
  w_desktop :: u8
  w_process_id :: u64
  w_thread_id :: u64

record AppPlacementState =
  ap_app :: AppKind
  ap_last_bounds :: Rect
  ap_valid :: bool

datatype AppLifecycleState = NotRunning | Opening | AppRunning | Minimized | Failed | NotResponding

record AppRuntimeState =
  ar_app :: AppKind
  ar_state :: AppLifecycleState
  ar_process_id :: u64
  ar_thread_id :: u64
  ar_launch_count :: u32
  ar_missed_heartbeat_count :: u32
  ar_transition_ticks :: u8
  ar_valid :: bool

definition kMaxWindows :: nat where "kMaxWindows = 12"
definition kEventQueueCapacity :: nat where "kEventQueueCapacity = 64"
definition kTopBarHeight :: u32 where "kTopBarHeight = 38"
definition kTaskBarHeight :: u32 where "kTaskBarHeight = 78"
definition kTitleBarHeight :: u32 where "kTitleBarHeight = 30"
definition kWindowBorder :: nat where "kWindowBorder = 2"
definition kButtonSize :: u32 where "kButtonSize = 16"
definition kButtonGap :: u32 where "kButtonGap = 7"
definition kCursorHeight :: u32 where "kCursorHeight = 16"
definition kCursorBackupSize :: nat where "kCursorBackupSize = 20"
definition kBackBufferMaxWidth :: u32 where "kBackBufferMaxWidth = 2048"
definition kBackBufferMaxHeight :: u32 where "kBackBufferMaxHeight = 2048"
definition kVirtualDesktopCount :: u8 where "kVirtualDesktopCount = 4"
definition kFontCacheEntries :: nat where "kFontCacheEntries = 32"
definition kDefaultAppMinWidth :: u32 where "kDefaultAppMinWidth = 480"
definition kDefaultAppMinHeight :: u32 where "kDefaultAppMinHeight = 320"
definition kCompactAppMinWidth :: u32 where "kCompactAppMinWidth = 360"
definition kCompactAppMinHeight :: u32 where "kCompactAppMinHeight = 260"
definition kApplicationCapacity :: nat where "kApplicationCapacity = 10"
definition kLauncherButtonWidth :: u32 where "kLauncherButtonWidth = 96"
definition kLauncherButtonHeight :: u32 where "kLauncherButtonHeight = 34"
definition kDialogMinWidth :: u32 where "kDialogMinWidth = 320"
definition kDialogMinHeight :: u32 where "kDialogMinHeight = 160"
definition kLaunchTransitionTicks :: u8 where "kLaunchTransitionTicks = 3"

record Theme =
  th_desktop_top :: u32
  th_desktop_bottom :: u32
  th_panel :: u32
  th_panel_edge :: u32
  th_window :: u32
  th_terminal :: u32
  th_monitor :: u32
  th_title_active :: u32
  th_title_inactive :: u32
  th_border_active :: u32
  th_border_inactive :: u32
  th_button_idle :: u32
  th_button_hover :: u32
  th_close :: u32
  th_minimize :: u32
  th_maximize :: u32
  th_text :: u32
  th_text_muted :: u32
  th_accent :: u32
  th_shadow_near :: u32
  th_shadow_mid :: u32
  th_shadow_far :: u32
  th_cursor :: u32
  th_cursor_shadow :: u32

definition kTheme :: Theme where
  "kTheme = \<lparr>th_desktop_top = 0xFF202733, th_desktop_bottom = 0xFF151B24, th_panel = 0xFF222B36, th_panel_edge = 0xFF303C49,
     th_window = 0xFF253241, th_terminal = 0xFF07120F, th_monitor = 0xFF342D46, th_title_active = 0xFF344D63,
     th_title_inactive = 0xFF2B3947, th_border_active = 0xFF6DB7D8, th_border_inactive = 0xFF52687A,
     th_button_idle = 0xFF3A4652, th_button_hover = 0xFF4A5C6B, th_close = 0xFFE25E6F, th_minimize = 0xFFE1B955,
     th_maximize = 0xFF61C083, th_text = 0xFFE8EEF4, th_text_muted = 0xFF9FB0C0, th_accent = 0xFF66D9A2,
     th_shadow_near = 0xFF111821, th_shadow_mid = 0xFF0C1118, th_shadow_far = 0xFF080B10, th_cursor = 0xFFFFFFFF,
     th_cursor_shadow = 0xFF101820\<rparr>"

datatype WindowControl = ControlNone | ControlClose | ControlMinimize | ControlMaximize

datatype CursorKind = Arrow | Hand | MoveCursor | ResizeCursor

subsection \<open>Text buffers\<close>

definition TextLength :: "cstring \<Rightarrow> nat" where
  "TextLength txt = (case txt of None \<Rightarrow> 0 | Some s \<Rightarrow> length s)"

fun text_equals_loop :: "string \<Rightarrow> string \<Rightarrow> bool" where
  "text_equals_loop (a # s) (b # t) = (if a \<noteq> b then False else text_equals_loop s t)"
| "text_equals_loop s t = (s = [] \<and> t = [])"

definition TextEquals :: "cstring \<Rightarrow> cstring \<Rightarrow> bool" where
  "TextEquals a b = (case (a, b) of (Some s, Some t) \<Rightarrow> text_equals_loop s t | _ \<Rightarrow> False)"

text \<open>What a buffer of \<open>capacity\<close> bytes holds after \<open>CopyText\<close>; a capacity of 0 leaves it alone.\<close>

definition CopyText :: "nat \<Rightarrow> cstring \<Rightarrow> string \<Rightarrow> string" where
  "CopyText capacity source destination =
     (if capacity = 0 then destination else case source of None \<Rightarrow> [] | Some s \<Rightarrow> take (capacity - 1) s)"

definition AppendText :: "nat \<Rightarrow> cstring \<Rightarrow> string \<Rightarrow> string" where
  "AppendText capacity source destination =
     (case source of None \<Rightarrow> destination
      | Some s \<Rightarrow> if capacity = 0 then destination else destination @ take (capacity - 1 - length destination) s)"

definition CopyTextLimited :: "nat \<Rightarrow> cstring \<Rightarrow> nat \<Rightarrow> string \<Rightarrow> string" where
  "CopyTextLimited capacity source max_chars destination =
     (if capacity = 0 then destination else case source of None \<Rightarrow> [] | Some s \<Rightarrow> take (min (capacity - 1) max_chars) s)"

lemma text_equals_loop_eq [simp]: "text_equals_loop s t \<longleftrightarrow> s = t"
  by (induction s t rule: text_equals_loop.induct) auto

lemma TextEquals_Some [simp]: "TextEquals (Some s) (Some t) \<longleftrightarrow> s = t"
  by (simp add: TextEquals_def)

lemma TextEquals_iff: "TextEquals a b \<longleftrightarrow> a = b \<and> a \<noteq> None"
  by (auto simp: TextEquals_def split: option.splits)

lemma CopyText_length: "capacity \<noteq> 0 \<Longrightarrow> length (CopyText capacity source destination) < capacity"
  by (auto simp: CopyText_def split: option.splits)

lemma CopyText_fits: "length s < capacity \<Longrightarrow> CopyText capacity (Some s) d = s"
  by (simp add: CopyText_def)

lemma AppendText_length: "length d < capacity \<Longrightarrow> length (AppendText capacity source d) < capacity"
  by (auto simp: AppendText_def split: option.splits)

subsection \<open>Rectangles\<close>

definition RectEmpty :: "Rect \<Rightarrow> bool" where
  "RectEmpty r \<longleftrightarrow> r_width r = 0 \<or> r_height r = 0"

definition ScreenRect :: "FramebufferInfo \<Rightarrow> Rect" where
  "ScreenRect fb = rect 0 0 (fb_width fb) (fb_height fb)"

definition IntersectRect :: "Rect \<Rightarrow> Rect \<Rightarrow> Rect" where
  "IntersectRect a b =
     (let x1 = max (r_x a) (r_x b); y1 = max (r_y a) (r_y b);
          x2 = min (r_x a + r_width a) (r_x b + r_width b); y2 = min (r_y a + r_height a) (r_y b + r_height b)
      in if x2 \<le> x1 \<or> y2 \<le> y1 then rect 0 0 0 0 else rect x1 y1 (x2 - x1) (y2 - y1))"

definition UnionRect :: "Rect \<Rightarrow> Rect \<Rightarrow> Rect" where
  "UnionRect a b =
     (if RectEmpty a then b else if RectEmpty b then a
      else
        let x1 = min (r_x a) (r_x b); y1 = min (r_y a) (r_y b);
            x2 = max (r_x a + r_width a) (r_x b + r_width b); y2 = max (r_y a + r_height a) (r_y b + r_height b)
        in rect x1 y1 (x2 - x1) (y2 - y1))"

definition ExpandRect :: "FramebufferInfo \<Rightarrow> Rect \<Rightarrow> u32 \<Rightarrow> Rect" where
  "ExpandRect fb r amount =
     (let x = (if r_x r > amount then r_x r - amount else 0); y = (if r_y r > amount then r_y r - amount else 0);
          max_x = min (r_x r + r_width r + amount) (fb_width fb); max_y = min (r_y r + r_height r + amount) (fb_height fb)
      in if max_x > x \<and> max_y > y then rect x y (max_x - x) (max_y - y) else rect 0 0 0 0)"

definition CursorRectAt :: "FramebufferInfo \<Rightarrow> i32 \<Rightarrow> i32 \<Rightarrow> Rect" where
  "CursorRectAt fb x y =
     IntersectRect (rect (if sint x < 0 then 0 else x) (if sint y < 0 then 0 else y)
        (of_nat kCursorBackupSize) (of_nat kCursorBackupSize)) (ScreenRect fb)"

definition WindowVisualRect :: "FramebufferInfo \<Rightarrow> Window \<Rightarrow> Rect" where
  "WindowVisualRect fb w = (if \<not> w_visible w \<or> w_minimized w then rect 0 0 0 0 else ExpandRect fb (w_bounds w) 18)"

definition PointInRect :: "i32 \<Rightarrow> i32 \<Rightarrow> Rect \<Rightarrow> bool" where
  "PointInRect x y r \<longleftrightarrow> sint x \<ge> sint (r_x r) \<and> sint y \<ge> sint (r_y r) \<and>
     sint x < sint (r_x r + r_width r) \<and> sint y < sint (r_y r + r_height r)"

definition FramebufferValid :: "FramebufferInfo \<Rightarrow> bool" where
  "FramebufferValid fb \<longleftrightarrow> fb_base_address fb \<noteq> 0 \<and> fb_width fb \<ge> 320 \<and> fb_height fb \<ge> 200 \<and>
     fb_pixels_per_scanline fb \<ge> fb_width fb"

definition PointInTitleBar :: "i32 \<Rightarrow> i32 \<Rightarrow> Window \<Rightarrow> bool" where
  "PointInTitleBar x y w = PointInRect x y (rect (r_x (w_bounds w)) (r_y (w_bounds w)) (r_width (w_bounds w)) kTitleBarHeight)"

definition ControlButtonRect :: "Window \<Rightarrow> WindowControl \<Rightarrow> Rect" where
  "ControlButtonRect w control =
     (let slot = (if control = ControlMaximize then 1 else if control = ControlMinimize then 2 else 0);
          x = r_x (w_bounds w) + r_width (w_bounds w) - 9 - kButtonSize - slot * (kButtonSize + kButtonGap);
          y = r_y (w_bounds w) + (kTitleBarHeight - kButtonSize) div 2
      in rect x y kButtonSize kButtonSize)"

definition HitWindowControl :: "i32 \<Rightarrow> i32 \<Rightarrow> Window \<Rightarrow> WindowControl" where
  "HitWindowControl x y w =
     (if PointInRect x y (ControlButtonRect w ControlClose) then ControlClose
      else if PointInRect x y (ControlButtonRect w ControlMaximize) then ControlMaximize
      else if PointInRect x y (ControlButtonRect w ControlMinimize) then ControlMinimize
      else ControlNone)"

definition UsableDesktopRect :: "FramebufferInfo \<Rightarrow> Rect" where
  "UsableDesktopRect fb =
     (let top = kTopBarHeight + 8;
          bottom = (if fb_height fb > kTaskBarHeight + 8 then fb_height fb - kTaskBarHeight - 8 else fb_height fb);
          height = (if bottom > top then bottom - top else fb_height fb)
      in rect 0 top (fb_width fb) height)"

subsection \<open>Applications\<close>

record ApplicationDescriptor =
  ad_app :: AppKind
  ad_id :: string
  ad_name :: string
  ad_executable_path :: string
  ad_icon_path :: string
  ad_color :: u32
  ad_desktop :: u8
  ad_min_width :: u32
  ad_min_height :: u32
  ad_preferred_width :: u32
  ad_preferred_height :: u32
  ad_compact :: bool

definition application ::
    "AppKind \<Rightarrow> string \<Rightarrow> string \<Rightarrow> string \<Rightarrow> string \<Rightarrow> u32 \<Rightarrow> u8 \<Rightarrow> u32 \<Rightarrow> u32 \<Rightarrow> u32 \<Rightarrow> u32 \<Rightarrow> bool \<Rightarrow> ApplicationDescriptor" where
  "application app app_id name path icon color desktop min_w min_h pref_w pref_h compact =
     \<lparr>ad_app = app, ad_id = app_id, ad_name = name, ad_executable_path = path, ad_icon_path = icon, ad_color = color,
      ad_desktop = desktop, ad_min_width = min_w, ad_min_height = min_h, ad_preferred_width = pref_w,
      ad_preferred_height = pref_h, ad_compact = compact\<rparr>"

definition kApplications :: "ApplicationDescriptor list" where
  "kApplications = [
     application FileManager ''files'' ''File Manager'' ''/system/apps/files.app'' ''/system/icons/files.bmp''
       (th_window kTheme) 0 480 320 640 420 False,
     application TextEditor ''edit'' ''Text Editor'' ''/system/apps/editor.app'' ''/system/icons/editor.bmp''
       0xFF293844 1 560 360 760 520 False,
     application ImageViewer ''image'' ''Image Viewer'' ''/system/apps/images.app'' ''/system/icons/images.bmp''
       0xFF263C3A 1 480 320 680 440 False,
     application Calculator ''calc'' ''Calculator'' ''/system/apps/calculator.app'' ''/system/icons/calculator.bmp''
       0xFF3C3443 1 360 260 380 300 True,
     application Settings ''set'' ''Settings'' ''/system/apps/settings.app'' ''/system/icons/settings.bmp''
       0xFF303A45 2 420 300 520 360 True,
     application TaskManager ''tasks'' ''Task Manager'' ''/system/apps/tasks.app'' ''/system/icons/tasks.bmp''
       0xFF303F38 2 480 320 640 420 False,
     application PackageManager ''pkg'' ''Package Manager'' ''/system/apps/packages.app'' ''/system/icons/packages.bmp''
       0xFF3C3847 2 480 320 640 420 False,
     application SystemMonitor ''mon'' ''System Monitor'' ''/system/apps/monitor.app'' ''/system/icons/monitor.bmp''
       (th_monitor kTheme) 0 420 300 520 360 True,
     application TerminalEmulator ''term'' ''Terminal Emulator'' ''/bin/terminal'' ''/system/icons/terminal.bmp''
       (th_terminal kTheme) 0 560 360 760 480 False,
     application SoftwareCenter ''store'' ''Software Center'' ''/system/apps/software.app'' ''/system/icons/software.bmp''
       0xFF343D3B 3 480 320 680 440 False]"

definition FindApplication :: "AppKind \<Rightarrow> ApplicationDescriptor option" where
  "FindApplication app = map_option (\<lambda>i. kApplications ! i) (find_index (\<lambda>d. ad_app d = app) kApplications)"

definition ApplicationRegistered :: "AppKind \<Rightarrow> bool" where
  "ApplicationRegistered app = (find_index (\<lambda>d. ad_app d = app) kApplications \<noteq> None)"

definition FindApplicationById :: "cstring \<Rightarrow> ApplicationDescriptor option" where
  "FindApplicationById app_id =
     (case app_id of None \<Rightarrow> None | Some s \<Rightarrow> map_option (\<lambda>i. kApplications ! i) (find_index (\<lambda>d. ad_id d = s) kApplications))"

definition AppMinWidth :: "AppKind \<Rightarrow> u32" where
  "AppMinWidth app = (case FindApplication app of None \<Rightarrow> kDefaultAppMinWidth | Some d \<Rightarrow> ad_min_width d)"

definition AppMinHeight :: "AppKind \<Rightarrow> u32" where
  "AppMinHeight app = (case FindApplication app of None \<Rightarrow> kDefaultAppMinHeight | Some d \<Rightarrow> ad_min_height d)"

text \<open>The code's comparisons, one field after the other.\<close>

definition clamp_size :: "u32 \<Rightarrow> u32 \<Rightarrow> u32 \<Rightarrow> u32" where
  "clamp_size value minimum available =
     (let v = (if value < minimum \<and> available \<ge> minimum then minimum else value) in if v > available then available else v)"

definition clamp_start :: "u32 \<Rightarrow> u32 \<Rightarrow> u32 \<Rightarrow> u32 \<Rightarrow> u32" where
  "clamp_start value n start available =
     (let last = (if available > n then start + available - n else start) in
      if value < start then start else if value > last then last else value)"

definition ClampWindowToUsableArea :: "FramebufferInfo \<Rightarrow> Rect \<Rightarrow> AppKind \<Rightarrow> Rect" where
  "ClampWindowToUsableArea fb bounds app =
     (let usable = UsableDesktopRect fb;
          w = clamp_size (r_width bounds) (AppMinWidth app) (r_width usable);
          h = clamp_size (r_height bounds) (AppMinHeight app) (r_height usable)
      in rect (clamp_start (r_x bounds) w (r_x usable) (r_width usable))
              (clamp_start (r_y bounds) h (r_y usable) (r_height usable)) w h)"

definition centred :: "u32 \<Rightarrow> u32 \<Rightarrow> u32 \<Rightarrow> u32" where
  "centred start available n = (if available > n then start + (available - n) div 2 else start)"

definition CenterWindowInUsableArea :: "FramebufferInfo \<Rightarrow> u32 \<Rightarrow> u32 \<Rightarrow> AppKind \<Rightarrow> Rect" where
  "CenterWindowInUsableArea fb width height app =
     (let usable = UsableDesktopRect fb in
      ClampWindowToUsableArea fb (rect (centred (r_x usable) (r_width usable) width) (centred (r_y usable) (r_height usable) height)
        width height) app)"

definition CenterDialogBounds :: "FramebufferInfo \<Rightarrow> u32 \<Rightarrow> u32 \<Rightarrow> Rect" where
  "CenterDialogBounds fb width height =
     (let usable = UsableDesktopRect fb;
          w = clamp_size width kDialogMinWidth (r_width usable); h = clamp_size height kDialogMinHeight (r_height usable)
      in rect (centred (r_x usable) (r_width usable) w) (centred (r_y usable) (r_height usable) h) w h)"

subsection \<open>A window placed by the window manager is inside the usable area\<close>

definition inside :: "Rect \<Rightarrow> Rect \<Rightarrow> bool" where
  "inside r area \<longleftrightarrow> unat (r_x area) \<le> unat (r_x r) \<and> unat (r_x r) + unat (r_width r) \<le> unat (r_x area) + unat (r_width area) \<and>
     unat (r_y area) \<le> unat (r_y r) \<and> unat (r_y r) + unat (r_height r) \<le> unat (r_y area) + unat (r_height area)"

lemma clamp_size_le: "clamp_size v m a \<le> a"
  by (simp add: clamp_size_def Let_def not_less)

lemma clamp_start_inside:
  assumes "s \<le> a" "unat start + unat a < 4294967296"
  shows "unat start \<le> unat (clamp_start v s start a) \<and> unat (clamp_start v s start a) + unat s \<le> unat start + unat a"
proof -
  have "unat (start + a - s) = unat start + unat a - unat s"
    using assms by (simp add: unat_sub_if_size word_size unat_word_ariths word_le_nat_alt)
  then show ?thesis using assms by (auto simp: clamp_start_def Let_def word_le_nat_alt word_less_nat_alt)
qed

lemma UsableDesktopRect_valid:
  assumes "FramebufferValid fb"
  shows "UsableDesktopRect fb = rect 0 46 (fb_width fb) (fb_height fb - 132)"
proof -
  have h: "fb_height fb \<ge> 200" using assms by (simp add: FramebufferValid_def)
  then have 1: "fb_height fb > 86" by (simp add: word_le_nat_alt word_less_nat_alt)
  have "unat (fb_height fb - 86) = unat (fb_height fb) - 86" using h by (simp add: unat_sub_if_size word_le_nat_alt)
  then have 2: "fb_height fb - 86 > 46" using h by (simp add: word_le_nat_alt word_less_nat_alt)
  have "fb_height fb - 78 - 8 = fb_height fb - 86" "fb_height fb - 86 - 46 = fb_height fb - 132" by simp_all
  then show ?thesis using 1 2 by (simp add: UsableDesktopRect_def Let_def kTopBarHeight_def kTaskBarHeight_def)
qed

lemma usable_height: "FramebufferValid fb \<Longrightarrow> unat (fb_height fb - 132) = unat (fb_height fb) - 132"
  by (simp add: FramebufferValid_def unat_sub_if_size word_le_nat_alt)

lemma ClampWindow_inside:
  assumes "FramebufferValid fb"
  shows "inside (ClampWindowToUsableArea fb r app) (UsableDesktopRect fb)"
proof -
  let ?w = "clamp_size (r_width r) (AppMinWidth app) (fb_width fb)"
  let ?h = "clamp_size (r_height r) (AppMinHeight app) (fb_height fb - 132)"
  have "unat (46 :: u32) + unat (fb_height fb - 132) < 4294967296"
    using usable_height[OF assms] u32_lt[of "fb_height fb"] assms by (simp add: FramebufferValid_def word_le_nat_alt)
  from clamp_start_inside[OF clamp_size_le this, of "r_y r" "r_height r" "AppMinHeight app"]
  have y: "unat (46 :: u32) \<le> unat (clamp_start (r_y r) ?h 46 (fb_height fb - 132)) \<and>
      unat (clamp_start (r_y r) ?h 46 (fb_height fb - 132)) + unat ?h \<le> unat (46 :: u32) + unat (fb_height fb - 132)" .
  have "unat (0 :: u32) + unat (fb_width fb) < 4294967296" using u32_lt[of "fb_width fb"] by simp
  from clamp_start_inside[OF clamp_size_le this, of "r_x r" "r_width r" "AppMinWidth app"]
  have "unat (0 :: u32) \<le> unat (clamp_start (r_x r) ?w 0 (fb_width fb)) \<and>
      unat (clamp_start (r_x r) ?w 0 (fb_width fb)) + unat ?w \<le> unat (0 :: u32) + unat (fb_width fb)" .
  with y show ?thesis
    by (simp only: inside_def ClampWindowToUsableArea_def Let_def UsableDesktopRect_valid[OF assms] Rect.simps)
qed

end
