(* ===== verification/GuiScreen.thy ===== *)
theory GuiScreen
  imports GuiTypes
begin

text \<open>
  \<^verbatim>\<open>kernel/src/gui.cpp\<close>: the back buffer, the clip rectangle, the drawing primitives and the cursor.

  Pixels are functions from the 32-bit index the code computes: \<open>front_px\<close> the frame buffer, \<open>back_px\<close> the
  array \<open>g_BackBuffer\<close>. \<open>to_back\<close> says whether \<open>g_DrawTarget\<close> is that array or null.
\<close>

record Screen =
  front_px :: "u32 \<Rightarrow> u32"
  back_px :: "u32 \<Rightarrow> u32"
  to_back :: bool
  g_DrawStride :: u32
  g_ClipRect :: Rect
  g_ClipEnabled :: bool
  g_BackBufferReady :: bool
  cb_x :: i32
  cb_y :: i32
  cb_pixels :: "u32 list"
  cb_valid :: bool

subsection \<open>Targets and pixels\<close>

definition Gui_ConvertColor :: "FramebufferInfo \<Rightarrow> u32 \<Rightarrow> u32" where
  "Gui_ConvertColor fb color =
     (let red = drop_bit 16 color AND 0xFF; green = drop_bit 8 color AND 0xFF; blue = color AND 0xFF in
      if fb_format fb = 0 then red OR push_bit 8 green OR push_bit 16 blue else blue OR push_bit 8 green OR push_bit 16 red)"

definition ActiveStride :: "FramebufferInfo \<Rightarrow> Screen \<Rightarrow> u32" where
  "ActiveStride fb s = (if to_back s then g_DrawStride s else fb_pixels_per_scanline fb)"

text \<open>\<open>ActivePixels()[i] = v\<close>.\<close>

definition store_active :: "u32 \<Rightarrow> u32 \<Rightarrow> Screen \<Rightarrow> Screen" where
  "store_active i v s = (if to_back s then s\<lparr>back_px := (back_px s)(i := v)\<rparr> else s\<lparr>front_px := (front_px s)(i := v)\<rparr>)"

definition BeginDrawToFramebuffer :: "Screen \<Rightarrow> Screen" where
  "BeginDrawToFramebuffer s = s\<lparr>to_back := False, g_DrawStride := 0, g_ClipEnabled := False\<rparr>"

definition BeginDrawToBackBuffer :: "FramebufferInfo \<Rightarrow> Rect \<Rightarrow> Screen \<Rightarrow> Screen" where
  "BeginDrawToBackBuffer fb clip s =
     s\<lparr>to_back := True, g_DrawStride := kBackBufferMaxWidth, g_ClipRect := IntersectRect clip (ScreenRect fb), g_ClipEnabled := True\<rparr>"

definition drawable :: "FramebufferInfo \<Rightarrow> Screen \<Rightarrow> u32 \<Rightarrow> u32 \<Rightarrow> bool" where
  "drawable fb s x y \<longleftrightarrow> x < fb_width fb \<and> y < fb_height fb \<and> (g_ClipEnabled s \<longrightarrow> PointInRect x y (g_ClipRect s))"

definition Gui_DrawPixel :: "FramebufferInfo \<Rightarrow> u32 \<Rightarrow> u32 \<Rightarrow> u32 \<Rightarrow> Screen \<Rightarrow> Screen" where
  "Gui_DrawPixel fb x y color s =
     (if drawable fb s x y then store_active (y * ActiveStride fb s + x) (Gui_ConvertColor fb color) s else s)"

definition ReadRawPixel :: "FramebufferInfo \<Rightarrow> u32 \<Rightarrow> u32 \<Rightarrow> Screen \<Rightarrow> u32" where
  "ReadRawPixel fb x y s =
     (if x \<ge> fb_width fb \<or> y \<ge> fb_height fb then 0 else front_px s (y * fb_pixels_per_scanline fb + x))"

definition WriteRawPixel :: "FramebufferInfo \<Rightarrow> u32 \<Rightarrow> u32 \<Rightarrow> u32 \<Rightarrow> Screen \<Rightarrow> Screen" where
  "WriteRawPixel fb x y v s =
     (if x \<ge> fb_width fb \<or> y \<ge> fb_height fb then s else s\<lparr>front_px := (front_px s)(y * fb_pixels_per_scanline fb + x := v)\<rparr>)"

text \<open>The points of a rectangle, row by row, as the loops over \<open>y\<close> and \<open>x\<close> visit them.\<close>

definition rect_points :: "FramebufferInfo \<Rightarrow> Rect \<Rightarrow> (u32 \<times> u32) list" where
  "rect_points fb r =
     concat (map (\<lambda>y. map (\<lambda>x. (x, y)) (u32_range (r_x r) (r_width r) (fb_width fb))) (u32_range (r_y r) (r_height r) (fb_height fb)))"

definition draw_points :: "FramebufferInfo \<Rightarrow> (u32 \<times> u32) list \<Rightarrow> u32 \<Rightarrow> Screen \<Rightarrow> Screen" where
  "draw_points fb ps color s = foldl (\<lambda>s (x, y). Gui_DrawPixel fb x y color s) s ps"

definition Gui_FillRect :: "FramebufferInfo \<Rightarrow> Rect \<Rightarrow> u32 \<Rightarrow> Screen \<Rightarrow> Screen" where
  "Gui_FillRect fb r color = draw_points fb (rect_points fb r) color"

definition CopyBackBufferToFramebuffer :: "FramebufferInfo \<Rightarrow> Rect \<Rightarrow> Screen \<Rightarrow> Screen" where
  "CopyBackBufferToFramebuffer fb dirty s =
     (let clipped = IntersectRect dirty (ScreenRect fb) in
      if \<not> g_BackBufferReady s \<or> RectEmpty clipped then s
      else
        s\<lparr>front_px := foldl (\<lambda>f (x, y). f(y * fb_pixels_per_scanline fb + x := back_px s (y * kBackBufferMaxWidth + x)))
             (front_px s) (rect_points fb clipped)\<rparr>)"

subsection \<open>Shapes and text\<close>

definition Graphics_DrawRect :: "FramebufferInfo \<Rightarrow> Rect \<Rightarrow> u32 \<Rightarrow> Screen \<Rightarrow> Screen" where
  "Graphics_DrawRect fb r color s =
     (if r_width r = 0 \<or> r_height r = 0 then s
      else
        Gui_FillRect fb (rect (r_x r + r_width r - 2) (r_y r) 2 (r_height r)) color
          (Gui_FillRect fb (rect (r_x r) (r_y r) 2 (r_height r)) color
            (Gui_FillRect fb (rect (r_x r) (r_y r + r_height r - 2) (r_width r) 2) color
              (Gui_FillRect fb (rect (r_x r) (r_y r) (r_width r) 2) color s))))"

text \<open>
  The line loop, over integers: the coordinates are those of a screen, far from the limits of 32
  bits. \<open>dx\<close> is the distance in x, \<open>dy\<close> minus the distance in y; \<open>fuel\<close> bounds the number of points.
\<close>

fun line_points :: "nat \<Rightarrow> int \<Rightarrow> int \<Rightarrow> int \<Rightarrow> int \<Rightarrow> int \<Rightarrow> int \<Rightarrow> int \<Rightarrow> int \<Rightarrow> int \<Rightarrow> (int \<times> int) list" where
  "line_points 0 x y x1 y1 dx dy sx sy err = []"
| "line_points (Suc n) x y x1 y1 dx dy sx sy err =
     (x, y) #
     (if x = x1 \<and> y = y1 then []
      else
        let e2 = 2 * err;
            (err1, x2) = (if e2 \<ge> dy then (err + dy, x + sx) else (err, x));
            (err2, y2) = (if e2 \<le> dx then (err1 + dx, y + sy) else (err1, y))
        in line_points n x2 y2 x1 y1 dx dy sx sy err2)"

definition line_between :: "int \<Rightarrow> int \<Rightarrow> int \<Rightarrow> int \<Rightarrow> (int \<times> int) list" where
  "line_between x0 y0 x1 y1 =
     (let dx = \<bar>x1 - x0\<bar>; dy = - \<bar>y1 - y0\<bar> in
      line_points (nat (dx - dy) + 1) x0 y0 x1 y1 dx dy (if x0 < x1 then 1 else -1) (if y0 < y1 then 1 else -1) (dx + dy))"

definition Graphics_DrawLine :: "FramebufferInfo \<Rightarrow> i32 \<Rightarrow> i32 \<Rightarrow> i32 \<Rightarrow> i32 \<Rightarrow> u32 \<Rightarrow> Screen \<Rightarrow> Screen" where
  "Graphics_DrawLine fb x0 y0 x1 y1 color =
     draw_points fb (map (\<lambda>(x, y). (of_int x, of_int y))
       (filter (\<lambda>(x, y). x \<ge> 0 \<and> y \<ge> 0) (line_between (sint x0) (sint y0) (sint x1) (sint y1)))) color"

definition glyph_rows :: "(char \<times> u8 list) list" where
  "glyph_rows = [
     (CHR ''A'', [14, 17, 17, 31, 17, 17, 17]),
     (CHR ''B'', [30, 17, 17, 30, 17, 17, 30]),
     (CHR ''C'', [14, 17, 16, 16, 16, 17, 14]),
     (CHR ''D'', [30, 17, 17, 17, 17, 17, 30]),
     (CHR ''E'', [31, 16, 16, 30, 16, 16, 31]),
     (CHR ''F'', [31, 16, 16, 30, 16, 16, 16]),
     (CHR ''G'', [14, 17, 16, 23, 17, 17, 15]),
     (CHR ''H'', [17, 17, 17, 31, 17, 17, 17]),
     (CHR ''I'', [14, 4, 4, 4, 4, 4, 14]),
     (CHR ''J'', [7, 2, 2, 2, 18, 18, 12]),
     (CHR ''K'', [17, 18, 20, 24, 20, 18, 17]),
     (CHR ''L'', [16, 16, 16, 16, 16, 16, 31]),
     (CHR ''M'', [17, 27, 21, 21, 17, 17, 17]),
     (CHR ''N'', [17, 25, 21, 19, 17, 17, 17]),
     (CHR ''O'', [14, 17, 17, 17, 17, 17, 14]),
     (CHR ''P'', [30, 17, 17, 30, 16, 16, 16]),
     (CHR ''Q'', [14, 17, 17, 17, 21, 18, 13]),
     (CHR ''R'', [30, 17, 17, 30, 20, 18, 17]),
     (CHR ''S'', [15, 16, 16, 14, 1, 1, 30]),
     (CHR ''T'', [31, 4, 4, 4, 4, 4, 4]),
     (CHR ''U'', [17, 17, 17, 17, 17, 17, 14]),
     (CHR ''V'', [17, 17, 17, 17, 10, 10, 4]),
     (CHR ''W'', [17, 17, 17, 21, 21, 21, 10]),
     (CHR ''X'', [17, 10, 4, 4, 4, 10, 17]),
     (CHR ''Y'', [17, 10, 4, 4, 4, 4, 4]),
     (CHR ''Z'', [31, 1, 2, 4, 8, 16, 31]),
     (CHR ''0'', [14, 17, 19, 21, 25, 17, 14]),
     (CHR ''1'', [4, 12, 4, 4, 4, 4, 14]),
     (CHR ''2'', [14, 17, 1, 2, 4, 8, 31]),
     (CHR ''3'', [30, 1, 1, 14, 1, 1, 30]),
     (CHR ''4'', [2, 6, 10, 18, 31, 2, 2]),
     (CHR ''5'', [31, 16, 16, 30, 1, 1, 30]),
     (CHR ''6'', [14, 16, 16, 30, 17, 17, 14]),
     (CHR ''7'', [31, 1, 2, 4, 8, 8, 8]),
     (CHR ''8'', [14, 17, 17, 14, 17, 17, 14]),
     (CHR ''9'', [14, 17, 17, 15, 1, 1, 14]),
     (CHR ''.'', [0, 0, 0, 0, 0, 12, 12]),
     (CHR '':'', [0, 12, 12, 0, 12, 12, 0]),
     (CHR ''%'', [24, 25, 2, 4, 8, 19, 3]),
     (CHR ''>'', [16, 8, 4, 2, 4, 8, 16]),
     (CHR ''-'', [0, 0, 0, 31, 0, 0, 0])]"

definition upper_case :: "char \<Rightarrow> char" where
  "upper_case c = (let n = of_char c :: nat in if 97 \<le> n \<and> n \<le> 122 then char_of (n - 32) else c)"

definition GlyphRow :: "char \<Rightarrow> nat \<Rightarrow> u8" where
  "GlyphRow ch row =
     (let c = upper_case ch in
      if c = CHR '' '' then 0
      else (case map_of glyph_rows c of Some r \<Rightarrow> r ! row | None \<Rightarrow> [31, 1, 2, 4, 0, 4, 0] ! row))"

definition Graphics_DrawChar :: "FramebufferInfo \<Rightarrow> u32 \<Rightarrow> u32 \<Rightarrow> char \<Rightarrow> u32 \<Rightarrow> Screen \<Rightarrow> Screen" where
  "Graphics_DrawChar fb x y c color s =
     foldl (\<lambda>s row. foldl (\<lambda>s col.
         if bit (GlyphRow c row) (4 - col) then Gui_FillRect fb (rect (x + of_nat col * 2) (y + of_nat row * 2) 2 2) color s else s)
       s [0 ..< 5]) s [0 ..< 7]"

fun draw_text_chars :: "FramebufferInfo \<Rightarrow> u32 \<Rightarrow> u32 \<Rightarrow> string \<Rightarrow> u32 \<Rightarrow> Screen \<Rightarrow> Screen" where
  "draw_text_chars fb cursor_x y [] color s = s"
| "draw_text_chars fb cursor_x y (c # cs) color s = draw_text_chars fb (cursor_x + 12) y cs color (Graphics_DrawChar fb cursor_x y c color s)"

definition Graphics_DrawText :: "FramebufferInfo \<Rightarrow> u32 \<Rightarrow> u32 \<Rightarrow> cstring \<Rightarrow> u32 \<Rightarrow> Screen \<Rightarrow> Screen" where
  "Graphics_DrawText fb x y txt color s = (case txt of None \<Rightarrow> s | Some cs \<Rightarrow> draw_text_chars fb x y cs color s)"

definition Graphics_DrawImage :: "FramebufferInfo \<Rightarrow> Rect \<Rightarrow> u32 \<Rightarrow> Screen \<Rightarrow> Screen" where
  "Graphics_DrawImage = Gui_FillRect"

subsection \<open>The cursor\<close>

definition fill_all :: "FramebufferInfo \<Rightarrow> (Rect \<times> u32) list \<Rightarrow> Screen \<Rightarrow> Screen" where
  "fill_all fb rs s = foldl (\<lambda>s (r, color). Gui_FillRect fb r color s) s rs"

definition DrawCursor :: "FramebufferInfo \<Rightarrow> CursorKind \<Rightarrow> i32 \<Rightarrow> i32 \<Rightarrow> Screen \<Rightarrow> Screen" where
  "DrawCursor fb kind mouse_x mouse_y s =
     (let x = (if sint mouse_x < 0 then 0 else mouse_x); y = (if sint mouse_y < 0 then 0 else mouse_y);
          shadow = th_cursor_shadow kTheme; light = th_cursor kTheme in
      case kind of
        Hand \<Rightarrow> fill_all fb [(rect (x + 3) (y + 2) 4 14, shadow), (rect (x + 1) (y + 6) 12 8, shadow),
          (rect (x + 2) (y + 1) 4 14, light), (rect x (y + 5) 12 8, light)] s
      | MoveCursor \<Rightarrow> Gui_FillRect fb (rect (x + 7) (y + 7) 3 3) light
          (Graphics_DrawLine fb (x + 8) y (x + 8) (y + 16) light (Graphics_DrawLine fb x (y + 8) (x + 16) (y + 8) light s))
      | _ \<Rightarrow> fill_all fb [(rect (x + 2) (y + 2) 2 kCursorHeight, shadow), (rect (x + 4) (y + 10) 2 6, shadow),
          (rect x y 2 kCursorHeight, light), (rect (x + 2) (y + 2) 2 12, light), (rect (x + 4) (y + 4) 2 8, light),
          (rect (x + 6) (y + 6) 2 4, light)] s)"

text \<open>The offsets of the backup, row by row.\<close>

definition backup_offsets :: "(nat \<times> nat) list" where
  "backup_offsets = concat (map (\<lambda>py. map (\<lambda>px. (px, py)) [0 ..< kCursorBackupSize]) [0 ..< kCursorBackupSize])"

definition SaveCursorBackground :: "FramebufferInfo \<Rightarrow> i32 \<Rightarrow> i32 \<Rightarrow> Screen \<Rightarrow> Screen" where
  "SaveCursorBackground fb mouse_x mouse_y s =
     s\<lparr>cb_x := mouse_x, cb_y := mouse_y, cb_valid := True,
       cb_pixels := map (\<lambda>(px, py). let sx = mouse_x + of_nat px; sy = mouse_y + of_nat py in
         if sint sx \<ge> 0 \<and> sint sy \<ge> 0 then ReadRawPixel fb sx sy s else 0) backup_offsets\<rparr>"

definition restore_pixel :: "FramebufferInfo \<Rightarrow> Screen \<Rightarrow> (nat \<times> nat) \<times> u32 \<Rightarrow> Screen" where
  "restore_pixel fb s p =
     (case p of ((px, py), v) \<Rightarrow> let sx = cb_x s + of_nat px; sy = cb_y s + of_nat py in
        if sint sx \<ge> 0 \<and> sint sy \<ge> 0 then WriteRawPixel fb sx sy v s else s)"

definition RestoreCursorBackground :: "FramebufferInfo \<Rightarrow> Screen \<Rightarrow> Screen" where
  "RestoreCursorBackground fb s =
     (if \<not> cb_valid s then s
      else (foldl (restore_pixel fb) s (zip backup_offsets (cb_pixels s)))\<lparr>cb_valid := False\<rparr>)"

definition PaintCursor :: "FramebufferInfo \<Rightarrow> CursorKind \<Rightarrow> i32 \<Rightarrow> i32 \<Rightarrow> Screen \<Rightarrow> Screen" where
  "PaintCursor fb kind mouse_x mouse_y s = DrawCursor fb kind mouse_x mouse_y (SaveCursorBackground fb mouse_x mouse_y s)"

subsection \<open>A line reaches its end\<close>

text \<open>
  After \<open>a\<close> steps in x and \<open>b\<close> in y the error term is \<open>dx * (1 + b) - d * (1 + a)\<close> for the distances
  \<open>dx\<close> and \<open>d\<close>: no step is taken past the end of either axis, and each round takes one.
\<close>

lemma line_points_end:
  fixes a b :: int
  assumes "0 \<le> a" "a \<le> dx" "0 \<le> b" "b \<le> d" "nat (dx - a) + nat (d - b) < n"
    "x1 = x0 + sx * dx" "y1 = y0 + sy * d" "sx = 1 \<or> sx = -1" "sy = 1 \<or> sy = -1"
  shows "let ps = line_points n (x0 + sx * a) (y0 + sy * b) x1 y1 dx (- d) sx sy (dx * (1 + b) - d * (1 + a)) in
    ps \<noteq> [] \<and> last ps = (x1, y1) \<and> (\<forall>(x, y) \<in> set ps. \<exists>i j. 0 \<le> i \<and> i \<le> dx \<and> 0 \<le> j \<and> j \<le> d \<and> x = x0 + sx * i \<and> y = y0 + sy * j)"
  using assms
proof (induction n arbitrary: a b)
  case (Suc n)
  let ?err = "dx * (1 + b) - d * (1 + a)"
  have here: "\<exists>i j. 0 \<le> i \<and> i \<le> dx \<and> 0 \<le> j \<and> j \<le> d \<and> x0 + sx * a = x0 + sx * i \<and> y0 + sy * b = y0 + sy * j"
    using Suc.prems(1-4) by blast
  have ends: "x0 + sx * a = x1 \<longleftrightarrow> a = dx" "y0 + sy * b = y1 \<longleftrightarrow> b = d"
    using Suc.prems(6-9) by auto
  show ?case
  proof (cases "a = dx \<and> b = d")
    case True
    then show ?thesis using ends here by (simp add: Let_def)
  next
    case False
    define mx where "mx = (2 * ?err \<ge> - d)"
    define my where "my = (2 * ?err \<le> dx)"
    have xstop: "\<not> mx" if "a = dx"
    proof -
      have "b < d" using that False Suc.prems(4) by simp
      then have "dx * (1 + b) \<le> dx * d" using Suc.prems(1,2) by (intro mult_left_mono) auto
      then show ?thesis using that \<open>b < d\<close> Suc.prems(3) by (simp add: mx_def algebra_simps)
    qed
    have ystop: "\<not> my" if "b = d"
    proof -
      have "a < dx" using that False Suc.prems(2) by simp
      then have "d * (1 + a) \<le> d * dx" using Suc.prems(3,4) by (intro mult_left_mono) auto
      then show ?thesis using that \<open>a < dx\<close> Suc.prems(1) by (simp add: my_def algebra_simps)
    qed
    have xgo: "a < dx" if mx using xstop that Suc.prems(2) by fastforce
    have ygo: "b < d" if my using ystop that Suc.prems(4) by fastforce
    have some: "mx \<or> my" using Suc.prems(1-4) by (auto simp: mx_def my_def)
    define a2 where "a2 = (if mx then a + 1 else a)"
    define b2 where "b2 = (if my then b + 1 else b)"
    have ab: "0 \<le> a2" "a2 \<le> dx" "0 \<le> b2" "b2 \<le> d" "nat (dx - a2) + nat (d - b2) < n"
      using xgo ygo some Suc.prems(1-5) by (auto simp: a2_def b2_def)
    let ?rest = "line_points n (x0 + sx * a2) (y0 + sy * b2) x1 y1 dx (- d) sx sy (dx * (1 + b2) - d * (1 + a2))"
    have "line_points (Suc n) (x0 + sx * a) (y0 + sy * b) x1 y1 dx (- d) sx sy ?err = (x0 + sx * a, y0 + sy * b) # ?rest"
      using False ends by (auto simp: Let_def a2_def b2_def mx_def my_def algebra_simps)
    then show ?thesis using Suc.IH[OF ab Suc.prems(6-9)] here by (auto simp: Let_def)
  qed
qed simp

lemma line_between_points:
  "last (line_between x0 y0 x1 y1) = (x1, y1)" "line_between x0 y0 x1 y1 \<noteq> []"
  "(x, y) \<in> set (line_between x0 y0 x1 y1) \<Longrightarrow> min x0 x1 \<le> x \<and> x \<le> max x0 x1 \<and> min y0 y1 \<le> y \<and> y \<le> max y0 y1"
proof -
  define dx d where "dx = \<bar>x1 - x0\<bar>" and "d = \<bar>y1 - y0\<bar>"
  define sx sy where "sx = (if x0 < x1 then 1 else - 1 :: int)" and "sy = (if y0 < y1 then 1 else - 1 :: int)"
  have x1: "x1 = x0 + sx * dx" and y1: "y1 = y0 + sy * d" by (simp_all add: dx_def d_def sx_def sy_def)
  define ps where "ps = line_points (nat (dx + d) + 1) (x0 + sx * 0) (y0 + sy * 0) x1 y1 dx (- d) sx sy (dx * (1 + 0) - d * (1 + 0))"
  have ps: "ps \<noteq> [] \<and> last ps = (x1, y1) \<and>
      (\<forall>(x, y) \<in> set ps. \<exists>i j. 0 \<le> i \<and> i \<le> dx \<and> 0 \<le> j \<and> j \<le> d \<and> x = x0 + sx * i \<and> y = y0 + sy * j)"
    unfolding ps_def
    by (rule line_points_end[unfolded Let_def]) (simp_all add: x1[symmetric] y1[symmetric], simp_all add: dx_def d_def sx_def sy_def nat_add_distrib)
  have eq: "line_between x0 y0 x1 y1 = ps"
    by (simp add: line_between_def ps_def dx_def d_def sx_def sy_def Let_def)
  show "last (line_between x0 y0 x1 y1) = (x1, y1)" "line_between x0 y0 x1 y1 \<noteq> []" using ps eq by auto
  assume "(x, y) \<in> set (line_between x0 y0 x1 y1)"
  then obtain i j where "0 \<le> i" "i \<le> dx" "0 \<le> j" "j \<le> d" "x = x0 + sx * i" "y = y0 + sy * j" using ps eq by fastforce
  then show "min x0 x1 \<le> x \<and> x \<le> max x0 x1 \<and> min y0 y1 \<le> y \<and> y \<le> max y0 y1"
    by (auto simp: dx_def d_def sx_def sy_def split: if_splits)
qed

subsection \<open>What drawing touches\<close>

definition active_px :: "Screen \<Rightarrow> u32 \<Rightarrow> u32" where
  "active_px s = (if to_back s then back_px s else front_px s)"

definition idle_px :: "Screen \<Rightarrow> u32 \<Rightarrow> u32" where
  "idle_px s = (if to_back s then front_px s else back_px s)"

text \<open>Everything of the screen but its pixels.\<close>

definition screen_frame :: "Screen \<Rightarrow> bool \<times> u32 \<times> Rect \<times> bool \<times> bool \<times> i32 \<times> i32 \<times> u32 list \<times> bool" where
  "screen_frame s = (to_back s, g_DrawStride s, g_ClipRect s, g_ClipEnabled s, g_BackBufferReady s, cb_x s, cb_y s, cb_pixels s, cb_valid s)"

definition paints_in :: "FramebufferInfo \<Rightarrow> (u32 \<Rightarrow> u32 \<Rightarrow> bool) \<Rightarrow> Screen \<Rightarrow> Screen \<Rightarrow> bool" where
  "paints_in fb P s t \<longleftrightarrow> screen_frame t = screen_frame s \<and> idle_px t = idle_px s \<and>
     (\<forall>i. active_px t i = active_px s i \<or> (\<exists>x y. drawable fb s x y \<and> P x y \<and> i = y * ActiveStride fb s + x))"

named_theorems paints \<open>drawing operations touch only drawable pixels\<close>

lemma paints_in_refl [simp, intro, paints]: "paints_in fb P s s"
  by (simp add: paints_in_def)

lemma paints_in_fields:
  assumes "paints_in fb P s t"
  shows "to_back t = to_back s" "ActiveStride fb' t = ActiveStride fb' s" "drawable fb' t = drawable fb' s"
    "cb_x t = cb_x s" "cb_y t = cb_y s" "cb_pixels t = cb_pixels s" "cb_valid t = cb_valid s" "g_BackBufferReady t = g_BackBufferReady s"
    "g_ClipEnabled t = g_ClipEnabled s" "g_ClipRect t = g_ClipRect s" "g_DrawStride t = g_DrawStride s"
  using assms by (simp_all add: paints_in_def screen_frame_def ActiveStride_def drawable_def fun_eq_iff)

lemma paints_in_trans:
  assumes st: "paints_in fb P s t" and tu: "paints_in fb P t u"
  shows "paints_in fb P s u"
  unfolding paints_in_def
proof (intro conjI allI)
  show "screen_frame u = screen_frame s" "idle_px u = idle_px s" using assms by (simp_all add: paints_in_def)
  fix i
  show "active_px u i = active_px s i \<or> (\<exists>x y. drawable fb s x y \<and> P x y \<and> i = y * ActiveStride fb s + x)"
  proof (cases "active_px u i = active_px t i")
    case True
    then show ?thesis using st by (simp add: paints_in_def)
  next
    case False
    then obtain x y where "drawable fb t x y" "P x y" "i = y * ActiveStride fb t + x" using tu unfolding paints_in_def by blast
    then show ?thesis using paints_in_fields(2,3)[OF st] by auto
  qed
qed

lemma paints_in_mono: "paints_in fb P s t \<Longrightarrow> (\<And>x y. P x y \<Longrightarrow> Q x y) \<Longrightarrow> paints_in fb Q s t"
  unfolding paints_in_def by blast

lemma paints_in_pixel: "P x y \<Longrightarrow> paints_in fb P s (Gui_DrawPixel fb x y color s)"
  by (auto simp: paints_in_def Gui_DrawPixel_def store_active_def active_px_def idle_px_def screen_frame_def)

lemma paints_in_foldl:
  "(\<And>s x. x \<in> set xs \<Longrightarrow> paints_in fb P s (f s x)) \<Longrightarrow> paints_in fb P s (foldl f s xs)"
proof (induction xs arbitrary: s)
  case (Cons x xs)
  have "paints_in fb P s (f s x)" by (rule Cons.prems) simp
  moreover have "paints_in fb P (f s x) (foldl f (f s x) xs)" by (rule Cons.IH) (use Cons.prems in simp)
  ultimately show ?case using paints_in_trans by simp
qed simp

lemma paints_in_points: "(\<And>x y. (x, y) \<in> set ps \<Longrightarrow> P x y) \<Longrightarrow> paints_in fb P s (draw_points fb ps color s)"
  unfolding draw_points_def by (rule paints_in_foldl) (auto intro: paints_in_pixel)

lemma paints_in_FillRect: "(\<And>x y. (x, y) \<in> set (rect_points fb r) \<Longrightarrow> P x y) \<Longrightarrow> paints_in fb P s (Gui_FillRect fb r color s)"
  unfolding Gui_FillRect_def by (rule paints_in_points)

text \<open>With no condition on the place, every operation qualifies.\<close>

definition paints_any :: "FramebufferInfo \<Rightarrow> Screen \<Rightarrow> Screen \<Rightarrow> bool" where
  "paints_any fb = paints_in fb (\<lambda>_ _. True)"

lemma paints_any_refl [simp, intro]: "paints_any fb s s"
  by (simp add: paints_any_def)

lemma paints_any_trans: "paints_any fb s t \<Longrightarrow> paints_any fb t u \<Longrightarrow> paints_any fb s u"
  unfolding paints_any_def by (rule paints_in_trans)

lemma paints_any_then: "paints_any fb s t \<Longrightarrow> (\<And>s. paints_any fb s (f s)) \<Longrightarrow> paints_any fb s (f t)"
  using paints_any_trans by blast

lemma paints_any_foldl: "(\<And>s x. paints_any fb s (f s x)) \<Longrightarrow> paints_any fb s (foldl f s xs)"
  unfolding paints_any_def by (rule paints_in_foldl)

lemma paints_any_points: "paints_any fb s (draw_points fb ps color s)"
  unfolding paints_any_def by (rule paints_in_points) simp

lemma paints_any_FillRect [paints]: "paints_any fb s (Gui_FillRect fb r color s)"
  by (simp add: Gui_FillRect_def paints_any_points)

lemma paints_any_DrawRect [paints]: "paints_any fb s (Graphics_DrawRect fb r color s)"
  unfolding Graphics_DrawRect_def by (auto intro!: paints_any_then[OF _ paints_any_FillRect] paints_any_FillRect)

lemma paints_any_DrawLine [paints]: "paints_any fb s (Graphics_DrawLine fb x0 y0 x1 y1 color s)"
  by (simp add: Graphics_DrawLine_def paints_any_points)

lemma paints_any_DrawChar: "paints_any fb s (Graphics_DrawChar fb x y c color s)"
  unfolding Graphics_DrawChar_def by (intro paints_any_foldl) (simp add: paints_any_FillRect)

lemma paints_any_DrawText [paints]: "paints_any fb s (Graphics_DrawText fb x y txt color s)"
proof -
  have "paints_any fb s (draw_text_chars fb cx y cs color s)" for cx cs
  proof (induction cs arbitrary: cx s)
    case (Cons c cs)
    have "paints_any fb (Graphics_DrawChar fb cx y c color s) (draw_text_chars fb (cx + 12) y cs color (Graphics_DrawChar fb cx y c color s))"
      by (rule Cons.IH)
    then show ?case by (simp add: paints_any_trans[OF paints_any_DrawChar])
  qed simp
  then show ?thesis by (simp add: Graphics_DrawText_def split: option.split)
qed

lemma paints_any_DrawImage [paints]: "paints_any fb s (Graphics_DrawImage fb r color s)"
  by (simp add: Graphics_DrawImage_def paints_any_FillRect)

subsection \<open>The cursor gives the screen back\<close>

definition cursor_box :: "u32 \<Rightarrow> u32 \<Rightarrow> u32 \<Rightarrow> u32 \<Rightarrow> bool" where
  "cursor_box mx my x y \<longleftrightarrow> unat mx \<le> unat x \<and> unat x < unat mx + kCursorBackupSize \<and>
     unat my \<le> unat y \<and> unat y < unat my + kCursorBackupSize"

text \<open>A coordinate the pointer may have: not negative, with room for the cursor below the sign bit.\<close>

definition pointer_coord :: "u32 \<Rightarrow> bool" where
  "pointer_coord x \<longleftrightarrow> unat x + kCursorBackupSize < 2 ^ 31"

lemma sint_small:
  assumes "unat (x :: u32) < 2 ^ 31"
  shows "sint x = int (unat x)"
proof -
  have "int (unat x) < int (2 ^ 31)" using assms by (simp only: of_nat_less_iff)
  then have "uint x < 2 ^ 31" by (simp only: uint_nat of_nat_power of_nat_numeral)
  moreover have "- (2 ^ 31) \<le> uint x" by (rule order_trans[of _ 0]) simp_all
  ultimately have "signed_take_bit 31 (uint x) = uint x" by (intro signed_take_bit_int_eq_self)
  then show ?thesis by (simp add: sint_uint)
qed

lemma pointer_coord_add:
  assumes "pointer_coord x" "n < kCursorBackupSize"
  shows "unat (x + of_nat n) = unat x + n" "sint (x + of_nat n) = int (unat x + n)"
proof -
  have n: "unat (of_nat n :: u32) = n" using assms by (simp add: unat_of_nat kCursorBackupSize_def)
  show u: "unat (x + of_nat n) = unat x + n"
    using assms n by (simp add: unat_word_ariths pointer_coord_def kCursorBackupSize_def)
  then show "sint (x + of_nat n) = int (unat x + n)"
    using assms by (simp add: sint_small pointer_coord_def kCursorBackupSize_def)
qed

lemma rect_points_box:
  assumes "pointer_coord mx" "pointer_coord my" "(x, y) \<in> set (rect_points fb (rect (mx + a) (my + b) w h))"
    "unat a + unat w \<le> kCursorBackupSize" "unat b + unat h \<le> kCursorBackupSize" "w \<noteq> 0" "h \<noteq> 0"
  shows "cursor_box mx my x y"
proof -
  have *: "unat p \<le> unat x \<and> unat x < unat p + kCursorBackupSize"
    if c: "pointer_coord p" and x: "x \<in> set (u32_range (p + a) w limit)" and w: "unat a + unat w \<le> kCursorBackupSize" "w \<noteq> 0"
    for p a w x limit :: u32
  proof -
    have w0: "unat w > 0" using w(2) by (simp add: unat_gt_0)
    have pa: "unat (p + a) = unat p + unat a" and paw: "unat (p + a + w) = unat p + unat a + unat w"
      using c w u32_lt[of p] by (simp_all add: unat_word_ariths pointer_coord_def kCursorBackupSize_def)
    obtain n where n: "x = of_nat n" "unat (p + a) \<le> n" "n < unat (p + a + w)" using x by (auto simp: u32_range_def)
    then have "unat x = n" using paw w c by (simp add: unat_of_nat pointer_coord_def kCursorBackupSize_def)
    then show ?thesis using n pa paw w by simp
  qed
  show ?thesis
    using assms *[of mx x a w "fb_width fb"] *[of my y b h "fb_height fb"] by (auto simp: rect_points_def cursor_box_def)
qed

lemma DrawLine_points:
  assumes "(x, y) \<in> set (map (\<lambda>(x, y). (of_int x, of_int y)) (filter (\<lambda>(x, y). x \<ge> 0 \<and> y \<ge> 0) (line_between (sint x0) (sint y0) (sint x1) (sint y1))))"
    and "cursor_box mx my x0 y0" "cursor_box mx my x1 y1" "pointer_coord mx" "pointer_coord my"
  shows "cursor_box mx my x y"
proof -
  obtain i j where ij: "x = of_int i" "y = of_int j" "(i, j) \<in> set (line_between (sint x0) (sint y0) (sint x1) (sint y1))"
    using assms(1) by auto
  have s: "sint x0 = int (unat x0)" "sint y0 = int (unat y0)" "sint x1 = int (unat x1)" "sint y1 = int (unat y1)"
    using assms(2-) sint_small[of x0] sint_small[of x1] sint_small[of y0] sint_small[of y1]
    by (simp_all add: cursor_box_def pointer_coord_def)
  have i: "min (int (unat x0)) (int (unat x1)) \<le> i" "i \<le> max (int (unat x0)) (int (unat x1))"
    and j: "min (int (unat y0)) (int (unat y1)) \<le> j" "j \<le> max (int (unat y0)) (int (unat y1))"
    using line_between_points(3)[OF ij(3)] unfolding s by blast+
  have lt: "int (unat z) < 4294967296" for z :: u32 using u32_lt[of z] by linarith
  have "0 \<le> i" "i < 4294967296" "0 \<le> j" "j < 4294967296"
    using i j lt[of x0] lt[of x1] lt[of y0] lt[of y1] by linarith+
  then have "int (unat x) = i" "int (unat y) = j" using ij(1,2) by (simp_all add: unsigned_of_int take_bit_int_eq_self)
  then show ?thesis using i j assms(2,3) unfolding cursor_box_def by linarith
qed

lemma paints_in_fill_all:
  assumes "\<And>r color x y. (r, color) \<in> set rs \<Longrightarrow> (x, y) \<in> set (rect_points fb r) \<Longrightarrow> P x y"
  shows "paints_in fb P s (fill_all fb rs s)"
  unfolding fill_all_def
proof (rule paints_in_foldl)
  fix s q assume q: "q \<in> set rs"
  obtain r color where "q = (r, color)" by (cases q)
  then show "paints_in fb P s (case q of (r, color) \<Rightarrow> Gui_FillRect fb r color s)"
    using assms[of r color] q by (simp add: paints_in_FillRect)
qed

lemma DrawCursor_box:
  assumes "pointer_coord mx" "pointer_coord my"
  shows "paints_in fb (cursor_box mx my) s (DrawCursor fb kind mx my s)"
proof -
  have nonneg: "\<not> sint mx < 0" "\<not> sint my < 0"
    using assms sint_small[of mx] sint_small[of my] by (simp_all add: pointer_coord_def)
  have fill: "cursor_box mx my x y" if "(x, y) \<in> set (rect_points fb (rect (mx + a) (my + b) w h))"
    "unat a + unat w \<le> kCursorBackupSize \<and> unat b + unat h \<le> kCursorBackupSize \<and> w \<noteq> 0 \<and> h \<noteq> 0" for x y a b w h
    using rect_points_box[OF assms that(1)] that(2) by blast
  note fills = fill[of _ _ 0 0, simplified] fill[of _ _ 0, simplified] fill[of _ _ _ 0, simplified] fill
  have box: "cursor_box mx my (mx + a) (my + b)" if "unat a < kCursorBackupSize" "unat b < kCursorBackupSize" for a b
    using pointer_coord_add(1)[OF assms(1) that(1)] pointer_coord_add(1)[OF assms(2) that(2)] that by (simp add: cursor_box_def)
  note boxes = box[of 0, simplified] box[of _ 0, simplified] box
  have line: "paints_in fb (cursor_box mx my) s (Graphics_DrawLine fb x0 y0 x1 y1 color s)"
    if "cursor_box mx my x0 y0" "cursor_box mx my x1 y1" for s x0 y0 x1 y1 color
    unfolding Graphics_DrawLine_def by (rule paints_in_points) (rule DrawLine_points[OF _ that assms])
  show ?thesis
  proof (cases "kind = MoveCursor")
    case True
    have 1: "paints_in fb (cursor_box mx my) s (Graphics_DrawLine fb mx (my + 8) (mx + 16) (my + 8) c s)" for s c
      by (rule line) (rule boxes; simp add: kCursorBackupSize_def)+
    have 2: "paints_in fb (cursor_box mx my) s (Graphics_DrawLine fb (mx + 8) my (mx + 8) (my + 16) c s)" for s c
      by (rule line) (rule boxes; simp add: kCursorBackupSize_def)+
    have 3: "paints_in fb (cursor_box mx my) s (Gui_FillRect fb (rect (mx + 7) (my + 7) 3 3) c s)" for s c
      by (rule paints_in_FillRect) (erule fill, simp add: kCursorBackupSize_def)
    show ?thesis using True nonneg paints_in_trans[OF 1 paints_in_trans[OF 2 3]] by (simp add: DrawCursor_def Let_def)
  next
    case False
    then show ?thesis using nonneg
      by (cases kind) (auto simp: DrawCursor_def Let_def kCursorHeight_def kCursorBackupSize_def intro!: paints_in_fill_all elim!: fills)
  qed
qed

definition backup_index :: "FramebufferInfo \<Rightarrow> i32 \<Rightarrow> i32 \<Rightarrow> nat \<times> nat \<Rightarrow> u32" where
  "backup_index fb mx my p = (my + of_nat (snd p)) * fb_pixels_per_scanline fb + (mx + of_nat (fst p))"

definition backup_on_screen :: "FramebufferInfo \<Rightarrow> i32 \<Rightarrow> i32 \<Rightarrow> nat \<times> nat \<Rightarrow> bool" where
  "backup_on_screen fb mx my p \<longleftrightarrow> sint (mx + of_nat (fst p)) \<ge> 0 \<and> sint (my + of_nat (snd p)) \<ge> 0 \<and>
     mx + of_nat (fst p) < fb_width fb \<and> my + of_nat (snd p) < fb_height fb"

lemma restore_pixel_eq:
  "restore_pixel fb s (p, v) =
     (if backup_on_screen fb (cb_x s) (cb_y s) p then s\<lparr>front_px := (front_px s)(backup_index fb (cb_x s) (cb_y s) p := v)\<rparr> else s)"
  by (cases p) (auto simp: restore_pixel_def WriteRawPixel_def backup_on_screen_def backup_index_def Let_def not_le)

lemma restore_fold:
  assumes "\<And>p v. (p, v) \<in> set l \<Longrightarrow> backup_on_screen fb (cb_x s) (cb_y s) p \<Longrightarrow> v = f (backup_index fb (cb_x s) (cb_y s) p)"
  shows "front_px (foldl (restore_pixel fb) s l) i =
    (if \<exists>p \<in> fst ` set l. backup_on_screen fb (cb_x s) (cb_y s) p \<and> i = backup_index fb (cb_x s) (cb_y s) p then f i else front_px s i)"
  using assms
proof (induction l arbitrary: s)
  case (Cons q l)
  obtain p v where q: "q = (p, v)" by (cases q)
  have kept: "cb_x (restore_pixel fb s q) = cb_x s" "cb_y (restore_pixel fb s q) = cb_y s" by (simp_all add: q restore_pixel_eq)
  have "front_px (foldl (restore_pixel fb) (restore_pixel fb s q) l) i =
    (if \<exists>p \<in> fst ` set l. backup_on_screen fb (cb_x s) (cb_y s) p \<and> i = backup_index fb (cb_x s) (cb_y s) p then f i
     else front_px (restore_pixel fb s q) i)"
    by (rule Cons.IH[of "restore_pixel fb s q", unfolded kept]) (use Cons.prems in simp)
  moreover have "v = f (backup_index fb (cb_x s) (cb_y s) p)" if "backup_on_screen fb (cb_x s) (cb_y s) p"
    using Cons.prems[of p v] that q by simp
  ultimately show ?case by (auto simp: q restore_pixel_eq)
qed simp

lemma backup_offsets_iff: "p \<in> set backup_offsets \<longleftrightarrow> fst p < kCursorBackupSize \<and> snd p < kCursorBackupSize"
  by (cases p) (auto simp: backup_offsets_def image_iff)

lemma box_backup:
  assumes "cursor_box mx my x y" "pointer_coord mx" "pointer_coord my" "x < fb_width fb" "y < fb_height fb"
  shows "\<exists>p \<in> set backup_offsets. backup_on_screen fb mx my p \<and> y * fb_pixels_per_scanline fb + x = backup_index fb mx my p"
proof -
  define p where "p = (unat x - unat mx, unat y - unat my)"
  have p: "p \<in> set backup_offsets" using assms(1) by (auto simp: backup_offsets_iff p_def cursor_box_def)
  have "mx + of_nat (fst p) = x" "my + of_nat (snd p) = y"
    using assms(1) by (simp_all add: p_def cursor_box_def of_nat_diff)
  moreover have "sint (mx + of_nat (fst p)) \<ge> 0" "sint (my + of_nat (snd p)) \<ge> 0"
    using pointer_coord_add(2)[OF assms(2)] pointer_coord_add(2)[OF assms(3)] p by (simp_all add: backup_offsets_iff)
  ultimately have "backup_on_screen fb mx my p" "y * fb_pixels_per_scanline fb + x = backup_index fb mx my p"
    using assms(4,5) by (simp_all add: backup_on_screen_def backup_index_def)
  with p show ?thesis by blast
qed

lemma cursor_restored:
  assumes "pointer_coord mx" "pointer_coord my" "\<not> to_back s"
  shows "front_px (RestoreCursorBackground fb (PaintCursor fb kind mx my s)) = front_px s"
proof
  fix i
  define s1 where "s1 = SaveCursorBackground fb mx my s"
  define t where "t = PaintCursor fb kind mx my s"
  have paint: "paints_in fb (cursor_box mx my) s1 t"
    unfolding t_def s1_def PaintCursor_def by (rule DrawCursor_box) (use assms in auto)
  have s1: "cb_x s1 = mx" "cb_y s1 = my" "cb_valid s1" "front_px s1 = front_px s" "\<not> to_back s1"
    using assms by (simp_all add: s1_def SaveCursorBackground_def)
  then have t: "cb_x t = mx" "cb_y t = my" "cb_valid t" "\<not> to_back t" "cb_pixels t = cb_pixels s1"
    using paints_in_fields[OF paint] by simp_all
  have px: "v = front_px s (backup_index fb mx my p)"
    if "(p, v) \<in> set (zip backup_offsets (cb_pixels t))" "backup_on_screen fb mx my p" for p v
  proof -
    obtain g where g: "cb_pixels t = map g backup_offsets"
      "g = (\<lambda>(px, py). let sx = mx + of_nat px; sy = my + of_nat py in if sint sx \<ge> 0 \<and> sint sy \<ge> 0 then ReadRawPixel fb sx sy s else 0)"
      by (simp add: t s1_def SaveCursorBackground_def)
    have "v = g p" using that(1) unfolding g(1) by (auto simp: zip_map2 in_set_conv_nth)
    then show ?thesis using that(2)
      by (cases p) (auto simp: g(2) Let_def backup_on_screen_def ReadRawPixel_def backup_index_def not_le)
  qed
  have offs: "fst ` set (zip backup_offsets (cb_pixels t)) = set backup_offsets"
    unfolding set_map[symmetric] by (simp add: t s1_def SaveCursorBackground_def)
  have "front_px (RestoreCursorBackground fb t) i =
    (if \<exists>p \<in> set backup_offsets. backup_on_screen fb mx my p \<and> i = backup_index fb mx my p then front_px s i else front_px t i)"
    using restore_fold[of "zip backup_offsets (cb_pixels t)" fb t "front_px s" i, unfolded offs t(1,2)] px t(3)
    by (simp add: RestoreCursorBackground_def)
  moreover have "front_px t i = front_px s i \<or> (\<exists>p \<in> set backup_offsets. backup_on_screen fb mx my p \<and> i = backup_index fb mx my p)"
  proof (cases "front_px t i = front_px s i")
    case False
    then obtain x y where "drawable fb s1 x y" "cursor_box mx my x y" "i = y * ActiveStride fb s1 + x"
      using paint s1 t unfolding paints_in_def active_px_def by auto
    then show ?thesis using box_backup[of mx my x y fb] assms s1 by (simp add: drawable_def ActiveStride_def)
  qed simp
  ultimately show "front_px (RestoreCursorBackground fb (PaintCursor fb kind mx my s)) i = front_px s i" by (auto simp: t_def)
qed

text \<open>
  C25. Painting the pointer on the frame buffer and then restoring what was under it gives back the frame
  buffer it was painted on, for every pointer shape and every pointer position, also where the shape is cut by the edge
  of the screen.
\<close>

theorem pointer_leaves_no_trace:
  assumes "pointer_coord mx" "pointer_coord my" "\<not> to_back s"
  shows "front_px (RestoreCursorBackground fb (PaintCursor fb kind mx my s)) = front_px s"
  using assms by (rule cursor_restored)

theorem pointer_leaves_no_trace_witness:
  "let fb = \<lparr>fb_base_address = 1, fb_width = 320, fb_height = 200, fb_pixels_per_scanline = 320, fb_format = 1\<rparr>;
       s = \<lparr>front_px = (\<lambda>i. i), back_px = (\<lambda>_. 0), to_back = False, g_DrawStride = 0, g_ClipRect = rect 0 0 0 0, g_ClipEnabled = False,
         g_BackBufferReady = True, cb_x = 0, cb_y = 0, cb_pixels = [], cb_valid = False\<rparr>
   in front_px (RestoreCursorBackground fb (PaintCursor fb Hand 310 195 s)) 62400 = 62400"
  by (simp add: Let_def pointer_leaves_no_trace pointer_coord_def kCursorBackupSize_def)

end
