(* ===== verification/GuiWindows.thy ===== *)
theory GuiWindows
  imports GuiScreen
begin

text \<open>
  \<^verbatim>\<open>kernel/src/gui.cpp\<close>: the window list, focus, placement and the virtual desktops.

  \<open>g_Windows\<close> is the list of the first \<open>window_count\<close> windows, bottom to top: the entries of the array
  behind them are written in full before they are read. A window passed by reference is passed by its index.
\<close>

record Desk =
  g_Framebuffer :: FramebufferInfo
  g_Windows :: "Window list"
  g_AppPlacements :: "AppPlacementState list"
  g_AppRuntimes :: "AppRuntimeState list"
  g_DragWindowIndex :: int
  g_MouseDownWindowIndex :: int
  g_ActiveDesktop :: u8
  g_ActiveWindowIndex :: int
  g_NotificationText :: cstring
  g_NotificationColor :: u32
  gui_user :: UserSpace

definition window_count :: "'a Desk_scheme \<Rightarrow> nat" where
  "window_count s = length (g_Windows s)"

definition gui_log :: "LogLevel \<Rightarrow> string \<Rightarrow> 'a Desk_scheme \<Rightarrow> 'a Desk_scheme" where
  "gui_log level message s = s\<lparr>gui_user := log_us level message (gui_user s)\<rparr>"

definition update_window :: "nat \<Rightarrow> (Window \<Rightarrow> Window) \<Rightarrow> 'a Desk_scheme \<Rightarrow> 'a Desk_scheme" where
  "update_window i f s = s\<lparr>g_Windows := (g_Windows s)[i := f (g_Windows s ! i)]\<rparr>"

text \<open>Whether a window is shown on a desktop.\<close>

definition shown :: "u8 \<Rightarrow> Window \<Rightarrow> bool" where
  "shown desktop w \<longleftrightarrow> w_visible w \<and> \<not> w_minimized w \<and> w_desktop w = desktop"

subsection \<open>Finding windows\<close>

text \<open>The loop from the top window down; -1 when none qualifies.\<close>

fun top_where :: "(Window \<Rightarrow> bool) \<Rightarrow> Window list \<Rightarrow> nat \<Rightarrow> int" where
  "top_where P ws 0 = -1"
| "top_where P ws (Suc n) = (if P (ws ! n) then int n else top_where P ws n)"

definition FindTopWindowAt :: "i32 \<Rightarrow> i32 \<Rightarrow> bool \<Rightarrow> 'a Desk_scheme \<Rightarrow> int" where
  "FindTopWindowAt x y title_bar_only s =
     top_where (\<lambda>w. shown (g_ActiveDesktop s) w \<and> (if title_bar_only then PointInTitleBar x y w else PointInRect x y (w_bounds w)))
       (g_Windows s) (window_count s)"

definition FindTopVisibleWindow :: "'a Desk_scheme \<Rightarrow> int" where
  "FindTopVisibleWindow s = top_where (shown (g_ActiveDesktop s)) (g_Windows s) (window_count s)"

definition FindWindowByApp :: "AppKind \<Rightarrow> u8 \<Rightarrow> 'a Desk_scheme \<Rightarrow> int" where
  "FindWindowByApp app desktop s =
     (case find_index (\<lambda>w. w_app w = app \<and> w_desktop w = desktop) (g_Windows s) of None \<Rightarrow> -1 | Some i \<Rightarrow> int i)"

subsection \<open>Order and focus\<close>

definition to_front :: "nat \<Rightarrow> Window list \<Rightarrow> Window list" where
  "to_front i ws = take i ws @ drop (Suc i) ws @ [ws ! i]"

definition BringWindowToFront :: "nat \<Rightarrow> 'a Desk_scheme \<Rightarrow> int \<times> 'a Desk_scheme" where
  "BringWindowToFront index s =
     (if index \<ge> window_count s \<or> index + 1 = window_count s then (if index < window_count s then int index else -1, s)
      else
        let last = int (window_count s) - 1
        in (last, s\<lparr>g_Windows := to_front index (g_Windows s), g_DragWindowIndex := last\<rparr>))"

definition ClearWindowFocus :: "'a Desk_scheme \<Rightarrow> 'a Desk_scheme" where
  "ClearWindowFocus s = s\<lparr>g_Windows := map (\<lambda>w. w\<lparr>w_focused := False\<rparr>) (g_Windows s), g_ActiveWindowIndex := -1\<rparr>"

definition FocusWindow :: "nat \<Rightarrow> 'a Desk_scheme \<Rightarrow> bool \<times> 'a Desk_scheme" where
  "FocusWindow index s =
     (if index \<ge> window_count s \<or> \<not> w_visible (g_Windows s ! index) \<or> w_minimized (g_Windows s ! index) \<or>
         w_desktop (g_Windows s ! index) \<noteq> g_ActiveDesktop s then (False, s)
      else
        let (front_index, s1) = BringWindowToFront index (ClearWindowFocus s) in
        if front_index < 0 then (False, s1)
        else (True, gui_log Info ''[GUI] focus changed''
               (update_window (nat front_index) (\<lambda>w. w\<lparr>w_focused := True\<rparr>) (s1\<lparr>g_ActiveWindowIndex := front_index\<rparr>))))"

definition FocusTopVisibleWindow :: "'a Desk_scheme \<Rightarrow> 'a Desk_scheme" where
  "FocusTopVisibleWindow s =
     (let top = FindTopVisibleWindow s in if top \<ge> 0 then snd (FocusWindow (nat top) s) else ClearWindowFocus s)"

subsection \<open>Placements\<close>

definition FindAppPlacement :: "AppKind \<Rightarrow> 'a Desk_scheme \<Rightarrow> nat option" where
  "FindAppPlacement app s = find_index (\<lambda>p. ap_valid p \<and> ap_app p = app) (g_AppPlacements s)"

definition RememberAppPlacement :: "AppKind \<Rightarrow> Rect \<Rightarrow> 'a Desk_scheme \<Rightarrow> 'a Desk_scheme" where
  "RememberAppPlacement app bounds s =
     (case FindAppPlacement app s of
        Some i \<Rightarrow> s\<lparr>g_AppPlacements := (g_AppPlacements s)[i := (g_AppPlacements s ! i)\<lparr>ap_last_bounds := bounds\<rparr>]\<rparr>
      | None \<Rightarrow> (case find_index (\<lambda>p. \<not> ap_valid p) (g_AppPlacements s) of
            None \<Rightarrow> s
          | Some i \<Rightarrow> s\<lparr>g_AppPlacements := (g_AppPlacements s)[i := \<lparr>ap_app = app, ap_last_bounds = bounds, ap_valid = True\<rparr>]\<rparr>))"

definition InitialWindowBounds :: "ApplicationDescriptor \<Rightarrow> u32 \<Rightarrow> 'a Desk_scheme \<Rightarrow> Rect" where
  "InitialWindowBounds app ordinal s =
     (let fb = g_Framebuffer s in
      case FindAppPlacement (ad_app app) s of
        Some i \<Rightarrow> ClampWindowToUsableArea fb (ap_last_bounds (g_AppPlacements s ! i)) (ad_app app)
      | None \<Rightarrow>
          let centered = CenterWindowInUsableArea fb (ad_preferred_width app) (ad_preferred_height app) (ad_app app);
              stagger = (ordinal mod 3) * 28
          in ClampWindowToUsableArea fb (centered\<lparr>r_x := r_x centered + stagger, r_y := r_y centered + stagger\<rparr>) (ad_app app))"

subsection \<open>Moving, sizing and adding windows\<close>

text \<open>\<open>window.bounds = bounds; RememberAppPlacement(window.app, window.bounds)\<close>.\<close>

definition place_window :: "nat \<Rightarrow> Rect \<Rightarrow> 'a Desk_scheme \<Rightarrow> 'a Desk_scheme" where
  "place_window i bounds s =
     RememberAppPlacement (w_app (g_Windows s ! i)) bounds (update_window i (\<lambda>w. w\<lparr>w_bounds := bounds\<rparr>) s)"

definition MoveWindow :: "nat \<Rightarrow> i32 \<Rightarrow> i32 \<Rightarrow> 'a Desk_scheme \<Rightarrow> 'a Desk_scheme" where
  "MoveWindow i x y s =
     (let w = g_Windows s ! i in
      if w_maximized w then s
      else
        let moved = (w_bounds w)\<lparr>r_x := (if sint x < 0 then 0 else x), r_y := (if sint y < 0 then 0 else y)\<rparr>
        in place_window i (ClampWindowToUsableArea (g_Framebuffer s) moved (w_app w)) s)"

definition AddWindow ::
    "cstring \<Rightarrow> Rect \<Rightarrow> u32 \<Rightarrow> AppKind \<Rightarrow> u8 \<Rightarrow> u64 \<Rightarrow> u64 \<Rightarrow> 'a Desk_scheme \<Rightarrow> bool \<times> 'a Desk_scheme" where
  "AddWindow title bounds color app desktop process_id thread_id s =
     (if title = None \<or> r_width bounds = 0 \<or> r_height bounds = 0 \<or> desktop \<ge> kVirtualDesktopCount \<or>
         window_count s \<ge> kMaxWindows then (False, s)
      else
        let placed = ClampWindowToUsableArea (g_Framebuffer s) bounds app;
            w = \<lparr>w_title = title, w_bounds = placed, w_restore_bounds = placed, w_color = color, w_visible = True,
                 w_minimized = False, w_maximized = False, w_focused = False, w_app = app, w_desktop = desktop,
                 w_process_id = process_id, w_thread_id = thread_id\<rparr>
        in (True, gui_log Info ''[GUI] window registered''
              ((RememberAppPlacement app placed s)\<lparr>g_Windows := g_Windows s @ [w]\<rparr>)))"

definition ResizeWindow :: "nat \<Rightarrow> u32 \<Rightarrow> u32 \<Rightarrow> 'a Desk_scheme \<Rightarrow> bool \<times> 'a Desk_scheme" where
  "ResizeWindow i width height s =
     (let w = g_Windows s ! i in
      if w_maximized w then (False, s)
      else
        let b = ClampWindowToUsableArea (g_Framebuffer s) ((w_bounds w)\<lparr>r_width := width, r_height := height\<rparr>) (w_app w)
        in (r_width b \<ge> AppMinWidth (w_app w) \<and> r_height b \<ge> AppMinHeight (w_app w), place_window i b s))"

datatype SnapEdge = SnapLeft | SnapRight | SnapTop

definition SnapWindow :: "nat \<Rightarrow> SnapEdge \<Rightarrow> 'a Desk_scheme \<Rightarrow> bool \<times> 'a Desk_scheme" where
  "SnapWindow i edge s =
     (let fb = g_Framebuffer s; w = g_Windows s ! i; usable = UsableDesktopRect fb; half = r_width usable div 2 in
      if fb_width fb = 0 \<or> fb_height fb \<le> kTopBarHeight + kTaskBarHeight then (False, s)
      else
        let target = (case edge of SnapTop \<Rightarrow> usable
              | SnapLeft \<Rightarrow> rect (r_x usable) (r_y usable) half (r_height usable)
              | SnapRight \<Rightarrow> rect (r_x usable + half) (r_y usable) (r_width usable - half) (r_height usable))
        in (True, place_window i (ClampWindowToUsableArea fb target (w_app w))
              (update_window i (\<lambda>w. w\<lparr>w_restore_bounds := w_bounds w, w_maximized := edge = SnapTop\<rparr>) s)))"

definition SwitchVirtualDesktop :: "u8 \<Rightarrow> 'a Desk_scheme \<Rightarrow> bool \<times> 'a Desk_scheme" where
  "SwitchVirtualDesktop desktop s =
     (if desktop \<ge> kVirtualDesktopCount then (False, s)
      else (True, FocusTopVisibleWindow (s\<lparr>g_ActiveDesktop := desktop, g_DragWindowIndex := -1\<rparr>)))"

subsection \<open>Minimising, maximising and restoring\<close>

definition FindAppRuntime :: "AppKind \<Rightarrow> 'a Desk_scheme \<Rightarrow> nat option" where
  "FindAppRuntime app s = find_index (\<lambda>r. ar_valid r \<and> ar_app r = app) (g_AppRuntimes s)"

definition update_runtime :: "nat \<Rightarrow> (AppRuntimeState \<Rightarrow> AppRuntimeState) \<Rightarrow> 'a Desk_scheme \<Rightarrow> 'a Desk_scheme" where
  "update_runtime i f s = s\<lparr>g_AppRuntimes := (g_AppRuntimes s)[i := f (g_AppRuntimes s ! i)]\<rparr>"

text \<open>\<open>if (runtime && runtime->state == from) runtime->state = to\<close> for the application's runtime.\<close>

definition change_runtime_state :: "AppKind \<Rightarrow> AppLifecycleState \<Rightarrow> AppLifecycleState \<Rightarrow> 'a Desk_scheme \<Rightarrow> 'a Desk_scheme" where
  "change_runtime_state app src dst s =
     (case FindAppRuntime app s of None \<Rightarrow> s
      | Some i \<Rightarrow> if ar_state (g_AppRuntimes s ! i) = src then update_runtime i (\<lambda>r. r\<lparr>ar_state := dst\<rparr>) s else s)"

definition MinimizeWindow :: "nat \<Rightarrow> 'a Desk_scheme \<Rightarrow> 'a Desk_scheme" where
  "MinimizeWindow index s =
     (if index \<ge> window_count s then s
      else
        let s1 = update_window index (\<lambda>w. w\<lparr>w_minimized := True\<rparr>) s;
            s2 = (change_runtime_state (w_app (g_Windows s ! index)) AppRunning Minimized s1)\<lparr>g_DragWindowIndex := -1\<rparr>
        in if g_ActiveWindowIndex s2 = int index then FocusTopVisibleWindow s2 else s2)"

definition ToggleMaximizeWindow :: "nat \<Rightarrow> 'a Desk_scheme \<Rightarrow> 'a Desk_scheme" where
  "ToggleMaximizeWindow index s =
     (if index \<ge> window_count s then s
      else
        let fb = g_Framebuffer s; w = g_Windows s ! index; usable = UsableDesktopRect fb in
        if w_maximized w then
          place_window index (ClampWindowToUsableArea fb (w_restore_bounds w) (w_app w))
            (update_window index (\<lambda>w. w\<lparr>w_maximized := False\<rparr>) s)
        else
          let target = rect (r_x usable + 8) (r_y usable) (if r_width usable > 16 then r_width usable - 16 else r_width usable) (r_height usable)
          in update_window index (\<lambda>w. w\<lparr>w_restore_bounds := w_bounds w,
               w_bounds := ClampWindowToUsableArea fb target (w_app w), w_maximized := True\<rparr>) s)"

definition RestoreWindowFromTaskbar :: "nat \<Rightarrow> 'a Desk_scheme \<Rightarrow> 'a Desk_scheme" where
  "RestoreWindowFromTaskbar index s =
     (if index \<ge> window_count s \<or> \<not> w_visible (g_Windows s ! index) then s
      else snd (FocusWindow index (change_runtime_state (w_app (g_Windows s ! index)) Minimized AppRunning
             (update_window index (\<lambda>w. w\<lparr>w_minimized := False\<rparr>) s))))"

definition ShowNotification :: "cstring \<Rightarrow> u32 \<Rightarrow> 'a Desk_scheme \<Rightarrow> 'a Desk_scheme" where
  "ShowNotification txt color s = s\<lparr>g_NotificationText := txt, g_NotificationColor := color\<rparr>"

subsection \<open>The invariant of the desktop\<close>

definition placed :: "FramebufferInfo \<Rightarrow> Window list \<Rightarrow> bool" where
  "placed fb ws \<longleftrightarrow> (\<forall>w \<in> set ws. inside (w_bounds w) (UsableDesktopRect fb))"

text \<open>The active window is shown on the active desktop and is the one window with the focus flag.\<close>

definition focus_ok :: "Window list \<Rightarrow> int \<Rightarrow> u8 \<Rightarrow> bool" where
  "focus_ok ws active desktop \<longleftrightarrow>
     (active = -1 \<or> 0 \<le> active \<and> active < int (length ws) \<and> shown desktop (ws ! nat active)) \<and>
     (\<forall>i < length ws. w_focused (ws ! i) \<longleftrightarrow> int i = active)"

text \<open>Every application has at most one window, on its own desktop.\<close>

definition apps_ok :: "Window list \<Rightarrow> bool" where
  "apps_ok ws \<longleftrightarrow> distinct (map w_app ws) \<and> (\<forall>w \<in> set ws. \<exists>d \<in> set kApplications. w_app w = ad_app d \<and> w_desktop w = ad_desktop d)"

definition placements_ok :: "AppPlacementState list \<Rightarrow> bool" where
  "placements_ok ps \<longleftrightarrow> length ps = kMaxWindows \<and>
     (\<forall>i < length ps. \<forall>j < length ps. ap_valid (ps ! i) \<and> ap_valid (ps ! j) \<and> ap_app (ps ! i) = ap_app (ps ! j) \<longrightarrow> i = j)"

definition runtimes_ok :: "AppRuntimeState list \<Rightarrow> bool" where
  "runtimes_ok rs \<longleftrightarrow> list_all ar_valid rs \<and> map ar_app rs = map ad_app kApplications"

definition index_ok :: "int \<Rightarrow> Window list \<Rightarrow> bool" where
  "index_ok i ws \<longleftrightarrow> -1 \<le> i \<and> i < int (length ws)"

text \<open>All of it but the focus, and with the focus.\<close>

definition desk_pre :: "'a Desk_scheme \<Rightarrow> bool" where
  "desk_pre s \<longleftrightarrow> FramebufferValid (g_Framebuffer s) \<and> placed (g_Framebuffer s) (g_Windows s) \<and> apps_ok (g_Windows s) \<and>
     index_ok (g_DragWindowIndex s) (g_Windows s) \<and> index_ok (g_MouseDownWindowIndex s) (g_Windows s) \<and>
     placements_ok (g_AppPlacements s) \<and> runtimes_ok (g_AppRuntimes s) \<and> g_ActiveDesktop s < kVirtualDesktopCount"

definition desk_ok :: "'a Desk_scheme \<Rightarrow> bool" where
  "desk_ok s \<longleftrightarrow> desk_pre s \<and> focus_ok (g_Windows s) (g_ActiveWindowIndex s) (g_ActiveDesktop s)"

lemma desk_ok_pre: "desk_ok s \<Longrightarrow> desk_pre s"
  by (simp add: desk_ok_def)

subsection \<open>Lists of windows\<close>

lemma top_where_cases:
  "top_where P ws n = -1 \<and> (\<forall>i < n. \<not> P (ws ! i)) \<or>
   (\<exists>k < n. top_where P ws n = int k \<and> P (ws ! k) \<and> (\<forall>i. k < i \<and> i < n \<longrightarrow> \<not> P (ws ! i)))"
proof (induction n)
  case (Suc n)
  show ?case
  proof (cases "P (ws ! n)")
    case True
    then show ?thesis by auto
  next
    case False
    from Suc.IH show ?thesis
    proof (elim disjE)
      assume "top_where P ws n = - 1 \<and> (\<forall>i<n. \<not> P (ws ! i))"
      then show ?thesis using False by (auto simp: less_Suc_eq)
    next
      assume "\<exists>k<n. top_where P ws n = int k \<and> P (ws ! k) \<and> (\<forall>i. k < i \<and> i < n \<longrightarrow> \<not> P (ws ! i))"
      then obtain k where "k < n" "top_where P ws n = int k" "P (ws ! k)" "\<forall>i. k < i \<and> i < n \<longrightarrow> \<not> P (ws ! i)" by blast
      then show ?thesis using False by (auto simp: less_Suc_eq)
    qed
  qed
qed simp

lemma length_to_front [simp]: "i < length ws \<Longrightarrow> length (to_front i ws) = length ws"
  by (simp add: to_front_def)

lemma to_front_perm: "i < length ws \<Longrightarrow> mset (to_front i ws) = mset ws"
  unfolding to_front_def by (subst (4) id_take_nth_drop[of i ws]) (simp_all add: ac_simps)

lemma set_to_front [simp]: "i < length ws \<Longrightarrow> set (to_front i ws) = set ws"
  using mset_eq_setD[OF to_front_perm] .

lemma to_front_last: "i < length ws \<Longrightarrow> to_front i ws ! (length ws - Suc 0) = ws ! i"
  by (simp add: to_front_def nth_append)

lemma to_front_map: "i < length ws \<Longrightarrow> to_front i (map f ws) = map f (to_front i ws)"
  by (simp add: to_front_def take_map drop_map)

lemma apps_ok_cong:
  assumes "mset (map (\<lambda>w. (w_app w, w_desktop w)) vs) = mset (map (\<lambda>w. (w_app w, w_desktop w)) ws)"
  shows "apps_ok vs = apps_ok ws"
proof -
  let ?p = "\<lambda>w. (w_app w, w_desktop w)"
  have "mset (map fst (map ?p vs)) = mset (map fst (map ?p ws))" using assms unfolding mset_map by simp
  then have "mset (map w_app vs) = mset (map w_app ws)" by (simp add: comp_def)
  then have d: "distinct (map w_app vs) = distinct (map w_app ws)" by (rule mset_eq_imp_distinct_iff)
  have ball: "(\<forall>w \<in> set us. \<exists>d \<in> set kApplications. w_app w = ad_app d \<and> w_desktop w = ad_desktop d) =
      (\<forall>p \<in> set (map ?p us). \<exists>d \<in> set kApplications. fst p = ad_app d \<and> snd p = ad_desktop d)" for us :: "Window list"
    by simp
  show ?thesis unfolding apps_ok_def d ball mset_eq_setD[OF assms] by simp
qed

lemma map_update_id: "g y = g (xs ! i) \<Longrightarrow> map g (xs[i := y]) = map g xs"
  by (cases "i < length xs"; rule nth_equalityI) (auto simp: nth_list_update list_update_beyond)

subsection \<open>What each operation keeps\<close>

lemma gui_log_keeps [simp]:
  "g_Framebuffer (gui_log l m s) = g_Framebuffer s" "g_Windows (gui_log l m s) = g_Windows s"
  "g_AppPlacements (gui_log l m s) = g_AppPlacements s" "g_AppRuntimes (gui_log l m s) = g_AppRuntimes s"
  "g_DragWindowIndex (gui_log l m s) = g_DragWindowIndex s" "g_MouseDownWindowIndex (gui_log l m s) = g_MouseDownWindowIndex s"
  "g_ActiveDesktop (gui_log l m s) = g_ActiveDesktop s" "g_ActiveWindowIndex (gui_log l m s) = g_ActiveWindowIndex s"
  by (simp_all add: gui_log_def)

lemma update_window_keeps [simp]:
  "g_Framebuffer (update_window i f s) = g_Framebuffer s" "g_AppPlacements (update_window i f s) = g_AppPlacements s"
  "g_AppRuntimes (update_window i f s) = g_AppRuntimes s" "g_DragWindowIndex (update_window i f s) = g_DragWindowIndex s"
  "g_MouseDownWindowIndex (update_window i f s) = g_MouseDownWindowIndex s" "g_ActiveDesktop (update_window i f s) = g_ActiveDesktop s"
  "g_ActiveWindowIndex (update_window i f s) = g_ActiveWindowIndex s" "length (g_Windows (update_window i f s)) = length (g_Windows s)"
  "window_count (update_window i f s) = window_count s"
  by (simp_all add: update_window_def window_count_def)

lemma RememberAppPlacement_keeps [simp]:
  "g_Framebuffer (RememberAppPlacement a b s) = g_Framebuffer s" "g_Windows (RememberAppPlacement a b s) = g_Windows s"
  "g_AppRuntimes (RememberAppPlacement a b s) = g_AppRuntimes s" "g_DragWindowIndex (RememberAppPlacement a b s) = g_DragWindowIndex s"
  "g_MouseDownWindowIndex (RememberAppPlacement a b s) = g_MouseDownWindowIndex s"
  "g_ActiveDesktop (RememberAppPlacement a b s) = g_ActiveDesktop s" "g_ActiveWindowIndex (RememberAppPlacement a b s) = g_ActiveWindowIndex s"
  "window_count (RememberAppPlacement a b s) = window_count s"
  by (simp_all add: RememberAppPlacement_def window_count_def split: option.splits)

lemma change_runtime_state_keeps [simp]:
  "g_Framebuffer (change_runtime_state a b c s) = g_Framebuffer s" "g_Windows (change_runtime_state a b c s) = g_Windows s"
  "g_AppPlacements (change_runtime_state a b c s) = g_AppPlacements s" "g_DragWindowIndex (change_runtime_state a b c s) = g_DragWindowIndex s"
  "g_MouseDownWindowIndex (change_runtime_state a b c s) = g_MouseDownWindowIndex s"
  "g_ActiveDesktop (change_runtime_state a b c s) = g_ActiveDesktop s" "g_ActiveWindowIndex (change_runtime_state a b c s) = g_ActiveWindowIndex s"
  "window_count (change_runtime_state a b c s) = window_count s"
  by (simp_all add: change_runtime_state_def update_runtime_def window_count_def split: option.splits)

lemma RememberAppPlacement_ok:
  assumes "placements_ok (g_AppPlacements s)"
  shows "placements_ok (g_AppPlacements (RememberAppPlacement app b s))"
proof (cases "FindAppPlacement app s")
  case None
  then have no: "\<not> (ap_valid (g_AppPlacements s ! i) \<and> ap_app (g_AppPlacements s ! i) = app)" if "i < length (g_AppPlacements s)" for i
    using find_index_NoneD[OF None[unfolded FindAppPlacement_def] that] by simp
  show ?thesis
  proof (cases "find_index (\<lambda>p. \<not> ap_valid p) (g_AppPlacements s)")
    case None2: None
    then show ?thesis using assms None by (simp add: RememberAppPlacement_def)
  next
    case (Some k)
    let ?q = "\<lparr>ap_app = app, ap_last_bounds = b, ap_valid = True\<rparr>"
    have k: "k < length (g_AppPlacements s)" using find_indexD(1)[OF Some] .
    have "i = j" if ij: "i < length (g_AppPlacements s)" "j < length (g_AppPlacements s)"
      "ap_valid ((g_AppPlacements s)[k := ?q] ! i)" "ap_valid ((g_AppPlacements s)[k := ?q] ! j)"
      "ap_app ((g_AppPlacements s)[k := ?q] ! i) = ap_app ((g_AppPlacements s)[k := ?q] ! j)" for i j
      using that no[OF ij(1)] no[OF ij(2)] k assms unfolding placements_ok_def
      by (cases "i = k"; cases "j = k") (auto simp: nth_list_update)
    then show ?thesis using assms None Some by (simp add: RememberAppPlacement_def placements_ok_def)
  qed
next
  case (Some k)
  let ?q = "(g_AppPlacements s ! k)\<lparr>ap_last_bounds := b\<rparr>"
  have k: "k < length (g_AppPlacements s)" using find_indexD(1)[OF Some[unfolded FindAppPlacement_def]] .
  then have "ap_valid ((g_AppPlacements s)[k := ?q] ! i) = ap_valid (g_AppPlacements s ! i)"
    "ap_app ((g_AppPlacements s)[k := ?q] ! i) = ap_app (g_AppPlacements s ! i)" for i by (simp_all add: nth_list_update)
  then show ?thesis using assms by (simp add: RememberAppPlacement_def Some placements_ok_def)
qed

lemma runtimes_ok_update:
  assumes "runtimes_ok rs" "i < length rs" "ar_valid (f (rs ! i)) = ar_valid (rs ! i)" "ar_app (f (rs ! i)) = ar_app (rs ! i)"
  shows "runtimes_ok (rs[i := f (rs ! i)])"
proof -
  have "map ar_app (rs[i := f (rs ! i)]) = map ar_app rs" by (rule map_update_id) (rule assms(4))
  moreover have "list_all ar_valid (rs[i := f (rs ! i)])"
    using assms unfolding runtimes_ok_def list_all_length by (simp add: nth_list_update)
  ultimately show ?thesis using assms(1) by (simp add: runtimes_ok_def)
qed

lemma update_runtime_ok:
  assumes "runtimes_ok (g_AppRuntimes s)" "\<And>r. ar_valid (f r) = ar_valid r" "\<And>r. ar_app (f r) = ar_app r"
  shows "runtimes_ok (g_AppRuntimes (update_runtime i f s))"
  using assms runtimes_ok_update[of "g_AppRuntimes s" i f]
  by (cases "i < length (g_AppRuntimes s)") (simp_all add: update_runtime_def list_update_beyond not_less)

lemma change_runtime_state_ok:
  "runtimes_ok (g_AppRuntimes s) \<Longrightarrow> runtimes_ok (g_AppRuntimes (change_runtime_state a b c s))"
  by (auto simp: change_runtime_state_def intro!: update_runtime_ok split: option.split)

lemma update_window_set: "w \<in> set (g_Windows (update_window i f s)) \<Longrightarrow> w \<in> set (g_Windows s) \<or> i < window_count s \<and> w = f (g_Windows s ! i)"
  unfolding update_window_def window_count_def
  by (cases "i < length (g_Windows s)") (auto simp: list_update_beyond not_less dest: set_update_subset_insert[THEN subsetD])

lemma update_window_pre:
  assumes pre: "desk_pre s" and app: "\<And>w. w_app (f w) = w_app w" "\<And>w. w_desktop (f w) = w_desktop w"
    and b: "i < window_count s \<Longrightarrow> inside (w_bounds (f (g_Windows s ! i))) (UsableDesktopRect (g_Framebuffer s))"
  shows "desk_pre (update_window i f s)"
proof -
  have "apps_ok (g_Windows (update_window i f s)) = apps_ok (g_Windows s)"
  proof (rule apps_ok_cong)
    have "map (\<lambda>w. (w_app w, w_desktop w)) (g_Windows (update_window i f s)) = map (\<lambda>w. (w_app w, w_desktop w)) (g_Windows s)"
      by (simp add: update_window_def map_update_id app)
    then show "mset (map (\<lambda>w. (w_app w, w_desktop w)) (g_Windows (update_window i f s))) = mset (map (\<lambda>w. (w_app w, w_desktop w)) (g_Windows s))"
      by (simp only:)
  qed
  moreover have "placed (g_Framebuffer s) (g_Windows (update_window i f s))"
    using pre b unfolding placed_def desk_pre_def by (blast dest: update_window_set)
  ultimately show ?thesis using pre by (simp add: desk_pre_def index_ok_def)
qed

lemma update_window_focus:
  assumes "focus_ok (g_Windows s) a d" "\<And>w. w_focused (f w) = w_focused w" "int i = a \<Longrightarrow> shown d (f (g_Windows s ! i)) = shown d (g_Windows s ! i)"
  shows "focus_ok (g_Windows (update_window i f s)) a d"
  using assms by (cases "i < length (g_Windows s)") (auto simp: focus_ok_def update_window_def nth_list_update list_update_beyond)


lemma place_window_ok:
  assumes "desk_ok s" "inside b (UsableDesktopRect (g_Framebuffer s))"
  shows "desk_ok (place_window i b s)"
proof -
  let ?t = "update_window i (\<lambda>w. w\<lparr>w_bounds := b\<rparr>) s"
  have "desk_pre ?t" using assms by (intro update_window_pre desk_ok_pre) simp_all
  moreover have "focus_ok (g_Windows ?t) (g_ActiveWindowIndex s) (g_ActiveDesktop s)"
    using assms by (intro update_window_focus) (simp_all add: desk_ok_def shown_def)
  ultimately show ?thesis using RememberAppPlacement_ok[of ?t]
    by (simp add: place_window_def desk_ok_def desk_pre_def)
qed

lemma desk_ok_window:
  assumes "desk_ok s" "\<And>w. w_app (f w) = w_app w" "\<And>w. w_desktop (f w) = w_desktop w" "\<And>w. w_focused (f w) = w_focused w"
    "i < window_count s \<Longrightarrow> inside (w_bounds (f (g_Windows s ! i))) (UsableDesktopRect (g_Framebuffer s))"
    "int i = g_ActiveWindowIndex s \<Longrightarrow> shown (g_ActiveDesktop s) (f (g_Windows s ! i)) = shown (g_ActiveDesktop s) (g_Windows s ! i)"
  shows "desk_ok (update_window i f s)"
  using update_window_pre[of s f i] update_window_focus[of s "g_ActiveWindowIndex s" "g_ActiveDesktop s" f i] assms
  by (simp add: desk_ok_def)

lemma desk_ok_valid: "desk_ok s \<Longrightarrow> FramebufferValid (g_Framebuffer s)"
  by (simp add: desk_ok_def desk_pre_def)

lemma desk_ok_inside: "desk_ok s \<Longrightarrow> i < window_count s \<Longrightarrow> inside (w_bounds (g_Windows s ! i)) (UsableDesktopRect (g_Framebuffer s))"
  by (simp add: desk_ok_def desk_pre_def placed_def window_count_def)

lemma MoveWindow_ok: "desk_ok s \<Longrightarrow> desk_ok (MoveWindow i x y s)"
  by (auto simp: MoveWindow_def Let_def desk_ok_valid intro!: place_window_ok ClampWindow_inside)

lemma ResizeWindow_ok: "desk_ok s \<Longrightarrow> desk_ok (snd (ResizeWindow i w h s))"
  by (auto simp: ResizeWindow_def Let_def desk_ok_valid intro!: place_window_ok ClampWindow_inside)

lemma desk_ok_active:
  "desk_ok s \<Longrightarrow> int i = g_ActiveWindowIndex s \<Longrightarrow> i < window_count s \<and> shown (g_ActiveDesktop s) (g_Windows s ! i)"
  by (auto simp: desk_ok_def focus_ok_def window_count_def nat_int dest!: sym[of "int i"])

lemma SnapWindow_ok: "desk_ok s \<Longrightarrow> desk_ok (snd (SnapWindow i edge s))"
  by (auto simp: SnapWindow_def Let_def desk_ok_valid desk_ok_inside shown_def intro!: place_window_ok desk_ok_window ClampWindow_inside)

lemma ToggleMaximizeWindow_ok: "desk_ok s \<Longrightarrow> desk_ok (ToggleMaximizeWindow i s)"
  by (auto simp: ToggleMaximizeWindow_def Let_def desk_ok_valid desk_ok_inside shown_def intro!: place_window_ok desk_ok_window ClampWindow_inside)

subsection \<open>Focus\<close>

lemma ClearWindowFocus_pre:
  assumes "desk_pre s"
  shows "desk_pre (ClearWindowFocus s)"
proof -
  have "apps_ok (map (\<lambda>w. w\<lparr>w_focused := False\<rparr>) (g_Windows s)) = apps_ok (g_Windows s)"
    by (rule apps_ok_cong) (simp add: multiset.map_comp comp_def)
  then show ?thesis using assms by (auto simp: ClearWindowFocus_def desk_pre_def placed_def index_ok_def)
qed

lemma ClearWindowFocus_focus: "focus_ok (g_Windows (ClearWindowFocus s)) (g_ActiveWindowIndex (ClearWindowFocus s)) d"
  by (simp add: focus_ok_def ClearWindowFocus_def)

lemma BringWindowToFront_pre:
  assumes "desk_pre s"
  shows "desk_pre (snd (BringWindowToFront i s))"
proof (cases "i + 1 < window_count s")
  case True
  then have i: "i < length (g_Windows s)" by (simp add: window_count_def)
  have "apps_ok (to_front i (g_Windows s)) = apps_ok (g_Windows s)"
    by (rule apps_ok_cong) (simp add: to_front_perm[OF i])
  then show ?thesis using assms i True by (auto simp: BringWindowToFront_def Let_def desk_pre_def placed_def index_ok_def window_count_def)
qed (use assms in \<open>auto simp: BringWindowToFront_def\<close>)

lemma BringWindowToFront_last:
  assumes "i < window_count s"
  shows "fst (BringWindowToFront i s) = int (window_count s) - 1" "window_count (snd (BringWindowToFront i s)) = window_count s"
    "g_Windows (snd (BringWindowToFront i s)) = to_front i (g_Windows s)"
    "g_ActiveDesktop (snd (BringWindowToFront i s)) = g_ActiveDesktop s"
  using assms by (auto simp: BringWindowToFront_def Let_def window_count_def to_front_def take_Suc_conv_app_nth[symmetric])

lemma FocusWindow_result:
  assumes "i < window_count s" "shown (g_ActiveDesktop s) (g_Windows s ! i)"
  shows "fst (FocusWindow i s)"
    "g_Windows (snd (FocusWindow i s)) =
       (map (\<lambda>w. w\<lparr>w_focused := False\<rparr>) (to_front i (g_Windows s)))[window_count s - 1 := (g_Windows s ! i)\<lparr>w_focused := True\<rparr>]"
    "g_ActiveWindowIndex (snd (FocusWindow i s)) = int (window_count s) - 1"
    "g_ActiveDesktop (snd (FocusWindow i s)) = g_ActiveDesktop s"
    "g_Framebuffer (snd (FocusWindow i s)) = g_Framebuffer s"
    "g_AppRuntimes (snd (FocusWindow i s)) = g_AppRuntimes s"
    "desk_pre s \<Longrightarrow> desk_pre (snd (FocusWindow i s))"
proof -
  let ?c = "ClearWindowFocus s" and ?un = "\<lambda>w. w\<lparr>w_focused := False\<rparr>"
  let ?b = "snd (BringWindowToFront i ?c)"
  have len: "i < length (g_Windows s)" using assms(1) by (simp add: window_count_def)
  have wc: "window_count ?c = window_count s" by (simp add: ClearWindowFocus_def window_count_def)
  note last = BringWindowToFront_last[of i ?c, unfolded wc, OF assms(1)]
  have bw: "g_Windows ?b = map ?un (to_front i (g_Windows s))"
    using last(3) len by (simp add: ClearWindowFocus_def to_front_map)
  have nth: "g_Windows ?b ! (window_count s - 1) = ?un (g_Windows s ! i)"
    using len by (simp add: bw window_count_def to_front_last)
  have eq: "FocusWindow i s = (True, gui_log Info ''[GUI] focus changed''
      (update_window (window_count s - 1) (\<lambda>w. w\<lparr>w_focused := True\<rparr>) (?b\<lparr>g_ActiveWindowIndex := int (window_count s) - 1\<rparr>)))"
    using assms last(1) by (simp add: FocusWindow_def shown_def split_beta nat_diff_distrib)
  have other: "g_Framebuffer ?b = g_Framebuffer s" "g_AppRuntimes ?b = g_AppRuntimes s" "g_ActiveDesktop ?b = g_ActiveDesktop s"
    by (simp_all add: BringWindowToFront_def ClearWindowFocus_def Let_def)
  show "fst (FocusWindow i s)" "g_ActiveWindowIndex (snd (FocusWindow i s)) = int (window_count s) - 1"
    "g_ActiveDesktop (snd (FocusWindow i s)) = g_ActiveDesktop s" "g_Framebuffer (snd (FocusWindow i s)) = g_Framebuffer s"
    "g_AppRuntimes (snd (FocusWindow i s)) = g_AppRuntimes s"
    by (simp_all add: eq other)
  show "g_Windows (snd (FocusWindow i s)) = (map ?un (to_front i (g_Windows s)))[window_count s - 1 := (g_Windows s ! i)\<lparr>w_focused := True\<rparr>]"
    using nth by (simp add: eq update_window_def bw)
  assume pre: "desk_pre s"
  let ?t = "?b\<lparr>g_ActiveWindowIndex := int (window_count s) - 1\<rparr>"
  have "desk_pre ?t" using BringWindowToFront_pre[OF ClearWindowFocus_pre[OF pre], of i] by (simp add: desk_pre_def)
  then have "desk_pre (update_window (window_count s - 1) (\<lambda>w. w\<lparr>w_focused := True\<rparr>) ?t)"
    by (rule update_window_pre) (use \<open>desk_pre ?t\<close> in \<open>auto simp: desk_pre_def placed_def window_count_def\<close>)
  then show "desk_pre (snd (FocusWindow i s))" by (simp add: eq desk_pre_def)
qed

lemma FocusWindow_refused: "\<not> (i < window_count s \<and> shown (g_ActiveDesktop s) (g_Windows s ! i)) \<Longrightarrow> FocusWindow i s = (False, s)"
  by (auto simp: FocusWindow_def shown_def)

lemma FocusWindow_ok:
  assumes "desk_pre s" "i < window_count s" "shown (g_ActiveDesktop s) (g_Windows s ! i)"
  shows "desk_ok (snd (FocusWindow i s))"
proof -
  note r = FocusWindow_result[OF assms(2,3)]
  have len: "length (to_front i (g_Windows s)) = window_count s" using assms(2) by (simp add: window_count_def)
  have "focus_ok (g_Windows (snd (FocusWindow i s))) (g_ActiveWindowIndex (snd (FocusWindow i s))) (g_ActiveDesktop (snd (FocusWindow i s)))"
    using assms(2,3) len by (auto simp: focus_ok_def r nth_list_update shown_def nat_diff_distrib)
  then show ?thesis using r(7)[OF assms(1)] by (simp add: desk_ok_def)
qed

lemma FocusWindow_keeps_ok: "desk_ok s \<Longrightarrow> desk_ok (snd (FocusWindow i s))"
  using FocusWindow_ok[of s i] FocusWindow_refused[of i s] by (cases "i < window_count s \<and> shown (g_ActiveDesktop s) (g_Windows s ! i)") (auto simp: desk_ok_pre)

lemma FocusTopVisibleWindow_ok:
  assumes "desk_pre s"
  shows "desk_ok (FocusTopVisibleWindow s)"
proof -
  consider "FindTopVisibleWindow s = -1"
    | k where "k < window_count s" "FindTopVisibleWindow s = int k" "shown (g_ActiveDesktop s) (g_Windows s ! k)"
    using top_where_cases[of "shown (g_ActiveDesktop s)" "g_Windows s" "window_count s"] unfolding FindTopVisibleWindow_def by blast
  then show ?thesis
  proof cases
    case 1
    then show ?thesis using ClearWindowFocus_pre[OF assms] ClearWindowFocus_focus[of s]
      by (simp add: FocusTopVisibleWindow_def desk_ok_def)
  next
    case 2
    then show ?thesis using FocusWindow_ok[OF assms 2(1,3)] by (simp add: FocusTopVisibleWindow_def)
  qed
qed

lemma SwitchVirtualDesktop_ok:
  assumes "desk_pre s"
  shows "fst (SwitchVirtualDesktop d s) \<Longrightarrow> desk_ok (snd (SwitchVirtualDesktop d s))" "desk_ok s \<Longrightarrow> desk_ok (snd (SwitchVirtualDesktop d s))"
proof -
  have pre: "desk_pre (s\<lparr>g_ActiveDesktop := d, g_DragWindowIndex := -1\<rparr>)" if "d < kVirtualDesktopCount"
    using assms that by (simp add: desk_pre_def index_ok_def)
  then show "fst (SwitchVirtualDesktop d s) \<Longrightarrow> desk_ok (snd (SwitchVirtualDesktop d s))"
    "desk_ok s \<Longrightarrow> desk_ok (snd (SwitchVirtualDesktop d s))"
    by (auto simp: SwitchVirtualDesktop_def intro: FocusTopVisibleWindow_ok)
qed

lemma MinimizeWindow_ok:
  assumes "desk_ok s"
  shows "desk_ok (MinimizeWindow i s)"
proof (cases "i < window_count s")
  case True
  define t where "t = (change_runtime_state (w_app (g_Windows s ! i)) AppRunning Minimized
      (update_window i (\<lambda>w. w\<lparr>w_minimized := True\<rparr>) s))\<lparr>g_DragWindowIndex := -1\<rparr>"
  let ?u = "update_window i (\<lambda>w. w\<lparr>w_minimized := True\<rparr>) s"
  have u: "desk_pre ?u" using assms True by (intro update_window_pre desk_ok_pre) (simp_all add: desk_ok_inside)
  then have t: "desk_pre t" using change_runtime_state_ok[of ?u] by (simp add: t_def desk_pre_def index_ok_def)
  show ?thesis
  proof (cases "g_ActiveWindowIndex s = int i")
    case True
    then show ?thesis using \<open>i < window_count s\<close> FocusTopVisibleWindow_ok[OF t] by (simp add: MinimizeWindow_def t_def)
  next
    case False
    have "focus_ok (g_Windows ?u) (g_ActiveWindowIndex s) (g_ActiveDesktop s)"
      using assms False by (intro update_window_focus) (auto simp: desk_ok_def)
    then show ?thesis using t \<open>i < window_count s\<close> False by (simp add: MinimizeWindow_def t_def[symmetric]) (simp add: desk_ok_def t_def)
  qed
qed (use assms in \<open>simp add: MinimizeWindow_def\<close>)

lemma RestoreWindowFromTaskbar_ok:
  assumes "desk_ok s"
  shows "desk_ok (RestoreWindowFromTaskbar i s)"
proof -
  let ?u = "update_window i (\<lambda>w. w\<lparr>w_minimized := False\<rparr>) s"
  have "desk_ok ?u"
    using assms by (intro desk_ok_window) (simp_all add: desk_ok_inside, use desk_ok_active[OF assms] in \<open>auto simp: shown_def\<close>)
  then have "desk_ok (change_runtime_state a b c ?u)" for a b c
    using change_runtime_state_ok[of ?u] by (simp add: desk_ok_def desk_pre_def)
  then show ?thesis using assms by (simp add: RestoreWindowFromTaskbar_def FocusWindow_keeps_ok)
qed

lemma AddWindow_ok:
  assumes "desk_ok s" "app \<notin> w_app ` set (g_Windows s)" "d \<in> set kApplications" "app = ad_app d" "desktop = ad_desktop d"
  shows "desk_ok (snd (AddWindow title bounds color app desktop pid tid s))"
  using assms RememberAppPlacement_ok[of s] ClampWindow_inside[OF desk_ok_valid[OF assms(1)]]
  by (auto simp: AddWindow_def Let_def desk_ok_def desk_pre_def placed_def apps_ok_def index_ok_def focus_ok_def nth_append split: if_splits)

end
