(* ===== verification/GuiLaunch.thy ===== *)
theory GuiLaunch
  imports GuiWindows
begin

text \<open>
  \<^verbatim>\<open>kernel/src/gui.cpp\<close>: the application registry, launching, restoring and closing applications, the watchdog.

  \<open>env_garbage\<close> is what the stack of the kernel holds when the image of an application is built.
\<close>

record GuiEnv =
  env_prog :: UserProgram
  env_garbage :: "UserSpace \<Rightarrow> u64 \<Rightarrow> u8"

definition InitApplicationRegistry :: "'a Desk_scheme \<Rightarrow> bool \<times> 'a Desk_scheme" where
  "InitApplicationRegistry s =
     (if length kApplications > kApplicationCapacity then (False, s)
      else (True, s\<lparr>g_AppRuntimes := map (\<lambda>d. \<lparr>ar_app = ad_app d, ar_state = NotRunning, ar_process_id = 0, ar_thread_id = 0,
               ar_launch_count = 0, ar_missed_heartbeat_count = 0, ar_transition_ticks = 0, ar_valid = True\<rparr>) kApplications
             @ drop (length kApplications) (g_AppRuntimes s)\<rparr>))"

definition RestoreOrFocusRunningApp :: "ApplicationDescriptor \<Rightarrow> 'a Desk_scheme \<Rightarrow> bool \<times> 'a Desk_scheme" where
  "RestoreOrFocusRunningApp app s =
     (let existing = FindWindowByApp (ad_app app) (ad_desktop app) s in
      if existing < 0 then (False, s)
      else
        let s1 = change_runtime_state (ad_app app) Minimized AppRunning
              (update_window (nat existing) (\<lambda>w. w\<lparr>w_visible := True, w_minimized := False, w_maximized := False\<rparr>) s);
            s2 = (if g_ActiveDesktop s1 \<noteq> ad_desktop app then snd (SwitchVirtualDesktop (ad_desktop app) s1) else s1);
            s3 = snd (FocusWindow (nat existing) s2)
        in (True, ShowNotification (Some ''app restored'') (th_maximize kTheme) s3))"

text \<open>The end of a launch that fails.\<close>

definition launch_failed :: "nat \<Rightarrow> 'a Desk_scheme \<Rightarrow> bool \<times> 'a Desk_scheme" where
  "launch_failed i s =
     (False, ShowNotification (Some ''app launch failed'') (th_close kTheme)
        (update_runtime i (\<lambda>r. r\<lparr>ar_state := Failed, ar_transition_ticks := 0\<rparr>) s))"

text \<open>The window of a launched application: the one it had, or a new one.\<close>

definition open_window :: "ApplicationDescriptor \<Rightarrow> u32 \<Rightarrow> u64 \<Rightarrow> u64 \<Rightarrow> 'a Desk_scheme \<Rightarrow> bool \<times> 'a Desk_scheme" where
  "open_window app ordinal process_id thread_id s =
     (let hidden = FindWindowByApp (ad_app app) (ad_desktop app) s; bounds = InitialWindowBounds app ordinal s in
      if hidden \<ge> 0 then
        (True, update_window (nat hidden) (\<lambda>w. w\<lparr>w_title := Some (ad_name app), w_bounds := bounds, w_restore_bounds := bounds,
           w_color := ad_color app, w_visible := True, w_minimized := False, w_maximized := False, w_process_id := process_id,
           w_thread_id := thread_id\<rparr>) s)
      else AddWindow (Some (ad_name app)) bounds (ad_color app) (ad_app app) (ad_desktop app) process_id thread_id s)"

definition LaunchApplication :: "GuiEnv \<Rightarrow> ApplicationDescriptor \<Rightarrow> 'a Desk_scheme \<Rightarrow> bool \<times> 'a Desk_scheme" where
  "LaunchApplication env app s =
     (case FindAppRuntime (ad_app app) s of
        None \<Rightarrow> (False, gui_log Warn ''[APP] missing app id'' (ShowNotification (Some ''missing app id'') (th_close kTheme) s))
      | Some i \<Rightarrow>
          if ar_state (g_AppRuntimes s ! i) \<in> {AppRunning, Minimized, NotResponding} then RestoreOrFocusRunningApp app s
          else
            let s1 = update_runtime i (\<lambda>r. r\<lparr>ar_state := Opening, ar_transition_ticks := kLaunchTransitionTicks\<rparr>) s;
                (launched, process_id, thread_id, u) = KernelLaunchUserApplication (env_garbage env (gui_user s1)) (Some (ad_id app))
                  (Some (ad_executable_path app)) (gui_user s1);
                s2 = s1\<lparr>gui_user := u\<rparr>
            in if \<not> launched then launch_failed i s2
            else
              let (opened, s3) = open_window app (ar_launch_count (g_AppRuntimes s2 ! i)) process_id thread_id s2 in
              if \<not> opened then launch_failed i s3
              else
                let (started, tid, u) = KernelStartUserApplicationEventLoop (env_prog env) process_id (Some (ad_id app)) (gui_user s3);
                    s4 = s3\<lparr>gui_user := u\<rparr>
                in if \<not> started then launch_failed i s4
                else
                  let window_index = FindWindowByApp (ad_app app) (ad_desktop app) s4;
                      s5 = (if window_index \<ge> 0 then update_window (nat window_index) (\<lambda>w. w\<lparr>w_thread_id := tid\<rparr>) s4 else s4);
                      s6 = update_runtime i (\<lambda>r. r\<lparr>ar_state := AppRunning, ar_process_id := process_id, ar_thread_id := tid,
                             ar_launch_count := ar_launch_count r + 1, ar_missed_heartbeat_count := 0,
                             ar_transition_ticks := kLaunchTransitionTicks\<rparr>) s5;
                      s7 = (if g_ActiveDesktop s6 \<noteq> ad_desktop app then snd (SwitchVirtualDesktop (ad_desktop app) s6) else s6)
                  in (True, ShowNotification (Some ''app running'') (th_maximize kTheme) (snd (RestoreOrFocusRunningApp app s7))))"

definition LaunchApplicationById :: "GuiEnv \<Rightarrow> cstring \<Rightarrow> 'a Desk_scheme \<Rightarrow> bool \<times> 'a Desk_scheme" where
  "LaunchApplicationById env app_id s =
     (case FindApplicationById app_id of
        None \<Rightarrow> (False, gui_log Warn ''[APP] missing app id'' (ShowNotification (Some ''missing app id'') (th_close kTheme) s))
      | Some app \<Rightarrow> LaunchApplication env app s)"

text \<open>One entry of the watchdog's loop.\<close>

definition watchdog_entry :: "nat \<Rightarrow> 'a Desk_scheme \<Rightarrow> 'a Desk_scheme" where
  "watchdog_entry i s =
     (let r = g_AppRuntimes s ! i in
      if \<not> ar_valid r \<or> ar_state r \<noteq> AppRunning then s
      else
        let s1 = update_runtime i (\<lambda>r. r\<lparr>ar_missed_heartbeat_count := ar_missed_heartbeat_count r + 1\<rparr>) s in
        if ar_missed_heartbeat_count (g_AppRuntimes s1 ! i) \<ge> 3 then
          gui_log Warn ''[APP] watchdog unresponsive'' (ShowNotification (Some ''app not responding'') (th_minimize kTheme)
            (update_runtime i (\<lambda>r. r\<lparr>ar_state := NotResponding\<rparr>) s1))
        else s1)"

definition AppWatchdogTick :: "'a Desk_scheme \<Rightarrow> 'a Desk_scheme" where
  "AppWatchdogTick s = fold watchdog_entry [0 ..< kApplicationCapacity] s"

definition AppHeartbeat :: "AppKind \<Rightarrow> 'a Desk_scheme \<Rightarrow> 'a Desk_scheme" where
  "AppHeartbeat app s =
     (case FindAppRuntime app s of None \<Rightarrow> s
      | Some i \<Rightarrow> update_runtime i (\<lambda>r. (if ar_state r = NotResponding then r\<lparr>ar_state := AppRunning\<rparr> else r)
           \<lparr>ar_missed_heartbeat_count := 0\<rparr>) s)"

text \<open>\<open>InitWindowManager\<close>, with the value of \<open>window_manager_ready\<close> as its result.\<close>

definition InitWindowManager :: "GuiEnv \<Rightarrow> 'a Desk_scheme \<Rightarrow> bool \<times> 'a Desk_scheme" where
  "InitWindowManager env s =
     (let (registry_ready, s1) = InitApplicationRegistry s;
          (files, s2) = LaunchApplicationById env (Some ''files'') s1;
          (apps, s3) = (if files then LaunchApplicationById env (Some ''term'') s2 else (False, s2))
      in (registry_ready \<and> apps, FocusTopVisibleWindow s3))"

definition CloseWindow :: "nat \<Rightarrow> 'a Desk_scheme \<Rightarrow> 'a Desk_scheme" where
  "CloseWindow index s =
     (if index \<ge> window_count s then s
      else
        let w = g_Windows s ! index;
            s1 = (case FindAppRuntime (w_app w) s of None \<Rightarrow> s
              | Some i \<Rightarrow>
                  if ar_process_id (g_AppRuntimes s ! i) = w_process_id w then
                    update_runtime i (\<lambda>r. r\<lparr>ar_state := NotRunning, ar_process_id := 0, ar_thread_id := 0,
                        ar_missed_heartbeat_count := 0, ar_transition_ticks := 0\<rparr>)
                      (s\<lparr>gui_user := snd (KernelExitUserApplication (ar_process_id (g_AppRuntimes s ! i)) 0 (gui_user s))\<rparr>)
                  else s);
            s2 = update_window index (\<lambda>w. w\<lparr>w_visible := False, w_focused := False\<rparr>) s1;
            s3 = (if g_DragWindowIndex s2 = int index then s2\<lparr>g_DragWindowIndex := -1\<rparr> else s2);
            s4 = (if g_MouseDownWindowIndex s3 = int index then s3\<lparr>g_MouseDownWindowIndex := -1\<rparr> else s3)
        in if g_ActiveWindowIndex s4 = int index then FocusTopVisibleWindow s4 else s4)"

definition TaskManagerKillFocusedApp :: "'a Desk_scheme \<Rightarrow> bool \<times> 'a Desk_scheme" where
  "TaskManagerKillFocusedApp s =
     (case find_index (\<lambda>r. ar_valid r \<and> ar_process_id r \<noteq> 0 \<and> ar_app r \<noteq> TaskManager) (g_AppRuntimes s) of
        None \<Rightarrow> (False, s)
      | Some i \<Rightarrow> (True, ShowNotification (Some ''process terminated'') (th_minimize kTheme)
            (update_runtime i (\<lambda>r. r\<lparr>ar_process_id := 0, ar_thread_id := 0, ar_state := NotRunning, ar_transition_ticks := 0\<rparr>)
              (s\<lparr>gui_user := snd (KernelExitUserApplication (ar_process_id (g_AppRuntimes s ! i)) 0 (gui_user s))\<rparr>))))"

subsection \<open>The registered applications\<close>

lemma kApplications_distinct: "distinct (map ad_app kApplications)"
  by (simp add: kApplications_def application_def)

lemma kApplications_inj: "d \<in> set kApplications \<Longrightarrow> e \<in> set kApplications \<Longrightarrow> ad_app d = ad_app e \<Longrightarrow> d = e"
  using kApplications_distinct by (auto simp: distinct_map inj_on_def)

lemma kApplications_desktop: "d \<in> set kApplications \<Longrightarrow> ad_desktop d < kVirtualDesktopCount"
  by (auto simp: kApplications_def application_def kVirtualDesktopCount_def)

lemma FindApplicationById_registered: "FindApplicationById app_id = Some d \<Longrightarrow> d \<in> set kApplications"
  by (auto simp: FindApplicationById_def find_index_Some split: option.splits)

lemma FindWindowByApp_cases:
  "FindWindowByApp app d s = -1 \<and> (\<forall>w \<in> set (g_Windows s). w_app w \<noteq> app \<or> w_desktop w \<noteq> d) \<or>
   (\<exists>i < window_count s. FindWindowByApp app d s = int i \<and> w_app (g_Windows s ! i) = app \<and> w_desktop (g_Windows s ! i) = d)"
  by (auto simp: FindWindowByApp_def find_index_None find_index_Some window_count_def split: option.split)

lemma FindAppRuntime_registered:
  assumes "runtimes_ok (g_AppRuntimes s)" "d \<in> set kApplications"
  shows "\<exists>i. FindAppRuntime (ad_app d) s = Some i"
proof -
  have "ad_app d \<in> set (map ar_app (g_AppRuntimes s))" using assms by (simp add: runtimes_ok_def)
  then obtain r where "r \<in> set (g_AppRuntimes s)" "ar_app r = ad_app d" by auto
  moreover have "ar_valid r" using assms(1) \<open>r \<in> _\<close> by (auto simp: runtimes_ok_def list_all_iff)
  ultimately show ?thesis by (cases "FindAppRuntime (ad_app d) s") (auto simp: FindAppRuntime_def find_index_None)
qed

subsection \<open>The invariant\<close>

lemma launch_keeps [simp]:
  "desk_ok (ShowNotification t c s) = desk_ok s" "desk_ok (gui_log l m s) = desk_ok s" "desk_ok (s\<lparr>gui_user := u\<rparr>) = desk_ok s"
  by (simp_all add: ShowNotification_def desk_ok_def desk_pre_def)

lemma update_runtime_desk_ok:
  assumes "desk_ok s" "\<And>r. ar_valid (f r) = ar_valid r" "\<And>r. ar_app (f r) = ar_app r"
  shows "desk_ok (update_runtime i f s)"
  using assms update_runtime_ok[of s f i] by (simp add: desk_ok_def desk_pre_def) (simp add: update_runtime_def)

lemma change_runtime_state_desk_ok: "desk_ok s \<Longrightarrow> desk_ok (change_runtime_state a b c s)"
  using change_runtime_state_ok[of s a b c] by (simp add: desk_ok_def desk_pre_def)

lemma show_window_ok:
  assumes "desk_ok s" "\<And>w. w_app (f w) = w_app w" "\<And>w. w_desktop (f w) = w_desktop w" "\<And>w. w_focused (f w) = w_focused w"
    "\<And>w. w_visible (f w) \<and> \<not> w_minimized (f w)"
    "i < window_count s \<Longrightarrow> inside (w_bounds (f (g_Windows s ! i))) (UsableDesktopRect (g_Framebuffer s))"
  shows "desk_ok (update_window i f s)"
  using assms desk_ok_active[OF assms(1), of i] by (intro desk_ok_window) (auto simp: shown_def)

lemma SwitchVirtualDesktop_keeps_ok: "desk_ok s \<Longrightarrow> desk_ok (snd (SwitchVirtualDesktop d s))"
  using SwitchVirtualDesktop_ok(2)[OF desk_ok_pre] .

lemma RestoreOrFocusRunningApp_ok: "desk_ok s \<Longrightarrow> desk_ok (snd (RestoreOrFocusRunningApp app s))"
proof -
  assume ok: "desk_ok s"
  let ?u = "\<lambda>i. update_window i (\<lambda>w. w\<lparr>w_visible := True, w_minimized := False, w_maximized := False\<rparr>) s"
  have "desk_ok (change_runtime_state a b c (?u i))" for a b c i
    using ok by (intro change_runtime_state_desk_ok show_window_ok) (simp_all add: desk_ok_inside)
  then show ?thesis using ok
    by (auto simp: RestoreOrFocusRunningApp_def Let_def intro!: FocusWindow_keeps_ok SwitchVirtualDesktop_keeps_ok)
qed

lemma InitialWindowBounds_inside: "FramebufferValid (g_Framebuffer s) \<Longrightarrow> inside (InitialWindowBounds app n s) (UsableDesktopRect (g_Framebuffer s))"
  by (auto simp: InitialWindowBounds_def Let_def ClampWindow_inside split: option.split)

lemma open_window_ok:
  assumes "desk_ok s" "app \<in> set kApplications"
  shows "desk_ok (snd (open_window app n pid tid s))"
proof -
  consider "FindWindowByApp (ad_app app) (ad_desktop app) s = -1" "\<forall>w \<in> set (g_Windows s). w_app w \<noteq> ad_app app \<or> w_desktop w \<noteq> ad_desktop app"
    | i where "FindWindowByApp (ad_app app) (ad_desktop app) s = int i"
    using FindWindowByApp_cases[of "ad_app app" "ad_desktop app" s] by blast
  then show ?thesis
  proof cases
    case 1
    have "ad_app app \<notin> w_app ` set (g_Windows s)"
    proof
      assume "ad_app app \<in> w_app ` set (g_Windows s)"
      then obtain w where w: "w \<in> set (g_Windows s)" "w_app w = ad_app app" by auto
      then obtain d where "d \<in> set kApplications" "w_app w = ad_app d" "w_desktop w = ad_desktop d"
        using assms(1) unfolding desk_ok_def desk_pre_def apps_ok_def by blast
      then show False using 1 w kApplications_inj[OF _ assms(2), of d] by auto
    qed
    then show ?thesis using 1 AddWindow_ok[OF assms(1) _ assms(2)] by (simp add: open_window_def Let_def)
  next
    case 2
    then show ?thesis using assms by (auto simp: open_window_def Let_def InitialWindowBounds_inside desk_ok_valid intro!: show_window_ok)
  qed
qed

lemma CloseWindow_ok:
  assumes ok: "desk_ok s"
  shows "desk_ok (CloseWindow i s)"
proof (cases "i < window_count s")
  case True
  let ?f = "\<lambda>w. w\<lparr>w_visible := False, w_focused := False\<rparr>"
  define s1 where "s1 = (case FindAppRuntime (w_app (g_Windows s ! i)) s of None \<Rightarrow> s
    | Some k \<Rightarrow> if ar_process_id (g_AppRuntimes s ! k) = w_process_id (g_Windows s ! i) then
          update_runtime k (\<lambda>r. r\<lparr>ar_state := NotRunning, ar_process_id := 0, ar_thread_id := 0,
              ar_missed_heartbeat_count := 0, ar_transition_ticks := 0\<rparr>)
            (s\<lparr>gui_user := snd (KernelExitUserApplication (ar_process_id (g_AppRuntimes s ! k)) 0 (gui_user s))\<rparr>)
        else s)"
  have ok1: "desk_ok s1" using ok by (auto simp: s1_def split: option.split intro!: update_runtime_desk_ok)
  have s1: "g_Windows s1 = g_Windows s" "window_count s1 = window_count s" "g_ActiveWindowIndex s1 = g_ActiveWindowIndex s"
    "g_ActiveDesktop s1 = g_ActiveDesktop s" "g_Framebuffer s1 = g_Framebuffer s"
    by (auto simp: s1_def update_runtime_def window_count_def split: option.split)
  define s2 where "s2 = update_window i ?f s1"
  define s3 where "s3 = (if g_DragWindowIndex s2 = int i then s2\<lparr>g_DragWindowIndex := -1\<rparr> else s2)"
  define s4 where "s4 = (if g_MouseDownWindowIndex s3 = int i then s3\<lparr>g_MouseDownWindowIndex := -1\<rparr> else s3)"
  have "desk_pre s2" unfolding s2_def using ok1 s1 True desk_ok_inside[OF ok] by (intro update_window_pre desk_ok_pre) simp_all
  then have s4: "desk_pre s4" by (simp add: s4_def s3_def desk_pre_def index_ok_def)
  have fields: "g_ActiveWindowIndex s4 = g_ActiveWindowIndex s" "g_ActiveDesktop s4 = g_ActiveDesktop s" "g_Windows s4 = (g_Windows s)[i := ?f (g_Windows s ! i)]"
    using s1 by (simp_all add: s4_def s3_def s2_def update_window_def)
  have eq: "CloseWindow i s = (if g_ActiveWindowIndex s4 = int i then FocusTopVisibleWindow s4 else s4)"
    using True by (simp add: CloseWindow_def Let_def s1_def s2_def s3_def s4_def)
  show ?thesis
  proof (cases "g_ActiveWindowIndex s = int i")
    case True
    then show ?thesis using FocusTopVisibleWindow_ok[OF s4] by (simp add: eq fields)
  next
    case False
    then have "focus_ok (g_Windows s4) (g_ActiveWindowIndex s4) (g_ActiveDesktop s4)"
      using ok \<open>i < window_count s\<close> unfolding fields desk_ok_def focus_ok_def by (auto simp: nth_list_update window_count_def)
    then show ?thesis using False s4 by (auto simp: eq desk_ok_def fields(1))
  qed
qed (use ok in \<open>simp add: CloseWindow_def\<close>)

lemma TaskManagerKillFocusedApp_ok: "desk_ok s \<Longrightarrow> desk_ok (snd (TaskManagerKillFocusedApp s))"
  by (auto simp: TaskManagerKillFocusedApp_def intro!: update_runtime_desk_ok split: option.split)

lemma watchdog_entry_ok: "desk_ok s \<Longrightarrow> desk_ok (watchdog_entry i s)"
  by (auto simp: watchdog_entry_def Let_def intro!: update_runtime_desk_ok)

lemma AppWatchdogTick_ok: "desk_ok s \<Longrightarrow> desk_ok (AppWatchdogTick s)"
proof -
  have "desk_ok s \<Longrightarrow> desk_ok (fold watchdog_entry is s)" for "is"
    by (induction "is" arbitrary: s) (auto intro: watchdog_entry_ok)
  then show "desk_ok s \<Longrightarrow> desk_ok (AppWatchdogTick s)" by (simp add: AppWatchdogTick_def)
qed

lemma AppHeartbeat_ok: "desk_ok s \<Longrightarrow> desk_ok (AppHeartbeat app s)"
  by (auto simp: AppHeartbeat_def intro!: update_runtime_desk_ok split: option.split if_splits)

subsection \<open>The application that has the focus\<close>

definition focused_app :: "'a Desk_scheme \<Rightarrow> AppKind option" where
  "focused_app s = (if g_ActiveWindowIndex s < 0 then None else Some (w_app (g_Windows s ! nat (g_ActiveWindowIndex s))))"

lemma to_front_nth:
  "i < length ws \<Longrightarrow> j < length ws \<Longrightarrow>
   to_front i ws ! j = (if j < i then ws ! j else if Suc j < length ws then ws ! Suc j else ws ! i)"
  by (auto simp: to_front_def nth_append)

lemma FocusWindow_focused:
  assumes "i < window_count s" "shown (g_ActiveDesktop s) (g_Windows s ! i)"
  shows "focused_app (snd (FocusWindow i s)) = Some (w_app (g_Windows s ! i))"
proof -
  have n: "nat (int (window_count s) - 1) = window_count s - 1" by simp
  have len: "length (to_front i (g_Windows s)) = window_count s" "window_count s \<ge> 1" using assms(1) by (auto simp: window_count_def)
  then show ?thesis by (simp add: focused_app_def FocusWindow_result[OF assms] n nth_list_update del: length_to_front)
qed

definition window_key :: "Window \<Rightarrow> AppKind \<times> u8" where
  "window_key w = (w_app w, w_desktop w)"

lemma FocusWindow_keys: "mset (map window_key (g_Windows (snd (FocusWindow i s)))) = mset (map window_key (g_Windows s))"
proof (cases "i < window_count s \<and> shown (g_ActiveDesktop s) (g_Windows s ! i)")
  case True
  then have i: "i < length (g_Windows s)" by (simp add: window_count_def)
  have "window_key ((g_Windows s ! i)\<lparr>w_focused := True\<rparr>) =
      window_key (map (\<lambda>w. w\<lparr>w_focused := False\<rparr>) (to_front i (g_Windows s)) ! (window_count s - 1))"
    using i by (simp add: window_key_def window_count_def to_front_last)
  then have "map window_key (g_Windows (snd (FocusWindow i s))) = map window_key (map (\<lambda>w. w\<lparr>w_focused := False\<rparr>) (to_front i (g_Windows s)))"
    using True by (simp add: FocusWindow_result(2) map_update_id del: map_map)
  also have "mset \<dots> = mset (map window_key (g_Windows s))"
    by (simp add: window_key_def[abs_def] comp_def to_front_perm[OF i] multiset.map_comp)
  finally show ?thesis .
qed (simp add: FocusWindow_refused)

lemma SwitchVirtualDesktop_keys:
  "mset (map window_key (g_Windows (snd (SwitchVirtualDesktop d s)))) = mset (map window_key (g_Windows s))"
proof -
  have "mset (map window_key (g_Windows (FocusTopVisibleWindow t))) = mset (map window_key (g_Windows t))" for t :: "'a Desk_scheme"
  proof -
    have "map window_key (g_Windows (ClearWindowFocus t)) = map window_key (g_Windows t)"
      by (simp add: ClearWindowFocus_def window_key_def)
    then show ?thesis by (simp add: FocusTopVisibleWindow_def Let_def FocusWindow_keys del: mset_map)
  qed
  then show ?thesis by (simp add: SwitchVirtualDesktop_def)
qed

lemma FindWindowByApp_keys: "FindWindowByApp app d s \<ge> 0 \<longleftrightarrow> (app, d) \<in> set (map window_key (g_Windows s))"
  using FindWindowByApp_cases[of app d s] by (auto simp: window_key_def window_count_def image_iff)

text \<open>
  \<open>RestoreOrFocusRunningApp\<close> keeps the window's index over the change of the desktop, which may move windows: the
  window found on top is then either above the one to focus, or it is that window and has the focus already.
\<close>

lemma switch_then_focus:
  assumes e: "e < window_count s" "shown d (g_Windows s ! e)" and d: "d < kVirtualDesktopCount"
  shows "focused_app (snd (FocusWindow e (if g_ActiveDesktop s \<noteq> d then snd (SwitchVirtualDesktop d s) else s))) = Some (w_app (g_Windows s ! e))"
proof (cases "g_ActiveDesktop s = d")
  case True
  then show ?thesis using FocusWindow_focused[OF e(1)] e by simp
next
  case False
  define s1 where "s1 = s\<lparr>g_ActiveDesktop := d, g_DragWindowIndex := -1\<rparr>"
  have s1: "g_Windows s1 = g_Windows s" "window_count s1 = window_count s" "g_ActiveDesktop s1 = d" by (simp_all add: s1_def window_count_def)
  from top_where_cases[of "shown d" "g_Windows s" "window_count s"] e
  obtain k where k: "k < window_count s" "top_where (shown d) (g_Windows s) (window_count s) = int k" "shown d (g_Windows s ! k)"
    "\<forall>i. k < i \<and> i < window_count s \<longrightarrow> \<not> shown d (g_Windows s ! i)" by blast
  have ek: "e \<le> k" using k(4) e by (meson not_le)
  define s2 where "s2 = snd (FocusWindow k s1)"
  have switch: "snd (SwitchVirtualDesktop d s) = s2"
    using d k(2) by (simp add: SwitchVirtualDesktop_def FocusTopVisibleWindow_def Let_def FindTopVisibleWindow_def s1_def[symmetric] s2_def s1 not_le)
  note r = FocusWindow_result[of k s1, unfolded s1, OF k(1,3), folded s2_def]
  have n: "window_count s = length (g_Windows s)" by (simp add: window_count_def)
  have len: "window_count s2 = window_count s" using k(1) by (simp add: r(2) window_count_def)
  have e2: "g_Windows s2 ! e = (if e = window_count s - 1 then (g_Windows s ! k)\<lparr>w_focused := True\<rparr>
      else (to_front k (g_Windows s) ! e)\<lparr>w_focused := False\<rparr>)"
    using e(1) k(1) by (auto simp: r(2) n nth_list_update)
  show ?thesis
  proof (cases "e = k \<and> e \<noteq> window_count s - 1")
    case True
    then have "g_Windows s2 ! e = (g_Windows s ! Suc k)\<lparr>w_focused := False\<rparr>" "Suc k < window_count s"
      using e2 k(1) by (auto simp: n to_front_nth)
    then have "FocusWindow e s2 = (False, s2)" using k(4) r(4) by (intro FocusWindow_refused) (auto simp: shown_def)
    then show ?thesis using False True FocusWindow_focused[of k s1, unfolded s1, OF k(1,3), folded s2_def] by (simp add: switch)
  next
    case other: False
    then have w: "w_app (g_Windows s2 ! e) = w_app (g_Windows s ! e)" "shown d (g_Windows s2 ! e)"
      using e2 ek e k(1) by (auto simp: n to_front_nth shown_def)
    then show ?thesis using False FocusWindow_focused[of e s2] e(1) len r(4) by (simp add: switch)
  qed
qed

lemma restore_focuses:
  assumes ok: "desk_ok s" and app: "app \<in> set kApplications" and ran: "fst (RestoreOrFocusRunningApp app s)"
  shows "focused_app (snd (RestoreOrFocusRunningApp app s)) = Some (ad_app app)"
proof -
  from ran FindWindowByApp_cases[of "ad_app app" "ad_desktop app" s]
  obtain e where e: "e < window_count s" "FindWindowByApp (ad_app app) (ad_desktop app) s = int e" "w_app (g_Windows s ! e) = ad_app app"
    "w_desktop (g_Windows s ! e) = ad_desktop app" by (auto simp: RestoreOrFocusRunningApp_def Let_def)
  define s1 where "s1 = change_runtime_state (ad_app app) Minimized AppRunning
    (update_window e (\<lambda>w. w\<lparr>w_visible := True, w_minimized := False, w_maximized := False\<rparr>) s)"
  have s1: "e < window_count s1" "shown (ad_desktop app) (g_Windows s1 ! e)" "w_app (g_Windows s1 ! e) = ad_app app"
    using e by (simp_all add: s1_def shown_def update_window_def window_count_def)
  have "snd (RestoreOrFocusRunningApp app s) = ShowNotification (Some ''app restored'') (th_maximize kTheme)
      (snd (FocusWindow e (if g_ActiveDesktop s1 \<noteq> ad_desktop app then snd (SwitchVirtualDesktop (ad_desktop app) s1) else s1)))"
    using e(2) by (simp add: RestoreOrFocusRunningApp_def Let_def s1_def)
  then show ?thesis using switch_then_focus[OF s1(1,2) kApplications_desktop[OF app]] s1(3)
    by (simp add: focused_app_def ShowNotification_def split: if_splits)
qed

lemma open_window_keys:
  assumes "open_window app n pid tid s = (True, t)"
  shows "(ad_app app, ad_desktop app) \<in> set (map window_key (g_Windows t))"
proof (cases "FindWindowByApp (ad_app app) (ad_desktop app) s \<ge> 0")
  case True
  then have "(ad_app app, ad_desktop app) \<in> set (map window_key (g_Windows s))" by (simp only: FindWindowByApp_keys)
  moreover have "map window_key (g_Windows t) = map window_key (g_Windows s)"
    using assms True by (auto simp: open_window_def Let_def update_window_def window_key_def intro!: map_update_id)
  ultimately show ?thesis by (simp only:)
next
  case False
  then show ?thesis using assms by (auto simp: open_window_def AddWindow_def Let_def window_key_def split: if_splits)
qed

lemma LaunchApplication_result:
  assumes ok: "desk_ok s" and app: "app \<in> set kApplications"
  shows "desk_ok (snd (LaunchApplication env app s)) \<and>
    (fst (LaunchApplication env app s) \<longrightarrow> focused_app (snd (LaunchApplication env app s)) = Some (ad_app app))"
proof -
  note runtime = update_runtime_desk_ok and restore = RestoreOrFocusRunningApp_ok
  have failed: "desk_ok t \<Longrightarrow> desk_ok (snd (launch_failed i t))" for i t by (auto simp: launch_failed_def intro!: runtime)
  have thread: "desk_ok t \<Longrightarrow> desk_ok (update_window i (\<lambda>w. w\<lparr>w_thread_id := x\<rparr>) t)" for i x t
    by (rule desk_ok_window) (simp_all add: desk_ok_inside shown_def)
  have switch: "desk_ok t \<Longrightarrow> desk_ok (if b then snd (SwitchVirtualDesktop d t) else t)" for b d t
    by (simp add: SwitchVirtualDesktop_keeps_ok)
  obtain i where i: "FindAppRuntime (ad_app app) s = Some i"
    using FindAppRuntime_registered[OF _ app] ok by (auto simp: desk_ok_def desk_pre_def)
  show ?thesis
  proof (cases "ar_state (g_AppRuntimes s ! i) \<in> {AppRunning, Minimized, NotResponding}")
    case True
    then show ?thesis using restore[OF ok] restore_focuses[OF ok app] i by (simp add: LaunchApplication_def)
  next
    case False
    define s1 where "s1 = update_runtime i (\<lambda>r. r\<lparr>ar_state := Opening, ar_transition_ticks := kLaunchTransitionTicks\<rparr>) s"
    obtain launched pid tid u where launch: "KernelLaunchUserApplication (env_garbage env (gui_user s1)) (Some (ad_id app))
        (Some (ad_executable_path app)) (gui_user s1) = (launched, pid, tid, u)" by (cases rule: prod_cases4)
    define s2 where "s2 = s1\<lparr>gui_user := u\<rparr>"
    have s2: "desk_ok s2" unfolding s2_def s1_def using ok by (auto intro!: runtime)
    obtain opened s3 where opened: "open_window app (ar_launch_count (g_AppRuntimes s2 ! i)) pid tid s2 = (opened, s3)" by (cases rule: prod.exhaust)
    have s3: "desk_ok s3" using open_window_ok[OF s2 app] opened by (metis snd_conv)
    obtain started tid2 v where start: "KernelStartUserApplicationEventLoop (env_prog env) pid (Some (ad_id app)) (gui_user s3) = (started, tid2, v)"
      by (cases rule: prod_cases3)
    define s4 where "s4 = s3\<lparr>gui_user := v\<rparr>"
    have s4: "desk_ok s4" using s3 by (simp add: s4_def)
    define s5 where "s5 = (if FindWindowByApp (ad_app app) (ad_desktop app) s4 \<ge> 0
      then update_window (nat (FindWindowByApp (ad_app app) (ad_desktop app) s4)) (\<lambda>w. w\<lparr>w_thread_id := tid2\<rparr>) s4 else s4)"
    define s6 where "s6 = update_runtime i (\<lambda>r. r\<lparr>ar_state := AppRunning, ar_process_id := pid, ar_thread_id := tid2,
      ar_launch_count := ar_launch_count r + 1, ar_missed_heartbeat_count := 0, ar_transition_ticks := kLaunchTransitionTicks\<rparr>) s5"
    define s7 where "s7 = (if g_ActiveDesktop s6 \<noteq> ad_desktop app then snd (SwitchVirtualDesktop (ad_desktop app) s6) else s6)"
    have "desk_ok s5" using s4 by (simp add: s5_def thread)
    then have "desk_ok s6" unfolding s6_def by (intro runtime) simp_all
    then have s7: "desk_ok s7" unfolding s7_def by (rule switch)
    have "LaunchApplication env app s =
      (if \<not> launched then launch_failed i s2 else if \<not> opened then launch_failed i s3 else if \<not> started then launch_failed i s4
       else (True, ShowNotification (Some ''app running'') (th_maximize kTheme) (snd (RestoreOrFocusRunningApp app s7))))"
      using False i launch opened start by (simp add: LaunchApplication_def Let_def s1_def s2_def s4_def s5_def s6_def s7_def)
    moreover have "focused_app (snd (RestoreOrFocusRunningApp app s7)) = Some (ad_app app)" if opened
    proof (rule restore_focuses[OF s7 app])
      have "map window_key (g_Windows s6) = map window_key (g_Windows s4)"
        by (simp add: s6_def s5_def update_runtime_def update_window_def map_update_id window_key_def)
      moreover have "(ad_app app, ad_desktop app) \<in> set (map window_key (g_Windows s4))"
        using open_window_keys opened that by (simp add: s4_def)
      ultimately have "(ad_app app, ad_desktop app) \<in> set (map window_key (g_Windows s7))"
        using mset_eq_setD[OF SwitchVirtualDesktop_keys[of "ad_desktop app" s6]] by (simp add: s7_def del: set_map)
      then show "fst (RestoreOrFocusRunningApp app s7)"
        using FindWindowByApp_keys[of "ad_app app" "ad_desktop app" s7] by (simp add: RestoreOrFocusRunningApp_def Let_def)
    qed
    moreover have "focused_app (ShowNotification t c u) = focused_app u" for t c and u :: "'a Desk_scheme"
      by (simp add: focused_app_def ShowNotification_def)
    ultimately show ?thesis using s2 s3 s4 s7 by (simp add: failed restore) (simp add: launch_failed_def)
  qed
qed

lemma LaunchApplicationById_ok: "desk_ok s \<Longrightarrow> desk_ok (snd (LaunchApplicationById env app_id s))"
  by (auto simp: LaunchApplicationById_def FindApplicationById_registered LaunchApplication_result split: option.split)

subsection \<open>The property and its instance\<close>


definition demo_window :: "AppKind \<Rightarrow> u8 \<Rightarrow> bool \<Rightarrow> bool \<Rightarrow> Window" where
  "demo_window app desktop minimized focused =
     \<lparr>w_title = None, w_bounds = rect 0 46 640 300, w_restore_bounds = rect 0 46 640 300, w_color = 0, w_visible = True, w_minimized = minimized,
      w_maximized = False, w_focused = focused, w_app = app, w_desktop = desktop, w_process_id = 0, w_thread_id = 0\<rparr>"

definition demo_desk :: "UserSpace \<Rightarrow> Desk" where
  "demo_desk u = \<lparr>g_Framebuffer = \<lparr>fb_base_address = 1, fb_width = 640, fb_height = 480, fb_pixels_per_scanline = 640, fb_format = 1\<rparr>,
     g_Windows = [demo_window TextEditor 1 True False, demo_window FileManager 0 False True],
     g_AppPlacements = replicate 12 \<lparr>ap_app = FileManager, ap_last_bounds = rect 0 0 0 0, ap_valid = False\<rparr>,
     g_AppRuntimes = map (\<lambda>d. \<lparr>ar_app = ad_app d, ar_state = AppRunning, ar_process_id = 0, ar_thread_id = 0, ar_launch_count = 1,
       ar_missed_heartbeat_count = 0, ar_transition_ticks = 0, ar_valid = True\<rparr>) kApplications,
     g_DragWindowIndex = -1, g_MouseDownWindowIndex = -1, g_ActiveDesktop = 0, g_ActiveWindowIndex = 1, g_NotificationText = None,
     g_NotificationColor = 0, gui_user = u\<rparr>"

lemma demo_desk_ok: "desk_ok (demo_desk u)"
proof -
  have w: "inside (w_bounds (demo_window a d m f)) (UsableDesktopRect (g_Framebuffer (demo_desk u)))" for a d m f
    by (subst UsableDesktopRect_valid) (simp_all add: demo_desk_def demo_window_def FramebufferValid_def inside_def)
  then have "placed (g_Framebuffer (demo_desk u)) (g_Windows (demo_desk u))" unfolding placed_def by (simp add: demo_desk_def)
  moreover have "apps_ok (g_Windows (demo_desk u))"
    by (simp add: apps_ok_def demo_desk_def demo_window_def kApplications_def application_def)
  moreover have "focus_ok (g_Windows (demo_desk u)) 1 0"
    by (auto simp: focus_ok_def demo_desk_def demo_window_def shown_def less_Suc_eq)
  moreover have "placements_ok (g_AppPlacements (demo_desk u))" by (simp add: placements_ok_def demo_desk_def kMaxWindows_def)
  moreover have "runtimes_ok (g_AppRuntimes (demo_desk u))" by (simp add: runtimes_ok_def demo_desk_def list_all_iff)
  ultimately show ?thesis
    by (simp add: desk_ok_def desk_pre_def) (simp add: demo_desk_def FramebufferValid_def index_ok_def kVirtualDesktopCount_def)
qed


end
