(* ===== verification/GuiApps.thy ===== *)
theory GuiApps
  imports GuiLaunch
begin

text \<open>
  \<^verbatim>\<open>kernel/src/gui.cpp\<close>: the in-memory files of the desktop and the file manager, editor, calculator and settings.

  A buffer with a cursor holds the text before the cursor: every operation keeps the cursor at the end
  of the text. The stacks of the file manager are the lists of their entries in use. Signed arithmetic of the calculator wraps,
  as the compiled code does; the C++ leaves it undefined.
\<close>

subsection \<open>Data\<close>

record NativeFileEntry =
  nf_path :: string
  nf_content :: string
  nf_directory :: bool
  nf_active :: bool

record FileManagerState =
  fm_current_path :: string
  fm_back_stack :: "string list"
  fm_forward_stack :: "string list"
  fm_selected_path :: string
  fm_error :: string

record TextEditorState =
  te_path :: string
  te_text :: string
  te_cursor :: nat
  te_selection_start :: nat
  te_selection_end :: nat
  te_scroll_line :: u32
  te_dirty :: bool
  te_selection_active :: bool

record CalculatorState =
  ca_expression :: string
  ca_accumulator :: i32
  ca_current :: i32
  ca_pending_operator :: char
  ca_has_pending_operator :: bool
  ca_showing_result :: bool

record SettingsState =
  se_page :: u32
  se_resolution_index :: u32
  se_volume :: u32
  se_mouse_speed :: u32
  se_keyboard_repeat :: u32
  se_dark_theme :: bool

record TerminalSessionState =
  ts_input :: string
  ts_cursor :: nat
  ts_columns :: u32
  ts_rows :: u32
  ts_selection :: string
  ts_pty_master_fd :: i32
  ts_pty_slave_fd :: i32
  ts_cursor_visible :: bool
  ts_selection_active :: bool

record TerminalLine =
  tl_text :: string
  tl_color :: u32

record AppDesk = Desk +
  g_NativeFiles :: "NativeFileEntry list"
  g_FileManager :: FileManagerState
  g_TextEditor :: TextEditorState
  g_Calculator :: CalculatorState
  g_Settings :: SettingsState
  g_TerminalSession :: TerminalSessionState
  g_TerminalLines :: "TerminalLine list"
  g_TerminalScrollOffset :: i32
  g_TerminalCwd :: string
  g_TerminalRebootRequested :: bool
  g_TerminalShutdownRequested :: bool
  g_TerminalHistory :: "string list"
  g_TerminalHistoryCursor :: int

definition kMaxTerminalLines :: nat where "kMaxTerminalLines = 64"
definition kVisibleTerminalLines :: nat where "kVisibleTerminalLines = 12"
definition kTerminalHistoryEntries :: nat where "kTerminalHistoryEntries = 8"
definition kTerminalCommandLength :: nat where "kTerminalCommandLength = 64"
definition kTerminalInputLength :: nat where "kTerminalInputLength = 80"
definition kTerminalSelectionLength :: nat where "kTerminalSelectionLength = 96"
definition kNativeFileCapacity :: nat where "kNativeFileCapacity = 16"
definition kPathLength :: nat where "kPathLength = 48"
definition kContentLength :: nat where "kContentLength = 96"
definition kEditorTextLength :: nat where "kEditorTextLength = 384"
definition kCalculatorExpressionLength :: nat where "kCalculatorExpressionLength = 32"

subsection \<open>Native files\<close>

definition empty_file :: NativeFileEntry where
  "empty_file = \<lparr>nf_path = [], nf_content = [], nf_directory = False, nf_active = False\<rparr>"

definition NativeFileClear :: "nat \<Rightarrow> 'a AppDesk_scheme \<Rightarrow> 'a AppDesk_scheme" where
  "NativeFileClear i s = s\<lparr>g_NativeFiles := (g_NativeFiles s)[i := empty_file]\<rparr>"

definition FindNativeFile :: "cstring \<Rightarrow> 'a AppDesk_scheme \<Rightarrow> nat option" where
  "FindNativeFile path s = find_index (\<lambda>f. nf_active f \<and> TextEquals (Some (nf_path f)) path) (g_NativeFiles s)"

definition NativeFileAdd :: "cstring \<Rightarrow> bool \<Rightarrow> cstring \<Rightarrow> 'a AppDesk_scheme \<Rightarrow> bool \<times> 'a AppDesk_scheme" where
  "NativeFileAdd path directory content s =
     (if path = None \<or> FindNativeFile path s \<noteq> None then (False, s)
      else case find_index (\<lambda>f. \<not> nf_active f) (g_NativeFiles s) of
        None \<Rightarrow> (False, s)
      | Some i \<Rightarrow>
          let f = g_NativeFiles s ! i;
              text1 = (if content = None then Some [] else content)
          in (True, s\<lparr>g_NativeFiles := (g_NativeFiles s)[i := \<lparr>nf_path = CopyText kPathLength path (nf_path f),
                nf_content = CopyText kContentLength text1 (nf_content f), nf_directory = directory, nf_active = True\<rparr>]\<rparr>))"

definition NativeFileRename :: "cstring \<Rightarrow> cstring \<Rightarrow> 'a AppDesk_scheme \<Rightarrow> bool \<times> 'a AppDesk_scheme" where
  "NativeFileRename src dst s =
     (case FindNativeFile src s of None \<Rightarrow> (False, s)
      | Some i \<Rightarrow> if FindNativeFile dst s \<noteq> None then (False, s)
          else (True, s\<lparr>g_NativeFiles := (g_NativeFiles s)[i := (g_NativeFiles s ! i)\<lparr>nf_path := CopyText kPathLength dst (nf_path (g_NativeFiles s ! i))\<rparr>]\<rparr>))"

definition NativeFileDelete :: "cstring \<Rightarrow> 'a AppDesk_scheme \<Rightarrow> bool \<times> 'a AppDesk_scheme" where
  "NativeFileDelete path s = (case FindNativeFile path s of None \<Rightarrow> (False, s) | Some i \<Rightarrow> (True, NativeFileClear i s))"

subsection \<open>The start state\<close>

definition boot_files :: "(string \<times> bool \<times> string) list" where
  "boot_files = [(''/'', True, ''''), (''/boot'', True, ''''), (''/kernel'', True, ''''), (''/tmp'', True, ''''),
     (''/tmp/readme'', False, ''Antigravity OS terminal ready.''), (''/tmp/notes.txt'', False, ''Antigravity OS notes''),
     (''/tmp/SO.png'', False, ''PNG image placeholder'')]"

definition InitNativeAppState :: "'a AppDesk_scheme \<Rightarrow> 'a AppDesk_scheme" where
  "InitNativeAppState s0 =
     (let s = fold (\<lambda>(path, dir, content) s. snd (NativeFileAdd (Some path) dir (Some content) s)) boot_files
            (fold NativeFileClear [0 ..< kNativeFileCapacity] s0)
      in s\<lparr>g_FileManager := \<lparr>fm_current_path = ''/'', fm_back_stack = [], fm_forward_stack = [], fm_selected_path = ''/tmp/readme'', fm_error = []\<rparr>,
           g_TextEditor := \<lparr>te_path = ''/tmp/notes.txt'', te_text = ''Antigravity OS notes'', te_cursor = length ''Antigravity OS notes'',
             te_selection_start = 0, te_selection_end = 0, te_scroll_line = 0, te_dirty = False, te_selection_active = False\<rparr>,
           g_Calculator := \<lparr>ca_expression = ''0'', ca_accumulator = 0, ca_current = 0, ca_pending_operator = CHR 0x00,
             ca_has_pending_operator = False, ca_showing_result = True\<rparr>,
           g_Settings := \<lparr>se_page = 0, se_resolution_index = 0, se_volume = 64, se_mouse_speed = 5, se_keyboard_repeat = 30, se_dark_theme = True\<rparr>,
           g_TerminalSession := \<lparr>ts_input = [], ts_cursor = 0, ts_columns = 80, ts_rows = of_nat kVisibleTerminalLines, ts_selection = [],
             ts_pty_master_fd = 64, ts_pty_slave_fd = 65, ts_cursor_visible = True, ts_selection_active = False\<rparr>\<rparr>)"

subsection \<open>The editor\<close>

definition TextEditorNewFile :: "'a AppDesk_scheme \<Rightarrow> bool \<times> 'a AppDesk_scheme" where
  "TextEditorNewFile s = (True, s\<lparr>g_TextEditor := (g_TextEditor s)\<lparr>te_path := ''/tmp/untitled.txt'', te_text := [], te_cursor := 0,
     te_scroll_line := 0, te_dirty := True, te_selection_active := False\<rparr>\<rparr>)"

definition TextEditorOpenFile :: "cstring \<Rightarrow> 'a AppDesk_scheme \<Rightarrow> bool \<times> 'a AppDesk_scheme" where
  "TextEditorOpenFile path s =
     (case FindNativeFile path s of None \<Rightarrow> (False, s)
      | Some i \<Rightarrow>
          if nf_directory (g_NativeFiles s ! i) then (False, s)
          else
            let e = g_TextEditor s; txt = CopyText kEditorTextLength (Some (nf_content (g_NativeFiles s ! i))) (te_text e)
            in (True, s\<lparr>g_TextEditor := e\<lparr>te_path := CopyText kPathLength path (te_path e), te_text := txt, te_cursor := length txt,
                  te_scroll_line := 0, te_dirty := False, te_selection_active := False\<rparr>\<rparr>))"

definition TextEditorSaveAs :: "cstring \<Rightarrow> 'a AppDesk_scheme \<Rightarrow> bool \<times> 'a AppDesk_scheme" where
  "TextEditorSaveAs path s =
     (let e = g_TextEditor s;
          (ok, s1) = (case FindNativeFile path s of
              None \<Rightarrow> NativeFileAdd path False (Some (te_text e)) s
            | Some i \<Rightarrow> let f = g_NativeFiles s ! i in
                if nf_directory f then (False, s)
                else (True, s\<lparr>g_NativeFiles := (g_NativeFiles s)[i := f\<lparr>nf_content := CopyText kContentLength (Some (te_text e)) (nf_content f)\<rparr>]\<rparr>))
      in if \<not> ok then (False, s1)
         else (True, s1\<lparr>g_TextEditor := (g_TextEditor s1)\<lparr>te_path := CopyText kPathLength path (te_path e), te_dirty := False\<rparr>\<rparr>))"

definition TextEditorSave :: "'a AppDesk_scheme \<Rightarrow> bool \<times> 'a AppDesk_scheme" where
  "TextEditorSave s = TextEditorSaveAs (Some (te_path (g_TextEditor s))) s"

definition key_is :: "u32 \<Rightarrow> string \<Rightarrow> bool" where
  "key_is key cs \<longleftrightarrow> key \<in> set (map (\<lambda>c. of_nat (of_char c)) cs)"

definition key_char :: "u32 \<Rightarrow> char" where
  "key_char key = char_of (unat key)"

definition TextEditorHandleKey :: "u32 \<Rightarrow> u32 \<Rightarrow> 'a AppDesk_scheme \<Rightarrow> bool \<times> 'a AppDesk_scheme" where
  "TextEditorHandleKey key0 modifiers s =
     (let ctrl = modifiers AND 1 \<noteq> 0; e = g_TextEditor s in
      if ctrl \<and> key_is key0 ''sS'' then TextEditorSave s
      else if ctrl \<and> key_is key0 ''oO'' then TextEditorOpenFile (Some ''/tmp/notes.txt'') s
      else if ctrl \<and> key_is key0 ''aA'' then
        (True, s\<lparr>g_TextEditor := e\<lparr>te_selection_start := 0, te_selection_end := length (te_text e), te_selection_active := te_text e \<noteq> []\<rparr>\<rparr>)
      else if key0 = 8 \<or> key0 = 127 then
        (True, if te_cursor e > 0
          then s\<lparr>g_TextEditor := e\<lparr>te_cursor := te_cursor e - 1, te_text := take (te_cursor e - 1) (te_text e), te_dirty := True\<rparr>\<rparr> else s)
      else
        let key = (if key0 = 10 \<or> key0 = 13 then 32 else key0) in
        if key < 32 \<or> key > 126 \<or> te_cursor e + 1 \<ge> kEditorTextLength then (False, s)
        else
          let cursor = te_cursor e + 1 in
          (True, s\<lparr>g_TextEditor := e\<lparr>te_text := take (te_cursor e) (te_text e) @ [key_char key], te_cursor := cursor, te_dirty := True,
             te_scroll_line := (if of_nat (cursor div 40) > te_scroll_line e + 8 then te_scroll_line e + 1 else te_scroll_line e)\<rparr>\<rparr>))"

subsection \<open>The file manager\<close>

definition set_fm :: "(FileManagerState \<Rightarrow> FileManagerState) \<Rightarrow> 'a AppDesk_scheme \<Rightarrow> 'a AppDesk_scheme" where
  "set_fm f s = s\<lparr>g_FileManager := f (g_FileManager s)\<rparr>"

text \<open>\<open>CopyText(g_FileManager.error, sizeof(g_FileManager.error), text)\<close>; every text fits.\<close>

definition fm_report :: "string \<Rightarrow> 'a AppDesk_scheme \<Rightarrow> 'a AppDesk_scheme" where
  "fm_report txt = set_fm (\<lambda>m. m\<lparr>fm_error := txt\<rparr>)"

definition FileManagerPushBack :: "string \<Rightarrow> FileManagerState \<Rightarrow> FileManagerState" where
  "FileManagerPushBack path m =
     m\<lparr>fm_back_stack := (if length (fm_back_stack m) \<ge> 4 then drop 1 (fm_back_stack m) else fm_back_stack m) @ [take (kPathLength - 1) path]\<rparr>"

definition AssociatedAppForFile :: "cstring \<Rightarrow> AppKind" where
  "AssociatedAppForFile path =
     (case path of None \<Rightarrow> FileManager
      | Some p \<Rightarrow>
          let n = length p in
          if n \<ge> 4 \<and> TextEquals (Some (drop (n - 4) p)) (Some ''.txt'') then TextEditor
          else if n \<ge> 4 \<and> TextEquals (Some (drop (n - 4) p)) (Some ''.png'') then ImageViewer
          else FileManager)"

definition LaunchAssociatedFile :: "GuiEnv \<Rightarrow> cstring \<Rightarrow> 'a AppDesk_scheme \<Rightarrow> bool \<times> 'a AppDesk_scheme" where
  "LaunchAssociatedFile env path s =
     (if path = None then (False, s)
      else case AssociatedAppForFile path of
        TextEditor \<Rightarrow> (let (ok, s1) = TextEditorOpenFile path s in if \<not> ok then (False, s1) else LaunchApplicationById env (Some ''edit'') s1)
      | ImageViewer \<Rightarrow> LaunchApplicationById env (Some ''image'') s
      | _ \<Rightarrow> (False, ShowNotification (Some ''no file association'') (th_close kTheme) s))"

definition FileManagerOpenPath :: "GuiEnv \<Rightarrow> cstring \<Rightarrow> 'a AppDesk_scheme \<Rightarrow> bool \<times> 'a AppDesk_scheme" where
  "FileManagerOpenPath env path s =
     (case FindNativeFile path s of None \<Rightarrow> (False, fm_report ''filesystem error'' s)
      | Some i \<Rightarrow>
          if \<not> nf_directory (g_NativeFiles s ! i) then
            LaunchAssociatedFile env path (set_fm (\<lambda>m. m\<lparr>fm_selected_path := CopyText kPathLength path (fm_selected_path m), fm_error := []\<rparr>) s)
          else (True, set_fm (\<lambda>m. (FileManagerPushBack (fm_current_path m) m)\<lparr>fm_forward_stack := [],
                 fm_current_path := CopyText kPathLength path (fm_current_path m), fm_error := []\<rparr>) s))"

definition FileManagerBack :: "'a AppDesk_scheme \<Rightarrow> bool \<times> 'a AppDesk_scheme" where
  "FileManagerBack s =
     (if fm_back_stack (g_FileManager s) = [] then (False, s)
      else (True, set_fm (\<lambda>m. m\<lparr>
             fm_forward_stack := (if length (fm_forward_stack m) < 4 then fm_forward_stack m @ [fm_current_path m] else fm_forward_stack m),
             fm_back_stack := butlast (fm_back_stack m), fm_current_path := last (fm_back_stack m)\<rparr>) s))"

definition FileManagerForward :: "'a AppDesk_scheme \<Rightarrow> bool \<times> 'a AppDesk_scheme" where
  "FileManagerForward s =
     (if fm_forward_stack (g_FileManager s) = [] then (False, s)
      else (True, set_fm (\<lambda>m. (FileManagerPushBack (fm_current_path m) m)\<lparr>
             fm_forward_stack := butlast (fm_forward_stack m), fm_current_path := last (fm_forward_stack m)\<rparr>) s))"

definition FileManagerCreateFolder :: "string \<Rightarrow> 'a AppDesk_scheme \<Rightarrow> bool \<times> 'a AppDesk_scheme" where
  "FileManagerCreateFolder name s =
     (let path0 = CopyText kPathLength (Some (fm_current_path (g_FileManager s))) [];
          path1 = (if \<not> TextEquals (Some path0) (Some ''/'') then AppendText kPathLength (Some ''/'') path0 else path0);
          (ok, s1) = NativeFileAdd (Some (AppendText kPathLength (Some name) path1)) True (Some []) s
      in (ok, fm_report (if ok then [] else ''create folder failed'') s1))"

definition FileManagerCopySelected :: "cstring \<Rightarrow> 'a AppDesk_scheme \<Rightarrow> bool \<times> 'a AppDesk_scheme" where
  "FileManagerCopySelected dest s =
     (case FindNativeFile (Some (fm_selected_path (g_FileManager s))) s of
        None \<Rightarrow> (False, fm_report ''copy failed'' s)
      | Some i \<Rightarrow> (let f = g_NativeFiles s ! i; (ok, s1) = NativeFileAdd dest (nf_directory f) (Some (nf_content f)) s
          in (ok, fm_report (if ok then [] else ''copy failed'') s1)))"

definition FileManagerMoveSelected :: "cstring \<Rightarrow> 'a AppDesk_scheme \<Rightarrow> bool \<times> 'a AppDesk_scheme" where
  "FileManagerMoveSelected dest s =
     (let (ok, s1) = NativeFileRename (Some (fm_selected_path (g_FileManager s))) dest s;
          s2 = (if ok then set_fm (\<lambda>m. m\<lparr>fm_selected_path := CopyText kPathLength dest (fm_selected_path m)\<rparr>) s1 else s1)
      in (ok, fm_report (if ok then [] else ''move failed'') s2))"

subsection \<open>The calculator\<close>

text \<open>The digits \<open>CalculatorSetDisplay\<close> leaves in \<open>temp\<close>, least significant first: at most 12.\<close>

fun display_digits :: "nat \<Rightarrow> nat \<Rightarrow> string" where
  "display_digits 0 m = []"
| "display_digits (Suc n) m = char_of (48 + m mod 10) # (if m div 10 = 0 then [] else display_digits n (m div 10))"

definition CalculatorSetDisplay :: "i32 \<Rightarrow> CalculatorState \<Rightarrow> CalculatorState" where
  "CalculatorSetDisplay value c =
     (let negative = sint value < 0;
          digits = display_digits 12 (unat (if negative then - value else value));
          room = kCalculatorExpressionLength - 1 - (if negative then 1 else 0)
      in c\<lparr>ca_expression := (if negative then ''-'' else []) @ take room (rev digits)\<rparr>)"

text \<open>Division rounds towards zero.\<close>

definition div_i32 :: "i32 \<Rightarrow> i32 \<Rightarrow> i32" where
  "div_i32 a b = (let q = \<bar>sint a\<bar> div \<bar>sint b\<bar> in of_int (if (sint a < 0) \<noteq> (sint b < 0) then - q else q))"

definition CalculatorApplyPending :: "CalculatorState \<Rightarrow> CalculatorState" where
  "CalculatorApplyPending c =
     (let a = ca_accumulator c; b = ca_current c; oper = ca_pending_operator c in
      if \<not> ca_has_pending_operator c then c\<lparr>ca_accumulator := b\<rparr>
      else if oper = CHR ''+'' then c\<lparr>ca_accumulator := a + b\<rparr>
      else if oper = CHR ''-'' then c\<lparr>ca_accumulator := a - b\<rparr>
      else if oper = CHR ''*'' then c\<lparr>ca_accumulator := a * b\<rparr>
      else if oper = CHR ''/'' \<and> b \<noteq> 0 then c\<lparr>ca_accumulator := div_i32 a b\<rparr>
      else c)"

definition calculator_key :: "u32 \<Rightarrow> CalculatorState \<Rightarrow> bool \<times> CalculatorState" where
  "calculator_key key c =
     (if 48 \<le> key \<and> key \<le> 57 then
        let c1 = (if ca_showing_result c then c\<lparr>ca_current := 0, ca_showing_result := False\<rparr> else c);
            current = ca_current c1 * 10 + (key - 48)
        in (True, CalculatorSetDisplay current (c1\<lparr>ca_current := current\<rparr>))
      else if key_is key ''+-*/'' then
        let c1 = CalculatorApplyPending c in
        (True, CalculatorSetDisplay (ca_accumulator c1) (c1\<lparr>ca_pending_operator := key_char key, ca_has_pending_operator := True,
           ca_current := 0, ca_showing_result := True\<rparr>))
      else if key = 61 \<or> key = 10 \<or> key = 13 then
        let c1 = CalculatorApplyPending c in
        (True, CalculatorSetDisplay (ca_accumulator c1) (c1\<lparr>ca_has_pending_operator := False, ca_current := ca_accumulator c1,
           ca_showing_result := True\<rparr>))
      else if key_is key ''cC'' then
        (True, c\<lparr>ca_accumulator := 0, ca_current := 0, ca_has_pending_operator := False, ca_showing_result := True, ca_expression := ''0''\<rparr>)
      else if key = 8 \<or> key = 127 then
        let current = div_i32 (ca_current c) 10 in (True, CalculatorSetDisplay current (c\<lparr>ca_current := current\<rparr>))
      else (False, c))"

definition CalculatorHandleKey :: "u32 \<Rightarrow> 'a AppDesk_scheme \<Rightarrow> bool \<times> 'a AppDesk_scheme" where
  "CalculatorHandleKey key s = (let (ok, c) = calculator_key key (g_Calculator s) in (ok, s\<lparr>g_Calculator := c\<rparr>))"

subsection \<open>The settings\<close>

definition SettingsHandleKey :: "u32 \<Rightarrow> 'a AppDesk_scheme \<Rightarrow> bool \<times> 'a AppDesk_scheme" where
  "SettingsHandleKey key s =
     (let t = g_Settings s in
      if 49 \<le> key \<and> key \<le> 56 then (True, s\<lparr>g_Settings := t\<lparr>se_page := key - 49\<rparr>\<rparr>)
      else if key = 43 \<and> se_volume t < 100 then (True, s\<lparr>g_Settings := t\<lparr>se_volume := se_volume t + 4\<rparr>\<rparr>)
      else if key = 45 \<and> se_volume t \<ge> 4 then (True, s\<lparr>g_Settings := t\<lparr>se_volume := se_volume t - 4\<rparr>\<rparr>)
      else if key_is key ''tT'' then (True, s\<lparr>g_Settings := t\<lparr>se_dark_theme := \<not> se_dark_theme t\<rparr>\<rparr>)
      else (False, s))"

subsection \<open>What the applications keep of the windows\<close>

text \<open>Everything below the applications: the fields of \<open>Desk\<close>.\<close>

definition desk_fields :: "'a Desk_scheme \<Rightarrow> Desk" where
  "desk_fields s = Desk.truncate s"

lemma desk_ok_fields: "desk_ok (desk_fields s) = desk_ok s"
  by (simp add: desk_ok_def desk_pre_def desk_fields_def Desk.truncate_def)

lemma desk_fields_ok:
  fixes s :: "'a Desk_scheme" and t :: "'b Desk_scheme"
  assumes "desk_fields s = desk_fields t"
  shows "desk_ok s = desk_ok t"
  using desk_ok_fields[of s] desk_ok_fields[of t] assms by simp

named_theorems desk_kept \<open>operations that leave the desktop below the applications alone\<close>

lemma file_ops_desk [simp, desk_kept]:
  "desk_fields (snd (NativeFileAdd p d c s)) = desk_fields s" "desk_fields (snd (NativeFileRename p q s)) = desk_fields s"
  "desk_fields (snd (NativeFileDelete p s)) = desk_fields s" "desk_fields (NativeFileClear i s) = desk_fields s"
  by (simp_all add: NativeFileAdd_def NativeFileRename_def NativeFileDelete_def NativeFileClear_def desk_fields_def Desk.truncate_def Let_def
      split: option.split)

lemma set_fm_desk [simp, desk_kept]: "desk_fields (set_fm f s) = desk_fields s" "desk_fields (fm_report txt s) = desk_fields s"
  by (simp_all add: fm_report_def set_fm_def desk_fields_def Desk.truncate_def)

lemma editor_desk [simp, desk_kept]:
  "desk_fields (snd (TextEditorNewFile s)) = desk_fields s" "desk_fields (snd (TextEditorOpenFile p s)) = desk_fields s"
  by (simp_all add: TextEditorNewFile_def TextEditorOpenFile_def desk_fields_def Desk.truncate_def Let_def split: option.split)

lemma editor_update_desk [simp]:
  "desk_fields (s\<lparr>g_TextEditor := e\<rparr>) = desk_fields s" "desk_fields (s\<lparr>g_NativeFiles := fs\<rparr>) = desk_fields s"
  "desk_fields (s\<lparr>g_Calculator := c\<rparr>) = desk_fields s" "desk_fields (s\<lparr>g_Settings := t\<rparr>) = desk_fields s"
  "desk_fields (s\<lparr>g_TerminalSession := u\<rparr>) = desk_fields s"
  by (simp_all add: desk_fields_def Desk.truncate_def)

lemma TextEditorSaveAs_desk [simp, desk_kept]: "desk_fields (snd (TextEditorSaveAs p s)) = desk_fields s"
proof (cases "FindNativeFile p s")
  case None
  then show ?thesis using file_ops_desk(1)[of p False "Some (te_text (g_TextEditor s))" s]
    by (cases "NativeFileAdd p False (Some (te_text (g_TextEditor s))) s") (auto simp: TextEditorSaveAs_def Let_def)
qed (simp add: TextEditorSaveAs_def Let_def)

lemma TextEditorHandleKey_desk [simp, desk_kept]: "desk_fields (snd (TextEditorHandleKey key m s)) = desk_fields s"
  by (simp only: TextEditorHandleKey_def Let_def TextEditorSave_def if_distrib[of snd] if_distrib[of desk_fields] snd_conv
      editor_update_desk editor_desk TextEditorSaveAs_desk if_cancel)

lemma file_manager_moves_desk [simp, desk_kept]:
  "desk_fields (snd (FileManagerBack s)) = desk_fields s" "desk_fields (snd (FileManagerForward s)) = desk_fields s"
  by (simp_all add: FileManagerBack_def FileManagerForward_def)

lemma FileManagerCreateFolder_desk [simp, desk_kept]: "desk_fields (snd (FileManagerCreateFolder name s)) = desk_fields s"
  unfolding FileManagerCreateFolder_def Let_def split_beta snd_conv set_fm_desk file_ops_desk ..

lemma FileManagerCopySelected_desk [simp, desk_kept]: "desk_fields (snd (FileManagerCopySelected d s)) = desk_fields s"
  by (cases "FindNativeFile (Some (fm_selected_path (g_FileManager s))) s") (simp_all only: FileManagerCopySelected_def option.case Let_def split_beta snd_conv set_fm_desk file_ops_desk)

lemma FileManagerMoveSelected_desk [simp, desk_kept]: "desk_fields (snd (FileManagerMoveSelected d s)) = desk_fields s"
  by (simp only: FileManagerMoveSelected_def Let_def split_beta snd_conv set_fm_desk if_distrib[of desk_fields] file_ops_desk if_cancel)

lemma small_apps_desk [simp, desk_kept]:
  "desk_fields (snd (CalculatorHandleKey key s)) = desk_fields s" "desk_fields (snd (SettingsHandleKey key s)) = desk_fields s"
  by (simp_all only: CalculatorHandleKey_def SettingsHandleKey_def Let_def split_beta if_distrib[of snd] if_distrib[of desk_fields] snd_conv
      editor_update_desk if_cancel)

lemma LaunchAssociatedFile_ok: "desk_ok s \<Longrightarrow> desk_ok (snd (LaunchAssociatedFile env path s))"
  using desk_fields_ok[OF editor_desk(2), of path s]
  by (auto simp: LaunchAssociatedFile_def split_beta intro: LaunchApplicationById_ok split: AppKind.split)

lemma FileManagerOpenPath_ok: "desk_ok s \<Longrightarrow> desk_ok (snd (FileManagerOpenPath env path s))"
proof -
  assume ok: "desk_ok s"
  have "desk_ok (set_fm f s)" "desk_ok (fm_report m s)" for f m
    using ok desk_fields_ok[OF set_fm_desk(1), of f s] desk_fields_ok[OF set_fm_desk(2), of m s] by simp_all
  then show ?thesis by (auto simp: FileManagerOpenPath_def intro: LaunchAssociatedFile_ok split: option.split)
qed

subsection \<open>Files and the editor\<close>

lemma FindNativeFile_path: "FindNativeFile (Some p) s = find_index (\<lambda>f. nf_active f \<and> nf_path f = p) (g_NativeFiles s)"
  by (simp add: FindNativeFile_def)

lemma CopyText_content: "CopyText kContentLength (Some t) d = take (kContentLength - 1) t"
  by (simp add: CopyText_def kContentLength_def)

lemma NativeFileAdd_found:
  assumes "fst (NativeFileAdd (Some p) d c s)" "length p < kPathLength"
  shows "\<exists>i. FindNativeFile (Some p) (snd (NativeFileAdd (Some p) d c s)) = Some i \<and>
    nf_content (g_NativeFiles (snd (NativeFileAdd (Some p) d c s)) ! i) = take (kContentLength - 1) (case c of None \<Rightarrow> [] | Some t \<Rightarrow> t) \<and>
    nf_directory (g_NativeFiles (snd (NativeFileAdd (Some p) d c s)) ! i) = d"
proof -
  obtain i where none: "FindNativeFile (Some p) s = None" and i: "find_index (\<lambda>f. \<not> nf_active f) (g_NativeFiles s) = Some i"
    using assms(1) by (auto simp: NativeFileAdd_def split: if_splits option.splits)
  have len: "i < length (g_NativeFiles s)" using find_indexD(1)[OF i] .
  let ?f = "\<lparr>nf_path = p, nf_content = take (kContentLength - 1) (case c of None \<Rightarrow> [] | Some t \<Rightarrow> t), nf_directory = d, nf_active = True\<rparr>"
  have eq: "snd (NativeFileAdd (Some p) d c s) = s\<lparr>g_NativeFiles := (g_NativeFiles s)[i := ?f]\<rparr>"
    using none i assms(2) by (cases c) (simp_all add: NativeFileAdd_def Let_def CopyText_fits CopyText_content)
  have "find_index (\<lambda>f. nf_active f \<and> nf_path f = p) ((g_NativeFiles s)[i := ?f]) = Some i"
    using none len by (intro find_index_update_new) (auto simp: FindNativeFile_path find_index_None)
  then show ?thesis using len by (simp add: eq FindNativeFile_path)
qed

lemma saved_text_read_back:
  assumes "fst (TextEditorSaveAs (Some p) s)" "length p < kPathLength"
  shows "te_text (g_TextEditor (snd (TextEditorOpenFile (Some p) (snd (TextEditorSaveAs (Some p) s))))) =
    take (kContentLength - 1) (te_text (g_TextEditor s))"
proof -
  let ?t = "snd (TextEditorSaveAs (Some p) s)" and ?c = "take (kContentLength - 1) (te_text (g_TextEditor s))"
  have "\<exists>i. FindNativeFile (Some p) ?t = Some i \<and> nf_content (g_NativeFiles ?t ! i) = ?c \<and> \<not> nf_directory (g_NativeFiles ?t ! i)"
  proof (cases "FindNativeFile (Some p) s")
    case None
    let ?a = "NativeFileAdd (Some p) False (Some (te_text (g_TextEditor s))) s"
    have "fst ?a" using assms(1) None by (auto simp: TextEditorSaveAs_def Let_def split_beta split: if_splits)
    then have "g_NativeFiles ?t = g_NativeFiles (snd ?a)" using None by (simp add: TextEditorSaveAs_def Let_def split_beta)
    then show ?thesis using NativeFileAdd_found[OF \<open>fst ?a\<close> assms(2)] by (simp add: FindNativeFile_path)
  next
    case (Some i)
    let ?f = "(g_NativeFiles s ! i)\<lparr>nf_content := ?c\<rparr>"
    have i: "i < length (g_NativeFiles s)" "nf_active (g_NativeFiles s ! i) \<and> nf_path (g_NativeFiles s ! i) = p"
      using find_indexD[OF Some[unfolded FindNativeFile_path]] by simp_all
    have dir: "\<not> nf_directory (g_NativeFiles s ! i)" using assms(1) Some by (auto simp: TextEditorSaveAs_def Let_def split: if_splits)
    then have t: "g_NativeFiles ?t = (g_NativeFiles s)[i := ?f]"
      using Some by (simp add: TextEditorSaveAs_def Let_def CopyText_content)
    have "find_index (\<lambda>f. nf_active f \<and> nf_path f = p) ((g_NativeFiles s)[i := ?f]) = Some i"
      using i by (intro find_index_update_same Some[unfolded FindNativeFile_path]) simp
    then show ?thesis using i dir by (simp add: FindNativeFile_path t)
  qed
  then show ?thesis by (auto simp: TextEditorOpenFile_def Let_def CopyText_def kEditorTextLength_def kContentLength_def)
qed

lemma file_manager_back_forward:
  assumes "fm_back_stack (g_FileManager s) \<noteq> []" "length (fm_back_stack (g_FileManager s)) \<le> 4" "length (fm_forward_stack (g_FileManager s)) < 4"
    "\<forall>p \<in> set (fm_back_stack (g_FileManager s)). length p < kPathLength"
  shows "snd (FileManagerForward (snd (FileManagerBack s))) = s"
proof -
  obtain bs b where b: "fm_back_stack (g_FileManager s) = bs @ [b]" using assms(1) by (metis rev_exhaust)
  then have "take (kPathLength - 1) b = b" "length bs < 4" using assms by (auto simp: kPathLength_def)
  then show ?thesis using assms b
    by (simp add: FileManagerBack_def FileManagerForward_def set_fm_def FileManagerPushBack_def)
qed

subsection \<open>The calculator computes\<close>

fun decimal_text :: "nat \<Rightarrow> string" where
  "decimal_text n = (if n < 10 then [char_of (48 + n)] else decimal_text (n div 10) @ [char_of (48 + n mod 10)])"

definition integer_text :: "int \<Rightarrow> string" where
  "integer_text i = (if i < 0 then ''-'' else []) @ decimal_text (nat \<bar>i\<bar>)"

declare decimal_text.simps [simp del]

lemma display_digits_decimal: "m < 10 ^ n \<Longrightarrow> 0 < n \<Longrightarrow> rev (display_digits n m) = decimal_text m"
proof (induction n arbitrary: m)
  case (Suc n)
  show ?case
  proof (cases "m < 10")
    case False
    then have "m div 10 < 10 ^ n" "0 < n" using Suc.prems by (auto simp: less_mult_imp_div_less mult.commute intro: gr0I)
    then show ?thesis using Suc.IH[of "m div 10"] False by (subst decimal_text.simps) (simp add: div_eq_0_iff)
  qed (simp add: decimal_text.simps[of m])
qed simp

lemma display_digits_length: "length (display_digits n m) \<le> n"
  by (induction n m rule: display_digits.induct) auto

lemma int_unat_of_int: "0 \<le> k \<Longrightarrow> k < 4294967296 \<Longrightarrow> int (unat (of_int k :: u32)) = k"
  by (simp add: unsigned_of_int take_bit_int_eq_self)

lemma SetDisplay_text:
  assumes "sint v \<noteq> - (2 ^ 31)"
  shows "ca_expression (CalculatorSetDisplay v c) = integer_text (sint v)"
proof -
  have range: "- (2 ^ 31) \<le> sint v" "sint v < 2 ^ 31" using sint_range_size[of v] by (simp_all add: word_size)
  let ?m = "unat (if sint v < 0 then - v else v)"
  have m: "?m = nat \<bar>sint v\<bar>"
  proof (cases "sint v < 0")
    case True
    have "(of_int (- sint v) :: i32) = - v" by simp
    moreover have "int (unat (of_int (- sint v) :: i32)) = - sint v" using True range by (intro int_unat_of_int) simp_all
    ultimately have "int (unat (- v)) = - sint v" by (simp only:)
    then have "unat (- v) = nat (- sint v)" by (metis nat_int)
    then show ?thesis using True by simp
  next
    case False
    have "(of_int (sint v) :: i32) = v" by simp
    moreover have "int (unat (of_int (sint v) :: i32)) = sint v" using False range by (intro int_unat_of_int) simp_all
    ultimately have "int (unat v) = sint v" by (simp only:)
    then have "unat v = nat (sint v)" by (metis nat_int)
    then show ?thesis using False by simp
  qed
  have "?m < 10 ^ 12" using u32_lt[of "if sint v < 0 then - v else v"] by simp
  then have "rev (display_digits 12 ?m) = decimal_text ?m" by (rule display_digits_decimal) simp
  moreover have "length (display_digits 12 ?m) \<le> 12" by (rule display_digits_length)
  ultimately have "rev (display_digits 12 ?m) = decimal_text ?m" "length (decimal_text ?m) \<le> 12" by (simp, metis length_rev)
  then show ?thesis unfolding integer_text_def m[symmetric]
    by (cases "sint v < 0") (simp_all add: CalculatorSetDisplay_def Let_def kCalculatorExpressionLength_def del: display_digits.simps)
qed

text \<open>The keys of a number, most significant digit first, and its value.\<close>

definition digit_keys :: "nat list \<Rightarrow> u32 list" where
  "digit_keys ds = map (\<lambda>d. 48 + of_nat d) ds"

definition keyed_value :: "nat list \<Rightarrow> nat" where
  "keyed_value ds = foldl (\<lambda>n d. 10 * n + d) 0 ds"

definition press :: "u32 list \<Rightarrow> CalculatorState \<Rightarrow> CalculatorState" where
  "press keys c = fold (\<lambda>key c. snd (calculator_key key c)) keys c"

lemma press_simps [simp]: "press [] c = c" "press (k # ks) c = press ks (snd (calculator_key k c))" "press (ks @ ls) c = press ls (press ks c)"
  by (simp_all add: press_def)

lemma digit_key:
  assumes "d < 10"
  shows "snd (calculator_key (48 + of_nat d) c) = (let c1 = (if ca_showing_result c then c\<lparr>ca_current := 0, ca_showing_result := False\<rparr> else c);
      current = ca_current c1 * 10 + of_nat d in CalculatorSetDisplay current (c1\<lparr>ca_current := current\<rparr>))"
proof -
  have "unat (48 + of_nat d :: u32) = 48 + d" using assms by (simp add: unat_word_ariths unat_of_nat)
  then have "48 \<le> (48 + of_nat d :: u32) \<and> (48 + of_nat d :: u32) \<le> 57" using assms by (simp add: word_le_nat_alt)
  then show ?thesis by (simp add: calculator_key_def Let_def)
qed

lemma press_digits:
  assumes "\<forall>d \<in> set ds. d < 10" "\<not> ca_showing_result c" "ca_current c = of_nat n"
  shows "ca_current (press (digit_keys ds) c) = of_nat (foldl (\<lambda>n d. 10 * n + d) n ds) \<and>
    \<not> ca_showing_result (press (digit_keys ds) c) \<and> ca_accumulator (press (digit_keys ds) c) = ca_accumulator c \<and>
    ca_pending_operator (press (digit_keys ds) c) = ca_pending_operator c \<and>
    ca_has_pending_operator (press (digit_keys ds) c) = ca_has_pending_operator c"
  using assms
proof (induction ds arbitrary: c n)
  case (Cons d ds)
  let ?c = "snd (calculator_key (48 + of_nat d) c)"
  have c: "ca_current ?c = of_nat (10 * n + d)" "\<not> ca_showing_result ?c" "ca_accumulator ?c = ca_accumulator c"
    "ca_pending_operator ?c = ca_pending_operator c" "ca_has_pending_operator ?c = ca_has_pending_operator c"
    using Cons.prems by (simp_all add: digit_key Let_def CalculatorSetDisplay_def)
  have "press (digit_keys (d # ds)) c = press (digit_keys ds) ?c" by (simp add: digit_keys_def)
  then show ?case using Cons.IH[OF _ c(2,1)] Cons.prems(1) c(3-5) by simp
qed (simp add: digit_keys_def)

text \<open>A number typed where a result is shown replaces it.\<close>

lemma press_number:
  assumes "ds \<noteq> []" "\<forall>d \<in> set ds. d < 10" "ca_showing_result c"
  shows "ca_current (press (digit_keys ds) c) = of_nat (keyed_value ds) \<and> ca_accumulator (press (digit_keys ds) c) = ca_accumulator c \<and>
    ca_pending_operator (press (digit_keys ds) c) = ca_pending_operator c \<and>
    ca_has_pending_operator (press (digit_keys ds) c) = ca_has_pending_operator c"
proof -
  obtain d es where ds: "ds = d # es" using assms(1) by (cases ds) auto
  let ?c = "snd (calculator_key (48 + of_nat d) c)"
  have c: "ca_current ?c = of_nat d" "\<not> ca_showing_result ?c" "ca_accumulator ?c = ca_accumulator c"
    "ca_pending_operator ?c = ca_pending_operator c" "ca_has_pending_operator ?c = ca_has_pending_operator c"
    using assms ds by (simp_all add: digit_key Let_def CalculatorSetDisplay_def)
  have "press (digit_keys ds) c = press (digit_keys es) ?c" by (simp add: digit_keys_def ds)
  then show ?thesis using press_digits[OF _ c(2,1), of es] assms(2) c(3-5) by (simp add: keyed_value_def ds)
qed

text \<open>The value of a pressed operation over the integers, division rounding towards zero and a division by 0 giving the dividend.\<close>

definition operation_value :: "char \<Rightarrow> int \<Rightarrow> int \<Rightarrow> int" where
  "operation_value oper a b =
     (if oper = CHR ''+'' then a + b else if oper = CHR ''-'' then a - b else if oper = CHR ''*'' then a * b
      else if b = 0 then a else (let q = \<bar>a\<bar> div \<bar>b\<bar> in if (a < 0) \<noteq> (b < 0) then - q else q))"

definition char_key :: "char \<Rightarrow> u32" where
  "char_key c = of_nat (of_char c)"

lemma key_char_char_key [simp]: "key_char (char_key c) = c"
proof -
  have small: "n < 4294967296 \<Longrightarrow> unat (of_nat n :: u32) = n" for n by (simp add: unat_of_nat)
  have "(of_char c :: nat) < 4294967296" by (rule less_trans[of _ 256]) simp_all
  then have "unat (of_nat (of_char c) :: u32) = of_char c" by (rule small)
  then show ?thesis by (simp add: key_char_def char_key_def)
qed

lemma sint_of_int_small: "\<bar>i\<bar> < 2 ^ 31 \<Longrightarrow> sint (of_int i :: i32) = i"
  by (simp add: signed_of_int signed_take_bit_int_eq_self)

lemma calculator_result:
  assumes "as \<noteq> []" "bs \<noteq> []" "\<forall>d \<in> set as. d < 10" "\<forall>d \<in> set bs. d < 10" "oper \<in> set ''+-*/''"
    "keyed_value as < 2 ^ 31" "keyed_value bs < 2 ^ 31"
    "\<bar>operation_value oper (int (keyed_value as)) (int (keyed_value bs))\<bar> < 2 ^ 31"
  shows "ca_expression (press ([char_key CHR ''C''] @ digit_keys as @ [char_key oper] @ digit_keys bs @ [char_key CHR ''='']) c) =
    integer_text (operation_value oper (int (keyed_value as)) (int (keyed_value bs)))"
proof -
  let ?a = "keyed_value as" and ?b = "keyed_value bs"
  define c0 where "c0 = snd (calculator_key (char_key CHR ''C'') c)"
  have c0: "ca_showing_result c0" "\<not> ca_has_pending_operator c0" by (simp_all add: c0_def calculator_key_def char_key_def key_is_def Let_def)
  define c1 where "c1 = press (digit_keys as) c0"
  have c1: "ca_current c1 = of_nat ?a" "\<not> ca_has_pending_operator c1"
    using press_number[OF assms(1,3) c0(1)] c0(2) by (simp_all add: c1_def)
  define c2 where "c2 = snd (calculator_key (char_key oper) c1)"
  have "char_key oper \<in> {43, 45, 42, 47}" using assms(5) by (auto simp: char_key_def)
  then have c2: "ca_showing_result c2" "ca_has_pending_operator c2" "ca_accumulator c2 = of_nat ?a" "ca_pending_operator c2 = oper"
    using c1 key_char_char_key[of oper] by (auto simp: c2_def calculator_key_def key_is_def Let_def CalculatorSetDisplay_def CalculatorApplyPending_def simp del: key_char_char_key)
  define c3 where "c3 = press (digit_keys bs) c2"
  have c3: "ca_current c3 = of_nat ?b" "ca_has_pending_operator c3" "ca_accumulator c3 = of_nat ?a" "ca_pending_operator c3 = oper"
    using press_number[OF assms(2,4) c2(1)] c2 by (simp_all add: c3_def)
  have sint: "sint (of_nat n :: i32) = int n" if "n < 2 ^ 31" for n
  proof -
    have "int n < int (2 ^ 31)" using that by (simp only: of_nat_less_iff)
    then have "\<bar>int n\<bar> < 2 ^ 31" by simp
    from sint_of_int_small[OF this] show ?thesis by (simp only: of_int_of_nat_eq)
  qed
  have zero: "(of_nat ?b :: i32) = 0 \<longleftrightarrow> ?b = 0" 
  proof
    assume "(of_nat ?b :: i32) = 0"
    then have "sint (of_nat ?b :: i32) = sint (0 :: i32)" by (simp only:)
    then show "?b = 0" by (simp only: sint[OF assms(7)] sint_0 of_nat_eq_0_iff)
  qed simp
  have "ca_accumulator (CalculatorApplyPending c3) = of_int (operation_value oper (int ?a) (int ?b))"
  proof (cases "oper = CHR ''/''")
    case True
    have "div_i32 (of_nat ?a) (of_nat ?b) = of_int (int ?a div int ?b)"
      by (simp only: div_i32_def sint[OF assms(6)] sint[OF assms(7)] Let_def abs_of_nat) simp
    then show ?thesis using True zero c3 by (simp add: CalculatorApplyPending_def operation_value_def Let_def)
  next
    case False
    then have "oper = CHR ''+'' \<or> oper = CHR ''-'' \<or> oper = CHR ''*''" using assms(5) by simp
    then show ?thesis using c3 by (elim disjE) (simp_all add: CalculatorApplyPending_def operation_value_def)
  qed
  then have acc: "sint (ca_accumulator (CalculatorApplyPending c3)) = operation_value oper (int ?a) (int ?b)"
    using sint_of_int_small[OF assms(8)] by simp
  have "snd (calculator_key (char_key CHR ''='') c3) = CalculatorSetDisplay (ca_accumulator (CalculatorApplyPending c3))
     ((CalculatorApplyPending c3)\<lparr>ca_has_pending_operator := False, ca_current := ca_accumulator (CalculatorApplyPending c3), ca_showing_result := True\<rparr>)"
    by (simp add: calculator_key_def key_is_def char_key_def Let_def)
  then have "ca_expression (snd (calculator_key (char_key CHR ''='') c3)) = integer_text (operation_value oper (int ?a) (int ?b))"
    using SetDisplay_text acc assms(8) by simp
  then show ?thesis by (simp add: c0_def c1_def c2_def c3_def)
qed

text \<open>
  C1. The calculator computes: after \<open>C\<close>, a number, one of the four operations, a second number and \<open>=\<close> it displays the value
  of the operation in decimal, with its sign, as long as the numbers and the result fit 31 bits.
\<close>

theorem calculator_computes:
  assumes "as \<noteq> []" "bs \<noteq> []" "\<forall>d \<in> set as. d < 10" "\<forall>d \<in> set bs. d < 10" "oper \<in> set ''+-*/''"
    "keyed_value as < 2 ^ 31" "keyed_value bs < 2 ^ 31"
    "\<bar>operation_value oper (int (keyed_value as)) (int (keyed_value bs))\<bar> < 2 ^ 31"
  shows "ca_expression (press ([char_key CHR ''C''] @ digit_keys as @ [char_key oper] @ digit_keys bs @ [char_key CHR ''='']) c) =
    integer_text (operation_value oper (int (keyed_value as)) (int (keyed_value bs)))"
  using assms by (rule calculator_result)

theorem calculator_computes_witness:
  "\<forall>c. ca_expression (press ([char_key CHR ''C''] @ digit_keys [7] @ [char_key CHR ''-''] @ digit_keys [1, 9] @ [char_key CHR ''='']) c) = ''-12''"
proof
  fix c
  have "integer_text (operation_value CHR ''-'' (int (keyed_value [7])) (int (keyed_value [1, 9]))) = ''-12''"
    by (simp add: integer_text_def operation_value_def keyed_value_def decimal_text.simps) (simp add: char_of_def bit_simps)
  then show "ca_expression (press ([char_key CHR ''C''] @ digit_keys [7] @ [char_key CHR ''-''] @ digit_keys [1, 9] @ [char_key CHR ''='']) c) = ''-12''"
    using calculator_computes[of "[7]" "[1, 9]" "CHR ''-''" c] by (simp add: keyed_value_def operation_value_def)
qed

text \<open>
  What the editor saves it reads back: opening the path a save succeeded with shows the first 95 characters of the text that was
  saved, which is all a file holds.
\<close>

lemma editor_round_trip:
  assumes "fst (TextEditorSaveAs (Some p) s)" "length p < kPathLength"
  shows "te_text (g_TextEditor (snd (TextEditorOpenFile (Some p) (snd (TextEditorSaveAs (Some p) s))))) =
    take (kContentLength - 1) (te_text (g_TextEditor s))"
  using assms by (rule saved_text_read_back)

lemma editor_round_trip_witness:
  "\<forall>s :: AppDesk. let t = s\<lparr>g_NativeFiles := [empty_file], g_TextEditor := (g_TextEditor s)\<lparr>te_text := ''abc''\<rparr>\<rparr> in
     te_text (g_TextEditor (snd (TextEditorOpenFile (Some ''/a'') (snd (TextEditorSaveAs (Some ''/a'') t))))) = ''abc''"
proof
  fix s :: AppDesk
  let ?t = "s\<lparr>g_NativeFiles := [empty_file], g_TextEditor := (g_TextEditor s)\<lparr>te_text := ''abc''\<rparr>\<rparr>"
  have "fst (TextEditorSaveAs (Some ''/a'') ?t)"
    by (simp add: TextEditorSaveAs_def Let_def FindNativeFile_def NativeFileAdd_def empty_file_def)
  from editor_round_trip[OF this]
  show "let t = ?t in te_text (g_TextEditor (snd (TextEditorOpenFile (Some ''/a'') (snd (TextEditorSaveAs (Some ''/a'') t))))) = ''abc''"
    by (simp add: kPathLength_def kContentLength_def)
qed

end
