(* ===== verification/GuiTerminal.thy ===== *)
theory GuiTerminal
  imports GuiApps
begin

text \<open>
  \<^verbatim>\<open>kernel/src/gui.cpp\<close>: the terminal, its lines, colours, history and commands.

  The lines and the history are the lists of the entries in use. A command runs a script only for \<open>script demo\<close>,
  whose commands run no script themselves: \<open>terminal_command\<close> takes what runs a script as an argument and
  \<open>ExecuteTerminalCommand\<close> ties it up at depth one.
\<close>

subsection \<open>Text\<close>

definition TerminalTextEquals :: "cstring \<Rightarrow> cstring \<Rightarrow> bool" where
  "TerminalTextEquals a b = (case (a, b) of (Some s, Some t) \<Rightarrow> text_equals_loop s t | _ \<Rightarrow> False)"

fun starts_with_loop :: "string \<Rightarrow> string \<Rightarrow> bool" where
  "starts_with_loop txt [] = True"
| "starts_with_loop [] (p # ps) = False"
| "starts_with_loop (c # cs) (p # ps) = (if c \<noteq> p then False else starts_with_loop cs ps)"

definition TerminalStartsWith :: "cstring \<Rightarrow> cstring \<Rightarrow> bool" where
  "TerminalStartsWith txt pre = (case (txt, pre) of (Some s, Some p) \<Rightarrow> starts_with_loop s p | _ \<Rightarrow> False)"

definition TerminalCopyText :: "nat \<Rightarrow> cstring \<Rightarrow> string \<Rightarrow> string" where
  "TerminalCopyText capacity source destination =
     (if capacity = 0 then destination else case source of None \<Rightarrow> [] | Some s \<Rightarrow> take (capacity - 1) s)"

definition TerminalTextEmpty :: "cstring \<Rightarrow> bool" where
  "TerminalTextEmpty txt \<longleftrightarrow> txt = None \<or> txt = Some []"

definition TerminalColorFromAnsiCode :: "u32 \<Rightarrow> u32 \<Rightarrow> u32" where
  "TerminalColorFromAnsiCode code fallback =
     (if code = 0 then th_text kTheme else if code = 30 then 0xFF1E252E else if code = 31 then th_close kTheme
      else if code = 32 then th_maximize kTheme else if code = 33 then th_minimize kTheme else if code = 34 then th_border_active kTheme
      else if code = 35 then 0xFFC678DD else if code = 36 then th_accent kTheme else if code = 37 then th_text kTheme else fallback)"

definition ansi_digit :: "char \<Rightarrow> bool" where
  "ansi_digit c \<longleftrightarrow> (let n = of_char c :: nat in 48 \<le> n \<and> n \<le> 57)"

definition ansi_code :: "string \<Rightarrow> u32" where
  "ansi_code ds = foldl (\<lambda>n c. n * 10 + (of_nat (of_char c) - 48)) 0 ds"

lemma behind_shorter:
  assumes "m # aft = dropWhile P (tl rest)"
  shows "length aft < Suc (length rest)"
proof -
  have "length (m # aft) \<le> length (tl rest)" unfolding assms by (rule length_dropWhile_le)
  then show ?thesis by simp
qed

text \<open>The loop with \<open>room\<close> characters left: the text, whether an escape was parsed, the colour.\<close>

function ansi_loop :: "nat \<Rightarrow> string \<Rightarrow> bool \<Rightarrow> u32 \<Rightarrow> string \<times> bool \<times> u32" where
  "ansi_loop room cs parsed color =
     (case cs of [] \<Rightarrow> ([], parsed, color)
      | c # rest \<Rightarrow>
          if room = 0 then ([], parsed, color)
          else if c = CHR 0x1B \<and> rest \<noteq> [] \<and> hd rest = CHR ''['' then
            let digits = takeWhile ansi_digit (tl rest); behind = dropWhile ansi_digit (tl rest) in
            (case behind of [] \<Rightarrow> ([], parsed, color)
             | m # aft \<Rightarrow>
                 if m = CHR ''m'' then
                   ansi_loop room aft True (TerminalColorFromAnsiCode (if digits \<noteq> [] then ansi_code digits else 0) color)
                 else (let (out, p, k) = ansi_loop (room - 1) aft parsed color in (m # out, p, k)))
          else (let (out, p, k) = ansi_loop (room - 1) rest parsed color in (c # out, p, k)))"
  by pat_completeness auto

termination
  by (relation "measure (\<lambda>(room, cs, parsed, color). length cs)") (auto simp: behind_shorter)

declare ansi_loop.simps [simp del]

definition TerminalParseAnsiLine :: "cstring \<Rightarrow> nat \<Rightarrow> string \<Rightarrow> u32 \<Rightarrow> bool \<times> string \<times> u32" where
  "TerminalParseAnsiLine txt capacity stripped color =
     (case txt of None \<Rightarrow> (False, stripped, color)
      | Some cs \<Rightarrow> if capacity = 0 then (False, stripped, color)
          else (let (out, parsed, k) = ansi_loop (capacity - 1) cs False color in (parsed, out, k)))"

subsection \<open>Lines and history\<close>

definition terminal_line_capacity :: nat where "terminal_line_capacity = 96"

definition max_scroll :: "nat \<Rightarrow> i32" where
  "max_scroll n = (if n > kVisibleTerminalLines then of_nat (n - kVisibleTerminalLines) else 0)"

definition TerminalAppendLine :: "cstring \<Rightarrow> u32 \<Rightarrow> 'a AppDesk_scheme \<Rightarrow> 'a AppDesk_scheme" where
  "TerminalAppendLine txt color s =
     (if txt = None then s
      else
        let lines = (if length (g_TerminalLines s) \<ge> kMaxTerminalLines then drop 1 (g_TerminalLines s) else g_TerminalLines s);
            (parsed, stripped, line_color) = TerminalParseAnsiLine txt terminal_line_capacity [] color;
            content = (if \<not> parsed then TerminalCopyText terminal_line_capacity txt stripped else stripped);
            lines1 = lines @ [\<lparr>tl_text = content, tl_color = line_color\<rparr>];
            limit = max_scroll (length lines1)
        in s\<lparr>g_TerminalLines := lines1,
             g_TerminalScrollOffset := (if sint (g_TerminalScrollOffset s) > sint limit then limit else g_TerminalScrollOffset s)\<rparr>)"

definition TerminalClear :: "'a AppDesk_scheme \<Rightarrow> 'a AppDesk_scheme" where
  "TerminalClear s = s\<lparr>g_TerminalLines := [], g_TerminalScrollOffset := 0\<rparr>"

definition TerminalRecordHistory :: "cstring \<Rightarrow> 'a AppDesk_scheme \<Rightarrow> 'a AppDesk_scheme" where
  "TerminalRecordHistory command s =
     (if TerminalTextEmpty command then s
      else
        let kept = (if length (g_TerminalHistory s) \<ge> kTerminalHistoryEntries then drop 1 (g_TerminalHistory s) else g_TerminalHistory s);
            hist = kept @ [TerminalCopyText kTerminalCommandLength command []]
        in s\<lparr>g_TerminalHistory := hist, g_TerminalHistoryCursor := int (length hist)\<rparr>)"

definition TerminalRecallHistory :: "int \<Rightarrow> 'a AppDesk_scheme \<Rightarrow> string \<times> 'a AppDesk_scheme" where
  "TerminalRecallHistory delta s =
     (let n = int (length (g_TerminalHistory s)) in
      if n = 0 then ([], s)
      else
        let start = (if g_TerminalHistoryCursor s < 0 then n else g_TerminalHistoryCursor s);
            moved = max 0 (start + delta);
            cursor = (if moved \<ge> n then n - 1 else moved)
        in (g_TerminalHistory s ! nat cursor, s\<lparr>g_TerminalHistoryCursor := cursor\<rparr>))"

definition kCommands :: "string list" where
  "kCommands = [''help'', ''clear'', ''mem'', ''cpu'', ''version'', ''uptime'', ''ls'', ''pwd'', ''cd /'', ''cd /boot'', ''cd /tmp'', ''cat readme'',
     ''mkdir '', ''touch '', ''echo '', ''ps'', ''kill '', ''reboot'', ''shutdown'', ''color demo'', ''script demo'']"

definition TerminalAutocompleteCommand :: "string \<Rightarrow> string" where
  "TerminalAutocompleteCommand pre =
     (case find_index (\<lambda>c. TerminalStartsWith (Some c) (Some pre)) kCommands of None \<Rightarrow> pre | Some i \<Rightarrow> kCommands ! i)"

definition TerminalPathFromArgument :: "cstring \<Rightarrow> 'a AppDesk_scheme \<Rightarrow> string" where
  "TerminalPathFromArgument argument s =
     (let cwd = CopyText kPathLength (Some (g_TerminalCwd s)) [] in
      case argument of None \<Rightarrow> cwd
      | Some cs \<Rightarrow>
          if cs = [] then cwd
          else if hd cs = CHR ''/'' then CopyText kPathLength argument []
          else AppendText kPathLength argument (if \<not> TextEquals (Some cwd) (Some ''/'') then AppendText kPathLength (Some ''/'') cwd else cwd))"

text \<open>The number of a process, or none when a character is no digit.\<close>

fun process_number :: "u64 \<Rightarrow> string \<Rightarrow> u64 option" where
  "process_number n [] = Some n"
| "process_number n (c # cs) = (if \<not> ansi_digit c then None else process_number (n * 10 + (of_nat (of_char c) - 48)) cs)"

definition TerminalKillProcess :: "cstring \<Rightarrow> 'a AppDesk_scheme \<Rightarrow> bool \<times> 'a AppDesk_scheme" where
  "TerminalKillProcess argument s =
     (if TerminalTextEmpty argument then (False, s)
      else case process_number 0 (the argument) of None \<Rightarrow> (False, s)
      | Some pid \<Rightarrow>
          (case find_index (\<lambda>r. ar_valid r \<and> ar_process_id r = pid \<and> ar_state r \<noteq> NotRunning) (g_AppRuntimes s) of
             None \<Rightarrow> (False, s)
           | Some i \<Rightarrow> (True, TerminalAppendLine (Some ''kill: process terminated'') (th_minimize kTheme)
                (update_runtime i (\<lambda>r. r\<lparr>ar_state := NotRunning, ar_process_id := 0, ar_thread_id := 0, ar_transition_ticks := 0\<rparr>) s))))"

subsection \<open>Commands\<close>

definition say_line :: "string \<Rightarrow> u32 \<Rightarrow> 'a AppDesk_scheme \<Rightarrow> 'a AppDesk_scheme" where
  "say_line txt = TerminalAppendLine (Some txt)"

definition change_directory :: "string \<Rightarrow> 'a AppDesk_scheme \<Rightarrow> bool \<times> 'a AppDesk_scheme" where
  "change_directory dir s = (True, say_line (''cwd: '' @ dir) (th_text kTheme) (s\<lparr>g_TerminalCwd := dir\<rparr>))"

definition list_processes :: "'a AppDesk_scheme \<Rightarrow> 'a AppDesk_scheme" where
  "list_processes s =
     fold (\<lambda>r. if ar_valid r \<and> ar_process_id r \<noteq> 0 then say_line ''app process listed'' (th_text kTheme) else id) (g_AppRuntimes s)
       (say_line ''PID  APP     STATE'' (th_text_muted kTheme) s)"

definition terminal_command ::
    "(string \<Rightarrow> 'a AppDesk_scheme \<Rightarrow> bool \<times> 'a AppDesk_scheme) \<Rightarrow> cstring \<Rightarrow> 'a AppDesk_scheme \<Rightarrow> bool \<times> 'a AppDesk_scheme" where
  "terminal_command run_script command s0 =
     (case command of None \<Rightarrow> (False, s0)
      | Some cmd \<Rightarrow>
          let starts = (\<lambda>p. TerminalStartsWith command (Some p)); equals = (\<lambda>t. TerminalTextEquals command (Some t));
              txt = th_text kTheme; muted = th_text_muted kTheme; red = th_close kTheme; yellow = th_minimize kTheme;
              s = (if \<not> equals ''history-prev'' \<and> \<not> starts ''complete '' then TerminalRecordHistory command s0 else s0)
          in
          if equals ''help'' then
            (True, say_line ''reboot shutdown complete history script'' (th_accent kTheme)
               (say_line ''ls pwd cd cat mkdir touch echo ps kill'' (th_accent kTheme) (say_line ''help mem cpu clear version uptime'' (th_accent kTheme) s)))
          else if equals ''clear'' then (True, say_line ''> clear'' muted (TerminalClear s))
          else if equals ''mem'' then (True, say_line ''mem: heap online, pages tracked'' txt s)
          else if equals ''cpu'' then (True, say_line ''cpu: x86_64 irq apic smp ready'' txt s)
          else if equals ''version'' then (True, say_line ''version: Antigravity OS 0.13'' txt s)
          else if equals ''uptime'' then (True, say_line ''uptime: boot session active'' txt s)
          else if equals ''ls'' then (True, say_line ''boot kernel tmp readme notes.txt'' txt s)
          else if equals ''pwd'' then (True, say_line (g_TerminalCwd s) txt s)
          else if equals ''cd'' \<or> equals ''cd /'' then change_directory ''/'' s
          else if equals ''cd /boot'' then change_directory ''/boot'' s
          else if equals ''cd /tmp'' then change_directory ''/tmp'' s
          else if starts ''cd '' then (True, say_line ''cd: no such directory'' red s)
          else if equals ''cat readme'' \<or> equals ''cat /tmp/readme'' then (True, say_line ''Antigravity OS terminal ready.'' txt s)
          else if starts ''cat '' then
            (case FindNativeFile (Some (TerminalPathFromArgument (Some (drop 4 cmd)) s)) s of
               Some i \<Rightarrow> if \<not> nf_directory (g_NativeFiles s ! i) then (True, say_line (nf_content (g_NativeFiles s ! i)) txt s)
                   else (True, say_line ''cat: file not found'' red s)
             | None \<Rightarrow> (True, say_line ''cat: file not found'' red s))
          else if starts ''mkdir '' then
            (let (ok, s1) = NativeFileAdd (Some (TerminalPathFromArgument (Some (drop 6 cmd)) s)) True (Some []) s
             in if ok then (True, say_line ''mkdir: created'' txt s1) else (False, say_line ''mkdir: failed'' red s1))
          else if starts ''touch '' then
            (let path = Some (TerminalPathFromArgument (Some (drop 6 cmd)) s);
                 (ok, s1) = (if FindNativeFile path s \<noteq> None then (True, s) else NativeFileAdd path False (Some []) s)
             in if ok then (True, say_line ''touch: ok'' txt s1) else (False, say_line ''touch: failed'' red s1))
          else if starts ''echo '' then (True, say_line (drop 5 cmd) txt s)
          else if equals ''ps'' then (True, list_processes s)
          else if starts ''kill '' then
            (let (ok, s1) = TerminalKillProcess (Some (drop 5 cmd)) s in if ok then (True, s1) else (False, say_line ''kill: process not found'' red s1))
          else if equals ''reboot'' then (True, say_line ''reboot: request queued'' yellow (s\<lparr>g_TerminalRebootRequested := True\<rparr>))
          else if equals ''shutdown'' then (True, say_line ''shutdown: request queued'' yellow (s\<lparr>g_TerminalShutdownRequested := True\<rparr>))
          else if equals ''color demo'' then
            (True, say_line ([CHR 0x1B] @ ''[31mred '' @ [CHR 0x1B] @ ''[32mgreen '' @ [CHR 0x1B] @ ''[36mcyan'') txt s)
          else if equals ''history-prev'' then (let (line, s1) = TerminalRecallHistory (-1) s in (True, say_line line muted s1))
          else if starts ''complete '' then (True, say_line (TerminalAutocompleteCommand (drop 9 cmd)) txt s)
          else if equals ''script demo'' then run_script ''mem;cpu;uptime'' (say_line ''script: mem;cpu;uptime'' muted s)
          else (False, say_line ''shell: unknown command'' red s))"

text \<open>The commands of a script: the texts between semicolons, cut to the buffer, without the empty ones.\<close>

fun script_loop :: "string \<Rightarrow> string \<Rightarrow> string list" where
  "script_loop command [] = (if command \<noteq> [] then [command] else [])"
| "script_loop command (c # cs) =
     (if c = CHR '';'' then (if command \<noteq> [] then [command] else []) @ script_loop [] cs
      else if length command + 1 < kTerminalCommandLength then script_loop (command @ [c]) cs
      else script_loop command cs)"

definition terminal_script ::
    "(cstring \<Rightarrow> 'a AppDesk_scheme \<Rightarrow> bool \<times> 'a AppDesk_scheme) \<Rightarrow> string \<Rightarrow> 'a AppDesk_scheme \<Rightarrow> bool \<times> 'a AppDesk_scheme" where
  "terminal_script execute script s =
     fold (\<lambda>command (all_ok, s). let (ok, s1) = execute (Some command) s in (all_ok \<and> ok, s1)) (script_loop [] script) (True, s)"

definition ExecuteTerminalCommand :: "cstring \<Rightarrow> 'a AppDesk_scheme \<Rightarrow> bool \<times> 'a AppDesk_scheme" where
  "ExecuteTerminalCommand = terminal_command (terminal_script (terminal_command (\<lambda>_ s. (False, s))))"

definition ExecuteTerminalScript :: "cstring \<Rightarrow> 'a AppDesk_scheme \<Rightarrow> bool \<times> 'a AppDesk_scheme" where
  "ExecuteTerminalScript script s = (case script of None \<Rightarrow> (False, s) | Some cs \<Rightarrow> terminal_script ExecuteTerminalCommand cs s)"

subsection \<open>Input\<close>

definition TerminalSubmitInput :: "'a AppDesk_scheme \<Rightarrow> bool \<times> 'a AppDesk_scheme" where
  "TerminalSubmitInput s =
     (let input = ts_input (g_TerminalSession s);
          (ok, s1) = ExecuteTerminalCommand (Some input) (TerminalAppendLine (Some input) (th_text_muted kTheme) s)
      in (ok, s1\<lparr>g_TerminalSession := (g_TerminalSession s1)\<lparr>ts_input := [], ts_cursor := 0\<rparr>\<rparr>))"

definition TerminalHandleKey :: "u32 \<Rightarrow> u32 \<Rightarrow> 'a AppDesk_scheme \<Rightarrow> bool \<times> 'a AppDesk_scheme" where
  "TerminalHandleKey key modifiers s0 =
     (let s = s0\<lparr>g_TerminalSession := (g_TerminalSession s0)\<lparr>ts_cursor_visible := \<not> ts_cursor_visible (g_TerminalSession s0)\<rparr>\<rparr>;
          t = g_TerminalSession s in
      if key = 10 \<or> key = 13 then TerminalSubmitInput s
      else if key = 8 \<or> key = 127 then
        (True, if ts_cursor t > 0 then s\<lparr>g_TerminalSession := t\<lparr>ts_cursor := ts_cursor t - 1, ts_input := take (ts_cursor t - 1) (ts_input t)\<rparr>\<rparr> else s)
      else if key = 24 then
        let selection = CopyText kTerminalSelectionLength (Some (if g_TerminalLines s \<noteq> [] then tl_text (last (g_TerminalLines s)) else [])) (ts_selection t)
        in (True, s\<lparr>g_TerminalSession := t\<lparr>ts_selection := selection, ts_selection_active := selection \<noteq> []\<rparr>\<rparr>)
      else if key < 32 \<or> key > 126 \<or> ts_cursor t + 1 \<ge> kTerminalInputLength then (False, s)
      else (True, s\<lparr>g_TerminalSession := t\<lparr>ts_input := take (ts_cursor t) (ts_input t) @ [key_char key], ts_cursor := ts_cursor t + 1\<rparr>\<rparr>))"

definition TerminalReflowForWindow :: "Window \<Rightarrow> 'a AppDesk_scheme \<Rightarrow> 'a AppDesk_scheme" where
  "TerminalReflowForWindow w s =
     (let b = w_bounds w;
          content_width = (if r_width b > 36 then r_width b - 36 else r_width b);
          content_height = (if r_height b > kTitleBarHeight + 36 then r_height b - kTitleBarHeight - 36 else r_height b);
          rows = content_height div 20
      in s\<lparr>g_TerminalSession := (g_TerminalSession s)\<lparr>ts_columns := content_width div 12, ts_rows := (if rows = 0 then 1 else rows)\<rparr>\<rparr>)"

definition SeedTerminalTranscript :: "'a AppDesk_scheme \<Rightarrow> 'a AppDesk_scheme" where
  "SeedTerminalTranscript s0 =
     (let s = (TerminalClear s0)\<lparr>g_TerminalRebootRequested := False, g_TerminalShutdownRequested := False\<rparr>;
          s1 = say_line ''[INFO] Command parser ready'' (th_accent kTheme) (say_line ''[INFO] Phase 13 terminal initialized'' (th_accent kTheme)
                 (say_line ''Kernel Console'' (th_text kTheme) s))
      in fold (\<lambda>command s. snd (ExecuteTerminalCommand (Some command) (say_line (''> '' @ command) (th_text_muted kTheme) s)))
           [''help'', ''mem'', ''cpu'', ''version'', ''uptime''] s1)"

subsection \<open>What commands keep\<close>

definition terminal_steps_keep :: "('a AppDesk_scheme \<Rightarrow> bool) \<Rightarrow> bool" where
  "terminal_steps_keep Q \<longleftrightarrow>
     (\<forall>s. Q s \<longrightarrow> (\<forall>msg c. Q (TerminalAppendLine msg c s)) \<and> (\<forall>c. Q (TerminalRecordHistory c s)) \<and> Q (TerminalClear s) \<and>
       Q (s\<lparr>g_TerminalCwd := ''/''\<rparr>) \<and> Q (s\<lparr>g_TerminalCwd := ''/boot''\<rparr>) \<and> Q (s\<lparr>g_TerminalCwd := ''/tmp''\<rparr>) \<and>
       (\<forall>p d c. Q (snd (NativeFileAdd p d c s))) \<and> (\<forall>a. Q (snd (TerminalKillProcess a s))) \<and>
       Q (s\<lparr>g_TerminalRebootRequested := True\<rparr>) \<and> Q (s\<lparr>g_TerminalShutdownRequested := True\<rparr>) \<and> (\<forall>d. Q (snd (TerminalRecallHistory d s))))"

lemma list_processes_keeps:
  assumes keep: "terminal_steps_keep Q" and s: "Q s"
  shows "Q (list_processes s)"
proof -
  have say_line: "Q t \<Longrightarrow> Q (say_line msg c t)" for t msg c using keep by (simp add: terminal_steps_keep_def say_line_def)
  have folded: "Q (fold (\<lambda>r. if ar_valid r \<and> ar_process_id r \<noteq> 0 then say_line msg c else id) rs t)" if "Q t" for rs t msg c
    using that by (induction rs arbitrary: t) (auto intro: say_line)
  show ?thesis unfolding list_processes_def by (intro folded say_line s)
qed

lemma terminal_command_keeps:
  assumes keep: "terminal_steps_keep Q" and s: "Q s" and script: "\<And>cs t. Q t \<Longrightarrow> Q (snd (run_script cs t))"
  shows "Q (snd (terminal_command run_script command s))"
proof (cases command)
  case (Some cmd)
  have branch: "(b \<Longrightarrow> Q (snd x)) \<Longrightarrow> (\<not> b \<Longrightarrow> Q (snd y)) \<Longrightarrow> Q (snd (if b then x else y))" for b and x y :: "bool \<times> 'a AppDesk_scheme" by simp
  have pair: "Q t \<Longrightarrow> Q (snd (b, t))" for b :: bool and t by simp
  have say_line: "Q t \<Longrightarrow> Q (say_line msg c t)" for t msg c using keep by (simp add: terminal_steps_keep_def say_line_def)
  have steps: "Q t \<Longrightarrow> Q (TerminalRecordHistory c t)" "Q t \<Longrightarrow> Q (TerminalClear t)" "Q t \<Longrightarrow> Q (snd (NativeFileAdd p d e t))"
    "Q t \<Longrightarrow> Q (snd (TerminalKillProcess a t))" "Q t \<Longrightarrow> Q (t\<lparr>g_TerminalRebootRequested := True\<rparr>)"
    "Q t \<Longrightarrow> Q (t\<lparr>g_TerminalShutdownRequested := True\<rparr>)" "Q t \<Longrightarrow> Q (snd (TerminalRecallHistory n t))"
    "Q t \<Longrightarrow> Q (t\<lparr>g_TerminalCwd := ''/''\<rparr>)" "Q t \<Longrightarrow> Q (t\<lparr>g_TerminalCwd := ''/boot''\<rparr>)" "Q t \<Longrightarrow> Q (t\<lparr>g_TerminalCwd := ''/tmp''\<rparr>)"
    for t c p d e a n using keep by (auto simp: terminal_steps_keep_def)
  have cd: "Q t \<Longrightarrow> Q (snd (change_directory ''/'' t))" "Q t \<Longrightarrow> Q (snd (change_directory ''/boot'' t))" "Q t \<Longrightarrow> Q (snd (change_directory ''/tmp'' t))" for t
    by (simp_all add: change_directory_def say_line steps)
  have opt: "Q (snd y) \<Longrightarrow> (\<And>i. Q (snd (f i))) \<Longrightarrow> Q (snd (case m of Some i \<Rightarrow> f i | None \<Rightarrow> y))" for f y and m :: "nat option"
    by (simp split: option.split)
  have choose: "(b \<Longrightarrow> Q x) \<Longrightarrow> (\<not> b \<Longrightarrow> Q y) \<Longrightarrow> Q (if b then x else y)" for b x y by simp
  show ?thesis
    unfolding terminal_command_def Some option.case Let_def case_prod_beta
    by (intro branch pair say_line steps cd opt choose s script list_processes_keeps[OF keep])
qed (simp add: terminal_command_def s)

lemma terminal_script_keeps:
  assumes run: "\<And>c t. Q t \<Longrightarrow> Q (snd (run c t))" and s: "Q s"
  shows "Q (snd (terminal_script run script s))"
proof -
  have "Q t \<Longrightarrow> Q (snd (fold (\<lambda>command (all_ok, s). let (ok, s1) = run (Some command) s in (all_ok \<and> ok, s1)) cs (b, t)))" for cs b t
  proof (induction cs arbitrary: b t)
    case (Cons c cs)
    then show ?case using run[of t "Some c"] by (cases "run (Some c) t") simp
  qed simp
  then show ?thesis using s by (simp add: terminal_script_def)
qed

lemma ExecuteTerminalCommand_keeps:
  assumes keep: "terminal_steps_keep Q" and s: "Q s"
  shows "Q (snd (ExecuteTerminalCommand command s))"
  unfolding ExecuteTerminalCommand_def
proof (rule terminal_command_keeps[OF keep s])
  fix cs t assume "Q t"
  then show "Q (snd (terminal_script (terminal_command (\<lambda>_ s. (False, s))) cs t))"
    by (rule terminal_script_keeps[of Q, rotated]) (rule terminal_command_keeps[OF keep], simp_all)
qed

subsection \<open>The recursion through scripts\<close>

lemma terminal_command_cong:
  assumes "f ''mem;cpu;uptime'' = g ''mem;cpu;uptime''"
  shows "terminal_command f = terminal_command g"
  by (intro ext) (simp only: terminal_command_def assms)

lemma terminal_script_demo:
  assumes "\<And>c. c \<in> {''mem'', ''cpu'', ''uptime''} \<Longrightarrow> run1 (Some c) = run2 (Some c)"
  shows "terminal_script run1 ''mem;cpu;uptime'' = terminal_script run2 ''mem;cpu;uptime''"
proof -
  have "script_loop [] ''mem;cpu;uptime'' = [''mem'', ''cpu'', ''uptime'']" by (simp add: kTerminalCommandLength_def)
  then show ?thesis using assms by (intro ext) (simp add: terminal_script_def)
qed

lemma terminal_command_flat: "c \<in> {''mem'', ''cpu'', ''uptime''} \<Longrightarrow> terminal_command f (Some c) = terminal_command g (Some c)"
  by (intro ext, elim insertE emptyE)
     (simp_all add: terminal_command_def Let_def TerminalTextEquals_def TerminalStartsWith_def cong: if_weak_cong)

text \<open>
  The mutual recursion of \<open>ExecuteTerminalCommand\<close> and \<open>ExecuteTerminalScript\<close> is well-founded: the function of depth one is
  a solution of the code's recursive equation, for every command in every state, so no command recurses without end.
\<close>

lemma terminal_recursion_ends:
  "ExecuteTerminalCommand command s = terminal_command (\<lambda>script. ExecuteTerminalScript (Some script)) command s"
proof -
  have "terminal_script (terminal_command (\<lambda>_ s. (False, s))) ''mem;cpu;uptime'' =
      (ExecuteTerminalScript (Some ''mem;cpu;uptime'') :: 'a AppDesk_scheme \<Rightarrow> bool \<times> 'a AppDesk_scheme)"
    unfolding ExecuteTerminalScript_def option.case ExecuteTerminalCommand_def
    by (rule terminal_script_demo) (rule terminal_command_flat)
  then have "terminal_command (terminal_script (terminal_command (\<lambda>_ s. (False, s)))) =
      (terminal_command (\<lambda>script. ExecuteTerminalScript (Some script)) :: cstring \<Rightarrow> 'a AppDesk_scheme \<Rightarrow> bool \<times> 'a AppDesk_scheme)"
    by (rule terminal_command_cong)
  then show ?thesis by (simp only: ExecuteTerminalCommand_def)
qed

subsection \<open>The buffers\<close>

lemma ansi_loop_room: "length (fst (ansi_loop room cs parsed color)) \<le> room"
proof (induction room cs parsed color rule: ansi_loop.induct)
  case (1 room cs parsed color)
  show ?case
  proof (cases cs)
    case (Cons c rest)
    let ?esc = "c = CHR 0x1B \<and> rest \<noteq> [] \<and> hd rest = CHR ''[''"
    consider "room = 0" | "room \<noteq> 0" "\<not> ?esc" | "room \<noteq> 0" ?esc "dropWhile ansi_digit (tl rest) = []"
      | m aft where "room \<noteq> 0" ?esc "dropWhile ansi_digit (tl rest) = m # aft"
      by (cases "dropWhile ansi_digit (tl rest)") blast+
    then show ?thesis
    proof cases
      case 1
      then show ?thesis by (subst ansi_loop.simps) (simp add: Cons)
    next
      case 2
      then show ?thesis using "1.IH"(3)[OF Cons 2] by (subst ansi_loop.simps) (auto simp: Cons split_beta)
    next
      case 3
      then show ?thesis by (subst ansi_loop.simps) (simp add: Cons Let_def 3(3))
    next
      case 4
      then show ?thesis using "1.IH"(1)[OF Cons 4(1,2) refl refl 4(3)] "1.IH"(2)[OF Cons 4(1,2) refl refl 4(3)]
        by (subst ansi_loop.simps) (auto simp: Cons Let_def 4(3) split_beta)
    qed
  qed (subst ansi_loop.simps, simp)
qed

text \<open>Every text, list and offset of the terminal is within its array.\<close>

definition terminal_ok :: "'a AppDesk_scheme \<Rightarrow> bool" where
  "terminal_ok s \<longleftrightarrow> length (g_TerminalLines s) \<le> kMaxTerminalLines \<and> (\<forall>l \<in> set (g_TerminalLines s). length (tl_text l) < terminal_line_capacity) \<and>
     length (g_TerminalHistory s) \<le> kTerminalHistoryEntries \<and> (\<forall>h \<in> set (g_TerminalHistory s). length h < kTerminalCommandLength) \<and>
     g_TerminalHistoryCursor s \<le> int (length (g_TerminalHistory s)) \<and>
     0 \<le> sint (g_TerminalScrollOffset s) \<and> sint (g_TerminalScrollOffset s) \<le> sint (max_scroll (length (g_TerminalLines s))) \<and>
     ts_cursor (g_TerminalSession s) = length (ts_input (g_TerminalSession s)) \<and> length (ts_input (g_TerminalSession s)) < kTerminalInputLength \<and>
     length (ts_selection (g_TerminalSession s)) < kTerminalSelectionLength"

lemma max_scroll_sint: "n \<le> kMaxTerminalLines \<Longrightarrow> sint (max_scroll n) = int (n - kVisibleTerminalLines)"
proof (cases "n > kVisibleTerminalLines")
  case True
  assume n: "n \<le> kMaxTerminalLines"
  have small: "m < 2 ^ 31 \<Longrightarrow> sint (of_nat m :: i32) = int m" for m
    using sint_small[of "of_nat m"] by (simp add: unat_of_nat)
  show ?thesis using True small[of "n - kVisibleTerminalLines"] n
    by (simp add: max_scroll_def kMaxTerminalLines_def del: of_nat_diff)
qed (simp add: max_scroll_def)

lemma TerminalAppendLine_ok:
  assumes "terminal_ok s"
  shows "terminal_ok (TerminalAppendLine msg c s)"
proof (cases msg)
  case (Some cs)
  let ?lines = "if length (g_TerminalLines s) \<ge> kMaxTerminalLines then drop 1 (g_TerminalLines s) else g_TerminalLines s"
  let ?content = "if fst (snd (ansi_loop 95 cs False c)) then fst (ansi_loop 95 cs False c) else take 95 cs"
  let ?line = "\<lparr>tl_text = ?content, tl_color = snd (snd (ansi_loop 95 cs False c))\<rparr>"
  let ?limit = "max_scroll (length (?lines @ [?line]))"
  have eq: "TerminalAppendLine msg c s = s\<lparr>g_TerminalLines := ?lines @ [?line],
      g_TerminalScrollOffset := (if sint (g_TerminalScrollOffset s) > sint ?limit then ?limit else g_TerminalScrollOffset s)\<rparr>"
    by (simp add: TerminalAppendLine_def Some TerminalParseAnsiLine_def terminal_line_capacity_def TerminalCopyText_def split_beta Let_def)
  have content: "length ?content < terminal_line_capacity"
    using ansi_loop_room[of 95 cs False c] by (auto simp: terminal_line_capacity_def)
  have lines: "length (?lines @ [?line]) \<le> kMaxTerminalLines" "\<forall>l \<in> set (?lines @ [?line]). length (tl_text l) < terminal_line_capacity"
    using assms content by (auto simp: terminal_ok_def kMaxTerminalLines_def dest: in_set_dropD)
  have "0 \<le> sint ?limit" using max_scroll_sint[OF lines(1)] by simp
  then show ?thesis using assms lines unfolding eq terminal_ok_def by simp
qed (simp add: TerminalAppendLine_def assms)


lemma terminal_ok_fields:
  assumes "terminal_ok s" "g_TerminalLines t = g_TerminalLines s" "g_TerminalHistory t = g_TerminalHistory s"
    "g_TerminalHistoryCursor t = g_TerminalHistoryCursor s" "g_TerminalScrollOffset t = g_TerminalScrollOffset s"
    "g_TerminalSession t = g_TerminalSession s"
  shows "terminal_ok t"
  using assms unfolding terminal_ok_def by simp

lemma NativeFileAdd_terminal_ok: "terminal_ok s \<Longrightarrow> terminal_ok (snd (NativeFileAdd p d c s))"
  by (erule terminal_ok_fields) (simp_all add: NativeFileAdd_def Let_def split: option.split)

lemma TerminalRecordHistory_ok:
  assumes "terminal_ok s"
  shows "terminal_ok (TerminalRecordHistory c s)"
proof (cases "TerminalTextEmpty c")
  case False
  then obtain cs where c: "c = Some cs" by (auto simp: TerminalTextEmpty_def)
  let ?kept = "if length (g_TerminalHistory s) \<ge> kTerminalHistoryEntries then drop 1 (g_TerminalHistory s) else g_TerminalHistory s"
  have eq: "TerminalRecordHistory c s = s\<lparr>g_TerminalHistory := ?kept @ [take 63 cs], g_TerminalHistoryCursor := int (length (?kept @ [take 63 cs]))\<rparr>"
    using False by (simp add: TerminalRecordHistory_def c TerminalCopyText_def kTerminalCommandLength_def Let_def)
  have "length (?kept @ [take 63 cs]) \<le> kTerminalHistoryEntries" "\<forall>h \<in> set (?kept @ [take 63 cs]). length h < kTerminalCommandLength"
    using assms by (auto simp: terminal_ok_def kTerminalHistoryEntries_def kTerminalCommandLength_def dest: in_set_dropD)
  then show ?thesis using assms unfolding eq terminal_ok_def by simp
qed (simp add: TerminalRecordHistory_def assms)

lemma TerminalClear_ok: "terminal_ok s \<Longrightarrow> terminal_ok (TerminalClear s)"
  by (simp add: terminal_ok_def TerminalClear_def max_scroll_def)

lemma TerminalRecallHistory_ok: "terminal_ok s \<Longrightarrow> terminal_ok (snd (TerminalRecallHistory d s))"
  by (auto simp: terminal_ok_def TerminalRecallHistory_def Let_def)

lemma TerminalKillProcess_ok: "terminal_ok s \<Longrightarrow> terminal_ok (snd (TerminalKillProcess a s))"
proof -
  assume "terminal_ok s"
  then have "terminal_ok (update_runtime i f s)" for i f by (rule terminal_ok_fields) (simp_all add: update_runtime_def)
  then show ?thesis using \<open>terminal_ok s\<close> by (simp add: TerminalKillProcess_def TerminalAppendLine_ok split: option.split)
qed

lemma terminal_ok_steps: "terminal_steps_keep (terminal_ok :: 'a AppDesk_scheme \<Rightarrow> bool)"
  unfolding terminal_steps_keep_def
  by (auto intro: TerminalAppendLine_ok TerminalRecordHistory_ok TerminalClear_ok NativeFileAdd_terminal_ok TerminalKillProcess_ok
      TerminalRecallHistory_ok elim: terminal_ok_fields)

lemma TerminalHandleKey_in_bounds:
  assumes "terminal_ok s"
  shows "terminal_ok (snd (TerminalHandleKey key modifiers s))"
proof -
  have session: "terminal_ok (t\<lparr>g_TerminalSession := u\<rparr>)"
    if "terminal_ok t" "ts_cursor u = length (ts_input u)" "length (ts_input u) < kTerminalInputLength"
      "length (ts_selection u) < kTerminalSelectionLength" for t :: "'a AppDesk_scheme" and u
    using that by (simp add: terminal_ok_def)
  let ?s = "s\<lparr>g_TerminalSession := (g_TerminalSession s)\<lparr>ts_cursor_visible := \<not> ts_cursor_visible (g_TerminalSession s)\<rparr>\<rparr>"
  have s: "terminal_ok ?s" using assms by (intro session) (simp_all add: terminal_ok_def)
  have submit: "terminal_ok (snd (TerminalSubmitInput ?s))"
  proof -
    let ?x = "snd (ExecuteTerminalCommand (Some (ts_input (g_TerminalSession ?s)))
        (TerminalAppendLine (Some (ts_input (g_TerminalSession ?s))) (th_text_muted kTheme) ?s))"
    have "terminal_ok ?x" by (intro ExecuteTerminalCommand_keeps[OF terminal_ok_steps] TerminalAppendLine_ok s)
    then show ?thesis unfolding TerminalSubmitInput_def Let_def case_prod_beta snd_conv
      by (intro session) (simp_all add: terminal_ok_def kTerminalInputLength_def)
  qed
  show ?thesis
  proof (cases "key = 10 \<or> key = 13")
    case True
    then show ?thesis using submit by (simp add: TerminalHandleKey_def Let_def)
  next
    case False
    then show ?thesis using s assms
      by (auto simp: TerminalHandleKey_def Let_def terminal_ok_def CopyText_def kTerminalSelectionLength_def kTerminalInputLength_def)
  qed
qed

text \<open>
  C37. Whatever is typed into the terminal, every buffer of it stays within its array: at most 64 lines of less than 96 characters, 8
  history entries of less than 64, an input of less than 80 with the cursor at its end, and a scroll offset between 0 and the number of
  lines above the visible ones. Holds through every command, scripts and escape sequences included.
\<close>

theorem terminal_stays_in_bounds:
  assumes "terminal_ok s"
  shows "terminal_ok (snd (TerminalHandleKey key modifiers s))"
  using assms by (rule TerminalHandleKey_in_bounds)

theorem terminal_stays_in_bounds_witness:
  "\<forall>(s :: AppDesk) key. terminal_ok (snd (TerminalHandleKey key 0 (s\<lparr>g_TerminalLines := [], g_TerminalHistory := [], g_TerminalHistoryCursor := -1,
     g_TerminalScrollOffset := 0, g_TerminalSession := (g_TerminalSession s)\<lparr>ts_input := ''help'', ts_cursor := 4, ts_selection := []\<rparr>\<rparr>)))"
  by (intro allI terminal_stays_in_bounds)
     (simp add: terminal_ok_def max_scroll_def kTerminalInputLength_def kTerminalSelectionLength_def)

subsection \<open>The desktop under the terminal\<close>

lemma desk_ok_steps: "terminal_steps_keep (desk_ok :: 'a AppDesk_scheme \<Rightarrow> bool)"
proof -
  have say_line: "desk_fields (TerminalAppendLine m c s) = desk_fields s" for m c and s :: "'a AppDesk_scheme"
    by (simp add: TerminalAppendLine_def Let_def split_beta desk_fields_def Desk.truncate_def)
  have rest: "desk_fields (TerminalRecordHistory c s) = desk_fields s" "desk_fields (TerminalClear s) = desk_fields s"
    "desk_fields (snd (TerminalRecallHistory d s)) = desk_fields s" "desk_fields (s\<lparr>g_TerminalCwd := cwd\<rparr>) = desk_fields s"
    "desk_fields (s\<lparr>g_TerminalRebootRequested := True\<rparr>) = desk_fields s" "desk_fields (s\<lparr>g_TerminalShutdownRequested := True\<rparr>) = desk_fields s"
    for c d cwd and s :: "'a AppDesk_scheme"
    by (simp_all add: TerminalRecordHistory_def TerminalClear_def TerminalRecallHistory_def Let_def desk_fields_def Desk.truncate_def)
  have kill: "desk_ok (snd (TerminalKillProcess a s))" if "desk_ok s" for a and s :: "'a AppDesk_scheme"
  proof -
    have "desk_ok (update_runtime i (\<lambda>r. r\<lparr>ar_state := NotRunning, ar_process_id := 0, ar_thread_id := 0, ar_transition_ticks := 0\<rparr>) s)" for i
      using that by (rule update_runtime_desk_ok) simp_all
    then show ?thesis using that desk_fields_ok[OF say_line] by (simp add: TerminalKillProcess_def split: option.split)
  qed
  show ?thesis unfolding terminal_steps_keep_def
    using desk_fields_ok[OF say_line] desk_fields_ok[OF rest(1)] desk_fields_ok[OF rest(2)] desk_fields_ok[OF rest(3)] desk_fields_ok[OF rest(4)]
      desk_fields_ok[OF rest(5)] desk_fields_ok[OF rest(6)] kill by (simp add: desk_fields_ok[OF file_ops_desk(1)])
qed

lemma TerminalHandleKey_desk_ok: "desk_ok s \<Longrightarrow> desk_ok (snd (TerminalHandleKey key modifiers s))"
proof -
  assume s: "desk_ok s"
  have session: "desk_ok (t\<lparr>g_TerminalSession := u\<rparr>) = desk_ok t" for t :: "'a AppDesk_scheme" and u
    using desk_fields_ok[OF editor_update_desk(5)] .
  have "desk_ok (snd (TerminalSubmitInput t))" if "desk_ok t" for t :: "'a AppDesk_scheme"
  proof -
    have "desk_ok (TerminalAppendLine m c t)" for m c using desk_ok_steps that by (auto simp: terminal_steps_keep_def)
    then show ?thesis unfolding TerminalSubmitInput_def Let_def case_prod_beta snd_conv session
      by (intro ExecuteTerminalCommand_keeps[OF desk_ok_steps])
  qed
  then show ?thesis using s by (simp add: TerminalHandleKey_def Let_def session)
qed

end
