(* ===== verification/GuiRender.thy ===== *)
theory GuiRender
  imports GuiTerminal
begin

text \<open>
  \<^verbatim>\<open>kernel/src/gui.cpp\<close>: what the desktop draws and how it gets to the screen.

  No drawing routine reads what it has drawn: each gives the list of its drawing calls in order, and
  \<open>paint_all\<close> carries them out on the screen.
\<close>

subsection \<open>State\<close>

datatype GuiEventType = NoEvent | MouseMove | MouseDown | MouseUp | MouseWheel | Click | DoubleClick | Hover | Drag
  | KeyDown | KeyUp | Gamepad | Paint | ResizeEvent | CloseEvent

record GuiEvent =
  ge_type :: GuiEventType
  ge_x :: i32
  ge_y :: i32
  ge_button :: u32
  ge_key :: u32

record GuiStatus =
  gs_window_manager_ready :: bool
  gs_compositor_ready :: bool
  gs_desktop_ready :: bool
  gs_event_queue_ready :: bool
  gs_mouse_ready :: bool
  gs_queued_events :: nat

record Gui = AppDesk +
  g_Status :: GuiStatus
  g_EventQueue :: "GuiEvent list"
  g_EventReadIndex :: nat
  g_EventWriteIndex :: nat
  g_EventCount :: nat
  g_MouseX :: i32
  g_MouseY :: i32
  g_LeftButtonDown :: bool
  g_DragOffsetX :: i32
  g_DragOffsetY :: i32
  g_MouseDownX :: i32
  g_MouseDownY :: i32
  g_Dragging :: bool
  g_DebugFullRedraw :: bool
  g_HoveredControl :: WindowControl
  g_HoveredWindowIndex :: int
  g_CursorKind :: CursorKind
  gui_screen :: Screen

definition on_gui_screen :: "(Screen \<Rightarrow> Screen) \<Rightarrow> 'a Gui_scheme \<Rightarrow> 'a Gui_scheme" where
  "on_gui_screen f s = s\<lparr>gui_screen := f (gui_screen s)\<rparr>"

subsection \<open>Drawing calls\<close>

datatype paint = PFill Rect u32 | PRect Rect u32 | PLine i32 i32 i32 i32 u32 | PText u32 u32 cstring u32 | PImage Rect u32

fun run_paint :: "FramebufferInfo \<Rightarrow> paint \<Rightarrow> Screen \<Rightarrow> Screen" where
  "run_paint fb (PFill r c) = Gui_FillRect fb r c"
| "run_paint fb (PRect r c) = Graphics_DrawRect fb r c"
| "run_paint fb (PLine x0 y0 x1 y1 c) = Graphics_DrawLine fb x0 y0 x1 y1 c"
| "run_paint fb (PText x y txt c) = Graphics_DrawText fb x y txt c"
| "run_paint fb (PImage r c) = Graphics_DrawImage fb r c"

definition paint_all :: "FramebufferInfo \<Rightarrow> paint list \<Rightarrow> Screen \<Rightarrow> Screen" where
  "paint_all fb ps s = fold (run_paint fb) ps s"

subsection \<open>Contents of windows\<close>

text \<open>The lines from \<open>start\<close> on, until the next would leave the window.\<close>

fun terminal_rows :: "u32 \<Rightarrow> u32 \<Rightarrow> u32 \<Rightarrow> TerminalLine list \<Rightarrow> paint list" where
  "terminal_rows x y bottom [] = []"
| "terminal_rows x y bottom (l # ls) =
     (if tl_text l \<noteq> [] then [PText x y (Some (tl_text l)) (tl_color l)] else []) @
     (if y + 20 + 16 \<ge> bottom then [] else terminal_rows x (y + 20) bottom ls)"

text \<open>With the session the window was reflowed for.\<close>

definition DrawTerminalContents :: "Window \<Rightarrow> 'a AppDesk_scheme \<Rightarrow> paint list" where
  "DrawTerminalContents w s =
     (let b = w_bounds w; t = g_TerminalSession s; n = length (g_TerminalLines s);
          x = r_x b + 18; y = r_y b + kTitleBarHeight + 18; bottom = r_y b + r_height b;
          visible_rows = (if ts_rows t > 1 then unat (ts_rows t - 1) else 1);
          visible_count = (if n < visible_rows then n else visible_rows);
          scrollback = (if n > visible_count then n - visible_count else 0);
          offset = unat (g_TerminalScrollOffset s);
          start = (if sint (g_TerminalScrollOffset s) > 0 then (if offset > scrollback then 0 else scrollback - offset) else scrollback);
          prompt = AppendText (kTerminalInputLength + 4) (Some (ts_input t)) (CopyText (kTerminalInputLength + 4) (Some ''> '') [])
      in terminal_rows x y bottom (drop start (g_TerminalLines s)) @
         [PText x (bottom - 28) (Some prompt) (th_accent kTheme)] @
         (if ts_cursor_visible t then [PFill (rect (x + 24 + of_nat (ts_cursor t) * 12) (bottom - 13) 10 2) (th_cursor kTheme)] else []) @
         (if ts_selection_active t then [PText (x + 280) (bottom - 28) (Some ''copied'') (th_text_muted kTheme)] else []))"

definition DrawSystemMonitorContents :: "Window \<Rightarrow> paint list" where
  "DrawSystemMonitorContents w =
     (let x = r_x (w_bounds w) + 18; y = r_y (w_bounds w) + kTitleBarHeight + 18 in
      [PText x y (Some ''CPU 3%'') (th_text kTheme), PText x (y + 24) (Some ''RAM 12 MB'') (th_text kTheme),
       PText x (y + 48) (Some ''FPS 60'') (th_text kTheme), PFill (rect x (y + 76) 150 10) 0xFF1B2632, PFill (rect x (y + 76) 48 10) (th_accent kTheme)])"

fun task_rows :: "u32 \<Rightarrow> u32 \<Rightarrow> u32 \<Rightarrow> AppRuntimeState list \<Rightarrow> paint list" where
  "task_rows x y bottom [] = []"
| "task_rows x y bottom (r # rs) =
     (if \<not> y + 18 < bottom then []
      else if \<not> ar_valid r \<or> ar_state r = NotRunning then task_rows x y bottom rs
      else PText x y (Some ''app  native      active 3%  1M  1'') (if ar_state r = NotResponding then th_minimize kTheme else th_text kTheme)
             # task_rows x (y + 22) bottom rs)"

definition DrawApplicationContents :: "Window \<Rightarrow> 'a AppDesk_scheme \<Rightarrow> paint list" where
  "DrawApplicationContents w s =
     (let b = w_bounds w; x = r_x b + 18; y = r_y b + kTitleBarHeight + 18; txt = th_text kTheme; muted = th_text_muted kTheme;
          accent = th_accent kTheme
      in case w_app w of
        FileManager \<Rightarrow>
          [PText x y (Some (fm_current_path (g_FileManager s))) accent,
           PText x (y + 24) (Some ''back forward new rename copy move del'') muted,
           PText x (y + 52) (Some ''boot  kernel  tmp  readme  notes.txt'') txt,
           PText x (y + 80) (Some (fm_selected_path (g_FileManager s))) txt] @
          (if fm_error (g_FileManager s) \<noteq> [] then [PText x (y + 108) (Some (fm_error (g_FileManager s))) (th_close kTheme)] else [])
      | TextEditor \<Rightarrow>
          (let e = g_TextEditor s in
          [PText x y (Some (te_path e)) (if te_dirty e then th_minimize kTheme else accent),
           PText x (y + 24) (Some ''new open save save-as'') muted,
           PRect (rect x (y + 48) (if r_width b > 44 then r_width b - 44 else 120) 130) (th_border_inactive kTheme),
           PText (x + 10) (y + 66) (Some (te_text e)) txt] @
          (if te_selection_active e then [PText (x + 10) (y + 94) (Some ''selection active'') accent] else []) @
          [PFill (rect (x + 10 + of_nat (te_cursor e mod 40) * 12) (y + 82) 10 2) (th_cursor kTheme)])
      | ImageViewer \<Rightarrow>
          [PText x y (Some ''SO.png'') txt, PFill (rect x (y + 26) 150 84) 0xFF1E2D34, PImage (rect (x + 18) (y + 38) 114 60) accent]
      | Calculator \<Rightarrow>
          [PText x y (Some (ca_expression (g_Calculator s))) txt] @
          concat (map (\<lambda>row. map (\<lambda>col. PRect (rect (x + col * 34) (y + 30 + row * 28) 26 20) (th_border_inactive kTheme)) [0, 1, 2, 3]) [0, 1, 2, 3]) @
          [PText (x + 8) (y + 38) (Some ''789/'') muted, PText (x + 8) (y + 66) (Some ''456*'') muted,
           PText (x + 8) (y + 94) (Some ''123-'') muted, PText (x + 8) (y + 122) (Some ''C0=+'') muted]
      | Settings \<Rightarrow>
          [PText x y (Some ''Display Wall Theme Sound Mouse Keys Net Sys'') txt,
           PFill (rect x (y + 30) (34 + se_page (g_Settings s) * 42) 10) accent,
           PText x (y + 54) (Some (if se_dark_theme (g_Settings s) then ''theme: dark'' else ''theme: light'')) txt,
           PText x (y + 78) (Some ''volume adjustable'') muted]
      | TaskManager \<Rightarrow>
          PText x y (Some ''PID  Name        State CPU MEM WIN'') muted # task_rows x (y + 24) (r_y b + r_height b) (g_AppRuntimes s)
      | PackageManager \<Rightarrow>
          [PText x y (Some ''base  gui  net  dev'') txt, PText x (y + 28) (Some ''updates: none'') (th_maximize kTheme)]
      | SystemMonitor \<Rightarrow> DrawSystemMonitorContents w
      | TerminalEmulator \<Rightarrow> DrawTerminalContents w s
      | SoftwareCenter \<Rightarrow>
          [PText x y (Some ''Installed: Terminal Files Settings'') txt, PText x (y + 28) (Some ''Catalog cache ready'') accent])"

subsection \<open>Windows\<close>

definition DrawWindowControl :: "Window \<Rightarrow> WindowControl \<Rightarrow> bool \<Rightarrow> 'a Gui_scheme \<Rightarrow> paint list" where
  "DrawWindowControl w control active s =
     (let r = ControlButtonRect w control; x = r_x r; y = r_y r;
          hovered = active \<and> g_HoveredControl s = control \<and> g_HoveredWindowIndex s \<ge> 0;
          color = (if control = ControlClose then (if hovered then th_close kTheme else th_button_idle kTheme)
                   else if hovered then th_button_hover kTheme else th_button_idle kTheme);
          icon = (if control = ControlClose then th_close kTheme else if control = ControlMinimize then th_minimize kTheme else th_maximize kTheme)
      in PFill r color #
         (if control = ControlClose then [PLine (x + 5) (y + 5) (x + 11) (y + 11) icon, PLine (x + 11) (y + 5) (x + 5) (y + 11) icon]
          else if control = ControlMinimize then [PFill (rect (x + 4) (y + 11) 8 2) icon]
          else if w_maximized w then [PRect (rect (x + 4) (y + 5) 8 7) icon, PRect (rect (x + 2) (y + 7) 8 7) icon]
          else [PRect (rect (x + 4) (y + 4) 8 8) icon]))"

definition DrawShadow :: "Rect \<Rightarrow> paint list" where
  "DrawShadow b =
     [PFill (rect (r_x b + 14) (r_y b + 16) (r_width b) (r_height b)) (th_shadow_far kTheme),
      PFill (rect (r_x b + 9) (r_y b + 10) (r_width b) (r_height b)) (th_shadow_mid kTheme),
      PFill (rect (r_x b + 4) (r_y b + 5) (r_width b) (r_height b)) (th_shadow_near kTheme)]"

definition window_frame :: "Window \<Rightarrow> bool \<Rightarrow> 'a Gui_scheme \<Rightarrow> paint list" where
  "window_frame w active s =
     (let b = w_bounds w; border = (if active then th_border_active kTheme else th_border_inactive kTheme);
          title_pixels = (if r_width b > 100 then r_width b - 100 else 36);
          title = CopyTextLimited 32 (w_title w) (unat (title_pixels div 12)) []
      in DrawShadow b @
         [PFill b (w_color w),
          PFill (rect (r_x b) (r_y b) (r_width b) kTitleBarHeight) (if active then th_title_active kTheme else th_title_inactive kTheme),
          PFill (rect (r_x b) (r_y b + kTitleBarHeight - 1) (r_width b) 1) border,
          PText (r_x b + 12) (r_y b + 8) (Some title) (if active then th_text kTheme else th_text_muted kTheme)] @
         DrawWindowControl w ControlMinimize active s @ DrawWindowControl w ControlMaximize active s @ DrawWindowControl w ControlClose active s @
         map (\<lambda>i. PRect (rect (r_x b + of_nat i) (r_y b + of_nat i) (r_width b - of_nat i * 2) (r_height b - of_nat i * 2)) border) [0 ..< kWindowBorder])"

definition ComposeWindow :: "Window \<Rightarrow> bool \<Rightarrow> 'a Gui_scheme \<Rightarrow> 'a Gui_scheme" where
  "ComposeWindow w active s =
     (if \<not> shown (g_ActiveDesktop s) w then s
      else
        let fb = g_Framebuffer s;
            s1 = on_gui_screen (paint_all fb (window_frame w active s)) s;
            s2 = (if w_app w = TerminalEmulator then TerminalReflowForWindow w s1 else s1)
        in on_gui_screen (paint_all fb (DrawApplicationContents w s2)) s2)"

subsection \<open>The desktop around them\<close>

definition DrawWallpaper :: "FramebufferInfo \<Rightarrow> paint list" where
  "DrawWallpaper fb =
     [PFill (rect 0 0 (fb_width fb) (fb_height fb)) (th_desktop_bottom kTheme),
      PFill (rect 0 0 (fb_width fb) (fb_height fb div 4)) (th_desktop_top kTheme)] @
     map (\<lambda>i. let x = of_nat (48 * i) in PLine x kTopBarHeight (x + 120) (fb_height fb - kTaskBarHeight) 0xFF1D2631)
       [0 ..< (unat (fb_width fb) + 47) div 48]"

definition DrawDesktopIcons :: "paint list" where
  "DrawDesktopIcons =
     (let x = 24; y = kTopBarHeight + 28; y2 = y + 72 in
      [PImage (rect x y 28 24) 0xFF33485A, PFill (rect (x + 4) (y + 5) 20 14) (th_accent kTheme), PText x (y + 34) (Some ''Files'') (th_text kTheme),
       PImage (rect (x + 3) y2 22 28) 0xFF38404A, PFill (rect (x + 7) (y2 + 5) 14 18) (th_minimize kTheme),
       PText x (y2 + 38) (Some ''Disk'') (th_text kTheme)])"

definition runtime_of :: "AppKind \<Rightarrow> 'a Desk_scheme \<Rightarrow> AppRuntimeState option" where
  "runtime_of app s = map_option (\<lambda>i. g_AppRuntimes s ! i) (FindAppRuntime app s)"

text \<open>The buttons of the launcher, as long as they fit the width.\<close>

fun launcher_buttons :: "'a Desk_scheme \<Rightarrow> u32 \<Rightarrow> u32 \<Rightarrow> ApplicationDescriptor list \<Rightarrow> paint list" where
  "launcher_buttons s x y [] = []"
| "launcher_buttons s x y (d # ds) =
     (if \<not> x + kLauncherButtonWidth < fb_width (g_Framebuffer s) then []
      else
        let runtime = runtime_of (ad_app d) s;
            running = (case runtime of None \<Rightarrow> False | Some r \<Rightarrow> ar_state r \<in> {AppRunning, Minimized, NotResponding});
            opening = (case runtime of None \<Rightarrow> False | Some r \<Rightarrow> ar_transition_ticks r > 0);
            failed = (case runtime of None \<Rightarrow> False | Some r \<Rightarrow> ar_state r = Failed);
            fill = (if failed then 0xFF4A2630 else if opening then 0xFF35452E else if running then 0xFF243A34 else 0xFF26313D);
            edge = (if failed then th_close kTheme else if opening then th_minimize kTheme else if running then th_maximize kTheme
                    else th_border_inactive kTheme)
        in [PFill (rect x y kLauncherButtonWidth kLauncherButtonHeight) fill, PRect (rect x y kLauncherButtonWidth kLauncherButtonHeight) edge,
            PFill (rect (x + 8) (y + 7) 18 18) edge,
            PText (x + 32) (y + 11) (Some (ad_id d)) (if running then th_text kTheme else th_text_muted kTheme)] @
           launcher_buttons s (x + (kLauncherButtonWidth + 8)) y ds)"

definition DrawBars :: "'a Desk_scheme \<Rightarrow> paint list" where
  "DrawBars s =
     (let fb = g_Framebuffer s; w = fb_width fb; h = fb_height fb; muted = th_text_muted kTheme in
      [PFill (rect 0 0 w kTopBarHeight) (th_panel kTheme), PFill (rect 0 (kTopBarHeight - 1) w 1) (th_panel_edge kTheme),
       PFill (rect 0 (h - kTaskBarHeight) w kTaskBarHeight) (th_panel kTheme), PFill (rect 0 (h - kTaskBarHeight) w 1) (th_panel_edge kTheme),
       PFill (rect 14 12 14 14) (th_accent kTheme), PText 38 12 (Some ''Antigravity OS'') (th_text kTheme),
       PText 190 12 (Some ''CPU 3%'') muted, PText 282 12 (Some ''RAM 12 MB'') muted, PText 410 12 (Some ''FPS 60'') muted] @
      (if g_NotificationText s \<noteq> None then
         [PFill (rect 500 7 220 24) 0xFF111821, PRect (rect 500 7 220 24) (g_NotificationColor s), PText 508 12 (g_NotificationText s) (g_NotificationColor s)]
       else []) @
      (if w > 92 then [PText (w - 82) 12 (Some ''22:45'') (th_text kTheme)] else []) @
      launcher_buttons s 18 (h - kTaskBarHeight + 8) kApplications)"

text \<open>The buttons of the taskbar: the windows of the desktop with their rectangles, from left to right.\<close>

fun taskbar_buttons :: "u8 \<Rightarrow> u32 \<Rightarrow> u32 \<Rightarrow> nat \<Rightarrow> Window list \<Rightarrow> (nat \<times> Rect) list" where
  "taskbar_buttons desktop x y i [] = []"
| "taskbar_buttons desktop x y i (w # ws) =
     (if \<not> w_visible w \<or> w_desktop w \<noteq> desktop then taskbar_buttons desktop x y (Suc i) ws
      else
        let button_width = (if w_app w = TerminalEmulator then 112 else 156)
        in (i, rect x y button_width 26) # taskbar_buttons desktop (x + (button_width + 10)) y (Suc i) ws)"

definition taskbar_layout :: "'a Desk_scheme \<Rightarrow> (nat \<times> Rect) list" where
  "taskbar_layout s = taskbar_buttons (g_ActiveDesktop s) 18 (fb_height (g_Framebuffer s) - kTaskBarHeight + 40) 0 (g_Windows s)"

definition taskbar_button :: "'a Desk_scheme \<Rightarrow> nat \<times> Rect \<Rightarrow> paint list" where
  "taskbar_button s b =
     (let w = g_Windows s ! fst b; r = snd b;
          opening = (case runtime_of (w_app w) s of None \<Rightarrow> False | Some q \<Rightarrow> ar_transition_ticks q > 0);
          fill = (if w_focused w then 0xFF345164 else if w_minimized w then 0xFF1C242E else 0xFF2D3945);
          edge = (if opening then th_minimize kTheme else if w_focused w then th_accent kTheme
                  else if w_minimized w then th_border_inactive kTheme else th_border_active kTheme)
      in [PFill r fill, PRect r edge] @
         (if w_minimized w then [PFill (rect (r_x r + 6) (r_y r + 18) (r_width r - 12) 3) (th_minimize kTheme)] else []) @
         [PText (r_x r + 10) (r_y r + 7) (w_title w) (if w_minimized w then th_text_muted kTheme else th_text kTheme)])"

definition DrawTaskbar :: "'a Desk_scheme \<Rightarrow> paint list" where
  "DrawTaskbar s = concat (map (taskbar_button s) (taskbar_layout s))"

definition AdvanceDesktopTransitions :: "'a Desk_scheme \<Rightarrow> 'a Desk_scheme" where
  "AdvanceDesktopTransitions s =
     s\<lparr>g_AppRuntimes := map (\<lambda>r. if ar_valid r \<and> ar_transition_ticks r > 0 then r\<lparr>ar_transition_ticks := ar_transition_ticks r - 1\<rparr> else r)
         (g_AppRuntimes s)\<rparr>"

subsection \<open>Composition\<close>

text \<open>Wallpaper, icons, bars, the windows from the bottom and the taskbar, on the target that was begun.\<close>

definition compose_contents :: "'a Gui_scheme \<Rightarrow> 'a Gui_scheme" where
  "compose_contents s =
     (let fb = g_Framebuffer s;
          s1 = on_gui_screen (paint_all fb (DrawWallpaper fb @ DrawDesktopIcons @ DrawBars s)) s;
          s2 = fold (\<lambda>i s. ComposeWindow (g_Windows s ! i) (w_focused (g_Windows s ! i)) s) [0 ..< window_count s1] s1
      in on_gui_screen (paint_all fb (DrawTaskbar s2)) s2)"

definition ComposeDesktop :: "'a Gui_scheme \<Rightarrow> bool \<times> 'a Gui_scheme" where
  "ComposeDesktop s0 =
     (let fb = g_Framebuffer s0;
          ready = g_BackBufferReady (gui_screen s0);
          s1 = on_gui_screen (\<lambda>c. (if ready then BeginDrawToBackBuffer fb (ScreenRect fb) else BeginDrawToFramebuffer) (c\<lparr>cb_valid := False\<rparr>)) s0;
          s2 = on_gui_screen BeginDrawToFramebuffer (compose_contents s1);
          s3 = (if ready then on_gui_screen (CopyBackBufferToFramebuffer fb (ScreenRect fb)) s2 else s2);
          s4 = on_gui_screen (PaintCursor fb (g_CursorKind s3) (g_MouseX s3) (g_MouseY s3)) s3
      in (True, AdvanceDesktopTransitions s4))"

definition RedrawDirtyRegion :: "Rect \<Rightarrow> 'a Gui_scheme \<Rightarrow> 'a Gui_scheme" where
  "RedrawDirtyRegion dirty s0 =
     (let fb = g_Framebuffer s0; clipped = IntersectRect dirty (ScreenRect fb) in
      if \<not> g_BackBufferReady (gui_screen s0) \<or> g_DebugFullRedraw s0 \<or> RectEmpty clipped then snd (ComposeDesktop s0)
      else
        let s1 = on_gui_screen (BeginDrawToBackBuffer fb clipped) s0;
            s2 = on_gui_screen BeginDrawToFramebuffer (compose_contents s1);
            s3 = on_gui_screen (CopyBackBufferToFramebuffer fb clipped) s2;
            s4 = on_gui_screen (PaintCursor fb (g_CursorKind s3) (g_MouseX s3) (g_MouseY s3)) s3
        in AdvanceDesktopTransitions s4)"

subsection \<open>What a composition leaves alone\<close>

lemma on_gui_screen_keeps [simp]:
  "g_Framebuffer (on_gui_screen f s) = g_Framebuffer s" "gui_screen (on_gui_screen f s) = f (gui_screen s)" "desk_fields (on_gui_screen f s) = desk_fields s"
  "g_Windows (on_gui_screen f s) = g_Windows s"
  by (simp_all add: on_gui_screen_def desk_fields_def Desk.truncate_def)

lemma TerminalReflow_keeps [simp]:
  "g_Framebuffer (TerminalReflowForWindow w s) = g_Framebuffer s" "gui_screen (TerminalReflowForWindow w t) = gui_screen t"
  "desk_fields (TerminalReflowForWindow w s) = desk_fields s"
  for s :: "'a AppDesk_scheme" and t :: "'b Gui_scheme"
  by (simp_all add: TerminalReflowForWindow_def Let_def desk_fields_def Desk.truncate_def)

lemma paint_all_any: "paints_any fb s (paint_all fb ps s)"
proof (induction ps arbitrary: s)
  case (Cons p ps)
  have "paints_any fb s (run_paint fb p s)" by (cases p) (simp_all add: paints)
  then show ?case using paints_any_trans[OF _ Cons.IH] by (simp add: paint_all_def)
qed (simp add: paint_all_def)

lemma ComposeWindow_keeps:
  "g_Framebuffer (ComposeWindow w a s) = g_Framebuffer s" "desk_fields (ComposeWindow w a s) = desk_fields s"
  "paints_any (g_Framebuffer s) (gui_screen s) (gui_screen (ComposeWindow w a s))"
proof -
  let ?s1 = "on_gui_screen (paint_all (g_Framebuffer s) (window_frame w a s)) s"
  let ?s2 = "if w_app w = TerminalEmulator then TerminalReflowForWindow w ?s1 else ?s1"
  have s2: "g_Framebuffer ?s2 = g_Framebuffer s" "desk_fields ?s2 = desk_fields s"
    "gui_screen ?s2 = paint_all (g_Framebuffer s) (window_frame w a s) (gui_screen s)" by simp_all
  have eq: "ComposeWindow w a s = (if \<not> shown (g_ActiveDesktop s) w then s
      else on_gui_screen (paint_all (g_Framebuffer s) (DrawApplicationContents w ?s2)) ?s2)"
    by (simp add: ComposeWindow_def Let_def)
  show "g_Framebuffer (ComposeWindow w a s) = g_Framebuffer s" "desk_fields (ComposeWindow w a s) = desk_fields s"
    unfolding eq by (simp_all add: s2)
  have "paints_any (g_Framebuffer s) (gui_screen s) (gui_screen (on_gui_screen (paint_all (g_Framebuffer s) (DrawApplicationContents w ?s2)) ?s2))"
    by (simp only: on_gui_screen_keeps s2) (rule paints_any_trans[OF paint_all_any paint_all_any])
  then show "paints_any (g_Framebuffer s) (gui_screen s) (gui_screen (ComposeWindow w a s))" unfolding eq by simp
qed

lemma compose_contents_keeps:
  "g_Framebuffer (compose_contents s) = g_Framebuffer s" "desk_fields (compose_contents s) = desk_fields s"
  "paints_any (g_Framebuffer s) (gui_screen s) (gui_screen (compose_contents s))"
proof -
  let ?f = "\<lambda>i s. ComposeWindow (g_Windows s ! i) (w_focused (g_Windows s ! i)) s"
  have fold: "g_Framebuffer (fold ?f is s) = g_Framebuffer s \<and> desk_fields (fold ?f is s) = desk_fields s \<and>
      paints_any (g_Framebuffer s) (gui_screen s) (gui_screen (fold ?f is s))" for "is" and s :: "'a Gui_scheme"
  proof (induction "is" arbitrary: s)
    case (Cons i "is")
    let ?t = "?f i s"
    from Cons.IH[of ?t] show ?case
      using ComposeWindow_keeps[where w = "g_Windows s ! i" and a = "w_focused (g_Windows s ! i)" and s = s] by (auto intro: paints_any_trans)
  qed simp
  define s1 where "s1 = on_gui_screen (paint_all (g_Framebuffer s) (DrawWallpaper (g_Framebuffer s) @ DrawDesktopIcons @ DrawBars s)) s"
  define s2 where "s2 = fold ?f [0 ..< window_count s1] s1"
  have eq: "compose_contents s = on_gui_screen (paint_all (g_Framebuffer s) (DrawTaskbar s2)) s2"
    by (simp add: compose_contents_def Let_def s1_def s2_def)
  have s1: "g_Framebuffer s1 = g_Framebuffer s" "desk_fields s1 = desk_fields s" "paints_any (g_Framebuffer s) (gui_screen s) (gui_screen s1)"
    by (simp_all add: s1_def paint_all_any)
  have s2: "g_Framebuffer s2 = g_Framebuffer s" "desk_fields s2 = desk_fields s" "paints_any (g_Framebuffer s) (gui_screen s) (gui_screen s2)"
    using fold[of "[0 ..< window_count s1]" s1] s1 by (auto simp: s2_def intro: paints_any_trans)
  show "g_Framebuffer (compose_contents s) = g_Framebuffer s" "desk_fields (compose_contents s) = desk_fields s"
    by (simp_all add: eq s2)
  show "paints_any (g_Framebuffer s) (gui_screen s) (gui_screen (compose_contents s))"
    using paints_any_trans[OF s2(3) paint_all_any] by (simp add: eq)
qed

lemma AdvanceDesktopTransitions_ok: "desk_ok (AdvanceDesktopTransitions s) = desk_ok s"
proof -
  let ?f = "\<lambda>r :: AppRuntimeState. if ar_valid r \<and> ar_transition_ticks r > 0 then r\<lparr>ar_transition_ticks := ar_transition_ticks r - 1\<rparr> else r"
  have "map ar_app (map ?f rs) = map ar_app rs" "list_all ar_valid (map ?f rs) = list_all ar_valid rs" for rs
    by (induction rs) simp_all
  then have "runtimes_ok (map ?f rs) = runtimes_ok rs" for rs by (simp only: runtimes_ok_def)
  then show ?thesis by (simp add: desk_ok_def desk_pre_def AdvanceDesktopTransitions_def)
qed

lemma ComposeDesktop_ok: "desk_ok s \<Longrightarrow> desk_ok (snd (ComposeDesktop s))"
  unfolding ComposeDesktop_def Let_def snd_conv AdvanceDesktopTransitions_ok
  by (erule desk_fields_ok[THEN iffD1, rotated]) (simp add: compose_contents_keeps(2))

lemma RedrawDirtyRegion_ok: "desk_ok s \<Longrightarrow> desk_ok (RedrawDirtyRegion dirty s)"
proof -
  assume ok: "desk_ok s"
  have "desk_ok (on_gui_screen f (on_gui_screen g (on_gui_screen h (compose_contents (on_gui_screen k s)))))" for f g h k
    using ok by (rule desk_fields_ok[THEN iffD1, rotated]) (simp add: compose_contents_keeps(2))
  then show ?thesis using ComposeDesktop_ok[OF ok] by (simp add: RedrawDirtyRegion_def Let_def AdvanceDesktopTransitions_ok)
qed

subsection \<open>Where a composition writes\<close>

text \<open>Frame buffer words of visible pixels, and entries of the back buffer array.\<close>

definition writes_inside :: "FramebufferInfo \<Rightarrow> Screen \<Rightarrow> Screen \<Rightarrow> bool" where
  "writes_inside fb s t \<longleftrightarrow>
     (\<forall>i. front_px t i = front_px s i \<or> (\<exists>x y. x < fb_width fb \<and> y < fb_height fb \<and> i = y * fb_pixels_per_scanline fb + x)) \<and>
     (\<forall>i. back_px t i = back_px s i \<or> unat i < unat kBackBufferMaxWidth * unat kBackBufferMaxHeight)"

definition back_fits :: "FramebufferInfo \<Rightarrow> Screen \<Rightarrow> bool" where
  "back_fits fb s \<longleftrightarrow> (g_BackBufferReady s \<longrightarrow> fb_width fb \<le> kBackBufferMaxWidth \<and> fb_height fb \<le> kBackBufferMaxHeight)"

lemma writes_inside_refl [simp]: "writes_inside fb s s"
  by (simp add: writes_inside_def)

lemma writes_inside_trans: "writes_inside fb s t \<Longrightarrow> writes_inside fb t u \<Longrightarrow> writes_inside fb s u"
  unfolding writes_inside_def by metis

lemma back_index:
  assumes "x < w" "y < h" "w \<le> kBackBufferMaxWidth" "h \<le> kBackBufferMaxHeight"
  shows "unat (y * kBackBufferMaxWidth + x) < unat kBackBufferMaxWidth * unat kBackBufferMaxHeight"
proof -
  have xy: "unat x \<le> 2047" "unat y \<le> 2047" using assms by (simp_all add: word_less_nat_alt word_le_nat_alt kBackBufferMaxWidth_def kBackBufferMaxHeight_def)
  then have "unat y * 2048 + unat x < 2048 * 2048" by linarith
  moreover have "unat (y * 2048 + x) = unat y * 2048 + unat x"
    using xy by (simp add: unat_word_ariths)
  ultimately show ?thesis by (simp add: kBackBufferMaxWidth_def kBackBufferMaxHeight_def)
qed

lemma paints_any_inside:
  assumes "paints_any fb s t" "to_back s \<Longrightarrow> g_DrawStride s = kBackBufferMaxWidth \<and> fb_width fb \<le> kBackBufferMaxWidth \<and> fb_height fb \<le> kBackBufferMaxHeight"
  shows "writes_inside fb s t"
proof (cases "to_back s")
  case True
  then have b: "to_back t" using paints_in_fields(1)[OF assms(1)[unfolded paints_any_def]] by simp
  have "front_px t = front_px s" using assms(1) True b by (simp add: paints_any_def paints_in_def idle_px_def)
  moreover have "back_px t i = back_px s i \<or> unat i < unat kBackBufferMaxWidth * unat kBackBufferMaxHeight" for i
  proof (cases "back_px t i = back_px s i")
    case False
    then obtain x y where "drawable fb s x y" "i = y * ActiveStride fb s + x"
      using assms(1) True b unfolding paints_any_def paints_in_def active_px_def by auto
    then show ?thesis using back_index[of x "fb_width fb" y "fb_height fb"] assms(2)[OF True] True by (simp add: drawable_def ActiveStride_def)
  qed simp
  ultimately show ?thesis by (simp add: writes_inside_def)
next
  case False
  then have b: "\<not> to_back t" using paints_in_fields(1)[OF assms(1)[unfolded paints_any_def]] by simp
  have "back_px t = back_px s" using assms(1) False b by (simp add: paints_any_def paints_in_def idle_px_def)
  moreover have "front_px t i = front_px s i \<or> (\<exists>x y. drawable fb s x y \<and> i = y * fb_pixels_per_scanline fb + x)" for i
    using assms(1) False b unfolding paints_any_def paints_in_def active_px_def ActiveStride_def by auto
  then have "front_px t i = front_px s i \<or> (\<exists>x y. x < fb_width fb \<and> y < fb_height fb \<and> i = y * fb_pixels_per_scanline fb + x)" for i
    unfolding drawable_def by blast
  ultimately show ?thesis by (simp add: writes_inside_def)
qed

lemma rect_points_on_screen: "(x, y) \<in> set (rect_points fb r) \<Longrightarrow> x < fb_width fb \<and> y < fb_height fb"
proof -
  have "c < limit" if "c \<in> set (u32_range lo n limit)" for c lo n limit :: u32
  proof -
    obtain k where "c = of_nat k" "k < unat limit" using \<open>c \<in> _\<close> by (auto simp: u32_range_def)
    then have "unat c = k" using u32_lt[of limit] by (simp add: unat_of_nat)
    then show ?thesis using \<open>k < unat limit\<close> by (simp add: word_less_nat_alt)
  qed
  then show "(x, y) \<in> set (rect_points fb r) \<Longrightarrow> x < fb_width fb \<and> y < fb_height fb" by (auto simp: rect_points_def)
qed

lemma copied_pixels:
  "foldl (\<lambda>f (x, y). f(y * p + x := g x y)) f ps i = f i \<or> (\<exists>(x, y) \<in> set ps. i = y * (p :: u32) + x)"
  by (induction ps arbitrary: f) (fastforce split: prod.splits)+

lemma CopyBackBuffer_inside: "writes_inside fb s (CopyBackBufferToFramebuffer fb dirty s)"
proof (cases "\<not> g_BackBufferReady s \<or> RectEmpty (IntersectRect dirty (ScreenRect fb))")
  case False
  then have eq: "CopyBackBufferToFramebuffer fb dirty s = s\<lparr>front_px := foldl (\<lambda>f (x, y). f(y * fb_pixels_per_scanline fb + x := back_px s (y * kBackBufferMaxWidth + x)))
             (front_px s) (rect_points fb (IntersectRect dirty (ScreenRect fb)))\<rparr>"
    by (simp add: CopyBackBufferToFramebuffer_def Let_def)
  have "front_px (CopyBackBufferToFramebuffer fb dirty s) i = front_px s i \<or>
      (\<exists>(x, y) \<in> set (rect_points fb (IntersectRect dirty (ScreenRect fb))). i = y * fb_pixels_per_scanline fb + x)" for i
    unfolding eq using copied_pixels by simp
  then show ?thesis unfolding writes_inside_def using rect_points_on_screen by (fastforce simp: eq)
qed (simp add: CopyBackBufferToFramebuffer_def Let_def)

lemma DrawCursor_any: "paints_any fb s (DrawCursor fb kind x y s)"
proof -
  have fill: "paints_any fb s (fill_all fb rs s)" for rs s
    unfolding paints_any_def by (rule paints_in_fill_all) simp
  have shape: "paints_any fb s (Gui_FillRect fb r c (Graphics_DrawLine fb a b d e c (Graphics_DrawLine fb f g h i c s)))" for r a b c d e f g h i
    by (rule paints_any_trans[OF paints_any_DrawLine paints_any_trans[OF paints_any_DrawLine paints_any_FillRect]])
  show ?thesis by (cases kind) (simp_all add: DrawCursor_def Let_def fill shape)
qed

lemma PaintCursor_inside: "\<not> to_back s \<Longrightarrow> writes_inside fb s (PaintCursor fb kind x y s)"
proof -
  assume "\<not> to_back s"
  then have "writes_inside fb (SaveCursorBackground fb x y s) (PaintCursor fb kind x y s)"
    unfolding PaintCursor_def by (intro paints_any_inside DrawCursor_any) (simp add: SaveCursorBackground_def)
  then show ?thesis by (simp add: writes_inside_def SaveCursorBackground_def)
qed

lemma composed_inside:
  assumes "back_fits (g_Framebuffer s) (gui_screen s)"
  shows "writes_inside (g_Framebuffer s) (gui_screen s) (gui_screen (snd (ComposeDesktop s)))"
proof -
  let ?fb = "g_Framebuffer s" and ?ready = "g_BackBufferReady (gui_screen s)"
  define s1 where "s1 = on_gui_screen (\<lambda>c. (if ?ready then BeginDrawToBackBuffer ?fb (ScreenRect ?fb) else BeginDrawToFramebuffer) (c\<lparr>cb_valid := False\<rparr>)) s"
  define s2 where "s2 = on_gui_screen BeginDrawToFramebuffer (compose_contents s1)"
  define s3 where "s3 = (if ?ready then on_gui_screen (CopyBackBufferToFramebuffer ?fb (ScreenRect ?fb)) s2 else s2)"
  have eq: "gui_screen (snd (ComposeDesktop s)) = PaintCursor ?fb (g_CursorKind s3) (g_MouseX s3) (g_MouseY s3) (gui_screen s3)"
    by (simp add: ComposeDesktop_def Let_def s1_def s2_def s3_def AdvanceDesktopTransitions_def)
  have 1: "writes_inside ?fb (gui_screen s) (gui_screen s1)"
    by (simp add: s1_def writes_inside_def BeginDrawToBackBuffer_def BeginDrawToFramebuffer_def)
  have "to_back (gui_screen s1) \<Longrightarrow> ?ready \<and> g_DrawStride (gui_screen s1) = kBackBufferMaxWidth"
    by (cases ?ready) (simp_all add: s1_def BeginDrawToBackBuffer_def BeginDrawToFramebuffer_def)
  then have "to_back (gui_screen s1) \<Longrightarrow> g_DrawStride (gui_screen s1) = kBackBufferMaxWidth \<and>
      fb_width ?fb \<le> kBackBufferMaxWidth \<and> fb_height ?fb \<le> kBackBufferMaxHeight" using assms by (simp add: back_fits_def)
  moreover have "g_Framebuffer s1 = ?fb" by (simp add: s1_def)
  ultimately have "writes_inside ?fb (gui_screen s1) (gui_screen (compose_contents s1))"
    using compose_contents_keeps(3)[of s1] by (intro paints_any_inside) simp_all
  then have 2: "writes_inside ?fb (gui_screen s1) (gui_screen s2)" by (simp add: s2_def writes_inside_def BeginDrawToFramebuffer_def)
  have 3: "writes_inside ?fb (gui_screen s2) (gui_screen s3)" by (simp add: s3_def CopyBackBuffer_inside)
  have "\<not> to_back (gui_screen s3)" by (simp add: s3_def s2_def BeginDrawToFramebuffer_def CopyBackBufferToFramebuffer_def Let_def)
  then have "writes_inside ?fb (gui_screen s3) (gui_screen (snd (ComposeDesktop s)))" unfolding eq by (rule PaintCursor_inside)
  then show ?thesis using 1 2 3 writes_inside_trans by blast
qed

text \<open>
  C22. Drawing the desktop writes only words of visible pixels of the frame buffer and entries of the back buffer array, wherever windows,
  texts, lines and the pointer reach: the back buffer has 2048 times 2048 entries and is used only on displays that fit it.
\<close>

theorem composition_stays_in_buffers:
  assumes "back_fits (g_Framebuffer s) (gui_screen s)"
  shows "writes_inside (g_Framebuffer s) (gui_screen s) (gui_screen (snd (ComposeDesktop s)))"
  using assms by (rule composed_inside)

theorem composition_stays_in_buffers_witness:
  "\<forall>s :: Gui. let t = s\<lparr>g_Framebuffer := \<lparr>fb_base_address = 1, fb_width = 1024, fb_height = 768, fb_pixels_per_scanline = 1024, fb_format = 1\<rparr>\<rparr> in
     writes_inside (g_Framebuffer t) (gui_screen t) (gui_screen (snd (ComposeDesktop t)))"
  unfolding Let_def
  by (intro allI composition_stays_in_buffers) (simp add: back_fits_def kBackBufferMaxWidth_def kBackBufferMaxHeight_def)

end
