(* ===== verification/GuiEvents.thy ===== *)
theory GuiEvents
  imports GuiRender
begin

text \<open>
  \<^verbatim>\<open>kernel/src/gui.cpp\<close>: the pointer, clicks, keys, the dispatch of events and the event queue.

  The self-tests between the start of the window manager and the first composition are not modelled: \<open>gui_start\<close> is the part of
  \<open>KernelGuiInit\<close> before them, \<open>gui_finish\<close> the part behind.
\<close>

subsection \<open>The pointer\<close>

definition clamp_coord :: "i32 \<Rightarrow> u32 \<Rightarrow> i32" where
  "clamp_coord v limit = (if sint v < 0 then 0 else if sint v \<ge> sint limit then limit - 1 else v)"

definition ClampMouseToScreen :: "'a Gui_scheme \<Rightarrow> 'a Gui_scheme" where
  "ClampMouseToScreen s = s\<lparr>g_MouseX := clamp_coord (g_MouseX s) (fb_width (g_Framebuffer s)),
     g_MouseY := clamp_coord (g_MouseY s) (fb_height (g_Framebuffer s))\<rparr>"

definition set_mouse :: "i32 \<Rightarrow> i32 \<Rightarrow> 'a Gui_scheme \<Rightarrow> 'a Gui_scheme" where
  "set_mouse x y s = ClampMouseToScreen (s\<lparr>g_MouseX := x, g_MouseY := y\<rparr>)"

fun taskbar_hit :: "u8 \<Rightarrow> i32 \<Rightarrow> i32 \<Rightarrow> i32 \<Rightarrow> i32 \<Rightarrow> nat \<Rightarrow> Window list \<Rightarrow> int" where
  "taskbar_hit desktop x y button_x button_y i [] = -1"
| "taskbar_hit desktop x y button_x button_y i (w # ws) =
     (if \<not> w_visible w \<or> w_desktop w \<noteq> desktop then taskbar_hit desktop x y button_x button_y (Suc i) ws
      else
        let button_width = (if w_app w = TerminalEmulator then 112 else 156) in
        if PointInRect x y (rect button_x button_y button_width 26) then int i
        else taskbar_hit desktop x y (button_x + (button_width + 10)) button_y (Suc i) ws)"

definition FindTaskbarWindowAt :: "i32 \<Rightarrow> i32 \<Rightarrow> 'a Desk_scheme \<Rightarrow> int" where
  "FindTaskbarWindowAt x y s =
     (let h = fb_height (g_Framebuffer s) in
      if sint y < sint (h - kTaskBarHeight + 36) then -1
      else taskbar_hit (g_ActiveDesktop s) x y 18 (h - kTaskBarHeight + 40) 0 (g_Windows s))"

fun launcher_hit :: "i32 \<Rightarrow> i32 \<Rightarrow> i32 \<Rightarrow> i32 \<Rightarrow> ApplicationDescriptor list \<Rightarrow> ApplicationDescriptor option" where
  "launcher_hit x y button_x launcher_y [] = None"
| "launcher_hit x y button_x launcher_y (d # ds) =
     (if PointInRect x y (rect button_x launcher_y kLauncherButtonWidth kLauncherButtonHeight) then Some d
      else launcher_hit x y (button_x + (kLauncherButtonWidth + 8)) launcher_y ds)"

definition FindLauncherAppAt :: "i32 \<Rightarrow> i32 \<Rightarrow> 'a Desk_scheme \<Rightarrow> ApplicationDescriptor option" where
  "FindLauncherAppAt x y s =
     (let launcher_y = fb_height (g_Framebuffer s) - kTaskBarHeight + 8 in
      if sint y < sint launcher_y \<or> sint y \<ge> sint (launcher_y + kLauncherButtonHeight) then None
      else launcher_hit x y 18 launcher_y kApplications)"

definition UpdateHoverState :: "'a Gui_scheme \<Rightarrow> 'a Gui_scheme" where
  "UpdateHoverState s0 =
     (let x = g_MouseX s0; y = g_MouseY s0;
          s = s0\<lparr>g_HoveredWindowIndex := FindTopWindowAt x y False s0, g_HoveredControl := ControlNone, g_CursorKind := Arrow\<rparr> in
      if FindLauncherAppAt x y s \<noteq> None \<or> FindTaskbarWindowAt x y s \<ge> 0 then s\<lparr>g_CursorKind := Hand\<rparr>
      else if g_HoveredWindowIndex s < 0 then s
      else
        let w = g_Windows s ! nat (g_HoveredWindowIndex s); control = HitWindowControl x y w; s1 = s\<lparr>g_HoveredControl := control\<rparr> in
        if control \<noteq> ControlNone then s1\<lparr>g_CursorKind := Hand\<rparr>
        else if PointInTitleBar x y w then s1\<lparr>g_CursorKind := MoveCursor\<rparr>
        else s1)"

definition MoveCursorOnly :: "i32 \<Rightarrow> i32 \<Rightarrow> 'a Gui_scheme \<Rightarrow> 'a Gui_scheme" where
  "MoveCursorOnly x y s =
     (let fb = g_Framebuffer s; s1 = UpdateHoverState (set_mouse x y (on_gui_screen (RestoreCursorBackground fb) s))
      in on_gui_screen (PaintCursor fb (g_CursorKind s1) (g_MouseX s1) (g_MouseY s1)) s1)"

subsection \<open>Clicks and keys\<close>

definition calculator_keys :: "string list" where
  "calculator_keys = [''789/'', ''456*'', ''123-'', ''C0=+'']"

definition click_contents :: "GuiEnv \<Rightarrow> i32 \<Rightarrow> i32 \<Rightarrow> nat \<Rightarrow> 'a Gui_scheme \<Rightarrow> 'a Gui_scheme" where
  "click_contents env x y index s =
     (let w = g_Windows s ! index; content_x = r_x (w_bounds w) + 18; content_y = r_y (w_bounds w) + kTitleBarHeight + 18 in
      case w_app w of
        Calculator \<Rightarrow>
          (let local_x = x - content_x; local_y = y - (content_y + 30); col = local_x div 34; row = local_y div 28 in
           if sint local_x \<ge> 0 \<and> sint local_y \<ge> 0 \<and> row < 4 \<and> col < 4
           then snd (CalculatorHandleKey (char_key (calculator_keys ! unat row ! unat col)) s) else s)
      | FileManager \<Rightarrow>
          if sint y < sint (content_y + 48) then snd (FileManagerBack s) else snd (FileManagerOpenPath env (Some ''/tmp'') s)
      | TaskManager \<Rightarrow> snd (TaskManagerKillFocusedApp s)
      | _ \<Rightarrow> s)"

definition HandleMouseClick :: "GuiEnv \<Rightarrow> i32 \<Rightarrow> i32 \<Rightarrow> u32 \<Rightarrow> 'a Gui_scheme \<Rightarrow> 'a Gui_scheme" where
  "HandleMouseClick env x y button s =
     (if button \<noteq> 0 then s
      else case FindLauncherAppAt x y s of
        Some d \<Rightarrow> snd (LaunchApplicationById env (Some (ad_id d)) s)
      | None \<Rightarrow>
          let taskbar_index = FindTaskbarWindowAt x y s; window_index = FindTopWindowAt x y False s in
          if taskbar_index \<ge> 0 then RestoreWindowFromTaskbar (nat taskbar_index) s
          else if window_index < 0 then s
          else
            let control = HitWindowControl x y (g_Windows s ! nat window_index);
                s1 = snd (FocusWindow (nat window_index) s); focused = g_ActiveWindowIndex s1
            in if focused < 0 then s1
               else case control of
                 ControlClose \<Rightarrow> CloseWindow (nat focused) s1
               | ControlMinimize \<Rightarrow> MinimizeWindow (nat focused) s1
               | ControlMaximize \<Rightarrow> ToggleMaximizeWindow (nat focused) s1
               | ControlNone \<Rightarrow> click_contents env x y (nat focused) s1)"

definition file_manager_key :: "GuiEnv \<Rightarrow> u32 \<Rightarrow> 'a AppDesk_scheme \<Rightarrow> bool \<times> 'a AppDesk_scheme" where
  "file_manager_key env key s =
     (let selected = Some (fm_selected_path (g_FileManager s)) in
      if key_is key ''b'' then FileManagerBack s
      else if key_is key ''f'' then FileManagerForward s
      else if key_is key ''n'' then FileManagerCreateFolder ''new-folder'' s
      else if key_is key ''r'' then NativeFileRename (Some ''/tmp/readme'') (Some ''/tmp/readme-renamed'') s
      else if key_is key ''c'' then FileManagerCopySelected (Some ''/tmp/readme-copy'') s
      else if key_is key ''m'' then FileManagerMoveSelected (Some ''/tmp/readme-moved'') s
      else if key_is key ''d'' then NativeFileDelete selected s
      else if key = 10 \<or> key = 13 then FileManagerOpenPath env selected s
      else (False, s))"

definition DispatchKeyToFocusedApp :: "GuiEnv \<Rightarrow> u32 \<Rightarrow> u32 \<Rightarrow> 'a AppDesk_scheme \<Rightarrow> bool \<times> 'a AppDesk_scheme" where
  "DispatchKeyToFocusedApp env key modifiers s =
     (if g_ActiveWindowIndex s < 0 then (False, s)
      else case w_app (g_Windows s ! nat (g_ActiveWindowIndex s)) of
        TerminalEmulator \<Rightarrow> TerminalHandleKey key modifiers s
      | TextEditor \<Rightarrow> TextEditorHandleKey key modifiers s
      | Calculator \<Rightarrow> CalculatorHandleKey key s
      | Settings \<Rightarrow> SettingsHandleKey key s
      | FileManager \<Rightarrow> file_manager_key env key s
      | TaskManager \<Rightarrow> if key_is key ''kK'' \<or> key = 127 then TaskManagerKillFocusedApp s else (False, s)
      | _ \<Rightarrow> (False, s))"

subsection \<open>Events\<close>

definition restore_cursor :: "'a Gui_scheme \<Rightarrow> 'a Gui_scheme" where
  "restore_cursor s = on_gui_screen (RestoreCursorBackground (g_Framebuffer s)) s"

definition redraw :: "'a Gui_scheme \<Rightarrow> 'a Gui_scheme" where
  "redraw s = snd (ComposeDesktop s)"

text \<open>The common body of a move with the button down and of a drag event.\<close>

definition drag_window :: "GuiEvent \<Rightarrow> 'a Gui_scheme \<Rightarrow> 'a Gui_scheme" where
  "drag_window e s =
     (let fb = g_Framebuffer s; i = nat (g_DragWindowIndex s);
          old_window_rect = WindowVisualRect fb (g_Windows s ! i); old_cursor_rect = CursorRectAt fb (g_MouseX s) (g_MouseY s);
          s1 = (set_mouse (ge_x e) (ge_y e) (restore_cursor s))\<lparr>g_Dragging := True\<rparr>;
          s2 = MoveWindow i (g_MouseX s1 - g_DragOffsetX s1) (g_MouseY s1 - g_DragOffsetY s1) s1;
          new_window_rect = WindowVisualRect fb (g_Windows s2 ! i); new_cursor_rect = CursorRectAt fb (g_MouseX s2) (g_MouseY s2)
      in RedrawDirtyRegion (UnionRect (UnionRect old_window_rect new_window_rect) (UnionRect old_cursor_rect new_cursor_rect)) (UpdateHoverState s2))"

text \<open>A left button going down: focus the window below and start a drag, unless a control or a maximised window is hit.\<close>

definition press_window :: "'a Gui_scheme \<Rightarrow> 'a Gui_scheme" where
  "press_window s =
     (let x = g_MouseX s; y = g_MouseY s; front_window = FindTopWindowAt x y False s;
          s1 = s\<lparr>g_MouseDownX := x, g_MouseDownY := y, g_MouseDownWindowIndex := front_window,
             g_DragWindowIndex := FindTopWindowAt x y True s, g_Dragging := False\<rparr>;
          s2 = (if front_window \<ge> 0 then
                  let t = snd (FocusWindow (nat front_window) s1) in
                  if g_DragWindowIndex t = front_window then t\<lparr>g_DragWindowIndex := int (window_count t) - 1\<rparr> else t
                else s1)
      in if g_DragWindowIndex s2 \<ge> 0 then
           let w = g_Windows s2 ! nat (g_DragWindowIndex s2) in
           if HitWindowControl x y w \<noteq> ControlNone \<or> w_maximized w then s2\<lparr>g_DragWindowIndex := -1\<rparr>
           else s2\<lparr>g_DragOffsetX := x - r_x (w_bounds w), g_DragOffsetY := y - r_y (w_bounds w)\<rparr>
         else s2)"

definition mouse_up :: "GuiEnv \<Rightarrow> GuiEvent \<Rightarrow> 'a Gui_scheme \<Rightarrow> 'a Gui_scheme" where
  "mouse_up env e s0 =
     (let s = set_mouse (ge_x e) (ge_y e) (restore_cursor s0);
          dx = sint (g_MouseX s - g_MouseDownX s); dy = sint (g_MouseY s - g_MouseDownY s);
          s1 = (if g_LeftButtonDown s \<and> \<not> g_Dragging s \<and> dx > -3 \<and> dx < 3 \<and> dy > -3 \<and> dy < 3
                then HandleMouseClick env (g_MouseX s) (g_MouseY s) (ge_button e) s else s);
          i = nat (g_DragWindowIndex s1);
          s2 = (if g_Dragging s1 \<and> g_DragWindowIndex s1 \<ge> 0 then
                  if sint (g_MouseY s1) \<le> sint (kTopBarHeight + 8) then snd (SnapWindow i SnapTop s1)
                  else if sint (g_MouseX s1) \<le> 8 then snd (SnapWindow i SnapLeft s1)
                  else if sint (g_MouseX s1) \<ge> sint (fb_width (g_Framebuffer s1) - 8) then snd (SnapWindow i SnapRight s1)
                  else s1
                else s1)
      in redraw (UpdateHoverState (s2\<lparr>g_LeftButtonDown := False, g_DragWindowIndex := -1, g_MouseDownWindowIndex := -1, g_Dragging := False\<rparr>)))"

definition mouse_wheel :: "i32 \<Rightarrow> 'a Gui_scheme \<Rightarrow> 'a Gui_scheme" where
  "mouse_wheel delta s =
     UpdateHoverState
      (if g_ActiveWindowIndex s \<ge> 0 \<and> w_app (g_Windows s ! nat (g_ActiveWindowIndex s)) = TerminalEmulator then
         let moved = g_TerminalScrollOffset s + delta; offset = (if sint moved < 0 then 0 else moved); n = length (g_TerminalLines s) in
         s\<lparr>g_TerminalScrollOffset := (if n > kVisibleTerminalLines then (if sint offset > sint (max_scroll n) then max_scroll n else offset) else 0)\<rparr>
       else if g_ActiveWindowIndex s \<ge> 0 \<and> w_app (g_Windows s ! nat (g_ActiveWindowIndex s)) = TextEditor then
         let e = g_TextEditor s in
         s\<lparr>g_TextEditor := e\<lparr>te_scroll_line :=
            (if sint delta > 0 then te_scroll_line e + delta
             else if sint delta < 0 then (if - delta > te_scroll_line e then 0 else te_scroll_line e - (- delta)) else te_scroll_line e)\<rparr>\<rparr>
       else s)"

definition DispatchEvent :: "GuiEnv \<Rightarrow> GuiEvent \<Rightarrow> 'a Gui_scheme \<Rightarrow> 'a Gui_scheme" where
  "DispatchEvent env e s =
     (case ge_type e of
        MouseMove \<Rightarrow> if g_LeftButtonDown s \<and> g_DragWindowIndex s \<ge> 0 then drag_window e s else MoveCursorOnly (ge_x e) (ge_y e) s
      | MouseDown \<Rightarrow>
          let s1 = set_mouse (ge_x e) (ge_y e) ((restore_cursor s)\<lparr>g_LeftButtonDown := ge_button e = 0\<rparr>)
          in redraw (UpdateHoverState (if g_LeftButtonDown s1 then press_window s1 else s1))
      | MouseUp \<Rightarrow> mouse_up env e s
      | MouseWheel \<Rightarrow> mouse_wheel (ge_key e) s
      | Click \<Rightarrow>
          let s1 = set_mouse (ge_x e) (ge_y e) (restore_cursor s)
          in redraw (UpdateHoverState (HandleMouseClick env (g_MouseX s1) (g_MouseY s1) (ge_button e) s1))
      | Drag \<Rightarrow> if g_LeftButtonDown s \<and> g_DragWindowIndex s \<ge> 0 then drag_window e s else s
      | Paint \<Rightarrow> redraw s
      | ResizeEvent \<Rightarrow>
          let i = FindTopWindowAt (ge_x e) (ge_y e) False s
          in redraw (if i \<ge> 0 then snd (ResizeWindow (nat i) (ge_button e) (ge_key e) s) else s)
      | DoubleClick \<Rightarrow>
          let i = FindTopWindowAt (ge_x e) (ge_y e) True s in redraw (if i \<ge> 0 then ToggleMaximizeWindow (nat i) s else s)
      | KeyDown \<Rightarrow>
          let (handled, s1) = DispatchKeyToFocusedApp env (ge_key e) (ge_button e) s in
          if handled then redraw s1
          else if 49 \<le> ge_key e \<and> ge_key e \<le> 52 then
            (let (ok, s2) = SwitchVirtualDesktop (ucast (ge_key e - 49)) s1 in if ok then redraw s2 else s2)
          else s1
      | _ \<Rightarrow> s)"

subsection \<open>The queue\<close>

definition KernelGuiPostEvent :: "GuiEvent \<Rightarrow> 'a Gui_scheme \<Rightarrow> bool \<times> 'a Gui_scheme" where
  "KernelGuiPostEvent e s =
     (if \<not> gs_event_queue_ready (g_Status s) \<or> g_EventCount s \<ge> kEventQueueCapacity then (False, s)
      else (True, s\<lparr>g_EventQueue := (g_EventQueue s)[g_EventWriteIndex s := e],
              g_EventWriteIndex := (g_EventWriteIndex s + 1) mod kEventQueueCapacity, g_EventCount := g_EventCount s + 1,
              g_Status := (g_Status s)\<lparr>gs_queued_events := g_EventCount s + 1\<rparr>\<rparr>))"

definition KernelGuiPollEvent :: "'a Gui_scheme \<Rightarrow> GuiEvent option \<times> 'a Gui_scheme" where
  "KernelGuiPollEvent s =
     (if \<not> gs_event_queue_ready (g_Status s) \<or> g_EventCount s = 0 then (None, s)
      else (Some (g_EventQueue s ! g_EventReadIndex s), s\<lparr>g_EventReadIndex := (g_EventReadIndex s + 1) mod kEventQueueCapacity,
              g_EventCount := g_EventCount s - 1, g_Status := (g_Status s)\<lparr>gs_queued_events := g_EventCount s - 1\<rparr>\<rparr>))"

text \<open>No event posts events, so the loop ends after as many rounds as events are queued.\<close>

fun pump :: "nat \<Rightarrow> GuiEnv \<Rightarrow> 'a Gui_scheme \<Rightarrow> 'a Gui_scheme option" where
  "pump 0 env s = None"
| "pump (Suc n) env s =
     (case KernelGuiPollEvent s of (None, s1) \<Rightarrow> Some s1 | (Some e, s1) \<Rightarrow> pump n env (DispatchEvent env e s1))"

definition KernelGuiPumpEvents :: "GuiEnv \<Rightarrow> 'a Gui_scheme \<Rightarrow> 'a Gui_scheme option" where
  "KernelGuiPumpEvents env s = pump (g_EventCount s + 1) env s"

definition KernelGuiRenderNow :: "'a Gui_scheme \<Rightarrow> 'a Gui_scheme" where
  "KernelGuiRenderNow s =
     (if gs_window_manager_ready (g_Status s) then
        let (ok, s1) = ComposeDesktop s
        in s1\<lparr>g_Status := (g_Status s1)\<lparr>gs_compositor_ready := ok, gs_desktop_ready := ok \<and> gs_window_manager_ready (g_Status s1)\<rparr>\<rparr>
      else s)"

subsection \<open>Start and report\<close>

definition ResetGuiStatus :: "'a Gui_scheme \<Rightarrow> 'a Gui_scheme" where
  "ResetGuiStatus s =
     InitNativeAppState (s\<lparr>
       g_Status := \<lparr>gs_window_manager_ready = False, gs_compositor_ready = False, gs_desktop_ready = False, gs_event_queue_ready = False,
         gs_mouse_ready = False, gs_queued_events = 0\<rparr>,
       g_Framebuffer := \<lparr>fb_base_address = 0, fb_width = 0, fb_height = 0, fb_pixels_per_scanline = 0, fb_format = 0\<rparr>,
       g_EventReadIndex := 0, g_EventWriteIndex := 0, g_EventCount := 0,
       gui_screen := (gui_screen s)\<lparr>to_back := False, g_DrawStride := 0, g_ClipRect := rect 0 0 0 0, g_ClipEnabled := False,
         g_BackBufferReady := False, cb_x := 0, cb_y := 0, cb_valid := False\<rparr>,
       g_MouseX := 0, g_MouseY := 0, g_LeftButtonDown := False, g_DragWindowIndex := -1, g_DragOffsetX := 0, g_DragOffsetY := 0,
       g_MouseDownWindowIndex := -1, g_MouseDownX := 0, g_MouseDownY := 0, g_Dragging := False, g_ActiveDesktop := 0,
       g_ActiveWindowIndex := -1, g_DebugFullRedraw := True, g_TerminalScrollOffset := 0, g_Windows := [],
       g_AppPlacements := replicate kMaxWindows \<lparr>ap_app = FileManager, ap_last_bounds = rect 0 0 0 0, ap_valid = False\<rparr>,
       g_AppRuntimes := replicate kApplicationCapacity \<lparr>ar_app = FileManager, ar_state = NotRunning, ar_process_id = 0, ar_thread_id = 0,
         ar_launch_count = 0, ar_missed_heartbeat_count = 0, ar_transition_ticks = 0, ar_valid = False\<rparr>,
       g_HoveredControl := ControlNone, g_HoveredWindowIndex := -1, g_CursorKind := Arrow, g_TerminalLines := [], g_TerminalCwd := ''/'',
       g_TerminalRebootRequested := False, g_TerminalShutdownRequested := False, g_TerminalHistory := [], g_TerminalHistoryCursor := -1,
       g_NotificationText := None, g_NotificationColor := th_text_muted kTheme\<rparr>)"

definition gui_start :: "GuiEnv \<Rightarrow> FramebufferInfo \<Rightarrow> 'a Gui_scheme \<Rightarrow> bool \<times> 'a Gui_scheme" where
  "gui_start env fb s0 =
     (let s = ResetGuiStatus s0 in
      if \<not> FramebufferValid fb then (False, gui_log Warn ''GUI framebuffer unavailable'' s)
      else
        let s1 = on_gui_screen (\<lambda>c. c\<lparr>g_BackBufferReady := fb_width fb \<le> kBackBufferMaxWidth \<and> fb_height fb \<le> kBackBufferMaxHeight\<rparr>)
              (s\<lparr>g_Framebuffer := fb, g_MouseX := fb_width fb div 2, g_MouseY := fb_height fb div 2,
                 g_Status := (g_Status s)\<lparr>gs_event_queue_ready := True, gs_mouse_ready := True\<rparr>\<rparr>);
            (ok, s2) = InitWindowManager env s1;
            s3 = s2\<lparr>g_Status := (g_Status s2)\<lparr>gs_window_manager_ready := ok\<rparr>\<rparr>
        in if \<not> ok then (False, gui_log Warn ''GUI window manager init failed'' s3) else (True, s3))"

definition gui_finish :: "'a Gui_scheme \<Rightarrow> bool \<times> 'a Gui_scheme" where
  "gui_finish s =
     (let (ok, s1) = ComposeDesktop (UpdateHoverState (SeedTerminalTranscript s));
          ready = gs_window_manager_ready (g_Status s1);
          s2 = gui_log Info ''Phase 10 GUI initialized'' (s1\<lparr>g_Status := (g_Status s1)\<lparr>gs_compositor_ready := ok, gs_desktop_ready := ok \<and> ready\<rparr>\<rparr>)
      in (ready \<and> ok, s2))"

definition gui_info_line :: "bool \<Rightarrow> string \<Rightarrow> string \<Rightarrow> 'a Desk_scheme \<Rightarrow> 'a Desk_scheme" where
  "gui_info_line ok yes no s = gui_log (if ok then Info else Warn) (if ok then yes else no) s"

definition PrintGuiInfo :: "'a Gui_scheme \<Rightarrow> 'a Gui_scheme" where
  "PrintGuiInfo s =
     (let t = g_Status s in
      gui_info_line (gs_mouse_ready t) ''GUI mouse state ready'' ''GUI mouse state unavailable''
       (gui_info_line (gs_event_queue_ready t) ''GUI event queue ready'' ''GUI event queue unavailable''
        (gui_info_line (gs_desktop_ready t) ''Desktop environment ready'' ''Desktop environment unavailable''
         (gui_info_line (gs_compositor_ready t) ''Compositor rendered desktop'' ''Compositor unavailable''
          (gui_info_line (gs_window_manager_ready t) ''Window manager ready'' ''Window manager unavailable'' s)))))"

subsection \<open>Events keep the invariant of the desktop\<close>

lemma gui_updates_desk [simp]:
  "desk_ok (s\<lparr>g_MouseX := a\<rparr>) = desk_ok s" "desk_ok (s\<lparr>g_MouseY := a\<rparr>) = desk_ok s" "desk_ok (s\<lparr>g_Dragging := b\<rparr>) = desk_ok s"
  "desk_ok (s\<lparr>g_LeftButtonDown := b\<rparr>) = desk_ok s" "desk_ok (s\<lparr>g_DragOffsetX := a\<rparr>) = desk_ok s" "desk_ok (s\<lparr>g_DragOffsetY := a\<rparr>) = desk_ok s"
  "desk_ok (s\<lparr>g_MouseDownX := a\<rparr>) = desk_ok s" "desk_ok (s\<lparr>g_MouseDownY := a\<rparr>) = desk_ok s"
  "desk_ok (s\<lparr>g_HoveredControl := c\<rparr>) = desk_ok s" "desk_ok (s\<lparr>g_HoveredWindowIndex := i\<rparr>) = desk_ok s"
  "desk_ok (s\<lparr>g_CursorKind := k\<rparr>) = desk_ok s" "desk_ok (s\<lparr>g_Status := st\<rparr>) = desk_ok s"
  for s :: "'a Gui_scheme"
  by (simp_all add: desk_ok_def desk_pre_def)

lemma app_updates_desk [simp]:
  "desk_ok (s\<lparr>g_TerminalScrollOffset := a\<rparr>) = desk_ok s" "desk_ok (s\<lparr>g_TextEditor := e\<rparr>) = desk_ok s"
  "desk_ok (s\<lparr>g_TerminalSession := u\<rparr>) = desk_ok s"
  for s :: "'a AppDesk_scheme"
  by (simp_all add: desk_ok_def desk_pre_def)

lemma screen_desk [simp]: "desk_ok (on_gui_screen f s) = desk_ok s" "desk_ok (restore_cursor s) = desk_ok s"
  by (simp_all add: on_gui_screen_def restore_cursor_def desk_ok_def desk_pre_def)

lemma set_mouse_desk [simp]: "desk_ok (set_mouse x y s) = desk_ok s"
  by (simp add: set_mouse_def ClampMouseToScreen_def)

lemma UpdateHoverState_desk [simp]: "desk_ok (UpdateHoverState s) = desk_ok s"
  by (simp add: UpdateHoverState_def Let_def)

lemma top_where_index: "index_ok (top_where P ws (length ws)) ws"
  using top_where_cases[of P ws "length ws"] by (auto simp: index_ok_def)

lemma desk_ok_drag: "desk_ok s \<Longrightarrow> index_ok i (g_Windows s) \<Longrightarrow> desk_ok (s\<lparr>g_DragWindowIndex := i\<rparr>)"
  by (simp add: desk_ok_def desk_pre_def)

lemma desk_ok_mouse_down: "desk_ok s \<Longrightarrow> index_ok i (g_Windows s) \<Longrightarrow> desk_ok (s\<lparr>g_MouseDownWindowIndex := i\<rparr>)"
  by (simp add: desk_ok_def desk_pre_def)

lemma index_ok_none [simp]: "index_ok (-1) ws"
  by (simp add: index_ok_def)

lemma click_contents_ok: "desk_ok s \<Longrightarrow> desk_ok (click_contents env x y i s)"
  using desk_fields_ok[OF small_apps_desk(1)] desk_fields_ok[OF file_manager_moves_desk(1)]
  by (auto simp: click_contents_def Let_def desk_fields_ok[OF small_apps_desk(1)] desk_fields_ok[OF file_manager_moves_desk(1)]
      intro: FileManagerOpenPath_ok TaskManagerKillFocusedApp_ok split: AppKind.split)

lemma HandleMouseClick_ok: "desk_ok s \<Longrightarrow> desk_ok (HandleMouseClick env x y b s)"
  by (auto simp: HandleMouseClick_def Let_def intro: LaunchApplicationById_ok RestoreWindowFromTaskbar_ok FocusWindow_keeps_ok CloseWindow_ok
      MinimizeWindow_ok ToggleMaximizeWindow_ok click_contents_ok split: option.split WindowControl.split)

lemma file_manager_key_ok: "desk_ok s \<Longrightarrow> desk_ok (snd (file_manager_key env key s))"
  unfolding file_manager_key_def Let_def
  by (simp add: desk_fields_ok[OF file_manager_moves_desk(1)] desk_fields_ok[OF file_manager_moves_desk(2)] desk_fields_ok[OF FileManagerCreateFolder_desk]
      desk_fields_ok[OF file_ops_desk(2)] desk_fields_ok[OF FileManagerCopySelected_desk] desk_fields_ok[OF FileManagerMoveSelected_desk]
      desk_fields_ok[OF file_ops_desk(3)] FileManagerOpenPath_ok)

lemma DispatchKey_ok: "desk_ok s \<Longrightarrow> desk_ok (snd (DispatchKeyToFocusedApp env key m s))"
  by (simp add: DispatchKeyToFocusedApp_def TerminalHandleKey_desk_ok desk_fields_ok[OF TextEditorHandleKey_desk] desk_fields_ok[OF small_apps_desk(1)]
      desk_fields_ok[OF small_apps_desk(2)] file_manager_key_ok TaskManagerKillFocusedApp_ok split: AppKind.split)

lemma redraw_ok: "desk_ok s \<Longrightarrow> desk_ok (redraw s)"
  by (simp add: redraw_def ComposeDesktop_ok)

lemma MoveCursorOnly_ok: "desk_ok s \<Longrightarrow> desk_ok (MoveCursorOnly x y s)"
  by (simp add: MoveCursorOnly_def Let_def)

lemma drag_window_ok: "desk_ok s \<Longrightarrow> desk_ok (drag_window e s)"
  by (auto simp: drag_window_def Let_def intro!: RedrawDirtyRegion_ok MoveWindow_ok)

lemma press_window_ok:
  assumes ok: "desk_ok s"
  shows "desk_ok (press_window s)"
proof -
  let ?x = "g_MouseX s" and ?y = "g_MouseY s"
  define s1 where "s1 = s\<lparr>g_MouseDownX := ?x, g_MouseDownY := ?y, g_MouseDownWindowIndex := FindTopWindowAt ?x ?y False s,
     g_DragWindowIndex := FindTopWindowAt ?x ?y True s, g_Dragging := False\<rparr>"
  have s1: "desk_ok s1"
    using ok top_where_index by (simp add: s1_def desk_ok_def desk_pre_def FindTopWindowAt_def window_count_def)
  define s2 where "s2 = (if FindTopWindowAt ?x ?y False s \<ge> 0 then
      let t = snd (FocusWindow (nat (FindTopWindowAt ?x ?y False s)) s1) in
      if g_DragWindowIndex t = FindTopWindowAt ?x ?y False s then t\<lparr>g_DragWindowIndex := int (window_count t) - 1\<rparr> else t
    else s1)"
  have "desk_ok s2"
    using s1 FocusWindow_keeps_ok[OF s1] by (auto simp: s2_def Let_def index_ok_def window_count_def intro: desk_ok_drag)
  moreover have "press_window s = (if g_DragWindowIndex s2 \<ge> 0 then
           let w = g_Windows s2 ! nat (g_DragWindowIndex s2) in
           if HitWindowControl ?x ?y w \<noteq> ControlNone \<or> w_maximized w then s2\<lparr>g_DragWindowIndex := -1\<rparr>
           else s2\<lparr>g_DragOffsetX := ?x - r_x (w_bounds w), g_DragOffsetY := ?y - r_y (w_bounds w)\<rparr>
         else s2)"
    by (simp only: press_window_def Let_def s2_def s1_def)
  ultimately show ?thesis by (simp add: Let_def desk_ok_drag)
qed

lemma mouse_up_ok:
  assumes ok: "desk_ok s"
  shows "desk_ok (mouse_up env e s)"
proof -
  have reset: "desk_ok (t\<lparr>g_LeftButtonDown := False, g_DragWindowIndex := -1, g_MouseDownWindowIndex := -1\<rparr>)"
    if "desk_ok t" for t :: "'a Gui_scheme" using that by (simp add: desk_ok_def desk_pre_def)
  define t where "t = set_mouse (ge_x e) (ge_y e) (restore_cursor s)"
  have t: "desk_ok t" "desk_ok (HandleMouseClick env (g_MouseX t) (g_MouseY t) (ge_button e) t)"
    using ok by (simp_all add: t_def HandleMouseClick_ok)
  show ?thesis
    unfolding mouse_up_def t_def[symmetric] Let_def using t by (intro redraw_ok) (simp add: reset SnapWindow_ok)
qed

lemma mouse_wheel_ok: "desk_ok s \<Longrightarrow> desk_ok (mouse_wheel d s)"
  by (simp add: mouse_wheel_def Let_def)

lemma DispatchEvent_ok:
  assumes ok: "desk_ok s"
  shows "desk_ok (DispatchEvent env e s)"
proof -
  have key: "desk_ok (snd (DispatchKeyToFocusedApp env k m s))" for k m using DispatchKey_ok[OF ok] .
  have switch: "desk_ok (snd (SwitchVirtualDesktop d (snd (DispatchKeyToFocusedApp env k m s))))" for d k m
    using SwitchVirtualDesktop_keeps_ok[OF key] .
  show ?thesis
  proof (cases "ge_type e")
    case KeyDown
    then show ?thesis using key switch by (simp add: DispatchEvent_def split_beta redraw_ok)
  next
    case MouseDown
    then show ?thesis using ok by (simp add: DispatchEvent_def Let_def redraw_ok press_window_ok)
  qed (simp_all add: DispatchEvent_def Let_def ok drag_window_ok MoveCursorOnly_ok mouse_up_ok mouse_wheel_ok redraw_ok HandleMouseClick_ok
      ResizeWindow_ok ToggleMaximizeWindow_ok)
qed

lemma InitNativeAppState_desk: "desk_fields (InitNativeAppState s) = desk_fields s"
proof -
  have clear: "desk_fields (fold NativeFileClear is t) = desk_fields t" for "is" and t :: "'a AppDesk_scheme"
    by (induction "is" arbitrary: t) simp_all
  have add: "desk_fields (fold (\<lambda>(path, dir, content) s. snd (NativeFileAdd (Some path) dir (Some content) s)) fs t) = desk_fields t"
    for fs and t :: "'a AppDesk_scheme"
    by (induction fs arbitrary: t) (simp_all add: split_beta)
  have "desk_fields (t\<lparr>g_FileManager := m, g_TextEditor := e, g_Calculator := c, g_Settings := st, g_TerminalSession := u\<rparr>) = desk_fields t"
    for m e c st u and t :: "'a AppDesk_scheme" by (simp add: desk_fields_def Desk.truncate_def)
  then show ?thesis by (simp only: InitNativeAppState_def Let_def add clear)
qed

lemma InitWindowManager_ok:
  assumes "desk_ok (snd (InitApplicationRegistry s))"
  shows "desk_ok (snd (InitWindowManager env s))"
proof -
  let ?s1 = "snd (InitApplicationRegistry s)"
  let ?s2 = "snd (LaunchApplicationById env (Some ''files'') ?s1)"
  have "desk_ok (if b then snd (LaunchApplicationById env (Some ''term'') ?s2) else ?s2)" for b
    using LaunchApplicationById_ok[OF LaunchApplicationById_ok[OF assms]] LaunchApplicationById_ok[OF assms] by simp
  from FocusTopVisibleWindow_ok[OF desk_ok_pre[OF this]]
  show ?thesis unfolding InitWindowManager_def Let_def case_prod_beta snd_conv if_distrib[of snd] .
qed

lemma gui_start_ok:
  assumes "FramebufferValid fb"
  shows "desk_ok (snd (gui_start env fb s0))"
proof -
  let ?t = "on_gui_screen (\<lambda>c. c\<lparr>g_BackBufferReady := fb_width fb \<le> kBackBufferMaxWidth \<and> fb_height fb \<le> kBackBufferMaxHeight\<rparr>)
      ((ResetGuiStatus s0)\<lparr>g_Framebuffer := fb, g_MouseX := fb_width fb div 2, g_MouseY := fb_height fb div 2,
         g_Status := (g_Status (ResetGuiStatus s0))\<lparr>gs_event_queue_ready := True, gs_mouse_ready := True\<rparr>\<rparr>)"
  have reset: "g_Windows (ResetGuiStatus s0) = []" "g_DragWindowIndex (ResetGuiStatus s0) = -1" "g_MouseDownWindowIndex (ResetGuiStatus s0) = -1"
    "g_ActiveDesktop (ResetGuiStatus s0) = 0" "g_ActiveWindowIndex (ResetGuiStatus s0) = -1"
    "g_AppPlacements (ResetGuiStatus s0) = replicate kMaxWindows \<lparr>ap_app = FileManager, ap_last_bounds = rect 0 0 0 0, ap_valid = False\<rparr>"
    "length (g_AppRuntimes (ResetGuiStatus s0)) = kApplicationCapacity"
    unfolding ResetGuiStatus_def
    by (simp_all add: InitNativeAppState_desk[THEN arg_cong[where f = g_Windows], unfolded desk_fields_def Desk.truncate_def, simplified]
        InitNativeAppState_desk[THEN arg_cong[where f = g_DragWindowIndex], unfolded desk_fields_def Desk.truncate_def, simplified]
        InitNativeAppState_desk[THEN arg_cong[where f = g_MouseDownWindowIndex], unfolded desk_fields_def Desk.truncate_def, simplified]
        InitNativeAppState_desk[THEN arg_cong[where f = g_ActiveDesktop], unfolded desk_fields_def Desk.truncate_def, simplified]
        InitNativeAppState_desk[THEN arg_cong[where f = g_ActiveWindowIndex], unfolded desk_fields_def Desk.truncate_def, simplified]
        InitNativeAppState_desk[THEN arg_cong[where f = g_AppPlacements], unfolded desk_fields_def Desk.truncate_def, simplified]
        InitNativeAppState_desk[THEN arg_cong[where f = g_AppRuntimes], unfolded desk_fields_def Desk.truncate_def, simplified])
  have registry: "snd (InitApplicationRegistry ?t) = ?t\<lparr>g_AppRuntimes := map (\<lambda>d. \<lparr>ar_app = ad_app d, ar_state = NotRunning, ar_process_id = 0, ar_thread_id = 0,
      ar_launch_count = 0, ar_missed_heartbeat_count = 0, ar_transition_ticks = 0, ar_valid = True\<rparr>) kApplications\<rparr>"
    using reset(7) by (simp add: InitApplicationRegistry_def on_gui_screen_def kApplications_def kApplicationCapacity_def)
  have "desk_ok (snd (InitApplicationRegistry ?t))"
    unfolding registry using assms reset
    by (simp add: on_gui_screen_def desk_ok_def desk_pre_def placed_def apps_ok_def placements_ok_def runtimes_ok_def focus_ok_def
        kVirtualDesktopCount_def list_all_iff)
  then have "desk_ok (snd (InitWindowManager env ?t))" by (rule InitWindowManager_ok)
  then show ?thesis using assms by (simp add: gui_start_def Let_def split_beta)
qed



subsection \<open>The taskbar that is drawn is the one that is hit\<close>

lemma taskbar_hit_buttons:
  "taskbar_hit d x y bx by i ws =
    (case find (\<lambda>(_, r). PointInRect x y r) (taskbar_buttons d bx by i ws) of None \<Rightarrow> -1 | Some (k, _) \<Rightarrow> int k)"
  by (induction ws arbitrary: bx i) (simp_all add: Let_def)

lemma taskbar_agrees:
  assumes "FramebufferValid (g_Framebuffer s)" "fb_height (g_Framebuffer s) < 0x7FFFFFFF"
  shows "FindTaskbarWindowAt x y s =
    (case find (\<lambda>(_, r). PointInRect x y r) (taskbar_layout s) of None \<Rightarrow> -1 | Some (k, _) \<Rightarrow> int k)"
proof -
  let ?h = "fb_height (g_Framebuffer s)"
  have h: "unat ?h \<ge> 200" "unat ?h < 2147483647"
    using assms by (simp_all add: FramebufferValid_def word_le_nat_alt word_less_nat_alt)
  have "?h - 78 + 36 = ?h - 42" "?h - 78 + 40 = ?h - 38" by simp_all
  moreover have "unat (?h - 42) = unat ?h - 42" "unat (?h - 38) = unat ?h - 38"
    using h by (simp_all add: unat_sub_if_size)
  ultimately have s: "sint (?h - 78 + 36) < sint (?h - 78 + 40)"
    using h sint_small[of "?h - 42"] sint_small[of "?h - 38"] by simp
  have below: "find (\<lambda>(_, r). PointInRect x y r) (taskbar_buttons d bx (?h - 78 + 40) i ws) = None"
    if "sint y < sint (?h - 78 + 36)" for d bx i ws
    using that s by (induction ws arbitrary: bx i) (simp_all add: Let_def PointInRect_def)
  show ?thesis using below
    by (simp add: FindTaskbarWindowAt_def taskbar_layout_def Let_def kTaskBarHeight_def taskbar_hit_buttons)
qed



subsection \<open>The event queue is a bounded queue\<close>

text \<open>Outcomes of posting and polling, in any order, on a queue and on a list of at most \<open>cap\<close> items.\<close>

datatype 'a queue_outcome = Posted bool | Polled "'a option"

fun queue_spec :: "nat \<Rightarrow> 'a option list \<Rightarrow> 'a list \<Rightarrow> 'a queue_outcome list" where
  "queue_spec cap [] q = []"
| "queue_spec cap (Some x # ops) q = (if length q < cap then Posted True # queue_spec cap ops (q @ [x]) else Posted False # queue_spec cap ops q)"
| "queue_spec cap (None # ops) q = (case q of [] \<Rightarrow> Polled None # queue_spec cap ops [] | x # xs \<Rightarrow> Polled (Some x) # queue_spec cap ops xs)"

context bounded_queue
begin

fun outcomes :: "'a option list \<Rightarrow> 'q \<Rightarrow> 'a queue_outcome list" where
  "outcomes [] q = []"
| "outcomes (Some x # ops) q = (case push q x of None \<Rightarrow> Posted False # outcomes ops q | Some q' \<Rightarrow> Posted True # outcomes ops q')"
| "outcomes (None # ops) q = (case pop q of None \<Rightarrow> Polled None # outcomes ops q | Some (x, q') \<Rightarrow> Polled (Some x) # outcomes ops q')"

lemma outcomes_spec: "inv q \<Longrightarrow> outcomes ops q = queue_spec cap ops (items q)"
proof (induction ops arbitrary: q)
  case (Cons op ops)
  show ?case
  proof (cases op)
    case None
    then show ?thesis using Cons pop_empty[of q] pop_first[of q] by (cases "items q") fastforce+
  next
    case (Some x)
    then show ?thesis
    proof (cases "length (items q) < cap")
      case True
      then show ?thesis using Some Cons push_room[of q x] by fastforce
    next
      case False
      then have "push q x = None" using Cons.prems push_full[of q x] items_le[of q] by simp
      then show ?thesis using Some Cons False by simp
    qed
  qed
qed simp

end

definition event_items :: "'a Gui_scheme \<Rightarrow> GuiEvent list" where
  "event_items s = map (\<lambda>k. g_EventQueue s ! ((g_EventReadIndex s + k) mod kEventQueueCapacity)) [0 ..< g_EventCount s]"

definition events_ok :: "'a Gui_scheme \<Rightarrow> bool" where
  "events_ok s \<longleftrightarrow> gs_event_queue_ready (g_Status s) \<and> length (g_EventQueue s) = kEventQueueCapacity \<and>
     g_EventReadIndex s < kEventQueueCapacity \<and> g_EventCount s \<le> kEventQueueCapacity \<and>
     g_EventWriteIndex s = (g_EventReadIndex s + g_EventCount s) mod kEventQueueCapacity"

definition event_push :: "'a Gui_scheme \<Rightarrow> GuiEvent \<Rightarrow> 'a Gui_scheme option" where
  "event_push s e = (let (ok, t) = KernelGuiPostEvent e s in if ok then Some t else None)"

definition event_pop :: "'a Gui_scheme \<Rightarrow> (GuiEvent \<times> 'a Gui_scheme) option" where
  "event_pop s = (let (e, t) = KernelGuiPollEvent s in map_option (\<lambda>e. (e, t)) e)"

interpretation gui_events: bounded_queue kEventQueueCapacity events_ok event_items event_push event_pop
proof (unfold_locales, goal_cases)
  case (1 s)
  then show ?case by (simp add: events_ok_def event_items_def)
next
  case (2 s e)
  let ?r = "g_EventReadIndex s" and ?n = "g_EventCount s" and ?c = kEventQueueCapacity
  have room: "?n < ?c" using 2 by (simp add: event_items_def)
  have other: "(?r + k) mod ?c \<noteq> (?r + ?n) mod ?c" if "k < ?n" for k
  proof
    assume "(?r + k) mod ?c = (?r + ?n) mod ?c"
    then have "?c dvd (?r + ?n) - (?r + k)" by (metis mod_eq_dvd_iff_nat nat_add_left_cancel_le less_imp_le that)
    then show False using that room by (simp add: nat_dvd_not_less)
  qed
  show ?case using 2 room
    by (auto simp: event_push_def KernelGuiPostEvent_def events_ok_def event_items_def nth_list_update mod_simps intro!: nth_equalityI)
      (metis other)
next
  case (3 s e)
  then show ?case by (simp add: event_push_def KernelGuiPostEvent_def event_items_def)
next
  case (4 s)
  then show ?case by (simp add: event_pop_def KernelGuiPollEvent_def event_items_def)
next
  case (5 s e es)
  then have "length (event_items s) \<noteq> 0" by simp
  then have n: "g_EventCount s \<noteq> 0" by (simp add: event_items_def)
  then obtain m where m: "g_EventCount s = Suc m" by (cases "g_EventCount s") auto
  have items: "event_items s = g_EventQueue s ! g_EventReadIndex s #
      map (\<lambda>k. g_EventQueue s ! ((g_EventReadIndex s + 1 + k) mod kEventQueueCapacity)) [0 ..< m]"
    using 5(1) by (simp add: event_items_def m events_ok_def upt_conv_Cons map_Suc_upt[symmetric] comp_def del: upt_Suc)
  have c: "kEventQueueCapacity = 64" by (simp add: kEventQueueCapacity_def)
  show ?case using 5 m items
    by (auto simp: event_pop_def KernelGuiPollEvent_def events_ok_def event_items_def mod_simps c)
qed

fun event_outcomes :: "GuiEvent option list \<Rightarrow> 'a Gui_scheme \<Rightarrow> GuiEvent queue_outcome list" where
  "event_outcomes [] s = []"
| "event_outcomes (Some e # ops) s = (let (ok, t) = KernelGuiPostEvent e s in Posted ok # event_outcomes ops t)"
| "event_outcomes (None # ops) s = (let (e, t) = KernelGuiPollEvent s in Polled e # event_outcomes ops t)"

lemma event_outcomes_run: "event_outcomes ops s = gui_events.outcomes ops s"
proof (induction ops arbitrary: s)
  case (Cons op ops)
  show ?case
  proof (cases op)
    case None
    obtain r t where poll: "KernelGuiPollEvent s = (r, t)" by (cases "KernelGuiPollEvent s")
    then have "event_pop s = map_option (\<lambda>e. (e, t)) r" "r = None \<Longrightarrow> t = s"
      by (simp add: event_pop_def, auto simp: KernelGuiPollEvent_def split: if_splits)
    then show ?thesis using Cons.IH poll None by (cases r) simp_all
  next
    case (Some e)
    obtain ok t where post: "KernelGuiPostEvent e s = (ok, t)" by (cases "KernelGuiPostEvent e s")
    then have "event_push s e = (if ok then Some t else None)" "\<not> ok \<Longrightarrow> t = s"
      by (simp add: event_push_def, auto simp: KernelGuiPostEvent_def split: if_splits)
    then show ?thesis using Cons.IH post Some by (cases ok) simp_all
  qed
qed simp

text \<open>
  C33. The event ring is a queue: any interleaving of posting and polling has the outcomes of the same calls on a list of at most 64
  events, first in, first out, posting refused exactly when it is full and polling empty exactly when nothing is queued.
\<close>

theorem event_queue_refines:
  assumes "events_ok s"
  shows "event_outcomes ops s = queue_spec kEventQueueCapacity ops (event_items s)"
  unfolding event_outcomes_run using assms by (rule gui_events.outcomes_spec)

theorem event_queue_refines_witness:
  "\<forall>(s :: Gui) e ops. let t = s\<lparr>g_Status := (g_Status s)\<lparr>gs_event_queue_ready := True\<rparr>, g_EventQueue := replicate 64 e, g_EventReadIndex := 63,
      g_EventWriteIndex := 1, g_EventCount := 2\<rparr> in event_outcomes ops t = queue_spec 64 ops [e, e]"
proof (intro allI)
  fix s :: Gui and e ops
  let ?t = "s\<lparr>g_Status := (g_Status s)\<lparr>gs_event_queue_ready := True\<rparr>, g_EventQueue := replicate 64 e, g_EventReadIndex := 63,
      g_EventWriteIndex := 1, g_EventCount := 2\<rparr>"
  have "events_ok ?t" by (simp add: events_ok_def kEventQueueCapacity_def)
  moreover have "event_items ?t = [e, e]" by (simp add: event_items_def kEventQueueCapacity_def numeral_2_eq_2)
  ultimately show "let t = ?t in event_outcomes ops t = queue_spec 64 ops [e, e]"
    using event_queue_refines[of ?t ops] by (simp add: kEventQueueCapacity_def)
qed

end
