(* ===== verification/GuiPump.thy ===== *)
theory GuiPump
  imports GuiEvents
begin

text \<open>
  \<^verbatim>\<open>kernel/src/gui.cpp\<close>: handling an event leaves the event queue alone, so pumping the events ends.

  Every operation of a layer leaves the layers above it unchanged: \<open>Desk.more\<close> for the windows, \<open>AppDesk.more\<close> for the applications.
\<close>

named_theorems upper \<open>operations that leave the upper layers alone\<close>

subsection \<open>Windows\<close>

lemma focus_upper [simp, upper]:
  "Desk.more (gui_log l m s) = Desk.more s" "Desk.more (update_window i f s) = Desk.more s" "Desk.more (ClearWindowFocus s) = Desk.more s"
  "Desk.more (snd (BringWindowToFront i s)) = Desk.more s"
  by (simp_all add: gui_log_def update_window_def ClearWindowFocus_def BringWindowToFront_def Let_def)

lemma FocusWindow_upper [simp, upper]: "Desk.more (snd (FocusWindow i s)) = Desk.more s"
  by (simp add: FocusWindow_def split_beta)

lemma FocusTop_upper [simp, upper]: "Desk.more (FocusTopVisibleWindow s) = Desk.more s"
  by (simp add: FocusTopVisibleWindow_def Let_def)

lemma runtime_upper [simp, upper]: "Desk.more (update_runtime i f s) = Desk.more s" "Desk.more (change_runtime_state a b c s) = Desk.more s"
  "Desk.more (ShowNotification t k s) = Desk.more s" "Desk.more (RememberAppPlacement a r s) = Desk.more s"
  by (simp_all add: update_runtime_def change_runtime_state_def ShowNotification_def RememberAppPlacement_def split: option.split)

lemma place_upper [simp, upper]: "Desk.more (place_window i r s) = Desk.more s" "Desk.more (MoveWindow i x y s) = Desk.more s"
  "Desk.more (snd (AddWindow t r k a d p q s)) = Desk.more s" "Desk.more (snd (ResizeWindow i w h s)) = Desk.more s"
  "Desk.more (snd (SnapWindow i e s)) = Desk.more s" "Desk.more (snd (SwitchVirtualDesktop d s)) = Desk.more s"
  "Desk.more (MinimizeWindow i s) = Desk.more s" "Desk.more (ToggleMaximizeWindow i s) = Desk.more s"
  "Desk.more (RestoreWindowFromTaskbar i s) = Desk.more s"
  by (simp_all add: place_window_def MoveWindow_def AddWindow_def ResizeWindow_def SnapWindow_def SwitchVirtualDesktop_def MinimizeWindow_def
      ToggleMaximizeWindow_def RestoreWindowFromTaskbar_def Let_def)

lemma restore_upper [simp, upper]: "Desk.more (snd (RestoreOrFocusRunningApp a s)) = Desk.more s" "Desk.more (snd (launch_failed i s)) = Desk.more s"
  "Desk.more (snd (open_window a n p q s)) = Desk.more s"
  by (simp_all add: RestoreOrFocusRunningApp_def launch_failed_def open_window_def Let_def)

lemma LaunchApplication_upper [simp, upper]: "Desk.more (snd (LaunchApplication env app s)) = Desk.more s"
  by (simp add: LaunchApplication_def Let_def split_beta split: option.split)

lemma launch_upper [simp, upper]: "Desk.more (snd (LaunchApplicationById env a s)) = Desk.more s" "Desk.more (CloseWindow i s) = Desk.more s"
  "Desk.more (snd (TaskManagerKillFocusedApp s)) = Desk.more s" "Desk.more (AdvanceDesktopTransitions s) = Desk.more s"
  by (simp_all add: LaunchApplicationById_def CloseWindow_def TaskManagerKillFocusedApp_def AdvanceDesktopTransitions_def Let_def split: option.split)

subsection \<open>Applications\<close>

lemma app_of_desk: "Desk.more s = Desk.more t \<Longrightarrow> AppDesk.more s = AppDesk.more t"
  for s t :: "'a AppDesk_scheme"
  by (cases s; cases t) simp

lemma desk_calls [simp, upper]:
  "AppDesk.more (snd (LaunchApplicationById env a s)) = AppDesk.more s" "AppDesk.more (update_runtime i f s) = AppDesk.more s"
  "AppDesk.more (snd (TaskManagerKillFocusedApp s)) = AppDesk.more s" "AppDesk.more (ShowNotification t k s) = AppDesk.more s"
  by (rule app_of_desk, simp)+

lemma app_updates_upper:
  "AppDesk.more (s\<lparr>g_TextEditor := e\<rparr>) = AppDesk.more s" "AppDesk.more (s\<lparr>g_Calculator := c\<rparr>) = AppDesk.more s"
  "AppDesk.more (s\<lparr>g_Settings := st\<rparr>) = AppDesk.more s" "AppDesk.more (s\<lparr>g_TerminalSession := u\<rparr>) = AppDesk.more s"
  by simp_all

lemma files_upper [simp, upper]:
  "AppDesk.more (snd (NativeFileAdd p d c s)) = AppDesk.more s" "AppDesk.more (snd (NativeFileRename p q s)) = AppDesk.more s"
  "AppDesk.more (snd (NativeFileDelete p s)) = AppDesk.more s" "AppDesk.more (set_fm f s) = AppDesk.more s" "AppDesk.more (fm_report m s) = AppDesk.more s"
  by (simp_all add: NativeFileAdd_def NativeFileRename_def NativeFileDelete_def NativeFileClear_def fm_report_def set_fm_def Let_def split: option.split)

lemma editor_upper [simp, upper]: "AppDesk.more (snd (TextEditorOpenFile p s)) = AppDesk.more s" "AppDesk.more (snd (TextEditorSaveAs p s)) = AppDesk.more s"
  by (simp_all add: TextEditorOpenFile_def TextEditorSaveAs_def Let_def split_beta split: option.split)

lemma TextEditorHandleKey_upper [simp, upper]: "AppDesk.more (snd (TextEditorHandleKey key m s)) = AppDesk.more s"
  by (simp only: TextEditorHandleKey_def Let_def TextEditorSave_def if_distrib[of snd] if_distrib[of AppDesk.more] snd_conv editor_upper app_updates_upper if_cancel)

lemma small_apps_upper [simp, upper]: "AppDesk.more (snd (CalculatorHandleKey key s)) = AppDesk.more s" "AppDesk.more (snd (SettingsHandleKey key s)) = AppDesk.more s"
  by (simp_all only: CalculatorHandleKey_def SettingsHandleKey_def Let_def split_beta if_distrib[of snd] if_distrib[of AppDesk.more] snd_conv app_updates_upper if_cancel)

lemma LaunchAssociatedFile_upper [simp, upper]: "AppDesk.more (snd (LaunchAssociatedFile env p s)) = AppDesk.more s"
  by (simp add: LaunchAssociatedFile_def split_beta split: AppKind.split)

lemma FileManagerOpenPath_upper [simp, upper]: "AppDesk.more (snd (FileManagerOpenPath env p s)) = AppDesk.more s"
  by (simp add: FileManagerOpenPath_def split: option.split)

lemma file_manager_upper [simp, upper]:
  "AppDesk.more (snd (FileManagerBack s)) = AppDesk.more s" "AppDesk.more (snd (FileManagerForward s)) = AppDesk.more s"
  by (simp_all add: FileManagerBack_def FileManagerForward_def)

lemma file_manager_ops_upper [simp, upper]:
  "AppDesk.more (snd (FileManagerCreateFolder n s)) = AppDesk.more s" "AppDesk.more (snd (FileManagerMoveSelected d s)) = AppDesk.more s"
  by (simp_all only: FileManagerCreateFolder_def FileManagerMoveSelected_def Let_def split_beta snd_conv files_upper if_distrib[of AppDesk.more] if_cancel)

lemma FileManagerCopySelected_upper [simp, upper]: "AppDesk.more (snd (FileManagerCopySelected d s)) = AppDesk.more s"
  by (cases "FindNativeFile (Some (fm_selected_path (g_FileManager s))) s") (simp_all only: FileManagerCopySelected_def option.case Let_def split_beta snd_conv files_upper)

lemma file_manager_key_upper [simp, upper]: "AppDesk.more (snd (file_manager_key env key s)) = AppDesk.more s"
  by (simp only: file_manager_key_def Let_def if_distrib[of snd] if_distrib[of AppDesk.more] snd_conv files_upper file_manager_upper
      file_manager_ops_upper FileManagerCopySelected_upper FileManagerOpenPath_upper if_cancel)

lemma terminal_upper_steps: "terminal_steps_keep (\<lambda>s :: 'a AppDesk_scheme. AppDesk.more s = u)"
  by (simp add: terminal_steps_keep_def TerminalAppendLine_def TerminalRecordHistory_def TerminalClear_def TerminalKillProcess_def
      TerminalRecallHistory_def Let_def split_beta split: option.split)

lemma TerminalHandleKey_upper [simp, upper]: "AppDesk.more (snd (TerminalHandleKey key m s)) = AppDesk.more s"
proof -
  have append: "AppDesk.more (TerminalAppendLine l c t) = AppDesk.more t" for l c and t :: "'a AppDesk_scheme"
    using terminal_upper_steps[of "AppDesk.more t"] by (auto simp: terminal_steps_keep_def)
  have "AppDesk.more (snd (ExecuteTerminalCommand c t)) = AppDesk.more t" for c and t :: "'a AppDesk_scheme"
    using ExecuteTerminalCommand_keeps[OF terminal_upper_steps[of "AppDesk.more t"], of t c] by simp
  then show ?thesis
    by (simp only: TerminalHandleKey_def TerminalSubmitInput_def Let_def split_beta if_distrib[of snd] if_distrib[of AppDesk.more] snd_conv
        app_updates_upper append if_cancel)
qed

lemma DispatchKey_upper [simp, upper]: "AppDesk.more (snd (DispatchKeyToFocusedApp env key m s)) = AppDesk.more s"
  by (simp add: DispatchKeyToFocusedApp_def split: AppKind.split)

subsection \<open>Events\<close>

text \<open>The event queue and whether it is ready.\<close>

definition queue_part :: "'a Gui_scheme \<Rightarrow> bool \<times> GuiEvent list \<times> nat \<times> nat \<times> nat" where
  "queue_part s = (gs_event_queue_ready (g_Status s), g_EventQueue s, g_EventReadIndex s, g_EventWriteIndex s, g_EventCount s)"

lemma queue_of_app: "AppDesk.more s = AppDesk.more t \<Longrightarrow> queue_part s = queue_part t"
  for s t :: "'a Gui_scheme"
  by (cases s; cases t) (simp add: queue_part_def)

lemma queue_of_desk: "Desk.more s = Desk.more t \<Longrightarrow> queue_part s = queue_part t"
  for s t :: "'a Gui_scheme"
  by (rule queue_of_app, rule app_of_desk)

lemma pointer_queue [simp]: "queue_part (set_mouse x y s) = queue_part s" "queue_part (UpdateHoverState s) = queue_part s"
  "queue_part (on_gui_screen f s) = queue_part s" "queue_part (restore_cursor s) = queue_part s" "queue_part (MoveCursorOnly x y s) = queue_part s"
  by (simp_all add: queue_part_def set_mouse_def ClampMouseToScreen_def UpdateHoverState_def on_gui_screen_def restore_cursor_def MoveCursorOnly_def Let_def)

lemma ComposeWindow_queue [simp]: "queue_part (ComposeWindow w a s) = queue_part s"
  by (simp add: ComposeWindow_def Let_def) (simp add: queue_part_def on_gui_screen_def TerminalReflowForWindow_def Let_def)

lemma compose_queue [simp]: "queue_part (compose_contents s) = queue_part s"
proof -
  have "queue_part (fold (\<lambda>i s. ComposeWindow (g_Windows s ! i) (w_focused (g_Windows s ! i)) s) is t) = queue_part t" for "is" and t :: "'a Gui_scheme"
    by (induction "is" arbitrary: t) simp_all
  then show ?thesis by (simp add: compose_contents_def Let_def)
qed

lemma redraw_queue [simp]: "queue_part (snd (ComposeDesktop s)) = queue_part s" "queue_part (redraw s) = queue_part s"
  "queue_part (RedrawDirtyRegion r s) = queue_part s"
proof -
  have advance: "queue_part (AdvanceDesktopTransitions t) = queue_part t" for t :: "'a Gui_scheme" by (rule queue_of_desk) simp
  show compose: "queue_part (snd (ComposeDesktop s)) = queue_part s" by (simp add: ComposeDesktop_def Let_def advance)
  then show "queue_part (redraw s) = queue_part s" by (simp add: redraw_def)
  show "queue_part (RedrawDirtyRegion r s) = queue_part s" by (simp add: RedrawDirtyRegion_def Let_def advance compose)
qed

lemma click_queue [simp]: "queue_part (HandleMouseClick env x y b s) = queue_part s"
proof -
  have contents: "AppDesk.more (click_contents env x y i t) = AppDesk.more t" for i and t :: "'a Gui_scheme"
    by (simp add: click_contents_def Let_def split: AppKind.split)
  have windows: "AppDesk.more (RestoreWindowFromTaskbar i t) = AppDesk.more t" "AppDesk.more (snd (FocusWindow i t)) = AppDesk.more t"
    "AppDesk.more (CloseWindow i t) = AppDesk.more t" "AppDesk.more (MinimizeWindow i t) = AppDesk.more t"
    "AppDesk.more (ToggleMaximizeWindow i t) = AppDesk.more t" for i and t :: "'a Gui_scheme"
    by (rule app_of_desk, simp)+
  have "AppDesk.more (HandleMouseClick env x y b s) = AppDesk.more s"
    by (simp add: HandleMouseClick_def Let_def windows contents split: option.split WindowControl.split)
  then show ?thesis by (rule queue_of_app)
qed

lemma press_queue [simp]: "queue_part (press_window s) = queue_part s"
proof -
  have focus: "queue_part (snd (FocusWindow i t)) = queue_part t" for i and t :: "'a Gui_scheme" by (rule queue_of_desk) simp
  have upd: "queue_part (t\<lparr>g_DragWindowIndex := i\<rparr>) = queue_part t" "queue_part (t\<lparr>g_DragOffsetX := x, g_DragOffsetY := y\<rparr>) = queue_part t"
    "queue_part (t\<lparr>g_MouseDownX := x, g_MouseDownY := y, g_MouseDownWindowIndex := i, g_DragWindowIndex := j, g_Dragging := b\<rparr>) = queue_part t"
    for t :: "'a Gui_scheme" and i j x y b by (simp_all add: queue_part_def)
  show ?thesis
    unfolding press_window_def Let_def
    by (simp only: if_distrib[of queue_part] upd focus if_cancel)
qed

lemma DispatchEvent_queue: "queue_part (DispatchEvent env e s) = queue_part s"
proof -
  have desk: "queue_part (MoveWindow i x y t) = queue_part t" "queue_part (snd (SnapWindow i edge t)) = queue_part t"
    "queue_part (snd (ResizeWindow i w h t)) = queue_part t" "queue_part (ToggleMaximizeWindow i t) = queue_part t"
    "queue_part (snd (SwitchVirtualDesktop d t)) = queue_part t" for i x y edge w h d and t :: "'a Gui_scheme"
    by (rule queue_of_desk, simp)+
  have key: "queue_part (snd (DispatchKeyToFocusedApp env k m t)) = queue_part t" for k m and t :: "'a Gui_scheme"
    by (rule queue_of_app) simp
  have upd: "queue_part (t\<lparr>g_Dragging := b\<rparr>) = queue_part t" "queue_part (t\<lparr>g_LeftButtonDown := b\<rparr>) = queue_part t"
    "queue_part (t\<lparr>g_DragWindowIndex := i\<rparr>) = queue_part t" "queue_part (t\<lparr>g_MouseDownWindowIndex := i\<rparr>) = queue_part t"
    "queue_part (t\<lparr>g_TerminalScrollOffset := o1\<rparr>) = queue_part t" "queue_part (t\<lparr>g_TextEditor := ed\<rparr>) = queue_part t"
    for t :: "'a Gui_scheme" and b i o1 ed by (simp_all add: queue_part_def)
  have up: "queue_part (mouse_up env e t) = queue_part t" for t :: "'a Gui_scheme"
    unfolding mouse_up_def Let_def by (simp only: if_distrib[of queue_part] redraw_queue pointer_queue upd desk click_queue if_cancel)
  have wheel: "queue_part (mouse_wheel d t) = queue_part t" for d and t :: "'a Gui_scheme"
    unfolding mouse_wheel_def Let_def by (simp only: if_distrib[of queue_part] pointer_queue upd if_cancel)
  have drag: "queue_part (drag_window e t) = queue_part t" for t :: "'a Gui_scheme"
    by (simp add: drag_window_def Let_def desk upd)
  show ?thesis
  proof (cases "ge_type e")
    case KeyDown
    then show ?thesis by (simp add: DispatchEvent_def split_beta key desk)
  next
    case MouseDown
    then show ?thesis by (simp add: DispatchEvent_def Let_def upd)
  qed (simp_all add: DispatchEvent_def Let_def up wheel drag desk)
qed

lemma pump_ends: "g_EventCount s < n \<Longrightarrow> \<exists>t. pump n env s = Some t"
proof (induction n arbitrary: s)
  case (Suc n)
  show ?case
  proof (cases "gs_event_queue_ready (g_Status s) \<and> g_EventCount s \<noteq> 0")
    case True
    then obtain e u where poll: "KernelGuiPollEvent s = (Some e, u)" "g_EventCount u = g_EventCount s - 1" by (auto simp: KernelGuiPollEvent_def)
    have "g_EventCount (DispatchEvent env e u) = g_EventCount u"
      using DispatchEvent_queue[of env e u] by (simp add: queue_part_def)
    then have "g_EventCount (DispatchEvent env e u) < n" using poll(2) True Suc.prems by linarith
    from Suc.IH[OF this] show ?thesis using poll(1) by simp
  next
    case False
    then have "KernelGuiPollEvent s = (None, s)" by (auto simp: KernelGuiPollEvent_def)
    then show ?thesis by simp
  qed
qed simp


end
