(* ===== verification/GuiMedia.thy ===== *)
theory GuiMedia
  imports GuiTypes
begin

text \<open>
  \<^verbatim>\<open>kernel/src/gui.cpp\<close>: the image and font headers the desktop recognises, and the glyph cache.

  A pointer with a size is the list of its bytes, or none; the out-parameters of a decoder keep their values unless the header is one.
\<close>

definition byte_at :: "u8 list \<Rightarrow> nat \<Rightarrow> u32" where
  "byte_at data i = ucast (data ! i)"

definition ReadBe32 :: "u8 list \<Rightarrow> nat \<Rightarrow> u32" where
  "ReadBe32 data i = push_bit 24 (byte_at data i) OR push_bit 16 (byte_at data (i + 1)) OR push_bit 8 (byte_at data (i + 2)) OR byte_at data (i + 3)"

definition Gui_ReadLe32 :: "u8 list \<Rightarrow> nat \<Rightarrow> u32" where
  "Gui_ReadLe32 data i = byte_at data i OR push_bit 8 (byte_at data (i + 1)) OR push_bit 16 (byte_at data (i + 2)) OR push_bit 24 (byte_at data (i + 3))"

definition png_signature :: "u8 list" where
  "png_signature = [0x89, 0x50, 0x4E, 0x47, 0x0D, 0x0A, 0x1A, 0x0A]"

definition DecodePngHeader :: "u8 list option \<Rightarrow> u32 \<times> u32 \<Rightarrow> bool \<times> u32 \<times> u32" where
  "DecodePngHeader data size0 =
     (case data of None \<Rightarrow> (False, size0)
      | Some bs \<Rightarrow>
          if length bs < 24 \<or> take 8 bs \<noteq> png_signature \<or> bs ! 12 \<noteq> 0x49 \<or> bs ! 13 \<noteq> 0x48 \<or> bs ! 14 \<noteq> 0x44 \<or> bs ! 15 \<noteq> 0x52 then (False, size0)
          else (let width = ReadBe32 bs 16; height = ReadBe32 bs 20 in (width \<noteq> 0 \<and> height \<noteq> 0, width, height)))"

definition DecodeBmpHeader :: "u8 list option \<Rightarrow> u32 \<times> u32 \<Rightarrow> bool \<times> u32 \<times> u32" where
  "DecodeBmpHeader data size0 =
     (case data of None \<Rightarrow> (False, size0)
      | Some bs \<Rightarrow>
          if length bs < 26 \<or> bs ! 0 \<noteq> 0x42 \<or> bs ! 1 \<noteq> 0x4D then (False, size0)
          else (let width = Gui_ReadLe32 bs 18; height = Gui_ReadLe32 bs 22 in (width \<noteq> 0 \<and> height \<noteq> 0, width, height)))"

definition DecodeJpegHeader :: "u8 list option \<Rightarrow> bool" where
  "DecodeJpegHeader data =
     (case data of None \<Rightarrow> False
      | Some bs \<Rightarrow> (let n = length bs in n \<ge> 4 \<and> bs ! 0 = 0xFF \<and> bs ! 1 = 0xD8 \<and> bs ! (n - 2) = 0xFF \<and> bs ! (n - 1) = 0xD9))"

definition DecodeSvgDocument :: "cstring \<Rightarrow> bool" where
  "DecodeSvgDocument data =
     (case data of None \<Rightarrow> False
      | Some cs \<Rightarrow> take 4 (dropWhile (\<lambda>c. c = CHR '' '' \<or> c = CHR 0x0A \<or> c = CHR 0x09) cs) = ''<svg'')"

definition LoadTrueTypeFont :: "u8 list option \<Rightarrow> bool" where
  "LoadTrueTypeFont data =
     (case data of None \<Rightarrow> False
      | Some bs \<Rightarrow> length bs \<ge> 12 \<and> (take 4 bs = [0, 1, 0, 0] \<or> take 4 bs = [0x4F, 0x54, 0x54, 0x4F]))"

record FontCacheEntry =
  fc_codepoint :: u32
  fc_pixels :: "u8 list"
  fc_valid :: bool

text \<open>The first entry that has the code point or is free.\<close>

definition CacheFontGlyph :: "u32 \<Rightarrow> u8 list \<Rightarrow> FontCacheEntry list \<Rightarrow> bool \<times> FontCacheEntry list" where
  "CacheFontGlyph codepoint pixels8 cache =
     (case find_index (\<lambda>e. fc_valid e \<and> fc_codepoint e = codepoint \<or> \<not> fc_valid e) cache of
        None \<Rightarrow> (False, cache)
      | Some i \<Rightarrow>
          if fc_valid (cache ! i) then (True, cache)
          else (True, cache[i := \<lparr>fc_codepoint = codepoint, fc_pixels = take 8 pixels8, fc_valid = True\<rparr>]))"

text \<open>The valid entries are a prefix without repeated code points: the first free entry ends the search.\<close>

definition font_cache_ok :: "FontCacheEntry list \<Rightarrow> bool" where
  "font_cache_ok cache \<longleftrightarrow> (\<forall>i j. i < j \<and> j < length cache \<and> fc_valid (cache ! j) \<longrightarrow> fc_valid (cache ! i) \<and> fc_codepoint (cache ! i) \<noteq> fc_codepoint (cache ! j))"

lemma CacheFontGlyph_ok:
  assumes ok: "font_cache_ok cache"
  shows "font_cache_ok (snd (CacheFontGlyph codepoint pixels8 cache))"
proof (cases "find_index (\<lambda>e. fc_valid e \<and> fc_codepoint e = codepoint \<or> \<not> fc_valid e) cache")
  case (Some k)
  have k: "k < length cache" "\<And>j. j < k \<Longrightarrow> fc_valid (cache ! j) \<and> fc_codepoint (cache ! j) \<noteq> codepoint"
    using Some by (auto simp: find_index_Some)
  show ?thesis
  proof (cases "fc_valid (cache ! k)")
    case False
    have behind: "\<not> fc_valid (cache ! j)" if "k < j" "j < length cache" for j using ok False that unfolding font_cache_ok_def by blast
    show ?thesis using ok k behind False Some unfolding font_cache_ok_def
      by (auto simp: CacheFontGlyph_def nth_list_update)
  qed (simp add: CacheFontGlyph_def Some ok)
qed (simp add: CacheFontGlyph_def ok)

lemma CacheFontGlyph_again:
  assumes "fst (CacheFontGlyph c p cache)"
  shows "CacheFontGlyph c q (snd (CacheFontGlyph c p cache)) = (True, snd (CacheFontGlyph c p cache))"
proof -
  obtain k where k: "find_index (\<lambda>e. fc_valid e \<and> fc_codepoint e = c \<or> \<not> fc_valid e) cache = Some k"
    using assms by (auto simp: CacheFontGlyph_def split: option.splits)
  show ?thesis
  proof (cases "fc_valid (cache ! k)")
    case False
    let ?e = "\<lparr>fc_codepoint = c, fc_pixels = take 8 p, fc_valid = True\<rparr>"
    have "find_index (\<lambda>e. fc_valid e \<and> fc_codepoint e = c \<or> \<not> fc_valid e) (cache[k := ?e]) = Some k"
      by (rule find_index_update_same[OF k]) simp
    then show ?thesis using False find_indexD(1)[OF k] by (simp add: CacheFontGlyph_def k)
  qed (simp add: CacheFontGlyph_def k)
qed

end
