(* ===== verification/Spec2Isabelle.thy ===== *)
theory Spec2Isabelle
  imports Scheduler MemorySystem FileSystem Network Security UserApps SchedulerProgress BootMain GuiPump GuiMedia
begin

text \<open>
  The UEFI boot system: a model of its kernel in HOL and the theorems that make its parts
  correct. The repository holds a UEFI boot loader (\<^verbatim>\<open>bootloader/\<close>) that loads an ELF kernel and
  hands it a \<open>BootInfo\<close> record, and the kernel (\<^verbatim>\<open>kernel/\<close>), which brings up its subsystems in a
  fixed order: memory, scheduler, file systems, network, security, drivers, graphics, user
  space. Each subsystem is one C++ file with its state in file-scope variables, a
  \<open>Kernel...Init\<close> that resets the state and runs the boot self-tests, operations over fixed-size
  tables and a \<open>Print...Info\<close> that reports to the kernel log.

  \<^bold>\<open>How the code is modelled.\<close> A subsystem's file-scope variables are one record, its structs are
  records with the fields of the source, its enums datatypes. An operation takes the state and
  returns the result with the new state; out-parameters and stores into the caller's memory are
  part of the result. Integers keep their width as words, so every sum wraps where the code's
  does; indices into tables are natural numbers. A \<open>const char*\<close> is a \<open>cstring\<close>, \<open>None\<close> for the
  null pointer. A table is a list of fixed length with its free entries marked as the code marks
  them. Bytes of physical memory are a function from addresses. The lines a component sends to
  the kernel log are kept in its own state: their order within a component is that of the code,
  the interleaving of the logs of different components is not modelled. Nothing of the sources
  is assumed: parameters stand for the firmware's memory map, the processor's registers, the
  addresses the linker chooses and the contents of memory before a call.

  \<^bold>\<open>Theories.\<close>

  \<^item> \<open>Prelude\<close>: words, the string functions, searching and counting in tables, the collections
    \<open>table_simps\<close>, \<open>sched_keeps\<close> and others.
  \<^item> \<open>Interfaces\<close>: the contracts components rely on, as locales: \<open>page_provider\<close> (frames handed out
    are free, distinct and accounted for), \<open>bounded_queue\<close>, \<open>registry\<close> (what is registered is
    found, other keys stay), \<open>append_table\<close>. Every locale is interpreted on the model's operations
    in the theory of the component that provides them.
  \<^item> \<open>PhysMem\<close> (\<^verbatim>\<open>kernel/src/kernel.cpp\<close>, \<open>PhysicalMemoryManager\<close>, \<open>KernelHeap\<close>, huge pages, NUMA,
    identity page tables): the page bitmap with its counters, first-fit search, the boot-time
    marking of the memory map, the bump allocator, the page tables of the first 4 GiB. Lemma
    groups: counters equal population counts, first fit is lowest fit, allocations avoid the
    kernel and each other, the page tables translate every address to itself.
  \<^item> \<open>PageManagers\<close>, \<open>Slab\<close>, \<open>Mappings\<close> (\<^verbatim>\<open>kernel.cpp\<close>): copy-on-write pages, shared segments, swap,
    the slab allocator with its free lists threaded through the pages, the page cache and memory
    mappings with demand paging. Lemma groups: one owner for each frame, contents kept or
    zeroed as promised, no two live objects overlap, reference counts and where they wrap.
  \<^item> \<open>MemorySystem\<close> (\<^verbatim>\<open>kernel.cpp\<close>, \<open>KernelMemoryInit\<close>, the self-tests): the managers side by side
    on one physical memory, with the invariant that no frame has two owners across all of them.
  \<^item> \<open>Console\<close> (\<^verbatim>\<open>kernel.cpp\<close>, \<open>KernelConsole\<close>): drawing characters into the framebuffer, scrolling,
    number output. Lemma groups: only visible pixels are written, termination and where
    scrolling recurses for ever, printed numbers read back.
  \<^item> \<open>Scheduler\<close>, \<open>SchedulerProgress\<close> (\<^verbatim>\<open>kernel/src/scheduler.cpp\<close>, \<^verbatim>\<open>context_switch.S\<close>): processes,
    threads, the choice of the next thread, sleeping, signals, IPC rings, mutexes, futexes, epoll,
    event and timer descriptors. Calls that may switch return whether they did; what follows a
    switch is an operation of its own (\<open>..._resume\<close>, \<open>..._check\<close>). Lemma groups: the table
    invariant \<open>sched_ok\<close> kept by every operation, selection, hand-over, queue order, progress.
  \<^item> \<open>FileSystem\<close> (\<^verbatim>\<open>kernel/src/filesystem.cpp\<close>), \<open>Network\<close> (\<^verbatim>\<open>kernel/src/network.cpp\<close>), \<open>Security\<close>
    (\<^verbatim>\<open>kernel/src/security.cpp\<close>): whole files. Lemma groups: tables typed and bounded, mount
    lookup, checksums, sockets, access decisions, address randomisation, the random generator.
  \<^item> \<open>UserTables\<close>, \<open>UserElf\<close>, \<open>UserSpace\<close>, \<open>UserApps\<close> (\<^verbatim>\<open>kernel/src/userspace.cpp\<close>): the tables, the
    ELF loader, system calls, boot and applications, and what sequences of calls do. Lemma
    groups: last value set wins, pipes refine a byte queue, the loader refines its rule, images
    of launched applications are disjoint.
  \<^item> \<open>Bytes\<close>: memory as a function from addresses to bytes, little-endian fields, blocks.
  \<^item> \<open>BootConsole\<close>, \<open>BootLoader\<close>, \<open>BootKernelImage\<close>, \<open>BootGraphics\<close>, \<open>BootMain\<close> (\<^verbatim>\<open>bootloader/src/\<close>): output through
    the firmware, files of the boot volume, the kernel loader, the graphics mode and drawing, the
    memory map and \<open>efi_main\<close>. The
    firmware is a parameter, a record of its services as functions of its own state; what it is
    relied on for is stated by \<open>reads_file\<close>, \<open>gives_pool\<close>, \<open>standard_gop\<close>, \<open>has_volume\<close> and \<open>gives_map\<close>, after the UEFI
    specification. Lemma groups: when printing returns, the image in memory after loading, the
    mode chosen, drawing stays inside the frame buffer, the hand-over, a boot from end to end.

  \<^item> \<open>GuiTypes\<close>, \<open>GuiScreen\<close>, \<open>GuiWindows\<close>, \<open>GuiLaunch\<close>, \<open>GuiApps\<close>, \<open>GuiTerminal\<close>, \<open>GuiRender\<close>, \<open>GuiEvents\<close>,
    \<open>GuiPump\<close>, \<open>GuiMedia\<close> (\<^verbatim>\<open>kernel/src/gui.cpp\<close>): rectangles and the application table; pixels, lines,
    glyphs and the pointer's saved background; the z-ordered windows with focus and virtual
    desktops; launching through the user space model; file manager, editor, calculator and
    settings; the terminal; the composition of the desktop; pointer and key events with their
    queue; the pump; image and font headers. The state is one record in three layers, \<open>Desk\<close>,
    \<open>AppDesk\<close> and \<open>Gui\<close>, each extending the one before, so an operation is stated over the layer it
    touches. Lemma groups: the desktop invariant \<open>desk_ok\<close> kept by every operation, drawing stays in
    the buffers, the pointer leaves no trace, the queue refines a bounded queue, the calculator
    computes, terminal buffers stay bounded, recursion and pumping end. Frame buffer and back
    buffer are functions from pixel indices; program and stack contents a launch depends on are
    fields of the parameter \<open>GuiEnv\<close>.

  \<^bold>\<open>Composition.\<close> The memory managers share one frame allocator through \<open>page_provider\<close>; thread
  creation takes its stacks from the kernel heap; the user space layer runs on the scheduler
  state, so launching an application creates a process there and a signal is delivered to a
  thread there. The window system launches and ends applications through the user space model,
  whose state is a field of its own.

  \<^bold>\<open>Bounds and fuel.\<close> Loops over tables are structural or have a measure; the only fuel is the
  recursion of the console's scrolling, which diverges on displays lower than 72 pixels (proved)
  and ends on displays of at least 548 by 72 (proved). \<open>SdkLibmSqrt\<close> is a partial function, as its
  loop need not end. Invariants of the scheduler hold for runs of up to \<open>2 ^ 62\<close> calls, the bound
  under which its 64-bit identifiers cannot wrap.

  \<^bold>\<open>Not modelled.\<close> The self-tests of the window system, which drive its operations on fixed inputs
  between the two halves of \<open>KernelGuiInit\<close> modelled here; the device drivers and the processor
  set-up, which are port and register accesses; the performance counters; and \<open>kernel_main\<close> itself.
\<close>

end
